(* ===== verification/Prelude.thy ===== *)
theory Prelude
  imports Main "HOL-Library.Word" "HOL-Library.Signed_Division"
begin

text \<open>
  What every component shares: results with errors as values, JavaScript's reading of an array
  out of range, JavaScript's truncating bigint division and its 32-bit bitwise operators, and the
  collections of simplification rules that the component proofs use.

  A function that can throw returns a value of the sum type: \<open>Inl e\<close> is the exception,
  \<open>Inr x\<close> the value returned.
\<close>

unbundle bit_operations_syntax

named_theorems result_simps "unfolding of the error-passing combinators"
named_theorems arith_bounds "bounds of the fixed-point arithmetic"

type_synonym byte = "8 word"

subsection \<open>Errors as values\<close>

definition rbind :: "'e + 'a \<Rightarrow> ('a \<Rightarrow> 'e + 'b) \<Rightarrow> 'e + 'b" where
  "rbind r f = (case r of Inl e \<Rightarrow> Inl e | Inr x \<Rightarrow> f x)"

lemma rbind_Inl [simp, result_simps]: "rbind (Inl e) f = Inl e"
  by (simp add: rbind_def)

lemma rbind_Inr [simp, result_simps]: "rbind (Inr x) f = f x"
  by (simp add: rbind_def)

lemma rbind_eq_Inr_iff [result_simps]:
  "rbind r f = Inr y \<longleftrightarrow> (\<exists>x. r = Inr x \<and> f x = Inr y)"
  by (cases r) auto

lemma rbind_eq_Inl_iff [result_simps]:
  "rbind r f = Inl e \<longleftrightarrow> r = Inl e \<or> (\<exists>x. r = Inr x \<and> f x = Inl e)"
  by (cases r) auto

fun map_result :: "('a \<Rightarrow> 'e + 'b) \<Rightarrow> 'a list \<Rightarrow> 'e + 'b list" where
  "map_result f [] = Inr []"
| "map_result f (x # xs) = rbind (f x) (\<lambda>y. rbind (map_result f xs) (\<lambda>ys. Inr (y # ys)))"

lemma map_result_Inr_iff:
  "map_result f xs = Inr ys \<longleftrightarrow> list_all2 (\<lambda>x y. f x = Inr y) xs ys"
proof (induction xs arbitrary: ys)
  case Nil
  then show ?case by auto
next
  case (Cons x xs)
  then show ?case
    by (cases ys) (auto simp: rbind_eq_Inr_iff)
qed

lemma map_result_all_Inr: "(\<And>x. x \<in> set xs \<Longrightarrow> f x = Inr (g x)) \<Longrightarrow> map_result f xs = Inr (map g xs)"
  by (induction xs) auto

subsection \<open>Array reads\<close>

text \<open>\<open>xs[i]\<close> is \<open>undefined\<close> out of range: the value \<open>None\<close>.\<close>

definition at_opt :: "'a list \<Rightarrow> nat \<Rightarrow> 'a option" where
  "at_opt xs i = (if i < length xs then Some (xs ! i) else None)"

lemma at_opt_Nil [simp]: "at_opt [] i = None"
  by (simp add: at_opt_def)

lemma at_opt_Cons_0 [simp]: "at_opt (x # xs) 0 = Some x"
  by (simp add: at_opt_def)

lemma at_opt_Cons_Suc [simp]: "at_opt (x # xs) (Suc i) = at_opt xs i"
  by (simp add: at_opt_def)

lemma at_opt_append_ge [simp]: "length xs \<le> i \<Longrightarrow> at_opt (xs @ ys) i = at_opt ys (i - length xs)"
  by (auto simp: at_opt_def nth_append)

lemma at_opt_append_lt [simp]: "i < length xs \<Longrightarrow> at_opt (xs @ ys) i = at_opt xs i"
  by (auto simp: at_opt_def nth_append)

lemma at_opt_Some_iff: "at_opt xs i = Some x \<longleftrightarrow> i < length xs \<and> xs ! i = x"
  by (auto simp: at_opt_def)

lemma at_opt_None_iff: "at_opt xs i = None \<longleftrightarrow> length xs \<le> i"
  by (auto simp: at_opt_def)

text \<open>\<open>xs.slice(i, j)\<close> clamps both ends to the array.\<close>

definition slice :: "'a list \<Rightarrow> nat \<Rightarrow> nat \<Rightarrow> 'a list" where
  "slice xs i j = take (j - i) (drop i xs)"

lemma slice_append_ge [simp]:
  "length xs \<le> i \<Longrightarrow> slice (xs @ ys) i j = slice ys (i - length xs) (j - length xs)"
  by (cases "j \<le> length xs") (auto simp: slice_def)

lemma slice_prefix [simp]: "length xs = n \<Longrightarrow> slice (xs @ ys) 0 n = xs"
  by (simp add: slice_def)

lemma length_slice: "length (slice xs i j) = min (j - i) (length xs - i)"
  by (auto simp: slice_def)

subsection \<open>Bigint division and rounding\<close>

text \<open>
  JavaScript's bigint \<open>/\<close> truncates towards zero, which is \<open>sdiv\<close>; on operands that are not
  negative it is the floor.
\<close>

lemma sdiv_nonneg: "0 \<le> a \<Longrightarrow> 0 \<le> b \<Longrightarrow> a sdiv b = a div (b::int)"
  by (cases "a = 0"; cases "b = 0") (auto simp: signed_divide_int_def)

lemma sdiv_ceil: "0 \<le> a \<Longrightarrow> 0 < b \<Longrightarrow> (a + b - 1) sdiv b = (a + b - 1) div (b::int)"
  by (rule sdiv_nonneg) simp_all

text \<open>\<open>(a + b - 1n) / b\<close> is the ceiling of the quotient: the least integer that covers it.\<close>

lemma floor_div_le: "0 < b \<Longrightarrow> a div b * b \<le> (a::int)"
  by (simp add: minus_mod_eq_div_mult [symmetric])

lemma floor_div_gt:
  assumes "0 < (b::int)"
  shows "a < (a div b + 1) * b"
proof -
  have "a mod b < b" using assms by (rule pos_mod_bound)
  then show ?thesis using div_mult_mod_eq [of a b] by (simp only: distrib_right)
qed

lemma le_floor_div_iff:
  assumes "0 < (b::int)"
  shows "n \<le> a div b \<longleftrightarrow> n * b \<le> a"
proof
  assume "n \<le> a div b"
  then have "n * b \<le> a div b * b" using assms by (simp add: mult_right_mono)
  also have "\<dots> \<le> a" by (rule floor_div_le [OF assms])
  finally show "n * b \<le> a" .
next
  assume "n * b \<le> a"
  also have "a < (a div b + 1) * b" by (rule floor_div_gt [OF assms])
  finally have "n < a div b + 1" using assms by simp
  then show "n \<le> a div b" by simp
qed

lemma ceil_div_le_iff:
  assumes "0 < (b::int)"
  shows "(a + b - 1) div b \<le> n \<longleftrightarrow> a \<le> n * b"
  using le_floor_div_iff [OF assms, of "n + 1" "a + b - 1"] by (auto simp: algebra_simps)

lemma ceil_div_ge: "0 < b \<Longrightarrow> a \<le> (a + b - 1) div b * (b::int)"
  using ceil_div_le_iff [of b a "(a + b - 1) div b"] by simp

lemma ceil_div_lt: "0 < b \<Longrightarrow> ((a + b - 1) div b - 1) * (b::int) < a"
  using ceil_div_le_iff [of b a "(a + b - 1) div b - 1"] by linarith

lemma floor_le_ceil: "0 < b \<Longrightarrow> a div b \<le> (a + b - 1) div (b::int)"
  by (rule zdiv_mono1) auto

lemma ceil_le_floor_plus_1: "0 < b \<Longrightarrow> (a + b - 1) div b \<le> a div b + (1::int)"
  using floor_div_gt [of b a] by (simp add: ceil_div_le_iff)

lemma ceil_div_nonneg: "0 < b \<Longrightarrow> 0 \<le> a \<Longrightarrow> 0 \<le> (a + b - 1) div (b::int)"
  by (simp add: pos_imp_zdiv_nonneg_iff)

lemma floor_div_nonneg: "0 < b \<Longrightarrow> 0 \<le> a \<Longrightarrow> 0 \<le> a div (b::int)"
  by (simp add: pos_imp_zdiv_nonneg_iff)

lemmas div_bounds = ceil_div_ge ceil_div_lt floor_div_le floor_div_gt

subsection \<open>Number bitwise operators\<close>

text \<open>\<open>v & m\<close> and \<open>v >> n\<close> on numbers first reduce \<open>v\<close> to a signed 32-bit integer.\<close>

definition toInt32 :: "int \<Rightarrow> int" where
  "toInt32 v = signed_take_bit 31 v"

lemma toInt32_id: "- (2 ^ 31) \<le> v \<Longrightarrow> v < 2 ^ 31 \<Longrightarrow> toInt32 v = v"
  by (simp add: toInt32_def signed_take_bit_int_eq_self)

lemma or_push_bit_int: "0 \<le> v \<Longrightarrow> v < 2 ^ n \<Longrightarrow> v OR push_bit n w = v + 2 ^ n * (w::int)"
proof -
  assume v: "0 \<le> v" "v < 2 ^ n"
  then have "take_bit n v = v" by (simp add: take_bit_int_eq_self)
  then have "v AND push_bit n w = 0"
    by (metis (no_types) bit_0_eq bit_and_iff bit_eqI bit_push_bit_iff bit_take_bit_iff linorder_not_less bot_apply bot_bool_def)
  then have "v + push_bit n w = v OR push_bit n w" by (rule disjunctive_add_eq_or)
  then show ?thesis by (simp add: push_bit_eq_mult mult.commute)
qed

end
