(* ===== verification/ClammTypes.thy ===== *)
theory ClammTypes
  imports Prelude
begin

text \<open>
  \<open>packages/arch-swap-engine/src/lib/clamm/constants.ts\<close> and \<open>clamm/types.ts\<close>: the constants of
  the CLAMM program and the records of its accounts. Bigints and safe-integer numbers are \<open>int\<close>, a
  \<open>Uint8Array\<close> is a list of bytes, a fixed-length tuple a list. Field names carry a prefix, since
  the source uses several of them in more than one record.
\<close>

definition TICK_ARRAY_SIZE :: nat where "TICK_ARRAY_SIZE = 88"
definition MAX_TICK_INDEX :: int where "MAX_TICK_INDEX = 443636"
definition MIN_TICK_INDEX :: int where "MIN_TICK_INDEX = -443636"
definition MIN_SQRT_PRICE :: int where "MIN_SQRT_PRICE = 4295048016"
definition MAX_SQRT_PRICE :: int where "MAX_SQRT_PRICE = 79226673515401279992447579055"
definition FEE_RATE_MUL_VALUE :: int where "FEE_RATE_MUL_VALUE = 1000000"
definition NUM_REWARDS :: nat where "NUM_REWARDS = 3"
definition TICK_SIZE :: nat where "TICK_SIZE = 113"
definition WHIRLPOOL_ACCOUNT_SIZE :: nat where "WHIRLPOOL_ACCOUNT_SIZE = 653"
definition TICK_ARRAY_ACCOUNT_SIZE :: nat where "TICK_ARRAY_ACCOUNT_SIZE = 9988"
definition POSITION_ACCOUNT_SIZE :: nat where "POSITION_ACCOUNT_SIZE = 216"

lemmas clamm_constants = TICK_ARRAY_SIZE_def MAX_TICK_INDEX_def MIN_TICK_INDEX_def
  MIN_SQRT_PRICE_def MAX_SQRT_PRICE_def FEE_RATE_MUL_VALUE_def NUM_REWARDS_def TICK_SIZE_def

record whirlpool_reward_info =
  wr_mint :: "byte list"
  wr_vault :: "byte list"
  wr_authority :: "byte list"
  wr_emissionsPerSecondX64 :: int
  wr_growthGlobalX64 :: int

record whirlpool_state =
  w_whirlpoolsConfig :: "byte list"
  w_whirlpoolBump :: "int list"
  w_tickSpacing :: int
  w_tickSpacingSeed :: "int list"
  w_feeRate :: int
  w_protocolFeeRate :: int
  w_liquidity :: int
  w_sqrtPrice :: int
  w_tickCurrentIndex :: int
  w_protocolFeeOwedA :: int
  w_protocolFeeOwedB :: int
  w_tokenMintA :: "byte list"
  w_tokenVaultA :: "byte list"
  w_tokenMintB :: "byte list"
  w_tokenVaultB :: "byte list"
  w_feeGrowthGlobalA :: int
  w_feeGrowthGlobalB :: int
  w_rewardLastUpdatedTimestamp :: int
  w_rewardInfos :: "whirlpool_reward_info list"

record tick =
  t_initialized :: bool
  t_liquidityNet :: int
  t_liquidityGross :: int
  t_feeGrowthOutsideA :: int
  t_feeGrowthOutsideB :: int
  t_rewardGrowthsOutside :: "int list"

record tick_array =
  ta_startTickIndex :: int
  ta_ticks :: "tick list"
  ta_whirlpool :: "byte list"

record position_reward_info =
  pr_growthInsideCheckpoint :: int
  pr_amountOwed :: int

record position_data =
  p_whirlpool :: "byte list"
  p_positionMint :: "byte list"
  p_liquidity :: int
  p_tickLowerIndex :: int
  p_tickUpperIndex :: int
  p_feeGrowthCheckpointA :: int
  p_feeOwedA :: int
  p_feeGrowthCheckpointB :: int
  p_feeOwedB :: int
  p_rewardInfos :: "position_reward_info list"

record swap_quote =
  q_estimatedAmountIn :: int
  q_estimatedAmountOut :: int
  q_estimatedFeeAmount :: int
  q_amountSpecifiedIsInput :: bool
  q_aToB :: bool
  q_otherAmountThreshold :: int
  q_sqrtPriceLimit :: int
  q_tickArrays :: "tick_array list"

end
