(* ===== verification/TokenMath.thy ===== *)
theory TokenMath
  imports Prelude
begin

text \<open>
  \<open>packages/arch-swap-engine/src/lib/clamm/math/token-math.ts\<close>: token amounts and next
  square-root prices of concentrated liquidity, on unbounded integers (JavaScript bigints), with
  square-root prices in Q64.64 format. \<open>throw\<close> is \<open>Inl\<close>.

  The lemmas characterise each rounding exactly (as a Galois connection with the exact rational
  value, multiplied out), and show that the next price never overshoots the price at which the
  given amount would be used up, and never charges more than the amount given.
\<close>

datatype clamm_error =
    InsufficientLiquidity
  | ZeroLiquidity
  | SqrtPriceUnderflow
  | TickOutOfRange
  | SqrtPriceOutOfRange
  | TypeErrorUndefined

subsection \<open>The operations\<close>

definition Q64 :: int where
  "Q64 = push_bit 64 1"

definition getAmountDeltaA :: "int \<Rightarrow> int \<Rightarrow> int \<Rightarrow> bool \<Rightarrow> int" where
  "getAmountDeltaA p q liquidity roundUp =
     (let (lower, upper) = (if p > q then (q, p) else (p, q));
          numerator = liquidity * (upper - lower);
          denominator = lower * upper
      in if denominator = 0 then 0
         else let shifted = numerator * Q64
              in if roundUp then (shifted + denominator - 1) sdiv denominator
                 else shifted sdiv denominator)"

definition getAmountDeltaB :: "int \<Rightarrow> int \<Rightarrow> int \<Rightarrow> bool \<Rightarrow> int" where
  "getAmountDeltaB p q liquidity roundUp =
     (let (lower, upper) = (if p > q then (q, p) else (p, q));
          product = liquidity * (upper - lower)
      in if roundUp then (product + Q64 - 1) sdiv Q64
         else product sdiv Q64)"

definition getNextSqrtPriceFromA :: "int \<Rightarrow> int \<Rightarrow> int \<Rightarrow> bool \<Rightarrow> clamm_error + int" where
  "getNextSqrtPriceFromA sqrtPrice liquidity amount amountSpecifiedIsInput =
     (if amount = 0 then Inr sqrtPrice
      else let numerator = liquidity * sqrtPrice;
               product = (amount * sqrtPrice) sdiv Q64
           in if amountSpecifiedIsInput
              then let denominator = liquidity + product
                   in if denominator = 0 then Inr 0
                      else Inr ((numerator + denominator - 1) sdiv denominator)
              else if liquidity \<le> product then Inl InsufficientLiquidity
              else let denominator = liquidity - product
                   in Inr ((numerator + denominator - 1) sdiv denominator))"

definition getNextSqrtPriceFromB :: "int \<Rightarrow> int \<Rightarrow> int \<Rightarrow> bool \<Rightarrow> clamm_error + int" where
  "getNextSqrtPriceFromB sqrtPrice liquidity amount amountSpecifiedIsInput =
     (if amount = 0 then Inr sqrtPrice
      else if liquidity = 0 then Inl ZeroLiquidity
      else let quotient = (amount * Q64) sdiv liquidity
           in if amountSpecifiedIsInput then Inr (sqrtPrice + quotient)
              else if sqrtPrice \<le> quotient then Inl SqrtPriceUnderflow
              else Inr (sqrtPrice - quotient))"

subsection \<open>Exact characterisation of the roundings\<close>

lemma Q64_eq: "Q64 = 2 ^ 64"
  by (simp add: Q64_def push_bit_eq_mult)

lemma Q64_pos [simp]: "0 < Q64"
  by (simp add: Q64_eq)

lemma deltaB_product_nonneg: "p \<le> q \<Longrightarrow> 0 \<le> l \<Longrightarrow> 0 \<le> l * (q - p)" for p q l :: int
  by (rule mult_nonneg_nonneg) simp_all

lemma deltaA_numerator_nonneg: "p \<le> q \<Longrightarrow> 0 \<le> l \<Longrightarrow> 0 \<le> l * (q - p) * Q64"
  by (rule mult_nonneg_nonneg [OF deltaB_product_nonneg]) (simp_all add: less_imp_le)

lemma deltaA_denominator_pos: "0 < p \<Longrightarrow> p \<le> q \<Longrightarrow> 0 < p * q" for p q :: int
  by (rule mult_pos_pos) simp_all

lemma getAmountDeltaA_commute: "getAmountDeltaA p q l r = getAmountDeltaA q p l r"
  by (cases p q rule: linorder_cases) (simp_all add: getAmountDeltaA_def)

lemma getAmountDeltaB_commute: "getAmountDeltaB p q l r = getAmountDeltaB q p l r"
  by (cases p q rule: linorder_cases) (simp_all add: getAmountDeltaB_def)

lemma getAmountDeltaA_up:
  assumes "0 < p" "p \<le> q" "0 \<le> l"
  shows "getAmountDeltaA p q l True = (l * (q - p) * Q64 + p * q - 1) div (p * q)"
  using assms sdiv_ceil [OF deltaA_numerator_nonneg [OF assms(2,3)] deltaA_denominator_pos [OF assms(1,2)]] deltaA_denominator_pos [OF assms(1,2)]
  by (auto simp: getAmountDeltaA_def Let_def)

lemma getAmountDeltaA_down:
  assumes "0 < p" "p \<le> q" "0 \<le> l"
  shows "getAmountDeltaA p q l False = (l * (q - p) * Q64) div (p * q)"
  using assms sdiv_nonneg [OF deltaA_numerator_nonneg [OF assms(2,3)] less_imp_le [OF deltaA_denominator_pos [OF assms(1,2)]]] deltaA_denominator_pos [OF assms(1,2)]
  by (auto simp: getAmountDeltaA_def Let_def)

lemma getAmountDeltaB_up:
  assumes "p \<le> q" "0 \<le> l"
  shows "getAmountDeltaB p q l True = (l * (q - p) + Q64 - 1) div Q64"
  using assms sdiv_ceil [OF deltaB_product_nonneg [OF assms] Q64_pos]
  by (auto simp: getAmountDeltaB_def Let_def)

lemma getAmountDeltaB_down:
  assumes "p \<le> q" "0 \<le> l"
  shows "getAmountDeltaB p q l False = (l * (q - p)) div Q64"
  using assms sdiv_nonneg [OF deltaB_product_nonneg [OF assms] less_imp_le [OF Q64_pos]]
  by (auto simp: getAmountDeltaB_def Let_def)

lemma deltaA_up_le_iff:
  assumes "0 < p" "p \<le> q" "0 \<le> l"
  shows "getAmountDeltaA p q l True \<le> n \<longleftrightarrow> l * (q - p) * Q64 \<le> n * (p * q)"
  using assms by (simp add: getAmountDeltaA_up ceil_div_le_iff)

lemma le_deltaA_down_iff:
  assumes "0 < p" "p \<le> q" "0 \<le> l"
  shows "n \<le> getAmountDeltaA p q l False \<longleftrightarrow> n * (p * q) \<le> l * (q - p) * Q64"
  using assms by (simp add: getAmountDeltaA_down le_floor_div_iff)

lemma deltaB_up_le_iff:
  assumes "p \<le> q" "0 \<le> l"
  shows "getAmountDeltaB p q l True \<le> n \<longleftrightarrow> l * (q - p) \<le> n * Q64"
  using assms by (simp add: getAmountDeltaB_up ceil_div_le_iff)

lemma le_deltaB_down_iff:
  assumes "p \<le> q" "0 \<le> l"
  shows "n \<le> getAmountDeltaB p q l False \<longleftrightarrow> n * Q64 \<le> l * (q - p)"
  using assms by (simp add: getAmountDeltaB_down le_floor_div_iff)

lemma getAmountDeltaA_nonneg:
  assumes "0 < p" "p \<le> q" "0 \<le> l"
  shows "0 \<le> getAmountDeltaA p q l r"
  using ceil_div_nonneg [OF deltaA_denominator_pos deltaA_numerator_nonneg, OF assms(1,2,2,3)]
    floor_div_nonneg [OF deltaA_denominator_pos deltaA_numerator_nonneg, OF assms(1,2,2,3)]
  by (cases r) (simp_all only: getAmountDeltaA_up [OF assms] getAmountDeltaA_down [OF assms])

lemma getAmountDeltaB_nonneg:
  assumes "p \<le> q" "0 \<le> l"
  shows "0 \<le> getAmountDeltaB p q l r"
  using ceil_div_nonneg [OF Q64_pos deltaB_product_nonneg, OF assms]
    floor_div_nonneg [OF Q64_pos deltaB_product_nonneg, OF assms]
  by (cases r) (simp_all only: getAmountDeltaB_up [OF assms] getAmountDeltaB_down [OF assms])

lemma deltaA_up_minus_down:
  assumes "0 < p" "p \<le> q" "0 \<le> l"
  shows "getAmountDeltaA p q l False \<le> getAmountDeltaA p q l True \<and>
         getAmountDeltaA p q l True \<le> getAmountDeltaA p q l False + 1"
  using assms by (simp add: getAmountDeltaA_up getAmountDeltaA_down floor_le_ceil ceil_le_floor_plus_1)

lemma deltaB_up_minus_down:
  assumes "p \<le> q" "0 \<le> l"
  shows "getAmountDeltaB p q l False \<le> getAmountDeltaB p q l True \<and>
         getAmountDeltaB p q l True \<le> getAmountDeltaB p q l False + 1"
  using assms by (simp add: getAmountDeltaB_up getAmountDeltaB_down floor_le_ceil ceil_le_floor_plus_1)

subsection \<open>The next price for an exact input\<close>

text \<open>
  For an input of token A the price falls to the ceiling of \<open>L P / (L + \<lfloor>a P / Q\<rfloor>)\<close>. The two
  facts below are about any denominator \<open>D\<close> of that shape.
\<close>

lemma nextA_charge:
  fixes P L D n a :: int
  assumes "0 \<le> n" "L * P \<le> n * D" "(D - L) * Q64 \<le> a * P"
  shows "L * (P - n) * Q64 \<le> a * (n * P)"
proof -
  have "L * (P - n) \<le> n * (D - L)" using assms(2) by (simp add: algebra_simps)
  then have "L * (P - n) * Q64 \<le> n * (D - L) * Q64"
    by (rule mult_right_mono) (simp add: less_imp_le)
  also have "\<dots> = n * ((D - L) * Q64)" by (simp add: algebra_simps)
  also have "\<dots> \<le> n * (a * P)" using assms(1,3) by (intro mult_left_mono)
  finally show ?thesis by (simp add: algebra_simps)
qed

lemma nextA_above_target:
  fixes P L D T a :: int
  assumes "0 < T" "a * (T * P) < L * (P - T) * Q64" "(D - L) * Q64 \<le> a * P"
  shows "T * D < L * P"
proof -
  have "T * ((D - L) * Q64) \<le> T * (a * P)" using assms(1,3) by (intro mult_left_mono) simp_all
  also have "\<dots> = a * (T * P)" by (simp add: algebra_simps)
  also have "\<dots> < L * (P - T) * Q64" by (rule assms(2))
  finally have "(T * (D - L)) * Q64 < (L * (P - T)) * Q64" by (simp add: algebra_simps)
  then have "T * (D - L) < L * (P - T)" by simp
  then show ?thesis by (simp add: algebra_simps)
qed

lemma nextA_input_cases:
  assumes "0 < P" "0 < L" "0 \<le> a"
  obtains D where "L \<le> D" "(D - L) * Q64 \<le> a * P"
    "getNextSqrtPriceFromA P L a True = Inr ((L * P + D - 1) div D)"
proof (cases "a = 0")
  case True
  have "(L * P + L - 1) div L = P"
    using assms(2) ceil_div_le_iff [of L "L * P" P] ceil_div_ge [of L "L * P"]
    by (intro antisym) (simp_all add: mult.commute)
  with True assms that [of L] show thesis by (simp add: getNextSqrtPriceFromA_def)
next
  case False
  define D where "D = L + (a * P) div Q64"
  have prod: "0 \<le> a * P" "0 \<le> (a * P) div Q64" using assms by (simp_all add: floor_div_nonneg)
  then have "L \<le> D" by (simp add: D_def)
  moreover have "(D - L) * Q64 \<le> a * P"
    using floor_div_le [OF Q64_pos, of "a * P"] by (simp add: D_def)
  moreover have "0 \<le> L * P" "0 < D" using assms \<open>L \<le> D\<close> by simp_all
  then have "getNextSqrtPriceFromA P L a True = Inr ((L * P + D - 1) div D)"
    using False prod sdiv_ceil [of "L * P" D] sdiv_nonneg [OF prod(1), of Q64]
    by (simp add: getNextSqrtPriceFromA_def D_def Let_def less_imp_le)
  ultimately show thesis by (rule that)
qed

lemma getNextSqrtPriceFromA_input:
  assumes "0 < P" "0 < L" "0 \<le> a"
  obtains n where "getNextSqrtPriceFromA P L a True = Inr n" "0 < n" "n \<le> P"
    "getAmountDeltaA n P L True \<le> a"
    "\<And>T. 0 < T \<Longrightarrow> T \<le> P \<Longrightarrow> a < getAmountDeltaA T P L True \<Longrightarrow> T < n"
proof -
  obtain D where D: "L \<le> D" "(D - L) * Q64 \<le> a * P"
    and eq: "getNextSqrtPriceFromA P L a True = Inr ((L * P + D - 1) div D)"
    using nextA_input_cases [OF assms] .
  define n where "n = (L * P + D - 1) div D"
  have Dp: "0 < D" using D assms by simp
  have LP: "0 < L * P" using assms by simp
  have cov: "L * P \<le> n * D" unfolding n_def by (rule ceil_div_ge [OF Dp])
  have "0 < n * D" using LP cov by (rule less_le_trans)
  then have n0: "0 < n" using Dp by (simp add: zero_less_mult_iff)
  have nP: "n \<le> P"
    unfolding n_def using D(1) assms by (simp add: ceil_div_le_iff [OF Dp] mult.commute mult_left_mono)
  have charge: "getAmountDeltaA n P L True \<le> a"
    using nextA_charge [of n L P D a] n0 nP cov D(2) assms by (simp add: deltaA_up_le_iff)
  have above: "T < n" if "0 < T" "T \<le> P" "a < getAmountDeltaA T P L True" for T
  proof -
    have gap: "a * (T * P) < L * (P - T) * Q64"
      using that assms deltaA_up_le_iff [of T P L a] by simp
    have "T * D < L * P" by (rule nextA_above_target [OF \<open>0 < T\<close> gap D(2)])
    also have "\<dots> \<le> n * D" by (rule cov)
    finally show ?thesis using Dp by simp
  qed
  show thesis using that [of n] eq n0 nP charge above by (simp add: n_def)
qed

text \<open>For an input of token B the price rises by \<open>\<lfloor>a Q / L\<rfloor>\<close>.\<close>

lemma getNextSqrtPriceFromB_input:
  assumes "0 < L" "0 \<le> a"
  obtains n where "getNextSqrtPriceFromB P L a True = Inr n" "P \<le> n"
    "getAmountDeltaB P n L True \<le> a"
    "\<And>T. P \<le> T \<Longrightarrow> a < getAmountDeltaB P T L True \<Longrightarrow> n < T"
proof -
  define q where "q = (a * Q64) div L"
  have aQ: "0 \<le> a * Q64" using assms by (simp add: less_imp_le)
  have q0: "0 \<le> q" unfolding q_def using assms(1) aQ by (rule floor_div_nonneg)
  have eq: "getNextSqrtPriceFromB P L a True = Inr (P + q)"
    using assms sdiv_nonneg [OF aQ, of L] by (simp add: getNextSqrtPriceFromB_def q_def)
  have charge: "getAmountDeltaB P (P + q) L True \<le> a"
    using assms q0 floor_div_le [of L "a * Q64"] by (simp add: deltaB_up_le_iff q_def mult.commute)
  have below: "P + q < T" if "P \<le> T" "a < getAmountDeltaB P T L True" for T
  proof -
    have "a * Q64 < (T - P) * L"
      using that assms deltaB_up_le_iff [of P T L a] by (simp add: mult.commute)
    then have "\<not> T - P \<le> q" using le_floor_div_iff [OF assms(1), of "T - P" "a * Q64"]
      by (simp add: q_def)
    then show ?thesis by simp
  qed
  show thesis using that [of "P + q"] eq q0 charge below by simp
qed

end
