(* ===== verification/TickMath.thy ===== *)
theory TickMath
  imports Complex_Main ClammTypes TokenMath
begin

text \<open>
  \<open>packages/arch-swap-engine/src/lib/clamm/math/tick-math.ts\<close>. \<open>tickIndexToSqrtPrice\<close> computes
  \<open>BigInt(Math.round(Math.exp((tick / 2) * Math.log(1.0001)) * 2^64))\<close> in floating point, and
  ECMAScript leaves the result of \<open>Math.exp\<close> and \<open>Math.log\<close> to the implementation. The rounded
  product is therefore a parameter \<open>sp\<close> of the model; the range check, the binary search and the
  rounding to a tick spacing are modelled as they are.

  The contract the callers rely on is the locale \<open>tick_price\<close>: the price grows strictly with the
  tick. It is interpreted on \<open>sp_real\<close>, the code's own formula read over the real numbers, where
  the law is proved.
\<close>

definition tickIndexToSqrtPrice :: "(int \<Rightarrow> int) \<Rightarrow> int \<Rightarrow> clamm_error + int" where
  "tickIndexToSqrtPrice sp tickIndex =
     (if tickIndex < MIN_TICK_INDEX \<or> tickIndex > MAX_TICK_INDEX then Inl TickOutOfRange
      else Inr (sp tickIndex))"

text \<open>The loop of \<open>sqrtPriceToTickIndex\<close>, with \<open>low\<close> and \<open>high\<close> as its state.\<close>

function tickSearch :: "(int \<Rightarrow> int) \<Rightarrow> int \<Rightarrow> int \<Rightarrow> int \<Rightarrow> clamm_error + int" where
  "tickSearch sp sqrtPrice low high =
     (if low \<le> high
      then let mid = (low + high) div 2
           in rbind (tickIndexToSqrtPrice sp mid) (\<lambda>midPrice.
                if midPrice \<le> sqrtPrice
                then rbind (if mid < MAX_TICK_INDEX then tickIndexToSqrtPrice sp (mid + 1)
                            else Inr (MAX_SQRT_PRICE + 1)) (\<lambda>nextPrice.
                       if nextPrice > sqrtPrice then Inr mid
                       else tickSearch sp sqrtPrice (mid + 1) high)
                else tickSearch sp sqrtPrice low (mid - 1))
      else Inr low)"
  by pat_completeness auto
termination
  by (relation "measure (\<lambda>(sp, p, low, high). nat (high - low + 1))") auto

declare tickSearch.simps [simp del]

definition sqrtPriceToTickIndex :: "(int \<Rightarrow> int) \<Rightarrow> int \<Rightarrow> clamm_error + int" where
  "sqrtPriceToTickIndex sp sqrtPrice =
     (if sqrtPrice < MIN_SQRT_PRICE \<or> sqrtPrice > MAX_SQRT_PRICE then Inl SqrtPriceOutOfRange
      else tickSearch sp sqrtPrice MIN_TICK_INDEX MAX_TICK_INDEX)"

text \<open>
  \<open>Math.round(x)\<close> is the floor of \<open>x + 1/2\<close>; on a quotient of integers with a positive divisor
  that is \<open>(2 a + b) div (2 b)\<close>.
\<close>

definition getNearestValidTickIndex :: "int \<Rightarrow> int \<Rightarrow> int" where
  "getNearestValidTickIndex tickIndex tickSpacing =
     (let rounded = ((2 * tickIndex + tickSpacing) div (2 * tickSpacing)) * tickSpacing
      in max MIN_TICK_INDEX (min MAX_TICK_INDEX rounded))"

subsection \<open>The contract of the tick price\<close>

locale tick_price =
  fixes sp :: "int \<Rightarrow> int"
  assumes sp_less: "MIN_TICK_INDEX \<le> s \<Longrightarrow> s < t \<Longrightarrow> t \<le> MAX_TICK_INDEX \<Longrightarrow> sp s < sp t"
    and sp_pos: "0 < sp MIN_TICK_INDEX"
begin

lemma sp_le: "MIN_TICK_INDEX \<le> s \<Longrightarrow> s \<le> t \<Longrightarrow> t \<le> MAX_TICK_INDEX \<Longrightarrow> sp s \<le> sp t"
  using sp_less [of s t] by (cases "s = t") simp_all

lemma sp_positive: "MIN_TICK_INDEX \<le> t \<Longrightarrow> t \<le> MAX_TICK_INDEX \<Longrightarrow> 0 < sp t"
  using sp_le [of MIN_TICK_INDEX t] sp_pos by simp

lemma sp_inject:
  "MIN_TICK_INDEX \<le> s \<Longrightarrow> s \<le> MAX_TICK_INDEX \<Longrightarrow> MIN_TICK_INDEX \<le> t \<Longrightarrow> t \<le> MAX_TICK_INDEX \<Longrightarrow>
   sp s = sp t \<longleftrightarrow> s = t"
  using sp_less [of s t] sp_less [of t s] by (cases s t rule: linorder_cases) auto

text \<open>
  The search keeps \<open>low\<close> at a price that is not above the wanted one and everything right of
  \<open>high\<close> at a greater one, so it never leaves the loop without an answer.
\<close>

lemma tickSearch_spec:
  assumes "MIN_TICK_INDEX \<le> low" "low \<le> high" "high \<le> MAX_TICK_INDEX"
    and "p \<le> MAX_SQRT_PRICE" "sp low \<le> p" "high < MAX_TICK_INDEX \<Longrightarrow> p < sp (high + 1)"
  shows "\<exists>t. tickSearch sp p low high = Inr t \<and> MIN_TICK_INDEX \<le> t \<and> t \<le> MAX_TICK_INDEX \<and>
           sp t \<le> p \<and> (t < MAX_TICK_INDEX \<longrightarrow> p < sp (t + 1))"
  using assms
proof (induction "nat (high - low)" arbitrary: low high rule: less_induct)
  case less
  define mid where "mid = (low + high) div 2"
  have mid: "low \<le> mid" "mid \<le> high" using less.prems(2) by (simp_all add: mid_def)
  have at_mid: "tickIndexToSqrtPrice sp mid = Inr (sp mid)"
    using mid less.prems(1,3) by (simp add: tickIndexToSqrtPrice_def)
  have unfold: "tickSearch sp p low high =
      (if sp mid \<le> p
       then rbind (if mid < MAX_TICK_INDEX then tickIndexToSqrtPrice sp (mid + 1)
                   else Inr (MAX_SQRT_PRICE + 1)) (\<lambda>nextPrice.
              if nextPrice > p then Inr mid else tickSearch sp p (mid + 1) high)
       else tickSearch sp p low (mid - 1))"
    using less.prems(2) at_mid by (simp add: tickSearch.simps [of sp p low high] mid_def [symmetric] Let_def)
  consider (left) "p < sp mid" | (last) "sp mid \<le> p" "mid = MAX_TICK_INDEX"
    | (found) "sp mid \<le> p" "mid < MAX_TICK_INDEX" "p < sp (mid + 1)"
    | (right) "sp mid \<le> p" "mid < MAX_TICK_INDEX" "sp (mid + 1) \<le> p"
    using mid less.prems(3) by linarith
  then show ?case
  proof cases
    case left
    then have "low < mid" using mid less.prems(5) by (cases "low = mid") auto
    then show ?thesis
      using less.hyps [of "mid - 1" low] left less.prems mid by (simp add: unfold)
  next
    case last
    then have "tickSearch sp p low high = Inr mid" using less.prems(4) by (simp add: unfold)
    then show ?thesis using last less.prems(1) mid by auto
  next
    case found
    then have "tickSearch sp p low high = Inr mid"
      using less.prems(1) mid by (simp add: unfold tickIndexToSqrtPrice_def)
    then show ?thesis using found less.prems(1) mid by auto
  next
    case right
    then have "mid < high" using less.prems(6) mid by (cases "mid = high") auto
    then show ?thesis
      using less.hyps [of high "mid + 1"] right less.prems mid
      by (simp add: unfold tickIndexToSqrtPrice_def)
  qed
qed

lemma sqrtPriceToTickIndex_spec:
  assumes "MIN_SQRT_PRICE \<le> p" "p \<le> MAX_SQRT_PRICE" "sp MIN_TICK_INDEX \<le> p"
  shows "\<exists>t. sqrtPriceToTickIndex sp p = Inr t \<and> MIN_TICK_INDEX \<le> t \<and> t \<le> MAX_TICK_INDEX \<and>
           sp t \<le> p \<and> (t < MAX_TICK_INDEX \<longrightarrow> p < sp (t + 1))"
  using assms tickSearch_spec [of MIN_TICK_INDEX MAX_TICK_INDEX p]
  by (simp add: sqrtPriceToTickIndex_def MIN_TICK_INDEX_def MAX_TICK_INDEX_def)

lemma tick_roundtrip:
  assumes "MIN_TICK_INDEX \<le> t" "t \<le> MAX_TICK_INDEX"
    and "MIN_SQRT_PRICE \<le> sp t" "sp t \<le> MAX_SQRT_PRICE"
  shows "sqrtPriceToTickIndex sp (sp t) = Inr t"
proof -
  obtain u where u: "sqrtPriceToTickIndex sp (sp t) = Inr u" "MIN_TICK_INDEX \<le> u"
      "u \<le> MAX_TICK_INDEX" "sp u \<le> sp t" "u < MAX_TICK_INDEX \<longrightarrow> sp t < sp (u + 1)"
    using sqrtPriceToTickIndex_spec [of "sp t"] sp_le [of MIN_TICK_INDEX t] assms by auto
  have "u \<le> t" using u sp_less [of t u] assms by (cases "t < u") auto
  moreover have "t \<le> u" using u sp_le [of "u + 1" t] assms by (cases "u < t") auto
  ultimately show ?thesis using u by simp
qed

end

subsection \<open>The code's formula over the reals meets the contract\<close>

definition sp_real :: "int \<Rightarrow> int" where
  "sp_real t = round (exp (real_of_int t / 2 * ln 1.0001) * 2 ^ 64)"

text \<open>
  One tick multiplies the price by \<open>sqrt 1.0001\<close>; at the lowest tick that is still a step of much
  more than one unit in the last place, so rounding keeps the order.
\<close>

lemma ln_tick_bounds: "1 / 10001 \<le> ln (1.0001 :: real)" "ln (1.0001 :: real) \<le> 1 / 10000"
proof -
  have "ln (10000 / 10001 :: real) \<le> 10000 / 10001 - 1"
    by (rule ln_le_minus_one) simp
  moreover have "ln (10000 / 10001 :: real) = - ln 1.0001"
    by (simp add: ln_div)
  ultimately show "1 / 10001 \<le> ln (1.0001 :: real)" by simp
  show "ln (1.0001 :: real) \<le> 1 / 10000"
    using ln_le_minus_one [of "1.0001 :: real"] by simp
qed

lemma exp_lowest_tick:
  assumes "MIN_TICK_INDEX \<le> t"
  shows "1 / 3 ^ 23 \<le> exp (real_of_int t / 2 * ln 1.0001)"
proof -
  have "(-443636 :: real) \<le> real_of_int t" using assms by (simp add: MIN_TICK_INDEX_def)
  moreover have "0 \<le> ln (1.0001 :: real)" by simp
  ultimately have "- 443636 / 2 * ln (1.0001 :: real) \<le> real_of_int t / 2 * ln 1.0001"
    by (intro mult_right_mono) simp_all
  then have "- 23 \<le> real_of_int t / 2 * ln 1.0001"
    using ln_tick_bounds(2) by simp
  then have "exp (- 23 :: real) \<le> exp (real_of_int t / 2 * ln 1.0001)" by simp
  moreover have "1 / 3 ^ 23 \<le> exp (- 23 :: real)"
  proof -
    have "exp (23 :: real) = exp 1 ^ 23" using exp_of_nat_mult [of 23 "1::real"] by simp
    also have "\<dots> \<le> 3 ^ 23" by (rule power_mono [OF exp_le]) simp
    finally show ?thesis by (simp add: exp_minus divide_simps)
  qed
  ultimately show ?thesis by (rule order_trans [rotated])
qed

lemma exp_tick_step:
  assumes "MIN_TICK_INDEX \<le> s" "s < t"
  shows "exp (real_of_int s / 2 * ln 1.0001) * 2 ^ 64 + 1 \<le> exp (real_of_int t / 2 * ln 1.0001) * 2 ^ 64"
proof -
  define x where "x = real_of_int s / 2 * ln 1.0001"
  define d where "d = (real_of_int t - real_of_int s) / 2 * ln 1.0001"
  have td: "real_of_int t / 2 * ln 1.0001 = x + d"
    by (simp add: x_def d_def algebra_simps diff_divide_distrib)
  have "1 \<le> real_of_int t - real_of_int s" using assms(2) by linarith
  then have "1 * ln (1.0001::real) \<le> (real_of_int t - real_of_int s) * ln 1.0001"
    by (intro mult_right_mono) simp_all
  then have "1 / 10001 \<le> (real_of_int t - real_of_int s) * ln 1.0001"
    using ln_tick_bounds(1) by (simp only: mult_1)
  then have d: "1 / 20002 \<le> d" unfolding d_def by (simp only: times_divide_eq_left)
  have ed: "d \<le> exp d - 1" using exp_ge_add_one_self [of d] by linarith
  have "1 \<le> (1 / 3 ^ 23) * (1 / 20002) * (2 ^ 64 :: real)" by simp
  also have "\<dots> \<le> exp x * d * 2 ^ 64"
    using exp_lowest_tick [OF assms(1)] d by (intro mult_right_mono mult_mono) (simp_all add: x_def)
  also have "\<dots> \<le> exp x * (exp d - 1) * 2 ^ 64"
    by (intro mult_right_mono mult_left_mono ed) simp_all
  finally show ?thesis unfolding td x_def [symmetric] exp_add by (simp add: algebra_simps)
qed

lemma sp_real_less:
  assumes "MIN_TICK_INDEX \<le> s" "s < t"
  shows "sp_real s < sp_real t"
proof -
  have "round (exp (real_of_int s / 2 * ln 1.0001) * 2 ^ 64 + 1) \<le> sp_real t"
    unfolding sp_real_def by (rule round_mono [OF exp_tick_step [OF assms]])
  moreover have "round (exp (real_of_int s / 2 * ln 1.0001) * 2 ^ 64 + 1) = sp_real s + 1"
    unfolding sp_real_def round_def by linarith
  ultimately show ?thesis by simp
qed

lemma sp_real_pos: "0 < sp_real MIN_TICK_INDEX"
proof -
  have "(1::real) \<le> 1 / 3 ^ 23 * 2 ^ 64" by simp
  also have "\<dots> \<le> exp (real_of_int MIN_TICK_INDEX / 2 * ln 1.0001) * 2 ^ 64"
    using exp_lowest_tick [of MIN_TICK_INDEX] by (intro mult_right_mono) simp_all
  finally have "1 \<le> sp_real MIN_TICK_INDEX"
    unfolding sp_real_def round_def by linarith
  then show ?thesis by simp
qed

interpretation tp: tick_price sp_real
  by unfold_locales (simp_all add: sp_real_less sp_real_pos)

text \<open>An evaluable price function that meets the contract, for concrete runs.\<close>

definition sp_lin :: "int \<Rightarrow> int" where
  "sp_lin t = MIN_SQRT_PRICE + (t - MIN_TICK_INDEX) * 10 ^ 23"

interpretation tl: tick_price sp_lin
  by unfold_locales (simp_all add: sp_lin_def MIN_SQRT_PRICE_def)

definition samplePool :: whirlpool_state where
  "samplePool = \<lparr>w_whirlpoolsConfig = [], w_whirlpoolBump = [255], w_tickSpacing = 1,
     w_tickSpacingSeed = [1, 0], w_feeRate = 3000, w_protocolFeeRate = 300, w_liquidity = 10 ^ 9,
     w_sqrtPrice = sp_lin 0, w_tickCurrentIndex = 0, w_protocolFeeOwedA = 0, w_protocolFeeOwedB = 0,
     w_tokenMintA = [], w_tokenVaultA = [], w_tokenMintB = [], w_tokenVaultB = [],
     w_feeGrowthGlobalA = 0, w_feeGrowthGlobalB = 0, w_rewardLastUpdatedTimestamp = 0,
     w_rewardInfos = []\<rparr>"

subsection \<open>Rounding to the tick spacing\<close>

lemma nearest_multiple:
  fixes t n :: int
  assumes "0 < n"
  defines "r \<equiv> ((2 * t + n) div (2 * n)) * n"
  shows "2 * t - n \<le> 2 * r" "2 * r \<le> 2 * t + n" "n dvd r"
proof -
  have "(2 * t + n) div (2 * n) * (2 * n) \<le> 2 * t + n" using assms by (intro floor_div_le) simp
  moreover have "2 * t + n < ((2 * t + n) div (2 * n) + 1) * (2 * n)"
    using assms by (intro floor_div_gt) simp
  ultimately have "2 * r \<le> 2 * t + n" "2 * t + n < 2 * r + 2 * n"
    by (simp_all add: r_def algebra_simps)
  then show "2 * t - n \<le> 2 * r" "2 * r \<le> 2 * t + n" by simp_all
  show "n dvd r" by (simp add: r_def)
qed

subsection \<open>Properties\<close>

text \<open>The binary search ends and returns the tick of the price: the greatest tick whose price
  is at most the given one, for every price in range that reaches the lowest tick.\<close>

theorem sqrtPriceToTickIndex_finds:
  assumes "tick_price sp" "MIN_SQRT_PRICE \<le> p" "p \<le> MAX_SQRT_PRICE" "sp MIN_TICK_INDEX \<le> p"
  shows "\<exists>t. sqrtPriceToTickIndex sp p = Inr t \<and> MIN_TICK_INDEX \<le> t \<and> t \<le> MAX_TICK_INDEX \<and>
           sp t \<le> p \<and> (\<forall>u. t < u \<and> u \<le> MAX_TICK_INDEX \<longrightarrow> p < sp u)"
proof -
  obtain t where t: "sqrtPriceToTickIndex sp p = Inr t" "MIN_TICK_INDEX \<le> t" "t \<le> MAX_TICK_INDEX"
      "sp t \<le> p" "t < MAX_TICK_INDEX \<longrightarrow> p < sp (t + 1)"
    using tick_price.sqrtPriceToTickIndex_spec [OF assms] by blast
  have "p < sp u" if "t < u" "u \<le> MAX_TICK_INDEX" for u
    using t that tick_price.sp_le [OF assms(1), of "t + 1" u] by simp
  with t show ?thesis by blast
qed

theorem sqrtPriceToTickIndex_finds_witness:
  "\<exists>t. sqrtPriceToTickIndex sp_lin (10 ^ 24) = Inr t \<and> sp_lin t \<le> 10 ^ 24 \<and>
     (\<forall>u. t < u \<and> u \<le> MAX_TICK_INDEX \<longrightarrow> 10 ^ 24 < sp_lin u)"
  using sqrtPriceToTickIndex_finds [OF tl.tick_price_axioms, of "10 ^ 24"]
  by (auto simp: MIN_SQRT_PRICE_def MAX_SQRT_PRICE_def sp_lin_def)

text \<open>Converting a tick to its price and back gives the tick, for every tick whose price lies
  in the program's price range; with the exact real formula as well as with any other strictly
  growing price.\<close>

theorem tick_price_roundtrip:
  assumes "tick_price sp" "tickIndexToSqrtPrice sp t = Inr p" "MIN_SQRT_PRICE \<le> p" "p \<le> MAX_SQRT_PRICE"
  shows "sqrtPriceToTickIndex sp p = Inr t"
  using assms tick_price.tick_roundtrip [of sp t]
  by (auto simp: tickIndexToSqrtPrice_def split: if_splits)

theorem tick_price_roundtrip_witness:
  "sqrtPriceToTickIndex sp_lin (MIN_SQRT_PRICE + 10 ^ 24) = Inr (10 - 443636)"
  by (rule tick_price_roundtrip [OF tl.tick_price_axioms])
    (simp_all add: tickIndexToSqrtPrice_def sp_lin_def MIN_TICK_INDEX_def MAX_TICK_INDEX_def
      MIN_SQRT_PRICE_def MAX_SQRT_PRICE_def)

text \<open>\<open>getNearestValidTickIndex\<close> returns a tick in range; away from the ends it is a multiple
  of the spacing at most half a spacing away. At the ends the clamp wins over the spacing: the
  result need not be a multiple.\<close>

theorem getNearestValidTickIndex_spec:
  assumes "0 < n"
  shows "MIN_TICK_INDEX \<le> getNearestValidTickIndex t n \<and> getNearestValidTickIndex t n \<le> MAX_TICK_INDEX \<and>
    (MIN_TICK_INDEX + n \<le> t \<and> t \<le> MAX_TICK_INDEX - n \<longrightarrow>
      n dvd getNearestValidTickIndex t n \<and>
      2 * t - n \<le> 2 * getNearestValidTickIndex t n \<and> 2 * getNearestValidTickIndex t n \<le> 2 * t + n) \<and>
    \<not> 64 dvd getNearestValidTickIndex 443636 64"
proof -
  define r where "r = ((2 * t + n) div (2 * n)) * n"
  have r: "2 * t - n \<le> 2 * r" "2 * r \<le> 2 * t + n" "n dvd r"
    unfolding r_def by (rule nearest_multiple [OF assms])+
  have eq: "getNearestValidTickIndex t n = max MIN_TICK_INDEX (min MAX_TICK_INDEX r)"
    by (simp add: getNearestValidTickIndex_def Let_def r_def)
  have "max MIN_TICK_INDEX (min MAX_TICK_INDEX r) = r"
    if "MIN_TICK_INDEX + n \<le> t" "t \<le> MAX_TICK_INDEX - n"
    using that r assms by (simp add: max_def min_def)
  moreover have "\<not> 64 dvd getNearestValidTickIndex 443636 64"
    by (simp add: getNearestValidTickIndex_def Let_def MIN_TICK_INDEX_def MAX_TICK_INDEX_def)
  ultimately show ?thesis
    using r by (auto simp: eq MIN_TICK_INDEX_def MAX_TICK_INDEX_def)
qed

theorem getNearestValidTickIndex_spec_witness:
  "64 dvd getNearestValidTickIndex 1000 64 \<and> 2 * getNearestValidTickIndex 1000 64 \<le> 2 * 1000 + 64"
  using getNearestValidTickIndex_spec [of 64 1000]
  by (simp add: MIN_TICK_INDEX_def MAX_TICK_INDEX_def)

end
