(* ===== verification/SwapMath.thy ===== *)
theory SwapMath
  imports TickMath
begin

text \<open>
  \<open>packages/arch-swap-engine/src/lib/clamm/math/swap-math.ts\<close>: one swap step between two prices,
  the search for the next initialized tick, the whole swap across tick arrays and the quote built
  from it. The loop of \<open>computeSwap\<close> terminates: every crossing leaves one tick position behind.
\<close>

subsection \<open>A single step\<close>

record swap_step_result =
  st_nextSqrtPrice :: int
  st_amountIn :: int
  st_amountOut :: int
  st_feeAmount :: int

definition computeSwapStep ::
    "int \<Rightarrow> int \<Rightarrow> int \<Rightarrow> int \<Rightarrow> int \<Rightarrow> bool \<Rightarrow> bool \<Rightarrow> clamm_error + swap_step_result" where
  "computeSwapStep amountRemaining feeRate currentLiquidity currentSqrtPrice targetSqrtPrice aToB
     amountSpecifiedIsInput =
     (if currentLiquidity = 0
      then Inr \<lparr>st_nextSqrtPrice = targetSqrtPrice, st_amountIn = 0, st_amountOut = 0, st_feeAmount = 0\<rparr>
      else
        let amountCalc =
              (if amountSpecifiedIsInput
               then amountRemaining - (amountRemaining * feeRate) sdiv FEE_RATE_MUL_VALUE
               else amountRemaining);
            amountToTarget =
              (if aToB
               then getAmountDeltaA targetSqrtPrice currentSqrtPrice currentLiquidity amountSpecifiedIsInput
               else getAmountDeltaB currentSqrtPrice targetSqrtPrice currentLiquidity amountSpecifiedIsInput)
        in rbind
             (if amountCalc \<ge> amountToTarget then Inr targetSqrtPrice
              else if aToB
              then getNextSqrtPriceFromA currentSqrtPrice currentLiquidity amountCalc amountSpecifiedIsInput
              else getNextSqrtPriceFromB currentSqrtPrice currentLiquidity amountCalc amountSpecifiedIsInput)
             (\<lambda>nextSqrtPrice.
               let reachedTarget = (nextSqrtPrice = targetSqrtPrice);
                   amountIn =
                     (if reachedTarget \<and> amountSpecifiedIsInput then amountToTarget
                      else if aToB
                      then getAmountDeltaA nextSqrtPrice currentSqrtPrice currentLiquidity True
                      else getAmountDeltaB currentSqrtPrice nextSqrtPrice currentLiquidity True);
                   amountOut0 =
                     (if reachedTarget \<and> \<not> amountSpecifiedIsInput then amountToTarget
                      else if aToB
                      then getAmountDeltaB nextSqrtPrice currentSqrtPrice currentLiquidity False
                      else getAmountDeltaA currentSqrtPrice nextSqrtPrice currentLiquidity False);
                   amountOut =
                     (if \<not> amountSpecifiedIsInput \<and> amountOut0 > amountRemaining then amountRemaining
                      else amountOut0);
                   feeAmount =
                     (if amountSpecifiedIsInput \<and> \<not> reachedTarget then amountRemaining - amountIn
                      else (amountIn * feeRate + FEE_RATE_MUL_VALUE - 1) sdiv FEE_RATE_MUL_VALUE)
               in Inr \<lparr>st_nextSqrtPrice = nextSqrtPrice, st_amountIn = amountIn,
                       st_amountOut = amountOut, st_feeAmount = feeAmount\<rparr>))"

text \<open>
  What an exact-input step promises: the price moves towards the target and not past it, no amount
  is negative, the input with its fee is at most one unit above what remained, and a step that
  stops short of the target uses what remained exactly.
\<close>

definition priceBetween :: "bool \<Rightarrow> int \<Rightarrow> int \<Rightarrow> int \<Rightarrow> bool" where
  "priceBetween aToB target n current \<longleftrightarrow>
     (if aToB then target \<le> n \<and> n \<le> current else current \<le> n \<and> n \<le> target)"

definition exactInStepOk :: "int \<Rightarrow> int \<Rightarrow> int \<Rightarrow> bool \<Rightarrow> swap_step_result \<Rightarrow> bool" where
  "exactInStepOk remaining current target aToB st \<longleftrightarrow>
     priceBetween aToB target (st_nextSqrtPrice st) current \<and>
     0 \<le> st_amountIn st \<and> st_amountIn st \<le> remaining \<and>
     0 \<le> st_amountOut st \<and> 0 \<le> st_feeAmount st \<and>
     st_amountIn st + st_feeAmount st \<le> remaining + 1 \<and>
     (st_nextSqrtPrice st \<noteq> target \<longrightarrow> st_amountIn st + st_feeAmount st = remaining)"

lemma fee_deduction:
  assumes "0 \<le> R" "0 \<le> f" "f \<le> FEE_RATE_MUL_VALUE"
  shows "0 \<le> R - (R * f) sdiv FEE_RATE_MUL_VALUE" "R - (R * f) sdiv FEE_RATE_MUL_VALUE \<le> R"
    and "(R * f) sdiv FEE_RATE_MUL_VALUE = (R * f) div FEE_RATE_MUL_VALUE"
proof -
  have M: "0 < FEE_RATE_MUL_VALUE" by (simp add: FEE_RATE_MUL_VALUE_def)
  have Rf: "0 \<le> R * f" "R * f \<le> R * FEE_RATE_MUL_VALUE" using assms by (simp_all add: mult_left_mono)
  show e: "(R * f) sdiv FEE_RATE_MUL_VALUE = (R * f) div FEE_RATE_MUL_VALUE"
    using Rf M by (simp add: sdiv_nonneg)
  have "(R * f) div FEE_RATE_MUL_VALUE \<le> (R * FEE_RATE_MUL_VALUE) div FEE_RATE_MUL_VALUE"
    using Rf(2) M by (rule zdiv_mono1)
  then show "0 \<le> R - (R * f) sdiv FEE_RATE_MUL_VALUE" using M by (simp add: e)
  show "R - (R * f) sdiv FEE_RATE_MUL_VALUE \<le> R" using floor_div_nonneg [OF M Rf(1)] by (simp add: e)
qed

lemma fee_on_input:
  assumes "0 \<le> i" "0 \<le> f" "f \<le> FEE_RATE_MUL_VALUE" "0 \<le> R"
    and "i \<le> R - (R * f) sdiv FEE_RATE_MUL_VALUE"
  shows "0 \<le> (i * f + FEE_RATE_MUL_VALUE - 1) sdiv FEE_RATE_MUL_VALUE"
    and "i + (i * f + FEE_RATE_MUL_VALUE - 1) sdiv FEE_RATE_MUL_VALUE \<le> R + 1"
proof -
  have M: "0 < FEE_RATE_MUL_VALUE" by (simp add: FEE_RATE_MUL_VALUE_def)
  have e: "(i * f + FEE_RATE_MUL_VALUE - 1) sdiv FEE_RATE_MUL_VALUE =
      (i * f + FEE_RATE_MUL_VALUE - 1) div FEE_RATE_MUL_VALUE"
    using assms M by (intro sdiv_ceil) simp_all
  show "0 \<le> (i * f + FEE_RATE_MUL_VALUE - 1) sdiv FEE_RATE_MUL_VALUE"
    unfolding e using M assms by (intro ceil_div_nonneg) simp_all
  have "i \<le> R" using assms fee_deduction(2) [of R f] by linarith
  then have "i * f \<le> R * f" using assms(2) by (rule mult_right_mono)
  then have "(i * f + FEE_RATE_MUL_VALUE - 1) div FEE_RATE_MUL_VALUE
      \<le> (R * f + FEE_RATE_MUL_VALUE - 1) div FEE_RATE_MUL_VALUE"
    using M by (intro zdiv_mono1) simp_all
  also have "\<dots> \<le> (R * f) div FEE_RATE_MUL_VALUE + 1" by (rule ceil_le_floor_plus_1 [OF M])
  finally show "i + (i * f + FEE_RATE_MUL_VALUE - 1) sdiv FEE_RATE_MUL_VALUE \<le> R + 1"
    using assms(5) fee_deduction(3) [OF assms(4,2,3)] by (simp add: e)
qed

lemma computeSwapStep_exact_in:
  assumes R: "0 < R" and f: "0 \<le> f" "f \<le> FEE_RATE_MUL_VALUE" and L: "0 \<le> L"
    and P: "0 < P" "0 < T" and dir: "priceBetween aToB T P P"
  shows "\<exists>st. computeSwapStep R f L P T aToB True = Inr st \<and> exactInStepOk R P T aToB st \<and>
           (L \<noteq> 0 \<longrightarrow>
             st_amountIn st = (if aToB then getAmountDeltaA (st_nextSqrtPrice st) P L True
                               else getAmountDeltaB P (st_nextSqrtPrice st) L True) \<and>
             st_amountOut st = (if aToB then getAmountDeltaB (st_nextSqrtPrice st) P L False
                                else getAmountDeltaA P (st_nextSqrtPrice st) L False))"
proof (cases "L = 0")
  case True
  then show ?thesis using dir R
    by (auto simp: computeSwapStep_def exactInStepOk_def priceBetween_def)
next
  case False
  with L have L0: "0 < L" by simp
  define c where "c = R - (R * f) sdiv FEE_RATE_MUL_VALUE"
  have c: "0 \<le> c" "c \<le> R" using fee_deduction [of R f] R f by (simp_all add: c_def)
  define delta where "delta = (\<lambda>n. if aToB then getAmountDeltaA n P L True else getAmountDeltaB P n L True)"
  define out where "out = (\<lambda>n. if aToB then getAmountDeltaB n P L False else getAmountDeltaA P n L False)"
  obtain n where n: "(if c \<ge> delta T then Inr T
        else if aToB then getNextSqrtPriceFromA P L c True else getNextSqrtPriceFromB P L c True) = Inr n"
      "0 < n" "priceBetween aToB T n P" "delta n \<le> c" "n = T \<longrightarrow> delta T \<le> c"
  proof (cases "delta T \<le> c")
    case True
    then show thesis using that [of T] P dir by (auto simp: priceBetween_def split: if_splits)
  next
    case False
    then show thesis
    proof (cases aToB)
      case True
      obtain n where n: "getNextSqrtPriceFromA P L c True = Inr n" "0 < n" "n \<le> P"
          "getAmountDeltaA n P L True \<le> c"
          "\<And>T. 0 < T \<Longrightarrow> T \<le> P \<Longrightarrow> c < getAmountDeltaA T P L True \<Longrightarrow> T < n"
        using getNextSqrtPriceFromA_input [OF P(1) L0 c(1)] by blast
      have "T < n" using n(5) [of T] False True dir P by (simp add: delta_def priceBetween_def)
      then show thesis using that [of n] n False True by (auto simp: delta_def priceBetween_def)
    next
      case False
      obtain n where n: "getNextSqrtPriceFromB P L c True = Inr n" "P \<le> n"
          "getAmountDeltaB P n L True \<le> c"
          "\<And>T. P \<le> T \<Longrightarrow> c < getAmountDeltaB P T L True \<Longrightarrow> n < T"
        using getNextSqrtPriceFromB_input [OF L0 c(1), where P = P] by blast
      have "n < T" using n(4) [of T] False dir \<open>\<not> delta T \<le> c\<close> by (simp add: delta_def priceBetween_def)
      then show thesis using that [of n] n False P \<open>\<not> delta T \<le> c\<close>
        by (auto simp: delta_def priceBetween_def)
    qed
  qed
  have sides: "if aToB then n \<le> P else P \<le> n" using n(3) by (auto simp: priceBetween_def)
  have nonneg: "0 \<le> delta n" "0 \<le> out n"
    using sides n(2) P L by (auto simp: delta_def out_def getAmountDeltaA_nonneg getAmountDeltaB_nonneg)
  define fee where "fee = (if n \<noteq> T then R - delta n
      else (delta n * f + FEE_RATE_MUL_VALUE - 1) sdiv FEE_RATE_MUL_VALUE)"
  have fee: "0 \<le> fee" "delta n + fee \<le> R + 1" "n \<noteq> T \<longrightarrow> delta n + fee = R"
    using fee_on_input [OF nonneg(1) f, of R] n(4) c R by (auto simp: fee_def c_def)
  have "computeSwapStep R f L P T aToB True =
      Inr \<lparr>st_nextSqrtPrice = n, st_amountIn = delta n, st_amountOut = out n, st_feeAmount = fee\<rparr>"
    using n(1) False unfolding computeSwapStep_def c_def [symmetric] delta_def out_def fee_def
    by (auto simp: Let_def)
  then show ?thesis
    using n(3,4) nonneg fee c by (auto simp: exactInStepOk_def delta_def out_def)
qed

subsection \<open>The next initialized tick\<close>

text \<open>
  The inner loop over the ticks of one array: \<open>is\<close> are the values its counter \<open>i\<close> takes, \<open>cond\<close>
  the comparison with the current tick. Reading \<open>ticks[i].initialized\<close> past the end of the array
  is a \<open>TypeError\<close>, and the read comes after the comparison.
\<close>

fun scanTicks :: "(int \<Rightarrow> bool) \<Rightarrow> tick_array \<Rightarrow> int \<Rightarrow> nat list \<Rightarrow> clamm_error + (tick \<times> int) option" where
  "scanTicks cond ta tickSpacing [] = Inr None"
| "scanTicks cond ta tickSpacing (i # is) =
     (let tickIndex = ta_startTickIndex ta + int i * tickSpacing
      in if cond tickIndex
         then (case at_opt (ta_ticks ta) i of
                 None \<Rightarrow> Inl TypeErrorUndefined
               | Some t \<Rightarrow> if t_initialized t then Inr (Some (t, tickIndex))
                           else scanTicks cond ta tickSpacing is)
         else scanTicks cond ta tickSpacing is)"

fun getNextInitializedTick ::
    "tick_array list \<Rightarrow> int \<Rightarrow> int \<Rightarrow> bool \<Rightarrow> clamm_error + (tick \<times> int) option" where
  "getNextInitializedTick [] currentTickIndex tickSpacing aToB = Inr None"
| "getNextInitializedTick (ta # tas) currentTickIndex tickSpacing aToB =
     rbind (if aToB
            then scanTicks (\<lambda>x. x \<le> currentTickIndex) ta tickSpacing (rev [0..<TICK_ARRAY_SIZE])
            else scanTicks (\<lambda>x. x > currentTickIndex) ta tickSpacing [0..<TICK_ARRAY_SIZE])
       (\<lambda>r. case r of
              Some found \<Rightarrow> Inr (Some found)
            | None \<Rightarrow> getNextInitializedTick tas currentTickIndex tickSpacing aToB)"

definition tickPositions :: "tick_array list \<Rightarrow> int \<Rightarrow> int set" where
  "tickPositions tas tickSpacing =
     (\<Union>ta\<in>set tas. (\<lambda>i. ta_startTickIndex ta + int i * tickSpacing) ` {0..<TICK_ARRAY_SIZE})"

lemma finite_tickPositions [simp]: "finite (tickPositions tas tickSpacing)"
  by (simp add: tickPositions_def)

lemma scanTicks_Some:
  assumes "scanTicks cond ta ts is = Inr (Some (t, x))"
  shows "cond x \<and> t_initialized t \<and> t \<in> set (ta_ticks ta) \<and>
         x \<in> (\<lambda>i. ta_startTickIndex ta + int i * ts) ` set is"
  using assms
  by (induction "is") (auto simp: Let_def at_opt_Some_iff split: if_splits option.splits)

lemma tickPositions_Cons:
  "tickPositions (ta # tas) ts =
   (\<lambda>i. ta_startTickIndex ta + int i * ts) ` {0..<TICK_ARRAY_SIZE} \<union> tickPositions tas ts"
  by (simp add: tickPositions_def)

lemma getNextInitializedTick_Some:
  assumes "getNextInitializedTick tas cur ts aToB = Inr (Some (t, x))"
  shows "(if aToB then x \<le> cur else cur < x) \<and> t_initialized t \<and> x \<in> tickPositions tas ts"
  using assms
proof (induction tas)
  case Nil
  then show ?case by simp
next
  case (Cons ta tas)
  from Cons.prems consider
      (here) cond js where "scanTicks cond ta ts js = Inr (Some (t, x))" "set js = {0..<TICK_ARRAY_SIZE}"
        "cond = (\<lambda>x. if aToB then x \<le> cur else cur < x)"
    | (later) "getNextInitializedTick tas cur ts aToB = Inr (Some (t, x))"
    by (auto simp: rbind_eq_Inr_iff split: if_splits option.splits)
  then show ?case
  proof cases
    case here
    then show ?thesis
      using scanTicks_Some [OF here(1)] unfolding tickPositions_Cons here(2,3) by blast
  next
    case later
    then show ?thesis using Cons.IH by (auto simp: tickPositions_Cons)
  qed
qed

subsection \<open>The whole swap\<close>

record swap_loop_state =
  sl_amountRemaining :: int
  sl_totalAmountIn :: int
  sl_totalAmountOut :: int
  sl_totalFeeAmount :: int
  sl_currentSqrtPrice :: int
  sl_currentTickIndex :: int
  sl_currentLiquidity :: int

text \<open>The target price of one iteration, clamped to the price limit.\<close>

definition swapTarget ::
    "(int \<Rightarrow> int) \<Rightarrow> int \<Rightarrow> bool \<Rightarrow> (tick \<times> int) option \<Rightarrow> clamm_error + int" where
  "swapTarget sp sqrtPriceLimit aToB nextTick =
     rbind (case nextTick of
              Some (t, tickIndex) \<Rightarrow> tickIndexToSqrtPrice sp tickIndex
            | None \<Rightarrow> Inr (if aToB then MIN_SQRT_PRICE else MAX_SQRT_PRICE))
       (\<lambda>target. Inr (if aToB then (if target < sqrtPriceLimit then sqrtPriceLimit else target)
                      else (if target > sqrtPriceLimit then sqrtPriceLimit else target)))"

text \<open>The totals and the price after a step.\<close>

definition applyStep :: "bool \<Rightarrow> swap_step_result \<Rightarrow> swap_loop_state \<Rightarrow> swap_loop_state" where
  "applyStep amountSpecifiedIsInput step s = s\<lparr>
     sl_totalAmountIn := sl_totalAmountIn s + st_amountIn step,
     sl_totalAmountOut := sl_totalAmountOut s + st_amountOut step,
     sl_totalFeeAmount := sl_totalFeeAmount s + st_feeAmount step,
     sl_amountRemaining :=
       (if amountSpecifiedIsInput
        then sl_amountRemaining s - (st_amountIn step + st_feeAmount step)
        else sl_amountRemaining s - st_amountOut step),
     sl_currentSqrtPrice := st_nextSqrtPrice step\<rparr>"

definition crossTick :: "bool \<Rightarrow> tick \<Rightarrow> int \<Rightarrow> swap_loop_state \<Rightarrow> swap_loop_state" where
  "crossTick aToB t tickIndex s =
     (if aToB
      then s\<lparr>sl_currentLiquidity := sl_currentLiquidity s - t_liquidityNet t,
             sl_currentTickIndex := tickIndex - 1\<rparr>
      else s\<lparr>sl_currentLiquidity := sl_currentLiquidity s + t_liquidityNet t,
             sl_currentTickIndex := tickIndex\<rparr>)"

text \<open>
  One iteration of the loop body: \<open>Inr (False, s)\<close> is a \<open>break\<close> with state \<open>s\<close>, \<open>Inr (True, s)\<close>
  goes on.
\<close>

definition swapIteration ::
    "(int \<Rightarrow> int) \<Rightarrow> int \<Rightarrow> whirlpool_state \<Rightarrow> tick_array list \<Rightarrow> bool \<Rightarrow> bool \<Rightarrow> swap_loop_state \<Rightarrow>
     clamm_error + bool \<times> swap_loop_state" where
  "swapIteration sp sqrtPriceLimit pool tickArrays aToB amountSpecifiedIsInput s =
     rbind (getNextInitializedTick tickArrays (sl_currentTickIndex s) (w_tickSpacing pool) aToB) (\<lambda>nextTick.
     rbind (swapTarget sp sqrtPriceLimit aToB nextTick) (\<lambda>targetSqrtPrice.
     rbind (computeSwapStep (sl_amountRemaining s) (w_feeRate pool) (sl_currentLiquidity s)
              (sl_currentSqrtPrice s) targetSqrtPrice aToB amountSpecifiedIsInput) (\<lambda>step.
       let s' = applyStep amountSpecifiedIsInput step s
       in if sl_currentSqrtPrice s' = sqrtPriceLimit then Inr (False, s')
          else case nextTick of
                 None \<Rightarrow> Inr (False, s')
               | Some (t, tickIndex) \<Rightarrow>
                   rbind (tickIndexToSqrtPrice sp tickIndex) (\<lambda>tickPrice.
                     if st_nextSqrtPrice step = tickPrice
                     then Inr (True, crossTick aToB t tickIndex s')
                     else Inr (False, s')))))"

definition ticksAhead :: "tick_array list \<Rightarrow> int \<Rightarrow> bool \<Rightarrow> int \<Rightarrow> nat" where
  "ticksAhead tas ts aToB cur =
     card {x \<in> tickPositions tas ts. if aToB then x \<le> cur else cur < x}"

lemma ticksAhead_less:
  assumes "getNextInitializedTick tas cur ts aToB = Inr (Some (t, x))"
  shows "ticksAhead tas ts aToB (if aToB then x - 1 else x) < ticksAhead tas ts aToB cur"
proof -
  have x: "if aToB then x \<le> cur else cur < x" "x \<in> tickPositions tas ts"
    using getNextInitializedTick_Some [OF assms] by auto
  show ?thesis
    unfolding ticksAhead_def
    by (rule psubset_card_mono) (use x in \<open>auto split: if_splits\<close>)
qed

lemma swapIteration_continues:
  assumes "swapIteration sp limit pool tas aToB isIn s = Inr (True, s')"
  obtains t x target step where
    "getNextInitializedTick tas (sl_currentTickIndex s) (w_tickSpacing pool) aToB = Inr (Some (t, x))"
    "swapTarget sp limit aToB (Some (t, x)) = Inr target"
    "computeSwapStep (sl_amountRemaining s) (w_feeRate pool) (sl_currentLiquidity s)
       (sl_currentSqrtPrice s) target aToB isIn = Inr step"
    "st_nextSqrtPrice step \<noteq> limit" "tickIndexToSqrtPrice sp x = Inr (st_nextSqrtPrice step)"
    "s' = crossTick aToB t x (applyStep isIn step s)"
  using assms
  by (auto simp: swapIteration_def rbind_eq_Inr_iff Let_def applyStep_def split: if_splits option.splits)

function swapLoop ::
    "(int \<Rightarrow> int) \<Rightarrow> int \<Rightarrow> whirlpool_state \<Rightarrow> tick_array list \<Rightarrow> bool \<Rightarrow> bool \<Rightarrow> swap_loop_state \<Rightarrow>
     clamm_error + swap_loop_state" where
  "swapLoop sp sqrtPriceLimit pool tickArrays aToB amountSpecifiedIsInput s =
     (if sl_amountRemaining s > 0
      then case swapIteration sp sqrtPriceLimit pool tickArrays aToB amountSpecifiedIsInput s of
             Inl e \<Rightarrow> Inl e
           | Inr (True, s') \<Rightarrow> swapLoop sp sqrtPriceLimit pool tickArrays aToB amountSpecifiedIsInput s'
           | Inr (False, s') \<Rightarrow> Inr s'
      else Inr s)"
  by pat_completeness auto
termination
proof (relation "measure (\<lambda>(sp, limit, pool, tas, aToB, isIn, s).
    ticksAhead tas (w_tickSpacing pool) aToB (sl_currentTickIndex s))", goal_cases)
  case 1
  show ?case by simp
next
  case (2 sp limit pool tas aToB isIn s r p s')
  then have "swapIteration sp limit pool tas aToB isIn s = Inr (True, s')" by simp
  then obtain t x where "getNextInitializedTick tas (sl_currentTickIndex s) (w_tickSpacing pool) aToB = Inr (Some (t, x))"
    and "sl_currentTickIndex s' = (if aToB then x - 1 else x)"
    by (rule swapIteration_continues) (auto simp: crossTick_def)
  then show ?case using ticksAhead_less by fastforce
qed

declare swapLoop.simps [simp del]

record swap_result =
  sr_amountIn :: int
  sr_amountOut :: int
  sr_feeAmount :: int
  sr_nextSqrtPrice :: int
  sr_nextTickIndex :: int

definition computeSwap ::
    "(int \<Rightarrow> int) \<Rightarrow> int \<Rightarrow> int \<Rightarrow> whirlpool_state \<Rightarrow> tick_array list \<Rightarrow> bool \<Rightarrow> bool \<Rightarrow>
     clamm_error + swap_result" where
  "computeSwap sp tokenAmount sqrtPriceLimit pool tickArrays aToB amountSpecifiedIsInput =
     rbind (swapLoop sp sqrtPriceLimit pool tickArrays aToB amountSpecifiedIsInput
        \<lparr>sl_amountRemaining = tokenAmount, sl_totalAmountIn = 0, sl_totalAmountOut = 0,
         sl_totalFeeAmount = 0, sl_currentSqrtPrice = w_sqrtPrice pool,
         sl_currentTickIndex = w_tickCurrentIndex pool, sl_currentLiquidity = w_liquidity pool\<rparr>)
       (\<lambda>s. Inr \<lparr>sr_amountIn = sl_totalAmountIn s, sr_amountOut = sl_totalAmountOut s,
                  sr_feeAmount = sl_totalFeeAmount s, sr_nextSqrtPrice = sl_currentSqrtPrice s,
                  sr_nextTickIndex = sl_currentTickIndex s\<rparr>)"

definition swapQuoteByInputToken ::
    "(int \<Rightarrow> int) \<Rightarrow> int \<Rightarrow> bool \<Rightarrow> int \<Rightarrow> whirlpool_state \<Rightarrow> tick_array list \<Rightarrow> clamm_error + swap_quote" where
  "swapQuoteByInputToken sp tokenIn aToB slippageBps pool tickArrays =
     (let sqrtPriceLimit = (if aToB then MIN_SQRT_PRICE else MAX_SQRT_PRICE)
      in rbind (computeSwap sp tokenIn sqrtPriceLimit pool tickArrays aToB True) (\<lambda>result.
           let slippageFactor = 10000 - slippageBps;
               otherAmountThreshold = (sr_amountOut result * slippageFactor) sdiv 10000
           in Inr \<lparr>q_estimatedAmountIn = sr_amountIn result + sr_feeAmount result,
                   q_estimatedAmountOut = sr_amountOut result,
                   q_estimatedFeeAmount = sr_feeAmount result,
                   q_amountSpecifiedIsInput = True,
                   q_aToB = aToB,
                   q_otherAmountThreshold = otherAmountThreshold,
                   q_sqrtPriceLimit = sqrtPriceLimit,
                   q_tickArrays = tickArrays\<rparr>))"

subsection \<open>Well-formed tick arrays and liquidity along the path\<close>

definition wfTickArrays :: "tick_array list \<Rightarrow> int \<Rightarrow> bool" where
  "wfTickArrays tas ts \<longleftrightarrow> (\<forall>ta\<in>set tas. length (ta_ticks ta) = TICK_ARRAY_SIZE \<and>
     (\<forall>i<TICK_ARRAY_SIZE. t_initialized (ta_ticks ta ! i) \<longrightarrow>
        MIN_TICK_INDEX \<le> ta_startTickIndex ta + int i * ts \<and>
        ta_startTickIndex ta + int i * ts \<le> MAX_TICK_INDEX))"

text \<open>
  The active liquidity never becomes negative as the ticks ahead are crossed one after the other:
  what the program guarantees of an account, since it is the sum of the positions in range.
\<close>

inductive liquidityNonneg :: "tick_array list \<Rightarrow> int \<Rightarrow> bool \<Rightarrow> int \<Rightarrow> int \<Rightarrow> bool" for tas ts aToB where
  liquidityNonnegI: "0 \<le> liq \<Longrightarrow>
    (\<And>t x. getNextInitializedTick tas cur ts aToB = Inr (Some (t, x)) \<Longrightarrow>
       liquidityNonneg tas ts aToB (if aToB then x - 1 else x)
         (if aToB then liq - t_liquidityNet t else liq + t_liquidityNet t)) \<Longrightarrow>
    liquidityNonneg tas ts aToB cur liq"

inductive_cases liquidityNonnegE: "liquidityNonneg tas ts aToB cur liq"

lemma scanTicks_total:
  assumes "length (ta_ticks ta) = TICK_ARRAY_SIZE" "set js \<subseteq> {0..<TICK_ARRAY_SIZE}"
  shows "\<exists>r. scanTicks cond ta ts js = Inr r \<and>
    (\<forall>t x. r = Some (t, x) \<longrightarrow> (\<exists>i<TICK_ARRAY_SIZE. t = ta_ticks ta ! i \<and> t_initialized t \<and>
       x = ta_startTickIndex ta + int i * ts))"
  using assms(2)
proof (induction js)
  case Nil
  then show ?case by simp
next
  case (Cons j js)
  then have "at_opt (ta_ticks ta) j = Some (ta_ticks ta ! j)" using assms(1) by (simp add: at_opt_def)
  then show ?case using Cons by (auto simp: Let_def)
qed

lemma getNextInitializedTick_total:
  assumes "wfTickArrays tas ts"
  shows "\<exists>r. getNextInitializedTick tas cur ts aToB = Inr r \<and>
    (\<forall>t x. r = Some (t, x) \<longrightarrow> MIN_TICK_INDEX \<le> x \<and> x \<le> MAX_TICK_INDEX)"
  using assms
proof (induction tas)
  case Nil
  then show ?case by simp
next
  case (Cons ta tas)
  then have ta: "length (ta_ticks ta) = TICK_ARRAY_SIZE" and tas: "wfTickArrays tas ts"
    by (simp_all add: wfTickArrays_def)
  define cond js where "cond = (if aToB then (\<lambda>x. x \<le> cur) else (\<lambda>x. x > cur))"
    and "js = (if aToB then rev [0..<TICK_ARRAY_SIZE] else [0..<TICK_ARRAY_SIZE])"
  have unfold: "getNextInitializedTick (ta # tas) cur ts aToB =
      rbind (scanTicks cond ta ts js)
        (\<lambda>r. case r of Some found \<Rightarrow> Inr (Some found) | None \<Rightarrow> getNextInitializedTick tas cur ts aToB)"
    by (cases aToB) (simp_all add: cond_def js_def cong: option.case_cong)
  have js: "set js \<subseteq> {0..<TICK_ARRAY_SIZE}" by (simp add: js_def)
  obtain r where r: "scanTicks cond ta ts js = Inr r"
      "\<And>t x. r = Some (t, x) \<Longrightarrow> \<exists>i<TICK_ARRAY_SIZE. t = ta_ticks ta ! i \<and> t_initialized t \<and>
         x = ta_startTickIndex ta + int i * ts"
    using scanTicks_total [OF ta js, of cond ts] by blast
  show ?case
  proof (cases r)
    case None
    then show ?thesis using Cons.IH [OF tas] r(1) by (simp only: unfold) simp
  next
    case (Some p)
    then show ?thesis
      using r Cons.prems by (cases p) (fastforce simp: unfold wfTickArrays_def simp del: getNextInitializedTick.simps)
  qed
qed

subsection \<open>The exact-input swap\<close>

text \<open>
  The loop invariant: the amounts add up to the token amount, at most one unit is overdrawn, the
  price lies between the limit and the starting price, and the current price has not passed the
  ticks that are still ahead.
\<close>

definition swapCore :: "int \<Rightarrow> int \<Rightarrow> int \<Rightarrow> bool \<Rightarrow> swap_loop_state \<Rightarrow> bool" where
  "swapCore tokenAmount limit start aToB s \<longleftrightarrow>
     priceBetween aToB limit (sl_currentSqrtPrice s) start \<and>
     0 < sl_currentSqrtPrice s \<and>
     -1 \<le> sl_amountRemaining s \<and>
     0 \<le> sl_totalAmountIn s \<and> 0 \<le> sl_totalAmountOut s \<and> 0 \<le> sl_totalFeeAmount s \<and>
     sl_totalAmountIn s + sl_totalFeeAmount s + sl_amountRemaining s = tokenAmount"

definition swapAhead ::
    "(int \<Rightarrow> int) \<Rightarrow> whirlpool_state \<Rightarrow> tick_array list \<Rightarrow> bool \<Rightarrow> swap_loop_state \<Rightarrow> bool" where
  "swapAhead sp pool tas aToB s \<longleftrightarrow>
     (\<forall>x. MIN_TICK_INDEX \<le> x \<and> x \<le> MAX_TICK_INDEX \<longrightarrow>
        (if aToB then x \<le> sl_currentTickIndex s \<longrightarrow> sp x \<le> sl_currentSqrtPrice s
         else sl_currentTickIndex s < x \<longrightarrow> sl_currentSqrtPrice s \<le> sp x)) \<and>
     liquidityNonneg tas (w_tickSpacing pool) aToB (sl_currentTickIndex s) (sl_currentLiquidity s)"

definition limitOk :: "bool \<Rightarrow> int \<Rightarrow> bool" where
  "limitOk aToB limit \<longleftrightarrow>
     (if aToB then MIN_SQRT_PRICE \<le> limit else 0 < limit \<and> limit \<le> MAX_SQRT_PRICE)"

context tick_price
begin

lemma swapTarget_between:
  assumes core: "swapCore tokenAmount limit start aToB s" and ahead: "swapAhead sp pool tas aToB s"
    and lim: "limitOk aToB limit"
    and found: "getNextInitializedTick tas (sl_currentTickIndex s) (w_tickSpacing pool) aToB = Inr r"
    and range: "\<And>t x. r = Some (t, x) \<Longrightarrow> MIN_TICK_INDEX \<le> x \<and> x \<le> MAX_TICK_INDEX"
  shows "\<exists>T. swapTarget sp limit aToB r = Inr T \<and> 0 < T \<and>
    priceBetween aToB limit T (sl_currentSqrtPrice s)"
proof (cases r)
  case None
  then show ?thesis
    using core lim by (auto simp: swapTarget_def swapCore_def limitOk_def priceBetween_def
        MIN_SQRT_PRICE_def split: if_splits)
next
  case (Some p)
  obtain t x where p: "r = Some (t, x)" using Some by (cases p) simp
  have x: "MIN_TICK_INDEX \<le> x" "x \<le> MAX_TICK_INDEX" using range [OF p] by auto
  have "if aToB then x \<le> sl_currentTickIndex s else sl_currentTickIndex s < x"
    using getNextInitializedTick_Some [OF found [unfolded p]] by simp
  then have spx: "0 < sp x" "if aToB then sp x \<le> sl_currentSqrtPrice s else sl_currentSqrtPrice s \<le> sp x"
    using ahead x sp_positive by (auto simp: swapAhead_def split: if_splits)
  have "tickIndexToSqrtPrice sp x = Inr (sp x)" using x by (simp add: tickIndexToSqrtPrice_def)
  then show ?thesis
    using core lim spx by (auto simp: p swapTarget_def swapCore_def limitOk_def priceBetween_def
        MIN_SQRT_PRICE_def split: if_splits)
qed

lemma crossTick_ahead:
  assumes ahead: "swapAhead sp pool tas aToB s"
    and found: "getNextInitializedTick tas (sl_currentTickIndex s) (w_tickSpacing pool) aToB = Inr (Some (t, x))"
    and x: "MIN_TICK_INDEX \<le> x" "x \<le> MAX_TICK_INDEX"
    and price: "sl_currentSqrtPrice s' = sp x" "sl_currentLiquidity s' = sl_currentLiquidity s"
  shows "swapAhead sp pool tas aToB (crossTick aToB t x s')"
proof -
  have "liquidityNonneg tas (w_tickSpacing pool) aToB (if aToB then x - 1 else x)
     (if aToB then sl_currentLiquidity s - t_liquidityNet t else sl_currentLiquidity s + t_liquidityNet t)"
    using ahead found by (auto simp: swapAhead_def elim: liquidityNonnegE)
  moreover have "\<And>y. MIN_TICK_INDEX \<le> y \<Longrightarrow> y \<le> MAX_TICK_INDEX \<Longrightarrow>
      (if aToB then y \<le> x - 1 \<longrightarrow> sp y \<le> sp x else x < y \<longrightarrow> sp x \<le> sp y)"
    using x sp_le by auto
  ultimately show ?thesis by (auto simp: swapAhead_def crossTick_def price)
qed

lemma swapIteration_inv:
  assumes core: "swapCore tokenAmount limit start aToB s" and ahead: "swapAhead sp pool tas aToB s"
    and pos: "0 < sl_amountRemaining s"
    and lim: "limitOk aToB limit" and fee: "0 \<le> w_feeRate pool" "w_feeRate pool \<le> FEE_RATE_MUL_VALUE"
    and wf: "wfTickArrays tas (w_tickSpacing pool)"
  shows "\<exists>b s'. swapIteration sp limit pool tas aToB True s = Inr (b, s') \<and>
    swapCore tokenAmount limit start aToB s' \<and>
    (if b then swapAhead sp pool tas aToB s'
     else sl_amountRemaining s' \<le> 0 \<or> sl_currentSqrtPrice s' = limit)"
proof -
  let ?P = "sl_currentSqrtPrice s"
  obtain r where r: "getNextInitializedTick tas (sl_currentTickIndex s) (w_tickSpacing pool) aToB = Inr r"
      "\<And>t x. r = Some (t, x) \<Longrightarrow> MIN_TICK_INDEX \<le> x \<and> x \<le> MAX_TICK_INDEX"
    using getNextInitializedTick_total [OF wf, of "sl_currentTickIndex s" aToB] by blast
  obtain T where T: "swapTarget sp limit aToB r = Inr T" "0 < T" "priceBetween aToB limit T ?P"
    using swapTarget_between [OF core ahead lim r(1)] r(2) by blast
  have liq: "0 \<le> sl_currentLiquidity s"
    using ahead by (auto simp: swapAhead_def elim: liquidityNonnegE)
  have "priceBetween aToB T ?P ?P" "0 < ?P"
    using T(3) core by (auto simp: priceBetween_def swapCore_def split: if_splits)
  then obtain st where st: "computeSwapStep (sl_amountRemaining s) (w_feeRate pool)
        (sl_currentLiquidity s) ?P T aToB True = Inr st"
      "exactInStepOk (sl_amountRemaining s) ?P T aToB st"
    using computeSwapStep_exact_in [OF pos fee liq _ T(2), of ?P aToB] by blast
  define s' where "s' = applyStep True st s"
  have core': "swapCore tokenAmount limit start aToB s'"
    using st(2) T(2,3) core
    by (auto simp: s'_def applyStep_def exactInStepOk_def swapCore_def priceBetween_def split: if_splits)
  have s': "sl_currentSqrtPrice s' = st_nextSqrtPrice st" "sl_currentLiquidity s' = sl_currentLiquidity s"
      "sl_currentTickIndex s' = sl_currentTickIndex s"
    by (simp_all add: s'_def applyStep_def)
  have short: "st_nextSqrtPrice st \<noteq> T \<Longrightarrow> sl_amountRemaining s' = 0"
    using st(2) by (auto simp: s'_def applyStep_def exactInStepOk_def)
  show ?thesis
  proof (cases "sl_currentSqrtPrice s' = limit")
    case True
    then have "swapIteration sp limit pool tas aToB True s = Inr (False, s')"
      using r(1) T(1) st(1) by (simp add: swapIteration_def s'_def Let_def)
    then show ?thesis using core' True by auto
  next
    case False
    have it: "swapIteration sp limit pool tas aToB True s =
      (case r of None \<Rightarrow> Inr (False, s')
       | Some (t, x) \<Rightarrow> rbind (tickIndexToSqrtPrice sp x) (\<lambda>tickPrice.
            if st_nextSqrtPrice st = tickPrice then Inr (True, crossTick aToB t x s')
            else Inr (False, s')))"
      using False r(1) T(1) st(1) unfolding s'_def
      by (cases r) (auto simp: swapIteration_def Let_def)
    show ?thesis
    proof (cases r)
      case None
      have "T = limit" using T(1) core lim unfolding None
        by (auto simp: swapTarget_def limitOk_def swapCore_def priceBetween_def split: if_splits)
      then show ?thesis using it core' False short s' None by auto
    next
      case (Some p)
      obtain t x where p: "r = Some (t, x)" using Some by (cases p) simp
      have x: "MIN_TICK_INDEX \<le> x" "x \<le> MAX_TICK_INDEX" using r(2) [OF p] by auto
      then have tx: "tickIndexToSqrtPrice sp x = Inr (sp x)" by (simp add: tickIndexToSqrtPrice_def)
      show ?thesis
      proof (cases "st_nextSqrtPrice st = sp x")
        case True
        have "swapAhead sp pool tas aToB (crossTick aToB t x s')"
          using crossTick_ahead [OF ahead r(1) [unfolded p] x] True s' by simp
        moreover have "swapCore tokenAmount limit start aToB (crossTick aToB t x s')"
          using core' by (cases aToB) (simp_all add: swapCore_def crossTick_def)
        ultimately show ?thesis using it True p tx by auto
      next
        case no: False
        have "st_nextSqrtPrice st \<noteq> T"
          using no False T(1) tx s' unfolding p by (auto simp: swapTarget_def split: if_splits)
        then show ?thesis using it no p tx core' short by auto
      qed
    qed
  qed
qed

lemma swapLoop_inv:
  assumes "swapCore tokenAmount limit start aToB s" and "swapAhead sp pool tas aToB s"
    and "limitOk aToB limit" and "0 \<le> w_feeRate pool" "w_feeRate pool \<le> FEE_RATE_MUL_VALUE"
    and "wfTickArrays tas (w_tickSpacing pool)"
  shows "\<exists>s'. swapLoop sp limit pool tas aToB True s = Inr s' \<and>
    swapCore tokenAmount limit start aToB s' \<and>
    (sl_amountRemaining s' \<le> 0 \<or> sl_currentSqrtPrice s' = limit)"
  using assms(1,2)
proof (induction "ticksAhead tas (w_tickSpacing pool) aToB (sl_currentTickIndex s)"
    arbitrary: s rule: less_induct)
  case less
  show ?case
  proof (cases "0 < sl_amountRemaining s")
    case False
    then show ?thesis using less.prems by (subst swapLoop.simps) auto
  next
    case True
    obtain b s' where it: "swapIteration sp limit pool tas aToB True s = Inr (b, s')"
        "swapCore tokenAmount limit start aToB s'"
        "if b then swapAhead sp pool tas aToB s'
         else sl_amountRemaining s' \<le> 0 \<or> sl_currentSqrtPrice s' = limit"
      using swapIteration_inv [OF less.prems True assms(3-6)] by blast
    show ?thesis
    proof (cases b)
      case False
      then show ?thesis using it True by (subst swapLoop.simps) auto
    next
      case True
      then have cont: "swapIteration sp limit pool tas aToB True s = Inr (True, s')" using it(1) by simp
      then have "ticksAhead tas (w_tickSpacing pool) aToB (sl_currentTickIndex s')
          < ticksAhead tas (w_tickSpacing pool) aToB (sl_currentTickIndex s)"
        by (rule swapIteration_continues) (use ticksAhead_less in \<open>fastforce simp: crossTick_def\<close>)
      then have "\<exists>s''. swapLoop sp limit pool tas aToB True s' = Inr s'' \<and>
          swapCore tokenAmount limit start aToB s'' \<and>
          (sl_amountRemaining s'' \<le> 0 \<or> sl_currentSqrtPrice s'' = limit)"
        using less.hyps it True by auto
      then show ?thesis using cont \<open>0 < sl_amountRemaining s\<close> by (subst swapLoop.simps) auto
    qed
  qed
qed

end

text \<open>
  The pool's stored tick agrees with its stored price in the direction of the swap.
\<close>

definition poolTickOk :: "(int \<Rightarrow> int) \<Rightarrow> bool \<Rightarrow> whirlpool_state \<Rightarrow> bool" where
  "poolTickOk sp aToB pool \<longleftrightarrow>
     (\<forall>x. MIN_TICK_INDEX \<le> x \<and> x \<le> MAX_TICK_INDEX \<longrightarrow>
        (if aToB then x \<le> w_tickCurrentIndex pool \<longrightarrow> sp x \<le> w_sqrtPrice pool
         else w_tickCurrentIndex pool < x \<longrightarrow> w_sqrtPrice pool \<le> sp x))"

lemma computeSwap_exact_input:
  assumes "tick_price sp" "0 \<le> tokenAmount" "limitOk aToB limit" "0 < w_sqrtPrice pool"
    and "priceBetween aToB limit (w_sqrtPrice pool) (w_sqrtPrice pool)"
    and "0 \<le> w_feeRate pool" "w_feeRate pool \<le> FEE_RATE_MUL_VALUE"
    and "wfTickArrays tas (w_tickSpacing pool)" "poolTickOk sp aToB pool"
    and "liquidityNonneg tas (w_tickSpacing pool) aToB (w_tickCurrentIndex pool) (w_liquidity pool)"
  shows "\<exists>r. computeSwap sp tokenAmount limit pool tas aToB True = Inr r \<and>
     0 \<le> sr_amountIn r \<and> 0 \<le> sr_amountOut r \<and> 0 \<le> sr_feeAmount r \<and>
     sr_amountIn r + sr_feeAmount r \<le> tokenAmount + 1 \<and>
     priceBetween aToB limit (sr_nextSqrtPrice r) (w_sqrtPrice pool) \<and>
     (sr_nextSqrtPrice r = limit \<or> tokenAmount \<le> sr_amountIn r + sr_feeAmount r)"
proof -
  define s where "s = \<lparr>sl_amountRemaining = tokenAmount, sl_totalAmountIn = 0, sl_totalAmountOut = 0,
         sl_totalFeeAmount = 0, sl_currentSqrtPrice = w_sqrtPrice pool,
         sl_currentTickIndex = w_tickCurrentIndex pool, sl_currentLiquidity = w_liquidity pool\<rparr>"
  have "swapCore tokenAmount limit (w_sqrtPrice pool) aToB s"
    using assms(2,4,5) by (simp add: s_def swapCore_def)
  moreover have "swapAhead sp pool tas aToB s"
    using assms(9,10) by (simp add: s_def swapAhead_def poolTickOk_def)
  ultimately obtain s' where s': "swapLoop sp limit pool tas aToB True s = Inr s'"
      "swapCore tokenAmount limit (w_sqrtPrice pool) aToB s'"
      "sl_amountRemaining s' \<le> 0 \<or> sl_currentSqrtPrice s' = limit"
    using tick_price.swapLoop_inv [OF assms(1) _ _ assms(3,6,7,8)] by blast
  then show ?thesis by (auto simp: computeSwap_def s_def [symmetric] swapCore_def)
qed

lemma swapQuote_exact_input:
  assumes "computeSwap sp tokenIn (if aToB then MIN_SQRT_PRICE else MAX_SQRT_PRICE) pool tas aToB True = Inr r"
    and "0 \<le> slippageBps" "slippageBps \<le> 10000" "0 \<le> sr_amountOut r"
  shows "\<exists>q. swapQuoteByInputToken sp tokenIn aToB slippageBps pool tas = Inr q \<and>
    q_estimatedAmountIn q = sr_amountIn r + sr_feeAmount r \<and>
    q_estimatedAmountOut q = sr_amountOut r \<and>
    0 \<le> q_otherAmountThreshold q \<and> q_otherAmountThreshold q \<le> sr_amountOut r \<and>
    q_otherAmountThreshold q * 10000 \<le> sr_amountOut r * (10000 - slippageBps)"
proof -
  let ?x = "sr_amountOut r * (10000 - slippageBps)"
  have x: "0 \<le> ?x" using assms(2-4) by simp
  have "?x \<le> sr_amountOut r * 10000" using assms(2,4) by (intro mult_left_mono) simp_all
  then have "?x div 10000 \<le> sr_amountOut r" by linarith
  then show ?thesis
    using assms(1) x by (cases aToB) (auto simp: swapQuoteByInputToken_def Let_def sdiv_nonneg)
qed

subsection \<open>Exact output\<close>

text \<open>
  \<open>computeSwapStep\<close> compares an exact output amount with the amount of the input token, and takes
  the next price from the input token's formula with the sign of an output. The price of an
  exact-output step from A to B that stops short of its target therefore rises.
\<close>

lemma nextA_output:
  assumes "0 < P" "0 \<le> a" "getNextSqrtPriceFromA P L a False = Inr n"
  shows "P \<le> n"
proof (cases "a = 0")
  case True
  then show ?thesis using assms by (simp add: getNextSqrtPriceFromA_def)
next
  case False
  define q where "q = (a * P) sdiv Q64"
  have q: "0 \<le> q" using assms by (simp add: q_def sdiv_nonneg floor_div_nonneg less_imp_le)
  have D: "0 < L - q" "n = (L * P + (L - q) - 1) sdiv (L - q)"
    using assms(3) False by (auto simp: getNextSqrtPriceFromA_def Let_def q_def split: if_splits)
  have "0 \<le> L * P" using D q assms by simp
  then have n: "n = (L * P + (L - q) - 1) div (L - q)" using D sdiv_ceil by simp
  have "P * (L - q) \<le> L * P" using q assms by (simp add: algebra_simps)
  also have "\<dots> \<le> n * (L - q)" unfolding n by (rule ceil_div_ge [OF D(1)])
  finally show ?thesis using D(1) by simp
qed

subsection \<open>Concrete pools\<close>

definition sampleTick :: "bool \<Rightarrow> int \<Rightarrow> tick" where
  "sampleTick i net = \<lparr>t_initialized = i, t_liquidityNet = net, t_liquidityGross = \<bar>net\<bar>,
     t_feeGrowthOutsideA = 0, t_feeGrowthOutsideB = 0, t_rewardGrowthsOutside = [0, 0, 0]\<rparr>"

definition sampleArrays :: "tick_array list" where
  "sampleArrays = [\<lparr>ta_startTickIndex = -88,
     ta_ticks = replicate 80 (sampleTick False 0) @ sampleTick True 400 # replicate 7 (sampleTick False 0),
     ta_whirlpool = []\<rparr>]"

lemma samplePool_next:
  "getNextInitializedTick sampleArrays 0 1 True = Inr (Some (sampleTick True 400, -8))"
  "getNextInitializedTick sampleArrays (-9) 1 True = Inr None"
  by code_simp+

lemma samplePool_liquidity: "liquidityNonneg sampleArrays 1 True 0 (10 ^ 9)"
proof (rule liquidityNonnegI)
  fix t x
  assume "getNextInitializedTick sampleArrays 0 1 True = Inr (Some (t, x))"
  then have "t = sampleTick True 400" "x = -8" by (simp_all add: samplePool_next)
  moreover have "liquidityNonneg sampleArrays 1 True (-9) (10 ^ 9 - 400)"
    by (rule liquidityNonnegI) (simp_all add: samplePool_next)
  ultimately show "liquidityNonneg sampleArrays 1 True (if True then x - 1 else x)
     (if True then 10 ^ 9 - t_liquidityNet t else 10 ^ 9 + t_liquidityNet t)"
    by (simp add: sampleTick_def)
qed simp

lemma samplePool_wf: "wfTickArrays sampleArrays 1"
  by (auto simp: wfTickArrays_def sampleArrays_def TICK_ARRAY_SIZE_def MIN_TICK_INDEX_def
      MAX_TICK_INDEX_def)

lemma samplePool_tick: "poolTickOk sp_lin True samplePool"
  by (auto simp: poolTickOk_def samplePool_def sp_lin_def)

subsection \<open>Properties\<close>



text \<open>One exact-input step: it always succeeds, moves the price towards the target without
  passing it, charges the rounded-up amount of the input token and pays the rounded-down amount of
  the output token between the two prices, uses at most one unit more than what remained, and uses
  it exactly when it stops short of the target.\<close>

theorem computeSwapStep_input_spec:
  assumes "0 < R" "0 \<le> f" "f \<le> FEE_RATE_MUL_VALUE" "0 \<le> L" "0 < P" "0 < T" "priceBetween aToB T P P"
  shows "\<exists>st. computeSwapStep R f L P T aToB True = Inr st \<and> exactInStepOk R P T aToB st \<and>
           (L \<noteq> 0 \<longrightarrow>
             st_amountIn st = (if aToB then getAmountDeltaA (st_nextSqrtPrice st) P L True
                               else getAmountDeltaB P (st_nextSqrtPrice st) L True) \<and>
             st_amountOut st = (if aToB then getAmountDeltaB (st_nextSqrtPrice st) P L False
                                else getAmountDeltaA P (st_nextSqrtPrice st) L False))"
  using assms by (rule computeSwapStep_exact_in)

theorem computeSwapStep_input_spec_witness:
  "\<exists>st. computeSwapStep 1000 3000 (10 ^ 12) (2 ^ 64) (2 ^ 64 - 2 ^ 50) True True = Inr st \<and>
     exactInStepOk 1000 (2 ^ 64) (2 ^ 64 - 2 ^ 50) True st"
  using computeSwapStep_input_spec [of 1000 3000 "10 ^ 12" "2 ^ 64" "2 ^ 64 - 2 ^ 50" True]
  by (auto simp: FEE_RATE_MUL_VALUE_def priceBetween_def)

text \<open>The one unit is real: a step that reaches its target charges the fee on top of the
  input, rounded up, while it reserved the fee rounded down. One unit of input at a fee rate of
  0.3% is charged two units.\<close>

theorem computeSwapStep_overdraws:
  "\<exists>st. computeSwapStep 1 3000 1 (2 ^ 64) (2 ^ 64 - 1) True True = Inr st \<and>
     st_amountIn st + st_feeAmount st = 2"
  by (simp add: computeSwapStep_def getAmountDeltaA_def getAmountDeltaB_def Q64_eq
      FEE_RATE_MUL_VALUE_def signed_divide_int_def Let_def)

text \<open>An exact-output step from A to B that stops short of its target raises the price,
  although selling A must lower it: the step works with the amount of the wrong token.\<close>

theorem exact_output_price_rises:
  assumes "0 < P" "0 \<le> R" "L \<noteq> 0" "R < getAmountDeltaA T P L False"
    and "computeSwapStep R f L P T True False = Inr st"
  shows "P \<le> st_nextSqrtPrice st"
  using assms nextA_output [of P R L]
  by (auto simp: computeSwapStep_def Let_def rbind_eq_Inr_iff)

theorem exact_output_price_rises_witness:
  "\<exists>st. computeSwapStep 5 3000 (10 ^ 6) (2 ^ 64) (2 ^ 63) True False = Inr st \<and>
     2 ^ 64 \<le> st_nextSqrtPrice st"
proof -
  have "\<not> isl (computeSwapStep 5 3000 (10 ^ 6) (2 ^ 64) (2 ^ 63) True False)" by code_simp
  then obtain st where st: "computeSwapStep 5 3000 (10 ^ 6) (2 ^ 64) (2 ^ 63) True False = Inr st"
    by (metis sum.collapse(2))
  have "(5::int) < getAmountDeltaA (2 ^ 63) (2 ^ 64) (10 ^ 6) False" by code_simp
  then show ?thesis
    using exact_output_price_rises [OF _ _ _ _ st] st by simp
qed

text \<open>The quote reports input plus fee and an output threshold that is never above the
  output, never negative, and within the slippage allowed.\<close>

theorem swapQuote_threshold:
  assumes "computeSwap sp tokenIn (if aToB then MIN_SQRT_PRICE else MAX_SQRT_PRICE) pool tas aToB True = Inr r"
    and "0 \<le> slippageBps" "slippageBps \<le> 10000" "0 \<le> sr_amountOut r"
  shows "\<exists>q. swapQuoteByInputToken sp tokenIn aToB slippageBps pool tas = Inr q \<and>
    q_estimatedAmountIn q = sr_amountIn r + sr_feeAmount r \<and>
    q_estimatedAmountOut q = sr_amountOut r \<and>
    0 \<le> q_otherAmountThreshold q \<and> q_otherAmountThreshold q \<le> sr_amountOut r \<and>
    q_otherAmountThreshold q * 10000 \<le> sr_amountOut r * (10000 - slippageBps)"
  using assms by (rule swapQuote_exact_input)

theorem swapQuote_threshold_witness:
  "\<exists>q. swapQuoteByInputToken sp_lin 1000 True 100 samplePool sampleArrays = Inr q \<and>
    q_otherAmountThreshold q \<le> q_estimatedAmountOut q"
proof -
  obtain r where r: "computeSwap sp_lin 1000 MIN_SQRT_PRICE samplePool sampleArrays True True = Inr r"
      "0 \<le> sr_amountOut r"
    using computeSwap_exact_input [OF tl.tick_price_axioms _ _ _ _ _ _ _ samplePool_tick,
      of 1000 MIN_SQRT_PRICE sampleArrays] samplePool_wf samplePool_liquidity
    by (auto simp: samplePool_def sp_lin_def limitOk_def priceBetween_def FEE_RATE_MUL_VALUE_def
        MIN_SQRT_PRICE_def MIN_TICK_INDEX_def)
  then show ?thesis
    using swapQuote_threshold [of sp_lin 1000 True samplePool sampleArrays r 100] by auto
qed

end
