(* ===== verification/Borsh.thy ===== *)
theory Borsh
  imports Prelude
begin

text \<open>
  \<open>packages/arch-swap-engine/src/lib/arch/borsh.ts\<close>: little-endian integer encoders and decoders.
  A decoder reads past the end of its data as the source does: \<open>BigInt(undefined)\<close> throws,
  \<open>DataView.setUint8(i, undefined)\<close> writes 0, \<open>undefined !== 0\<close> is true and \<open>slice\<close> clamps.
\<close>

datatype borsh_error = BigIntUndefined

subsection \<open>Encoders\<close>

definition encodeU16LE :: "int \<Rightarrow> byte list" where
  "encodeU16LE value =
     [word_of_int (toInt32 value AND 0xff), word_of_int (drop_bit 8 (toInt32 value) AND 0xff)]"

text \<open>The loop of the bigint encoders: push the low byte, shift right by eight.\<close>

fun pushBytes :: "nat \<Rightarrow> int \<Rightarrow> byte list" where
  "pushBytes 0 v = []"
| "pushBytes (Suc n) v = word_of_int (v AND 0xff) # pushBytes n (drop_bit 8 v)"

definition encodeU64LE :: "int \<Rightarrow> byte list" where
  "encodeU64LE value = pushBytes 8 value"

definition encodeU128LE :: "int \<Rightarrow> byte list" where
  "encodeU128LE value = pushBytes 16 value"

text \<open>\<open>DataView.setInt32(0, value, true)\<close>: the 32-bit two's complement, low byte first.\<close>

definition encodeI32LE :: "int \<Rightarrow> byte list" where
  "encodeI32LE value = pushBytes 4 (toInt32 value)"

definition encodeI128LE :: "int \<Rightarrow> byte list" where
  "encodeI128LE value =
     (let mask = push_bit 128 1 - 1;
          unsigned = (if value < 0 then (mask + value + 1) AND mask else value AND mask)
      in encodeU128LE unsigned)"

subsection \<open>Decoders\<close>

text \<open>\<open>for (let i = 0; i < n; i++) value |= BigInt(data[offset + i]) << (8 i)\<close>\<close>

fun orBytes :: "byte list \<Rightarrow> nat \<Rightarrow> nat \<Rightarrow> nat \<Rightarrow> int \<Rightarrow> borsh_error + int" where
  "orBytes data offset i 0 value = Inr value"
| "orBytes data offset i (Suc n) value =
     (case at_opt data (offset + i) of
        None \<Rightarrow> Inl BigIntUndefined
      | Some b \<Rightarrow> orBytes data offset (Suc i) n (value OR push_bit (8 * i) (uint b)))"

definition decodeU64LE :: "byte list \<Rightarrow> nat \<Rightarrow> borsh_error + int" where
  "decodeU64LE data offset = orBytes data offset 0 8 0"

definition decodeU128LE :: "byte list \<Rightarrow> nat \<Rightarrow> borsh_error + int" where
  "decodeU128LE data offset = orBytes data offset 0 16 0"

definition byte_or_zero :: "byte list \<Rightarrow> nat \<Rightarrow> byte" where
  "byte_or_zero data i = (case at_opt data i of None \<Rightarrow> 0 | Some b \<Rightarrow> b)"

text \<open>The integer whose little-endian bytes are given.\<close>

fun leVal :: "byte list \<Rightarrow> int" where
  "leVal [] = 0"
| "leVal (b # bs) = uint b + 256 * leVal bs"

definition decodeI32LE :: "byte list \<Rightarrow> nat \<Rightarrow> int" where
  "decodeI32LE data offset =
     signed_take_bit 31 (leVal (map (\<lambda>i. byte_or_zero data (offset + i)) [0..<4]))"

definition decodeI128LE :: "byte list \<Rightarrow> nat \<Rightarrow> borsh_error + int" where
  "decodeI128LE data offset =
     rbind (decodeU128LE data offset) (\<lambda>unsigned.
       let signBit = push_bit 127 1
       in if unsigned AND signBit \<noteq> 0 then Inr (unsigned - push_bit 128 1) else Inr unsigned)"

definition decodeBool :: "byte list \<Rightarrow> nat \<Rightarrow> bool" where
  "decodeBool data offset = (case at_opt data offset of None \<Rightarrow> True | Some b \<Rightarrow> b \<noteq> 0)"

definition decodePubkey :: "byte list \<Rightarrow> nat \<Rightarrow> byte list" where
  "decodePubkey data offset = slice data offset (offset + 32)"

subsection \<open>Values\<close>

lemma leVal_bounds: "0 \<le> leVal bs \<and> leVal bs < 256 ^ length bs"
proof (induction bs)
  case Nil
  then show ?case by simp
next
  case (Cons b bs)
  have "0 \<le> uint b" "uint b < 256" using uint_bounded [of b] by simp_all
  then show ?case using Cons by simp
qed

lemma leVal_append: "leVal (xs @ ys) = leVal xs + 256 ^ length xs * leVal ys"
  by (induction xs) (simp_all add: algebra_simps)

lemma length_pushBytes [simp]: "length (pushBytes n v) = n"
  by (induction n arbitrary: v) simp_all

lemma leVal_pushBytes: "leVal (pushBytes n v) = v mod 256 ^ n"
proof (induction n arbitrary: v)
  case 0
  then show ?case by simp
next
  case (Suc n)
  have low: "v AND 0xff = v mod 256"
    using take_bit_eq_mask [of 8 v] by (simp add: take_bit_eq_mod mask_eq_exp_minus_1)
  have "uint (word_of_int (v AND 0xff) :: byte) = v mod 256"
    by (simp add: low uint_word_of_int)
  moreover have "v mod 256 ^ Suc n = v mod 256 + 256 * ((v div 256) mod 256 ^ n)"
    by (simp add: zmod_zmult2_eq)
  ultimately show ?case by (simp add: Suc drop_bit_eq_div)
qed

lemma orBytes_Inr:
  assumes "offset + i + n \<le> length data" "0 \<le> v" "v < 2 ^ (8 * i)"
  shows "orBytes data offset i n v = Inr (v + 2 ^ (8 * i) * leVal (take n (drop (offset + i) data)))"
  using assms
proof (induction n arbitrary: i v)
  case 0
  then show ?case by simp
next
  case (Suc n)
  let ?b = "data ! (offset + i)"
  have at: "at_opt data (offset + i) = Some ?b" using Suc.prems by (simp add: at_opt_def)
  have or: "v OR push_bit (8 * i) (uint ?b) = v + 2 ^ (8 * i) * uint ?b"
    using Suc.prems by (intro or_push_bit_int) simp_all
  have b: "0 \<le> uint ?b" "uint ?b \<le> 255" using uint_bounded [of ?b] by simp_all
  have "(2::int) ^ (8 * Suc i) = 2 ^ (8 * i) * 256" by (simp add: power_add)
  moreover have "(2::int) ^ (8 * i) * uint ?b \<le> 2 ^ (8 * i) * 255"
    using b by (intro mult_left_mono) simp_all
  ultimately have step: "v + 2 ^ (8 * i) * uint ?b < 2 ^ (8 * Suc i)" using Suc.prems(3) by linarith
  have "orBytes data offset i (Suc n) v =
      Inr (v + 2 ^ (8 * i) * uint ?b + 2 ^ (8 * Suc i) * leVal (take n (drop (offset + Suc i) data)))"
    using Suc.IH [of "Suc i" "v + 2 ^ (8 * i) * uint ?b"] Suc.prems step b at or by simp
  moreover have "take (Suc n) (drop (offset + i) data) = ?b # take n (drop (offset + Suc i) data)"
    using Suc.prems by (simp add: Cons_nth_drop_Suc [symmetric])
  ultimately show ?case by (simp add: algebra_simps power_add)
qed

lemma orBytes_Inl:
  assumes "0 < n" "length data < offset + i + n"
  shows "orBytes data offset i n v = Inl BigIntUndefined"
  using assms
proof (induction n arbitrary: i v)
  case 0
  then show ?case by simp
next
  case (Suc n)
  show ?case
  proof (cases "offset + i < length data")
    case True
    then have "0 < n" using Suc.prems by auto
    then show ?thesis using Suc True by (simp add: at_opt_def)
  next
    case False
    then show ?thesis by (simp add: at_opt_def)
  qed
qed

lemma orBytes_eq:
  "0 < n \<Longrightarrow> orBytes data offset 0 n 0 =
     (if offset + n \<le> length data then Inr (leVal (take n (drop offset data))) else Inl BigIntUndefined)"
  using orBytes_Inr [of offset 0 n data 0] orBytes_Inl [of n data offset 0 0] by auto

lemma decodeU64LE_eq:
  "decodeU64LE data offset =
     (if offset + 8 \<le> length data then Inr (leVal (take 8 (drop offset data))) else Inl BigIntUndefined)"
  by (simp add: decodeU64LE_def orBytes_eq)

lemma decodeU128LE_eq:
  "decodeU128LE data offset =
     (if offset + 16 \<le> length data then Inr (leVal (take 16 (drop offset data))) else Inl BigIntUndefined)"
  by (simp add: decodeU128LE_def orBytes_eq)

lemma and_push_bit_1: "u AND push_bit n 1 = 0 \<longleftrightarrow> \<not> bit (u::int) n"
  unfolding push_bit_eq_mult mult_1 by (rule and_exp_eq_0_iff_not_bit)

lemma signed_by_sign_bit:
  fixes u :: int
  assumes "0 \<le> u" "u < 2 ^ Suc n"
  shows "signed_take_bit n u = (if u AND push_bit n 1 \<noteq> 0 then u - push_bit (Suc n) 1 else u)"
proof -
  have "take_bit (Suc n) u = u" using assms by (rule take_bit_int_eq_self)
  then show ?thesis
    unfolding and_push_bit_1 by (simp add: signed_take_bit_eq_take_bit_minus push_bit_eq_mult)
qed

lemma signed_take_bit_mod:
  "- (2 ^ n) \<le> x \<Longrightarrow> x < 2 ^ n \<Longrightarrow> signed_take_bit n (x mod 2 ^ Suc n) = (x::int)"
  unfolding take_bit_eq_mod [symmetric] signed_take_bit_take_bit
  by (simp add: signed_take_bit_int_eq_self)

lemma decodeI128LE_eq:
  "decodeI128LE data offset =
     (if offset + 16 \<le> length data
      then Inr (signed_take_bit 127 (leVal (take 16 (drop offset data)))) else Inl BigIntUndefined)"
proof (cases "offset + 16 \<le> length data")
  case True
  define u where "u = leVal (take 16 (drop offset data))"
  have "0 \<le> u" "u < 2 ^ Suc 127" using leVal_bounds [of "take 16 (drop offset data)"] True by (simp_all add: u_def)
  then have "signed_take_bit 127 u = (if u AND push_bit 127 1 \<noteq> 0 then u - push_bit (Suc 127) 1 else u)"
    by (rule signed_by_sign_bit)
  also have "Suc 127 = 128" by simp
  finally show ?thesis
    using True by (auto simp: decodeI128LE_def decodeU128LE_eq u_def [symmetric] Let_def)
next
  case False
  then show ?thesis by (simp add: decodeI128LE_def decodeU128LE_eq)
qed

subsection \<open>Codecs\<close>

text \<open>
  What the account deserializers rely on: a decoder of fixed width reads back what the encoder
  wrote, and reading at an offset ignores the bytes before it.
\<close>

locale codec =
  fixes enc :: "'a \<Rightarrow> byte list"
    and dec :: "byte list \<Rightarrow> nat \<Rightarrow> 'e + 'a"
    and width :: nat
    and valid :: "'a \<Rightarrow> bool"
  assumes width_enc: "valid x \<Longrightarrow> length (enc x) = width"
    and dec_enc: "valid x \<Longrightarrow> dec (enc x @ rest) 0 = Inr x"
    and dec_shift: "dec (pre @ rest) (length pre + k) = dec rest k"
begin

lemma dec_skip: "length pre \<le> n \<Longrightarrow> dec (pre @ rest) n = dec rest (n - length pre)"
  using dec_shift [of pre rest "n - length pre"] by simp

lemma dec_at: "valid x \<Longrightarrow> length pre = n \<Longrightarrow> dec (pre @ enc x @ rest) n = Inr x"
  using dec_skip [of pre n "enc x @ rest"] dec_enc by simp

lemma enc_inject: "valid x \<Longrightarrow> valid y \<Longrightarrow> enc x = enc y \<Longrightarrow> x = y"
  using dec_enc [of x "[]"] dec_enc [of y "[]"] by simp

end

text \<open>A counted loop that decodes \<open>n\<close> items one after the other.\<close>

fun decodeLoop :: "(byte list \<Rightarrow> nat \<Rightarrow> 'e + 'a) \<Rightarrow> nat \<Rightarrow> byte list \<Rightarrow> nat \<Rightarrow> nat \<Rightarrow> 'e + 'a list" where
  "decodeLoop dec wd data pos 0 = Inr []"
| "decodeLoop dec wd data pos (Suc n) =
     rbind (dec data pos) (\<lambda>x. rbind (decodeLoop dec wd data (pos + wd) n) (\<lambda>xs. Inr (x # xs)))"

context codec
begin

lemma decodeLoop_enc:
  assumes "\<forall>x\<in>set xs. valid x" "length pre = pos" "length xs = n"
  shows "decodeLoop dec width (pre @ concat (map enc xs) @ rest) pos n = Inr xs"
  using assms
proof (induction xs arbitrary: pre pos n)
  case Nil
  then show ?case by simp
next
  case (Cons x xs)
  have "dec (pre @ enc x @ (concat (map enc xs) @ rest)) pos = Inr x"
    using Cons.prems by (intro dec_at) simp_all
  moreover have "decodeLoop dec width ((pre @ enc x) @ concat (map enc xs) @ rest) (pos + width) (length xs) = Inr xs"
    using Cons.prems by (intro Cons.IH) (simp_all add: width_enc)
  ultimately show ?case using Cons.prems by auto
qed

lemma decodeLoop_skip:
  "length pre \<le> pos \<Longrightarrow> decodeLoop dec wd (pre @ rest) pos n = decodeLoop dec wd rest (pos - length pre) n"
  by (induction n arbitrary: pos) (simp_all add: dec_skip)

lemma length_concat_enc: "\<forall>x\<in>set xs. valid x \<Longrightarrow> length (concat (map enc xs)) = width * length xs"
  by (induction xs) (simp_all add: width_enc)

end

definition validU64 :: "int \<Rightarrow> bool" where "validU64 v \<longleftrightarrow> 0 \<le> v \<and> v < 2 ^ 64"
definition validU128 :: "int \<Rightarrow> bool" where "validU128 v \<longleftrightarrow> 0 \<le> v \<and> v < 2 ^ 128"
definition validI32 :: "int \<Rightarrow> bool" where "validI32 v \<longleftrightarrow> - (2 ^ 31) \<le> v \<and> v < 2 ^ 31"
definition validI128 :: "int \<Rightarrow> bool" where "validI128 v \<longleftrightarrow> - (2 ^ 127) \<le> v \<and> v < 2 ^ 127"

lemma and_mask_128: "x AND (push_bit 128 1 - 1) = x mod (2 ^ 128 :: int)"
proof -
  have "push_bit 128 1 - 1 = (mask 128 :: int)" by (simp add: mask_eq_exp_minus_1 push_bit_eq_mult)
  then show ?thesis using take_bit_eq_mask [of 128 x] take_bit_eq_mod [of 128 x] by metis
qed

lemma encodeI128LE_value: "leVal (encodeI128LE v) = v mod 2 ^ 128"
proof -
  have "(push_bit 128 1 - 1 + v + 1) mod 2 ^ 128 = v mod (2 ^ 128 :: int)"
    by (simp add: push_bit_eq_mult)
  then show ?thesis
    unfolding encodeI128LE_def encodeU128LE_def Let_def and_mask_128
    by (simp only: leVal_pushBytes) (simp split: if_splits)
qed

interpretation u64: codec encodeU64LE decodeU64LE 8 validU64
  by unfold_locales (auto simp: encodeU64LE_def decodeU64LE_eq leVal_pushBytes validU64_def add.assoc)

interpretation u128: codec encodeU128LE decodeU128LE 16 validU128
  by unfold_locales (auto simp: encodeU128LE_def decodeU128LE_eq leVal_pushBytes validU128_def add.assoc)

interpretation i128: codec encodeI128LE decodeI128LE 16 validI128
proof unfold_locales
  show "length (encodeI128LE x) = 16" for x by (simp add: encodeI128LE_def encodeU128LE_def Let_def)
  then show "decodeI128LE (encodeI128LE x @ rest) 0 = Inr x" if "validI128 x" for x rest
    using that signed_take_bit_mod [of 127 x] by (simp add: decodeI128LE_eq encodeI128LE_value validI128_def)
  show "decodeI128LE (pre @ rest) (length pre + k) = decodeI128LE rest k" for pre rest k
    by (simp add: decodeI128LE_eq add.assoc)
qed

lemma byte_or_zero_skip: "byte_or_zero (pre @ rest) (length pre + k) = byte_or_zero rest k"
  by (simp add: byte_or_zero_def)

interpretation i32: codec encodeI32LE "\<lambda>data pos. Inr (decodeI32LE data pos) :: borsh_error + int" 4 validI32
proof unfold_locales
  show len: "length (encodeI32LE x) = 4" for x by (simp add: encodeI32LE_def)
  show "(Inr (decodeI32LE (encodeI32LE x @ rest) 0) :: borsh_error + int) = Inr x" if "validI32 x" for x rest
  proof -
    have "map (\<lambda>i. byte_or_zero (encodeI32LE x @ rest) (0 + i)) [0..<4] = encodeI32LE x"
      using len [of x] by (intro nth_equalityI) (simp_all add: byte_or_zero_def at_opt_def nth_append)
    moreover have "toInt32 x = x" using that by (simp add: validI32_def toInt32_id)
    ultimately show ?thesis
      using that signed_take_bit_mod [of 31 x]
      by (simp add: decodeI32LE_def encodeI32LE_def leVal_pushBytes validI32_def)
  qed
  show "(Inr (decodeI32LE (pre @ rest) (length pre + k)) :: borsh_error + int) = Inr (decodeI32LE rest k)"
    for pre rest k
    by (simp add: decodeI32LE_def byte_or_zero_skip add.assoc)
qed

interpretation pubkey: codec "\<lambda>k. k" "\<lambda>data pos. Inr (decodePubkey data pos) :: borsh_error + byte list"
    32 "\<lambda>k. length k = 32"
  by unfold_locales (simp_all add: decodePubkey_def slice_def)

interpretation bool_codec: codec "\<lambda>b. [if b then 1 else 0]" "\<lambda>data pos. Inr (decodeBool data pos) :: borsh_error + bool"
    1 "\<lambda>_. True"
  by unfold_locales (simp_all add: decodeBool_def)

end
