(* ===== verification/ClammState.thy ===== *)
theory ClammState
  imports Borsh ClammTypes
begin

text \<open>
  \<open>packages/arch-swap-engine/src/lib/clamm/state.ts\<close>: the deserializers of the three accounts of
  the CLAMM program. The running \<open>pos\<close> of the source is written as the offset it has there. A byte
  read past the end is \<open>undefined\<close> in the source and 0 here; it never reaches a result, since a
  bigint read behind it throws.

  The layouts are the reference the deserializers are compared with: the concatenation of the
  fields' encodings in the order of the account.
\<close>

definition ANCHOR_DISCRIMINATOR_SIZE :: nat where
  "ANCHOR_DISCRIMINATOR_SIZE = 8"

text \<open>\<open>data[pos] | (data[pos + 1] << 8)\<close>\<close>

definition u16_at :: "byte list \<Rightarrow> nat \<Rightarrow> int" where
  "u16_at data pos = uint (byte_or_zero data pos) OR push_bit 8 (uint (byte_or_zero data (pos + 1)))"

subsection \<open>Deserializers\<close>

definition deserializeRewardInfo :: "byte list \<Rightarrow> nat \<Rightarrow> borsh_error + whirlpool_reward_info" where
  "deserializeRewardInfo data pos =
     rbind (decodeU128LE data (pos + 96)) (\<lambda>emissionsPerSecondX64.
     rbind (decodeU128LE data (pos + 112)) (\<lambda>growthGlobalX64.
     Inr \<lparr> wr_mint = decodePubkey data pos,
           wr_vault = decodePubkey data (pos + 32),
           wr_authority = decodePubkey data (pos + 64),
           wr_emissionsPerSecondX64 = emissionsPerSecondX64,
           wr_growthGlobalX64 = growthGlobalX64 \<rparr>))"

definition deserializeWhirlpool :: "byte list \<Rightarrow> borsh_error + whirlpool_state" where
  "deserializeWhirlpool data =
     (let pos = ANCHOR_DISCRIMINATOR_SIZE in
     rbind (decodeU128LE data (pos + 41)) (\<lambda>liquidity.
     rbind (decodeU128LE data (pos + 57)) (\<lambda>sqrtPrice.
     rbind (decodeU64LE data (pos + 77)) (\<lambda>protocolFeeOwedA.
     rbind (decodeU64LE data (pos + 85)) (\<lambda>protocolFeeOwedB.
     rbind (decodeU128LE data (pos + 157)) (\<lambda>feeGrowthGlobalA.
     rbind (decodeU128LE data (pos + 237)) (\<lambda>feeGrowthGlobalB.
     rbind (decodeU64LE data (pos + 253)) (\<lambda>rewardLastUpdatedTimestamp.
     rbind (decodeLoop deserializeRewardInfo 128 data (pos + 261) NUM_REWARDS) (\<lambda>rewardInfos.
     Inr \<lparr> w_whirlpoolsConfig = decodePubkey data pos,
           w_whirlpoolBump = [uint (byte_or_zero data (pos + 32))],
           w_tickSpacing = u16_at data (pos + 33),
           w_tickSpacingSeed = [uint (byte_or_zero data (pos + 35)), uint (byte_or_zero data (pos + 36))],
           w_feeRate = u16_at data (pos + 37),
           w_protocolFeeRate = u16_at data (pos + 39),
           w_liquidity = liquidity,
           w_sqrtPrice = sqrtPrice,
           w_tickCurrentIndex = decodeI32LE data (pos + 73),
           w_protocolFeeOwedA = protocolFeeOwedA,
           w_protocolFeeOwedB = protocolFeeOwedB,
           w_tokenMintA = decodePubkey data (pos + 93),
           w_tokenVaultA = decodePubkey data (pos + 125),
           w_tokenMintB = decodePubkey data (pos + 173),
           w_tokenVaultB = decodePubkey data (pos + 205),
           w_feeGrowthGlobalA = feeGrowthGlobalA,
           w_feeGrowthGlobalB = feeGrowthGlobalB,
           w_rewardLastUpdatedTimestamp = rewardLastUpdatedTimestamp,
           w_rewardInfos = rewardInfos \<rparr>)))))))))"

definition deserializeTick :: "byte list \<Rightarrow> nat \<Rightarrow> borsh_error + tick" where
  "deserializeTick data pos =
     rbind (decodeI128LE data (pos + 1)) (\<lambda>liquidityNet.
     rbind (decodeU128LE data (pos + 17)) (\<lambda>liquidityGross.
     rbind (decodeU128LE data (pos + 33)) (\<lambda>feeGrowthOutsideA.
     rbind (decodeU128LE data (pos + 49)) (\<lambda>feeGrowthOutsideB.
     rbind (decodeLoop decodeU128LE 16 data (pos + 65) NUM_REWARDS) (\<lambda>rewardGrowthsOutside.
     Inr \<lparr> t_initialized = decodeBool data pos,
           t_liquidityNet = liquidityNet,
           t_liquidityGross = liquidityGross,
           t_feeGrowthOutsideA = feeGrowthOutsideA,
           t_feeGrowthOutsideB = feeGrowthOutsideB,
           t_rewardGrowthsOutside = rewardGrowthsOutside \<rparr>)))))"

definition deserializeTickArray :: "byte list \<Rightarrow> borsh_error + tick_array" where
  "deserializeTickArray data =
     (let pos = ANCHOR_DISCRIMINATOR_SIZE in
     rbind (decodeLoop deserializeTick TICK_SIZE data (pos + 4) TICK_ARRAY_SIZE) (\<lambda>ticks.
     Inr \<lparr> ta_startTickIndex = decodeI32LE data pos,
           ta_ticks = ticks,
           ta_whirlpool = decodePubkey data (pos + 4 + TICK_SIZE * TICK_ARRAY_SIZE) \<rparr>))"

definition deserializePositionRewardInfo :: "byte list \<Rightarrow> nat \<Rightarrow> borsh_error + position_reward_info" where
  "deserializePositionRewardInfo data pos =
     rbind (decodeU128LE data pos) (\<lambda>growthInsideCheckpoint.
     rbind (decodeU64LE data (pos + 16)) (\<lambda>amountOwed.
     Inr \<lparr> pr_growthInsideCheckpoint = growthInsideCheckpoint, pr_amountOwed = amountOwed \<rparr>))"

definition deserializePosition :: "byte list \<Rightarrow> borsh_error + position_data" where
  "deserializePosition data =
     (let pos = ANCHOR_DISCRIMINATOR_SIZE in
     rbind (decodeU128LE data (pos + 64)) (\<lambda>liquidity.
     rbind (decodeU128LE data (pos + 88)) (\<lambda>feeGrowthCheckpointA.
     rbind (decodeU64LE data (pos + 104)) (\<lambda>feeOwedA.
     rbind (decodeU128LE data (pos + 112)) (\<lambda>feeGrowthCheckpointB.
     rbind (decodeU64LE data (pos + 128)) (\<lambda>feeOwedB.
     rbind (decodeLoop deserializePositionRewardInfo 24 data (pos + 136) NUM_REWARDS) (\<lambda>rewardInfos.
     Inr \<lparr> p_whirlpool = decodePubkey data pos,
           p_positionMint = decodePubkey data (pos + 32),
           p_liquidity = liquidity,
           p_tickLowerIndex = decodeI32LE data (pos + 80),
           p_tickUpperIndex = decodeI32LE data (pos + 84),
           p_feeGrowthCheckpointA = feeGrowthCheckpointA,
           p_feeOwedA = feeOwedA,
           p_feeGrowthCheckpointB = feeGrowthCheckpointB,
           p_feeOwedB = feeOwedB,
           p_rewardInfos = rewardInfos \<rparr>)))))))"

subsection \<open>Reference layouts\<close>

definition validKey :: "byte list \<Rightarrow> bool" where "validKey k \<longleftrightarrow> length k = 32"
definition validU16 :: "int \<Rightarrow> bool" where "validU16 v \<longleftrightarrow> 0 \<le> v \<and> v < 2 ^ 16"
definition validU8 :: "int \<Rightarrow> bool" where "validU8 v \<longleftrightarrow> 0 \<le> v \<and> v < 2 ^ 8"

definition oneByte :: "int \<Rightarrow> byte list" where "oneByte v = [word_of_int v]"

definition rewardInfoLayout :: "whirlpool_reward_info \<Rightarrow> byte list" where
  "rewardInfoLayout r = wr_mint r @ wr_vault r @ wr_authority r
     @ encodeU128LE (wr_emissionsPerSecondX64 r) @ encodeU128LE (wr_growthGlobalX64 r)"

definition validRewardInfo :: "whirlpool_reward_info \<Rightarrow> bool" where
  "validRewardInfo r \<longleftrightarrow> validKey (wr_mint r) \<and> validKey (wr_vault r) \<and> validKey (wr_authority r)
     \<and> validU128 (wr_emissionsPerSecondX64 r) \<and> validU128 (wr_growthGlobalX64 r)"

definition whirlpoolLayout :: "byte list \<Rightarrow> whirlpool_state \<Rightarrow> byte list" where
  "whirlpoolLayout disc w = disc @ w_whirlpoolsConfig w @ oneByte (w_whirlpoolBump w ! 0)
     @ pushBytes 2 (w_tickSpacing w)
     @ oneByte (w_tickSpacingSeed w ! 0) @ oneByte (w_tickSpacingSeed w ! 1)
     @ pushBytes 2 (w_feeRate w) @ pushBytes 2 (w_protocolFeeRate w)
     @ encodeU128LE (w_liquidity w) @ encodeU128LE (w_sqrtPrice w) @ encodeI32LE (w_tickCurrentIndex w)
     @ encodeU64LE (w_protocolFeeOwedA w) @ encodeU64LE (w_protocolFeeOwedB w)
     @ w_tokenMintA w @ w_tokenVaultA w @ encodeU128LE (w_feeGrowthGlobalA w)
     @ w_tokenMintB w @ w_tokenVaultB w @ encodeU128LE (w_feeGrowthGlobalB w)
     @ encodeU64LE (w_rewardLastUpdatedTimestamp w)
     @ concat (map rewardInfoLayout (w_rewardInfos w))"

definition validWhirlpool :: "whirlpool_state \<Rightarrow> bool" where
  "validWhirlpool w \<longleftrightarrow>
     list_all validKey [w_whirlpoolsConfig w, w_tokenMintA w, w_tokenVaultA w, w_tokenMintB w, w_tokenVaultB w]
     \<and> length (w_whirlpoolBump w) = 1 \<and> length (w_tickSpacingSeed w) = 2
     \<and> list_all validU8 (w_whirlpoolBump w @ w_tickSpacingSeed w)
     \<and> list_all validU16 [w_tickSpacing w, w_feeRate w, w_protocolFeeRate w]
     \<and> list_all validU128 [w_liquidity w, w_sqrtPrice w, w_feeGrowthGlobalA w, w_feeGrowthGlobalB w]
     \<and> list_all validU64 [w_protocolFeeOwedA w, w_protocolFeeOwedB w, w_rewardLastUpdatedTimestamp w]
     \<and> validI32 (w_tickCurrentIndex w)
     \<and> length (w_rewardInfos w) = 3 \<and> list_all validRewardInfo (w_rewardInfos w)"

definition flagByte :: "bool \<Rightarrow> byte list" where "flagByte b = [if b then 1 else 0]"

definition tickLayout :: "tick \<Rightarrow> byte list" where
  "tickLayout t = flagByte (t_initialized t) @ encodeI128LE (t_liquidityNet t)
     @ encodeU128LE (t_liquidityGross t) @ encodeU128LE (t_feeGrowthOutsideA t)
     @ encodeU128LE (t_feeGrowthOutsideB t) @ concat (map encodeU128LE (t_rewardGrowthsOutside t))"

definition validTick :: "tick \<Rightarrow> bool" where
  "validTick t \<longleftrightarrow> validI128 (t_liquidityNet t)
     \<and> list_all validU128 [t_liquidityGross t, t_feeGrowthOutsideA t, t_feeGrowthOutsideB t]
     \<and> length (t_rewardGrowthsOutside t) = 3 \<and> list_all validU128 (t_rewardGrowthsOutside t)"

definition tickArrayLayout :: "byte list \<Rightarrow> tick_array \<Rightarrow> byte list" where
  "tickArrayLayout disc a = disc @ encodeI32LE (ta_startTickIndex a)
     @ concat (map tickLayout (ta_ticks a)) @ ta_whirlpool a"

definition validTickArray :: "tick_array \<Rightarrow> bool" where
  "validTickArray a \<longleftrightarrow> validI32 (ta_startTickIndex a) \<and> validKey (ta_whirlpool a)
     \<and> length (ta_ticks a) = TICK_ARRAY_SIZE \<and> list_all validTick (ta_ticks a)"

definition positionRewardLayout :: "position_reward_info \<Rightarrow> byte list" where
  "positionRewardLayout r = encodeU128LE (pr_growthInsideCheckpoint r) @ encodeU64LE (pr_amountOwed r)"

definition validPositionReward :: "position_reward_info \<Rightarrow> bool" where
  "validPositionReward r \<longleftrightarrow> validU128 (pr_growthInsideCheckpoint r) \<and> validU64 (pr_amountOwed r)"

definition positionLayout :: "byte list \<Rightarrow> position_data \<Rightarrow> byte list" where
  "positionLayout disc p = disc @ p_whirlpool p @ p_positionMint p @ encodeU128LE (p_liquidity p)
     @ encodeI32LE (p_tickLowerIndex p) @ encodeI32LE (p_tickUpperIndex p)
     @ encodeU128LE (p_feeGrowthCheckpointA p) @ encodeU64LE (p_feeOwedA p)
     @ encodeU128LE (p_feeGrowthCheckpointB p) @ encodeU64LE (p_feeOwedB p)
     @ concat (map positionRewardLayout (p_rewardInfos p))"

definition validPosition :: "position_data \<Rightarrow> bool" where
  "validPosition p \<longleftrightarrow> validKey (p_whirlpool p) \<and> validKey (p_positionMint p)
     \<and> list_all validU128 [p_liquidity p, p_feeGrowthCheckpointA p, p_feeGrowthCheckpointB p]
     \<and> list_all validU64 [p_feeOwedA p, p_feeOwedB p]
     \<and> validI32 (p_tickLowerIndex p) \<and> validI32 (p_tickUpperIndex p)
     \<and> length (p_rewardInfos p) = 3 \<and> list_all validPositionReward (p_rewardInfos p)"

subsection \<open>Codecs that say when they fail\<close>

text \<open>A codec that throws exactly when the data ends before the item does.\<close>

locale strict_codec = codec enc dec width valid
  for enc :: "'a \<Rightarrow> byte list" and dec :: "byte list \<Rightarrow> nat \<Rightarrow> borsh_error + 'a" and width valid +
  assumes dec_fails: "isl (dec data pos) \<longleftrightarrow> length data < pos + width"
begin

lemma decodeLoop_fails:
  "isl (decodeLoop dec width data pos (Suc n)) \<longleftrightarrow> length data < pos + width * Suc n"
proof (induction n arbitrary: pos)
  case 0
  then show ?case using dec_fails [of data pos] by (cases "dec data pos") auto
next
  case (Suc n)
  show ?case
  proof (cases "dec data pos")
    case (Inl e)
    then show ?thesis using dec_fails [of data pos] by simp
  next
    case (Inr x)
    have "isl (decodeLoop dec width data pos (Suc (Suc n)))
        \<longleftrightarrow> isl (decodeLoop dec width data (pos + width) (Suc n))"
      using Inr by (cases "decodeLoop dec width data (pos + width) (Suc n)") auto
    then show ?thesis using Suc [of "pos + width"] by (simp del: decodeLoop.simps add: algebra_simps)
  qed
qed

end

interpretation su64: strict_codec encodeU64LE decodeU64LE 8 validU64
  by unfold_locales (auto simp: decodeU64LE_eq)

interpretation su128: strict_codec encodeU128LE decodeU128LE 16 validU128
  by unfold_locales (auto simp: decodeU128LE_eq)

interpretation si128: strict_codec encodeI128LE decodeI128LE 16 validI128
  by unfold_locales (auto simp: decodeI128LE_eq)

lemma isl_rbind: "isl (rbind r f) \<longleftrightarrow> isl r \<or> isl (f (projr r))"
  by (cases r) simp_all

lemma decodeI32LE_skip: "length pre \<le> n \<Longrightarrow> decodeI32LE (pre @ rest) n = decodeI32LE rest (n - length pre)"
  using i32.dec_skip [of pre n rest] by simp

lemma decodeI32LE_enc: "validI32 x \<Longrightarrow> decodeI32LE (encodeI32LE x @ rest) 0 = x"
  using i32.dec_enc [of x rest] by simp

lemma decodeBool_skip: "length pre \<le> n \<Longrightarrow> decodeBool (pre @ rest) n = decodeBool rest (n - length pre)"
  by (simp add: decodeBool_def)

lemma decodeBool_enc: "decodeBool (flagByte b @ rest) 0 = b"
  by (simp add: decodeBool_def flagByte_def)

lemma length_oneByte [simp]: "length (oneByte v) = 1"
  by (simp add: oneByte_def)

lemma length_flagByte [simp]: "length (flagByte b) = 1"
  by (simp add: flagByte_def)

lemma decodePubkey_skip: "length pre \<le> n \<Longrightarrow> decodePubkey (pre @ rest) n = decodePubkey rest (n - length pre)"
  using pubkey.dec_skip [of pre n rest] by simp

lemma decodePubkey_enc: "validKey k \<Longrightarrow> decodePubkey (k @ rest) 0 = k"
  using pubkey.dec_enc [of k rest] by (simp add: validKey_def)

lemma byte_or_zero_skip_le: "length pre \<le> n \<Longrightarrow> byte_or_zero (pre @ rest) n = byte_or_zero rest (n - length pre)"
  by (simp add: byte_or_zero_def)

lemma u16_at_skip: "length pre \<le> n \<Longrightarrow> u16_at (pre @ rest) n = u16_at rest (n - length pre)"
  by (simp add: u16_at_def byte_or_zero_skip_le Suc_diff_le)

lemma byte_and_255: "v AND 255 = (v::int) mod 256"
  using take_bit_eq_mask [of 8 v] by (simp add: take_bit_eq_mod mask_eq_exp_minus_1)

lemma byte_at_enc: "validU8 v \<Longrightarrow> uint (byte_or_zero (oneByte v @ rest) 0) = v"
  by (simp add: byte_or_zero_def validU8_def oneByte_def uint_word_of_int)

lemma u16_at_enc:
  assumes "validU16 v"
  shows "u16_at (pushBytes 2 v @ rest) 0 = v"
proof -
  have "0 \<le> v" "v < 65536" using assms by (simp_all add: validU16_def)
  then have "v div 256 < 256" "0 \<le> v div 256" by presburger+
  then have "uint (word_of_int (v AND 255) :: byte) = v mod 256"
    and "uint (word_of_int (drop_bit 8 v AND 255) :: byte) = v div 256"
    using assms by (simp_all add: byte_and_255 uint_word_of_int validU16_def drop_bit_eq_div)
  moreover have "v mod 256 OR push_bit 8 (v div 256) = v mod 256 + 2 ^ 8 * (v div 256)"
    by (rule or_push_bit_int) simp_all
  ultimately show ?thesis by (simp add: u16_at_def byte_or_zero_def numeral_2_eq_2)
qed

lemmas skips = u64.dec_skip u128.dec_skip i128.dec_skip decodeI32LE_skip decodeBool_skip
  decodePubkey_skip byte_or_zero_skip_le u16_at_skip

lemmas reads = u64.dec_enc u128.dec_enc i128.dec_enc decodeI32LE_enc decodePubkey_enc
  byte_at_enc u16_at_enc decodeBool_enc

lemma field_lengths [simp]:
  "length (encodeU64LE v) = 8" "length (encodeU128LE v) = 16" "length (encodeI128LE v) = 16"
  "length (encodeI32LE v) = 4" "validKey k \<Longrightarrow> length k = 32"
  by (simp_all add: encodeU64LE_def encodeU128LE_def encodeI128LE_def encodeI32LE_def validKey_def Let_def)

subsection \<open>Round trips\<close>

lemma length_rewardInfoLayout: "validRewardInfo r \<Longrightarrow> length (rewardInfoLayout r) = 128"
  by (simp add: rewardInfoLayout_def validRewardInfo_def)

interpretation reward: strict_codec rewardInfoLayout deserializeRewardInfo 128 validRewardInfo
proof unfold_locales
  show "length (rewardInfoLayout r) = 128" if "validRewardInfo r" for r
    using that by (rule length_rewardInfoLayout)
  show "deserializeRewardInfo (rewardInfoLayout r @ rest) 0 = Inr r" if "validRewardInfo r" for r rest
    using that by (simp add: validRewardInfo_def rewardInfoLayout_def deserializeRewardInfo_def skips reads)
  show "deserializeRewardInfo (pre @ rest) (length pre + k) = deserializeRewardInfo rest k" for pre rest k
    by (simp add: deserializeRewardInfo_def skips)
  show "isl (deserializeRewardInfo data pos) \<longleftrightarrow> length data < pos + 128" for data pos
    by (auto simp: deserializeRewardInfo_def isl_rbind su128.dec_fails)
qed

interpretation tick: strict_codec tickLayout deserializeTick 113 validTick
proof unfold_locales
  show len: "length (tickLayout t) = 113" if "validTick t" for t
    using that by (simp add: tickLayout_def validTick_def u128.length_concat_enc list_all_iff)
  show "deserializeTick (tickLayout t @ rest) 0 = Inr t" if "validTick t" for t rest
  proof -
    have "decodeLoop decodeU128LE 16 (concat (map encodeU128LE (t_rewardGrowthsOutside t)) @ rest) 0 3
        = Inr (t_rewardGrowthsOutside t)"
      using that u128.decodeLoop_enc [of "t_rewardGrowthsOutside t" "[]" 0 3 rest]
      by (simp add: validTick_def list_all_iff)
    then show ?thesis
      using that
      by (simp add: validTick_def tickLayout_def deserializeTick_def skips reads u128.decodeLoop_skip
          NUM_REWARDS_def)
  qed
  show "deserializeTick (pre @ rest) (length pre + k) = deserializeTick rest k" for pre rest k
    by (simp add: deserializeTick_def skips u128.decodeLoop_skip)
  show "isl (deserializeTick data pos) \<longleftrightarrow> length data < pos + 113" for data pos
    using su128.decodeLoop_fails [of data "pos + 65" 2]
    by (auto simp: deserializeTick_def isl_rbind su128.dec_fails si128.dec_fails NUM_REWARDS_def
        simp del: decodeLoop.simps)
qed

interpretation position_reward: strict_codec positionRewardLayout deserializePositionRewardInfo 24 validPositionReward
proof unfold_locales
  show "length (positionRewardLayout r) = 24" if "validPositionReward r" for r
    using that by (simp add: positionRewardLayout_def)
  show "deserializePositionRewardInfo (positionRewardLayout r @ rest) 0 = Inr r"
    if "validPositionReward r" for r rest
    using that by (simp add: validPositionReward_def positionRewardLayout_def
        deserializePositionRewardInfo_def skips reads)
  show "deserializePositionRewardInfo (pre @ rest) (length pre + k) = deserializePositionRewardInfo rest k"
    for pre rest k
    by (simp add: deserializePositionRewardInfo_def skips)
  show "isl (deserializePositionRewardInfo data pos) \<longleftrightarrow> length data < pos + 24" for data pos
    by (auto simp: deserializePositionRewardInfo_def isl_rbind su128.dec_fails su64.dec_fails)
qed

lemma rewards_at:
  assumes "length rs = 3" "list_all validRewardInfo rs"
  shows "decodeLoop deserializeRewardInfo 128 (concat (map rewardInfoLayout rs)) 0 3 = Inr rs"
  using reward.decodeLoop_enc [of rs "[]" 0 3 "[]"] assms by (simp add: list_all_iff)

lemma position_rewards_at:
  assumes "length rs = 3" "list_all validPositionReward rs"
  shows "decodeLoop deserializePositionRewardInfo 24 (concat (map positionRewardLayout rs)) 0 3 = Inr rs"
  using position_reward.decodeLoop_enc [of rs "[]" 0 3 "[]"] assms by (simp add: list_all_iff)

lemma ticks_at:
  assumes "length ts = n" "list_all validTick ts" "length pre = pos"
  shows "decodeLoop deserializeTick 113 (pre @ concat (map tickLayout ts) @ rest) pos n = Inr ts"
  using tick.decodeLoop_enc [of ts pre pos n rest] assms by (simp add: list_all_iff)

lemma length_ticks: "list_all validTick ts \<Longrightarrow> length (concat (map tickLayout ts)) = 113 * length ts"
  using tick.length_concat_enc [of ts] by (simp add: list_all_iff)

lemma tickArray_layout_decodes:
  assumes "validTickArray a" "length disc = 8"
  shows "deserializeTickArray (tickArrayLayout disc a) = Inr a"
proof -
  let ?ticks = "concat (map tickLayout (ta_ticks a))"
  have loop: "decodeLoop deserializeTick 113 ((disc @ encodeI32LE (ta_startTickIndex a)) @ ?ticks @ ta_whirlpool a)
      12 88 = Inr (ta_ticks a)"
    using assms by (intro ticks_at) (simp_all add: validTickArray_def TICK_ARRAY_SIZE_def)
  have len: "length ?ticks = 9944"
    using assms length_ticks [of "ta_ticks a"] by (simp add: validTickArray_def TICK_ARRAY_SIZE_def)
  have "decodePubkey (disc @ encodeI32LE (ta_startTickIndex a) @ ?ticks @ ta_whirlpool a) 9956 = ta_whirlpool a"
    using assms decodePubkey_enc [of "ta_whirlpool a" "[]"]
    by (simp add: validTickArray_def decodePubkey_skip len)
  moreover have "decodeI32LE (disc @ encodeI32LE (ta_startTickIndex a) @ ?ticks @ ta_whirlpool a) 8
      = ta_startTickIndex a"
    using assms by (simp add: validTickArray_def decodeI32LE_skip decodeI32LE_enc)
  ultimately show ?thesis
    using loop by (simp add: deserializeTickArray_def tickArrayLayout_def ANCHOR_DISCRIMINATOR_SIZE_def
        TICK_SIZE_def TICK_ARRAY_SIZE_def)
qed

lemma tickArray_length:
  "isl (deserializeTickArray data) \<longleftrightarrow> length data < 9956"
  using tick.decodeLoop_fails [of data 12 87]
  by (simp add: deserializeTickArray_def isl_rbind ANCHOR_DISCRIMINATOR_SIZE_def TICK_SIZE_def
      TICK_ARRAY_SIZE_def del: decodeLoop.simps)

lemma position_layout_decodes:
  assumes "validPosition p" "length disc = 8"
  shows "deserializePosition (positionLayout disc p) = Inr p"
  using assms
  by (simp add: validPosition_def positionLayout_def deserializePosition_def ANCHOR_DISCRIMINATOR_SIZE_def
      NUM_REWARDS_def skips reads position_reward.decodeLoop_skip position_rewards_at
      del: decodeLoop.simps)

lemma position_length: "isl (deserializePosition data) \<longleftrightarrow> length data < POSITION_ACCOUNT_SIZE"
  using position_reward.decodeLoop_fails [of data 144 2]
  by (auto simp: deserializePosition_def isl_rbind ANCHOR_DISCRIMINATOR_SIZE_def POSITION_ACCOUNT_SIZE_def
      NUM_REWARDS_def su128.dec_fails su64.dec_fails simp del: decodeLoop.simps)

lemma whirlpool_layout_decodes:
  assumes "validWhirlpool w" "length disc = 8"
  shows "deserializeWhirlpool (whirlpoolLayout disc w) = Inr w"
proof -
  obtain b s0 s1 where bytes: "w_whirlpoolBump w = [b]" "w_tickSpacingSeed w = [s0, s1]"
    using assms(1) by (auto simp: validWhirlpool_def length_Suc_conv numeral_2_eq_2)
  show ?thesis
    using assms bytes
    by (cases w) (simp add: validWhirlpool_def whirlpoolLayout_def deserializeWhirlpool_def
        ANCHOR_DISCRIMINATOR_SIZE_def NUM_REWARDS_def skips reads reward.decodeLoop_skip rewards_at
        del: decodeLoop.simps)
qed

lemma whirlpool_length: "isl (deserializeWhirlpool data) \<longleftrightarrow> length data < WHIRLPOOL_ACCOUNT_SIZE"
  using reward.decodeLoop_fails [of data 269 2]
  by (auto simp: deserializeWhirlpool_def isl_rbind ANCHOR_DISCRIMINATOR_SIZE_def WHIRLPOOL_ACCOUNT_SIZE_def
      NUM_REWARDS_def su128.dec_fails su64.dec_fails simp del: decodeLoop.simps)

subsection \<open>Properties\<close>

text \<open>
  The whirlpool deserializer reads every field at its place: for every state whose fields fit
  their widths, and whatever the discriminator, it returns the state that was laid out.
\<close>

theorem deserializeWhirlpool_roundtrip:
  "validWhirlpool w \<Longrightarrow> length disc = 8 \<Longrightarrow> deserializeWhirlpool (whirlpoolLayout disc w) = Inr w"
  by (rule whirlpool_layout_decodes)

definition sampleKey :: "byte list" where "sampleKey = replicate 31 7 @ [1]"

definition sampleReward :: whirlpool_reward_info where
  "sampleReward = \<lparr> wr_mint = sampleKey, wr_vault = sampleKey, wr_authority = sampleKey,
     wr_emissionsPerSecondX64 = 5, wr_growthGlobalX64 = 2 ^ 127 \<rparr>"

definition sampleWhirlpool :: whirlpool_state where
  "sampleWhirlpool = \<lparr> w_whirlpoolsConfig = sampleKey, w_whirlpoolBump = [254], w_tickSpacing = 64,
     w_tickSpacingSeed = [64, 0], w_feeRate = 3000, w_protocolFeeRate = 300, w_liquidity = 10 ^ 18,
     w_sqrtPrice = 2 ^ 64, w_tickCurrentIndex = -1, w_protocolFeeOwedA = 2 ^ 64 - 1, w_protocolFeeOwedB = 0,
     w_tokenMintA = sampleKey, w_tokenVaultA = sampleKey, w_tokenMintB = sampleKey, w_tokenVaultB = sampleKey,
     w_feeGrowthGlobalA = 1, w_feeGrowthGlobalB = 2, w_rewardLastUpdatedTimestamp = 1700000000,
     w_rewardInfos = [sampleReward, sampleReward, sampleReward] \<rparr>"

lemmas valid_samples = validWhirlpool_def validRewardInfo_def validKey_def validU8_def validU16_def
  validU64_def validU128_def validI32_def validI128_def validTick_def validTickArray_def
  validPosition_def validPositionReward_def sampleWhirlpool_def sampleReward_def sampleKey_def

theorem deserializeWhirlpool_roundtrip_witness:
  "deserializeWhirlpool (whirlpoolLayout (replicate 8 9) sampleWhirlpool) = Inr sampleWhirlpool"
  by (rule deserializeWhirlpool_roundtrip) (simp_all add: valid_samples)

text \<open>
  The tick array deserializer returns the 88 ticks, the start index and the pool's key that were
  laid out, negative liquidity included.
\<close>

theorem deserializeTickArray_roundtrip:
  "validTickArray a \<Longrightarrow> length disc = 8 \<Longrightarrow> deserializeTickArray (tickArrayLayout disc a) = Inr a"
  by (rule tickArray_layout_decodes)

definition sampleTickArray :: tick_array where
  "sampleTickArray = \<lparr> ta_startTickIndex = -5632,
     ta_ticks = replicate 88 \<lparr> t_initialized = True, t_liquidityNet = -7, t_liquidityGross = 7,
       t_feeGrowthOutsideA = 1, t_feeGrowthOutsideB = 0, t_rewardGrowthsOutside = [1, 2, 3] \<rparr>,
     ta_whirlpool = sampleKey \<rparr>"

theorem deserializeTickArray_roundtrip_witness:
  "deserializeTickArray (tickArrayLayout (replicate 8 9) sampleTickArray) = Inr sampleTickArray"
  by (rule deserializeTickArray_roundtrip)
    (simp_all add: valid_samples sampleTickArray_def TICK_ARRAY_SIZE_def list_all_iff)

text \<open>
  The position deserializer returns the position that was laid out.
\<close>

theorem deserializePosition_roundtrip:
  "validPosition p \<Longrightarrow> length disc = 8 \<Longrightarrow> deserializePosition (positionLayout disc p) = Inr p"
  by (rule position_layout_decodes)

definition samplePosition :: position_data where
  "samplePosition = \<lparr> p_whirlpool = sampleKey, p_positionMint = sampleKey, p_liquidity = 10 ^ 9,
     p_tickLowerIndex = -128, p_tickUpperIndex = 128, p_feeGrowthCheckpointA = 3, p_feeOwedA = 4,
     p_feeGrowthCheckpointB = 5, p_feeOwedB = 6,
     p_rewardInfos = replicate 3 \<lparr> pr_growthInsideCheckpoint = 1, pr_amountOwed = 2 \<rparr> \<rparr>"

theorem deserializePosition_roundtrip_witness:
  "deserializePosition (positionLayout (replicate 8 9) samplePosition) = Inr samplePosition"
  by (rule deserializePosition_roundtrip) (simp_all add: valid_samples samplePosition_def list_all_iff)

text \<open>
  Short data is refused by length alone: the whirlpool and position deserializers throw exactly
  when the data is shorter than the account, but the tick array deserializer accepts data that
  lacks up to 32 bytes of the account's size, and then returns a truncated pool key.
\<close>

theorem account_lengths:
  "(isl (deserializeWhirlpool data) \<longleftrightarrow> length data < WHIRLPOOL_ACCOUNT_SIZE)
   \<and> (isl (deserializePosition data) \<longleftrightarrow> length data < POSITION_ACCOUNT_SIZE)
   \<and> (isl (deserializeTickArray data) \<longleftrightarrow> length data < TICK_ARRAY_ACCOUNT_SIZE - 32)"
  by (simp add: whirlpool_length position_length tickArray_length TICK_ARRAY_ACCOUNT_SIZE_def)

end
