(* ===== verification/JsStrings.thy ===== *)
theory JsStrings
  imports Prelude
begin

text \<open>
  The string operations of JavaScript that the components use, on strings of 8-bit characters
  (a HOL \<open>string\<close>): trimming, lower case, hexadecimal and decimal digits, \<open>join\<close> and \<open>indexOf\<close>.
  Beyond ASCII only the no-break space is white space here, which is all that 8-bit characters hold.
\<close>

subsection \<open>Case and white space\<close>

definition char_code :: "char \<Rightarrow> nat" where
  "char_code c = of_char c"

definition is_js_space :: "char \<Rightarrow> bool" where
  "is_js_space c \<longleftrightarrow> (9 \<le> char_code c \<and> char_code c \<le> 13) \<or> char_code c = 32 \<or> char_code c = 160"

definition js_trim :: "string \<Rightarrow> string" where
  "js_trim s = rev (dropWhile is_js_space (rev (dropWhile is_js_space s)))"

definition lower_char :: "char \<Rightarrow> char" where
  "lower_char c = (if 65 \<le> char_code c \<and> char_code c \<le> 90 then char_of (char_code c + 32) else c)"

definition js_lower :: "string \<Rightarrow> string" where
  "js_lower s = map lower_char s"

definition starts_with :: "string \<Rightarrow> string \<Rightarrow> bool" where
  "starts_with p s \<longleftrightarrow> take (length p) s = p"

lemma js_trim_id:
  assumes "s = [] \<or> (\<not> is_js_space (hd s) \<and> \<not> is_js_space (last s))"
  shows "js_trim s = s"
proof (cases "s = []")
  case True
  then show ?thesis by (simp add: js_trim_def)
next
  case False
  then have "dropWhile is_js_space s = s" "dropWhile is_js_space (rev s) = rev s"
    using assms by (simp_all add: dropWhile_eq_self_iff hd_rev)
  then show ?thesis by (simp add: js_trim_def)
qed

subsection \<open>Positions\<close>

text \<open>\<open>indexOf\<close>: the first position, \<open>None\<close> for -1.\<close>

fun index_of :: "'a list \<Rightarrow> 'a \<Rightarrow> nat option" where
  "index_of [] x = None"
| "index_of (y # ys) x = (if y = x then Some 0 else map_option Suc (index_of ys x))"

lemma index_of_Some: "index_of ys x = Some i \<Longrightarrow> i < length ys \<and> ys ! i = x"
  by (induction ys arbitrary: i) (auto split: if_splits)

lemma index_of_nth: "distinct ys \<Longrightarrow> i < length ys \<Longrightarrow> index_of ys (ys ! i) = Some i"
proof (induction ys arbitrary: i)
  case Nil
  then show ?case by simp
next
  case (Cons y ys)
  then show ?case by (cases i) auto
qed

lemma index_of_None_iff: "index_of ys x = None \<longleftrightarrow> x \<notin> set ys"
  by (induction ys) auto

subsection \<open>Joining\<close>

fun join_with :: "string \<Rightarrow> string list \<Rightarrow> string" where
  "join_with sep [] = []"
| "join_with sep [x] = x"
| "join_with sep (x # y # ys) = x @ sep @ join_with sep (y # ys)"

lemma join_with_Cons: "ys \<noteq> [] \<Longrightarrow> join_with sep (x # ys) = x @ sep @ join_with sep ys"
  by (cases ys) auto

text \<open>A joined list is read back from the string when no element contains the separator.\<close>

lemma append_sep_inject:
  assumes "c \<notin> set x" "c \<notin> set y" "x @ c # xs = y @ c # ys"
  shows "x = y \<and> xs = ys"
proof -
  have "takeWhile (\<lambda>a. a \<noteq> c) (x @ c # xs) = x" "takeWhile (\<lambda>a. a \<noteq> c) (y @ c # ys) = y"
    using assms(1,2) by (simp_all add: takeWhile_append takeWhile_eq_all_conv)
  then have "x = y" using assms(3) by simp
  then show ?thesis using assms(3) by simp
qed

lemma join_with_inject:
  assumes "length xs = length ys" "\<forall>x\<in>set xs. c \<notin> set x" "\<forall>y\<in>set ys. c \<notin> set y"
    and "join_with [c] xs = join_with [c] ys"
  shows "xs = ys"
  using assms
proof (induction xs ys rule: list_induct2)
  case Nil
  then show ?case by simp
next
  case (Cons x xs y ys)
  show ?case
  proof (cases "xs = []")
    case True
    then show ?thesis using Cons by simp
  next
    case False
    then have "ys \<noteq> []" using Cons.hyps by auto
    then have "x @ c # join_with [c] xs = y @ c # join_with [c] ys"
      using Cons.prems(3) False by (simp add: join_with_Cons)
    then have "x = y \<and> join_with [c] xs = join_with [c] ys"
      using Cons.prems by (intro append_sep_inject) auto
    then show ?thesis using Cons by auto
  qed
qed

subsection \<open>Hexadecimal digits\<close>

definition HEX_DIGITS :: string where
  "HEX_DIGITS = ''0123456789abcdef''"

definition hex_value :: "char \<Rightarrow> nat option" where
  "hex_value c = index_of HEX_DIGITS c"

definition hex_char :: "nat \<Rightarrow> char" where
  "hex_char n = HEX_DIGITS ! n"

lemma HEX_DIGITS_facts: "distinct HEX_DIGITS" "length HEX_DIGITS = 16"
  by (simp_all add: HEX_DIGITS_def)

lemma hex_value_char [simp]: "n < 16 \<Longrightarrow> hex_value (hex_char n) = Some n"
  by (simp add: hex_value_def hex_char_def index_of_nth HEX_DIGITS_facts)

lemma hex_value_lt: "hex_value c = Some n \<Longrightarrow> n < 16"
  using index_of_Some [of HEX_DIGITS c n] by (simp add: hex_value_def HEX_DIGITS_facts)

lemma hex_char_value: "hex_value c = Some n \<Longrightarrow> hex_char n = c"
  using index_of_Some [of HEX_DIGITS c n] by (simp add: hex_value_def hex_char_def)

text \<open>\<open>b.toString(16).padStart(2, "0")\<close> for a byte.\<close>

definition hex_byte :: "nat \<Rightarrow> string" where
  "hex_byte b = [hex_char (b div 16), hex_char (b mod 16)]"

lemma length_hex_byte [simp]: "length (hex_byte b) = 2"
  by (simp add: hex_byte_def)

text \<open>\<open>n.toString(16)\<close>\<close>

fun show_hex :: "nat \<Rightarrow> string" where
  "show_hex n = (if n < 16 then [hex_char n] else show_hex (n div 16) @ [hex_char (n mod 16)])"

declare show_hex.simps [simp del]

text \<open>The regular expression \<open>/^[0-9a-f]+$/\<close>.\<close>

definition lower_hex_string :: "string \<Rightarrow> bool" where
  "lower_hex_string s \<longleftrightarrow> s \<noteq> [] \<and> list_all (\<lambda>c. hex_value c \<noteq> None) s"

text \<open>
  The loop that reads two characters at a time, \<open>Number.parseInt(s.slice(i, i + 2), 16)\<close>, on a
  string of even length that passed the regular expression.
\<close>

fun parse_hex_pairs :: "string \<Rightarrow> nat list" where
  "parse_hex_pairs (a # b # s) =
     (case (hex_value a, hex_value b) of
        (Some m, Some n) \<Rightarrow> (16 * m + n) # parse_hex_pairs s
      | _ \<Rightarrow> 0 # parse_hex_pairs s)"
| "parse_hex_pairs s = []"

lemma parse_hex_byte [simp]: "b < 256 \<Longrightarrow> parse_hex_pairs (hex_byte b @ s) = b # parse_hex_pairs s"
  by (simp add: hex_byte_def)

lemma parse_hex_bytes: "\<forall>b\<in>set bs. b < 256 \<Longrightarrow> parse_hex_pairs (concat (map hex_byte bs)) = bs"
  by (induction bs) auto

lemma parse_hex_pairs_lt: "b \<in> set (parse_hex_pairs s) \<Longrightarrow> b < 256"
  by (induction s rule: parse_hex_pairs.induct)
    (auto split: option.splits dest!: hex_value_lt)

lemma length_parse_hex_pairs: "length (parse_hex_pairs s) = length s div 2"
  by (induction s rule: parse_hex_pairs.induct) (auto split: option.splits)

lemma hex_bytes_parse:
  "even (length s) \<Longrightarrow> list_all (\<lambda>c. hex_value c \<noteq> None) s \<Longrightarrow>
   concat (map hex_byte (parse_hex_pairs s)) = s"
proof (induction s rule: parse_hex_pairs.induct)
  case (1 a b s)
  then obtain m n where mn: "hex_value a = Some m" "hex_value b = Some n" by auto
  have "m < 16" "n < 16" using mn by (auto dest: hex_value_lt)
  then have "hex_byte (16 * m + n) = [a, b]"
    using mn by (simp add: hex_byte_def hex_char_value)
  then show ?case using 1 mn by simp
qed auto

lemma lower_hex_concat: "bs \<noteq> [] \<Longrightarrow> \<forall>b\<in>set bs. b < 256 \<Longrightarrow> lower_hex_string (concat (map hex_byte bs))"
  by (auto simp: lower_hex_string_def hex_byte_def list_all_iff)

lemma hex_char_not_upper: "hex_value c = Some n \<Longrightarrow> lower_char c = c \<and> \<not> is_js_space c"
proof -
  assume "hex_value c = Some n"
  then have "c \<in> set HEX_DIGITS" by (metis hex_value_def index_of_None_iff option.distinct(1))
  then show ?thesis
    by (auto simp: HEX_DIGITS_def lower_char_def char_code_def is_js_space_def)
qed

lemma lower_hex_normal: "lower_hex_string s \<Longrightarrow> js_lower s = s \<and> js_trim s = s"
proof -
  assume s: "lower_hex_string s"
  then have "\<forall>c\<in>set s. lower_char c = c \<and> \<not> is_js_space c"
    by (auto simp: lower_hex_string_def list_all_iff dest!: hex_char_not_upper)
  then show ?thesis using s
    by (auto simp: js_lower_def lower_hex_string_def map_idI intro!: js_trim_id)
qed

subsection \<open>Decimal digits\<close>

text \<open>\<open>n.toString()\<close> of a number that is not negative, and the value of \<open>/^\d+$/\<close> read back.\<close>

definition DEC_DIGITS :: string where
  "DEC_DIGITS = ''0123456789''"

definition dec_value :: "char \<Rightarrow> nat option" where
  "dec_value c = index_of DEC_DIGITS c"

fun show_nat :: "nat \<Rightarrow> string" where
  "show_nat n = (if n < 10 then [DEC_DIGITS ! n] else show_nat (n div 10) @ [DEC_DIGITS ! (n mod 10)])"

declare show_nat.simps [simp del]

definition dec_string :: "string \<Rightarrow> bool" where
  "dec_string s \<longleftrightarrow> s \<noteq> [] \<and> list_all (\<lambda>c. dec_value c \<noteq> None) s"

definition read_nat :: "string \<Rightarrow> nat" where
  "read_nat s = foldl (\<lambda>v c. 10 * v + (case dec_value c of Some d \<Rightarrow> d | None \<Rightarrow> 0)) 0 s"

lemma DEC_DIGITS_facts: "distinct DEC_DIGITS" "length DEC_DIGITS = 10"
  by (simp_all add: DEC_DIGITS_def)

lemma dec_value_nth [simp]: "d < 10 \<Longrightarrow> dec_value (DEC_DIGITS ! d) = Some d"
  by (simp add: dec_value_def index_of_nth DEC_DIGITS_facts)

lemma show_nat_dec: "dec_string (show_nat n)"
proof (induction n rule: show_nat.induct)
  case (1 n)
  then show ?case by (subst show_nat.simps) (auto simp: dec_string_def)
qed

lemma read_show_nat [simp]: "read_nat (show_nat n) = n"
proof (induction n rule: show_nat.induct)
  case (1 n)
  then show ?case
    by (subst show_nat.simps) (auto simp: read_nat_def)
qed

lemma show_nat_inject [simp]: "show_nat m = show_nat n \<longleftrightarrow> m = n"
  by (metis read_show_nat)

definition show_int :: "int \<Rightarrow> string" where
  "show_int v = (if v < 0 then CHR ''-'' # show_nat (nat (- v)) else show_nat (nat v))"

lemma show_nat_no_colon: "CHR '':'' \<notin> set (show_nat n)"
  using show_nat_dec [of n] by (auto simp: dec_string_def list_all_iff dec_value_def DEC_DIGITS_def)

definition padStart :: "nat \<Rightarrow> char \<Rightarrow> string \<Rightarrow> string" where
  "padStart n c s = replicate (n - length s) c @ s"

end
