(* ===== verification/Hex.thy ===== *)
theory Hex
  imports JsStrings
begin

text \<open>
  \<open>packages/arch-swap-engine/src/lib/arch/hex.ts\<close>: bytes to hexadecimal text and back.
\<close>

datatype hex_error = InvalidHexString

definition hexToBytes :: "string \<Rightarrow> hex_error + byte list" where
  "hexToBytes value =
     (let normalized = js_lower (js_trim value)
      in if \<not> lower_hex_string normalized \<or> odd (length normalized) then Inl InvalidHexString
         else Inr (map (\<lambda>n. word_of_nat n) (parse_hex_pairs normalized)))"

definition bytesToHex :: "byte list \<Rightarrow> string" where
  "bytesToHex bytes = concat (map (\<lambda>b. hex_byte (unat b)) bytes)"

lemma unat_byte_lt [simp]: "unat (b :: byte) < 256"
  using unsigned_less [of b, where ?'a = nat] by simp

lemma length_bytesToHex: "length (bytesToHex bs) = 2 * length bs"
  by (induction bs) (simp_all add: bytesToHex_def)

lemma parse_bytesToHex: "parse_hex_pairs (bytesToHex bs) = map unat bs"
  using parse_hex_bytes [of "map unat bs"] by (simp add: bytesToHex_def comp_def)

lemma lower_hex_bytesToHex: "bs \<noteq> [] \<Longrightarrow> lower_hex_string (bytesToHex bs)"
  using lower_hex_concat [of "map unat bs"] by (simp add: bytesToHex_def comp_def)

lemma bytesToHex_inject: "bytesToHex xs = bytesToHex ys \<longleftrightarrow> xs = ys"
proof
  assume "bytesToHex xs = bytesToHex ys"
  then have "map unat xs = map unat ys" by (metis parse_bytesToHex)
  then show "xs = ys" by (simp add: inj_map_eq_map)
qed simp

lemma hexToBytes_bytesToHex: "bs \<noteq> [] \<Longrightarrow> hexToBytes (bytesToHex bs) = Inr bs"
  using lower_hex_bytesToHex [of bs] lower_hex_normal [of "bytesToHex bs"]
  by (simp add: hexToBytes_def parse_bytesToHex length_bytesToHex comp_def)

lemma bytesToHex_hexToBytes:
  assumes "hexToBytes s = Inr bs"
  shows "bytesToHex bs = js_lower (js_trim s)"
proof -
  define n where "n = js_lower (js_trim s)"
  have n: "lower_hex_string n" "even (length n)" "bs = map word_of_nat (parse_hex_pairs n)"
    using assms by (auto simp: hexToBytes_def Let_def n_def split: if_splits)
  have "map (\<lambda>x. unat (word_of_nat x :: byte)) (parse_hex_pairs n) = parse_hex_pairs n"
    by (rule map_idI) (simp add: unat_of_nat parse_hex_pairs_lt)
  then have "bytesToHex bs = concat (map hex_byte (parse_hex_pairs n))"
    by (simp add: bytesToHex_def n(3) comp_def flip: map_map [of hex_byte "\<lambda>x. unat (word_of_nat x :: byte)", unfolded comp_def])
  then show ?thesis
    using n hex_bytes_parse [of n] by (simp add: lower_hex_string_def n_def)
qed

end
