(* ===== verification/Base58.thy ===== *)
theory Base58
  imports Hex
begin

text \<open>
  \<open>packages/arch-swap-engine/src/lib/arch/base58.ts\<close>: base-58 text of 32-byte keys. The encoder
  keeps a little-endian list of base-58 digits, the decoder a big-endian array of 32 bytes; both
  multiply and add with a carry. The final carry of the decoder is dropped, as the source drops it,
  so decoding is exact only modulo \<open>2^256\<close>.
\<close>

datatype base58_error = InvalidHexPayload | ExpectedThirtyTwoBytes | InvalidBase58Character

definition ALPHABET :: string where
  "ALPHABET = ''123456789ABCDEFGHJKLMNPQRSTUVWXYZabcdefghijkmnopqrstuvwxyz''"

subsection \<open>Encoding\<close>

fun b58_pushCarry :: "nat \<Rightarrow> nat list" where
  "b58_pushCarry carry = (if carry > 0 then (carry mod 58) # b58_pushCarry (carry div 58) else [])"

declare b58_pushCarry.simps [simp del]

fun b58_mulAdd :: "nat list \<Rightarrow> nat \<Rightarrow> nat list" where
  "b58_mulAdd [] carry = b58_pushCarry carry"
| "b58_mulAdd (d # digits) carry =
     (let c = carry + d * 256 in (c mod 58) # b58_mulAdd digits (c div 58))"

definition b58_digits :: "nat list \<Rightarrow> nat list" where
  "b58_digits bytes = foldl b58_mulAdd [0] bytes"

definition hexToBase58 :: "string \<Rightarrow> base58_error + string" where
  "hexToBase58 hex =
     (let normalized = js_lower (js_trim hex);
          payload = (if starts_with ''0x'' normalized then drop 2 normalized else normalized)
      in if \<not> lower_hex_string payload \<or> odd (length payload) then Inl InvalidHexPayload
         else if length payload \<noteq> 64 then Inl ExpectedThirtyTwoBytes
         else let bytes = parse_hex_pairs payload;
                  leadingZeros = length (takeWhile (\<lambda>b. b = 0) bytes);
                  digits = b58_digits bytes
              in Inr (replicate leadingZeros (CHR ''1'') @ map (\<lambda>d. ALPHABET ! d) (rev digits)))"

subsection \<open>Decoding\<close>

text \<open>The inner loop from the last byte to the first: the new bytes and the carry that is left.\<close>

fun b58_mulAddBytes :: "nat list \<Rightarrow> nat \<Rightarrow> nat list \<times> nat" where
  "b58_mulAddBytes [] c = ([], c)"
| "b58_mulAddBytes (b # bytes) c =
     (let (rest, c') = b58_mulAddBytes bytes c; v = c' + 58 * b
      in (v mod 256 # rest, v div 256))"

fun b58_decodeChars :: "nat list \<Rightarrow> string \<Rightarrow> base58_error + nat list" where
  "b58_decodeChars bytes [] = Inr bytes"
| "b58_decodeChars bytes (char # s) =
     (case index_of ALPHABET char of
        None \<Rightarrow> Inl InvalidBase58Character
      | Some carry \<Rightarrow> b58_decodeChars (fst (b58_mulAddBytes bytes carry)) s)"

definition base58ToHex :: "string \<Rightarrow> base58_error + string" where
  "base58ToHex b58 =
     rbind (b58_decodeChars (replicate 32 0) b58) (\<lambda>bytes. Inr (concat (map hex_byte bytes)))"

definition isHex :: "string \<Rightarrow> bool" where
  "isHex value =
     (let normalized = (if starts_with ''0x'' value then drop 2 value else value)
      in lower_hex_string (js_lower normalized) \<and> even (length normalized))"

definition validateBase58Address :: "string \<Rightarrow> string option" where
  "validateBase58Address b58 =
     (if b58 = [] \<or> length b58 < 32 \<or> length b58 > 44 then None
      else case base58ToHex b58 of
             Inl e \<Rightarrow> None
           | Inr hex \<Rightarrow> if length hex \<noteq> 64 then None else Some hex)"

subsection \<open>Values of digit lists\<close>

fun val58 :: "nat list \<Rightarrow> nat" where
  "val58 [] = 0"
| "val58 (d # ds) = d + 58 * val58 ds"

fun val256 :: "nat list \<Rightarrow> nat" where
  "val256 [] = 0"
| "val256 (b # bs) = b * 256 ^ length bs + val256 bs"

lemma val256_append: "val256 (xs @ ys) = val256 xs * 256 ^ length ys + val256 ys"
  by (induction xs) (simp_all add: power_add algebra_simps)

lemma val256_lt: "\<forall>b\<in>set bs. b < 256 \<Longrightarrow> val256 bs < 256 ^ length bs"
proof (induction bs)
  case Nil
  then show ?case by simp
next
  case (Cons b bs)
  then have "b + 1 \<le> 256" "val256 bs < 256 ^ length bs" by auto
  then have "b * 256 ^ length bs + val256 bs < (b + 1) * 256 ^ length bs" by simp
  also have "\<dots> \<le> 256 * 256 ^ length bs" using \<open>b + 1 \<le> 256\<close> by (rule mult_le_mono1)
  finally show ?case by simp
qed

lemma val256_inject:
  "length xs = length ys \<Longrightarrow> \<forall>b\<in>set xs. b < 256 \<Longrightarrow> \<forall>b\<in>set ys. b < 256 \<Longrightarrow>
   val256 xs = val256 ys \<Longrightarrow> xs = ys"
proof (induction xs ys rule: list_induct2)
  case Nil
  then show ?case by simp
next
  case (Cons x xs y ys)
  let ?m = "256 ^ length xs :: nat"
  have lt: "val256 xs < ?m" "val256 ys < ?m" using Cons val256_lt [of xs] val256_lt [of ys] by auto
  have eq: "x * ?m + val256 xs = y * ?m + val256 ys" using Cons by simp
  have "(x * ?m + val256 xs) div ?m = x" "(y * ?m + val256 ys) div ?m = y" using lt by simp_all
  with eq have "x = y" by metis
  with eq Cons show ?case by simp
qed

lemma val58_pushCarry: "val58 (b58_pushCarry c) = c"
  by (induction c rule: b58_pushCarry.induct) (subst b58_pushCarry.simps, simp)

lemma pushCarry_digits: "d \<in> set (b58_pushCarry c) \<Longrightarrow> d < 58"
  by (induction c rule: b58_pushCarry.induct) (subst (asm) (2) b58_pushCarry.simps, auto split: if_splits)

lemma val58_mulAdd: "val58 (b58_mulAdd ds c) = c + 256 * val58 ds"
proof (induction ds arbitrary: c)
  case Nil
  then show ?case by (simp add: val58_pushCarry)
next
  case (Cons d ds)
  have "(c + d * 256) mod 58 + 58 * ((c + d * 256) div 58) = c + d * 256" by simp
  then show ?case by (simp add: Cons Let_def algebra_simps)
qed

lemma mulAdd_digits: "\<forall>d\<in>set ds. d < 58 \<Longrightarrow> d \<in> set (b58_mulAdd ds c) \<Longrightarrow> d < 58"
  by (induction ds arbitrary: c) (auto simp: Let_def dest: pushCarry_digits)

lemma val58_digits: "val58 (foldl b58_mulAdd ds bytes) = val58 ds * 256 ^ length bytes + val256 bytes"
  by (induction bytes arbitrary: ds) (simp_all add: val58_mulAdd algebra_simps)

lemma foldl_mulAdd_digits:
  "\<forall>d\<in>set ds. d < 58 \<Longrightarrow> d \<in> set (foldl b58_mulAdd ds bytes) \<Longrightarrow> d < 58"
proof (induction bytes arbitrary: ds)
  case Nil
  then show ?case by simp
next
  case (Cons b bytes)
  have "\<forall>d\<in>set (b58_mulAdd ds b). d < 58" using Cons.prems(1) mulAdd_digits by blast
  then show ?case using Cons by simp
qed

lemma b58_digits_facts: "val58 (b58_digits bytes) = val256 bytes" "d \<in> set (b58_digits bytes) \<Longrightarrow> d < 58"
  using val58_digits [of "[0]" bytes] foldl_mulAdd_digits [of "[0]" d bytes]
  by (simp_all add: b58_digits_def)

subsection \<open>Decoding is exact modulo \<open>2^256\<close>\<close>

lemma mulAddBytes_facts:
  assumes "b58_mulAddBytes bs c = (bs', c')"
  shows "length bs' = length bs \<and> (\<forall>b\<in>set bs'. b < 256) \<and>
         val256 bs' + 256 ^ length bs * c' = 58 * val256 bs + c"
  using assms
proof (induction bs arbitrary: bs' c')
  case Nil
  then show ?case by simp
next
  case (Cons b bs)
  obtain r k where rk: "b58_mulAddBytes bs c = (r, k)" by (cases "b58_mulAddBytes bs c")
  have bs': "bs' = (k + 58 * b) mod 256 # r" "c' = (k + 58 * b) div 256"
    using Cons.prems rk by (auto simp: Let_def)
  have IH: "length r = length bs" "\<forall>b\<in>set r. b < 256" "val256 r + 256 ^ length bs * k = 58 * val256 bs + c"
    using Cons.IH [OF rk] by auto
  define v p :: nat where "v = k + 58 * b" and "p = 256 ^ length bs"
  define q m :: nat where "q = v div 256" and "m = v mod 256"
  have "v = m + 256 * q" by (simp add: q_def m_def)
  then have A: "m * p + 256 * p * q = v * p" by (simp add: algebra_simps)
  have C: "v * p = k * p + 58 * (b * p)" by (simp add: v_def algebra_simps)
  have "val256 bs' + 256 ^ length (b # bs) * c' = m * p + 256 * p * q + val256 r"
    by (simp add: bs' v_def p_def q_def m_def IH(1))
  also have "\<dots> = 58 * val256 (b # bs) + c"
    unfolding A C using IH(3) by (simp add: p_def algebra_simps)
  finally show ?case using IH by (simp add: bs')
qed

definition b58_push :: "nat \<Rightarrow> char \<Rightarrow> nat" where
  "b58_push v c = 58 * v + the (index_of ALPHABET c)"

lemma foldl_push_mod: "a mod M = b mod M \<Longrightarrow> foldl b58_push a s mod M = foldl b58_push b s mod M"
proof (induction s arbitrary: a b)
  case Nil
  then show ?case by simp
next
  case (Cons d s)
  have "b58_push a d mod M = b58_push b d mod M"
    unfolding b58_push_def by (rule mod_add_cong [OF mod_mult_cong [OF refl Cons.prems] refl])
  then have "foldl b58_push (b58_push a d) s mod M = foldl b58_push (b58_push b d) s mod M" by (rule Cons.IH)
  then show ?case by simp
qed

lemma decodeChars_value:
  assumes "\<forall>c\<in>set s. c \<in> set ALPHABET" "length bs = n" "\<forall>b\<in>set bs. b < 256"
  shows "\<exists>bs'. b58_decodeChars bs s = Inr bs' \<and> length bs' = n \<and> (\<forall>b\<in>set bs'. b < 256) \<and>
    val256 bs' = foldl b58_push (val256 bs) s mod 256 ^ n"
  using assms
proof (induction s arbitrary: bs)
  case Nil
  then show ?case using val256_lt [of bs] by auto
next
  case (Cons c s)
  then obtain k where k: "index_of ALPHABET c = Some k"
    by (metis index_of_None_iff list.set_intros(1) not_None_eq)
  obtain r c' where r: "b58_mulAddBytes bs k = (r, c')" by (cases "b58_mulAddBytes bs k")
  have rf: "length r = n" "\<forall>b\<in>set r. b < 256" "val256 r + 256 ^ n * c' = 58 * val256 bs + k"
    using mulAddBytes_facts [OF r] Cons.prems by auto
  obtain bs' where bs': "b58_decodeChars r s = Inr bs'" "length bs' = n" "\<forall>b\<in>set bs'. b < 256"
      "val256 bs' = foldl b58_push (val256 r) s mod 256 ^ n"
    using Cons.IH [of r] Cons.prems rf by auto
  have "val256 r mod 256 ^ n = b58_push (val256 bs) c mod 256 ^ n"
    by (simp add: b58_push_def k rf(3) [symmetric])
  then have "val256 bs' = foldl b58_push (b58_push (val256 bs) c) s mod 256 ^ n"
    unfolding bs'(4) by (rule foldl_push_mod)
  then show ?case using bs' k r by simp
qed

subsection \<open>Encoding followed by decoding\<close>

lemma ALPHABET_facts: "distinct ALPHABET" "length ALPHABET = 58"
  by (simp_all add: ALPHABET_def)

lemma push_digit [simp]: "d < 58 \<Longrightarrow> b58_push v (ALPHABET ! d) = 58 * v + d"
  by (simp add: b58_push_def index_of_nth ALPHABET_facts)

lemma push_one [simp]: "b58_push 0 (CHR ''1'') = 0"
  by (simp add: b58_push_def ALPHABET_def)

lemma foldl_push_digits:
  "\<forall>d\<in>set ds. d < 58 \<Longrightarrow>
   foldl b58_push v (map (\<lambda>d. ALPHABET ! d) (rev ds)) = v * 58 ^ length ds + val58 ds"
  by (induction ds) (simp_all add: algebra_simps)

lemma foldl_push_ones: "foldl b58_push 0 (replicate n (CHR ''1'')) = 0"
  by (induction n) simp_all

definition b58_text :: "nat list \<Rightarrow> string" where
  "b58_text bytes = replicate (length (takeWhile (\<lambda>b. b = 0) bytes)) (CHR ''1'') @
     map (\<lambda>d. ALPHABET ! d) (rev (b58_digits bytes))"

lemma b58_text_chars: "c \<in> set (b58_text bytes) \<Longrightarrow> c \<in> set ALPHABET"
proof -
  assume "c \<in> set (b58_text bytes)"
  then consider "c = CHR ''1''" | d where "d < 58" "c = ALPHABET ! d"
    by (auto simp: b58_text_def dest: b58_digits_facts(2))
  then show ?thesis by cases (auto simp: ALPHABET_facts, simp add: ALPHABET_def)
qed

lemma b58_text_value: "foldl b58_push 0 (b58_text bytes) = val256 bytes"
  by (simp add: b58_text_def foldl_push_ones foldl_push_digits b58_digits_facts)

lemma val256_zeros: "val256 (replicate n 0) = 0"
  by (induction n) simp_all

lemma base58ToHex_text:
  assumes "length bytes = 32" "\<forall>b\<in>set bytes. b < 256"
  shows "base58ToHex (b58_text bytes) = Inr (concat (map hex_byte bytes))"
proof -
  obtain bs' where bs': "b58_decodeChars (replicate 32 0) (b58_text bytes) = Inr bs'"
      "length bs' = 32" "\<forall>b\<in>set bs'. b < 256"
      "val256 bs' = foldl b58_push (val256 (replicate 32 0)) (b58_text bytes) mod 256 ^ 32"
    using decodeChars_value [of "b58_text bytes" "replicate 32 0" 32] b58_text_chars by auto
  have "val256 bs' = val256 bytes"
    using bs'(4) val256_lt [of bytes] assms by (simp only: val256_zeros b58_text_value) simp
  then have "bs' = bytes" using val256_inject bs'(2,3) assms by metis
  then show ?thesis using bs'(1) by (simp add: base58ToHex_def)
qed

text \<open>The payload that \<open>hexToBase58\<close> encodes: its argument without white space and \<open>0x\<close>.\<close>

definition hexPayload :: "string \<Rightarrow> string" where
  "hexPayload hex =
     (let normalized = js_lower (js_trim hex)
      in if starts_with ''0x'' normalized then drop 2 normalized else normalized)"

lemma hexToBase58_Inr:
  assumes "hexToBase58 hex = Inr b58"
  obtains bytes where "bytes = parse_hex_pairs (hexPayload hex)" "length bytes = 32"
    "\<forall>b\<in>set bytes. b < 256" "concat (map hex_byte bytes) = hexPayload hex" "b58 = b58_text bytes"
proof -
  let ?p = "hexPayload hex"
  have p: "lower_hex_string ?p" "even (length ?p)" "length ?p = 64" "b58 = b58_text (parse_hex_pairs ?p)"
    using assms by (auto simp: hexToBase58_def hexPayload_def Let_def b58_text_def split: if_splits)
  show thesis
    by (rule that [OF refl]) (use p hex_bytes_parse [of ?p] in
      \<open>auto simp: length_parse_hex_pairs lower_hex_string_def dest: parse_hex_pairs_lt\<close>)
qed

lemma hexToBase58_lower_hex:
  assumes "lower_hex_string h" "length h = 64"
  shows "hexPayload h = h" "\<exists>b. hexToBase58 h = Inr b"
proof -
  have "\<not> starts_with ''0x'' h"
  proof
    assume "starts_with ''0x'' h"
    then have "h ! 1 = CHR ''x''" using assms(2) by (metis nth_take starts_with_def length_Cons
          list.size(3) nth_Cons_0 nth_Cons_Suc One_nat_def lessI)
    then have "CHR ''x'' \<in> set h" using assms(2) by (metis nth_mem one_less_numeral_iff semiring_norm(76)
          numeral_One)
    then have "hex_value (CHR ''x'') \<noteq> None" using assms(1) by (auto simp: lower_hex_string_def list_all_iff)
    then show False by (simp add: hex_value_def HEX_DIGITS_def)
  qed
  then show "hexPayload h = h" "\<exists>b. hexToBase58 h = Inr b"
    using assms lower_hex_normal [OF assms(1)] by (simp_all add: hexPayload_def hexToBase58_def Let_def)
qed

subsection \<open>The length of an encoded key\<close>

lemma pushCarry_last: "0 < c \<Longrightarrow> b58_pushCarry c \<noteq> [] \<and> last (b58_pushCarry c) \<noteq> 0"
proof (induction c rule: b58_pushCarry.induct)
  case (1 c)
  show ?case
  proof (cases "c div 58 = 0")
    case True
    then have "b58_pushCarry (c div 58) = []" "c mod 58 = c" by (simp_all add: b58_pushCarry.simps)
    then show ?thesis using "1.prems" by (simp add: b58_pushCarry.simps [of c])
  next
    case False
    then show ?thesis using 1 by (simp add: b58_pushCarry.simps [of c])
  qed
qed

lemma mulAdd_last:
  "ds \<noteq> [] \<Longrightarrow> last ds \<noteq> 0 \<Longrightarrow> b58_mulAdd ds c \<noteq> [] \<and> last (b58_mulAdd ds c) \<noteq> 0"
proof (induction ds arbitrary: c)
  case Nil
  then show ?case by simp
next
  case (Cons d ds)
  show ?case
  proof (cases "ds = []")
    case True
    let ?v = "c + d * 256"
    have "0 < ?v" using Cons.prems True by simp
    moreover have "b58_mulAdd (d # ds) c = b58_pushCarry ?v"
      using True \<open>0 < ?v\<close> by (simp add: Let_def b58_pushCarry.simps [of ?v])
    ultimately show ?thesis using pushCarry_last by simp
  next
    case False
    then show ?thesis using Cons by (simp add: Let_def)
  qed
qed

lemma val58_ge: "ds \<noteq> [] \<Longrightarrow> last ds \<noteq> 0 \<Longrightarrow> 58 ^ (length ds - 1) \<le> val58 ds"
proof (induction ds)
  case Nil
  then show ?case by simp
next
  case (Cons d ds)
  show ?case
  proof (cases "ds = []")
    case True
    then show ?thesis using Cons.prems by simp
  next
    case False
    then have "58 ^ (length ds - 1) \<le> val58 ds" using Cons by simp
    moreover have "(58::nat) ^ length ds = 58 * 58 ^ (length ds - 1)"
      using False by (cases ds) simp_all
    ultimately show ?thesis by simp
  qed
qed

lemma val58_lt: "\<forall>d\<in>set ds. d < 58 \<Longrightarrow> val58 ds < 58 ^ length ds"
  by (induction ds) auto

lemma foldl_mulAdd_last:
  "ds \<noteq> [] \<Longrightarrow> last ds \<noteq> 0 \<Longrightarrow> foldl b58_mulAdd ds bytes \<noteq> [] \<and> last (foldl b58_mulAdd ds bytes) \<noteq> 0"
proof (induction bytes arbitrary: ds)
  case Nil
  then show ?case by simp
next
  case (Cons b bytes)
  then show ?case using mulAdd_last [of ds b] by simp
qed

lemma b58_digits_last:
  "b58_digits bytes \<noteq> [] \<and> (last (b58_digits bytes) \<noteq> 0 \<or> b58_digits bytes = [0] \<and> (\<forall>b\<in>set bytes. b = 0))"
proof (induction bytes)
  case Nil
  then show ?case by (simp add: b58_digits_def)
next
  case (Cons b bytes)
  show ?case
  proof (cases "b = 0")
    case True
    then have "b58_mulAdd [0] b = [0]" by (simp add: b58_pushCarry.simps)
    then show ?thesis using Cons True by (simp add: b58_digits_def)
  next
    case False
    have "b58_mulAdd [0] b = b58_pushCarry b"
      using False by (simp add: Let_def b58_pushCarry.simps [of b])
    then show ?thesis
      using foldl_mulAdd_last [of "b58_pushCarry b" bytes] pushCarry_last [of b] False
      by (simp add: b58_digits_def)
  qed
qed

lemma val256_ge: "bs \<noteq> [] \<Longrightarrow> hd bs \<noteq> 0 \<Longrightarrow> 256 ^ (length bs - 1) \<le> val256 bs"
  by (cases bs) (auto intro: order_trans [of _ "hd bs * 256 ^ (length bs - 1)"])

lemma val256_leading: "val256 (takeWhile (\<lambda>b. b = 0) bs @ ys) = val256 ys"
  by (induction bs) auto

lemma b58_text_length:
  assumes "length bytes = 32" "\<forall>b\<in>set bytes. b < 256"
  shows "32 \<le> length (b58_text bytes) \<and> length (b58_text bytes) \<le> 44"
proof -
  define z rest k where "z = length (takeWhile (\<lambda>b. b = 0) bytes)"
    and "rest = dropWhile (\<lambda>b. b = 0) bytes" and "k = length (b58_digits bytes)"
  have len: "length (b58_text bytes) = z + k" by (simp add: b58_text_def z_def k_def)
  have zr: "z + length rest = 32"
    using assms(1) by (metis length_append rest_def takeWhile_dropWhile_id z_def)
  have v: "val256 bytes = val256 rest"
    using val256_leading [of bytes rest] by (simp add: rest_def)
  show ?thesis
  proof (cases "rest = []")
    case True
    then have "\<forall>b\<in>set bytes. b = 0" by (simp add: rest_def dropWhile_eq_Nil_conv)
    then have "b58_digits bytes = [0]"
      using val58_ge [of "b58_digits bytes"] b58_digits_last [of bytes] v True
      by (auto simp: b58_digits_facts)
    then show ?thesis using len zr True by (simp add: k_def)
  next
    case False
    then have hd: "hd rest \<noteq> 0" unfolding rest_def by (metis (mono_tags, lifting) hd_dropWhile)
    then have ge: "256 ^ (length rest - 1) \<le> val256 bytes" using val256_ge False v by simp
    then have "0 < val256 bytes" by (metis less_le_trans zero_less_numeral zero_less_power)
    then have dg: "b58_digits bytes \<noteq> []" "last (b58_digits bytes) \<noteq> 0"
      using b58_digits_last [of bytes] b58_digits_facts(1) [of bytes] by auto
    have "(58::nat) ^ (length rest - 1) \<le> 256 ^ (length rest - 1)" by (rule power_mono) simp_all
    also note ge
    also have "val256 bytes < 58 ^ k"
      using val58_lt [of "b58_digits bytes"] b58_digits_facts by (simp add: k_def)
    finally have "length rest - 1 < k" by simp
    then have lower: "32 \<le> z + k" using zr False by (cases rest) auto
    have "58 ^ (k - 1) \<le> val256 bytes"
      using val58_ge [OF dg] by (simp add: k_def b58_digits_facts)
    also have "\<dots> < 256 ^ length rest"
      using val256_lt [of rest] assms(2) v by (auto simp: rest_def dest: set_dropWhileD)
    finally have up: "(58::nat) ^ (k - 1) < 256 ^ length rest" .
    have "z + k \<le> 44"
    proof (rule ccontr)
      assume "\<not> z + k \<le> 44"
      then have "44 - z \<le> k - 1" "z \<le> 44" "44 = (44 - z) + z" using zr by auto
      have "(58::nat) ^ 44 = 58 ^ (44 - z) * 58 ^ z"
        by (subst \<open>44 = (44 - z) + z\<close>) (simp only: power_add)
      also have "\<dots> \<le> 58 ^ (k - 1) * 256 ^ z"
        using \<open>44 - z \<le> k - 1\<close> by (intro mult_le_mono power_increasing power_mono) simp_all
      also have "\<dots> < 256 ^ length rest * 256 ^ z" using up by simp
      also have "\<dots> = 256 ^ 32" using zr by (simp only: power_add [symmetric] add.commute)
      finally show False by simp
    qed
    with lower len show ?thesis by simp
  qed
qed

lemma validateBase58Address_accepts:
  assumes "\<forall>c\<in>set s. c \<in> set ALPHABET" "32 \<le> length s" "length s \<le> 44"
  shows "\<exists>hex. validateBase58Address s = Some hex"
proof -
  obtain bs' where bs': "b58_decodeChars (replicate 32 0) s = Inr bs'" "length bs' = 32"
    using decodeChars_value [OF assms(1), of "replicate 32 0" 32] by auto
  have "length (concat (map hex_byte bs')) = 64"
    using bs'(2) by (simp add: length_concat comp_def sum_list_triv)
  moreover have "s \<noteq> []" using assms(2) by auto
  ultimately show ?thesis
    using bs'(1) assms(2,3) by (simp add: validateBase58Address_def base58ToHex_def)
qed

lemma hexToBase58_value_lt:
  assumes "hexToBase58 hex = Inr s"
  shows "foldl b58_push 0 s < 2 ^ 256"
proof -
  obtain bytes where "length bytes = 32" "\<forall>b\<in>set bytes. b < 256" "s = b58_text bytes"
    using hexToBase58_Inr [OF assms] by metis
  then have "foldl b58_push 0 s < 256 ^ 32"
    using val256_lt [of bytes] b58_text_value [of bytes] by (simp only:)
  also have "(256::nat) ^ 32 = 2 ^ 256" by simp
  finally show ?thesis .
qed

lemma foldl_push_z: "foldl b58_push v (replicate n (CHR ''z'')) + 1 = (v + 1) * 58 ^ n"
proof (induction n arbitrary: v)
  case 0
  then show ?case by simp
next
  case (Suc n)
  have "b58_push v (CHR ''z'') = 58 * v + 57" by (simp add: b58_push_def ALPHABET_def)
  then show ?case using Suc [of "58 * v + 57"] by (simp add: algebra_simps)
qed

subsection \<open>Properties\<close>

text \<open>Base-58 encoding of a 32-byte hexadecimal key is undone by decoding, whatever its leading
  zeros, and an encoded key passes \<open>validateBase58Address\<close>, which returns the key.\<close>

theorem base58_roundtrip:
  assumes "hexToBase58 hex = Inr b58"
  shows "base58ToHex b58 = Inr (hexPayload hex) \<and> validateBase58Address b58 = Some (hexPayload hex)"
proof -
  obtain bytes where b: "length bytes = 32" "\<forall>b\<in>set bytes. b < 256"
      "concat (map hex_byte bytes) = hexPayload hex" "b58 = b58_text bytes"
    using hexToBase58_Inr [OF assms] by metis
  then have dec: "base58ToHex b58 = Inr (hexPayload hex)" using base58ToHex_text by simp
  have "length (concat (map hex_byte bytes)) = 64"
    using b(1) by (simp add: length_concat comp_def sum_list_triv)
  then show ?thesis
    using dec b b58_text_length [OF b(1,2)] by (auto simp: validateBase58Address_def)
qed

theorem base58_roundtrip_witness:
  "\<exists>b. hexToBase58 (replicate 64 (CHR ''7'')) = Inr b \<and> base58ToHex b = Inr (replicate 64 (CHR ''7''))"
proof -
  have "lower_hex_string (replicate 64 (CHR ''7''))"
    by (simp add: lower_hex_string_def hex_value_def HEX_DIGITS_def list_all_iff)
  then obtain b where "hexToBase58 (replicate 64 (CHR ''7'')) = Inr b"
      "hexPayload (replicate 64 (CHR ''7'')) = replicate 64 (CHR ''7'')"
    using hexToBase58_lower_hex by (metis length_replicate)
  then show ?thesis using base58_roundtrip by metis
qed

text \<open>The decoder drops the carry out of the 32nd byte, so \<open>validateBase58Address\<close> accepts text
  that stands for no 32-byte key: it takes 44 times \<open>z\<close>, a number above \<open>2^256\<close>, for a key whose own
  text is different.\<close>

theorem validateBase58Address_accepts_overflow:
  "\<exists>hex. validateBase58Address (replicate 44 (CHR ''z'')) = Some hex \<and>
     2 ^ 256 \<le> foldl b58_push 0 (replicate 44 (CHR ''z'')) \<and>
     hexToBase58 hex \<noteq> Inr (replicate 44 (CHR ''z''))"
proof -
  let ?z = "replicate 44 (CHR ''z'')"
  have "(2::nat) ^ 256 + 1 \<le> 58 ^ 44" by simp
  also have "(58::nat) ^ 44 = foldl b58_push 0 ?z + 1" using foldl_push_z [of 0 44] by simp
  finally have big: "2 ^ 256 \<le> foldl b58_push 0 ?z" by (simp only: add_le_cancel_right)
  have "\<forall>c\<in>set ?z. c \<in> set ALPHABET" by (simp add: ALPHABET_def)
  then obtain hex where hex: "validateBase58Address ?z = Some hex"
    using validateBase58Address_accepts [of ?z] by auto
  have "hexToBase58 hex \<noteq> Inr ?z"
    using hexToBase58_value_lt [of hex ?z] big by (meson leD)
  with hex big show ?thesis by blast
qed

end
