(* ===== verification/JsArrays.thy ===== *)
theory JsArrays
  imports Prelude "HOL-Library.Multiset"
begin

text \<open>
  Array operations of JavaScript that the wallet uses: \<open>sort\<close> with a comparator, \<open>find\<close>, sums by
  \<open>reduce\<close>, and the loop that picks elements until a target is covered. A \<open>number\<close> that the source
  tests with \<open>Number.isInteger\<close> is a \<open>js_num\<close>.
\<close>

subsection \<open>Numbers\<close>

text \<open>An integer, or anything else a \<open>number\<close> can be: a fraction, an infinity, \<open>NaN\<close>.\<close>

datatype js_num = JInt int | JNonInteger

fun isInteger :: "js_num \<Rightarrow> bool" where
  "isInteger (JInt n) = True"
| "isInteger JNonInteger = False"

fun int_of :: "js_num \<Rightarrow> int" where
  "int_of (JInt n) = n"
| "int_of JNonInteger = 0"

text \<open>\<open>Number.isSafeInteger\<close> of a number that is an integer.\<close>

definition MAX_SAFE_INTEGER :: int where "MAX_SAFE_INTEGER = 9007199254740991"

subsection \<open>Sorting\<close>

text \<open>
  \<open>xs.sort(cmp)\<close> and \<open>xs.slice().sort(cmp)\<close>: the stable order of the elements. For a consistent
  comparator the language fixes the result, so any stable sort is a model of it.
\<close>

fun js_insert :: "('a \<Rightarrow> 'a \<Rightarrow> int) \<Rightarrow> 'a \<Rightarrow> 'a list \<Rightarrow> 'a list" where
  "js_insert cmp x [] = [x]"
| "js_insert cmp x (y # ys) = (if cmp x y \<le> 0 then x # y # ys else y # js_insert cmp x ys)"

definition js_sort :: "('a \<Rightarrow> 'a \<Rightarrow> int) \<Rightarrow> 'a list \<Rightarrow> 'a list" where
  "js_sort cmp xs = foldr (js_insert cmp) xs []"

lemma js_sort_Nil [simp]: "js_sort cmp [] = []"
  by (simp add: js_sort_def)

lemma js_sort_Cons [simp]: "js_sort cmp (x # xs) = js_insert cmp x (js_sort cmp xs)"
  by (simp add: js_sort_def)

lemma mset_js_insert [simp]: "mset (js_insert cmp x ys) = add_mset x (mset ys)"
  by (induction ys) auto

lemma mset_js_sort [simp]: "mset (js_sort cmp xs) = mset xs"
  by (induction xs) auto

lemma set_js_sort [simp]: "set (js_sort cmp xs) = set xs"
  by (metis mset_js_sort set_mset_mset)

lemma length_js_sort [simp]: "length (js_sort cmp xs) = length xs"
  by (metis mset_js_sort size_mset)

lemma sum_list_js_sort: "sum_list (map f (js_sort cmp xs)) = sum_list (map (f :: 'a \<Rightarrow> int) xs)"
  by (metis mset_js_sort mset_map sum_mset_sum_list)

lemma distinct_js_sort: "distinct (map f (js_sort cmp xs)) \<longleftrightarrow> distinct (map f xs)"
  by (metis mset_js_sort mset_map mset_eq_imp_distinct_iff)

lemma mset_filter_mono: "(\<And>x. P x \<Longrightarrow> Q x) \<Longrightarrow> mset (filter P xs) \<subseteq># mset (filter Q xs)"
proof (induction xs)
  case Nil
  then show ?case by simp
next
  case (Cons x xs)
  then have "mset (filter P xs) \<subseteq># mset (filter Q xs)" by blast
  then show ?case using Cons.prems [of x]
    by (cases "P x"; cases "Q x") (auto intro: subset_mset.order_trans [of _ "mset (filter Q xs)"])
qed

lemma mset_filter_sub: "mset (filter P xs) \<subseteq># mset xs"
  by (simp add: multiset_filter_subset)

text \<open>A consistent comparator orders the elements by a total preorder.\<close>

locale comparator =
  fixes cmp :: "'a \<Rightarrow> 'a \<Rightarrow> int"
  assumes cmp_total: "cmp x y \<le> 0 \<or> cmp y x \<le> 0"
    and cmp_trans: "cmp x y \<le> 0 \<Longrightarrow> cmp y z \<le> 0 \<Longrightarrow> cmp x z \<le> 0"
begin

abbreviation ordered :: "'a list \<Rightarrow> bool" where
  "ordered \<equiv> sorted_wrt (\<lambda>x y. cmp x y \<le> 0)"

lemma ordered_insert: "ordered ys \<Longrightarrow> ordered (js_insert cmp x ys)"
proof (induction ys)
  case Nil
  then show ?case by simp
next
  case (Cons y ys)
  show ?case
  proof (cases "cmp x y \<le> 0")
    case True
    then show ?thesis using Cons.prems cmp_trans by auto
  next
    case False
    have "z \<in> set (js_insert cmp x ys) \<Longrightarrow> z = x \<or> z \<in> set ys" for z
      using mset_js_insert [of cmp x ys] by (metis insert_iff set_mset_add_mset_insert set_mset_mset)
    then show ?thesis using False Cons cmp_total [of x y] by auto
  qed
qed

lemma ordered_sort: "ordered (js_sort cmp xs)"
  by (induction xs) (simp_all add: ordered_insert)

lemma sort_ordered_id: "ordered xs \<Longrightarrow> js_sort cmp xs = xs"
proof (induction xs)
  case Nil
  then show ?case by simp
next
  case (Cons x xs)
  then show ?case by (cases xs) auto
qed

text \<open>Elements that compare equal keep the order they had.\<close>

lemma stable_insert:
  assumes "ordered ys"
  shows "filter (\<lambda>y. cmp k y \<le> 0 \<and> cmp y k \<le> 0) (js_insert cmp x ys)
       = filter (\<lambda>y. cmp k y \<le> 0 \<and> cmp y k \<le> 0) (x # ys)"
  using assms
proof (induction ys)
  case Nil
  then show ?case by simp
next
  case (Cons y ys)
  then show ?case using cmp_trans [of x k y] by auto
qed

lemma stable_sort:
  "filter (\<lambda>y. cmp k y \<le> 0 \<and> cmp y k \<le> 0) (js_sort cmp xs) = filter (\<lambda>y. cmp k y \<le> 0 \<and> cmp y k \<le> 0) xs"
  by (induction xs) (simp_all add: stable_insert ordered_sort)

end

text \<open>\<open>(a, b) => f(b) - f(a)\<close>: largest first.\<close>

definition descending :: "('a \<Rightarrow> int) \<Rightarrow> 'a \<Rightarrow> 'a \<Rightarrow> int" where
  "descending f a b = f b - f a"

interpretation desc: comparator "descending f" for f
  by unfold_locales (auto simp: descending_def)

subsection \<open>Searching and summing\<close>

text \<open>\<open>xs.find(p)\<close> is the \<open>List.find\<close> of the library.\<close>

lemma find_Some: "List.find p xs = Some x \<Longrightarrow> x \<in> set xs \<and> p x"
  by (auto simp: find_Some_iff)

lemma find_None: "List.find p xs = None \<longleftrightarrow> (\<forall>x\<in>set xs. \<not> p x)"
  by (auto simp: find_None_iff)

text \<open>
  The loops \<open>for (const u of xs) { if (acc >= need) break; picked.push(u); acc += f(u); }\<close> of the
  coin selections: the elements picked.
\<close>

fun pick_until :: "('a \<Rightarrow> int) \<Rightarrow> int \<Rightarrow> int \<Rightarrow> 'a list \<Rightarrow> 'a list" where
  "pick_until f need acc [] = []"
| "pick_until f need acc (u # us) = (if acc \<ge> need then [] else u # pick_until f need (acc + f u) us)"

lemma set_pick_until: "set (pick_until f need acc us) \<subseteq> set us"
  by (induction us arbitrary: acc) auto

lemma pick_until_prefix: "\<exists>rest. us = pick_until f need acc us @ rest"
  by (induction us arbitrary: acc) auto

lemma pick_until_covers:
  "(\<forall>u\<in>set us. 0 \<le> f u) \<Longrightarrow>
   need \<le> acc + sum_list (map f (pick_until f need acc us)) \<longleftrightarrow> need \<le> acc + sum_list (map f us)"
proof (induction us arbitrary: acc)
  case Nil
  then show ?case by simp
next
  case (Cons u us)
  have "0 \<le> sum_list (map f (u # us))" using Cons.prems by (intro sum_list_nonneg) auto
  then show ?case using Cons.IH [of "acc + f u"] Cons.prems by (auto simp: add.assoc)
qed

lemma pick_until_short:
  "\<not> need \<le> acc + sum_list (map f (pick_until f need acc us)) \<Longrightarrow> pick_until f need acc us = us"
  by (induction us arbitrary: acc) (auto simp: add.assoc split: if_splits)

text \<open>Without its last element the pick would not have been enough.\<close>

lemma pick_until_minimal:
  "pick_until f need acc us \<noteq> [] \<Longrightarrow> acc + sum_list (map f (butlast (pick_until f need acc us))) < need"
proof (induction us arbitrary: acc)
  case Nil
  then show ?case by simp
next
  case (Cons u us)
  then show ?case
    using Cons.IH [of "acc + f u"]
    by (cases "pick_until f need (acc + f u) us = []") (auto simp: add.assoc split: if_splits)
qed

lemma distinct_pick_until: "distinct us \<Longrightarrow> distinct (pick_until f need acc us)"
  by (metis pick_until_prefix distinct_append)

end
