(* ===== verification/JsNumbers.thy ===== *)
theory JsNumbers
  imports JsStrings JsArrays
begin

text \<open>
  JavaScript's conversions from text to numbers: \<open>BigInt(s)\<close>, which throws a \<open>SyntaxError\<close> on
  anything that is not an integer literal, and \<open>Number(s)\<close>. An integer \<open>Number\<close> is kept exact; a
  literal beyond the safe integers, which the language would round, is outside of this model.
\<close>

subsection \<open>Digits in a base\<close>

text \<open>The value of a digit up to 15, whatever its case.\<close>

definition digit_value :: "char \<Rightarrow> nat option" where
  "digit_value c = hex_value (lower_char c)"

definition is_digits :: "nat \<Rightarrow> string \<Rightarrow> bool" where
  "is_digits base s \<longleftrightarrow> s \<noteq> [] \<and>
     list_all (\<lambda>c. case digit_value c of Some d \<Rightarrow> d < base | None \<Rightarrow> False) s"

definition digits_value :: "nat \<Rightarrow> string \<Rightarrow> nat" where
  "digits_value base s = foldl (\<lambda>v c. base * v + (case digit_value c of Some d \<Rightarrow> d | None \<Rightarrow> 0)) 0 s"

text \<open>\<open>0x\<close>, \<open>0o\<close> and \<open>0b\<close> literals; they take no sign.\<close>

definition prefix_base :: "string \<Rightarrow> nat option" where
  "prefix_base s =
     (if js_lower (take 2 s) = ''0x'' then Some 16
      else if js_lower (take 2 s) = ''0o'' then Some 8
      else if js_lower (take 2 s) = ''0b'' then Some 2
      else None)"

definition split_sign :: "string \<Rightarrow> bool \<times> string" where
  "split_sign s = (case s of
       [] \<Rightarrow> (False, [])
     | c # cs \<Rightarrow> if c = CHR ''-'' then (True, cs) else if c = CHR ''+'' then (False, cs) else (False, s))"

definition signed :: "bool \<Rightarrow> int \<Rightarrow> int" where
  "signed neg v = (if neg then - v else v)"

subsection \<open>BigInt\<close>

definition js_BigInt :: "string \<Rightarrow> int option" where
  "js_BigInt s =
     (let t = js_trim s in
      if t = [] then Some 0
      else case prefix_base t of
        Some base \<Rightarrow> if is_digits base (drop 2 t) then Some (int (digits_value base (drop 2 t))) else None
      | None \<Rightarrow> (case split_sign t of (neg, ds) \<Rightarrow>
          if is_digits 10 ds then Some (signed neg (int (digits_value 10 ds))) else None))"

subsection \<open>Number\<close>

text \<open>\<open>digits[.digits][e[sign]digits]\<close> without a sign: mantissa digits, fraction digits, exponent.\<close>

definition split_at_char :: "char \<Rightarrow> string \<Rightarrow> string \<times> string option" where
  "split_at_char c s =
     (let r = dropWhile (\<lambda>x. x \<noteq> c) s
      in (takeWhile (\<lambda>x. x \<noteq> c) s, if r = [] then None else Some (tl r)))"

definition decimal_number :: "string \<Rightarrow> js_num" where
  "decimal_number s =
     (case split_at_char (CHR ''e'') (js_lower s) of (m, ex) \<Rightarrow>
      case split_at_char (CHR ''.'') m of (ip, fp) \<Rightarrow>
      let frac = (case fp of None \<Rightarrow> [] | Some f \<Rightarrow> f);
          ds = ip @ frac;
          esplit = (case ex of None \<Rightarrow> (False, ''0'') | Some e \<Rightarrow> split_sign e);
          e = signed (fst esplit) (int (digits_value 10 (snd esplit))) - int (length frac);
          v = int (digits_value 10 ds)
      in if \<not> is_digits 10 ds \<or> \<not> is_digits 10 (snd esplit) then JNonInteger
         else if 0 \<le> e then JInt (v * 10 ^ nat e)
         else if v mod 10 ^ nat (- e) = 0 then JInt (v div 10 ^ nat (- e))
         else JNonInteger)"

definition js_Number :: "string \<Rightarrow> js_num" where
  "js_Number s =
     (let t = js_trim s in
      if t = [] then JInt 0
      else case prefix_base t of
        Some base \<Rightarrow> if is_digits base (drop 2 t) then JInt (int (digits_value base (drop 2 t))) else JNonInteger
      | None \<Rightarrow> (case split_sign t of (neg, ds) \<Rightarrow>
          (case decimal_number ds of JInt v \<Rightarrow> JInt (signed neg v) | JNonInteger \<Rightarrow> JNonInteger)))"

subsection \<open>Decimal text is read back\<close>

lemma dec_digit: "dec_value c = Some d \<Longrightarrow> digit_value c = Some d \<and> d < 10 \<and> \<not> is_js_space c"
proof -
  assume d: "dec_value c = Some d"
  then have "d < 10" "DEC_DIGITS ! d = c"
    using index_of_Some [of DEC_DIGITS c d] by (auto simp: dec_value_def DEC_DIGITS_facts)
  then have "c = HEX_DIGITS ! d" by (auto simp: DEC_DIGITS_def HEX_DIGITS_def less_Suc_eq numeral_eq_Suc)
  then have "hex_value c = Some d"
    using index_of_nth [of HEX_DIGITS d] \<open>d < 10\<close> by (simp add: hex_value_def HEX_DIGITS_facts)
  then show ?thesis using \<open>d < 10\<close> hex_char_not_upper [of c d] by (simp add: digit_value_def)
qed

lemma digits_value_dec: "list_all (\<lambda>c. dec_value c \<noteq> None) s \<Longrightarrow> digits_value 10 s = read_nat s"
proof -
  assume "list_all (\<lambda>c. dec_value c \<noteq> None) s"
  then have "foldl (\<lambda>v c. 10 * v + (case digit_value c of Some d \<Rightarrow> d | None \<Rightarrow> 0)) n s
      = foldl (\<lambda>v c. 10 * v + (case dec_value c of Some d \<Rightarrow> d | None \<Rightarrow> 0)) n s" for n
    by (induction s arbitrary: n) (auto simp: dec_digit)
  then show ?thesis by (simp add: digits_value_def read_nat_def)
qed

lemma is_digits_dec: "dec_string s \<Longrightarrow> is_digits 10 s"
  by (auto simp: dec_string_def is_digits_def list_all_iff dest!: dec_digit split: option.splits)

lemma dec_string_chars:
  assumes "dec_string s" "c \<in> set s"
  shows "\<not> is_js_space c \<and> lower_char c = c \<and> c \<in> set DEC_DIGITS"
proof -
  obtain d where d: "dec_value c = Some d" using assms by (auto simp: dec_string_def list_all_iff)
  then have "c \<in> set DEC_DIGITS" by (metis dec_value_def index_of_None_iff option.distinct(1))
  moreover have "hex_value (lower_char c) = Some d" using d dec_digit [of c d] by (simp add: digit_value_def)
  ultimately show ?thesis using dec_digit [OF d] by (auto simp: DEC_DIGITS_def lower_char_def char_code_def)
qed

lemma dec_trim: "dec_string s \<Longrightarrow> js_trim s = s"
  using dec_string_chars [of s "hd s"] dec_string_chars [of s "last s"]
  by (intro js_trim_id) (auto simp: dec_string_def)

lemma dec_no_prefix: "dec_string s \<Longrightarrow> prefix_base s = None \<and> split_sign s = (False, s)"
proof -
  assume s: "dec_string s"
  have c: "lower_char c = c \<and> c \<in> set DEC_DIGITS" if "c \<in> set s" for c
    using dec_string_chars [OF s that] by simp
  then show ?thesis
  proof (cases s)
    case Nil
    then show ?thesis using s by (simp add: dec_string_def)
  next
    case (Cons a t)
    then have "a \<noteq> CHR ''-''" "a \<noteq> CHR ''+''" using c [of a] by (auto simp: DEC_DIGITS_def)
    moreover have "js_lower (take 2 s) \<noteq> [CHR ''0'', z]" if "z \<notin> set DEC_DIGITS" for z
      using c Cons that by (cases t) (auto simp: js_lower_def)
    then have "prefix_base s = None" by (auto simp: prefix_base_def DEC_DIGITS_def)
    ultimately show ?thesis using Cons by (simp add: split_sign_def)
  qed
qed

lemma js_BigInt_dec: "dec_string s \<Longrightarrow> js_BigInt s = Some (int (read_nat s))"
  using dec_trim [of s] dec_no_prefix [of s] is_digits_dec [of s] digits_value_dec [of s]
  by (auto simp: js_BigInt_def Let_def dec_string_def signed_def)

lemma js_BigInt_show: "js_BigInt (show_nat n) = Some (int n)"
  by (simp add: js_BigInt_dec show_nat_dec)

end
