(* ===== verification/Signature.thy ===== *)
theory Signature
  imports Hex Base58 JsNumbers
begin

text \<open>
  \<open>packages/arch-swap-engine/src/lib/arch/signature.ts\<close>: the signatures that wallets return (hex or
  base64; compact, DER, or inside a witness stack) brought to 64 bytes with a low \<open>s\<close>.
\<close>

datatype signature_error = NotBase64OrHex | UnexpectedSignatureLength nat

subsection \<open>Text to bytes\<close>

definition B64_ALPHABET :: string where
  "B64_ALPHABET = ''ABCDEFGHIJKLMNOPQRSTUVWXYZabcdefghijklmnopqrstuvwxyz0123456789+/''"

text \<open>
  \<open>atob\<close>: ASCII white space is dropped, up to two \<open>=\<close> at the end of text whose length is a multiple
  of four are dropped, and then only characters of the alphabet may remain, not one more than a
  multiple of four.
\<close>

fun b64_groups :: "nat list \<Rightarrow> nat list" where
  "b64_groups (a # b # c # d # s) =
     (a * 4 + b div 16) # (b mod 16 * 16 + c div 4) # (c mod 4 * 64 + d) # b64_groups s"
| "b64_groups [a, b, c] = [a * 4 + b div 16, b mod 16 * 16 + c div 4]"
| "b64_groups [a, b] = [a * 4 + b div 16]"
| "b64_groups s = []"

definition strip_padding :: "string \<Rightarrow> string" where
  "strip_padding s =
     (if length s mod 4 \<noteq> 0 then s
      else if 2 \<le> length s \<and> drop (length s - 2) s = ''=='' then take (length s - 2) s
      else if 1 \<le> length s \<and> drop (length s - 1) s = ''='' then take (length s - 1) s
      else s)"

definition decodeBase64 :: "string \<Rightarrow> byte list option" where
  "decodeBase64 input =
     (let s = strip_padding (filter (\<lambda>c. char_code c \<notin> {9, 10, 12, 13, 32}) input)
      in if length s mod 4 = 1 \<or> \<not> list_all (\<lambda>c. index_of B64_ALPHABET c \<noteq> None) s then None
         else Some (map word_of_nat (b64_groups (map (\<lambda>c. the (index_of B64_ALPHABET c)) s))))"

text \<open>
  \<open>parseInt(pair, 16)\<close> stored in a byte: \<open>NaN\<close> becomes 0. The only pair that is no number here is a
  leading \<open>0x\<close>.
\<close>

definition hexPair :: "char \<Rightarrow> char \<Rightarrow> byte" where
  "hexPair a b =
     (case digit_value a of
        None \<Rightarrow> 0
      | Some m \<Rightarrow> (case digit_value b of
          Some n \<Rightarrow> word_of_nat (16 * m + n)
        | None \<Rightarrow> if a = CHR ''0'' \<and> lower_char b = CHR ''x'' then 0 else word_of_nat m))"

fun decodeHex :: "string \<Rightarrow> byte list" where
  "decodeHex (a # b # s) = hexPair a b # decodeHex s"
| "decodeHex s = []"

definition decodeRawWalletSignature :: "string \<Rightarrow> signature_error + byte list" where
  "decodeRawWalletSignature raw =
     (if isHex raw then Inr (decodeHex raw)
      else case decodeBase64 raw of Some bs \<Rightarrow> Inr bs | None \<Rightarrow> Inl NotBase64OrHex)"

subsection \<open>Low s\<close>

definition SECP256K1_CURVE_ORDER :: int where
  "SECP256K1_CURVE_ORDER = 0xfffffffffffffffffffffffffffffffebaaedce6af48a03bbfd25e8cd0364141"

definition SECP256K1_CURVE_HALF_ORDER :: int where
  "SECP256K1_CURVE_HALF_ORDER = drop_bit 1 SECP256K1_CURVE_ORDER"

definition bytesToBigInt :: "byte list \<Rightarrow> int" where
  "bytesToBigInt bytes = (if bytes = [] then 0 else int (digits_value 16 (bytesToHex bytes)))"

definition bigIntToFixed32Bytes :: "int \<Rightarrow> byte list" where
  "bigIntToFixed32Bytes value = decodeHex (padStart 64 (CHR ''0'') (show_hex (nat value)))"

definition normalizeCompactSignatureLowS :: "byte list \<Rightarrow> byte list" where
  "normalizeCompactSignatureLowS signature =
     (if length signature \<noteq> 64 then signature
      else
        let r = take 32 signature;
            s = drop 32 signature;
            sBigInt = bytesToBigInt s
        in if sBigInt = 0 \<or> sBigInt \<ge> SECP256K1_CURVE_ORDER then signature
           else if sBigInt > SECP256K1_CURVE_HALF_ORDER
           then r @ bigIntToFixed32Bytes (SECP256K1_CURVE_ORDER - sBigInt)
           else signature)"

fun trimLeadingZeros :: "byte list \<Rightarrow> byte list" where
  "trimLeadingZeros (b # c # bs) = (if b = 0 then trimLeadingZeros (c # bs) else b # c # bs)"
| "trimLeadingZeros bs = bs"

subsection \<open>Witness stacks\<close>

text \<open>The value and the offset after it; the four-byte form is a signed 32-bit number.\<close>

definition readCompactSize :: "byte list \<Rightarrow> nat \<Rightarrow> (int \<times> nat) option" where
  "readCompactSize bytes offset =
     (if offset \<ge> length bytes then None
      else
        let b = (\<lambda>i. uint (bytes ! (offset + i)))
        in if b 0 < 0xfd then Some (b 0, offset + 1)
           else if b 0 = 0xfd
           then if offset + 2 \<ge> length bytes then None
                else Some (b 1 OR push_bit 8 (b 2), offset + 3)
           else if b 0 = 0xfe
           then if offset + 4 \<ge> length bytes then None
                else Some (toInt32 (b 1 OR push_bit 8 (b 2) OR push_bit 16 (b 3) OR push_bit 24 (b 4)), offset + 5)
           else None)"

fun witnessItems :: "byte list \<Rightarrow> nat \<Rightarrow> nat \<Rightarrow> (byte list list \<times> nat) option" where
  "witnessItems bytes offset 0 = Some ([], offset)"
| "witnessItems bytes offset (Suc n) =
     (case readCompactSize bytes offset of
        None \<Rightarrow> None
      | Some (value, nextOffset) \<Rightarrow>
          if value < 0 \<or> int nextOffset + value > int (length bytes) then None
          else (case witnessItems bytes (nextOffset + nat value) n of
                  None \<Rightarrow> None
                | Some (items, stop) \<Rightarrow> Some (slice bytes nextOffset (nextOffset + nat value) # items, stop)))"

definition parseWitnessStack :: "byte list \<Rightarrow> byte list list option" where
  "parseWitnessStack bytes =
     (case readCompactSize bytes 0 of
        None \<Rightarrow> None
      | Some (value, nextOffset) \<Rightarrow>
          if value \<le> 0 \<or> value > 16 then None
          else (case witnessItems bytes nextOffset (nat value) of
                  None \<Rightarrow> None
                | Some (items, stop) \<Rightarrow> if stop = length bytes then Some items else None))"

definition getWalletWitnessSignatureItem :: "string \<Rightarrow> signature_error + byte list option" where
  "getWalletWitnessSignatureItem raw =
     rbind (decodeRawWalletSignature raw) (\<lambda>bytes. Inr
       (case parseWitnessStack bytes of
          None \<Rightarrow> None
        | Some [] \<Rightarrow> None
        | Some (item # items) \<Rightarrow> Some item))"

definition getWalletWitnessPubkey :: "string \<Rightarrow> signature_error + string option" where
  "getWalletWitnessPubkey raw =
     rbind (decodeRawWalletSignature raw) (\<lambda>bytes. Inr
       (case parseWitnessStack bytes of
          None \<Rightarrow> None
        | Some items \<Rightarrow>
            if length items < 2 then None
            else let pubkey = items ! 1
                 in if length pubkey = 32 then Some (bytesToHex pubkey)
                    else if length pubkey = 33 \<and> (pubkey ! 0 = 0x02 \<or> pubkey ! 0 = 0x03) then Some (bytesToHex pubkey)
                    else None))"

subsection \<open>DER and payloads\<close>

definition decodeDerBody :: "byte list \<Rightarrow> byte list option" where
  "decodeDerBody der =
     (if der ! 2 \<noteq> 0x02 then None
      else
        let rLength = unat (der ! 3)
        in if rLength \<le> 0 \<or> 4 + rLength > length der then None
           else if at_opt der (4 + rLength) \<noteq> Some 0x02 then None
           else (case at_opt der (5 + rLength) of
                   None \<Rightarrow> None
                 | Some l \<Rightarrow>
                     let sLength = unat l
                     in if sLength \<le> 0 \<or> 6 + rLength + sLength \<noteq> length der then None
                        else
                          let r = trimLeadingZeros (slice der 4 (4 + rLength));
                              s = trimLeadingZeros (slice der (6 + rLength) (6 + rLength + sLength))
                          in if length r > 32 \<or> length s > 32 then None
                             else Some (normalizeCompactSignatureLowS
                               (replicate (32 - length r) 0 @ r @ replicate (32 - length s) 0 @ s))))"

definition decodeDerSignatureToCompact :: "byte list \<Rightarrow> byte list option" where
  "decodeDerSignatureToCompact signature =
     (if length signature < 8 \<or> signature ! 0 \<noteq> 0x30 then None
      else
        let expectedLength = unat (signature ! 1) + 2
        in if length signature = expectedLength + 1 then decodeDerBody (take expectedLength signature)
           else if length signature \<noteq> expectedLength then None
           else decodeDerBody signature)"

definition decodeSignaturePayload :: "byte list \<Rightarrow> byte list option" where
  "decodeSignaturePayload payload =
     (if length payload = 64 then Some (normalizeCompactSignatureLowS payload)
      else if length payload = 65
      then (case decodeDerSignatureToCompact payload of
              Some der \<Rightarrow> Some der
            | None \<Rightarrow> Some (normalizeCompactSignatureLowS (take 64 payload)))
      else if length payload > 65
      then (case decodeDerSignatureToCompact payload of
              Some der \<Rightarrow> Some der
            | None \<Rightarrow>
                let first = unat (payload ! 0); second = unat (payload ! 1)
                in if first \<ge> 1 \<and> first \<le> 4 \<and>
                      ((second = 65 \<and> length payload \<ge> 67) \<or> (second = 64 \<and> length payload \<ge> 66))
                   then Some (normalizeCompactSignatureLowS (slice payload 2 66))
                   else if length payload \<ge> 66 then Some (normalizeCompactSignatureLowS (slice payload 2 66))
                   else Some (normalizeCompactSignatureLowS (take 64 payload)))
      else None)"

definition decodeWalletSignature :: "string \<Rightarrow> signature_error + byte list" where
  "decodeWalletSignature raw =
     rbind (decodeRawWalletSignature raw) (\<lambda>bytes.
       let fromWitness = (case parseWitnessStack bytes of
             Some (item # items) \<Rightarrow> decodeSignaturePayload item
           | _ \<Rightarrow> None)
       in case fromWitness of
            Some sig \<Rightarrow> Inr sig
          | None \<Rightarrow> (case decodeSignaturePayload bytes of
              Some sig \<Rightarrow> Inr sig
            | None \<Rightarrow> Inl (UnexpectedSignatureLength (length bytes))))"

subsection \<open>Big-endian values\<close>

definition beVal :: "byte list \<Rightarrow> nat" where
  "beVal bs = foldl (\<lambda>v b. 256 * v + unat b) 0 bs"

definition digit_step :: "nat \<Rightarrow> nat \<Rightarrow> char \<Rightarrow> nat" where
  "digit_step base v c = base * v + (case digit_value c of Some d \<Rightarrow> d | None \<Rightarrow> 0)"

lemma digits_value_fold: "digits_value base s = foldl (digit_step base) 0 s"
  by (simp add: digits_value_def digit_step_def [abs_def])

lemma digit_value_hex [simp]: "n < 16 \<Longrightarrow> digit_value (hex_char n) = Some n"
  using hex_char_not_upper [of "hex_char n" n] by (simp add: digit_value_def)

lemma digit_value_lt: "digit_value c = Some n \<Longrightarrow> n < 16"
  by (auto simp: digit_value_def dest: hex_value_lt)

lemma hexPair_digits: "digit_value a = Some m \<Longrightarrow> digit_value b = Some n \<Longrightarrow> unat (hexPair a b) = 16 * m + n"
proof -
  assume d: "digit_value a = Some m" "digit_value b = Some n"
  then have "16 * m + n < 256" using digit_value_lt [of a m] digit_value_lt [of b n] by linarith
  then have "unat (word_of_nat (16 * m + n) :: byte) = 16 * m + n" by (simp only: unat_of_nat) simp
  then show ?thesis using d by (simp add: hexPair_def)
qed

definition hexDigits :: "string \<Rightarrow> bool" where
  "hexDigits s \<longleftrightarrow> list_all (\<lambda>c. digit_value c \<noteq> None) s"

lemma fold_decodeHex:
  "hexDigits s \<Longrightarrow> even (length s) \<Longrightarrow>
   foldl (digit_step 16) v s = foldl (\<lambda>v b. 256 * v + unat b) v (decodeHex s)"
proof (induction s arbitrary: v rule: decodeHex.induct)
  case (1 a b s)
  then obtain m n where "digit_value a = Some m" "digit_value b = Some n" by (auto simp: hexDigits_def)
  moreover from this have "unat (hexPair a b) = 16 * m + n" by (rule hexPair_digits)
  ultimately show ?case using 1 by (simp add: digit_step_def hexDigits_def algebra_simps)
qed auto

lemma beVal_decodeHex: "hexDigits s \<Longrightarrow> even (length s) \<Longrightarrow> beVal (decodeHex s) = digits_value 16 s"
  by (simp add: beVal_def digits_value_fold fold_decodeHex)

lemma decodeHex_bytesToHex: "decodeHex (bytesToHex bs) = bs"
proof (induction bs)
  case Nil
  then show ?case by (simp add: bytesToHex_def)
next
  case (Cons b bs)
  have d: "unat b div 16 < 16" "unat b mod 16 < 16"
    using unat_byte_lt [of b] by (simp_all add: div_less_iff_less_mult)
  then have "unat (hexPair (hex_char (unat b div 16)) (hex_char (unat b mod 16))) = unat b"
    by (simp add: hexPair_digits)
  then have "hexPair (hex_char (unat b div 16)) (hex_char (unat b mod 16)) = b" by (simp add: word_unat_eq_iff)
  then show ?case using Cons by (simp add: bytesToHex_def hex_byte_def)
qed

lemma hexDigits_bytesToHex: "hexDigits (bytesToHex bs)"
proof (induction bs)
  case Nil
  then show ?case by (simp add: bytesToHex_def hexDigits_def)
next
  case (Cons b bs)
  moreover have "unat b div 16 < 16" using unat_byte_lt [of b] by (simp add: div_less_iff_less_mult)
  ultimately show ?case by (simp add: bytesToHex_def hexDigits_def hex_byte_def)
qed

lemma bytesToBigInt_eq: "bytesToBigInt bs = int (beVal bs)"
  using beVal_decodeHex [OF hexDigits_bytesToHex, of bs]
  by (auto simp: bytesToBigInt_def decodeHex_bytesToHex length_bytesToHex beVal_def)

lemma show_hex_facts: "hexDigits (show_hex n) \<and> digits_value 16 (show_hex n) = n"
proof (induction n rule: show_hex.induct)
  case (1 n)
  show ?case
  proof (cases "n < 16")
    case True
    then show ?thesis by (subst (1 2) show_hex.simps) (simp add: hexDigits_def digits_value_def)
  next
    case False
    then show ?thesis using 1
      by (subst (1 2) show_hex.simps) (simp add: hexDigits_def digits_value_fold digit_step_def)
  qed
qed

lemma length_show_hex: "n < 16 ^ k \<Longrightarrow> 0 < k \<Longrightarrow> length (show_hex n) \<le> k"
proof (induction k arbitrary: n)
  case 0
  then show ?case by simp
next
  case (Suc k)
  show ?case
  proof (cases "n < 16")
    case True
    then show ?thesis by (subst show_hex.simps) simp
  next
    case False
    then have "0 < k" using Suc.prems by (cases k) auto
    moreover have "n div 16 < 16 ^ k" using Suc.prems by (simp add: less_mult_imp_div_less mult.commute)
    ultimately show ?thesis using Suc.IH False by (subst show_hex.simps) simp
  qed
qed

lemma digit_value_0: "digit_value (CHR ''0'') = Some 0"
  by (simp add: digit_value_def hex_value_def HEX_DIGITS_def lower_char_def char_code_def)

lemma padStart_facts:
  assumes "length s \<le> n" "hexDigits s"
  shows "length (padStart n (CHR ''0'') s) = n \<and> hexDigits (padStart n (CHR ''0'') s)
    \<and> digits_value 16 (padStart n (CHR ''0'') s) = digits_value 16 s"
proof -
  have "foldl (digit_step 16) 0 (replicate k (CHR ''0'') @ s) = foldl (digit_step 16) 0 s" for k
    by (induction k) (simp_all add: digit_step_def digit_value_0)
  then show ?thesis
    using assms by (auto simp: padStart_def hexDigits_def digits_value_fold digit_value_0 list_all_iff)
qed

lemma length_decodeHex: "length (decodeHex s) = length s div 2"
  by (induction s rule: decodeHex.induct) auto

lemma bigIntToFixed32Bytes_facts:
  assumes "0 \<le> v" "v < 2 ^ 256"
  shows "length (bigIntToFixed32Bytes v) = 32 \<and> int (beVal (bigIntToFixed32Bytes v)) = v"
proof -
  have "nat v < 2 ^ 256" using assms by (simp add: nat_less_iff)
  also have "(2 :: nat) ^ 256 = 16 ^ 64" by simp
  finally have "length (show_hex (nat v)) \<le> 64" by (intro length_show_hex) simp_all
  then have p: "length (padStart 64 (CHR ''0'') (show_hex (nat v))) = 64"
    "hexDigits (padStart 64 (CHR ''0'') (show_hex (nat v)))"
    "digits_value 16 (padStart 64 (CHR ''0'') (show_hex (nat v))) = nat v"
    using padStart_facts show_hex_facts by metis+
  then show ?thesis
    using assms beVal_decodeHex [OF p(2)] by (simp add: bigIntToFixed32Bytes_def length_decodeHex)
qed

subsection \<open>Normalization\<close>

definition rPart :: "byte list \<Rightarrow> byte list" where "rPart sig = take 32 sig"
definition sValue :: "byte list \<Rightarrow> int" where "sValue sig = int (beVal (drop 32 sig))"

lemma half_order: "SECP256K1_CURVE_ORDER = 2 * SECP256K1_CURVE_HALF_ORDER + 1"
  by (simp add: SECP256K1_CURVE_HALF_ORDER_def SECP256K1_CURVE_ORDER_def drop_bit_eq_div)

lemma order_lt: "SECP256K1_CURVE_ORDER < 2 ^ 256"
  by (simp add: SECP256K1_CURVE_ORDER_def)

lemma normalize_length: "length (normalizeCompactSignatureLowS sig) = length sig"
proof (cases "length sig = 64 \<and> 0 < sValue sig \<and> sValue sig < SECP256K1_CURVE_ORDER")
  case True
  then have "length (bigIntToFixed32Bytes (SECP256K1_CURVE_ORDER - sValue sig)) = 32"
    using bigIntToFixed32Bytes_facts [of "SECP256K1_CURVE_ORDER - sValue sig"] order_lt by linarith
  then show ?thesis using True
    by (simp add: normalizeCompactSignatureLowS_def Let_def bytesToBigInt_eq sValue_def)
next
  case False
  then show ?thesis
    by (auto simp: normalizeCompactSignatureLowS_def Let_def bytesToBigInt_eq sValue_def)
qed

lemma normalize_spec:
  assumes "length sig = 64"
  shows "rPart (normalizeCompactSignatureLowS sig) = rPart sig
    \<and> sValue (normalizeCompactSignatureLowS sig) =
       (if SECP256K1_CURVE_HALF_ORDER < sValue sig \<and> sValue sig < SECP256K1_CURVE_ORDER
        then SECP256K1_CURVE_ORDER - sValue sig else sValue sig)"
proof (cases "SECP256K1_CURVE_HALF_ORDER < sValue sig \<and> sValue sig < SECP256K1_CURVE_ORDER")
  case True
  have half: "0 \<le> SECP256K1_CURVE_HALF_ORDER" by (simp add: SECP256K1_CURVE_HALF_ORDER_def SECP256K1_CURVE_ORDER_def)
  then have b: "int (beVal (bigIntToFixed32Bytes (SECP256K1_CURVE_ORDER - sValue sig))) = SECP256K1_CURVE_ORDER - sValue sig"
    using bigIntToFixed32Bytes_facts [of "SECP256K1_CURVE_ORDER - sValue sig"] order_lt True by linarith
  have "normalizeCompactSignatureLowS sig = take 32 sig @ bigIntToFixed32Bytes (SECP256K1_CURVE_ORDER - sValue sig)"
    using True half assms by (simp add: normalizeCompactSignatureLowS_def Let_def bytesToBigInt_eq sValue_def)
  then show ?thesis using b True assms by (simp add: rPart_def sValue_def)
next
  case False
  then have "normalizeCompactSignatureLowS sig = sig"
    by (auto simp: normalizeCompactSignatureLowS_def Let_def bytesToBigInt_eq sValue_def)
  then show ?thesis unfolding if_not_P [OF False] by simp
qed

definition lowS :: "byte list \<Rightarrow> bool" where
  "lowS sig \<longleftrightarrow> length sig = 64 \<and>
     (sValue sig \<le> SECP256K1_CURVE_HALF_ORDER \<or> SECP256K1_CURVE_ORDER \<le> sValue sig)"

lemma normalize_lowS: "length sig = 64 \<Longrightarrow> lowS (normalizeCompactSignatureLowS sig)"
  using normalize_spec [of sig] half_order by (auto simp: lowS_def normalize_length)

lemma decodeDerBody_lowS: "decodeDerBody der = Some sig \<Longrightarrow> lowS sig"
  by (auto simp: decodeDerBody_def Let_def split: if_splits option.splits intro!: normalize_lowS)

lemma decodeDer_lowS: "decodeDerSignatureToCompact payload = Some sig \<Longrightarrow> lowS sig"
  by (auto simp: decodeDerSignatureToCompact_def Let_def split: if_splits dest: decodeDerBody_lowS)

lemma decodeSignaturePayload_lowS: "decodeSignaturePayload payload = Some sig \<Longrightarrow> lowS sig"
  by (auto simp: decodeSignaturePayload_def Let_def length_slice split: if_splits option.splits
      intro!: normalize_lowS dest: decodeDer_lowS)

lemma decodeWalletSignature_lowS: "decodeWalletSignature raw = Inr sig \<Longrightarrow> lowS sig"
  by (auto simp: decodeWalletSignature_def Let_def rbind_eq_Inr_iff split: option.splits list.splits
      dest: decodeSignaturePayload_lowS)

subsection \<open>Witness stacks are read back\<close>

definition compactSize :: "nat \<Rightarrow> byte list" where
  "compactSize n = (if n < 0xfd then [word_of_nat n] else [0xfd, word_of_nat (n mod 256), word_of_nat (n div 256)])"

definition witnessLayout :: "byte list list \<Rightarrow> byte list" where
  "witnessLayout items = compactSize (length items) @ concat (map (\<lambda>it. compactSize (length it) @ it) items)"

lemma uint_small: "n < 256 \<Longrightarrow> uint (word_of_nat n :: byte) = int n"
  by (simp add: unsigned_of_nat take_bit_eq_mod)

lemma readCompactSize_compactSize:
  assumes "n < 65536"
  shows "readCompactSize (pre @ compactSize n @ rest) (length pre) = Some (int n, length pre + length (compactSize n))"
proof (cases "n < 0xfd")
  case True
  then show ?thesis by (simp add: readCompactSize_def compactSize_def nth_append uint_small Let_def)
next
  case False
  have split: "n mod 256 < 256" "n div 256 < 256" "n = n mod 256 + 256 * (n div 256)" using assms by auto
  then have "int (n mod 256) OR push_bit 8 (int (n div 256)) = int (n mod 256) + 2 ^ 8 * int (n div 256)"
    by (intro or_push_bit_int) simp_all
  also have "\<dots> = int n" unfolding of_nat_mod of_nat_div by simp
  finally have "int (n mod 256) OR push_bit 8 (int (n div 256)) = int n" .
  moreover have "uint (word_of_nat (n mod 256) :: byte) = int (n mod 256)"
    "uint (word_of_nat (n div 256) :: byte) = int (n div 256)"
    using split by (simp_all add: uint_small del: of_nat_mod of_nat_div)
  ultimately show ?thesis using False
    by (simp add: readCompactSize_def compactSize_def nth_append Let_def del: of_nat_mod of_nat_div unsigned_of_nat)
qed

lemma witnessItems_layout:
  assumes "\<forall>it\<in>set items. length it < 65536"
  shows "witnessItems (pre @ concat (map (\<lambda>it. compactSize (length it) @ it) items)) (length pre) (length items)
    = Some (items, length pre + length (concat (map (\<lambda>it. compactSize (length it) @ it) items)))"
  using assms
proof (induction items arbitrary: pre)
  case Nil
  then show ?case by simp
next
  case (Cons it items)
  let ?rest = "concat (map (\<lambda>it. compactSize (length it) @ it) items)"
  have r: "readCompactSize (pre @ compactSize (length it) @ (it @ ?rest)) (length pre)
      = Some (int (length it), length pre + length (compactSize (length it)))"
    using Cons.prems by (intro readCompactSize_compactSize) simp
  have s: "slice (pre @ compactSize (length it) @ it @ ?rest) (length pre + length (compactSize (length it)))
      (length pre + length (compactSize (length it)) + length it) = it"
    by (simp add: slice_def)
  have "witnessItems ((pre @ compactSize (length it) @ it) @ ?rest) (length (pre @ compactSize (length it) @ it)) (length items)
      = Some (items, length (pre @ compactSize (length it) @ it) + length ?rest)"
    using Cons.IH [of "pre @ compactSize (length it) @ it"] Cons.prems by simp
  then show ?case using r s by (simp add: add.assoc)
qed

lemma parseWitnessStack_layout:
  assumes "items \<noteq> []" "length items \<le> 16" "\<forall>it\<in>set items. length it < 65536"
  shows "parseWitnessStack (witnessLayout items) = Some items"
proof -
  let ?rest = "concat (map (\<lambda>it. compactSize (length it) @ it) items)"
  have "readCompactSize ([] @ compactSize (length items) @ ?rest) (length ([] :: byte list))
      = Some (int (length items), length ([] :: byte list) + length (compactSize (length items)))"
    using assms(2) by (intro readCompactSize_compactSize) simp
  moreover have "witnessItems (compactSize (length items) @ ?rest) (length (compactSize (length items))) (length items)
      = Some (items, length (compactSize (length items)) + length ?rest)"
    using assms(3) by (rule witnessItems_layout)
  ultimately show ?thesis using assms(1,2) by (simp add: parseWitnessStack_def witnessLayout_def)
qed

subsection \<open>DER signatures are read back\<close>

definition derLayout :: "byte list \<Rightarrow> byte list \<Rightarrow> byte list" where
  "derLayout r s = [0x30, word_of_nat (4 + length r + length s), 0x02, word_of_nat (length r)] @ r
     @ [0x02, word_of_nat (length s)] @ s"

lemma beVal_acc: "foldl (\<lambda>v b. 256 * v + unat b) v bs = v * 256 ^ length bs + beVal bs"
proof (induction bs arbitrary: v)
  case Nil
  then show ?case by (simp add: beVal_def)
next
  case (Cons b bs)
  show ?case using Cons [of "256 * v + unat b"] Cons [of "unat b"] by (simp add: beVal_def algebra_simps)
qed

lemma beVal_Cons: "beVal (b # bs) = unat b * 256 ^ length bs + beVal bs"
  using beVal_acc [of "unat b" bs] by (simp add: beVal_def)

lemma beVal_zeros: "beVal (replicate k 0 @ bs) = beVal bs"
  by (induction k) (simp_all add: beVal_Cons)

lemma beVal_trim: "beVal (trimLeadingZeros bs) = beVal bs"
  by (induction bs rule: trimLeadingZeros.induct) (auto simp: beVal_Cons)

definition fixed32 :: "byte list \<Rightarrow> byte list" where
  "fixed32 bs = replicate (32 - length (trimLeadingZeros bs)) 0 @ trimLeadingZeros bs"

lemma fixed32_facts: "length (trimLeadingZeros bs) \<le> 32 \<Longrightarrow> length (fixed32 bs) = 32 \<and> beVal (fixed32 bs) = beVal bs"
  by (simp add: fixed32_def beVal_zeros beVal_trim)

lemma drop_app: "drop (length xs) (xs @ ys) = ys"
  by simp

lemma decodeDerBody_layout:
  assumes "r \<noteq> []" "s \<noteq> []" "length r < 128" "length s < 128"
    and "length (trimLeadingZeros r) \<le> 32" "length (trimLeadingZeros s) \<le> 32"
  shows "decodeDerBody (derLayout r s) = Some (normalizeCompactSignatureLowS (fixed32 r @ fixed32 s))"
proof -
  have u: "unat (word_of_nat (length r) :: byte) = length r" "unat (word_of_nat (length s) :: byte) = length s"
    using assms(3,4) by (simp_all add: unat_of_nat)
  let ?h = "[0x30, word_of_nat (4 + length r + length s), 0x02, word_of_nat (length r)] :: byte list"
  have a: "at_opt (derLayout r s) (4 + length r) = Some 0x02"
    by (simp add: derLayout_def at_opt_def nth_append)
  have b: "at_opt (derLayout r s) (5 + length r) = Some (word_of_nat (length s))"
    by (simp add: derLayout_def at_opt_def nth_append)
  have c: "slice (derLayout r s) 4 (4 + length r) = r" "slice (derLayout r s) (6 + length r) (6 + length r + length s) = s"
    using drop_app [of "?h @ r @ [0x02, word_of_nat (length s)]" s]
    by (simp_all add: derLayout_def slice_def numeral_eq_Suc)
  have d: "derLayout r s ! 2 = 0x02" "derLayout r s ! 3 = word_of_nat (length r)" "length (derLayout r s) = 6 + length r + length s"
    by (simp_all add: derLayout_def)
  show ?thesis
    using assms a b c d u by (simp add: decodeDerBody_def Let_def fixed32_def)
qed

lemma decodeDer_layout:
  assumes "r \<noteq> []" "s \<noteq> []" "4 + length r + length s < 128" "length tail \<le> 1"
    and "length (trimLeadingZeros r) \<le> 32" "length (trimLeadingZeros s) \<le> 32"
  shows "decodeDerSignatureToCompact (derLayout r s @ tail) = Some (normalizeCompactSignatureLowS (fixed32 r @ fixed32 s))"
proof -
  have body: "decodeDerBody (derLayout r s) = Some (normalizeCompactSignatureLowS (fixed32 r @ fixed32 s))"
    using assms by (intro decodeDerBody_layout) auto
  have "unat (word_of_nat (4 + length r + length s) :: byte) = 4 + length r + length s"
    using assms(3) by (simp only: unat_of_nat) simp
  then have h: "derLayout r s ! 0 = 0x30" "unat (derLayout r s ! 1) + 2 = length (derLayout r s)"
    by (simp_all add: derLayout_def)
  have "8 \<le> length (derLayout r s)" using assms(1,2) by (cases r; cases s) (simp_all add: derLayout_def)
  then show ?thesis
    using body h assms(4) by (auto simp: decodeDerSignatureToCompact_def Let_def nth_append le_Suc_eq)
qed

subsection \<open>Properties\<close>

lemma normalize_fixed: "lowS sig \<Longrightarrow> normalizeCompactSignatureLowS sig = sig"
  by (auto simp: lowS_def normalizeCompactSignatureLowS_def Let_def bytesToBigInt_eq sValue_def)

lemma hex_value_x: "hex_value (CHR ''x'') = None"
  by (simp add: hex_value_def HEX_DIGITS_def)

lemma isHex_lower: "lower_hex_string s \<Longrightarrow> even (length s) \<Longrightarrow> isHex s \<and> isHex (''0x'' @ s)"
proof -
  assume s: "lower_hex_string s" "even (length s)"
  have "\<not> starts_with ''0x'' s"
  proof
    assume "starts_with ''0x'' s"
    then have "CHR ''x'' \<in> set s" by (cases s; cases "List.tl s") (auto simp: starts_with_def)
    then show False using s(1) hex_value_x by (auto simp: lower_hex_string_def list_all_iff)
  qed
  then show ?thesis using s lower_hex_normal [OF s(1)] by (simp add: isHex_def Let_def starts_with_def)
qed

lemma decodeRaw_bytesToHex:
  assumes "bs \<noteq> []"
  shows "decodeRawWalletSignature (bytesToHex bs) = Inr bs
    \<and> decodeRawWalletSignature (''0x'' @ bytesToHex bs) = Inr (0 # bs)"
  using isHex_lower [of "bytesToHex bs"] lower_hex_bytesToHex [OF assms] digit_value_0 hex_value_x
  by (simp add: decodeRawWalletSignature_def decodeHex_bytesToHex length_bytesToHex hexPair_def lower_char_def
      char_code_def digit_value_def)


text \<open>
  Normalising negates. \<open>normalizeCompactSignatureLowS\<close> keeps \<open>r\<close>; it replaces an \<open>s\<close> above half the order
  by the order minus \<open>s\<close> and keeps every other one; doing it again changes nothing.
\<close>
theorem normalize_negates_high_s:
  assumes "length sig = 64"
  shows "let out = normalizeCompactSignatureLowS sig in
      length out = 64 \<and> rPart out = rPart sig
      \<and> sValue out = (if SECP256K1_CURVE_HALF_ORDER < sValue sig \<and> sValue sig < SECP256K1_CURVE_ORDER
                     then SECP256K1_CURVE_ORDER - sValue sig else sValue sig)
      \<and> normalizeCompactSignatureLowS out = out"
  using normalize_spec [OF assms] normalize_length [of sig] assms half_order normalize_fixed [OF normalize_lowS [OF assms]]
  by (simp add: Let_def)

text \<open>
  Signatures inside a witness stack. For a stack of 1 to 16 items whose first item is a compact
  signature, given as lower-case hex, \<open>decodeWalletSignature\<close> returns the normalised signature and
  \<open>getWalletWitnessPubkey\<close> the compressed or x-only key that the second item holds.
\<close>
theorem witness_signature_read:
  assumes "length sig = 64" "length (sig # items) \<le> 16" "\<forall>it\<in>set items. length it < 65536"
  shows "decodeWalletSignature (bytesToHex (witnessLayout (sig # items))) = Inr (normalizeCompactSignatureLowS sig)
    \<and> getWalletWitnessSignatureItem (bytesToHex (witnessLayout (sig # items))) = Inr (Some sig)
    \<and> (items \<noteq> [] \<and> length (hd items) = 32
        \<longrightarrow> getWalletWitnessPubkey (bytesToHex (witnessLayout (sig # items))) = Inr (Some (bytesToHex (hd items))))"
proof -
  have raw: "decodeRawWalletSignature (bytesToHex (witnessLayout (sig # items))) = Inr (witnessLayout (sig # items))"
    by (intro conjunct1 [OF decodeRaw_bytesToHex]) (simp add: witnessLayout_def compactSize_def)
  have "parseWitnessStack (witnessLayout (sig # items)) = Some (sig # items)"
    using assms by (intro parseWitnessStack_layout) auto
  with raw assms(1) show ?thesis
    by (cases items)
      (simp_all add: decodeWalletSignature_def getWalletWitnessSignatureItem_def getWalletWitnessPubkey_def decodeSignaturePayload_def)
qed

text \<open>
  DER signatures. A DER signature of two integers of at most 32 significant bytes, with or without
  the sighash byte after it, is read as the 32-byte big-endian values of the two, normalised.
\<close>
theorem der_signature_read:
  assumes "r \<noteq> []" "s \<noteq> []" "4 + length r + length s < 128" "length sighash \<le> 1"
    and "length (trimLeadingZeros r) \<le> 32" "length (trimLeadingZeros s) \<le> 32"
  shows "\<exists>r32 s32. decodeDerSignatureToCompact (derLayout r s @ sighash) = Some (normalizeCompactSignatureLowS (r32 @ s32))
    \<and> length r32 = 32 \<and> length s32 = 32 \<and> beVal r32 = beVal r \<and> beVal s32 = beVal s"
  using decodeDer_layout [OF assms] fixed32_facts [OF assms(5)] fixed32_facts [OF assms(6)] by blast

text \<open>
  The prefixed form is misread. \<open>isHex\<close> accepts hex with the prefix \<open>0x\<close>, which \<open>decodeHex\<close> then reads
  as a byte 0 of its own: the 64-byte signature behind it comes back shifted by a byte.
\<close>
theorem prefixed_signature_misread:
  assumes "length sig = 64"
  shows "decodeRawWalletSignature (''0x'' @ bytesToHex sig) = Inr (0 # sig)
    \<and> decodeWalletSignature (''0x'' @ bytesToHex sig) = Inr (normalizeCompactSignatureLowS (0 # take 63 sig))"
proof -
  have "sig \<noteq> []" using assms by auto
  then have raw: "decodeRawWalletSignature (''0x'' @ bytesToHex sig) = Inr (0 # sig)"
    using decodeRaw_bytesToHex by blast
  have "parseWitnessStack (0 # sig) = None" by (simp add: parseWitnessStack_def readCompactSize_def Let_def)
  moreover have "decodeSignaturePayload (0 # sig) = Some (normalizeCompactSignatureLowS (0 # take 63 sig))"
    using assms by (simp add: decodeSignaturePayload_def decodeDerSignatureToCompact_def)
  ultimately show ?thesis using raw by (simp add: decodeWalletSignature_def)
qed

subsection \<open>Witnesses\<close>

definition sampleSignature :: "byte list" where
  "sampleSignature = replicate 63 0 @ [5]"

lemma sample_signature: "length sampleSignature = 64" "sampleSignature \<noteq> []"
  by (simp_all add: sampleSignature_def)

lemma sample_decodes: "decodeWalletSignature (bytesToHex sampleSignature) = Inr (normalizeCompactSignatureLowS sampleSignature)"
proof -
  have "parseWitnessStack sampleSignature = None"
    by (simp add: parseWitnessStack_def readCompactSize_def Let_def sampleSignature_def nth_append)
  then show ?thesis
    using decodeRaw_bytesToHex [OF sample_signature(2)] sample_signature(1)
    by (simp add: decodeWalletSignature_def decodeSignaturePayload_def)
qed


theorem normalize_negates_high_s_witness:
  "normalizeCompactSignatureLowS (normalizeCompactSignatureLowS (replicate 64 0xFE)) =
    normalizeCompactSignatureLowS (replicate 64 0xFE)"
  using normalize_negates_high_s [of "replicate 64 0xFE"] by (simp add: Let_def)

theorem witness_signature_read_witness:
  "decodeWalletSignature (bytesToHex (witnessLayout [sampleSignature, replicate 32 7]))
     = Inr (normalizeCompactSignatureLowS sampleSignature)
    \<and> getWalletWitnessPubkey (bytesToHex (witnessLayout [sampleSignature, replicate 32 7]))
     = Inr (Some (bytesToHex (replicate 32 7)))"
  using witness_signature_read [of sampleSignature "[replicate 32 7]"] by (simp add: sample_signature)

theorem der_signature_read_witness:
  "\<exists>r32 s32. decodeDerSignatureToCompact (derLayout [0, 0x80] [9] @ [1]) = Some (normalizeCompactSignatureLowS (r32 @ s32))
    \<and> length r32 = 32 \<and> length s32 = 32 \<and> beVal r32 = beVal [0, 0x80] \<and> beVal s32 = beVal [9]"
  by (rule der_signature_read) simp_all

theorem prefixed_signature_misread_witness:
  "decodeRawWalletSignature (''0x'' @ bytesToHex sampleSignature) = Inr (0 # sampleSignature)"
  using prefixed_signature_misread [OF sample_signature(1)] by simp

end
