(* ===== verification/Runestone.thy ===== *)
theory Runestone
  imports JsStrings JsArrays
begin

text \<open>
  \<open>apps/chrome-wallet/src/utils/runestone.ts\<close>: the encoder of transfer runestones. An edict's
  output and the pointer are numbers that the source checks with \<open>Number.isInteger\<close>; amounts and
  blocks are bigints.
\<close>

datatype runestone_error =
    NegativeVarint
  | InvalidRuneId string
  | RuneTxOutOfRange string
  | NegativeEdictAmount
  | InvalidEdictOutput
  | InvalidPointer
  | PayloadTooLong nat

record rune_id =
  ri_block :: int
  ri_tx :: int

record rune_edict =
  re_runeId :: string
  re_amount :: int
  re_output :: js_num

subsection \<open>Varints\<close>

function varintBytes :: "int \<Rightarrow> byte list" where
  "varintBytes v =
     (if v \<ge> 0x80 then word_of_int ((v AND 0x7f) OR 0x80) # varintBytes (drop_bit 7 v)
      else [word_of_int v])"
  by pat_completeness auto
termination
  by (relation "measure nat") (auto simp: drop_bit_eq_div)

declare varintBytes.simps [simp del]

definition encodeVarint :: "int \<Rightarrow> runestone_error + byte list" where
  "encodeVarint value = (if value < 0 then Inl NegativeVarint else Inr (varintBytes value))"

subsection \<open>Rune ids\<close>

text \<open>
  \<open>/^(\d+):(\d+)$/\<close> splits at the only colon. \<open>Number\<close> of more digits than a safe integer holds
  rounds to a number that is not safe, so the test refuses exactly the values above the largest
  safe integer.
\<close>

definition parseRuneId :: "string \<Rightarrow> runestone_error + rune_id" where
  "parseRuneId rid =
     (let b = takeWhile (\<lambda>c. c \<noteq> CHR '':'') rid;
          t = dropWhile (\<lambda>c. c \<noteq> CHR '':'') rid
      in if t = [] \<or> \<not> dec_string b \<or> \<not> dec_string (tl t) then Inl (InvalidRuneId rid)
         else if int (read_nat (tl t)) > MAX_SAFE_INTEGER then Inl (RuneTxOutOfRange rid)
         else Inr \<lparr>ri_block = int (read_nat b), ri_tx = int (read_nat (tl t))\<rparr>)"

definition formatRuneId :: "rune_id \<Rightarrow> string" where
  "formatRuneId i = show_int (ri_block i) @ '':'' @ show_int (ri_tx i)"

definition compareRuneId :: "rune_id \<Rightarrow> rune_id \<Rightarrow> int" where
  "compareRuneId a b =
     (if ri_block a < ri_block b then -1
      else if ri_block a > ri_block b then 1
      else ri_tx a - ri_tx b)"

subsection \<open>Payload and script\<close>

definition TAG_BODY :: int where "TAG_BODY = 0"
definition TAG_POINTER :: int where "TAG_POINTER = 22"
definition MAX_OP_RETURN_PUSH_BYTES :: nat where "MAX_OP_RETURN_PUSH_BYTES = 520"

definition pushDataPrefix :: "nat \<Rightarrow> byte list" where
  "pushDataPrefix len =
     (if len < 0x4c then [word_of_nat len]
      else if len \<le> 0xff then [0x4c, word_of_nat len]
      else [0x4d, word_of_nat (len mod 256), word_of_nat (len div 256 mod 256)])"

text \<open>An edict with its parsed id, and the checks that come before it is sorted.\<close>

definition decodeEdict :: "rune_edict \<Rightarrow> runestone_error + rune_edict \<times> rune_id" where
  "decodeEdict e =
     (if re_amount e < 0 then Inl NegativeEdictAmount
      else if \<not> isInteger (re_output e) \<or> int_of (re_output e) < 0 then Inl InvalidEdictOutput
      else rbind (parseRuneId (re_runeId e)) (\<lambda>rid. Inr (e, rid)))"

fun encodeEdicts :: "int \<Rightarrow> (rune_edict \<times> rune_id) list \<Rightarrow> runestone_error + byte list" where
  "encodeEdicts prevBlock [] = Inr []"
| "encodeEdicts prevBlock ((e, rid) # es) =
     rbind (encodeVarint (ri_block rid - prevBlock)) (\<lambda>c1.
     rbind (encodeVarint (ri_tx rid)) (\<lambda>c2.
     rbind (encodeVarint (re_amount e)) (\<lambda>c3.
     rbind (encodeVarint (int_of (re_output e))) (\<lambda>c4.
     rbind (encodeEdicts (ri_block rid) es) (\<lambda>cs.
     Inr (c1 @ c2 @ c3 @ c4 @ cs))))))"

definition encodePointer :: "js_num option \<Rightarrow> runestone_error + byte list" where
  "encodePointer pointer =
     (case pointer of
        None \<Rightarrow> Inr []
      | Some p \<Rightarrow>
          if \<not> isInteger p \<or> int_of p < 0 then Inl InvalidPointer
          else rbind (encodeVarint TAG_POINTER) (\<lambda>c1.
               rbind (encodeVarint (int_of p)) (\<lambda>c2. Inr (c1 @ c2))))"

definition encodeRunestonePayload ::
    "rune_edict list \<Rightarrow> js_num option \<Rightarrow> runestone_error + byte list" where
  "encodeRunestonePayload edicts pointer =
     rbind (map_result decodeEdict edicts) (\<lambda>decoded.
     rbind (encodePointer pointer) (\<lambda>fields.
     rbind (encodeVarint TAG_BODY) (\<lambda>sep.
     rbind (encodeEdicts 0 (js_sort (\<lambda>a b. compareRuneId (snd a) (snd b)) decoded)) (\<lambda>body.
     Inr (fields @ sep @ body)))))"

definition buildRunestoneOpReturn ::
    "rune_edict list \<Rightarrow> js_num option \<Rightarrow> runestone_error + byte list" where
  "buildRunestoneOpReturn edicts pointer =
     rbind (encodeRunestonePayload edicts pointer) (\<lambda>payload.
       if length payload > MAX_OP_RETURN_PUSH_BYTES then Inl (PayloadTooLong (length payload))
       else Inr ([0x6a, 0x5d] @ pushDataPrefix (length payload) @ payload))"

subsection \<open>Reference decoders\<close>

text \<open>
  Reading a sequence of varints back: \<open>acc\<close> is the value read so far of the current varint and
  \<open>m\<close> the weight of its next group.
\<close>

fun readVarints :: "int \<Rightarrow> int \<Rightarrow> byte list \<Rightarrow> int list option" where
  "readVarints acc m [] = (if m = 1 then Some [] else None)"
| "readVarints acc m (b # bs) =
     (if uint b < 128 then map_option (Cons (acc + m * uint b)) (readVarints 0 1 bs)
      else readVarints (acc + m * (uint b - 128)) (m * 128) bs)"

text \<open>Fields before the body; a transfer runestone has at most the pointer.\<close>

fun readFields :: "int option \<Rightarrow> int list \<Rightarrow> (int option \<times> int list) option" where
  "readFields p (tag # v # rest) =
     (if tag = 0 then Some (p, v # rest)
      else if tag = 22 \<and> p = None then readFields (Some v) rest else None)"
| "readFields p [tag] = (if tag = 0 then Some (p, []) else None)"
| "readFields p [] = None"

text \<open>
  Edict groups as this module documents them (a block delta and an absolute transaction index), and
  as the runestone protocol reads them: the transaction index is a delta too when the block delta
  is 0.
\<close>

fun readEdicts :: "int \<Rightarrow> int list \<Rightarrow> (int \<times> int \<times> int \<times> int) list option" where
  "readEdicts prev (d # t # a # out # rest) =
     map_option (Cons (prev + d, t, a, out)) (readEdicts (prev + d) rest)"
| "readEdicts prev [] = Some []"
| "readEdicts prev _ = None"

fun protocolEdicts :: "int \<Rightarrow> int \<Rightarrow> int list \<Rightarrow> (int \<times> int \<times> int \<times> int) list option" where
  "protocolEdicts block tx (d # t # a # out # rest) =
     (let tx' = (if d = 0 then tx + t else t)
      in map_option (Cons (block + d, tx', a, out)) (protocolEdicts (block + d) tx' rest))"
| "protocolEdicts block tx [] = Some []"
| "protocolEdicts block tx _ = None"

definition readPayload ::
    "byte list \<Rightarrow> (int option \<times> (int \<times> int \<times> int \<times> int) list) option" where
  "readPayload bs =
     (case readVarints 0 1 bs of
        None \<Rightarrow> None
      | Some ints \<Rightarrow> (case readFields None ints of
          None \<Rightarrow> None
        | Some (p, body) \<Rightarrow> map_option (Pair p) (readEdicts 0 body)))"

definition protocolPayload ::
    "byte list \<Rightarrow> (int option \<times> (int \<times> int \<times> int \<times> int) list) option" where
  "protocolPayload bs =
     (case readVarints 0 1 bs of
        None \<Rightarrow> None
      | Some ints \<Rightarrow> (case readFields None ints of
          None \<Rightarrow> None
        | Some (p, body) \<Rightarrow> map_option (Pair p) (protocolEdicts 0 0 body)))"

text \<open>What one edict means: the rune, the amount and the output.\<close>

definition edictMeaning :: "rune_edict \<times> rune_id \<Rightarrow> int \<times> int \<times> int \<times> int" where
  "edictMeaning d = (ri_block (snd d), ri_tx (snd d), re_amount (fst d), int_of (re_output (fst d)))"

subsection \<open>Varints are read back\<close>

lemma varint_low: "uint (word_of_int ((v AND 0x7f) OR 0x80) :: byte) = v mod 128 + 128"
proof -
  have low: "v AND 0x7f = v mod 128"
    using take_bit_eq_mask [of 7 v] by (simp add: take_bit_eq_mod mask_eq_exp_minus_1)
  have "v mod 128 OR push_bit 7 1 = v mod 128 + 2 ^ 7 * 1"
    by (rule or_push_bit_int) simp_all
  then have "(v AND 0x7f) OR 0x80 = v mod 128 + 128" by (simp add: low)
  moreover have "(v mod 128 + 128) mod 256 = v mod 128 + (128 :: int)"
    using pos_mod_bound [of 128 v] pos_mod_sign [of 128 v] by (intro mod_pos_pos_trivial) linarith+
  moreover have "uint (word_of_int (v mod 128 + 128) :: byte) = (v mod 128 + 128) mod 256"
    unfolding uint_word_of_int by simp
  ultimately show ?thesis by metis
qed

lemma readVarints_varint:
  "0 \<le> v \<Longrightarrow> readVarints acc m (varintBytes v @ bs) = map_option (Cons (acc + m * v)) (readVarints 0 1 bs)"
proof (induction v arbitrary: acc m rule: varintBytes.induct)
  case (1 v)
  show ?case
  proof (cases "v \<ge> 0x80")
    case True
    have "m * v = m * (v mod 128) + m * 128 * drop_bit 7 v"
      by (simp add: drop_bit_eq_div flip: distrib_left mult.assoc)
        (metis distrib_left mod_mult_div_eq mult.assoc)
    moreover have "\<not> v mod 128 < 0" using pos_mod_sign [of 128 v] by linarith
    ultimately show ?thesis
      using True 1 by (subst varintBytes.simps) (simp add: varint_low add.assoc del: map_option_eq_Some)
  next
    case False
    then have "uint (word_of_int v :: byte) = v" using 1(2) by (simp add: uint_word_of_int)
    then show ?thesis using False by (subst varintBytes.simps) simp
  qed
qed

lemma encodeVarint_Inr: "0 \<le> v \<Longrightarrow> encodeVarint v = Inr (varintBytes v)"
  by (simp add: encodeVarint_def)

lemma varintBytes_ne: "varintBytes v \<noteq> []"
  by (subst varintBytes.simps) simp

lemma length_varintBytes: "v < 2 ^ (7 * n) \<Longrightarrow> 0 < n \<Longrightarrow> length (varintBytes v) \<le> n"
proof (induction n arbitrary: v)
  case 0
  then show ?case by simp
next
  case (Suc n)
  show ?case
  proof (cases "v \<ge> 0x80")
    case True
    then have "0 < n" using Suc.prems by (cases n) auto
    moreover have "drop_bit 7 v < 2 ^ (7 * n)"
      using Suc.prems(1) by (simp add: drop_bit_eq_div div_less_iff_less_mult power_add mult.commute)
    ultimately show ?thesis using Suc.IH True by (subst varintBytes.simps) simp
  next
    case False
    then show ?thesis by (subst varintBytes.simps) simp
  qed
qed

lemma readVarints_concat:
  "\<forall>v\<in>set vs. 0 \<le> v \<Longrightarrow> readVarints 0 1 (concat (map varintBytes vs)) = Some vs"
  by (induction vs) (simp_all add: readVarints_varint)

subsection \<open>Rune ids are read back\<close>

lemma split_at_colon:
  "CHR '':'' \<notin> set b \<Longrightarrow> takeWhile (\<lambda>c. c \<noteq> CHR '':'') (b @ CHR '':'' # t) = b
     \<and> dropWhile (\<lambda>c. c \<noteq> CHR '':'') (b @ CHR '':'' # t) = CHR '':'' # t"
  by (induction b) auto

lemma parse_formatRuneId:
  assumes "0 \<le> ri_block i" "0 \<le> ri_tx i" "ri_tx i \<le> MAX_SAFE_INTEGER"
  shows "parseRuneId (formatRuneId i) = Inr i"
  using assms split_at_colon [OF show_nat_no_colon [of "nat (ri_block i)"], of "show_nat (nat (ri_tx i))"]
  by (simp add: parseRuneId_def formatRuneId_def show_int_def show_nat_dec Let_def)

lemma parseRuneId_nonneg:
  "parseRuneId s = Inr i \<Longrightarrow> 0 \<le> ri_block i \<and> 0 \<le> ri_tx i \<and> ri_tx i \<le> MAX_SAFE_INTEGER"
  by (auto simp: parseRuneId_def Let_def split: if_splits)

interpretation rid: comparator compareRuneId
  by unfold_locales (auto simp: compareRuneId_def split: if_splits)

interpretation rid_snd: comparator "\<lambda>a b :: 'a \<times> rune_id. compareRuneId (snd a) (snd b)"
  by unfold_locales (use rid.cmp_total rid.cmp_trans in blast)+

lemma compareRuneId_block: "compareRuneId a b \<le> 0 \<Longrightarrow> ri_block a \<le> ri_block b"
  by (auto simp: compareRuneId_def split: if_splits)

subsection \<open>Payloads are read back\<close>

definition validDecoded :: "rune_edict \<times> rune_id \<Rightarrow> bool" where
  "validDecoded d \<longleftrightarrow> 0 \<le> ri_block (snd d) \<and> 0 \<le> ri_tx (snd d) \<and> 0 \<le> re_amount (fst d)
     \<and> 0 \<le> int_of (re_output (fst d))"

lemma decodeEdict_Inr:
  "decodeEdict e = Inr d \<Longrightarrow> fst d = e \<and> parseRuneId (re_runeId e) = Inr (snd d) \<and> validDecoded d"
  by (auto simp: decodeEdict_def validDecoded_def rbind_eq_Inr_iff split: if_splits dest: parseRuneId_nonneg)

text \<open>The integers of the body.\<close>

fun edictInts :: "int \<Rightarrow> (rune_edict \<times> rune_id) list \<Rightarrow> int list" where
  "edictInts prev [] = []"
| "edictInts prev ((e, i) # es) =
     [ri_block i - prev, ri_tx i, re_amount e, int_of (re_output e)] @ edictInts (ri_block i) es"

definition risingFrom :: "int \<Rightarrow> (rune_edict \<times> rune_id) list \<Rightarrow> bool" where
  "risingFrom prev ds \<longleftrightarrow> sorted_wrt (\<lambda>a b. ri_block (snd a) \<le> ri_block (snd b)) ds
     \<and> (\<forall>d\<in>set ds. prev \<le> ri_block (snd d) \<and> validDecoded d)"

lemma risingFrom_Cons:
  "risingFrom prev (d # ds) \<longleftrightarrow> prev \<le> ri_block (snd d) \<and> validDecoded d \<and> risingFrom (ri_block (snd d)) ds"
  by (auto simp: risingFrom_def)

lemma edictInts_nonneg: "risingFrom prev ds \<Longrightarrow> \<forall>v\<in>set (edictInts prev ds). 0 \<le> v"
  by (induction prev ds rule: edictInts.induct) (simp_all add: risingFrom_Cons validDecoded_def)

lemma encodeEdicts_Inr:
  "risingFrom prev ds \<Longrightarrow> encodeEdicts prev ds = Inr (concat (map varintBytes (edictInts prev ds)))"
  by (induction prev ds rule: edictInts.induct)
    (simp_all add: risingFrom_Cons validDecoded_def encodeVarint_Inr)

lemma readEdicts_edictInts: "readEdicts prev (edictInts prev ds) = Some (map edictMeaning ds)"
  by (induction prev ds rule: edictInts.induct) (simp_all add: edictMeaning_def)

lemma protocolEdicts_edictInts:
  assumes "risingFrom prev ds" "distinct (map (ri_block \<circ> snd) ds)" "prev \<notin> (ri_block \<circ> snd) ` set ds \<or> tx = 0"
  shows "protocolEdicts prev tx (edictInts prev ds) = Some (map edictMeaning ds)"
  using assms
proof (induction prev ds arbitrary: tx rule: edictInts.induct)
  case (1 prev)
  then show ?case by simp
next
  case (2 prev e i es)
  then have "ri_block i \<notin> (ri_block \<circ> snd) ` set es" by simp
  then have "protocolEdicts (ri_block i) (ri_tx i) (edictInts (ri_block i) es) = Some (map edictMeaning es)"
    using 2 by (auto simp: risingFrom_Cons)
  moreover have "ri_block i = prev \<longrightarrow> tx = 0" using 2(4) by auto
  ultimately show ?case by (auto simp: edictMeaning_def)
qed

text \<open>What the encoder accepts.\<close>

definition pointerOk :: "js_num option \<Rightarrow> bool" where
  "pointerOk pointer \<longleftrightarrow> (case pointer of None \<Rightarrow> True | Some p \<Rightarrow> isInteger p \<and> 0 \<le> int_of p)"

definition edictOk :: "rune_edict \<Rightarrow> bool" where
  "edictOk e \<longleftrightarrow> 0 \<le> re_amount e \<and> isInteger (re_output e) \<and> 0 \<le> int_of (re_output e)
     \<and> \<not> isl (parseRuneId (re_runeId e))"

definition pointerInts :: "js_num option \<Rightarrow> int list" where
  "pointerInts pointer = (case pointer of None \<Rightarrow> [] | Some p \<Rightarrow> [22, int_of p])"

lemma encodePointer_eq:
  "pointerOk pointer \<Longrightarrow> encodePointer pointer = Inr (concat (map varintBytes (pointerInts pointer)))"
  by (auto simp: encodePointer_def pointerOk_def pointerInts_def TAG_POINTER_def encodeVarint_Inr split: option.splits)

lemma encodePointer_isl: "isl (encodePointer pointer) \<longleftrightarrow> \<not> pointerOk pointer"
  by (auto simp: encodePointer_def pointerOk_def TAG_POINTER_def encodeVarint_Inr split: option.splits)

lemma decodeEdict_isl: "isl (decodeEdict e) \<longleftrightarrow> \<not> edictOk e"
  by (cases "parseRuneId (re_runeId e)") (auto simp: decodeEdict_def edictOk_def)

text \<open>The edicts of a list of decoded ones, in the order of the payload.\<close>

definition bodyOrder :: "(rune_edict \<times> rune_id) list \<Rightarrow> (rune_edict \<times> rune_id) list" where
  "bodyOrder ds = js_sort (\<lambda>a b. compareRuneId (snd a) (snd b)) ds"

lemma bodyOrder_rising:
  assumes "\<forall>d\<in>set ds. validDecoded d"
  shows "risingFrom 0 (bodyOrder ds)"
proof -
  have "sorted_wrt (\<lambda>a b. ri_block (snd a) \<le> ri_block (snd b)) (bodyOrder ds)"
    unfolding bodyOrder_def
    by (rule sorted_wrt_mono_rel [OF _ rid_snd.ordered_sort]) (auto dest: compareRuneId_block)
  then show ?thesis using assms by (auto simp: risingFrom_def bodyOrder_def validDecoded_def)
qed

lemma map_decodeEdict_valid:
  "map_result decodeEdict edicts = Inr ds \<Longrightarrow> map fst ds = edicts \<and> (\<forall>d\<in>set ds. validDecoded d)"
proof (induction edicts arbitrary: ds)
  case Nil
  then show ?case by simp
next
  case (Cons e edicts)
  then obtain d ds' where "ds = d # ds'" "decodeEdict e = Inr d" "map_result decodeEdict edicts = Inr ds'"
    by (auto simp: rbind_eq_Inr_iff)
  then show ?case using Cons.IH [of ds'] decodeEdict_Inr [of e d] by auto
qed

lemma payload_ints:
  assumes "map_result decodeEdict edicts = Inr ds" "pointerOk pointer"
  shows "encodeRunestonePayload edicts pointer
    = Inr (concat (map varintBytes (pointerInts pointer @ 0 # edictInts 0 (bodyOrder ds))))"
  using assms map_decodeEdict_valid [OF assms(1)]
  by (simp add: encodeRunestonePayload_def encodePointer_eq TAG_BODY_def encodeVarint_Inr
      encodeEdicts_Inr bodyOrder_rising bodyOrder_def [symmetric])

lemma payload_ints_nonneg:
  assumes "map_result decodeEdict edicts = Inr ds" "pointerOk pointer"
  shows "\<forall>v\<in>set (pointerInts pointer @ 0 # edictInts 0 (bodyOrder ds)). 0 \<le> v"
  using assms map_decodeEdict_valid [OF assms(1)] edictInts_nonneg [OF bodyOrder_rising [of ds]]
  by (auto simp: pointerInts_def pointerOk_def split: option.splits)

lemma readFields_pointer: "readFields None (pointerInts pointer @ 0 # rest)
    = Some (map_option int_of pointer, rest)"
  by (cases pointer; cases rest) (simp_all add: pointerInts_def)

lemma payload_isl:
  "isl (encodeRunestonePayload edicts pointer) \<longleftrightarrow> \<not> (\<forall>e\<in>set edicts. edictOk e) \<or> \<not> pointerOk pointer"
proof (cases "map_result decodeEdict edicts")
  case (Inl e)
  then have "\<not> (\<forall>e\<in>set edicts. edictOk e)"
    using map_result_all_Inr [of edicts decodeEdict "\<lambda>e. projr (decodeEdict e)"] decodeEdict_isl
    by (metis Inl_Inr_False sum.collapse(2))
  then show ?thesis using Inl by (simp add: encodeRunestonePayload_def)
next
  case (Inr ds)
  then have "\<forall>e\<in>set edicts. edictOk e"
  proof (induction edicts arbitrary: ds)
    case (Cons e edicts)
    then show ?case using decodeEdict_isl [of e] by (auto simp: rbind_eq_Inr_iff)
  qed simp
  then show ?thesis
  proof (cases "pointerOk pointer")
    case True
    then show ?thesis using payload_ints [OF Inr True] \<open>\<forall>e\<in>set edicts. edictOk e\<close> by simp
  next
    case False
    then have "isl (encodePointer pointer)" by (simp add: encodePointer_isl)
    then show ?thesis using False Inr by (auto simp: encodeRunestonePayload_def isl_def)
  qed
qed

lemma payload_read:
  assumes "encodeRunestonePayload edicts pointer = Inr payload"
  obtains ds where "map_result decodeEdict edicts = Inr ds"
    "readPayload payload = Some (map_option int_of pointer, map edictMeaning (bodyOrder ds))"
    "distinct (map (ri_block \<circ> snd) ds) \<longrightarrow> protocolPayload payload = readPayload payload"
proof -
  obtain ds where ds: "map_result decodeEdict edicts = Inr ds"
    using assms by (auto simp: encodeRunestonePayload_def rbind_eq_Inr_iff)
  have ok: "pointerOk pointer" using assms payload_isl [of edicts pointer] by auto
  let ?ints = "pointerInts pointer @ 0 # edictInts 0 (bodyOrder ds)"
  have "payload = concat (map varintBytes ?ints)" using payload_ints [OF ds ok] assms by simp
  then have vs: "readVarints 0 1 payload = Some ?ints"
    using readVarints_concat [OF payload_ints_nonneg [OF ds ok]] by simp
  then have read: "readPayload payload = Some (map_option int_of pointer, map edictMeaning (bodyOrder ds))"
    by (simp add: readPayload_def readFields_pointer readEdicts_edictInts)
  have "protocolPayload payload = readPayload payload" if "distinct (map (ri_block \<circ> snd) ds)"
  proof -
    have "distinct (map (ri_block \<circ> snd) (bodyOrder ds))"
      using that by (simp add: bodyOrder_def distinct_js_sort)
    then have "protocolEdicts 0 0 (edictInts 0 (bodyOrder ds)) = Some (map edictMeaning (bodyOrder ds))"
      using bodyOrder_rising [of ds] map_decodeEdict_valid [OF ds] by (intro protocolEdicts_edictInts) auto
    then show ?thesis using vs read by (simp add: protocolPayload_def readFields_pointer)
  qed
  then show ?thesis using that ds read by blast
qed

lemmas sample_eval = encodeRunestonePayload_def decodeEdict_def parseRuneId_def dec_string_def dec_value_def
  DEC_DIGITS_def read_nat_def MAX_SAFE_INTEGER_def encodePointer_def encodeVarint_def TAG_BODY_def
  varintBytes.simps compareRuneId_def

lemma pushDataPrefix_read:
  assumes "n \<le> 520"
  shows "(if n < 76 then pushDataPrefix n = [word_of_nat n] \<and> uint (word_of_nat n :: byte) = int n
     else if n < 256 then pushDataPrefix n = [0x4c, word_of_nat n] \<and> uint (word_of_nat n :: byte) = int n
     else pushDataPrefix n = [0x4d, word_of_nat (n mod 256), word_of_nat (n div 256 mod 256)]
       \<and> uint (word_of_nat (n mod 256) :: byte) + 256 * uint (word_of_nat (n div 256 mod 256) :: byte) = int n)"
proof -
  have small: "uint (word_of_nat k :: byte) = int k" if "k < 256" for k
    using that by (simp add: unsigned_of_nat take_bit_eq_mod)
  have "n mod 256 + 256 * (n div 256) = n" "n div 256 mod 256 = n div 256" using assms by simp_all
  then have "int (n mod 256) + 256 * int (n div 256 mod 256) = int n"
    by (metis of_nat_add of_nat_mult of_nat_numeral)
  moreover have "uint (word_of_nat (n mod 256) :: byte) = int (n mod 256)"
    "uint (word_of_nat (n div 256 mod 256) :: byte) = int (n div 256 mod 256)"
    by (rule small, simp)+
  ultimately have "uint (word_of_nat (n mod 256) :: byte) + 256 * uint (word_of_nat (n div 256 mod 256) :: byte) = int n"
    by metis
  then show ?thesis using small [of n]
    unfolding pushDataPrefix_def by (simp del: of_nat_mod of_nat_div unsigned_of_nat)
qed

subsection \<open>Properties\<close>

text \<open>
  C37. Every accepted transfer is read back whole: the payload decodes to the pointer and to the
  edicts sorted by rune id, each with its rune, amount and output and none added or lost. When no
  two edicts have runes of the same block, the runestone protocol's own reading agrees.
\<close>

theorem runestone_payload_roundtrip:
  assumes "encodeRunestonePayload edicts pointer = Inr payload"
  shows "\<exists>ds. map_result decodeEdict edicts = Inr ds \<and> map fst ds = edicts
    \<and> (\<forall>d\<in>set ds. parseRuneId (re_runeId (fst d)) = Inr (snd d))
    \<and> readPayload payload = Some (map_option int_of pointer, map edictMeaning (bodyOrder ds))
    \<and> mset (bodyOrder ds) = mset ds
    \<and> sorted_wrt (\<lambda>a b. compareRuneId (snd a) (snd b) \<le> 0) (bodyOrder ds)
    \<and> (distinct (map (ri_block \<circ> snd) ds) \<longrightarrow> protocolPayload payload = readPayload payload)"
proof -
  obtain ds where ds: "map_result decodeEdict edicts = Inr ds"
    "readPayload payload = Some (map_option int_of pointer, map edictMeaning (bodyOrder ds))"
    "distinct (map (ri_block \<circ> snd) ds) \<longrightarrow> protocolPayload payload = readPayload payload"
    using assms by (rule payload_read)
  have "parseRuneId (re_runeId (fst d)) = Inr (snd d)" if "d \<in> set ds" for d
  proof -
    obtain i where "i < length ds" "d = ds ! i" using \<open>d \<in> set ds\<close> by (auto simp: in_set_conv_nth)
    then have "decodeEdict (edicts ! i) = Inr d"
      using ds(1) by (simp add: map_result_Inr_iff list_all2_conv_all_nth)
    then show ?thesis using decodeEdict_Inr [of "edicts ! i" d] by simp
  qed
  then show ?thesis
    using ds map_decodeEdict_valid [OF ds(1)] rid_snd.ordered_sort
    by (auto simp: bodyOrder_def)
qed

definition sampleEdicts :: "rune_edict list" where
  "sampleEdicts = [\<lparr>re_runeId = ''73393:191'', re_amount = 19, re_output = JInt 2\<rparr>]"

text \<open>The vector of the source's header: body 0, then 73393, 191, 19, 2.\<close>

lemma sample_payload:
  "encodeRunestonePayload sampleEdicts None = Inr [0x00, 0xb1, 0xbd, 0x04, 0xbf, 0x01, 0x13, 0x02]"
  by (simp add: sampleEdicts_def sample_eval)

theorem runestone_payload_roundtrip_witness:
  "\<exists>ds. map fst ds = sampleEdicts \<and>
     readPayload [0x00, 0xb1, 0xbd, 0x04, 0xbf, 0x01, 0x13, 0x02] = Some (None, map edictMeaning (bodyOrder ds))"
  using runestone_payload_roundtrip [OF sample_payload] by auto

text \<open>
  The encoder fails exactly on a negative amount, an output or pointer that is not a whole
  number from 0 up, or a malformed rune id; once these checks pass, no varint of the payload is
  negative. The script fails in addition exactly when the payload is longer than one push.
\<close>

theorem runestone_errors:
  "(isl (encodeRunestonePayload edicts pointer) \<longleftrightarrow>
      \<not> (\<forall>e\<in>set edicts. edictOk e) \<or> \<not> pointerOk pointer) \<and>
   (isl (buildRunestoneOpReturn edicts pointer) \<longleftrightarrow>
      isl (encodeRunestonePayload edicts pointer) \<or>
      520 < length (projr (encodeRunestonePayload edicts pointer)))"
  using payload_isl [of edicts pointer]
  by (cases "encodeRunestonePayload edicts pointer")
    (auto simp: buildRunestoneOpReturn_def MAX_OP_RETURN_PUSH_BYTES_def)

theorem runestone_errors_witness:
  "isl (encodeRunestonePayload [] (Some (JInt (-1))))"
  using runestone_errors [of "[]" "Some (JInt (-1))"] by (simp add: pointerOk_def)

text \<open>
  Two edicts of different runes of one block are not what the runestone protocol reads: the
  encoder writes the second transaction index whole where the protocol adds it to the first, so
  the amount meant for rune 5:7 goes to rune 5:10.
\<close>

theorem runestone_same_block_misread:
  "\<exists>payload. encodeRunestonePayload
       [\<lparr>re_runeId = ''5:3'', re_amount = 10, re_output = JInt 1\<rparr>,
        \<lparr>re_runeId = ''5:7'', re_amount = 20, re_output = JInt 1\<rparr>] None = Inr payload \<and>
     readPayload payload = Some (None, [(5, 3, 10, 1), (5, 7, 20, 1)]) \<and>
     protocolPayload payload = Some (None, [(5, 3, 10, 1), (5, 10, 20, 1)])"
proof -
  have "encodeRunestonePayload
       [\<lparr>re_runeId = ''5:3'', re_amount = 10, re_output = JInt 1\<rparr>,
        \<lparr>re_runeId = ''5:7'', re_amount = 20, re_output = JInt 1\<rparr>] None = Inr [0, 5, 3, 10, 1, 0, 7, 20, 1]"
    by (simp add: sample_eval)
  moreover have "readPayload [0, 5, 3, 10, 1, 0, 7, 20, 1] = Some (None, [(5, 3, 10, 1), (5, 7, 20, 1)])"
    by code_simp
  moreover have "protocolPayload [0, 5, 3, 10, 1, 0, 7, 20, 1] = Some (None, [(5, 3, 10, 1), (5, 10, 20, 1)])"
    by code_simp
  ultimately show ?thesis by blast
qed

text \<open>
  An accepted script is \<open>OP_RETURN OP_13\<close>, one push opcode that names the payload's length, and
  the payload, which ends the script.
\<close>

theorem runestone_script_layout:
  assumes "buildRunestoneOpReturn edicts pointer = Inr script"
  shows "\<exists>payload. encodeRunestonePayload edicts pointer = Inr payload \<and> length payload \<le> 520 \<and>
    take 2 script = [0x6a, 0x5d] \<and>
    (if length payload < 76 then uint (script ! 2) = int (length payload) \<and> drop 3 script = payload
     else if length payload < 256
     then script ! 2 = 0x4c \<and> uint (script ! 3) = int (length payload) \<and> drop 4 script = payload
     else script ! 2 = 0x4d \<and> uint (script ! 3) + 256 * uint (script ! 4) = int (length payload)
          \<and> drop 5 script = payload)"
proof -
  obtain payload where p: "encodeRunestonePayload edicts pointer = Inr payload" "length payload \<le> 520"
    "script = [0x6a, 0x5d] @ pushDataPrefix (length payload) @ payload"
    using assms by (auto simp: buildRunestoneOpReturn_def MAX_OP_RETURN_PUSH_BYTES_def rbind_eq_Inr_iff split: if_splits)
  consider "length payload < 76" | "76 \<le> length payload" "length payload < 256" | "256 \<le> length payload"
    by linarith
  then show ?thesis
  proof cases
    case 1
    then show ?thesis using p pushDataPrefix_read [OF p(2)] by (simp del: unsigned_of_nat)
  next
    case 2
    then show ?thesis using p pushDataPrefix_read [OF p(2)] by (simp del: unsigned_of_nat)
  next
    case 3
    then show ?thesis using p pushDataPrefix_read [OF p(2)] by (simp del: unsigned_of_nat)
  qed
qed

theorem runestone_script_layout_witness:
  "\<exists>payload. buildRunestoneOpReturn sampleEdicts None = Inr (0x6a # 0x5d # 0x08 # payload)
     \<and> encodeRunestonePayload sampleEdicts None = Inr payload"
proof -
  have s: "buildRunestoneOpReturn sampleEdicts None
      = Inr [0x6a, 0x5d, 0x08, 0x00, 0xb1, 0xbd, 0x04, 0xbf, 0x01, 0x13, 0x02]"
    by (simp add: buildRunestoneOpReturn_def sample_payload MAX_OP_RETURN_PUSH_BYTES_def pushDataPrefix_def)
  obtain payload where "encodeRunestonePayload sampleEdicts None = Inr payload"
    using runestone_script_layout [OF s] by blast
  then show ?thesis using s sample_payload by simp
qed

end
