(* ===== verification/BtcProtection.thy ===== *)
theory BtcProtection
  imports JsNumbers
begin

text \<open>
  \<open>apps/chrome-wallet/src/utils/btc-protection.ts\<close> and the output shape of \<open>utils/indexer.ts\<close>:
  which Bitcoin outputs carry an inscription or a rune and must stay out of plain coin selection.

  Indexer data is not trusted to have its declared type: an optional array that is absent or no
  array is \<open>None\<close>, an entry that is null is \<open>None\<close>, and so is a field that is not a string.
\<close>

record utxo_rune =
  ru_rune_id :: "string option"
  ru_amount :: "string option"

record btc_utxo =
  u_txid :: string
  u_vout :: int
  u_value :: int
  u_inscriptions :: "string option list option"
  u_runes :: "utxo_rune option list option"
  u_risky_runes :: "utxo_rune option list option"

definition inscriptionCount :: "btc_utxo \<Rightarrow> nat" where
  "inscriptionCount utxo = (case u_inscriptions utxo of Some arr \<Rightarrow> length arr | None \<Rightarrow> 0)"

fun countRunes :: "utxo_rune option list \<Rightarrow> nat \<Rightarrow> nat" where
  "countRunes [] n = n"
| "countRunes (None # rs) n = countRunes rs n"
| "countRunes (Some r # rs) n =
     (case ru_amount r of
        None \<Rightarrow> countRunes rs n
      | Some amount \<Rightarrow> (case js_BigInt amount of
          Some v \<Rightarrow> countRunes rs (if v > 0 then n + 1 else n)
        | None \<Rightarrow> countRunes rs (n + 1)))"

definition nonZeroRuneCount :: "utxo_rune option list option \<Rightarrow> nat" where
  "nonZeroRuneCount runes = (case runes of None \<Rightarrow> 0 | Some rs \<Rightarrow> countRunes rs 0)"

definition isProtectedUtxo :: "btc_utxo \<Rightarrow> bool" where
  "isProtectedUtxo utxo \<longleftrightarrow>
     inscriptionCount utxo > 0 \<or> nonZeroRuneCount (u_runes utxo) > 0 \<or> nonZeroRuneCount (u_risky_runes utxo) > 0"

datatype protection_reason = InscriptionReason nat | RuneReason nat | RiskyRuneReason nat

definition reasonsForUtxo :: "btc_utxo \<Rightarrow> protection_reason list" where
  "reasonsForUtxo utxo =
     (let insc = inscriptionCount utxo;
          runes = nonZeroRuneCount (u_runes utxo);
          risky = nonZeroRuneCount (u_risky_runes utxo)
      in (if insc > 0 then [InscriptionReason insc] else [])
         @ (if runes > 0 then [RuneReason runes] else [])
         @ (if risky > 0 then [RiskyRuneReason risky] else []))"

record partitioned_utxos =
  pu_spendable :: "btc_utxo list"
  pu_protected :: "btc_utxo list"
  pu_spendableSats :: int
  pu_protectedSats :: int

fun partitionLoop :: "btc_utxo list \<Rightarrow> partitioned_utxos \<Rightarrow> partitioned_utxos" where
  "partitionLoop [] p = p"
| "partitionLoop (u # us) p =
     partitionLoop us
       (if isProtectedUtxo u
        then p\<lparr>pu_protected := pu_protected p @ [u], pu_protectedSats := pu_protectedSats p + u_value u\<rparr>
        else p\<lparr>pu_spendable := pu_spendable p @ [u], pu_spendableSats := pu_spendableSats p + u_value u\<rparr>)"

definition partitionByProtection :: "btc_utxo list \<Rightarrow> partitioned_utxos" where
  "partitionByProtection utxos =
     partitionLoop utxos \<lparr>pu_spendable = [], pu_protected = [], pu_spendableSats = 0, pu_protectedSats = 0\<rparr>"

subsection \<open>The partition\<close>

abbreviation sats :: "btc_utxo list \<Rightarrow> int" where
  "sats us \<equiv> sum_list (map u_value us)"

lemma partitionLoop_eq:
  "partitionLoop us p = \<lparr>pu_spendable = pu_spendable p @ filter (\<lambda>u. \<not> isProtectedUtxo u) us,
     pu_protected = pu_protected p @ filter isProtectedUtxo us,
     pu_spendableSats = pu_spendableSats p + sats (filter (\<lambda>u. \<not> isProtectedUtxo u) us),
     pu_protectedSats = pu_protectedSats p + sats (filter isProtectedUtxo us)\<rparr>"
  by (induction us arbitrary: p) simp_all

lemma partition_eq [simp]:
  "pu_spendable (partitionByProtection us) = filter (\<lambda>u. \<not> isProtectedUtxo u) us"
  "pu_protected (partitionByProtection us) = filter isProtectedUtxo us"
  "pu_spendableSats (partitionByProtection us) = sats (filter (\<lambda>u. \<not> isProtectedUtxo u) us)"
  "pu_protectedSats (partitionByProtection us) = sats (filter isProtectedUtxo us)"
  by (simp_all add: partitionByProtection_def partitionLoop_eq)

lemma sats_partition: "sats (filter P us) + sats (filter (\<lambda>u. \<not> P u) us) = sats us"
  by (induction us) auto

text \<open>An entry that counts: its amount is text that is not a number from 0 down.\<close>

definition heldRune :: "utxo_rune option \<Rightarrow> bool" where
  "heldRune r \<longleftrightarrow> (\<exists>x a. r = Some x \<and> ru_amount x = Some a \<and> (\<forall>v. js_BigInt a = Some v \<longrightarrow> 0 < v))"

lemma countRunes_eq: "countRunes rs n = n + length (filter heldRune rs)"
proof (induction rs arbitrary: n)
  case Nil
  then show ?case by simp
next
  case (Cons r rs)
  show ?case
  proof (cases r)
    case None
    then show ?thesis using Cons by (simp add: heldRune_def)
  next
    case (Some x)
    then show ?thesis using Cons
      by (cases "ru_amount x"; cases "js_BigInt (the (ru_amount x))") (auto simp: heldRune_def)
  qed
qed

lemma nonZeroRuneCount_pos: "0 < nonZeroRuneCount runes \<longleftrightarrow> (\<exists>rs. runes = Some rs \<and> (\<exists>r\<in>set rs. heldRune r))"
  by (auto simp: nonZeroRuneCount_def countRunes_eq filter_empty_conv split: option.splits)

lemma isProtectedUtxo_iff:
  "isProtectedUtxo u \<longleftrightarrow> (\<exists>ins. u_inscriptions u = Some ins \<and> ins \<noteq> [])
     \<or> (\<exists>rs r. (u_runes u = Some rs \<or> u_risky_runes u = Some rs) \<and> r \<in> set rs \<and> heldRune r)"
  by (auto simp: isProtectedUtxo_def nonZeroRuneCount_pos inscriptionCount_def split: option.splits)

lemma reasons_Nil_iff: "reasonsForUtxo u = [] \<longleftrightarrow> \<not> isProtectedUtxo u"
  by (simp add: reasonsForUtxo_def isProtectedUtxo_def Let_def)

end
