(* ===== verification/CoinSelect.thy ===== *)
theory CoinSelect
  imports BtcProtection
begin

text \<open>
  Coin selection of the wallet: plain sends (\<open>selectUtxos\<close> of \<open>utils/btc-psbt.ts\<close>), rune sends
  (\<open>utils/rune-coin-select.ts\<close>) and inscription sends (\<open>utils/inscription-coin-select.ts\<close>).
\<close>

datatype select_error =
    InsufficientSpendableBtc int int
  | InsufficientBalance int int
  | NonPositiveTarget
  | InsufficientRuneBalance int int
  | InsufficientBtcForRuneSend int int
  | InscriptionNotFound string
  | InsufficientBtcForInscriptionSend int int

text \<open>The key \<open>`${u.txid}:${u.vout}`\<close> of an output.\<close>

definition outpointKey :: "btc_utxo \<Rightarrow> string" where
  "outpointKey u = u_txid u @ '':'' @ show_int (u_vout u)"

text \<open>
  The loops that push first and test after: \<open>for (const u of us) { picked.push(u); acc += f(u);
  if (acc >= need) break; }\<close>.
\<close>

fun pick_push :: "('a \<Rightarrow> int) \<Rightarrow> int \<Rightarrow> int \<Rightarrow> 'a list \<Rightarrow> 'a list" where
  "pick_push f need acc [] = []"
| "pick_push f need acc (u # us) =
     u # (if acc + f u \<ge> need then [] else pick_push f need (acc + f u) us)"

subsection \<open>Plain sends\<close>

definition selectUtxos :: "btc_utxo list \<Rightarrow> int \<Rightarrow> int \<Rightarrow> select_error + btc_utxo list \<times> int" where
  "selectUtxos utxos targetSats feeSats =
     (let p = partitionByProtection utxos;
          needed = targetSats + feeSats;
          sorted = js_sort (descending u_value) (pu_spendable p);
          selected = pick_push u_value needed 0 sorted;
          total = sum_list (map u_value selected)
      in if total < needed
         then if pu_protectedSats p > 0 \<and> pu_spendableSats p + pu_protectedSats p \<ge> needed
              then Inl (InsufficientSpendableBtc (pu_spendableSats p) (pu_protectedSats p))
              else Inl (InsufficientBalance total needed)
         else Inr (selected, total))"

subsection \<open>Rune sends\<close>

fun sumRune :: "string \<Rightarrow> utxo_rune option list \<Rightarrow> int \<Rightarrow> int" where
  "sumRune runeId [] s = s"
| "sumRune runeId (None # rs) s = sumRune runeId rs s"
| "sumRune runeId (Some r # rs) s =
     (if ru_rune_id r \<noteq> Some runeId then sumRune runeId rs s
      else case ru_amount r of
        None \<Rightarrow> sumRune runeId rs s
      | Some amount \<Rightarrow> (case js_BigInt amount of
          Some v \<Rightarrow> sumRune runeId rs (s + v)
        | None \<Rightarrow> sumRune runeId rs s))"

definition getRuneBalanceOnUtxo :: "btc_utxo \<Rightarrow> string \<Rightarrow> int" where
  "getRuneBalanceOnUtxo utxo runeId = (case u_runes utxo of None \<Rightarrow> 0 | Some rs \<Rightarrow> sumRune runeId rs 0)"

definition isEligibleRunedUtxo :: "btc_utxo \<Rightarrow> string \<Rightarrow> bool" where
  "isEligibleRunedUtxo utxo runeId =
     (if (case u_inscriptions utxo of Some arr \<Rightarrow> arr \<noteq> [] | None \<Rightarrow> False) then False
      else if (case u_risky_runes utxo of Some arr \<Rightarrow> arr \<noteq> [] | None \<Rightarrow> False) then False
      else getRuneBalanceOnUtxo utxo runeId > 0)"

record rune_select_input =
  rs_utxos :: "btc_utxo list"
  rs_targetRuneId :: string
  rs_targetAmount :: int
  rs_recipientDustSats :: int
  rs_changeDustSats :: int
  rs_feeSats :: int

record rune_select_result =
  rr_runedInputs :: "btc_utxo list"
  rr_btcInputs :: "btc_utxo list"
  rr_totalInputSats :: int
  rr_targetRuneTotal :: int
  rr_leftoverRune :: int

definition runeCandidates :: "btc_utxo list \<Rightarrow> string \<Rightarrow> (btc_utxo \<times> int) list" where
  "runeCandidates utxos runeId =
     js_sort (\<lambda>a b. if snd b > snd a then 1 else if snd b < snd a then -1 else 0)
       (map (\<lambda>u. (u, getRuneBalanceOnUtxo u runeId)) (filter (\<lambda>u. isEligibleRunedUtxo u runeId) utxos))"

definition selectUtxosForRuneSend :: "rune_select_input \<Rightarrow> select_error + rune_select_result" where
  "selectUtxosForRuneSend input =
     (if rs_targetAmount input \<le> 0 then Inl NonPositiveTarget
      else
        let utxos = rs_utxos input;
            candidates = runeCandidates utxos (rs_targetRuneId input);
            picked = pick_push snd (rs_targetAmount input) 0 candidates;
            runedInputs = map fst picked;
            targetRuneTotal = sum_list (map snd picked);
            runedSats = sum_list (map u_value runedInputs);
            needSats = rs_recipientDustSats input + rs_changeDustSats input + rs_feeSats input;
            result = (\<lambda>btcInputs total.
              Inr \<lparr>rr_runedInputs = runedInputs, rr_btcInputs = btcInputs, rr_totalInputSats = total,
                   rr_targetRuneTotal = targetRuneTotal,
                   rr_leftoverRune = targetRuneTotal - rs_targetAmount input\<rparr>)
        in if targetRuneTotal < rs_targetAmount input
           then Inl (InsufficientRuneBalance (sum_list (map snd candidates)) (rs_targetAmount input))
           else if runedSats < needSats
           then let p = partitionByProtection utxos;
                    runedKeys = map outpointKey runedInputs;
                    extras = js_sort (descending u_value)
                      (filter (\<lambda>u. outpointKey u \<notin> set runedKeys) (pu_spendable p));
                    btcInputs = pick_until u_value needSats runedSats extras;
                    total = runedSats + sum_list (map u_value btcInputs)
                in if total < needSats
                   then Inl (InsufficientBtcForRuneSend (pu_spendableSats p + runedSats) needSats)
                   else result btcInputs total
           else result [] runedSats)"

subsection \<open>Inscription sends\<close>

text \<open>\<open>satpoint.split(":")\<close>: the first two parts, if there are two.\<close>

definition outpointFromSatpoint :: "string option \<Rightarrow> string option" where
  "outpointFromSatpoint satpoint =
     (case satpoint of
        None \<Rightarrow> None
      | Some sp \<Rightarrow>
          if sp = [] then None
          else case split_at_char (CHR '':'') sp of
            (txid, None) \<Rightarrow> None
          | (txid, Some rest) \<Rightarrow>
              (case js_Number (fst (split_at_char (CHR '':'') rest)) of
                 JInt vout \<Rightarrow> if txid = [] \<or> vout < 0 then None else Some (txid @ '':'' @ show_int vout)
               | JNonInteger \<Rightarrow> None))"

definition carriesInscription :: "string \<Rightarrow> btc_utxo \<Rightarrow> bool" where
  "carriesInscription inscriptionId u =
     (case u_inscriptions u of Some ins \<Rightarrow> Some inscriptionId \<in> set ins | None \<Rightarrow> False)"

definition findInscribedUtxo :: "btc_utxo list \<Rightarrow> string \<Rightarrow> string option \<Rightarrow> btc_utxo option" where
  "findInscribedUtxo utxos inscriptionId satpoint =
     (let byId = List.find (carriesInscription inscriptionId) utxos
      in case outpointFromSatpoint satpoint of
           None \<Rightarrow> byId
         | Some outpoint \<Rightarrow> (case List.find (\<lambda>u. outpointKey u = outpoint) utxos of
             Some u \<Rightarrow> Some u
           | None \<Rightarrow> byId))"

record inscription_select_result =
  ir_inscribedUtxo :: btc_utxo
  ir_btcInputs :: "btc_utxo list"
  ir_inscribedValueSats :: int
  ir_totalInputSats :: int

definition selectUtxosForInscriptionSend ::
    "btc_utxo list \<Rightarrow> string \<Rightarrow> string option \<Rightarrow> int \<Rightarrow> select_error + inscription_select_result" where
  "selectUtxosForInscriptionSend utxos inscriptionId satpoint feeSats =
     (case findInscribedUtxo utxos inscriptionId satpoint of
        None \<Rightarrow> Inl (InscriptionNotFound inscriptionId)
      | Some inscribed \<Rightarrow>
          let p = partitionByProtection utxos;
              candidates = js_sort (descending u_value)
                (filter (\<lambda>u. outpointKey u \<noteq> outpointKey inscribed) (pu_spendable p));
              btcInputs = pick_until u_value feeSats 0 candidates;
              btcInputSats = sum_list (map u_value btcInputs)
          in if btcInputSats < feeSats
             then Inl (InsufficientBtcForInscriptionSend (pu_spendableSats p) feeSats)
             else Inr \<lparr>ir_inscribedUtxo = inscribed, ir_btcInputs = btcInputs,
                       ir_inscribedValueSats = u_value inscribed,
                       ir_totalInputSats = u_value inscribed + btcInputSats\<rparr>)"

subsection \<open>Picking\<close>

lemma pick_push_prefix: "\<exists>rest. us = pick_push f need acc us @ rest"
  by (induction us arbitrary: acc) auto

lemma set_pick_push: "set (pick_push f need acc us) \<subseteq> set us"
  using pick_push_prefix [of us f need acc] by (metis Un_upper1 set_append)

lemma mset_pick_push: "mset (pick_push f need acc us) \<subseteq># mset us"
  using pick_push_prefix [of us f need acc] by (metis mset_append mset_subset_eq_add_left)

lemma mset_pick_until: "mset (pick_until f need acc us) \<subseteq># mset us"
  using pick_until_prefix [of us f need acc] by (metis mset_append mset_subset_eq_add_left)

lemma pick_push_short:
  "\<not> need \<le> acc + sum_list (map f (pick_push f need acc us)) \<Longrightarrow> pick_push f need acc us = us"
  by (induction us arbitrary: acc) (auto simp: add.assoc split: if_splits)

text \<open>With values that are not negative the pick covers the need whenever the whole list does.\<close>

lemma pick_push_covers:
  assumes "\<forall>u\<in>set us. 0 \<le> f u"
  shows "need \<le> acc + sum_list (map f (pick_push f need acc us)) \<longleftrightarrow> need \<le> acc + sum_list (map f us)"
proof
  obtain rest where r: "us = pick_push f need acc us @ rest" using pick_push_prefix by blast
  then have "\<forall>u\<in>set rest. 0 \<le> f u" using assms by (metis Un_iff set_append)
  then have "0 \<le> sum_list (map f rest)" by (intro sum_list_nonneg) auto
  moreover have "sum_list (map f us) = sum_list (map f (pick_push f need acc us)) + sum_list (map f rest)"
    using r by (metis map_append sum_list.append)
  moreover assume "need \<le> acc + sum_list (map f (pick_push f need acc us))"
  ultimately show "need \<le> acc + sum_list (map f us)" by linarith
next
  assume "need \<le> acc + sum_list (map f us)"
  then show "need \<le> acc + sum_list (map f (pick_push f need acc us))" using pick_push_short by metis
qed

text \<open>Only the last element picked is needed to cover.\<close>

lemma pick_push_minimal:
  "acc < need \<Longrightarrow> pick_push f need acc us \<noteq> [] \<Longrightarrow>
   acc + sum_list (map f (butlast (pick_push f need acc us))) < need"
proof (induction us arbitrary: acc)
  case Nil
  then show ?case by simp
next
  case (Cons u us)
  then show ?case
    using Cons.IH [of "acc + f u"]
    by (cases "acc + f u \<ge> need"; cases "pick_push f need (acc + f u) us") (auto simp: add.assoc)
qed

subsection \<open>Plain sends only touch plain outputs\<close>

definition nonneg :: "btc_utxo list \<Rightarrow> bool" where
  "nonneg us \<longleftrightarrow> (\<forall>u\<in>set us. 0 \<le> u_value u)"

lemma sats_nonneg: "nonneg us \<Longrightarrow> 0 \<le> sats us"
  by (auto simp: nonneg_def intro!: sum_list_nonneg)

lemma nonneg_subset: "nonneg us \<Longrightarrow> set vs \<subseteq> set us \<Longrightarrow> nonneg vs"
  by (auto simp: nonneg_def)

abbreviation plain :: "btc_utxo list \<Rightarrow> btc_utxo list" where
  "plain us \<equiv> filter (\<lambda>u. \<not> isProtectedUtxo u) us"

lemma selectUtxos_cases:
  assumes "nonneg utxos" "0 < t + f"
  shows "case selectUtxos utxos t f of
      Inr (sel, tot) \<Rightarrow> mset sel \<subseteq># mset (plain utxos) \<and> tot = sats sel \<and> t + f \<le> tot
        \<and> sats (butlast sel) < t + f
    | Inl (InsufficientSpendableBtc a b) \<Rightarrow> a = sats (plain utxos) \<and> a + b = sats utxos \<and> a < t + f \<and> t + f \<le> a + b
    | Inl (InsufficientBalance have need) \<Rightarrow> have = sats (plain utxos) \<and> need = t + f \<and> sats utxos < t + f
    | Inl _ \<Rightarrow> False"
proof -
  let ?sorted = "js_sort (descending u_value) (plain utxos)"
  let ?sel = "pick_push u_value (t + f) 0 ?sorted"
  have nn: "nonneg (filter isProtectedUtxo utxos)" using assms(1) by (auto simp: nonneg_def)
  have msel: "mset ?sel \<subseteq># mset (plain utxos)"
    using mset_pick_push [of u_value "t + f" 0 ?sorted] by simp
  have short: "sats ?sel = sats (plain utxos)" if "sats ?sel < t + f"
    using pick_push_short [of "t + f" 0 u_value ?sorted] that sum_list_js_sort [of u_value "descending u_value"]
    by (metis add_0 linorder_not_le)
  have min: "sats (butlast ?sel) < t + f"
    using pick_push_minimal [of 0 "t + f" u_value ?sorted] assms(2) by (cases "?sel = []") auto
  show ?thesis
    using msel short min sats_partition [of isProtectedUtxo utxos] sats_nonneg [OF nn]
    by (auto simp: selectUtxos_def Let_def)
qed

subsection \<open>Rune sends\<close>

lemma sumRune_acc: "sumRune runeId rs s = s + sumRune runeId rs 0"
proof (induction rs arbitrary: s)
  case Nil
  then show ?case by simp
next
  case (Cons r rs)
  show ?case
  proof (cases r)
    case None
    then show ?thesis using Cons [of s] by simp
  next
    case (Some x)
    then show ?thesis
      using Cons [of s] Cons [of "s + the (js_BigInt (the (ru_amount x)))"] Cons [of "the (js_BigInt (the (ru_amount x)))"]
      by (cases "ru_amount x"; cases "js_BigInt (the (ru_amount x))") auto
  qed
qed

text \<open>A positive balance comes from an entry that protects the output.\<close>

lemma sumRune_pos: "0 < sumRune runeId rs 0 \<Longrightarrow> \<exists>r\<in>set rs. heldRune r"
proof (induction rs)
  case Nil
  then show ?case by simp
next
  case (Cons r rs)
  show ?case
  proof (cases "heldRune r \<or> 0 < sumRune runeId rs 0")
    case True
    then show ?thesis using Cons by auto
  next
    case False
    obtain x where x: "r = Some x" using Cons False by (cases r) auto
    then have "ru_rune_id x = Some runeId"
      using Cons.prems False by (cases "ru_rune_id x = Some runeId") simp_all
    then obtain a where a: "ru_amount x = Some a" using Cons.prems False x by (cases "ru_amount x") auto
    obtain v where "js_BigInt a = Some v" "v \<le> 0" using False x a by (auto simp: heldRune_def)
    then show ?thesis
      using Cons.prems False x a \<open>ru_rune_id x = Some runeId\<close> sumRune_acc [of runeId rs v] by simp
  qed
qed

lemma eligible_protected: "isEligibleRunedUtxo u runeId \<Longrightarrow> isProtectedUtxo u"
proof -
  assume "isEligibleRunedUtxo u runeId"
  then have "0 < getRuneBalanceOnUtxo u runeId" by (auto simp: isEligibleRunedUtxo_def split: if_splits)
  then obtain rs where "u_runes u = Some rs" "0 < sumRune runeId rs 0"
    by (auto simp: getRuneBalanceOnUtxo_def split: option.splits)
  then show ?thesis using sumRune_pos [of runeId rs] by (auto simp: isProtectedUtxo_iff)
qed

interpretation rune_order: comparator "\<lambda>a b :: 'a \<times> int. if snd b > snd a then 1 else if snd b < snd a then -1 else 0"
  by unfold_locales (auto split: if_splits)

definition eligible :: "string \<Rightarrow> btc_utxo list \<Rightarrow> btc_utxo list" where
  "eligible runeId us = filter (\<lambda>u. isEligibleRunedUtxo u runeId) us"

definition runeTotal :: "string \<Rightarrow> btc_utxo list \<Rightarrow> int" where
  "runeTotal runeId us = sum_list (map (\<lambda>u. getRuneBalanceOnUtxo u runeId) us)"

lemma mset_runeCandidates:
  "mset (runeCandidates us rid) = mset (map (\<lambda>u. (u, getRuneBalanceOnUtxo u rid)) (eligible rid us))"
  by (simp add: runeCandidates_def eligible_def)

lemma runeCandidates_pair: "(u, n) \<in> set (runeCandidates us rid) \<Longrightarrow> n = getRuneBalanceOnUtxo u rid \<and> 0 < n \<and> u \<in> set (eligible rid us)"
proof -
  assume "(u, n) \<in> set (runeCandidates us rid)"
  then have "(u, n) \<in> set (map (\<lambda>u. (u, getRuneBalanceOnUtxo u rid)) (eligible rid us))"
    by (metis mset_runeCandidates set_mset_mset)
  then show ?thesis by (auto simp: eligible_def isEligibleRunedUtxo_def split: if_splits)
qed

lemma sum_runeCandidates: "sum_list (map snd (runeCandidates us rid)) = runeTotal rid (eligible rid us)"
proof -
  have "mset (map snd (runeCandidates us rid)) = mset (map (\<lambda>u. getRuneBalanceOnUtxo u rid) (eligible rid us))"
    by (simp add: mset_runeCandidates multiset.map_comp comp_def)
  then show ?thesis unfolding runeTotal_def by (metis sum_mset_sum_list)
qed

text \<open>The outputs picked for the target rune.\<close>

definition runePick :: "btc_utxo list \<Rightarrow> string \<Rightarrow> int \<Rightarrow> (btc_utxo \<times> int) list" where
  "runePick us rid amount = pick_push snd amount 0 (runeCandidates us rid)"

lemma runePick_facts:
  "mset (map fst (runePick us rid amount)) \<subseteq># mset (eligible rid us)"
  "sum_list (map snd (runePick us rid amount)) = runeTotal rid (map fst (runePick us rid amount))"
  "amount \<le> sum_list (map snd (runePick us rid amount)) \<longleftrightarrow> amount \<le> runeTotal rid (eligible rid us)"
proof -
  have "mset (map fst (runePick us rid amount)) \<subseteq># mset (map fst (runeCandidates us rid))"
    unfolding runePick_def mset_map by (rule image_mset_subseteq_mono [OF mset_pick_push])
  then show "mset (map fst (runePick us rid amount)) \<subseteq># mset (eligible rid us)"
    by (simp add: mset_runeCandidates multiset.map_comp comp_def)
  have "snd p = getRuneBalanceOnUtxo (fst p) rid" if "p \<in> set (runePick us rid amount)" for p
    using that set_pick_push [of snd amount 0 "runeCandidates us rid"] runeCandidates_pair [of "fst p" "snd p" us rid]
    by (auto simp: runePick_def)
  then show "sum_list (map snd (runePick us rid amount)) = runeTotal rid (map fst (runePick us rid amount))"
    unfolding runeTotal_def by (simp add: comp_def cong: map_cong)
  have "\<forall>p\<in>set (runeCandidates us rid). 0 \<le> snd p" using runeCandidates_pair by fastforce
  then show "amount \<le> sum_list (map snd (runePick us rid amount)) \<longleftrightarrow> amount \<le> runeTotal rid (eligible rid us)"
    using pick_push_covers [of "runeCandidates us rid" snd amount 0] by (simp add: runePick_def sum_runeCandidates)
qed

text \<open>The plain outputs that may top up, and the ones picked.\<close>

definition runeExtras :: "btc_utxo list \<Rightarrow> btc_utxo list \<Rightarrow> btc_utxo list" where
  "runeExtras us runed = js_sort (descending u_value)
     (filter (\<lambda>u. outpointKey u \<notin> set (map outpointKey runed)) (plain us))"

lemma set_runeExtras: "u \<in> set (runeExtras us runed) \<longleftrightarrow>
    u \<in> set us \<and> \<not> isProtectedUtxo u \<and> outpointKey u \<notin> outpointKey ` set runed"
  by (auto simp: runeExtras_def)

lemma runeSend_eq:
  assumes "0 < rs_targetAmount i"
  shows "selectUtxosForRuneSend i =
    (let us = rs_utxos i; rid = rs_targetRuneId i; amount = rs_targetAmount i;
         runed = map fst (runePick us rid amount);
         need = rs_recipientDustSats i + rs_changeDustSats i + rs_feeSats i;
         btc = (if sats runed < need then pick_until u_value need (sats runed) (runeExtras us runed) else [])
     in if runeTotal rid (eligible rid us) < amount
        then Inl (InsufficientRuneBalance (runeTotal rid (eligible rid us)) amount)
        else if sats runed + sats btc < need
        then Inl (InsufficientBtcForRuneSend (sats (plain us) + sats runed) need)
        else Inr \<lparr>rr_runedInputs = runed, rr_btcInputs = btc, rr_totalInputSats = sats runed + sats btc,
                  rr_targetRuneTotal = runeTotal rid runed, rr_leftoverRune = runeTotal rid runed - amount\<rparr>)"
  using assms runePick_facts(2,3) [where us = "rs_utxos i" and rid = "rs_targetRuneId i" and amount = "rs_targetAmount i"]
  by (auto simp: selectUtxosForRuneSend_def Let_def runePick_def [symmetric] runeExtras_def sum_runeCandidates)

lemma eligible_plain_disjoint: "mset (eligible rid us) + mset (plain us) \<subseteq># mset us"
proof -
  have "mset (eligible rid us) \<subseteq># mset (filter isProtectedUtxo us)"
    unfolding eligible_def by (rule mset_filter_mono) (rule eligible_protected)
  then have "mset (eligible rid us) + mset (plain us) \<subseteq># mset (filter isProtectedUtxo us) + mset (plain us)"
    by (intro subset_mset.add_mono) simp_all
  also have "mset (filter isProtectedUtxo us) + mset (plain us) = mset us"
    by (simp flip: multiset_partition)
  finally show ?thesis .
qed

lemma runeExtras_mset: "mset (runeExtras us runed) \<subseteq># mset (plain us)"
  unfolding runeExtras_def mset_js_sort by (rule mset_filter_sub)

lemma runeSend_Inr:
  assumes "selectUtxosForRuneSend i = Inr r"
  defines "us \<equiv> rs_utxos i" and "rid \<equiv> rs_targetRuneId i"
  shows "0 < rs_targetAmount i"
    and "mset (rr_runedInputs r) \<subseteq># mset (eligible rid us)"
    and "mset (rr_btcInputs r) \<subseteq># mset (plain us)"
    and "\<forall>u\<in>set (rr_btcInputs r). outpointKey u \<notin> outpointKey ` set (rr_runedInputs r)"
    and "rr_totalInputSats r = sats (rr_runedInputs r) + sats (rr_btcInputs r)"
    and "rs_recipientDustSats i + rs_changeDustSats i + rs_feeSats i \<le> rr_totalInputSats r"
    and "rr_targetRuneTotal r = runeTotal rid (rr_runedInputs r)"
    and "rs_targetAmount i \<le> rr_targetRuneTotal r"
    and "rr_leftoverRune r = rr_targetRuneTotal r - rs_targetAmount i"
proof -
  show pos: "0 < rs_targetAmount i" using assms(1) by (auto simp: selectUtxosForRuneSend_def split: if_splits)
  let ?runed = "map fst (runePick us rid (rs_targetAmount i))"
  let ?need = "rs_recipientDustSats i + rs_changeDustSats i + rs_feeSats i"
  let ?pick = "pick_until u_value ?need (sats ?runed) (runeExtras us ?runed)"
  note eq = runeSend_eq [OF pos, folded us_def rid_def]
  have r: "rr_runedInputs r = ?runed" "rr_btcInputs r = (if sats ?runed < ?need then ?pick else [])"
    "rr_totalInputSats r = sats ?runed + sats (rr_btcInputs r)" "?need \<le> rr_totalInputSats r"
    "rr_targetRuneTotal r = runeTotal rid ?runed" "rr_leftoverRune r = rr_targetRuneTotal r - rs_targetAmount i"
    "rs_targetAmount i \<le> runeTotal rid (eligible rid us)"
    using assms(1) unfolding eq by (auto simp: Let_def not_less split: if_splits)
  show "mset (rr_runedInputs r) \<subseteq># mset (eligible rid us)" using runePick_facts(1) by (simp add: r(1))
  have "mset ?pick \<subseteq># mset (plain us)"
    using mset_pick_until [of u_value ?need "sats ?runed" "runeExtras us ?runed"] runeExtras_mset [of us ?runed]
    by (rule subset_mset.order_trans)
  then show "mset (rr_btcInputs r) \<subseteq># mset (plain us)" by (simp add: r(2))
  have "outpointKey u \<notin> outpointKey ` set ?runed" if "u \<in> set ?pick" for u
    using that set_pick_until [of u_value ?need "sats ?runed" "runeExtras us ?runed"] set_runeExtras by blast
  then show "\<forall>u\<in>set (rr_btcInputs r). outpointKey u \<notin> outpointKey ` set (rr_runedInputs r)"
    by (simp add: r(1,2))
  show "rr_totalInputSats r = sats (rr_runedInputs r) + sats (rr_btcInputs r)" using r(1,3) by simp
  show "?need \<le> rr_totalInputSats r" by (rule r(4))
  show "rr_targetRuneTotal r = runeTotal rid (rr_runedInputs r)" using r(1,5) by simp
  show "rs_targetAmount i \<le> rr_targetRuneTotal r"
    using r(5,7) runePick_facts(2,3) [where us = us and rid = rid and amount = "rs_targetAmount i"] by simp
  show "rr_leftoverRune r = rr_targetRuneTotal r - rs_targetAmount i" by (rule r(6))
qed

lemma runeSend_spent_once:
  "selectUtxosForRuneSend i = Inr r \<Longrightarrow> mset (rr_runedInputs r @ rr_btcInputs r) \<subseteq># mset (rs_utxos i)"
  unfolding mset_append
  by (rule subset_mset.order_trans [OF subset_mset.add_mono [OF runeSend_Inr(2,3)] eligible_plain_disjoint])

lemma inj_on_keys: "distinct (map outpointKey us) \<Longrightarrow> u \<in> set us \<Longrightarrow> v \<in> set us \<Longrightarrow> outpointKey u = outpointKey v \<Longrightarrow> u = v"
  by (auto simp: distinct_map inj_on_def)

lemma plain_not_eligible_key:
  assumes "distinct (map outpointKey us)" "set runed \<subseteq> set (eligible rid us)"
  shows "filter (\<lambda>u. outpointKey u \<notin> set (map outpointKey runed)) (plain us) = plain us"
proof (rule filter_True, rule ballI)
  fix u
  assume u: "u \<in> set (plain us)"
  show "outpointKey u \<notin> set (map outpointKey runed)"
  proof
    assume "outpointKey u \<in> set (map outpointKey runed)"
    then obtain v where v: "v \<in> set runed" "outpointKey v = outpointKey u" by auto
    then have "v \<in> set us" "isProtectedUtxo v"
      using assms(2) by (auto simp: eligible_def eligible_protected)
    then show False using u v inj_on_keys [OF assms(1), of u v] by auto
  qed
qed

lemma runeSend_Inl:
  assumes "nonneg (rs_utxos i)" "distinct (map outpointKey (rs_utxos i))" "selectUtxosForRuneSend i = Inl e"
  defines "runed \<equiv> map fst (runePick (rs_utxos i) (rs_targetRuneId i) (rs_targetAmount i))"
  shows "(e = NonPositiveTarget \<and> rs_targetAmount i \<le> 0)
    \<or> (\<exists>have. e = InsufficientRuneBalance have (rs_targetAmount i) \<and> have < rs_targetAmount i
         \<and> have = runeTotal (rs_targetRuneId i) (eligible (rs_targetRuneId i) (rs_utxos i)))
    \<or> (\<exists>have need. e = InsufficientBtcForRuneSend have need \<and> have < need
         \<and> have = sats (plain (rs_utxos i)) + sats runed
         \<and> need = rs_recipientDustSats i + rs_changeDustSats i + rs_feeSats i)"
proof (cases "0 < rs_targetAmount i")
  case False
  then show ?thesis using assms(3) by (auto simp: selectUtxosForRuneSend_def)
next
  case True
  let ?us = "rs_utxos i"
  let ?need = "rs_recipientDustSats i + rs_changeDustSats i + rs_feeSats i"
  have "set runed \<subseteq> set (eligible (rs_targetRuneId i) ?us)"
    unfolding runed_def using runePick_facts(1) by (metis set_mset_mono set_mset_mset)
  then have extras: "sats (runeExtras ?us runed) = sats (plain ?us)"
    unfolding runeExtras_def using plain_not_eligible_key [OF assms(2)] by (metis sum_list_js_sort)
  have "nonneg (runeExtras ?us runed)"
    using assms(1) by (auto simp: nonneg_def set_runeExtras)
  then have "?need \<le> sats runed + sats (pick_until u_value ?need (sats runed) (runeExtras ?us runed))
      \<longleftrightarrow> ?need \<le> sats runed + sats (plain ?us)"
    using pick_until_covers [of "runeExtras ?us runed" u_value ?need "sats runed"]
    by (simp add: nonneg_def extras)
  then show ?thesis
    using assms(3) sats_nonneg [OF nonneg_subset [OF assms(1), of "plain ?us"]]
    unfolding runeSend_eq [OF True] by (auto simp: Let_def runed_def [symmetric] split: if_splits)
qed

subsection \<open>Inscription sends\<close>

lemma findInscribed_Some:
  assumes "findInscribedUtxo us insc sp = Some u"
  shows "u \<in> set us \<and> (outpointFromSatpoint sp = Some (outpointKey u) \<or> carriesInscription insc u)"
  using assms by (auto simp: findInscribedUtxo_def Let_def split: option.splits dest!: find_Some)

lemma findInscribed_None:
  "findInscribedUtxo us insc sp = None \<longleftrightarrow>
    (\<forall>u\<in>set us. \<not> carriesInscription insc u \<and> outpointFromSatpoint sp \<noteq> Some (outpointKey u))"
  by (auto simp: findInscribedUtxo_def Let_def find_None split: option.splits dest: find_Some)

definition inscriptionExtras :: "btc_utxo list \<Rightarrow> btc_utxo \<Rightarrow> btc_utxo list" where
  "inscriptionExtras us v = js_sort (descending u_value) (filter (\<lambda>u. outpointKey u \<noteq> outpointKey v) (plain us))"

lemma inscriptionSend_Inr:
  assumes "selectUtxosForInscriptionSend us insc sp fee = Inr r"
  shows "findInscribedUtxo us insc sp = Some (ir_inscribedUtxo r) \<and> mset (ir_btcInputs r) \<subseteq># mset (plain us)
    \<and> (\<forall>u\<in>set (ir_btcInputs r). outpointKey u \<noteq> outpointKey (ir_inscribedUtxo r))
    \<and> fee \<le> sats (ir_btcInputs r) \<and> ir_inscribedValueSats r = u_value (ir_inscribedUtxo r)
    \<and> ir_totalInputSats r = u_value (ir_inscribedUtxo r) + sats (ir_btcInputs r)"
proof -
  obtain v where v: "findInscribedUtxo us insc sp = Some v"
    using assms by (auto simp: selectUtxosForInscriptionSend_def split: option.splits)
  let ?b = "pick_until u_value fee 0 (inscriptionExtras us v)"
  have r: "r = \<lparr>ir_inscribedUtxo = v, ir_btcInputs = ?b, ir_inscribedValueSats = u_value v,
      ir_totalInputSats = u_value v + sats ?b\<rparr>" "fee \<le> sats ?b"
    using assms v by (auto simp: selectUtxosForInscriptionSend_def Let_def inscriptionExtras_def split: if_splits)
  have "mset (inscriptionExtras us v) \<subseteq># mset (plain us)"
    unfolding inscriptionExtras_def mset_js_sort by (rule mset_filter_sub)
  with mset_pick_until [of u_value fee 0 "inscriptionExtras us v"] have "mset ?b \<subseteq># mset (plain us)"
    by (rule subset_mset.order_trans)
  moreover have "\<forall>u\<in>set ?b. outpointKey u \<noteq> outpointKey v"
    using set_pick_until [of u_value fee 0 "inscriptionExtras us v"] by (auto simp: inscriptionExtras_def)
  ultimately show ?thesis using v r by simp
qed

lemma inscriptionSend_Inl:
  assumes "nonneg us" "selectUtxosForInscriptionSend us insc sp fee = Inl e"
  shows "(e = InscriptionNotFound insc \<and> findInscribedUtxo us insc sp = None)
    \<or> (\<exists>v. findInscribedUtxo us insc sp = Some v \<and> e = InsufficientBtcForInscriptionSend (sats (plain us)) fee
         \<and> sats (filter (\<lambda>u. outpointKey u \<noteq> outpointKey v) (plain us)) < fee)"
proof (cases "findInscribedUtxo us insc sp")
  case None
  then show ?thesis using assms(2) by (simp add: selectUtxosForInscriptionSend_def)
next
  case (Some v)
  have "nonneg (inscriptionExtras us v)" using assms(1) by (auto simp: nonneg_def inscriptionExtras_def)
  moreover have "sats (inscriptionExtras us v) = sats (filter (\<lambda>u. outpointKey u \<noteq> outpointKey v) (plain us))"
    unfolding inscriptionExtras_def by (rule sum_list_js_sort)
  ultimately have "fee \<le> sats (pick_until u_value fee 0 (inscriptionExtras us v)) \<longleftrightarrow>
      fee \<le> sats (filter (\<lambda>u. outpointKey u \<noteq> outpointKey v) (plain us))"
    using pick_until_covers [of "inscriptionExtras us v" u_value fee 0] by (simp add: nonneg_def)
  moreover have "sats (pick_until u_value fee 0 (inscriptionExtras us v)) < fee \<and> e = InsufficientBtcForInscriptionSend (sats (plain us)) fee"
    using assms(2) Some unfolding selectUtxosForInscriptionSend_def inscriptionExtras_def Let_def
    by (simp only: option.case partition_eq) (simp split: if_splits)
  ultimately show ?thesis using Some by auto
qed

subsection \<open>Properties\<close>

definition plainUtxo :: "string \<Rightarrow> int \<Rightarrow> btc_utxo" where
  "plainUtxo txid v = \<lparr>u_txid = txid, u_vout = 0, u_value = v, u_inscriptions = None, u_runes = None,
     u_risky_runes = None\<rparr>"

definition runedUtxo :: "string \<Rightarrow> int \<Rightarrow> (string \<times> string) list \<Rightarrow> btc_utxo" where
  "runedUtxo txid v rs = \<lparr>u_txid = txid, u_vout = 1, u_value = v, u_inscriptions = None,
     u_runes = Some (map (\<lambda>(i, a). Some \<lparr>ru_rune_id = Some i, ru_amount = Some a\<rparr>) rs), u_risky_runes = None\<rparr>"

definition inscribedUtxo :: "string \<Rightarrow> int \<Rightarrow> string \<Rightarrow> btc_utxo" where
  "inscribedUtxo txid v i = \<lparr>u_txid = txid, u_vout = 2, u_value = v, u_inscriptions = Some [Some i],
     u_runes = None, u_risky_runes = None\<rparr>"

definition sampleUtxos :: "btc_utxo list" where
  "sampleUtxos = [inscribedUtxo ''aa'' 50000 ''x'', plainUtxo ''bb'' 10000, runedUtxo ''cc'' 546 [(''5:1'', ''30'')],
     plainUtxo ''dd'' 2000]"

lemma samplePlain: "plain sampleUtxos = [plainUtxo ''bb'' 10000, plainUtxo ''dd'' 2000]"
  by (simp add: sampleUtxos_def isProtectedUtxo_iff inscribedUtxo_def plainUtxo_def runedUtxo_def heldRune_def)
    (simp add: js_BigInt_def js_trim_def is_js_space_def char_code_def prefix_base_def js_lower_def lower_char_def
      split_sign_def is_digits_def digit_value_def hex_value_def HEX_DIGITS_def digits_value_def signed_def)

lemma sampleNonneg: "nonneg sampleUtxos"
  by (simp add: nonneg_def sampleUtxos_def inscribedUtxo_def plainUtxo_def runedUtxo_def)



text \<open>
  C36. A rune send is sound: no output is spent twice; the runed inputs all carry the target rune and
  neither inscriptions nor pending runes; the top-up inputs are plain; the sums reported are those
  of the inputs, they cover both dust outputs and the fee, and the leftover is the surplus of the
  target rune.
\<close>

theorem runeSend_sound:
  assumes "selectUtxosForRuneSend i = Inr r"
  shows "mset (rr_runedInputs r @ rr_btcInputs r) \<subseteq># mset (rs_utxos i)
    \<and> (\<forall>u\<in>set (rr_runedInputs r). isEligibleRunedUtxo u (rs_targetRuneId i))
    \<and> (\<forall>u\<in>set (rr_btcInputs r). \<not> isProtectedUtxo u)
    \<and> rr_totalInputSats r = sats (rr_runedInputs r @ rr_btcInputs r)
    \<and> rs_recipientDustSats i + rs_changeDustSats i + rs_feeSats i \<le> rr_totalInputSats r
    \<and> rr_targetRuneTotal r = runeTotal (rs_targetRuneId i) (rr_runedInputs r)
    \<and> 0 < rs_targetAmount i \<and> rs_targetAmount i \<le> rr_targetRuneTotal r
    \<and> rr_leftoverRune r = rr_targetRuneTotal r - rs_targetAmount i"
proof -
  note facts = runeSend_Inr [OF assms]
  have "set (rr_runedInputs r) \<subseteq> set (eligible (rs_targetRuneId i) (rs_utxos i))"
    and "set (rr_btcInputs r) \<subseteq> set (plain (rs_utxos i))"
    using facts(2,3) by (metis set_mset_mono set_mset_mset)+
  then show ?thesis using facts runeSend_spent_once [OF assms] by (auto simp: eligible_def)
qed

lemma getRune_eval:
  "getRuneBalanceOnUtxo (runedUtxo txid v rs) rid = sumRune rid (map (\<lambda>(i, a). Some \<lparr>ru_rune_id = Some i, ru_amount = Some a\<rparr>) rs) 0"
  by (simp add: getRuneBalanceOnUtxo_def runedUtxo_def)

lemma BigInt_30: "js_BigInt ''30'' = Some 30"
  by (simp add: js_BigInt_def js_trim_def is_js_space_def char_code_def prefix_base_def js_lower_def lower_char_def
      split_sign_def is_digits_def digit_value_def hex_value_def HEX_DIGITS_def digits_value_def signed_def)

lemma sampleEligible: "filter (\<lambda>u. isEligibleRunedUtxo u ''5:1'') sampleUtxos = [runedUtxo ''cc'' 546 [(''5:1'', ''30'')]]"
  by (simp add: sampleUtxos_def isEligibleRunedUtxo_def getRune_eval BigInt_30)
    (simp add: plainUtxo_def inscribedUtxo_def runedUtxo_def getRuneBalanceOnUtxo_def)

definition sampleRuneInput :: rune_select_input where
  "sampleRuneInput = \<lparr>rs_utxos = sampleUtxos, rs_targetRuneId = ''5:1'', rs_targetAmount = 10,
     rs_recipientDustSats = 546, rs_changeDustSats = 546, rs_feeSats = 1000\<rparr>"

lemma sampleRuneSend: "selectUtxosForRuneSend sampleRuneInput =
    Inr \<lparr>rr_runedInputs = [runedUtxo ''cc'' 546 [(''5:1'', ''30'')]], rr_btcInputs = [plainUtxo ''bb'' 10000],
      rr_totalInputSats = 10546, rr_targetRuneTotal = 30, rr_leftoverRune = 20\<rparr>"
proof -
  have c: "runeCandidates sampleUtxos ''5:1'' = [(runedUtxo ''cc'' 546 [(''5:1'', ''30'')], 30)]"
    by (simp add: runeCandidates_def sampleEligible getRune_eval BigInt_30)
  have e: "filter (\<lambda>u. outpointKey u \<notin> set (map outpointKey [runedUtxo ''cc'' 546 [(''5:1'', ''30'')]])) (plain sampleUtxos)
      = [plainUtxo ''bb'' 10000, plainUtxo ''dd'' 2000]"
    unfolding samplePlain by (simp add: outpointKey_def plainUtxo_def runedUtxo_def)
  have v: "u_value (runedUtxo t v rs) = v" "u_value (plainUtxo t v) = v" for t v rs
    by (simp_all add: runedUtxo_def plainUtxo_def)
  show ?thesis
    using e by (simp add: selectUtxosForRuneSend_def sampleRuneInput_def Let_def c descending_def v)
qed

theorem runeSend_sound_witness:
  "\<exists>r. selectUtxosForRuneSend sampleRuneInput = Inr r \<and> rr_leftoverRune r = 20 \<and>
     mset (rr_runedInputs r @ rr_btcInputs r) \<subseteq># mset sampleUtxos"
  using runeSend_sound [OF sampleRuneSend] sampleRuneSend
  by (simp add: sampleRuneInput_def add_mset_commute)

text \<open>
  A rune send fails only for want of funds, and reports them as they are: the rune balance of
  all eligible outputs below the amount, or the plain satoshis together with those of the runed
  inputs below both dust outputs and the fee.
\<close>

theorem runeSend_errors:
  assumes "nonneg (rs_utxos i)" "distinct (map outpointKey (rs_utxos i))" "selectUtxosForRuneSend i = Inl e"
  shows "(e = NonPositiveTarget \<and> rs_targetAmount i \<le> 0)
    \<or> (\<exists>have. e = InsufficientRuneBalance have (rs_targetAmount i) \<and> have < rs_targetAmount i
         \<and> have = runeTotal (rs_targetRuneId i) (eligible (rs_targetRuneId i) (rs_utxos i)))
    \<or> (\<exists>have need. e = InsufficientBtcForRuneSend have need \<and> have < need
         \<and> have = sats (plain (rs_utxos i)) + sats (map fst (runePick (rs_utxos i) (rs_targetRuneId i) (rs_targetAmount i)))
         \<and> need = rs_recipientDustSats i + rs_changeDustSats i + rs_feeSats i)"
  using assms by (rule runeSend_Inl)

theorem runeSend_errors_witness:
  "\<exists>have. selectUtxosForRuneSend (sampleRuneInput\<lparr>rs_targetAmount := 31\<rparr>) = Inl (InsufficientRuneBalance have 31) \<and> have < 31"
proof -
  let ?i = "sampleRuneInput\<lparr>rs_targetAmount := 31\<rparr>"
  have t: "runeTotal ''5:1'' (eligible ''5:1'' sampleUtxos) = 30"
    by (simp add: eligible_def sampleEligible runeTotal_def getRune_eval BigInt_30)
  then have e: "selectUtxosForRuneSend ?i = Inl (InsufficientRuneBalance 30 31)"
    by (subst runeSend_eq) (simp_all add: sampleRuneInput_def Let_def)
  have "distinct (map outpointKey sampleUtxos)"
    by (simp add: sampleUtxos_def outpointKey_def plainUtxo_def runedUtxo_def inscribedUtxo_def)
  then show ?thesis using runeSend_errors [OF _ _ e] e sampleNonneg by (simp add: sampleRuneInput_def)
qed

text \<open>
  An inscription send spends the output that was asked for (the satpoint's outpoint, else the
  first output that carries the inscription), pays the fee from plain outputs only, and fails only
  when there is no such output or the other plain outputs do not cover the fee.
\<close>

theorem inscriptionSend_spec:
  assumes "nonneg us"
  shows "case selectUtxosForInscriptionSend us insc sp fee of
      Inr r \<Rightarrow> findInscribedUtxo us insc sp = Some (ir_inscribedUtxo r) \<and> ir_inscribedUtxo r \<in> set us
        \<and> (outpointFromSatpoint sp = Some (outpointKey (ir_inscribedUtxo r)) \<or> carriesInscription insc (ir_inscribedUtxo r))
        \<and> mset (ir_btcInputs r) \<subseteq># mset (plain us)
        \<and> (\<forall>u\<in>set (ir_btcInputs r). outpointKey u \<noteq> outpointKey (ir_inscribedUtxo r))
        \<and> fee \<le> sats (ir_btcInputs r)
        \<and> ir_totalInputSats r = ir_inscribedValueSats r + sats (ir_btcInputs r)
        \<and> ir_inscribedValueSats r = u_value (ir_inscribedUtxo r)
    | Inl e \<Rightarrow> (e = InscriptionNotFound insc \<and>
          (\<forall>u\<in>set us. \<not> carriesInscription insc u \<and> outpointFromSatpoint sp \<noteq> Some (outpointKey u)))
        \<or> (\<exists>v. findInscribedUtxo us insc sp = Some v \<and> e = InsufficientBtcForInscriptionSend (sats (plain us)) fee
            \<and> sats (filter (\<lambda>u. outpointKey u \<noteq> outpointKey v) (plain us)) < fee)"
proof (cases "selectUtxosForInscriptionSend us insc sp fee")
  case (Inl e)
  then show ?thesis using inscriptionSend_Inl [OF assms Inl] findInscribed_None [of us insc sp] by auto
next
  case (Inr r)
  then show ?thesis using inscriptionSend_Inr [OF Inr] findInscribed_Some [of us insc sp] by auto
qed

lemma sampleInscriptionSend: "selectUtxosForInscriptionSend sampleUtxos ''x'' None 700 =
    Inr \<lparr>ir_inscribedUtxo = inscribedUtxo ''aa'' 50000 ''x'', ir_btcInputs = [plainUtxo ''bb'' 10000],
      ir_inscribedValueSats = 50000, ir_totalInputSats = 60000\<rparr>"
proof -
  have f: "findInscribedUtxo sampleUtxos ''x'' None = Some (inscribedUtxo ''aa'' 50000 ''x'')"
    by (simp add: findInscribedUtxo_def sampleUtxos_def outpointFromSatpoint_def carriesInscription_def inscribedUtxo_def)
  have e: "filter (\<lambda>u. outpointKey u \<noteq> outpointKey (inscribedUtxo ''aa'' 50000 ''x'')) (plain sampleUtxos)
      = [plainUtxo ''bb'' 10000, plainUtxo ''dd'' 2000]"
    unfolding samplePlain by (simp add: outpointKey_def plainUtxo_def inscribedUtxo_def)
  have v: "u_value (inscribedUtxo t v i) = v" "u_value (plainUtxo t v) = v" for t v i
    by (simp_all add: inscribedUtxo_def plainUtxo_def)
  show ?thesis
    using e by (simp add: selectUtxosForInscriptionSend_def Let_def f descending_def v)
qed

theorem inscriptionSend_spec_witness:
  "\<exists>r. selectUtxosForInscriptionSend sampleUtxos ''x'' None 700 = Inr r \<and>
     mset (ir_btcInputs r) \<subseteq># mset (plain sampleUtxos) \<and> ir_inscribedUtxo r = inscribedUtxo ''aa'' 50000 ''x''"
  using inscriptionSend_spec [OF sampleNonneg, of "''x''" None 700] sampleInscriptionSend by simp

end
