(* ===== verification/TxBuild.thy ===== *)
theory TxBuild
  imports Complex_Main CoinSelect Runestone Base58
begin

text \<open>
  The unsigned transactions of the wallet: plain sends (\<open>utils/btc-psbt.ts\<close>, dust limits of
  \<open>utils/btc-dust.ts\<close>), rune sends (\<open>utils/rune-psbt.ts\<close>) and inscription sends
  (\<open>utils/inscription-psbt.ts\<close>).

  The PSBT of bitcoinjs-lib is the list of inputs and outputs added to it. \<open>addressOk testnet a\<close>
  says that the library accepts the address on that network; where it does not, it throws. Sizes
  and fee rates are rationals and \<open>rnd\<close> rounds the product of two doubles. The indexer's answers
  are arguments: the outputs (\<open>None\<close> when it is not an array) and the fee estimates (\<open>None\<close> when
  the request fails).
\<close>

subsection \<open>Dust limits\<close>

datatype address_kind = P2pkh | P2sh | P2wpkh | P2wsh | P2tr | UnknownAddress

definition bech32_chars :: string where
  "bech32_chars = ''qpzry9x8gf2tvdw0s3jn54khce6mua7l''"

definition base58_address :: "string \<Rightarrow> string \<Rightarrow> bool" where
  "base58_address heads a =
     (case a of [] \<Rightarrow> False
      | c # cs \<Rightarrow> c \<in> set heads \<and> 25 \<le> length cs \<and> length cs \<le> 34 \<and> list_all (\<lambda>x. x \<in> set ALPHABET) cs)"

text \<open>The character after \<open>bc1\<close>, \<open>tb1\<close> or \<open>bcrt1\<close>, if it is one of the bech32 alphabet.\<close>

definition bech32_data :: "string \<Rightarrow> char option" where
  "bech32_data s =
     (let rest = (if starts_with ''bc1'' s then drop 3 s
                  else if starts_with ''tb1'' s then drop 3 s
                  else if starts_with ''bcrt1'' s then drop 5 s
                  else [])
      in case rest of [] \<Rightarrow> None | c # cs \<Rightarrow> if c \<in> set bech32_chars then Some c else None)"

definition classifyBtcAddress :: "string \<Rightarrow> address_kind" where
  "classifyBtcAddress addr =
     (if addr = [] then UnknownAddress
      else
        let a = js_trim addr in
        if base58_address ''1mn'' a then P2pkh
        else if base58_address ''32'' a then P2sh
        else case bech32_data (js_lower a) of
          None \<Rightarrow> UnknownAddress
        | Some c \<Rightarrow>
            if c = CHR ''q'' then (if length a \<le> 44 then P2wpkh else P2wsh)
            else if c = CHR ''p'' then P2tr
            else UnknownAddress)"

definition DUST_FALLBACK_SATS :: int where "DUST_FALLBACK_SATS = 546"

definition dustThresholdForAddress :: "string \<Rightarrow> int" where
  "dustThresholdForAddress addr =
     (case classifyBtcAddress addr of
        P2pkh \<Rightarrow> 546
      | P2sh \<Rightarrow> 540
      | P2wpkh \<Rightarrow> 294
      | P2wsh \<Rightarrow> 330
      | P2tr \<Rightarrow> 330
      | UnknownAddress \<Rightarrow> DUST_FALLBACK_SATS)"

lemma dust_bounds: "294 \<le> dustThresholdForAddress a \<and> dustThresholdForAddress a \<le> 546"
  by (auto simp: dustThresholdForAddress_def DUST_FALLBACK_SATS_def split: address_kind.splits)

subsection \<open>Transactions\<close>

record psbt_input =
  pi_txid :: string
  pi_vout :: int
  pi_owner :: string
  pi_value :: int

datatype out_target = ToAddress string | ToScript "byte list"

record psbt_output =
  po_target :: out_target
  po_value :: int

record psbt =
  ps_testnet :: bool
  ps_inputs :: "psbt_input list"
  ps_outputs :: "psbt_output list"

datatype build_error =
    NoUtxos
  | InvalidAmount
  | SelectFailed select_error
  | ChangeUnderDust int
  | RunestoneFailed runestone_error
  | InvalidAddress string

definition networkFromAddress :: "string \<Rightarrow> bool" where
  "networkFromAddress addr \<longleftrightarrow> starts_with ''tb1'' addr \<or> starts_with ''bcrt1'' addr"

definition inputFor :: "string \<Rightarrow> btc_utxo \<Rightarrow> psbt_input" where
  "inputFor fromAddress u =
     \<lparr>pi_txid = u_txid u, pi_vout = u_vout u, pi_owner = fromAddress, pi_value = u_value u\<rparr>"

definition payTo :: "(bool \<Rightarrow> string \<Rightarrow> bool) \<Rightarrow> bool \<Rightarrow> string \<Rightarrow> int \<Rightarrow> build_error + psbt_output" where
  "payTo addressOk testnet a v =
     (if addressOk testnet a then Inr \<lparr>po_target = ToAddress a, po_value = v\<rparr> else Inl (InvalidAddress a))"

definition lift_error :: "('a \<Rightarrow> 'c) \<Rightarrow> 'a + 'b \<Rightarrow> 'c + 'b" where
  "lift_error g r = (case r of Inl e \<Rightarrow> Inl (g e) | Inr x \<Rightarrow> Inr x)"

subsection \<open>Sizes and fees\<close>

definition MIN_FALLBACK_FEE_RATE :: rat where "MIN_FALLBACK_FEE_RATE = 5"

definition estimateTxSize :: "nat \<Rightarrow> nat \<Rightarrow> rat" where
  "estimateTxSize inputCount outputCount = 21 / 2 + of_nat inputCount * (115 / 2) + of_nat outputCount * 43"

definition estimateRuneTxSize :: "nat \<Rightarrow> rat" where
  "estimateRuneTxSize inputCount = 21 / 2 + of_nat inputCount * (115 / 2) + 2 * 43 + 35"

definition estimateInscriptionTxSize :: "nat \<Rightarrow> nat \<Rightarrow> rat" where
  "estimateInscriptionTxSize inputCount outputCount = 21 / 2 + of_nat inputCount * (115 / 2) + of_nat outputCount * 43"

text \<open>\<open>params.feeRate\<close> when it is given and not 0, else the indexer's estimate, else the fallback.\<close>

definition resolveFeeRate :: "rat option \<Rightarrow> (string \<rightharpoonup> rat) option \<Rightarrow> rat" where
  "resolveFeeRate feeRate estimates =
     (case feeRate of
        Some r \<Rightarrow> if r \<noteq> 0 then r else
          (case estimates of None \<Rightarrow> MIN_FALLBACK_FEE_RATE | Some m \<Rightarrow>
             (case m ''6'' of Some x \<Rightarrow> x | None \<Rightarrow> (case m ''3'' of Some x \<Rightarrow> x | None \<Rightarrow> MIN_FALLBACK_FEE_RATE)))
      | None \<Rightarrow>
          (case estimates of None \<Rightarrow> MIN_FALLBACK_FEE_RATE | Some m \<Rightarrow>
             (case m ''6'' of Some x \<Rightarrow> x | None \<Rightarrow> (case m ''3'' of Some x \<Rightarrow> x | None \<Rightarrow> MIN_FALLBACK_FEE_RATE))))"

definition feeFor :: "(rat \<Rightarrow> rat) \<Rightarrow> rat \<Rightarrow> rat \<Rightarrow> int" where
  "feeFor rnd feeRate txsize = \<lceil>rnd (txsize * feeRate)\<rceil>"

subsection \<open>Plain sends\<close>

record build_result =
  br_psbt :: psbt
  br_amountSats :: int
  br_feeSats :: int
  br_feeRate :: rat
  br_changeSats :: int
  br_inputCount :: nat

definition buildUnsignedPsbt ::
    "(rat \<Rightarrow> rat) \<Rightarrow> (bool \<Rightarrow> string \<Rightarrow> bool) \<Rightarrow> btc_utxo list option \<Rightarrow> (string \<rightharpoonup> rat) option \<Rightarrow>
     string \<Rightarrow> string \<Rightarrow> int \<Rightarrow> rat option \<Rightarrow> build_error + build_result" where
  "buildUnsignedPsbt rnd addressOk utxosAnswer estimates fromAddress toAddress amountSats feeRateParam =
     (case utxosAnswer of
        None \<Rightarrow> Inl NoUtxos
      | Some utxos \<Rightarrow>
          if utxos = [] then Inl NoUtxos
          else
            let feeRate = resolveFeeRate feeRateParam estimates;
                estimatedFee = feeFor rnd feeRate (estimateTxSize 1 2)
            in rbind (lift_error SelectFailed (selectUtxos utxos amountSats estimatedFee)) (\<lambda>(selected, totalInput).
               let actualFee = feeFor rnd feeRate (estimateTxSize (length selected) 2);
                   changeSats = totalInput - amountSats - actualFee;
                   testnet = networkFromAddress fromAddress;
                   changeDust = dustThresholdForAddress fromAddress
               in if selected \<noteq> [] \<and> \<not> addressOk testnet fromAddress then Inl (InvalidAddress fromAddress)
                  else rbind (payTo addressOk testnet toAddress amountSats) (\<lambda>recipient.
                       rbind (if changeSats > changeDust
                              then rbind (payTo addressOk testnet fromAddress changeSats) (\<lambda>out. Inr [out])
                              else Inr []) (\<lambda>change.
                       Inr \<lparr>br_psbt = \<lparr>ps_testnet = testnet, ps_inputs = map (inputFor fromAddress) selected,
                                       ps_outputs = recipient # change\<rparr>,
                            br_amountSats = amountSats, br_feeSats = actualFee, br_feeRate = feeRate,
                            br_changeSats = (if changeSats > changeDust then changeSats else 0),
                            br_inputCount = length selected\<rparr>))))"

subsection \<open>Rune sends\<close>

definition RUNE_OUTPUT_DUST_SATS :: int where "RUNE_OUTPUT_DUST_SATS = 546"
definition CHANGE_DUST_SATS :: int where "CHANGE_DUST_SATS = 546"

record rune_build_result =
  rb_psbt :: psbt
  rb_leftoverRune :: int
  rb_recipientSats :: int
  rb_changeSats :: int
  rb_feeSats :: int
  rb_feeRate :: rat
  rb_inputCount :: nat
  rb_runedInputCount :: nat
  rb_btcInputCount :: nat

definition runeSelection :: "btc_utxo list \<Rightarrow> string \<Rightarrow> int \<Rightarrow> int \<Rightarrow> build_error + rune_select_result" where
  "runeSelection utxos runeId amount feeSats =
     lift_error SelectFailed (selectUtxosForRuneSend
       \<lparr>rs_utxos = utxos, rs_targetRuneId = runeId, rs_targetAmount = amount,
        rs_recipientDustSats = RUNE_OUTPUT_DUST_SATS, rs_changeDustSats = CHANGE_DUST_SATS, rs_feeSats = feeSats\<rparr>)"

definition runeInputs :: "rune_select_result \<Rightarrow> btc_utxo list" where
  "runeInputs r = rr_runedInputs r @ rr_btcInputs r"

definition buildUnsignedRunePsbt ::
    "(rat \<Rightarrow> rat) \<Rightarrow> (bool \<Rightarrow> string \<Rightarrow> bool) \<Rightarrow> btc_utxo list option \<Rightarrow> (string \<rightharpoonup> rat) option \<Rightarrow>
     string \<Rightarrow> string \<Rightarrow> string \<Rightarrow> int \<Rightarrow> rat option \<Rightarrow> build_error + rune_build_result" where
  "buildUnsignedRunePsbt rnd addressOk utxosAnswer estimates fromAddress toAddress runeId amount feeRateParam =
     (if amount \<le> 0 then Inl InvalidAmount
      else case utxosAnswer of
        None \<Rightarrow> Inl NoUtxos
      | Some utxos \<Rightarrow>
          if utxos = [] then Inl NoUtxos
          else
            let feeRate = resolveFeeRate feeRateParam estimates
            in rbind (runeSelection utxos runeId amount (feeFor rnd feeRate (estimateRuneTxSize 1))) (\<lambda>first.
               rbind (runeSelection utxos runeId amount
                        (feeFor rnd feeRate (estimateRuneTxSize (length (runeInputs first))))) (\<lambda>selection.
               let inputCount = length (runeInputs selection);
                   finalFee = feeFor rnd feeRate (estimateRuneTxSize inputCount);
                   changeSats = rr_totalInputSats selection - RUNE_OUTPUT_DUST_SATS - finalFee;
                   testnet = networkFromAddress fromAddress
               in if changeSats < CHANGE_DUST_SATS then Inl (ChangeUnderDust changeSats)
                  else rbind (lift_error RunestoneFailed (buildRunestoneOpReturn
                           [\<lparr>re_runeId = runeId, re_amount = amount, re_output = JInt 1\<rparr>]
                           (if rr_leftoverRune selection > 0 then Some (JInt 2) else None))) (\<lambda>script.
                       if \<not> addressOk testnet fromAddress then Inl (InvalidAddress fromAddress)
                       else rbind (payTo addressOk testnet toAddress RUNE_OUTPUT_DUST_SATS) (\<lambda>recipient.
                            rbind (payTo addressOk testnet fromAddress changeSats) (\<lambda>change.
                            Inr \<lparr>rb_psbt = \<lparr>ps_testnet = testnet,
                                            ps_inputs = map (inputFor fromAddress) (runeInputs selection),
                                            ps_outputs = [\<lparr>po_target = ToScript script, po_value = 0\<rparr>, recipient, change]\<rparr>,
                                 rb_leftoverRune = rr_leftoverRune selection,
                                 rb_recipientSats = RUNE_OUTPUT_DUST_SATS, rb_changeSats = changeSats,
                                 rb_feeSats = finalFee, rb_feeRate = feeRate, rb_inputCount = inputCount,
                                 rb_runedInputCount = length (rr_runedInputs selection),
                                 rb_btcInputCount = length (rr_btcInputs selection)\<rparr>))))))"

subsection \<open>Inscription sends\<close>

record inscription_build_result =
  ib_psbt :: psbt
  ib_recipientSats :: int
  ib_changeSats :: int
  ib_feeSats :: int
  ib_feeRate :: rat
  ib_inputCount :: nat
  ib_btcInputCount :: nat

definition buildUnsignedInscriptionPsbt ::
    "(rat \<Rightarrow> rat) \<Rightarrow> (bool \<Rightarrow> string \<Rightarrow> bool) \<Rightarrow> btc_utxo list option \<Rightarrow> (string \<rightharpoonup> rat) option \<Rightarrow>
     string \<Rightarrow> string \<Rightarrow> string \<Rightarrow> string option \<Rightarrow> rat option \<Rightarrow> build_error + inscription_build_result" where
  "buildUnsignedInscriptionPsbt rnd addressOk utxosAnswer estimates fromAddress toAddress inscriptionId satpoint feeRateParam =
     (case utxosAnswer of
        None \<Rightarrow> Inl NoUtxos
      | Some utxos \<Rightarrow>
          if utxos = [] then Inl NoUtxos
          else
            let feeRate = resolveFeeRate feeRateParam estimates;
                trySelect = (\<lambda>fee. lift_error SelectFailed
                            (selectUtxosForInscriptionSend utxos inscriptionId satpoint fee))
            in rbind (trySelect (feeFor rnd feeRate (estimateInscriptionTxSize 2 2))) (\<lambda>first.
               rbind (trySelect (feeFor rnd feeRate (estimateInscriptionTxSize (1 + length (ir_btcInputs first)) 2))) (\<lambda>selection.
               let inputCount = 1 + length (ir_btcInputs selection);
                   finalFee = feeFor rnd feeRate (estimateInscriptionTxSize inputCount 2);
                   recipientSats = ir_inscribedValueSats selection;
                   changeSats = ir_totalInputSats selection - recipientSats - finalFee;
                   testnet = networkFromAddress fromAddress;
                   changeDust = dustThresholdForAddress fromAddress
               in if \<not> addressOk testnet fromAddress then Inl (InvalidAddress fromAddress)
                  else rbind (payTo addressOk testnet toAddress recipientSats) (\<lambda>recipient.
                       rbind (if changeSats > changeDust
                              then rbind (payTo addressOk testnet fromAddress changeSats) (\<lambda>out. Inr [out])
                              else Inr []) (\<lambda>change.
                       Inr \<lparr>ib_psbt = \<lparr>ps_testnet = testnet,
                                       ps_inputs = map (inputFor fromAddress)
                                         (ir_inscribedUtxo selection # ir_btcInputs selection),
                                       ps_outputs = recipient # change\<rparr>,
                            ib_recipientSats = recipientSats,
                            ib_changeSats = (if changeSats > changeDust then changeSats else 0),
                            ib_feeSats = finalFee, ib_feeRate = feeRate, ib_inputCount = inputCount,
                            ib_btcInputCount = length (ir_btcInputs selection)\<rparr>)))))"

subsection \<open>Values in and out\<close>

definition inSats :: "psbt \<Rightarrow> int" where
  "inSats p = sum_list (map pi_value (ps_inputs p))"

definition outSats :: "psbt \<Rightarrow> int" where
  "outSats p = sum_list (map po_value (ps_outputs p))"

text \<open>What the miner gets.\<close>

definition paidFee :: "psbt \<Rightarrow> int" where
  "paidFee p = inSats p - outSats p"

lemma input_values [simp]: "map pi_value (map (inputFor a) us) = map u_value us"
  by (simp add: inputFor_def comp_def)

lemma lift_error_Inr [simp]: "lift_error g r = Inr x \<longleftrightarrow> r = Inr x"
  by (auto simp: lift_error_def split: sum.splits)

lemma payTo_Inr: "payTo ok net a v = Inr out \<longleftrightarrow> ok net a \<and> out = \<lparr>po_target = ToAddress a, po_value = v\<rparr>"
  by (auto simp: payTo_def)

lemma selectUtxos_Inr:
  assumes "selectUtxos us t f = Inr (sel, tot)"
  shows "mset sel \<subseteq># mset (plain us)" "tot = sats sel" "t + f \<le> tot"
proof -
  let ?sorted = "js_sort (descending u_value) (plain us)"
  have "sel = pick_push u_value (t + f) 0 ?sorted" and "tot = sats sel" "t + f \<le> tot"
    using assms by (auto simp: selectUtxos_def Let_def split: if_splits)
  then show "mset sel \<subseteq># mset (plain us)" "tot = sats sel" "t + f \<le> tot"
    using mset_pick_push [of u_value "t + f" 0 ?sorted] by simp_all
qed

text \<open>The change output of plain and inscription sends.\<close>

definition changeOutputs :: "string \<Rightarrow> int \<Rightarrow> psbt_output list" where
  "changeOutputs a c = (if c > dustThresholdForAddress a then [\<lparr>po_target = ToAddress a, po_value = c\<rparr>] else [])"

lemma buildUnsignedPsbt_Inr:
  assumes "buildUnsignedPsbt rnd ok (Some us) est from to amount fr = Inr r"
  obtains sel where "mset sel \<subseteq># mset (plain us)"
    "ps_inputs (br_psbt r) = map (inputFor from) sel"
    "ps_outputs (br_psbt r) = \<lparr>po_target = ToAddress to, po_value = amount\<rparr>
       # changeOutputs from (sats sel - amount - br_feeSats r)"
    "br_changeSats r = (if sats sel - amount - br_feeSats r > dustThresholdForAddress from
       then sats sel - amount - br_feeSats r else 0)"
    "br_feeSats r = feeFor rnd (br_feeRate r) (estimateTxSize (length sel) 2)"
    "amount + feeFor rnd (br_feeRate r) (estimateTxSize 1 2) \<le> sats sel"
proof -
  let ?rate = "resolveFeeRate fr est"
  obtain sel tot where s: "selectUtxos us amount (feeFor rnd ?rate (estimateTxSize 1 2)) = Inr (sel, tot)"
    using assms by (auto simp: buildUnsignedPsbt_def Let_def rbind_eq_Inr_iff split: if_splits)
  have r: "br_psbt r = \<lparr>ps_testnet = networkFromAddress from, ps_inputs = map (inputFor from) sel,
      ps_outputs = \<lparr>po_target = ToAddress to, po_value = amount\<rparr> # changeOutputs from (tot - amount - br_feeSats r)\<rparr>"
    "br_feeSats r = feeFor rnd ?rate (estimateTxSize (length sel) 2)" "br_feeRate r = ?rate"
    "br_changeSats r = (if tot - amount - br_feeSats r > dustThresholdForAddress from then tot - amount - br_feeSats r else 0)"
    using assms s
    by (auto simp: buildUnsignedPsbt_def Let_def rbind_eq_Inr_iff payTo_Inr changeOutputs_def split: if_splits)
  show ?thesis
    using that [of sel] r selectUtxos_Inr [OF s] by simp
qed

lemma buildUnsignedInscriptionPsbt_Inr:
  assumes "buildUnsignedInscriptionPsbt rnd ok (Some us) est from to insc sp fr = Inr r"
  obtains v btc where "findInscribedUtxo us insc sp = Some v" "mset btc \<subseteq># mset (plain us)"
    "\<forall>u\<in>set btc. outpointKey u \<noteq> outpointKey v"
    "ps_inputs (ib_psbt r) = map (inputFor from) (v # btc)"
    "ps_outputs (ib_psbt r) = \<lparr>po_target = ToAddress to, po_value = u_value v\<rparr>
       # changeOutputs from (sats btc - ib_feeSats r)"
    "ib_changeSats r = (if sats btc - ib_feeSats r > dustThresholdForAddress from then sats btc - ib_feeSats r else 0)"
    "ib_feeSats r = feeFor rnd (ib_feeRate r) (estimateInscriptionTxSize (1 + length btc) 2)"
    "ib_recipientSats r = u_value v"
proof -
  let ?rate = "resolveFeeRate fr est"
  obtain fee s where s: "selectUtxosForInscriptionSend us insc sp fee = Inr s"
    and r: "r = \<lparr>ib_psbt = \<lparr>ps_testnet = networkFromAddress from,
          ps_inputs = map (inputFor from) (ir_inscribedUtxo s # ir_btcInputs s),
          ps_outputs = \<lparr>po_target = ToAddress to, po_value = ir_inscribedValueSats s\<rparr>
            # changeOutputs from (ir_totalInputSats s - ir_inscribedValueSats s
                - feeFor rnd ?rate (estimateInscriptionTxSize (1 + length (ir_btcInputs s)) 2))\<rparr>,
        ib_recipientSats = ir_inscribedValueSats s,
        ib_changeSats = (let c = ir_totalInputSats s - ir_inscribedValueSats s
            - feeFor rnd ?rate (estimateInscriptionTxSize (1 + length (ir_btcInputs s)) 2)
          in if c > dustThresholdForAddress from then c else 0),
        ib_feeSats = feeFor rnd ?rate (estimateInscriptionTxSize (1 + length (ir_btcInputs s)) 2),
        ib_feeRate = ?rate, ib_inputCount = 1 + length (ir_btcInputs s),
        ib_btcInputCount = length (ir_btcInputs s)\<rparr>"
    using assms
    by (auto simp: buildUnsignedInscriptionPsbt_def Let_def rbind_eq_Inr_iff payTo_Inr changeOutputs_def split: if_splits)
  show ?thesis
    using inscriptionSend_Inr [OF s] r by (intro that [of "ir_inscribedUtxo s" "ir_btcInputs s"]) (auto simp: Let_def)
qed

lemma buildUnsignedRunePsbt_Inr:
  assumes "buildUnsignedRunePsbt rnd ok (Some us) est from to rid amount fr = Inr r"
  obtains s fee script where
    "selectUtxosForRuneSend \<lparr>rs_utxos = us, rs_targetRuneId = rid, rs_targetAmount = amount,
       rs_recipientDustSats = 546, rs_changeDustSats = 546, rs_feeSats = fee\<rparr> = Inr s"
    "buildRunestoneOpReturn [\<lparr>re_runeId = rid, re_amount = amount, re_output = JInt 1\<rparr>]
       (if rr_leftoverRune s > 0 then Some (JInt 2) else None) = Inr script"
    "ps_inputs (rb_psbt r) = map (inputFor from) (runeInputs s)"
    "ps_outputs (rb_psbt r) = [\<lparr>po_target = ToScript script, po_value = 0\<rparr>,
       \<lparr>po_target = ToAddress to, po_value = 546\<rparr>, \<lparr>po_target = ToAddress from, po_value = rb_changeSats r\<rparr>]"
    "rb_changeSats r = rr_totalInputSats s - 546 - rb_feeSats r" "546 \<le> rb_changeSats r"
    "rb_feeSats r = feeFor rnd (rb_feeRate r) (estimateRuneTxSize (rb_inputCount r))"
    "rb_inputCount r = length (runeInputs s)" "rb_leftoverRune r = rr_leftoverRune s"
proof -
  let ?rate = "resolveFeeRate fr est"
  obtain fee s script where s: "selectUtxosForRuneSend \<lparr>rs_utxos = us, rs_targetRuneId = rid, rs_targetAmount = amount,
       rs_recipientDustSats = 546, rs_changeDustSats = 546, rs_feeSats = fee\<rparr> = Inr s"
    and script: "buildRunestoneOpReturn [\<lparr>re_runeId = rid, re_amount = amount, re_output = JInt 1\<rparr>]
       (if rr_leftoverRune s > 0 then Some (JInt 2) else None) = Inr script"
    and r: "r = (let finalFee = feeFor rnd ?rate (estimateRuneTxSize (length (runeInputs s)));
             changeSats = rr_totalInputSats s - 546 - finalFee
         in \<lparr>rb_psbt = \<lparr>ps_testnet = networkFromAddress from, ps_inputs = map (inputFor from) (runeInputs s),
              ps_outputs = [\<lparr>po_target = ToScript script, po_value = 0\<rparr>, \<lparr>po_target = ToAddress to, po_value = 546\<rparr>,
                \<lparr>po_target = ToAddress from, po_value = changeSats\<rparr>]\<rparr>,
             rb_leftoverRune = rr_leftoverRune s, rb_recipientSats = 546, rb_changeSats = changeSats,
             rb_feeSats = finalFee, rb_feeRate = ?rate, rb_inputCount = length (runeInputs s),
             rb_runedInputCount = length (rr_runedInputs s), rb_btcInputCount = length (rr_btcInputs s)\<rparr>)"
    and change: "546 \<le> rr_totalInputSats s - 546 - feeFor rnd ?rate (estimateRuneTxSize (length (runeInputs s)))"
    using assms
    by (auto simp: buildUnsignedRunePsbt_def runeSelection_def RUNE_OUTPUT_DUST_SATS_def CHANGE_DUST_SATS_def Let_def
        rbind_eq_Inr_iff payTo_Inr not_less split: if_splits)
  show ?thesis by (rule that [OF s script]) (use r change in \<open>auto simp: Let_def\<close>)
qed

lemma single_edict_script:
  assumes "buildRunestoneOpReturn [e] pointer = Inr script"
  obtains payload i where "script = [0x6a, 0x5d] @ pushDataPrefix (length payload) @ payload"
    "length payload \<le> 520" "parseRuneId (re_runeId e) = Inr i"
    "protocolPayload payload = Some (map_option int_of pointer,
       [(ri_block i, ri_tx i, re_amount e, int_of (re_output e))])"
proof -
  obtain payload where p: "encodeRunestonePayload [e] pointer = Inr payload" "length payload \<le> 520"
    "script = [0x6a, 0x5d] @ pushDataPrefix (length payload) @ payload"
    using assms by (auto simp: buildRunestoneOpReturn_def MAX_OP_RETURN_PUSH_BYTES_def rbind_eq_Inr_iff split: if_splits)
  obtain ds where ds: "map_result decodeEdict [e] = Inr ds"
    "readPayload payload = Some (map_option int_of pointer, map edictMeaning (bodyOrder ds))"
    "distinct (map (ri_block \<circ> snd) ds) \<longrightarrow> protocolPayload payload = readPayload payload"
    using p(1) by (rule payload_read)
  then obtain d where d: "decodeEdict e = Inr d" "ds = [d]" by (auto simp: rbind_eq_Inr_iff)
  then have "fst d = e" "parseRuneId (re_runeId e) = Inr (snd d)" using decodeEdict_Inr by blast+
  then show ?thesis using that [of payload "snd d"] p ds d by (simp add: bodyOrder_def edictMeaning_def)
qed

lemma changeOutputs_sum: "sum_list (map po_value (changeOutputs a c)) = (if c > dustThresholdForAddress a then c else 0)"
  by (simp add: changeOutputs_def)

subsection \<open>Properties\<close>

text \<open>
  A plain send pays the recipient the amount, spends only outputs without inscriptions or runes,
  and gives the rest back to the sender when it is above the dust limit: then the fee paid is the
  fee reported. Without a change output the fee paid is what is left, at least the fee of a
  one-input transaction and at most the dust limit above the fee reported.
\<close>

theorem plain_send_accounts:
  assumes "buildUnsignedPsbt rnd ok (Some us) est from to amount fr = Inr r"
  shows "\<exists>sel change. mset sel \<subseteq># mset (plain us) \<and> ps_inputs (br_psbt r) = map (inputFor from) sel
    \<and> ps_outputs (br_psbt r) = \<lparr>po_target = ToAddress to, po_value = amount\<rparr> # change
    \<and> ((change = [\<lparr>po_target = ToAddress from, po_value = br_changeSats r\<rparr>]
          \<and> dustThresholdForAddress from < br_changeSats r \<and> paidFee (br_psbt r) = br_feeSats r)
       \<or> (change = [] \<and> br_changeSats r = 0
          \<and> feeFor rnd (br_feeRate r) (estimateTxSize 1 2) \<le> paidFee (br_psbt r)
          \<and> paidFee (br_psbt r) \<le> br_feeSats r + dustThresholdForAddress from))"
proof -
  obtain sel where s: "mset sel \<subseteq># mset (plain us)"
    "ps_inputs (br_psbt r) = map (inputFor from) sel"
    "ps_outputs (br_psbt r) = \<lparr>po_target = ToAddress to, po_value = amount\<rparr>
       # changeOutputs from (sats sel - amount - br_feeSats r)"
    "br_changeSats r = (if sats sel - amount - br_feeSats r > dustThresholdForAddress from
       then sats sel - amount - br_feeSats r else 0)"
    "amount + feeFor rnd (br_feeRate r) (estimateTxSize 1 2) \<le> sats sel"
    using assms by (rule buildUnsignedPsbt_Inr) blast
  have paid: "paidFee (br_psbt r) = sats sel - amount - br_changeSats r"
    by (simp add: paidFee_def inSats_def outSats_def s(2-4) changeOutputs_sum del: map_map)
  show ?thesis
  proof (cases "sats sel - amount - br_feeSats r > dustThresholdForAddress from")
    case True
    then show ?thesis using s paid by (intro exI [of _ sel] exI) (auto simp: changeOutputs_def)
  next
    case False
    then show ?thesis using s paid by (intro exI [of _ sel] exI) (auto simp: changeOutputs_def)
  qed
qed

definition anyAddress :: "bool \<Rightarrow> string \<Rightarrow> bool" where "anyAddress testnet a = True"

lemma sel3: "selectUtxos [plainUtxo ''a'' 1000, plainUtxo ''b'' 1000, plainUtxo ''c'' 1000] 1000 1540
    = Inr ([plainUtxo ''a'' 1000, plainUtxo ''b'' 1000, plainUtxo ''c'' 1000], 3000)"
proof -
  have "plain [plainUtxo ''a'' 1000, plainUtxo ''b'' 1000, plainUtxo ''c'' 1000]
      = [plainUtxo ''a'' 1000, plainUtxo ''b'' 1000, plainUtxo ''c'' 1000]"
    by (simp add: isProtectedUtxo_iff plainUtxo_def)
  moreover have "u_value (plainUtxo t v) = v" for t v by (simp add: plainUtxo_def)
  ultimately show ?thesis by (simp add: selectUtxos_def Let_def descending_def)
qed

lemma dust_from: "dustThresholdForAddress ''from'' = 546"
  by (simp add: dustThresholdForAddress_def classifyBtcAddress_def js_trim_def is_js_space_def char_code_def
      base58_address_def js_lower_def lower_char_def bech32_data_def starts_with_def DUST_FALLBACK_SATS_def)

lemma underpaying_send:
  "\<exists>r. buildUnsignedPsbt (\<lambda>x. x) anyAddress
     (Some [plainUtxo ''a'' 1000, plainUtxo ''b'' 1000, plainUtxo ''c'' 1000]) None ''from'' ''to'' 1000 (Some 10) = Inr r
     \<and> br_feeSats r = 2690 \<and> paidFee (br_psbt r) = 2000 \<and> br_feeRate r = 10"
proof -
  have fees: "feeFor (\<lambda>x. x) 10 (estimateTxSize 1 2) = 1540" "feeFor (\<lambda>x. x) 10 (estimateTxSize 3 2) = 2690"
    by (simp_all add: feeFor_def estimateTxSize_def)
  have rate: "resolveFeeRate (Some 10) None = 10" by (simp add: resolveFeeRate_def)
  have val: "pi_value (inputFor f (plainUtxo t v)) = v" for f t v by (simp add: inputFor_def plainUtxo_def)
  have len: "length [plainUtxo ''a'' 1000, plainUtxo ''b'' 1000, plainUtxo ''c'' 1000] = 3" by simp
  show ?thesis
    unfolding buildUnsignedPsbt_def Let_def rate fees(1) option.case sel3 lift_error_def sum.case rbind_Inr prod.case
      len fees(2) anyAddress_def payTo_def dust_from
    by (simp add: paidFee_def inSats_def outSats_def val)
qed

theorem plain_send_accounts_witness:
  "\<exists>r. buildUnsignedPsbt (\<lambda>x. x) anyAddress
     (Some [plainUtxo ''a'' 1000, plainUtxo ''b'' 1000, plainUtxo ''c'' 1000]) None ''from'' ''to'' 1000 (Some 10) = Inr r
     \<and> feeFor (\<lambda>x. x) 10 (estimateTxSize 1 2) \<le> paidFee (br_psbt r)"
proof -
  obtain r where r: "buildUnsignedPsbt (\<lambda>x. x) anyAddress
     (Some [plainUtxo ''a'' 1000, plainUtxo ''b'' 1000, plainUtxo ''c'' 1000]) None ''from'' ''to'' 1000 (Some 10) = Inr r"
     "br_feeSats r = 2690" "paidFee (br_psbt r) = 2000" "br_feeRate r = 10"
    using underpaying_send by blast
  then have "feeFor (\<lambda>x. x) 10 (estimateTxSize 1 2) \<le> paidFee (br_psbt r)"
    using plain_send_accounts [OF r(1)] by auto
  then show ?thesis using r(1) by blast
qed

text \<open>
  The fee of a plain send of several inputs can fall short of the fee it reports: the selection
  covers only the fee of one input, and when what is left does not reach the real fee the
  transaction is built all the same. With three inputs at 10 sat per byte it pays 2000 of 2690.
\<close>

theorem plain_send_underpays:
  "\<exists>us r. buildUnsignedPsbt (\<lambda>x. x) anyAddress (Some us) None ''from'' ''to'' 1000 (Some 10) = Inr r
     \<and> br_feeSats r = 2690 \<and> paidFee (br_psbt r) = 2000"
  using underpaying_send by blast

text \<open>
  A rune send has three outputs: the runestone with no value, the recipient's 546 satoshis, and
  the sender's change of at least 546; fee paid and fee reported agree. The protocol reads the
  runestone as one edict that gives the amount of the target rune to the recipient, with a pointer
  to the change exactly when some of the rune is left over. The inputs are outputs of the sender
  that are neither inscribed nor of pending runes.
\<close>

theorem rune_send_accounts:
  assumes "buildUnsignedRunePsbt rnd ok (Some us) est from to rid amount fr = Inr r"
  shows "\<exists>inputs script payload i. ps_inputs (rb_psbt r) = map (inputFor from) inputs \<and> mset inputs \<subseteq># mset us
    \<and> (\<forall>u\<in>set inputs. isEligibleRunedUtxo u rid \<or> \<not> isProtectedUtxo u)
    \<and> ps_outputs (rb_psbt r) = [\<lparr>po_target = ToScript script, po_value = 0\<rparr>,
         \<lparr>po_target = ToAddress to, po_value = 546\<rparr>, \<lparr>po_target = ToAddress from, po_value = rb_changeSats r\<rparr>]
    \<and> 546 \<le> rb_changeSats r \<and> paidFee (rb_psbt r) = rb_feeSats r
    \<and> script = [0x6a, 0x5d] @ pushDataPrefix (length payload) @ payload
    \<and> parseRuneId rid = Inr i
    \<and> protocolPayload payload = Some (if 0 < rb_leftoverRune r then Some 2 else None,
         [(ri_block i, ri_tx i, amount, 1)])
    \<and> rb_leftoverRune r + amount = runeTotal rid (filter (\<lambda>u. isEligibleRunedUtxo u rid) inputs)"
proof -
  obtain s fee script where s: "selectUtxosForRuneSend \<lparr>rs_utxos = us, rs_targetRuneId = rid, rs_targetAmount = amount,
       rs_recipientDustSats = 546, rs_changeDustSats = 546, rs_feeSats = fee\<rparr> = Inr s"
    and script: "buildRunestoneOpReturn [\<lparr>re_runeId = rid, re_amount = amount, re_output = JInt 1\<rparr>]
       (if rr_leftoverRune s > 0 then Some (JInt 2) else None) = Inr script"
    and r: "ps_inputs (rb_psbt r) = map (inputFor from) (runeInputs s)"
    "ps_outputs (rb_psbt r) = [\<lparr>po_target = ToScript script, po_value = 0\<rparr>,
       \<lparr>po_target = ToAddress to, po_value = 546\<rparr>, \<lparr>po_target = ToAddress from, po_value = rb_changeSats r\<rparr>]"
    "rb_changeSats r = rr_totalInputSats s - 546 - rb_feeSats r" "546 \<le> rb_changeSats r"
    "rb_leftoverRune r = rr_leftoverRune s"
    using assms by (rule buildUnsignedRunePsbt_Inr) blast
  obtain payload i where pay: "script = [0x6a, 0x5d] @ pushDataPrefix (length payload) @ payload"
    "parseRuneId rid = Inr i"
    "protocolPayload payload = Some (map_option int_of (if rr_leftoverRune s > 0 then Some (JInt 2) else None),
       [(ri_block i, ri_tx i, amount, 1)])"
    using script by (rule single_edict_script) simp
  note sound = runeSend_Inr [OF s, simplified] runeSend_spent_once [OF s, simplified]
  have elig: "\<forall>u\<in>set (rr_runedInputs s). isEligibleRunedUtxo u rid"
    using set_mset_mono [OF sound(2)] by (auto simp: eligible_def)
  have pl: "\<forall>u\<in>set (rr_btcInputs s). \<not> isProtectedUtxo u"
    using set_mset_mono [OF sound(3)] by auto
  then have "filter (\<lambda>u. isEligibleRunedUtxo u rid) (runeInputs s) = rr_runedInputs s"
    using elig eligible_protected by (auto simp: runeInputs_def filter_empty_conv)
  moreover have "paidFee (rb_psbt r) = rb_feeSats r"
    using r sound(5) by (simp add: paidFee_def inSats_def outSats_def runeInputs_def inputFor_def comp_def)
  moreover have "mset (runeInputs s) \<subseteq># mset us" using sound(10) by (simp add: runeInputs_def)
  ultimately show ?thesis
    using r pay elig pl sound(7,9)
    by (intro exI [of _ "runeInputs s"] exI [of _ script] exI [of _ payload] exI [of _ i]) (auto simp: runeInputs_def)
qed

text \<open>One output that holds two runes: sending all of the first.\<close>

definition twoRunes :: btc_utxo where
  "twoRunes = runedUtxo ''a'' 2000 [(''5:1'', ''30''), (''6:1'', ''30'')]"

lemma twoRunes_balance: "getRuneBalanceOnUtxo twoRunes ''5:1'' = 30" "getRuneBalanceOnUtxo twoRunes ''6:1'' = 30"
  by (simp_all add: twoRunes_def getRune_eval BigInt_30)

lemma twoRunes_eligible: "isEligibleRunedUtxo twoRunes ''5:1''"
  using twoRunes_balance(1) by (simp add: isEligibleRunedUtxo_def) (simp add: twoRunes_def runedUtxo_def)

lemma twoRunes_selection:
  "runeSelection [twoRunes] ''5:1'' 30 189 = Inr \<lparr>rr_runedInputs = [twoRunes], rr_btcInputs = [],
     rr_totalInputSats = 2000, rr_targetRuneTotal = 30, rr_leftoverRune = 0\<rparr>"
proof -
  have "u_value twoRunes = 2000" by (simp add: twoRunes_def runedUtxo_def)
  then show ?thesis
    by (simp add: runeSelection_def selectUtxosForRuneSend_def runeCandidates_def twoRunes_balance twoRunes_eligible
        RUNE_OUTPUT_DUST_SATS_def CHANGE_DUST_SATS_def lift_error_def Let_def)
qed

lemma rune_script_5_1: "buildRunestoneOpReturn [\<lparr>re_runeId = ''5:1'', re_amount = 30, re_output = JInt 1\<rparr>] None
    = Inr [0x6a, 0x5d, 5, 0, 5, 1, 30, 1]"
  by (simp add: buildRunestoneOpReturn_def sample_eval MAX_OP_RETURN_PUSH_BYTES_def pushDataPrefix_def)

lemma twoRunes_send:
  "\<exists>r. buildUnsignedRunePsbt (\<lambda>x. x) anyAddress (Some [twoRunes]) None ''from'' ''to'' ''5:1'' 30 (Some 1) = Inr r
     \<and> ps_inputs (rb_psbt r) = [inputFor ''from'' twoRunes]
     \<and> po_target (hd (ps_outputs (rb_psbt r))) = ToScript [0x6a, 0x5d, 5, 0, 5, 1, 30, 1]"
proof -
  have "feeFor (\<lambda>x. x) 1 (estimateRuneTxSize (Suc 0)) = 189"
    by (simp add: feeFor_def estimateRuneTxSize_def)
  then show ?thesis
    by (simp add: buildUnsignedRunePsbt_def resolveFeeRate_def twoRunes_selection runeInputs_def rune_script_5_1
        RUNE_OUTPUT_DUST_SATS_def CHANGE_DUST_SATS_def lift_error_def payTo_def anyAddress_def Let_def)
qed

theorem rune_send_accounts_witness:
  "\<exists>r. buildUnsignedRunePsbt (\<lambda>x. x) anyAddress (Some [twoRunes]) None ''from'' ''to'' ''5:1'' 30 (Some 1) = Inr r
     \<and> 546 \<le> rb_changeSats r \<and> paidFee (rb_psbt r) = rb_feeSats r"
proof -
  obtain r where r: "buildUnsignedRunePsbt (\<lambda>x. x) anyAddress (Some [twoRunes]) None ''from'' ''to'' ''5:1'' 30 (Some 1) = Inr r"
    using twoRunes_send by blast
  then show ?thesis using rune_send_accounts [OF r] by blast
qed

text \<open>
  A rune send can take another rune along: an output that holds the target rune and a second one
  counts as eligible, and when the whole target balance is sent the runestone has no pointer, so
  nothing in it assigns the second rune to the sender's change.
\<close>

theorem rune_send_takes_other_rune:
  "\<exists>r. buildUnsignedRunePsbt (\<lambda>x. x) anyAddress (Some [twoRunes]) None ''from'' ''to'' ''5:1'' 30 (Some 1) = Inr r
     \<and> ps_inputs (rb_psbt r) = [inputFor ''from'' twoRunes] \<and> getRuneBalanceOnUtxo twoRunes ''6:1'' = 30
     \<and> po_target (hd (ps_outputs (rb_psbt r))) = ToScript ([0x6a, 0x5d, 5] @ [0, 5, 1, 30, 1])
     \<and> protocolPayload [0, 5, 1, 30, 1] = Some (None, [(5, 1, 30, 1)])"
proof -
  have "protocolPayload [0, 5, 1, 30, 1] = Some (None, [(5, 1, 30, 1)])" by (simp add: protocolPayload_def)
  then show ?thesis using twoRunes_send twoRunes_balance by simp
qed

text \<open>
  An inscription send moves the inscribed output whole: it is the first input, the first output
  gives the recipient its full value, and the fee comes from plain outputs alone; what these leave
  above the dust limit goes back to the sender.
\<close>

theorem inscription_send_accounts:
  assumes "buildUnsignedInscriptionPsbt rnd ok (Some us) est from to insc sp fr = Inr r"
  shows "\<exists>v btc change. findInscribedUtxo us insc sp = Some v \<and> mset btc \<subseteq># mset (plain us)
    \<and> (\<forall>u\<in>set btc. outpointKey u \<noteq> outpointKey v)
    \<and> ps_inputs (ib_psbt r) = inputFor from v # map (inputFor from) btc
    \<and> ps_outputs (ib_psbt r) = \<lparr>po_target = ToAddress to, po_value = u_value v\<rparr> # change
    \<and> ((change = [\<lparr>po_target = ToAddress from, po_value = ib_changeSats r\<rparr>]
          \<and> dustThresholdForAddress from < ib_changeSats r \<and> paidFee (ib_psbt r) = ib_feeSats r)
       \<or> (change = [] \<and> ib_changeSats r = 0 \<and> paidFee (ib_psbt r) = sats btc
          \<and> paidFee (ib_psbt r) \<le> ib_feeSats r + dustThresholdForAddress from))"
proof -
  obtain v btc where s: "findInscribedUtxo us insc sp = Some v" "mset btc \<subseteq># mset (plain us)"
    "\<forall>u\<in>set btc. outpointKey u \<noteq> outpointKey v"
    "ps_inputs (ib_psbt r) = map (inputFor from) (v # btc)"
    "ps_outputs (ib_psbt r) = \<lparr>po_target = ToAddress to, po_value = u_value v\<rparr>
       # changeOutputs from (sats btc - ib_feeSats r)"
    "ib_changeSats r = (if sats btc - ib_feeSats r > dustThresholdForAddress from then sats btc - ib_feeSats r else 0)"
    using assms by (rule buildUnsignedInscriptionPsbt_Inr) blast
  have paid: "paidFee (ib_psbt r) = sats btc - ib_changeSats r"
    by (simp add: paidFee_def inSats_def outSats_def s(4-6) changeOutputs_sum inputFor_def comp_def)
  show ?thesis
  proof (cases "sats btc - ib_feeSats r > dustThresholdForAddress from")
    case True
    then show ?thesis using s paid by (intro exI [of _ v] exI [of _ btc] exI) (auto simp: changeOutputs_def)
  next
    case False
    then show ?thesis using s paid by (intro exI [of _ v] exI [of _ btc] exI) (auto simp: changeOutputs_def)
  qed
qed

lemma sampleInscriptionChoice: "selectUtxosForInscriptionSend sampleUtxos ''x'' None 212 =
    Inr \<lparr>ir_inscribedUtxo = inscribedUtxo ''aa'' 50000 ''x'', ir_btcInputs = [plainUtxo ''bb'' 10000],
      ir_inscribedValueSats = 50000, ir_totalInputSats = 60000\<rparr>"
proof -
  have f: "findInscribedUtxo sampleUtxos ''x'' None = Some (inscribedUtxo ''aa'' 50000 ''x'')"
    by (simp add: findInscribedUtxo_def sampleUtxos_def outpointFromSatpoint_def carriesInscription_def inscribedUtxo_def)
  have e: "filter (\<lambda>u. outpointKey u \<noteq> outpointKey (inscribedUtxo ''aa'' 50000 ''x'')) (plain sampleUtxos)
      = [plainUtxo ''bb'' 10000, plainUtxo ''dd'' 2000]"
    unfolding samplePlain by (simp add: outpointKey_def plainUtxo_def inscribedUtxo_def)
  have v: "u_value (inscribedUtxo t v i) = v" "u_value (plainUtxo t v) = v" for t v i
    by (simp_all add: inscribedUtxo_def plainUtxo_def)
  show ?thesis
    using e by (simp add: selectUtxosForInscriptionSend_def Let_def f descending_def v)
qed

theorem inscription_send_accounts_witness:
  "\<exists>r v. buildUnsignedInscriptionPsbt (\<lambda>x. x) anyAddress (Some sampleUtxos) None ''from'' ''to'' ''x'' None (Some 1) = Inr r
     \<and> findInscribedUtxo sampleUtxos ''x'' None = Some v \<and> hd (ps_inputs (ib_psbt r)) = inputFor ''from'' v"
proof -
  have "feeFor (\<lambda>x. x) 1 (estimateInscriptionTxSize 2 2) = 212"
    by (simp add: feeFor_def estimateInscriptionTxSize_def) (rule ceiling_unique, simp_all)
  moreover have "sampleUtxos \<noteq> []" by (simp add: sampleUtxos_def)
  ultimately have "\<exists>r. buildUnsignedInscriptionPsbt (\<lambda>x. x) anyAddress (Some sampleUtxos) None ''from'' ''to'' ''x'' None (Some 1) = Inr r"
    by (simp add: buildUnsignedInscriptionPsbt_def resolveFeeRate_def sampleInscriptionChoice lift_error_def
        payTo_def anyAddress_def Let_def numeral_2_eq_2)
  then obtain r where "buildUnsignedInscriptionPsbt (\<lambda>x. x) anyAddress (Some sampleUtxos) None ''from'' ''to'' ''x'' None (Some 1) = Inr r"
    by blast
  then show ?thesis using inscription_send_accounts by fastforce
qed

end
