(* ===== verification/Json.thy ===== *)
theory Json
  imports JsStrings JsArrays
begin

text \<open>
  JavaScript values that are serialized: \<open>JSON.stringify\<close> with its treatment of \<open>undefined\<close>, on
  numbers that are integers. An object is the list of its properties, each key once.
\<close>

datatype json =
    JNull
  | JUndefined
  | JBool bool
  | JNum int
  | JStr string
  | JArr "json list"
  | JObj "(string \<times> json) list"

text \<open>Code unit order, the order of \<open>Array.prototype.sort\<close> on strings.\<close>

fun string_cmp :: "string \<Rightarrow> string \<Rightarrow> int" where
  "string_cmp [] [] = 0"
| "string_cmp [] (y # ys) = -1"
| "string_cmp (x # xs) [] = 1"
| "string_cmp (x # xs) (y # ys) =
     (if char_code x < char_code y then -1 else if char_code y < char_code x then 1 else string_cmp xs ys)"

lemma char_code_inject: "char_code x = char_code y \<longleftrightarrow> x = y"
  by (simp add: char_code_def)

lemma string_cmp_total: "string_cmp a b \<le> 0 \<or> string_cmp b a \<le> 0"
  by (induction a b rule: string_cmp.induct) auto

lemma string_cmp_Cons_le:
  "string_cmp (x # xs) (y # ys) \<le> 0 \<longleftrightarrow>
     char_code x < char_code y \<or> (char_code x = char_code y \<and> string_cmp xs ys \<le> 0)"
  by auto

lemma string_cmp_trans: "string_cmp a b \<le> 0 \<Longrightarrow> string_cmp b c \<le> 0 \<Longrightarrow> string_cmp a c \<le> 0"
proof (induction a arbitrary: b c)
  case Nil
  then show ?case by (cases c) simp_all
next
  case (Cons x xs)
  obtain y ys where b: "b = y # ys" using Cons.prems(1) by (cases b) auto
  obtain z zs where c: "c = z # zs" using Cons.prems(2) b by (cases c) auto
  show ?case
    using Cons.prems Cons.IH [of ys zs] unfolding b c string_cmp_Cons_le by linarith
qed

interpretation strings: comparator string_cmp
  by unfold_locales (rule string_cmp_total, rule string_cmp_trans)

interpretation keys: comparator "\<lambda>a b :: string \<times> 'a. string_cmp (fst a) (fst b)"
  by unfold_locales (rule string_cmp_total, rule string_cmp_trans)

text \<open>\<open>JSON.stringify\<close> of a string.\<close>

definition escape_char :: "char \<Rightarrow> string" where
  "escape_char c =
     (if c = CHR 0x22 then [CHR 0x5C, CHR 0x22]
      else if c = CHR 0x5C then [CHR 0x5C, CHR 0x5C]
      else if char_code c = 8 then [CHR 0x5C, CHR ''b'']
      else if char_code c = 9 then [CHR 0x5C, CHR ''t'']
      else if char_code c = 10 then [CHR 0x5C, CHR ''n'']
      else if char_code c = 12 then [CHR 0x5C, CHR ''f'']
      else if char_code c = 13 then [CHR 0x5C, CHR ''r'']
      else if char_code c < 32 then [CHR 0x5C, CHR ''u'', CHR ''0'', CHR ''0''] @ hex_byte (char_code c)
      else [c])"

definition quote_string :: "string \<Rightarrow> string" where
  "quote_string s = [CHR 0x22] @ concat (map escape_char s) @ [CHR 0x22]"

text \<open>The value that \<open>JSON.parse(JSON.stringify(v))\<close> gives; \<open>JSON.stringify(undefined)\<close> is no text.\<close>

fun stripped :: "json \<Rightarrow> json" where
  "stripped (JArr vs) = JArr (map (\<lambda>v. if v = JUndefined then JNull else stripped v) vs)"
| "stripped (JObj kvs) = JObj (map (\<lambda>(k, v). (k, stripped v)) (filter (\<lambda>(k, v). v \<noteq> JUndefined) kvs))"
| "stripped v = v"

fun proper :: "json \<Rightarrow> bool" where
  "proper JUndefined = False"
| "proper (JArr vs) = list_all proper vs"
| "proper (JObj kvs) = list_all (\<lambda>(k, v). proper v) kvs"
| "proper v = True"

lemma proper_defined: "proper v \<Longrightarrow> v \<noteq> JUndefined"
  by auto

lemma stripped_proper: "proper v \<Longrightarrow> stripped v = v"
proof (induction v rule: stripped.induct)
  case (1 vs)
  then have "map (\<lambda>v. if v = JUndefined then JNull else stripped v) vs = vs"
    by (intro map_idI) (auto simp: list_all_iff)
  then show ?case by simp
next
  case (2 kvs)
  then have "filter (\<lambda>(k, v). v \<noteq> JUndefined) kvs = kvs"
    by (auto simp: list_all_iff intro!: filter_True)
  moreover have "map (\<lambda>(k, v). (k, stripped v)) kvs = kvs"
    using 2 proper_defined by (intro map_idI) (fastforce simp: list_all_iff)
  ultimately show ?case by simp
qed auto

end
