(* ===== verification/JsValues.thy ===== *)
theory JsValues
  imports Prelude Json JsNumbers
begin

text \<open>
  JavaScript values that come from outside: reading a property (\<open>v?.k\<close>), \<open>??\<close>, the truth of a value, \<open>String(v)\<close>,
  \<open>Number(v)\<close> and \<open>typeof v\<close>, and \<open>Buffer.from(s, "hex")\<close>, which stops at the first pair that is no byte.
\<close>

fun hasProp :: "string \<Rightarrow> json \<Rightarrow> bool" where
  "hasProp k (JObj kvs) = (k \<in> fst ` set kvs)"
| "hasProp k v = False"

fun getProp :: "string \<Rightarrow> json \<Rightarrow> json" where
  "getProp k (JObj kvs) = (case map_of kvs k of Some v \<Rightarrow> v | None \<Rightarrow> JUndefined)"
| "getProp k v = JUndefined"

definition nullish :: "json \<Rightarrow> json \<Rightarrow> json" where
  "nullish v w = (if v = JNull \<or> v = JUndefined then w else v)"

fun truthy :: "json \<Rightarrow> bool" where
  "truthy JNull = False"
| "truthy JUndefined = False"
| "truthy (JBool b) = b"
| "truthy (JNum n) = (n \<noteq> 0)"
| "truthy (JStr s) = (s \<noteq> [])"
| "truthy v = True"

fun js_String :: "json \<Rightarrow> string" where
  "js_String JNull = ''null''"
| "js_String JUndefined = ''undefined''"
| "js_String (JBool b) = (if b then ''true'' else ''false'')"
| "js_String (JNum n) = show_int n"
| "js_String (JStr s) = s"
| "js_String (JArr vs) = join_with '','' (map (\<lambda>v. if v = JNull \<or> v = JUndefined then [] else js_String v) vs)"
| "js_String (JObj kvs) = ''[object Object]''"

text \<open>\<open>String(v ?? "")\<close>\<close>

definition textOf :: "json \<Rightarrow> string" where
  "textOf v = js_String (nullish v (JStr []))"

fun toNumber :: "json \<Rightarrow> js_num" where
  "toNumber JNull = JInt 0"
| "toNumber JUndefined = JNonInteger"
| "toNumber (JBool b) = JInt (if b then 1 else 0)"
| "toNumber (JNum n) = JInt n"
| "toNumber (JStr s) = js_Number s"
| "toNumber v = js_Number (js_String v)"

fun isNumber :: "json \<Rightarrow> bool" where
  "isNumber (JNum n) = True"
| "isNumber v = False"

fun isString :: "json \<Rightarrow> bool" where
  "isString (JStr s) = True"
| "isString v = False"

fun elements :: "json \<Rightarrow> json list option" where
  "elements (JArr vs) = Some vs"
| "elements v = None"

definition orNull :: "('a \<Rightarrow> json) \<Rightarrow> 'a option \<Rightarrow> json" where
  "orNull f x = (case x of None \<Rightarrow> JNull | Some a \<Rightarrow> f a)"

fun bufferFromHex :: "string \<Rightarrow> byte list" where
  "bufferFromHex (a # b # s) =
     (case (hex_value (lower_char a), hex_value (lower_char b)) of
        (Some m, Some n) \<Rightarrow> word_of_nat (16 * m + n) # bufferFromHex s
      | _ \<Rightarrow> [])"
| "bufferFromHex s = []"

lemma textOf_simps [simp]:
  "textOf (JStr s) = s" "textOf JNull = []" "textOf JUndefined = []"
  by (simp_all add: textOf_def nullish_def)

lemma nullish_simps [simp]:
  "nullish (JStr s) w = JStr s" "nullish (JBool b) w = JBool b" "nullish (JNum n) w = JNum n"
  "nullish JNull w = w" "nullish JUndefined w = w"
  by (simp_all add: nullish_def)

end
