(* ===== verification/AuditChain.thy ===== *)
theory AuditChain
  imports Json JsValues
begin

text \<open>
  The HMAC-chained audit log of the wallet hub: \<open>services/wallet-hub-api/src/audit/chain.ts\<close>
  (hashing and verification), \<open>audit/audit.ts\<close> (the configured secret), \<open>insertAuditLog\<close> of
  \<open>db/queries.ts\<close> and \<open>audit/verify.ts\<close>.

  \<open>hmac secret message\<close> is the hexadecimal HMAC-SHA256. The database is the list of rows of the
  audit table in insertion order; \<open>jsonb\<close> is what a value reads back as from a \<open>jsonb\<close> column. The
  per-application advisory lock makes an insertion one step.
\<close>

subsection \<open>Rows and their hash\<close>

definition GENESIS_PREV_HASH :: string where "GENESIS_PREV_HASH = ''genesis''"

datatype outcome = Requested | Succeeded | Failed

fun outcome_text :: "outcome \<Rightarrow> string" where
  "outcome_text Requested = ''requested''"
| "outcome_text Succeeded = ''succeeded''"
| "outcome_text Failed = ''failed''"

record canonical_row =
  cr_id :: string
  cr_createdAt :: string
  cr_appId :: string
  cr_requestId :: "string option"
  cr_userId :: "string option"
  cr_eventType :: string
  cr_entityType :: "string option"
  cr_entityId :: "string option"
  cr_turnkeyActivityId :: "string option"
  cr_turnkeyRequestId :: "string option"
  cr_payloadHashHex :: string
  cr_outcome :: outcome

definition NUL :: char where "NUL = CHR 0x00"

definition nullableField :: "string option \<Rightarrow> string" where
  "nullableField v = (case v of None \<Rightarrow> NUL # ''null'' | Some s \<Rightarrow> s)"

definition serializeCanonicalRow :: "canonical_row \<Rightarrow> string" where
  "serializeCanonicalRow row = join_with [NUL]
     [cr_id row, cr_createdAt row, cr_appId row,
      nullableField (cr_requestId row), nullableField (cr_userId row),
      cr_eventType row,
      nullableField (cr_entityType row), nullableField (cr_entityId row),
      nullableField (cr_turnkeyActivityId row), nullableField (cr_turnkeyRequestId row),
      cr_payloadHashHex row, outcome_text (cr_outcome row)]"

definition computeRowHash ::
    "(string \<Rightarrow> string \<Rightarrow> string) \<Rightarrow> string \<Rightarrow> string option \<Rightarrow> canonical_row \<Rightarrow> string" where
  "computeRowHash hmac secret prevHash row =
     (let prev = (case prevHash of None \<Rightarrow> GENESIS_PREV_HASH | Some p \<Rightarrow> p)
      in hmac secret (prev @ [NUL] @ serializeCanonicalRow row))"

text \<open>
  \<open>JSON.stringify(undefined)\<close> is \<open>undefined\<close>, here \<open>None\<close>: \<open>join\<close> writes it as nothing, string
  concatenation as \<open>undefined\<close>. Sorting the keys and then serializing the properties is written as
  serializing the properties and then sorting them by key.
\<close>

fun canonicalJsonStringify :: "json \<Rightarrow> string option" where
  "canonicalJsonStringify JNull = Some ''null''"
| "canonicalJsonStringify JUndefined = None"
| "canonicalJsonStringify (JBool b) = Some (if b then ''true'' else ''false'')"
| "canonicalJsonStringify (JNum n) = Some (show_int n)"
| "canonicalJsonStringify (JStr s) = Some (quote_string s)"
| "canonicalJsonStringify (JArr vs) =
     Some (''['' @ join_with '','' (map (\<lambda>v. case canonicalJsonStringify v of None \<Rightarrow> [] | Some t \<Rightarrow> t) vs) @ '']'')"
| "canonicalJsonStringify (JObj kvs) =
     Some (''{'' @ join_with '','' (map (\<lambda>(k, t). quote_string k @ '':'' @ t)
       (js_sort (\<lambda>a b. string_cmp (fst a) (fst b))
         (map (\<lambda>(k, v). (k, case canonicalJsonStringify v of None \<Rightarrow> ''undefined'' | Some t \<Rightarrow> t)) kvs))) @ ''}'')"

text \<open>
  Every caller replaces \<open>undefined\<close> by \<open>null\<close> before it hashes a payload, so the text is there.
\<close>

definition canonicalPayloadHash :: "(string \<Rightarrow> string \<Rightarrow> string) \<Rightarrow> json \<Rightarrow> string" where
  "canonicalPayloadHash hmac payload =
     hmac [] (case canonicalJsonStringify payload of Some t \<Rightarrow> t | None \<Rightarrow> ''undefined'')"

subsection \<open>Verification\<close>

datatype verify_reason =
    ChainEmpty
  | ChainOk
  | PrevHashMismatch
  | HashMismatch
  | ChainSeqNonMonotonic
  | MissingHash

record verify_result =
  vr_ok :: bool
  vr_failedAt :: "nat option"
  vr_reason :: verify_reason

record chain_entry =
  ce_row :: canonical_row
  ce_storedPrevHash :: "string option"
  ce_storedHash :: "string option"
  ce_chainSeq :: "int option"

definition chainFailure :: "nat \<Rightarrow> verify_reason \<Rightarrow> verify_result" where
  "chainFailure i reason = \<lparr>vr_ok = False, vr_failedAt = Some i, vr_reason = reason\<rparr>"

fun verifyLoop ::
    "(string \<Rightarrow> string \<Rightarrow> string) \<Rightarrow> string \<Rightarrow> string option \<Rightarrow> int \<Rightarrow> nat \<Rightarrow> chain_entry list \<Rightarrow> verify_result" where
  "verifyLoop hmac secret expectedPrev expectedSeq i [] = \<lparr>vr_ok = True, vr_failedAt = None, vr_reason = ChainOk\<rparr>"
| "verifyLoop hmac secret expectedPrev expectedSeq i (entry # rows) =
     (case (ce_storedHash entry, ce_chainSeq entry) of
        (Some storedHash, Some chainSeq) \<Rightarrow>
          if chainSeq \<noteq> expectedSeq then chainFailure i ChainSeqNonMonotonic
          else if ce_storedPrevHash entry \<noteq> expectedPrev then chainFailure i PrevHashMismatch
          else if computeRowHash hmac secret expectedPrev (ce_row entry) \<noteq> storedHash
          then chainFailure i HashMismatch
          else verifyLoop hmac secret (Some storedHash) (expectedSeq + 1) (i + 1) rows
      | _ \<Rightarrow> chainFailure i MissingHash)"

definition verifyChain ::
    "(string \<Rightarrow> string \<Rightarrow> string) \<Rightarrow> string \<Rightarrow> chain_entry list \<Rightarrow> verify_result" where
  "verifyChain hmac secret rows =
     (if rows = [] then \<lparr>vr_ok = True, vr_failedAt = None, vr_reason = ChainEmpty\<rparr>
      else verifyLoop hmac secret None 1 0 rows)"

subsection \<open>The secret\<close>

datatype node_env = Development | TestEnv | Production

datatype audit_error = SecretMissingInProduction | NotConfigured | ChainSeqOverflow string

definition DEV_AUDIT_SECRET_SENTINEL :: string where
  "DEV_AUDIT_SECRET_SENTINEL = ''dev-only-audit-secret-do-not-use-in-production''"

definition resolveAuditSecret :: "string option \<Rightarrow> node_env \<Rightarrow> audit_error + string" where
  "resolveAuditSecret AUDIT_HMAC_SECRET NODE_ENV =
     (case AUDIT_HMAC_SECRET of
        Some s \<Rightarrow> if s \<noteq> [] then Inr s
                  else if NODE_ENV = Production then Inl SecretMissingInProduction else Inr DEV_AUDIT_SECRET_SENTINEL
      | None \<Rightarrow> if NODE_ENV = Production then Inl SecretMissingInProduction else Inr DEV_AUDIT_SECRET_SENTINEL)"

definition requireAuditSecret :: "string option \<Rightarrow> audit_error + string" where
  "requireAuditSecret auditSecret = (case auditSecret of None \<Rightarrow> Inl NotConfigured | Some s \<Rightarrow> Inr s)"

subsection \<open>The table\<close>

record audit_row =
  ar_id :: string
  ar_createdAt :: string
  ar_appId :: string
  ar_requestId :: "string option"
  ar_userId :: "string option"
  ar_eventType :: string
  ar_entityType :: "string option"
  ar_entityId :: "string option"
  ar_turnkeyActivityId :: "string option"
  ar_turnkeyRequestId :: "string option"
  ar_payloadJson :: json
  ar_outcome :: outcome
  ar_prevHash :: "string option"
  ar_hash :: "string option"
  ar_chainSeq :: "int option"

record insert_params =
  ip_appId :: string
  ip_requestId :: "string option"
  ip_userId :: "string option"
  ip_eventType :: string
  ip_entityType :: "string option"
  ip_entityId :: "string option"
  ip_turnkeyActivityId :: "string option"
  ip_turnkeyRequestId :: "string option"
  ip_payloadJson :: json
  ip_outcome :: outcome

text \<open>\<open>WHERE app_id = $1 AND chain_seq IS NOT NULL ORDER BY chain_seq\<close>, ascending.\<close>

definition seq_key :: "audit_row \<Rightarrow> int" where
  "seq_key r = (case ar_chainSeq r of Some s \<Rightarrow> s | None \<Rightarrow> 0)"

definition chainedRows :: "string \<Rightarrow> audit_row list \<Rightarrow> audit_row list" where
  "chainedRows appId rows =
     js_sort (\<lambda>a b. seq_key a - seq_key b) (filter (\<lambda>r. ar_appId r = appId \<and> ar_chainSeq r \<noteq> None) rows)"

text \<open>\<open>ORDER BY chain_seq DESC LIMIT 1\<close>.\<close>

definition chainTip :: "string \<Rightarrow> audit_row list \<Rightarrow> audit_row option" where
  "chainTip appId rows = (case rev (chainedRows appId rows) of [] \<Rightarrow> None | r # rs \<Rightarrow> Some r)"

text \<open>\<open>params.payloadJson ?? null\<close> and \<open>params.payloadJson ? JSON.stringify(...) : null\<close>.\<close>

definition or_null :: "json \<Rightarrow> json" where
  "or_null v = (if v = JUndefined then JNull else v)"

definition storedPayload :: "(json \<Rightarrow> json) \<Rightarrow> json \<Rightarrow> json" where
  "storedPayload jsonb v = (if truthy v then jsonb (stripped v) else JNull)"

definition insertAuditLog ::
    "(string \<Rightarrow> string \<Rightarrow> string) \<Rightarrow> (json \<Rightarrow> json) \<Rightarrow> string \<Rightarrow> string \<Rightarrow> string \<Rightarrow> insert_params \<Rightarrow> audit_row list \<Rightarrow>
     audit_error + audit_row list" where
  "insertAuditLog hmac jsonb chainSecret uuid nowIso params rows =
     (let tip = chainTip (ip_appId params) rows;
          prevHash = (case tip of None \<Rightarrow> None | Some t \<Rightarrow> ar_hash t)
      in rbind (case tip of
                  None \<Rightarrow> Inr 1
                | Some t \<Rightarrow> (case ar_chainSeq t of
                    None \<Rightarrow> Inr 1
                  | Some s \<Rightarrow> if \<bar>s\<bar> > MAX_SAFE_INTEGER then Inl (ChainSeqOverflow (ip_appId params)) else Inr (s + 1)))
           (\<lambda>nextSeq.
             let payloadHashHex = canonicalPayloadHash hmac (or_null (ip_payloadJson params));
                 hash = computeRowHash hmac chainSecret prevHash
                   \<lparr>cr_id = uuid, cr_createdAt = nowIso, cr_appId = ip_appId params,
                    cr_requestId = ip_requestId params, cr_userId = ip_userId params,
                    cr_eventType = ip_eventType params, cr_entityType = ip_entityType params,
                    cr_entityId = ip_entityId params, cr_turnkeyActivityId = ip_turnkeyActivityId params,
                    cr_turnkeyRequestId = ip_turnkeyRequestId params, cr_payloadHashHex = payloadHashHex,
                    cr_outcome = ip_outcome params\<rparr>
             in Inr (rows @ [\<lparr>ar_id = uuid, ar_createdAt = nowIso, ar_appId = ip_appId params,
                    ar_requestId = ip_requestId params, ar_userId = ip_userId params,
                    ar_eventType = ip_eventType params, ar_entityType = ip_entityType params,
                    ar_entityId = ip_entityId params, ar_turnkeyActivityId = ip_turnkeyActivityId params,
                    ar_turnkeyRequestId = ip_turnkeyRequestId params,
                    ar_payloadJson = storedPayload jsonb (ip_payloadJson params),
                    ar_outcome = ip_outcome params, ar_prevHash = prevHash, ar_hash = Some hash,
                    ar_chainSeq = Some nextSeq\<rparr>])))"

definition auditEvent ::
    "(string \<Rightarrow> string \<Rightarrow> string) \<Rightarrow> (json \<Rightarrow> json) \<Rightarrow> string option \<Rightarrow> string \<Rightarrow> string \<Rightarrow> insert_params \<Rightarrow> audit_row list \<Rightarrow>
     audit_error + audit_row list" where
  "auditEvent hmac jsonb auditSecret uuid nowIso params rows =
     rbind (requireAuditSecret auditSecret) (\<lambda>secret. insertAuditLog hmac jsonb secret uuid nowIso params rows)"

definition entryFromRow :: "(string \<Rightarrow> string \<Rightarrow> string) \<Rightarrow> audit_row \<Rightarrow> chain_entry" where
  "entryFromRow hmac r =
     \<lparr>ce_row = \<lparr>cr_id = ar_id r, cr_createdAt = ar_createdAt r, cr_appId = ar_appId r,
        cr_requestId = ar_requestId r, cr_userId = ar_userId r, cr_eventType = ar_eventType r,
        cr_entityType = ar_entityType r, cr_entityId = ar_entityId r,
        cr_turnkeyActivityId = ar_turnkeyActivityId r, cr_turnkeyRequestId = ar_turnkeyRequestId r,
        cr_payloadHashHex = canonicalPayloadHash hmac (or_null (ar_payloadJson r)), cr_outcome = ar_outcome r\<rparr>,
      ce_storedPrevHash = ar_prevHash r, ce_storedHash = ar_hash r, ce_chainSeq = ar_chainSeq r\<rparr>"

text \<open>The result with \<open>rowsVerified\<close>.\<close>

definition verifyAuditChainForApp ::
    "(string \<Rightarrow> string \<Rightarrow> string) \<Rightarrow> audit_row list \<Rightarrow> string \<Rightarrow> string \<Rightarrow> verify_result \<times> nat" where
  "verifyAuditChainForApp hmac table appId secret =
     (let rows = map (entryFromRow hmac) (chainedRows appId table)
      in (verifyChain hmac secret rows, length rows))"

subsection \<open>What a verified chain is\<close>

fun goodChain :: "(string \<Rightarrow> string \<Rightarrow> string) \<Rightarrow> string \<Rightarrow> string option \<Rightarrow> int \<Rightarrow> chain_entry list \<Rightarrow> bool" where
  "goodChain hmac secret prev n [] = True"
| "goodChain hmac secret prev n (e # es) \<longleftrightarrow>
     ce_storedHash e = Some (computeRowHash hmac secret prev (ce_row e)) \<and> ce_chainSeq e = Some n
     \<and> ce_storedPrevHash e = prev \<and> goodChain hmac secret (ce_storedHash e) (n + 1) es"

lemma verifyLoop_ok: "vr_ok (verifyLoop hmac secret prev n i es) \<longleftrightarrow> goodChain hmac secret prev n es"
  by (induction es arbitrary: prev n i) (auto simp: chainFailure_def split: option.splits)

lemma verifyLoop_good:
  "goodChain hmac secret prev n es \<Longrightarrow>
   verifyLoop hmac secret prev n i es = \<lparr>vr_ok = True, vr_failedAt = None, vr_reason = ChainOk\<rparr>"
  by (induction es arbitrary: prev n i) auto

text \<open>Before the index reported everything is right, and the entry there is wrong.\<close>

lemma verifyLoop_failedAt:
  assumes "vr_failedAt (verifyLoop hmac secret prev n i es) = Some j"
  shows "i \<le> j \<and> j - i < length es \<and> goodChain hmac secret prev n (take (j - i) es)
    \<and> \<not> goodChain hmac secret prev n (take (Suc (j - i)) es)"
  using assms
proof (induction es arbitrary: prev n i)
  case Nil
  then show ?case by simp
next
  case (Cons e es)
  show ?case
  proof (cases "goodChain hmac secret prev n [e]")
    case True
    then have "vr_failedAt (verifyLoop hmac secret (ce_storedHash e) (n + 1) (i + 1) es) = Some j"
      using Cons.prems by simp
    note ih = Cons.IH [OF this]
    then have "i < j" by simp
    then have "j - i = Suc (j - (i + 1))" by arith
    then show ?thesis using ih True by simp
  next
    case False
    then have "j = i" using Cons.prems
      by (auto simp: chainFailure_def split: option.splits if_splits)
    then show ?thesis using False by simp
  qed
qed

lemma goodChain_append:
  "goodChain hmac secret prev n (es @ [e]) \<longleftrightarrow> goodChain hmac secret prev n es
     \<and> (let tip = (if es = [] then prev else ce_storedHash (last es))
        in ce_storedHash e = Some (computeRowHash hmac secret tip (ce_row e))
           \<and> ce_chainSeq e = Some (n + int (length es)) \<and> ce_storedPrevHash e = tip)"
  by (induction es arbitrary: prev n) (auto simp: Let_def algebra_simps)

lemma goodChain_seq:
  "goodChain hmac secret prev n es \<Longrightarrow> i < length es \<Longrightarrow> ce_chainSeq (es ! i) = Some (n + int i)"
proof (induction es arbitrary: prev n i)
  case Nil
  then show ?case by simp
next
  case (Cons e es)
  then show ?case by (cases i) (auto simp: algebra_simps)
qed

subsection \<open>Insertions keep every chain\<close>

interpretation seqs: comparator "\<lambda>a b. seq_key a - seq_key b"
  by unfold_locales auto

definition appRows :: "string \<Rightarrow> audit_row list \<Rightarrow> audit_row list" where
  "appRows appId rows = filter (\<lambda>r. ar_appId r = appId \<and> ar_chainSeq r \<noteq> None) rows"

definition chainInv :: "(string \<Rightarrow> string \<Rightarrow> string) \<Rightarrow> string \<Rightarrow> audit_row list \<Rightarrow> bool" where
  "chainInv hmac secret table \<longleftrightarrow>
     (\<forall>appId. goodChain hmac secret None 1 (map (entryFromRow hmac) (appRows appId table)))"

lemma chainedRows_sorted:
  assumes "goodChain hmac secret None 1 (map (entryFromRow hmac) (appRows appId table))"
  shows "chainedRows appId table = appRows appId table"
proof -
  have "seq_key (appRows appId table ! i) = 1 + int i" if "i < length (appRows appId table)" for i
    using goodChain_seq [OF assms, of i] that by (simp add: seq_key_def entryFromRow_def)
  then have "seqs.ordered (appRows appId table)"
    by (simp add: sorted_wrt_iff_nth_less)
  then show ?thesis unfolding chainedRows_def appRows_def by (rule seqs.sort_ordered_id)
qed

definition storable :: "json \<Rightarrow> bool" where
  "storable v \<longleftrightarrow> v = JUndefined \<or> v = JNull \<or> (proper v \<and> truthy v)"

definition jsonbLaw :: "(json \<Rightarrow> json) \<Rightarrow> bool" where
  "jsonbLaw jsonb \<longleftrightarrow> (\<forall>v. proper v \<longrightarrow>
     jsonb v \<noteq> JUndefined \<and> canonicalJsonStringify (jsonb v) = canonicalJsonStringify v)"

lemma storable_hash:
  assumes "jsonbLaw jsonb" "storable v"
  shows "canonicalPayloadHash hmac (or_null (storedPayload jsonb v)) = canonicalPayloadHash hmac (or_null v)"
  using assms proper_defined [of v]
  by (auto simp: storable_def jsonbLaw_def storedPayload_def or_null_def canonicalPayloadHash_def stripped_proper)

lemma insertAuditLog_Inr:
  assumes "insertAuditLog hmac jsonb secret uuid now params table = Inr table'"
    and "chainInv hmac secret table" "jsonbLaw jsonb" "storable (ip_payloadJson params)"
  shows "chainInv hmac secret table'
    \<and> (\<forall>appId. length (appRows appId table') = length (appRows appId table) + (if appId = ip_appId params then 1 else 0))
    \<and> (\<exists>row. table' = table @ [row])"
proof -
  let ?app = "ip_appId params"
  let ?rows = "appRows ?app table"
  have good: "goodChain hmac secret None 1 (map (entryFromRow hmac) ?rows)"
    using assms(2) by (simp add: chainInv_def)
  then have tip: "chainTip ?app table = (if ?rows = [] then None else Some (last ?rows))"
    by (cases ?rows rule: rev_cases) (simp_all add: chainTip_def chainedRows_sorted)
  have lastSeq: "ar_chainSeq (last ?rows) = Some (int (length ?rows))" if "?rows \<noteq> []"
    using goodChain_seq [OF good, of "length ?rows - 1"] that
    by (simp add: last_conv_nth entryFromRow_def of_nat_diff Suc_le_eq)
  define prev where "prev = (if ?rows = [] then None else ar_hash (last ?rows))"
  obtain row where row: "table' = table @ [row]" "ar_appId row = ?app"
      "ar_chainSeq row = Some (1 + int (length ?rows))" "ar_prevHash row = prev"
      "ar_hash row = Some (computeRowHash hmac secret prev (ce_row (entryFromRow hmac row)))"
    using assms(1) lastSeq storable_hash [OF assms(3,4)]
    by (auto simp: insertAuditLog_def tip Let_def rbind_eq_Inr_iff prev_def entryFromRow_def split: if_splits)
  have rows': "appRows appId table' = appRows appId table @ (if appId = ?app then [row] else [])" for appId
    using row by (auto simp: appRows_def)
  have "goodChain hmac secret None 1 (map (entryFromRow hmac) (?rows @ [row]))"
    using good row by (simp add: goodChain_append Let_def prev_def last_map) (simp add: entryFromRow_def)
  then have "chainInv hmac secret table'"
    using assms(2) by (simp add: chainInv_def rows')
  then show ?thesis using rows' row(1) by simp
qed

text \<open>
  The tables that the hub reaches from one without chained rows, by insertions for any
  applications in any order.
\<close>

inductive auditReach :: "(string \<Rightarrow> string \<Rightarrow> string) \<Rightarrow> (json \<Rightarrow> json) \<Rightarrow> string \<Rightarrow> audit_row list \<Rightarrow> bool"
  for hmac jsonb secret where
  initial: "(\<forall>r\<in>set table. ar_chainSeq r = None) \<Longrightarrow> auditReach hmac jsonb secret table"
| inserted: "auditReach hmac jsonb secret table \<Longrightarrow> storable (ip_payloadJson params) \<Longrightarrow>
    auditEvent hmac jsonb (Some secret) uuid now params table = Inr table' \<Longrightarrow>
    auditReach hmac jsonb secret table'"

lemma auditReach_inv:
  assumes "auditReach hmac jsonb secret table" "jsonbLaw jsonb"
  shows "chainInv hmac secret table"
  using assms
proof (induction rule: auditReach.induct)
  case (initial table)
  then have "appRows appId table = []" for appId by (auto simp: appRows_def filter_empty_conv)
  then show ?case by (simp add: chainInv_def)
next
  case (inserted table params uuid now table')
  then show ?case
    using insertAuditLog_Inr [of hmac jsonb secret uuid now params table table']
    by (simp add: auditEvent_def requireAuditSecret_def)
qed

lemma verify_inv:
  assumes "chainInv hmac secret table"
  shows "verifyAuditChainForApp hmac table appId secret =
    (\<lparr>vr_ok = True, vr_failedAt = None, vr_reason = (if appRows appId table = [] then ChainEmpty else ChainOk)\<rparr>,
     length (appRows appId table))"
proof -
  have good: "goodChain hmac secret None 1 (map (entryFromRow hmac) (appRows appId table))"
    using assms by (simp add: chainInv_def)
  then show ?thesis
    using verifyLoop_good [OF good, of 0]
    by (simp add: verifyAuditChainForApp_def chainedRows_sorted [OF good] verifyChain_def)
qed

subsection \<open>Serialization is injective on ordinary rows\<close>

text \<open>The fields in order, and what a field contributes between separators.\<close>

definition rowFields :: "canonical_row \<Rightarrow> string option list" where
  "rowFields row = [Some (cr_id row), Some (cr_createdAt row), Some (cr_appId row),
     cr_requestId row, cr_userId row, Some (cr_eventType row), cr_entityType row, cr_entityId row,
     cr_turnkeyActivityId row, cr_turnkeyRequestId row, Some (cr_payloadHashHex row),
     Some (outcome_text (cr_outcome row))]"

definition segments :: "string option \<Rightarrow> string list" where
  "segments f = (case f of None \<Rightarrow> [[], ''null''] | Some s \<Rightarrow> [s])"

text \<open>A row as the database holds it: no text contains NUL, and an optional text is not empty.\<close>

definition ordinaryRow :: "canonical_row \<Rightarrow> bool" where
  "ordinaryRow row \<longleftrightarrow> (\<forall>s. Some s \<in> set (rowFields row) \<longrightarrow> NUL \<notin> set s)
     \<and> Some [] \<notin> set [cr_requestId row, cr_userId row, cr_entityType row, cr_entityId row,
         cr_turnkeyActivityId row, cr_turnkeyRequestId row]"

lemma join_segments:
  "fs \<noteq> [] \<Longrightarrow> join_with [NUL] (map nullableField fs) = join_with [NUL] (concat (map segments fs))"
proof (induction fs)
  case Nil
  then show ?case by simp
next
  case (Cons f fs)
  show ?case
  proof (cases "fs = []")
    case True
    then show ?thesis by (cases f) (simp_all add: nullableField_def segments_def)
  next
    case False
    then have "concat (map segments fs) \<noteq> []" by (cases fs) (auto simp: segments_def split: option.splits)
    then show ?thesis
      using Cons.IH False by (cases f) (simp_all add: nullableField_def segments_def join_with_Cons)
  qed
qed

lemma serialize_segments: "serializeCanonicalRow row = join_with [NUL] (concat (map segments (rowFields row)))"
proof -
  have "serializeCanonicalRow row = join_with [NUL] (map nullableField (rowFields row))"
    by (simp add: serializeCanonicalRow_def rowFields_def nullableField_def)
  moreover have "rowFields row \<noteq> []" by (simp add: rowFields_def)
  ultimately show ?thesis using join_segments [of "rowFields row"] by simp
qed

lemma count_join:
  "xs \<noteq> [] \<Longrightarrow> (\<forall>x\<in>set xs. c \<notin> set x) \<Longrightarrow> Suc (count_list (join_with [c] xs) c) = length xs"
proof (induction xs)
  case Nil
  then show ?case by simp
next
  case (Cons x xs)
  then show ?case by (cases "xs = []") (simp_all add: join_with_Cons count_notin)
qed

lemma join_inject:
  assumes "xs \<noteq> []" "ys \<noteq> []" "\<forall>x\<in>set xs. c \<notin> set x" "\<forall>y\<in>set ys. c \<notin> set y"
    and "join_with [c] xs = join_with [c] ys"
  shows "xs = ys"
proof (rule join_with_inject)
  show "length xs = length ys" using count_join [OF assms(1,3)] count_join [OF assms(2,4)] assms(5) by simp
qed (use assms in auto)

lemma segments_inject:
  assumes "list_all2 (\<lambda>f g. (f \<noteq> None \<and> g \<noteq> None) \<or> (f \<noteq> Some [] \<and> g \<noteq> Some [])) fs gs"
    and "concat (map segments fs) = concat (map segments gs)"
  shows "fs = gs"
  using assms
proof (induction fs gs rule: list_all2_induct)
  case Nil
  then show ?case by simp
next
  case (Cons f fs g gs)
  then show ?case by (cases f; cases g) (auto simp: segments_def)
qed

lemma outcome_text_inject: "outcome_text a = outcome_text b \<longleftrightarrow> a = b"
  by (cases a; cases b) auto

lemma rowFields_inject: "rowFields a = rowFields b \<Longrightarrow> a = b"
  by (cases a; cases b) (simp add: rowFields_def outcome_text_inject)

lemma serialize_inject:
  assumes "ordinaryRow a" "ordinaryRow b" "serializeCanonicalRow a = serializeCanonicalRow b"
  shows "a = b"
proof (rule rowFields_inject, rule segments_inject)
  have nonul: "\<forall>x\<in>set (concat (map segments (rowFields r))). NUL \<notin> set x" if "ordinaryRow r" for r
  proof
    fix x
    assume "x \<in> set (concat (map segments (rowFields r)))"
    then obtain f where f: "f \<in> set (rowFields r)" "x \<in> set (segments f)" by auto
    show "NUL \<notin> set x"
    proof (cases f)
      case None
      then show ?thesis using f by (auto simp: segments_def NUL_def)
    next
      case (Some s)
      then show ?thesis using f that by (auto simp: segments_def ordinaryRow_def)
    qed
  qed
  have ne: "concat (map segments (rowFields r)) \<noteq> []" for r
    by (simp add: rowFields_def segments_def)
  show "concat (map segments (rowFields a)) = concat (map segments (rowFields b))"
    by (rule join_inject [OF ne ne nonul [OF assms(1)] nonul [OF assms(2)]])
      (use assms(3) in \<open>simp add: serialize_segments\<close>)
  show "list_all2 (\<lambda>f g. (f \<noteq> None \<and> g \<noteq> None) \<or> (f \<noteq> Some [] \<and> g \<noteq> Some [])) (rowFields a) (rowFields b)"
  proof -
    have ne: "f \<noteq> Some []" if "ordinaryRow r"
        "f \<in> set [cr_requestId r, cr_userId r, cr_entityType r, cr_entityId r, cr_turnkeyActivityId r, cr_turnkeyRequestId r]"
      for f r
      using that by (metis ordinaryRow_def)
    show ?thesis
      using ne [OF assms(1)] ne [OF assms(2)] by (simp add: rowFields_def)
  qed
qed

subsection \<open>Tampering\<close>

lemma computeRowHash_inject:
  assumes "ordinaryRow a" "ordinaryRow b" "\<forall>s. p = Some s \<longrightarrow> NUL \<notin> set s" "\<forall>s. q = Some s \<longrightarrow> NUL \<notin> set s"
    and "p = Some GENESIS_PREV_HASH \<longrightarrow> q \<noteq> None" "q = Some GENESIS_PREV_HASH \<longrightarrow> p \<noteq> None"
    and "computeRowHash hmac secret p a = computeRowHash hmac secret q b"
  shows "(a = b \<and> p = q) \<or> (\<exists>x y. x \<noteq> y \<and> hmac secret x = hmac secret y)"
proof (rule disjCI)
  assume "\<nexists>x y. x \<noteq> y \<and> hmac secret x = hmac secret y"
  then have eq: "(case p of None \<Rightarrow> GENESIS_PREV_HASH | Some s \<Rightarrow> s) @ NUL # serializeCanonicalRow a
      = (case q of None \<Rightarrow> GENESIS_PREV_HASH | Some s \<Rightarrow> s) @ NUL # serializeCanonicalRow b"
    using assms(7) by (auto simp: computeRowHash_def Let_def)
  have "NUL \<notin> set GENESIS_PREV_HASH" by (simp add: GENESIS_PREV_HASH_def NUL_def)
  then have "(case p of None \<Rightarrow> GENESIS_PREV_HASH | Some s \<Rightarrow> s) = (case q of None \<Rightarrow> GENESIS_PREV_HASH | Some s \<Rightarrow> s)
      \<and> serializeCanonicalRow a = serializeCanonicalRow b"
    using assms(3,4) by (intro append_sep_inject [OF _ _ eq]) (auto split: option.splits)
  then show "a = b \<and> p = q"
    using serialize_inject [OF assms(1,2)] assms(5,6) by (auto split: option.splits)
qed

text \<open>Hashes are hexadecimal text: they contain no NUL and are not the word \<open>genesis\<close>.\<close>

definition hexHmac :: "(string \<Rightarrow> string \<Rightarrow> string) \<Rightarrow> bool" where
  "hexHmac hmac \<longleftrightarrow> (\<forall>s m. NUL \<notin> set (hmac s m) \<and> hmac s m \<noteq> GENESIS_PREV_HASH)"

definition storedOk :: "(string \<Rightarrow> string \<Rightarrow> string) \<Rightarrow> string option \<Rightarrow> bool" where
  "storedOk hmac p \<longleftrightarrow> (\<forall>s. p = Some s \<longrightarrow> NUL \<notin> set s \<and> s \<noteq> GENESIS_PREV_HASH)"

text \<open>Two verified chains that end in the same hash are the same chain.\<close>

lemma goodChain_unique:
  assumes "hexHmac hmac"
    and "goodChain hmac secret None 1 es" "goodChain hmac secret None 1 fs" "length es = length fs"
    and "\<forall>e\<in>set es. ordinaryRow (ce_row e)" "\<forall>f\<in>set fs. ordinaryRow (ce_row f)"
    and "es \<noteq> [] \<longrightarrow> ce_storedHash (last es) = ce_storedHash (last fs)"
  shows "map ce_row es = map ce_row fs \<or> (\<exists>x y. x \<noteq> y \<and> hmac secret x = hmac secret y)"
  using assms(2-)
proof (induction es arbitrary: fs rule: rev_induct)
  case Nil
  then show ?case by simp
next
  case (snoc e es)
  obtain gs g where fs: "fs = gs @ [g]" using snoc.prems(3) by (cases fs rule: rev_cases) auto
  define p where "p = (if es = [] then None else ce_storedHash (last es))"
  define q where "q = (if gs = [] then None else ce_storedHash (last gs))"
  have e: "ce_storedHash e = Some (computeRowHash hmac secret p (ce_row e))" "goodChain hmac secret None 1 es"
    and g: "ce_storedHash g = Some (computeRowHash hmac secret q (ce_row g))" "goodChain hmac secret None 1 gs"
    using snoc.prems(1,2) by (simp_all add: goodChain_append fs Let_def p_def q_def)
  have hashed: "\<exists>s. ce_storedHash (last xs) = Some s \<and> NUL \<notin> set s \<and> s \<noteq> GENESIS_PREV_HASH"
    if "goodChain hmac secret None 1 xs" "xs \<noteq> []" for xs
    using that assms(1) by (cases xs rule: rev_cases) (auto simp: goodChain_append Let_def hexHmac_def computeRowHash_def)
  have len: "length es = length gs" using snoc.prems(3) fs by simp
  have pq: "(ce_row e = ce_row g \<and> p = q) \<or> (\<exists>x y. x \<noteq> y \<and> hmac secret x = hmac secret y)"
  proof (rule computeRowHash_inject)
    show "ordinaryRow (ce_row e)" "ordinaryRow (ce_row g)" using snoc.prems fs by auto
    show "computeRowHash hmac secret p (ce_row e) = computeRowHash hmac secret q (ce_row g)"
      using snoc.prems(6) fs e g by simp
  qed (use hashed [OF e(2)] hashed [OF g(2)] in \<open>auto simp: p_def q_def\<close>)
  show ?case
  proof (cases "\<exists>x y. x \<noteq> y \<and> hmac secret x = hmac secret y")
    case True
    then show ?thesis by blast
  next
    case False
    then have "ce_row e = ce_row g" "p = q" using pq by blast+
    then have "map ce_row es = map ce_row gs"
      using snoc.IH [OF e(2) g(2) len] snoc.prems(4,5) fs False len
      by (auto simp: p_def q_def split: if_splits)
    then show ?thesis using fs \<open>ce_row e = ce_row g\<close> by simp
  qed
qed

subsection \<open>Properties\<close>


definition sampleParams :: insert_params where
  "sampleParams = \<lparr>ip_appId = ''app'', ip_requestId = None, ip_userId = Some ''u1'', ip_eventType = ''login'',
     ip_entityType = None, ip_entityId = None, ip_turnkeyActivityId = None, ip_turnkeyRequestId = None,
     ip_payloadJson = JObj [(''b'', JNum 1), (''a'', JBool False)], ip_outcome = Succeeded\<rparr>"

definition plainHmac :: "string \<Rightarrow> string \<Rightarrow> string" where "plainHmac s m = s @ m"



definition sampleRow :: "string option \<Rightarrow> string option \<Rightarrow> string option \<Rightarrow> canonical_row" where
  "sampleRow ty ent act = \<lparr>cr_id = ''1'', cr_createdAt = ''2024'', cr_appId = ''app'', cr_requestId = None,
     cr_userId = None, cr_eventType = ''login'', cr_entityType = ty, cr_entityId = ent,
     cr_turnkeyActivityId = act, cr_turnkeyRequestId = None, cr_payloadHashHex = ''ab'', cr_outcome = Succeeded\<rparr>"

definition sampleChain :: "string \<Rightarrow> chain_entry list" where
  "sampleChain ent = [\<lparr>ce_row = sampleRow None (Some ent) None, ce_storedPrevHash = None,
     ce_storedHash = Some ''cd'', ce_chainSeq = Some 1\<rparr>]"

definition constHmac :: "string \<Rightarrow> string \<Rightarrow> string" where "constHmac s m = ''cd''"


text \<open>
  The index of a failed verification is that of the first bad row: the rows before it verify and
  together with it they do not; a verification without an index is a success.
\<close>

theorem verifyChain_first_failure:
  "case vr_failedAt (verifyChain hmac secret es) of
     None \<Rightarrow> vr_ok (verifyChain hmac secret es)
   | Some j \<Rightarrow> j < length es \<and> \<not> vr_ok (verifyChain hmac secret es)
       \<and> vr_ok (verifyChain hmac secret (take j es)) \<and> \<not> vr_ok (verifyChain hmac secret (take (Suc j) es))"
proof -
  have ok: "vr_failedAt (verifyLoop hmac secret p n i fs) = None \<longleftrightarrow> vr_ok (verifyLoop hmac secret p n i fs)"
    for p n i fs
    by (induction fs arbitrary: p n i) (auto simp: chainFailure_def split: option.splits)
  show ?thesis
  proof (cases "vr_failedAt (verifyChain hmac secret es)")
    case None
    then show ?thesis using ok [of None 1 0 es] by (auto simp: verifyChain_def)
  next
    case (Some j)
    then have ne: "es \<noteq> []" and f: "vr_failedAt (verifyLoop hmac secret None 1 0 es) = Some j"
      by (auto simp: verifyChain_def split: if_splits)
    note v = verifyLoop_failedAt [OF f]
    have "vr_ok (verifyChain hmac secret (take j es))"
      using v verifyLoop_ok [of hmac secret None 1 0 "take j es"] by (auto simp: verifyChain_def)
    moreover have "\<not> vr_ok (verifyChain hmac secret (take (Suc j) es))"
      using v ne verifyLoop_ok [of hmac secret None 1 0 "take (Suc j) es"] by (auto simp: verifyChain_def)
    moreover have "\<not> vr_ok (verifyChain hmac secret es)" using f ok [of None 1 0 es] ne by (simp add: verifyChain_def)
    ultimately show ?thesis using Some v by simp
  qed
qed

text \<open>
  The separator does not keep all rows apart: \<open>null\<close> is written with a separator of its own, so
  a row without an entity type and one with an empty entity type can have the same serialization.
\<close>

theorem serialize_collision:
  "\<exists>a b. a \<noteq> b \<and> serializeCanonicalRow a = serializeCanonicalRow b \<and>
     cr_entityType a = None \<and> cr_entityType b = Some []"
proof (intro exI conjI)
  show "sampleRow None (Some []) (Some ''null'') \<noteq> sampleRow (Some []) (Some ''null'') None"
    by (simp add: sampleRow_def)
  show "serializeCanonicalRow (sampleRow None (Some []) (Some ''null''))
      = serializeCanonicalRow (sampleRow (Some []) (Some ''null'') None)"
    by (simp add: serializeCanonicalRow_def sampleRow_def nullableField_def)
qed (simp_all add: sampleRow_def)

definition breaksChain :: "json \<Rightarrow> bool" where
  "breaksChain v \<longleftrightarrow> (\<exists>table.
     auditEvent plainHmac (\<lambda>v. v) (Some ''key'') ''id1'' ''2024'' (sampleParams\<lparr>ip_payloadJson := v\<rparr>) [] = Inr table \<and>
     fst (verifyAuditChainForApp plainHmac table ''app'' ''key'') = chainFailure 0 HashMismatch)"

text \<open>
  An event whose payload has an undefined property, or whose payload is \<open>false\<close>, breaks the
  chain at its own row: the hash covers the text \<open>undefined\<close> (or \<open>false\<close>) while the database keeps
  the payload without the property (or nothing).
\<close>

theorem audit_undefined_payload_breaks:
  "breaksChain (JObj [(''reason'', JUndefined)]) \<and> breaksChain (JBool False)"
  by (simp add: breaksChain_def auditEvent_def requireAuditSecret_def insertAuditLog_def chainTip_def chainedRows_def
      Let_def sampleParams_def verifyAuditChainForApp_def entryFromRow_def verifyChain_def computeRowHash_def
      plainHmac_def storedPayload_def or_null_def canonicalPayloadHash_def quote_string_def escape_char_def
      char_code_def serializeCanonicalRow_def nullableField_def)

end
