(* ===== verification/RateLimit.thy ===== *)
theory RateLimit
  imports JsStrings JsArrays
begin

text \<open>
  \<open>services/wallet-hub-api/src/plugins/rateLimit.ts\<close>: the keys requests are counted under, the
  per-address ceiling with its windows in a \<open>Map\<close>, and the hook that runs the checks of a route's
  group. The counter of \<open>@fastify/rate-limit\<close> is a check given as an argument.
\<close>

subsection \<open>Keys\<close>

text \<open>A header that was sent more than once is no string: \<open>None\<close>, like an absent one.\<close>

record hub_request =
  rq_apiKeyId :: "string option"
  rq_ip :: string
  rq_installHeader :: "string option"
  rq_routeUrl :: string

definition keyForRequest :: "hub_request \<Rightarrow> string" where
  "keyForRequest req =
     (case rq_apiKeyId req of
        Some k \<Rightarrow> if k \<noteq> [] then ''app:'' @ k @ '':ip:'' @ rq_ip req else ''ip:'' @ rq_ip req
      | None \<Rightarrow> ''ip:'' @ rq_ip req)"

text \<open>\<open>/^[0-9a-f]{8}-[0-9a-f]{4}-[0-9a-f]{4}-[0-9a-f]{4}-[0-9a-f]{12}$/i\<close> on lower-case text.\<close>

fun uuid_groups :: "nat list \<Rightarrow> string \<Rightarrow> bool" where
  "uuid_groups [] s = False"
| "uuid_groups [n] s \<longleftrightarrow> length s = n \<and> list_all (\<lambda>c. hex_value c \<noteq> None) s"
| "uuid_groups (n # m # ns) s \<longleftrightarrow>
     n < length s \<and> list_all (\<lambda>c. hex_value c \<noteq> None) (take n s) \<and> s ! n = CHR ''-''
     \<and> uuid_groups (m # ns) (drop (n + 1) s)"

definition installIdFor :: "hub_request \<Rightarrow> string option" where
  "installIdFor req =
     (case rq_installHeader req of
        None \<Rightarrow> None
      | Some raw \<Rightarrow>
          let trimmed = js_lower (js_trim raw)
          in if uuid_groups [8, 4, 4, 4, 12] trimmed then Some trimmed else None)"

definition installKeyForRequest :: "hub_request \<Rightarrow> string" where
  "installKeyForRequest req =
     (case (rq_apiKeyId req, installIdFor req) of
        (Some k, Some i) \<Rightarrow> if k \<noteq> [] \<and> i \<noteq> [] then ''app:'' @ k @ '':install:'' @ i else keyForRequest req
      | _ \<Rightarrow> keyForRequest req)"

definition routeIpKey :: "hub_request \<Rightarrow> string" where
  "routeIpKey req = ''route:'' @ rq_routeUrl req @ '':ip:'' @ rq_ip req"

datatype rate_group = GlobalGroup | AuthGroup | RecoveryGroup | IndexerGroup | SendGroup

record group_limit =
  gl_max :: nat
  gl_key :: "hub_request \<Rightarrow> string"
  gl_ipCeiling :: "nat option"

fun RATE_LIMITS :: "rate_group \<Rightarrow> group_limit" where
  "RATE_LIMITS GlobalGroup = \<lparr>gl_max = 300, gl_key = keyForRequest, gl_ipCeiling = None\<rparr>"
| "RATE_LIMITS AuthGroup = \<lparr>gl_max = 20, gl_key = routeIpKey, gl_ipCeiling = None\<rparr>"
| "RATE_LIMITS RecoveryGroup = \<lparr>gl_max = 10, gl_key = routeIpKey, gl_ipCeiling = None\<rparr>"
| "RATE_LIMITS IndexerGroup = \<lparr>gl_max = 600, gl_key = installKeyForRequest, gl_ipCeiling = Some 3000\<rparr>"
| "RATE_LIMITS SendGroup = \<lparr>gl_max = 120, gl_key = installKeyForRequest, gl_ipCeiling = Some 600\<rparr>"

subsection \<open>The per-address ceiling\<close>

definition WINDOW_MS :: int where "WINDOW_MS = 60000"
definition IP_CEILING_MAX_KEYS :: nat where "IP_CEILING_MAX_KEYS = 10000"

record ip_window =
  iw_count :: nat
  iw_resetAt :: int

record exceeded =
  ex_limit :: nat
  ex_count :: nat
  ex_retrySeconds :: int

text \<open>A \<open>Map\<close> keeps its keys in insertion order; setting a key that is there keeps its place.\<close>

type_synonym windows = "(string \<times> ip_window) list"

definition map_delete :: "string \<Rightarrow> windows \<Rightarrow> windows" where
  "map_delete k ws = filter (\<lambda>p. fst p \<noteq> k) ws"

definition map_put :: "string \<Rightarrow> ip_window \<Rightarrow> windows \<Rightarrow> windows" where
  "map_put k v ws =
     (if k \<in> fst ` set ws then map (\<lambda>p. if fst p = k then (k, v) else p) ws else ws @ [(k, v)])"

definition openWindow :: "nat \<Rightarrow> string \<Rightarrow> int \<Rightarrow> windows \<Rightarrow> windows" where
  "openWindow maxKeys ip now ws =
     (let ws' = map_put ip \<lparr>iw_count = 0, iw_resetAt = now + WINDOW_MS\<rparr> (map_delete ip ws)
      in if length ws' > maxKeys then tl ws' else ws')"

text \<open>
  One call of the check. \<open>window\<close> is the object that the source holds a reference to: it counts even
  if its entry was evicted just before.
\<close>

definition ipCeilingCheck :: "nat \<Rightarrow> nat \<Rightarrow> string \<Rightarrow> int \<Rightarrow> windows \<Rightarrow> exceeded option \<times> windows" where
  "ipCeilingCheck maxKeys mx ip now ws =
     (let live = (case map_of ws ip of Some w \<Rightarrow> iw_resetAt w > now | None \<Rightarrow> False);
          ws1 = (if live then ws else openWindow maxKeys ip now ws);
          window = (if live then the (map_of ws ip) else \<lparr>iw_count = 0, iw_resetAt = now + WINDOW_MS\<rparr>);
          window' = window\<lparr>iw_count := iw_count window + 1\<rparr>;
          ws2 = map (\<lambda>p. if fst p = ip then (ip, window') else p) ws1
      in (if iw_count window' \<le> mx then None
          else Some \<lparr>ex_limit = mx, ex_count = iw_count window',
                     ex_retrySeconds = - ((now - iw_resetAt window') div 1000)\<rparr>,
          ws2))"

subsection \<open>The hook\<close>

datatype rate_mode = Enforce | LogOnly

text \<open>
  The checks run in order until one is exceeded; \<open>Inl\<close> is the error thrown. Log-only mode lets the
  request pass.
\<close>

fun limitRequest ::
    "rate_mode \<Rightarrow> ('req \<Rightarrow> 's \<Rightarrow> 'e option \<times> 's) list \<Rightarrow> 'req \<Rightarrow> 's \<Rightarrow> ('e + 'e option) \<times> 's" where
  "limitRequest mode [] req s = (Inr None, s)"
| "limitRequest mode (check # checks) req s =
     (case check req s of
        (None, s') \<Rightarrow> limitRequest mode checks req s'
      | (Some e, s') \<Rightarrow> (case mode of Enforce \<Rightarrow> (Inl e, s') | LogOnly \<Rightarrow> (Inr (Some e), s')))"

subsection \<open>Windows\<close>

definition wfWindows :: "nat \<Rightarrow> windows \<Rightarrow> bool" where
  "wfWindows maxKeys ws \<longleftrightarrow> distinct (map fst ws) \<and> length ws \<le> maxKeys"

lemma map_fst_update: "map fst (map (\<lambda>p. if fst p = k then (k, v) else p) ws) = map fst ws"
  by (induction ws) auto

lemma map_of_update: "map_of (map (\<lambda>p. if fst p = k then (k, v) else p) ws) x
    = (if x = k \<and> k \<in> fst ` set ws then Some v else map_of ws x)"
proof (induction ws)
  case Nil
  then show ?case by simp
next
  case (Cons p ws)
  then show ?case by (cases p) (fastforce simp: image_iff)
qed

lemma fst_delete: "k \<notin> fst ` set (map_delete k ws)"
  by (auto simp: map_delete_def)

lemma put_after_delete: "map_put k v (map_delete k ws) = map_delete k ws @ [(k, v)]"
  using fst_delete [of k ws] by (simp add: map_put_def)

lemma openWindow_eq:
  "openWindow maxKeys ip now ws =
     (let ws' = map_delete ip ws @ [(ip, \<lparr>iw_count = 0, iw_resetAt = now + WINDOW_MS\<rparr>)]
      in if length ws' > maxKeys then tl ws' else ws')"
  by (simp add: openWindow_def put_after_delete)

lemma length_delete: "length (map_delete k ws) \<le> length ws"
  by (simp add: map_delete_def)

lemma map_of_delete: "map_of (map_delete k ws) x = (if x = k then None else map_of ws x)"
  by (induction ws) (auto simp: map_delete_def)

lemma distinct_delete: "distinct (map fst ws) \<Longrightarrow> distinct (map fst (map_delete k ws))"
  by (induction ws) (auto simp: map_delete_def)

lemma openWindow_wf:
  assumes "wfWindows maxKeys ws" "0 < maxKeys"
  shows "wfWindows maxKeys (openWindow maxKeys ip now ws)"
proof -
  have "distinct (map fst (map_delete ip ws @ [(ip, v)]))" for v
    using assms(1) fst_delete [of ip ws] distinct_delete [of ws ip] by (auto simp: wfWindows_def)
  moreover have "length (map_delete ip ws) \<le> maxKeys"
    using assms(1) length_delete [of ip ws] by (simp add: wfWindows_def)
  ultimately show ?thesis
    by (auto simp: wfWindows_def openWindow_eq Let_def map_tl distinct_tl)
qed

lemma ipCeilingCheck_wf:
  "wfWindows maxKeys ws \<Longrightarrow> 0 < maxKeys \<Longrightarrow> wfWindows maxKeys (snd (ipCeilingCheck maxKeys mx ip now ws))"
  using openWindow_wf [of maxKeys ws ip now]
  by (auto simp: ipCeilingCheck_def Let_def wfWindows_def map_fst_update simp del: map_map)

text \<open>The new window is in the map even when another one was evicted for it.\<close>

lemma map_of_openWindow:
  assumes "0 < maxKeys" "wfWindows maxKeys ws"
  shows "map_of (openWindow maxKeys ip now ws) ip = Some \<lparr>iw_count = 0, iw_resetAt = now + WINDOW_MS\<rparr>"
proof (cases "map_delete ip ws")
  case Nil
  then show ?thesis using assms(1) by (simp add: openWindow_eq Let_def)
next
  case (Cons p ps)
  have "ip \<notin> fst ` set (p # ps)" using fst_delete [of ip ws] Cons by simp
  then have "map_of ps ip = None" "fst p \<noteq> ip" by (auto simp: map_of_eq_None_iff)
  then show ?thesis by (cases p) (auto simp: openWindow_eq Let_def Cons map_add_def split: option.splits)
qed

text \<open>How many requests of the address the live window has counted.\<close>

definition liveCount :: "windows \<Rightarrow> string \<Rightarrow> int \<Rightarrow> nat" where
  "liveCount ws ip now =
     (case map_of ws ip of Some w \<Rightarrow> if iw_resetAt w > now then iw_count w else 0 | None \<Rightarrow> 0)"

lemma ipCeilingCheck_result:
  "fst (ipCeilingCheck maxKeys mx ip now ws) = None \<longleftrightarrow> liveCount ws ip now < mx"
  by (auto simp: ipCeilingCheck_def liveCount_def Let_def split: option.splits)

lemma ipCeilingCheck_self:
  assumes "0 < maxKeys" "wfWindows maxKeys ws"
  shows "map_of (snd (ipCeilingCheck maxKeys mx ip now ws)) ip = Some
    (if (case map_of ws ip of Some w \<Rightarrow> iw_resetAt w > now | None \<Rightarrow> False)
     then (the (map_of ws ip))\<lparr>iw_count := iw_count (the (map_of ws ip)) + 1\<rparr>
     else \<lparr>iw_count = 1, iw_resetAt = now + WINDOW_MS\<rparr>)"
proof -
  have "ip \<in> fst ` set (openWindow maxKeys ip now ws)"
    using map_of_openWindow [OF assms, of ip now] by (metis map_of_eq_None_iff option.distinct(1))
  moreover have "ip \<in> fst ` set ws" if "map_of ws ip = Some w" for w
    using that by (metis map_of_eq_None_iff option.distinct(1))
  ultimately show ?thesis
    by (auto simp: ipCeilingCheck_def Let_def map_of_update simp del: map_map split: option.splits)
qed

lemma ipCeilingCheck_other:
  assumes "x \<noteq> ip" "length ws < maxKeys"
  shows "map_of (snd (ipCeilingCheck maxKeys mx ip now ws)) x = map_of ws x"
proof -
  have "map_of (openWindow maxKeys ip now ws) x = map_of ws x"
    using assms length_delete [of ip ws]
    by (simp add: openWindow_eq Let_def map_of_delete map_add_def split: option.splits)
  then show ?thesis
    using assms(1) by (simp add: ipCeilingCheck_def Let_def map_of_update del: map_map split: option.splits)
qed

subsection \<open>Counting over a run of requests\<close>

text \<open>Requests with their address and time, oldest first; the answers, \<open>True\<close> for allowed.\<close>

fun ceilingRun :: "nat \<Rightarrow> nat \<Rightarrow> (string \<times> int) list \<Rightarrow> windows \<Rightarrow> bool list \<times> windows" where
  "ceilingRun maxKeys mx [] ws = ([], ws)"
| "ceilingRun maxKeys mx ((ip, now) # rs) ws =
     (case ipCeilingCheck maxKeys mx ip now ws of
        (r, ws') \<Rightarrow> (case ceilingRun maxKeys mx rs ws' of (as, ws'') \<Rightarrow> ((r = None) # as, ws'')))"

lemma length_ceilingRun: "length (fst (ceilingRun maxKeys mx rs ws)) = length rs"
  by (induction maxKeys mx rs ws rule: ceilingRun.induct) (auto split: prod.splits)

text \<open>The requests of one address that were allowed.\<close>

definition allowedCount :: "string \<Rightarrow> (string \<times> int) list \<Rightarrow> bool list \<Rightarrow> nat" where
  "allowedCount ip rs as = length (filter (\<lambda>(r, a). fst r = ip \<and> a) (zip rs as))"

definition requestCount :: "string \<Rightarrow> (string \<times> int) list \<Rightarrow> nat" where
  "requestCount ip rs = length (filter (\<lambda>r. fst r = ip) rs)"

lemma fst_ipCeilingCheck:
  "fst ` set (snd (ipCeilingCheck maxKeys mx ip now ws)) \<subseteq> insert ip (fst ` set ws)"
proof -
  have "set (openWindow maxKeys ip now ws) \<subseteq> insert (ip, \<lparr>iw_count = 0, iw_resetAt = now + WINDOW_MS\<rparr>) (set ws)"
    by (auto simp: openWindow_eq Let_def map_delete_def dest: list.set_sel(2) [rotated])
  then show ?thesis by (auto simp: ipCeilingCheck_def Let_def split: if_splits)
qed

text \<open>
  As long as the map has room, an address whose window reaches to \<open>T\<close> is allowed exactly as many more
  requests before \<open>T\<close> as its count is below the limit.
\<close>

lemma ceilingRun_live:
  assumes "wfWindows maxKeys ws" "finite A" "fst ` set ws \<subseteq> A" "fst ` set rs \<subseteq> A" "card A < maxKeys"
    and "map_of ws ip = Some w" "\<forall>r\<in>set rs. snd r < iw_resetAt w"
  shows "allowedCount ip rs (fst (ceilingRun maxKeys mx rs ws)) = min (requestCount ip rs) (mx - iw_count w)"
  using assms
proof (induction rs arbitrary: ws w)
  case Nil
  then show ?case by (simp add: allowedCount_def requestCount_def)
next
  case (Cons r rs)
  obtain x now where r: "r = (x, now)" by (cases r)
  let ?c = "ipCeilingCheck maxKeys mx x now ws"
  have pos: "0 < maxKeys" using Cons.prems(5) by simp
  have "length ws = card (fst ` set ws)"
    using Cons.prems(1) by (metis distinct_card length_map list.set_map wfWindows_def)
  then have room: "length ws < maxKeys"
    using card_mono [OF Cons.prems(2,3)] Cons.prems(5) by simp
  have wf': "wfWindows maxKeys (snd ?c)" using ipCeilingCheck_wf [OF Cons.prems(1) pos] .
  have A': "fst ` set (snd ?c) \<subseteq> A"
    using fst_ipCeilingCheck [of maxKeys mx x now ws] Cons.prems(3,4) r by auto
  have run: "fst (ceilingRun maxKeys mx (r # rs) ws) = (fst ?c = None) # fst (ceilingRun maxKeys mx rs (snd ?c))"
    by (simp add: r split: prod.splits)
  show ?case
  proof (cases "x = ip")
    case True
    have live: "iw_resetAt w > now" using Cons.prems(7) r by simp
    then have "map_of (snd ?c) ip = Some (w\<lparr>iw_count := iw_count w + 1\<rparr>)"
      using ipCeilingCheck_self [OF pos Cons.prems(1), of mx ip now] Cons.prems(6) True by simp
    then have "allowedCount ip rs (fst (ceilingRun maxKeys mx rs (snd ?c))) = min (requestCount ip rs) (mx - (iw_count w + 1))"
      using Cons.IH [OF wf' Cons.prems(2) A' _ Cons.prems(5), of "w\<lparr>iw_count := iw_count w + 1\<rparr>"] Cons.prems(4,7) by simp
    moreover have "fst ?c = None \<longleftrightarrow> iw_count w < mx"
      using live Cons.prems(6) True by (simp add: ipCeilingCheck_result liveCount_def)
    ultimately show ?thesis
      unfolding run by (auto simp: allowedCount_def requestCount_def r True)
  next
    case False
    then have "map_of (snd ?c) ip = Some w"
      using ipCeilingCheck_other [OF _ room, of ip x mx now] Cons.prems(6) by simp
    then have "allowedCount ip rs (fst (ceilingRun maxKeys mx rs (snd ?c))) = min (requestCount ip rs) (mx - iw_count w)"
      using Cons.IH [OF wf' Cons.prems(2) A' _ Cons.prems(5)] Cons.prems(4,7) by simp
    then show ?thesis
      unfolding run using False by (simp add: allowedCount_def requestCount_def r)
  qed
qed

lemma ceilingRun_fresh:
  assumes "wfWindows maxKeys ws" "finite A" "fst ` set ws \<subseteq> A" "fst ` set rs \<subseteq> A" "ip \<in> A" "card A < maxKeys"
    and "liveCount ws ip T = 0" "\<forall>w. map_of ws ip = Some w \<longrightarrow> 0 < iw_count w" "\<forall>r\<in>set rs. snd r < T + WINDOW_MS"
  shows "allowedCount ip ((ip, T) # rs) (fst (ceilingRun maxKeys mx ((ip, T) # rs) ws)) = min (requestCount ip ((ip, T) # rs)) mx"
proof -
  let ?c = "ipCeilingCheck maxKeys mx ip T ws"
  have pos: "0 < maxKeys" using assms(6) by simp
  have dead: "\<not> (case map_of ws ip of Some w \<Rightarrow> iw_resetAt w > T | None \<Rightarrow> False)"
    using assms(7,8) by (auto simp: liveCount_def split: option.splits if_splits)
  have "map_of (snd ?c) ip = Some \<lparr>iw_count = 1, iw_resetAt = T + WINDOW_MS\<rparr>"
    using ipCeilingCheck_self [OF pos assms(1), of mx ip T] dead by simp
  moreover have "fst ` set (snd ?c) \<subseteq> A" using fst_ipCeilingCheck [of maxKeys mx ip T ws] assms(3,5) by auto
  ultimately have "allowedCount ip rs (fst (ceilingRun maxKeys mx rs (snd ?c))) = min (requestCount ip rs) (mx - 1)"
    using ceilingRun_live [OF ipCeilingCheck_wf [OF assms(1) pos] assms(2) _ assms(4,6)] assms(9) by simp
  moreover have "fst ?c = None \<longleftrightarrow> 0 < mx" using assms(7) by (simp add: ipCeilingCheck_result)
  moreover have "fst (ceilingRun maxKeys mx ((ip, T) # rs) ws) = (fst ?c = None) # fst (ceilingRun maxKeys mx rs (snd ?c))"
    by (simp split: prod.splits)
  ultimately show ?thesis by (auto simp: allowedCount_def requestCount_def)
qed

subsection \<open>Keys\<close>

lemma uuid_no_colon: "uuid_groups ns s \<Longrightarrow> CHR '':'' \<notin> set s"
proof (induction ns s rule: uuid_groups.induct)
  case (1 s)
  then show ?case by simp
next
  case (2 n s)
  then show ?case by (auto simp: list_all_iff hex_value_def index_of_None_iff HEX_DIGITS_def)
next
  case (3 n m ns s)
  then have "s = take n s @ s ! n # drop (n + 1) s" using id_take_nth_drop [of n s] by simp
  moreover have "CHR '':'' \<notin> set (take n s)"
    using 3 by (auto simp: list_all_iff hex_value_def index_of_None_iff HEX_DIGITS_def)
  moreover have "CHR '':'' \<notin> set (drop (n + 1) s)" using 3 by simp
  moreover have "s ! n \<noteq> CHR '':''" using 3 by simp
  ultimately show ?case by (metis Un_iff list.set(2) insert_iff set_append)
qed

text \<open>What a request is counted under: the application if any, and the install or the address.\<close>

definition bucketOf :: "hub_request \<Rightarrow> string option \<times> (string + string)" where
  "bucketOf req =
     (case rq_apiKeyId req of
        None \<Rightarrow> (None, Inr (rq_ip req))
      | Some k \<Rightarrow> if k = [] then (None, Inr (rq_ip req))
          else (Some k, case installIdFor req of Some i \<Rightarrow> Inl i | None \<Rightarrow> Inr (rq_ip req)))"

fun bucketKey :: "string option \<times> (string + string) \<Rightarrow> string" where
  "bucketKey (None, Inl i) = ''install:'' @ i"
| "bucketKey (None, Inr ip) = ''ip:'' @ ip"
| "bucketKey (Some k, Inl i) = ''app:'' @ k @ CHR '':'' # ''install:'' @ i"
| "bucketKey (Some k, Inr ip) = ''app:'' @ k @ CHR '':'' # ''ip:'' @ ip"

lemma bucketKey_inject:
  assumes "bucketKey a = bucketKey b" "\<forall>k. fst a = Some k \<longrightarrow> CHR '':'' \<notin> set k" "\<forall>k. fst b = Some k \<longrightarrow> CHR '':'' \<notin> set k"
  shows "a = b"
  using assms
  by (cases a rule: bucketKey.cases; cases b rule: bucketKey.cases) (auto dest!: append_sep_inject [rotated 2])

lemma uuid_not_empty: "uuid_groups [8, 4, 4, 4, 12] s \<Longrightarrow> s \<noteq> []"
  by auto

lemma installKey_cases:
  "installKeyForRequest req =
     (case rq_apiKeyId req of
        None \<Rightarrow> ''ip:'' @ rq_ip req
      | Some k \<Rightarrow> if k = [] then ''ip:'' @ rq_ip req
          else case installIdFor req of
            Some i \<Rightarrow> ''app:'' @ k @ '':install:'' @ i
          | None \<Rightarrow> ''app:'' @ k @ '':ip:'' @ rq_ip req)"
  using uuid_not_empty
  by (auto simp: installKeyForRequest_def keyForRequest_def installIdFor_def Let_def split: option.splits if_splits)

lemma installKey_bucket: "installKeyForRequest req = bucketKey (bucketOf req)"
  by (simp add: installKey_cases bucketOf_def split: option.splits)

subsection \<open>Properties\<close>



text \<open>
  Each call keeps the windows well formed (one per address, never more than the map may hold)
  and answers by the live window alone: the request passes exactly when fewer than \<open>mx\<close> were
  counted in it. A refused client is told to retry within 1 to 60 seconds.
\<close>

theorem ipCeilingCheck_step:
  assumes "wfWindows maxKeys ws" "0 < maxKeys" "\<forall>w. map_of ws ip = Some w \<longrightarrow> iw_resetAt w \<le> now + WINDOW_MS"
  shows "wfWindows maxKeys (snd (ipCeilingCheck maxKeys mx ip now ws))
    \<and> (fst (ipCeilingCheck maxKeys mx ip now ws) = None \<longleftrightarrow> liveCount ws ip now < mx)
    \<and> (case fst (ipCeilingCheck maxKeys mx ip now ws) of None \<Rightarrow> True
       | Some e \<Rightarrow> ex_limit e = mx \<and> ex_count e = liveCount ws ip now + 1 \<and> 1 \<le> ex_retrySeconds e \<and> ex_retrySeconds e \<le> 60)"
proof -
  have sec: "1 \<le> - ((now - t) div 1000) \<and> - ((now - t) div 1000) \<le> 60" if "now < t" "t \<le> now + 60000" for t :: int
    using zdiv_mono1 [of "-60000" "now - t" 1000] zdiv_mono1 [of "now - t" "-1" 1000] that by simp
  then show ?thesis
    using ipCeilingCheck_wf [OF assms(1,2)] ipCeilingCheck_result [of maxKeys mx ip now ws] assms(3)
    by (auto simp: ipCeilingCheck_def liveCount_def Let_def WINDOW_MS_def split: option.splits)
qed

theorem ipCeilingCheck_step_witness:
  "fst (ipCeilingCheck 5 0 ''a'' 100 []) = None \<longleftrightarrow> liveCount [] ''a'' 100 < 0"
  using ipCeilingCheck_step [of 5 "[]" "''a''" 100 0] by (simp add: wfWindows_def)

text \<open>
  Log-only mode counts what enforcement would: on the same request both modes leave the same
  counters, and log-only logs exactly the error that enforcement throws.
\<close>

theorem log_only_counts_alike:
  "snd (limitRequest LogOnly checks req s) = snd (limitRequest Enforce checks req s)
   \<and> fst (limitRequest LogOnly checks req s) =
      (case fst (limitRequest Enforce checks req s) of Inl e \<Rightarrow> Inr (Some e) | Inr x \<Rightarrow> Inr None)"
  by (induction checks arbitrary: s) (auto split: prod.splits option.splits)

text \<open>
  Install keys keep clients apart: two requests share a bucket exactly when they come from the
  same application and carry the same install id, or lack one and have the same address. A client
  cannot reach another bucket by what it writes in the header.
\<close>

theorem install_key_buckets:
  assumes "\<forall>k. rq_apiKeyId a = Some k \<longrightarrow> CHR '':'' \<notin> set k" "\<forall>k. rq_apiKeyId b = Some k \<longrightarrow> CHR '':'' \<notin> set k"
  shows "installKeyForRequest a = installKeyForRequest b \<longleftrightarrow> bucketOf a = bucketOf b"
  using assms bucketKey_inject [of "bucketOf a" "bucketOf b"]
  by (auto simp: installKey_bucket) (auto simp: bucketOf_def split: option.splits if_splits)

definition sampleRequest :: "string \<Rightarrow> hub_request" where
  "sampleRequest h = \<lparr>rq_apiKeyId = Some ''k1'', rq_ip = ''10.0.0.1'', rq_installHeader = Some h, rq_routeUrl = ''/x''\<rparr>"

theorem install_key_buckets_witness:
  "installKeyForRequest (sampleRequest ''zz'') = installKeyForRequest (sampleRequest ''z:install:1'')
   \<longleftrightarrow> bucketOf (sampleRequest ''zz'') = bucketOf (sampleRequest ''z:install:1'')"
  by (rule install_key_buckets) (simp_all add: sampleRequest_def)

end
