(* ===== verification/SpendCap.thy ===== *)
theory SpendCap
  imports JsNumbers Json
begin

text \<open>
  What a connected site may spend (\<open>apps/chrome-wallet/src/utils\<close>): the fees and rent of
  \<open>arch-fee.ts\<close>, the strict amounts of \<open>u64-amount.ts\<close>, the rolling log of \<open>spend-tracker.ts\<close> and the
  pre-flight gates of \<open>transfer-gates.ts\<close>. Storage is a record: whether \<open>chrome.storage.local\<close> is there,
  whether its reads and writes fail, and the value under the log's key (\<open>JUndefined\<close> when there is
  none). Time stamps are whole milliseconds; \<open>now\<close> is an argument, as in the source's options.
\<close>

subsection \<open>Fees and rent\<close>

definition ARCH_BASE_FEE_PER_SIGNATURE :: int where "ARCH_BASE_FEE_PER_SIGNATURE = 5000"
definition ACCOUNT_STORAGE_OVERHEAD :: int where "ACCOUNT_STORAGE_OVERHEAD = 128"
definition DEFAULT_LAMPORTS_PER_BYTE_YEAR :: int where "DEFAULT_LAMPORTS_PER_BYTE_YEAR = 2"

definition minimumRent :: "nat \<Rightarrow> int" where
  "minimumRent dataLen = (ACCOUNT_STORAGE_OVERHEAD + int dataLen) * DEFAULT_LAMPORTS_PER_BYTE_YEAR"

definition MIN_WALLET_BALANCE_LAMPORTS :: int where "MIN_WALLET_BALANCE_LAMPORTS = minimumRent 0"
definition TOKEN_ACCOUNT_DEPOSIT_LAMPORTS :: int where "TOKEN_ACCOUNT_DEPOSIT_LAMPORTS = minimumRent 165"

definition isRentDust :: "int \<Rightarrow> bool" where
  "isRentDust lamports \<longleftrightarrow> lamports > 0 \<and> lamports < MIN_WALLET_BALANCE_LAMPORTS"

record arch_fee =
  feeLamports :: int
  feePayer :: string

text \<open>The account keys of the message and its number of required signatures; \<open>encode\<close> is the \<open>bs58\<close> package.\<close>

definition archMessageFee :: "(byte list \<Rightarrow> string) \<Rightarrow> byte list list \<Rightarrow> nat \<Rightarrow> string + arch_fee" where
  "archMessageFee encode account_keys num_required_signatures =
     (case account_keys of
        [] \<Rightarrow> Inl ''Arch message has no fee payer''
      | payer # keys \<Rightarrow> Inr
          \<lparr> feeLamports = ARCH_BASE_FEE_PER_SIGNATURE * int num_required_signatures, feePayer = encode payer \<rparr>)"

text \<open>An address that is undefined or empty is falsy.\<close>

definition feeChargedTo :: "arch_fee option \<Rightarrow> string option \<Rightarrow> int option" where
  "feeChargedTo fee archAddress =
     (case (fee, archAddress) of
        (Some f, Some a) \<Rightarrow> if a = [] then None else Some (if feePayer f = a then feeLamports f else 0)
      | _ \<Rightarrow> None)"

subsection \<open>Strict amounts\<close>

definition U64_MAX :: int where "U64_MAX = 2 ^ 64 - 1"

definition parseU64DecimalString :: "json \<Rightarrow> int option" where
  "parseU64DecimalString raw =
     (case raw of
        JStr s \<Rightarrow>
          if \<not> dec_string s \<or> length s > 20 then None
          else (case js_BigInt s of
                  Some v \<Rightarrow> if v \<le> U64_MAX then Some v else None
                | None \<Rightarrow> None)
      | _ \<Rightarrow> None)"

subsection \<open>The spend log\<close>

definition MAX_ENTRIES :: nat where "MAX_ENTRIES = 256"
definition SPEND_WINDOW_MS :: int where "SPEND_WINDOW_MS = 24 * 60 * 60 * 1000"

datatype spend_asset = AssetArch | AssetBtc

fun asset_text :: "spend_asset \<Rightarrow> string" where
  "asset_text AssetArch = ''arch''"
| "asset_text AssetBtc = ''btc''"

record spend_area =
  present :: bool
  readFails :: bool
  writeFails :: bool
  spendLog :: json

fun fieldOf :: "string \<Rightarrow> json \<Rightarrow> json" where
  "fieldOf k (JObj kvs) = (case map_of kvs k of Some v \<Rightarrow> v | None \<Rightarrow> JUndefined)"
| "fieldOf k v = JUndefined"

fun text_of :: "json \<Rightarrow> string" where
  "text_of (JStr s) = s"
| "text_of v = []"

fun num_of :: "json \<Rightarrow> int" where
  "num_of (JNum n) = n"
| "num_of v = 0"

definition is_text :: "json \<Rightarrow> bool" where
  "is_text v \<longleftrightarrow> (case v of JStr s \<Rightarrow> True | _ \<Rightarrow> False)"

definition is_number :: "json \<Rightarrow> bool" where
  "is_number v \<longleftrightarrow> (case v of JNum n \<Rightarrow> True | _ \<Rightarrow> False)"

definition isSpendRecord :: "json \<Rightarrow> bool" where
  "isSpendRecord x \<longleftrightarrow>
     is_text (fieldOf ''origin'' x) \<and>
     (fieldOf ''asset'' x = JStr ''arch'' \<or> fieldOf ''asset'' x = JStr ''btc'') \<and>
     is_text (fieldOf ''network'' x) \<and> is_text (fieldOf ''amount'' x) \<and> is_number (fieldOf ''ts'' x)"

definition readLog :: "spend_area \<Rightarrow> json list" where
  "readLog area =
     (if \<not> present area \<or> readFails area then []
      else case spendLog area of JArr raw \<Rightarrow> filter isSpendRecord raw | _ \<Rightarrow> [])"

definition writeLog :: "spend_area \<Rightarrow> json list \<Rightarrow> spend_area" where
  "writeLog area records =
     (if \<not> present area \<or> writeFails area then area else area \<lparr> spendLog := JArr records \<rparr>)"

definition recordTs :: "json \<Rightarrow> int" where
  "recordTs r = num_of (fieldOf ''ts'' r)"

definition pruneLog :: "json list \<Rightarrow> int \<Rightarrow> json list" where
  "pruneLog records now =
     (let cutoff = now - SPEND_WINDOW_MS;
          fresh = filter (\<lambda>r. recordTs r \<ge> cutoff) records
      in if length fresh \<le> MAX_ENTRIES then fresh
         else take MAX_ENTRIES (js_sort (descending recordTs) fresh))"

datatype spend_amount = AmountText string | AmountInt int

fun amount_text :: "spend_amount \<Rightarrow> string" where
  "amount_text (AmountText s) = s"
| "amount_text (AmountInt n) = show_int n"

definition spendRecord :: "string \<Rightarrow> spend_asset \<Rightarrow> string \<Rightarrow> spend_amount \<Rightarrow> int \<Rightarrow> json" where
  "spendRecord org asset network amount ts =
     JObj [(''origin'', JStr org), (''asset'', JStr (asset_text asset)), (''network'', JStr network),
       (''amount'', JStr (amount_text amount)), (''ts'', JNum ts)]"

definition recordSpend :: "spend_area \<Rightarrow> string \<Rightarrow> spend_asset \<Rightarrow> string \<Rightarrow> spend_amount \<Rightarrow> int \<Rightarrow> spend_area" where
  "recordSpend area org asset network amount now =
     (if org = [] then area
      else writeLog area (pruneLog (readLog area @ [spendRecord org asset network amount now]) now))"

definition sameTriple :: "string \<Rightarrow> spend_asset \<Rightarrow> string \<Rightarrow> json \<Rightarrow> bool" where
  "sameTriple org asset network r \<longleftrightarrow>
     fieldOf ''origin'' r = JStr org \<and> fieldOf ''asset'' r = JStr (asset_text asset) \<and> fieldOf ''network'' r = JStr network"

definition recordAmount :: "json \<Rightarrow> int" where
  "recordAmount r = (case js_BigInt (text_of (fieldOf ''amount'' r)) of Some v \<Rightarrow> v | None \<Rightarrow> 0)"

fun sumSpend :: "string \<Rightarrow> spend_asset \<Rightarrow> string \<Rightarrow> int \<Rightarrow> json list \<Rightarrow> int \<Rightarrow> int" where
  "sumSpend org asset network cutoff [] acc = acc"
| "sumSpend org asset network cutoff (r # rs) acc =
     (if \<not> sameTriple org asset network r then sumSpend org asset network cutoff rs acc
      else if recordTs r < cutoff then sumSpend org asset network cutoff rs acc
      else sumSpend org asset network cutoff rs (acc + recordAmount r))"

definition getRecentSpend :: "spend_area \<Rightarrow> string \<Rightarrow> spend_asset \<Rightarrow> string \<Rightarrow> int \<Rightarrow> int" where
  "getRecentSpend area org asset network now =
     sumSpend org asset network (now - SPEND_WINDOW_MS) (readLog area) 0"

definition exceedsCap :: "int \<Rightarrow> int \<Rightarrow> int option \<Rightarrow> bool" where
  "exceedsCap pending recent cap \<longleftrightarrow> (case cap of None \<Rightarrow> False | Some c \<Rightarrow> recent + pending > c)"

subsection \<open>The gates\<close>

datatype balance_snapshot = BalanceFound int | BalanceNotFound | BalanceError string

datatype block_reason = Insufficient | SenderDust | RecipientDust

record arch_blocked =
  bReason :: block_reason
  bSnapshot :: balance_snapshot
  bRequested :: int
  bFee :: int
  bDeposit :: int
  bAvailable :: int
  bDust :: "int option"

record arch_allowed =
  aSnapshot :: balance_snapshot
  aFee :: int
  aDeposit :: int
  aPost :: "int option"
  aUnverified :: bool

datatype arch_gate = GateLoading | GateInvalidAmount | GateFeeUnknown | GateOk arch_allowed | GateBlocked arch_blocked

text \<open>The recipient's snapshot: absent, still loading (\<open>null\<close>), or known.\<close>

datatype recipient_extra = NoRecipient | RecipientLoading | Recipient balance_snapshot

definition availableIn :: "balance_snapshot \<Rightarrow> int" where
  "availableIn s = (case s of BalanceFound l \<Rightarrow> l | _ \<Rightarrow> 0)"

definition computeArchTransferGate ::
  "balance_snapshot option \<Rightarrow> int option \<Rightarrow> int option \<Rightarrow> int option \<Rightarrow> recipient_extra \<Rightarrow> arch_gate" where
  "computeArchTransferGate snapshot requestedLamports feeOpt depositOpt recipient =
     (case requestedLamports of None \<Rightarrow> GateInvalidAmount
      | Some requested \<Rightarrow> (case feeOpt of None \<Rightarrow> GateFeeUnknown
      | Some fee \<Rightarrow> (case snapshot of None \<Rightarrow> GateLoading
      | Some snap \<Rightarrow>
        if recipient = RecipientLoading then GateLoading
        else
          let deposit = (case depositOpt of Some d \<Rightarrow> d | None \<Rightarrow> 0);
              blocked = (\<lambda>reason dust. GateBlocked \<lparr> bReason = reason, bSnapshot = snap, bRequested = requested,
                bFee = fee, bDeposit = deposit, bAvailable = availableIn snap, bDust = dust \<rparr>);
              unverified = (case recipient of
                  Recipient (BalanceFound l) \<Rightarrow> False
                | Recipient s \<Rightarrow> isRentDust requested
                | _ \<Rightarrow> False);
              allowed = (\<lambda>post. GateOk \<lparr> aSnapshot = snap, aFee = fee, aDeposit = deposit, aPost = post,
                aUnverified = unverified \<rparr>);
              checkSender = (case snap of
                  BalanceFound balance \<Rightarrow>
                    let charge = requested + fee + deposit; post = balance - charge
                    in if charge > balance then blocked Insufficient None
                       else if isRentDust post then blocked SenderDust (Some post)
                       else allowed (Some post)
                | _ \<Rightarrow> allowed None)
          in case recipient of
               Recipient (BalanceFound l) \<Rightarrow>
                 if isRentDust (l + requested) then blocked RecipientDust (Some (l + requested)) else checkSender
             | _ \<Rightarrow> checkSender)))"

datatype token_snapshot = TokenFound int | TokenOther

datatype token_gate = TokenLoading | TokenInvalidAmount | TokenOk token_snapshot "int option"
  | TokenBlocked token_snapshot int int

definition computeTokenTransferGate :: "token_snapshot option \<Rightarrow> int option \<Rightarrow> token_gate" where
  "computeTokenTransferGate snapshot requestedAmount =
     (case requestedAmount of None \<Rightarrow> TokenInvalidAmount
      | Some requested \<Rightarrow> (case snapshot of None \<Rightarrow> TokenLoading
      | Some TokenOther \<Rightarrow> TokenOk TokenOther None
      | Some (TokenFound amount) \<Rightarrow>
          if requested \<le> 0 then TokenOk (TokenFound amount) (Some amount)
          else if requested > amount then TokenBlocked (TokenFound amount) requested amount
          else TokenOk (TokenFound amount) (Some (amount - requested))))"

datatype cap_gate = CapOk | CapInvalidAmount | CapBlocked int int

text \<open>\<open>BigInt(capRaw)\<close> of a number that is no integer throws a \<open>RangeError\<close>.\<close>

datatype cap_error = CapRangeError

definition computeArchSpendCapGate :: "int option \<Rightarrow> js_num option \<Rightarrow> int \<Rightarrow> cap_error + cap_gate" where
  "computeArchSpendCapGate requestedLamports capRaw recent =
     (case requestedLamports of None \<Rightarrow> Inr CapInvalidAmount
      | Some requested \<Rightarrow> (case capRaw of None \<Rightarrow> Inr CapOk
      | Some JNonInteger \<Rightarrow> Inl CapRangeError
      | Some (JInt cap) \<Rightarrow>
          Inr (if exceedsCap requested recent (Some cap) then CapBlocked cap recent else CapOk)))"

subsection \<open>Approving a transfer\<close>

text \<open>
  \<open>Approve.tsx\<close> on a \<open>SEND_TRANSFER\<close> request: the gate is computed from the parsed amount, the site's cap
  and the recent spend (no gate without an origin; an error fails open), the request is refused when
  the gate says so, and a transfer that was broadcast is recorded with the text of its amount.
\<close>

record transfer_request =
  reqOrigin :: string
  reqLamports :: string
  reqTime :: int

definition capGateOf :: "spend_area \<Rightarrow> js_num option \<Rightarrow> string \<Rightarrow> transfer_request \<Rightarrow> cap_gate" where
  "capGateOf area cap network req =
     (if reqOrigin req = [] then CapOk
      else case computeArchSpendCapGate (parseU64DecimalString (JStr (reqLamports req))) cap
          (getRecentSpend area (reqOrigin req) AssetArch network (reqTime req)) of
        Inl e \<Rightarrow> CapOk
      | Inr gate \<Rightarrow> gate)"

definition approvable :: "spend_area \<Rightarrow> js_num option \<Rightarrow> string \<Rightarrow> transfer_request \<Rightarrow> bool" where
  "approvable area cap network req \<longleftrightarrow>
     parseU64DecimalString (JStr (reqLamports req)) \<noteq> None \<and> capGateOf area cap network req = CapOk"

definition recordApproved :: "spend_area \<Rightarrow> string \<Rightarrow> transfer_request \<Rightarrow> spend_area" where
  "recordApproved area network req =
     recordSpend area (reqOrigin req) AssetArch network (AmountText (reqLamports req)) (reqTime req)"

fun approveRun :: "(string \<Rightarrow> js_num option) \<Rightarrow> string \<Rightarrow> spend_area \<Rightarrow> transfer_request list \<Rightarrow> transfer_request list" where
  "approveRun caps network area [] = []"
| "approveRun caps network area (req # reqs) =
     (if approvable area (caps (reqOrigin req)) network req
      then req # approveRun caps network (recordApproved area network req) reqs
      else approveRun caps network area reqs)"

subsection \<open>Records and sums\<close>

lemma spendRecord_fields:
  "fieldOf ''origin'' (spendRecord org asset network amount ts) = JStr org"
  "fieldOf ''asset'' (spendRecord org asset network amount ts) = JStr (asset_text asset)"
  "fieldOf ''network'' (spendRecord org asset network amount ts) = JStr network"
  "fieldOf ''amount'' (spendRecord org asset network amount ts) = JStr (amount_text amount)"
  "fieldOf ''ts'' (spendRecord org asset network amount ts) = JNum ts"
  by (simp_all add: spendRecord_def)

lemma asset_text_inject: "asset_text a = asset_text b \<longleftrightarrow> a = b"
  by (cases a; cases b) simp_all

lemma spendRecord_simps [simp]:
  "isSpendRecord (spendRecord org asset network amount ts)"
  "recordTs (spendRecord org asset network amount ts) = ts"
  "recordAmount (spendRecord org asset network amount ts) = (case js_BigInt (amount_text amount) of Some v \<Rightarrow> v | None \<Rightarrow> 0)"
  "sameTriple o' a' n' (spendRecord org asset network amount ts) \<longleftrightarrow> (o', a', n') = (org, asset, network)"
proof -
  show "isSpendRecord (spendRecord org asset network amount ts)"
    by (cases asset) (simp_all add: isSpendRecord_def spendRecord_fields is_text_def is_number_def)
  show "sameTriple o' a' n' (spendRecord org asset network amount ts) \<longleftrightarrow> (o', a', n') = (org, asset, network)"
    by (auto simp: sameTriple_def spendRecord_fields asset_text_inject)
qed (simp_all add: recordTs_def recordAmount_def spendRecord_fields)

definition inScope :: "string \<Rightarrow> spend_asset \<Rightarrow> string \<Rightarrow> int \<Rightarrow> json \<Rightarrow> bool" where
  "inScope org asset network cutoff r \<longleftrightarrow> sameTriple org asset network r \<and> cutoff \<le> recordTs r"

lemma sumSpend_sum:
  "sumSpend org asset network cutoff rs acc = acc + sum_list (map recordAmount (filter (inScope org asset network cutoff) rs))"
  by (induction rs arbitrary: acc) (auto simp: inScope_def)

lemma getRecentSpend_sum:
  "getRecentSpend area org asset network now =
     sum_list (map recordAmount (filter (inScope org asset network (now - SPEND_WINDOW_MS)) (readLog area)))"
  by (simp add: getRecentSpend_def sumSpend_sum)

definition working :: "spend_area \<Rightarrow> bool" where
  "working area \<longleftrightarrow> present area \<and> \<not> readFails area \<and> \<not> writeFails area"

lemma readLog_records: "list_all isSpendRecord (readLog area)"
  by (auto simp: readLog_def list_all_iff split: json.splits)

lemma readLog_write: "working area \<Longrightarrow> list_all isSpendRecord rs \<Longrightarrow> readLog (writeLog area rs) = rs"
  by (auto simp: working_def readLog_def writeLog_def list_all_iff intro!: filter_True)

lemma set_pruneLog: "set (pruneLog rs now) \<subseteq> set rs"
  by (auto simp: pruneLog_def Let_def dest: in_set_takeD)

lemma recordSpend_log:
  assumes "working area" "org \<noteq> []"
  shows "readLog (recordSpend area org asset network amount now)
      = pruneLog (readLog area @ [spendRecord org asset network amount now]) now"
    and "working (recordSpend area org asset network amount now)"
proof -
  have "list_all isSpendRecord (pruneLog (readLog area @ [spendRecord org asset network amount now]) now)"
    using readLog_records [of area] set_pruneLog [of "readLog area @ [spendRecord org asset network amount now]" now]
    by (auto simp: list_all_iff)
  then show "readLog (recordSpend area org asset network amount now)
      = pruneLog (readLog area @ [spendRecord org asset network amount now]) now"
    using assms by (simp add: recordSpend_def readLog_write)
  show "working (recordSpend area org asset network amount now)"
    using assms by (simp add: recordSpend_def writeLog_def working_def)
qed

definition freshAt :: "int \<Rightarrow> json \<Rightarrow> bool" where
  "freshAt now r \<longleftrightarrow> now - SPEND_WINDOW_MS \<le> recordTs r"

lemma pruneLog_room:
  "length (filter (freshAt now) rs) \<le> MAX_ENTRIES \<Longrightarrow> pruneLog rs now = filter (freshAt now) rs"
  by (simp add: pruneLog_def freshAt_def [abs_def])

lemma window_pos: "0 \<le> SPEND_WINDOW_MS"
  by (simp add: SPEND_WINDOW_MS_def)

lemma freshAt_now [simp]: "freshAt now (spendRecord org asset network amount now)"
  using window_pos by (simp add: freshAt_def)

lemma inScope_fresh:
  "t \<le> now \<Longrightarrow> filter (inScope org asset network (now - SPEND_WINDOW_MS)) (filter (freshAt t) rs)
     = filter (inScope org asset network (now - SPEND_WINDOW_MS)) rs"
  by (induction rs) (auto simp: inScope_def freshAt_def)

lemma fresh_again: "t0 \<le> t \<Longrightarrow> filter (freshAt t) (filter (freshAt t0) rs) = filter (freshAt t) rs"
  by (induction rs) (auto simp: freshAt_def)

subsection \<open>What approved requests add up to\<close>

definition paid :: "transfer_request \<Rightarrow> int" where
  "paid req = (case parseU64DecimalString (JStr (reqLamports req)) of Some v \<Rightarrow> v | None \<Rightarrow> 0)"

definition spentBetween :: "transfer_request list \<Rightarrow> string \<Rightarrow> int \<Rightarrow> int \<Rightarrow> int" where
  "spentBetween reqs org lo hi =
     sum_list (map paid (filter (\<lambda>r. reqOrigin r = org \<and> lo \<le> reqTime r \<and> reqTime r \<le> hi) reqs))"

definition entryOf :: "string \<Rightarrow> transfer_request \<Rightarrow> json" where
  "entryOf network req = spendRecord (reqOrigin req) AssetArch network (AmountText (reqLamports req)) (reqTime req)"

lemma parseU64_BigInt: "parseU64DecimalString (JStr s) = Some v \<Longrightarrow> js_BigInt s = Some v \<and> 0 \<le> v \<and> v \<le> U64_MAX"
  by (auto simp: parseU64DecimalString_def js_BigInt_dec split: if_splits option.splits)

lemma paid_nonneg: "0 \<le> paid req"
  by (auto simp: paid_def dest: parseU64_BigInt split: option.splits)

lemma recordAmount_entry:
  "parseU64DecimalString (JStr (reqLamports req)) \<noteq> None \<Longrightarrow> recordAmount (entryOf network req) = paid req"
proof -
  assume "parseU64DecimalString (JStr (reqLamports req)) \<noteq> None"
  then obtain v where v: "parseU64DecimalString (JStr (reqLamports req)) = Some v" by auto
  then show ?thesis using parseU64_BigInt [OF v] by (simp add: entryOf_def paid_def)
qed

lemma inScope_entry:
  "inScope org AssetArch network lo (entryOf network req) \<longleftrightarrow> reqOrigin req = org \<and> lo \<le> reqTime req"
  by (auto simp: inScope_def entryOf_def)

lemma log_sum_spent:
  assumes "\<forall>r\<in>set reqs. parseU64DecimalString (JStr (reqLamports r)) \<noteq> None \<and> reqTime r \<le> hi"
  shows "sum_list (map recordAmount (filter (inScope org AssetArch network lo) (map (entryOf network) reqs)))
      = spentBetween reqs org lo hi"
  using assms
  by (induction reqs) (auto simp: spentBetween_def inScope_entry recordAmount_entry)

lemma spent_window_le:
  assumes "lo \<le> lo'" "hi \<le> hi' \<or> (\<forall>r\<in>set reqs. reqTime r \<le> hi')"
  shows "spentBetween reqs org lo' hi \<le> spentBetween reqs org lo hi'"
  using assms paid_nonneg
  by (induction reqs) (auto simp: spentBetween_def add_increasing intro: add_mono order_trans)

lemma spent_append: "spentBetween (xs @ ys) org lo hi = spentBetween xs org lo hi + spentBetween ys org lo hi"
  by (simp add: spentBetween_def)

lemma spent_empty: "(\<forall>r\<in>set reqs. hi < reqTime r) \<Longrightarrow> spentBetween reqs org lo hi = 0"
  by (induction reqs) (auto simp: spentBetween_def)

text \<open>The log holds the fresh entries of what was approved.\<close>

definition logged :: "string \<Rightarrow> spend_area \<Rightarrow> transfer_request list \<Rightarrow> int \<Rightarrow> bool" where
  "logged network area past t0 \<longleftrightarrow> working area \<and> readLog area = filter (freshAt t0) (map (entryOf network) past)
     \<and> (\<forall>r\<in>set past. parseU64DecimalString (JStr (reqLamports r)) \<noteq> None \<and> reqTime r \<le> t0)"

lemma logged_recent:
  assumes "logged network area past t0" "t0 \<le> now"
  shows "getRecentSpend area org AssetArch network now = spentBetween past org (now - SPEND_WINDOW_MS) now"
proof -
  have "\<forall>r\<in>set past. parseU64DecimalString (JStr (reqLamports r)) \<noteq> None \<and> reqTime r \<le> now"
    using assms by (auto simp: logged_def)
  then show ?thesis
    using assms log_sum_spent [of past now org network "now - SPEND_WINDOW_MS"]
    by (simp add: logged_def getRecentSpend_sum inScope_fresh del: filter_filter)
qed

lemma logged_record:
  assumes "logged network area past t0" "t0 \<le> reqTime req" "length past < MAX_ENTRIES" "reqOrigin req \<noteq> []"
    and "parseU64DecimalString (JStr (reqLamports req)) \<noteq> None"
  shows "logged network (recordApproved area network req) (past @ [req]) (reqTime req)"
proof -
  let ?t = "reqTime req" and ?log = "readLog area @ [entryOf network req]"
  have f: "filter (freshAt ?t) ?log = filter (freshAt ?t) (map (entryOf network) (past @ [req]))"
    using assms(1,2) by (simp add: logged_def fresh_again del: filter_filter)
  have "length (filter (freshAt ?t) (map (entryOf network) (past @ [req]))) \<le> length (past @ [req])"
    by (metis length_filter_le length_map)
  then have "pruneLog ?log ?t = filter (freshAt ?t) (map (entryOf network) (past @ [req]))"
    using assms(3) f by (subst pruneLog_room) simp_all
  then show ?thesis
    using assms recordSpend_log [of area "reqOrigin req" AssetArch network "AmountText (reqLamports req)" ?t]
    by (auto simp: logged_def recordApproved_def entryOf_def)
qed

lemma approvable_cap:
  assumes "approvable area (Some (JInt c)) network req" "reqOrigin req \<noteq> []"
  shows "getRecentSpend area (reqOrigin req) AssetArch network (reqTime req) + paid req \<le> c"
  using assms
  by (auto simp: approvable_def capGateOf_def computeArchSpendCapGate_def paid_def exceedsCap_def split: if_splits)

lemma approveRun_cap:
  assumes "logged network area past t0" "\<forall>r\<in>set reqs. t0 \<le> reqTime r \<and> reqOrigin r \<noteq> []" "sorted (map reqTime reqs)"
    and "length past + length reqs \<le> MAX_ENTRIES" "caps org = Some (JInt c)"
    and "\<And>t. spentBetween past org (t - SPEND_WINDOW_MS) t \<le> c"
  shows "spentBetween (past @ approveRun caps network area reqs) org (t - SPEND_WINDOW_MS) t \<le> c"
  using assms
proof (induction reqs arbitrary: area past t0)
  case Nil
  then show ?case by simp
next
  case (Cons req reqs)
  show ?case
  proof (cases "approvable area (caps (reqOrigin req)) network req")
    case False
    then show ?thesis using Cons by auto
  next
    case True
    then have ok: "parseU64DecimalString (JStr (reqLamports req)) \<noteq> None" by (simp add: approvable_def)
    have L: "logged network (recordApproved area network req) (past @ [req]) (reqTime req)"
      using Cons.prems ok by (intro logged_record [of network area past t0 req]) auto
    have B: "spentBetween (past @ [req]) org (u - SPEND_WINDOW_MS) u \<le> c" for u
    proof (cases "reqOrigin req = org \<and> reqTime req \<le> u \<and> u - SPEND_WINDOW_MS \<le> reqTime req")
      case False
      then show ?thesis using Cons.prems(6) [of u] by (auto simp: spentBetween_def)
    next
      case in_window: True
      have "\<forall>r\<in>set past. reqTime r \<le> reqTime req" using Cons.prems(1,2) by (auto simp: logged_def)
      then have "spentBetween past org (u - SPEND_WINDOW_MS) u \<le> spentBetween past org (reqTime req - SPEND_WINDOW_MS) (reqTime req)"
        using in_window by (intro spent_window_le) auto
      also have "\<dots> = getRecentSpend area org AssetArch network (reqTime req)"
        using Cons.prems(1,2) by (simp add: logged_recent)
      finally show ?thesis
        using approvable_cap [of area c network req] True in_window Cons.prems(2,5) by (auto simp: spentBetween_def)
    qed
    have "spentBetween ((past @ [req]) @ approveRun caps network (recordApproved area network req) reqs) org (t - SPEND_WINDOW_MS) t \<le> c"
      using Cons.prems L B by (intro Cons.IH [of _ _ "reqTime req"]) auto
    then show ?thesis using True by simp
  qed
qed

subsection \<open>Properties\<close>

lemma sum_recordAmount_app:
  "sum_list (map recordAmount (filter P (xs @ [r]))) = sum_list (map recordAmount (filter P xs)) + (if P r then recordAmount r else 0)"
  by simp


text \<open>
  A recorded spend counts. While the log has room, recording a spend adds its amount to what
  \<open>getRecentSpend\<close> tells of the same site, asset and network until the window has passed, and
  changes nothing for any other.
\<close>
theorem spend_counts:
  assumes "working area" "org \<noteq> []" "length (filter (freshAt t) (readLog area)) < MAX_ENTRIES" "t \<le> now"
  shows "getRecentSpend (recordSpend area org asset network (AmountInt (int amount)) t) o' a' n' now
      = getRecentSpend area o' a' n' now
        + (if (o', a', n') = (org, asset, network) \<and> now - SPEND_WINDOW_MS \<le> t then int amount else 0)"
proof -
  let ?r = "spendRecord org asset network (AmountInt (int amount)) t"
  let ?log = "readLog area @ [?r]" and ?in = "inScope o' a' n' (now - SPEND_WINDOW_MS)"
  have "pruneLog ?log t = filter (freshAt t) ?log"
    using assms(3) by (intro pruneLog_room) simp
  then have "filter ?in (readLog (recordSpend area org asset network (AmountInt (int amount)) t)) = filter ?in ?log"
    using recordSpend_log [OF assms(1,2), of asset network "AmountInt (int amount)" t] inScope_fresh [OF assms(4), of _ _ _ ?log]
    by simp
  moreover have "recordAmount ?r = int amount" by (simp add: show_int_def js_BigInt_show)
  moreover have "?in ?r \<longleftrightarrow> (o', a', n') = (org, asset, network) \<and> now - SPEND_WINDOW_MS \<le> t"
    by (simp add: inScope_def)
  ultimately show ?thesis unfolding getRecentSpend_sum by (simp only: sum_recordAmount_app)
qed

lemma insert_oldest: "\<forall>y\<in>set ys. f x < f y \<Longrightarrow> js_insert (descending f) x ys = ys @ [x]"
  by (induction ys) (auto simp: descending_def)

lemma sum_filter_mset:
  "mset xs = mset ys \<Longrightarrow> sum_list (map recordAmount (filter P xs)) = sum_list (map recordAmount (filter P ys))"
  by (metis mset_filter mset_map sum_mset_sum_list)

text \<open>
  A full log forgets. With 256 entries of the last day on the log, recording one more drops the
  oldest entry although it is within the day: the recent spend of its site falls by the amount of
  that entry, and the cap lets the site spend it again.
\<close>
theorem full_log_forgets:
  assumes "working area" "org \<noteq> []" "readLog area = old # rest" "length (old # rest) = MAX_ENTRIES"
    and "\<forall>r\<in>set rest. recordTs old < recordTs r \<and> recordTs r \<le> t" "recordTs old < t" "freshAt t old"
  shows "getRecentSpend (recordSpend area org asset network (AmountInt (int amount)) t) o' a' n' t
      = getRecentSpend area o' a' n' t - (if sameTriple o' a' n' old then recordAmount old else 0)
        + (if (o', a', n') = (org, asset, network) then int amount else 0)"
proof -
  let ?r = "spendRecord org asset network (AmountInt (int amount)) t"
  let ?log = "old # rest @ [?r]" and ?in = "inScope o' a' n' (t - SPEND_WINDOW_MS)"
  have fresh: "filter (freshAt t) ?log = ?log"
    using assms(5,7) window_pos by (intro filter_True) (auto simp: freshAt_def)
  have "js_sort (descending recordTs) ?log = js_sort (descending recordTs) (rest @ [?r]) @ [old]"
    using assms(5,6) by (simp add: insert_oldest)
  then have "pruneLog ?log t = js_sort (descending recordTs) (rest @ [?r])"
    using fresh assms(4) by (simp add: pruneLog_def freshAt_def [abs_def] Let_def)
  then have log: "readLog (recordSpend area org asset network (AmountInt (int amount)) t) = js_sort (descending recordTs) (rest @ [?r])"
    using recordSpend_log [OF assms(1,2)] assms(3) by simp
  have "getRecentSpend (recordSpend area org asset network (AmountInt (int amount)) t) o' a' n' t
      = sum_list (map recordAmount (filter ?in (rest @ [?r])))"
    unfolding getRecentSpend_sum log by (rule sum_filter_mset) simp
  moreover have "recordAmount ?r = int amount" by (simp add: show_int_def js_BigInt_show)
  moreover have "?in ?r \<longleftrightarrow> (o', a', n') = (org, asset, network)"
    using window_pos by (simp add: inScope_def)
  moreover have "?in old \<longleftrightarrow> sameTriple o' a' n' old"
    using assms(7) by (simp add: inScope_def freshAt_def)
  ultimately show ?thesis
    unfolding getRecentSpend_sum assms(3) by (simp only: sum_recordAmount_app) simp
qed

text \<open>
  The balance gate. It lets a transfer through with a predicted balance exactly when amount, fee and
  deposit are covered, and then neither side is left with a balance that would fail the rent check;
  it blocks only on a balance that was found, and names the reason.
\<close>
theorem transfer_gate_spec:
  assumes "snapshot = Some (BalanceFound balance)" "recipient \<noteq> RecipientLoading"
  shows "computeArchTransferGate snapshot (Some requested) (Some fee) (Some deposit) recipient =
     (let post = balance - (requested + fee + deposit);
          block = (\<lambda>why dust. GateBlocked \<lparr> bReason = why, bSnapshot = BalanceFound balance, bRequested = requested,
            bFee = fee, bDeposit = deposit, bAvailable = balance, bDust = dust \<rparr>)
      in case recipient of
           Recipient (BalanceFound l) \<Rightarrow>
             if 0 < l + requested \<and> l + requested < 256 then block RecipientDust (Some (l + requested))
             else if post < 0 then block Insufficient None
             else if 0 < post \<and> post < 256 then block SenderDust (Some post)
             else GateOk \<lparr> aSnapshot = BalanceFound balance, aFee = fee, aDeposit = deposit, aPost = Some post, aUnverified = False \<rparr>
         | _ \<Rightarrow>
             if post < 0 then block Insufficient None
             else if 0 < post \<and> post < 256 then block SenderDust (Some post)
             else GateOk \<lparr> aSnapshot = BalanceFound balance, aFee = fee, aDeposit = deposit, aPost = Some post,
                 aUnverified = (recipient \<noteq> NoRecipient \<and> 0 < requested \<and> requested < 256) \<rparr>)"
  using assms
  by (auto simp: computeArchTransferGate_def Let_def isRentDust_def MIN_WALLET_BALANCE_LAMPORTS_def minimumRent_def
      ACCOUNT_STORAGE_OVERHEAD_def DEFAULT_LAMPORTS_PER_BYTE_YEAR_def availableIn_def
      split: recipient_extra.splits balance_snapshot.splits)

subsection \<open>Witnesses\<close>

definition emptyLog :: spend_area where
  "emptyLog = \<lparr> present = True, readFails = False, writeFails = False, spendLog = JUndefined \<rparr>"

definition sampleRequests :: "transfer_request list" where
  "sampleRequests = [\<lparr> reqOrigin = ''a'', reqLamports = ''700'', reqTime = 1 \<rparr>, \<lparr> reqOrigin = ''a'', reqLamports = ''700'', reqTime = 2 \<rparr>]"


theorem spend_counts_witness:
  "getRecentSpend (recordSpend emptyLog ''a'' AssetArch ''m'' (AmountInt 7) 3) ''a'' AssetArch ''m'' 4 = 7"
  using spend_counts [of emptyLog "''a''" 3 4 AssetArch "''m''" 7 "''a''" AssetArch "''m''"]
  by (simp add: emptyLog_def working_def readLog_def MAX_ENTRIES_def getRecentSpend_def SPEND_WINDOW_MS_def)

definition fullLog :: "json list" where
  "fullLog = spendRecord ''a'' AssetArch ''m'' (AmountInt 744) 0 # replicate 255 (spendRecord ''a'' AssetArch ''m'' (AmountInt 1) 1)"

lemma fullLog_records: "filter isSpendRecord fullLog = fullLog"
  by (intro filter_True) (auto simp: fullLog_def)

lemma fullLog_read: "readLog (emptyLog \<lparr> spendLog := JArr fullLog \<rparr>) = fullLog"
  by (simp add: emptyLog_def readLog_def fullLog_records)

lemma sum_replicate: "sum_list (map recordAmount (filter P (replicate n r))) = (if P r then int n * recordAmount r else 0)"
  by (simp add: sum_list_replicate)

lemma amount_show: "recordAmount (spendRecord org asset network (AmountInt (int n)) ts) = int n"
  by (simp add: show_int_def js_BigInt_show)

lemma fullLog_recent: "getRecentSpend (emptyLog \<lparr> spendLog := JArr fullLog \<rparr>) ''a'' AssetArch ''m'' 2 = 999"
  using amount_show [of _ _ _ 744] amount_show [of _ _ _ 1]
  unfolding getRecentSpend_sum fullLog_read
  by (simp add: fullLog_def sum_replicate sum_list_replicate inScope_def SPEND_WINDOW_MS_def del: spendRecord_simps(3))

theorem full_log_forgets_witness:
  "getRecentSpend (emptyLog \<lparr> spendLog := JArr fullLog \<rparr>) ''a'' AssetArch ''m'' 2 = 999
    \<and> getRecentSpend (recordSpend (emptyLog \<lparr> spendLog := JArr fullLog \<rparr>) ''a'' AssetArch ''m'' (AmountInt 1) 2) ''a'' AssetArch ''m'' 2 = 256
    \<and> \<not> exceedsCap 744 256 (Some 1000)"
  using full_log_forgets [of "emptyLog \<lparr> spendLog := JArr fullLog \<rparr>" "''a''" "hd fullLog" "List.tl fullLog" 2 AssetArch "''m''" 1 "''a''" AssetArch "''m''"]
    fullLog_recent fullLog_read amount_show [of _ _ _ 744]
  by (simp add: fullLog_def working_def emptyLog_def MAX_ENTRIES_def SPEND_WINDOW_MS_def freshAt_def exceedsCap_def del: spendRecord_simps(3))

theorem transfer_gate_spec_witness:
  "computeArchTransferGate (Some (BalanceFound 6000)) (Some 900) (Some 5000) (Some 0) NoRecipient =
     GateBlocked \<lparr> bReason = SenderDust, bSnapshot = BalanceFound 6000, bRequested = 900, bFee = 5000, bDeposit = 0,
       bAvailable = 6000, bDust = Some 100 \<rparr>"
  using transfer_gate_spec [of "Some (BalanceFound 6000)" 6000 NoRecipient 900 5000 0] by simp

end
