(* ===== verification/Session.thy ===== *)
theory Session
  imports Prelude Complex_Main
begin

text \<open>
  \<open>apps/chrome-wallet/src/session/SessionManager.ts\<close>: the signing session of the active wallet. Every
  document of the extension (a realm) has its own manager; the key pair in IndexedDB (the disk) and
  the snapshot in \<open>chrome.storage.session\<close> are shared by all of them. An asynchronous method is the
  sequence of its steps between two \<open>await\<close>s: a call in flight is a value that names the \<open>await\<close> it
  stands at, and one event resumes one call, so that calls of one realm and of several interleave at
  every \<open>await\<close>. What the packages and the browser decide (a fresh key, a failure) is the outcome that
  comes with the event. A Turnkey client is known by the public key it stamps with, a snapshot's
  shape is what \<open>readSharedSnapshot\<close> accepts, and a promise by the number of the call that made it.
\<close>

subsection \<open>Times\<close>

definition MIN_SESSION_TTL_SECONDS :: int where "MIN_SESSION_TTL_SECONDS = 60"
definition MAX_SESSION_TTL_SECONDS :: int where "MAX_SESSION_TTL_SECONDS = 3600"
definition SESSION_EXPIRY_SLACK_SECONDS :: int where "SESSION_EXPIRY_SLACK_SECONDS = 30"

datatype js_seconds = Finite rat | NotFinite

definition clampTtl :: "js_seconds \<Rightarrow> int" where
  "clampTtl seconds =
     (case seconds of
        NotFinite \<Rightarrow> MIN_SESSION_TTL_SECONDS
      | Finite s \<Rightarrow>
          if s \<le> 0 then MIN_SESSION_TTL_SECONDS
          else if s < of_int MIN_SESSION_TTL_SECONDS then MIN_SESSION_TTL_SECONDS
          else if s > of_int MAX_SESSION_TTL_SECONDS then MAX_SESSION_TTL_SECONDS
          else \<lfloor>s\<rfloor>)"

subsection \<open>State\<close>

record session_snapshot =
  snAccount :: string
  snExpires :: int
  snKey :: string

record session_manager =
  smStamper :: "string option"
  smAccount :: "string option"
  smExpires :: int
  smPendingOpen :: "nat option"
  smPendingEnsure :: "nat option"
  smVersion :: nat

datatype call_result = Client string | NoClient | Closed | Failed

text \<open>
  Where a call stands. A close that an \<open>open\<close> waits for carries what to open after it; a call that joined
  the promise of another remembers which.
\<close>

datatype call_state =
    CloseRemoving bool "(string \<times> int) option"
  | CloseClearing "(string \<times> int) option"
  | OpenInit string int
  | OpenReset string int
  | OpenRegister string int string
  | OpenCleanup
  | OpenPublish session_snapshot
  | OpenSettled call_result
  | OpenJoined nat
  | EnsureReading string
  | EnsureDropping
  | EnsureInit session_snapshot
  | EnsureSettled call_result
  | EnsureJoined nat
  | Returned call_result
  | JoinReturned nat call_result

record session_call =
  cRealm :: nat
  cAccount :: string
  cState :: call_state

record world =
  wNow :: int
  wDisk :: "string option"
  wShared :: "session_snapshot option"
  wRemoved :: "string list"
  wMinted :: "string list"
  wRegistered :: "(string \<times> string) list"
  wRealms :: "nat \<Rightarrow> session_manager"
  wCalls :: "nat \<Rightarrow> session_call option"
  wNext :: nat

text \<open>
  \<open>Done\<close>: the awaited operation succeeded; \<open>Broke\<close>: it failed; \<open>Minted p\<close>: it succeeded and made the
  key pair \<open>p\<close>.
\<close>

datatype outcome = Done | Broke | Minted string

datatype session_event =
    StartOpen nat string js_seconds
  | StartEnsure nat string
  | StartClose nat
  | Resume nat outcome
  | Removal nat string
  | Clock int

subsection \<open>Synchronous parts\<close>

definition live :: "int \<Rightarrow> int \<Rightarrow> bool" where
  "live expires now \<longleftrightarrow> expires - SESSION_EXPIRY_SLACK_SECONDS * 1000 > now"

definition getClient :: "int \<Rightarrow> session_manager \<Rightarrow> string option \<Rightarrow> string option" where
  "getClient now sm accountId =
     (case smStamper sm of
        None \<Rightarrow> None
      | Some key \<Rightarrow>
          if smExpires sm - SESSION_EXPIRY_SLACK_SECONDS * 1000 \<le> now then None
          else (case accountId of
                  Some a \<Rightarrow> if a \<noteq> [] \<and> smAccount sm \<noteq> Some a then None else Some key
                | None \<Rightarrow> Some key))"

record session_status =
  stActive :: bool
  stAccount :: "string option"
  stExpires :: int

definition statusOf :: "int \<Rightarrow> session_manager \<Rightarrow> session_status" where
  "statusOf now sm = \<lparr> stActive = getClient now sm None \<noteq> None, stAccount = smAccount sm, stExpires = smExpires sm \<rparr>"

definition notify :: "session_manager \<Rightarrow> session_manager" where
  "notify sm = sm \<lparr> smVersion := smVersion sm + 1 \<rparr>"

definition forget :: "session_manager \<Rightarrow> session_manager" where
  "forget sm = sm \<lparr> smStamper := None, smAccount := None, smExpires := 0 \<rparr>"

definition adopt :: "session_snapshot \<Rightarrow> session_manager \<Rightarrow> session_manager" where
  "adopt s sm = sm \<lparr> smStamper := Some (snKey s), smAccount := Some (snAccount s), smExpires := snExpires s \<rparr>"

text \<open>The listener for storage changes that the constructor installs.\<close>

definition onRemoved :: "string \<Rightarrow> session_manager \<Rightarrow> session_manager" where
  "onRemoved removedPub sm = (if smStamper sm = None \<or> smStamper sm \<noteq> Some removedPub then sm else notify (forget sm))"

definition setRealm :: "nat \<Rightarrow> session_manager \<Rightarrow> world \<Rightarrow> world" where
  "setRealm r sm w = w \<lparr> wRealms := (wRealms w)(r := sm) \<rparr>"

definition setState :: "nat \<Rightarrow> call_state \<Rightarrow> world \<Rightarrow> world" where
  "setState c st w =
     (case wCalls w c of None \<Rightarrow> w | Some call \<Rightarrow> w \<lparr> wCalls := (wCalls w)(c \<mapsto> call \<lparr> cState := st \<rparr>) \<rparr>)"

definition newCall :: "nat \<Rightarrow> string \<Rightarrow> call_state \<Rightarrow> world \<Rightarrow> world" where
  "newCall r acct st w =
     w \<lparr> wCalls := (wCalls w)(wNext w \<mapsto> \<lparr> cRealm = r, cAccount = acct, cState = st \<rparr>), wNext := wNext w + 1 \<rparr>"

text \<open>Removing the snapshot from storage tells every listener which key it was for.\<close>

definition removeShared :: "outcome \<Rightarrow> world \<Rightarrow> world" where
  "removeShared out w =
     (if out = Broke then w
      else case wShared w of
        None \<Rightarrow> w
      | Some s \<Rightarrow> w \<lparr> wShared := None, wRemoved := snKey s # wRemoved w \<rparr>)"

definition clearDisk :: "outcome \<Rightarrow> world \<Rightarrow> world" where
  "clearDisk out w = (if out = Broke then w else w \<lparr> wDisk := None \<rparr>)"

definition mint :: "string \<Rightarrow> world \<Rightarrow> world" where
  "mint p w = w \<lparr> wDisk := Some p, wMinted := p # wMinted w \<rparr>"

subsection \<open>Methods up to their first await\<close>

text \<open>\<open>close\<close>: memory is reset at once; whether there was a stamper decides how the disk is cleared.\<close>

definition startClose :: "nat \<Rightarrow> world \<Rightarrow> world" where
  "startClose r w =
     (let sm = wRealms w r
      in newCall r [] (CloseRemoving (smStamper sm \<noteq> None \<or> smAccount sm \<noteq> None) None)
           (setRealm r (forget sm) w))"

definition startOpen :: "nat \<Rightarrow> string \<Rightarrow> js_seconds \<Rightarrow> world \<Rightarrow> world" where
  "startOpen r acct ttlSeconds w =
     (let ttl = clampTtl ttlSeconds; sm = wRealms w r
      in case smPendingOpen sm of
           Some p \<Rightarrow> newCall r acct (OpenJoined p) w
         | None \<Rightarrow>
             if smStamper sm \<noteq> None \<and> smAccount sm = Some acct \<and> live (smExpires sm) (wNow w)
             then newCall r acct (Returned (Client (the (smStamper sm)))) w
             else if smAccount sm \<noteq> None \<and> smAccount sm \<noteq> Some [] \<and> smAccount sm \<noteq> Some acct
             then newCall r acct (CloseRemoving True (Some (acct, ttl))) (setRealm r (forget sm) w)
             else newCall r acct (OpenInit acct ttl) (setRealm r (sm \<lparr> smPendingOpen := Some (wNext w) \<rparr>) w))"

definition startEnsure :: "nat \<Rightarrow> string \<Rightarrow> world \<Rightarrow> world" where
  "startEnsure r acct w =
     (let sm = wRealms w r
      in case getClient (wNow w) sm (Some acct) of
           Some key \<Rightarrow> newCall r acct (Returned (Client key)) w
         | None \<Rightarrow>
             (case smPendingEnsure sm of
                Some p \<Rightarrow> newCall r acct (EnsureJoined p) w
              | None \<Rightarrow> newCall r acct (EnsureReading acct) (setRealm r (sm \<lparr> smPendingEnsure := Some (wNext w) \<rparr>) w)))"

subsection \<open>From one await to the next\<close>

text \<open>The call \<open>c\<close> of realm \<open>r\<close> goes on after a \<open>close\<close>: it returns, or opens what it was to open.\<close>

definition afterClose :: "nat \<Rightarrow> nat \<Rightarrow> (string \<times> int) option \<Rightarrow> world \<Rightarrow> world" where
  "afterClose c r todo w =
     (case todo of
        None \<Rightarrow> setState c (Returned Closed) w
      | Some (acct, ttl) \<Rightarrow>
          setState c (OpenInit acct ttl) (setRealm r (wRealms w r \<lparr> smPendingOpen := Some c \<rparr>) w))"

definition resumeClose :: "nat \<Rightarrow> nat \<Rightarrow> call_state \<Rightarrow> outcome \<Rightarrow> world \<Rightarrow> world" where
  "resumeClose c r st out w =
     (case st of
        CloseRemoving wasActive todo \<Rightarrow>
          (let w1 = removeShared out w;
               w2 = (if wasActive then setRealm r (notify (wRealms w1 r)) w1 else w1)
           in setState c (CloseClearing todo) w2)
      | CloseClearing todo \<Rightarrow> afterClose c r todo (clearDisk out w)
      | _ \<Rightarrow> w)"

text \<open>\<open>init()\<close> loads the key on disk; with none there it may make one.\<close>

definition initDisk :: "outcome \<Rightarrow> world \<Rightarrow> world" where
  "initDisk out w =
     (case out of Minted p \<Rightarrow> if wDisk w = None \<and> p \<notin> set (wMinted w) then mint p w else w | _ \<Rightarrow> w)"

definition resumeOpen :: "nat \<Rightarrow> nat \<Rightarrow> call_state \<Rightarrow> outcome \<Rightarrow> world \<Rightarrow> world" where
  "resumeOpen c r st out w =
     (case st of
        OpenInit acct ttl \<Rightarrow>
          if out = Broke then setState c (OpenSettled Failed) w
          else setState c (OpenReset acct ttl) (initDisk out w)
      | OpenReset acct ttl \<Rightarrow>
          (case out of
             Minted p \<Rightarrow> if p \<in> set (wMinted w) then w else setState c (OpenRegister acct ttl p) (mint p w)
           | _ \<Rightarrow> setState c (OpenSettled Failed) w)
      | OpenRegister acct ttl p \<Rightarrow>
          if out = Broke then setState c OpenCleanup w
          else
            let snap = \<lparr> snAccount = acct, snExpires = wNow w + ttl * 1000, snKey = p \<rparr>;
                w1 = w \<lparr> wRegistered := (p, acct) # wRegistered w \<rparr>
            in setState c (OpenPublish snap) (setRealm r (adopt snap (wRealms w r)) w1)
      | OpenCleanup \<Rightarrow> setState c (OpenSettled Failed) (clearDisk out w)
      | OpenPublish snap \<Rightarrow>
          (let w1 = (if out = Broke then w else w \<lparr> wShared := Some snap \<rparr>)
           in setState c (OpenSettled (Client (snKey snap))) (setRealm r (notify (wRealms w1 r)) w1))
      | OpenSettled res \<Rightarrow>
          setState c (Returned res) (setRealm r (wRealms w r \<lparr> smPendingOpen := None \<rparr>) w)
      | _ \<Rightarrow> w)"

definition resumeEnsure :: "nat \<Rightarrow> nat \<Rightarrow> call_state \<Rightarrow> outcome \<Rightarrow> world \<Rightarrow> world" where
  "resumeEnsure c r st out w =
     (case st of
        EnsureReading accountId \<Rightarrow>
          (case (if out = Broke then None else wShared w) of
             None \<Rightarrow> setState c (EnsureSettled NoClient) w
           | Some snapshot \<Rightarrow>
               if snAccount snapshot \<noteq> accountId then setState c (EnsureSettled NoClient) w
               else if \<not> live (snExpires snapshot) (wNow w) then setState c EnsureDropping w
               else setState c (EnsureInit snapshot) w)
      | EnsureDropping \<Rightarrow> setState c (EnsureSettled NoClient) (removeShared out w)
      | EnsureInit snapshot \<Rightarrow>
          if out = Broke then setState c (EnsureSettled Failed) w
          else
            let w1 = initDisk out w
            in (case wDisk w1 of
                  None \<Rightarrow> setState c EnsureDropping w1
                | Some pub \<Rightarrow>
                    if pub \<noteq> snKey snapshot then setState c EnsureDropping w1
                    else setState c (EnsureSettled (Client pub))
                           (setRealm r (notify (adopt (snapshot \<lparr> snKey := pub \<rparr>) (wRealms w1 r))) w1))
      | EnsureSettled res \<Rightarrow>
          setState c (Returned res) (setRealm r (wRealms w r \<lparr> smPendingEnsure := None \<rparr>) w)
      | _ \<Rightarrow> w)"

text \<open>A call that joined the promise of another gets its result once that is settled.\<close>

definition settled :: "call_state \<Rightarrow> call_result option" where
  "settled st = (case st of OpenSettled res \<Rightarrow> Some res | EnsureSettled res \<Rightarrow> Some res | Returned res \<Rightarrow> Some res | _ \<Rightarrow> None)"

definition resumeJoined :: "nat \<Rightarrow> nat \<Rightarrow> world \<Rightarrow> world" where
  "resumeJoined c p w =
     (case wCalls w p of
        None \<Rightarrow> w
      | Some call \<Rightarrow> (case settled (cState call) of Some res \<Rightarrow> setState c (JoinReturned p res) w | None \<Rightarrow> w))"

definition resume :: "nat \<Rightarrow> outcome \<Rightarrow> world \<Rightarrow> world" where
  "resume c out w =
     (case wCalls w c of
        None \<Rightarrow> w
      | Some call \<Rightarrow>
          (case cState call of
             OpenJoined p \<Rightarrow> resumeJoined c p w
           | EnsureJoined p \<Rightarrow> resumeJoined c p w
           | CloseRemoving wasActive todo \<Rightarrow> resumeClose c (cRealm call) (cState call) out w
           | CloseClearing todo \<Rightarrow> resumeClose c (cRealm call) (cState call) out w
           | EnsureReading a \<Rightarrow> resumeEnsure c (cRealm call) (cState call) out w
           | EnsureDropping \<Rightarrow> resumeEnsure c (cRealm call) (cState call) out w
           | EnsureInit s \<Rightarrow> resumeEnsure c (cRealm call) (cState call) out w
           | EnsureSettled res \<Rightarrow> resumeEnsure c (cRealm call) (cState call) out w
           | st \<Rightarrow> resumeOpen c (cRealm call) st out w))"

subsection \<open>Events\<close>

fun happen :: "session_event \<Rightarrow> world \<Rightarrow> world" where
  "happen (StartOpen r acct ttl) w = startOpen r acct ttl w"
| "happen (StartEnsure r acct) w = startEnsure r acct w"
| "happen (StartClose r) w = startClose r w"
| "happen (Resume c out) w = resume c out w"
| "happen (Removal r p) w = (if p \<in> set (wRemoved w) then setRealm r (onRemoved p (wRealms w r)) w else w)"
| "happen (Clock t) w = (if wNow w \<le> t then w \<lparr> wNow := t \<rparr> else w)"

definition freshManager :: session_manager where
  "freshManager = \<lparr> smStamper = None, smAccount = None, smExpires = 0, smPendingOpen = None, smPendingEnsure = None, smVersion = 0 \<rparr>"

definition startWorld :: world where
  "startWorld = \<lparr> wNow = 0, wDisk = None, wShared = None, wRemoved = [], wMinted = [], wRegistered = [],
     wRealms = (\<lambda>r. freshManager), wCalls = Map.empty, wNext = 0 \<rparr>"

inductive reachable :: "world \<Rightarrow> bool" where
  reachable_start: "reachable startWorld"
| reachable_step: "reachable w \<Longrightarrow> reachable (happen e w)"

subsection \<open>The invariant\<close>

type_synonym registrations = "(string \<times> string) list"

definition okManager :: "registrations \<Rightarrow> session_manager \<Rightarrow> bool" where
  "okManager reg sm \<longleftrightarrow>
     (case smStamper sm of
        None \<Rightarrow> smAccount sm = None
      | Some p \<Rightarrow> (case smAccount sm of None \<Rightarrow> False | Some a \<Rightarrow> (p, a) \<in> set reg))"

definition okSnapshot :: "registrations \<Rightarrow> session_snapshot \<Rightarrow> bool" where
  "okSnapshot reg s \<longleftrightarrow> (snKey s, snAccount s) \<in> set reg"

definition okResult :: "registrations \<Rightarrow> string \<Rightarrow> call_result \<Rightarrow> bool" where
  "okResult reg acct res \<longleftrightarrow> (case res of Client p \<Rightarrow> acct \<noteq> [] \<longrightarrow> (p, acct) \<in> set reg | _ \<Rightarrow> True)"

definition accounts :: "world \<Rightarrow> nat \<Rightarrow> string option" where
  "accounts w c = map_option cAccount (wCalls w c)"

fun okState :: "registrations \<Rightarrow> (nat \<Rightarrow> string option) \<Rightarrow> string \<Rightarrow> call_state \<Rightarrow> bool" where
  "okState reg accts acct (CloseRemoving b (Some (a, t))) = (a = acct)"
| "okState reg accts acct (CloseClearing (Some (a, t))) = (a = acct)"
| "okState reg accts acct (OpenInit a t) = (a = acct)"
| "okState reg accts acct (OpenReset a t) = (a = acct)"
| "okState reg accts acct (OpenRegister a t p) = (a = acct)"
| "okState reg accts acct (OpenPublish s) = (snAccount s = acct \<and> okSnapshot reg s)"
| "okState reg accts acct (EnsureReading a) = (a = acct)"
| "okState reg accts acct (EnsureInit s) = (snAccount s = acct \<and> okSnapshot reg s)"
| "okState reg accts acct (OpenSettled res) = okResult reg acct res"
| "okState reg accts acct (EnsureSettled res) = okResult reg acct res"
| "okState reg accts acct (Returned res) = okResult reg acct res"
| "okState reg accts acct (JoinReturned q res) = (\<exists>a. accts q = Some a \<and> okResult reg a res)"
| "okState reg accts acct st = True"

definition registering :: "world \<Rightarrow> nat \<Rightarrow> string option" where
  "registering w c = (case wCalls w c of
      Some call \<Rightarrow> (case cState call of OpenRegister a t p \<Rightarrow> Some p | _ \<Rightarrow> None)
    | None \<Rightarrow> None)"

definition sessionInv :: "world \<Rightarrow> bool" where
  "sessionInv w \<longleftrightarrow>
     (\<forall>r. okManager (wRegistered w) (wRealms w r)) \<and>
     (\<forall>s. wShared w = Some s \<longrightarrow> okSnapshot (wRegistered w) s) \<and>
     (\<forall>c call. wCalls w c = Some call \<longrightarrow> okState (wRegistered w) (accounts w) (cAccount call) (cState call)) \<and>
     (\<forall>c. wNext w \<le> c \<longrightarrow> wCalls w c = None)"

definition keyInv :: "world \<Rightarrow> bool" where
  "keyInv w \<longleftrightarrow>
     distinct (map fst (wRegistered w)) \<and> fst ` set (wRegistered w) \<subseteq> set (wMinted w) \<and>
     (\<forall>c p. registering w c = Some p \<longrightarrow> p \<in> set (wMinted w) \<and> p \<notin> fst ` set (wRegistered w)) \<and>
     (\<forall>c d p. registering w c = Some p \<longrightarrow> registering w d = Some p \<longrightarrow> c = d)"

lemma okResult_mono: "okResult reg a res \<Longrightarrow> set reg \<subseteq> set reg' \<Longrightarrow> okResult reg' a res"
  by (auto simp: okResult_def split: call_result.splits)

lemma okState_mono:
  "okState reg accts acct st \<Longrightarrow> set reg \<subseteq> set reg' \<Longrightarrow> (\<And>q a. accts q = Some a \<Longrightarrow> accts' q = Some a) \<Longrightarrow>
   okState reg' accts' acct st"
  by (cases "(reg, accts, acct, st)" rule: okState.cases) (auto simp: okSnapshot_def intro: okResult_mono)

lemma okManager_mono: "okManager reg sm \<Longrightarrow> set reg \<subseteq> set reg' \<Longrightarrow> okManager reg' sm"
  by (auto simp: okManager_def split: option.splits)

text \<open>What the building blocks of a step do to the invariant.\<close>

lemma inv_setRealm: "sessionInv w \<Longrightarrow> okManager (wRegistered w) sm \<Longrightarrow> sessionInv (setRealm r sm w)"
  by (auto simp: sessionInv_def setRealm_def accounts_def [abs_def])

lemma accounts_setState [simp]: "accounts (setState c st w) = accounts w"
  by (auto simp: accounts_def setState_def split: option.splits)

lemma setState_simps [simp]:
  "wRegistered (setState c st w) = wRegistered w" "wShared (setState c st w) = wShared w"
  "wRealms (setState c st w) = wRealms w" "wNext (setState c st w) = wNext w" "wMinted (setState c st w) = wMinted w"
  by (simp_all add: setState_def split: option.splits)

lemma wCalls_setState:
  "wCalls (setState c st w) d = (if d = c then map_option (\<lambda>call. call \<lparr> cState := st \<rparr>) (wCalls w c) else wCalls w d)"
  by (simp add: setState_def split: option.splits)

lemma inv_setState:
  "sessionInv w \<Longrightarrow> (\<And>call. wCalls w c = Some call \<Longrightarrow> okState (wRegistered w) (accounts w) (cAccount call) st) \<Longrightarrow>
   sessionInv (setState c st w)"
  by (auto simp: sessionInv_def wCalls_setState split: if_splits)

lemma inv_newCall:
  assumes "sessionInv w" "okState (wRegistered w) (accounts w) acct st"
  shows "sessionInv (newCall r acct st w)"
proof -
  have n: "wCalls w (wNext w) = None" using assms(1) by (simp add: sessionInv_def)
  have a: "accounts w q = Some a \<Longrightarrow> accounts (newCall r acct st w) q = Some a" for q a
    using n by (auto simp: accounts_def newCall_def)
  have "okState (wRegistered w) (accounts (newCall r acct st w)) acct st"
    by (rule okState_mono [OF assms(2) subset_refl a])
  moreover have "okState (wRegistered w) (accounts (newCall r acct st w)) (cAccount call) (cState call)"
    if "wCalls w c = Some call" for c call
    using assms(1) that by (intro okState_mono [OF _ _ a]) (auto simp: sessionInv_def)
  ultimately show ?thesis
    using assms(1) by (auto simp: sessionInv_def newCall_def)
qed

lemma inv_removeShared: "sessionInv w \<Longrightarrow> sessionInv (removeShared out w)"
  by (auto simp: sessionInv_def removeShared_def accounts_def [abs_def] split: option.splits)

lemma inv_clearDisk: "sessionInv w \<Longrightarrow> sessionInv (clearDisk out w)"
  by (auto simp: sessionInv_def clearDisk_def accounts_def [abs_def])

lemma inv_mint: "sessionInv w \<Longrightarrow> sessionInv (mint p w)"
  by (auto simp: sessionInv_def mint_def accounts_def [abs_def])

lemma inv_initDisk: "sessionInv w \<Longrightarrow> sessionInv (initDisk out w)"
  by (auto simp: initDisk_def inv_mint split: outcome.splits)

lemma inv_register:
  assumes "sessionInv w"
  shows "sessionInv (w \<lparr> wRegistered := x # wRegistered w \<rparr>)"
proof -
  have "okState (x # wRegistered w) (accounts w) (cAccount call) (cState call)" if "wCalls w c = Some call" for c call
    by (rule okState_mono [of "wRegistered w" "accounts w"]) (use assms that in \<open>auto simp: sessionInv_def\<close>)
  moreover have "okManager (x # wRegistered w) (wRealms w r)" for r
    by (rule okManager_mono [of "wRegistered w"]) (use assms in \<open>auto simp: sessionInv_def\<close>)
  ultimately show ?thesis
    using assms by (auto simp: sessionInv_def accounts_def [abs_def] okSnapshot_def)
qed

lemma inv_publish: "sessionInv w \<Longrightarrow> okSnapshot (wRegistered w) s \<Longrightarrow> sessionInv (w \<lparr> wShared := Some s \<rparr>)"
  by (auto simp: sessionInv_def accounts_def [abs_def])

lemma okManager_simps [simp]:
  "okManager reg (notify sm) = okManager reg sm" "okManager reg (forget sm)"
  "okManager reg (sm \<lparr> smPendingOpen := x \<rparr>) = okManager reg sm"
  "okManager reg (sm \<lparr> smPendingEnsure := x \<rparr>) = okManager reg sm"
  "okManager reg (adopt s sm) \<longleftrightarrow> okSnapshot reg s"
  by (auto simp: okManager_def notify_def forget_def adopt_def okSnapshot_def split: option.splits)

lemma shared_parts [simp]:
  "wRealms (removeShared out w) = wRealms w" "wRegistered (removeShared out w) = wRegistered w" "wCalls (removeShared out w) = wCalls w"
  "wRealms (clearDisk out w) = wRealms w" "wRegistered (clearDisk out w) = wRegistered w" "wCalls (clearDisk out w) = wCalls w"
  "wRealms (initDisk out w) = wRealms w" "wRegistered (initDisk out w) = wRegistered w" "wCalls (initDisk out w) = wCalls w"
  "wRealms (mint p w) = wRealms w" "wRegistered (mint p w) = wRegistered w" "wCalls (mint p w) = wCalls w"
  "wRegistered (setRealm r sm w) = wRegistered w" "wCalls (setRealm r sm w) = wCalls w"
  by (simp_all add: removeShared_def clearDisk_def initDisk_def mint_def setRealm_def split: option.splits outcome.splits)

lemma inv_manager: "sessionInv w \<Longrightarrow> okManager (wRegistered w) (wRealms w r)"
  by (simp add: sessionInv_def)

lemma inv_state: "sessionInv w \<Longrightarrow> wCalls w c = Some call \<Longrightarrow> okState (wRegistered w) (accounts w) (cAccount call) (cState call)"
  by (simp add: sessionInv_def)

lemma inv_shared: "sessionInv w \<Longrightarrow> wShared w = Some s \<Longrightarrow> okSnapshot (wRegistered w) s"
  by (simp add: sessionInv_def)

lemmas inv_blocks = inv_setRealm inv_newCall inv_setState inv_removeShared inv_clearDisk inv_mint inv_initDisk

lemma manager_client:
  "okManager reg sm \<Longrightarrow> getClient now sm (Some acct) = Some key \<Longrightarrow> acct \<noteq> [] \<Longrightarrow> (key, acct) \<in> set reg"
  by (auto simp: okManager_def getClient_def split: option.splits if_splits)

lemma inv_startClose: "sessionInv w \<Longrightarrow> sessionInv (startClose r w)"
  by (simp add: startClose_def Let_def inv_blocks)

lemma manager_account:
  "okManager reg sm \<Longrightarrow> smStamper sm \<noteq> None \<Longrightarrow> smAccount sm = Some a \<Longrightarrow> (the (smStamper sm), a) \<in> set reg"
  by (auto simp: okManager_def split: option.splits)

lemma okResult_simps [simp]:
  "okResult reg acct NoClient" "okResult reg acct Closed" "okResult reg acct Failed"
  "okResult reg acct (Client p) \<longleftrightarrow> (acct \<noteq> [] \<longrightarrow> (p, acct) \<in> set reg)"
  by (simp_all add: okResult_def)

lemma inv_startOpen: "sessionInv w \<Longrightarrow> sessionInv (startOpen r acct ttl w)"
  using inv_manager [of w r] manager_account [of "wRegistered w" "wRealms w r" acct]
  by (auto simp: startOpen_def Let_def intro!: inv_blocks split: option.splits)

lemma inv_startEnsure: "sessionInv w \<Longrightarrow> sessionInv (startEnsure r acct w)"
  using inv_manager [of w r] manager_client [of "wRegistered w" "wRealms w r" "wNow w" acct]
  by (auto simp: startEnsure_def Let_def intro!: inv_blocks split: option.splits)

lemma inv_afterClose:
  assumes "sessionInv w" "wCalls w c = Some call" "\<And>a t. todo = Some (a, t) \<Longrightarrow> a = cAccount call"
  shows "sessionInv (afterClose c r todo w)"
  using assms inv_manager [of w r]
  by (auto simp: afterClose_def intro!: inv_blocks split: option.splits)

lemma inv_resumeClose:
  assumes "sessionInv w" "wCalls w c = Some call"
  shows "sessionInv (resumeClose c r (cState call) out w)"
proof (cases "cState call")
  case (CloseRemoving wasActive todo)
  then have "okState (wRegistered w) (accounts w) (cAccount call) (CloseClearing todo)"
    using inv_state [OF assms] by (cases todo) auto
  moreover have "accounts (removeShared out w) = accounts w" "accounts (setRealm r sm w') = accounts w'" for sm w'
    by (simp_all add: accounts_def [abs_def])
  ultimately show ?thesis
    using assms CloseRemoving inv_manager [OF assms(1), of r]
    by (auto simp: resumeClose_def Let_def intro!: inv_blocks)
next
  case (CloseClearing todo)
  then show ?thesis
    using assms inv_state [OF assms] inv_clearDisk [OF assms(1), of out]
    by (auto simp: resumeClose_def intro!: inv_afterClose)
qed (use assms in \<open>simp_all add: resumeClose_def\<close>)

lemma accounts_parts [simp]:
  "accounts (setRealm r sm w) = accounts w" "accounts (removeShared out w) = accounts w"
  "accounts (clearDisk out w) = accounts w" "accounts (initDisk out w) = accounts w" "accounts (mint p w) = accounts w"
  by (simp_all add: accounts_def [abs_def])

lemma accounts_call: "wCalls w c = Some call \<Longrightarrow> accounts w c = Some (cAccount call)"
  by (simp add: accounts_def)

lemma inv_resumeRegister:
  assumes "sessionInv w" "wCalls w c = Some call" "cState call = OpenRegister acct ttl p"
  shows "sessionInv (resumeOpen c r (cState call) out w)"
proof (cases "out = Broke")
  case True
  then show ?thesis using assms by (auto simp: resumeOpen_def intro!: inv_blocks)
next
  case False
  let ?s = "\<lparr> snAccount = acct, snExpires = wNow w + ttl * 1000, snKey = p \<rparr>"
  let ?w = "w \<lparr> wRegistered := (p, acct) # wRegistered w \<rparr>"
  have ok: "okSnapshot (wRegistered ?w) ?s" by (simp add: okSnapshot_def)
  have acct: "acct = cAccount call" using inv_state [OF assms(1,2)] assms(3) by simp
  have "sessionInv (setRealm r (adopt ?s (wRealms w r)) ?w)"
    using inv_register [OF assms(1)] ok by (intro inv_setRealm) simp_all
  then have "sessionInv (setState c (OpenPublish ?s) (setRealm r (adopt ?s (wRealms w r)) ?w))"
    using assms(2) ok acct by (intro inv_setState) auto
  then show ?thesis using assms(3) False by (simp add: resumeOpen_def Let_def)
qed

lemma inv_resumeOpen:
  assumes "sessionInv w" "wCalls w c = Some call"
  shows "sessionInv (resumeOpen c r (cState call) out w)"
proof (cases "cState call")
  case (OpenRegister acct ttl p)
  then show ?thesis using assms by (intro inv_resumeRegister)
next
  case (OpenPublish s)
  have s: "snAccount s = cAccount call" "okSnapshot (wRegistered w) s"
    using inv_state [OF assms] OpenPublish by auto
  let ?w = "if out = Broke then w else w \<lparr> wShared := Some s \<rparr>"
  have same: "wRealms ?w = wRealms w" "wRegistered ?w = wRegistered w" "wCalls ?w = wCalls w" by simp_all
  have w: "sessionInv ?w" using inv_publish [OF assms(1) s(2)] assms(1) by simp
  then have "sessionInv (setRealm r (notify (wRealms ?w r)) ?w)"
    using inv_manager [OF w] by (intro inv_setRealm) simp_all
  then have "sessionInv (setState c (OpenSettled (Client (snKey s))) (setRealm r (notify (wRealms ?w r)) ?w))"
    using assms(2) s same by (intro inv_setState) (auto simp: okSnapshot_def)
  then show ?thesis using OpenPublish by (simp add: resumeOpen_def Let_def)
qed (use assms inv_state [OF assms] inv_manager [OF assms(1), of r] in
    \<open>auto simp: resumeOpen_def Let_def intro!: inv_blocks split: outcome.splits\<close>)

lemma inv_resumeEnsure:
  assumes "sessionInv w" "wCalls w c = Some call"
  shows "sessionInv (resumeEnsure c r (cState call) out w)"
proof (cases "cState call")
  case (EnsureReading a)
  then show ?thesis
    using assms inv_state [OF assms] inv_shared [OF assms(1)]
    by (auto simp: resumeEnsure_def intro!: inv_blocks split: option.splits)
next
  case (EnsureInit s)
  then have s: "snAccount s = cAccount call" "okSnapshot (wRegistered w) s"
    using inv_state [OF assms] by auto
  then show ?thesis
    using assms EnsureInit
    by (auto simp: resumeEnsure_def Let_def okSnapshot_def intro!: inv_blocks split: option.splits)
qed (use assms inv_state [OF assms] inv_manager [OF assms(1), of r] in
    \<open>auto simp: resumeEnsure_def Let_def intro!: inv_blocks\<close>)

lemma settled_ok: "okState reg accts acct st \<Longrightarrow> settled st = Some res \<Longrightarrow> okResult reg acct res"
  by (cases st) (auto simp: settled_def)

lemma inv_resumeJoined:
  assumes "sessionInv w"
  shows "sessionInv (resumeJoined c p w)"
proof (cases "wCalls w p")
  case (Some owner)
  then have "accounts w p = Some (cAccount owner)" by (simp add: accounts_call)
  then show ?thesis
    using assms Some settled_ok [OF inv_state [OF assms Some]]
    by (auto simp: resumeJoined_def intro!: inv_setState split: option.splits)
qed (use assms in \<open>simp add: resumeJoined_def\<close>)

lemma inv_resume: "sessionInv w \<Longrightarrow> sessionInv (resume c out w)"
proof (cases "wCalls w c")
  case (Some call)
  assume "sessionInv w"
  then show ?thesis
    using Some inv_resumeJoined inv_resumeClose [of w c call] inv_resumeOpen [of w c call] inv_resumeEnsure [of w c call]
    by (cases "cState call") (simp_all add: resume_def)
qed (simp add: resume_def)

lemma inv_happen: "sessionInv w \<Longrightarrow> sessionInv (happen e w)"
proof (cases e)
  case (Removal r p)
  assume "sessionInv w"
  then show ?thesis using Removal inv_manager [of w r] by (auto simp: onRemoved_def intro!: inv_setRealm)
next
  case (Clock t)
  assume "sessionInv w"
  then show ?thesis using Clock by (auto simp: sessionInv_def accounts_def [abs_def])
qed (simp_all add: inv_startOpen inv_startEnsure inv_startClose inv_resume)

lemma inv_reachable: "reachable w \<Longrightarrow> sessionInv w"
proof (induction rule: reachable.induct)
  case reachable_start
  then show ?case
    by (simp add: sessionInv_def startWorld_def freshManager_def okManager_def)
qed (rule inv_happen)

subsection \<open>One account per key\<close>

text \<open>Only a step at \<open>OpenReset\<close> or \<open>OpenRegister\<close> touches keys and registrations.\<close>

lemma keyInv_cong:
  assumes "keyInv w" "wRegistered w' = wRegistered w" "wMinted w' = wMinted w"
    and "\<And>c p. registering w' c = Some p \<Longrightarrow> registering w c = Some p"
  shows "keyInv w'"
  using assms unfolding keyInv_def by metis

lemma keyInv_same_calls:
  "keyInv w \<Longrightarrow> wRegistered w' = wRegistered w \<Longrightarrow> wMinted w' = wMinted w \<Longrightarrow> wCalls w' = wCalls w \<Longrightarrow> keyInv w'"
  by (erule keyInv_cong) (simp_all add: registering_def)

lemma wMinted_parts [simp]:
  "wMinted (removeShared out w) = wMinted w" "wMinted (clearDisk out w) = wMinted w" "wMinted (setRealm r sm w) = wMinted w"
    "wMinted (mint p w) = p # wMinted w"
  by (simp_all add: removeShared_def clearDisk_def setRealm_def mint_def split: option.splits)

definition quiet :: "call_state \<Rightarrow> bool" where
  "quiet st \<longleftrightarrow> (case st of OpenRegister a t p \<Rightarrow> False | _ \<Rightarrow> True)"

lemma keyInv_setState: "keyInv w \<Longrightarrow> quiet st \<Longrightarrow> keyInv (setState c st w)"
  by (rule keyInv_cong [of w])
    (auto simp: registering_def wCalls_setState quiet_def split: option.splits call_state.splits if_splits)

lemma keyInv_newCall: "keyInv w \<Longrightarrow> quiet st \<Longrightarrow> keyInv (newCall r acct st w)"
  by (rule keyInv_cong [of w])
    (auto simp: registering_def newCall_def quiet_def split: option.splits call_state.splits if_splits)

lemma keyInv_setRealm: "keyInv w \<Longrightarrow> keyInv (setRealm r sm w)"
  by (erule keyInv_same_calls) simp_all

lemma keyInv_publish: "keyInv w \<Longrightarrow> keyInv (w \<lparr> wShared := s \<rparr>)"
  by (erule keyInv_same_calls) simp_all

lemma keyInv_removeShared: "keyInv w \<Longrightarrow> keyInv (removeShared out w)"
  by (erule keyInv_same_calls) simp_all

lemma keyInv_clearDisk: "keyInv w \<Longrightarrow> keyInv (clearDisk out w)"
  by (erule keyInv_same_calls) simp_all

lemma keyInv_mint: "keyInv w \<Longrightarrow> keyInv (mint p w)"
  unfolding keyInv_def mint_def registering_def by (simp cong: option.case_cong) blast

lemma keyInv_initDisk: "keyInv w \<Longrightarrow> keyInv (initDisk out w)"
  by (auto simp: initDisk_def keyInv_mint split: outcome.splits)

lemma registering_setState:
  "registering (setState c st w) d =
     (if d = c \<and> wCalls w c \<noteq> None then (case st of OpenRegister a t p \<Rightarrow> Some p | _ \<Rightarrow> None) else registering w d)"
  by (auto simp: registering_def wCalls_setState split: option.splits)

lemma registering_mint [simp]: "registering (mint p w) = registering w"
  by (simp add: registering_def [abs_def])

lemma keyInv_reset:
  assumes "keyInv w" "p \<notin> set (wMinted w)"
  shows "keyInv (setState c (OpenRegister acct ttl p) (mint p w))"
proof -
  have "p \<notin> fst ` set (wRegistered w)" "\<And>d. registering w d \<noteq> Some p"
    using assms by (auto simp: keyInv_def)
  then show ?thesis
    using assms unfolding keyInv_def by (auto simp: registering_setState)
qed

lemmas keyInv_blocks = keyInv_setState keyInv_newCall keyInv_setRealm keyInv_removeShared keyInv_clearDisk
  keyInv_mint keyInv_initDisk keyInv_publish

lemma keyInv_register:
  assumes "keyInv w" "registering w c = Some p"
  shows "keyInv (setState c (OpenPublish snap) (setRealm r sm (w \<lparr> wRegistered := (p, acct) # wRegistered w \<rparr>)))"
proof -
  define w' where "w' = setState c (OpenPublish snap) (setRealm r sm (w \<lparr> wRegistered := (p, acct) # wRegistered w \<rparr>))"
  have w': "wRegistered w' = (p, acct) # wRegistered w" "wMinted w' = wMinted w" by (simp_all add: w'_def)
  have reg: "registering w' d = Some q \<Longrightarrow> d \<noteq> c \<and> registering w d = Some q" for d q
    by (auto simp: w'_def registering_def wCalls_setState split: option.splits if_splits)
  have p: "p \<in> set (wMinted w)" "p \<notin> fst ` set (wRegistered w)" and only: "\<And>d. registering w d = Some p \<Longrightarrow> d = c"
    using assms by (auto simp: keyInv_def)
  have "registering w' d = Some q \<Longrightarrow> q \<in> set (wMinted w') \<and> q \<notin> fst ` set (wRegistered w')" for d q
    using reg [of d q] only [of d] assms(1) by (auto simp: keyInv_def w')
  moreover have "registering w' d = Some q \<Longrightarrow> registering w' d' = Some q \<Longrightarrow> d = d'" for d d' q
    using reg [of d q] reg [of d' q] assms(1) by (auto simp: keyInv_def)
  moreover have "distinct (map fst (wRegistered w'))" "fst ` set (wRegistered w') \<subseteq> set (wMinted w')"
    using assms(1) p by (auto simp: keyInv_def w')
  ultimately show ?thesis unfolding keyInv_def w'_def [symmetric] by blast
qed

lemma registering_call: "wCalls w c = Some call \<Longrightarrow> cState call = OpenRegister a t p \<Longrightarrow> registering w c = Some p"
  by (simp add: registering_def)

lemma keyInv_resumeOpen:
  assumes "keyInv w" "wCalls w c = Some call"
  shows "keyInv (resumeOpen c r (cState call) out w)"
proof (cases "cState call")
  case (OpenReset acct ttl)
  then show ?thesis
    using assms by (auto simp: resumeOpen_def quiet_def keyInv_reset intro!: keyInv_setState split: outcome.splits)
next
  case (OpenRegister acct ttl p)
  then show ?thesis
    using assms keyInv_register [OF assms(1) registering_call [OF assms(2) OpenRegister]]
    by (auto simp: resumeOpen_def quiet_def Let_def intro!: keyInv_setState)
qed (use assms in \<open>auto simp: resumeOpen_def quiet_def Let_def intro!: keyInv_blocks split: outcome.splits\<close>)

lemma keyInv_resumeEnsure: "keyInv w \<Longrightarrow> keyInv (resumeEnsure c r st out w)"
  by (auto simp: resumeEnsure_def quiet_def Let_def intro!: keyInv_blocks split: call_state.splits option.splits)

lemma keyInv_resumeClose: "keyInv w \<Longrightarrow> keyInv (resumeClose c r st out w)"
  by (auto simp: resumeClose_def afterClose_def quiet_def Let_def intro!: keyInv_blocks split: call_state.splits option.splits)

lemma keyInv_resumeJoined: "keyInv w \<Longrightarrow> keyInv (resumeJoined c p w)"
  by (auto simp: resumeJoined_def quiet_def intro!: keyInv_blocks split: option.splits)

lemma keyInv_resume: "keyInv w \<Longrightarrow> keyInv (resume c out w)"
proof (cases "wCalls w c")
  case (Some call)
  assume "keyInv w"
  then show ?thesis
    using Some keyInv_resumeJoined keyInv_resumeClose keyInv_resumeOpen [of w c call] keyInv_resumeEnsure
    by (cases "cState call") (simp_all add: resume_def)
qed (simp add: resume_def)

lemma keyInv_happen: "keyInv w \<Longrightarrow> keyInv (happen e w)"
proof (cases e)
  case (Clock t)
  assume "keyInv w"
  then show ?thesis using Clock by (auto intro: keyInv_same_calls [of w])
qed (auto simp: startOpen_def startEnsure_def startClose_def quiet_def Let_def keyInv_resume
    intro!: keyInv_blocks split: option.splits)

lemma keyInv_reachable: "reachable w \<Longrightarrow> keyInv w"
proof (induction rule: reachable.induct)
  case reachable_start
  then show ?case by (simp add: keyInv_def startWorld_def registering_def)
qed (rule keyInv_happen)

subsection \<open>Runs\<close>

definition run :: "session_event list \<Rightarrow> world \<Rightarrow> world" where
  "run es w = foldl (\<lambda>w e. happen e w) w es"

lemma run_simps [simp]: "run [] w = w" "run (e # es) w = run es (happen e w)"
  by (simp_all add: run_def)

lemma reachable_run: "reachable w \<Longrightarrow> reachable (run es w)"
  by (induction es arbitrary: w) (auto intro: reachable_step)

lemma registered_once:
  "keyInv w \<Longrightarrow> (p, a) \<in> set (wRegistered w) \<Longrightarrow> (p, b) \<in> set (wRegistered w) \<Longrightarrow> a = b"
  unfolding keyInv_def by (metis eq_key_imp_eq_value)

lemma clampTtl_bounds: "MIN_SESSION_TTL_SECONDS \<le> clampTtl s \<and> clampTtl s \<le> MAX_SESSION_TTL_SECONDS"
proof (cases s)
  case (Finite x)
  have "60 \<le> x \<Longrightarrow> 60 \<le> \<lfloor>x\<rfloor>" "x \<le> 3600 \<Longrightarrow> \<lfloor>x\<rfloor> \<le> 3600"
    by (simp_all add: le_floor_iff floor_le_iff)
  then show ?thesis
    using Finite by (simp add: clampTtl_def MIN_SESSION_TTL_SECONDS_def MAX_SESSION_TTL_SECONDS_def)
qed (simp add: clampTtl_def MIN_SESSION_TTL_SECONDS_def MAX_SESSION_TTL_SECONDS_def)

text \<open>How many resumptions a call is away from its return.\<close>

fun callRank :: "call_state \<Rightarrow> nat" where
  "callRank (Returned res) = 0"
| "callRank (JoinReturned q res) = 0"
| "callRank (OpenSettled res) = 1"
| "callRank (EnsureSettled res) = 1"
| "callRank (OpenJoined q) = 1"
| "callRank (EnsureJoined q) = 1"
| "callRank (OpenPublish s) = 2"
| "callRank OpenCleanup = 2"
| "callRank (OpenRegister a t p) = 3"
| "callRank (OpenReset a t) = 4"
| "callRank (OpenInit a t) = 5"
| "callRank EnsureDropping = 2"
| "callRank (EnsureInit s) = 3"
| "callRank (EnsureReading a) = 4"
| "callRank (CloseClearing todo) = (case todo of None \<Rightarrow> 1 | Some x \<Rightarrow> 6)"
| "callRank (CloseRemoving b todo) = (case todo of None \<Rightarrow> 2 | Some x \<Rightarrow> 7)"

definition callState :: "world \<Rightarrow> nat \<Rightarrow> call_state option" where
  "callState w c = map_option cState (wCalls w c)"

lemma callState_setState: "callState (setState c st w) d = (if d = c \<and> wCalls w c \<noteq> None then Some st else callState w d)"
  by (auto simp: callState_def wCalls_setState split: option.splits)

lemma callState_parts [simp]:
  "callState (setRealm r sm w) = callState w" "callState (removeShared out w) = callState w"
  "callState (clearDisk out w) = callState w" "callState (initDisk out w) = callState w" "callState (mint p w) = callState w"
  by (simp_all add: callState_def [abs_def])

lemma callState_simps [simp]:
  "callState (w \<lparr> wRegistered := x \<rparr>) = callState w" "callState (w \<lparr> wShared := y \<rparr>) = callState w"
  by (simp_all add: callState_def [abs_def])

definition waitsFor :: "call_state \<Rightarrow> nat option" where
  "waitsFor st = (case st of OpenJoined q \<Rightarrow> Some q | EnsureJoined q \<Rightarrow> Some q | _ \<Rightarrow> None)"

lemma resume_rank:
  assumes "wCalls w c = Some call" "0 < callRank (cState call)" "\<And>p. out = Minted p \<Longrightarrow> p \<notin> set (wMinted w)"
    and "\<And>q. waitsFor (cState call) = Some q \<Longrightarrow> \<exists>owner. wCalls w q = Some owner \<and> settled (cState owner) \<noteq> None"
  shows "\<exists>st. callState (resume c out w) c = Some st \<and> callRank st < callRank (cState call)"
proof (cases "cState call")
  case (EnsureReading a)
  then show ?thesis using assms(1)
    by (auto simp: resume_def resumeEnsure_def callState_setState split: option.splits)
next
  case (OpenReset a t)
  then show ?thesis using assms(1,3)
    by (cases out) (auto simp: resume_def resumeOpen_def callState_setState)
next
  case (CloseClearing todo)
  then show ?thesis using assms(1)
    by (auto simp: resume_def resumeClose_def afterClose_def callState_setState split: option.splits)
next
  case (CloseRemoving b todo)
  then show ?thesis using assms(1)
    by (auto simp: resume_def resumeClose_def Let_def callState_setState split: option.splits)
next
  case (OpenJoined q)
  then show ?thesis using assms(1,4)
    by (auto simp: resume_def resumeJoined_def waitsFor_def callState_setState)
next
  case (EnsureJoined q)
  then show ?thesis using assms(1,4)
    by (auto simp: resume_def resumeJoined_def waitsFor_def callState_setState)
qed (use assms(1,2) in
    \<open>auto simp: resume_def resumeOpen_def resumeEnsure_def Let_def callState_setState split: option.splits\<close>)

lemma resume_others: "d \<noteq> c \<Longrightarrow> callState (resume c out w) d = callState w d"
proof (cases "wCalls w c")
  case (Some call)
  assume "d \<noteq> c"
  then show ?thesis
    using Some
    by (cases "cState call")
      (auto simp: resume_def resumeOpen_def resumeEnsure_def resumeClose_def resumeJoined_def afterClose_def Let_def
        callState_setState split: option.splits outcome.splits)
qed (simp add: resume_def)

lemma callState_newCall: "callState (newCall r acct st w) d = (if d = wNext w then Some st else callState w d)"
  by (simp add: callState_def newCall_def)

lemma happen_others:
  assumes "sessionInv w" "wCalls w c \<noteq> None" "\<And>out. e \<noteq> Resume c out"
  shows "callState (happen e w) c = callState w c"
proof -
  have "c \<noteq> wNext w" using assms(1,2) by (auto simp: sessionInv_def)
  moreover have "wNext (setRealm r sm w) = wNext w" for r sm by (simp add: setRealm_def)
  moreover have "callState (w \<lparr> wNow := t \<rparr>) = callState w" for t by (simp add: callState_def [abs_def])
  moreover have "e = Resume d out \<Longrightarrow> callState (happen e w) c = callState w c" for d out
    using assms(3) resume_others [of c d out w] by auto
  ultimately show ?thesis
    by (cases e) (auto simp: startOpen_def startEnsure_def startClose_def Let_def callState_newCall split: option.splits)
qed

subsection \<open>Properties\<close>


text \<open>
  What \<open>open\<close> and \<open>ensureClient\<close> return. A call that ran itself returns a client whose key was registered
  for the account it was called for; one that joined the call of another returns that one's client.
\<close>
theorem session_call_results:
  assumes "reachable w" "wCalls w c = Some call"
  shows "(cState call = Returned (Client key) \<longrightarrow> cAccount call = [] \<or> (key, cAccount call) \<in> set (wRegistered w))
    \<and> (cState call = JoinReturned q (Client key) \<longrightarrow>
        (\<exists>owner. wCalls w q = Some owner \<and> (cAccount owner = [] \<or> (key, cAccount owner) \<in> set (wRegistered w))))"
  using inv_state [OF inv_reachable [OF assms(1)] assms(2)] by (auto simp: accounts_def)

text \<open>
  Calls come to an end. Every resumption of a call that is not waiting for another one brings it nearer to
  its return, whatever the awaited operation did (a reset makes a new key), and no other event moves it;
  from its start a call is at most 7 resumptions away.
\<close>
theorem session_call_progress:
  assumes "reachable w" "wCalls w c = Some call" "0 < callRank (cState call)" "\<And>p. out = Minted p \<Longrightarrow> p \<notin> set (wMinted w)"
    and "\<And>q. waitsFor (cState call) = Some q \<Longrightarrow> \<exists>owner. wCalls w q = Some owner \<and> settled (cState owner) \<noteq> None"
  shows "(\<exists>st. callState (happen (Resume c out) w) c = Some st \<and> callRank st < callRank (cState call))
    \<and> (\<forall>e. (\<forall>out. e \<noteq> Resume c out) \<longrightarrow> callState (happen e w) c = Some (cState call))
    \<and> callRank (cState call) \<le> 7"
proof -
  have "callRank (cState call) \<le> 7" by (cases "cState call") (auto split: option.splits)
  moreover have "callState (happen e w) c = Some (cState call)" if "\<forall>out. e \<noteq> Resume c out" for e
    using happen_others [OF inv_reachable [OF assms(1)], of c e] assms(2) that by (simp add: callState_def)
  ultimately show ?thesis using resume_rank [of w c call out] assms(2-5) by simp
qed

lemma close_run:
  assumes "w' = run [StartClose r, Resume (wNext w) Done, Resume (wNext w) Done] w"
  shows "wDisk w' = None \<and> wShared w' = None \<and> wNow w' = wNow w
    \<and> wRemoved w' = (case wShared w of None \<Rightarrow> wRemoved w | Some s \<Rightarrow> snKey s # wRemoved w)
    \<and> smStamper (wRealms w' r) = None \<and> smAccount (wRealms w' r) = None
    \<and> smPendingEnsure (wRealms w' r) = smPendingEnsure (wRealms w r)"
  unfolding assms
  by (cases "wShared w")
    (simp_all add: startClose_def newCall_def resume_def resumeClose_def setState_def setRealm_def removeShared_def
      afterClose_def clearDisk_def forget_def notify_def Let_def)

lemma ensure_without_snapshot:
  assumes "wShared w = None" "smStamper (wRealms w r) = None" "smPendingEnsure (wRealms w r) = None"
  shows "callState (run [StartEnsure r acct, Resume (wNext w) Done, Resume (wNext w) Done] w) (wNext w) = Some (Returned NoClient)"
  using assms
  by (simp add: startEnsure_def getClient_def newCall_def resume_def resumeEnsure_def setState_def setRealm_def callState_def)

text \<open>
  Locking. After a \<open>close\<close> that is not disturbed there is no key on the disk, no snapshot and nothing in
  the memory of its realm; every realm that held the session of the snapshot forgets it when it
  hears of the removal, and \<open>ensureClient\<close> then finds no session.
\<close>
theorem session_close_locks:
  assumes "w' = run [StartClose r, Resume (wNext w) Done, Resume (wNext w) Done] w"
  shows "wDisk w' = None \<and> wShared w' = None \<and> smStamper (wRealms w' r) = None \<and> smAccount (wRealms w' r) = None
    \<and> (\<forall>r' s. wShared w = Some s \<and> smStamper (wRealms w' r') = Some (snKey s) \<longrightarrow>
        smStamper (wRealms (happen (Removal r' (snKey s)) w') r') = None)
    \<and> (smPendingEnsure (wRealms w r) = None \<longrightarrow>
        callState (run [StartEnsure r acct, Resume (wNext w') Done, Resume (wNext w') Done] w') (wNext w')
          = Some (Returned NoClient))"
  using close_run [OF assms] ensure_without_snapshot [of w' r acct]
  by (auto simp: onRemoved_def setRealm_def notify_def forget_def)

text \<open>
  A session reaches every realm. In a world with no call in flight and no session in memory, an \<open>open\<close> that
  succeeds gives a client for the new key, and another realm's \<open>ensureClient\<close> for the same account
  then gives a client for the same key, although it never saw the registration.
\<close>
theorem session_shared:
  assumes "acct \<noteq> []" "p \<notin> set (wMinted w)" "wDisk w \<noteq> None" "r \<noteq> r'"
    and "smPendingOpen (wRealms w r) = None" "smStamper (wRealms w r) = None" "smAccount (wRealms w r) = None"
    and "smPendingEnsure (wRealms w r') = None" "smStamper (wRealms w r') = None"
    and "w1 = run [StartOpen r acct ttl, Resume (wNext w) Done, Resume (wNext w) (Minted p),
      Resume (wNext w) Done, Resume (wNext w) Done, Resume (wNext w) Done] w"
    and "w2 = run [StartEnsure r' acct, Resume (wNext w1) Done, Resume (wNext w1) Done, Resume (wNext w1) Done] w1"
  shows "callState w1 (wNext w) = Some (Returned (Client p)) \<and> callState w2 (wNext w1) = Some (Returned (Client p))
    \<and> getClient (wNow w2) (wRealms w2 r') (Some acct) = Some p"
proof -
  have ttl: "live (wNow w + clampTtl ttl * 1000) (wNow w)"
    using clampTtl_bounds [of ttl] by (simp add: live_def SESSION_EXPIRY_SLACK_SECONDS_def MIN_SESSION_TTL_SECONDS_def)
  let ?s = "\<lparr> snAccount = acct, snExpires = wNow w + clampTtl ttl * 1000, snKey = p \<rparr>"
  have w1: "callState w1 (wNext w) = Some (Returned (Client p)) \<and> wShared w1 = Some ?s \<and> wDisk w1 = Some p
      \<and> wNow w1 = wNow w \<and> wRealms w1 r' = wRealms w r'"
    unfolding assms(10) using assms(1-7)
    by (simp add: startOpen_def newCall_def resume_def resumeOpen_def setState_def setRealm_def callState_def
        initDisk_def mint_def Let_def notify_def adopt_def)
  have "callState w2 (wNext w1) = Some (Returned (Client p)) \<and> smStamper (wRealms w2 r') = Some p
      \<and> smAccount (wRealms w2 r') = Some acct \<and> smExpires (wRealms w2 r') = snExpires ?s \<and> wNow w2 = wNow w"
    unfolding assms(11) using w1 assms(8,9) ttl
    by (simp add: startEnsure_def getClient_def newCall_def resume_def resumeEnsure_def setState_def setRealm_def callState_def
        initDisk_def notify_def adopt_def Let_def)
  then show ?thesis using w1 ttl by (auto simp: getClient_def live_def)
qed

text \<open>
  A joined \<open>open\<close> gives the wrong client. An \<open>open\<close> for an account that comes while one for another account
  is in flight returns the other one's client: it does not look for whom the pending call is.
\<close>
theorem open_joins_other_account:
  "let w = run [StartOpen 0 ''A'' (Finite 600), StartOpen 0 ''B'' (Finite 600), Resume 0 Done, Resume 0 (Minted ''k''),
      Resume 0 Done, Resume 0 Done, Resume 1 Done] startWorld
    in reachable w \<and> map_option cAccount (wCalls w 1) = Some ''B''
      \<and> callState w 1 = Some (JoinReturned 0 (Client ''k'')) \<and> wRegistered w = [(''k'', ''A'')]"
  unfolding Let_def
  by (intro conjI reachable_run reachable_start)
    (simp_all add: startWorld_def freshManager_def startOpen_def newCall_def resume_def resumeOpen_def resumeJoined_def
      settled_def setState_def setRealm_def callState_def initDisk_def mint_def notify_def adopt_def)

text \<open>
  Two keys for one session. When two \<open>open\<close>s for an account find the session of another one, the first closes it
  and the second, which no longer sees it, opens at once; the first then opens too, without looking
  for the pending call again, and both register a key.
\<close>
theorem concurrent_opens_register_twice:
  "let w0 = run [StartOpen 0 ''A'' (Finite 600), Resume 0 Done, Resume 0 (Minted ''k0''), Resume 0 Done, Resume 0 Done,
        Resume 0 Done] startWorld;
      w = run [StartOpen 0 ''B'' (Finite 600), StartOpen 0 ''B'' (Finite 600), Resume 1 Done, Resume 1 Done,
        Resume 1 Done, Resume 1 (Minted ''k1''), Resume 2 Done, Resume 2 (Minted ''k2''), Resume 1 Done, Resume 2 Done] w0
    in reachable w \<and> wRegistered w = [(''k2'', ''B''), (''k1'', ''B''), (''k0'', ''A'')] \<and> wDisk w = Some ''k2''"
  unfolding Let_def
  by (intro conjI reachable_run reachable_start; code_simp)

subsection \<open>Witnesses\<close>

definition sampleWorld :: world where
  "sampleWorld = run [StartOpen 0 ''A'' (Finite 600), Resume 0 (Minted ''j''), Resume 0 (Minted ''k''), Resume 0 Done,
     Resume 0 Done, Resume 0 Done] startWorld"

lemma sample_reachable: "reachable sampleWorld"
  unfolding sampleWorld_def by (intro reachable_run reachable_start)

lemma sample_clamp: "clampTtl (Finite 600) = 600"
  by (simp add: clampTtl_def MIN_SESSION_TTL_SECONDS_def MAX_SESSION_TTL_SECONDS_def)

lemmas session_steps = startOpen_def startEnsure_def newCall_def resume_def resumeOpen_def resumeEnsure_def setState_def setRealm_def
  callState_def initDisk_def mint_def notify_def adopt_def getClient_def startWorld_def freshManager_def

lemma sample_facts:
  "wCalls sampleWorld 0 = Some \<lparr> cRealm = 0, cAccount = ''A'', cState = Returned (Client ''k'') \<rparr>"
  "getClient (wNow sampleWorld) (wRealms sampleWorld 0) (Some ''A'') = Some ''k''"
  by (simp_all add: sampleWorld_def session_steps Let_def sample_clamp SESSION_EXPIRY_SLACK_SECONDS_def)


theorem session_call_results_witness: "(''k'', ''A'') \<in> set (wRegistered sampleWorld)"
  using session_call_results [OF sample_reachable sample_facts(1), of "''k''"] by simp

theorem session_call_progress_witness:
  "\<exists>st. callState (happen (Resume 0 Done) (startOpen 0 ''A'' NotFinite startWorld)) 0 = Some st \<and> callRank st < 5"
proof -
  have "reachable (happen (StartOpen 0 ''A'' NotFinite) startWorld)" by (intro reachable_step reachable_start)
  moreover have "wCalls (happen (StartOpen 0 ''A'' NotFinite) startWorld) 0
      = Some \<lparr> cRealm = 0, cAccount = ''A'', cState = OpenInit ''A'' (clampTtl NotFinite) \<rparr>"
    by (simp add: session_steps)
  ultimately show ?thesis
    using session_call_progress [of "happen (StartOpen 0 ''A'' NotFinite) startWorld" 0
        "\<lparr> cRealm = 0, cAccount = ''A'', cState = OpenInit ''A'' (clampTtl NotFinite) \<rparr>" Done]
    by (simp add: waitsFor_def)
qed

theorem session_close_locks_witness:
  "wDisk (run [StartClose 0, Resume (wNext sampleWorld) Done, Resume (wNext sampleWorld) Done] sampleWorld) = None"
  using session_close_locks [OF refl, of 0 sampleWorld "''A''"] by blast

theorem session_shared_witness:
  "callState (run [StartOpen 0 ''A'' NotFinite, Resume 0 Done, Resume 0 (Minted ''k''), Resume 0 Done, Resume 0 Done, Resume 0 Done]
      (startWorld \<lparr> wDisk := Some ''old'' \<rparr>)) 0 = Some (Returned (Client ''k''))"
  using session_shared [of "''A''" "''k''" "startWorld \<lparr> wDisk := Some ''old'' \<rparr>" 0 1, OF _ _ _ _ _ _ _ _ _ refl refl]
  by (simp add: startWorld_def freshManager_def)


end
