(* ===== verification/HubAuth.thy ===== *)
theory HubAuth
  imports JsDates JsValues
begin

text \<open>
  Who a request to the hub speaks for (\<open>services/wallet-hub-api/src\<close>): the API key of the application
  (\<open>plugins/appAuth.ts\<close>), the challenges and session tokens of its users (\<open>auth/sessionToken.ts\<close>,
  \<open>routes/authSessions.ts\<close>) and the session checks of the other routes (\<open>plugins/sessionAuth.ts\<close>). The database
  is a record of tables, a table the list of its rows; a transaction is a function on it that gives
  the old database back when it throws (a duplicate key), and the row lock of the source makes the
  transactions of one challenge run one after the other. Hashes, signature checks, Turnkey, fresh
  identifiers and random text are the fields of \<open>hub_env\<close>; \<open>NOW()\<close> and \<open>Date.now()\<close> are the same clock.
\<close>

subsection \<open>Tables\<close>

record app_key_row =
  ak_id :: string
  ak_app :: string
  ak_hash :: string
  ak_prefix :: string
  ak_revoked :: bool
  ak_appDisabled :: bool
  ak_lastUsed :: "int option"

record user_row =
  us_id :: string
  us_app :: string
  us_external :: "string option"

record resource_row =
  rs_id :: string
  rs_app :: string
  rs_user :: "string option"
  rs_organization :: string
  rs_address :: "string option"
  rs_publicKey :: "string option"
  rs_verifiedAt :: "int option"
  rs_wallet :: "string option"

record linked_row =
  lw_app :: string
  lw_user :: string
  lw_provider :: string
  lw_address :: string

record challenge_row =
  ch_id :: string
  ch_app :: string
  ch_user :: string
  ch_payload :: string
  ch_message :: string
  ch_expires :: int
  ch_consumed :: "int option"
  ch_provider :: "string option"
  ch_address :: "string option"
  ch_resource :: "string option"

record session_row =
  se_id :: string
  se_app :: string
  se_user :: string
  se_hash :: string
  se_expires :: int
  se_lastUsed :: int
  se_revoked :: "int option"

record hub_db =
  appKeys :: "app_key_row list"
  users :: "user_row list"
  resources :: "resource_row list"
  linkedWallets :: "linked_row list"
  challenges :: "challenge_row list"
  sessions :: "session_row list"

record hub_env =
  he_now :: int
  he_sha256 :: "string \<Rightarrow> string"
  he_schnorr :: "byte list \<Rightarrow> byte list \<Rightarrow> byte list \<Rightarrow> bool option"
  he_tweak :: "string \<Rightarrow> string option"
  he_bip322 :: "string \<Rightarrow> string \<Rightarrow> string \<Rightarrow> bool option"
  he_isAddress :: "string \<Rightarrow> bool"
  he_isP2TR :: "string \<Rightarrow> bool"
  he_wallets :: "string \<Rightarrow> string list option"
  he_accounts :: "string \<Rightarrow> string \<Rightarrow> (string \<times> string option) list option"
  he_parentOrg :: string
  he_nonce :: string
  he_token :: string
  he_userId :: string
  he_rowId :: string

definition given :: "string option \<Rightarrow> bool" where
  "given s \<longleftrightarrow> s \<noteq> None \<and> s \<noteq> Some []"

subsection \<open>Application keys\<close>

text \<open>\<open>/^Bearer\s+(.+)$/i\<close>: what the group matches, trimmed. The dot matches no line break.\<close>

definition bearerText :: "string \<Rightarrow> string option" where
  "bearerText header =
     (let rest = drop 6 header; body = dropWhile is_js_space rest
      in if js_lower (take 6 header) = ''bearer'' \<and> rest \<noteq> [] \<and> is_js_space (hd rest) \<and> body \<noteq> []
            \<and> list_all (\<lambda>c. char_code c \<noteq> 10 \<and> char_code c \<noteq> 13) body
         then Some (js_trim body) else None)"

definition extractApiKey :: "string option \<Rightarrow> string option \<Rightarrow> string option" where
  "extractApiKey xApiKey authorization =
     (case xApiKey of
        Some k \<Rightarrow> if js_trim k \<noteq> [] then Some (js_trim k)
                  else (case authorization of Some a \<Rightarrow> bearerText a | None \<Rightarrow> None)
      | None \<Rightarrow> (case authorization of Some a \<Rightarrow> bearerText a | None \<Rightarrow> None))"

definition isPublicPath :: "string \<Rightarrow> bool" where
  "isPublicPath url \<longleftrightarrow>
     url = ''/v1/health'' \<or> starts_with ''/v1/health/'' url \<or> starts_with ''/v1/docs'' url
     \<or> starts_with ''/v1/platform'' url \<or> starts_with ''/documentation'' url
     \<or> starts_with ''/v1/documentation'' url \<or> starts_with ''/v1/extension/connect'' url
     \<or> url = ''/.well-known/jwks.json'' \<or> url = ''/v1/auth/jwks''"

datatype app_auth = NoAuthNeeded | AppRefused string | AppIs string

text \<open>The key's row is touched in the transaction that finds it, refused or not.\<close>

definition appAuth :: "hub_env \<Rightarrow> string \<Rightarrow> string \<Rightarrow> string option \<Rightarrow> string option \<Rightarrow> hub_db \<Rightarrow> app_auth \<times> hub_db" where
  "appAuth env httpMethod url xApiKey authorization db =
     (if httpMethod = ''OPTIONS'' \<or> isPublicPath url then (NoAuthNeeded, db)
      else case extractApiKey xApiKey authorization of
        None \<Rightarrow> (AppRefused ''Missing API key (send X-API-Key or Authorization: Bearer)'', db)
      | Some apiKey \<Rightarrow>
          if apiKey = [] then (AppRefused ''Missing API key (send X-API-Key or Authorization: Bearer)'', db)
          else (case List.find (\<lambda>k. ak_hash k = he_sha256 env apiKey) (appKeys db) of
             None \<Rightarrow> (AppRefused ''Invalid API key'', db)
           | Some row \<Rightarrow>
               let db' = db \<lparr> appKeys := map (\<lambda>k. if ak_id k = ak_id row then k \<lparr> ak_lastUsed := Some (he_now env) \<rparr> else k)
                         (appKeys db) \<rparr>
               in if ak_revoked row then (AppRefused ''API key revoked'', db')
                  else if ak_appDisabled row then (AppRefused ''App disabled'', db')
                  else (AppIs (ak_app row), db')))"

subsection \<open>Challenges\<close>

definition CHALLENGE_TTL_MS :: int where "CHALLENGE_TTL_MS = 5 * 60 * 1000"
definition SESSION_TTL_MS :: int where "SESSION_TTL_MS = 24 * 60 * 60 * 1000"
definition SESSION_LAST_USED_DEBOUNCE_MS :: int where "SESSION_LAST_USED_DEBOUNCE_MS = 60 * 1000"
definition SESSION_TOKEN_PREFIX :: string where "SESSION_TOKEN_PREFIX = ''whs_v1_''"

fun lines_of :: "string list \<Rightarrow> string" where
  "lines_of [] = []"
| "lines_of [l] = l"
| "lines_of (l # m # ls) = l @ [CHR 0x0A] @ lines_of (m # ls)"

definition buildChallengeMessage :: "hub_env \<Rightarrow> string \<Rightarrow> string \<Rightarrow> string \<Rightarrow> int \<Rightarrow> string \<times> string" where
  "buildChallengeMessage env appId externalUserId resourceId expiresAt =
     (let message = lines_of
        [''Wallet Hub session challenge'', ''App: '' @ appId, ''User: '' @ externalUserId,
         ''Resource: '' @ resourceId, ''Nonce: '' @ he_nonce env, ''Expires: '' @ toISOString expiresAt]
      in (message, he_sha256 env message))"

definition buildExternalChallengeMessage :: "hub_env \<Rightarrow> string \<Rightarrow> string \<Rightarrow> string \<Rightarrow> string \<Rightarrow> int \<Rightarrow> string" where
  "buildExternalChallengeMessage env appId externalUserId walletProvider address expiresAt =
     lines_of
       [''Wallet Hub session challenge'', ''App: '' @ appId, ''User: '' @ externalUserId,
        ''Provider: '' @ walletProvider, ''Address: '' @ address, ''Nonce: '' @ he_nonce env,
        ''Expires: '' @ toISOString expiresAt, [], ''Only sign this message if you trust the application.'']"

text \<open>An insert with an identifier that is taken throws.\<close>

definition insertChallenge :: "challenge_row \<Rightarrow> hub_db \<Rightarrow> hub_db option" where
  "insertChallenge row db =
     (if ch_id row \<in> ch_id ` set (challenges db) then None else Some (db \<lparr> challenges := challenges db @ [row] \<rparr>))"

definition createChallenge :: "hub_env \<Rightarrow> string \<Rightarrow> string \<Rightarrow> string \<Rightarrow> string \<Rightarrow> hub_db \<Rightarrow> (challenge_row \<times> hub_db) option" where
  "createChallenge env appId userId externalUserId resourceId db =
     (let expiresAt = he_now env + CHALLENGE_TTL_MS;
          m = buildChallengeMessage env appId externalUserId resourceId expiresAt;
          row = \<lparr> ch_id = he_rowId env, ch_app = appId, ch_user = userId, ch_payload = snd m, ch_message = fst m,
            ch_expires = expiresAt, ch_consumed = None, ch_provider = None, ch_address = None, ch_resource = Some resourceId \<rparr>
      in map_option (Pair row) (insertChallenge row db))"

definition createExternalChallenge ::
    "hub_env \<Rightarrow> string \<Rightarrow> string \<Rightarrow> string \<Rightarrow> string \<Rightarrow> string \<Rightarrow> hub_db \<Rightarrow> (challenge_row \<times> hub_db) option" where
  "createExternalChallenge env appId userId externalUserId walletProvider address db =
     (let expiresAt = he_now env + CHALLENGE_TTL_MS;
          message = buildExternalChallengeMessage env appId externalUserId walletProvider address expiresAt;
          row = \<lparr> ch_id = he_rowId env, ch_app = appId, ch_user = userId, ch_payload = he_sha256 env message, ch_message = message,
            ch_expires = expiresAt, ch_consumed = None, ch_provider = Some walletProvider, ch_address = Some address, ch_resource = None \<rparr>
      in map_option (Pair row) (insertChallenge row db))"

definition loadConsumableChallenge :: "int \<Rightarrow> string \<Rightarrow> string \<Rightarrow> hub_db \<Rightarrow> challenge_row option" where
  "loadConsumableChallenge now challengeId appId db =
     List.find (\<lambda>c. ch_id c = challengeId \<and> ch_app c = appId \<and> ch_consumed c = None \<and> ch_expires c > now) (challenges db)"

definition markChallengeConsumed :: "int \<Rightarrow> string \<Rightarrow> hub_db \<Rightarrow> hub_db" where
  "markChallengeConsumed now challengeId db =
     db \<lparr> challenges := map (\<lambda>c. if ch_id c = challengeId then c \<lparr> ch_consumed := Some now \<rparr> else c) (challenges db) \<rparr>"

subsection \<open>Signatures\<close>

text \<open>\<open>s.replace(/^0x/i, "")\<close>\<close>

definition strip0x :: "string \<Rightarrow> string" where
  "strip0x s = (if js_lower (take 2 s) = ''0x'' then drop 2 s else s)"

definition toXOnlyPubkeyHex :: "string \<Rightarrow> string option" where
  "toXOnlyPubkeyHex publicKeyHex =
     (let clean = js_lower (strip0x publicKeyHex)
      in if \<not> lower_hex_string clean then None
         else if length clean = 64 then Some clean
         else if length clean = 66 \<and> (starts_with ''02'' clean \<or> starts_with ''03'' clean) then Some (drop 2 clean)
         else if length clean = 130 \<and> starts_with ''04'' clean then Some (slice clean 2 66)
         else None)"

definition verifyWith :: "hub_env \<Rightarrow> string \<Rightarrow> string \<Rightarrow> string \<Rightarrow> bool" where
  "verifyWith env cleanSig cleanPayload pubkeyHex =
     (he_schnorr env (bufferFromHex cleanSig) (bufferFromHex cleanPayload) (bufferFromHex pubkeyHex) = Some True)"

definition verifyChallengeSignature :: "hub_env \<Rightarrow> string \<Rightarrow> string \<Rightarrow> string \<Rightarrow> bool" where
  "verifyChallengeSignature env payloadHex signatureHex defaultPublicKeyHex =
     (let cleanSig = strip0x signatureHex; cleanPayload = strip0x payloadHex
      in if length cleanSig \<noteq> 128 \<or> length cleanPayload \<noteq> 64 then False
         else case toXOnlyPubkeyHex defaultPublicKeyHex of
           None \<Rightarrow> False
         | Some xOnlyPub \<Rightarrow>
             if verifyWith env cleanSig cleanPayload xOnlyPub then True
             else (case he_tweak env xOnlyPub of None \<Rightarrow> False | Some tweakedHex \<Rightarrow> verifyWith env cleanSig cleanPayload tweakedHex))"

definition verifyExternalChallengeSignature :: "hub_env \<Rightarrow> string \<Rightarrow> string \<Rightarrow> string \<Rightarrow> bool" where
  "verifyExternalChallengeSignature env address message signature = (he_bip322 env address message signature = Some True)"

subsection \<open>Sessions\<close>

record minted_session =
  mt_token :: string
  mt_session :: string
  mt_expires :: int

definition mintSessionForUser :: "hub_env \<Rightarrow> string \<Rightarrow> string \<Rightarrow> hub_db \<Rightarrow> (minted_session \<times> hub_db) option" where
  "mintSessionForUser env appId userId db =
     (let expiresAt = he_now env + SESSION_TTL_MS;
          token = SESSION_TOKEN_PREFIX @ he_token env;
          row = \<lparr> se_id = he_rowId env, se_app = appId, se_user = userId, se_hash = he_sha256 env token,
            se_expires = expiresAt, se_lastUsed = he_now env, se_revoked = None \<rparr>
      in if se_id row \<in> se_id ` set (sessions db) \<or> se_hash row \<in> se_hash ` set (sessions db) then None
         else Some (\<lparr> mt_token = token, mt_session = se_id row, mt_expires = expiresAt \<rparr>, db \<lparr> sessions := sessions db @ [row] \<rparr>))"

definition mintSession :: "hub_env \<Rightarrow> string \<Rightarrow> string \<Rightarrow> string \<Rightarrow> hub_db \<Rightarrow> (minted_session \<times> hub_db) option" where
  "mintSession env challengeId appId userId db =
     map_option (\<lambda>(minted, db'). (minted, markChallengeConsumed (he_now env) challengeId db')) (mintSessionForUser env appId userId db)"

record principal =
  pr_session :: string
  pr_app :: string
  pr_user :: string
  pr_external :: string

definition touchSession :: "int \<Rightarrow> string \<Rightarrow> hub_db \<Rightarrow> hub_db" where
  "touchSession now sid db = db \<lparr> sessions := map (\<lambda>r. if se_id r = sid then r \<lparr> se_lastUsed := now \<rparr> else r) (sessions db) \<rparr>"

text \<open>The join with the users drops a session whose user is gone; a user without an external id is refused.\<close>

definition resolveSessionToken :: "hub_env \<Rightarrow> string \<Rightarrow> string \<Rightarrow> hub_db \<Rightarrow> principal option \<times> hub_db" where
  "resolveSessionToken env token appId db =
     (if \<not> starts_with SESSION_TOKEN_PREFIX token then (None, db)
      else case List.find (\<lambda>r. se_hash r = he_sha256 env token \<and> se_app r = appId \<and> se_revoked r = None
             \<and> se_expires r > he_now env \<and> (\<exists>u\<in>set (users db). us_id u = se_user r)) (sessions db) of
        None \<Rightarrow> (None, db)
      | Some row \<Rightarrow> (case List.find (\<lambda>u. us_id u = se_user row) (users db) of
          None \<Rightarrow> (None, db)
        | Some user \<Rightarrow>
            if \<not> given (us_external user) then (None, db)
            else (Some \<lparr> pr_session = se_id row, pr_app = se_app row, pr_user = se_user row, pr_external = the (us_external user) \<rparr>,
                  if he_now env - se_lastUsed row > SESSION_LAST_USED_DEBOUNCE_MS then touchSession (he_now env) (se_id row) db else db)))"

definition revokeSession :: "int \<Rightarrow> string \<Rightarrow> string \<Rightarrow> hub_db \<Rightarrow> hub_db" where
  "revokeSession now sessionId appId db =
     db \<lparr> sessions := map (\<lambda>r. if se_id r = sessionId \<and> se_app r = appId \<and> se_revoked r = None then r \<lparr> se_revoked := Some now \<rparr> else r)
       (sessions db) \<rparr>"

subsection \<open>Users and resources\<close>

definition getOrCreateUserByExternalId :: "hub_env \<Rightarrow> string \<Rightarrow> string \<Rightarrow> hub_db \<Rightarrow> string \<times> hub_db" where
  "getOrCreateUserByExternalId env appId externalUserId db =
     (case List.find (\<lambda>u. us_app u = appId \<and> us_external u = Some externalUserId) (users db) of
        Some u \<Rightarrow> (us_id u, db)
      | None \<Rightarrow> (he_userId env,
          db \<lparr> users := users db @ [\<lparr> us_id = he_userId env, us_app = appId, us_external = Some externalUserId \<rparr>] \<rparr>))"

definition getTurnkeyResourceByIdForApp :: "string \<Rightarrow> string \<Rightarrow> hub_db \<Rightarrow> resource_row option" where
  "getTurnkeyResourceByIdForApp rid appId db = List.find (\<lambda>r. rs_id r = rid \<and> rs_app r = appId) (resources db)"

definition markTurnkeyResourceKeyVerifiedForApp :: "int \<Rightarrow> string \<Rightarrow> string \<Rightarrow> string \<Rightarrow> hub_db \<Rightarrow> hub_db" where
  "markTurnkeyResourceKeyVerifiedForApp now rid appId walletId db =
     db \<lparr> resources := map (\<lambda>r. if rs_id r = rid \<and> rs_app r = appId
          then r \<lparr> rs_verifiedAt := Some now, rs_wallet := (case rs_wallet r of Some w \<Rightarrow> Some w | None \<Rightarrow> Some walletId) \<rparr> else r)
        (resources db) \<rparr>"

definition getLinkedWalletForUser :: "string \<Rightarrow> string \<Rightarrow> string \<Rightarrow> string \<Rightarrow> hub_db \<Rightarrow> linked_row option" where
  "getLinkedWalletForUser appId userId walletProvider address db =
     List.find (\<lambda>l. lw_app l = appId \<and> lw_user l = userId \<and> lw_provider l = walletProvider \<and> lw_address l = address)
       (linkedWallets db)"

text \<open>Any error of Turnkey is no account: the caller catches what the look-up throws.\<close>

fun findInWallets :: "(string \<Rightarrow> (string \<times> string option) list option) \<Rightarrow> string \<Rightarrow> string \<Rightarrow> string list \<Rightarrow> string option" where
  "findInWallets accounts address wanted [] = None"
| "findInWallets accounts address wanted (w # ws) =
     (case accounts w of
        None \<Rightarrow> None
      | Some as \<Rightarrow>
          if \<exists>a\<in>set as. fst a = address \<and> (case snd a of Some k \<Rightarrow> toXOnlyPubkeyHex k = Some wanted | None \<Rightarrow> False)
          then Some w else findInWallets accounts address wanted ws)"

definition findTurnkeyWalletAccount :: "hub_env \<Rightarrow> string \<Rightarrow> string \<Rightarrow> string \<Rightarrow> string option" where
  "findTurnkeyWalletAccount env organizationId address publicKeyHex =
     (case toXOnlyPubkeyHex publicKeyHex of
        None \<Rightarrow> None
      | Some wanted \<Rightarrow> (case he_wallets env organizationId of
          None \<Rightarrow> None
        | Some wallets \<Rightarrow> findInWallets (he_accounts env organizationId) address wanted wallets))"

definition verifyStoredResourceKey :: "hub_env \<Rightarrow> resource_row \<Rightarrow> hub_db \<Rightarrow> bool \<times> hub_db" where
  "verifyStoredResourceKey env resource db =
     (if \<not> given (rs_address resource) \<or> \<not> given (rs_publicKey resource) then (False, db)
      else if rs_organization resource = he_parentOrg env then (False, db)
      else case findTurnkeyWalletAccount env (rs_organization resource) (the (rs_address resource)) (the (rs_publicKey resource)) of
        None \<Rightarrow> (False, db)
      | Some walletId \<Rightarrow>
          (True, markTurnkeyResourceKeyVerifiedForApp (he_now env) (rs_id resource) (rs_app resource) walletId db))"

subsection \<open>The routes\<close>

datatype 'a reply = Ok 'a | BadRequest string | Unauthorized string | ServerError

text \<open>\<open>POST /auth/session/challenge\<close>\<close>

definition challengeLookup :: "hub_env \<Rightarrow> string \<Rightarrow> string \<Rightarrow> string \<Rightarrow> hub_db \<Rightarrow> (string \<times> resource_row) option \<times> hub_db" where
  "challengeLookup env appId externalUserId resourceId db =
     (let (userId, db1) = getOrCreateUserByExternalId env appId externalUserId db
      in (case getTurnkeyResourceByIdForApp resourceId appId db1 of
            None \<Rightarrow> None
          | Some resource \<Rightarrow>
              if rs_user resource \<noteq> Some userId then None
              else if \<not> given (rs_publicKey resource) then None
              else Some (userId, resource), db1))"

definition postChallenge :: "hub_env \<Rightarrow> string \<Rightarrow> string \<Rightarrow> string \<Rightarrow> hub_db \<Rightarrow> challenge_row reply \<times> hub_db" where
  "postChallenge env appId externalUserId resourceId db =
     (let (lookup, db1) = challengeLookup env appId externalUserId resourceId db
      in case lookup of
           None \<Rightarrow> (BadRequest ''InvalidResource'', db1)
         | Some (userId, resource) \<Rightarrow>
             let (keyTrusted, db2) = (if rs_verifiedAt resource \<noteq> None then (True, db1) else verifyStoredResourceKey env resource db1)
             in if \<not> keyTrusted then (BadRequest ''InvalidResource'', db2)
                else case createChallenge env appId userId externalUserId (rs_id resource) db2 of
                  None \<Rightarrow> (ServerError, db2)
                | Some (row, db3) \<Rightarrow> (Ok row, db3))"

text \<open>\<open>POST /auth/session\<close>\<close>

definition postSession :: "hub_env \<Rightarrow> string \<Rightarrow> string \<Rightarrow> string \<Rightarrow> hub_db \<Rightarrow> minted_session reply \<times> hub_db" where
  "postSession env appId challengeId signatureHex db =
     (case loadConsumableChallenge (he_now env) challengeId appId db of
        None \<Rightarrow> (BadRequest ''InvalidChallenge'', db)
      | Some challenge \<Rightarrow>
          if \<not> given (ch_resource challenge) then (BadRequest ''InvalidChallenge'', db)
          else case getTurnkeyResourceByIdForApp (the (ch_resource challenge)) appId db of
            None \<Rightarrow> (Unauthorized ''InvalidSignature'', db)
          | Some resource \<Rightarrow>
              if rs_user resource \<noteq> Some (ch_user challenge) \<or> rs_verifiedAt resource = None \<or> \<not> given (rs_publicKey resource)
              then (Unauthorized ''InvalidSignature'', db)
              else if \<not> verifyChallengeSignature env (ch_payload challenge) signatureHex (the (rs_publicKey resource))
              then (Unauthorized ''InvalidSignature'', db)
              else (case mintSession env (ch_id challenge) appId (ch_user challenge) db of
                  None \<Rightarrow> (ServerError, db)
                | Some (minted, db') \<Rightarrow> (Ok minted, db')))"

text \<open>\<open>POST /auth/session/external/challenge\<close>: a transaction that throws takes the new user back.\<close>

definition postExternalChallenge :: "hub_env \<Rightarrow> string \<Rightarrow> string \<Rightarrow> string \<Rightarrow> string \<Rightarrow> hub_db \<Rightarrow> challenge_row reply \<times> hub_db" where
  "postExternalChallenge env appId externalUserId walletProvider address db =
     (if \<not> he_isAddress env address then (BadRequest ''Invalid bitcoin address'', db)
      else if \<not> he_isP2TR env address then (BadRequest ''Only Taproot (p2tr) addresses are supported'', db)
      else
        let (userId, db1) = getOrCreateUserByExternalId env appId externalUserId db
        in case getLinkedWalletForUser appId userId walletProvider address db1 of
             None \<Rightarrow> (BadRequest ''InvalidResource'', db1)
           | Some linked \<Rightarrow>
               (case createExternalChallenge env appId userId externalUserId walletProvider address db1 of
                  None \<Rightarrow> (ServerError, db)
                | Some (row, db2) \<Rightarrow> (Ok row, db2)))"

text \<open>\<open>POST /auth/session/external\<close>\<close>

definition postExternalSession :: "hub_env \<Rightarrow> string \<Rightarrow> string \<Rightarrow> string \<Rightarrow> hub_db \<Rightarrow> minted_session reply \<times> hub_db" where
  "postExternalSession env appId challengeId signature db =
     (case loadConsumableChallenge (he_now env) challengeId appId db of
        None \<Rightarrow> (BadRequest ''InvalidChallenge'', db)
      | Some challenge \<Rightarrow>
          if \<not> given (ch_address challenge) \<or> \<not> given (ch_provider challenge) then (BadRequest ''InvalidChallenge'', db)
          else case getLinkedWalletForUser appId (ch_user challenge) (the (ch_provider challenge)) (the (ch_address challenge)) db of
            None \<Rightarrow> (Unauthorized ''InvalidSignature'', db)
          | Some linked \<Rightarrow>
              if \<not> verifyExternalChallengeSignature env (the (ch_address challenge)) (ch_message challenge) signature
              then (Unauthorized ''InvalidSignature'', db)
              else (case mintSession env (ch_id challenge) appId (ch_user challenge) db of
                  None \<Rightarrow> (ServerError, db)
                | Some (minted, db') \<Rightarrow> (Ok minted, db')))"

subsection \<open>Session checks of the other routes\<close>

fun splitOn :: "char \<Rightarrow> string \<Rightarrow> string list" where
  "splitOn c [] = [[]]"
| "splitOn c (x # xs) = (if x = c then [] # splitOn c xs else (case splitOn c xs of [] \<Rightarrow> [[x]] | l # ls \<Rightarrow> (x # l) # ls))"

record enforced_routes =
  er_all :: bool
  er_set :: "string list"

definition parseEnforcedRoutes :: "string option \<Rightarrow> enforced_routes" where
  "parseEnforcedRoutes csv =
     (let tokens = filter (\<lambda>t. t \<noteq> []) (map js_trim (splitOn (CHR '','') (case csv of Some s \<Rightarrow> s | None \<Rightarrow> [])));
          isAll = (\<lambda>t. t = ''*'' \<or> js_lower t = ''all'')
      in \<lparr> er_all = list_ex isAll tokens, er_set = filter (\<lambda>t. \<not> isAll t) tokens \<rparr>)"

definition isRouteEnforced :: "enforced_routes \<Rightarrow> string \<Rightarrow> bool" where
  "isRouteEnforced config routeKey \<longleftrightarrow> er_all config \<or> routeKey \<in> set (er_set config)"

datatype enforcement = Skip | DenyUnauthorized | DenyForbidden | Allow

definition sessionEnforcementDecision :: "bool \<Rightarrow> bool \<Rightarrow> string option \<Rightarrow> json \<Rightarrow> enforcement" where
  "sessionEnforcementDecision enabled hasValidSession sessionExternalUserId claimed =
     (if \<not> enabled then Skip
      else if \<not> hasValidSession then DenyUnauthorized
      else case claimed of
        JStr c \<Rightarrow> if c \<noteq> [] \<and> sessionExternalUserId \<noteq> Some c then DenyForbidden else Allow
      | _ \<Rightarrow> Allow)"

definition credentialAttachDecision :: "bool \<Rightarrow> bool \<Rightarrow> string option \<Rightarrow> string \<Rightarrow> enforcement" where
  "credentialAttachDecision userHasCredentials hasValidSession sessionExternalUserId claimed =
     (if \<not> userHasCredentials then Skip
      else if \<not> hasValidSession then DenyUnauthorized
      else if sessionExternalUserId \<noteq> Some claimed then DenyForbidden
      else Allow)"

definition extractSessionBearer :: "string option \<Rightarrow> string option" where
  "extractSessionBearer authHeader =
     (case authHeader of
        None \<Rightarrow> None
      | Some h \<Rightarrow> (case bearerText h of
          None \<Rightarrow> None
        | Some token \<Rightarrow> if starts_with SESSION_TOKEN_PREFIX token then Some token else None))"

record auth_request =
  rq_app :: "string option"
  rq_authorization :: "string option"
  rq_body :: json
  rq_query :: json
  rq_session :: "principal option"

text \<open>The session that is attached, or the reply that was sent instead.\<close>

definition attachSessionOrReply :: "hub_env \<Rightarrow> auth_request \<Rightarrow> hub_db \<Rightarrow> (string + auth_request) \<times> hub_db" where
  "attachSessionOrReply env request db =
     (case rq_app request of
        None \<Rightarrow> (Inl ''Missing app authentication'', db)
      | Some appId \<Rightarrow>
          if appId = [] then (Inl ''Missing app authentication'', db)
          else (case extractSessionBearer (rq_authorization request) of
             None \<Rightarrow> (Inl ''Missing or malformed session bearer'', db)
           | Some bearer \<Rightarrow>
               (case resolveSessionToken env bearer appId db of
                  (None, db') \<Rightarrow> (Inl ''Invalid or expired session token'', db')
                | (Some p, db') \<Rightarrow> (Inr (request \<lparr> rq_session := Some p \<rparr>), db'))))"

definition claimedExternalUserId :: "auth_request \<Rightarrow> json" where
  "claimedExternalUserId request =
     (if hasProp ''externalUserId'' (rq_body request) then getProp ''externalUserId'' (rq_body request)
      else if hasProp ''externalUserId'' (rq_query request) then getProp ''externalUserId'' (rq_query request)
      else JUndefined)"

datatype hook_result = Passes auth_request | Denied401 string | Denied403

definition enforceSessionForRoute :: "hub_env \<Rightarrow> enforced_routes \<Rightarrow> string \<Rightarrow> auth_request \<Rightarrow> hub_db \<Rightarrow> hook_result \<times> hub_db" where
  "enforceSessionForRoute env enforced routeKey request db =
     (if \<not> isRouteEnforced enforced routeKey then (Passes request, db)
      else case attachSessionOrReply env request db of
        (Inl msg, db') \<Rightarrow> (Denied401 msg, db')
      | (Inr request', db') \<Rightarrow>
          (if sessionEnforcementDecision True True (map_option pr_external (rq_session request')) (claimedExternalUserId request')
              = DenyForbidden
           then Denied403 else Passes request', db'))"

definition userHasCredentials :: "string \<Rightarrow> string \<Rightarrow> hub_db \<Rightarrow> bool" where
  "userHasCredentials appId externalUserId db \<longleftrightarrow>
     (\<exists>u\<in>set (users db). us_app u = appId \<and> us_external u = Some externalUserId \<and>
        ((\<exists>r\<in>set (resources db). rs_user r = Some (us_id u)) \<or> (\<exists>l\<in>set (linkedWallets db). lw_user l = us_id u)))"

definition requireSessionForExistingUser :: "hub_env \<Rightarrow> auth_request \<Rightarrow> hub_db \<Rightarrow> hook_result \<times> hub_db" where
  "requireSessionForExistingUser env request db =
     (case (claimedExternalUserId request, rq_app request) of
        (JStr claimed, Some appId) \<Rightarrow>
          if claimed = [] \<or> appId = [] \<or> \<not> userHasCredentials appId claimed db then (Passes request, db)
          else
            (case (case rq_session request of Some p \<Rightarrow> (Inr request, db) | None \<Rightarrow> attachSessionOrReply env request db) of
               (Inl msg, db') \<Rightarrow> (Denied401 msg, db')
             | (Inr request', db') \<Rightarrow>
                 (if credentialAttachDecision True True (map_option pr_external (rq_session request')) claimed = DenyForbidden
                  then Denied403 else Passes request', db'))
      | _ \<Rightarrow> (Passes request, db))"

text \<open>\<open>POST /auth/session/revoke\<close>, behind \<open>requireSession\<close>.\<close>

definition postRevoke :: "hub_env \<Rightarrow> auth_request \<Rightarrow> hub_db \<Rightarrow> bool reply \<times> hub_db" where
  "postRevoke env request db =
     (case attachSessionOrReply env request db of
        (Inl msg, db') \<Rightarrow> (Unauthorized msg, db')
      | (Inr request', db') \<Rightarrow> (case rq_session request' of
          None \<Rightarrow> (ServerError, db')
        | Some p \<Rightarrow> (Ok True, revokeSession (he_now env) (pr_session p) (pr_app p) db')))"

subsection \<open>Steps of the service\<close>

text \<open>Requests to the session routes in any order, and changes of the other tables by other routes.\<close>

inductive authStep :: "hub_db \<Rightarrow> hub_db \<Rightarrow> bool" where
  step_challenge: "authStep db (snd (postChallenge env appId externalUserId resourceId db))"
| step_session: "authStep db (snd (postSession env appId challengeId signature db))"
| step_externalChallenge: "authStep db (snd (postExternalChallenge env appId externalUserId provider address db))"
| step_externalSession: "authStep db (snd (postExternalSession env appId challengeId signature db))"
| step_revoke: "authStep db (snd (postRevoke env request db))"
| step_enforce: "authStep db (snd (enforceSessionForRoute env enforced routeKey request db))"
| step_attach: "authStep db (snd (requireSessionForExistingUser env request db))"
| step_appAuth: "authStep db (snd (appAuth env httpMethod url xApiKey authorization db))"
| step_other: "authStep db (db \<lparr> appKeys := ks, users := us, resources := rs, linkedWallets := ls \<rparr>)"

definition challengesGrow :: "hub_db \<Rightarrow> hub_db \<Rightarrow> bool" where
  "challengesGrow db db' \<longleftrightarrow>
     challenges db' = challenges db
     \<or> (\<exists>row. ch_id row \<notin> ch_id ` set (challenges db) \<and> challenges db' = challenges db @ [row])
     \<or> (\<exists>now cid. challenges db' = challenges (markChallengeConsumed now cid db))"

lemma grow_same: "challenges db' = challenges db \<Longrightarrow> challengesGrow db db'"
  by (simp add: challengesGrow_def)

lemma challenges_simps [simp]:
  "challenges (snd (getOrCreateUserByExternalId env appId ext db)) = challenges db"
  "challenges (markTurnkeyResourceKeyVerifiedForApp now rid appId w db) = challenges db"
  "challenges (touchSession now sid db) = challenges db"
  "challenges (revokeSession now sid appId db) = challenges db"
  "challenges (snd (verifyStoredResourceKey env resource db)) = challenges db"
  "challenges (snd (challengeLookup env appId ext rid db)) = challenges db"
  by (simp_all add: getOrCreateUserByExternalId_def markTurnkeyResourceKeyVerifiedForApp_def touchSession_def revokeSession_def
      verifyStoredResourceKey_def challengeLookup_def Let_def case_prod_beta split: option.splits prod.splits)

lemma insertChallenge_grow: "insertChallenge row db = Some db' \<Longrightarrow> challengesGrow db db'"
  by (auto simp: insertChallenge_def challengesGrow_def split: if_splits)

lemma createChallenge_grow: "createChallenge env a u e r db = Some (row, db') \<Longrightarrow> challengesGrow db db'"
  by (auto simp: createChallenge_def Let_def dest: insertChallenge_grow)

lemma createExternalChallenge_grow: "createExternalChallenge env a u e w ad db = Some (row, db') \<Longrightarrow> challengesGrow db db'"
  by (auto simp: createExternalChallenge_def Let_def dest: insertChallenge_grow)

lemma grow_trans_same: "challengesGrow db1 db2 \<Longrightarrow> challenges db1 = challenges db \<Longrightarrow> challengesGrow db db2"
  by (simp add: challengesGrow_def markChallengeConsumed_def)

lemma mint_challenges:
  "mintSession env cid appId userId db = Some (m, db') \<Longrightarrow> challenges db' = challenges (markChallengeConsumed (he_now env) cid db)"
  by (auto simp: mintSession_def mintSessionForUser_def markChallengeConsumed_def Let_def split: if_splits)

lemma mint_grow: "mintSession env cid appId userId db = Some (m, db') \<Longrightarrow> challengesGrow db db'"
  using mint_challenges by (auto simp: challengesGrow_def)

lemma resolve_challenges [simp]: "challenges (snd (resolveSessionToken env token appId db)) = challenges db"
  by (simp add: resolveSessionToken_def split: option.splits)

lemma attach_challenges [simp]: "challenges (snd (attachSessionOrReply env request db)) = challenges db"
  using resolve_challenges [of env]
  by (simp add: attachSessionOrReply_def case_prod_beta split: option.splits prod.splits)

lemma postChallenge_grow: "challengesGrow db (snd (postChallenge env appId externalUserId resourceId db))"
  by (auto simp: postChallenge_def Let_def case_prod_beta split: option.splits
      intro: grow_same dest!: createChallenge_grow elim!: grow_trans_same)

lemma postSession_grow: "challengesGrow db (snd (postSession env appId challengeId signature db))"
  by (auto simp: postSession_def split: option.splits intro: grow_same mint_grow)

lemma postExternalChallenge_grow: "challengesGrow db (snd (postExternalChallenge env appId externalUserId provider address db))"
  by (auto simp: postExternalChallenge_def Let_def case_prod_beta split: option.splits
      intro: grow_same dest!: createExternalChallenge_grow elim!: grow_trans_same)

lemma postExternalSession_grow: "challengesGrow db (snd (postExternalSession env appId challengeId signature db))"
  by (auto simp: postExternalSession_def split: option.splits intro: grow_same mint_grow)

lemma attach_snd: "attachSessionOrReply env request db = (x, db') \<Longrightarrow> challenges db' = challenges db"
  using attach_challenges [of env request db] by simp

lemma step_grow: "authStep db db' \<Longrightarrow> challengesGrow db db'"
proof (induction rule: authStep.induct)
  case (step_revoke db env request)
  show ?case
    by (rule grow_same) (auto simp: postRevoke_def split: prod.splits sum.splits option.splits dest: attach_snd)
next
  case (step_enforce db env enforced routeKey request)
  show ?case
    by (rule grow_same) (auto simp: enforceSessionForRoute_def split: prod.splits sum.splits dest: attach_snd)
next
  case (step_attach db env request)
  show ?case
    by (rule grow_same)
      (auto simp: requireSessionForExistingUser_def split: prod.splits sum.splits option.splits json.splits dest: attach_snd)
next
  case (step_appAuth db env httpMethod url xApiKey authorization)
  show ?case
    by (rule grow_same) (simp add: appAuth_def Let_def split: option.splits)
next
  case (step_other db ks us rs ls)
  show ?case by (rule grow_same) simp
qed (rule postChallenge_grow postSession_grow postExternalChallenge_grow postExternalSession_grow)+

abbreviation authSteps :: "hub_db \<Rightarrow> hub_db \<Rightarrow> bool" where
  "authSteps \<equiv> authStep\<^sup>*\<^sup>*"

definition spent :: "string \<Rightarrow> hub_db \<Rightarrow> bool" where
  "spent cid db \<longleftrightarrow> cid \<in> ch_id ` set (challenges db) \<and> (\<forall>c\<in>set (challenges db). ch_id c = cid \<longrightarrow> ch_consumed c \<noteq> None)"

lemma mark_ids: "ch_id ` set (challenges (markChallengeConsumed now cid db)) = ch_id ` set (challenges db)"
proof -
  have "map ch_id (challenges (markChallengeConsumed now cid db)) = map ch_id (challenges db)"
    by (simp add: markChallengeConsumed_def)
  then show ?thesis by (metis list.set_map)
qed

lemma mark_consumed:
  "c \<in> set (challenges (markChallengeConsumed now cid db)) \<Longrightarrow>
   ch_consumed c \<noteq> None \<or> (c \<in> set (challenges db) \<and> ch_id c \<noteq> cid)"
  by (auto simp: markChallengeConsumed_def split: if_splits)

lemma spent_mark: "cid \<in> ch_id ` set (challenges db) \<Longrightarrow> spent cid (markChallengeConsumed now cid db)"
  using mark_consumed unfolding spent_def mark_ids by blast

lemma spent_cong: "challenges db' = challenges db \<Longrightarrow> spent cid db' = spent cid db"
  by (simp add: spent_def)

lemma spent_grow:
  assumes "spent cid db" "challengesGrow db db'"
  shows "spent cid db'"
  using assms(2) unfolding challengesGrow_def
proof (elim disjE exE conjE)
  fix now c
  assume eq: "challenges db' = challenges (markChallengeConsumed now c db)"
  have "spent cid (markChallengeConsumed now c db)"
    using assms(1) mark_consumed unfolding spent_def mark_ids by blast
  then show ?thesis using spent_cong [OF eq] by simp
qed (use assms(1) in \<open>auto simp: spent_def\<close>)

lemma spent_steps: "authSteps db db' \<Longrightarrow> spent cid db \<Longrightarrow> spent cid db'"
  by (induction rule: rtranclp_induct) (auto dest: step_grow spent_grow)

lemma load_Some:
  "loadConsumableChallenge now cid appId db = Some c \<Longrightarrow>
   c \<in> set (challenges db) \<and> ch_id c = cid \<and> ch_app c = appId \<and> ch_consumed c = None \<and> now < ch_expires c"
  by (auto simp: loadConsumableChallenge_def find_Some_iff)

lemma spent_not_loaded: "spent cid db \<Longrightarrow> loadConsumableChallenge now cid appId db = None"
  by (auto simp: spent_def loadConsumableChallenge_def find_None_iff)

lemma mint_row:
  assumes "mintSession env cid appId userId db = Some (m, db')"
  shows "sessions db' = sessions db @ [\<lparr> se_id = mt_session m, se_app = appId, se_user = userId, se_hash = he_sha256 env (mt_token m),
      se_expires = mt_expires m, se_lastUsed = he_now env, se_revoked = None \<rparr>]
    \<and> he_sha256 env (mt_token m) \<notin> se_hash ` set (sessions db) \<and> mt_session m \<notin> se_id ` set (sessions db)
    \<and> mt_expires m = he_now env + SESSION_TTL_MS \<and> starts_with SESSION_TOKEN_PREFIX (mt_token m)
    \<and> users db' = users db"
  using assms
  by (auto simp: mintSession_def mintSessionForUser_def markChallengeConsumed_def Let_def starts_with_def split: if_splits)

subsection \<open>Minting\<close>

definition ownedResource :: "hub_db \<Rightarrow> challenge_row \<Rightarrow> resource_row \<Rightarrow> bool" where
  "ownedResource db c r \<longleftrightarrow> r \<in> set (resources db) \<and> ch_resource c = Some (rs_id r) \<and> rs_app r = ch_app c
     \<and> rs_user r = Some (ch_user c) \<and> rs_verifiedAt r \<noteq> None"

lemma postSession_Ok:
  assumes "postSession env appId cid sig db = (Ok m, db')"
  shows "\<exists>c r. loadConsumableChallenge (he_now env) cid appId db = Some c \<and> ownedResource db c r
    \<and> verifyChallengeSignature env (ch_payload c) sig (the (rs_publicKey r))
    \<and> mintSession env cid appId (ch_user c) db = Some (m, db')"
proof -
  obtain c where c: "loadConsumableChallenge (he_now env) cid appId db = Some c"
    using assms by (auto simp: postSession_def split: option.splits)
  obtain rid where rid: "ch_resource c = Some rid" using assms c by (auto simp: postSession_def given_def split: if_splits)
  obtain r where r: "getTurnkeyResourceByIdForApp rid appId db = Some r"
    using assms c rid by (auto simp: postSession_def split: option.splits if_splits)
  then have "r \<in> set (resources db) \<and> rs_id r = rid \<and> rs_app r = appId"
    by (auto simp: getTurnkeyResourceByIdForApp_def find_Some_iff)
  then have "ownedResource db c r"
    using assms c rid r load_Some [OF c] by (auto simp: postSession_def ownedResource_def split: if_splits)
  moreover have "verifyChallengeSignature env (ch_payload c) sig (the (rs_publicKey r))"
    "mintSession env cid appId (ch_user c) db = Some (m, db')"
    using assms c rid r load_Some [OF c] by (auto simp: postSession_def split: if_splits option.splits)
  ultimately show ?thesis using c by blast
qed

lemma postExternalSession_Ok:
  assumes "postExternalSession env appId cid sig db = (Ok m, db')"
  shows "\<exists>c l. loadConsumableChallenge (he_now env) cid appId db = Some c \<and> l \<in> set (linkedWallets db)
    \<and> lw_app l = appId \<and> lw_user l = ch_user c \<and> ch_provider c = Some (lw_provider l) \<and> ch_address c = Some (lw_address l)
    \<and> he_bip322 env (lw_address l) (ch_message c) sig = Some True
    \<and> mintSession env cid appId (ch_user c) db = Some (m, db')"
proof -
  obtain c where c: "loadConsumableChallenge (he_now env) cid appId db = Some c"
    using assms by (auto simp: postExternalSession_def split: option.splits)
  obtain a w where aw: "ch_address c = Some a" "ch_provider c = Some w"
    using assms c by (auto simp: postExternalSession_def given_def split: if_splits)
  obtain l where l: "getLinkedWalletForUser appId (ch_user c) w a db = Some l"
    using assms c aw by (auto simp: postExternalSession_def split: option.splits if_splits)
  then have "l \<in> set (linkedWallets db) \<and> lw_app l = appId \<and> lw_user l = ch_user c \<and> lw_provider l = w \<and> lw_address l = a"
    by (auto simp: getLinkedWalletForUser_def find_Some_iff)
  moreover have "he_bip322 env a (ch_message c) sig = Some True" "mintSession env cid appId (ch_user c) db = Some (m, db')"
    using assms c aw l load_Some [OF c]
    by (auto simp: postExternalSession_def verifyExternalChallengeSignature_def split: if_splits option.splits)
  ultimately show ?thesis using c aw by auto
qed

subsection \<open>Properties\<close>


text \<open>
  C33. A challenge is good for one session. Once a session was minted for a challenge, on either path, no later
  request with this challenge gets another one, whatever requests and changes of the other tables
  come between.
\<close>
theorem challenge_one_shot:
  assumes "postSession env appId cid sig db = (Ok m, db1) \<or> postExternalSession env appId cid sig db = (Ok m, db1)"
    and "authSteps db1 db2"
  shows "postSession env' appId' cid sig' db2 = (BadRequest ''InvalidChallenge'', db2)
    \<and> postExternalSession env' appId' cid sig' db2 = (BadRequest ''InvalidChallenge'', db2)"
proof -
  obtain c where c: "loadConsumableChallenge (he_now env) cid appId db = Some c"
    and m: "mintSession env cid appId (ch_user c) db = Some (m, db1)"
    using assms(1) postSession_Ok postExternalSession_Ok by metis
  have "spent cid db1"
    using spent_mark [of cid db] load_Some [OF c] spent_cong [OF mint_challenges [OF m]] by auto
  then have "spent cid db2" using assms(2) spent_steps by blast
  then show ?thesis by (simp add: postSession_def postExternalSession_def spent_not_loaded)
qed

lemma find_append: "List.find p (xs @ ys) = (case List.find p xs of Some x \<Rightarrow> Some x | None \<Rightarrow> List.find p ys)"
  by (induction xs) auto

lemma resolve_minted:
  assumes "mintSession env cid appId userId db = Some (m, db1)" "he_sha256 env' = he_sha256 env"
    and "List.find (\<lambda>u. us_id u = userId) (users db) = Some u" "us_external u = Some ext" "ext \<noteq> []"
  shows "fst (resolveSessionToken env' (mt_token m) app' db1) =
    (if app' = appId \<and> he_now env' < he_now env + SESSION_TTL_MS
     then Some \<lparr> pr_session = mt_session m, pr_app = appId, pr_user = userId, pr_external = ext \<rparr> else None)"
proof -
  note row = mint_row [OF assms(1)]
  have new: "r \<in> set (sessions db) \<Longrightarrow> se_hash r \<noteq> he_sha256 env (mt_token m)" for r
    using row by (metis image_eqI)
  then have "List.find (\<lambda>r. se_hash r = he_sha256 env (mt_token m) \<and> P r) (sessions db) = None" for P
    by (auto simp: find_None_iff)
  moreover have "\<exists>u\<in>set (users db). us_id u = userId" using assms(3) by (auto simp: find_Some_iff)
  ultimately show ?thesis
    using row assms(2-5) by (auto simp: resolveSessionToken_def find_append given_def)
qed

text \<open>
  What a token is worth. The token of a minted session resolves, in its application and for 24 hours, to the
  user it was minted for; in another application or later it resolves to nobody, and after the session
  is revoked it never does.
\<close>
theorem token_lifecycle:
  assumes "mintSession env cid appId userId db = Some (m, db1)" "he_sha256 env' = he_sha256 env"
    and "List.find (\<lambda>u. us_id u = userId) (users db) = Some u" "us_external u = Some ext" "ext \<noteq> []"
  shows "fst (resolveSessionToken env' (mt_token m) app' db1) =
      (if app' = appId \<and> he_now env' < he_now env + SESSION_TTL_MS
       then Some \<lparr> pr_session = mt_session m, pr_app = appId, pr_user = userId, pr_external = ext \<rparr> else None)
    \<and> fst (resolveSessionToken env' (mt_token m) app' (revokeSession now (mt_session m) appId db1)) = None"
proof -
  note row = mint_row [OF assms(1)]
  have new: "r \<in> set (sessions db) \<Longrightarrow> se_hash r \<noteq> he_sha256 env (mt_token m)" for r
    using row by (metis image_eqI)
  have "List.find (\<lambda>r. se_hash r = he_sha256 env (mt_token m) \<and> se_app r = app' \<and> se_revoked r = None \<and> Q r)
      (sessions (revokeSession now (mt_session m) appId db1)) = None" for Q
    using row new by (auto simp: find_None_iff revokeSession_def split: if_splits)
  then have "fst (resolveSessionToken env' (mt_token m) app' (revokeSession now (mt_session m) appId db1)) = None"
    using assms(2) by (simp add: resolveSessionToken_def)
  then show ?thesis using resolve_minted [OF assms] by simp
qed

lemma attach_Inr:
  assumes "attachSessionOrReply env request db = (Inr request', db')"
  shows "\<exists>appId token p. rq_app request = Some appId \<and> extractSessionBearer (rq_authorization request) = Some token
    \<and> fst (resolveSessionToken env token appId db) = Some p \<and> request' = request \<lparr> rq_session := Some p \<rparr>"
  using assms by (auto simp: attachSessionOrReply_def split: option.splits if_splits prod.splits)

text \<open>
  An enforced route acts for the session's user only. A request that passes the check of an enforced route
  carries a token that resolves in its application, and when it names a user, it is the token's.
\<close>
theorem enforced_route_sound:
  assumes "isRouteEnforced enforced routeKey" "enforceSessionForRoute env enforced routeKey request db = (Passes request', db')"
  shows "\<exists>appId token p. rq_app request = Some appId \<and> extractSessionBearer (rq_authorization request) = Some token
    \<and> fst (resolveSessionToken env token appId db) = Some p \<and> rq_session request' = Some p
    \<and> (\<forall>c. claimedExternalUserId request = JStr c \<longrightarrow> c = [] \<or> c = pr_external p)"
proof -
  obtain r' where r': "attachSessionOrReply env request db = (Inr r', db')" "request' = r'"
    "sessionEnforcementDecision True True (map_option pr_external (rq_session r')) (claimedExternalUserId r') \<noteq> DenyForbidden"
    using assms by (auto simp: enforceSessionForRoute_def split: prod.splits sum.splits if_splits)
  then obtain appId token p where p: "rq_app request = Some appId" "extractSessionBearer (rq_authorization request) = Some token"
    "fst (resolveSessionToken env token appId db) = Some p" "r' = request \<lparr> rq_session := Some p \<rparr>"
    using attach_Inr [OF r'(1)] by blast
  have "claimedExternalUserId r' = claimedExternalUserId request"
    using p(4) by (simp add: claimedExternalUserId_def)
  then show ?thesis
    using r' p by (auto simp: sessionEnforcementDecision_def split: if_splits)
qed

text \<open>
  Attaching a credential to an account that has one needs its session: a request that names a user with a
  Turnkey resource or a linked wallet passes only with a session of this user.
\<close>
theorem attach_needs_session:
  assumes "requireSessionForExistingUser env request db = (Passes request', db')" "rq_app request = Some appId" "appId \<noteq> []"
    and "claimedExternalUserId request = JStr claimed" "claimed \<noteq> []" "userHasCredentials appId claimed db"
  shows "\<exists>p. rq_session request' = Some p \<and> pr_external p = claimed
    \<and> (rq_session request = Some p \<or> (\<exists>token. extractSessionBearer (rq_authorization request) = Some token
        \<and> fst (resolveSessionToken env token appId db) = Some p))"
proof (cases "rq_session request")
  case (Some p)
  then show ?thesis
    using assms by (auto simp: requireSessionForExistingUser_def credentialAttachDecision_def split: if_splits)
next
  case None
  then obtain r' where "attachSessionOrReply env request db = (Inr r', db')" "request' = r'"
    "credentialAttachDecision True True (map_option pr_external (rq_session r')) claimed \<noteq> DenyForbidden"
    using assms by (auto simp: requireSessionForExistingUser_def split: prod.splits sum.splits if_splits)
  then show ?thesis
    using attach_Inr [of env request db r' db'] assms(2) by (auto simp: credentialAttachDecision_def split: if_splits)
qed

subsection \<open>Witnesses\<close>

definition sampleEnv :: hub_env where
  "sampleEnv = \<lparr> he_now = 1000, he_sha256 = (\<lambda>s. s), he_schnorr = (\<lambda>sg m k. Some True), he_tweak = Some,
     he_bip322 = (\<lambda>a m sg. Some True), he_isAddress = (\<lambda>a. True), he_isP2TR = (\<lambda>a. True),
     he_wallets = (\<lambda>g. Some []), he_accounts = (\<lambda>g w. Some []), he_parentOrg = ''hub'', he_nonce = ''n'', he_token = ''t'',
     he_userId = ''u9'', he_rowId = ''s1'' \<rparr>"

definition sampleChallenge :: challenge_row where
  "sampleChallenge = \<lparr> ch_id = ''c1'', ch_app = ''app'', ch_user = ''u1'', ch_payload = replicate 64 (CHR ''a''), ch_message = ''m'',
     ch_expires = 2000, ch_consumed = None, ch_provider = None, ch_address = None, ch_resource = Some ''r1'' \<rparr>"

definition sampleDb :: hub_db where
  "sampleDb = \<lparr> appKeys = [], users = [\<lparr> us_id = ''u1'', us_app = ''app'', us_external = Some ''alice'' \<rparr>],
     resources = [\<lparr> rs_id = ''r1'', rs_app = ''app'', rs_user = Some ''u1'', rs_organization = ''o1'', rs_address = None,
       rs_publicKey = Some (replicate 64 (CHR ''b'')), rs_verifiedAt = Some 1, rs_wallet = None \<rparr>],
     linkedWallets = [], challenges = [sampleChallenge], sessions = [] \<rparr>"

definition sampleMinted :: minted_session where
  "sampleMinted = \<lparr> mt_token = ''whs_v1_t'', mt_session = ''s1'', mt_expires = 1000 + SESSION_TTL_MS \<rparr>"

lemma sample_mint:
  "mintSession sampleEnv ''c1'' ''app'' ''u1'' sampleDb = Some (sampleMinted, snd (the (mintSession sampleEnv ''c1'' ''app'' ''u1'' sampleDb)))"
  by (simp add: mintSession_def mintSessionForUser_def sampleEnv_def sampleDb_def sampleMinted_def SESSION_TOKEN_PREFIX_def Let_def)

lemma sample_key: "toXOnlyPubkeyHex (replicate 64 (CHR ''b'')) = Some (replicate 64 (CHR ''b''))"
  by code_simp

lemma sample_strip: "strip0x (replicate n (CHR ''a'')) = replicate n (CHR ''a'')"
  by (cases n rule: nat.exhaust; simp add: strip0x_def js_lower_def lower_char_def char_code_def take_Cons')

lemma sample_post:
  "postSession sampleEnv ''app'' ''c1'' (replicate 128 (CHR ''a'')) sampleDb
     = (Ok sampleMinted, snd (the (mintSession sampleEnv ''c1'' ''app'' ''u1'' sampleDb)))"
proof -
  have "verifyChallengeSignature sampleEnv (replicate 64 (CHR ''a'')) (replicate 128 (CHR ''a'')) (replicate 64 (CHR ''b''))"
    using sample_key sample_strip
    by (simp add: verifyChallengeSignature_def Let_def verifyWith_def sampleEnv_def)
  moreover have "loadConsumableChallenge (he_now sampleEnv) ''c1'' ''app'' sampleDb = Some sampleChallenge"
    by (simp add: loadConsumableChallenge_def sampleEnv_def sampleDb_def sampleChallenge_def)
  moreover have "getTurnkeyResourceByIdForApp ''r1'' ''app'' sampleDb = Some (hd (resources sampleDb))"
    by (simp add: getTurnkeyResourceByIdForApp_def sampleDb_def)
  moreover have "rs_user (hd (resources sampleDb)) = Some ''u1''" "rs_verifiedAt (hd (resources sampleDb)) = Some 1"
    "rs_publicKey (hd (resources sampleDb)) = Some (replicate 64 (CHR ''b''))"
    by (simp_all add: sampleDb_def)
  moreover have "ch_resource sampleChallenge = Some ''r1''" "ch_user sampleChallenge = ''u1''" "ch_id sampleChallenge = ''c1''"
    "ch_payload sampleChallenge = replicate 64 (CHR ''a'')"
    by (simp_all add: sampleChallenge_def)
  moreover have "replicate 64 (CHR ''b'') \<noteq> []" by simp
  ultimately show ?thesis
    using sample_mint unfolding postSession_def given_def by (auto simp: option.case_eq_if)
qed


theorem challenge_one_shot_witness:
  "fst (postSession sampleEnv ''app'' ''c1'' [] (snd (the (mintSession sampleEnv ''c1'' ''app'' ''u1'' sampleDb))))
     = BadRequest ''InvalidChallenge''"
  using challenge_one_shot [OF disjI1 [OF sample_post] rtranclp.rtrancl_refl, of sampleEnv "''app''" "[]"] by simp

theorem token_lifecycle_witness:
  "fst (resolveSessionToken (sampleEnv \<lparr> he_now := 5000 \<rparr>) ''whs_v1_t'' ''app''
       (snd (the (mintSession sampleEnv ''c1'' ''app'' ''u1'' sampleDb))))
     = Some \<lparr> pr_session = ''s1'', pr_app = ''app'', pr_user = ''u1'', pr_external = ''alice'' \<rparr>"
  using token_lifecycle [OF sample_mint, of "sampleEnv \<lparr> he_now := 5000 \<rparr>" _ "''alice''" "''app''"]
  by (simp add: sampleDb_def sampleMinted_def sampleEnv_def SESSION_TTL_MS_def)

definition sampleSessionDb :: hub_db where
  "sampleSessionDb = sampleDb \<lparr> sessions := [\<lparr> se_id = ''s1'', se_app = ''app'', se_user = ''u1'', se_hash = ''whs_v1_t'',
     se_expires = 9000, se_lastUsed = 1000, se_revoked = None \<rparr>] \<rparr>"

definition sampleAuthRequest :: auth_request where
  "sampleAuthRequest = \<lparr> rq_app = Some ''app'', rq_authorization = Some ''Bearer whs_v1_t'',
     rq_body = JObj [(''externalUserId'', JStr ''alice'')], rq_query = JUndefined, rq_session = None \<rparr>"

definition samplePrincipal :: principal where
  "samplePrincipal = \<lparr> pr_session = ''s1'', pr_app = ''app'', pr_user = ''u1'', pr_external = ''alice'' \<rparr>"

lemma sample_bearer: "extractSessionBearer (Some ''Bearer whs_v1_t'') = Some ''whs_v1_t''"
  by code_simp

lemma sample_attach:
  "attachSessionOrReply sampleEnv sampleAuthRequest sampleSessionDb
     = (Inr (sampleAuthRequest \<lparr> rq_session := Some samplePrincipal \<rparr>), sampleSessionDb)"
  by (simp add: attachSessionOrReply_def sampleAuthRequest_def sample_bearer resolveSessionToken_def sampleSessionDb_def sampleDb_def
      sampleEnv_def samplePrincipal_def SESSION_TOKEN_PREFIX_def starts_with_def given_def SESSION_LAST_USED_DEBOUNCE_MS_def)

lemma sample_claim: "claimedExternalUserId sampleAuthRequest = JStr ''alice''"
  "claimedExternalUserId (sampleAuthRequest \<lparr> rq_session := x \<rparr>) = JStr ''alice''"
  by (simp_all add: claimedExternalUserId_def sampleAuthRequest_def)

theorem enforced_route_sound_witness:
  "\<exists>p. rq_session (sampleAuthRequest \<lparr> rq_session := Some samplePrincipal \<rparr>) = Some p \<and> pr_external p = ''alice''"
proof -
  have "enforceSessionForRoute sampleEnv (parseEnforcedRoutes (Some ''all'')) ''x'' sampleAuthRequest sampleSessionDb
      = (Passes (sampleAuthRequest \<lparr> rq_session := Some samplePrincipal \<rparr>), sampleSessionDb)"
    "isRouteEnforced (parseEnforcedRoutes (Some ''all'')) ''x''"
  proof -
    show e: "isRouteEnforced (parseEnforcedRoutes (Some ''all'')) ''x''" by code_simp
    then show "enforceSessionForRoute sampleEnv (parseEnforcedRoutes (Some ''all'')) ''x'' sampleAuthRequest sampleSessionDb
        = (Passes (sampleAuthRequest \<lparr> rq_session := Some samplePrincipal \<rparr>), sampleSessionDb)"
      by (simp add: enforceSessionForRoute_def sample_attach sessionEnforcementDecision_def sample_claim samplePrincipal_def)
  qed
  from enforced_route_sound [OF this(2,1)] show ?thesis by (auto simp: sample_claim)
qed

theorem attach_needs_session_witness:
  "\<exists>p. rq_session (sampleAuthRequest \<lparr> rq_session := Some samplePrincipal \<rparr>) = Some p \<and> pr_external p = ''alice''"
proof -
  have c: "userHasCredentials ''app'' ''alice'' sampleSessionDb"
    by (simp add: userHasCredentials_def sampleSessionDb_def sampleDb_def)
  moreover have q: "rq_app sampleAuthRequest = Some ''app''" "rq_session sampleAuthRequest = None"
    by (simp_all add: sampleAuthRequest_def)
  ultimately have "requireSessionForExistingUser sampleEnv sampleAuthRequest sampleSessionDb
      = (Passes (sampleAuthRequest \<lparr> rq_session := Some samplePrincipal \<rparr>), sampleSessionDb)"
    by (simp add: requireSessionForExistingUser_def sample_attach credentialAttachDecision_def sample_claim samplePrincipal_def)
  from attach_needs_session [OF this q(1) _ sample_claim(1) _ c] show ?thesis by auto
qed

end
