(* ===== verification/ArchTx.thy ===== *)
theory ArchTx
  imports JsValues SpendCap Hex Borsh
begin

text \<open>
  What the hub and the wallet share when they build an Arch transaction: the instructions
  (\<open>routes/signingRequests.ts\<close> of the hub, \<open>utils/hub-signing-request-verify.ts\<close> of the wallet), the
  BIP-322 digests (\<open>bitcoin/bip322.ts\<close> of the hub, \<open>utils/bip322.ts\<close> of the wallet) and the identity of an
  Arch account (\<open>arch/address.ts\<close>). The packages they call (\<open>arch-sdk\<close>, \<open>bip322-js\<close>, \<open>bitcoinjs-lib\<close>, \<open>bs58\<close>, \<open>noble\<close>)
  are the fields of \<open>arch_libs\<close>: a call that can throw gives an option. \<open>'t\<close> is the type of Bitcoin
  transactions and \<open>'m\<close> that of Arch messages; of a PSBT only the fields that the code reads are kept.
\<close>

subsection \<open>The packages\<close>

record account_meta =
  am_pubkey :: "byte list"
  am_signer :: bool
  am_writable :: bool

record arch_instruction =
  in_program :: "byte list"
  in_accounts :: "account_meta list"
  in_data :: "byte list"

record sign_input =
  si_witness :: "(byte list \<times> int) option"
  si_sighashType :: "int option"
  si_tapInternalKey :: "byte list option"

record 't sign_psbt =
  sp_inputs :: "sign_input list"
  sp_tx :: "'t option"

record ('t, 'm) arch_libs =
  al_b58decode :: "string \<Rightarrow> byte list option"
  al_b58encode :: "byte list \<Rightarrow> string"
  al_fromBech32 :: "string \<Rightarrow> (int \<times> byte list) option"
  al_toBech32 :: "byte list \<Rightarrow> int \<Rightarrow> string \<Rightarrow> string"
  al_scriptPubkey :: "string \<Rightarrow> byte list option"
  al_toSpendId :: "byte list \<Rightarrow> byte list \<Rightarrow> string"
  al_toSign :: "string \<Rightarrow> byte list \<Rightarrow> byte list option \<Rightarrow> 't sign_psbt"
  al_toBase64 :: "'t sign_psbt \<Rightarrow> string"
  al_fromBase64 :: "string \<Rightarrow> 't sign_psbt option"
  al_updateSighash :: "'t sign_psbt \<Rightarrow> int \<Rightarrow> 't sign_psbt option"
  al_verifierHash :: "'t sign_psbt \<Rightarrow> int \<Rightarrow> byte list option"
  al_extract :: "'t sign_psbt \<Rightarrow> 't option"
  al_hashV1 :: "'t \<Rightarrow> nat \<Rightarrow> byte list list \<Rightarrow> int list \<Rightarrow> int \<Rightarrow> byte list"
  al_fromHex :: "string \<Rightarrow> 't option"
  al_witness :: "'t \<Rightarrow> byte list list option"
  al_tokenProgram :: "byte list"
  al_ataProgram :: "byte list"
  al_systemProgram :: "byte list"
  al_ata :: "byte list \<Rightarrow> byte list \<Rightarrow> byte list \<Rightarrow> byte list \<Rightarrow> byte list option"
  al_transfer :: "byte list \<Rightarrow> byte list \<Rightarrow> int \<Rightarrow> arch_instruction"
  al_compile :: "arch_instruction list \<Rightarrow> byte list \<Rightarrow> byte list \<Rightarrow> string + 'm"
  al_messageHash :: "'m \<Rightarrow> byte list"
  al_accountKeys :: "'m \<Rightarrow> byte list list"
  al_requiredSignatures :: "'m \<Rightarrow> nat"
  al_messageJson :: "'m \<Rightarrow> json"
  al_adjust :: "byte list \<Rightarrow> byte list"
  al_schnorr :: "byte list \<Rightarrow> byte list \<Rightarrow> byte list \<Rightarrow> bool option"
  al_sha256 :: "byte list \<Rightarrow> byte list"
  al_liftAddX :: "int \<Rightarrow> int \<Rightarrow> int option"
  al_sha256Hex :: "string \<Rightarrow> string"

subsection \<open>Addresses\<close>

definition bech32ish :: "string \<Rightarrow> bool" where
  "bech32ish input \<longleftrightarrow> starts_with ''bc1'' input \<or> starts_with ''tb1'' input \<or> starts_with ''bcrt1'' input"

text \<open>\<open>decoded.version === 1 && decoded.data.length === 32\<close>\<close>

definition taprootProgram :: "('t, 'm) arch_libs \<Rightarrow> string \<Rightarrow> byte list option" where
  "taprootProgram L address =
     (case al_fromBech32 L address of
        None \<Rightarrow> None
      | Some (version, data) \<Rightarrow> if version \<noteq> 1 \<or> length data \<noteq> 32 then None else Some data)"

datatype resolved_account =
    ArchAccount string
  | TaprootAccount string string string

definition resolveArchAccountAddress :: "('t, 'm) arch_libs \<Rightarrow> string \<Rightarrow> resolved_account option" where
  "resolveArchAccountAddress L input =
     (if \<not> bech32ish input then Some (ArchAccount input)
      else map_option (\<lambda>key. TaprootAccount input (al_b58encode L key) (bytesToHex key)) (taprootProgram L input))"

definition archAccountFromInternalKey :: "('t, 'm) arch_libs \<Rightarrow> string \<Rightarrow> string + string \<times> string" where
  "archAccountFromInternalKey L publicKeyHex =
     (if length publicKeyHex \<noteq> 66 \<and> length publicKeyHex \<noteq> 64
      then Inl (''Invalid public key hex length: '' @ show_nat (length publicKeyHex) @ '' (expected 64 or 66)'')
      else
        let xOnlyHex = (if length publicKeyHex = 66 then drop 2 publicKeyHex else publicKeyHex);
            buf = bufferFromHex xOnlyHex
        in if length buf \<noteq> 32 then Inl ''Invalid public key: must be 32 bytes''
           else Inr (xOnlyHex, al_b58encode L buf))"

definition utf8 :: "string \<Rightarrow> byte list" where
  "utf8 s = map (\<lambda>c. word_of_nat (char_code c)) s"

definition taggedHash :: "('t, 'm) arch_libs \<Rightarrow> string \<Rightarrow> byte list \<Rightarrow> byte list" where
  "taggedHash L tag data = (let tagHash = al_sha256 L (utf8 tag) in al_sha256 L (tagHash @ tagHash @ data))"

definition hexInt :: "byte list \<Rightarrow> int" where
  "hexInt bytes = int (digits_value 16 (bytesToHex bytes))"

text \<open>\<open>al_liftAddX p k\<close>: the x coordinate of \<open>lift_x(p) + k G\<close>; none when either is no point.\<close>

definition bip341TweakedOutputKeyHex :: "('t, 'm) arch_libs \<Rightarrow> string \<Rightarrow> string + string" where
  "bip341TweakedOutputKeyHex L internalXOnlyHex =
     (let internal = bufferFromHex internalXOnlyHex
      in if length internal \<noteq> 32 then Inl ''Internal key must be 32 bytes (x-only)''
         else let tweak = taggedHash L ''TapTweak'' internal
              in case al_liftAddX L (hexInt internal) (hexInt tweak) of
                   None \<Rightarrow> Inl ''Public key is not a valid x-only point''
                 | Some x \<Rightarrow> Inr (padStart 64 (CHR ''0'') (show_hex (nat x))))"

definition archAccountFromWalletPublicKey :: "('t, 'm) arch_libs \<Rightarrow> string \<Rightarrow> string \<Rightarrow> string + string \<times> string" where
  "archAccountFromWalletPublicKey L publicKeyHex taprootAddress =
     rbind (archAccountFromInternalKey L publicKeyHex) (\<lambda>internal.
       case al_fromBech32 L taprootAddress of
         None \<Rightarrow> Inl ''Address is not a valid bech32m address''
       | Some (version, data) \<Rightarrow>
           if version \<noteq> 1 \<or> length data \<noteq> 32 then Inl ''Address is not a taproot (p2tr) bech32m address''
           else rbind (bip341TweakedOutputKeyHex L (fst internal)) (\<lambda>tweakedHex.
             if tweakedHex \<noteq> bytesToHex data
             then Inl ''Public key does not correspond to the taproot address (BIP-341 tweak mismatch)''
             else Inr internal))"

text \<open>Throws (\<open>None\<close>) when the address has the right prefix and does not decode.\<close>

definition reEncodeTaprootForNetwork :: "('t, 'm) arch_libs \<Rightarrow> string \<Rightarrow> bool \<Rightarrow> string option" where
  "reEncodeTaprootForNetwork L address toMainnet =
     (let isTestnet = starts_with ''tb1p'' address; isMainnet = starts_with ''bc1p'' address
      in if \<not> isTestnet \<and> \<not> isMainnet then Some address
         else if toMainnet \<and> isMainnet then Some address
         else if \<not> toMainnet \<and> isTestnet then Some address
         else (case al_fromBech32 L address of
                 None \<Rightarrow> None
               | Some (version, data) \<Rightarrow>
                   if version \<noteq> 1 \<or> length data \<noteq> 32 then Some address
                   else Some (al_toBech32 L data version (if toMainnet then ''bc'' else ''tb''))))"

text \<open>\<open>new Uint8Array(bs58.decode(s))\<close>\<close>

definition parsePubkey :: "('t, 'm) arch_libs \<Rightarrow> string \<Rightarrow> byte list option" where
  "parsePubkey L pubkeyBase58 = al_b58decode L pubkeyBase58"

subsection \<open>Digests on the hub\<close>

definition looksLikeBase64 :: "string \<Rightarrow> bool" where
  "looksLikeBase64 s \<longleftrightarrow> s \<noteq> [] \<and>
     list_all (\<lambda>c. let n = char_code c in (65 \<le> n \<and> n \<le> 90) \<or> (97 \<le> n \<and> n \<le> 122) \<or> (48 \<le> n \<and> n \<le> 57)
       \<or> c = CHR ''+'' \<or> c = CHR ''/'' \<or> c = CHR ''='') s \<and> length s mod 4 = 0"

definition buildBip322ToSignPsbtBase64 :: "('t, 'm) arch_libs \<Rightarrow> string \<Rightarrow> byte list \<Rightarrow> byte list option \<Rightarrow> string option" where
  "buildBip322ToSignPsbtBase64 L signerAddress message tapInternalKey =
     map_option (\<lambda>scriptPubKey.
         al_toBase64 L (al_toSign L (al_toSpendId L message scriptPubKey) scriptPubKey tapInternalKey))
       (al_scriptPubkey L signerAddress)"

definition inputAt0 :: "'t sign_psbt \<Rightarrow> sign_input option" where
  "inputAt0 psbt = at_opt (sp_inputs psbt) 0"

text \<open>
  The sighash type is set to 0 when there is one that is not 0 or none at all; a failure is ignored.
\<close>

definition forceDefaultSighash :: "('t, 'm) arch_libs \<Rightarrow> 't sign_psbt \<Rightarrow> 't sign_psbt" where
  "forceDefaultSighash L psbt =
     (case Option.bind (inputAt0 psbt) si_sighashType of
        Some t \<Rightarrow> if t \<noteq> 0 then (case al_updateSighash L psbt 0 of Some p \<Rightarrow> p | None \<Rightarrow> psbt) else psbt
      | None \<Rightarrow> (case al_updateSighash L psbt 0 of Some p \<Rightarrow> p | None \<Rightarrow> psbt))"

definition manualDigest :: "('t, 'm) arch_libs \<Rightarrow> 't sign_psbt \<Rightarrow> byte list option" where
  "manualDigest L psbt =
     (case Option.bind (inputAt0 psbt) si_witness of
        None \<Rightarrow> None
      | Some (script, v) \<Rightarrow>
          map_option (\<lambda>tx. al_hashV1 L tx 0 [script] [0] 0)
            (case al_extract L psbt of Some tx \<Rightarrow> Some tx | None \<Rightarrow> sp_tx psbt))"

definition hubToSignSighash :: "('t, 'm) arch_libs \<Rightarrow> string \<Rightarrow> byte list \<Rightarrow> byte list option" where
  "hubToSignSighash L signerAddress message =
     (case al_scriptPubkey L signerAddress of
        None \<Rightarrow> None
      | Some scriptPubKey \<Rightarrow>
          (case taprootProgram L signerAddress of
             None \<Rightarrow> None
           | Some xOnlyPubkey \<Rightarrow>
               (case Option.bind (buildBip322ToSignPsbtBase64 L signerAddress message (Some xOnlyPubkey)) (al_fromBase64 L) of
                  None \<Rightarrow> None
                | Some psbt \<Rightarrow>
                    if Option.bind (inputAt0 psbt) si_tapInternalKey \<noteq> Some xOnlyPubkey then None
                    else
                      let psbt' = forceDefaultSighash L psbt
                      in case al_verifierHash L psbt' 0 of
                           Some digest \<Rightarrow> Some digest
                         | None \<Rightarrow> manualDigest L psbt')))"

definition extractBip322TaprootSignature64 :: "('t, 'm) arch_libs \<Rightarrow> string \<Rightarrow> byte list option" where
  "extractBip322TaprootSignature64 L signedTransaction =
     (case (if looksLikeBase64 signedTransaction then Option.bind (al_fromBase64 L signedTransaction) (al_extract L)
            else al_fromHex L signedTransaction) of
        None \<Rightarrow> None
      | Some tx \<Rightarrow> (case al_witness L tx of
          None \<Rightarrow> None
        | Some [] \<Rightarrow> None
        | Some (w # ws) \<Rightarrow> if length w < 64 then None else Some (take 64 w)))"

subsection \<open>Digests in the wallet\<close>

text \<open>\<open>parseInt(pair, 16)\<close> stored in a byte: leading blanks and a sign are read, NaN is stored as 0.\<close>

definition hexOr0 :: "char \<Rightarrow> nat" where
  "hexOr0 c = (case hex_value (lower_char c) of Some n \<Rightarrow> n | None \<Rightarrow> 0)"

definition parseIntByte :: "char \<Rightarrow> char \<Rightarrow> byte" where
  "parseIntByte a b =
     (if is_js_space a \<or> a = CHR ''+'' then word_of_nat (hexOr0 b)
      else if a = CHR ''-'' then - word_of_nat (hexOr0 b)
      else case hex_value (lower_char a) of
        None \<Rightarrow> 0
      | Some m \<Rightarrow> (case hex_value (lower_char b) of Some n \<Rightarrow> word_of_nat (16 * m + n) | None \<Rightarrow> word_of_nat m))"

fun parseBytePairs :: "string \<Rightarrow> byte list" where
  "parseBytePairs (a # b # s) = parseIntByte a b # parseBytePairs s"
| "parseBytePairs s = []"

definition walletHexToBytes :: "string \<Rightarrow> byte list option" where
  "walletHexToBytes hex =
     (let clean = (if starts_with ''0x'' hex \<or> starts_with ''0X'' hex then drop 2 hex else hex)
      in if odd (length clean) then None else Some (parseBytePairs clean))"

definition walletToSignSighash :: "('t, 'm) arch_libs \<Rightarrow> string \<Rightarrow> byte list \<Rightarrow> int \<Rightarrow> byte list option" where
  "walletToSignSighash L signerAddress message sighashType =
     (case al_scriptPubkey L signerAddress of
        None \<Rightarrow> None
      | Some scriptPubKey \<Rightarrow>
          (case taprootProgram L signerAddress of
             None \<Rightarrow> None
           | Some tapInternalKey \<Rightarrow>
               let toSign = al_toSign L (al_toSpendId L message scriptPubKey) scriptPubKey (Some tapInternalKey)
               in case Option.bind (inputAt0 toSign) si_witness of
                    None \<Rightarrow> None
                  | Some (script, v) \<Rightarrow> map_option (\<lambda>tx. al_hashV1 L tx 0 [script] [0] sighashType) (sp_tx toSign)))"

subsection \<open>Instructions\<close>

definition APL_TOKEN_PROGRAM_ID :: "byte list" where
  "APL_TOKEN_PROGRAM_ID = bufferFromHex ''06ddf6e1b9ea84412c10b8df021c100fc8871907c309c33535de209c341763bf''"

definition APL_ASSOCIATED_TOKEN_PROGRAM_ID :: "byte list" where
  "APL_ASSOCIATED_TOKEN_PROGRAM_ID = bufferFromHex ''8c97231184927b77b5f180118fcc683414b77c521e5a77081cf71d5f606a5384''"

definition getAplAssociatedTokenAddress :: "('t, 'm) arch_libs \<Rightarrow> byte list \<Rightarrow> byte list \<Rightarrow> byte list option" where
  "getAplAssociatedTokenAddress L mint owner =
     al_ata L mint owner APL_TOKEN_PROGRAM_ID APL_ASSOCIATED_TOKEN_PROGRAM_ID"

definition buildCreateAssociatedTokenAccountInstruction ::
    "('t, 'm) arch_libs \<Rightarrow> byte list \<Rightarrow> byte list \<Rightarrow> byte list \<Rightarrow> byte list \<Rightarrow> bool \<Rightarrow> arch_instruction" where
  "buildCreateAssociatedTokenAccountInstruction L payer ata owner mint idempotent =
     \<lparr> in_program = APL_ASSOCIATED_TOKEN_PROGRAM_ID,
       in_accounts = [
         \<lparr> am_pubkey = payer, am_signer = True, am_writable = True \<rparr>,
         \<lparr> am_pubkey = ata, am_signer = False, am_writable = True \<rparr>,
         \<lparr> am_pubkey = owner, am_signer = False, am_writable = False \<rparr>,
         \<lparr> am_pubkey = mint, am_signer = False, am_writable = False \<rparr>,
         \<lparr> am_pubkey = al_systemProgram L, am_signer = False, am_writable = False \<rparr>,
         \<lparr> am_pubkey = APL_TOKEN_PROGRAM_ID, am_signer = False, am_writable = False \<rparr>],
       in_data = (if idempotent then [1] else []) \<rparr>"

text \<open>\<open>setBigUint64(1, amount, true)\<close> on nine bytes whose first is 3.\<close>

definition buildTokenTransferInstruction :: "byte list \<Rightarrow> byte list \<Rightarrow> byte list \<Rightarrow> int \<Rightarrow> arch_instruction" where
  "buildTokenTransferInstruction sourceAta destAta owner amount =
     \<lparr> in_program = APL_TOKEN_PROGRAM_ID,
       in_accounts = [
         \<lparr> am_pubkey = sourceAta, am_signer = False, am_writable = True \<rparr>,
         \<lparr> am_pubkey = destAta, am_signer = False, am_writable = True \<rparr>,
         \<lparr> am_pubkey = owner, am_signer = True, am_writable = False \<rparr>],
       in_data = 3 # pushBytes 8 amount \<rparr>"

definition associatedTokenAddress :: "('t, 'm) arch_libs \<Rightarrow> byte list \<Rightarrow> byte list \<Rightarrow> byte list option" where
  "associatedTokenAddress L mint owner = al_ata L mint owner (al_tokenProgram L) (al_ataProgram L)"

definition createAssociatedTokenAccountInstruction ::
    "('t, 'm) arch_libs \<Rightarrow> byte list \<Rightarrow> byte list \<Rightarrow> byte list \<Rightarrow> byte list \<Rightarrow> bool \<Rightarrow> arch_instruction" where
  "createAssociatedTokenAccountInstruction L payer ata owner mint idempotent =
     \<lparr> in_program = al_ataProgram L,
       in_accounts = [
         \<lparr> am_pubkey = payer, am_signer = True, am_writable = True \<rparr>,
         \<lparr> am_pubkey = ata, am_signer = False, am_writable = True \<rparr>,
         \<lparr> am_pubkey = owner, am_signer = False, am_writable = False \<rparr>,
         \<lparr> am_pubkey = mint, am_signer = False, am_writable = False \<rparr>,
         \<lparr> am_pubkey = al_systemProgram L, am_signer = False, am_writable = False \<rparr>,
         \<lparr> am_pubkey = al_tokenProgram L, am_signer = False, am_writable = False \<rparr>],
       in_data = (if idempotent then [1] else []) \<rparr>"

definition tokenTransferInstruction :: "('t, 'm) arch_libs \<Rightarrow> byte list \<Rightarrow> byte list \<Rightarrow> byte list \<Rightarrow> int \<Rightarrow> arch_instruction" where
  "tokenTransferInstruction L sourceAta destAta owner amount =
     \<lparr> in_program = al_tokenProgram L,
       in_accounts = [
         \<lparr> am_pubkey = sourceAta, am_signer = False, am_writable = True \<rparr>,
         \<lparr> am_pubkey = destAta, am_signer = False, am_writable = True \<rparr>,
         \<lparr> am_pubkey = owner, am_signer = True, am_writable = False \<rparr>],
       in_data = 3 # pushBytes 8 amount \<rparr>"

text \<open>Hub: \<open>[create?, transfer]\<close> of a token transfer.\<close>

definition hubTokenInstructions ::
    "('t, 'm) arch_libs \<Rightarrow> byte list \<Rightarrow> byte list \<Rightarrow> byte list \<Rightarrow> byte list \<Rightarrow> byte list \<Rightarrow> int \<Rightarrow> bool \<Rightarrow> bool \<Rightarrow>
     arch_instruction list" where
  "hubTokenInstructions L payer to mint sourceAta destAta amount createDestAta idempotent =
     (if createDestAta then [buildCreateAssociatedTokenAccountInstruction L payer destAta to mint idempotent] else [])
       @ [buildTokenTransferInstruction sourceAta destAta payer amount]"

definition tokenTransferInstructions ::
    "('t, 'm) arch_libs \<Rightarrow> byte list \<Rightarrow> byte list \<Rightarrow> byte list \<Rightarrow> byte list \<Rightarrow> byte list \<Rightarrow> int \<Rightarrow> bool \<Rightarrow> bool \<Rightarrow>
     arch_instruction list" where
  "tokenTransferInstructions L payer to mint sourceAta destAta amount createDestAta idempotent =
     (if createDestAta then [createAssociatedTokenAccountInstruction L payer destAta to mint idempotent] else [])
       @ [tokenTransferInstruction L sourceAta destAta payer amount]"

subsection \<open>What the packages promise\<close>

text \<open>
  Base58 text is decoded to the bytes it encodes; an associated account is a 32-byte key; a Taproot
  address has the script \<open>OP_1\<close> and its 32-byte program; the \<open>to_sign\<close> PSBT has one input, its prevout is the
  signer's script with no value, and the key it carries is no part of its transaction; a PSBT is read
  back from its text; changing the sighash type leaves the rest; the digest of the verifier is that of
  the extracted transaction, whose signatures are no part of the digest; a digest has 32 bytes.
\<close>

definition lawfulBase58 :: "('t, 'm) arch_libs \<Rightarrow> bool" where
  "lawfulBase58 L \<longleftrightarrow> (\<forall>b. al_b58decode L (al_b58encode L b) = Some b) \<and> al_b58decode L [] = Some []
     \<and> (\<forall>s. al_b58decode L s = Some [] \<longrightarrow> s = [])
     \<and> (\<forall>m w p q a. al_ata L m w p q = Some a \<longrightarrow> length a = 32)"

definition lawfulToSign :: "('t, 'm) arch_libs \<Rightarrow> bool" where
  "lawfulToSign L \<longleftrightarrow>
     (\<forall>a key. taprootProgram L a = Some key \<longrightarrow> al_scriptPubkey L a = Some (0x51 # 0x20 # key))
     \<and> (\<forall>i script key. \<exists>ty tx. al_toSign L i script key
           = \<lparr> sp_inputs = [\<lparr> si_witness = Some (script, 0), si_sighashType = ty, si_tapInternalKey = key \<rparr>], sp_tx = Some tx \<rparr>
         \<and> ty \<in> {None, Some 0, Some 1} \<and> (\<forall>key'. sp_tx (al_toSign L i script key') = Some tx))
     \<and> (\<forall>i script key. al_fromBase64 L (al_toBase64 L (al_toSign L i script key)) = Some (al_toSign L i script key))"

definition lawfulDigest :: "('t, 'm) arch_libs \<Rightarrow> bool" where
  "lawfulDigest L \<longleftrightarrow>
     (\<forall>p t p'. al_updateSighash L p t = Some p' \<longrightarrow> sp_tx p' = sp_tx p
         \<and> map si_witness (sp_inputs p') = map si_witness (sp_inputs p))
     \<and> (\<forall>p t h. al_verifierHash L p t = Some h \<longrightarrow>
         (\<exists>tx script v. al_extract L p = Some tx \<and> Option.bind (inputAt0 p) si_witness = Some (script, v)
            \<and> h = al_hashV1 L tx 0 [script] [0] t))
     \<and> (\<forall>p tx. al_extract L p = Some tx \<longrightarrow> (\<exists>u. sp_tx p = Some u \<and> (\<forall>scripts vs t. al_hashV1 L tx 0 scripts vs t = al_hashV1 L u 0 scripts vs t)))
     \<and> (\<forall>tx i scripts vs t. length (al_hashV1 L tx i scripts vs t) = 32)"

lemma toSign_shape:
  assumes "lawfulToSign L"
  obtains ty tx where "al_toSign L i script key
      = \<lparr> sp_inputs = [\<lparr> si_witness = Some (script, 0), si_sighashType = ty, si_tapInternalKey = key \<rparr>], sp_tx = Some tx \<rparr>"
    "ty \<in> {None, Some 0, Some 1}" "\<And>key'. sp_tx (al_toSign L i script key') = Some tx"
  using assms unfolding lawfulToSign_def by meson

lemma forceDefault_kept:
  assumes "lawfulDigest L"
  shows "sp_tx (forceDefaultSighash L p) = sp_tx p"
    "Option.bind (inputAt0 (forceDefaultSighash L p)) si_witness = Option.bind (inputAt0 p) si_witness"
proof -
  have upd: "sp_tx p' = sp_tx p \<and> Option.bind (inputAt0 p') si_witness = Option.bind (inputAt0 p) si_witness"
    if "al_updateSighash L p t = Some p'" for p' t
  proof -
    have m: "map si_witness (sp_inputs p') = map si_witness (sp_inputs p)" "sp_tx p' = sp_tx p"
      using that assms unfolding lawfulDigest_def by blast+
    then have "length (sp_inputs p') = length (sp_inputs p)" by (metis length_map)
    then show ?thesis using m nth_map [of 0 "sp_inputs p" si_witness] nth_map [of 0 "sp_inputs p'" si_witness]
      by (auto simp: inputAt0_def at_opt_def)
  qed
  show "sp_tx (forceDefaultSighash L p) = sp_tx p"
    "Option.bind (inputAt0 (forceDefaultSighash L p)) si_witness = Option.bind (inputAt0 p) si_witness"
    using upd by (auto simp: forceDefaultSighash_def split: option.splits)
qed

text \<open>Whichever way the hub's digest is found, it is the default digest of the unsigned transaction.\<close>

lemma hubDigest_cases:
  assumes "lawfulDigest L" "sp_tx p = Some tx" "Option.bind (inputAt0 p) si_witness = Some (script, v)"
  shows "(case al_verifierHash L p 0 of Some d \<Rightarrow> Some d | None \<Rightarrow> manualDigest L p) = Some (al_hashV1 L tx 0 [script] [0] 0)"
proof -
  have ext: "al_hashV1 L x 0 [script] [0] 0 = al_hashV1 L tx 0 [script] [0] 0" if "al_extract L p = Some x" for x
    using assms(1,2) that unfolding lawfulDigest_def by (metis option.inject)
  show ?thesis
  proof (cases "al_verifierHash L p 0")
    case None
    then show ?thesis using assms(2,3) ext by (auto simp: manualDigest_def split: option.splits)
  next
    case (Some d)
    then obtain x s w where "al_extract L p = Some x" "Option.bind (inputAt0 p) si_witness = Some (s, w)"
        "d = al_hashV1 L x 0 [s] [0] 0"
      using assms(1) unfolding lawfulDigest_def by blast
    then show ?thesis using Some assms(3) ext by simp
  qed
qed

lemma hubSighash_tx:
  assumes "lawfulToSign L" "lawfulDigest L" "taprootProgram L a = Some key"
  shows "hubToSignSighash L a m = Some (al_hashV1 L (the (sp_tx (al_toSign L (al_toSpendId L m (0x51 # 0x20 # key)) (0x51 # 0x20 # key) k)))
      0 [0x51 # 0x20 # key] [0] 0)"
proof -
  let ?script = "0x51 # 0x20 # key" let ?id = "al_toSpendId L m ?script"
  have sp: "al_scriptPubkey L a = Some ?script" using assms(1,3) unfolding lawfulToSign_def by blast
  obtain ty tx where t: "al_toSign L ?id ?script (Some key)
      = \<lparr> sp_inputs = [\<lparr> si_witness = Some (?script, 0), si_sighashType = ty, si_tapInternalKey = Some key \<rparr>], sp_tx = Some tx \<rparr>"
    and k: "\<And>k. sp_tx (al_toSign L ?id ?script k) = Some tx"
    by (rule toSign_shape [OF assms(1), of ?id ?script "Some key"]) blast
  have read: "al_fromBase64 L (al_toBase64 L (al_toSign L ?id ?script (Some key))) = Some (al_toSign L ?id ?script (Some key))"
    using assms(1) unfolding lawfulToSign_def by blast
  let ?p = "al_toSign L ?id ?script (Some key)"
  have "sp_tx (forceDefaultSighash L ?p) = Some tx" "Option.bind (inputAt0 (forceDefaultSighash L ?p)) si_witness = Some (?script, 0)"
    unfolding forceDefault_kept [OF assms(2)] by (simp_all add: t inputAt0_def)
  then have "(case al_verifierHash L (forceDefaultSighash L ?p) 0 of Some d \<Rightarrow> Some d | None \<Rightarrow> manualDigest L (forceDefaultSighash L ?p))
      = Some (al_hashV1 L tx 0 [?script] [0] 0)"
    by (rule hubDigest_cases [OF assms(2)])
  moreover have "Option.bind (inputAt0 ?p) si_tapInternalKey = Some key" by (simp add: t inputAt0_def)
  ultimately show ?thesis
    unfolding hubToSignSighash_def sp assms(3) buildBip322ToSignPsbtBase64_def
    by (simp add: read k Let_def)
qed

lemma hubSighash_program: "hubToSignSighash L a m = Some d \<Longrightarrow> \<exists>key. taprootProgram L a = Some key"
  by (auto simp: hubToSignSighash_def split: option.splits)

lemma hubSighash_length:
  assumes "lawfulToSign L" "lawfulDigest L" "hubToSignSighash L a m = Some d"
  shows "length d = 32"
proof -
  obtain key where "taprootProgram L a = Some key" using hubSighash_program [OF assms(3)] by blast
  from hubSighash_tx [OF assms(1,2) this, of m None] assms(2,3) show ?thesis by (simp add: lawfulDigest_def)
qed

text \<open>
  The digest that the hub asks to sign is the one the wallet computes for the same address and message.
\<close>

theorem digests_agree:
  assumes "lawfulToSign L" "lawfulDigest L"
  shows "walletToSignSighash L address message 0 = hubToSignSighash L address message"
proof (cases "taprootProgram L address")
  case None
  then show ?thesis by (simp add: walletToSignSighash_def hubToSignSighash_def split: option.splits)
next
  case (Some key)
  let ?script = "0x51 # 0x20 # key" let ?id = "al_toSpendId L message ?script"
  have sp: "al_scriptPubkey L address = Some ?script" using assms(1) Some unfolding lawfulToSign_def by blast
  obtain ty tx where t: "al_toSign L ?id ?script (Some key)
      = \<lparr> sp_inputs = [\<lparr> si_witness = Some (?script, 0), si_sighashType = ty, si_tapInternalKey = Some key \<rparr>], sp_tx = Some tx \<rparr>"
    by (rule toSign_shape [OF assms(1), of ?id ?script "Some key"]) blast
  show ?thesis
    unfolding walletToSignSighash_def hubSighash_tx [OF assms Some, of message "Some key"] sp Some
    using t by (simp add: inputAt0_def Let_def)
qed

subsection \<open>Packages that can be computed\<close>

lemma hex_value_lower: "hex_value c = Some n \<Longrightarrow> hex_value (lower_char c) = Some n"
  using hex_char_not_upper by simp

lemma bufferFromHex_byte: "b < 256 \<Longrightarrow> bufferFromHex (hex_byte b @ s) = word_of_nat b # bufferFromHex s"
  by (simp add: hex_byte_def hex_value_lower)

lemma bufferFromHex_bytesToHex [simp]: "bufferFromHex (bytesToHex bs) = bs"
  by (induction bs) (simp_all add: bytesToHex_def bufferFromHex_byte)

text \<open>
  A concrete instance: keys are hexadecimal text, a transaction is the identifier it spends, a message is
  what it was compiled from, and a signature is the digest followed by the key.
\<close>

definition untilG :: "string \<Rightarrow> string" where
  "untilG s = takeWhile (\<lambda>c. c \<noteq> CHR ''g'') s"

definition afterG :: "string \<Rightarrow> string" where
  "afterG s = drop 1 (dropWhile (\<lambda>c. c \<noteq> CHR ''g'') s)"

definition samplePsbt :: "string \<Rightarrow> byte list \<Rightarrow> byte list option \<Rightarrow> string sign_psbt" where
  "samplePsbt i script key =
     \<lparr> sp_inputs = [\<lparr> si_witness = Some (script, 0), si_sighashType = None, si_tapInternalKey = key \<rparr>], sp_tx = Some i \<rparr>"

definition samplePsbtText :: "string sign_psbt \<Rightarrow> string" where
  "samplePsbtText p =
     (case sp_inputs p of
        [input] \<Rightarrow> bytesToHex (fst (the (si_witness input))) @ ''g'' @
          (case si_tapInternalKey input of None \<Rightarrow> ''n'' | Some k \<Rightarrow> bytesToHex k) @ ''g'' @ the (sp_tx p)
      | _ \<Rightarrow> [])"

definition samplePsbtRead :: "string \<Rightarrow> string sign_psbt option" where
  "samplePsbtRead s =
     (let r = afterG s; k = untilG r
      in Some (samplePsbt (afterG r) (bufferFromHex (untilG s)) (if k = ''n'' then None else Some (bufferFromHex k))))"

type_synonym sample_message = "arch_instruction list \<times> byte list \<times> byte list"

definition sampleLibs :: "(string, sample_message) arch_libs" where
  "sampleLibs =
     \<lparr> al_b58decode = (\<lambda>s. if s = [] then Some [] else case hexToBytes s of Inr b \<Rightarrow> Some b | Inl e \<Rightarrow> None),
       al_b58encode = bytesToHex,
       al_fromBech32 = (\<lambda>s. if starts_with ''tb1p'' s then Some (1, bufferFromHex (drop 4 s)) else None),
       al_toBech32 = (\<lambda>data version prefix. prefix @ ''1p'' @ bytesToHex data),
       al_scriptPubkey = (\<lambda>s. if starts_with ''tb1p'' s then Some (0x51 # 0x20 # bufferFromHex (drop 4 s)) else None),
       al_toSpendId = (\<lambda>m script. bytesToHex m),
       al_toSign = samplePsbt,
       al_toBase64 = samplePsbtText,
       al_fromBase64 = samplePsbtRead,
       al_updateSighash = (\<lambda>p t. None),
       al_verifierHash = (\<lambda>p t. None),
       al_extract = (\<lambda>p. None),
       al_hashV1 = (\<lambda>tx i scripts vs t. take 32 (bufferFromHex tx @ replicate 32 0)),
       al_fromHex = (\<lambda>s. None),
       al_witness = (\<lambda>tx. None),
       al_tokenProgram = APL_TOKEN_PROGRAM_ID,
       al_ataProgram = APL_ASSOCIATED_TOKEN_PROGRAM_ID,
       al_systemProgram = replicate 32 0,
       al_ata = (\<lambda>mint owner p q. Some (take 32 (mint @ owner @ replicate 32 0))),
       al_transfer = (\<lambda>payer to n. \<lparr> in_program = replicate 32 0,
          in_accounts = [\<lparr> am_pubkey = payer, am_signer = True, am_writable = True \<rparr>,
            \<lparr> am_pubkey = to, am_signer = False, am_writable = True \<rparr>], in_data = 2 # pushBytes 8 n \<rparr>),
       al_compile = (\<lambda>instructions payer blockhash. Inr (instructions, payer, blockhash)),
       al_messageHash = (\<lambda>(instructions, payer, blockhash). concat (map in_data instructions)),
       al_accountKeys = (\<lambda>(instructions, payer, blockhash). [payer]),
       al_requiredSignatures = (\<lambda>m. 1),
       al_messageJson = (\<lambda>m. JNull),
       al_adjust = (\<lambda>sig. sig),
       al_schnorr = (\<lambda>sig digest key. Some (sig = digest @ key)),
       al_sha256 = (\<lambda>b. b),
       al_liftAddX = (\<lambda>p k. None),
       al_sha256Hex = (\<lambda>s. s) \<rparr>"

lemma hex_no_g: "CHR ''g'' \<notin> set (bytesToHex bs)" "CHR ''n'' \<notin> set (bytesToHex bs)"
proof -
  have "set (bytesToHex bs) \<subseteq> set HEX_DIGITS"
    using lower_hex_bytesToHex [of bs]
    by (cases "bs = []") (auto simp: bytesToHex_def lower_hex_string_def list_all_iff hex_value_def index_of_None_iff)
  then show "CHR ''g'' \<notin> set (bytesToHex bs)" "CHR ''n'' \<notin> set (bytesToHex bs)"
    by (auto simp: HEX_DIGITS_def)
qed

lemma untilG_append: "CHR ''g'' \<notin> set x \<Longrightarrow> untilG (x @ CHR ''g'' # y) = x \<and> afterG (x @ CHR ''g'' # y) = y"
  by (induction x) (auto simp: untilG_def afterG_def)

lemma samplePsbt_read: "samplePsbtRead (samplePsbtText (samplePsbt i script key)) = Some (samplePsbt i script key)"
proof (cases key)
  case None
  then show ?thesis
    by (simp add: samplePsbtRead_def samplePsbtText_def samplePsbt_def untilG_append hex_no_g untilG_append [of "''n''", simplified] Let_def)
next
  case (Some k)
  have "bytesToHex k \<noteq> ''n''" using hex_no_g(2) [of k] by auto
  then show ?thesis
    using Some by (simp add: samplePsbtRead_def samplePsbtText_def samplePsbt_def untilG_append hex_no_g Let_def)
qed

lemma bytesToHex_nil: "bytesToHex b = [] \<longleftrightarrow> b = []"
  using length_bytesToHex [of b] by auto

lemma sample_base58: "lawfulBase58 sampleLibs"
proof -
  have "hexToBytes s \<noteq> Inr []" for s
    using length_parse_hex_pairs [of "js_lower (js_trim s)"]
    by (auto simp: hexToBytes_def Let_def lower_hex_string_def elim: oddE)
  then show ?thesis
    unfolding lawfulBase58_def sampleLibs_def using hexToBytes_bytesToHex
    by (auto simp: bytesToHex_nil split: sum.splits)
qed

lemma sample_toSign: "lawfulToSign sampleLibs"
  by (auto simp: lawfulToSign_def sampleLibs_def samplePsbt_read taprootProgram_def split: if_splits)
    (simp_all add: samplePsbt_def)

lemma sample_digest: "lawfulDigest sampleLibs"
  by (auto simp: lawfulDigest_def sampleLibs_def)

text \<open>The laws of the packages are satisfiable.\<close>

theorem digests_agree_sample:
  "walletToSignSighash sampleLibs (''tb1p'' @ bytesToHex (replicate 32 7)) [1, 2] 0
     = hubToSignSighash sampleLibs (''tb1p'' @ bytesToHex (replicate 32 7)) [1, 2]
   \<and> taprootProgram sampleLibs (''tb1p'' @ bytesToHex (replicate 32 7)) = Some (replicate 32 7)"
proof
  show "walletToSignSighash sampleLibs (''tb1p'' @ bytesToHex (replicate 32 7)) [1, 2] 0
     = hubToSignSighash sampleLibs (''tb1p'' @ bytesToHex (replicate 32 7)) [1, 2]"
    by (rule digests_agree [OF sample_toSign sample_digest])
qed (simp add: taprootProgram_def sampleLibs_def starts_with_def)

end
