(* ===== verification/SigningRequest.thy ===== *)
theory SigningRequest
  imports ArchTx AuditChain HubAuth
begin

text \<open>
  Signing requests of the hub (\<open>services/wallet-hub-api/src\<close>): the table (\<open>db/signingRequests.ts\<close>), the
  readiness of an account and the creation of a request (\<open>routes/signingRequests.ts\<close>,
  \<open>signingRequests/displayHash.ts\<close>, \<open>indexer/forRequest.ts\<close>, \<open>arch/arch.ts\<close>). What the network, the indexer and Turnkey
  answer comes as a record of answers, an exception as an error value. A \<open>jsonb\<close> column keeps the value
  it is given without its undefined properties. Sizes, heights and outputs that are no integers count
  as no number.
\<close>

subsection \<open>Configuration\<close>

datatype arch_network = Mainnet | Testnet

definition requestNetwork :: "string option \<Rightarrow> arch_network" where
  "requestNetwork header = (if map_option js_lower header = Some ''mainnet'' then Mainnet else Testnet)"

record hub_config =
  cf_rpcMainnet :: "string option"
  cf_rpcTestnet :: "string option"
  cf_rpc :: "string option"
  cf_indexerMainnet :: bool
  cf_indexerTestnet :: bool
  cf_indexer :: bool
  cf_minConfirmations :: "int option"
  cf_requireAnchored :: bool

definition archRpcUrlForRequest :: "hub_config \<Rightarrow> arch_network \<Rightarrow> string option" where
  "archRpcUrlForRequest cfg network =
     (let networked = (case network of Mainnet \<Rightarrow> cf_rpcMainnet cfg | Testnet \<Rightarrow> cf_rpcTestnet cfg)
      in if given networked then networked else if given (cf_rpc cfg) then cf_rpc cfg else None)"

text \<open>Whether there is a client; when there is none, \<open>indexerForRequest\<close> has already sent a 501 reply.\<close>

definition indexerForRequest :: "hub_config \<Rightarrow> arch_network \<Rightarrow> bool" where
  "indexerForRequest cfg network \<longleftrightarrow>
     (case network of Mainnet \<Rightarrow> cf_indexerMainnet cfg | Testnet \<Rightarrow> cf_indexerTestnet cfg) \<or> cf_indexer cfg"

definition requiredConfirmations :: "hub_config \<Rightarrow> int" where
  "requiredConfirmations cfg = (case cf_minConfirmations cfg of Some n \<Rightarrow> n | None \<Rightarrow> 20)"

record ('t, 'm) hub_setup =
  hs_libs :: "('t, 'm) arch_libs"
  hs_config :: hub_config
  hs_hmac :: "string \<Rightarrow> string \<Rightarrow> string"
  hs_jsonb :: "json \<Rightarrow> json"
  hs_auditSecret :: "string option"
  hs_utf8 :: "byte list \<Rightarrow> string option"

text \<open>What a transaction draws: the clock and fresh identifiers.\<close>

record draws =
  su_env :: hub_env
  su_auditId :: string

subsection \<open>The table\<close>

datatype sr_status = SrPending | SrSubmitted | SrSucceeded | SrFailed

fun status_text :: "sr_status \<Rightarrow> string" where
  "status_text SrPending = ''pending''"
| "status_text SrSubmitted = ''submitted''"
| "status_text SrSucceeded = ''succeeded''"
| "status_text SrFailed = ''failed''"

record signing_row =
  sg_id :: string
  sg_app :: string
  sg_user :: string
  sg_status :: sr_status
  sg_signerKind :: string
  sg_signerAddress :: "string option"
  sg_resource :: "string option"
  sg_action :: string
  sg_payload :: json
  sg_display :: json
  sg_displayHash :: "string option"
  sg_submitted :: json
  sg_result :: json
  sg_error :: json
  sg_expires :: "int option"
  sg_created :: int
  sg_updated :: int

text \<open>None: the primary key is taken.\<close>

definition insertSigningRequest ::
    "draws \<Rightarrow> string \<Rightarrow> string \<Rightarrow> string \<Rightarrow> string option \<Rightarrow> string option \<Rightarrow> string \<Rightarrow> json \<Rightarrow> json \<Rightarrow> string \<Rightarrow> int \<Rightarrow>
     signing_row list \<Rightarrow> (signing_row \<times> signing_row list) option" where
  "insertSigningRequest dr appId userId signerKind signerAddress resourceId action payload display displayHash expires rows =
     (let now = he_now (su_env dr);
          row = \<lparr> sg_id = he_rowId (su_env dr), sg_app = appId, sg_user = userId, sg_status = SrPending,
            sg_signerKind = signerKind, sg_signerAddress = signerAddress, sg_resource = resourceId, sg_action = action,
            sg_payload = stripped payload, sg_display = stripped display, sg_displayHash = Some displayHash,
            sg_submitted = JNull, sg_result = JNull, sg_error = JNull, sg_expires = Some expires,
            sg_created = now, sg_updated = now \<rparr>
      in if sg_id row \<in> sg_id ` set rows then None else Some (row, rows @ [row]))"

definition getSigningRequestForApp :: "string \<Rightarrow> string \<Rightarrow> signing_row list \<Rightarrow> signing_row option" where
  "getSigningRequestForApp rid appId rows = List.find (\<lambda>r. sg_id r = rid \<and> sg_app r = appId) rows"

definition updateRow :: "(signing_row \<Rightarrow> bool) \<Rightarrow> (signing_row \<Rightarrow> signing_row) \<Rightarrow> signing_row list \<Rightarrow> signing_row list" where
  "updateRow p f rows = map (\<lambda>r. if p r then f r else r) rows"

text \<open>\<open>pending\<close> to \<open>submitted\<close>, and whether a row changed.\<close>

definition markSigningRequestSubmitted :: "int \<Rightarrow> string \<Rightarrow> json \<Rightarrow> json \<Rightarrow> signing_row list \<Rightarrow> bool \<times> signing_row list" where
  "markSigningRequestSubmitted now rid submitted result rows =
     (let p = (\<lambda>r. sg_id r = rid \<and> sg_status r = SrPending)
      in (\<exists>r\<in>set rows. p r,
          updateRow p (\<lambda>r. r \<lparr> sg_status := SrSubmitted, sg_submitted := stripped submitted,
            sg_result := (if truthy result then stripped result else sg_result r), sg_updated := now \<rparr>) rows))"

definition markSigningRequestSucceeded :: "int \<Rightarrow> string \<Rightarrow> json \<Rightarrow> signing_row list \<Rightarrow> signing_row list" where
  "markSigningRequestSucceeded now rid result rows =
     updateRow (\<lambda>r. sg_id r = rid) (\<lambda>r. r \<lparr> sg_status := SrSucceeded, sg_result := stripped result, sg_updated := now \<rparr>) rows"

definition markSigningRequestFailed :: "int \<Rightarrow> string \<Rightarrow> json \<Rightarrow> signing_row list \<Rightarrow> signing_row list" where
  "markSigningRequestFailed now rid err rows =
     updateRow (\<lambda>r. sg_id r = rid) (\<lambda>r. r \<lparr> sg_status := SrFailed, sg_error := stripped err, sg_updated := now \<rparr>) rows"

definition recordBroadcast :: "int \<Rightarrow> string \<Rightarrow> json \<Rightarrow> signing_row list \<Rightarrow> signing_row list" where
  "recordBroadcast now rid result rows =
     updateRow (\<lambda>r. sg_id r = rid) (\<lambda>r. r \<lparr> sg_result := stripped result, sg_updated := now \<rparr>) rows"

text \<open>
  \<open>JSON.stringify\<close> of the display with the keys of every object sorted; a display has no cycles.
\<close>

definition computeDisplayHash :: "(string \<Rightarrow> string) \<Rightarrow> json \<Rightarrow> string" where
  "computeDisplayHash sha256 display =
     sha256 (case canonicalJsonStringify (stripped display) of Some t \<Rightarrow> t | None \<Rightarrow> ''undefined'')"

subsection \<open>Amounts and addresses\<close>

text \<open>\<open>parseU64Decimal\<close> throws on what the strict reader of the wallet refuses, with its own messages.\<close>

definition parseU64Decimal :: "string \<Rightarrow> string \<Rightarrow> string + int" where
  "parseU64Decimal val label =
     (if \<not> dec_string val \<or> length val > 20 then Inl (label @ '' must be a base-10 unsigned integer string'')
      else case js_BigInt val of
        None \<Rightarrow> Inl (label @ '' must be a base-10 unsigned integer string'')
      | Some v \<Rightarrow> if v > U64_MAX then Inl (label @ '' exceeds u64 max'') else Inr v)"

definition isTaprootAddress :: "string \<Rightarrow> bool" where
  "isTaprootAddress s \<longleftrightarrow> starts_with ''bc1p'' s \<or> starts_with ''tb1p'' s \<or> starts_with ''bcrt1p'' s"

definition inferBtcNetworkFromAddress :: "string \<Rightarrow> string" where
  "inferBtcNetworkFromAddress address =
     (let a = js_lower address
      in if starts_with ''bc1'' a then ''mainnet''
         else if starts_with ''tb1'' a then ''testnet''
         else if starts_with ''bcrt1'' a then ''regtest'' else ''unknown'')"

definition isHex64 :: "string \<Rightarrow> bool" where
  "isHex64 s \<longleftrightarrow> length s = 64 \<and> list_all (\<lambda>c. hex_value (lower_char c) \<noteq> None) s"

text \<open>\<open>/^([0-9a-fA-F]{64}):(\d+)$/\<close>\<close>

definition parseAnchoredUtxo :: "string \<Rightarrow> (string \<times> int) option" where
  "parseAnchoredUtxo utxoStr =
     (let txid = take 64 utxoStr; rest = drop 64 utxoStr
      in if isHex64 txid \<and> take 1 rest = '':'' \<and> dec_string (drop 1 rest)
         then Some (js_lower txid, int (read_nat (drop 1 rest))) else None)"

subsection \<open>Readiness\<close>

record readiness =
  rd_status :: string
  rd_reason :: "string option"
  rd_anchored :: "(string \<times> int) option"
  rd_address :: "string option"
  rd_confirmations :: "int option"
  rd_required :: "int option"

definition readinessOf :: "string \<Rightarrow> string option \<Rightarrow> readiness" where
  "readinessOf status reason =
     \<lparr> rd_status = status, rd_reason = reason, rd_anchored = None, rd_address = None, rd_confirmations = None, rd_required = None \<rparr>"

text \<open>\<open>readAccountInfo\<close> (or what it throws), \<open>getAccountAddress\<close>, \<open>getBtcAddressUtxos\<close> and \<open>getBtcChainTip\<close>.\<close>

record ready_answers =
  ra_account :: "string + json"
  ra_address :: "string option"
  ra_utxos :: "json option"
  ra_tip :: "json option"

fun includesText :: "string \<Rightarrow> string \<Rightarrow> bool" where
  "includesText p [] = (p = [])"
| "includesText p (c # s) = (starts_with p (c # s) \<or> includesText p s)"

definition utxoConfirmations :: "int \<Rightarrow> json option \<Rightarrow> json \<Rightarrow> int" where
  "utxoConfirmations required tip u =
     (let confirmations = getProp ''confirmations'' u; status = getProp ''status'' u; height = getProp ''block_height'' status
      in if isNumber confirmations then int_of (toNumber confirmations)
         else if truthy (getProp ''confirmed'' status) \<and> isNumber height then
           (case tip of
              None \<Rightarrow> required
            | Some t \<Rightarrow>
                (case (let h = getProp ''height'' t in if isNumber h then toNumber h else toNumber (nullish h (JNum 0))) of
                   JInt tipHeight \<Rightarrow> if tipHeight > 0 then max 0 (tipHeight - int_of (toNumber height) + 1) else 0
                 | JNonInteger \<Rightarrow> 0))
         else 0)"

text \<open>\<open>Array.isArray(raw) ? raw : Array.isArray(raw?.utxos) ? raw.utxos : []\<close>\<close>

definition utxosOf :: "json \<Rightarrow> json list" where
  "utxosOf raw = (case elements raw of Some us \<Rightarrow> us
     | None \<Rightarrow> (case elements (getProp ''utxos'' raw) of Some us \<Rightarrow> us | None \<Rightarrow> []))"

definition findUtxo :: "string \<times> int \<Rightarrow> json list \<Rightarrow> json option" where
  "findUtxo anchored utxos =
     List.find (\<lambda>u. js_lower (textOf (getProp ''txid'' u)) = fst anchored \<and> toNumber (getProp ''vout'' u) = JInt (snd anchored)) utxos"

text \<open>\<open>None\<close>: \<open>getAccountAddress\<close> or the indexer threw, which is not caught.\<close>

definition computeBtcUtxoReadiness ::
    "bool \<Rightarrow> int \<Rightarrow> bool \<Rightarrow> bool \<Rightarrow> ready_answers \<Rightarrow> readiness option" where
  "computeBtcUtxoReadiness archRpc required indexer requireAnchoredUtxo ans =
     (if \<not> archRpc then Some (readinessOf ''unknown'' (Some ''ArchRpcNotConfigured''))
      else case ra_account ans of
        Inl msg \<Rightarrow>
          if includesText ''account is not in database'' (js_lower msg)
          then Some (readinessOf ''not_ready'' (Some ''ArchAccountNotFound''))
          else Some (readinessOf ''unknown'' (Some (''ArchRpcError: '' @ msg)))
      | Inr accInfo \<Rightarrow>
          if \<not> requireAnchoredUtxo then Some (readinessOf ''ready'' (Some ''AnchorNotRequired''))
          else case parseAnchoredUtxo (textOf (getProp ''utxo'' accInfo)) of
            None \<Rightarrow> Some (readinessOf ''not_ready'' (Some ''NotAnchored''))
          | Some anchored \<Rightarrow>
              if fst anchored = replicate 64 (CHR ''0'') \<and> snd anchored = 0
              then Some (readinessOf ''not_ready'' (Some ''NotAnchored'') \<lparr> rd_anchored := Some anchored \<rparr>)
              else if \<not> indexer
              then Some (readinessOf ''unknown'' (Some ''IndexerNotConfigured'')
                     \<lparr> rd_anchored := Some anchored, rd_required := Some required \<rparr>)
              else case ra_address ans of
                None \<Rightarrow> None
              | Some address \<Rightarrow>
                  if inferBtcNetworkFromAddress address = ''regtest''
                  then Some (readinessOf ''not_ready'' (Some ''ArchRpcNetworkMismatch'')
                         \<lparr> rd_anchored := Some anchored, rd_address := Some address, rd_required := Some required \<rparr>)
                  else case ra_utxos ans of
                    None \<Rightarrow> None
                  | Some raw \<Rightarrow>
                      let confirmations = (case findUtxo anchored (utxosOf raw) of
                            None \<Rightarrow> 0 | Some u \<Rightarrow> utxoConfirmations required (ra_tip ans) u)
                      in Some ((if confirmations < required then readinessOf ''not_ready'' (Some ''BtcUtxoNotConfirmed'')
                                else readinessOf ''ready'' None)
                           \<lparr> rd_anchored := Some anchored, rd_address := Some address,
                             rd_confirmations := Some confirmations, rd_required := Some required \<rparr>))"

definition readinessFor :: "('t, 'm) hub_setup \<Rightarrow> arch_network \<Rightarrow> ready_answers \<Rightarrow> readiness option" where
  "readinessFor S network ans =
     computeBtcUtxoReadiness (archRpcUrlForRequest (hs_config S) network \<noteq> None) (requiredConfirmations (hs_config S))
       (indexerForRequest (hs_config S) network) (cf_requireAnchored (hs_config S)) ans"

end
