(* ===== verification/CreateRequest.thy ===== *)
theory CreateRequest
  imports SigningRequest
begin

text \<open>
  \<open>POST /signing-requests\<close> (\<open>routes/signingRequests.ts\<close>): who signs, what is signed, and the row that keeps
  both until the signature comes. The handler's transactions run one after the other in one step;
  the only one that touches the table of requests is the last.
\<close>

subsection \<open>Requests\<close>

datatype signer_body = ExternalSigner string "string option" | TurnkeySigner string

datatype action_body =
    ActTransfer string string
  | ActToken string string string "string option" "int option"
  | ActAnchor
  | ActSignMessage string

record create_body =
  cb_externalUserId :: string
  cb_signer :: signer_body
  cb_action :: action_body

datatype http = Answer json | Refuse nat string

text \<open>An error inside a handler: the reply it sends.\<close>

type_synonym 'a handled = "(nat \<times> string) + 'a"

definition orThrow :: "'a option \<Rightarrow> 'a handled" where
  "orThrow x = (case x of None \<Rightarrow> Inl (500, ''Internal Server Error'') | Some a \<Rightarrow> Inr a)"

record signer_identity =
  sid_taproot :: string
  sid_arch :: string
  sid_xOnly :: string
  sid_kind :: string
  sid_address :: "string option"
  sid_resource :: "string option"

definition identity :: "string \<Rightarrow> string \<times> string \<Rightarrow> string option \<Rightarrow> signer_identity" where
  "identity taproot keys resourceId =
     \<lparr> sid_taproot = taproot, sid_arch = snd keys, sid_xOnly = fst keys,
       sid_kind = (if resourceId = None then ''external'' else ''turnkey''),
       sid_address = (if resourceId = None then Some taproot else None), sid_resource = resourceId \<rparr>"

text \<open>The fallback that reads the output key from the address.\<close>

definition identityFromAddress :: "('t, 'm) arch_libs \<Rightarrow> string \<Rightarrow> string option \<Rightarrow> string \<Rightarrow> signer_identity handled" where
  "identityFromAddress L taproot resourceId refusal =
     (case resolveArchAccountAddress L taproot of
        None \<Rightarrow> Inl (500, ''Internal Server Error'')
      | Some (ArchAccount a) \<Rightarrow> Inl (400, refusal)
      | Some (TaprootAccount t arch xOnly) \<Rightarrow> Inr (identity taproot (xOnly, arch) resourceId))"

definition externalSigner :: "('t, 'm) arch_libs \<Rightarrow> string \<Rightarrow> string option \<Rightarrow> signer_identity handled" where
  "externalSigner L taproot publicKeyHex =
     (case (case publicKeyHex of Some k \<Rightarrow> if length k \<ge> 64 then Some (js_lower k) else None | None \<Rightarrow> None) of
        Some key \<Rightarrow>
          (case archAccountFromWalletPublicKey L key taproot of
             Inr canonical \<Rightarrow> Inr (identity taproot canonical None)
           | Inl reason \<Rightarrow> Inl (400, ''Invalid signer publicKeyHex: '' @ reason))
      | None \<Rightarrow> identityFromAddress L taproot None ''External signer must provide a Taproot (p2tr) address'')"

definition updateTurnkeyResourceDefaultPublicKeyHexForApp :: "string \<Rightarrow> string \<Rightarrow> string \<Rightarrow> hub_db \<Rightarrow> hub_db" where
  "updateTurnkeyResourceDefaultPublicKeyHexForApp rid appId key db =
     db \<lparr> resources := map (\<lambda>r. if rs_id r = rid \<and> rs_app r = appId then r \<lparr> rs_publicKey := Some key \<rparr> else r) (resources db) \<rparr>"

text \<open>The key that Turnkey lists for the address; an error of Turnkey is no key.\<close>

definition fetchedKey :: "json option \<Rightarrow> string \<Rightarrow> string option" where
  "fetchedKey accountsRes address =
     (case accountsRes of
        None \<Rightarrow> None
      | Some v \<Rightarrow>
          (case List.find (\<lambda>a. getProp ''address'' a = JStr address)
             (case elements (getProp ''accounts'' v) of Some as \<Rightarrow> as | None \<Rightarrow> []) of
             None \<Rightarrow> None
           | Some a \<Rightarrow> (case getProp ''publicKey'' a of JStr k \<Rightarrow> if k = [] then None else Some k | _ \<Rightarrow> None)))"

definition turnkeySigner ::
    "('t, 'm) arch_libs \<Rightarrow> json option \<Rightarrow> string \<Rightarrow> string \<Rightarrow> string \<Rightarrow> hub_db \<Rightarrow> signer_identity handled \<times> hub_db" where
  "turnkeySigner L accountsRes appId userId resourceId db =
     (case getTurnkeyResourceByIdForApp resourceId appId db of
        None \<Rightarrow> (Inl (404, ''Unknown resourceId''), db)
      | Some resource \<Rightarrow>
          if rs_user resource \<noteq> Some userId then (Inl (403, ''Resource does not belong to user''), db)
          else if \<not> given (rs_address resource) then (Inl (400, ''Resource has no default address''), db)
          else
            let taproot = the (rs_address resource);
                backfill = (if \<not> given (rs_publicKey resource) \<and> given (rs_wallet resource) \<and> rs_organization resource \<noteq> []
                  then fetchedKey accountsRes taproot else None);
                db' = (case backfill of Some k \<Rightarrow> updateTurnkeyResourceDefaultPublicKeyHexForApp resourceId appId k db | None \<Rightarrow> db);
                pubkeyHex = (case backfill of Some k \<Rightarrow> Some k | None \<Rightarrow> rs_publicKey resource)
            in case pubkeyHex of
                 Some key \<Rightarrow>
                   if length key \<ge> 64
                   then (case archAccountFromInternalKey L key of
                           Inl e \<Rightarrow> (Inl (500, ''Internal Server Error''), db')
                         | Inr keys \<Rightarrow> (Inr (identity taproot keys (Some resourceId)), db'))
                   else (identityFromAddress L taproot (Some resourceId) ''Turnkey resource defaultAddress must be Taproot (p2tr)'', db')
               | None \<Rightarrow> (identityFromAddress L taproot (Some resourceId) ''Turnkey resource defaultAddress must be Taproot (p2tr)'', db'))"

subsection \<open>Answers from outside\<close>

record create_answers =
  ca_accounts :: "json option"
  ca_hasFinalized :: bool
  ca_finalized :: "string option"
  ca_best :: "string + string"
  ca_blockhashTimeout :: bool
  ca_readiness :: ready_answers
  ca_readinessTimeout :: bool
  ca_tokens :: "(json \<times> json) option"

definition getFinalizedBlockhash :: "create_answers \<Rightarrow> string + string" where
  "getFinalizedBlockhash ans =
     (if ca_hasFinalized ans then (case ca_finalized ans of Some h \<Rightarrow> Inr h | None \<Rightarrow> ca_best ans) else ca_best ans)"

definition recentBlockhash :: "create_answers \<Rightarrow> string handled" where
  "recentBlockhash ans =
     (case (if ca_blockhashTimeout ans then Inl ''Blockhash fetch timeout'' else getFinalizedBlockhash ans) of
        Inl e \<Rightarrow> Inl (503, ''Arch RPC unavailable: '' @ e)
      | Inr h \<Rightarrow> if length h \<noteq> 64 then Inl (503, ''Invalid blockhash from Arch RPC: '' @ h) else Inr h)"

subsection \<open>What is to be signed\<close>

text \<open>The keys the PSBT is built with: the internal key, of which \<open>arch.sign_message\<close> takes 64 digits.\<close>

definition fromDisplay :: "signer_identity \<Rightarrow> json" where
  "fromDisplay who = JObj [
     (''taprootAddress'', JStr (sid_taproot who)),
     (''archAccountAddress'', JStr (sid_arch who)),
     (''xOnlyPubkeyHex'', JStr (sid_xOnly who))]"

definition addressKey :: "('t, 'm) arch_libs \<Rightarrow> string \<Rightarrow> nat \<times> string \<Rightarrow> byte list handled" where
  "addressKey L taproot refusal =
     (case al_fromBech32 L taproot of
        None \<Rightarrow> Inl (500, ''Internal Server Error'')
      | Some (version, data) \<Rightarrow> if version \<noteq> 1 \<or> length data \<noteq> 32 then Inl refusal else Inr data)"

record signing_payload =
  py_payload :: json
  py_display :: json
  py_action :: string

definition messageKey :: "('t, 'm) arch_libs \<Rightarrow> signer_identity \<Rightarrow> byte list handled" where
  "messageKey L who =
     (if length (sid_xOnly who) \<ge> 64 then Inr (bufferFromHex (take 64 (sid_xOnly who)))
      else addressKey L (sid_taproot who) (400, ''Signer must be a Taproot (p2tr) address for BIP-322 sign_message''))"

definition signMessagePayload ::
    "('t, 'm) arch_libs \<Rightarrow> (byte list \<Rightarrow> string option) \<Rightarrow> signer_identity \<Rightarrow> string \<Rightarrow> signing_payload handled" where
  "signMessagePayload L utf8Text who rawHex =
     (let messageHex = js_lower rawHex; messageBytes = bufferFromHex messageHex
      in if odd (length messageHex) then Inl (400, ''messageHex must have an even number of hex characters'')
         else if messageBytes = [] then Inl (400, ''messageHex must decode to at least one byte'')
         else rbind (messageKey L who) (\<lambda>xOnlyPubkey.
           rbind (orThrow (buildBip322ToSignPsbtBase64 L (sid_taproot who) messageBytes (Some xOnlyPubkey))) (\<lambda>psbtBase64.
             rbind (orThrow (hubToSignSighash L (sid_taproot who) messageBytes)) (\<lambda>sighash.
               Inr \<lparr> py_payload = JObj [
                       (''kind'', JStr ''taproot_sighash_hex''),
                       (''signWith'', JStr (sid_taproot who)),
                       (''payloadHex'', JStr (bytesToHex sighash)),
                       (''encoding'', JStr ''PAYLOAD_ENCODING_HEXADECIMAL''),
                       (''hashFunction'', JStr ''HASH_FUNCTION_NO_OP''),
                       (''messageHex'', JStr messageHex),
                       (''psbtBase64'', JStr psbtBase64),
                       (''internalXOnlyPubkeyHex'', JStr (sid_xOnly who)),
                       (''psbtTapInternalKeyHex'', JStr (bytesToHex xOnlyPubkey))],
                     py_display = JObj [
                       (''kind'', JStr ''arch.sign_message''),
                       (''account'', fromDisplay who),
                       (''message'', JObj [
                          (''hex'', JStr messageHex),
                          (''utf8'', orNull JStr (utf8Text messageBytes)),
                          (''byteLength'', JNum (int (length messageBytes)))])],
                     py_action = ''arch.sign_message'' \<rparr>))))"

definition readinessWarning :: "hub_config \<Rightarrow> readiness \<Rightarrow> string option" where
  "readinessWarning cfg r =
     (if rd_status r \<noteq> ''not_ready'' then None
      else if rd_reason r = Some ''BtcUtxoNotConfirmed''
      then Some (''Not ready: anchored BTC UTXO confirmations '' @ show_int (case rd_confirmations r of Some n \<Rightarrow> n | None \<Rightarrow> 0)
                 @ '' < required '' @ show_int (case rd_required r of Some n \<Rightarrow> n | None \<Rightarrow> requiredConfirmations cfg))
      else if rd_reason r = Some ''NotAnchored''
      then Some ''Not ready: account is not anchored to a BTC UTXO (submit arch.anchor first)''
      else Some ''Not ready'')"

text \<open>The warning of the pre-flight check; a time-out or an exception is ignored.\<close>

definition preflightWarnings :: "('t, 'm) hub_setup \<Rightarrow> arch_network \<Rightarrow> create_answers \<Rightarrow> string list" where
  "preflightWarnings S network ans =
     (if ca_readinessTimeout ans then []
      else case readinessFor S network (ca_readiness ans) of
        None \<Rightarrow> []
      | Some r \<Rightarrow> (case readinessWarning (hs_config S) r of None \<Rightarrow> [] | Some w \<Rightarrow> [w]))"

definition transferDisplay :: "signer_identity \<Rightarrow> string \<Rightarrow> string \<Rightarrow> string list \<Rightarrow> json" where
  "transferDisplay who toAddress lamportsStr warnings = JObj [
     (''kind'', JStr ''arch.transfer''),
     (''from'', fromDisplay who),
     (''to'', JObj [(''input'', JStr toAddress), (''archAccountAddress'', JStr toAddress)]),
     (''lamports'', JStr lamportsStr),
     (''warnings'', JArr (map JStr warnings))]"

definition transferAction ::
    "('t, 'm) hub_setup \<Rightarrow> arch_network \<Rightarrow> create_answers \<Rightarrow> signer_identity \<Rightarrow> byte list \<Rightarrow> string \<Rightarrow> string \<Rightarrow>
     (arch_instruction list \<times> json) handled" where
  "transferAction S network ans who payer toAddress lamportsStr =
     (if isTaprootAddress toAddress
      then Inl (400, ''toAddress must be an Arch account address (base58 pubkey). Taproot addresses cannot be inverted to Arch account keys.'')
      else rbind (orThrow (parsePubkey (hs_libs S) toAddress)) (\<lambda>to.
        case parseU64Decimal lamportsStr ''Lamports'' of
          Inl e \<Rightarrow> Inl (500, e)
        | Inr lamports \<Rightarrow>
            Inr ([al_transfer (hs_libs S) payer to lamports],
                 transferDisplay who toAddress lamportsStr
                   ((if sid_arch who = toAddress then [''Sender and recipient are the same''] else [])
                     @ preflightWarnings S network ans))))"

text \<open>The token account the indexer lists for a mint, by its address or its hex form.\<close>

definition findTokenAccount :: "string \<Rightarrow> byte list \<Rightarrow> json \<Rightarrow> string option" where
  "findTokenAccount mintInput mint tokensResponse =
     (case List.find (\<lambda>t. getProp ''mint_address'' t = JStr mintInput
             \<or> getProp ''mint_address_hex'' t = JStr (bytesToHex mint) \<or> getProp ''mint'' t = JStr mintInput)
           (case elements (getProp ''tokens'' tokensResponse) of Some ts \<Rightarrow> ts | None \<Rightarrow> []) of
        None \<Rightarrow> None
      | Some t \<Rightarrow> (case getProp ''token_account_address'' t of JStr a \<Rightarrow> if a = [] then None else Some a | _ \<Rightarrow> None))"

text \<open>
  The source and destination accounts and whether to create the latter. On mainnet the indexer's
  answer replaces the derived accounts; what was replaced before an address fails to parse stays.
\<close>

definition tokenAccounts ::
    "('t, 'm) hub_setup \<Rightarrow> arch_network \<Rightarrow> create_answers \<Rightarrow> string \<Rightarrow> byte list \<Rightarrow> byte list \<Rightarrow> byte list \<Rightarrow>
     byte list \<times> byte list \<times> bool" where
  "tokenAccounts S network ans mintAddress mint source dest =
     (if network \<noteq> Mainnet \<or> \<not> indexerForRequest (hs_config S) network then (source, dest, True)
      else case ca_tokens ans of
        None \<Rightarrow> (source, dest, True)
      | Some (senderTokens, recipientTokens) \<Rightarrow>
          (case Option.bind (findTokenAccount mintAddress mint senderTokens) (\<lambda>a. Some (parsePubkey (hs_libs S) a)) of
             Some None \<Rightarrow> (source, dest, True)
           | found \<Rightarrow>
               let source' = (case found of Some (Some a) \<Rightarrow> a | _ \<Rightarrow> source)
               in case Option.bind (findTokenAccount mintAddress mint recipientTokens) (parsePubkey (hs_libs S)) of
                    None \<Rightarrow> (source', dest, True)
                  | Some d \<Rightarrow> (source', d, False)))"

definition tokenDisplay ::
    "('t, 'm) arch_libs \<Rightarrow> signer_identity \<Rightarrow> string \<Rightarrow> string \<Rightarrow> string \<Rightarrow> int option \<Rightarrow> byte list \<Rightarrow> byte list \<Rightarrow> bool \<Rightarrow> bool \<Rightarrow> json" where
  "tokenDisplay L who mintAddress toAddress amountStr decimals sourceAta destAta createDestAta idempotent = JObj [
     (''kind'', JStr ''arch.token_transfer''),
     (''from'', fromDisplay who),
     (''to'', JObj [(''input'', JStr toAddress), (''archAccountAddress'', JStr toAddress)]),
     (''mint'', JStr mintAddress),
     (''amount'', JStr amountStr),
     (''decimals'', orNull JNum decimals),
     (''sourceAta'', JStr (al_b58encode L sourceAta)),
     (''destAta'', JStr (al_b58encode L destAta)),
     (''createDestAta'', JBool createDestAta),
     (''createDestAtaIdempotent'', JBool (createDestAta \<and> idempotent))]"

definition tokenAction ::
    "('t, 'm) hub_setup \<Rightarrow> arch_network \<Rightarrow> create_answers \<Rightarrow> signer_identity \<Rightarrow> byte list \<Rightarrow>
     string \<Rightarrow> string \<Rightarrow> string \<Rightarrow> string option \<Rightarrow> int option \<Rightarrow> (arch_instruction list \<times> json) handled" where
  "tokenAction S network ans who payer mintAddress toAddress amountStr sourceTokenAccount decimals =
     (if isTaprootAddress toAddress then Inl (400, ''toAddress must be an Arch account address (base58 pubkey).'')
      else
        let L = hs_libs S in
        rbind (orThrow (parsePubkey L mintAddress)) (\<lambda>mint.
        rbind (orThrow (parsePubkey L toAddress)) (\<lambda>to.
        rbind (case parseU64Decimal amountStr ''amount'' of Inl e \<Rightarrow> Inl (500, e) | Inr a \<Rightarrow> Inr a) (\<lambda>amount.
        rbind (orThrow (if given sourceTokenAccount then parsePubkey L (the sourceTokenAccount)
                        else getAplAssociatedTokenAddress L mint payer)) (\<lambda>source.
        rbind (orThrow (getAplAssociatedTokenAddress L mint to)) (\<lambda>dest.
          let idempotent = (network \<noteq> Mainnet);
              (sourceAta, destAta, createDestAta) = tokenAccounts S network ans mintAddress mint source dest
          in Inr (hubTokenInstructions L payer to mint sourceAta destAta amount createDestAta idempotent,
               tokenDisplay L who mintAddress toAddress amountStr decimals sourceAta destAta createDestAta idempotent)))))))"

definition transactionKey :: "('t, 'm) arch_libs \<Rightarrow> signer_identity \<Rightarrow> byte list handled" where
  "transactionKey L who =
     (if sid_xOnly who \<noteq> [] then Inr (bufferFromHex (sid_xOnly who))
      else addressKey L (sid_taproot who) (500, ''Internal Server Error''))"

text \<open>The digest of the message that the instructions compile to, and what goes with it.\<close>

definition transactionPayload ::
    "('t, 'm) arch_libs \<Rightarrow> signer_identity \<Rightarrow> byte list \<Rightarrow> string \<Rightarrow> arch_instruction list \<Rightarrow> json handled" where
  "transactionPayload L who payer recentBlockhashHex instructions =
     (case al_compile L instructions payer (bufferFromHex recentBlockhashHex) of
        Inl e \<Rightarrow> Inl (500, ''Internal Server Error'')
      | Inr message \<Rightarrow>
          let messageHash = al_messageHash L message in
          rbind (transactionKey L who) (\<lambda>xOnlyPubkey.
          rbind (orThrow (buildBip322ToSignPsbtBase64 L (sid_taproot who) messageHash (Some xOnlyPubkey))) (\<lambda>psbtBase64.
          rbind (orThrow (hubToSignSighash L (sid_taproot who) messageHash)) (\<lambda>sighash.
            Inr (JObj [
              (''kind'', JStr ''taproot_sighash_hex''),
              (''signWith'', JStr (sid_taproot who)),
              (''payloadHex'', JStr (bytesToHex sighash)),
              (''encoding'', JStr ''PAYLOAD_ENCODING_HEXADECIMAL''),
              (''hashFunction'', JStr ''HASH_FUNCTION_NO_OP''),
              (''messageHashHex'', JStr (bytesToHex messageHash)),
              (''psbtBase64'', JStr psbtBase64),
              (''recentBlockhashHex'', JStr recentBlockhashHex),
              (''internalXOnlyPubkeyHex'', JStr (sid_xOnly who)),
              (''psbtTapInternalKeyHex'', JStr (bytesToHex xOnlyPubkey))])))))"

subsection \<open>The handler\<close>

record hub_tables =
  ht_db :: hub_db
  ht_requests :: "signing_row list"
  ht_audit :: "audit_row list"

definition auditIn ::
    "('t, 'm) hub_setup \<Rightarrow> draws \<Rightarrow> string \<Rightarrow> string \<Rightarrow> string \<Rightarrow> string \<Rightarrow> string option \<Rightarrow> json \<Rightarrow> AuditChain.outcome \<Rightarrow>
     audit_row list \<Rightarrow> audit_row list option" where
  "auditIn S dr appId userId eventType entityId activity payload result rows =
     (case auditEvent (hs_hmac S) (hs_jsonb S) (hs_auditSecret S) (su_auditId dr) (toISOString (he_now (su_env dr)))
        \<lparr> ip_appId = appId, ip_requestId = Some (he_nonce (su_env dr)), ip_userId = Some userId, ip_eventType = eventType,
          ip_entityType = Some ''signing_request'', ip_entityId = Some entityId, ip_turnkeyActivityId = activity,
          ip_turnkeyRequestId = None, ip_payloadJson = payload, ip_outcome = result \<rparr> rows of
        Inl e \<Rightarrow> None
      | Inr rows' \<Rightarrow> Some rows')"

text \<open>The last transaction: the row and its audit event, or neither.\<close>

definition persistRequest ::
    "('t, 'm) hub_setup \<Rightarrow> draws \<Rightarrow> string \<Rightarrow> string \<Rightarrow> signer_identity \<Rightarrow> int \<Rightarrow> signing_payload \<Rightarrow> hub_tables \<Rightarrow>
     signing_row option \<times> hub_tables" where
  "persistRequest S dr appId userId who expires p tables =
     (case insertSigningRequest dr appId userId (sid_kind who) (sid_address who) (sid_resource who) (py_action p)
        (py_payload p) (py_display p) (computeDisplayHash (al_sha256Hex (hs_libs S)) (py_display p)) expires (ht_requests tables) of
        None \<Rightarrow> (None, tables)
      | Some (row, rows) \<Rightarrow>
          (case auditIn S dr appId userId ''signing_request.created'' (sg_id row) None
             (JObj [(''actionType'', JStr (py_action p)), (''signerKind'', JStr (sid_kind who))]) AuditChain.Succeeded (ht_audit tables) of
             None \<Rightarrow> (None, tables)
           | Some audit \<Rightarrow> (Some row, tables \<lparr> ht_requests := rows, ht_audit := audit \<rparr>)))"

definition createdReply :: "(string \<Rightarrow> string) \<Rightarrow> signing_payload \<Rightarrow> signing_row \<Rightarrow> json" where
  "createdReply sha256 p row = JObj [
     (''signingRequestId'', JStr (sg_id row)),
     (''status'', JStr (status_text (sg_status row))),
     (''actionType'', JStr (sg_action row)),
     (''payloadToSign'', py_payload p),
     (''display'', py_display p),
     (''displayHash'', JStr (computeDisplayHash sha256 (py_display p))),
     (''expiresAt'', orNull (\<lambda>t. JStr (toISOString t)) (sg_expires row))]"

text \<open>
  A transfer, from the payer's key to the payload. The second component is whether the handler has
  asked for an indexer that is not there, which has already sent its 501 reply.
\<close>

definition transactionOf ::
    "('t, 'm) hub_setup \<Rightarrow> arch_network \<Rightarrow> create_answers \<Rightarrow> signer_identity \<Rightarrow> action_body \<Rightarrow> signing_payload handled \<times> bool" where
  "transactionOf S network ans who action =
     (let L = hs_libs S; noIndexer = (\<not> indexerForRequest (hs_config S) network) in
      case orThrow (parsePubkey L (sid_arch who)) of
        Inl e \<Rightarrow> (Inl e, False)
      | Inr payer \<Rightarrow>
          if archRpcUrlForRequest (hs_config S) network = None then (Inl (501, ''ARCH_RPC_NODE_URL not configured''), False)
          else case recentBlockhash ans of
            Inl e \<Rightarrow> (Inl e, False)
          | Inr blockhash \<Rightarrow>
              let built = (case action of
                     ActTransfer toAddress lamports \<Rightarrow> transferAction S network ans who payer toAddress lamports
                   | ActToken mint toAddress amount source decimals \<Rightarrow>
                       tokenAction S network ans who payer mint toAddress amount source decimals
                   | ActAnchor \<Rightarrow> Inl (400, ''arch.anchor is no longer supported: SystemInstruction::Anchor was removed in arch-network v0.12'')
                   | ActSignMessage m \<Rightarrow> Inl (400, ''Unsupported action type''));
                  actionType = (case action of ActTransfer a b \<Rightarrow> ''arch.transfer'' | _ \<Rightarrow> ''arch.token_transfer'');
                  asks = (case action of ActTransfer a b \<Rightarrow> True | ActToken a b c d e \<Rightarrow> network = Mainnet | _ \<Rightarrow> False)
              in case built of
                   Inl e \<Rightarrow> (Inl e, False)
                 | Inr (instructions, display) \<Rightarrow>
                     (rbind (transactionPayload L who payer blockhash instructions) (\<lambda>payload.
                        Inr \<lparr> py_payload = payload, py_display = display, py_action = actionType \<rparr>),
                      noIndexer \<and> asks))"

definition rawAmount :: "action_body \<Rightarrow> string option" where
  "rawAmount action = (case action of
      ActTransfer a lamports \<Rightarrow> Some lamports | ActToken m t amount s d \<Rightarrow> Some amount | _ \<Rightarrow> None)"

definition resolveSigner ::
    "('t, 'm) hub_setup \<Rightarrow> create_answers \<Rightarrow> string \<Rightarrow> string \<Rightarrow> signer_body \<Rightarrow> hub_db \<Rightarrow> signer_identity handled \<times> hub_db" where
  "resolveSigner S ans appId userId signer db =
     (let (who, db') = (case signer of
            ExternalSigner taproot key \<Rightarrow> (externalSigner (hs_libs S) taproot key, db)
          | TurnkeySigner resourceId \<Rightarrow> turnkeySigner (hs_libs S) (ca_accounts ans) appId userId resourceId db)
      in (rbind who (\<lambda>w. if sid_arch w = [] then Inl (500, ''Missing signer arch account address'') else Inr w), db'))"

definition REQUEST_TTL_MS :: int where "REQUEST_TTL_MS = 10 * 60 * 1000"

definition postSigningRequest ::
    "('t, 'm) hub_setup \<Rightarrow> arch_network \<Rightarrow> draws \<Rightarrow> draws \<Rightarrow> create_answers \<Rightarrow> string option \<Rightarrow> create_body \<Rightarrow> hub_tables \<Rightarrow>
     http \<times> hub_tables" where
  "postSigningRequest S network drUser dr ans app body tables =
     (if \<not> given app then (Refuse 401 ''Missing app context'', tables)
      else case (case rawAmount (cb_action body) of Some a \<Rightarrow> parseU64Decimal a ''amount'' | None \<Rightarrow> Inr 0) of
        Inl e \<Rightarrow> (Refuse 400 e, tables)
      | Inr n \<Rightarrow>
          let appId = the app;
              (userId, db1) = getOrCreateUserByExternalId (su_env drUser) appId (cb_externalUserId body) (ht_db tables);
              expires = he_now (su_env drUser) + REQUEST_TTL_MS;
              (signer, db2) = resolveSigner S ans appId userId (cb_signer body) db1;
              tables2 = tables \<lparr> ht_db := db2 \<rparr>
          in case signer of
               Inl (code, e) \<Rightarrow> (Refuse code e, tables2)
             | Inr who \<Rightarrow>
                 let (payload, sent501) = (case cb_action body of
                       ActSignMessage hex \<Rightarrow> (signMessagePayload (hs_libs S) (hs_utf8 S) who hex, False)
                     | action \<Rightarrow> transactionOf S network ans who action);
                     reply = (\<lambda>r. if sent501 then Refuse 501 ''Indexer not configured (INDEXER_BASE_URL missing)'' else r)
                 in case payload of
                      Inl (code, e) \<Rightarrow> (reply (Refuse code e), tables2)
                    | Inr p \<Rightarrow>
                        (case persistRequest S dr appId userId who expires p tables2 of
                           (None, tables3) \<Rightarrow> (reply (Refuse 500 ''Internal Server Error''), tables3)
                         | (Some row, tables3) \<Rightarrow> (reply (Answer (createdReply (al_sha256Hex (hs_libs S)) p row)), tables3)))"

end
