(* ===== verification/SubmitRequest.thy ===== *)
theory SubmitRequest
  imports CreateRequest
begin

text \<open>
  \<open>GET /signing-requests/:id\<close> and \<open>POST /signing-requests/:id/submit\<close> (\<open>routes/signingRequests.ts\<close>) as a transition
  system: a call in flight is the \<open>await\<close> it stands at, one event resumes one call with what the database
  or the network answered, and calls for the same request interleave at every \<open>await\<close>. A transaction
  is one step. A call that is never resumed is a process that stopped. The first reply a call sends
  is the one the client gets; sending another has no effect.
\<close>

subsection \<open>Calls\<close>

record submit_body =
  sb_external :: string
  sb_signature :: "string option"
  sb_signed :: "string option"
  sb_activity :: "string option"

text \<open>What a submit has checked and is about to claim the request with.\<close>

datatype 'm prepared =
    PreparedMessage json json
  | PreparedTx json "byte list" 'm

datatype 'm stage =
    AtUser
  | AtLoad string
  | AtReadiness signing_row
  | AtClaim signing_row "'m prepared"
  | AtBroadcast signing_row "byte list" 'm
  | AtBroadcastFailed signing_row string
  | AtRecord signing_row string "byte list" 'm
  | AtWait signing_row string "byte list" 'm
  | AtMark signing_row string json "byte list" 'm
  | GetLoad
  | GetWait signing_row string
  | GetMark signing_row string json
  | GetReread signing_row
  | GetReadiness signing_row
  | Ended

record 'm hub_call =
  hc_app :: string
  hc_request :: string
  hc_network :: arch_network
  hc_body :: submit_body
  hc_stage :: "'m stage"
  hc_reply :: "http option"

text \<open>The broadcasts are the transactions handed to \<open>sendTransaction\<close>, whether the node takes them or not.\<close>

record 'm broadcast =
  bc_request :: string
  bc_signature :: "byte list"
  bc_message :: 'm

record 'm hub_world =
  hw_tables :: hub_tables
  hw_sent :: "'m broadcast list"
  hw_calls :: "nat \<Rightarrow> 'm hub_call option"

text \<open>
  \<open>Ran\<close>: the transaction ran; \<open>Threw\<close>: the database or the network threw; the others are what the
  network answered.
\<close>

datatype call_answer =
    Ran
  | Threw string
  | ReadyIs ready_answers
  | TxId string
  | Chain "json option"

definition sendReply :: "http \<Rightarrow> 'm hub_call \<Rightarrow> 'm hub_call" where
  "sendReply r c = (case hc_reply c of None \<Rightarrow> c \<lparr> hc_reply := Some r \<rparr> | Some r' \<Rightarrow> c)"

definition finish :: "http \<Rightarrow> 'm hub_call \<Rightarrow> 'm hub_call" where
  "finish r c = sendReply r c \<lparr> hc_stage := Ended \<rparr>"

definition goTo :: "'m stage \<Rightarrow> 'm hub_call \<Rightarrow> 'm hub_call" where
  "goTo st c = c \<lparr> hc_stage := st \<rparr>"

subsection \<open>The checks of a submit\<close>

text \<open>After the row is read: the caller owns it, it is pending and it has not expired.\<close>

definition loadChecks :: "int \<Rightarrow> string \<Rightarrow> signing_row option \<Rightarrow> signing_row handled" where
  "loadChecks now userId found =
     (case found of
        None \<Rightarrow> Inl (404, ''Unknown signingRequestId'')
      | Some row \<Rightarrow>
          if sg_user row \<noteq> userId then Inl (403, ''Signing request does not belong to user'')
          else if sg_status row \<noteq> SrPending then Inl (409, ''Signing request status is '' @ status_text (sg_status row))
          else if (case sg_expires row of Some t \<Rightarrow> t < now | None \<Rightarrow> False) then Inl (410, ''Signing request expired'')
          else Inr row)"

text \<open>\<open>display?.from?.k ?? display?.account?.k ?? ""\<close> as a string.\<close>

definition signerField :: "string \<Rightarrow> json \<Rightarrow> string" where
  "signerField k display =
     textOf (nullish (getProp k (getProp ''from'' display)) (getProp k (getProp ''account'' display)))"

record submit_keys =
  sk_payer :: "byte list"
  sk_internal :: string
  sk_blockhashHex :: string

definition isTransfer :: "signing_row \<Rightarrow> bool" where
  "isTransfer row \<longleftrightarrow> sg_action row = ''arch.transfer'' \<or> sg_action row = ''arch.token_transfer''"

definition submitKeys :: "('t, 'm) arch_libs \<Rightarrow> signing_row \<Rightarrow> submit_keys handled" where
  "submitKeys L row =
     (let display = sg_display row; fromArch = signerField ''archAccountAddress'' display;
          recentBlockhashHex = textOf (getProp ''recentBlockhashHex'' (sg_payload row))
      in if signerField ''taprootAddress'' display = [] then Inl (400, ''Signing request missing from.taprootAddress'')
         else if fromArch = [] then Inl (400, ''Signing request missing from.archAccountAddress'')
         else rbind (orThrow (parsePubkey L fromArch)) (\<lambda>payer.
           if sg_action row \<noteq> ''arch.sign_message'' \<and> recentBlockhashHex = []
           then Inl (400, ''Signing request missing recentBlockhashHex'')
           else Inr \<lparr> sk_payer = payer, sk_internal = signerField ''xOnlyPubkeyHex'' display,
                  sk_blockhashHex = recentBlockhashHex \<rparr>))"

definition readinessRefusal :: "readiness \<Rightarrow> (nat \<times> string) option" where
  "readinessRefusal r =
     (if rd_status r = ''not_ready'' then Some (409, case rd_reason r of Some e \<Rightarrow> e | None \<Rightarrow> ''NotReady'')
      else if rd_status r = ''unknown'' then Some (409, case rd_reason r of Some e \<Rightarrow> e | None \<Rightarrow> ''Unknown'')
      else None)"

definition storedTransfer :: "('t, 'm) arch_libs \<Rightarrow> byte list \<Rightarrow> json \<Rightarrow> arch_instruction list handled" where
  "storedTransfer L payer display =
     (let toAddr = textOf (getProp ''archAccountAddress'' (getProp ''to'' display));
          lamportsStr = textOf (getProp ''lamports'' display)
      in if toAddr = [] \<or> lamportsStr = [] then Inl (400, ''Signing request display missing transfer fields'')
         else rbind (orThrow (parsePubkey L toAddr)) (\<lambda>to.
           case parseU64Decimal lamportsStr ''Lamports'' of
             Inl e \<Rightarrow> Inl (500, e)
           | Inr lamports \<Rightarrow> Inr [al_transfer L payer to lamports]))"

definition storedTokenTransfer :: "('t, 'm) arch_libs \<Rightarrow> byte list \<Rightarrow> json \<Rightarrow> arch_instruction list handled" where
  "storedTokenTransfer L payer display =
     (let mint = textOf (getProp ''mint'' display); amountStr = textOf (getProp ''amount'' display);
          sourceAtaStr = textOf (getProp ''sourceAta'' display); destAtaStr = textOf (getProp ''destAta'' display)
      in if mint = [] \<or> amountStr = [] \<or> sourceAtaStr = [] \<or> destAtaStr = []
         then Inl (400, ''Signing request display missing token transfer fields'')
         else rbind (orThrow (parsePubkey L sourceAtaStr)) (\<lambda>sourceAta.
           rbind (orThrow (parsePubkey L destAtaStr)) (\<lambda>destAta.
           rbind (orThrow (parsePubkey L mint)) (\<lambda>mintPubkey.
           rbind (orThrow (parsePubkey L (textOf (getProp ''archAccountAddress'' (getProp ''to'' display))))) (\<lambda>toPubkey.
             case parseU64Decimal amountStr ''amount'' of
               Inl e \<Rightarrow> Inl (500, e)
             | Inr amount \<Rightarrow> Inr (hubTokenInstructions L payer toPubkey mintPubkey sourceAta destAta amount
                 (truthy (getProp ''createDestAta'' display)) (truthy (getProp ''createDestAtaIdempotent'' display))))))))"

text \<open>The stored display is the authoritative intent.\<close>

definition storedInstructions :: "('t, 'm) arch_libs \<Rightarrow> byte list \<Rightarrow> signing_row \<Rightarrow> arch_instruction list handled" where
  "storedInstructions L payer row =
     (if sg_action row = ''arch.transfer'' then storedTransfer L payer (sg_display row)
      else if sg_action row = ''arch.token_transfer'' then storedTokenTransfer L payer (sg_display row)
      else if sg_action row = ''arch.anchor''
      then Inl (400, ''arch.anchor is no longer supported: SystemInstruction::Anchor was removed in arch-network v0.12'')
      else if sg_action row = ''arch.sign_message'' then Inr []
      else Inl (400, ''Unsupported action type''))"

definition activityJson :: "submit_body \<Rightarrow> json" where
  "activityJson body = orNull JStr (sb_activity body)"

definition submittedSignature :: "('t, 'm) arch_libs \<Rightarrow> submit_body \<Rightarrow> (byte list \<times> json) handled" where
  "submittedSignature L body =
     (if map_option length (sb_signature body) = Some 128
      then Inr (bufferFromHex (the (sb_signature body)),
             JObj [(''kind'', JStr ''signature64Hex''), (''signature64Hex'', JStr (the (sb_signature body))),
               (''turnkeyActivityId'', activityJson body)])
      else if given (sb_signed body)
      then rbind (orThrow (extractBip322TaprootSignature64 L (the (sb_signed body)))) (\<lambda>sig64.
             Inr (sig64, JObj [(''kind'', JStr ''signedTransaction''), (''signedTransaction'', JStr (the (sb_signed body))),
               (''turnkeyActivityId'', activityJson body)]))
      else Inl (400, ''Must provide signature64Hex or signedTransaction''))"

text \<open>
  The stored digest and signer. The signature must verify under the output key of the signer's
  address; the checks against the internal key are only logged, but can throw.
\<close>

definition storedOutputKey :: "('t, 'm) arch_libs \<Rightarrow> signing_row \<Rightarrow> (string \<times> string \<times> string) handled" where
  "storedOutputKey L row =
     (let payloadHex = textOf (getProp ''payloadHex'' (sg_payload row));
          storedSignWith = textOf (getProp ''signWith'' (sg_payload row))
      in if length payloadHex \<noteq> 64 then Inl (400, ''Signing request missing taproot sighash payloadHex'')
         else if storedSignWith = [] then Inl (400, ''Signing request missing signWith address'')
         else case resolveArchAccountAddress L storedSignWith of
           None \<Rightarrow> Inl (400, ''Signing request signWith must be a valid Taproot (p2tr) address'')
         | Some (ArchAccount a) \<Rightarrow> Inl (400, ''Signing request signWith must be a Taproot (p2tr) address'')
         | Some (TaprootAccount t arch xOnly) \<Rightarrow> Inr (payloadHex, storedSignWith, xOnly))"

definition loggedCheck :: "('t, 'm) arch_libs \<Rightarrow> byte list \<Rightarrow> string \<Rightarrow> string \<Rightarrow> bool handled" where
  "loggedCheck L sig64 payloadHex keyHex =
     (if length keyHex = 64 then orThrow (al_schnorr L sig64 (bufferFromHex payloadHex) (bufferFromHex keyHex)) else Inr False)"

definition checkSignature :: "('t, 'm) arch_libs \<Rightarrow> signing_row \<Rightarrow> submit_keys \<Rightarrow> byte list \<Rightarrow> (string \<times> string \<times> string) handled" where
  "checkSignature L row keys sig64 =
     rbind (storedOutputKey L row) (\<lambda>(payloadHex, storedSignWith, outputKey).
       rbind (orThrow (al_schnorr L sig64 (bufferFromHex payloadHex) (bufferFromHex outputKey))) (\<lambda>okOutputKey.
         rbind (loggedCheck L sig64 payloadHex (textOf (getProp ''internalXOnlyPubkeyHex'' (sg_payload row)))) (\<lambda>okInternalKey.
           if \<not> okOutputKey then Inl (400, ''InvalidSignature'')
           else rbind (loggedCheck L sig64 payloadHex (sk_internal keys)) (\<lambda>ok.
             Inr (payloadHex, storedSignWith, outputKey)))))"

text \<open>Everything between the readiness check and the claim: no \<open>await\<close> in between.\<close>

definition prepareSubmit ::
    "('t, 'm) arch_libs \<Rightarrow> string option \<Rightarrow> signing_row \<Rightarrow> submit_keys \<Rightarrow> submit_body \<Rightarrow> 'm prepared handled" where
  "prepareSubmit L archRpcUrl row keys body =
     rbind (storedInstructions L (sk_payer keys) row) (\<lambda>instructions.
     rbind (submittedSignature L body) (\<lambda>(sig64, submittedSigJson).
     rbind (checkSignature L row keys sig64) (\<lambda>(payloadHex, storedSignWith, outputKey).
       if sg_action row = ''arch.sign_message''
       then Inr (PreparedMessage submittedSigJson (JObj [
              (''signature64Hex'', JStr (bytesToHex sig64)),
              (''signWith'', JStr storedSignWith),
              (''messageHex'', JStr (textOf (getProp ''messageHex'' (sg_payload row)))),
              (''taprootOutputXOnlyHex'', JStr outputKey),
              (''turnkeyActivityId'', activityJson body)]))
       else case al_compile L instructions (sk_payer keys) (bufferFromHex (sk_blockhashHex keys)) of
         Inl e \<Rightarrow> Inl (500, ''Internal Server Error'')
       | Inr message \<Rightarrow>
           rbind (orThrow (hubToSignSighash L storedSignWith (al_messageHash L message))) (\<lambda>expected.
             if bytesToHex expected \<noteq> payloadHex then Inl (400, ''MessageHashMismatch'')
             else if archRpcUrl = None then Inl (501, ''ARCH_RPC_NODE_URL not configured'')
             else Inr (PreparedTx submittedSigJson (al_adjust L sig64) message)))))"

subsection \<open>Steps\<close>

definition withCall :: "nat \<Rightarrow> 'm hub_call \<Rightarrow> 'm hub_world \<Rightarrow> 'm hub_world" where
  "withCall i c w = w \<lparr> hw_calls := (hw_calls w)(i \<mapsto> c) \<rparr>"

definition withRows :: "signing_row list \<Rightarrow> 'm hub_world \<Rightarrow> 'm hub_world" where
  "withRows rows w = w \<lparr> hw_tables := hw_tables w \<lparr> ht_requests := rows \<rparr> \<rparr>"

definition rowsOf :: "'m hub_world \<Rightarrow> signing_row list" where
  "rowsOf w = ht_requests (hw_tables w)"

text \<open>A thrown error that no handler catches: the framework replies 500.\<close>

definition threw :: "string \<Rightarrow> 'm hub_call \<Rightarrow> 'm hub_call" where
  "threw e c = finish (Refuse 500 e) c"

definition statusReply :: "signing_row \<Rightarrow> string \<Rightarrow> json \<Rightarrow> http" where
  "statusReply row status result =
     Answer (JObj [(''signingRequestId'', JStr (sg_id row)), (''status'', JStr status), (''result'', result)])"

text \<open>The synchronous rest after the readiness check.\<close>

definition afterReadiness :: "('t, 'm) hub_setup \<Rightarrow> signing_row \<Rightarrow> submit_keys \<Rightarrow> 'm hub_call \<Rightarrow> 'm hub_call" where
  "afterReadiness S row keys c =
     (case prepareSubmit (hs_libs S) (archRpcUrlForRequest (hs_config S) (hc_network c)) row keys (hc_body c) of
        Inl (code, e) \<Rightarrow> finish (Refuse code e) c
      | Inr p \<Rightarrow> goTo (AtClaim row p) c)"

text \<open>
  After the row is read. A transfer asks for the indexer, which replies 501 when there is none and
  lets the handler go on.
\<close>

definition afterLoad :: "('t, 'm) hub_setup \<Rightarrow> int \<Rightarrow> string \<Rightarrow> signing_row option \<Rightarrow> 'm hub_call \<Rightarrow> 'm hub_call" where
  "afterLoad S now userId found c =
     (case rbind (loadChecks now userId found) (\<lambda>row. rbind (submitKeys (hs_libs S) row) (\<lambda>keys. Inr (row, keys))) of
        Inl (code, e) \<Rightarrow> finish (Refuse code e) c
      | Inr (row, keys) \<Rightarrow>
          if isTransfer row then
            if archRpcUrlForRequest (hs_config S) (hc_network c) = None
            then finish (Refuse 501 ''ARCH_RPC_NODE_URL not configured'') c
            else goTo (AtReadiness row)
              (if indexerForRequest (hs_config S) (hc_network c) then c
               else sendReply (Refuse 501 ''Indexer not configured (INDEXER_BASE_URL missing)'') c)
          else afterReadiness S row keys c)"

definition afterReady :: "('t, 'm) hub_setup \<Rightarrow> signing_row \<Rightarrow> ready_answers \<Rightarrow> 'm hub_call \<Rightarrow> 'm hub_call" where
  "afterReady S row ans c =
     (case readinessFor S (hc_network c) ans of
        None \<Rightarrow> threw ''Internal Server Error'' c
      | Some r \<Rightarrow>
          (case readinessRefusal r of
             Some (code, e) \<Rightarrow> finish (Refuse code e) c
           | None \<Rightarrow>
               (case submitKeys (hs_libs S) row of
                  Inl (code, e) \<Rightarrow> finish (Refuse code e) c
                | Inr keys \<Rightarrow> afterReadiness S row keys c)))"

text \<open>The claim of a message: submitted, succeeded and audited in one transaction.\<close>

definition claimMessage ::
    "('t, 'm) hub_setup \<Rightarrow> draws \<Rightarrow> signing_row \<Rightarrow> json \<Rightarrow> json \<Rightarrow> 'm hub_call \<Rightarrow> hub_tables \<Rightarrow> (bool \<times> hub_tables) option" where
  "claimMessage S dr row submitted result c tables =
     (let now = he_now (su_env dr);
          (ok, rows) = markSigningRequestSubmitted now (sg_id row) submitted result (ht_requests tables)
      in if \<not> ok then Some (False, tables \<lparr> ht_requests := rows \<rparr>)
         else case auditIn S dr (hc_app c) (sg_user row) ''signing_request.succeeded'' (sg_id row) (sb_activity (hc_body c))
             (JObj [(''actionType'', JStr ''arch.sign_message''), (''signWith'', getProp ''signWith'' result)])
             AuditChain.Succeeded (ht_audit tables) of
           None \<Rightarrow> None
         | Some audit \<Rightarrow> Some (True, tables
             \<lparr> ht_requests := markSigningRequestSucceeded now (sg_id row) result rows, ht_audit := audit \<rparr>))"

definition txidBase58 :: "('t, 'm) arch_libs \<Rightarrow> string \<Rightarrow> json" where
  "txidBase58 L txidHex =
     (let buf = bufferFromHex txidHex in if length buf = 32 then JStr (al_b58encode L buf) else JNull)"

definition txidFields :: "('t, 'm) arch_libs \<Rightarrow> string \<Rightarrow> (string \<times> json) list" where
  "txidFields L txidHex =
     [(''txid'', nullish (txidBase58 L txidHex) (JStr txidHex)), (''txidHex'', JStr txidHex), (''txidBase58'', txidBase58 L txidHex)]"

definition submitResult :: "('t, 'm) arch_libs \<Rightarrow> string \<Rightarrow> byte list \<Rightarrow> 'm \<Rightarrow> submit_body \<Rightarrow> (string \<times> json) list" where
  "submitResult L txidHex signature message body =
     txidFields L txidHex @
     [(''turnkeyActivityId'', activityJson body),
      (''runtimeTransaction'', JObj [(''version'', JNum 0), (''signatures'', JArr [JStr (bytesToHex signature)]),
         (''message'', al_messageJson L message)])]"

definition chainStatus :: "json option \<Rightarrow> string" where
  "chainStatus processed = (case processed of None \<Rightarrow> [] | Some p \<Rightarrow> textOf (getProp ''type'' (getProp ''status'' p)))"

definition failureJson :: "(string \<times> json) list \<Rightarrow> json \<Rightarrow> json" where
  "failureJson ids processed = JObj (ids @
     [(''status'', getProp ''status'' processed), (''rollbackStatus'', getProp ''rollback_status'' processed),
      (''logs'', getProp ''logs'' processed)])"

text \<open>The last transaction of a submit: the outcome of the chain and its audit event.\<close>

definition markOutcome ::
    "('t, 'm) hub_setup \<Rightarrow> draws \<Rightarrow> signing_row \<Rightarrow> string \<Rightarrow> json \<Rightarrow> byte list \<Rightarrow> 'm \<Rightarrow> 'm hub_call \<Rightarrow> hub_tables \<Rightarrow>
     (http \<times> hub_tables) option" where
  "markOutcome S dr row txidHex processed signature message c tables =
     (let L = hs_libs S; now = he_now (su_env dr); activity = sb_activity (hc_body c)
      in if chainStatus (Some processed) = ''failed'' then
           let errorJson = failureJson (txidFields L txidHex) processed
           in map_option (\<lambda>audit. (statusReply row ''failed'' errorJson,
                  tables \<lparr> ht_requests := markSigningRequestFailed now (sg_id row) errorJson (ht_requests tables), ht_audit := audit \<rparr>))
                (auditIn S dr (hc_app c) (sg_user row) ''signing_request.failed'' (sg_id row) activity errorJson
                   AuditChain.Failed (ht_audit tables))
         else
           let result = JObj (submitResult L txidHex signature message (hc_body c) @ [(''processedTransaction'', processed)])
           in map_option (\<lambda>audit. (statusReply row ''succeeded'' result,
                  tables \<lparr> ht_requests := markSigningRequestSucceeded now (sg_id row) result (ht_requests tables), ht_audit := audit \<rparr>))
                (auditIn S dr (hc_app c) (sg_user row) ''signing_request.succeeded'' (sg_id row) activity
                   (JObj (txidFields L txidHex)) AuditChain.Succeeded (ht_audit tables)))"

text \<open>
  The transaction to ask the node about: \<open>txidHex\<close>, or \<open>txid\<close> when it has 64 characters.
\<close>

definition reconcileTxid :: "signing_row \<Rightarrow> string option" where
  "reconcileTxid row =
     (let txidHex = textOf (getProp ''txidHex'' (sg_result row)); txid = textOf (getProp ''txid'' (sg_result row))
      in if txidHex \<noteq> [] then Some txidHex else if length txid = 64 then Some txid else None)"

fun fields :: "json \<Rightarrow> (string \<times> json) list" where
  "fields (JObj kvs) = kvs"
| "fields v = []"

text \<open>\<open>{ ...v, [k]: x }\<close>\<close>

definition withField :: "string \<Rightarrow> json \<Rightarrow> json \<Rightarrow> json" where
  "withField k x v =
     (if k \<in> fst ` set (fields v) then JObj (map (\<lambda>(k', y). (k', if k' = k then x else y)) (fields v))
      else JObj (fields v @ [(k, x)]))"

definition reconcileRows :: "int \<Rightarrow> signing_row \<Rightarrow> string \<Rightarrow> json \<Rightarrow> signing_row list \<Rightarrow> signing_row list" where
  "reconcileRows now row txid processed rows =
     (let result = sg_result row
      in if chainStatus (Some processed) = ''failed''
         then markSigningRequestFailed now (sg_id row)
           (failureJson [(''txid'', nullish (getProp ''txid'' result) (JStr txid)),
              (''txidHex'', nullish (getProp ''txidHex'' result) (JStr txid)),
              (''txidBase58'', nullish (getProp ''txidBase58'' result) JNull)] processed) rows
         else markSigningRequestSucceeded now (sg_id row) (withField ''processedTransaction'' processed result) rows)"

text \<open>The live readiness of \<open>GET\<close>; whatever throws is caught.\<close>

definition getReadiness :: "('t, 'm) hub_setup \<Rightarrow> arch_network \<Rightarrow> signing_row \<Rightarrow> ready_answers \<Rightarrow> readiness" where
  "getReadiness S network row ans =
     (let display = sg_display row in
      if isTransfer row then
        (let fromArch = textOf (getProp ''archAccountAddress'' (getProp ''from'' display)) in
         if fromArch = [] then readinessOf ''unknown'' (Some ''MissingPayerAddress'')
         else case parsePubkey (hs_libs S) fromArch of
           None \<Rightarrow> readinessOf ''unknown'' (Some ''ReadinessError'')
         | Some payer \<Rightarrow> (case readinessFor S network ans of
             None \<Rightarrow> readinessOf ''unknown'' (Some ''ReadinessError'') | Some r \<Rightarrow> r))
      else if sg_action row = ''arch.anchor'' then
        (let account = getProp ''account'' display; address = textOf (getProp ''btcAccountAddress'' account) in
         if textOf (getProp ''archAccountAddress'' account) = [] then readinessOf ''unknown'' (Some ''MissingArchAccount'')
         else if address = [] \<or> address = ''unknown'' then readinessOf ''not_ready'' (Some ''BtcAccountAddressUnknown'')
         else if textOf (getProp ''txid'' (getProp ''utxo'' display)) = []
           \<or> toNumber (getProp ''vout'' (getProp ''utxo'' display)) = JNonInteger then readinessOf ''not_ready'' (Some ''MissingUtxo'')
         else readinessOf ''ready'' None \<lparr> rd_address := Some address \<rparr>)
      else readinessOf ''unknown'' (Some ''NotApplicable''))"

definition readinessJson :: "readiness \<Rightarrow> json" where
  "readinessJson r = stripped (JObj [
     (''status'', JStr (rd_status r)),
     (''reason'', case rd_reason r of Some e \<Rightarrow> JStr e | None \<Rightarrow> JUndefined),
     (''anchoredUtxo'', case rd_anchored r of Some (t, v) \<Rightarrow> JObj [(''txid'', JStr t), (''vout'', JNum v)] | None \<Rightarrow> JUndefined),
     (''btcAccountAddress'', case rd_address r of Some a \<Rightarrow> JStr a | None \<Rightarrow> JUndefined),
     (''confirmations'', case rd_confirmations r of Some n \<Rightarrow> JNum n | None \<Rightarrow> JUndefined),
     (''requiredConfirmations'', case rd_required r of Some n \<Rightarrow> JNum n | None \<Rightarrow> JUndefined)])"

definition shownHash :: "('t, 'm) hub_setup \<Rightarrow> signing_row \<Rightarrow> string" where
  "shownHash S row = (if given (sg_displayHash row) then the (sg_displayHash row)
     else computeDisplayHash (al_sha256Hex (hs_libs S)) (sg_display row))"

definition getReply :: "('t, 'm) hub_setup \<Rightarrow> signing_row \<Rightarrow> readiness \<Rightarrow> json" where
  "getReply S row r = JObj [
     (''signingRequestId'', JStr (sg_id row)),
     (''status'', JStr (status_text (sg_status row))),
     (''actionType'', JStr (sg_action row)),
     (''payloadToSign'', sg_payload row),
     (''display'', sg_display row),
     (''displayHash'', JStr (shownHash S row)),
     (''result'', sg_result row),
     (''error'', sg_error row),
     (''expiresAt'', orNull (\<lambda>t. JStr (toISOString t)) (sg_expires row)),
     (''createdAt'', JStr (toISOString (sg_created row))),
     (''updatedAt'', JStr (toISOString (sg_updated row))),
     (''readiness'', readinessJson r)]"

definition askIndexer :: "('t, 'm) hub_setup \<Rightarrow> signing_row \<Rightarrow> 'm hub_call \<Rightarrow> 'm hub_call" where
  "askIndexer S row c =
     (if isTransfer row \<and> \<not> indexerForRequest (hs_config S) (hc_network c)
      then sendReply (Refuse 501 ''Indexer not configured (INDEXER_BASE_URL missing)'') c else c)"

definition decided :: "json option \<Rightarrow> bool" where
  "decided processed \<longleftrightarrow> chainStatus processed = ''failed'' \<or> chainStatus processed = ''processed''"

text \<open>
  A step that needs a transaction: an answer that is no exception and does not fit changes nothing.
\<close>

definition onRan :: "call_answer \<Rightarrow> 'm hub_call \<Rightarrow> 'm hub_world \<Rightarrow> 'm hub_call \<times> 'm hub_world \<Rightarrow> 'm hub_call \<times> 'm hub_world" where
  "onRan ans c w following = (case ans of Ran \<Rightarrow> following | Threw e \<Rightarrow> (threw e c, w) | _ \<Rightarrow> (c, w))"

definition findUserStep :: "draws \<Rightarrow> 'm hub_call \<Rightarrow> 'm hub_world \<Rightarrow> 'm hub_call \<times> 'm hub_world" where
  "findUserStep dr c w =
     (let (userId, db) = getOrCreateUserByExternalId (su_env dr) (hc_app c) (sb_external (hc_body c)) (ht_db (hw_tables w))
      in (goTo (AtLoad userId) c, w \<lparr> hw_tables := hw_tables w \<lparr> ht_db := db \<rparr> \<rparr>))"

definition claimStep :: "('t, 'm) hub_setup \<Rightarrow> draws \<Rightarrow> 'm hub_call \<Rightarrow> signing_row \<Rightarrow> 'm prepared \<Rightarrow> 'm hub_world \<Rightarrow> 'm hub_call \<times> 'm hub_world" where
  "claimStep S dr c row prep w =
     (case prep of
        PreparedMessage submitted result \<Rightarrow>
          (case claimMessage S dr row submitted result c (hw_tables w) of
             None \<Rightarrow> (threw ''Internal Server Error'' c, w)
           | Some (ok, tables) \<Rightarrow>
               (finish (if ok then statusReply row ''succeeded'' result
                        else Refuse 409 ''Signing request was already submitted by another concurrent request'') c,
                w \<lparr> hw_tables := tables \<rparr>))
      | PreparedTx submitted sig m \<Rightarrow>
          (let (ok, rows) = markSigningRequestSubmitted (he_now (su_env dr)) (sg_id row) submitted JNull (rowsOf w)
           in if ok then (goTo (AtBroadcast row sig m) c,
                  withRows rows w \<lparr> hw_sent := hw_sent w @ [\<lparr> bc_request = sg_id row, bc_signature = sig, bc_message = m \<rparr>] \<rparr>)
              else (finish (Refuse 409 ''Signing request was already submitted by another concurrent request'') c, withRows rows w)))"

definition markStep :: "('t, 'm) hub_setup \<Rightarrow> draws \<Rightarrow> 'm hub_call \<Rightarrow> signing_row \<Rightarrow> string \<Rightarrow> json \<Rightarrow> byte list \<Rightarrow> 'm \<Rightarrow> 'm hub_world \<Rightarrow>
     'm hub_call \<times> 'm hub_world" where
  "markStep S dr c row t processed sig m w =
     (case markOutcome S dr row t processed sig m c (hw_tables w) of
        None \<Rightarrow> (threw ''Internal Server Error'' c, w)
      | Some (r, tables) \<Rightarrow> (finish r c, w \<lparr> hw_tables := tables \<rparr>))"

fun submitStep :: "('t, 'm) hub_setup \<Rightarrow> draws \<Rightarrow> call_answer \<Rightarrow> 'm hub_call \<Rightarrow> 'm stage \<Rightarrow> 'm hub_world \<Rightarrow> 'm hub_call \<times> 'm hub_world" where
  "submitStep S dr ans c AtUser w = onRan ans c w (findUserStep dr c w)"
| "submitStep S dr ans c (AtLoad userId) w = onRan ans c w
     (afterLoad S (he_now (su_env dr)) userId (getSigningRequestForApp (hc_request c) (hc_app c) (rowsOf w)) c, w)"
| "submitStep S dr ans c (AtReadiness row) w =
     (case ans of ReadyIs a \<Rightarrow> (afterReady S row a c, w) | Threw e \<Rightarrow> (threw e c, w) | _ \<Rightarrow> (c, w))"
| "submitStep S dr ans c (AtClaim row prep) w = onRan ans c w (claimStep S dr c row prep w)"
| "submitStep S dr ans c (AtBroadcast row sig m) w =
     (case ans of TxId t \<Rightarrow> (goTo (AtRecord row t sig m) c, w) | Threw e \<Rightarrow> (goTo (AtBroadcastFailed row e) c, w) | _ \<Rightarrow> (c, w))"
| "submitStep S dr ans c (AtBroadcastFailed row e) w = onRan ans c w
     (threw e c, withRows (markSigningRequestFailed (he_now (su_env dr)) (sg_id row)
        (JObj [(''phase'', JStr ''broadcast''), (''message'', JStr e)]) (rowsOf w)) w)"
| "submitStep S dr ans c (AtRecord row t sig m) w = onRan ans c w
     (goTo (AtWait row t sig m) c, withRows (recordBroadcast (he_now (su_env dr)) (sg_id row)
        (JObj (txidFields (hs_libs S) t)) (rowsOf w)) w)"
| "submitStep S dr ans c (AtWait row t sig m) w =
     (case ans of
        Chain p \<Rightarrow> (if decided p then goTo (AtMark row t (the p) sig m) c
          else finish (statusReply row ''submitted'' (JObj (submitResult (hs_libs S) t sig m (hc_body c)))) c, w)
      | Threw e \<Rightarrow> (threw e c, w) | _ \<Rightarrow> (c, w))"
| "submitStep S dr ans c (AtMark row t p sig m) w = onRan ans c w (markStep S dr c row t p sig m w)"
| "submitStep S dr ans c stage w = (c, w)"

text \<open>One step of a \<open>GET\<close>. What the reconciliation throws is caught: the row that was read first is shown.\<close>

definition getLoadStep :: "('t, 'm) hub_setup \<Rightarrow> 'm hub_call \<Rightarrow> signing_row option \<Rightarrow> 'm hub_call" where
  "getLoadStep S c found =
     (case found of
        None \<Rightarrow> finish (Refuse 404 ''Unknown signingRequestId'') c
      | Some row \<Rightarrow>
          (case (if sg_status row = SrSubmitted \<and> archRpcUrlForRequest (hs_config S) (hc_network c) \<noteq> None
                 then reconcileTxid row else None) of
             Some txid \<Rightarrow> goTo (GetWait row txid) c
           | None \<Rightarrow> goTo (GetReadiness row) (askIndexer S row c)))"

definition onReconciled :: "('t, 'm) hub_setup \<Rightarrow> call_answer \<Rightarrow> 'm hub_call \<Rightarrow> signing_row \<Rightarrow> 'm hub_world \<Rightarrow>
     'm hub_call \<times> 'm hub_world \<Rightarrow> 'm hub_call \<times> 'm hub_world" where
  "onReconciled S ans c row w following =
     (case ans of Ran \<Rightarrow> following | Threw e \<Rightarrow> (goTo (GetReadiness row) (askIndexer S row c), w) | _ \<Rightarrow> (c, w))"

fun getStep :: "('t, 'm) hub_setup \<Rightarrow> draws \<Rightarrow> call_answer \<Rightarrow> 'm hub_call \<Rightarrow> 'm stage \<Rightarrow> 'm hub_world \<Rightarrow> 'm hub_call \<times> 'm hub_world" where
  "getStep S dr ans c GetLoad w = onRan ans c w
     (getLoadStep S c (getSigningRequestForApp (hc_request c) (hc_app c) (rowsOf w)), w)"
| "getStep S dr ans c (GetWait row txid) w =
     (case ans of
        Chain p \<Rightarrow> (if decided p then goTo (GetMark row txid (the p)) c else goTo (GetReadiness row) (askIndexer S row c), w)
      | Threw e \<Rightarrow> (goTo (GetReadiness row) (askIndexer S row c), w)
      | _ \<Rightarrow> (c, w))"
| "getStep S dr ans c (GetMark row txid p) w = onReconciled S ans c row w
     (goTo (GetReread row) c, withRows (reconcileRows (he_now (su_env dr)) row txid p (rowsOf w)) w)"
| "getStep S dr ans c (GetReread row) w = onReconciled S ans c row w
     (case getSigningRequestForApp (hc_request c) (hc_app c) (rowsOf w) of
        None \<Rightarrow> threw ''Internal Server Error'' c
      | Some row' \<Rightarrow> goTo (GetReadiness row') (askIndexer S row' c), w)"
| "getStep S dr ans c (GetReadiness row) w =
     (case ans of
        ReadyIs a \<Rightarrow> (finish (Answer (getReply S row (getReadiness S (hc_network c) row a))) c, w)
      | _ \<Rightarrow> (c, w))"
| "getStep S dr ans c stage w = (c, w)"

fun isGet :: "'m stage \<Rightarrow> bool" where
  "isGet GetLoad = True"
| "isGet (GetWait row t) = True"
| "isGet (GetMark row t p) = True"
| "isGet (GetReread row) = True"
| "isGet (GetReadiness row) = True"
| "isGet stage = False"

datatype hub_event =
    StartSubmit nat "string option" string arch_network submit_body
  | StartGet nat "string option" string arch_network
  | Create arch_network draws draws create_answers "string option" create_body
  | Resume nat draws call_answer

definition newCall :: "string option \<Rightarrow> string \<Rightarrow> arch_network \<Rightarrow> submit_body \<Rightarrow> 'm stage \<Rightarrow> 'm hub_call" where
  "newCall app rid network body stage =
     (if given app
      then \<lparr> hc_app = the app, hc_request = rid, hc_network = network, hc_body = body, hc_stage = stage, hc_reply = None \<rparr>
      else \<lparr> hc_app = [], hc_request = rid, hc_network = network, hc_body = body, hc_stage = Ended,
             hc_reply = Some (Refuse 401 ''Missing app context'') \<rparr>)"

definition noBody :: submit_body where
  "noBody = \<lparr> sb_external = [], sb_signature = None, sb_signed = None, sb_activity = None \<rparr>"

fun hubStep :: "('t, 'm) hub_setup \<Rightarrow> hub_event \<Rightarrow> 'm hub_world \<Rightarrow> 'm hub_world" where
  "hubStep S (StartSubmit i app rid network body) w =
     (if hw_calls w i = None then withCall i (newCall app rid network body AtUser) w else w)"
| "hubStep S (StartGet i app rid network) w =
     (if hw_calls w i = None then withCall i (newCall app rid network noBody GetLoad) w else w)"
| "hubStep S (Create network drUser dr ans app body) w =
     w \<lparr> hw_tables := snd (postSigningRequest S network drUser dr ans app body (hw_tables w)) \<rparr>"
| "hubStep S (Resume i dr ans) w =
     (case hw_calls w i of
        None \<Rightarrow> w
      | Some c \<Rightarrow>
          (let (c', w') = (if isGet (hc_stage c) then getStep S dr ans c (hc_stage c) w
                           else submitStep S dr ans c (hc_stage c) w)
           in withCall i c' w'))"

text \<open>The hub starts without requests and calls; users, resources and the audit log may be there.\<close>

definition startWorld :: "hub_db \<Rightarrow> audit_row list \<Rightarrow> 'm hub_world" where
  "startWorld db audit =
     \<lparr> hw_tables = \<lparr> ht_db = db, ht_requests = [], ht_audit = audit \<rparr>, hw_sent = [], hw_calls = (\<lambda>i. None) \<rparr>"

inductive reachable :: "('t, 'm) hub_setup \<Rightarrow> 'm hub_world \<Rightarrow> bool" for S where
  start: "reachable S (startWorld db audit)"
| step: "reachable S w \<Longrightarrow> reachable S (hubStep S ev w)"

definition runHub :: "('t, 'm) hub_setup \<Rightarrow> hub_event list \<Rightarrow> 'm hub_world \<Rightarrow> 'm hub_world" where
  "runHub S evs w = fold (hubStep S) evs w"

lemma reachable_runHub: "reachable S w \<Longrightarrow> reachable S (runHub S evs w)"
  by (induction evs arbitrary: w) (auto simp: runHub_def intro: reachable.step)

end
