(* ===== verification/SubmitSafety.thy ===== *)
theory SubmitSafety
  imports SubmitRequest
begin

text \<open>
  What holds of every interleaving of the calls of \<open>SubmitRequest\<close>: requests only move forward, at most one
  broadcast for each, and only of what its owner signed.
\<close>

subsection \<open>Rows only move forward\<close>

text \<open>What the columns that no update writes say.\<close>

definition sameRequest :: "signing_row \<Rightarrow> signing_row \<Rightarrow> bool" where
  "sameRequest r r' \<longleftrightarrow> sg_id r' = sg_id r \<and> sg_app r' = sg_app r \<and> sg_user r' = sg_user r \<and> sg_action r' = sg_action r
     \<and> sg_payload r' = sg_payload r \<and> sg_display r' = sg_display r \<and> sg_expires r' = sg_expires r"

definition movesOn :: "signing_row \<Rightarrow> signing_row \<Rightarrow> bool" where
  "movesOn r r' \<longleftrightarrow> sameRequest r r' \<and> (sg_status r' = SrPending \<longrightarrow> sg_status r = SrPending)"

definition rowsGrow :: "signing_row list \<Rightarrow> signing_row list \<Rightarrow> bool" where
  "rowsGrow rows rows' \<longleftrightarrow> (\<forall>r\<in>set rows. \<exists>r'\<in>set rows'. movesOn r r') \<and>
     (distinct (map sg_id rows) \<longrightarrow> distinct (map sg_id rows'))"

lemma sameRequest_refl [simp]: "sameRequest r r"
  by (simp add: sameRequest_def)

lemma sameRequest_trans: "sameRequest a b \<Longrightarrow> sameRequest b c \<Longrightarrow> sameRequest a c"
  by (simp add: sameRequest_def)

lemma movesOn_refl [simp]: "movesOn r r"
  by (simp add: movesOn_def)

lemma movesOn_trans: "movesOn a b \<Longrightarrow> movesOn b c \<Longrightarrow> movesOn a c"
  by (auto simp: movesOn_def intro: sameRequest_trans)

lemma rowsGrow_refl [simp]: "rowsGrow rows rows"
  by (auto simp: rowsGrow_def intro: movesOn_refl)

lemma rowsGrow_trans: "rowsGrow a b \<Longrightarrow> rowsGrow b c \<Longrightarrow> rowsGrow a c"
  unfolding rowsGrow_def by (meson movesOn_trans)

lemma rowsGrow_update:
  assumes "\<And>r. p r \<Longrightarrow> movesOn r (f r)"
  shows "rowsGrow rows (updateRow p f rows)"
proof -
  have same: "movesOn r (if p r then f r else r)" for r using assms by simp
  then have "map sg_id (updateRow p f rows) = map sg_id rows"
    by (simp add: updateRow_def movesOn_def sameRequest_def)
  moreover have "\<forall>r\<in>set rows. \<exists>r'\<in>set (updateRow p f rows). movesOn r r'"
  proof
    fix r assume "r \<in> set rows"
    then have "(if p r then f r else r) \<in> set (updateRow p f rows)" unfolding updateRow_def set_map by (rule imageI)
    then show "\<exists>r'\<in>set (updateRow p f rows). movesOn r r'" using same [of r] by (rule rev_bexI)
  qed
  ultimately show ?thesis unfolding rowsGrow_def by simp
qed

lemma rowsGrow_marks:
  "rowsGrow rows (snd (markSigningRequestSubmitted now rid sub res rows))"
  "rowsGrow rows (markSigningRequestSucceeded now rid res rows)"
  "rowsGrow rows (markSigningRequestFailed now rid res rows)"
  "rowsGrow rows (recordBroadcast now rid res rows)"
  unfolding markSigningRequestSubmitted_def markSigningRequestSucceeded_def markSigningRequestFailed_def recordBroadcast_def
    Let_def snd_conv
  by (rule rowsGrow_update, simp add: movesOn_def sameRequest_def)+

lemma rowsGrow_reconcile: "rowsGrow rows (reconcileRows now row txid p rows)"
  unfolding reconcileRows_def Let_def by (simp add: rowsGrow_marks)

lemma rowsGrow_append: "sg_id row \<notin> sg_id ` set rows \<Longrightarrow> rowsGrow rows (rows @ [row])"
  by (auto simp: rowsGrow_def intro: movesOn_refl)

lemma rowsGrow_insert:
  assumes "insertSigningRequest dr a u k ad rs act p d h ex rows = Some (row, rows')"
  shows "rowsGrow rows rows'"
  using assms by (auto simp: insertSigningRequest_def Let_def split: if_splits intro!: rowsGrow_append)

definition usersKept :: "hub_db \<Rightarrow> hub_db \<Rightarrow> bool" where
  "usersKept db db' \<longleftrightarrow> set (users db) \<subseteq> set (users db')"

lemma usersKept_refl [simp]: "usersKept db db"
  by (simp add: usersKept_def)

lemma getOrCreate_user:
  assumes "getOrCreateUserByExternalId env appId ext db = (u, db')"
  shows "usersKept db db' \<and> (\<exists>x\<in>set (users db'). us_id x = u \<and> us_app x = appId \<and> us_external x = Some ext)"
  using assms
  by (auto simp: getOrCreateUserByExternalId_def usersKept_def find_Some_iff split: option.splits)

lemma turnkeySigner_users: "turnkeySigner L acc a u rid db = (x, db') \<Longrightarrow> users db' = users db"
  by (auto simp: turnkeySigner_def Let_def updateTurnkeyResourceDefaultPublicKeyHexForApp_def
      split: option.splits if_splits sum.splits)

lemma resolveSigner_users: "resolveSigner S ans a u signer db = (x, db') \<Longrightarrow> users db' = users db"
  by (auto simp: resolveSigner_def Let_def split: signer_body.splits prod.splits dest: turnkeySigner_users)

definition tablesGrow :: "hub_tables \<Rightarrow> hub_tables \<Rightarrow> bool" where
  "tablesGrow t t' \<longleftrightarrow> rowsGrow (ht_requests t) (ht_requests t') \<and> usersKept (ht_db t) (ht_db t')"

lemma tablesGrow_refl [simp]: "tablesGrow t t"
  by (simp add: tablesGrow_def)

lemma tablesGrow_trans: "tablesGrow a b \<Longrightarrow> tablesGrow b c \<Longrightarrow> tablesGrow a c"
  by (auto simp: tablesGrow_def usersKept_def intro: rowsGrow_trans)

lemma persist_grow: "persistRequest S dr a u who ex p t = (x, t') \<Longrightarrow> tablesGrow t t'"
  by (auto simp: persistRequest_def tablesGrow_def split: option.splits prod.splits dest: rowsGrow_insert)

lemma create_grow: "tablesGrow t (snd (postSigningRequest S network drUser dr ans app body t))"
proof -
  obtain u db1 where u: "getOrCreateUserByExternalId (su_env drUser) (the app) (cb_externalUserId body) (ht_db t) = (u, db1)"
    by (meson surj_pair)
  obtain who db2 where who: "resolveSigner S ans (the app) u (cb_signer body) db1 = (who, db2)"
    by (meson surj_pair)
  let ?t = "t \<lparr> ht_db := db2 \<rparr>"
  have grow: "tablesGrow t ?t"
    using getOrCreate_user [OF u] resolveSigner_users [OF who] by (auto simp: tablesGrow_def usersKept_def)
  have "tablesGrow t (snd (persistRequest S dr a v w ex p ?t))" for a v w ex p
    by (rule tablesGrow_trans [OF grow persist_grow]) (rule prod.collapse [symmetric])
  then have "tablesGrow t t'" if "persistRequest S dr a v w ex p ?t = (x, t')" for a v w ex p x t'
    using that by (metis snd_conv)
  then show ?thesis
    using grow by (auto simp: postSigningRequest_def Let_def u who split: option.splits sum.splits prod.splits)
qed

subsection \<open>What a call has checked\<close>

definition payloadField :: "string \<Rightarrow> signing_row \<Rightarrow> string" where
  "payloadField k row = textOf (getProp k (sg_payload row))"

text \<open>
  The signature verifies under the output key of the address the request names, over the digest that
  the request stores, and that digest is the one of the message that its display compiles to.
\<close>

definition authorisedTx :: "('t, 'm) arch_libs \<Rightarrow> signing_row \<Rightarrow> byte list \<Rightarrow> 'm \<Rightarrow> bool" where
  "authorisedTx L row sig m \<longleftrightarrow>
     (\<exists>sig64 outputKey digest keys instructions.
        sig = al_adjust L sig64
        \<and> taprootProgram L (payloadField ''signWith'' row) = Some outputKey
        \<and> al_schnorr L sig64 digest outputKey = Some True
        \<and> hubToSignSighash L (payloadField ''signWith'' row) (al_messageHash L m) = Some digest
        \<and> payloadField ''payloadHex'' row = bytesToHex digest
        \<and> submitKeys L row = Inr keys
        \<and> storedInstructions L (sk_payer keys) row = Inr instructions
        \<and> al_compile L instructions (sk_payer keys) (bufferFromHex (sk_blockhashHex keys)) = Inr m)"

lemma orThrow_Inr [simp]: "orThrow x = Inr a \<longleftrightarrow> x = Some a"
  by (cases x) (simp_all add: orThrow_def)

lemma resolve_taproot:
  assumes "resolveArchAccountAddress L a = Some (TaprootAccount t arch xOnly)"
  shows "\<exists>key. taprootProgram L a = Some key \<and> xOnly = bytesToHex key \<and> arch = al_b58encode L key \<and> t = a"
  using assms by (auto simp: resolveArchAccountAddress_def split: if_splits)

lemma storedOutputKey_facts:
  assumes "storedOutputKey L row = Inr (payloadHex, signWith, outputKey)"
  shows "payloadHex = payloadField ''payloadHex'' row \<and> signWith = payloadField ''signWith'' row
    \<and> (\<exists>key. taprootProgram L signWith = Some key \<and> outputKey = bytesToHex key)"
  using assms
  by (auto simp: storedOutputKey_def payloadField_def Let_def split: if_splits option.splits resolved_account.splits
      dest: resolve_taproot)

lemma checkSignature_facts:
  assumes "checkSignature L row keys sig64 = Inr (payloadHex, signWith, outputKey)"
  shows "storedOutputKey L row = Inr (payloadHex, signWith, outputKey)
    \<and> al_schnorr L sig64 (bufferFromHex payloadHex) (bufferFromHex outputKey) = Some True"
  using assms by (auto simp: checkSignature_def rbind_eq_Inr_iff split: if_splits)

lemma prepare_authorised:
  assumes "prepareSubmit L url row keys body = Inr (PreparedTx sub sig m)" "submitKeys L row = Inr keys"
  shows "authorisedTx L row sig m"
proof -
  obtain instructions sig64 js payloadHex signWith outputKey digest where
    f: "storedInstructions L (sk_payer keys) row = Inr instructions"
      "checkSignature L row keys sig64 = Inr (payloadHex, signWith, outputKey)"
      "al_compile L instructions (sk_payer keys) (bufferFromHex (sk_blockhashHex keys)) = Inr m"
      "hubToSignSighash L signWith (al_messageHash L m) = Some digest"
      "bytesToHex digest = payloadHex" "sig = al_adjust L sig64"
    using assms(1) by (auto simp: prepareSubmit_def rbind_eq_Inr_iff split: if_splits sum.splits prod.splits)
  then obtain key where key: "payloadHex = payloadField ''payloadHex'' row" "signWith = payloadField ''signWith'' row"
      "taprootProgram L signWith = Some key" "outputKey = bytesToHex key"
      "al_schnorr L sig64 (bufferFromHex payloadHex) (bufferFromHex outputKey) = Some True"
    using checkSignature_facts [OF f(2)] storedOutputKey_facts by blast
  have "al_schnorr L sig64 digest key = Some True"
    using key(4,5) f(5) [symmetric] by simp
  then show ?thesis
    unfolding authorisedTx_def
    by (intro exI [of _ sig64] exI [of _ key] exI [of _ digest] exI [of _ keys] exI [of _ instructions])
      (use f key assms(2) in simp)
qed

lemma authorised_same:
  assumes "sameRequest r r'"
  shows "authorisedTx L r' sig m \<longleftrightarrow> authorisedTx L r sig m"
proof -
  have eqs: "sg_payload r' = sg_payload r" "sg_display r' = sg_display r" "sg_action r' = sg_action r"
    using assms by (simp_all add: sameRequest_def)
  have "submitKeys L r' = submitKeys L r" "payloadField k r' = payloadField k r" "storedInstructions L p r' = storedInstructions L p r" for k p
    unfolding submitKeys_def payloadField_def storedInstructions_def eqs by (rule refl)+
  then show ?thesis by (simp add: authorisedTx_def)
qed

subsection \<open>The invariant\<close>

definition knownUser :: "hub_db \<Rightarrow> 'm hub_call \<Rightarrow> string \<Rightarrow> bool" where
  "knownUser db c u \<longleftrightarrow>
     (\<exists>x\<in>set (users db). us_id x = u \<and> us_app x = hc_app c \<and> us_external x = Some (sb_external (hc_body c)))"

text \<open>The row a call has read is in the table, is the one it asks for, and belongs to its user.\<close>

definition holds :: "hub_tables \<Rightarrow> 'm hub_call \<Rightarrow> signing_row \<Rightarrow> bool" where
  "holds t c row \<longleftrightarrow> (\<exists>r\<in>set (ht_requests t). sameRequest row r) \<and> sg_id row = hc_request c \<and> sg_app row = hc_app c
     \<and> knownUser (ht_db t) c (sg_user row)"

fun stageOk :: "('t, 'm) arch_libs \<Rightarrow> hub_tables \<Rightarrow> 'm hub_call \<Rightarrow> 'm stage \<Rightarrow> bool" where
  "stageOk L t c (AtLoad u) = knownUser (ht_db t) c u"
| "stageOk L t c (AtReadiness row) = holds t c row"
| "stageOk L t c (AtClaim row p) = (holds t c row \<and> (\<forall>sub sig m. p = PreparedTx sub sig m \<longrightarrow> authorisedTx L row sig m))"
| "stageOk L t c stage = True"

definition sameCall :: "'m hub_call \<Rightarrow> 'm hub_call \<Rightarrow> bool" where
  "sameCall c c' \<longleftrightarrow> hc_app c' = hc_app c \<and> hc_request c' = hc_request c \<and> hc_network c' = hc_network c \<and> hc_body c' = hc_body c"

lemma knownUser_grow: "tablesGrow t t' \<Longrightarrow> knownUser (ht_db t) c u \<Longrightarrow> knownUser (ht_db t') c u"
  by (auto simp: knownUser_def tablesGrow_def usersKept_def)

lemma holds_grow:
  assumes "tablesGrow t t'" "holds t c row"
  shows "holds t' c row"
proof -
  obtain r where r: "r \<in> set (ht_requests t)" "sameRequest row r" using assms(2) by (auto simp: holds_def)
  then obtain r' where "r' \<in> set (ht_requests t')" "movesOn r r'"
    using assms(1) by (auto simp: tablesGrow_def rowsGrow_def)
  then have "\<exists>r\<in>set (ht_requests t'). sameRequest row r" using r(2) by (meson movesOn_def sameRequest_trans)
  then show ?thesis using assms knownUser_grow unfolding holds_def by blast
qed

lemma stageOk_grow: "tablesGrow t t' \<Longrightarrow> stageOk L t c stage \<Longrightarrow> stageOk L t' c stage"
  by (cases stage) (auto intro: knownUser_grow holds_grow)

lemma knownUser_call: "sameCall c c' \<Longrightarrow> knownUser db c' u = knownUser db c u"
  by (simp add: knownUser_def sameCall_def)

lemma holds_call: "sameCall c c' \<Longrightarrow> holds t c' row = holds t c row"
  by (simp add: holds_def knownUser_def sameCall_def)

lemma stageOk_call:
  assumes "sameCall c c'"
  shows "stageOk L t c' stage = stageOk L t c stage"
  by (cases stage) (simp_all add: knownUser_call [OF assms] holds_call [OF assms])

lemma sameCall_updates [simp]:
  "sameCall c (sendReply r c)" "sameCall c (finish r c)" "sameCall c (goTo st c)" "sameCall c (threw e c)"
  "sameCall c (askIndexer S row c)" "sameCall c c" "sameCall c (goTo st (sendReply r c))" "sameCall c (goTo st (askIndexer S row c))"
  by (simp_all add: sameCall_def sendReply_def finish_def goTo_def threw_def askIndexer_def split: option.splits)

lemma stage_updates [simp]:
  "hc_stage (finish r c) = Ended" "hc_stage (goTo st c) = st" "hc_stage (threw e c) = Ended"
  by (simp_all add: finish_def goTo_def threw_def)

lemma sameCall_trans: "sameCall a b \<Longrightarrow> sameCall b c \<Longrightarrow> sameCall a c"
  by (simp add: sameCall_def)

definition callOk :: "('t, 'm) arch_libs \<Rightarrow> hub_tables \<Rightarrow> 'm hub_call \<Rightarrow> bool" where
  "callOk L t c \<longleftrightarrow> stageOk L t c (hc_stage c)"

text \<open>A broadcast is of a request that is pending no more, by the call of its owner.\<close>

definition sentOk :: "('t, 'm) arch_libs \<Rightarrow> 'm hub_world \<Rightarrow> 'm broadcast \<Rightarrow> bool" where
  "sentOk L w b \<longleftrightarrow>
     (\<exists>row\<in>set (rowsOf w). sg_id row = bc_request b \<and> sg_status row \<noteq> SrPending \<and> authorisedTx L row (bc_signature b) (bc_message b)
       \<and> (\<exists>i c. hw_calls w i = Some c \<and> hc_request c = sg_id row \<and> hc_app c = sg_app row
            \<and> knownUser (ht_db (hw_tables w)) c (sg_user row)))"

definition hubInv :: "('t, 'm) hub_setup \<Rightarrow> 'm hub_world \<Rightarrow> bool" where
  "hubInv S w \<longleftrightarrow> distinct (map sg_id (rowsOf w)) \<and> distinct (map bc_request (hw_sent w))
     \<and> (\<forall>b\<in>set (hw_sent w). sentOk (hs_libs S) w b)
     \<and> (\<forall>i c. hw_calls w i = Some c \<longrightarrow> callOk (hs_libs S) (hw_tables w) c)"

text \<open>What one step of a call may do to the rest.\<close>

definition claims :: "'m hub_world \<Rightarrow> 'm hub_call \<Rightarrow> 'm hub_world \<Rightarrow> bool" where
  "claims w c w' \<longleftrightarrow> (\<exists>row sub sig m. hc_stage c = AtClaim row (PreparedTx sub sig m)
     \<and> hw_sent w' = hw_sent w @ [\<lparr> bc_request = sg_id row, bc_signature = sig, bc_message = m \<rparr>]
     \<and> (\<exists>r\<in>set (rowsOf w). sg_id r = sg_id row \<and> sg_status r = SrPending)
     \<and> (\<forall>r\<in>set (rowsOf w'). sg_id r = sg_id row \<longrightarrow> sg_status r \<noteq> SrPending))"

definition goodStep :: "('t, 'm) hub_setup \<Rightarrow> 'm hub_call \<Rightarrow> 'm hub_world \<Rightarrow> 'm hub_call \<Rightarrow> 'm hub_world \<Rightarrow> bool" where
  "goodStep S c w c' w' \<longleftrightarrow> tablesGrow (hw_tables w) (hw_tables w') \<and> hw_calls w' = hw_calls w \<and> sameCall c c'
     \<and> callOk (hs_libs S) (hw_tables w') c' \<and> (hw_sent w' = hw_sent w \<or> claims w c w')"

lemma load_holds:
  assumes "rbind (loadChecks now u (getSigningRequestForApp (hc_request c) (hc_app c) (ht_requests t))) f = Inr x"
    "knownUser (ht_db t) c u"
  shows "\<exists>row. f row = Inr x \<and> holds t c row \<and> sg_status row = SrPending"
proof -
  obtain row where row: "getSigningRequestForApp (hc_request c) (hc_app c) (ht_requests t) = Some row" "sg_user row = u"
      "sg_status row = SrPending" "f row = Inr x"
    using assms(1) by (auto simp: rbind_eq_Inr_iff loadChecks_def split: option.splits if_splits)
  then have "row \<in> set (ht_requests t) \<and> sg_id row = hc_request c \<and> sg_app row = hc_app c"
    by (auto simp: getSigningRequestForApp_def find_Some_iff)
  then show ?thesis using row assms(2) sameRequest_refl unfolding holds_def by blast
qed

lemma callOk_ended: "hc_stage c = Ended \<Longrightarrow> callOk L t c"
  by (simp add: callOk_def)

lemma callOk_goTo: "callOk L t (goTo st c) = stageOk L t c st"
  unfolding callOk_def stage_updates by (rule stageOk_call) simp

lemma afterReadiness_ok:
  assumes "holds t c row" "submitKeys (hs_libs S) row = Inr keys"
  shows "callOk (hs_libs S) t (afterReadiness S row keys c) \<and> sameCall c (afterReadiness S row keys c)"
  using assms prepare_authorised [OF _ assms(2)]
  by (auto simp: afterReadiness_def callOk_goTo callOk_ended split: sum.splits)

lemma afterLoad_ok:
  assumes "knownUser (ht_db t) c u"
    "found = getSigningRequestForApp (hc_request c) (hc_app c) (ht_requests t)"
  shows "callOk (hs_libs S) t (afterLoad S now u found c) \<and> sameCall c (afterLoad S now u found c)"
proof (cases "rbind (loadChecks now u found) (\<lambda>row. rbind (submitKeys (hs_libs S) row) (\<lambda>keys. Inr (row, keys)))")
  case (Inl e)
  then show ?thesis by (cases e) (simp add: afterLoad_def callOk_ended)
next
  case (Inr p)
  then obtain row keys where p: "p = (row, keys)" "holds t c row" "submitKeys (hs_libs S) row = Inr keys"
    using load_holds [OF Inr [unfolded assms(2)] assms(1)] by (auto simp: rbind_eq_Inr_iff)
  have "holds t (sendReply r c) row" for r using p(2) holds_call [of c "sendReply r c"] by simp
  then show ?thesis
    using Inr p afterReadiness_ok [OF p(2,3)]
    by (auto simp: afterLoad_def callOk_goTo callOk_ended intro: sameCall_trans [OF sameCall_updates(1)])
qed

lemma afterReady_ok:
  assumes "holds t c row"
  shows "callOk (hs_libs S) t (afterReady S row a c) \<and> sameCall c (afterReady S row a c)"
  using afterReadiness_ok [OF assms]
  by (auto simp: afterReady_def callOk_ended split: option.splits sum.splits prod.splits)

lemma claimMessage_grow:
  assumes "claimMessage S dr row sub res c t = Some (ok, t')"
  shows "tablesGrow t t'"
proof -
  obtain ok' rows where m: "markSigningRequestSubmitted (he_now (su_env dr)) (sg_id row) sub res (ht_requests t) = (ok', rows)"
    by (meson surj_pair)
  have "rowsGrow (ht_requests t) rows" using rowsGrow_marks(1) m by (metis snd_conv)
  then have "rowsGrow (ht_requests t) rows" "rowsGrow (ht_requests t) (markSigningRequestSucceeded (he_now (su_env dr)) (sg_id row) res rows)"
    using rowsGrow_trans rowsGrow_marks(2) by blast+
  then show ?thesis
    using assms unfolding claimMessage_def Let_def m
    by (auto simp: tablesGrow_def split: if_splits option.splits)
qed

lemma markOutcome_grow: "markOutcome S dr row t p sig m c tb = Some (r, tb') \<Longrightarrow> tablesGrow tb tb'"
  by (auto simp: markOutcome_def Let_def tablesGrow_def rowsGrow_marks split: if_splits)

lemma submitted_now:
  assumes "markSigningRequestSubmitted now rid sub res rows = (ok, rows')" "r \<in> set rows'" "sg_id r = rid"
  shows "sg_status r \<noteq> SrPending"
proof -
  let ?p = "\<lambda>r. sg_id r = rid \<and> sg_status r = SrPending"
  obtain r0 where r0: "r0 \<in> set rows" "r = (if ?p r0 then r0 \<lparr> sg_status := SrSubmitted, sg_submitted := stripped sub,
      sg_result := (if truthy res then stripped res else sg_result r0), sg_updated := now \<rparr> else r0)"
    using assms(1,2) unfolding markSigningRequestSubmitted_def updateRow_def Let_def by auto
  show ?thesis by (cases "?p r0") (use r0(2) assms(3) in auto)
qed

lemma rowsOf_withRows [simp]: "rowsOf (withRows rows w) = rows" "ht_requests (hw_tables (withRows rows w)) = rows"
  "ht_db (hw_tables (withRows rows w)) = ht_db (hw_tables w)" "hw_calls (withRows rows w) = hw_calls w"
  "hw_sent (withRows rows w) = hw_sent w"
  by (simp_all add: rowsOf_def withRows_def)

lemma withRows_grow: "rowsGrow (rowsOf w) rows \<Longrightarrow> tablesGrow (hw_tables w) (hw_tables (withRows rows w))"
  by (simp add: tablesGrow_def rowsOf_def)

lemma claimStep_good:
  assumes "hc_stage c = AtClaim row p" "claimStep S dr c row p w = (c', w')"
  shows "goodStep S c w c' w'"
proof (cases p)
  case (PreparedMessage sub res)
  then show ?thesis
    using assms claimMessage_grow
    by (auto simp: claimStep_def goodStep_def callOk_ended split: option.splits prod.splits)
next
  case (PreparedTx sub sig m)
  obtain ok rows where k: "markSigningRequestSubmitted (he_now (su_env dr)) (sg_id row) sub JNull (rowsOf w) = (ok, rows)"
    by (meson surj_pair)
  have grow: "rowsGrow (rowsOf w) rows" using rowsGrow_marks(1) k by (metis snd_conv)
  have "claims w c w'" if "ok" "w' = withRows rows w \<lparr> hw_sent := hw_sent w @ [\<lparr> bc_request = sg_id row, bc_signature = sig, bc_message = m \<rparr>] \<rparr>"
  proof -
    have "\<exists>r\<in>set (rowsOf w). sg_id r = sg_id row \<and> sg_status r = SrPending"
      using k that(1) by (auto simp: markSigningRequestSubmitted_def Let_def)
    moreover have "\<forall>r\<in>set (rowsOf w'). sg_id r = sg_id row \<longrightarrow> sg_status r \<noteq> SrPending"
      using submitted_now [OF k] that(2) by (simp add: rowsOf_def withRows_def)
    ultimately show ?thesis
      unfolding claims_def using assms(1) PreparedTx that(2)
      by (intro exI [of _ row] exI [of _ sub] exI [of _ sig] exI [of _ m]) simp
  qed
  then show ?thesis
    using assms PreparedTx withRows_grow [OF grow]
    by (auto simp: claimStep_def goodStep_def callOk_ended callOk_goTo k split: if_splits)
qed

lemma goodStep_stay: "callOk (hs_libs S) (hw_tables w) c' \<Longrightarrow> sameCall c c' \<Longrightarrow> goodStep S c w c' w"
  by (simp add: goodStep_def)

lemma goodStep_rows:
  "rowsGrow (rowsOf w) rows \<Longrightarrow> sameCall c c' \<Longrightarrow> callOk (hs_libs S) (hw_tables (withRows rows w)) c' \<Longrightarrow>
   goodStep S c w c' (withRows rows w)"
  by (simp add: goodStep_def withRows_grow)

lemma goodStep_threw: "goodStep S c w (threw e c) w"
  by (rule goodStep_stay) (simp_all add: callOk_ended)

lemma goodStep_onRan:
  assumes "callOk (hs_libs S) (hw_tables w) c" "goodStep S c w (fst p) (snd p)"
  shows "goodStep S c w (fst (onRan ans c w p)) (snd (onRan ans c w p))"
  using assms by (auto simp: onRan_def goodStep_stay goodStep_threw split: call_answer.splits)

lemma goodStep_onReconciled:
  assumes "callOk (hs_libs S) (hw_tables w) c" "goodStep S c w (fst p) (snd p)"
  shows "goodStep S c w (fst (onReconciled S ans c row w p)) (snd (onReconciled S ans c row w p))"
  using assms by (auto simp: onReconciled_def goodStep_stay callOk_goTo split: call_answer.splits)

lemma findUser_good: "goodStep S c w (fst (findUserStep dr c w)) (snd (findUserStep dr c w))"
proof -
  obtain u db where u: "getOrCreateUserByExternalId (su_env dr) (hc_app c) (sb_external (hc_body c)) (ht_db (hw_tables w)) = (u, db)"
    by (meson surj_pair)
  show ?thesis
    using getOrCreate_user [OF u]
    by (auto simp: findUserStep_def u goodStep_def tablesGrow_def callOk_goTo knownUser_def)
qed

lemma markStep_good: "goodStep S c w (fst (markStep S dr c row t p sig m w)) (snd (markStep S dr c row t p sig m w))"
  by (auto simp: markStep_def goodStep_threw goodStep_def callOk_ended tablesGrow_def dest: markOutcome_grow split: option.splits)

lemma submitStep_good:
  assumes ok: "callOk (hs_libs S) (hw_tables w) c"
  shows "goodStep S c w (fst (submitStep S dr ans c (hc_stage c) w)) (snd (submitStep S dr ans c (hc_stage c) w))"
proof (cases "hc_stage c")
  case AtUser
  then show ?thesis using goodStep_onRan [OF ok findUser_good] by simp
next
  case (AtLoad u)
  have "knownUser (ht_db (hw_tables w)) c u" using ok AtLoad by (simp add: callOk_def)
  then show ?thesis
    using AtLoad by (simp add: goodStep_onRan [OF ok] goodStep_stay afterLoad_ok [OF _ refl] rowsOf_def)
next
  case (AtReadiness row)
  have "holds (hw_tables w) c row" using ok AtReadiness by (simp add: callOk_def)
  then show ?thesis
    using AtReadiness ok by (auto simp: goodStep_stay afterReady_ok goodStep_threw split: call_answer.splits)
next
  case (AtClaim row p)
  then show ?thesis
    using goodStep_onRan [OF ok claimStep_good [OF AtClaim prod.collapse [symmetric]]] by simp
next
  case (AtBroadcast row sig m)
  then show ?thesis using ok by (auto simp: goodStep_stay callOk_goTo split: call_answer.splits)
next
  case (AtBroadcastFailed row e)
  then show ?thesis
    by (simp add: goodStep_onRan [OF ok] goodStep_rows rowsGrow_marks callOk_ended)
next
  case (AtRecord row t sig m)
  then show ?thesis
    by (simp add: goodStep_onRan [OF ok] goodStep_rows rowsGrow_marks callOk_goTo)
next
  case (AtWait row t sig m)
  then show ?thesis
    using ok by (auto simp: goodStep_stay goodStep_threw callOk_goTo callOk_ended split: call_answer.splits)
next
  case (AtMark row t p sig m)
  then show ?thesis using goodStep_onRan [OF ok markStep_good] by simp
qed (use ok in \<open>simp_all add: goodStep_stay\<close>)

lemma getLoadStep_ok: "callOk L t (getLoadStep S c found) \<and> sameCall c (getLoadStep S c found)"
  by (auto simp: getLoadStep_def callOk_ended callOk_goTo callOk_def split: option.splits)

lemma getStep_good:
  assumes ok: "callOk (hs_libs S) (hw_tables w) c"
  shows "goodStep S c w (fst (getStep S dr ans c (hc_stage c) w)) (snd (getStep S dr ans c (hc_stage c) w))"
proof (cases "hc_stage c")
  case GetLoad
  then show ?thesis by (simp add: goodStep_onRan [OF ok] goodStep_stay getLoadStep_ok)
next
  case (GetWait row t)
  then show ?thesis using ok by (auto simp: goodStep_stay callOk_def split: call_answer.splits)
next
  case (GetMark row t p)
  then show ?thesis by (simp add: goodStep_onReconciled [OF ok] goodStep_rows rowsGrow_reconcile callOk_goTo)
next
  case (GetReread row)
  then show ?thesis
    by (auto simp: goodStep_onReconciled [OF ok] goodStep_stay goodStep_threw callOk_def split: option.splits)
next
  case (GetReadiness row)
  then show ?thesis using ok by (auto simp: goodStep_stay callOk_ended split: call_answer.splits)
qed (use ok in \<open>simp_all add: goodStep_stay\<close>)

subsection \<open>The invariant holds\<close>

lemma sentOk_grow:
  assumes "sentOk L w b" "tablesGrow (hw_tables w) (hw_tables w')"
    "\<And>i c. hw_calls w i = Some c \<Longrightarrow> \<exists>c'. hw_calls w' i = Some c' \<and> sameCall c c'"
  shows "sentOk L w' b"
proof -
  obtain row i c where r: "row \<in> set (rowsOf w)" "sg_id row = bc_request b" "sg_status row \<noteq> SrPending"
      "authorisedTx L row (bc_signature b) (bc_message b)"
      and c: "hw_calls w i = Some c" "hc_request c = sg_id row" "hc_app c = sg_app row" "knownUser (ht_db (hw_tables w)) c (sg_user row)"
    using assms(1) unfolding sentOk_def by blast
  obtain row' where r': "row' \<in> set (rowsOf w')" "sameRequest row row'" "sg_status row' \<noteq> SrPending"
    using assms(2) r(1,3) by (auto simp: tablesGrow_def rowsGrow_def rowsOf_def movesOn_def)
  obtain c' where c': "hw_calls w' i = Some c'" "sameCall c c'" using assms(3) [OF c(1)] by blast
  have "knownUser (ht_db (hw_tables w')) c' (sg_user row')"
    using c(4) c'(2) r'(2) knownUser_grow [OF assms(2)] knownUser_call [OF c'(2)] by (simp add: sameRequest_def)
  moreover have "hc_request c' = sg_id row'" "hc_app c' = sg_app row'" "sg_id row' = bc_request b"
    using c c'(2) r r'(2) by (simp_all add: sameRequest_def sameCall_def)
  moreover have "authorisedTx L row' (bc_signature b) (bc_message b)"
    by (simp add: authorised_same [OF r'(2)] r(4))
  ultimately show ?thesis
    unfolding sentOk_def using r' c'(1) by blast
qed

lemma inv_distinct_grow:
  "distinct (map sg_id (rowsOf w)) \<Longrightarrow> tablesGrow (hw_tables w) (hw_tables w') \<Longrightarrow> distinct (map sg_id (rowsOf w'))"
  by (simp add: tablesGrow_def rowsGrow_def rowsOf_def)

lemma callOk_grow: "tablesGrow t t' \<Longrightarrow> callOk L t c \<Longrightarrow> callOk L t' c"
  by (simp add: callOk_def stageOk_grow)

lemma inv_tables:
  assumes "hubInv S w" "tablesGrow (hw_tables w) (hw_tables w')" "hw_sent w' = hw_sent w" "hw_calls w' = hw_calls w"
  shows "hubInv S w'"
proof -
  have "sentOk (hs_libs S) w' b" if "b \<in> set (hw_sent w)" for b
    using that assms(1) by (intro sentOk_grow [OF _ assms(2)]) (auto simp: hubInv_def assms(4) intro: sameCall_updates)
  moreover have "callOk (hs_libs S) (hw_tables w') c" if "hw_calls w i = Some c" for i c
    using that assms(1) by (intro callOk_grow [OF assms(2)]) (simp add: hubInv_def)
  ultimately show ?thesis
    using assms(1) inv_distinct_grow [OF _ assms(2)] unfolding hubInv_def assms(3,4) by blast
qed

lemma withCall_fields [simp]:
  "rowsOf (withCall i c w) = rowsOf w" "hw_sent (withCall i c w) = hw_sent w" "hw_tables (withCall i c w) = hw_tables w"
  "hw_calls (withCall i c w) = (hw_calls w)(i \<mapsto> c)"
  by (simp_all add: withCall_def rowsOf_def)

lemma calls_kept:
  assumes "hw_calls w j = Some e" "\<And>d. hw_calls w i = Some d \<Longrightarrow> sameCall d c"
  shows "\<exists>c'. ((hw_calls w)(i \<mapsto> c)) j = Some c' \<and> sameCall e c'"
  using assms by (cases "i = j") auto

lemma hubInv_newCall:
  assumes "hubInv S w" "hw_calls w i = None" "callOk (hs_libs S) (hw_tables w) c"
  shows "hubInv S (withCall i c w)"
proof -
  have "sentOk (hs_libs S) (withCall i c w) b" if "b \<in> set (hw_sent w)" for b
  proof (rule sentOk_grow [where w = w])
    show "sentOk (hs_libs S) w b" using that assms(1) by (simp add: hubInv_def)
    show "\<exists>c'. hw_calls (withCall i c w) j = Some c' \<and> sameCall d c'" if "hw_calls w j = Some d" for j d
      using calls_kept [OF that, of i c] assms(2) by simp
  qed simp
  then show ?thesis
    using assms(1,3) unfolding hubInv_def withCall_fields by simp
qed

lemma distinct_map_eq: "distinct (map f xs) \<Longrightarrow> x \<in> set xs \<Longrightarrow> y \<in> set xs \<Longrightarrow> f x = f y \<Longrightarrow> x = y"
  by (auto simp: distinct_map dest: inj_onD)

lemma claimed_sent:
  assumes inv: "hubInv S w" and good: "goodStep S c w c' w'" and c: "hw_calls w i = Some c" and k: "claims w c w'"
  shows "distinct (map bc_request (hw_sent w')) \<and> (\<forall>b\<in>set (hw_sent w') - set (hw_sent w). sentOk (hs_libs S) (withCall i c' w') b)"
proof -
  obtain row sub sig m where st: "hc_stage c = AtClaim row (PreparedTx sub sig m)"
      and sent: "hw_sent w' = hw_sent w @ [\<lparr> bc_request = sg_id row, bc_signature = sig, bc_message = m \<rparr>]"
      and pend: "\<exists>r\<in>set (rowsOf w). sg_id r = sg_id row \<and> sg_status r = SrPending"
      and after: "\<forall>r\<in>set (rowsOf w'). sg_id r = sg_id row \<longrightarrow> sg_status r \<noteq> SrPending"
    using k unfolding claims_def by blast
  have "callOk (hs_libs S) (hw_tables w) c" using inv c by (simp add: hubInv_def)
  then have h: "holds (hw_tables w) c row" "authorisedTx (hs_libs S) row sig m" using st by (simp_all add: callOk_def)
  have "sg_id row \<notin> bc_request ` set (hw_sent w)"
  proof
    assume "sg_id row \<in> bc_request ` set (hw_sent w)"
    then obtain r where "r \<in> set (rowsOf w)" "sg_id r = sg_id row" "sg_status r \<noteq> SrPending"
      using inv unfolding hubInv_def sentOk_def by (metis imageE)
    moreover obtain r' where "r' \<in> set (rowsOf w)" "sg_id r' = sg_id row" "sg_status r' = SrPending" using pend by blast
    ultimately show False using inv distinct_map_eq [of sg_id "rowsOf w" r r'] by (simp add: hubInv_def)
  qed
  then have d: "distinct (map bc_request (hw_sent w'))" using inv sent by (simp add: hubInv_def)
  have grow: "tablesGrow (hw_tables w) (hw_tables w')" "sameCall c c'" using good by (simp_all add: goodStep_def)
  have h': "holds (hw_tables w') c' row" using holds_grow [OF grow(1) h(1)] holds_call [OF grow(2)] by simp
  obtain r where r: "r \<in> set (rowsOf w')" "sameRequest row r"
    using h' unfolding holds_def rowsOf_def by blast
  have "sentOk (hs_libs S) (withCall i c' w') \<lparr> bc_request = sg_id row, bc_signature = sig, bc_message = m \<rparr>"
    unfolding sentOk_def
  proof (intro bexI [of _ r] conjI exI [of _ i] exI [of _ c'])
    show "authorisedTx (hs_libs S) r (bc_signature \<lparr> bc_request = sg_id row, bc_signature = sig, bc_message = m \<rparr>)
        (bc_message \<lparr> bc_request = sg_id row, bc_signature = sig, bc_message = m \<rparr>)"
      by (simp add: authorised_same [OF r(2)] h(2))
  qed (use r after h' in \<open>auto simp: sameRequest_def holds_def rowsOf_def withCall_def\<close>)
  then show ?thesis using d sent by auto
qed

lemma hubInv_resume:
  assumes inv: "hubInv S w" and c: "hw_calls w i = Some c" and good: "goodStep S c w c' w'"
  shows "hubInv S (withCall i c' w')"
proof -
  have g: "tablesGrow (hw_tables w) (hw_tables w')" "hw_calls w' = hw_calls w" "sameCall c c'"
      "callOk (hs_libs S) (hw_tables w') c'"
    using good by (simp_all add: goodStep_def)
  have kept: "sentOk (hs_libs S) (withCall i c' w') b" if "b \<in> set (hw_sent w)" for b
  proof (rule sentOk_grow [where w = w])
    show "sentOk (hs_libs S) w b" using that inv by (simp add: hubInv_def)
    show "tablesGrow (hw_tables w) (hw_tables (withCall i c' w'))" using g(1) by simp
    show "\<exists>c''. hw_calls (withCall i c' w') j = Some c'' \<and> sameCall d c''" if "hw_calls w j = Some d" for j d
      using calls_kept [OF that, of i c'] c g(2,3) by simp
  qed
  have sent: "distinct (map bc_request (hw_sent w')) \<and> (\<forall>b\<in>set (hw_sent w'). sentOk (hs_libs S) (withCall i c' w') b)"
  proof (cases "hw_sent w' = hw_sent w")
    case True
    then show ?thesis using kept inv by (simp add: hubInv_def)
  next
    case False
    then have "claims w c w'" using good by (simp add: goodStep_def)
    then show ?thesis using claimed_sent [OF inv good c] kept by blast
  qed
  have calls: "callOk (hs_libs S) (hw_tables w') d" if "hw_calls w j = Some d" for j d
    using that inv by (intro callOk_grow [OF g(1)]) (simp add: hubInv_def)
  have rows: "distinct (map sg_id (rowsOf w'))" using inv inv_distinct_grow [OF _ g(1)] by (simp add: hubInv_def)
  show ?thesis
    using sent rows calls g(4) unfolding hubInv_def withCall_fields g(2) by simp
qed

lemma newCall_ok: "stage = AtUser \<or> stage = GetLoad \<Longrightarrow> callOk L t (newCall app rid network body stage)"
  by (auto simp: newCall_def callOk_def)

lemma inv_step:
  assumes "hubInv S w"
  shows "hubInv S (hubStep S ev w)"
proof (cases ev)
  case (Resume i dr ans)
  show ?thesis
  proof (cases "hw_calls w i")
    case (Some c)
    then have "callOk (hs_libs S) (hw_tables w) c" using assms by (simp add: hubInv_def)
    then show ?thesis
      using hubInv_resume [OF assms Some submitStep_good] hubInv_resume [OF assms Some getStep_good]
      by (simp add: Resume Some split: prod.splits) (metis fst_conv snd_conv)
  qed (simp add: Resume assms)
next
  case (Create network drUser dr ans app body)
  then show ?thesis
    by (intro inv_tables [OF assms]) (simp_all add: create_grow)
next
  case (StartSubmit i app rid network body)
  show ?thesis
    by (cases "hw_calls w i") (simp_all add: StartSubmit assms hubInv_newCall [OF assms] newCall_ok)
next
  case (StartGet i app rid network)
  show ?thesis
    by (cases "hw_calls w i") (simp_all add: StartGet assms hubInv_newCall [OF assms] newCall_ok)
qed

lemma reachable_inv: "reachable S w \<Longrightarrow> hubInv S w"
proof (induction rule: reachable.induct)
  case (start db audit)
  then show ?case by (simp add: hubInv_def startWorld_def rowsOf_def)
next
  case (step w ev)
  then show ?case using inv_step by blast
qed

end
