(* ===== verification/HubRoundtrip.thy ===== *)
theory HubRoundtrip
  imports SubmitSafety
begin

text \<open>
  What \<open>POST /signing-requests\<close> stores is what a submit rebuilds: the instructions read back from the stored
  display are those the digest was computed from, so a signature of the request's digest is accepted.
\<close>

subsection \<open>Reading a stored display\<close>

lemma stripped_obj: "proper (JObj kvs) \<Longrightarrow> stripped (JObj kvs) = JObj kvs"
  by (rule stripped_proper)

lemma proper_fields:
  "proper (fromDisplay who)" "proper (orNull JStr x)" "proper (orNull JNum y)" "proper (JArr (map JStr ws))"
  by (simp_all add: fromDisplay_def orNull_def list_all_iff split: option.splits)

lemma parse_nonempty: "parseU64Decimal s l = Inr v \<Longrightarrow> s \<noteq> []"
  by (auto simp: parseU64Decimal_def dec_string_def)

lemma parsePubkey_encode: "lawfulBase58 L \<Longrightarrow> parsePubkey L (al_b58encode L b) = Some b"
  by (simp add: parsePubkey_def lawfulBase58_def)

lemma parsePubkey_nonempty: "lawfulBase58 L \<Longrightarrow> parsePubkey L s = Some b \<Longrightarrow> s \<noteq> [] \<Longrightarrow> b \<noteq> []"
  unfolding parsePubkey_def lawfulBase58_def by blast

lemma encode_nonempty: "lawfulBase58 L \<Longrightarrow> b \<noteq> [] \<Longrightarrow> al_b58encode L b \<noteq> []"
  unfolding lawfulBase58_def by (metis option.inject)

lemma transferAction_facts:
  assumes "transferAction S network ans who payer to lamports = Inr (instructions, display)"
  shows "\<exists>toKey n ws. parsePubkey (hs_libs S) to = Some toKey \<and> parseU64Decimal lamports ''Lamports'' = Inr n
    \<and> instructions = [al_transfer (hs_libs S) payer toKey n] \<and> display = transferDisplay who to lamports ws"
  using assms by (cases "parseU64Decimal lamports ''Lamports''") (auto simp: transferAction_def rbind_eq_Inr_iff split: if_splits)

lemma transferDisplay_fields:
  "proper (transferDisplay who to lamports ws)"
  "getProp ''archAccountAddress'' (getProp ''to'' (transferDisplay who to lamports ws)) = JStr to"
  "getProp ''lamports'' (transferDisplay who to lamports ws) = JStr lamports"
  "getProp ''from'' (transferDisplay who to lamports ws) = fromDisplay who"
  "getProp ''account'' (transferDisplay who to lamports ws) = JUndefined"
  "getProp ''kind'' (transferDisplay who to lamports ws) = JStr ''arch.transfer''"
  by (simp_all add: transferDisplay_def proper_fields list_all_iff)

lemma tokenDisplay_fields:
  fixes L who m t a dc s d c i
  defines "D \<equiv> tokenDisplay L who m t a dc s d c i"
  shows "proper D"
    "getProp ''archAccountAddress'' (getProp ''to'' D) = JStr t"
    "getProp ''amount'' D = JStr a" "getProp ''mint'' D = JStr m"
    "getProp ''sourceAta'' D = JStr (al_b58encode L s)" "getProp ''destAta'' D = JStr (al_b58encode L d)"
    "getProp ''createDestAta'' D = JBool c" "getProp ''createDestAtaIdempotent'' D = JBool (c \<and> i)"
    "getProp ''from'' D = fromDisplay who" "getProp ''account'' D = JUndefined"
    "getProp ''kind'' D = JStr ''arch.token_transfer''"
  by (simp_all add: D_def tokenDisplay_def proper_fields)

lemma fromDisplay_fields:
  "getProp ''taprootAddress'' (fromDisplay who) = JStr (sid_taproot who)"
  "getProp ''archAccountAddress'' (fromDisplay who) = JStr (sid_arch who)"
  "getProp ''xOnlyPubkeyHex'' (fromDisplay who) = JStr (sid_xOnly who)"
  by (simp_all add: fromDisplay_def)

lemma transfer_rebuilt:
  assumes "transferAction S network ans who payer to lamports = Inr (instructions, display)" "to \<noteq> []"
  shows "storedTransfer (hs_libs S) payer display = Inr instructions"
proof -
  obtain toKey n ws where f: "parsePubkey (hs_libs S) to = Some toKey" "parseU64Decimal lamports ''Lamports'' = Inr n"
      "instructions = [al_transfer (hs_libs S) payer toKey n]" "display = transferDisplay who to lamports ws"
    using transferAction_facts [OF assms(1)] by blast
  then show ?thesis
    using assms(2) parse_nonempty [OF f(2)] by (simp add: storedTransfer_def transferDisplay_fields orThrow_def)
qed

lemma tokenAccounts_nonempty:
  assumes "lawfulBase58 L" "hs_libs S = L" "source \<noteq> []" "dest \<noteq> []"
    "tokenAccounts S network ans mintAddress mint source dest = (s, d, create)"
  shows "s \<noteq> [] \<and> d \<noteq> []"
proof -
  have "findTokenAccount m b t = Some a \<Longrightarrow> a \<noteq> []" for m b t a
    by (auto simp: findTokenAccount_def split: option.splits json.splits if_splits)
  then have ne: "findTokenAccount m b t = Some a \<Longrightarrow> parsePubkey (hs_libs S) a \<noteq> Some []" for m b t a
    using parsePubkey_nonempty [OF assms(1)] assms(2) by blast
  have "Option.bind (findTokenAccount m b t) (\<lambda>a. Some (parsePubkey (hs_libs S) a)) \<noteq> Some (Some [])"
    "Option.bind (findTokenAccount m b t) (parsePubkey (hs_libs S)) \<noteq> Some []" for m b t
    using ne by (auto simp: bind_eq_Some_conv)
  then show ?thesis
    using assms(2-5)
    by (auto simp: tokenAccounts_def Let_def split: if_splits option.splits prod.splits)
qed

text \<open>The idempotent flag matters only when the account is created.\<close>

lemma tokenInstructions_flag:
  "hubTokenInstructions L p t m s d a c (c \<and> i) = hubTokenInstructions L p t m s d a c i"
  by (simp add: hubTokenInstructions_def)

lemma tokenAction_facts:
  assumes "tokenAction S network ans who payer mintAddress to amount source decimals = Inr (instructions, display)"
  shows "\<exists>mint toKey n s d src dst create. parsePubkey (hs_libs S) mintAddress = Some mint
    \<and> parsePubkey (hs_libs S) to = Some toKey
    \<and> parseU64Decimal amount ''amount'' = Inr n
    \<and> (if given source then parsePubkey (hs_libs S) (the source) else getAplAssociatedTokenAddress (hs_libs S) mint payer) = Some src
    \<and> getAplAssociatedTokenAddress (hs_libs S) mint toKey = Some dst
    \<and> tokenAccounts S network ans mintAddress mint src dst = (s, d, create)
    \<and> instructions = hubTokenInstructions (hs_libs S) payer toKey mint s d n create (network \<noteq> Mainnet)
    \<and> display = tokenDisplay (hs_libs S) who mintAddress to amount decimals s d create (network \<noteq> Mainnet)"
proof (cases "parseU64Decimal amount ''amount''")
  case (Inl e)
  then show ?thesis using assms by (simp add: tokenAction_def Let_def rbind_eq_Inr_iff split: if_splits)
next
  case (Inr n)
  have taproot: "\<not> isTaprootAddress to" using assms by (auto simp: tokenAction_def)
  obtain mint toKey src dst where f: "parsePubkey (hs_libs S) mintAddress = Some mint" "parsePubkey (hs_libs S) to = Some toKey"
      "(if given source then parsePubkey (hs_libs S) (the source) else getAplAssociatedTokenAddress (hs_libs S) mint payer) = Some src"
      "getAplAssociatedTokenAddress (hs_libs S) mint toKey = Some dst"
    using assms unfolding tokenAction_def Let_def if_not_P [OF taproot]
    by (auto simp: rbind_eq_Inr_iff split del: if_split)
  obtain s d create where t: "tokenAccounts S network ans mintAddress mint src dst = (s, d, create)"
    by (meson prod_cases3)
  have "instructions = hubTokenInstructions (hs_libs S) payer toKey mint s d n create (network \<noteq> Mainnet)
      \<and> display = tokenDisplay (hs_libs S) who mintAddress to amount decimals s d create (network \<noteq> Mainnet)"
    using assms by (simp add: tokenAction_def Inr f orThrow_def t taproot Let_def)
  then show ?thesis using Inr f t by blast
qed

lemma token_rebuilt:
  assumes "tokenAction S network ans who payer mintAddress to amount source decimals = Inr (instructions, display)"
    "lawfulBase58 (hs_libs S)" "mintAddress \<noteq> []"
  shows "storedTokenTransfer (hs_libs S) payer display = Inr instructions"
proof -
  obtain mint toKey n s d src dst create where f: "parsePubkey (hs_libs S) mintAddress = Some mint"
      "parsePubkey (hs_libs S) to = Some toKey" "parseU64Decimal amount ''amount'' = Inr n"
      "(if given source then parsePubkey (hs_libs S) (the source) else getAplAssociatedTokenAddress (hs_libs S) mint payer) = Some src"
      "getAplAssociatedTokenAddress (hs_libs S) mint toKey = Some dst"
      "tokenAccounts S network ans mintAddress mint src dst = (s, d, create)"
      "instructions = hubTokenInstructions (hs_libs S) payer toKey mint s d n create (network \<noteq> Mainnet)"
      "display = tokenDisplay (hs_libs S) who mintAddress to amount decimals s d create (network \<noteq> Mainnet)"
    using tokenAction_facts [OF assms(1)] by blast
  have ata: "getAplAssociatedTokenAddress (hs_libs S) m w = Some x \<Longrightarrow> x \<noteq> []" for m w x
    using assms(2) unfolding getAplAssociatedTokenAddress_def lawfulBase58_def by fastforce
  have "src \<noteq> []"
    using f(4) ata parsePubkey_nonempty [OF assms(2)] by (auto simp: given_def split: if_splits)
  then have sd: "s \<noteq> []" "d \<noteq> []"
    using tokenAccounts_nonempty [OF assms(2) refl _ ata [OF f(5)] f(6)] by auto
  show ?thesis
    using f(1-3) assms(3) parse_nonempty [OF f(3)] encode_nonempty [OF assms(2) sd(1)] encode_nonempty [OF assms(2) sd(2)]
    by (simp add: f(7,8) storedTokenTransfer_def tokenDisplay_fields parsePubkey_encode [OF assms(2)] orThrow_def tokenInstructions_flag)
qed

subsection \<open>Who signs\<close>

lemma internalKey_facts:
  "archAccountFromInternalKey L key = Inr ids \<Longrightarrow> length (fst ids) = 64 \<and> length (bufferFromHex (fst ids)) = 32"
  by (auto simp: archAccountFromInternalKey_def Let_def split: if_splits)

lemma walletKey_internal: "archAccountFromWalletPublicKey L key a = Inr ids \<Longrightarrow> archAccountFromInternalKey L key = Inr ids"
  by (auto simp: archAccountFromWalletPublicKey_def rbind_eq_Inr_iff split: option.splits prod.splits if_splits)

lemma taprootProgram_length: "taprootProgram L a = Some key \<Longrightarrow> length key = 32"
  by (auto simp: taprootProgram_def split: option.splits prod.splits if_splits)

definition goodIdentity :: "signer_identity \<Rightarrow> bool" where
  "goodIdentity who \<longleftrightarrow> length (sid_xOnly who) = 64 \<and> length (bufferFromHex (sid_xOnly who)) = 32"

lemma identityFromAddress_good:
  assumes "identityFromAddress L a rid e = Inr who"
  shows "goodIdentity who \<and> sid_taproot who = a"
proof -
  obtain t arch xOnly where r: "resolveArchAccountAddress L a = Some (TaprootAccount t arch xOnly)"
      "who = identity a (xOnly, arch) rid"
    using assms by (auto simp: identityFromAddress_def split: option.splits resolved_account.splits)
  then show ?thesis
    using resolve_taproot [OF r(1)]
    by (auto simp: goodIdentity_def identity_def length_bytesToHex dest!: taprootProgram_length)
qed

lemma internal_good: "archAccountFromInternalKey L key = Inr ids \<Longrightarrow> goodIdentity (identity a ids rid)"
  using internalKey_facts [of L key ids] by (simp add: goodIdentity_def identity_def)

lemma externalSigner_good: "externalSigner L a key = Inr who \<Longrightarrow> goodIdentity who \<and> sid_taproot who = a"
  by (auto simp: externalSigner_def identity_def split: option.splits sum.splits if_splits
      dest!: identityFromAddress_good walletKey_internal dest: internal_good [unfolded identity_def])

lemma turnkeySigner_good: "turnkeySigner L acc a u rid db = (Inr who, db') \<Longrightarrow> goodIdentity who"
  by (auto simp: turnkeySigner_def Let_def split: option.splits sum.splits if_splits
      dest!: identityFromAddress_good dest: internal_good)

lemma resolveSigner_good:
  "resolveSigner S ans a u signer db = (Inr who, db') \<Longrightarrow> goodIdentity who \<and> sid_arch who \<noteq> []"
  by (auto simp: resolveSigner_def Let_def rbind_eq_Inr_iff split: prod.splits signer_body.splits if_splits
      dest: externalSigner_good turnkeySigner_good)

subsection \<open>What is stored\<close>

lemma payload_facts:
  assumes "transactionPayload L who payer blockhash instructions = Inr payload"
  shows "\<exists>m digest. al_compile L instructions payer (bufferFromHex blockhash) = Inr m
    \<and> hubToSignSighash L (sid_taproot who) (al_messageHash L m) = Some digest
    \<and> proper payload
    \<and> getProp ''signWith'' payload = JStr (sid_taproot who)
    \<and> getProp ''payloadHex'' payload = JStr (bytesToHex digest)
    \<and> getProp ''recentBlockhashHex'' payload = JStr blockhash
    \<and> getProp ''messageHashHex'' payload = JStr (bytesToHex (al_messageHash L m))
    \<and> getProp ''internalXOnlyPubkeyHex'' payload = JStr (sid_xOnly who)
    \<and> (\<exists>psbt key. getProp ''psbtBase64'' payload = JStr psbt \<and> transactionKey L who = Inr key
         \<and> buildBip322ToSignPsbtBase64 L (sid_taproot who) (al_messageHash L m) (Some key) = Some psbt)"
  using assms
  by (auto simp: transactionPayload_def Let_def rbind_eq_Inr_iff split: sum.splits)

definition builtBy ::
    "('t, 'm) hub_setup \<Rightarrow> arch_network \<Rightarrow> create_answers \<Rightarrow> signer_identity \<Rightarrow> byte list \<Rightarrow> action_body \<Rightarrow>
     (arch_instruction list \<times> json) handled" where
  "builtBy S network ans who payer action = (case action of
      ActTransfer toAddress lamports \<Rightarrow> transferAction S network ans who payer toAddress lamports
    | ActToken mint toAddress amount source decimals \<Rightarrow> tokenAction S network ans who payer mint toAddress amount source decimals
    | _ \<Rightarrow> Inl (400, []))"

fun plainAction :: "action_body \<Rightarrow> bool" where
  "plainAction (ActTransfer toAddress lamports) = (toAddress \<noteq> [])"
| "plainAction (ActToken mint toAddress amount source decimals) = (mint \<noteq> [] \<and> toAddress \<noteq> [])"
| "plainAction action = False"

lemma transactionOf_facts:
  assumes "transactionOf S network ans who action = (Inr p, b)"
  shows "\<exists>payer blockhash instructions. parsePubkey (hs_libs S) (sid_arch who) = Some payer
    \<and> recentBlockhash ans = Inr blockhash \<and> length blockhash = 64
    \<and> builtBy S network ans who payer action = Inr (instructions, py_display p)
    \<and> transactionPayload (hs_libs S) who payer blockhash instructions = Inr (py_payload p)
    \<and> py_action p = (case action of ActTransfer a b \<Rightarrow> ''arch.transfer'' | _ \<Rightarrow> ''arch.token_transfer'')"
proof -
  obtain payer where payer: "parsePubkey (hs_libs S) (sid_arch who) = Some payer"
    using assms by (auto simp: transactionOf_def Let_def orThrow_def split: option.splits)
  obtain blockhash where bh: "recentBlockhash ans = Inr blockhash"
    using assms by (auto simp: transactionOf_def Let_def payer orThrow_def split: sum.splits if_splits)
  then have len: "length blockhash = 64"
    by (auto simp: recentBlockhash_def split: sum.splits if_splits)
  show ?thesis
    using assms bh len payer
    by (cases action)
      (auto simp: transactionOf_def builtBy_def Let_def orThrow_def rbind_eq_Inr_iff split: sum.splits if_splits prod.splits)
qed

lemma builtBy_display:
  assumes "builtBy S network ans who payer action = Inr (instructions, display)"
  shows "proper display \<and> getProp ''from'' display = fromDisplay who \<and> getProp ''account'' display = JUndefined"
proof (cases action)
  case (ActTransfer to lamports)
  then show ?thesis using assms transferAction_facts [of S network ans who payer to lamports]
    by (auto simp: builtBy_def transferDisplay_fields)
next
  case (ActToken mint to amount source decimals)
  then show ?thesis using assms tokenAction_facts [of S network ans who payer mint to amount source decimals]
    by (auto simp: builtBy_def tokenDisplay_fields)
qed (use assms in \<open>simp_all add: builtBy_def\<close>)

lemma builtBy_stored:
  assumes "builtBy S network ans who payer action = Inr (instructions, sg_display row)" "plainAction action"
    "lawfulBase58 (hs_libs S)" "sg_action row = (case action of ActTransfer a b \<Rightarrow> ''arch.transfer'' | _ \<Rightarrow> ''arch.token_transfer'')"
  shows "storedInstructions (hs_libs S) payer row = Inr instructions"
  using assms transfer_rebuilt token_rebuilt
  by (cases action) (auto simp: builtBy_def storedInstructions_def)

lemma submit_keys:
  assumes "parsePubkey L (sid_arch who) = Some payer" "sid_arch who \<noteq> []" "sid_taproot who \<noteq> []" "length blockhash = 64"
    "getProp ''from'' (sg_display row) = fromDisplay who" "getProp ''account'' (sg_display row) = JUndefined"
    "getProp ''recentBlockhashHex'' (sg_payload row) = JStr blockhash"
  shows "submitKeys L row = Inr \<lparr> sk_payer = payer, sk_internal = sid_xOnly who, sk_blockhashHex = blockhash \<rparr>"
  using assms by (auto simp: submitKeys_def signerField_def fromDisplay_fields orThrow_def)

lemma check_accepts:
  assumes "payloadField ''payloadHex'' row = bytesToHex digest" "length digest = 32" "payloadField ''signWith'' row = taproot"
    "taproot \<noteq> []" "bech32ish taproot" "taprootProgram L taproot = Some key" "al_schnorr L sig64 digest key = Some True"
    "payloadField ''internalXOnlyPubkeyHex'' row = xOnly" "sk_internal keys = xOnly" "length (bufferFromHex xOnly) = 32"
    "\<forall>k. length k = 32 \<longrightarrow> al_schnorr L sig64 digest k \<noteq> None"
  shows "checkSignature L row keys sig64 = Inr (bytesToHex digest, taproot, bytesToHex key)"
proof -
  have k: "storedOutputKey L row = Inr (bytesToHex digest, taproot, bytesToHex key)"
    using assms(1-6) by (simp add: storedOutputKey_def payloadField_def resolveArchAccountAddress_def length_bytesToHex)
  have "\<exists>ok. loggedCheck L sig64 (bytesToHex digest) xOnly = Inr ok"
    using assms(10,11) by (auto simp: loggedCheck_def orThrow_def split: option.splits)
  then obtain ok where "loggedCheck L sig64 (bytesToHex digest) xOnly = Inr ok" by blast
  then show ?thesis
    using assms(7-9) unfolding checkSignature_def k payloadField_def by (simp add: orThrow_def)
qed

lemma persist_facts:
  assumes "persistRequest S dr a u who ex p t = (Some row, t')"
  shows "ht_requests t' = ht_requests t @ [row] \<and> sg_status row = SrPending \<and> sg_payload row = stripped (py_payload p)
    \<and> sg_display row = stripped (py_display p) \<and> sg_action row = py_action p \<and> sg_app row = a \<and> sg_user row = u
    \<and> sg_expires row = Some ex \<and> sg_id row \<notin> sg_id ` set (ht_requests t)"
  using assms by (auto simp: persistRequest_def insertSigningRequest_def Let_def split: option.splits if_splits prod.splits)

text \<open>What an answered creation has done.\<close>

lemma created_facts:
  assumes "postSigningRequest S network drUser dr ans app body tables = (Answer reply, tables')" "plainAction (cb_action body)"
  shows "\<exists>u db who p b row. getOrCreateUserByExternalId (su_env drUser) (the app) (cb_externalUserId body) (ht_db tables) = (u, db)
    \<and> resolveSigner S ans (the app) u (cb_signer body) db = (Inr who, ht_db tables')
    \<and> transactionOf S network ans who (cb_action body) = (Inr p, b)
    \<and> ht_requests tables' = ht_requests tables @ [row] \<and> sg_status row = SrPending \<and> sg_app row = the app
    \<and> sg_id row \<notin> sg_id ` set (ht_requests tables) \<and> sg_user row = u \<and> sg_expires row = Some (he_now (su_env drUser) + REQUEST_TTL_MS)
    \<and> sg_payload row = stripped (py_payload p) \<and> sg_display row = stripped (py_display p) \<and> sg_action row = py_action p
    \<and> reply = createdReply (al_sha256Hex (hs_libs S)) p row"
proof -
  obtain u db1 where u: "getOrCreateUserByExternalId (su_env drUser) (the app) (cb_externalUserId body) (ht_db tables) = (u, db1)"
    by (meson surj_pair)
  obtain signer db2 where w: "resolveSigner S ans (the app) u (cb_signer body) db1 = (signer, db2)" by (meson surj_pair)
  have post: "postSigningRequest S network drUser dr ans app body tables =
      (case signer of Inl (code, e) \<Rightarrow> (Refuse code e, tables \<lparr> ht_db := db2 \<rparr>) | Inr who \<Rightarrow>
         let (payload, sent501) = transactionOf S network ans who (cb_action body);
             reply = (\<lambda>r. if sent501 then Refuse 501 ''Indexer not configured (INDEXER_BASE_URL missing)'' else r)
         in case payload of Inl (code, e) \<Rightarrow> (reply (Refuse code e), tables \<lparr> ht_db := db2 \<rparr>)
          | Inr p \<Rightarrow> (case persistRequest S dr (the app) u who (he_now (su_env drUser) + REQUEST_TTL_MS) p (tables \<lparr> ht_db := db2 \<rparr>) of
               (None, t) \<Rightarrow> (reply (Refuse 500 ''Internal Server Error''), t)
             | (Some row, t) \<Rightarrow> (reply (Answer (createdReply (al_sha256Hex (hs_libs S)) p row)), t)))"
    using assms by (cases "cb_action body") (auto simp: postSigningRequest_def Let_def u w split: if_splits sum.splits)
  obtain who where who: "signer = Inr who" using assms(1) unfolding post by (auto split: sum.splits prod.splits)
  obtain pay b where pay: "transactionOf S network ans who (cb_action body) = (pay, b)" by (meson surj_pair)
  obtain p where p: "pay = Inr p"
    using assms(1) unfolding post who by (cases pay) (auto simp: pay Let_def split: if_splits)
  obtain row where row: "persistRequest S dr (the app) u who (he_now (su_env drUser) + REQUEST_TTL_MS) p (tables \<lparr> ht_db := db2 \<rparr>) = (Some row, tables')"
      "reply = createdReply (al_sha256Hex (hs_libs S)) p row"
    using assms(1) unfolding post who by (auto simp: pay p Let_def split: prod.splits option.splits if_splits)
  have db: "ht_db tables' = db2"
    using row(1) by (auto simp: persistRequest_def split: option.splits prod.splits)
  show ?thesis
    using persist_facts [OF row(1)] u w pay row(2) unfolding who p db by auto
qed

text \<open>
  What is created can be submitted. A transfer or a token transfer that \<open>POST /signing-requests\<close> answers
  leaves one pending row; a submit of a signature that verifies for the digest of that row under the
  signer's output key rebuilds the message from the stored display, finds the same digest and is ready
  to claim the request with it, whatever the amounts, the accounts and the network.
\<close>

theorem created_request_submits:
  assumes "lawfulBase58 (hs_libs S)" "lawfulToSign (hs_libs S)" "lawfulDigest (hs_libs S)"
    "postSigningRequest S network drUser dr ans app body tables = (Answer reply, tables')" "plainAction (cb_action body)"
  shows "\<exists>row keys key digest message.
     ht_requests tables' = ht_requests tables @ [row] \<and> sg_status row = SrPending \<and> isTransfer row
     \<and> sg_payload row = getProp ''payloadToSign'' reply \<and> sg_display row = getProp ''display'' reply
     \<and> getProp ''signingRequestId'' reply = JStr (sg_id row)
     \<and> taprootProgram (hs_libs S) (payloadField ''signWith'' row) = Some key
     \<and> payloadField ''payloadHex'' row = bytesToHex digest
     \<and> (\<forall>sb sig64 sub url. bech32ish (payloadField ''signWith'' row)
          \<and> submittedSignature (hs_libs S) sb = Inr (sig64, sub)
          \<and> al_schnorr (hs_libs S) sig64 digest key = Some True
          \<and> (\<forall>k. length k = 32 \<longrightarrow> al_schnorr (hs_libs S) sig64 digest k \<noteq> None)
        \<longrightarrow> submitKeys (hs_libs S) row = Inr keys
          \<and> prepareSubmit (hs_libs S) (Some url) row keys sb = Inr (PreparedTx sub (al_adjust (hs_libs S) sig64) message))"
proof -
  let ?L = "hs_libs S"
  obtain u who p b row db where c: "resolveSigner S ans (the app) u (cb_signer body) db = (Inr who, ht_db tables')"
      "transactionOf S network ans who (cb_action body) = (Inr p, b)"
      "ht_requests tables' = ht_requests tables @ [row]" "sg_status row = SrPending"
      "sg_payload row = stripped (py_payload p)" "sg_display row = stripped (py_display p)" "sg_action row = py_action p"
      "reply = createdReply (al_sha256Hex ?L) p row"
    using created_facts [OF assms(4,5)] by blast
  obtain payer blockhash instructions where t: "parsePubkey ?L (sid_arch who) = Some payer" "length blockhash = 64"
      "builtBy S network ans who payer (cb_action body) = Inr (instructions, py_display p)"
      "transactionPayload ?L who payer blockhash instructions = Inr (py_payload p)"
      "py_action p = (case cb_action body of ActTransfer a b \<Rightarrow> ''arch.transfer'' | _ \<Rightarrow> ''arch.token_transfer'')"
    using transactionOf_facts [OF c(2)] by blast
  obtain m digest where m: "al_compile ?L instructions payer (bufferFromHex blockhash) = Inr m"
      "hubToSignSighash ?L (sid_taproot who) (al_messageHash ?L m) = Some digest"
      and py: "proper (py_payload p)" "getProp ''signWith'' (py_payload p) = JStr (sid_taproot who)"
        "getProp ''payloadHex'' (py_payload p) = JStr (bytesToHex digest)"
        "getProp ''recentBlockhashHex'' (py_payload p) = JStr blockhash"
        "getProp ''internalXOnlyPubkeyHex'' (py_payload p) = JStr (sid_xOnly who)"
    using payload_facts [OF t(4)] by blast
  have display: "proper (py_display p)" "getProp ''from'' (py_display p) = fromDisplay who" "getProp ''account'' (py_display p) = JUndefined"
    using builtBy_display [OF t(3)] by blast+
  have row: "sg_payload row = py_payload p" "sg_display row = py_display p"
    using c(5,6) stripped_proper [OF py(1)] stripped_proper [OF display(1)] by simp_all
  obtain key where key: "taprootProgram ?L (sid_taproot who) = Some key" using hubSighash_program [OF m(2)] by blast
  have who: "goodIdentity who" "sid_arch who \<noteq> []" using resolveSigner_good [OF c(1)] by simp_all
  have fields: "payloadField ''payloadHex'' row = bytesToHex digest" "payloadField ''signWith'' row = sid_taproot who"
      "payloadField ''internalXOnlyPubkeyHex'' row = sid_xOnly who"
    using py by (simp_all add: payloadField_def row)
  let ?keys = "\<lparr> sk_payer = payer, sk_internal = sid_xOnly who, sk_blockhashHex = blockhash \<rparr>"
  have stored: "storedInstructions ?L payer row = Inr instructions"
    by (rule builtBy_stored [where S = S and network = network and ans = ans and who = who and action = "cb_action body"])
      (use t c assms(1,5) row in simp_all)
  have prep: "submitKeys ?L row = Inr ?keys \<and> prepareSubmit ?L (Some url) row ?keys sb = Inr (PreparedTx sub (al_adjust ?L sig64) m)"
    if h: "bech32ish (sid_taproot who)" "submittedSignature ?L sb = Inr (sig64, sub)" "al_schnorr ?L sig64 digest key = Some True"
      "\<forall>k. length k = 32 \<longrightarrow> al_schnorr ?L sig64 digest k \<noteq> None" for sb sig64 sub url
  proof
    have ne: "sid_taproot who \<noteq> []" using h(1) by (auto simp: bech32ish_def starts_with_def)
    show "submitKeys ?L row = Inr ?keys"
      using submit_keys [OF t(1) who(2) ne t(2)] display py row by simp
    have "checkSignature ?L row ?keys sig64 = Inr (bytesToHex digest, sid_taproot who, bytesToHex key)"
      by (rule check_accepts [OF fields(1) _ fields(2) ne h(1) key h(3) fields(3)])
        (use who(1) h(4) hubSighash_length [OF assms(2,3) m(2)] in \<open>simp_all add: goodIdentity_def\<close>)
    moreover have "sg_action row \<noteq> ''arch.sign_message''" using c(7) t(5) by (simp split: action_body.splits)
    ultimately show "prepareSubmit ?L (Some url) row ?keys sb = Inr (PreparedTx sub (al_adjust ?L sig64) m)"
      using m by (simp add: prepareSubmit_def stored h(2) orThrow_def)
  qed
  have reply: "sg_payload row = getProp ''payloadToSign'' reply" "sg_display row = getProp ''display'' reply"
      "getProp ''signingRequestId'' reply = JStr (sg_id row)" "isTransfer row"
    using c(7) t(5) by (simp_all add: c(8) createdReply_def row isTransfer_def split: action_body.splits)
  show ?thesis
    by (rule exI [of _ row], rule exI [of _ ?keys], rule exI [of _ key], rule exI [of _ digest], rule exI [of _ m])
      (unfold fields(1,2), use c(3,4) key prep reply in blast)
qed

end
