(* ===== verification/HubVerify.thy ===== *)
theory HubVerify
  imports HubRoundtrip
begin

text \<open>
  \<open>utils/hub-signing-request-verify.ts\<close> of the wallet: what the hub asks to sign is rebuilt from the request
  of the site, the signing account and the hub's recent blockhash, and anything that differs is refused
  (\<open>Inl\<close> with what differs). \<open>payloadToSign\<close> and \<open>display\<close> are whatever the hub sent.
\<close>

subsection \<open>The checks\<close>

datatype hub_intent =
    IntentTransfer string string
  | IntentToken string string string "string option"
  | IntentMessage json

fun intentType :: "hub_intent \<Rightarrow> string" where
  "intentType (IntentTransfer to lamports) = ''arch.transfer''"
| "intentType (IntentToken mint to amount source) = ''arch.token_transfer''"
| "intentType (IntentMessage m) = ''arch.sign_message''"

definition demand :: "bool \<Rightarrow> string \<Rightarrow> string + unit" where
  "demand b what = (if b then Inr () else Inl what)"

definition orMismatch :: "'a option \<Rightarrow> string \<Rightarrow> string + 'a" where
  "orMismatch x what = (case x of Some a \<Rightarrow> Inr a | None \<Rightarrow> Inl what)"

fun asObj :: "json \<Rightarrow> string \<Rightarrow> string + json" where
  "asObj (JObj kvs) what = Inr (JObj kvs)"
| "asObj v what = Inl (what @ '' missing'')"

fun taprootScript :: "('t, 'm) arch_libs \<Rightarrow> json \<Rightarrow> string \<Rightarrow> string + byte list" where
  "taprootScript L (JStr address) what =
     (case al_fromBech32 L address of
        None \<Rightarrow> Inl (what @ '' is not a bech32 address'')
      | Some (version, data) \<Rightarrow>
          if version \<noteq> 1 \<or> length data \<noteq> 32 then Inl (what @ '' is not Taproot'') else Inr (0x51 # 0x20 # data))"
| "taprootScript L v what = Inl (what @ '' missing'')"

definition pubkeyOf :: "('t, 'm) arch_libs \<Rightarrow> string \<Rightarrow> string \<Rightarrow> string + byte list" where
  "pubkeyOf L s what =
     (case al_b58decode L s of
        Some bytes \<Rightarrow> if length bytes = 32 then Inr bytes else Inl (what @ '' is not a 32-byte base58 key'')
      | None \<Rightarrow> Inl (what @ '' is not a 32-byte base58 key''))"

definition expectSigner :: "('t, 'm) arch_libs \<Rightarrow> json \<Rightarrow> string \<Rightarrow> byte list \<Rightarrow> string + unit" where
  "expectSigner L v archAddress signerScript =
     rbind (asObj v ''display signer'') (\<lambda>who.
     rbind (demand (getProp ''archAccountAddress'' who = JStr archAddress) ''from account'') (\<lambda>u.
     rbind (taprootScript L (getProp ''taprootAddress'' who) ''from address'') (\<lambda>script.
       demand (script = signerScript) ''from address'')))"

definition tokenAccountsFor ::
    "('t, 'm) arch_libs \<Rightarrow> string \<Rightarrow> string option \<Rightarrow> byte list \<Rightarrow> byte list \<Rightarrow> string + byte list \<times> byte list \<times> byte list" where
  "tokenAccountsFor L mintAddress sourceTokenAccount payer to =
     rbind (pubkeyOf L mintAddress ''mint'') (\<lambda>mint.
     rbind (case sourceTokenAccount of
              Some s \<Rightarrow> pubkeyOf L s ''source token account''
            | None \<Rightarrow> orMismatch (associatedTokenAddress L mint payer) ''associated token address'') (\<lambda>sourceAta.
     rbind (orMismatch (associatedTokenAddress L mint to) ''associated token address'') (\<lambda>destAta.
       Inr (mint, sourceAta, destAta))))"

text \<open>The fee of the message the hub will build; none when it cannot be compiled.\<close>

definition hubIntentFee :: "('t, 'm) arch_libs \<Rightarrow> hub_intent \<Rightarrow> string option \<Rightarrow> arch_fee option" where
  "hubIntentFee L intent archAddress =
     (if \<not> given archAddress then None
      else
        let fee = (\<lambda>instructions payer. (case al_compile L instructions payer (replicate 32 0) of
              Inl e \<Rightarrow> None
            | Inr m \<Rightarrow> (case archMessageFee (al_b58encode L) (al_accountKeys L m) (al_requiredSignatures L m) of
                Inl e \<Rightarrow> None | Inr f \<Rightarrow> Some f)));
            keys = (\<lambda>toAddress. rbind (pubkeyOf L (the archAddress) ''signer Arch address'') (\<lambda>payer.
              rbind (pubkeyOf L toAddress ''recipient'') (\<lambda>to. Inr (payer, to))))
        in case intent of
             IntentTransfer toAddress lamports \<Rightarrow>
               (case keys toAddress of Inl e \<Rightarrow> None | Inr (payer, to) \<Rightarrow> fee [al_transfer L payer to 0] payer)
           | IntentToken mintAddress toAddress amount source \<Rightarrow>
               (case keys toAddress of
                  Inl e \<Rightarrow> None
                | Inr (payer, to) \<Rightarrow>
                    (case tokenAccountsFor L mintAddress source payer to of
                       Inl e \<Rightarrow> None
                     | Inr (mint, sourceAta, destAta) \<Rightarrow>
                         fee (tokenTransferInstructions L payer to mint sourceAta destAta 0 True True) payer))
           | IntentMessage m \<Rightarrow> None)"

fun asBool :: "json \<Rightarrow> bool option" where
  "asBool (JBool b) = Some b"
| "asBool v = None"

text \<open>The instructions of a transfer, after its fields agree with the display.\<close>

definition verifiedTransfer ::
    "('t, 'm) arch_libs \<Rightarrow> byte list \<Rightarrow> byte list \<Rightarrow> string \<Rightarrow> json \<Rightarrow> string + arch_instruction list" where
  "verifiedTransfer L payer to lamportsStr display =
     (case parseU64DecimalString (JStr lamportsStr) of
        None \<Rightarrow> Inl ''lamports''
      | Some lamports \<Rightarrow>
          if parseU64DecimalString (getProp ''lamports'' display) \<noteq> Some lamports then Inl ''lamports''
          else Inr [al_transfer L payer to lamports])"

definition createFlags :: "json \<Rightarrow> string + bool \<times> bool" where
  "createFlags display =
     (case (asBool (getProp ''createDestAta'' display), asBool (getProp ''createDestAtaIdempotent'' display)) of
        (Some createDestAta, Some idempotent) \<Rightarrow>
          if idempotent \<and> \<not> createDestAta then Inl ''createDestAta'' else Inr (createDestAta, idempotent)
      | _ \<Rightarrow> Inl ''createDestAta'')"

definition verifiedTokenTransfer ::
    "('t, 'm) arch_libs \<Rightarrow> byte list \<Rightarrow> byte list \<Rightarrow> string \<Rightarrow> string \<Rightarrow> string option \<Rightarrow> json \<Rightarrow> string + arch_instruction list" where
  "verifiedTokenTransfer L payer to mintAddress amountStr source display =
     rbind (orMismatch (parseU64DecimalString (JStr amountStr)) ''amount'') (\<lambda>amount.
     rbind (demand (parseU64DecimalString (getProp ''amount'' display) = Some amount) ''amount'') (\<lambda>u.
     rbind (demand (getProp ''mint'' display = JStr mintAddress) ''mint'') (\<lambda>u.
     rbind (tokenAccountsFor L mintAddress source payer to) (\<lambda>(mint, sourceAta, destAta).
     rbind (demand (getProp ''sourceAta'' display = JStr (al_b58encode L sourceAta)) ''source token account'') (\<lambda>u.
     rbind (demand (getProp ''destAta'' display = JStr (al_b58encode L destAta)) ''destination token account'') (\<lambda>u.
     rbind (createFlags display) (\<lambda>(createDestAta, idempotent).
       Inr (tokenTransferInstructions L payer to mint sourceAta destAta amount createDestAta idempotent))))))))"

definition verifiedInstructions ::
    "('t, 'm) arch_libs \<Rightarrow> hub_intent \<Rightarrow> byte list \<Rightarrow> byte list \<Rightarrow> json \<Rightarrow> string + arch_instruction list" where
  "verifiedInstructions L intent payer to display =
     (case intent of
        IntentTransfer toAddress lamports \<Rightarrow> verifiedTransfer L payer to lamports display
      | IntentToken mint toAddress amount source \<Rightarrow> verifiedTokenTransfer L payer to mint amount source display
      | IntentMessage m \<Rightarrow> Inl ''action kind'')"

fun intentTo :: "hub_intent \<Rightarrow> string" where
  "intentTo (IntentTransfer to lamports) = to"
| "intentTo (IntentToken mint to amount source) = to"
| "intentTo (IntentMessage m) = []"

fun hexText :: "json \<Rightarrow> string option" where
  "hexText (JStr s) = (if isHex64 s then Some s else None)"
| "hexText v = None"

text \<open>The hash of the message that was rebuilt.\<close>

definition rebuiltHash :: "('t, 'm) arch_libs \<Rightarrow> arch_instruction list \<Rightarrow> byte list \<Rightarrow> byte list \<Rightarrow> json \<Rightarrow> string + byte list" where
  "rebuiltHash L instructions payer blockhash payload =
     (case al_compile L instructions payer blockhash of
        Inl e \<Rightarrow> Inl (''local message compile failed: '' @ e)
      | Inr compiled \<Rightarrow>
          let messageHash = al_messageHash L compiled; shown = getProp ''messageHashHex'' payload
          in if shown \<noteq> JUndefined \<and> shown \<noteq> JStr (bytesToHex messageHash) then Inl ''messageHashHex''
             else Inr messageHash)"

definition verifyArchTransaction ::
    "('t, 'm) arch_libs \<Rightarrow> hub_intent \<Rightarrow> string \<Rightarrow> byte list \<Rightarrow> json \<Rightarrow> json \<Rightarrow> string + byte list" where
  "verifyArchTransaction L intent archAddress signerScript payload display =
     rbind (orMismatch (hexText (getProp ''recentBlockhashHex'' payload)) ''recentBlockhashHex'') (\<lambda>blockhashHex.
     rbind (demand (getProp ''kind'' display = JStr (intentType intent)) ''action kind'') (\<lambda>u.
     rbind (expectSigner L (getProp ''from'' display) archAddress signerScript) (\<lambda>u.
     rbind (asObj (getProp ''to'' display) ''display recipient'') (\<lambda>recipient.
     rbind (demand (getProp ''archAccountAddress'' recipient = JStr (intentTo intent)) ''recipient'') (\<lambda>u.
     rbind (pubkeyOf L archAddress ''signer Arch address'') (\<lambda>payer.
     rbind (pubkeyOf L (intentTo intent) ''recipient'') (\<lambda>to.
     rbind (verifiedInstructions L intent payer to display) (\<lambda>instructions.
     rbind (orMismatch (walletHexToBytes blockhashHex) ''hexToBytes: odd-length input'') (\<lambda>blockhash.
     rebuiltHash L instructions payer blockhash payload)))))))))"

definition lowerText :: "json \<Rightarrow> string" where
  "lowerText v = (case v of JStr s \<Rightarrow> js_lower s | _ \<Rightarrow> [])"

definition verifySignMessage ::
    "('t, 'm) arch_libs \<Rightarrow> json \<Rightarrow> string \<Rightarrow> byte list \<Rightarrow> json \<Rightarrow> json \<Rightarrow> string + byte list" where
  "verifySignMessage L intentHex archAddress signerScript payload display =
     (let messageHex = lowerText intentHex in
      rbind (demand (lower_hex_string messageHex \<and> even (length messageHex)) ''message is not non-empty even-length hex'') (\<lambda>u.
      rbind (demand (getProp ''kind'' display = JStr ''arch.sign_message'') ''action kind'') (\<lambda>u.
      rbind (expectSigner L (getProp ''account'' display) archAddress signerScript) (\<lambda>u.
      rbind (asObj (getProp ''message'' display) ''display message'') (\<lambda>shown.
      rbind (demand (getProp ''hex'' shown = JStr messageHex) ''message'') (\<lambda>u.
      rbind (demand (getProp ''messageHex'' payload = JUndefined \<or> getProp ''messageHex'' payload = JStr messageHex) ''messageHex'') (\<lambda>u.
        orMismatch (walletHexToBytes messageHex) ''hexToBytes: odd-length input'')))))))"

definition verifyToSignPsbt :: "('t, 'm) arch_libs \<Rightarrow> string \<Rightarrow> byte list \<Rightarrow> string \<Rightarrow> string + unit" where
  "verifyToSignPsbt L psbtBase64 signerScript payloadHex =
     (case al_fromBase64 L psbtBase64 of
        None \<Rightarrow> Inl ''psbtBase64 does not parse''
      | Some psbt \<Rightarrow>
          (case sp_inputs psbt of
             [input] \<Rightarrow>
               (case si_witness input of
                  None \<Rightarrow> Inl ''to_sign PSBT prevout''
                | Some (script, val) \<Rightarrow>
                    if script \<noteq> signerScript then Inl ''to_sign PSBT prevout''
                    else if si_sighashType input \<notin> {None, Some 0, Some 1} then Inl ''to_sign PSBT sighash type''
                    else (case sp_tx psbt of
                            None \<Rightarrow> Inl ''to_sign PSBT has no unsigned transaction''
                          | Some tx \<Rightarrow> demand (bytesToHex (al_hashV1 L tx 0 [script] [val] 0) = payloadHex) ''psbtBase64''))
           | _ \<Rightarrow> Inl ''to_sign PSBT input count''))"

definition messageFor ::
    "('t, 'm) arch_libs \<Rightarrow> hub_intent \<Rightarrow> string \<Rightarrow> byte list \<Rightarrow> json \<Rightarrow> json \<Rightarrow> string + byte list" where
  "messageFor L intent arch signerScript payload display =
     (case intent of
        IntentMessage m \<Rightarrow> verifySignMessage L m arch signerScript payload display
      | _ \<Rightarrow> verifyArchTransaction L intent arch signerScript payload display)"

fun stringOf :: "json \<Rightarrow> string option" where
  "stringOf (JStr s) = Some s"
| "stringOf v = None"

definition verifiedPsbt :: "('t, 'm) arch_libs \<Rightarrow> json \<Rightarrow> byte list \<Rightarrow> string \<Rightarrow> string + string option" where
  "verifiedPsbt L payload signerScript payloadHex =
     (case stringOf (getProp ''psbtBase64'' payload) of
        Some psbtBase64 \<Rightarrow> rbind (verifyToSignPsbt L psbtBase64 signerScript payloadHex) (\<lambda>u. Inr (Some psbtBase64))
      | None \<Rightarrow> Inr None)"

definition verifyHubSigningRequest ::
    "('t, 'm) arch_libs \<Rightarrow> hub_intent \<Rightarrow> string \<Rightarrow> string option \<Rightarrow> json \<Rightarrow> json \<Rightarrow> string + string \<times> string option" where
  "verifyHubSigningRequest L intent btcAddress arch payloadToSign displayed =
     rbind (asObj payloadToSign ''payloadToSign'') (\<lambda>payload.
     rbind (asObj displayed ''display'') (\<lambda>display.
     rbind (demand (given arch) ''signing account has no Arch address'') (\<lambda>u.
     rbind (taprootScript L (JStr btcAddress) ''signing account address'') (\<lambda>signerScript.
     rbind (messageFor L intent (the arch) signerScript payload display) (\<lambda>message.
     rbind (orMismatch (walletToSignSighash L btcAddress message 0) ''sighash'') (\<lambda>digest.
     rbind (demand (isString (getProp ''payloadHex'' payload) \<and> lowerText (getProp ''payloadHex'' payload) = bytesToHex digest) ''payloadHex'') (\<lambda>u.
     rbind (verifiedPsbt L payload signerScript (bytesToHex digest)) (\<lambda>psbtBase64.
       Inr (bytesToHex digest, psbtBase64)))))))))"

subsection \<open>Hexadecimal text\<close>

lemma hex_digit_cases: "hex_value (lower_char c) \<noteq> None \<Longrightarrow> \<not> is_js_space c \<and> c \<noteq> CHR ''+'' \<and> c \<noteq> CHR ''-'' \<and> lower_char c \<noteq> CHR ''x''"
proof -
  assume "hex_value (lower_char c) \<noteq> None"
  then have m: "lower_char c \<in> set HEX_DIGITS" by (simp add: hex_value_def index_of_None_iff)
  have "char_code (lower_char c) \<ge> 48 \<and> lower_char c \<noteq> CHR ''x''"
    using m by (auto simp: HEX_DIGITS_def char_code_def)
  moreover have "char_code c < 48 \<or> 90 < char_code c \<Longrightarrow> lower_char c = c" by (auto simp: lower_char_def)
  ultimately show ?thesis
    using m by (auto simp: is_js_space_def char_code_def HEX_DIGITS_def)
qed

lemma parseBytePairs_hex:
  "list_all (\<lambda>c. hex_value (lower_char c) \<noteq> None) s \<Longrightarrow> parseBytePairs s = bufferFromHex s"
proof (induction s rule: parseBytePairs.induct)
  case (1 a b s)
  then show ?case using hex_digit_cases [of a] by (auto simp: parseIntByte_def split: option.splits)
qed simp_all

lemma wallet_hex:
  assumes "list_all (\<lambda>c. hex_value (lower_char c) \<noteq> None) s" "even (length s)"
  shows "walletHexToBytes s = Some (bufferFromHex s)"
proof -
  have no: "hex_value (lower_char (CHR ''x'')) = None" "hex_value (lower_char (CHR ''X'')) = None"
    by code_simp+
  have mem: "hex_value (lower_char c) \<noteq> None" if "c \<in> set s" for c
    using assms(1) that by (simp add: list_all_iff)
  have "CHR ''x'' \<notin> set s" "CHR ''X'' \<notin> set s" using mem no by blast+
  then have "\<not> starts_with ''0x'' s" "\<not> starts_with ''0X'' s"
    using in_set_takeD [of "CHR ''x''" "Suc (Suc 0)" s] in_set_takeD [of "CHR ''X''" "Suc (Suc 0)" s]
    by (auto simp: starts_with_def)
  then show ?thesis using assms parseBytePairs_hex by (simp add: walletHexToBytes_def)
qed

lemma wallet_hex64: "isHex64 s \<Longrightarrow> walletHexToBytes s = Some (bufferFromHex s)"
  by (simp add: isHex64_def wallet_hex)

lemma lower_bytesToHex: "js_lower (bytesToHex bs) = bytesToHex bs"
  using lower_hex_normal [OF lower_hex_bytesToHex, of bs] by (cases bs) (auto simp: js_lower_def bytesToHex_def)

subsection \<open>Amounts\<close>

lemma u64_same: "parseU64DecimalString (JStr s) = Some v \<longleftrightarrow> parseU64Decimal s label = Inr v"
  by (auto simp: parseU64DecimalString_def parseU64Decimal_def split: option.splits)

lemma u64_json: "parseU64DecimalString v = Some n \<Longrightarrow> \<exists>s. v = JStr s"
  by (auto simp: parseU64DecimalString_def split: json.splits)

subsection \<open>The same instructions\<close>

text \<open>The program identifiers of the packages are those the hub writes out.\<close>

definition sameConstants :: "('t, 'm) arch_libs \<Rightarrow> bool" where
  "sameConstants L \<longleftrightarrow> al_tokenProgram L = APL_TOKEN_PROGRAM_ID \<and> al_ataProgram L = APL_ASSOCIATED_TOKEN_PROGRAM_ID"

lemma same_instructions:
  assumes "sameConstants L"
  shows "hubTokenInstructions L p t m s d a c i = tokenTransferInstructions L p t m s d a c i"
    "getAplAssociatedTokenAddress L m w = associatedTokenAddress L m w"
  using assms
  by (simp_all add: sameConstants_def hubTokenInstructions_def tokenTransferInstructions_def
      buildCreateAssociatedTokenAccountInstruction_def createAssociatedTokenAccountInstruction_def
      buildTokenTransferInstruction_def tokenTransferInstruction_def getAplAssociatedTokenAddress_def associatedTokenAddress_def)

lemma orMismatch_Inr [simp]: "orMismatch x what = Inr a \<longleftrightarrow> x = Some a"
  by (cases x) (simp_all add: orMismatch_def)

lemma demand_Inr [simp]: "demand b what = Inr u \<longleftrightarrow> b"
  by (simp add: demand_def)

lemma pubkeyOf_Inr: "pubkeyOf L s what = Inr k \<longleftrightarrow> al_b58decode L s = Some k \<and> length k = 32"
  by (auto simp: pubkeyOf_def split: option.splits)

lemma asBool_Some [simp]: "asBool v = Some b \<longleftrightarrow> v = JBool b"
  by (cases v) auto

lemma createFlags_Inr:
  "createFlags display = Inr (c, i) \<longleftrightarrow> getProp ''createDestAta'' display = JBool c
     \<and> getProp ''createDestAtaIdempotent'' display = JBool i \<and> (i \<longrightarrow> c)"
  by (auto simp: createFlags_def split: option.splits)

lemma transfer_same:
  assumes "verifiedTransfer L payer to lamports display = Inr instructions"
    "getProp ''archAccountAddress'' (getProp ''to'' display) = JStr toAddress" "toAddress \<noteq> []" "al_b58decode L toAddress = Some to"
  shows "storedTransfer L payer display = Inr instructions"
proof -
  obtain n where n: "parseU64DecimalString (getProp ''lamports'' display) = Some n" "instructions = [al_transfer L payer to n]"
    using assms(1) by (auto simp: verifiedTransfer_def split: option.splits if_splits)
  obtain s where s: "getProp ''lamports'' display = JStr s" using u64_json [OF n(1)] by blast
  have "parseU64Decimal s ''Lamports'' = Inr n" using n(1) s u64_same by simp
  then show ?thesis
    using assms(2-4) n(2) s parse_nonempty by (simp add: storedTransfer_def parsePubkey_def orThrow_def)
qed

lemma token_same:
  assumes "verifiedTokenTransfer L payer to mintAddress amount source display = Inr instructions"
    "getProp ''archAccountAddress'' (getProp ''to'' display) = JStr toAddress" "al_b58decode L toAddress = Some to"
    "lawfulBase58 L" "sameConstants L"
  shows "storedTokenTransfer L payer display = Inr instructions"
proof -
  obtain n mint s d c i where f: "parseU64DecimalString (getProp ''amount'' display) = Some n"
      "getProp ''mint'' display = JStr mintAddress"
      "tokenAccountsFor L mintAddress source payer to = Inr (mint, s, d)"
      "getProp ''sourceAta'' display = JStr (al_b58encode L s)" "getProp ''destAta'' display = JStr (al_b58encode L d)"
      "getProp ''createDestAta'' display = JBool c" "getProp ''createDestAtaIdempotent'' display = JBool i"
      "instructions = tokenTransferInstructions L payer to mint s d n c i"
    using assms(1) by (auto simp: verifiedTokenTransfer_def rbind_eq_Inr_iff createFlags_Inr)
  have k: "al_b58decode L mintAddress = Some mint" "length mint = 32" "length d = 32" "length s = 32"
    using f(3) assms(4) unfolding tokenAccountsFor_def associatedTokenAddress_def lawfulBase58_def
    by (auto simp: rbind_eq_Inr_iff pubkeyOf_Inr split: option.splits)
  then have ne: "mintAddress \<noteq> []" "s \<noteq> []" "d \<noteq> []" using assms(4) unfolding lawfulBase58_def by auto
  obtain t where t: "getProp ''amount'' display = JStr t" using u64_json [OF f(1)] by blast
  have n: "parseU64Decimal t ''amount'' = Inr n" using f(1) t u64_same by simp
  show ?thesis
    using f t n parse_nonempty [OF n] ne k(1) assms(2,3) encode_nonempty [OF assms(4) ne(2)] encode_nonempty [OF assms(4) ne(3)]
    by (simp add: storedTokenTransfer_def parsePubkey_encode [OF assms(4)] orThrow_def same_instructions [OF assms(5)])
      (simp add: parsePubkey_def)
qed

subsection \<open>What an accepted request says\<close>

lemma demand_same: "rbind (demand b what) f = (if b then f () else Inl what)"
  by (simp add: demand_def)

lemma asObj_same: "asObj v what = Inr x \<Longrightarrow> x = v"
  by (cases v) auto

lemma expectSigner_facts:
  "expectSigner L v arch script = Inr () \<Longrightarrow> getProp ''archAccountAddress'' v = JStr arch
     \<and> taprootScript L (getProp ''taprootAddress'' v) ''from address'' = Inr script"
  by (auto simp: expectSigner_def rbind_eq_Inr_iff dest!: asObj_same)

lemma hexText_Some: "hexText v = Some s \<longleftrightarrow> v = JStr s \<and> isHex64 s"
  by (cases v) auto

lemma verifyTransaction_facts:
  assumes "verifyArchTransaction L intent arch script payload display = Inr h"
  shows "\<exists>blockhash payer to instructions m. getProp ''recentBlockhashHex'' payload = JStr blockhash \<and> isHex64 blockhash
    \<and> getProp ''archAccountAddress'' (getProp ''from'' display) = JStr arch
    \<and> getProp ''archAccountAddress'' (getProp ''to'' display) = JStr (intentTo intent)
    \<and> al_b58decode L arch = Some payer \<and> length payer = 32
    \<and> al_b58decode L (intentTo intent) = Some to \<and> length to = 32
    \<and> verifiedInstructions L intent payer to display = Inr instructions
    \<and> al_compile L instructions payer (bufferFromHex blockhash) = Inr m
    \<and> h = al_messageHash L m"
proof -
  obtain blockhash recipient payer to instructions bytes where f: "getProp ''recentBlockhashHex'' payload = JStr blockhash"
      "isHex64 blockhash" "expectSigner L (getProp ''from'' display) arch script = Inr ()"
      "asObj (getProp ''to'' display) ''display recipient'' = Inr recipient"
      "getProp ''archAccountAddress'' recipient = JStr (intentTo intent)"
      "pubkeyOf L arch ''signer Arch address'' = Inr payer" "pubkeyOf L (intentTo intent) ''recipient'' = Inr to"
      "verifiedInstructions L intent payer to display = Inr instructions" "walletHexToBytes blockhash = Some bytes"
      "rebuiltHash L instructions payer bytes payload = Inr h"
    using assms by (auto simp: verifyArchTransaction_def rbind_eq_Inr_iff hexText_Some)
  have "bytes = bufferFromHex blockhash" using f(9) wallet_hex64 [OF f(2)] by simp
  moreover obtain m where "al_compile L instructions payer bytes = Inr m" "h = al_messageHash L m"
    using f(10) by (auto simp: rebuiltHash_def Let_def split: sum.splits if_splits)
  ultimately show ?thesis
    using f(1,2,5-8) expectSigner_facts [OF f(3)] asObj_same [OF f(4)] unfolding pubkeyOf_Inr by blast
qed

text \<open>What a request of the site means as instructions.\<close>

definition intended :: "('t, 'm) arch_libs \<Rightarrow> hub_intent \<Rightarrow> byte list \<Rightarrow> byte list \<Rightarrow> arch_instruction list \<Rightarrow> bool" where
  "intended L intent payer to instructions =
     (case intent of
        IntentTransfer toAddress amount \<Rightarrow>
          (\<exists>n. parseU64DecimalString (JStr amount) = Some n \<and> instructions = [al_transfer L payer to n])
      | IntentToken mintAddress toAddress amount source \<Rightarrow>
          (\<exists>n mint s d create idempotent. parseU64DecimalString (JStr amount) = Some n
             \<and> tokenAccountsFor L mintAddress source payer to = Inr (mint, s, d)
             \<and> instructions = tokenTransferInstructions L payer to mint s d n create idempotent)
      | IntentMessage m \<Rightarrow> False)"

lemma verified_intended:
  assumes "verifiedInstructions L intent payer to display = Inr instructions"
  shows "intended L intent payer to instructions"
proof (cases intent)
  case (IntentToken m a n src)
  then show ?thesis
    using assms unfolding verifiedInstructions_def intended_def verifiedTokenTransfer_def rbind_eq_Inr_iff
    by (auto simp: rbind_eq_Inr_iff) blast
qed (use assms in \<open>auto simp: verifiedInstructions_def intended_def verifiedTransfer_def split: option.splits if_splits\<close>)

lemma verifyRequest_facts:
  assumes "verifyHubSigningRequest L intent address arch payload display = Inr (hex, psbt)" "intentType intent \<noteq> ''arch.sign_message''"
  shows "\<exists>script h digest. given arch \<and> taprootScript L (JStr address) ''signing account address'' = Inr script
    \<and> verifyArchTransaction L intent (the arch) script payload display = Inr h
    \<and> walletToSignSighash L address h 0 = Some digest \<and> hex = bytesToHex digest"
proof -
  have "messageFor L intent a s p d = verifyArchTransaction L intent a s p d" for a s p d
    using assms(2) by (cases intent) (simp_all add: messageFor_def)
  then show ?thesis
    using assms(1) by (auto simp: verifyHubSigningRequest_def rbind_eq_Inr_iff simp del: taprootScript.simps dest!: asObj_same)
qed

lemma stored_verified:
  assumes "verifiedInstructions L intent payer to (sg_display row) = Inr instructions"
    "getProp ''archAccountAddress'' (getProp ''to'' (sg_display row)) = JStr (intentTo intent)"
    "al_b58decode L (intentTo intent) = Some to" "length to = 32" "lawfulBase58 L" "sameConstants L"
    "sg_action row = intentType intent"
  shows "storedInstructions L payer row = Inr instructions"
proof (cases intent)
  case (IntentTransfer a n)
  have "a \<noteq> []" using assms(3-5) IntentTransfer unfolding lawfulBase58_def by auto
  then show ?thesis
    using assms IntentTransfer by (simp add: storedInstructions_def verifiedInstructions_def transfer_same)
next
  case (IntentToken m a n src)
  then show ?thesis
    using assms token_same by (auto simp: storedInstructions_def verifiedInstructions_def)
qed (use assms in \<open>simp add: verifiedInstructions_def\<close>)

lemma accepted_broadcast:
  fixes S :: "('t, 'm) hub_setup"
  defines "L \<equiv> hs_libs S"
  assumes w: "w = runHub S evs (startWorld db audit)" and row: "row \<in> set (rowsOf w)"
    and b: "b \<in> set (hw_sent w)" "bc_request b = sg_id row"
    and verified: "verifyHubSigningRequest L intent address (Some arch) (sg_payload row) (sg_display row) = Inr (hex, psbt)"
    and action: "sg_action row = intentType intent" "intentType intent \<noteq> ''arch.sign_message''"
    and laws: "lawfulBase58 L" "sameConstants L"
  shows "\<exists>payer to instructions blockhash. al_b58decode L arch = Some payer \<and> al_b58decode L (intentTo intent) = Some to
    \<and> intended L intent payer to instructions \<and> al_compile L instructions payer blockhash = Inr (bc_message b)"
proof -
  have inv: "hubInv S w" unfolding w by (intro reachable_inv reachable_runHub reachable.start)
  then obtain r where r: "r \<in> set (rowsOf w)" "sg_id r = sg_id row" "authorisedTx L r (bc_signature b) (bc_message b)"
    using b unfolding hubInv_def sentOk_def L_def by metis
  have "r = row" using distinct_map_eq [of sg_id "rowsOf w" r row] inv r(1,2) row by (simp add: hubInv_def)
  then obtain keys ins where a: "submitKeys L row = Inr keys" "storedInstructions L (sk_payer keys) row = Inr ins"
      "al_compile L ins (sk_payer keys) (bufferFromHex (sk_blockhashHex keys)) = Inr (bc_message b)"
    using r(3) unfolding authorisedTx_def by blast
  obtain script h digest where v: "verifyArchTransaction L intent arch script (sg_payload row) (sg_display row) = Inr h" "given (Some arch)"
    using verifyRequest_facts [OF verified action(2)] by auto
  obtain blockhash payer to instructions m where f: "getProp ''archAccountAddress'' (getProp ''from'' (sg_display row)) = JStr arch"
      "getProp ''archAccountAddress'' (getProp ''to'' (sg_display row)) = JStr (intentTo intent)"
      "al_b58decode L arch = Some payer" "al_b58decode L (intentTo intent) = Some to" "length to = 32"
      "verifiedInstructions L intent payer to (sg_display row) = Inr instructions"
    using verifyTransaction_facts [OF v(1)] by blast
  have "sk_payer keys = payer"
    using a(1) f(1,3) by (auto simp: submitKeys_def Let_def rbind_eq_Inr_iff signerField_def parsePubkey_def split: if_splits)
  moreover have "storedInstructions L payer row = Inr instructions"
    by (rule stored_verified [OF f(6,2,4,5) laws action(1)])
  ultimately show ?thesis using a f(3,4) verified_intended [OF f(6)] by auto
qed

subsection \<open>The hub's own answer is accepted\<close>

lemma identityFromAddress_arch:
  "identityFromAddress L a rid e = Inr who \<Longrightarrow> \<exists>b. length b = 32 \<and> sid_arch who = al_b58encode L b"
  by (auto simp: identityFromAddress_def identity_def split: option.splits resolved_account.splits
      dest!: resolve_taproot taprootProgram_length)

lemma internal_arch:
  "archAccountFromInternalKey L k = Inr ids \<Longrightarrow> \<exists>b. length b = 32 \<and> snd ids = al_b58encode L b"
  by (auto simp: archAccountFromInternalKey_def Let_def split: if_splits)

lemma externalSigner_arch: "externalSigner L a key = Inr who \<Longrightarrow> \<exists>b. length b = 32 \<and> sid_arch who = al_b58encode L b"
  by (auto simp: externalSigner_def identity_def split: option.splits sum.splits if_splits
      dest!: identityFromAddress_arch walletKey_internal internal_arch)

lemma taprootScript_program: "taprootProgram L a = Some key \<Longrightarrow> taprootScript L (JStr a) what = Inr (0x51 # 0x20 # key)"
  by (auto simp: taprootProgram_def split: option.splits prod.splits if_splits)

lemma expectSigner_display:
  "taprootProgram L (sid_taproot who) = Some key \<Longrightarrow> expectSigner L (fromDisplay who) (sid_arch who) (0x51 # 0x20 # key) = Inr ()"
  by (simp add: expectSigner_def fromDisplay_def rbind_eq_Inr_iff taprootScript_program del: taprootScript.simps)

lemma psbt_accepted:
  assumes "lawfulToSign L" "lawfulDigest L" "taprootProgram L a = Some key" "hubToSignSighash L a h = Some digest"
    "buildBip322ToSignPsbtBase64 L a h (Some k) = Some psbt"
  shows "verifyToSignPsbt L psbt (0x51 # 0x20 # key) (bytesToHex digest) = Inr ()"
proof -
  let ?script = "0x51 # 0x20 # key" let ?id = "al_toSpendId L h ?script"
  have sp: "al_scriptPubkey L a = Some ?script" using assms(1,3) unfolding lawfulToSign_def by blast
  have p: "psbt = al_toBase64 L (al_toSign L ?id ?script (Some k))"
    using assms(5) by (simp add: buildBip322ToSignPsbtBase64_def sp)
  have read: "al_fromBase64 L psbt = Some (al_toSign L ?id ?script (Some k))"
    using assms(1) p unfolding lawfulToSign_def by blast
  obtain ty tx where t: "al_toSign L ?id ?script (Some k)
      = \<lparr> sp_inputs = [\<lparr> si_witness = Some (?script, 0), si_sighashType = ty, si_tapInternalKey = Some k \<rparr>], sp_tx = Some tx \<rparr>"
    "ty \<in> {None, Some 0, Some 1}"
    by (rule toSign_shape [OF assms(1), of ?id ?script "Some k"]) blast
  have "digest = al_hashV1 L tx 0 [?script] [0] 0"
    using hubSighash_tx [OF assms(1,2,3), of h "Some k"] assms(4) t(1) by simp
  then show ?thesis using t(2) by (simp add: verifyToSignPsbt_def read t(1))
qed

text \<open>The intent of the site is the action the wallet sends to the hub, with 32-byte keys.\<close>

fun asksFor :: "('t, 'm) arch_libs \<Rightarrow> hub_intent \<Rightarrow> action_body \<Rightarrow> bool" where
  "asksFor L (IntentTransfer to n) (ActTransfer to' n') = (to' = to \<and> n' = n \<and> map_option length (al_b58decode L to) = Some 32)"
| "asksFor L (IntentToken m to n src) (ActToken m' to' n' src' d) =
     (m' = m \<and> to' = to \<and> n' = n \<and> src' = src \<and> map_option length (al_b58decode L to) = Some 32
        \<and> map_option length (al_b58decode L m) = Some 32
        \<and> (\<forall>s. src = Some s \<longrightarrow> map_option length (al_b58decode L s) = Some 32))"
| "asksFor L intent action = False"

lemma decode32_nonempty: "lawfulBase58 L \<Longrightarrow> map_option length (al_b58decode L s) = Some 32 \<Longrightarrow> s \<noteq> []"
  unfolding lawfulBase58_def by auto

lemma asksFor_plain: "asksFor L intent action \<Longrightarrow> lawfulBase58 L \<Longrightarrow> plainAction action \<and> intentType intent \<noteq> ''arch.sign_message''"
  by (cases "(L, intent, action)" rule: asksFor.cases) (auto dest: decode32_nonempty)

lemma built_verified:
  assumes "asksFor L intent action" "builtBy S Testnet ans who payer action = Inr (instructions, display)" "L = hs_libs S"
    "lawfulBase58 L" "sameConstants L"
  shows "\<exists>to. al_b58decode L (intentTo intent) = Some to \<and> length to = 32
    \<and> verifiedInstructions L intent payer to display = Inr instructions
    \<and> getProp ''kind'' display = JStr (intentType intent)
    \<and> (\<exists>kvs. getProp ''to'' display = JObj kvs)
    \<and> getProp ''archAccountAddress'' (getProp ''to'' display) = JStr (intentTo intent)"
proof (cases "(L, intent, action)" rule: asksFor.cases)
  case (1 L' to n to' n')
  then obtain toKey v ws where f: "parsePubkey L to = Some toKey" "parseU64Decimal n ''Lamports'' = Inr v"
      "instructions = [al_transfer L payer toKey v]" "display = transferDisplay who to n ws"
    using assms(1-3) transferAction_facts [of S Testnet ans who payer to n] by (auto simp: builtBy_def)
  have "getProp ''to'' display = JObj [(''input'', JStr to), (''archAccountAddress'', JStr to)]"
    by (simp add: f(4) transferDisplay_def)
  then show ?thesis
    using 1 assms(1) f u64_same [of n v "''Lamports''"]
    by (auto simp: parsePubkey_def verifiedInstructions_def verifiedTransfer_def transferDisplay_fields)
next
  case (2 L' m to n src m' to' n' src' d)
  then obtain mint toKey v s t srcA ds create where f: "parsePubkey L m = Some mint" "parsePubkey L to = Some toKey"
      "parseU64Decimal n ''amount'' = Inr v"
      "(if given src then parsePubkey L (the src) else getAplAssociatedTokenAddress L mint payer) = Some srcA"
      "getAplAssociatedTokenAddress L mint toKey = Some ds" "tokenAccounts S Testnet ans m mint srcA ds = (s, t, create)"
      "instructions = hubTokenInstructions L payer toKey mint s t v create True"
      "display = tokenDisplay L who m to n d s t create True"
    using assms(1-3) tokenAction_facts [of S Testnet ans who payer m to n src d instructions display]
    by (auto simp: builtBy_def)
  have acc: "s = srcA" "t = ds" "create" using f(6) by (auto simp: tokenAccounts_def)
  have "src \<noteq> Some []" using 2 assms(1) decode32_nonempty [OF assms(4)] by auto
  then have "tokenAccountsFor L m src payer toKey = Inr (mint, srcA, ds)"
    using 2 assms(1) f(1,2,4,5) unfolding same_instructions [OF assms(5)]
    by (auto simp: tokenAccountsFor_def rbind_eq_Inr_iff pubkeyOf_Inr parsePubkey_def given_def split: option.splits)
  moreover have "getProp ''to'' display = JObj [(''input'', JStr to), (''archAccountAddress'', JStr to)]"
    by (simp add: f(8) tokenDisplay_def)
  moreover have "parseU64DecimalString (JStr n) = Some v" using f(3) u64_same by blast
  moreover have "createFlags display = Inr (True, True)"
    by (simp add: createFlags_Inr f(8) tokenDisplay_fields acc(3))
  ultimately have "verifiedInstructions L intent payer toKey display = Inr instructions"
    using 2 f(7) acc unfolding same_instructions [OF assms(5)]
    by (auto simp: verifiedInstructions_def verifiedTokenTransfer_def rbind_eq_Inr_iff f(8) tokenDisplay_fields)
  moreover have "al_b58decode L to = Some toKey" "length toKey = 32" using 2 assms(1) f(2) by (auto simp: parsePubkey_def)
  ultimately show ?thesis
    using 2 \<open>getProp ''to'' display = _\<close> by (simp add: f(8) tokenDisplay_fields)
qed (use assms(1) in auto)

lemma own_answer_accepted:
  fixes S :: "('t, 'm) hub_setup"
  defines "L \<equiv> hs_libs S"
  assumes laws: "lawfulBase58 L" "lawfulToSign L" "lawfulDigest L" "sameConstants L"
    and post: "postSigningRequest S Testnet drUser dr ans app body tables = (Answer reply, tables')"
    and signer: "cb_signer body = ExternalSigner address key" "externalSigner L address key = Inr who"
    and asks: "asksFor L intent (cb_action body)"
    and hex: "\<forall>h. recentBlockhash ans = Inr h \<longrightarrow> isHex64 h"
  shows "\<exists>digest psbt. verifyHubSigningRequest L intent address (Some (sid_arch who))
      (getProp ''payloadToSign'' reply) (getProp ''display'' reply) = Inr (digest, Some psbt)
    \<and> getProp ''payloadHex'' (getProp ''payloadToSign'' reply) = JStr digest"
proof -
  have plain: "plainAction (cb_action body)" using asksFor_plain [OF asks laws(1)] by simp
  obtain u who' p b row db where c: "resolveSigner S ans (the app) u (cb_signer body) db = (Inr who', ht_db tables')"
      "transactionOf S Testnet ans who' (cb_action body) = (Inr p, b)" "reply = createdReply (al_sha256Hex (hs_libs S)) p row"
    using created_facts [OF post plain] by blast
  have who: "who' = who" "sid_arch who \<noteq> []"
    using c(1) signer unfolding L_def by (auto simp: resolveSigner_def split: if_splits)
  obtain payer blockhash instructions where t: "parsePubkey L (sid_arch who) = Some payer" "recentBlockhash ans = Inr blockhash"
      "builtBy S Testnet ans who payer (cb_action body) = Inr (instructions, py_display p)"
      "transactionPayload L who payer blockhash instructions = Inr (py_payload p)"
    using transactionOf_facts [OF c(2)] unfolding who(1) L_def by blast
  obtain m digest where m: "al_compile L instructions payer (bufferFromHex blockhash) = Inr m"
      "hubToSignSighash L (sid_taproot who) (al_messageHash L m) = Some digest"
      and py: "proper (py_payload p)" "getProp ''payloadHex'' (py_payload p) = JStr (bytesToHex digest)"
        "getProp ''recentBlockhashHex'' (py_payload p) = JStr blockhash"
        "getProp ''messageHashHex'' (py_payload p) = JStr (bytesToHex (al_messageHash L m))"
      and psbt: "\<exists>psbt key. getProp ''psbtBase64'' (py_payload p) = JStr psbt
         \<and> buildBip322ToSignPsbtBase64 L (sid_taproot who) (al_messageHash L m) (Some key) = Some psbt"
    using payload_facts [OF t(4)] by blast
  obtain b64 k where k: "getProp ''psbtBase64'' (py_payload p) = JStr b64"
      "buildBip322ToSignPsbtBase64 L (sid_taproot who) (al_messageHash L m) (Some k) = Some b64" using psbt by blast
  have taproot: "sid_taproot who = address" using externalSigner_good [OF signer(2)] by simp
  obtain key where key: "taprootProgram L address = Some key" using hubSighash_program [OF m(2)] taproot by blast
  let ?script = "0x51 # 0x20 # key"
  obtain to kvs where b: "al_b58decode L (intentTo intent) = Some to" "length to = 32"
      "verifiedInstructions L intent payer to (py_display p) = Inr instructions"
      "getProp ''kind'' (py_display p) = JStr (intentType intent)" "getProp ''to'' (py_display p) = JObj kvs"
      "getProp ''archAccountAddress'' (getProp ''to'' (py_display p)) = JStr (intentTo intent)"
    using built_verified [OF asks t(3) L_def [THEN meta_eq_to_obj_eq] laws(1,4)] by blast
  have payer: "al_b58decode L (sid_arch who) = Some payer" "length payer = 32"
    using t(1) externalSigner_arch [OF signer(2)] laws(1) unfolding parsePubkey_def lawfulBase58_def by auto
  have signerOk: "expectSigner L (getProp ''from'' (py_display p)) (sid_arch who) ?script = Inr ()"
    using builtBy_display [OF t(3)] expectSigner_display [of L who key] key taproot by simp
  have bh: "isHex64 blockhash" using hex t(2) by blast
  have sign: "walletToSignSighash L address (al_messageHash L m) 0 = Some digest"
    using digests_agree [OF laws(2,3), of address] m(2) taproot by simp
  have hash: "verifyArchTransaction L intent (sid_arch who) ?script (py_payload p) (py_display p) = Inr (al_messageHash L m)"
    unfolding verifyArchTransaction_def
    using bh py b payer signerOk m(1) wallet_hex64 [OF bh]
    by (simp add: orMismatch_def demand_def pubkeyOf_def rebuiltHash_def Let_def)
  then have "messageFor L intent (sid_arch who) ?script (py_payload p) (py_display p) = Inr (al_messageHash L m)"
    using asksFor_plain [OF asks laws(1)] by (cases intent) (simp_all add: messageFor_def)
  moreover have "verifiedPsbt L (py_payload p) ?script (bytesToHex digest) = Inr (Some b64)"
    using psbt_accepted [OF laws(2,3) key _ k(2) [unfolded taproot]] m(2) by (simp add: verifiedPsbt_def k(1) taproot)
  moreover have "\<exists>f. py_payload p = JObj f" using py(2) by (cases "py_payload p") simp_all
  moreover have "\<exists>f. py_display p = JObj f" using b(5) by (cases "py_display p") simp_all
  ultimately have "verifyHubSigningRequest L intent address (Some (sid_arch who)) (py_payload p) (py_display p)
      = Inr (bytesToHex digest, Some b64)"
    using who(2) taprootScript_program [OF key] sign py(2)
    by (auto simp: verifyHubSigningRequest_def demand_def orMismatch_def given_def lowerText_def lower_bytesToHex simp del: taprootScript.simps)
  then show ?thesis using py(2) by (simp add: c(3) createdReply_def)
qed

end
