(* ===== verification/HubRuns.thy ===== *)
theory HubRuns
  imports HubVerify
begin

text \<open>
  Runs of the hub: the properties of every interleaving, the run that takes a created request to its
  broadcast, and concrete requests at which the theorems of \<open>HubRoundtrip\<close> and \<open>HubVerify\<close> apply.
\<close>

subsection \<open>A concrete hub\<close>

definition sampleConfig :: "bool \<Rightarrow> hub_config" where
  "sampleConfig indexer =
     \<lparr> cf_rpcMainnet = None, cf_rpcTestnet = None, cf_rpc = Some ''u'', cf_indexerMainnet = indexer, cf_indexerTestnet = indexer,
       cf_indexer = False, cf_minConfirmations = None, cf_requireAnchored = False \<rparr>"

definition sampleSetup :: "bool \<Rightarrow> (string, sample_message) hub_setup" where
  "sampleSetup indexer =
     \<lparr> hs_libs = sampleLibs, hs_config = sampleConfig indexer, hs_hmac = (\<lambda>s m. ''h''), hs_jsonb = (\<lambda>v. v),
       hs_auditSecret = Some ''s'', hs_utf8 = (\<lambda>b. None) \<rparr>"

definition sampleDraws :: "int \<Rightarrow> draws" where
  "sampleDraws now = \<lparr> su_env = sampleEnv \<lparr> he_now := now, he_userId := ''u1'', he_rowId := ''r1'' \<rparr>, su_auditId = ''a1'' \<rparr>"

definition sampleKeyOf :: "byte \<Rightarrow> string" where
  "sampleKeyOf b = bytesToHex (replicate 32 b)"

definition sampleAddress :: string where
  "sampleAddress = ''tb1p'' @ sampleKeyOf 1"

definition sampleReady :: ready_answers where
  "sampleReady = \<lparr> ra_account = Inr JNull, ra_address = None, ra_utxos = None, ra_tip = None \<rparr>"

definition sampleAnswers :: create_answers where
  "sampleAnswers =
     \<lparr> ca_accounts = None, ca_hasFinalized = True, ca_finalized = Some (sampleKeyOf 3), ca_best = Inl ''down'',
       ca_blockhashTimeout = False, ca_readiness = sampleReady, ca_readinessTimeout = False, ca_tokens = None \<rparr>"

definition sampleCreate :: create_body where
  "sampleCreate = \<lparr> cb_externalUserId = ''alice'', cb_signer = ExternalSigner sampleAddress None,
     cb_action = ActTransfer (sampleKeyOf 2) ''7'' \<rparr>"

definition emptyHub :: hub_tables where
  "emptyHub = \<lparr> ht_db = \<lparr> appKeys = [], users = [], resources = [], linkedWallets = [], challenges = [], sessions = [] \<rparr>,
     ht_requests = [], ht_audit = [] \<rparr>"

lemma sample_setup_simps [simp]:
  "hs_libs (sampleSetup i) = sampleLibs" "hs_config (sampleSetup i) = sampleConfig i"
  "archRpcUrlForRequest (sampleConfig i) n = Some ''u''" "indexerForRequest (sampleConfig i) n = i"
  by (simp_all add: sampleSetup_def sampleConfig_def archRpcUrlForRequest_def indexerForRequest_def given_def split: arch_network.splits)

lemma sampleKeyOf_simps [simp]: "length (sampleKeyOf b) = 64" "bufferFromHex (sampleKeyOf b) = replicate 32 b" "sampleKeyOf b \<noteq> []"
  by (simp_all add: sampleKeyOf_def length_bytesToHex bytesToHex_nil)

lemma sample_decode: "al_b58decode sampleLibs (sampleKeyOf b) = Some (replicate 32 b)"
proof -
  have "al_b58encode sampleLibs (replicate 32 b) = sampleKeyOf b" by (simp add: sampleLibs_def sampleKeyOf_def)
  then show ?thesis using sample_base58 unfolding lawfulBase58_def by metis
qed

lemma sample_program: "taprootProgram sampleLibs sampleAddress = Some (replicate 32 1)"
  by (simp add: taprootProgram_def sampleLibs_def sampleAddress_def starts_with_def)

lemma sample_signer:
  "externalSigner sampleLibs sampleAddress None = Inr (identity sampleAddress (sampleKeyOf 1, sampleKeyOf 1) None)"
  using sample_program
  by (simp add: externalSigner_def identityFromAddress_def resolveArchAccountAddress_def bech32ish_def sampleAddress_def starts_with_def)
    (simp add: sampleLibs_def sampleKeyOf_def)

lemma sample_audit: "\<exists>rows. auditIn (sampleSetup i) dr a u e r t p s [] = Some rows"
  by (simp add: auditIn_def auditEvent_def requireAuditSecret_def insertAuditLog_def sampleSetup_def chainTip_def chainedRows_def Let_def
      split: sum.splits)

lemma sample_blockhash: "recentBlockhash sampleAnswers = Inr (sampleKeyOf 3)"
  by (simp add: recentBlockhash_def sampleAnswers_def getFinalizedBlockhash_def)

lemma sample_amount: "parseU64Decimal ''7'' l = Inr 7"
proof -
  have "parseU64DecimalString (JStr ''7'') = Some 7" by code_simp
  then show ?thesis using u64_same by blast
qed

definition sampleWho :: signer_identity where
  "sampleWho = identity sampleAddress (sampleKeyOf 1, sampleKeyOf 1) None"

lemma sampleWho_simps [simp]:
  "sid_taproot sampleWho = sampleAddress" "sid_arch sampleWho = sampleKeyOf 1" "sid_xOnly sampleWho = sampleKeyOf 1"
  "sid_kind sampleWho = ''external''" "sid_address sampleWho = Some sampleAddress" "sid_resource sampleWho = None"
  by (simp_all add: sampleWho_def identity_def)

lemma sample_instructions:
  "\<exists>ws. transferAction (sampleSetup i) n sampleAnswers sampleWho (replicate 32 1) (sampleKeyOf 2) ''7''
     = Inr ([al_transfer sampleLibs (replicate 32 1) (replicate 32 2) 7], transferDisplay sampleWho (sampleKeyOf 2) ''7'' ws)"
proof -
  have "\<not> isTaprootAddress (sampleKeyOf 2)"
    by code_simp
  then show ?thesis
    by (auto simp: transferAction_def parsePubkey_def sample_decode orThrow_def sample_amount)
qed

lemma sample_sighash: "\<exists>d. hubToSignSighash sampleLibs sampleAddress m = Some d"
  using hubSighash_tx [OF sample_toSign sample_digest sample_program] by blast

lemma sample_hub_payload:
  "\<exists>payload. transactionPayload sampleLibs sampleWho payer blockhash instructions = Inr payload"
proof -
  obtain d where d: "hubToSignSighash sampleLibs sampleAddress (al_messageHash sampleLibs (instructions, payer, bufferFromHex blockhash)) = Some d"
    using sample_sighash by blast
  have c: "al_compile sampleLibs instructions payer b = Inr (instructions, payer, b)" for b by (simp add: sampleLibs_def)
  have sp: "al_scriptPubkey sampleLibs sampleAddress = Some (0x51 # 0x20 # replicate 32 1)"
    using sample_toSign sample_program unfolding lawfulToSign_def by blast
  show ?thesis
    by (simp add: transactionPayload_def c Let_def transactionKey_def orThrow_def d buildBip322ToSignPsbtBase64_def sp)
qed

lemma sample_transaction:
  "\<exists>p. transactionOf (sampleSetup i) n sampleAnswers sampleWho (ActTransfer (sampleKeyOf 2) ''7'') = (Inr p, \<not> i)"
proof -
  obtain ws where t: "transferAction (sampleSetup i) n sampleAnswers sampleWho (replicate 32 1) (sampleKeyOf 2) ''7''
     = Inr ([al_transfer sampleLibs (replicate 32 1) (replicate 32 2) 7], transferDisplay sampleWho (sampleKeyOf 2) ''7'' ws)"
    using sample_instructions by blast
  obtain payload where p: "transactionPayload sampleLibs sampleWho (replicate 32 1) (sampleKeyOf 3)
      [al_transfer sampleLibs (replicate 32 1) (replicate 32 2) 7] = Inr payload"
    using sample_hub_payload by blast
  show ?thesis
    by (simp add: transactionOf_def Let_def parsePubkey_def sample_decode orThrow_def sample_blockhash t p)
qed

text \<open>The request of the sample is created; without an indexer the client is told 501 all the same.\<close>

lemma sample_created:
  "\<exists>p row audit. postSigningRequest (sampleSetup i) n (sampleDraws 0) (sampleDraws 0) sampleAnswers (Some ''app'') sampleCreate emptyHub
     = (if i then Answer (createdReply (al_sha256Hex sampleLibs) p row) else Refuse 501 ''Indexer not configured (INDEXER_BASE_URL missing)'',
        emptyHub \<lparr> ht_db := ht_db emptyHub \<lparr> users := [\<lparr> us_id = ''u1'', us_app = ''app'', us_external = Some ''alice'' \<rparr>] \<rparr>,
                   ht_requests := [row], ht_audit := audit \<rparr>)
     \<and> sg_id row = ''r1'' \<and> sg_app row = ''app'' \<and> sg_user row = ''u1'' \<and> sg_status row = SrPending \<and> sg_expires row = Some 600000
     \<and> sg_action row = ''arch.transfer'' \<and> sg_payload row = stripped (py_payload p) \<and> sg_display row = stripped (py_display p)"
proof -
  obtain p where p: "transactionOf (sampleSetup i) n sampleAnswers sampleWho (ActTransfer (sampleKeyOf 2) ''7'') = (Inr p, \<not> i)"
    using sample_transaction by blast
  have act: "py_action p = ''arch.transfer''" using transactionOf_facts [OF p] by auto
  let ?db = "ht_db emptyHub \<lparr> users := [\<lparr> us_id = ''u1'', us_app = ''app'', us_external = Some ''alice'' \<rparr>] \<rparr>"
  have u: "getOrCreateUserByExternalId (su_env (sampleDraws 0)) ''app'' ''alice'' (ht_db emptyHub) = (''u1'', ?db)"
    by (simp add: getOrCreateUserByExternalId_def emptyHub_def sampleDraws_def)
  have who: "resolveSigner (sampleSetup i) sampleAnswers ''app'' ''u1'' (ExternalSigner sampleAddress None) db = (Inr sampleWho, db)" for db
    using sample_signer by (simp add: resolveSigner_def sampleWho_def [symmetric])
  obtain audit where audit: "auditIn (sampleSetup i) (sampleDraws 0) ''app'' ''u1'' ''signing_request.created'' ''r1'' None
      (JObj [(''actionType'', JStr (py_action p)), (''signerKind'', JStr ''external'')]) AuditChain.Succeeded [] = Some audit"
    using sample_audit by blast
  have env: "he_now (su_env (sampleDraws 0)) = 0" "he_rowId (su_env (sampleDraws 0)) = ''r1''" by (simp_all add: sampleDraws_def)
  have hub: "ht_requests emptyHub = []" "ht_audit emptyHub = []" by (simp_all add: emptyHub_def)
  obtain row where row: "persistRequest (sampleSetup i) (sampleDraws 0) ''app'' ''u1'' sampleWho 600000 p (emptyHub \<lparr> ht_db := ?db \<rparr>)
      = (Some row, emptyHub \<lparr> ht_db := ?db, ht_requests := [row], ht_audit := audit \<rparr>)" and id: "sg_id row = ''r1''"
    by (simp add: persistRequest_def insertSigningRequest_def env hub audit Let_def)
  have "postSigningRequest (sampleSetup i) n (sampleDraws 0) (sampleDraws 0) sampleAnswers (Some ''app'') sampleCreate emptyHub
     = (if i then Answer (createdReply (al_sha256Hex sampleLibs) p row) else Refuse 501 ''Indexer not configured (INDEXER_BASE_URL missing)'',
        emptyHub \<lparr> ht_db := ?db, ht_requests := [row], ht_audit := audit \<rparr>)"
    by (simp add: postSigningRequest_def sampleCreate_def rawAmount_def sample_amount u who p env given_def REQUEST_TTL_MS_def row Let_def)
  then show ?thesis using persist_facts [OF row] id act by (intro exI [of _ p] exI [of _ row] exI [of _ audit]) simp
qed

subsection \<open>From a created request to its broadcast\<close>

lemma find_last:
  assumes "sg_id row \<notin> sg_id ` set rows"
  shows "getSigningRequestForApp (sg_id row) (sg_app row) (rows @ [row]) = Some row"
  using assms by (induction rows) (auto simp: getSigningRequestForApp_def)

lemma markSubmitted_row:
  assumes "row \<in> set rows" "sg_status row = SrPending"
  shows "fst (markSigningRequestSubmitted now (sg_id row) sub res rows)"
  using assms by (auto simp: markSigningRequestSubmitted_def Let_def)

definition submitEvents :: "nat \<Rightarrow> string \<Rightarrow> string \<Rightarrow> arch_network \<Rightarrow> submit_body \<Rightarrow> draws list \<Rightarrow> ready_answers \<Rightarrow> hub_event list" where
  "submitEvents i app rid network sb ds a =
     [StartSubmit i (Some app) rid network sb, Resume i (ds ! 0) Ran, Resume i (ds ! 1) Ran, Resume i (ds ! 2) (ReadyIs a),
      Resume i (ds ! 3) Ran]"

text \<open>A submit whose checks all pass is broadcast.\<close>

lemma submit_run:
  fixes S :: "('t, 'm) hub_setup" and w :: "'m hub_world"
  assumes call: "hw_calls w i = None" "app \<noteq> []"
    and user: "getOrCreateUserByExternalId (su_env (ds ! 0)) app (sb_external sb) (ht_db (hw_tables w)) = (sg_user row, db)"
    and row: "getSigningRequestForApp rid app (rowsOf w) = Some row" "sg_status row = SrPending" "isTransfer row"
    and fresh: "\<forall>t. sg_expires row = Some t \<longrightarrow> he_now (su_env (ds ! 1)) \<le> t"
    and keys: "submitKeys (hs_libs S) row = Inr keys"
    and url: "archRpcUrlForRequest (hs_config S) network = Some url"
    and ready: "readinessFor S network a = Some r" "readinessRefusal r = None"
    and prepare: "prepareSubmit (hs_libs S) (Some url) row keys sb = Inr (PreparedTx sub sig m)"
  shows "hw_sent (runHub S (submitEvents i app rid network sb ds a) w)
      = hw_sent w @ [\<lparr> bc_request = sg_id row, bc_signature = sig, bc_message = m \<rparr>]
    \<and> rowsOf (runHub S (submitEvents i app rid network sb ds a) w)
      = snd (markSigningRequestSubmitted (he_now (su_env (ds ! 3))) (sg_id row) sub JNull (rowsOf w))
    \<and> map_option hc_reply (hw_calls (runHub S (submitEvents i app rid network sb ds a) w) i) = Some (if indexerForRequest (hs_config S) network then None
           else Some (Refuse 501 ''Indexer not configured (INDEXER_BASE_URL missing)''))"
proof -
  have load: "rbind (loadChecks now (sg_user row) (Some row)) f = f row" if "now = he_now (su_env (ds ! 1))" for now f
    using row(2) fresh that by (auto simp: loadChecks_def split: option.splits)
  have mem: "row \<in> set (rowsOf w)" using row(1) by (auto simp: getSigningRequestForApp_def find_Some_iff)
  obtain rows where mark: "markSigningRequestSubmitted (he_now (su_env (ds ! 3))) (sg_id row) sub JNull (rowsOf w) = (True, rows)"
    using markSubmitted_row [OF mem row(2)] by (metis prod.collapse)
  define w1 where "w1 = withCall i (newCall (Some app) rid network sb AtUser) w"
  define c :: "'m hub_call" where "c = newCall (Some app) rid network sb AtUser"
  have c: "hc_app c = app" "hc_request c = rid" "hc_network c = network" "hc_body c = sb" "hc_stage c = AtUser" "hc_reply c = None"
    using call(2) by (simp_all add: c_def newCall_def given_def)
  define w2 where "w2 = withCall i (goTo (AtLoad (sg_user row)) c) (w1 \<lparr> hw_tables := hw_tables w1 \<lparr> ht_db := db \<rparr> \<rparr>)"
  have s1: "hubStep S (StartSubmit i (Some app) rid network sb) w = w1"
    using call(1) by (simp add: w1_def)
  have t1: "hw_tables w1 = hw_tables w" "hw_calls w1 i = Some c" "hw_sent w1 = hw_sent w"
    by (simp_all add: w1_def c_def)
  have s2: "hubStep S (Resume i (ds ! 0) Ran) w1 = w2"
    by (simp add: t1 c onRan_def findUserStep_def user w2_def)
  let ?c2 = "goTo (AtLoad (sg_user row)) c"
  have t2: "rowsOf w2 = rowsOf w" "hw_calls w2 i = Some ?c2" "hw_sent w2 = hw_sent w"
    by (simp_all add: w2_def rowsOf_def withCall_def t1)
  define c3 where "c3 = goTo (AtReadiness row) (if indexerForRequest (hs_config S) network then ?c2
      else sendReply (Refuse 501 ''Indexer not configured (INDEXER_BASE_URL missing)'') ?c2)"
  have after: "afterLoad S (he_now (su_env (ds ! 1))) (sg_user row) (Some row) ?c2 = c3"
    using row(3) by (simp add: afterLoad_def load keys url c goTo_def c3_def)
  have s3: "hubStep S (Resume i (ds ! 1) Ran) w2 = withCall i c3 w2"
    using after by (simp add: t2 onRan_def c goTo_def row(1))
  have c3: "hc_stage c3 = AtReadiness row" "hc_network c3 = network" "hc_body c3 = sb"
      "hc_reply c3 = (if indexerForRequest (hs_config S) network then None
           else Some (Refuse 501 ''Indexer not configured (INDEXER_BASE_URL missing)''))"
    by (simp_all add: c3_def goTo_def sendReply_def c)
  define w3 where "w3 = withCall i c3 w2"
  have t3: "hw_calls w3 i = Some c3" "rowsOf w3 = rowsOf w" "hw_sent w3 = hw_sent w" by (simp_all add: w3_def t2)
  let ?c4 = "goTo (AtClaim row (PreparedTx sub sig m)) c3"
  have s4: "hubStep S (Resume i (ds ! 2) (ReadyIs a)) w3 = withCall i ?c4 w3"
    by (simp add: t3 c3 afterReady_def ready keys afterReadiness_def url prepare)
  define w4 where "w4 = withCall i ?c4 w3"
  have t4: "hw_calls w4 i = Some ?c4" "rowsOf w4 = rowsOf w" "hw_sent w4 = hw_sent w" by (simp_all add: w4_def t3)
  have s5: "hw_sent (hubStep S (Resume i (ds ! 3) Ran) w4) = hw_sent w @ [\<lparr> bc_request = sg_id row, bc_signature = sig, bc_message = m \<rparr>]
      \<and> rowsOf (hubStep S (Resume i (ds ! 3) Ran) w4) = rows
      \<and> map_option hc_reply (hw_calls (hubStep S (Resume i (ds ! 3) Ran) w4) i) = Some (hc_reply c3)"
    by (simp add: t4 goTo_def onRan_def claimStep_def mark) (simp add: rowsOf_def withRows_def)
  show ?thesis
    using s5 unfolding c3(4) by (simp add: runHub_def submitEvents_def s1 s2 s3 w3_def [symmetric] s4 w4_def [symmetric] mark del: hubStep.simps One_nat_def)
qed

lemma broadcast_run:
  fixes S :: "('t, 'm) hub_setup" and w :: "'m hub_world"
  defines "L \<equiv> hs_libs S"
  assumes laws: "lawfulBase58 L" "lawfulToSign L" "lawfulDigest L"
    and post: "postSigningRequest S network drUser dr ans (Some app) body tables = (Answer reply, hw_tables w)"
      "plainAction (cb_action body)" "app \<noteq> []"
    and call: "hw_calls w i = None" "sb_external sb = cb_externalUserId body"
    and sign: "getProp ''payloadHex'' (getProp ''payloadToSign'' reply) = JStr (bytesToHex digest)"
      "getProp ''signWith'' (getProp ''payloadToSign'' reply) = JStr address" "bech32ish address"
      "taprootProgram L address = Some key" "submittedSignature L sb = Inr (sig64, sub)"
      "al_schnorr L sig64 digest key = Some True" "\<forall>k. length k = 32 \<longrightarrow> al_schnorr L sig64 digest k \<noteq> None"
    and time: "he_now (su_env (ds ! 1)) \<le> he_now (su_env drUser) + REQUEST_TTL_MS"
    and ready: "readinessFor S network a = Some r" "readinessRefusal r = None"
    and url: "archRpcUrlForRequest (hs_config S) network = Some url"
  shows "\<exists>rid message row. getProp ''signingRequestId'' reply = JStr rid
    \<and> hw_sent (runHub S (submitEvents i app rid network sb ds a) w)
        = hw_sent w @ [\<lparr> bc_request = rid, bc_signature = al_adjust L sig64, bc_message = message \<rparr>]
    \<and> row \<in> set (rowsOf (runHub S (submitEvents i app rid network sb ds a) w)) \<and> sg_id row = rid \<and> sg_status row = SrSubmitted
    \<and> map_option hc_reply (hw_calls (runHub S (submitEvents i app rid network sb ds a) w) i) = Some (if indexerForRequest (hs_config S) network then None
           else Some (Refuse 501 ''Indexer not configured (INDEXER_BASE_URL missing)''))"
proof -
  obtain row keys key' digest' m where f: "rowsOf w = ht_requests tables @ [row]" "sg_status row = SrPending" "isTransfer row"
      "sg_payload row = getProp ''payloadToSign'' reply" "getProp ''signingRequestId'' reply = JStr (sg_id row)"
      "taprootProgram L (payloadField ''signWith'' row) = Some key'" "payloadField ''payloadHex'' row = bytesToHex digest'"
      and prep: "\<And>sb sig64 sub url. bech32ish (payloadField ''signWith'' row) \<Longrightarrow> submittedSignature L sb = Inr (sig64, sub)
        \<Longrightarrow> al_schnorr L sig64 digest' key' = Some True \<Longrightarrow> (\<forall>k. length k = 32 \<longrightarrow> al_schnorr L sig64 digest' k \<noteq> None)
        \<Longrightarrow> submitKeys L row = Inr keys \<and> prepareSubmit L (Some url) row keys sb = Inr (PreparedTx sub (al_adjust L sig64) m)"
    using created_request_submits [OF laws [unfolded L_def] post(1,2)] unfolding L_def rowsOf_def by blast
  obtain u db row' where g: "getOrCreateUserByExternalId (su_env drUser) app (cb_externalUserId body) (ht_db tables) = (u, db)"
      "users (ht_db (hw_tables w)) = users db" "rowsOf w = ht_requests tables @ [row']" "sg_app row' = app"
      "sg_id row' \<notin> sg_id ` set (ht_requests tables)" "sg_user row' = u"
      "sg_expires row' = Some (he_now (su_env drUser) + REQUEST_TTL_MS)"
    using created_facts [OF post(1,2)] unfolding rowsOf_def by (auto dest: resolveSigner_users)
  have row': "row' = row" using f(1) g(3) by simp
  have user: "getOrCreateUserByExternalId (su_env (ds ! 0)) app (sb_external sb) (ht_db (hw_tables w)) = (sg_user row, ht_db (hw_tables w))"
    using g(1,2,6) call(2) unfolding row' by (auto simp: getOrCreateUserByExternalId_def find_append split: option.splits)
  have sign': "payloadField ''signWith'' row = address" "payloadField ''payloadHex'' row = bytesToHex digest"
    using sign(1,2) by (simp_all add: payloadField_def f(4))
  have "key' = key" "digest' = digest" using f(6,7) sign' sign(4) by (simp_all add: bytesToHex_inject)
  then have p: "submitKeys L row = Inr keys" "prepareSubmit L (Some url) row keys sb = Inr (PreparedTx sub (al_adjust L sig64) m)"
    using prep [OF _ sign(5)] sign' sign(3,6,7) by auto
  have found: "getSigningRequestForApp (sg_id row) app (rowsOf w) = Some row"
    using find_last [of row "ht_requests tables"] g(4,5) unfolding row' f(1) by simp
  have run: "hw_sent (runHub S (submitEvents i app (sg_id row) network sb ds a) w)
        = hw_sent w @ [\<lparr> bc_request = sg_id row, bc_signature = al_adjust L sig64, bc_message = m \<rparr>]
      \<and> rowsOf (runHub S (submitEvents i app (sg_id row) network sb ds a) w)
        = snd (markSigningRequestSubmitted (he_now (su_env (ds ! 3))) (sg_id row) sub JNull (rowsOf w))
      \<and> map_option hc_reply (hw_calls (runHub S (submitEvents i app (sg_id row) network sb ds a) w) i) = Some (if indexerForRequest (hs_config S) network then None
           else Some (Refuse 501 ''Indexer not configured (INDEXER_BASE_URL missing)''))"
    unfolding L_def
    by (rule submit_run [OF call(1) post(3) user found f(2,3) _ p(1) [unfolded L_def] url ready p(2) [unfolded L_def]])
      (use g(7) time in \<open>auto simp: row'\<close>)
  have "row \<lparr> sg_status := SrSubmitted, sg_submitted := stripped sub, sg_updated := he_now (su_env (ds ! 3)) \<rparr>
      \<in> set (snd (markSigningRequestSubmitted (he_now (su_env (ds ! 3))) (sg_id row) sub JNull (rowsOf w)))"
    using f(2) by (simp add: f(1) markSigningRequestSubmitted_def updateRow_def Let_def)
  then show ?thesis using run f(5) by fastforce
qed

text \<open>
  C27. A signature reaches its broadcast. When \<open>POST /signing-requests\<close> has answered a transfer, any call of
  its user that submits a signature of the returned digest in time, to a hub whose node answers that
  the account is ready, is broadcast: once, for this request, and the row is submitted. The time is checked when the row is
  read only: \<open>ds ! 3\<close>, the time of the claim, is any. A hub without an indexer broadcasts as well, after it
  has told the client 501.
\<close>

theorem created_request_broadcasts:
  fixes S :: "('t, 'm) hub_setup" and w :: "'m hub_world"
  defines "L \<equiv> hs_libs S"
  assumes laws: "lawfulBase58 L" "lawfulToSign L" "lawfulDigest L"
    and post: "postSigningRequest S network drUser dr ans (Some app) body tables = (Answer reply, hw_tables w)"
      "plainAction (cb_action body)" "app \<noteq> []"
    and call: "hw_calls w i = None" "sb_external sb = cb_externalUserId body"
    and sign: "getProp ''payloadHex'' (getProp ''payloadToSign'' reply) = JStr (bytesToHex digest)"
      "getProp ''signWith'' (getProp ''payloadToSign'' reply) = JStr address" "bech32ish address"
      "taprootProgram L address = Some key" "submittedSignature L sb = Inr (sig64, sub)"
      "al_schnorr L sig64 digest key = Some True" "\<forall>k. length k = 32 \<longrightarrow> al_schnorr L sig64 digest k \<noteq> None"
    and time: "he_now (su_env (ds ! 1)) \<le> he_now (su_env drUser) + REQUEST_TTL_MS"
    and ready: "readinessFor S network a = Some r" "readinessRefusal r = None"
    and url: "archRpcUrlForRequest (hs_config S) network = Some url"
  shows "\<exists>rid message row. getProp ''signingRequestId'' reply = JStr rid
    \<and> hw_sent (runHub S (submitEvents i app rid network sb ds a) w)
        = hw_sent w @ [\<lparr> bc_request = rid, bc_signature = al_adjust L sig64, bc_message = message \<rparr>]
    \<and> row \<in> set (rowsOf (runHub S (submitEvents i app rid network sb ds a) w)) \<and> sg_id row = rid \<and> sg_status row = SrSubmitted
    \<and> map_option hc_reply (hw_calls (runHub S (submitEvents i app rid network sb ds a) w) i) = Some (if indexerForRequest (hs_config S) network then None
           else Some (Refuse 501 ''Indexer not configured (INDEXER_BASE_URL missing)''))"
  unfolding L_def
  by (rule broadcast_run [OF laws [unfolded L_def] post call sign [unfolded L_def] time ready url])

subsection \<open>Every interleaving\<close>

text \<open>
  C1. At most one broadcast for each request. Whatever creations, submits and reads a hub serves, in
  whatever order their steps interleave, fail or stop, no request is handed to the node twice.
\<close>

theorem one_broadcast_per_request:
  "distinct (map bc_request (hw_sent (runHub S evs (startWorld db audit))))"
  using reachable_inv [OF reachable_runHub [OF reachable.start, of S evs db audit]] by (simp add: hubInv_def)

text \<open>
  C11. Only what the owner signed is broadcast. In every run, a broadcast belongs to a stored request that is
  no longer pending, by a call of the application and the user who own it, with a signature that
  verifies under the output key of the signer's address over the digest the request stores, which is
  the digest of the message that was broadcast, rebuilt from the stored display.
\<close>

theorem broadcast_authorised:
  assumes "w = runHub S evs (startWorld db audit)" "b \<in> set (hw_sent w)"
  shows "\<exists>row\<in>set (rowsOf w). sg_id row = bc_request b \<and> sg_status row \<noteq> SrPending
    \<and> authorisedTx (hs_libs S) row (bc_signature b) (bc_message b)
    \<and> (\<exists>i c. hw_calls w i = Some c \<and> hc_request c = sg_id row \<and> hc_app c = sg_app row
         \<and> knownUser (ht_db (hw_tables w)) c (sg_user row))"
proof -
  have "hubInv S w" unfolding assms(1) by (intro reachable_inv reachable_runHub reachable.start)
  then show ?thesis using assms(2) unfolding hubInv_def sentOk_def by blast
qed

lemma step_rows:
  assumes "hubInv S w"
  shows "rowsGrow (rowsOf w) (rowsOf (hubStep S ev w))"
proof (cases ev)
  case (Resume i dr ans)
  show ?thesis
  proof (cases "hw_calls w i")
    case (Some c)
    then have ok: "callOk (hs_libs S) (hw_tables w) c" using assms by (simp add: hubInv_def)
    have "tablesGrow (hw_tables w) (hw_tables (snd (submitStep S dr ans c (hc_stage c) w)))"
        "tablesGrow (hw_tables w) (hw_tables (snd (getStep S dr ans c (hc_stage c) w)))"
      using submitStep_good [OF ok] getStep_good [OF ok] by (simp_all add: goodStep_def)
    then show ?thesis by (auto simp: Resume Some tablesGrow_def rowsOf_def split: prod.splits)
  qed (simp add: Resume)
next
  case (Create network drUser dr ans app body)
  have "tablesGrow (hw_tables w) (hw_tables (hubStep S ev w))" using Create create_grow by simp
  then show ?thesis by (simp add: tablesGrow_def rowsOf_def)
qed simp_all

lemma run_rows: "hubInv S w \<Longrightarrow> rowsGrow (rowsOf w) (rowsOf (runHub S evs w))"
proof (induction evs arbitrary: w)
  case Nil
  then show ?case by (simp add: runHub_def)
next
  case (Cons ev evs)
  have "rowsGrow (rowsOf w) (rowsOf (runHub S evs (hubStep S ev w)))"
    by (rule rowsGrow_trans [OF step_rows [OF Cons.prems] Cons.IH [OF inv_step [OF Cons.prems]]])
  then show ?case by (simp add: runHub_def)
qed

text \<open>
  Requests only move forward: whatever happens after a run, every request of it is still there, with the
  same owner, intent, payload and expiry, pending only if it was, and no two rows share an identifier.
\<close>

theorem requests_move_on:
  "rowsGrow (rowsOf (runHub S evs (startWorld db audit))) (rowsOf (runHub S (evs @ later) (startWorld db audit)))
   \<and> distinct (map sg_id (rowsOf (runHub S (evs @ later) (startWorld db audit))))"
proof -
  have inv: "hubInv S (runHub S es (startWorld db audit))" for es
    by (intro reachable_inv reachable_runHub reachable.start)
  then show ?thesis
    using run_rows [OF inv, of evs later] inv [of "evs @ later"] by (simp add: runHub_def hubInv_def)
qed

subsection \<open>The theorems at a concrete request\<close>

definition sampleSigned :: "byte list \<Rightarrow> submit_body" where
  "sampleSigned digest =
     \<lparr> sb_external = ''alice'', sb_signature = Some (bytesToHex (digest @ replicate 32 1)), sb_signed = None, sb_activity = None \<rparr>"

lemma sample_submitted:
  assumes "length digest = 32"
  shows "\<exists>sub. submittedSignature sampleLibs (sampleSigned digest) = Inr (digest @ replicate 32 1, sub)"
  using assms by (simp add: submittedSignature_def sampleSigned_def length_bytesToHex del: append_assoc)

lemma sample_reply:
  obtains reply tables row digest where
    "postSigningRequest (sampleSetup True) Testnet (sampleDraws 0) (sampleDraws 0) sampleAnswers (Some ''app'') sampleCreate emptyHub
       = (Answer reply, tables)"
    "getProp ''signingRequestId'' reply = JStr ''r1''" "ht_requests tables = [row]" "sg_id row = ''r1''"
    "sg_action row = ''arch.transfer''" "sg_payload row = getProp ''payloadToSign'' reply" "sg_display row = getProp ''display'' reply"
    "getProp ''payloadHex'' (getProp ''payloadToSign'' reply) = JStr (bytesToHex digest)"
    "getProp ''signWith'' (getProp ''payloadToSign'' reply) = JStr sampleAddress" "length digest = 32"
proof -
  obtain p row audit where c: "postSigningRequest (sampleSetup True) Testnet (sampleDraws 0) (sampleDraws 0) sampleAnswers (Some ''app'') sampleCreate emptyHub
     = (Answer (createdReply (al_sha256Hex sampleLibs) p row),
        emptyHub \<lparr> ht_db := ht_db emptyHub \<lparr> users := [\<lparr> us_id = ''u1'', us_app = ''app'', us_external = Some ''alice'' \<rparr>] \<rparr>,
                   ht_requests := [row], ht_audit := audit \<rparr>)"
     "sg_id row = ''r1''" "sg_action row = ''arch.transfer''"
    using sample_created [of True Testnet] by auto
  have plain: "plainAction (cb_action sampleCreate)" by (simp add: sampleCreate_def)
  obtain u db who p' b where f: "resolveSigner (sampleSetup True) sampleAnswers ''app'' u (cb_signer sampleCreate) db = (Inr who, ht_db
        (emptyHub \<lparr> ht_db := ht_db emptyHub \<lparr> users := [\<lparr> us_id = ''u1'', us_app = ''app'', us_external = Some ''alice'' \<rparr>] \<rparr>,
                   ht_requests := [row], ht_audit := audit \<rparr>))"
      "transactionOf (sampleSetup True) Testnet sampleAnswers who (cb_action sampleCreate) = (Inr p', b)"
      "sg_payload row = stripped (py_payload p')" "sg_display row = stripped (py_display p')"
      "createdReply (al_sha256Hex sampleLibs) p row = createdReply (al_sha256Hex sampleLibs) p' row"
    using created_facts [OF c(1) plain] by (auto simp: emptyHub_def)
  have taproot: "sid_taproot who = sampleAddress"
    using f(1) externalSigner_good by (auto simp: resolveSigner_def sampleCreate_def rbind_eq_Inr_iff split: if_splits)
  obtain payer blockhash instructions where t: "builtBy (sampleSetup True) Testnet sampleAnswers who payer (cb_action sampleCreate)
        = Inr (instructions, py_display p')"
      "transactionPayload sampleLibs who payer blockhash instructions = Inr (py_payload p')"
    using transactionOf_facts [OF f(2)] by auto
  obtain m digest where y: "hubToSignSighash sampleLibs (sid_taproot who) m = Some digest" "proper (py_payload p')"
      "getProp ''signWith'' (py_payload p') = JStr (sid_taproot who)" "getProp ''payloadHex'' (py_payload p') = JStr (bytesToHex digest)"
    using payload_facts [OF t(2)] by blast
  have reply: "getProp ''payloadToSign'' (createdReply (al_sha256Hex sampleLibs) p row) = py_payload p'"
      "getProp ''display'' (createdReply (al_sha256Hex sampleLibs) p row) = py_display p'"
      "getProp ''signingRequestId'' (createdReply (al_sha256Hex sampleLibs) p row) = JStr ''r1''"
    unfolding f(5) by (simp_all add: createdReply_def c(2))
  have stored: "stripped (py_payload p') = py_payload p'" "stripped (py_display p') = py_display p'"
    using builtBy_display [OF t(1)] y(2) by (auto intro: stripped_proper)
  show ?thesis
    by (rule that [OF c(1) reply(3) _ c(2,3), of digest])
      (use hubSighash_length [OF sample_toSign sample_digest y(1)] in \<open>simp_all add: reply f(3,4) stored y(3,4) taproot\<close>)
qed

lemma sample_ready: "\<exists>r. readinessFor (sampleSetup i) n sampleReady = Some r \<and> readinessRefusal r = None"
  by (simp add: readinessFor_def computeBtcUtxoReadiness_def sampleReady_def readinessRefusal_def readinessOf_def)
    (simp add: sampleConfig_def)

lemma sample_bech: "bech32ish sampleAddress"
  by (simp add: bech32ish_def sampleAddress_def starts_with_def)

text \<open>The hub of the sample after the creation, and what holds of it.\<close>

definition sampleHub :: "sample_message hub_world" where
  "sampleHub = hubStep (sampleSetup True) (Create Testnet (sampleDraws 0) (sampleDraws 0) sampleAnswers (Some ''app'') sampleCreate)
     (startWorld (ht_db emptyHub) [])"

lemma sample_hub:
  obtains reply row digest sub rd where
    "postSigningRequest (sampleSetup True) Testnet (sampleDraws 0) (sampleDraws 0) sampleAnswers (Some ''app'') sampleCreate emptyHub
       = (Answer reply, hw_tables sampleHub)"
    "getProp ''signingRequestId'' reply = JStr ''r1''" "rowsOf sampleHub = [row]" "sg_id row = ''r1''" "sg_action row = ''arch.transfer''"
    "sg_payload row = getProp ''payloadToSign'' reply" "sg_display row = getProp ''display'' reply"
    "getProp ''payloadHex'' (getProp ''payloadToSign'' reply) = JStr (bytesToHex digest)"
    "getProp ''signWith'' (getProp ''payloadToSign'' reply) = JStr sampleAddress"
    "submittedSignature sampleLibs (sampleSigned digest) = Inr (digest @ replicate 32 1, sub)"
    "readinessFor (sampleSetup True) Testnet sampleReady = Some rd" "readinessRefusal rd = None"
    "hw_calls sampleHub = (\<lambda>i. None)" "hw_sent sampleHub = []"
proof -
  obtain reply tables row digest where r: "postSigningRequest (sampleSetup True) Testnet (sampleDraws 0) (sampleDraws 0) sampleAnswers (Some ''app'') sampleCreate emptyHub
       = (Answer reply, tables)"
    "getProp ''signingRequestId'' reply = JStr ''r1''" "ht_requests tables = [row]" "sg_id row = ''r1''" "sg_action row = ''arch.transfer''"
    "sg_payload row = getProp ''payloadToSign'' reply" "sg_display row = getProp ''display'' reply"
    "getProp ''payloadHex'' (getProp ''payloadToSign'' reply) = JStr (bytesToHex digest)"
    "getProp ''signWith'' (getProp ''payloadToSign'' reply) = JStr sampleAddress" "length digest = 32"
    by (rule sample_reply)
  have hub: "\<lparr> ht_db = ht_db emptyHub, ht_requests = [], ht_audit = [] \<rparr> = emptyHub" by (simp add: emptyHub_def)
  have w: "hw_tables sampleHub = tables" "hw_calls sampleHub = (\<lambda>i. None)" "hw_sent sampleHub = []"
    using r(1) by (simp_all add: sampleHub_def startWorld_def hub)
  obtain sub where sub: "submittedSignature sampleLibs (sampleSigned digest) = Inr (digest @ replicate 32 1, sub)"
    using sample_submitted [OF r(10)] by blast
  obtain rd where rd: "readinessFor (sampleSetup True) Testnet sampleReady = Some rd" "readinessRefusal rd = None"
    using sample_ready by blast
  show ?thesis
    by (rule that [of reply row digest sub rd]) (use r w sub rd in \<open>simp_all add: rowsOf_def\<close>)
qed

lemma sample_verifies:
  "al_schnorr sampleLibs (digest @ replicate 32 1) digest (replicate 32 1) = Some True"
  "\<forall>k. length k = 32 \<longrightarrow> al_schnorr sampleLibs (digest @ replicate 32 1) digest k \<noteq> None"
  "al_adjust sampleLibs sig = sig"
  by (simp_all add: sampleLibs_def)

lemmas sample_laws = sample_base58 sample_toSign sample_digest

definition sampleTimes :: "draws list" where
  "sampleTimes = map sampleDraws [1, 2, 3, 4]"

lemma sample_times: "he_now (su_env (sampleTimes ! 1)) \<le> he_now (su_env (sampleDraws 0)) + REQUEST_TTL_MS"
  "plainAction (cb_action sampleCreate)" "sb_external (sampleSigned d) = cb_externalUserId sampleCreate"
  by (simp_all add: sampleTimes_def sampleDraws_def REQUEST_TTL_MS_def sampleCreate_def sampleSigned_def)

theorem created_request_broadcasts_sample:
  "\<exists>digest message row. let w = runHub (sampleSetup True) (submitEvents 0 ''app'' ''r1'' Testnet (sampleSigned digest) sampleTimes sampleReady) sampleHub
     in hw_sent w = [\<lparr> bc_request = ''r1'', bc_signature = digest @ replicate 32 1, bc_message = message \<rparr>]
        \<and> row \<in> set (rowsOf w) \<and> sg_status row = SrSubmitted"
proof -
  obtain reply row digest sub rd where r: "postSigningRequest (sampleSetup True) Testnet (sampleDraws 0) (sampleDraws 0) sampleAnswers (Some ''app'') sampleCreate emptyHub
       = (Answer reply, hw_tables sampleHub)"
    "getProp ''signingRequestId'' reply = JStr ''r1''"
    "getProp ''payloadHex'' (getProp ''payloadToSign'' reply) = JStr (bytesToHex digest)"
    "getProp ''signWith'' (getProp ''payloadToSign'' reply) = JStr sampleAddress"
    "submittedSignature sampleLibs (sampleSigned digest) = Inr (digest @ replicate 32 1, sub)"
    "readinessFor (sampleSetup True) Testnet sampleReady = Some rd" "readinessRefusal rd = None"
    "hw_calls sampleHub = (\<lambda>i. None)" "hw_sent sampleHub = []"
    by (rule sample_hub)
  show ?thesis
    using created_request_broadcasts [where S = "sampleSetup True" and w = sampleHub and i = 0, unfolded sample_setup_simps,
      OF sample_laws r(1) sample_times(2) _ _ sample_times(3) r(3,4) sample_bech sample_program r(5) sample_verifies(1,2)
        sample_times(1) r(6,7)] r(2,8,9)
    by (auto simp: sample_verifies(3) Let_def)
qed

lemma sample_run:
  "\<exists>digest message. hw_sent (runHub (sampleSetup True) (submitEvents 0 ''app'' ''r1'' Testnet (sampleSigned digest) sampleTimes sampleReady) sampleHub)
     = [\<lparr> bc_request = ''r1'', bc_signature = digest @ replicate 32 1, bc_message = message \<rparr>]"
proof -
  obtain reply row digest sub rd where r: "postSigningRequest (sampleSetup True) Testnet (sampleDraws 0) (sampleDraws 0) sampleAnswers (Some ''app'') sampleCreate emptyHub
       = (Answer reply, hw_tables sampleHub)"
    "getProp ''signingRequestId'' reply = JStr ''r1''"
    "getProp ''payloadHex'' (getProp ''payloadToSign'' reply) = JStr (bytesToHex digest)"
    "getProp ''signWith'' (getProp ''payloadToSign'' reply) = JStr sampleAddress"
    "submittedSignature sampleLibs (sampleSigned digest) = Inr (digest @ replicate 32 1, sub)"
    "readinessFor (sampleSetup True) Testnet sampleReady = Some rd" "readinessRefusal rd = None"
    "hw_calls sampleHub = (\<lambda>i. None)" "hw_sent sampleHub = []"
    by (rule sample_hub)
  show ?thesis
    using broadcast_run [where S = "sampleSetup True" and w = sampleHub and i = 0, unfolded sample_setup_simps,
      OF sample_laws r(1) sample_times(2) _ _ sample_times(3) r(3,4) sample_bech sample_program r(5) sample_verifies(1,2)
        sample_times(1) r(6,7)] r(2,8,9)
    by (auto simp: sample_verifies(3))
qed

definition sampleEvents :: "byte list \<Rightarrow> hub_event list" where
  "sampleEvents digest =
     Create Testnet (sampleDraws 0) (sampleDraws 0) sampleAnswers (Some ''app'') sampleCreate
     # submitEvents 0 ''app'' ''r1'' Testnet (sampleSigned digest) sampleTimes sampleReady"

lemma sample_events:
  "runHub (sampleSetup True) (sampleEvents digest) (startWorld (ht_db emptyHub) [])
     = runHub (sampleSetup True) (submitEvents 0 ''app'' ''r1'' Testnet (sampleSigned digest) sampleTimes sampleReady) sampleHub"
  by (simp add: sampleEvents_def sampleHub_def runHub_def)

theorem broadcast_authorised_sample:
  "\<exists>digest b row. b \<in> set (hw_sent (runHub (sampleSetup True) (sampleEvents digest) (startWorld (ht_db emptyHub) [])))
     \<and> bc_request b = ''r1'' \<and> sg_id row = ''r1'' \<and> authorisedTx sampleLibs row (bc_signature b) (bc_message b)"
proof -
  obtain digest message where s: "hw_sent (runHub (sampleSetup True) (sampleEvents digest) (startWorld (ht_db emptyHub) []))
     = [\<lparr> bc_request = ''r1'', bc_signature = digest @ replicate 32 1, bc_message = message \<rparr>]"
    using sample_run unfolding sample_events by blast
  let ?b = "\<lparr> bc_request = ''r1'', bc_signature = digest @ replicate 32 1, bc_message = message \<rparr>"
  have b: "?b \<in> set (hw_sent (runHub (sampleSetup True) (sampleEvents digest) (startWorld (ht_db emptyHub) [])))" by (simp add: s)
  obtain row where "sg_id row = ''r1''" "authorisedTx sampleLibs row (bc_signature ?b) (bc_message ?b)"
    using broadcast_authorised [OF refl b] by auto
  then show ?thesis using b by (intro exI [of _ digest] exI [of _ ?b] exI [of _ row]) simp
qed

subsection \<open>The wallet and the hub together\<close>

text \<open>
  C12. What the wallet verified is what the hub broadcasts. In every run of the hub, when the wallet has
  accepted the payload and the display of a request for the intent of the site, the message of the
  broadcast of that request compiles exactly the instructions the site asked for: its recipient, its
  amount and its accounts, paid by the wallet's own account.
\<close>

theorem verified_is_broadcast:
  fixes S :: "('t, 'm) hub_setup"
  defines "L \<equiv> hs_libs S"
  assumes w: "w = runHub S evs (startWorld db audit)" and row: "row \<in> set (rowsOf w)"
    and b: "b \<in> set (hw_sent w)" "bc_request b = sg_id row"
    and verified: "verifyHubSigningRequest L intent address (Some arch) (sg_payload row) (sg_display row) = Inr (hex, psbt)"
    and action: "sg_action row = intentType intent" "intentType intent \<noteq> ''arch.sign_message''"
    and laws: "lawfulBase58 L" "sameConstants L"
  shows "\<exists>payer to instructions blockhash. al_b58decode L arch = Some payer \<and> al_b58decode L (intentTo intent) = Some to
    \<and> intended L intent payer to instructions \<and> al_compile L instructions payer blockhash = Inr (bc_message b)"
  unfolding L_def
  by (rule accepted_broadcast [OF w row b verified [unfolded L_def] action laws [unfolded L_def]])


definition sampleIntent :: hub_intent where
  "sampleIntent = IntentTransfer (sampleKeyOf 2) ''7''"

lemma lower_digit: "hex_value c \<noteq> None \<Longrightarrow> lower_char c = c"
proof -
  assume "hex_value c \<noteq> None"
  then have "c \<in> set HEX_DIGITS" by (simp add: hex_value_def index_of_None_iff)
  then show ?thesis by (auto simp: HEX_DIGITS_def lower_char_def char_code_def)
qed

lemma sampleKey_hex64: "isHex64 (sampleKeyOf b)"
  using lower_hex_bytesToHex [of "replicate 32 b"] lower_digit
  by (auto simp: isHex64_def sampleKeyOf_def lower_hex_string_def list_all_iff length_bytesToHex)

lemma sample_intent: "asksFor sampleLibs sampleIntent (cb_action sampleCreate)" "cb_signer sampleCreate = ExternalSigner sampleAddress None"
    "intentType sampleIntent = ''arch.transfer''" "\<forall>h. recentBlockhash sampleAnswers = Inr h \<longrightarrow> isHex64 h"
  by (simp_all add: sampleIntent_def sampleCreate_def sample_decode sample_blockhash sampleKey_hex64)

lemma sample_constants: "sameConstants sampleLibs"
  by (simp add: sameConstants_def sampleLibs_def)


text \<open>The run of the sample, with the row the wallet verified.\<close>

lemma sample_final:
  "\<exists>digest message row psbt hex. hw_sent (runHub (sampleSetup True) (sampleEvents digest) (startWorld (ht_db emptyHub) []))
     = [\<lparr> bc_request = ''r1'', bc_signature = digest @ replicate 32 1, bc_message = message \<rparr>]
   \<and> row \<in> set (rowsOf (runHub (sampleSetup True) (sampleEvents digest) (startWorld (ht_db emptyHub) [])))
   \<and> sg_id row = ''r1'' \<and> sg_action row = ''arch.transfer''
   \<and> verifyHubSigningRequest sampleLibs sampleIntent sampleAddress (Some (sampleKeyOf 1)) (sg_payload row) (sg_display row) = Inr (hex, psbt)"
proof -
  obtain reply row digest sub rd where r: "postSigningRequest (sampleSetup True) Testnet (sampleDraws 0) (sampleDraws 0) sampleAnswers (Some ''app'') sampleCreate emptyHub
       = (Answer reply, hw_tables sampleHub)"
    "getProp ''signingRequestId'' reply = JStr ''r1''"  "rowsOf sampleHub = [row]" "sg_id row = ''r1''" "sg_action row = ''arch.transfer''"
    "sg_payload row = getProp ''payloadToSign'' reply" "sg_display row = getProp ''display'' reply"
    "getProp ''payloadHex'' (getProp ''payloadToSign'' reply) = JStr (bytesToHex digest)"
    "getProp ''signWith'' (getProp ''payloadToSign'' reply) = JStr sampleAddress"
    "submittedSignature sampleLibs (sampleSigned digest) = Inr (digest @ replicate 32 1, sub)"
    "readinessFor (sampleSetup True) Testnet sampleReady = Some rd" "readinessRefusal rd = None"
    "hw_calls sampleHub = (\<lambda>i. None)" "hw_sent sampleHub = []"
    by (rule sample_hub)
  let ?final = "runHub (sampleSetup True) (sampleEvents digest) (startWorld (ht_db emptyHub) [])"
  obtain message where sent: "hw_sent ?final = [\<lparr> bc_request = ''r1'', bc_signature = digest @ replicate 32 1, bc_message = message \<rparr>]"
    unfolding sample_events
    using broadcast_run [where S = "sampleSetup True" and w = sampleHub and i = 0, unfolded sample_setup_simps,
      OF sample_laws r(1) sample_times(2) _ _ sample_times(3) r(8,9) sample_bech sample_program r(10) sample_verifies(1,2)
        sample_times(1) r(11,12)] r(2,13,14)
    by (auto simp: sample_verifies(3))
  have hub: "hubInv (sampleSetup True) sampleHub"
    unfolding sampleHub_def by (intro inv_step reachable_inv reachable.start)
  obtain row' where row': "row' \<in> set (rowsOf ?final)" "sameRequest row row'"
    using run_rows [OF hub] r(3) unfolding sample_events rowsGrow_def movesOn_def by fastforce
  have "\<exists>hex psbt. verifyHubSigningRequest sampleLibs sampleIntent sampleAddress (Some (sampleKeyOf 1))
      (getProp ''payloadToSign'' reply) (getProp ''display'' reply) = Inr (hex, psbt)"
    using own_answer_accepted [where S = "sampleSetup True", unfolded sample_setup_simps, OF sample_laws sample_constants r(1) sample_intent(2)
      sample_signer sample_intent(1,4)] by (auto simp: identity_def)
  then show ?thesis
    using sent row' r(4-7) by (intro exI [of _ digest] exI [of _ message] exI [of _ row']) (auto simp: sameRequest_def)
qed

theorem verified_is_broadcast_sample:
  "\<exists>digest b payer to instructions blockhash.
     b \<in> set (hw_sent (runHub (sampleSetup True) (sampleEvents digest) (startWorld (ht_db emptyHub) [])))
   \<and> intended sampleLibs sampleIntent payer to instructions
   \<and> al_compile sampleLibs instructions payer blockhash = Inr (bc_message b)"
proof -
  obtain digest message row psbt hex where s: "hw_sent (runHub (sampleSetup True) (sampleEvents digest) (startWorld (ht_db emptyHub) []))
     = [\<lparr> bc_request = ''r1'', bc_signature = digest @ replicate 32 1, bc_message = message \<rparr>]"
    "row \<in> set (rowsOf (runHub (sampleSetup True) (sampleEvents digest) (startWorld (ht_db emptyHub) [])))"
    "sg_id row = ''r1''" "sg_action row = ''arch.transfer''"
    "verifyHubSigningRequest sampleLibs sampleIntent sampleAddress (Some (sampleKeyOf 1)) (sg_payload row) (sg_display row) = Inr (hex, psbt)"
    using sample_final by blast
  let ?b = "\<lparr> bc_request = ''r1'', bc_signature = digest @ replicate 32 1, bc_message = message \<rparr>"
  have b: "?b \<in> set (hw_sent (runHub (sampleSetup True) (sampleEvents digest) (startWorld (ht_db emptyHub) [])))"
    "bc_request ?b = sg_id row" "intentType sampleIntent \<noteq> ''arch.sign_message''" "sg_action row = intentType sampleIntent"
    using s by (simp_all add: sample_intent(3))
  show ?thesis
    using verified_is_broadcast [where S = "sampleSetup True", unfolded sample_setup_simps, OF refl s(2) b(1,2) s(5) b(4,3)
        sample_base58 sample_constants] b(1) by blast
qed

end
