(* ===== verification/Recovery.thy ===== *)
theory Recovery
  imports SubmitRequest
begin

text \<open>
  Recovery of a wallet by an email code (\<open>services/wallet-hub-api/src/routes/recovery.ts\<close>, \<open>db/recovery.ts\<close>,
  \<open>recovery/otpObservability.ts\<close>, \<open>recovery/reviewLogin.ts\<close>): the table of challenges and the checks of the three
  endpoints. Hashes, the seal of the review login and \<open>JSON.parse\<close> are fields of the set-up. An ISO time in a
  column of JSON is its milliseconds. Logs have no effect and are left out.
\<close>

subsection \<open>Rows\<close>

datatype auth_method = Passkey | EmailCode

fun method_text :: "auth_method \<Rightarrow> string" where
  "method_text Passkey = ''passkey''"
| "method_text EmailCode = ''email''"

record candidate =
  cd_token :: string
  cd_resource :: string
  cd_user :: string
  cd_external :: "string option"
  cd_organization :: string
  cd_rootUser :: "string option"
  cd_otpId :: "string option"
  cd_otpStarts :: "int option"
  cd_otpStartedAt :: "int option"
  cd_label :: string
  cd_masked :: string
  cd_wallet :: "string option"
  cd_address :: "string option"
  cd_publicKey :: "string option"
  cd_created :: int
  cd_method :: auth_method

datatype challenge_status = ChPending | ChConsumed | ChExpired | ChFailed

fun challenge_text :: "challenge_status \<Rightarrow> string" where
  "challenge_text ChPending = ''pending''"
| "challenge_text ChConsumed = ''consumed''"
| "challenge_text ChExpired = ''expired''"
| "challenge_text ChFailed = ''failed''"

record recovery_row =
  rc_id :: string
  rc_app :: string
  rc_emailHash :: string
  rc_candidates :: "candidate list"
  rc_status :: challenge_status
  rc_attempts :: int
  rc_created :: int
  rc_expires :: int
  rc_consumed :: "int option"

text \<open>The users and the Turnkey resources as recovery reads them.\<close>

record recovery_user =
  ru_id :: string
  ru_app :: string
  ru_external :: "string option"
  ru_email :: "string option"
  ru_created :: int

record recovery_wallet =
  rr_id :: string
  rr_app :: string
  rr_user :: "string option"
  rr_organization :: string
  rr_rootUser :: "string option"
  rr_wallet :: "string option"
  rr_address :: "string option"
  rr_publicKey :: "string option"
  rr_method :: "string option"
  rr_created :: int

record directory =
  dr_users :: "recovery_user list"
  dr_wallets :: "recovery_wallet list"

definition findUsersByRecoveryEmail :: "string \<Rightarrow> string \<Rightarrow> directory \<Rightarrow> recovery_user list" where
  "findUsersByRecoveryEmail appId email d =
     (let normalised = js_lower (js_trim email)
      in if normalised = [] then []
         else sort_key ru_created (filter (\<lambda>u. ru_app u = appId \<and> map_option js_lower (ru_email u) = Some normalised) (dr_users d)))"

definition listTurnkeyResourcesForUserForApp :: "string \<Rightarrow> string \<Rightarrow> directory \<Rightarrow> recovery_wallet list" where
  "listTurnkeyResourcesForUserForApp appId userId d =
     sort_key (\<lambda>r. - rr_created r) (filter (\<lambda>r. rr_app r = appId \<and> rr_user r = Some userId) (dr_wallets d))"

definition userExists :: "string \<Rightarrow> string \<Rightarrow> directory \<Rightarrow> bool" where
  "userExists appId external d \<longleftrightarrow> (\<exists>u\<in>set (dr_users d). ru_app u = appId \<and> ru_external u = Some external)"

subsection \<open>The set-up\<close>

record review_login =
  rl_email :: string
  rl_otpCode :: string
  rl_organization :: string
  rl_rootUser :: string
  rl_wallet :: string
  rl_address :: string
  rl_publicKey :: "string option"
  rl_external :: "string option"
  rl_privateKey :: string

record recovery_setup =
  rv_sha256 :: "string \<Rightarrow> string"
  rv_hmac :: "string \<Rightarrow> string \<Rightarrow> string"
  rv_jsonb :: "json \<Rightarrow> json"
  rv_auditSecret :: "string option"
  rv_rootOrg :: string
  rv_review :: "review_login option"
  rv_seal :: "string \<Rightarrow> string \<Rightarrow> string option"
  rv_config :: "string \<Rightarrow> json"
  rv_parse :: "string \<Rightarrow> json option"

definition RATE_LIMIT_MAX_INITS :: int where "RATE_LIMIT_MAX_INITS = 10"
definition RATE_LIMIT_WINDOW_MS :: int where "RATE_LIMIT_WINDOW_MS = 60 * 60 * 1000"
definition VERIFY_MAX_ATTEMPTS :: int where "VERIFY_MAX_ATTEMPTS = 5"
definition MAX_OTP_SENDS :: int where "MAX_OTP_SENDS = 5"
definition RESEND_COOLDOWN_MS :: int where "RESEND_COOLDOWN_MS = 30 * 1000"
definition CHALLENGE_TTL_MS_recovery :: int where "CHALLENGE_TTL_MS_recovery = 10 * 60 * 1000"
definition RECOVERY_API_KEY_TTL_SECONDS :: string where "RECOVERY_API_KEY_TTL_SECONDS = ''86400''"

definition hashEmailForRateLimit :: "(string \<Rightarrow> string) \<Rightarrow> string \<Rightarrow> string" where
  "hashEmailForRateLimit sha256 email = sha256 (js_lower (js_trim email))"

definition otpUserIdentifier :: "(string \<Rightarrow> string) \<Rightarrow> string \<Rightarrow> string \<Rightarrow> string" where
  "otpUserIdentifier sha256 appId email =
     sha256 (''wallet-hub:otp-user-identifier:v1:'' @ appId @ '':'' @ hashEmailForRateLimit sha256 email)"

definition computeCandidateToken :: "(string \<Rightarrow> string) \<Rightarrow> string \<Rightarrow> string \<Rightarrow> string" where
  "computeCandidateToken sha256 challengeId resourceId = sha256 (challengeId @ '':'' @ resourceId)"

text \<open>\<open>const [local = "", domain = ""] = email.split("@")\<close>\<close>

definition maskEmail :: "string \<Rightarrow> string" where
  "maskEmail email =
     (let parts = splitOn (CHR ''@'') email;
          local = (case at_opt parts 0 of Some l \<Rightarrow> l | None \<Rightarrow> []);
          domain = (case at_opt parts 1 of Some d \<Rightarrow> d | None \<Rightarrow> [])
      in if domain = [] then ''***''
         else if length local \<le> 2 then (if local = [] then ''*'' else [hd local]) @ ''***@'' @ domain
         else [hd local] @ replicate (min 4 (length local - 2)) (CHR ''*'') @ [last local] @ ''@'' @ domain)"

definition lastN :: "nat \<Rightarrow> string \<Rightarrow> string" where
  "lastN n s = drop (length s - n) s"

definition maskText :: "string \<Rightarrow> string" where
  "maskText address = (if length address \<le> 12 then address else take 6 address @ ''...'' @ lastN 4 address)"

definition maskAddress :: "string option \<Rightarrow> string" where
  "maskAddress address = (case address of None \<Rightarrow> [] | Some a \<Rightarrow> maskText a)"

definition walletLabel :: "string option \<Rightarrow> string" where
  "walletLabel address = (if given address then ''Wallet '' @ lastN 4 (the address) else ''Arch Wallet'')"

text \<open>\<open>n.toString(36)\<close>\<close>

definition digit36 :: "nat \<Rightarrow> char" where
  "digit36 d = ''0123456789abcdefghijklmnopqrstuvwxyz'' ! d"

fun show36 :: "nat \<Rightarrow> string" where
  "show36 n = (if n < 36 then [digit36 n] else show36 (n div 36) @ [digit36 (n mod 36)])"

subsection \<open>Codes that were sent\<close>

definition getOtpStartCount :: "candidate \<Rightarrow> int" where
  "getOtpStartCount c =
     (case cd_otpStarts c of Some n \<Rightarrow> if n > 0 then n else (if given (cd_otpId c) then 1 else 0)
      | None \<Rightarrow> if given (cd_otpId c) then 1 else 0)"

definition getOtpAgeMs :: "int \<Rightarrow> candidate \<Rightarrow> int option" where
  "getOtpAgeMs now c = map_option (\<lambda>t. max 0 (now - t)) (cd_otpStartedAt c)"

definition recordOtpStart :: "int \<Rightarrow> string \<Rightarrow> candidate \<Rightarrow> candidate" where
  "recordOtpStart now otpId c =
     c \<lparr> cd_otpId := Some otpId, cd_otpStarts := Some (getOtpStartCount c + 1), cd_otpStartedAt := Some now \<rparr>"

datatype throttle = NotThrottled | MaxSends | Cooldown

definition shouldThrottleResend :: "int option \<Rightarrow> int \<Rightarrow> int \<Rightarrow> int \<Rightarrow> throttle" where
  "shouldThrottleResend previousOtpAgeMs previousOtpStartCount cooldownMs maxSends =
     (if previousOtpStartCount \<ge> maxSends then MaxSends
      else if (case previousOtpAgeMs of Some age \<Rightarrow> age < cooldownMs | None \<Rightarrow> False) then Cooldown
      else NotThrottled)"

datatype availability = Available | NotPending | PastTtl

definition classifyRecoveryChallengeAvailability :: "recovery_row \<Rightarrow> int \<Rightarrow> availability" where
  "classifyRecoveryChallengeAvailability row now =
     (if rc_status row \<noteq> ChPending then NotPending else if rc_expires row < now then PastTtl else Available)"

subsection \<open>The table of challenges\<close>

definition countRecentChallenges :: "int \<Rightarrow> string \<Rightarrow> string \<Rightarrow> recovery_row list \<Rightarrow> int" where
  "countRecentChallenges now appId emailHash rows =
     int (length (filter (\<lambda>r. rc_app r = appId \<and> rc_emailHash r = emailHash \<and> rc_created r > now - RATE_LIMIT_WINDOW_MS) rows))"

definition insertRecoveryChallenge ::
    "int \<Rightarrow> string \<Rightarrow> string \<Rightarrow> string \<Rightarrow> candidate list \<Rightarrow> int \<Rightarrow> recovery_row list \<Rightarrow> (recovery_row \<times> recovery_row list) option" where
  "insertRecoveryChallenge now rowId appId emailHash candidates ttlMs rows =
     (if rowId \<in> rc_id ` set rows then None
      else let row = \<lparr> rc_id = rowId, rc_app = appId, rc_emailHash = emailHash, rc_candidates = candidates, rc_status = ChPending,
             rc_attempts = 0, rc_created = now, rc_expires = now + ttlMs, rc_consumed = None \<rparr>
        in Some (row, rows @ [row]))"

definition getRecoveryChallenge :: "string \<Rightarrow> string \<Rightarrow> recovery_row list \<Rightarrow> recovery_row option" where
  "getRecoveryChallenge appId rid rows = List.find (\<lambda>r. rc_id r = rid \<and> rc_app r = appId) rows"

definition updateChallenge :: "(recovery_row \<Rightarrow> bool) \<Rightarrow> (recovery_row \<Rightarrow> recovery_row) \<Rightarrow> recovery_row list \<Rightarrow> recovery_row list" where
  "updateChallenge p f rows = map (\<lambda>r. if p r then f r else r) rows"

definition incrementRecoveryAttemptIfUnderCap ::
    "string \<Rightarrow> string \<Rightarrow> int \<Rightarrow> recovery_row list \<Rightarrow> (recovery_row \<times> recovery_row list) option" where
  "incrementRecoveryAttemptIfUnderCap rid appId maxAttempts rows =
     (let p = (\<lambda>r. rc_id r = rid \<and> rc_app r = appId \<and> rc_status r = ChPending \<and> rc_attempts r < maxAttempts);
          f = (\<lambda>r. r \<lparr> rc_attempts := rc_attempts r + 1 \<rparr>)
      in map_option (\<lambda>r. (f r, updateChallenge p f rows)) (List.find p rows))"

definition updateRecoveryChallengeCandidates :: "string \<Rightarrow> candidate list \<Rightarrow> recovery_row list \<Rightarrow> recovery_row list" where
  "updateRecoveryChallengeCandidates rid candidates rows =
     updateChallenge (\<lambda>r. rc_id r = rid) (\<lambda>r. r \<lparr> rc_candidates := candidates \<rparr>) rows"

definition markRecoveryChallengeStatus :: "int \<Rightarrow> string \<Rightarrow> challenge_status \<Rightarrow> recovery_row list \<Rightarrow> recovery_row list" where
  "markRecoveryChallengeStatus now rid status rows =
     updateChallenge (\<lambda>r. rc_id r = rid)
       (\<lambda>r. r \<lparr> rc_status := status, rc_consumed := (if status = ChConsumed then Some now else rc_consumed r) \<rparr>) rows"

end
