(* ===== verification/RecoveryFlow.thy ===== *)
theory RecoveryFlow
  imports Recovery
begin

text \<open>
  The three endpoints of \<open>routes/recovery.ts\<close> as a transition system: a call in flight is the transaction or the
  Turnkey request it waits for, and calls interleave at every \<open>await\<close>. \<open>rw_sent\<close>, \<open>rw_issued\<close>, \<open>rw_counted\<close> and
  \<open>rw_auths\<close> record what was asked of Turnkey and answered, \<open>rw_past\<close> the users and wallets of all times.
\<close>

subsection \<open>Calls\<close>

record audit_note =
  nt_user :: "string option"
  nt_event :: string
  nt_entity :: "string option"
  nt_payload :: json
  nt_outcome :: AuditChain.outcome

text \<open>The transaction that ends a call: a status and an audit event, then the reply.\<close>

record closing =
  cl_mark :: "(string \<times> challenge_status) option"
  cl_note :: audit_note
  cl_reply :: "int \<Rightarrow> http"

record verify_body =
  vb_challenge :: string
  vb_token :: string
  vb_code :: string
  vb_key :: string
  vb_external :: "string option"

record authed =
  at_bundle :: string
  at_activity :: string
  at_apiKey :: string

datatype rstage =
    InitCount string
  | InitUsers string int
  | InitWallets string int "recovery_user list" "candidate list"
  | InitInsert string "candidate list" json
  | InitFill string recovery_row json
  | StartLoad string string string
  | StartSend recovery_row candidate string
  | StartSave recovery_row candidate string string string
  | VerifyLoad verify_body
  | VerifyCount verify_body recovery_row candidate
  | VerifyReread verify_body recovery_row candidate
  | VerifyAuth verify_body recovery_row candidate
  | VerifyUser verify_body recovery_row candidate authed
  | VerifyConsume verify_body recovery_row candidate authed
  | Closing closing
  | Done

record recovery_call =
  rk_app :: string
  rk_stage :: rstage
  rk_reply :: "http option"

record otp_sent =
  os_challenge :: string
  os_token :: string
  os_organization :: string
  os_rootUser :: string
  os_contact :: string
  os_identifier :: string

record otp_issued =
  oi_challenge :: string
  oi_token :: string
  oi_organization :: string
  oi_contact :: string
  oi_otpId :: string

record otp_auth =
  oa_call :: nat
  oa_challenge :: string
  oa_token :: string
  oa_organization :: string
  oa_otpId :: string
  oa_code :: string
  oa_key :: string

record recovery_world =
  rw_rows :: "recovery_row list"
  rw_audit :: "audit_row list"
  rw_dir :: directory
  rw_past :: "directory list"
  rw_counted :: "(nat \<times> string) list"
  rw_sent :: "otp_sent list"
  rw_issued :: "otp_issued list"
  rw_auths :: "otp_auth list"
  rw_calls :: "nat \<Rightarrow> recovery_call option"

datatype ranswer = RRan | RThrew string | OtpSent string string | OtpAuthed authed

definition recoveryAudit ::
    "recovery_setup \<Rightarrow> draws \<Rightarrow> string \<Rightarrow> string option \<Rightarrow> audit_note \<Rightarrow> audit_row list \<Rightarrow> audit_row list option" where
  "recoveryAudit S dr appId activity n rows =
     (case auditEvent (rv_hmac S) (rv_jsonb S) (rv_auditSecret S) (su_auditId dr) (toISOString (he_now (su_env dr)))
        \<lparr> ip_appId = appId, ip_requestId = Some (he_nonce (su_env dr)), ip_userId = nt_user n, ip_eventType = nt_event n,
          ip_entityType = Some ''recovery_challenge'', ip_entityId = nt_entity n, ip_turnkeyActivityId = activity,
          ip_turnkeyRequestId = None, ip_payloadJson = nt_payload n, ip_outcome = nt_outcome n \<rparr> rows of
        Inl e \<Rightarrow> None
      | Inr rows' \<Rightarrow> Some rows')"

definition rGoTo :: "rstage \<Rightarrow> recovery_call \<Rightarrow> recovery_call" where
  "rGoTo st c = c \<lparr> rk_stage := st \<rparr>"

definition rFinish :: "http \<Rightarrow> recovery_call \<Rightarrow> recovery_call" where
  "rFinish r c = c \<lparr> rk_stage := Done, rk_reply := Some r \<rparr>"

definition rThrew :: "recovery_call \<Rightarrow> recovery_call" where
  "rThrew c = rFinish (Refuse 500 ''Internal Server Error'') c"

definition refused :: "audit_note \<Rightarrow> nat \<Rightarrow> string \<Rightarrow> rstage" where
  "refused n code message = Closing \<lparr> cl_mark = None, cl_note = n, cl_reply = (\<lambda>now. Refuse code message) \<rparr>"

definition marked :: "string \<Rightarrow> challenge_status \<Rightarrow> audit_note \<Rightarrow> nat \<Rightarrow> string \<Rightarrow> rstage" where
  "marked rid status n code message =
     Closing \<lparr> cl_mark = Some (rid, status), cl_note = n, cl_reply = (\<lambda>now. Refuse code message) \<rparr>"

definition noted :: "string option \<Rightarrow> string \<Rightarrow> string option \<Rightarrow> (string \<times> json) list \<Rightarrow> AuditChain.outcome \<Rightarrow> audit_note" where
  "noted user event entity payload result =
     \<lparr> nt_user = user, nt_event = event, nt_entity = entity, nt_payload = JObj payload, nt_outcome = result \<rparr>"

subsection \<open>The review login\<close>

definition REVIEW_CHALLENGE_PREFIX :: string where "REVIEW_CHALLENGE_PREFIX = ''chal_review_''"
definition REVIEW_RESOURCE_ID :: string where "REVIEW_RESOURCE_ID = ''review-wallet''"

definition isReviewEmail :: "review_login \<Rightarrow> string \<Rightarrow> bool" where
  "isReviewEmail cfg email \<longleftrightarrow> js_lower (js_trim email) = rl_email cfg"

definition isReviewChallengeId :: "string \<Rightarrow> bool" where
  "isReviewChallengeId challengeId \<longleftrightarrow> starts_with REVIEW_CHALLENGE_PREFIX challengeId"

definition reviewCandidateToken :: "(string \<Rightarrow> string) \<Rightarrow> string \<Rightarrow> string" where
  "reviewCandidateToken sha256 challengeId = sha256 (challengeId @ '':'' @ REVIEW_RESOURCE_ID)"

definition reviewOtpMatches :: "review_login \<Rightarrow> string \<Rightarrow> bool" where
  "reviewOtpMatches cfg code \<longleftrightarrow> rl_otpCode cfg = js_trim code"

text \<open>\<open>/^04[0-9a-fA-F]{128}$/\<close>, then the seal.\<close>

definition buildReviewCredentialBundle :: "recovery_setup \<Rightarrow> string \<Rightarrow> string \<Rightarrow> string option" where
  "buildReviewCredentialBundle S apiPrivateKeyHex key =
     (if length key = 130 \<and> starts_with ''04'' key \<and> list_all (\<lambda>c. hex_value (lower_char c) \<noteq> None) (drop 2 key)
      then rv_seal S apiPrivateKeyHex key else None)"

definition initReply :: "string \<Rightarrow> json list \<Rightarrow> string \<Rightarrow> int \<Rightarrow> json" where
  "initReply challengeId candidates emailMasked expires = JObj [
     (''challengeId'', JStr challengeId), (''candidates'', JArr candidates), (''emailMasked'', JStr emailMasked),
     (''expiresAt'', JStr (toISOString expires))]"

definition shownCandidate :: "string \<Rightarrow> string \<Rightarrow> string \<Rightarrow> string \<Rightarrow> string \<Rightarrow> auth_method \<Rightarrow> json" where
  "shownCandidate token resourceId label masked created method = JObj [
     (''candidateToken'', JStr token), (''resourceId'', JStr resourceId), (''walletLabel'', JStr label),
     (''addressMasked'', JStr masked), (''createdAt'', JStr created), (''isCustodial'', JBool False),
     (''authMethod'', JStr (method_text method))]"

definition buildReviewInitResponse :: "recovery_setup \<Rightarrow> review_login \<Rightarrow> string \<Rightarrow> string \<Rightarrow> int \<Rightarrow> json" where
  "buildReviewInitResponse S cfg challengeId emailMasked expires =
     initReply challengeId
       [shownCandidate (reviewCandidateToken (rv_sha256 S) challengeId) REVIEW_RESOURCE_ID (walletLabel (Some (rl_address cfg)))
          (maskText (rl_address cfg)) ''2024-01-01T00:00:00.000Z'' EmailCode] emailMasked expires"

definition buildReviewVerifyResponse :: "recovery_setup \<Rightarrow> review_login \<Rightarrow> string \<Rightarrow> json option" where
  "buildReviewVerifyResponse S cfg key =
     map_option (\<lambda>bundle. JObj [
       (''credentialBundle'', JStr bundle),
       (''organizationId'', JStr (rl_organization cfg)),
       (''rootUserId'', JStr (rl_rootUser cfg)),
       (''walletId'', JStr (rl_wallet cfg)),
       (''resourceId'', JStr REVIEW_RESOURCE_ID),
       (''defaultAddress'', JStr (rl_address cfg)),
       (''defaultPublicKeyHex'', orNull JStr (rl_publicKey cfg)),
       (''externalUserId'', orNull JStr (rl_external cfg)),
       (''authMethod'', JStr ''email''),
       (''expiresInSeconds'', JNum 86400)])
     (buildReviewCredentialBundle S (rl_privateKey cfg) key)"

subsection \<open>\<open>POST /recovery/email/init\<close>\<close>

definition emptyReply :: "string \<Rightarrow> string \<Rightarrow> int \<Rightarrow> int \<Rightarrow> http" where
  "emptyReply prefix email expires now = Answer (initReply (prefix @ show36 (nat now)) [] (maskEmail email) expires)"

definition initStage :: "recovery_setup \<Rightarrow> draws \<Rightarrow> string \<Rightarrow> rstage" where
  "initStage S dr rawEmail =
     (let email = js_trim rawEmail in
      case rv_review S of
        Some cfg \<Rightarrow>
          if isReviewEmail cfg email then
            let challengeId = REVIEW_CHALLENGE_PREFIX @ he_token (su_env dr); expires = he_now (su_env dr) + CHALLENGE_TTL_MS_recovery
            in Closing \<lparr> cl_mark = None,
                 cl_note = noted None ''recovery.init'' (Some challengeId) [(''reviewLogin'', JBool True), (''candidateCount'', JNum 1)] Succeeded,
                 cl_reply = (\<lambda>now. Answer (buildReviewInitResponse S cfg challengeId (maskEmail email) expires)) \<rparr>
          else InitCount email
      | None \<Rightarrow> InitCount email)"

text \<open>
  The wallets of a user that a code can open: not those of the root organization, nor those of a social login.
\<close>

definition sourceCandidate :: "recovery_setup \<Rightarrow> recovery_user \<Rightarrow> recovery_wallet \<Rightarrow> candidate option" where
  "sourceCandidate S u r =
     (if rr_organization r = rv_rootOrg S \<or> rr_method r = Some ''oauth'' then None
      else Some \<lparr> cd_token = [], cd_resource = rr_id r, cd_user = ru_id u, cd_external = ru_external u,
        cd_organization = rr_organization r, cd_rootUser = rr_rootUser r, cd_otpId = None, cd_otpStarts = None,
        cd_otpStartedAt = None, cd_label = walletLabel (rr_address r), cd_masked = maskAddress (rr_address r),
        cd_wallet = rr_wallet r, cd_address = rr_address r, cd_publicKey = rr_publicKey r, cd_created = rr_created r,
        cd_method = (if rr_method r = Some ''email'' then EmailCode else Passkey) \<rparr>)"

definition failuresJson :: "candidate list \<Rightarrow> json" where
  "failuresJson sources = JArr (map (\<lambda>c. JObj [(''resourceId'', JStr (cd_resource c)), (''error'', JStr ''missing_root_user_id'')])
     (filter (\<lambda>c. \<not> given (cd_rootUser c)) sources))"

text \<open>After the last user.\<close>

definition afterSources :: "recovery_setup \<Rightarrow> string \<Rightarrow> int \<Rightarrow> candidate list \<Rightarrow> rstage" where
  "afterSources S email expires sources =
     (let hash = JStr (hashEmailForRateLimit (rv_sha256 S) email); candidates = filter (\<lambda>c. given (cd_rootUser c)) sources in
      if sources = [] then Closing \<lparr> cl_mark = None,
          cl_note = noted None ''recovery.init'' None [(''emailHash'', hash), (''candidateCount'', JNum 0)] Succeeded,
          cl_reply = emptyReply ''chal_empty_'' email expires \<rparr>
      else if candidates = [] then Closing \<lparr> cl_mark = None,
          cl_note = noted None ''recovery.init'' None
            [(''emailHash'', hash), (''candidateCount'', JNum 0), (''failures'', failuresJson sources)] AuditChain.Failed,
          cl_reply = emptyReply ''chal_otp_'' email expires \<rparr>
      else InitInsert email candidates (failuresJson sources))"

definition nextUser :: "recovery_setup \<Rightarrow> string \<Rightarrow> int \<Rightarrow> recovery_user list \<Rightarrow> candidate list \<Rightarrow> rstage" where
  "nextUser S email expires us sources =
     (if us = [] then afterSources S email expires sources else InitWallets email expires us sources)"

definition initCountStage :: "recovery_setup \<Rightarrow> int \<Rightarrow> string \<Rightarrow> string \<Rightarrow> recovery_row list \<Rightarrow> rstage" where
  "initCountStage S now appId email rows =
     (let hash = hashEmailForRateLimit (rv_sha256 S) email; recentCount = countRecentChallenges now appId hash rows;
          expires = now + CHALLENGE_TTL_MS_recovery
      in if recentCount \<ge> RATE_LIMIT_MAX_INITS then Closing \<lparr> cl_mark = None,
             cl_note = noted None ''recovery.init'' None
               [(''reason'', JStr ''rate_limited''), (''emailHash'', JStr hash), (''recentCount'', JNum recentCount),
                (''limit'', JNum RATE_LIMIT_MAX_INITS), (''windowMs'', JNum RATE_LIMIT_WINDOW_MS)] AuditChain.Failed,
             cl_reply = emptyReply ''chal_blocked_'' email expires \<rparr>
         else InitUsers email expires)"

definition fillTokens :: "recovery_setup \<Rightarrow> recovery_row \<Rightarrow> candidate list" where
  "fillTokens S row = map (\<lambda>c. c \<lparr> cd_token := computeCandidateToken (rv_sha256 S) (rc_id row) (cd_resource c) \<rparr>) (rc_candidates row)"

definition initFillStep ::
    "recovery_setup \<Rightarrow> draws \<Rightarrow> recovery_call \<Rightarrow> string \<Rightarrow> recovery_row \<Rightarrow> json \<Rightarrow> recovery_world \<Rightarrow> recovery_call \<times> recovery_world" where
  "initFillStep S dr c email row failures w =
     (let tokensFilled = fillTokens S row in
      case recoveryAudit S dr (rk_app c) None (noted None ''recovery.init'' (Some (rc_id row))
          [(''emailHash'', JStr (hashEmailForRateLimit (rv_sha256 S) email)), (''candidateCount'', JNum (int (length tokensFilled))),
           (''failures'', failures)] Succeeded) (rw_audit w) of
        None \<Rightarrow> (rThrew c, w)
      | Some audit \<Rightarrow>
          (rFinish (Answer (initReply (rc_id row)
             (map (\<lambda>cd. shownCandidate (cd_token cd) (cd_resource cd) (cd_label cd) (cd_masked cd) (toISOString (cd_created cd)) (cd_method cd))
                tokensFilled) (maskEmail email) (rc_expires row))) c,
           w \<lparr> rw_rows := updateRecoveryChallengeCandidates (rc_id row) tokensFilled (rw_rows w), rw_audit := audit \<rparr>))"

subsection \<open>\<open>POST /recovery/email/start\<close>\<close>

text \<open>The schema asks for texts that are not empty; its format of emails is left out.\<close>

definition startStage :: "recovery_setup \<Rightarrow> string \<Rightarrow> string \<Rightarrow> string \<Rightarrow> http + rstage" where
  "startStage S challengeId token rawEmail =
     (let email = js_trim rawEmail in
      if challengeId = [] \<or> token = [] then Inl (Refuse 400 ''Bad Request'')
      else case (if isReviewChallengeId challengeId then rv_review S else None) of
        Some cfg \<Rightarrow>
          if \<not> isReviewEmail cfg email \<or> reviewCandidateToken (rv_sha256 S) challengeId \<noteq> token
          then Inl (Refuse 400 ''Recovery email does not match this challenge'')
          else Inr (Closing \<lparr> cl_mark = None,
                 cl_note = noted None ''recovery.otp_start'' (Some challengeId) [(''reviewLogin'', JBool True)] Succeeded,
                 cl_reply = (\<lambda>now. Answer (JObj [(''emailMasked'', JStr (maskEmail email)),
                   (''expiresAt'', JStr (toISOString (now + CHALLENGE_TTL_MS_recovery)))])) \<rparr>)
      | None \<Rightarrow> Inr (StartLoad challengeId token email))"

definition startNote :: "string option \<Rightarrow> string \<Rightarrow> (string \<times> json) list \<Rightarrow> audit_note" where
  "startNote user rid payload = noted user ''recovery.otp_start'' (Some rid) payload AuditChain.Failed"

text \<open>The checks of a start, up to the request to Turnkey: what refuses it, or the candidate.\<close>

definition startChecks ::
    "recovery_setup \<Rightarrow> int \<Rightarrow> string \<Rightarrow> string \<Rightarrow> string \<Rightarrow> recovery_row option \<Rightarrow> (http + rstage) + recovery_row \<times> candidate" where
  "startChecks S now rid token email found =
     (case found of
        None \<Rightarrow> Inl (Inr (refused (startNote None rid [(''reason'', JStr ''unknown_challenge'')]) 404 ''Unknown challenge''))
      | Some row \<Rightarrow>
          (case classifyRecoveryChallengeAvailability row now of
             NotPending \<Rightarrow> Inl (Inr (refused (startNote None (rc_id row)
               [(''reason'', JStr ''not_pending''), (''status'', JStr (challenge_text (rc_status row)))]) 410 ''Challenge already consumed or expired''))
           | PastTtl \<Rightarrow> Inl (Inr (marked (rc_id row) ChExpired (startNote None (rc_id row)
               [(''reason'', JStr ''expired''), (''expiresAt'', JStr (toISOString (rc_expires row)))]) 410 ''Challenge expired''))
           | Available \<Rightarrow>
               if hashEmailForRateLimit (rv_sha256 S) email \<noteq> rc_emailHash row
               then Inl (Inr (refused (startNote None (rc_id row) [(''reason'', JStr ''email_mismatch'')]) 400 ''Recovery email does not match this challenge''))
               else case List.find (\<lambda>c. cd_token c = token) (rc_candidates row) of
                 None \<Rightarrow> Inl (Inr (refused (startNote None (rc_id row) [(''reason'', JStr ''unknown_candidate'')]) 400 ''Unknown candidateToken''))
               | Some cand \<Rightarrow>
                   if \<not> given (cd_rootUser cand) then Inl (Inl (Refuse 400 ''Selected wallet cannot receive OTP recovery''))
                   else
                     let throttle = (if given (cd_otpId cand)
                           then shouldThrottleResend (getOtpAgeMs now cand) (getOtpStartCount cand) RESEND_COOLDOWN_MS MAX_OTP_SENDS
                           else NotThrottled)
                     in if throttle = NotThrottled then Inr (row, cand)
                        else Inl (Inr (refused (startNote (Some (cd_user cand)) (rc_id row)
                          [(''reason'', JStr (if throttle = MaxSends then ''max_sends_exceeded'' else ''resend_cooldown'')),
                           (''candidateResourceId'', JStr (cd_resource cand)), (''isResend'', JBool True),
                           (''otpStartCount'', JNum (getOtpStartCount cand))]) 429 ''Please wait before requesting another verification code''))))"

definition startFailed :: "recovery_row \<Rightarrow> candidate \<Rightarrow> string \<Rightarrow> rstage" where
  "startFailed row cand e =
     refused (startNote (Some (cd_user cand)) (rc_id row)
       [(''candidateResourceId'', JStr (cd_resource cand)), (''isResend'', JBool (given (cd_otpId cand))),
        (''otpStartCount'', JNum (getOtpStartCount cand)), (''error'', JStr e)]) 500 ''Failed to send verification code''"

fun updateFirst :: "('a \<Rightarrow> bool) \<Rightarrow> 'a \<Rightarrow> 'a list \<Rightarrow> 'a list" where
  "updateFirst p y [] = []"
| "updateFirst p y (x # xs) = (if p x then y # xs else x # updateFirst p y xs)"

definition nonEmptyText :: "json \<Rightarrow> string option" where
  "nonEmptyText v = (case v of JStr s \<Rightarrow> if js_trim s = [] then None else Some s | _ \<Rightarrow> None)"

text \<open>The customization of the email; text that is no JSON object throws.\<close>

definition buildOtpEmailCustomization :: "recovery_setup \<Rightarrow> string + json" where
  "buildOtpEmailCustomization S =
     rbind (case nonEmptyText (rv_config S ''TURNKEY_OTP_EMAIL_CUSTOMIZATION_JSON'') of
              None \<Rightarrow> Inr (JObj [])
            | Some raw \<Rightarrow> (case rv_parse S raw of
                None \<Rightarrow> Inl ''JSON''
              | Some (JObj kvs) \<Rightarrow> Inr (JObj kvs)
              | Some v \<Rightarrow> Inl ''TURNKEY_OTP_EMAIL_CUSTOMIZATION_JSON must be a JSON object'')) (\<lambda>customization.
       let custom = fold (\<lambda>(envKey, turnkeyKey) v. case nonEmptyText (rv_config S envKey) of
              None \<Rightarrow> v | Some text \<Rightarrow> withField turnkeyKey (JStr (js_trim text)) v)
            [(''TURNKEY_OTP_EMAIL_APP_NAME'', ''appName''), (''TURNKEY_OTP_EMAIL_LOGO_URL'', ''logoUrl''),
             (''TURNKEY_OTP_EMAIL_MAGIC_LINK_TEMPLATE'', ''magicLinkTemplate''), (''TURNKEY_OTP_EMAIL_TEMPLATE_ID'', ''templateId''),
             (''TURNKEY_OTP_EMAIL_SENDER_NAME'', ''sendFromEmailName''), (''TURNKEY_OTP_EMAIL_SENDER_ADDRESS'', ''sendFromEmailAddress''),
             (''TURNKEY_OTP_EMAIL_REPLY_TO_ADDRESS'', ''replyToEmailAddress'')] customization
       in Inr (if custom = JObj [] then JUndefined else custom))"

text \<open>After the row is read: the request to Turnkey is made, or the call ends.\<close>

definition startLoadStep ::
    "recovery_setup \<Rightarrow> draws \<Rightarrow> recovery_call \<Rightarrow> string \<Rightarrow> string \<Rightarrow> string \<Rightarrow> recovery_world \<Rightarrow> recovery_call \<times> recovery_world" where
  "startLoadStep S dr c rid token email w =
     (case startChecks S (he_now (su_env dr)) rid token email (getRecoveryChallenge (rk_app c) rid (rw_rows w)) of
        Inl (Inl r) \<Rightarrow> (rFinish r c, w)
      | Inl (Inr st) \<Rightarrow> (rGoTo st c, w)
      | Inr (row, cand) \<Rightarrow>
          (case buildOtpEmailCustomization S of
             Inl e \<Rightarrow> (rGoTo (startFailed row cand e) c, w)
           | Inr custom \<Rightarrow>
               (rGoTo (StartSend row cand email) c,
                w \<lparr> rw_sent := rw_sent w @ [\<lparr> os_challenge = rc_id row, os_token = cd_token cand, os_organization = cd_organization cand,
                   os_rootUser = the (cd_rootUser cand), os_contact = email,
                   os_identifier = otpUserIdentifier (rv_sha256 S) (rk_app c) email \<rparr>] \<rparr>)))"

text \<open>The code is bound to the candidate of the row as it is now, under a lock.\<close>

definition startSaveStep ::
    "recovery_setup \<Rightarrow> draws \<Rightarrow> recovery_call \<Rightarrow> recovery_row \<Rightarrow> candidate \<Rightarrow> string \<Rightarrow> string \<Rightarrow> string \<Rightarrow> recovery_world \<Rightarrow>
     recovery_call \<times> recovery_world" where
  "startSaveStep S dr c row cand email otpId activity w =
     (let now = he_now (su_env dr); p = (\<lambda>cd. cd_token cd = cd_token cand);
          candidates = (case getRecoveryChallenge (rk_app c) (rc_id row) (rw_rows w) of Some r \<Rightarrow> rc_candidates r | None \<Rightarrow> rc_candidates row);
          base = (case List.find p candidates of Some b \<Rightarrow> b | None \<Rightarrow> cand);
          nextCandidate = recordOtpStart now otpId base
      in case recoveryAudit S dr (rk_app c) (Some activity) (noted (Some (cd_user cand)) ''recovery.otp_start'' (Some (rc_id row))
             [(''candidateResourceId'', JStr (cd_resource cand)), (''isResend'', JBool (given (cd_otpId cand))),
              (''otpStartCount'', orNull JNum (cd_otpStarts nextCandidate))] Succeeded) (rw_audit w) of
           None \<Rightarrow> (rGoTo (startFailed row cand ''Internal Server Error'') c, w)
         | Some audit \<Rightarrow>
             (rFinish (Answer (JObj [(''emailMasked'', JStr (maskEmail email)), (''expiresAt'', JStr (toISOString (rc_expires row)))])) c,
              w \<lparr> rw_rows := updateRecoveryChallengeCandidates (rc_id row) (updateFirst p nextCandidate candidates) (rw_rows w),
                  rw_audit := audit \<rparr>))"

subsection \<open>\<open>POST /recovery/email/verify\<close>\<close>

definition verifyNote :: "string option \<Rightarrow> string \<Rightarrow> (string \<times> json) list \<Rightarrow> AuditChain.outcome \<Rightarrow> audit_note" where
  "verifyNote user rid payload result = noted user ''recovery.verify'' (Some rid) payload result"

definition verifyStage :: "recovery_setup \<Rightarrow> verify_body \<Rightarrow> http + rstage" where
  "verifyStage S body =
     (let rid = vb_challenge body in
      if rid = [] \<or> vb_token body = [] \<or> length (vb_code body) < 4 \<or> vb_key body = [] \<or> vb_external body = Some []
      then Inl (Refuse 400 ''Bad Request'')
      else case (if isReviewChallengeId rid then rv_review S else None) of
        Some cfg \<Rightarrow>
          if reviewCandidateToken (rv_sha256 S) rid \<noteq> vb_token body then Inl (Refuse 400 ''Unknown candidateToken'')
          else if \<not> reviewOtpMatches cfg (vb_code body)
          then Inr (refused (verifyNote None rid [(''reviewLogin'', JBool True), (''reason'', JStr ''invalid_code'')] AuditChain.Failed)
                 401 ''Invalid or expired code'')
          else (case buildReviewVerifyResponse S cfg (vb_key body) of
                  None \<Rightarrow> Inl (Refuse 400 ''Invalid ephemeral public key'')
                | Some response \<Rightarrow> Inr (Closing \<lparr> cl_mark = None,
                    cl_note = verifyNote None rid [(''reviewLogin'', JBool True), (''organizationId'', JStr (rl_organization cfg))] Succeeded,
                    cl_reply = (\<lambda>now. Answer response) \<rparr>))
      | None \<Rightarrow> Inr (VerifyLoad body))"

definition verifyChecks :: "int \<Rightarrow> verify_body \<Rightarrow> recovery_row option \<Rightarrow> rstage + recovery_row \<times> candidate" where
  "verifyChecks now body found =
     (case found of
        None \<Rightarrow> Inl (refused (verifyNote None (vb_challenge body) [(''reason'', JStr ''unknown_challenge'')] AuditChain.Failed) 404 ''Unknown challenge'')
      | Some row \<Rightarrow>
          (case classifyRecoveryChallengeAvailability row now of
             NotPending \<Rightarrow> Inl (refused (verifyNote None (rc_id row)
               [(''reason'', JStr ''not_pending''), (''status'', JStr (challenge_text (rc_status row)))] AuditChain.Failed)
               410 ''Challenge already consumed or expired'')
           | PastTtl \<Rightarrow> Inl (marked (rc_id row) ChExpired (verifyNote None (rc_id row)
               [(''reason'', JStr ''expired''), (''expiresAt'', JStr (toISOString (rc_expires row)))] AuditChain.Failed) 410 ''Challenge expired'')
           | Available \<Rightarrow>
               if rc_attempts row \<ge> VERIFY_MAX_ATTEMPTS
               then Inl (marked (rc_id row) ChFailed (verifyNote None (rc_id row)
                      [(''reason'', JStr ''attempts_exceeded''), (''attempts'', JNum (rc_attempts row)), (''maxAttempts'', JNum VERIFY_MAX_ATTEMPTS)]
                      AuditChain.Failed) 429 ''Too many verification attempts'')
               else case List.find (\<lambda>c. cd_token c = vb_token body) (rc_candidates row) of
                 None \<Rightarrow> Inl (refused (verifyNote None (rc_id row) [(''reason'', JStr ''unknown_candidate'')] AuditChain.Failed) 400 ''Unknown candidateToken'')
               | Some cand \<Rightarrow>
                   if \<not> given (cd_otpId cand)
                   then Inl (refused (verifyNote (Some (cd_user cand)) (rc_id row)
                          [(''reason'', JStr ''no_otp_started''), (''candidateResourceId'', JStr (cd_resource cand))] AuditChain.Failed)
                          400 ''Verification code has not been sent for this wallet'')
                   else if given (vb_external body) \<and> given (cd_external cand) \<and> vb_external body \<noteq> cd_external cand
                   then Inl (refused (verifyNote (Some (cd_user cand)) (rc_id row)
                          [(''reason'', JStr ''external_user_mismatch''), (''candidateResourceId'', JStr (cd_resource cand))] AuditChain.Failed)
                          400 ''externalUserId does not match candidate'')
                   else Inr (row, cand)))"

definition verifyLoadStep :: "draws \<Rightarrow> recovery_call \<Rightarrow> verify_body \<Rightarrow> recovery_world \<Rightarrow> recovery_call \<times> recovery_world" where
  "verifyLoadStep dr c body w =
     (case verifyChecks (he_now (su_env dr)) body (getRecoveryChallenge (rk_app c) (vb_challenge body) (rw_rows w)) of
        Inl st \<Rightarrow> (rGoTo st c, w)
      | Inr (row, cand) \<Rightarrow> (rGoTo (VerifyCount body row cand) c, w))"

text \<open>One transaction: the attempt and its audit event.\<close>

definition verifyCountStep ::
    "recovery_setup \<Rightarrow> nat \<Rightarrow> draws \<Rightarrow> recovery_call \<Rightarrow> verify_body \<Rightarrow> recovery_row \<Rightarrow> candidate \<Rightarrow> recovery_world \<Rightarrow>
     recovery_call \<times> recovery_world" where
  "verifyCountStep S i dr c body row cand w =
     (case incrementRecoveryAttemptIfUnderCap (rc_id row) (rk_app c) VERIFY_MAX_ATTEMPTS (rw_rows w) of
        None \<Rightarrow> (rGoTo (marked (rc_id row) ChFailed (verifyNote (Some (cd_user cand)) (rc_id row)
            [(''reason'', JStr ''attempts_exceeded_atomic''), (''candidateResourceId'', JStr (cd_resource cand)),
             (''attempt'', JNum (rc_attempts row + 1)), (''maxAttempts'', JNum VERIFY_MAX_ATTEMPTS)] AuditChain.Failed)
            429 ''Too many verification attempts'') c, w)
      | Some (incremented, rows) \<Rightarrow>
          (case recoveryAudit S dr (rk_app c) None (verifyNote (Some (cd_user cand)) (rc_id row)
               [(''candidateResourceId'', JStr (cd_resource cand)), (''attempt'', JNum (rc_attempts incremented)),
                (''otpStartCount'', JNum (getOtpStartCount cand))] Requested) (rw_audit w) of
             None \<Rightarrow> (rThrew c, w)
           | Some audit \<Rightarrow> (rGoTo (VerifyReread body row cand) c,
               w \<lparr> rw_rows := rows, rw_audit := audit, rw_counted := rw_counted w @ [(i, rc_id row)] \<rparr>)))"

text \<open>The code sent last for the candidate is the one to check.\<close>

definition effectiveOtpId :: "recovery_row option \<Rightarrow> string \<Rightarrow> candidate \<Rightarrow> string" where
  "effectiveOtpId latest token cand =
     (let latestCandidate = (case latest of None \<Rightarrow> cand
            | Some r \<Rightarrow> (case List.find (\<lambda>c. cd_token c = token) (rc_candidates r) of Some l \<Rightarrow> l | None \<Rightarrow> cand))
      in case cd_otpId latestCandidate of Some o' \<Rightarrow> o' | None \<Rightarrow> the (cd_otpId cand))"

definition verifyRereadStep ::
    "nat \<Rightarrow> recovery_call \<Rightarrow> verify_body \<Rightarrow> recovery_row \<Rightarrow> candidate \<Rightarrow> recovery_world \<Rightarrow> recovery_call \<times> recovery_world" where
  "verifyRereadStep i c body row cand w =
     (rGoTo (VerifyAuth body row cand) c,
      w \<lparr> rw_auths := rw_auths w @ [\<lparr> oa_call = i, oa_challenge = rc_id row, oa_token = cd_token cand, oa_organization = cd_organization cand,
          oa_otpId = effectiveOtpId (getRecoveryChallenge (rk_app c) (rc_id row) (rw_rows w)) (vb_token body) cand,
          oa_code = vb_code body, oa_key = vb_key body \<rparr>] \<rparr>)"

definition verifyFailed :: "recovery_row \<Rightarrow> candidate \<Rightarrow> string \<Rightarrow> rstage" where
  "verifyFailed row cand e =
     refused (verifyNote (Some (cd_user cand)) (rc_id row)
       [(''candidateResourceId'', JStr (cd_resource cand)), (''attempt'', JNum (rc_attempts row + 1)),
        (''otpStartCount'', JNum (getOtpStartCount cand)), (''error'', JStr e)] AuditChain.Failed) 401 ''Invalid or expired code''"

definition verifiedReply :: "candidate \<Rightarrow> authed \<Rightarrow> http" where
  "verifiedReply cand a = Answer (JObj [
     (''credentialBundle'', JStr (at_bundle a)),
     (''organizationId'', JStr (cd_organization cand)),
     (''rootUserId'', orNull JStr (cd_rootUser cand)),
     (''walletId'', orNull JStr (cd_wallet cand)),
     (''resourceId'', JStr (cd_resource cand)),
     (''defaultAddress'', orNull JStr (cd_address cand)),
     (''defaultPublicKeyHex'', orNull JStr (cd_publicKey cand)),
     (''externalUserId'', orNull JStr (cd_external cand)),
     (''authMethod'', JStr (method_text (cd_method cand))),
     (''expiresInSeconds'', JNum (int (read_nat RECOVERY_API_KEY_TTL_SECONDS)))])"

definition verifyUserStep ::
    "recovery_call \<Rightarrow> verify_body \<Rightarrow> recovery_row \<Rightarrow> candidate \<Rightarrow> authed \<Rightarrow> recovery_world \<Rightarrow> recovery_call \<times> recovery_world" where
  "verifyUserStep c body row cand a w =
     (rGoTo (if userExists (rk_app c) (the (vb_external body)) (rw_dir w) then VerifyConsume body row cand a
             else verifyFailed row cand ''Bound externalUserId no longer exists'') c, w)"

definition verifyConsumeStep ::
    "recovery_setup \<Rightarrow> draws \<Rightarrow> recovery_call \<Rightarrow> recovery_row \<Rightarrow> candidate \<Rightarrow> authed \<Rightarrow> recovery_world \<Rightarrow> recovery_call \<times> recovery_world" where
  "verifyConsumeStep S dr c row cand a w =
     (case recoveryAudit S dr (rk_app c) (Some (at_activity a)) (verifyNote (Some (cd_user cand)) (rc_id row)
          [(''candidateResourceId'', JStr (cd_resource cand)), (''apiKeyId'', JStr (at_apiKey a)),
           (''attempt'', JNum (rc_attempts row + 1)), (''otpStartCount'', JNum (getOtpStartCount cand))] Succeeded) (rw_audit w) of
        None \<Rightarrow> (rGoTo (verifyFailed row cand ''Internal Server Error'') c, w)
      | Some audit \<Rightarrow> (rFinish (verifiedReply cand a) c,
          w \<lparr> rw_rows := markRecoveryChallengeStatus (he_now (su_env dr)) (rc_id row) ChConsumed (rw_rows w), rw_audit := audit \<rparr>))"

subsection \<open>Steps\<close>

definition closeStep :: "recovery_setup \<Rightarrow> draws \<Rightarrow> recovery_call \<Rightarrow> closing \<Rightarrow> recovery_world \<Rightarrow> recovery_call \<times> recovery_world" where
  "closeStep S dr c cl w =
     (let now = he_now (su_env dr) in
      case recoveryAudit S dr (rk_app c) None (cl_note cl) (rw_audit w) of
        None \<Rightarrow> (rThrew c, w)
      | Some audit \<Rightarrow> (rFinish (cl_reply cl now) c,
          w \<lparr> rw_rows := (case cl_mark cl of None \<Rightarrow> rw_rows w | Some (rid, status) \<Rightarrow> markRecoveryChallengeStatus now rid status (rw_rows w)),
              rw_audit := audit \<rparr>))"

text \<open>A transaction runs or throws; \<open>caught\<close> is where an exception leads.\<close>

definition ranStep :: "ranswer \<Rightarrow> recovery_call \<Rightarrow> recovery_world \<Rightarrow> (string \<Rightarrow> recovery_call) \<Rightarrow> recovery_call \<times> recovery_world \<Rightarrow>
     recovery_call \<times> recovery_world" where
  "ranStep ans c w caught following = (case ans of RRan \<Rightarrow> following | RThrew e \<Rightarrow> (caught e, w) | _ \<Rightarrow> (c, w))"

fun recoveryStep ::
    "recovery_setup \<Rightarrow> nat \<Rightarrow> draws \<Rightarrow> ranswer \<Rightarrow> recovery_call \<Rightarrow> rstage \<Rightarrow> recovery_world \<Rightarrow> recovery_call \<times> recovery_world" where
  "recoveryStep S i dr ans c (InitCount email) w = ranStep ans c w (\<lambda>e. rThrew c)
     (rGoTo (initCountStage S (he_now (su_env dr)) (rk_app c) email (rw_rows w)) c, w)"
| "recoveryStep S i dr ans c (InitUsers email expires) w = ranStep ans c w (\<lambda>e. rThrew c)
     (rGoTo (nextUser S email expires (findUsersByRecoveryEmail (rk_app c) email (rw_dir w)) []) c, w)"
| "recoveryStep S i dr ans c (InitWallets email expires us sources) w = ranStep ans c w (\<lambda>e. rThrew c)
     (rGoTo (nextUser S email expires (tl us)
        (sources @ List.map_filter (sourceCandidate S (hd us)) (listTurnkeyResourcesForUserForApp (rk_app c) (ru_id (hd us)) (rw_dir w)))) c, w)"
| "recoveryStep S i dr ans c (InitInsert email candidates failures) w = ranStep ans c w (\<lambda>e. rThrew c)
     (case insertRecoveryChallenge (he_now (su_env dr)) (he_rowId (su_env dr)) (rk_app c) (hashEmailForRateLimit (rv_sha256 S) email)
         candidates CHALLENGE_TTL_MS_recovery (rw_rows w) of
        None \<Rightarrow> (rThrew c, w)
      | Some (row, rows) \<Rightarrow> (rGoTo (InitFill email row failures) c, w \<lparr> rw_rows := rows \<rparr>))"
| "recoveryStep S i dr ans c (InitFill email row failures) w = ranStep ans c w (\<lambda>e. rThrew c) (initFillStep S dr c email row failures w)"
| "recoveryStep S i dr ans c (StartLoad rid token email) w = ranStep ans c w (\<lambda>e. rThrew c) (startLoadStep S dr c rid token email w)"
| "recoveryStep S i dr ans c (StartSend row cand email) w =
     (case ans of
        OtpSent otpId activity \<Rightarrow> (rGoTo (StartSave row cand email otpId activity) c,
          w \<lparr> rw_issued := rw_issued w @ [\<lparr> oi_challenge = rc_id row, oi_token = cd_token cand, oi_organization = cd_organization cand,
             oi_contact = email, oi_otpId = otpId \<rparr>] \<rparr>)
      | RThrew e \<Rightarrow> (rGoTo (startFailed row cand e) c, w) | _ \<Rightarrow> (c, w))"
| "recoveryStep S i dr ans c (StartSave row cand email otpId activity) w = ranStep ans c w (\<lambda>e. rGoTo (startFailed row cand e) c)
     (startSaveStep S dr c row cand email otpId activity w)"
| "recoveryStep S i dr ans c (VerifyLoad body) w = ranStep ans c w (\<lambda>e. rThrew c) (verifyLoadStep dr c body w)"
| "recoveryStep S i dr ans c (VerifyCount body row cand) w = ranStep ans c w (\<lambda>e. rThrew c) (verifyCountStep S i dr c body row cand w)"
| "recoveryStep S i dr ans c (VerifyReread body row cand) w = ranStep ans c w (\<lambda>e. rThrew c) (verifyRereadStep i c body row cand w)"
| "recoveryStep S i dr ans c (VerifyAuth body row cand) w =
     (case ans of
        OtpAuthed a \<Rightarrow> (rGoTo (if given (vb_external body) then VerifyUser body row cand a else VerifyConsume body row cand a) c, w)
      | RThrew e \<Rightarrow> (rGoTo (verifyFailed row cand e) c, w) | _ \<Rightarrow> (c, w))"
| "recoveryStep S i dr ans c (VerifyUser body row cand a) w = ranStep ans c w (\<lambda>e. rGoTo (verifyFailed row cand e) c)
     (verifyUserStep c body row cand a w)"
| "recoveryStep S i dr ans c (VerifyConsume body row cand a) w = ranStep ans c w (\<lambda>e. rGoTo (verifyFailed row cand e) c)
     (verifyConsumeStep S dr c row cand a w)"
| "recoveryStep S i dr ans c (Closing cl) w = ranStep ans c w (\<lambda>e. rThrew c) (closeStep S dr c cl w)"
| "recoveryStep S i dr ans c Done w = (c, w)"

datatype recovery_event =
    BeginInit nat "string option" string draws
  | BeginStart nat "string option" string string string
  | BeginVerify nat "string option" verify_body
  | Directory directory
  | Continue nat draws ranswer

definition recoveryCall :: "string option \<Rightarrow> http + rstage \<Rightarrow> recovery_call" where
  "recoveryCall app first =
     (if \<not> given app then \<lparr> rk_app = [], rk_stage = Done, rk_reply = Some (Refuse 401 ''Missing app context'') \<rparr>
      else case first of
        Inl r \<Rightarrow> \<lparr> rk_app = the app, rk_stage = Done, rk_reply = Some r \<rparr>
      | Inr st \<Rightarrow> \<lparr> rk_app = the app, rk_stage = st, rk_reply = None \<rparr>)"

definition beginCall :: "nat \<Rightarrow> recovery_call \<Rightarrow> recovery_world \<Rightarrow> recovery_world" where
  "beginCall i c w = (if rw_calls w i = None then w \<lparr> rw_calls := (rw_calls w)(i \<mapsto> c) \<rparr> else w)"

fun recoveryEvent :: "recovery_setup \<Rightarrow> recovery_event \<Rightarrow> recovery_world \<Rightarrow> recovery_world" where
  "recoveryEvent S (BeginInit i app email dr) w = beginCall i (recoveryCall app (Inr (initStage S dr email))) w"
| "recoveryEvent S (BeginStart i app rid token email) w = beginCall i (recoveryCall app (startStage S rid token email)) w"
| "recoveryEvent S (BeginVerify i app body) w = beginCall i (recoveryCall app (verifyStage S body)) w"
| "recoveryEvent S (Directory d) w = w \<lparr> rw_dir := d, rw_past := d # rw_past w \<rparr>"
| "recoveryEvent S (Continue i dr ans) w =
     (case rw_calls w i of
        None \<Rightarrow> w
      | Some c \<Rightarrow> (let (c', w') = recoveryStep S i dr ans c (rk_stage c) w in w' \<lparr> rw_calls := (rw_calls w')(i \<mapsto> c') \<rparr>))"

definition recoveryStart :: "directory \<Rightarrow> audit_row list \<Rightarrow> recovery_world" where
  "recoveryStart d audit =
     \<lparr> rw_rows = [], rw_audit = audit, rw_dir = d, rw_past = [d], rw_counted = [], rw_sent = [], rw_issued = [], rw_auths = [],
       rw_calls = (\<lambda>i. None) \<rparr>"

definition runRecovery :: "recovery_setup \<Rightarrow> recovery_event list \<Rightarrow> recovery_world \<Rightarrow> recovery_world" where
  "runRecovery S evs w = fold (recoveryEvent S) evs w"

end
