(* ===== verification/RecoverySafety.thy ===== *)
theory RecoverySafety
  imports RecoveryFlow
begin

text \<open>
  The invariant of recovery: whatever calls interleave, attempts are counted and capped, codes go to the
  email of the challenge, and a code is checked for the wallet it was sent for.
\<close>

subsection \<open>What the state says\<close>

text \<open>What never changes of a candidate once its token is set.\<close>

definition core :: "candidate \<Rightarrow> string \<times> string \<times> string \<times> string \<times> string option" where
  "core c = (cd_token c, cd_resource c, cd_user c, cd_organization c, cd_rootUser c)"

text \<open>The candidate is a wallet of a user with this recovery email.\<close>

definition emailUser :: "recovery_setup \<Rightarrow> directory list \<Rightarrow> string \<Rightarrow> string \<Rightarrow> string \<Rightarrow> bool" where
  "emailUser S past app hash uid \<longleftrightarrow>
     (\<exists>d\<in>set past. \<exists>u\<in>set (dr_users d). ru_id u = uid \<and> ru_app u = app
        \<and> (\<exists>e. ru_email u = Some e \<and> rv_sha256 S (js_lower e) = hash))"

definition walletOf :: "recovery_setup \<Rightarrow> directory list \<Rightarrow> string \<Rightarrow> candidate \<Rightarrow> bool" where
  "walletOf S past app c \<longleftrightarrow>
     (\<exists>d\<in>set past. \<exists>r\<in>set (dr_wallets d). rr_id r = cd_resource c \<and> rr_app r = app \<and> rr_user r = Some (cd_user c)
        \<and> rr_organization r = cd_organization c \<and> rr_organization r \<noteq> rv_rootOrg S \<and> rr_rootUser r = cd_rootUser c
        \<and> rr_method r \<noteq> Some ''oauth'')"

definition ownedBy :: "recovery_setup \<Rightarrow> directory list \<Rightarrow> string \<Rightarrow> string \<Rightarrow> candidate \<Rightarrow> bool" where
  "ownedBy S past app hash c \<longleftrightarrow> emailUser S past app hash (cd_user c) \<and> walletOf S past app c"

definition otpIssued :: "otp_issued list \<Rightarrow> string \<Rightarrow> string \<Rightarrow> string \<Rightarrow> string \<Rightarrow> bool" where
  "otpIssued issued rid token organization otpId \<longleftrightarrow>
     (\<exists>s\<in>set issued. oi_challenge s = rid \<and> oi_token s = token \<and> oi_organization s = organization \<and> oi_otpId s = otpId)"

definition rowGood :: "recovery_setup \<Rightarrow> recovery_world \<Rightarrow> recovery_row \<Rightarrow> bool" where
  "rowGood S w row \<longleftrightarrow>
     rc_attempts row \<le> VERIFY_MAX_ATTEMPTS
     \<and> rc_attempts row = int (length (filter (\<lambda>x. snd x = rc_id row) (rw_counted w)))
     \<and> (\<forall>c\<in>set (rc_candidates row). ownedBy S (rw_past w) (rc_app row) (rc_emailHash row) c
          \<and> (\<forall>v. cd_otpId c = Some v \<longrightarrow> otpIssued (rw_issued w) (rc_id row) (cd_token c) (cd_organization c) v))"

text \<open>A candidate of a challenge with this email.\<close>

definition bound :: "recovery_setup \<Rightarrow> recovery_row list \<Rightarrow> string \<Rightarrow> string \<Rightarrow> string \<Rightarrow> string \<Rightarrow> string option \<Rightarrow> bool" where
  "bound S rows rid contact token organization root \<longleftrightarrow> token \<noteq> [] \<and>
     (\<exists>row\<in>set rows. rc_id row = rid \<and> hashEmailForRateLimit (rv_sha256 S) contact = rc_emailHash row
        \<and> (\<exists>c\<in>set (rc_candidates row). cd_token c = token \<and> cd_organization c = organization \<and> (root = None \<or> cd_rootUser c = root)))"

definition worldGood :: "recovery_setup \<Rightarrow> recovery_world \<Rightarrow> bool" where
  "worldGood S w \<longleftrightarrow>
     distinct (map rc_id (rw_rows w)) \<and> (\<forall>row\<in>set (rw_rows w). rowGood S w row)
     \<and> snd ` set (rw_counted w) \<subseteq> rc_id ` set (rw_rows w)
     \<and> distinct (map fst (rw_counted w)) \<and> distinct (map oa_call (rw_auths w))
     \<and> (\<forall>a\<in>set (rw_auths w). (oa_call a, oa_challenge a) \<in> set (rw_counted w)
          \<and> otpIssued (rw_issued w) (oa_challenge a) (oa_token a) (oa_organization a) (oa_otpId a))
     \<and> (\<forall>s\<in>set (rw_issued w). bound S (rw_rows w) (oi_challenge s) (oi_contact s) (oi_token s) (oi_organization s) None)
     \<and> (\<forall>s\<in>set (rw_sent w). bound S (rw_rows w) (os_challenge s) (os_contact s) (os_token s) (os_organization s) (Some (os_rootUser s)))
     \<and> rw_dir w \<in> set (rw_past w)"

text \<open>The row and the candidate that a call has read.\<close>

definition snapGood :: "recovery_world \<Rightarrow> string \<Rightarrow> recovery_row \<Rightarrow> candidate \<Rightarrow> bool" where
  "snapGood w app row cand \<longleftrightarrow> cd_token cand \<noteq> [] \<and> cand \<in> set (rc_candidates row)
     \<and> List.find (\<lambda>c. cd_token c = cd_token cand) (rc_candidates row) = Some cand
     \<and> (\<exists>r\<in>set (rw_rows w). rc_id r = rc_id row \<and> rc_app r = app \<and> rc_emailHash r = rc_emailHash row
          \<and> map core (rc_candidates r) = map core (rc_candidates row))"

definition startGood :: "recovery_setup \<Rightarrow> recovery_world \<Rightarrow> string \<Rightarrow> recovery_row \<Rightarrow> candidate \<Rightarrow> string \<Rightarrow> bool" where
  "startGood S w app row cand email \<longleftrightarrow> snapGood w app row cand \<and> hashEmailForRateLimit (rv_sha256 S) email = rc_emailHash row"

definition verifyGood :: "recovery_world \<Rightarrow> string \<Rightarrow> verify_body \<Rightarrow> recovery_row \<Rightarrow> candidate \<Rightarrow> bool" where
  "verifyGood w app body row cand \<longleftrightarrow> snapGood w app row cand
     \<and> vb_token body = cd_token cand
     \<and> (\<exists>v. cd_otpId cand = Some v \<and> otpIssued (rw_issued w) (rc_id row) (cd_token cand) (cd_organization cand) v)"

definition newCandidates :: "recovery_setup \<Rightarrow> recovery_world \<Rightarrow> string \<Rightarrow> string \<Rightarrow> candidate list \<Rightarrow> bool" where
  "newCandidates S w app hash cs \<longleftrightarrow>
     (\<forall>c\<in>set cs. ownedBy S (rw_past w) app hash c \<and> cd_token c = [] \<and> cd_otpId c = None)"

fun stageGood :: "recovery_setup \<Rightarrow> recovery_world \<Rightarrow> nat \<Rightarrow> string \<Rightarrow> rstage \<Rightarrow> bool" where
  "stageGood S w i app (InitWallets email expires us sources) \<longleftrightarrow> us \<noteq> []
     \<and> (\<forall>u\<in>set us. emailUser S (rw_past w) app (hashEmailForRateLimit (rv_sha256 S) email) (ru_id u))
     \<and> newCandidates S w app (hashEmailForRateLimit (rv_sha256 S) email) sources"
| "stageGood S w i app (InitInsert email candidates failures) \<longleftrightarrow>
     newCandidates S w app (hashEmailForRateLimit (rv_sha256 S) email) candidates"
| "stageGood S w i app (InitFill email row failures) \<longleftrightarrow> newCandidates S w app (rc_emailHash row) (rc_candidates row)
     \<and> (\<exists>r\<in>set (rw_rows w). rc_id r = rc_id row \<and> rc_app r = app \<and> rc_emailHash r = rc_emailHash row \<and> rc_candidates r = rc_candidates row)"
| "stageGood S w i app (StartLoad rid token email) \<longleftrightarrow> token \<noteq> []"
| "stageGood S w i app (StartSend row cand email) \<longleftrightarrow> startGood S w app row cand email"
| "stageGood S w i app (StartSave row cand email otpId activity) \<longleftrightarrow> startGood S w app row cand email
     \<and> otpIssued (rw_issued w) (rc_id row) (cd_token cand) (cd_organization cand) otpId"
| "stageGood S w i app (VerifyLoad body) \<longleftrightarrow> vb_token body \<noteq> [] \<and> i \<notin> fst ` set (rw_counted w)"
| "stageGood S w i app (VerifyCount body row cand) \<longleftrightarrow> verifyGood w app body row cand \<and> i \<notin> fst ` set (rw_counted w)"
| "stageGood S w i app (VerifyReread body row cand) \<longleftrightarrow> verifyGood w app body row cand
     \<and> (i, rc_id row) \<in> set (rw_counted w) \<and> i \<notin> oa_call ` set (rw_auths w)"
| "stageGood S w i app (Closing cl) \<longleftrightarrow> (\<forall>rid status. cl_mark cl = Some (rid, status) \<longrightarrow> status \<noteq> ChPending)"
| "stageGood S w i app stage \<longleftrightarrow> True"

definition fillId :: "rstage \<Rightarrow> string option" where
  "fillId st = (case st of InitFill email row failures \<Rightarrow> Some (rc_id row) | _ \<Rightarrow> None)"

definition recoveryInv :: "recovery_setup \<Rightarrow> recovery_world \<Rightarrow> bool" where
  "recoveryInv S w \<longleftrightarrow> worldGood S w
     \<and> (\<forall>i c. rw_calls w i = Some c \<longrightarrow> stageGood S w i (rk_app c) (rk_stage c))
     \<and> (\<forall>i. rw_calls w i = None \<longrightarrow> i \<notin> fst ` set (rw_counted w))
     \<and> (\<forall>i j c c' x. rw_calls w i = Some c \<longrightarrow> rw_calls w j = Some c' \<longrightarrow> fillId (rk_stage c) = Some x
          \<longrightarrow> fillId (rk_stage c') = Some x \<longrightarrow> i = j)"

subsection \<open>How it changes\<close>

definition rowsEvolve :: "string set \<Rightarrow> recovery_row list \<Rightarrow> recovery_row list \<Rightarrow> bool" where
  "rowsEvolve X rows rows' \<longleftrightarrow>
     (\<forall>r\<in>set rows. \<exists>r'\<in>set rows'. rc_id r' = rc_id r \<and> rc_app r' = rc_app r \<and> rc_emailHash r' = rc_emailHash r
        \<and> (rc_id r \<notin> X \<longrightarrow> rc_candidates r' = rc_candidates r)
        \<and> (map core (rc_candidates r') = map core (rc_candidates r) \<or> (\<forall>c\<in>set (rc_candidates r). cd_token c = []))
        \<and> (rc_status r \<noteq> ChPending \<longrightarrow> rc_status r' \<noteq> ChPending \<and> rc_attempts r' = rc_attempts r))"

definition evolves :: "nat \<Rightarrow> string set \<Rightarrow> recovery_world \<Rightarrow> recovery_world \<Rightarrow> bool" where
  "evolves i X w w' \<longleftrightarrow> rowsEvolve X (rw_rows w) (rw_rows w')
     \<and> set (rw_issued w) \<subseteq> set (rw_issued w') \<and> rw_past w' = rw_past w \<and> rw_calls w' = rw_calls w
     \<and> set (rw_counted w) \<subseteq> set (rw_counted w')
     \<and> fst ` set (rw_counted w') \<subseteq> insert i (fst ` set (rw_counted w))
     \<and> oa_call ` set (rw_auths w') \<subseteq> insert i (oa_call ` set (rw_auths w))"

lemma core_eqD: "core c = core c' \<Longrightarrow> cd_token c = cd_token c' \<and> cd_organization c = cd_organization c' \<and> cd_rootUser c = cd_rootUser c'"
  by (simp add: core_def)

lemma core_member:
  assumes "map core xs = map core ys" "c \<in> set xs"
  shows "\<exists>c'\<in>set ys. core c' = core c"
proof -
  have "core ` set xs = core ` set ys" using assms(1) by (metis list.set_map)
  then have "core c \<in> core ` set ys" using assms(2) by blast
  then show ?thesis by (metis imageE)
qed

lemma rowsEvolve_refl [simp]: "rowsEvolve X rows rows"
  by (auto simp: rowsEvolve_def)

lemma evolves_refl: "evolves i X w w"
  by (auto simp: evolves_def)

lemma otpIssued_mono: "otpIssued s rid t g v \<Longrightarrow> set s \<subseteq> set s' \<Longrightarrow> otpIssued s' rid t g v"
  by (auto simp: otpIssued_def)

lemma bound_evolve:
  assumes "bound S rows rid contact token g root" "rowsEvolve X rows rows'"
  shows "bound S rows' rid contact token g root"
proof -
  obtain row c where r: "row \<in> set rows" "rc_id row = rid" "hashEmailForRateLimit (rv_sha256 S) contact = rc_emailHash row"
      "c \<in> set (rc_candidates row)" "cd_token c = token" "cd_organization c = g" "root = None \<or> cd_rootUser c = root" "token \<noteq> []"
    using assms(1) by (auto simp: bound_def)
  obtain row' where r': "row' \<in> set rows'" "rc_id row' = rid" "rc_emailHash row' = rc_emailHash row"
      "map core (rc_candidates row') = map core (rc_candidates row) \<or> (\<forall>c\<in>set (rc_candidates row). cd_token c = [])"
    using assms(2) r(1,2) unfolding rowsEvolve_def by metis
  then obtain c' where "c' \<in> set (rc_candidates row')" "core c' = core c"
    using core_member [of "rc_candidates row" "rc_candidates row'" c] r(4,5,8) by metis
  then show ?thesis unfolding bound_def using r r' core_eqD by metis
qed

lemma snapGood_evolve:
  assumes "snapGood w app row cand" "rowsEvolve X (rw_rows w) (rw_rows w')"
  shows "snapGood w' app row cand"
proof -
  obtain r where r: "r \<in> set (rw_rows w)" "rc_id r = rc_id row" "rc_app r = app" "rc_emailHash r = rc_emailHash row"
      "map core (rc_candidates r) = map core (rc_candidates row)" "cd_token cand \<noteq> []" "cand \<in> set (rc_candidates row)"
    using assms(1) by (auto simp: snapGood_def)
  have found: "List.find (\<lambda>c. cd_token c = cd_token cand) (rc_candidates row) = Some cand" using assms(1) by (simp add: snapGood_def)
  obtain c' where c': "c' \<in> set (rc_candidates r)" "core c' = core cand"
    using core_member [OF r(5) [symmetric] r(7)] by metis
  obtain r' where r': "r' \<in> set (rw_rows w')" "rc_id r' = rc_id r" "rc_app r' = rc_app r" "rc_emailHash r' = rc_emailHash r"
      "map core (rc_candidates r') = map core (rc_candidates r) \<or> (\<forall>c\<in>set (rc_candidates r). cd_token c = [])"
    using assms(2) r(1) unfolding rowsEvolve_def by metis
  have "map core (rc_candidates r') = map core (rc_candidates row)"
    using r'(5) r(5,6) c' core_eqD by metis
  then show ?thesis unfolding snapGood_def using r r' found by metis
qed

lemma verifyGood_evolve:
  "verifyGood w app body row cand \<Longrightarrow> evolves i X w w' \<Longrightarrow> verifyGood w' app body row cand"
  unfolding verifyGood_def evolves_def using snapGood_evolve otpIssued_mono by metis

lemma startGood_evolve:
  "startGood S w app row cand email \<Longrightarrow> evolves i X w w' \<Longrightarrow> startGood S w' app row cand email"
  unfolding startGood_def evolves_def using snapGood_evolve by metis

lemma newCandidates_past: "rw_past w' = rw_past w \<Longrightarrow> newCandidates S w' app h cs = newCandidates S w app h cs"
  by (simp add: newCandidates_def)

lemma stageGood_evolve:
  assumes "stageGood S w j app st" "evolves i X w w'" "j \<noteq> i" "\<forall>x. fillId st = Some x \<longrightarrow> x \<notin> X"
  shows "stageGood S w' j app st"
proof (cases "(S, w, j, app, st)" rule: stageGood.cases)
  case (3 S' w0 j' app' email row failures)
  have p: "rw_past w' = rw_past w" and e: "rowsEvolve X (rw_rows w) (rw_rows w')" using assms(2) by (simp_all add: evolves_def)
  obtain r where r: "r \<in> set (rw_rows w)" "rc_id r = rc_id row" "rc_app r = app" "rc_emailHash r = rc_emailHash row" "rc_candidates r = rc_candidates row"
    using assms(1) 3 by auto
  have "rc_id row \<notin> X" using assms(4) 3 by (simp add: fillId_def)
  then obtain r' where "r' \<in> set (rw_rows w')" "rc_id r' = rc_id row" "rc_app r' = app" "rc_emailHash r' = rc_emailHash row" "rc_candidates r' = rc_candidates row"
    using e r unfolding rowsEvolve_def by metis
  then show ?thesis using 3 assms(1) newCandidates_past [OF p] by auto
qed (use assms verifyGood_evolve [OF _ assms(2)] startGood_evolve [OF _ assms(2)] in
  \<open>auto simp: evolves_def newCandidates_def otpIssued_def\<close>)

subsection \<open>Every step keeps it\<close>

definition stepGood :: "recovery_setup \<Rightarrow> nat \<Rightarrow> recovery_call \<Rightarrow> recovery_world \<Rightarrow> recovery_call \<times> recovery_world \<Rightarrow> bool" where
  "stepGood S i c w cw \<longleftrightarrow> rk_app (fst cw) = rk_app c \<and> worldGood S (snd cw) \<and> stageGood S (snd cw) i (rk_app c) (rk_stage (fst cw))
     \<and> (\<exists>X. evolves i X w (snd cw) \<and> (\<forall>j d y. j \<noteq> i \<longrightarrow> rw_calls w j = Some d \<longrightarrow> fillId (rk_stage d) = Some y \<longrightarrow> y \<notin> X))
     \<and> (\<forall>y. fillId (rk_stage (fst cw)) = Some y \<longrightarrow> fillId (rk_stage c) = Some y \<or> y \<notin> rc_id ` set (rw_rows w))"

lemma rk_simps [simp]:
  "rk_app (rGoTo st c) = rk_app c" "rk_stage (rGoTo st c) = st"
  "rk_app (rFinish r c) = rk_app c" "rk_stage (rFinish r c) = Done" "rk_app (rThrew c) = rk_app c" "rk_stage (rThrew c) = Done"
  by (simp_all add: rGoTo_def rFinish_def rThrew_def)

lemma stageGood_refused [simp]:
  "stageGood S w i app (refused n code m)" "status \<noteq> ChPending \<Longrightarrow> stageGood S w i app (marked rid status n code m)"
  "stageGood S w i app (startFailed row cand e)" "stageGood S w i app (verifyFailed row cand e)"
  by (simp_all add: refused_def marked_def startFailed_def verifyFailed_def)

lemma fillId_simps [simp]:
  "fillId (refused n code m) = None" "fillId (marked rid status n code m) = None" "fillId Done = None"
  "fillId (startFailed row cand e) = None" "fillId (verifyFailed row cand e) = None" "fillId (Closing cl) = None"
  "fillId (InitFill email row f) = Some (rc_id row)" "fillId (InitCount email) = None" "fillId (InitUsers email expires) = None"
  "fillId (InitWallets email expires us cs) = None" "fillId (InitInsert email cs fs) = None" "fillId (StartLoad rid token email) = None"
  "fillId (StartSend row cand email) = None" "fillId (StartSave row cand email otp act) = None" "fillId (VerifyLoad body) = None"
  "fillId (VerifyCount body row cand) = None" "fillId (VerifyReread body row cand) = None" "fillId (VerifyAuth body row cand) = None"
  "fillId (VerifyUser body row cand a) = None" "fillId (VerifyConsume body row cand a) = None"
  by (simp_all add: fillId_def refused_def marked_def startFailed_def verifyFailed_def)

text \<open>Steps that leave the world alone.\<close>

lemma stepGood_stay:
  assumes "worldGood S w" "stageGood S w i (rk_app c) (rk_stage c')" "rk_app c' = rk_app c" "fillId (rk_stage c') = None \<or> c' = c"
  shows "stepGood S i c w (c', w)"
  using assms evolves_refl [of i "{}" w] by (auto simp: stepGood_def)

lemma stepGood_ran:
  assumes "worldGood S w" "stageGood S w i (rk_app c) (rk_stage c)" "stepGood S i c w following"
    "\<And>e. stageGood S w i (rk_app c) (rk_stage (caught e)) \<and> rk_app (caught e) = rk_app c \<and> fillId (rk_stage (caught e)) = None"
  shows "stepGood S i c w (ranStep ans c w caught following)"
  using assms stepGood_stay [OF assms(1,2)] stepGood_stay [OF assms(1)] by (auto simp: ranStep_def split: ranswer.split)

text \<open>Steps that change the rows.\<close>

lemma worldGood_rows:
  assumes "worldGood S w" "map rc_id rows' = map rc_id (rw_rows w)" "rowsEvolve X (rw_rows w) rows'" "\<forall>row\<in>set rows'. rowGood S w row"
  shows "worldGood S (w \<lparr> rw_rows := rows', rw_audit := audit \<rparr>)"
proof -
  have "rc_id ` set rows' = rc_id ` set (rw_rows w)" using assms(2) by (metis list.set_map)
  then show ?thesis
    using assms unfolding worldGood_def by (auto simp: rowGood_def intro: bound_evolve)
qed

lemma ids_update: "\<forall>r. rc_id (f r) = rc_id r \<Longrightarrow> map rc_id (updateChallenge p f rows) = map rc_id rows"
  by (simp add: updateChallenge_def)

lemma evolve_update:
  assumes "\<And>r. r \<in> set rows \<Longrightarrow> p r \<Longrightarrow> rc_id (f r) = rc_id r \<and> rc_app (f r) = rc_app r \<and> rc_emailHash (f r) = rc_emailHash r
    \<and> (rc_id r \<notin> X \<longrightarrow> rc_candidates (f r) = rc_candidates r)
    \<and> (map core (rc_candidates (f r)) = map core (rc_candidates r) \<or> (\<forall>c\<in>set (rc_candidates r). cd_token c = []))
    \<and> (rc_status r \<noteq> ChPending \<longrightarrow> rc_status (f r) \<noteq> ChPending \<and> rc_attempts (f r) = rc_attempts r)"
  shows "rowsEvolve X rows (updateChallenge p f rows)"
  unfolding rowsEvolve_def
proof
  fix r assume r: "r \<in> set rows"
  have "(if p r then f r else r) \<in> set (updateChallenge p f rows)" using r by (simp add: updateChallenge_def)
  then show "\<exists>r'\<in>set (updateChallenge p f rows). rc_id r' = rc_id r \<and> rc_app r' = rc_app r \<and> rc_emailHash r' = rc_emailHash r
      \<and> (rc_id r \<notin> X \<longrightarrow> rc_candidates r' = rc_candidates r)
      \<and> (map core (rc_candidates r') = map core (rc_candidates r) \<or> (\<forall>c\<in>set (rc_candidates r). cd_token c = []))
      \<and> (rc_status r \<noteq> ChPending \<longrightarrow> rc_status r' \<noteq> ChPending \<and> rc_attempts r' = rc_attempts r)"
    using assms [OF r] by (intro bexI [of _ "if p r then f r else r"]) auto
qed

lemma worldGood_D:
  assumes "worldGood S w"
  shows "distinct (map rc_id (rw_rows w))" "snd ` set (rw_counted w) \<subseteq> rc_id ` set (rw_rows w)" "distinct (map fst (rw_counted w))"
    "distinct (map oa_call (rw_auths w))" "rw_dir w \<in> set (rw_past w)"
    "\<forall>a\<in>set (rw_auths w). (oa_call a, oa_challenge a) \<in> set (rw_counted w)
       \<and> otpIssued (rw_issued w) (oa_challenge a) (oa_token a) (oa_organization a) (oa_otpId a)"
    "\<forall>s\<in>set (rw_issued w). bound S (rw_rows w) (oi_challenge s) (oi_contact s) (oi_token s) (oi_organization s) None"
    "\<forall>s\<in>set (rw_sent w). bound S (rw_rows w) (os_challenge s) (os_contact s) (os_token s) (os_organization s) (Some (os_rootUser s))"
  using assms unfolding worldGood_def by blast+

lemma worldGood_row: "worldGood S w \<Longrightarrow> row \<in> set (rw_rows w) \<Longrightarrow> rowGood S w row"
  by (simp add: worldGood_def)

lemma rowGood_same [simp]: "rowGood S w (r \<lparr> rc_status := status, rc_consumed := t \<rparr>) = rowGood S w r"
  by (simp add: rowGood_def)

lemma stepGood_rows:
  assumes "worldGood S w" "map rc_id rows' = map rc_id (rw_rows w)" "rowsEvolve X (rw_rows w) rows'" "\<forall>row\<in>set rows'. rowGood S w row"
    "\<forall>j d y. j \<noteq> i \<longrightarrow> rw_calls w j = Some d \<longrightarrow> fillId (rk_stage d) = Some y \<longrightarrow> y \<notin> X"
  shows "stepGood S i c w (rFinish r c, w \<lparr> rw_rows := rows', rw_audit := audit \<rparr>)"
  using assms worldGood_rows [OF assms(1-4), of audit] by (auto simp: stepGood_def evolves_def)

lemma mark_good:
  assumes "worldGood S w" "status \<noteq> ChPending"
  shows "stepGood S i c w (rFinish r c, w \<lparr> rw_rows := markRecoveryChallengeStatus now rid status (rw_rows w), rw_audit := audit \<rparr>)"
proof (rule stepGood_rows [OF assms(1), of _ "{}"])
  show "map rc_id (markRecoveryChallengeStatus now rid status (rw_rows w)) = map rc_id (rw_rows w)"
    by (simp add: markRecoveryChallengeStatus_def ids_update)
  show "rowsEvolve {} (rw_rows w) (markRecoveryChallengeStatus now rid status (rw_rows w))"
    unfolding markRecoveryChallengeStatus_def by (rule evolve_update) (use assms(2) in simp)
  show "\<forall>row\<in>set (markRecoveryChallengeStatus now rid status (rw_rows w)). rowGood S w row"
    using worldGood_row [OF assms(1)]
    by (auto simp: markRecoveryChallengeStatus_def updateChallenge_def)
qed simp

lemma close_good:
  assumes "worldGood S w" "stageGood S w i (rk_app c) (Closing cl)"
  shows "stepGood S i c w (closeStep S dr c cl w)"
proof (cases "recoveryAudit S dr (rk_app c) None (cl_note cl) (rw_audit w)")
  case None
  then show ?thesis using assms stepGood_stay by (simp add: closeStep_def)
next
  case (Some audit)
  show ?thesis
  proof (cases "cl_mark cl")
    case None
    show ?thesis
      using stepGood_rows [OF assms(1) refl rowsEvolve_refl, where X = "{}" and i = i and c = c and r = "cl_reply cl (he_now (su_env dr))" and audit = audit] worldGood_row [OF assms(1)]
      by (simp add: closeStep_def Some None Let_def)
  next
    case m: (Some m)
    then have "snd m \<noteq> ChPending" using assms(2) by (cases m) simp
    then show ?thesis using mark_good [OF assms(1)] by (cases m) (simp add: closeStep_def Some m Let_def)
  qed
qed

lemma find_row:
  assumes "getRecoveryChallenge app rid rows = Some r"
  shows "r \<in> set rows \<and> rc_id r = rid \<and> rc_app r = app"
  using assms by (auto simp: getRecoveryChallenge_def find_Some_iff)

lemma find_member: "List.find p xs = Some x \<Longrightarrow> x \<in> set xs \<and> p x"
  by (auto simp: find_Some_iff)

lemma snapGood_read:
  assumes "getRecoveryChallenge app rid (rw_rows w) = Some row" "List.find (\<lambda>c. cd_token c = t) (rc_candidates row) = Some cand" "t \<noteq> []"
  shows "snapGood w app row cand \<and> cd_token cand = t"
  using find_row [OF assms(1)] find_member [OF assms(2)] assms(2,3) unfolding snapGood_def by blast

lemma same_row:
  "worldGood S w \<Longrightarrow> r \<in> set (rw_rows w) \<Longrightarrow> r' \<in> set (rw_rows w) \<Longrightarrow> rc_id r = rc_id r' \<Longrightarrow> r = r'"
  by (auto simp: worldGood_def distinct_map dest: inj_onD)

lemma read_row:
  assumes "worldGood S w" "r \<in> set (rw_rows w)"
  shows "getRecoveryChallenge (rc_app r) (rc_id r) (rw_rows w) = Some r"
proof -
  have "getRecoveryChallenge (rc_app r) (rc_id r) (rw_rows w) \<noteq> None" using assms(2) by (auto simp: getRecoveryChallenge_def find_None_iff)
  then show ?thesis using find_row same_row [OF assms(1) _ assms(2)] by (metis not_None_eq)
qed

text \<open>\<open>init\<close>\<close>

lemma ownedBy_source:
  assumes "sourceCandidate S u r = Some c" "emailUser S past app hash (ru_id u)" "d \<in> set past"
    "r \<in> set (listTurnkeyResourcesForUserForApp app (ru_id u) d)"
  shows "ownedBy S past app hash c \<and> cd_token c = [] \<and> cd_otpId c = None"
proof -
  have c: "rr_organization r \<noteq> rv_rootOrg S" "rr_method r \<noteq> Some ''oauth''" "cd_resource c = rr_id r" "cd_user c = ru_id u"
      "cd_organization c = rr_organization r" "cd_rootUser c = rr_rootUser r" "cd_token c = []" "cd_otpId c = None"
    using assms(1) by (auto simp: sourceCandidate_def split: if_splits)
  have "r \<in> set (dr_wallets d)" "rr_app r = app" "rr_user r = Some (ru_id u)"
    using assms(4) by (auto simp: listTurnkeyResourcesForUserForApp_def)
  then show ?thesis using c assms(2,3) unfolding ownedBy_def walletOf_def by auto
qed

lemma newCandidates_append:
  "newCandidates S w app h (xs @ ys) \<longleftrightarrow> newCandidates S w app h xs \<and> newCandidates S w app h ys"
  by (auto simp: newCandidates_def)

lemma newCandidates_sources:
  assumes "worldGood S w" "emailUser S (rw_past w) app h (ru_id u)"
  shows "newCandidates S w app h (List.map_filter (sourceCandidate S u) (listTurnkeyResourcesForUserForApp app (ru_id u) (rw_dir w)))"
proof -
  have d: "rw_dir w \<in> set (rw_past w)" using assms(1) by (simp add: worldGood_def)
  show ?thesis unfolding newCandidates_def List.map_filter_def
    using ownedBy_source [OF _ assms(2) d] by auto
qed

lemma found_users:
  assumes "worldGood S w" "u \<in> set (findUsersByRecoveryEmail app email (rw_dir w))"
  shows "emailUser S (rw_past w) app (hashEmailForRateLimit (rv_sha256 S) email) (ru_id u)"
proof -
  have "u \<in> set (dr_users (rw_dir w))" "ru_app u = app" "map_option js_lower (ru_email u) = Some (js_lower (js_trim email))"
    using assms(2) by (auto simp: findUsersByRecoveryEmail_def Let_def split: if_splits)
  moreover have "rw_dir w \<in> set (rw_past w)" using assms(1) by (simp add: worldGood_def)
  ultimately show ?thesis unfolding emailUser_def hashEmailForRateLimit_def by fastforce
qed

lemma afterSources_good:
  "newCandidates S w app (hashEmailForRateLimit (rv_sha256 S) email) sources \<Longrightarrow>
     stageGood S w i app (afterSources S email expires sources) \<and> fillId (afterSources S email expires sources) = None"
  by (auto simp: afterSources_def Let_def newCandidates_def)

lemma nextUser_good:
  assumes "\<forall>u\<in>set us. emailUser S (rw_past w) app (hashEmailForRateLimit (rv_sha256 S) email) (ru_id u)"
    "newCandidates S w app (hashEmailForRateLimit (rv_sha256 S) email) sources"
  shows "stageGood S w i app (nextUser S email expires us sources) \<and> fillId (nextUser S email expires us sources) = None"
  using assms afterSources_good [OF assms(2)] by (auto simp: nextUser_def)

lemma filter_counted_empty:
  "worldGood S w \<Longrightarrow> rid \<notin> rc_id ` set (rw_rows w) \<Longrightarrow> filter (\<lambda>x. snd x = rid) (rw_counted w) = []"
  by (auto simp: worldGood_def filter_empty_conv)

lemma insert_good:
  assumes w: "worldGood S w" and new: "newCandidates S w (rk_app c) (hashEmailForRateLimit (rv_sha256 S) email) candidates"
    and ins: "insertRecoveryChallenge now rid (rk_app c) (hashEmailForRateLimit (rv_sha256 S) email) candidates ttl (rw_rows w) = Some (row, rows)"
  shows "stepGood S i c w (rGoTo (InitFill email row failures) c, w \<lparr> rw_rows := rows \<rparr>)"
proof -
  have f: "rid \<notin> rc_id ` set (rw_rows w)" "rows = rw_rows w @ [row]" "rc_id row = rid" "rc_app row = rk_app c"
      "rc_emailHash row = hashEmailForRateLimit (rv_sha256 S) email" "rc_candidates row = candidates" "rc_attempts row = 0"
    using ins by (auto simp: insertRecoveryChallenge_def Let_def split: if_splits)
  have evolve: "rowsEvolve {} (rw_rows w) rows" by (auto simp: rowsEvolve_def f(2))
  have good: "rowGood S w row"
    using new filter_counted_empty [OF w f(1)] by (auto simp: rowGood_def f newCandidates_def VERIFY_MAX_ATTEMPTS_def)
  have "worldGood S (w \<lparr> rw_rows := rows \<rparr>)"
    using w good f(1) unfolding worldGood_def by (auto simp: rowGood_def f(2,3) intro: bound_evolve [OF _ evolve, unfolded f(2)])
  then show ?thesis
    using evolve new f unfolding stepGood_def
    by (auto simp: evolves_def newCandidates_def intro!: exI [of _ "{}"])
qed

text \<open>The tokens are filled in once.\<close>

lemma fill_good:
  assumes w: "worldGood S w" and st: "stageGood S w i (rk_app c) (InitFill email row failures)"
    and others: "\<forall>j d. j \<noteq> i \<longrightarrow> rw_calls w j = Some d \<longrightarrow> fillId (rk_stage d) \<noteq> Some (rc_id row)"
  shows "stepGood S i c w (initFillStep S dr c email row failures w)"
proof -
  obtain r where r: "r \<in> set (rw_rows w)" "rc_id r = rc_id row" "rc_app r = rk_app c" "rc_emailHash r = rc_emailHash row"
      "rc_candidates r = rc_candidates row" and new: "newCandidates S w (rk_app c) (rc_emailHash row) (rc_candidates row)"
    using st by auto
  let ?rows = "updateRecoveryChallengeCandidates (rc_id row) (fillTokens S row) (rw_rows w)"
  have ids: "map rc_id ?rows = map rc_id (rw_rows w)" by (simp add: updateRecoveryChallengeCandidates_def ids_update)
  have evolve: "rowsEvolve {rc_id row} (rw_rows w) ?rows"
    unfolding updateRecoveryChallengeCandidates_def
    by (rule evolve_update) (use same_row [OF w _ r(1)] r(2,5) new in \<open>auto simp: newCandidates_def\<close>)
  have good: "\<forall>x\<in>set ?rows. rowGood S w x"
  proof
    fix x assume "x \<in> set ?rows"
    then obtain y where y: "y \<in> set (rw_rows w)" "x = (if rc_id y = rc_id row then y \<lparr> rc_candidates := fillTokens S row \<rparr> else y)"
      by (auto simp: updateRecoveryChallengeCandidates_def updateChallenge_def)
    have yg: "rowGood S w y" by (rule worldGood_row [OF w y(1)])
    show "rowGood S w x"
    proof (cases "rc_id y = rc_id row")
      case True
      then have "y = r" using same_row [OF w y(1) r(1)] r(2) by simp
      then show ?thesis
        using yg y(2) True new r(3,4)
        by (auto simp: rowGood_def fillTokens_def newCandidates_def ownedBy_def walletOf_def)
    qed (use y yg in simp)
  qed
  have "stepGood S i c w (rFinish a c, w \<lparr> rw_rows := ?rows, rw_audit := audit \<rparr>)" for a audit
    by (rule stepGood_rows [OF w ids evolve good]) (use others in blast)
  then show ?thesis using stepGood_stay [OF w] by (simp add: initFillStep_def Let_def split: option.split)
qed

text \<open>\<open>start\<close>\<close>

lemma startChecks_facts:
  assumes "startChecks S now rid token email found = Inr (row, cand)"
  shows "found = Some row \<and> hashEmailForRateLimit (rv_sha256 S) email = rc_emailHash row
    \<and> List.find (\<lambda>c. cd_token c = token) (rc_candidates row) = Some cand \<and> given (cd_rootUser cand)
    \<and> rc_status row = ChPending \<and> \<not> rc_expires row < now"
  using assms
  by (auto simp: startChecks_def classifyRecoveryChallengeAvailability_def Let_def split: option.splits if_splits)

lemma startChecks_refused:
  assumes "startChecks S now rid token email found = Inl (Inr st)"
  shows "stageGood S w i app st \<and> fillId st = None"
  using assms by (auto simp: startChecks_def Let_def split: option.splits if_splits availability.splits)

lemma snap_candidate:
  assumes "snapGood w app row cand"
  shows "\<exists>r\<in>set (rw_rows w). rc_id r = rc_id row \<and> rc_app r = app \<and> rc_emailHash r = rc_emailHash row
    \<and> map core (rc_candidates r) = map core (rc_candidates row) \<and> (\<exists>c\<in>set (rc_candidates r). core c = core cand)"
proof -
  obtain r where r: "r \<in> set (rw_rows w)" "rc_id r = rc_id row" "rc_app r = app" "rc_emailHash r = rc_emailHash row"
      "map core (rc_candidates r) = map core (rc_candidates row)" "cand \<in> set (rc_candidates row)"
    using assms by (auto simp: snapGood_def)
  then show ?thesis using core_member [OF r(5) [symmetric] r(6)] by metis
qed

lemma startGood_bound:
  assumes "startGood S w app row cand email" "root = None \<or> root = cd_rootUser cand"
  shows "bound S (rw_rows w) (rc_id row) email (cd_token cand) (cd_organization cand) root"
proof -
  obtain r c where r: "r \<in> set (rw_rows w)" "rc_id r = rc_id row" "rc_emailHash r = rc_emailHash row"
      "c \<in> set (rc_candidates r)" "core c = core cand"
    using snap_candidate [of w app row cand] assms unfolding startGood_def by metis
  moreover have "cd_token cand \<noteq> []" "hashEmailForRateLimit (rv_sha256 S) email = rc_emailHash row"
    using assms by (simp_all add: startGood_def snapGood_def)
  ultimately show ?thesis using assms(2) core_eqD [OF r(5)] unfolding bound_def by metis
qed

lemma startLoad_good:
  assumes w: "worldGood S w" and t: "token \<noteq> []"
  shows "stepGood S i c w (startLoadStep S dr c rid token email w)"
proof (cases "startChecks S (he_now (su_env dr)) rid token email (getRecoveryChallenge (rk_app c) rid (rw_rows w))")
  case (Inl v)
  then show ?thesis
    using stepGood_stay [OF w] startChecks_refused by (cases v) (simp_all add: startLoadStep_def)
next
  case (Inr rc)
  obtain row cand where rc: "rc = (row, cand)" by (cases rc)
  then have f: "getRecoveryChallenge (rk_app c) rid (rw_rows w) = Some row" "hashEmailForRateLimit (rv_sha256 S) email = rc_emailHash row"
      "List.find (\<lambda>c. cd_token c = token) (rc_candidates row) = Some cand" "given (cd_rootUser cand)"
    using startChecks_facts [of S _ rid token email _ row cand] Inr by auto
  have snap: "startGood S w (rk_app c) row cand email"
    unfolding startGood_def using snapGood_read [OF f(1,3) t] f(2) by simp
  have root: "Some (the (cd_rootUser cand)) = cd_rootUser cand" using f(4) by (auto simp: given_def)
  have b: "bound S (rw_rows w) (rc_id row) email (cd_token cand) (cd_organization cand) (Some (the (cd_rootUser cand)))"
    by (rule startGood_bound [OF snap]) (simp add: root)
  show ?thesis
  proof (cases "buildOtpEmailCustomization S")
    case (Inl e)
    then show ?thesis using Inr rc stepGood_stay [OF w] by (simp add: startLoadStep_def)
  next
    case r: (Inr custom)
    let ?w = "w \<lparr> rw_sent := rw_sent w @ [\<lparr> os_challenge = rc_id row, os_token = cd_token cand, os_organization = cd_organization cand,
        os_rootUser = the (cd_rootUser cand), os_contact = email, os_identifier = otpUserIdentifier (rv_sha256 S) (rk_app c) email \<rparr>] \<rparr>"
    have "worldGood S ?w" using w b unfolding worldGood_def by (auto simp: rowGood_def)
    moreover have "evolves i {} w ?w" by (auto simp: evolves_def)
    moreover have "startGood S ?w (rk_app c) row cand email" using snap by (simp add: startGood_def snapGood_def)
    ultimately show ?thesis using Inr rc r by (auto simp: startLoadStep_def stepGood_def)
  qed
qed

lemma send_good:
  assumes w: "worldGood S w" and st: "startGood S w (rk_app c) row cand email"
  shows "stepGood S i c w (rGoTo (StartSave row cand email otpId activity) c,
     w \<lparr> rw_issued := rw_issued w @ [\<lparr> oi_challenge = rc_id row, oi_token = cd_token cand, oi_organization = cd_organization cand,
        oi_contact = email, oi_otpId = otpId \<rparr>] \<rparr>)" (is "stepGood S i c w (?c, ?w)")
proof -
  have mono: "otpIssued (rw_issued w) rid t g v \<Longrightarrow> otpIssued (rw_issued ?w) rid t g v" for rid t g v
    by (auto simp: otpIssued_def)
  have b: "bound S (rw_rows w) (rc_id row) email (cd_token cand) (cd_organization cand) None"
    by (rule startGood_bound [OF st]) simp
  have "\<forall>r\<in>set (rw_rows w). rowGood S ?w r"
    using w mono by (auto simp: worldGood_def rowGood_def)
  then have "worldGood S ?w" using w b mono unfolding worldGood_def by auto
  moreover have "evolves i {} w ?w" by (auto simp: evolves_def)
  moreover have "otpIssued (rw_issued ?w) (rc_id row) (cd_token cand) (cd_organization cand) otpId" by (auto simp: otpIssued_def)
  moreover have "startGood S ?w (rk_app c) row cand email" using st by (simp add: startGood_def snapGood_def)
  ultimately show ?thesis by (auto simp: stepGood_def)
qed

lemma core_recordOtpStart [simp]: "core (recordOtpStart now v c) = core c"
  by (simp add: core_def recordOtpStart_def)

lemma updateFirst_core:
  assumes "List.find p xs = Some b" "core y = core b"
  shows "map core (updateFirst p y xs) = map core xs"
  using assms by (induction xs) auto

lemma updateFirst_none: "List.find p xs = None \<Longrightarrow> updateFirst p y xs = xs"
  by (induction xs) (auto split: if_splits)

lemma set_updateFirst: "x \<in> set (updateFirst p y xs) \<Longrightarrow> x = y \<or> x \<in> set xs"
  by (induction xs) (auto split: if_splits)

text \<open>In the row as it is now, the token names the same wallet.\<close>

lemma find_core:
  assumes "map core xs = map core ys" "List.find (\<lambda>c. cd_token c = t) ys = Some b"
  shows "\<exists>a. List.find (\<lambda>c. cd_token c = t) xs = Some a \<and> core a = core b"
  using assms
proof (induction ys arbitrary: xs)
  case (Cons y ys)
  then obtain x xs' where xs: "xs = x # xs'" "core x = core y" "map core xs' = map core ys" by (cases xs) auto
  have "cd_token x = cd_token y" using core_eqD [OF xs(2)] by simp
  then show ?case using Cons.IH [OF xs(3)] Cons.prems(2) xs by (auto split: if_splits)
qed simp

lemma snap_now:
  assumes w: "worldGood S w" and snap: "snapGood w app row cand"
  shows "\<exists>r a. getRecoveryChallenge app (rc_id row) (rw_rows w) = Some r \<and> r \<in> set (rw_rows w) \<and> rc_id r = rc_id row
    \<and> List.find (\<lambda>c. cd_token c = cd_token cand) (rc_candidates r) = Some a \<and> core a = core cand"
proof -
  obtain r where r: "r \<in> set (rw_rows w)" "rc_id r = rc_id row" "rc_app r = app"
      "map core (rc_candidates r) = map core (rc_candidates row)"
      "List.find (\<lambda>c. cd_token c = cd_token cand) (rc_candidates row) = Some cand"
    using snap by (auto simp: snapGood_def)
  then show ?thesis using read_row [OF w r(1)] find_core [OF r(4,5)] by metis
qed

lemma ownedBy_core: "core c = core c' \<Longrightarrow> ownedBy S past app h c = ownedBy S past app h c'"
  by (simp add: core_def ownedBy_def walletOf_def)

lemma save_good:
  assumes w: "worldGood S w" and st: "stageGood S w i (rk_app c) (StartSave row cand email otpId activity)"
    and others: "\<forall>j d. j \<noteq> i \<longrightarrow> rw_calls w j = Some d \<longrightarrow> stageGood S w j (rk_app d) (rk_stage d)"
  shows "stepGood S i c w (startSaveStep S dr c row cand email otpId activity w)"
proof -
  have snap: "snapGood w (rk_app c) row cand" and issued: "otpIssued (rw_issued w) (rc_id row) (cd_token cand) (cd_organization cand) otpId"
    using st by (auto simp: startGood_def)
  obtain r a where r: "getRecoveryChallenge (rk_app c) (rc_id row) (rw_rows w) = Some r" "r \<in> set (rw_rows w)" "rc_id r = rc_id row"
      "List.find (\<lambda>c. cd_token c = cd_token cand) (rc_candidates r) = Some a" "core a = core cand"
    using snap_now [OF w snap] by blast
  let ?next = "recordOtpStart (he_now (su_env dr)) otpId a"
  let ?cs = "updateFirst (\<lambda>c. cd_token c = cd_token cand) ?next (rc_candidates r)"
  let ?rows = "updateRecoveryChallengeCandidates (rc_id row) ?cs (rw_rows w)"
  have cs: "map core ?cs = map core (rc_candidates r)" by (rule updateFirst_core [OF r(4)]) simp
  have ids: "map rc_id ?rows = map rc_id (rw_rows w)" by (simp add: updateRecoveryChallengeCandidates_def ids_update)
  have evolve: "rowsEvolve {rc_id row} (rw_rows w) ?rows"
    unfolding updateRecoveryChallengeCandidates_def
    by (rule evolve_update) (use same_row [OF w _ r(2)] r(3) cs in auto)
  have good: "\<forall>x\<in>set ?rows. rowGood S w x"
  proof
    fix x assume "x \<in> set ?rows"
    then obtain y where y: "y \<in> set (rw_rows w)" "x = (if rc_id y = rc_id row then y \<lparr> rc_candidates := ?cs \<rparr> else y)"
      by (auto simp: updateRecoveryChallengeCandidates_def updateChallenge_def)
    have yg: "rowGood S w y" by (rule worldGood_row [OF w y(1)])
    show "rowGood S w x"
    proof (cases "rc_id y = rc_id row")
      case True
      then have yr: "y = r" using same_row [OF w y(1) r(2)] r(3) by simp
      have a: "a \<in> set (rc_candidates r)" using find_member [OF r(4)] by simp
      have "ownedBy S (rw_past w) (rc_app y) (rc_emailHash y) d
          \<and> (\<forall>v. cd_otpId d = Some v \<longrightarrow> otpIssued (rw_issued w) (rc_id y) (cd_token d) (cd_organization d) v)"
        if d: "d \<in> set ?cs" for d
      proof (cases "d \<in> set (rc_candidates y)")
        case False
        then have "d = ?next" using set_updateFirst [OF d] yr by blast
        then show ?thesis
          using yg a yr issued core_eqD [OF r(5)] ownedBy_core [of ?next a] r(3)
          by (simp add: rowGood_def) (simp add: recordOtpStart_def)
      qed (use yg in \<open>simp add: rowGood_def\<close>)
      then show ?thesis using yg y(2) True by (simp add: rowGood_def)
    qed (use y yg in simp)
  qed
  have fills: "y \<notin> {rc_id row}" if j: "j \<noteq> i" "rw_calls w j = Some d" "fillId (rk_stage d) = Some y" for j d y
  proof
    assume y: "y \<in> {rc_id row}"
    obtain e row' f where e: "rk_stage d = InitFill e row' f" "rc_id row' = y" using j(3) by (cases "rk_stage d") auto
    then obtain r' where r': "r' \<in> set (rw_rows w)" "rc_id r' = rc_id row'" "rc_candidates r' = rc_candidates row'"
        "newCandidates S w (rk_app d) (rc_emailHash row') (rc_candidates row')"
      using others j by fastforce
    have "r' = r" using same_row [OF w r'(1) r(2)] r'(2) r(3) e(2) y by simp
    then have "cd_token a = []" using r'(3,4) find_member [OF r(4)] by (auto simp: newCandidates_def)
    then show False using core_eqD [OF r(5)] snap by (simp add: snapGood_def)
  qed
  have "stepGood S i c w (rFinish v c, w \<lparr> rw_rows := ?rows, rw_audit := audit \<rparr>)" for v audit
    by (rule stepGood_rows [OF w ids evolve good]) (use fills in blast)
  then show ?thesis using stepGood_stay [OF w] by (simp add: startSaveStep_def Let_def r(1,4) split: option.split)
qed

text \<open>\<open>verify\<close>\<close>

lemma verifyChecks_facts:
  assumes "verifyChecks now body found = Inr (row, cand)"
  shows "found = Some row \<and> List.find (\<lambda>c. cd_token c = vb_token body) (rc_candidates row) = Some cand \<and> given (cd_otpId cand)
    \<and> rc_status row = ChPending \<and> \<not> rc_expires row < now"
  using assms
  by (auto simp: verifyChecks_def classifyRecoveryChallengeAvailability_def Let_def split: option.splits if_splits)

lemma verifyChecks_refused:
  assumes "verifyChecks now body found = Inl st"
  shows "stageGood S w i app st \<and> fillId st = None"
  using assms by (auto simp: verifyChecks_def Let_def split: option.splits if_splits availability.splits)

lemma verifyLoad_good:
  assumes w: "worldGood S w" and st: "stageGood S w i (rk_app c) (VerifyLoad body)"
  shows "stepGood S i c w (verifyLoadStep dr c body w)"
proof (cases "verifyChecks (he_now (su_env dr)) body (getRecoveryChallenge (rk_app c) (vb_challenge body) (rw_rows w))")
  case (Inl v)
  then show ?thesis using stepGood_stay [OF w] verifyChecks_refused by (simp add: verifyLoadStep_def)
next
  case (Inr rc)
  obtain row cand where rc: "rc = (row, cand)" by (cases rc)
  have t: "vb_token body \<noteq> []" "i \<notin> fst ` set (rw_counted w)" using st by simp_all
  have f: "getRecoveryChallenge (rk_app c) (vb_challenge body) (rw_rows w) = Some row"
      "List.find (\<lambda>c. cd_token c = vb_token body) (rc_candidates row) = Some cand" "given (cd_otpId cand)"
    using verifyChecks_facts Inr rc by fastforce+
  have snap: "snapGood w (rk_app c) row cand" "cd_token cand = vb_token body" using snapGood_read [OF f(1,2) t(1)] by simp_all
  obtain v where v: "cd_otpId cand = Some v" using f(3) by (auto simp: given_def)
  have "rowGood S w row" using worldGood_row [OF w] find_row [OF f(1)] by blast
  then have "otpIssued (rw_issued w) (rc_id row) (cd_token cand) (cd_organization cand) v"
    using find_member [OF f(2)] v unfolding rowGood_def by blast
  then have "verifyGood w (rk_app c) body row cand" using snap v by (simp add: verifyGood_def)
  then show ?thesis using Inr rc t stepGood_stay [OF w] by (simp add: verifyLoadStep_def)
qed

lemma count_good:
  assumes w: "worldGood S w" and st: "stageGood S w i (rk_app c) (VerifyCount body row cand)"
  shows "stepGood S i c w (verifyCountStep S i dr c body row cand w)"
proof (cases "incrementRecoveryAttemptIfUnderCap (rc_id row) (rk_app c) VERIFY_MAX_ATTEMPTS (rw_rows w)")
  case None
  then show ?thesis using stepGood_stay [OF w] by (simp add: verifyCountStep_def)
next
  case (Some v)
  let ?p = "\<lambda>r. rc_id r = rc_id row \<and> rc_app r = rk_app c \<and> rc_status r = ChPending \<and> rc_attempts r < VERIFY_MAX_ATTEMPTS"
  let ?f = "\<lambda>r. r \<lparr> rc_attempts := rc_attempts r + 1 \<rparr>"
  let ?rows = "updateChallenge ?p ?f (rw_rows w)"
  obtain r where r: "List.find ?p (rw_rows w) = Some r" and v: "v = (?f r, ?rows)"
    using Some by (auto simp: incrementRecoveryAttemptIfUnderCap_def Let_def)
  have vg: "verifyGood w (rk_app c) body row cand" and i: "i \<notin> fst ` set (rw_counted w)" using st by simp_all
  have rm: "r \<in> set (rw_rows w)" "?p r" using find_member [OF r] by simp_all
  show ?thesis
  proof (cases "recoveryAudit S dr (rk_app c) None (verifyNote (Some (cd_user cand)) (rc_id row)
               [(''candidateResourceId'', JStr (cd_resource cand)), (''attempt'', JNum (rc_attempts (?f r))),
                (''otpStartCount'', JNum (getOtpStartCount cand))] Requested) (rw_audit w)")
    case None
    then show ?thesis using Some v stepGood_stay [OF w] by (simp add: verifyCountStep_def)
  next
    case a: (Some audit)
    let ?w = "w \<lparr> rw_rows := ?rows, rw_audit := audit, rw_counted := rw_counted w @ [(i, rc_id row)] \<rparr>"
    have ids: "map rc_id ?rows = map rc_id (rw_rows w)" by (simp add: ids_update)
    then have idset: "rc_id ` set ?rows = rc_id ` set (rw_rows w)" by (metis list.set_map)
    have evolve: "rowsEvolve {} (rw_rows w) ?rows" by (rule evolve_update) simp
    have good: "\<forall>x\<in>set ?rows. rowGood S ?w x"
    proof
      fix x assume "x \<in> set ?rows"
      then obtain y where y: "y \<in> set (rw_rows w)" "x = (if ?p y then ?f y else y)" by (auto simp: updateChallenge_def)
      have yg: "rowGood S w y" by (rule worldGood_row [OF w y(1)])
      have "rc_id y = rc_id row \<longrightarrow> ?p y" using same_row [OF w y(1) rm(1)] rm(2) by auto
      then show "rowGood S ?w x" using y yg by (auto simp: rowGood_def)
    qed
    have rid: "rc_id row \<in> rc_id ` set (rw_rows w)" using rm by (metis imageI)
    have rows: "rw_rows ?w = ?rows" by simp
    have "worldGood S ?w" unfolding worldGood_def
    proof (intro conjI)
      show "distinct (map rc_id (rw_rows ?w))" unfolding rows ids by (rule worldGood_D(1) [OF w])
      show "snd ` set (rw_counted ?w) \<subseteq> rc_id ` set (rw_rows ?w)" unfolding rows idset using worldGood_D(2) [OF w] rid by simp
      show "distinct (map fst (rw_counted ?w))" using worldGood_D(3) [OF w] i by simp
      show "distinct (map oa_call (rw_auths ?w))" "rw_dir ?w \<in> set (rw_past ?w)" using worldGood_D(4,5) [OF w] by simp_all
      show "\<forall>a\<in>set (rw_auths ?w). (oa_call a, oa_challenge a) \<in> set (rw_counted ?w)
          \<and> otpIssued (rw_issued ?w) (oa_challenge a) (oa_token a) (oa_organization a) (oa_otpId a)"
        using worldGood_D(6) [OF w] by simp
      show "\<forall>s\<in>set (rw_issued ?w). bound S (rw_rows ?w) (oi_challenge s) (oi_contact s) (oi_token s) (oi_organization s) None"
          "\<forall>s\<in>set (rw_sent ?w). bound S (rw_rows ?w) (os_challenge s) (os_contact s) (os_token s) (os_organization s) (Some (os_rootUser s))"
        using worldGood_D(7,8) [OF w] bound_evolve [OF _ evolve] by simp_all
      show "\<forall>row\<in>set (rw_rows ?w). rowGood S ?w row" using good by simp
    qed
    moreover have ev: "evolves i {} w ?w" using evolve by (auto simp: evolves_def)
    moreover have "verifyGood ?w (rk_app c) body row cand" by (rule verifyGood_evolve [OF vg ev])
    moreover have "i \<notin> oa_call ` set (rw_auths w)"
    proof
      assume "i \<in> oa_call ` set (rw_auths w)"
      then obtain a where "a \<in> set (rw_auths w)" "oa_call a = i" by auto
      then have "(i, oa_challenge a) \<in> set (rw_counted w)" using worldGood_D(6) [OF w] by blast
      then show False using i by (metis fst_conv imageI)
    qed
    ultimately show ?thesis using Some v a by (auto simp: verifyCountStep_def stepGood_def)
  qed
qed

text \<open>The code that is checked was sent for this candidate, whatever happened since the call began.\<close>

lemma effective_issued:
  assumes w: "worldGood S w" and vg: "verifyGood w (rk_app c) body row cand"
  shows "otpIssued (rw_issued w) (rc_id row) (cd_token cand) (cd_organization cand)
     (effectiveOtpId (getRecoveryChallenge (rk_app c) (rc_id row) (rw_rows w)) (vb_token body) cand)"
proof -
  have snap: "snapGood w (rk_app c) row cand" "vb_token body = cd_token cand" using vg by (simp_all add: verifyGood_def)
  obtain r a where r: "getRecoveryChallenge (rk_app c) (rc_id row) (rw_rows w) = Some r" "r \<in> set (rw_rows w)" "rc_id r = rc_id row"
      "List.find (\<lambda>c. cd_token c = cd_token cand) (rc_candidates r) = Some a" "core a = core cand"
    using snap_now [OF w snap(1)] by blast
  obtain v where v: "cd_otpId cand = Some v" "otpIssued (rw_issued w) (rc_id row) (cd_token cand) (cd_organization cand) v"
    using vg by (auto simp: verifyGood_def)
  have "rowGood S w r" by (rule worldGood_row [OF w r(2)])
  then show ?thesis
    using find_member [OF r(4)] core_eqD [OF r(5)] r(1,3,4) v snap(2) by (auto simp: effectiveOtpId_def rowGood_def split: option.split)
qed

lemma reread_good:
  assumes w: "worldGood S w" and st: "stageGood S w i (rk_app c) (VerifyReread body row cand)"
  shows "stepGood S i c w (verifyRereadStep i c body row cand w)"
proof -
  have vg: "verifyGood w (rk_app c) body row cand" and c: "(i, rc_id row) \<in> set (rw_counted w)" "i \<notin> oa_call ` set (rw_auths w)"
    using st by simp_all
  have "worldGood S (snd (verifyRereadStep i c body row cand w))"
    using w c effective_issued [OF w vg] unfolding worldGood_def by (auto simp: verifyRereadStep_def rowGood_def)
  then show ?thesis
    by (auto simp: stepGood_def verifyRereadStep_def evolves_def)
qed

lemma consume_good:
  assumes w: "worldGood S w"
  shows "stepGood S i c w (verifyConsumeStep S dr c row cand a w)"
  using mark_good [OF w] stepGood_stay [OF w] by (simp add: verifyConsumeStep_def split: option.split)

subsection \<open>Every event keeps it\<close>

lemma recoveryStep_good:
  assumes w: "worldGood S w" and st: "stageGood S w i (rk_app c) (rk_stage c)"
    and others: "\<forall>j d. j \<noteq> i \<longrightarrow> rw_calls w j = Some d \<longrightarrow> stageGood S w j (rk_app d) (rk_stage d)"
    and fills: "\<forall>x j d. fillId (rk_stage c) = Some x \<longrightarrow> j \<noteq> i \<longrightarrow> rw_calls w j = Some d \<longrightarrow> fillId (rk_stage d) \<noteq> Some x"
  shows "stepGood S i c w (recoveryStep S i dr ans c (rk_stage c) w)"
proof -
  have stay: "stepGood S i c w (c, w)" by (rule stepGood_stay [OF w st refl]) simp
  have ran: "stepGood S i c w (ranStep ans c w (\<lambda>e. rThrew c) f)" if "stepGood S i c w f" for f
    by (rule stepGood_ran [OF w st that]) simp
  have go: "stepGood S i c w (rGoTo st' c, w)" if "stageGood S w i (rk_app c) st' \<and> fillId st' = None" for st'
    using that by (intro stepGood_stay [OF w]) simp_all
  show ?thesis
  proof (cases "rk_stage c")
    case (InitCount email)
    show ?thesis unfolding InitCount recoveryStep.simps
      by (intro ran go) (simp add: initCountStage_def Let_def)
  next
    case (InitUsers email expires)
    show ?thesis unfolding InitUsers recoveryStep.simps
      by (intro ran go nextUser_good ballI found_users [OF w]) (simp_all add: newCandidates_def)
  next
    case (InitWallets email expires us sources)
    then have u: "us \<noteq> []" "\<forall>u\<in>set us. emailUser S (rw_past w) (rk_app c) (hashEmailForRateLimit (rv_sha256 S) email) (ru_id u)"
        "newCandidates S w (rk_app c) (hashEmailForRateLimit (rv_sha256 S) email) sources" using st by simp_all
    show ?thesis unfolding InitWallets recoveryStep.simps
      by (intro ran go nextUser_good) (use u newCandidates_sources [OF w] in \<open>auto simp: newCandidates_append dest: list.set_sel(2)\<close>)
  next
    case (InitInsert email candidates failures)
    then have "newCandidates S w (rk_app c) (hashEmailForRateLimit (rv_sha256 S) email) candidates" using st by simp
    then show ?thesis unfolding InitInsert recoveryStep.simps
      using insert_good [OF w] stepGood_stay [OF w] by (intro ran) (auto split: option.split)
  next
    case (InitFill email row failures)
    have "stepGood S i c w (initFillStep S dr c email row failures w)"
      by (rule fill_good [OF w]) (use st fills InitFill in \<open>auto simp del: stageGood.simps\<close>)
    then show ?thesis unfolding InitFill recoveryStep.simps by (rule ran)
  next
    case (StartLoad rid token email)
    then show ?thesis using startLoad_good [OF w] st by (auto intro: ran)
  next
    case (StartSend row cand email)
    then show ?thesis using send_good [OF w] st stay by (auto split: ranswer.split intro!: go)
  next
    case (StartSave row cand email otpId activity)
    have "stepGood S i c w (startSaveStep S dr c row cand email otpId activity w)"
      by (rule save_good [OF w _ others]) (use st StartSave in simp)
    then show ?thesis unfolding StartSave recoveryStep.simps by (rule stepGood_ran [OF w st]) simp
  next
    case (VerifyLoad body)
    then show ?thesis using verifyLoad_good [OF w] st by (simp add: ran)
  next
    case (VerifyCount body row cand)
    then show ?thesis using count_good [OF w] st by (simp add: ran)
  next
    case (VerifyReread body row cand)
    then show ?thesis using reread_good [OF w] st by (simp add: ran)
  next
    case (VerifyAuth body row cand)
    then show ?thesis using stay by (auto split: ranswer.split intro!: go simp:)
  next
    case (VerifyUser body row cand a)
    have "stepGood S i c w (verifyUserStep c body row cand a w)"
      unfolding verifyUserStep_def by (rule go) simp
    then show ?thesis unfolding VerifyUser recoveryStep.simps by (rule stepGood_ran [OF w st]) simp
  next
    case (VerifyConsume body row cand a)
    show ?thesis unfolding VerifyConsume recoveryStep.simps by (rule stepGood_ran [OF w st consume_good [OF w]]) simp
  next
    case (Closing cl)
    then show ?thesis using close_good [OF w] st by (simp add: ran)
  qed (use stay in simp)
qed

lemma inv_continue:
  assumes "recoveryInv S w"
  shows "recoveryInv S (recoveryEvent S (Continue i dr ans) w)"
proof (cases "rw_calls w i")
  case (Some c)
  obtain c' w' where step: "recoveryStep S i dr ans c (rk_stage c) w = (c', w')" by (metis prod.exhaust)
  have w: "worldGood S w" and calls: "\<And>j d. rw_calls w j = Some d \<Longrightarrow> stageGood S w j (rk_app d) (rk_stage d)"
    and none: "\<And>j. rw_calls w j = None \<Longrightarrow> j \<notin> fst ` set (rw_counted w)"
    and fills: "\<And>j k d e x. rw_calls w j = Some d \<Longrightarrow> rw_calls w k = Some e \<Longrightarrow> fillId (rk_stage d) = Some x \<Longrightarrow> fillId (rk_stage e) = Some x \<Longrightarrow> j = k"
    using assms unfolding recoveryInv_def by metis+
  have "stepGood S i c w (c', w')"
    using recoveryStep_good [OF w calls [OF Some], where dr = dr and ans = ans] calls fills [OF Some] step by metis
  then obtain X where g: "rk_app c' = rk_app c" "worldGood S w'" "stageGood S w' i (rk_app c) (rk_stage c')" "evolves i X w w'"
      "\<And>j d y. j \<noteq> i \<Longrightarrow> rw_calls w j = Some d \<Longrightarrow> fillId (rk_stage d) = Some y \<Longrightarrow> y \<notin> X"
      "\<And>y. fillId (rk_stage c') = Some y \<Longrightarrow> fillId (rk_stage c) = Some y \<or> y \<notin> rc_id ` set (rw_rows w)"
    unfolding stepGood_def by auto
  have same: "rw_calls w' = rw_calls w" using g(4) by (simp add: evolves_def)
  let ?w = "w' \<lparr> rw_calls := (rw_calls w')(i \<mapsto> c') \<rparr>"
  have up: "worldGood S ?w = worldGood S w'" "stageGood S ?w j app st = stageGood S w' j app st" for j app st
    by (simp add: worldGood_def rowGood_def)
      (cases "(S, w', j, app, st)" rule: stageGood.cases; simp add: newCandidates_def startGood_def verifyGood_def snapGood_def)
  have stages: "stageGood S ?w j (rk_app d) (rk_stage d)" if "rw_calls ?w j = Some d" for j d
  proof (cases "j = i")
    case False
    then have "rw_calls w j = Some d" using that same by simp
    then show ?thesis using up stageGood_evolve [OF calls g(4) False] g(5) False by blast
  qed (use that g(1,3) up in auto)
  have filled: "x \<in> rc_id ` set (rw_rows w)" if p: "rw_calls w j = Some d" "fillId (rk_stage d) = Some x" for j d x
  proof -
    obtain e row f where "rk_stage d = InitFill e row f" "x = rc_id row" using p(2) by (cases "rk_stage d") auto
    then obtain r where "r \<in> set (rw_rows w)" "rc_id r = x" using calls [OF p(1)] by auto
    then show ?thesis by (metis imageI)
  qed
  have fresh: "fillId (rk_stage d) \<noteq> Some x" if "fillId (rk_stage c') = Some x" "rw_calls w j = Some d" "j \<noteq> i" for j d x
    using g(6) [OF that(1)] filled [OF that(2)] fills [OF Some that(2)] that(3) by blast
  have "j = k" if "rw_calls ?w j = Some d" "rw_calls ?w k = Some e" "fillId (rk_stage d) = Some x" "fillId (rk_stage e) = Some x" for j k d e x
    using that fresh fills same by (simp split: if_splits)
  moreover have "j \<notin> fst ` set (rw_counted ?w)" if "rw_calls ?w j = None" for j
  proof -
    have "j \<noteq> i" "rw_calls w j = None" using that same by (auto split: if_splits)
    moreover have "fst ` set (rw_counted w') \<subseteq> insert i (fst ` set (rw_counted w))" using g(4) by (simp add: evolves_def)
    ultimately show ?thesis using none by force
  qed
  ultimately have "recoveryInv S ?w" unfolding recoveryInv_def using up(1) g(2) stages by blast
  then show ?thesis by (simp add: Some step)
qed (use assms in simp)

lemma stage_start:
  "startStage S rid token email = Inr st \<Longrightarrow> stageGood S w i app st \<and> fillId st = None"
  "verifyStage S body = Inr st \<Longrightarrow> i \<notin> fst ` set (rw_counted w) \<Longrightarrow> stageGood S w i app st \<and> fillId st = None"
  "stageGood S w i app (initStage S dr email) \<and> fillId (initStage S dr email) = None"
  by (auto simp: startStage_def verifyStage_def initStage_def Let_def split: option.splits if_splits)

lemma inv_begin:
  assumes "recoveryInv S w" "\<And>st. rw_calls w i = None \<Longrightarrow> first = Inr st \<Longrightarrow> stageGood S w i (the app) st \<and> fillId st = None"
  shows "recoveryInv S (beginCall i (recoveryCall app first) w)"
proof (cases "rw_calls w i")
  case None
  let ?c = "recoveryCall app first" let ?w = "w \<lparr> rw_calls := (rw_calls w)(i \<mapsto> ?c) \<rparr>"
  have c: "stageGood S w i (rk_app ?c) (rk_stage ?c)" "fillId (rk_stage ?c) = None"
    using assms(2) [OF None] by (auto simp: recoveryCall_def split: sum.split)
  have up: "worldGood S ?w = worldGood S w" "stageGood S ?w j a st = stageGood S w j a st" for j a st
    by (simp add: worldGood_def rowGood_def)
      (cases "(S, w, j, a, st)" rule: stageGood.cases; simp add: newCandidates_def startGood_def verifyGood_def snapGood_def)
  have "recoveryInv S ?w"
    using assms(1) c unfolding recoveryInv_def up by (auto split: if_splits)
  then show ?thesis using None by (simp add: beginCall_def)
qed (use assms(1) in \<open>simp add: beginCall_def\<close>)

lemma inv_directory:
  assumes "recoveryInv S w"
  shows "recoveryInv S (w \<lparr> rw_dir := d, rw_past := d # rw_past w \<rparr>)" (is "recoveryInv S ?w")
proof -
  have owned: "ownedBy S (rw_past w) a h c \<Longrightarrow> ownedBy S (rw_past ?w) a h c" "emailUser S (rw_past w) a h u \<Longrightarrow> emailUser S (rw_past ?w) a h u" for a h c u
    by (auto simp: ownedBy_def emailUser_def walletOf_def)
  have new: "newCandidates S w a h cs \<Longrightarrow> newCandidates S ?w a h cs" for a h cs
    using owned by (simp add: newCandidates_def)
  have stage: "stageGood S w j a st \<Longrightarrow> stageGood S ?w j a st" for j a st
    using owned new by (cases "(S, w, j, a, st)" rule: stageGood.cases) (auto simp: startGood_def verifyGood_def snapGood_def)
  have "rowGood S w r \<Longrightarrow> rowGood S ?w r" for r
    using owned by (simp add: rowGood_def)
  then have "worldGood S ?w"
    using assms unfolding recoveryInv_def worldGood_def by simp
  then show ?thesis using assms stage unfolding recoveryInv_def by simp
qed

lemma inv_event: "recoveryInv S w \<Longrightarrow> recoveryInv S (recoveryEvent S ev w)"
proof (cases ev)
  case (BeginVerify i app body)
  assume inv: "recoveryInv S w"
  then have "rw_calls w i = None \<Longrightarrow> i \<notin> fst ` set (rw_counted w)" by (simp add: recoveryInv_def)
  then show ?thesis unfolding BeginVerify recoveryEvent.simps
    by (intro inv_begin [OF inv] stage_start(2)) auto
qed (auto intro!: inv_begin inv_directory inv_continue simp: stage_start simp del: recoveryEvent.simps(5))

lemma inv_start: "recoveryInv S (recoveryStart d audit)"
  by (simp add: recoveryInv_def recoveryStart_def worldGood_def)

lemma inv_runRecovery: "recoveryInv S w \<Longrightarrow> recoveryInv S (runRecovery S evs w)"
  by (induction evs arbitrary: w) (simp_all add: runRecovery_def inv_event)

end
