(* ===== verification/RecoveryRuns.thy ===== *)
theory RecoveryRuns
  imports RecoverySafety HubRuns
begin

text \<open>
  What the invariant of recovery says of whole runs: guesses are capped, codes go to the owner of the wallet, a code
  is checked for the wallet it was sent for, and a closed challenge takes no more guesses.
\<close>

subsection \<open>Reachable states\<close>

definition recoveryRun :: "recovery_setup \<Rightarrow> directory \<Rightarrow> audit_row list \<Rightarrow> recovery_event list \<Rightarrow> recovery_world" where
  "recoveryRun S d audit evs = runRecovery S evs (recoveryStart d audit)"

lemma run_inv: "recoveryInv S (recoveryRun S d audit evs)"
  unfolding recoveryRun_def by (rule inv_runRecovery [OF inv_start])

lemma run_good: "worldGood S (recoveryRun S d audit evs)"
  using run_inv by (simp add: recoveryInv_def)

lemma filter_count_le:
  assumes "distinct (map f xs)" "\<And>x. x \<in> set xs \<Longrightarrow> g x \<in> set ys" "\<And>x. fst (g x) = f x"
  shows "length (filter (\<lambda>x. snd (g x) = k) xs) \<le> length (filter (\<lambda>y. snd y = k) ys)"
proof -
  have "inj_on g (set xs)" using assms(1,3) by (metis distinct_map inj_onI inj_on_def)
  moreover have "distinct xs" using assms(1) by (simp add: distinct_map)
  ultimately have d: "distinct (map g xs)" by (simp add: distinct_map)
  have "length (filter (\<lambda>x. snd (g x) = k) xs) = length (filter (\<lambda>y. snd y = k) (map g xs))"
    by (simp add: filter_map comp_def)
  also have "\<dots> = card (set (filter (\<lambda>y. snd y = k) (map g xs)))" using d by (metis distinct_card distinct_filter)
  also have "\<dots> \<le> card (set (filter (\<lambda>y. snd y = k) ys))" using assms(2) by (intro card_mono) auto
  also have "\<dots> \<le> length (filter (\<lambda>y. snd y = k) ys)" by (rule card_length)
  finally show ?thesis .
qed

text \<open>
  C23. However the calls interleave, Turnkey checks at most five codes for a challenge.
\<close>

theorem recovery_attempts_capped:
  "length (filter (\<lambda>a. oa_challenge a = rid) (rw_auths (recoveryRun S d audit evs))) \<le> nat VERIFY_MAX_ATTEMPTS"
proof (cases "rid \<in> rc_id ` set (rw_rows (recoveryRun S d audit evs))")
  let ?w = "recoveryRun S d audit evs"
  note w = run_good [of S d audit evs]
  have le: "length (filter (\<lambda>a. oa_challenge a = rid) (rw_auths ?w)) \<le> length (filter (\<lambda>x. snd x = rid) (rw_counted ?w))"
    using filter_count_le [where f = oa_call and g = "\<lambda>a. (oa_call a, oa_challenge a)" and k = rid, OF worldGood_D(4) [OF w]]
      worldGood_D(6) [OF w] by simp
  case True
  then obtain row where row: "row \<in> set (rw_rows ?w)" "rc_id row = rid" by auto
  have "int (length (filter (\<lambda>x. snd x = rid) (rw_counted ?w))) \<le> VERIFY_MAX_ATTEMPTS"
    using worldGood_row [OF w row(1)] row(2) unfolding rowGood_def by metis
  then show ?thesis using le by linarith
next
  case False
  then have "oa_challenge a \<noteq> rid" if "a \<in> set (rw_auths (recoveryRun S d audit evs))" for a
    using worldGood_D(2,6) [OF run_good [of S d audit evs]] that by force
  then show ?thesis by (simp add: filter_empty_conv)
qed

text \<open>
  C24. A code is sent for a wallet of a candidate of the challenge, to an address with the hash of the recovery email of
  the wallet's user; the wallet is none of the root organization and none of a social login.
\<close>

theorem recovery_code_to_owner:
  assumes "s \<in> set (rw_sent (recoveryRun S d audit evs))"
  shows "\<exists>row cand. row \<in> set (rw_rows (recoveryRun S d audit evs)) \<and> rc_id row = os_challenge s
     \<and> cand \<in> set (rc_candidates row) \<and> cd_token cand = os_token s
     \<and> cd_organization cand = os_organization s \<and> cd_rootUser cand = Some (os_rootUser s)
     \<and> emailUser S (rw_past (recoveryRun S d audit evs)) (rc_app row) (rv_sha256 S (js_lower (js_trim (os_contact s)))) (cd_user cand)
     \<and> walletOf S (rw_past (recoveryRun S d audit evs)) (rc_app row) cand"
proof -
  let ?w = "recoveryRun S d audit evs"
  note w = run_good [of S d audit evs]
  obtain row cand where row: "row \<in> set (rw_rows ?w)" "rc_id row = os_challenge s" "hashEmailForRateLimit (rv_sha256 S) (os_contact s) = rc_emailHash row"
      "cand \<in> set (rc_candidates row)" "cd_token cand = os_token s" "cd_organization cand = os_organization s" "cd_rootUser cand = Some (os_rootUser s)"
    using worldGood_D(8) [OF w] assms by (auto simp: bound_def)
  have owned: "ownedBy S (rw_past ?w) (rc_app row) (rc_emailHash row) cand"
    using worldGood_row [OF w row(1)] row(4) by (simp add: rowGood_def)
  then show ?thesis using row unfolding ownedBy_def hashEmailForRateLimit_def by metis
qed

text \<open>
  C25. The code that Turnkey checks was issued in this challenge for the same wallet, and sent to the email of the challenge.
\<close>

theorem recovery_code_checked_for_its_wallet:
  assumes "a \<in> set (rw_auths (recoveryRun S d audit evs))"
  shows "\<exists>s\<in>set (rw_issued (recoveryRun S d audit evs)). oi_challenge s = oa_challenge a \<and> oi_token s = oa_token a
     \<and> oi_organization s = oa_organization a \<and> oi_otpId s = oa_otpId a
     \<and> (\<exists>row\<in>set (rw_rows (recoveryRun S d audit evs)). rc_id row = oa_challenge a
          \<and> rv_sha256 S (js_lower (js_trim (oi_contact s))) = rc_emailHash row)"
proof -
  note w = run_good [of S d audit evs]
  obtain s where s: "s \<in> set (rw_issued (recoveryRun S d audit evs))" "oi_challenge s = oa_challenge a" "oi_token s = oa_token a"
      "oi_organization s = oa_organization a" "oi_otpId s = oa_otpId a"
    using worldGood_D(6) [OF w] assms unfolding otpIssued_def by blast
  then show ?thesis using worldGood_D(7) [OF w] unfolding bound_def hashEmailForRateLimit_def by metis
qed

subsection \<open>A closed challenge stays closed\<close>

lemma evolve_trans: "rowsEvolve X a b \<Longrightarrow> rowsEvolve Y b c \<Longrightarrow> 
  \<forall>r\<in>set a. rc_status r \<noteq> ChPending \<longrightarrow> (\<exists>r'\<in>set c. rc_id r' = rc_id r \<and> rc_status r' \<noteq> ChPending \<and> rc_attempts r' = rc_attempts r)"
  unfolding rowsEvolve_def by metis

definition closedIn :: "recovery_world \<Rightarrow> string \<Rightarrow> int \<Rightarrow> bool" where
  "closedIn w rid n \<longleftrightarrow> (\<exists>r\<in>set (rw_rows w). rc_id r = rid \<and> rc_status r \<noteq> ChPending \<and> rc_attempts r = n)"

lemma closed_event:
  assumes "recoveryInv S w" "closedIn w rid n"
  shows "closedIn (recoveryEvent S ev w) rid n"
proof (cases ev)
  case (Continue i dr ans)
  show ?thesis
  proof (cases "rw_calls w i")
    case (Some c)
    obtain c' w' where step: "recoveryStep S i dr ans c (rk_stage c) w = (c', w')" by (metis prod.exhaust)
    have w: "worldGood S w" and calls: "\<And>j d. rw_calls w j = Some d \<Longrightarrow> stageGood S w j (rk_app d) (rk_stage d)"
      and fills: "\<And>j k d e x. rw_calls w j = Some d \<Longrightarrow> rw_calls w k = Some e \<Longrightarrow> fillId (rk_stage d) = Some x \<Longrightarrow> fillId (rk_stage e) = Some x \<Longrightarrow> j = k"
      using assms(1) unfolding recoveryInv_def by metis+
    have "stepGood S i c w (c', w')"
      using recoveryStep_good [OF w calls [OF Some], where dr = dr and ans = ans] calls fills [OF Some] step by metis
    then have "\<exists>X. rowsEvolve X (rw_rows w) (rw_rows w')" unfolding stepGood_def evolves_def by auto
    then have "closedIn w' rid n" using assms(2) unfolding rowsEvolve_def closedIn_def by metis
    then show ?thesis using Continue Some step by (simp add: closedIn_def)
  qed (use Continue assms in simp)
qed (use assms in \<open>simp_all add: beginCall_def closedIn_def\<close>)

lemma closed_run: "recoveryInv S w \<Longrightarrow> closedIn w rid n \<Longrightarrow> closedIn (runRecovery S evs w) rid n"
  by (induction evs arbitrary: w) (simp_all add: runRecovery_def closed_event inv_event)

text \<open>
  A challenge that is no longer pending is never pending again, and no further attempt is counted.
\<close>

theorem closed_challenge_stays_closed:
  assumes "getRecoveryChallenge app rid (rw_rows (recoveryRun S d audit before)) = Some row" "rc_status row \<noteq> ChPending"
  shows "\<exists>row'. row' \<in> set (rw_rows (recoveryRun S d audit (before @ after))) \<and> rc_id row' = rid
     \<and> rc_status row' \<noteq> ChPending \<and> rc_attempts row' = rc_attempts row"
proof -
  have "row \<in> set (rw_rows (recoveryRun S d audit before))" "rc_id row = rid"
    using find_member [OF assms(1) [unfolded getRecoveryChallenge_def]] by simp_all
  then have "closedIn (recoveryRun S d audit before) rid (rc_attempts row)" using assms(2) unfolding closedIn_def by blast
  from closed_run [OF run_inv this, of after] show ?thesis
    unfolding closedIn_def recoveryRun_def runRecovery_def by auto
qed

subsection \<open>A recovery\<close>

definition recoverySetup :: recovery_setup where
  "recoverySetup =
     \<lparr> rv_sha256 = (\<lambda>s. s), rv_hmac = (\<lambda>k m. ''m''), rv_jsonb = (\<lambda>j. j), rv_auditSecret = Some ''0123456789abcdef0123456789abcdef'', rv_rootOrg = ''root'',
       rv_review = None, rv_seal = (\<lambda>k p. None), rv_config = (\<lambda>k. JUndefined), rv_parse = (\<lambda>s. None) \<rparr>"

definition recoveryDirectory :: directory where
  "recoveryDirectory =
     \<lparr> dr_users = [\<lparr> ru_id = ''u1'', ru_app = ''app'', ru_external = Some ''alice'', ru_email = Some ''A@b.c'', ru_created = 0 \<rparr>],
       dr_wallets = [\<lparr> rr_id = ''w1'', rr_app = ''app'', rr_user = Some ''u1'', rr_organization = ''org1'', rr_rootUser = Some ''ru1'',
         rr_wallet = Some ''wallet1'', rr_address = Some ''tb1pxyz'', rr_publicKey = None, rr_method = Some ''email'', rr_created = 0 \<rparr>] \<rparr>"

definition drawn :: "int \<Rightarrow> string \<Rightarrow> draws" where
  "drawn now auditId = sampleDraws now \<lparr> su_auditId := auditId \<rparr>"

definition initEvents :: "recovery_event list" where
  "initEvents = BeginInit 0 (Some ''app'') ''a@b.c '' (drawn 0 ''i0'') # [Continue 0 (drawn 1 ''i1'') RRan, Continue 0 (drawn 1 ''i2'') RRan,
     Continue 0 (drawn 1 ''i3'') RRan, Continue 0 (drawn 1 ''i4'') RRan, Continue 0 (drawn 1 ''i5'') RRan]"

definition recoveryBody :: verify_body where
  "recoveryBody = \<lparr> vb_challenge = ''r1'', vb_token = ''r1:w1'', vb_code = ''123456'', vb_key = ''04'', vb_external = None \<rparr>"

definition startEvents :: "recovery_event list" where
  "startEvents = [BeginStart 1 (Some ''app'') ''r1'' ''r1:w1'' ''a@b.c'', Continue 1 (drawn 2 ''s1'') RRan,
     Continue 1 (drawn 3 ''s2'') (OtpSent ''otp1'' ''act1''), Continue 1 (drawn 4 ''s3'') RRan]"

definition verifyEvents :: "recovery_event list" where
  "verifyEvents = [BeginVerify 2 (Some ''app'') recoveryBody, Continue 2 (drawn 5 ''v1'') RRan, Continue 2 (drawn 6 ''v2'') RRan,
     Continue 2 (drawn 7 ''v3'') RRan,
     Continue 2 (drawn 8 ''v4'') (OtpAuthed \<lparr> at_bundle = ''bundle'', at_activity = ''act2'', at_apiKey = ''key'' \<rparr>),
     Continue 2 (drawn 9 ''v5'') RRan]"

text \<open>The audit log takes every event of a short run.\<close>

definition fits :: "audit_row list \<Rightarrow> bool" where
  "fits rows \<longleftrightarrow> length rows < 1000 \<and> (\<forall>r\<in>set rows. \<forall>s. ar_chainSeq r = Some s \<longrightarrow> \<bar>s\<bar> \<le> int (length rows))"

definition auditOf :: "draws \<Rightarrow> string \<Rightarrow> string option \<Rightarrow> audit_note \<Rightarrow> audit_row list \<Rightarrow> audit_row list" where
  "auditOf dr app activity n rows = the (recoveryAudit recoverySetup dr app activity n rows)"

lemma chainTip_member: "chainTip app rows = Some t \<Longrightarrow> t \<in> set rows"
  by (auto simp: chainTip_def chainedRows_def split: list.splits dest!: arg_cong [where f = "\<lambda>x. set (rev x)"])

lemma audit_fits:
  assumes "fits rows" "length rows < 999"
  shows "recoveryAudit recoverySetup dr app activity n rows = Some (auditOf dr app activity n rows)"
    "fits (auditOf dr app activity n rows)" "length (auditOf dr app activity n rows) = Suc (length rows)"
proof -
  have ok: "\<bar>s\<bar> \<le> int (length rows)" if "chainTip app rows = Some t" "ar_chainSeq t = Some s" for t s
    using assms(1) chainTip_member [OF that(1)] that(2) by (simp add: fits_def)
  have "\<exists>r s. recoveryAudit recoverySetup dr app activity n rows = Some (rows @ [r]) \<and> ar_chainSeq r = Some s \<and> \<bar>s\<bar> \<le> int (length rows) + 1"
    using ok assms(2)
    by (fastforce simp: recoveryAudit_def auditEvent_def requireAuditSecret_def insertAuditLog_def recoverySetup_def Let_def MAX_SAFE_INTEGER_def
      split: option.split)
  then obtain r s where r: "recoveryAudit recoverySetup dr app activity n rows = Some (rows @ [r])" "ar_chainSeq r = Some s" "\<bar>s\<bar> \<le> int (length rows) + 1"
    by blast
  then show "recoveryAudit recoverySetup dr app activity n rows = Some (auditOf dr app activity n rows)" by (simp add: auditOf_def)
  show "length (auditOf dr app activity n rows) = Suc (length rows)" using r by (simp add: auditOf_def)
  show "fits (auditOf dr app activity n rows)" using assms r by (force simp: auditOf_def fits_def)
qed

lemma fits_Nil [simp]: "fits []"
  by (simp add: fits_def)

lemmas recovery_eval = recoveryRun_def runRecovery_def recoveryStart_def beginCall_def recoveryCall_def ranStep_def rGoTo_def rFinish_def rThrew_def
  recoveryDirectory_def recoveryBody_def drawn_def sampleDraws_def audit_fits

lemma setup_simps [simp]:
  "rv_sha256 recoverySetup = (\<lambda>s. s)" "rv_review recoverySetup = None" "rv_config recoverySetup k = JUndefined" "rv_rootOrg recoverySetup = ''root''"
  by (simp_all add: recoverySetup_def)

lemma setup_custom [simp]: "buildOtpEmailCustomization recoverySetup = Inr JUndefined"
  by (simp add: buildOtpEmailCustomization_def nonEmptyText_def rbind_def)

lemmas recovery_steps = initStage_def initCountStage_def nextUser_def afterSources_def sourceCandidate_def findUsersByRecoveryEmail_def
  listTurnkeyResourcesForUserForApp_def insertRecoveryChallenge_def initFillStep_def fillTokens_def computeCandidateToken_def
  startStage_def startLoadStep_def startChecks_def startSaveStep_def recordOtpStart_def getOtpStartCount_def
  verifyStage_def verifyLoadStep_def verifyChecks_def verifyCountStep_def verifyRereadStep_def verifyConsumeStep_def effectiveOtpId_def
  getRecoveryChallenge_def incrementRecoveryAttemptIfUnderCap_def updateRecoveryChallengeCandidates_def markRecoveryChallengeStatus_def
  updateChallenge_def classifyRecoveryChallengeAvailability_def hashEmailForRateLimit_def countRecentChallenges_def given_def RATE_LIMIT_MAX_INITS_def

lemma strings: "js_trim ''a@b.c '' = ''a@b.c''" "js_trim ''a@b.c'' = ''a@b.c''" "js_lower ''a@b.c'' = ''a@b.c''" "js_lower ''A@b.c'' = ''a@b.c''"
  "isReviewChallengeId ''r1'' = False"
  by code_simp+
lemma given_Some: "given (Some x) \<longleftrightarrow> x \<noteq> []" by (simp add: given_def)
lemmas plain = noted_def startNote_def verifyNote_def VERIFY_MAX_ATTEMPTS_def CHALLENGE_TTL_MS_recovery_def strings given_Some List.map_filter_def sort_key_def

definition recoveryCandidate :: "(string \<times> int) option \<Rightarrow> candidate" where
  "recoveryCandidate otp =
     \<lparr> cd_token = ''r1:w1'', cd_resource = ''w1'', cd_user = ''u1'', cd_external = Some ''alice'', cd_organization = ''org1'',
       cd_rootUser = Some ''ru1'', cd_otpId = map_option fst otp, cd_otpStarts = map_option (\<lambda>x. 1) otp, cd_otpStartedAt = map_option snd otp,
       cd_label = walletLabel (Some ''tb1pxyz''), cd_masked = maskAddress (Some ''tb1pxyz''), cd_wallet = Some ''wallet1'',
       cd_address = Some ''tb1pxyz'', cd_publicKey = None, cd_created = 0, cd_method = EmailCode \<rparr>"

definition recoveryRow :: "(string \<times> int) option \<Rightarrow> challenge_status \<Rightarrow> int \<Rightarrow> int option \<Rightarrow> recovery_row" where
  "recoveryRow otp status attempts consumed =
     \<lparr> rc_id = ''r1'', rc_app = ''app'', rc_emailHash = ''a@b.c'', rc_candidates = [recoveryCandidate otp], rc_status = status,
       rc_attempts = attempts, rc_created = 1, rc_expires = 600001, rc_consumed = consumed \<rparr>"

definition shape :: "recovery_world \<Rightarrow> recovery_row \<Rightarrow> string list \<Rightarrow> string list \<Rightarrow> nat \<Rightarrow> bool" where
  "shape w row contacts otps n \<longleftrightarrow> rw_rows w = [row] \<and> map os_contact (rw_sent w) = contacts
     \<and> map oa_otpId (rw_auths w) = otps \<and> fits (rw_audit w) \<and> length (rw_audit w) < n"

lemma init_run:
  fixes w
  defines "w \<equiv> recoveryRun recoverySetup recoveryDirectory [] initEvents"
  shows "shape w (recoveryRow None ChPending 0 None) [] [] 10" "i \<noteq> 0 \<Longrightarrow> rw_calls w i = None"
  unfolding w_def
  by (simp_all add: shape_def recoveryRow_def recoveryCandidate_def initEvents_def recovery_eval recovery_steps Let_def plain del: show36.simps)

lemma start_run:
  assumes "shape w (recoveryRow None ChPending 0 None) cs os n" "n < 100" "rw_calls w 1 = None"
  shows "shape (runRecovery recoverySetup startEvents w) (recoveryRow (Some (''otp1'', 4)) ChPending 0 None) (cs @ [''a@b.c'']) os (n + 10)"
    "i \<noteq> 1 \<Longrightarrow> rw_calls (runRecovery recoverySetup startEvents w) i = rw_calls w i"
  using assms
  by (simp_all add: shape_def recoveryRow_def recoveryCandidate_def startEvents_def recovery_eval recovery_steps Let_def plain del: show36.simps)

lemmas verify_eval = shape_def recoveryRow_def recoveryCandidate_def recovery_eval recovery_steps Let_def plain

lemma verify_run:
  assumes "shape w (recoveryRow (Some (''otp1'', 4)) ChPending 0 None) cs os n" "n < 100" "rw_calls w 2 = None"
  shows "shape (runRecovery recoverySetup verifyEvents w) (recoveryRow (Some (''otp1'', 4)) ChConsumed 1 (Some 9)) cs (os @ [''otp1'']) (n + 10)"
    "i \<noteq> 2 \<Longrightarrow> rw_calls (runRecovery recoverySetup verifyEvents w) i = rw_calls w i"
  using assms by (simp_all add: verifyEvents_def verify_eval del: show36.simps)

lemma run_append: "runRecovery S (xs @ ys) w = runRecovery S ys (runRecovery S xs w)"
  by (simp add: runRecovery_def)

lemma started_run:
  fixes w
  defines "w \<equiv> runRecovery recoverySetup startEvents (recoveryRun recoverySetup recoveryDirectory [] initEvents)"
  shows "shape w (recoveryRow (Some (''otp1'', 4)) ChPending 0 None) [''a@b.c''] [] 20" "i \<notin> {0, 1} \<Longrightarrow> rw_calls w i = None"
  using start_run [OF init_run(1) _ init_run(2)] init_run(2) unfolding w_def by simp_all

definition sampleRecovery :: "recovery_event list" where
  "sampleRecovery = initEvents @ startEvents @ verifyEvents"

lemma sample_recovery:
  "shape (recoveryRun recoverySetup recoveryDirectory [] sampleRecovery) (recoveryRow (Some (''otp1'', 4)) ChConsumed 1 (Some 9)) [''a@b.c''] [''otp1''] 30"
  using verify_run(1) [OF started_run(1) _ started_run(2)] by (simp add: sampleRecovery_def recoveryRun_def run_append)

theorem recovery_code_to_owner_sample:
  "\<exists>s row cand. s \<in> set (rw_sent (recoveryRun recoverySetup recoveryDirectory [] sampleRecovery)) \<and> os_contact s = ''a@b.c''
     \<and> row \<in> set (rw_rows (recoveryRun recoverySetup recoveryDirectory [] sampleRecovery)) \<and> rc_id row = os_challenge s
     \<and> cand \<in> set (rc_candidates row) \<and> cd_organization cand = os_organization s"
proof -
  have "map os_contact (rw_sent (recoveryRun recoverySetup recoveryDirectory [] sampleRecovery)) = [''a@b.c'']"
    using sample_recovery by (simp add: shape_def)
  then obtain s where "s \<in> set (rw_sent (recoveryRun recoverySetup recoveryDirectory [] sampleRecovery))" "os_contact s = ''a@b.c''" by auto
  then show ?thesis using recovery_code_to_owner [of s recoverySetup recoveryDirectory "[]" sampleRecovery] by blast
qed

theorem recovery_code_checked_sample:
  "\<exists>a. a \<in> set (rw_auths (recoveryRun recoverySetup recoveryDirectory [] sampleRecovery)) \<and> oa_otpId a = ''otp1''
     \<and> (\<exists>s\<in>set (rw_issued (recoveryRun recoverySetup recoveryDirectory [] sampleRecovery)). oi_otpId s = ''otp1'')"
proof -
  have "map oa_otpId (rw_auths (recoveryRun recoverySetup recoveryDirectory [] sampleRecovery)) = [''otp1'']"
    using sample_recovery by (simp add: shape_def)
  then obtain a where "a \<in> set (rw_auths (recoveryRun recoverySetup recoveryDirectory [] sampleRecovery))" "oa_otpId a = ''otp1''" by auto
  then show ?thesis using recovery_code_checked_for_its_wallet [of a recoverySetup recoveryDirectory "[]" sampleRecovery] by metis
qed

theorem closed_challenge_sample:
  "\<exists>row'. row' \<in> set (rw_rows (recoveryRun recoverySetup recoveryDirectory [] (sampleRecovery @ verifyEvents))) \<and> rc_id row' = ''r1''
     \<and> rc_status row' \<noteq> ChPending \<and> rc_attempts row' = 1"
proof -
  let ?row = "recoveryRow (Some (''otp1'', 4)) ChConsumed 1 (Some 9)"
  have "getRecoveryChallenge ''app'' ''r1'' (rw_rows (recoveryRun recoverySetup recoveryDirectory [] sampleRecovery)) = Some ?row"
    using sample_recovery by (simp add: shape_def getRecoveryChallenge_def recoveryRow_def)
  moreover have "rc_status ?row \<noteq> ChPending" "rc_attempts ?row = 1" by (simp_all add: recoveryRow_def)
  ultimately show ?thesis using closed_challenge_stays_closed by metis
qed

subsection \<open>What interleaving breaks\<close>

text \<open>
  The cap of codes per wallet is checked before the request to Turnkey and counted after its answer: starts that
  overlap all pass it.
\<close>

definition overlapping :: "nat \<Rightarrow> recovery_event list" where
  "overlapping i = [BeginStart i (Some ''app'') ''r1'' ''r1:w1'' ''a@b.c'', Continue i (drawn 2 ''s1'') RRan]"

lemma one_start:
  assumes "shape w (recoveryRow None ChPending 0 None) cs os n" "rw_calls w i = None"
  shows "shape (runRecovery recoverySetup (overlapping i) w) (recoveryRow None ChPending 0 None) (cs @ [''a@b.c'']) os n"
    "j \<noteq> i \<Longrightarrow> rw_calls (runRecovery recoverySetup (overlapping i) w) j = rw_calls w j"
  using assms by (simp_all add: overlapping_def verify_eval del: show36.simps)

lemma many_starts:
  "shape w (recoveryRow None ChPending 0 None) cs os n \<Longrightarrow> distinct is \<Longrightarrow> \<forall>i\<in>set is. rw_calls w i = None \<Longrightarrow>
   shape (runRecovery recoverySetup (concat (map overlapping is)) w) (recoveryRow None ChPending 0 None) (cs @ replicate (length is) ''a@b.c'') os n"
proof (induction "is" arbitrary: w cs)
  case (Cons i "is")
  have "shape (runRecovery recoverySetup (overlapping i) w) (recoveryRow None ChPending 0 None) (cs @ [''a@b.c'']) os n"
    using one_start(1) Cons.prems by simp
  moreover have "\<forall>j\<in>set is. rw_calls (runRecovery recoverySetup (overlapping i) w) j = None"
    using one_start(2) [OF Cons.prems(1)] Cons.prems by (metis distinct.simps(2) list.set_intros)
  ultimately show ?case using Cons.IH [of _ "cs @ [''a@b.c'']"] Cons.prems(2) by (simp add: run_append)
qed (simp add: runRecovery_def)

theorem otp_cap_overrun:
  "length (rw_sent (recoveryRun recoverySetup recoveryDirectory [] (initEvents @ concat (map overlapping [1..<Suc k])))) = k"
proof -
  have "shape (recoveryRun recoverySetup recoveryDirectory [] (initEvents @ concat (map overlapping [1..<Suc k])))
      (recoveryRow None ChPending 0 None) (replicate k ''a@b.c'') [] 10"
    using many_starts [OF init_run(1), of "[1..<Suc k]"] init_run(2) by (simp del: upt_Suc add: recoveryRun_def run_append)
  then show ?thesis unfolding shape_def by (metis length_map length_replicate)
qed

text \<open>
  A verification that was overtaken by a successful one finds the challenge closed, takes this for too many attempts and
  marks it failed.
\<close>

definition overtaken :: "recovery_event list" where
  "overtaken = initEvents @ startEvents @ [BeginVerify 3 (Some ''app'') recoveryBody, Continue 3 (drawn 5 ''x1'') RRan] @ verifyEvents
     @ [Continue 3 (drawn 10 ''x2'') RRan, Continue 3 (drawn 11 ''x3'') RRan]"

definition waiting :: recovery_call where
  "waiting = \<lparr> rk_app = ''app'', rk_stage = VerifyCount recoveryBody (recoveryRow (Some (''otp1'', 4)) ChPending 0 None) (recoveryCandidate (Some (''otp1'', 4))),
     rk_reply = None \<rparr>"

lemma overtaken_before:
  assumes "shape w (recoveryRow (Some (''otp1'', 4)) ChPending 0 None) cs os n" "rw_calls w 3 = None"
  shows "runRecovery recoverySetup [BeginVerify 3 (Some ''app'') recoveryBody, Continue 3 (drawn 5 ''x1'') RRan] w
     = w \<lparr> rw_calls := (rw_calls w)(3 \<mapsto> waiting) \<rparr>"
  using assms by (simp add: waiting_def verify_eval del: show36.simps)

lemma overtaken_after:
  assumes "shape w (recoveryRow (Some (''otp1'', 4)) ChConsumed 1 (Some 9)) cs os n" "rw_calls w 3 = Some waiting" "n < 100"
  shows "shape (runRecovery recoverySetup [Continue 3 (drawn 10 ''x2'') RRan, Continue 3 (drawn 11 ''x3'') RRan] w)
      (recoveryRow (Some (''otp1'', 4)) ChFailed 1 (Some 9)) cs os (n + 10)"
    "map_option rk_reply (rw_calls (runRecovery recoverySetup [Continue 3 (drawn 10 ''x2'') RRan, Continue 3 (drawn 11 ''x3'') RRan] w) 3)
      = Some (Some (Refuse 429 ''Too many verification attempts''))"
  using assms by (simp_all add: waiting_def marked_def closeStep_def verify_eval del: show36.simps)

theorem consumed_marked_failed:
  "rw_rows (recoveryRun recoverySetup recoveryDirectory [] overtaken) = [recoveryRow (Some (''otp1'', 4)) ChFailed 1 (Some 9)]
   \<and> map_option rk_reply (rw_calls (recoveryRun recoverySetup recoveryDirectory [] overtaken) 3)
     = Some (Some (Refuse 429 ''Too many verification attempts''))"
proof -
  let ?w = "runRecovery recoverySetup startEvents (recoveryRun recoverySetup recoveryDirectory [] initEvents)"
  let ?v = "?w \<lparr> rw_calls := (rw_calls ?w)(3 \<mapsto> waiting) \<rparr>"
  have v: "shape ?v (recoveryRow (Some (''otp1'', 4)) ChPending 0 None) [''a@b.c''] [] 20" "rw_calls ?v 2 = None" "rw_calls ?v 3 = Some waiting"
    using started_run by (simp_all add: shape_def)
  have u: "shape (runRecovery recoverySetup verifyEvents ?v) (recoveryRow (Some (''otp1'', 4)) ChConsumed 1 (Some 9)) [''a@b.c''] [''otp1''] 30"
      "rw_calls (runRecovery recoverySetup verifyEvents ?v) 3 = Some waiting"
    using verify_run [OF v(1) _ v(2)] v(3) by simp_all
  have "recoveryRun recoverySetup recoveryDirectory [] overtaken
      = runRecovery recoverySetup [Continue 3 (drawn 10 ''x2'') RRan, Continue 3 (drawn 11 ''x3'') RRan] (runRecovery recoverySetup verifyEvents ?v)"
    using overtaken_before [OF started_run(1) started_run(2)] by (simp only: overtaken_def recoveryRun_def run_append) simp
  then show ?thesis using overtaken_after [OF u] by (simp add: shape_def)
qed

end
