(* ===== verification/Keystore.thy ===== *)
theory Keystore
  imports Signature JsValues
begin

text \<open>
  The encrypted keystore of the wallet (\<open>apps/chrome-wallet/src/crypto/keystore.ts\<close>). Every realm of the extension
  (service worker, popup, side panel) has its own copy of the derived key; the blob lies in \<open>chrome.storage.local\<close>,
  the key in \<open>chrome.storage.session\<close>. A call in flight is the \<open>await\<close> it stands at, calls of all realms
  interleave there, and the change event of the session storage reaches each realm on its own. PBKDF2, AES-GCM with
  the UTF-8 coding of its text, and JSON are fields of the record \<open>crypto\<close>.
\<close>

subsection \<open>Base64\<close>

definition b64_char :: "nat \<Rightarrow> char" where
  "b64_char n = B64_ALPHABET ! n"

text \<open>\<open>btoa(String.fromCharCode(...))\<close>\<close>

fun bytesToBase64 :: "byte list \<Rightarrow> string" where
  "bytesToBase64 (a # b # c # s) =
     b64_char (unat a div 4) # b64_char (unat a mod 4 * 16 + unat b div 16)
     # b64_char (unat b mod 16 * 4 + unat c div 64) # b64_char (unat c mod 64) # bytesToBase64 s"
| "bytesToBase64 [a, b] =
     [b64_char (unat a div 4), b64_char (unat a mod 4 * 16 + unat b div 16), b64_char (unat b mod 16 * 4), CHR ''='']"
| "bytesToBase64 [a] = [b64_char (unat a div 4), b64_char (unat a mod 4 * 16), CHR ''='', CHR ''='']"
| "bytesToBase64 [] = []"

definition base64ToBytes :: "string \<Rightarrow> byte list option" where
  "base64ToBytes b64 = decodeBase64 b64"

subsection \<open>State\<close>

record KeystoreBlob =
  kb_schema :: int
  kb_salt :: string
  kb_iv :: string
  kb_ciphertext :: string
  kb_iterations :: int
  kb_createdAt :: int
  kb_updatedAt :: int

record crypto =
  cy_derive :: "string \<Rightarrow> byte list \<Rightarrow> int \<Rightarrow> byte list"
  cy_encrypt :: "byte list \<Rightarrow> byte list \<Rightarrow> string \<Rightarrow> byte list"
  cy_decrypt :: "byte list \<Rightarrow> byte list \<Rightarrow> byte list \<Rightarrow> string option"
  cy_stringify :: "json \<Rightarrow> string"
  cy_parse :: "string \<Rightarrow> json option"
  cy_session :: bool

definition KEYSTORE_SCHEMA :: int where "KEYSTORE_SCHEMA = 2"
definition PBKDF2_ITERATIONS :: int where "PBKDF2_ITERATIONS = 600000"

text \<open>What a step draws: random bytes, the time, and whether the browser fulfils the request.\<close>

record luck =
  lk_salt :: "byte list"
  lk_iv :: "byte list"
  lk_now :: int
  lk_ok :: bool

datatype migration_status = Fresh | NeedsPassword json | Sealed KeystoreBlob

datatype vresult = VDone | VState json | VNull | VBool bool | VStatus migration_status | VThrow string

text \<open>What follows after the session key was saved.\<close>

datatype after_save = ThenReturn string | ThenRemoveLegacy | ThenSeal string string

datatype vstage =
    UnlockRead string "string option"
  | UnlockDecrypt string "string option" KeystoreBlob
  | SaveSession "byte list" after_save
  | SealWrite KeystoreBlob "byte list"
  | RemoveLegacy
  | ReadBlob
  | ReadKey KeystoreBlob
  | ReadImport KeystoreBlob string
  | ReadDecrypt KeystoreBlob "byte list"
  | ReadClear
  | WriteBlob json
  | WriteKey json KeystoreBlob
  | WriteImport json KeystoreBlob string
  | WriteSave KeystoreBlob
  | CheckKey
  | CheckImport string
  | CheckSealed
  | StatusBlob
  | StatusLegacy
  | LockRemove
  | WipeRemove
  | WipeSession
  | Returned vresult

record vcall =
  vc_realm :: nat
  vc_stage :: vstage

record vault =
  va_blob :: "KeystoreBlob option"
  va_legacy :: "json option"
  va_session :: "string option"
  va_cache :: "nat \<Rightarrow> byte list option"
  va_calls :: "nat \<Rightarrow> vcall option"

datatype vop =
    OpSeal string json
  | OpUnlock string
  | OpRead
  | OpWrite json
  | OpChangePassword string string
  | OpLock
  | OpWipe
  | OpIsUnlocked
  | OpIsSealed
  | OpStatus

subsection \<open>Pieces\<close>

definition setCache :: "nat \<Rightarrow> byte list option \<Rightarrow> vault \<Rightarrow> vault" where
  "setCache r k w = w \<lparr> va_cache := (va_cache w)(r := k) \<rparr>"

definition atStage :: "nat \<Rightarrow> vcall \<Rightarrow> vstage \<Rightarrow> vault \<Rightarrow> vault" where
  "atStage i c st w = w \<lparr> va_calls := (va_calls w)(i \<mapsto> c \<lparr> vc_stage := st \<rparr>) \<rparr>"

definition encryptedBlob :: "crypto \<Rightarrow> luck \<Rightarrow> byte list \<Rightarrow> json \<Rightarrow> KeystoreBlob \<Rightarrow> KeystoreBlob" where
  "encryptedBlob C l key st b =
     b \<lparr> kb_iv := bytesToBase64 (lk_iv l), kb_ciphertext := bytesToBase64 (cy_encrypt C key (lk_iv l) (cy_stringify C st)),
         kb_updatedAt := lk_now l \<rparr>"

definition sealedBlob :: "crypto \<Rightarrow> luck \<Rightarrow> byte list \<Rightarrow> json \<Rightarrow> KeystoreBlob" where
  "sealedBlob C l key st =
     \<lparr> kb_schema = KEYSTORE_SCHEMA, kb_salt = bytesToBase64 (lk_salt l), kb_iv = bytesToBase64 (lk_iv l),
       kb_ciphertext = bytesToBase64 (cy_encrypt C key (lk_iv l) (cy_stringify C st)), kb_iterations = PBKDF2_ITERATIONS,
       kb_createdAt = lk_now l, kb_updatedAt = lk_now l \<rparr>"

text \<open>\<open>seal\<close> up to the first request to the storage.\<close>

definition sealStart :: "crypto \<Rightarrow> luck \<Rightarrow> string \<Rightarrow> json \<Rightarrow> vstage" where
  "sealStart C l password st =
     (if length password < 8 then Returned (VThrow ''Password must be at least 8 characters'')
      else let key = cy_derive C password (lk_salt l) PBKDF2_ITERATIONS in SealWrite (sealedBlob C l key st) key)"

text \<open>The plaintext of a blob: undecodable base64 or a failed decryption is \<open>None\<close>.\<close>

definition plaintext :: "crypto \<Rightarrow> byte list \<Rightarrow> KeystoreBlob \<Rightarrow> string option" where
  "plaintext C key b =
     (case (base64ToBytes (kb_iv b), base64ToBytes (kb_ciphertext b)) of
        (Some iv, Some ct) \<Rightarrow> cy_decrypt C key iv ct | _ \<Rightarrow> None)"

definition afterSave :: "crypto \<Rightarrow> luck \<Rightarrow> after_save \<Rightarrow> vstage" where
  "afterSave C l next' =
     (case next' of
        ThenReturn t \<Rightarrow> (case cy_parse C t of Some v \<Rightarrow> Returned (VState v) | None \<Rightarrow> Returned (VThrow ''SyntaxError''))
      | ThenRemoveLegacy \<Rightarrow> RemoveLegacy
      | ThenSeal password t \<Rightarrow> (case cy_parse C t of Some v \<Rightarrow> sealStart C l password v | None \<Rightarrow> Returned (VThrow ''SyntaxError'')))"

text \<open>\<open>saveSessionKey\<close>: the copy of the realm at once, that of the session storage if there is one.\<close>

definition saveKey :: "crypto \<Rightarrow> luck \<Rightarrow> nat \<Rightarrow> vcall \<Rightarrow> byte list \<Rightarrow> after_save \<Rightarrow> vault \<Rightarrow> vault" where
  "saveKey C l i c key next' w =
     (let w1 = setCache (vc_realm c) (Some key) w in
      if cy_session C then atStage i c (SaveSession key next') w1
      else atStage i c (afterSave C l next') w1)"

text \<open>\<open>loadSessionKeyFromStorage\<close>: the copy of the realm, else the session storage, else nothing.\<close>

definition loadKey :: "crypto \<Rightarrow> luck \<Rightarrow> nat \<Rightarrow> vault \<Rightarrow> (byte list \<Rightarrow> vstage) \<Rightarrow> (string \<Rightarrow> vstage) \<Rightarrow> vstage \<Rightarrow> vstage" where
  "loadKey C l r w found import' missing =
     (case va_cache w r of
        Some k \<Rightarrow> found k
      | None \<Rightarrow> if \<not> cy_session C \<or> \<not> lk_ok l then missing
          else (case va_session w of Some b64 \<Rightarrow> import' b64 | None \<Rightarrow> missing))"

definition importKey :: "nat \<Rightarrow> vcall \<Rightarrow> string \<Rightarrow> (byte list \<Rightarrow> vstage) \<Rightarrow> vstage \<Rightarrow> vault \<Rightarrow> vault" where
  "importKey i c b64 found missing w =
     (case base64ToBytes b64 of
        Some k \<Rightarrow> atStage i c (found k) (setCache (vc_realm c) (Some k) w)
      | None \<Rightarrow> atStage i c missing w)"

text \<open>A request to the local storage throws when the browser refuses it.\<close>

definition orThrows :: "nat \<Rightarrow> vcall \<Rightarrow> luck \<Rightarrow> vault \<Rightarrow> vault \<Rightarrow> vault" where
  "orThrows i c l w w' = (if lk_ok l then w' else atStage i c (Returned (VThrow ''Error'')) w)"

definition afterDecrypt :: "crypto \<Rightarrow> KeystoreBlob \<Rightarrow> byte list \<Rightarrow> vstage" where
  "afterDecrypt C b key =
     (case plaintext C key b of
        None \<Rightarrow> ReadClear
      | Some t \<Rightarrow> (case cy_parse C t of Some v \<Rightarrow> Returned (VState v) | None \<Rightarrow> ReadClear))"

definition NO_KEYSTORE :: vresult where "NO_KEYSTORE = VThrow ''No keystore initialized''"
definition WrongPassword :: vresult where "WrongPassword = VThrow ''Incorrect password''"
definition KeystoreLocked :: vresult where "KeystoreLocked = VThrow ''Keystore is locked''"

subsection \<open>Steps\<close>

definition vstart :: "crypto \<Rightarrow> luck \<Rightarrow> vop \<Rightarrow> vstage" where
  "vstart C l oper =
     (case oper of
        OpSeal password st \<Rightarrow> sealStart C l password st
      | OpUnlock password \<Rightarrow> UnlockRead password None
      | OpRead \<Rightarrow> ReadBlob
      | OpWrite st \<Rightarrow> WriteBlob st
      | OpChangePassword old new \<Rightarrow>
          if length new < 8 then Returned (VThrow ''New password must be at least 8 characters'') else UnlockRead old (Some new)
      | OpLock \<Rightarrow> LockRemove
      | OpWipe \<Rightarrow> WipeRemove
      | OpIsUnlocked \<Rightarrow> CheckKey
      | OpIsSealed \<Rightarrow> CheckSealed
      | OpStatus \<Rightarrow> StatusBlob)"

text \<open>\<open>lock\<close> and \<open>wipe\<close> drop the copy of their realm before anything else.\<close>

definition dropsCache :: "vop \<Rightarrow> bool" where
  "dropsCache oper \<longleftrightarrow> oper = OpLock \<or> oper = OpWipe"

definition vcallStart :: "crypto \<Rightarrow> nat \<Rightarrow> nat \<Rightarrow> vop \<Rightarrow> luck \<Rightarrow> vault \<Rightarrow> vault" where
  "vcallStart C i r oper l w =
     (if va_calls w i \<noteq> None then w
      else let w1 = (if dropsCache oper then setCache r None w else w)
        in w1 \<lparr> va_calls := (va_calls w1)(i \<mapsto> \<lparr> vc_realm = r, vc_stage = vstart C l oper \<rparr>) \<rparr>)"

fun vresume :: "crypto \<Rightarrow> luck \<Rightarrow> nat \<Rightarrow> vcall \<Rightarrow> vstage \<Rightarrow> vault \<Rightarrow> vault" where
  "vresume C l i c (UnlockRead password new) w = orThrows i c l w
     (case va_blob w of
        None \<Rightarrow> atStage i c (Returned NO_KEYSTORE) w
      | Some b \<Rightarrow> if base64ToBytes (kb_salt b) = None \<or> base64ToBytes (kb_iv b) = None
          then atStage i c (Returned (VThrow ''InvalidCharacterError'')) w
          else atStage i c (UnlockDecrypt password new b) w)"
| "vresume C l i c (UnlockDecrypt password new b) w =
     (let key = cy_derive C password (the (base64ToBytes (kb_salt b))) (kb_iterations b) in
      case plaintext C key b of
        None \<Rightarrow> atStage i c (Returned WrongPassword) w
      | Some t \<Rightarrow> saveKey C l i c key (case new of None \<Rightarrow> ThenReturn t | Some p \<Rightarrow> ThenSeal p t) w)"
| "vresume C l i c (SaveSession key next') w =
     atStage i c (afterSave C l next') (if lk_ok l then w \<lparr> va_session := Some (bytesToBase64 key) \<rparr> else w)"
| "vresume C l i c (SealWrite b key) w = orThrows i c l w (saveKey C l i c key ThenRemoveLegacy (w \<lparr> va_blob := Some b \<rparr>))"
| "vresume C l i c RemoveLegacy w = orThrows i c l w (atStage i c (Returned VDone) (w \<lparr> va_legacy := None \<rparr>))"
| "vresume C l i c ReadBlob w = orThrows i c l w
     (case va_blob w of None \<Rightarrow> atStage i c (Returned VNull) w | Some b \<Rightarrow> atStage i c (ReadKey b) w)"
| "vresume C l i c (ReadKey b) w = atStage i c (loadKey C l (vc_realm c) w (ReadDecrypt b) (ReadImport b) (Returned VNull)) w"
| "vresume C l i c (ReadImport b b64) w = importKey i c b64 (ReadDecrypt b) (Returned VNull) w"
| "vresume C l i c (ReadDecrypt b key) w =
     (case base64ToBytes (kb_iv b) of
        None \<Rightarrow> atStage i c (Returned (VThrow ''InvalidCharacterError'')) w
      | Some iv \<Rightarrow> (case afterDecrypt C b key of
          ReadClear \<Rightarrow> let w1 = setCache (vc_realm c) None w in
            if cy_session C then atStage i c ReadClear w1 else atStage i c (Returned VNull) w1
        | st \<Rightarrow> atStage i c st w))"
| "vresume C l i c ReadClear w = atStage i c (Returned VNull) (if lk_ok l then w \<lparr> va_session := None \<rparr> else w)"
| "vresume C l i c (WriteBlob st) w = orThrows i c l w
     (case va_blob w of None \<Rightarrow> atStage i c (Returned NO_KEYSTORE) w | Some b \<Rightarrow> atStage i c (WriteKey st b) w)"
| "vresume C l i c (WriteKey st b) w =
     atStage i c (loadKey C l (vc_realm c) w (\<lambda>key. WriteSave (encryptedBlob C l key st b)) (WriteImport st b) (Returned KeystoreLocked)) w"
| "vresume C l i c (WriteImport st b b64) w = importKey i c b64 (\<lambda>key. WriteSave (encryptedBlob C l key st b)) (Returned KeystoreLocked) w"
| "vresume C l i c (WriteSave b) w = orThrows i c l w (atStage i c (Returned VDone) (w \<lparr> va_blob := Some b \<rparr>))"
| "vresume C l i c CheckKey w =
     atStage i c (loadKey C l (vc_realm c) w (\<lambda>k. Returned (VBool True)) CheckImport (Returned (VBool False))) w"
| "vresume C l i c (CheckImport b64) w = importKey i c b64 (\<lambda>k. Returned (VBool True)) (Returned (VBool False)) w"
| "vresume C l i c CheckSealed w = orThrows i c l w (atStage i c (Returned (VBool (va_blob w \<noteq> None))) w)"
| "vresume C l i c StatusBlob w = orThrows i c l w
     (case va_blob w of Some b \<Rightarrow> atStage i c (Returned (VStatus (Sealed b))) w | None \<Rightarrow> atStage i c StatusLegacy w)"
| "vresume C l i c StatusLegacy w = orThrows i c l w
     (atStage i c (Returned (VStatus (case va_legacy w of
        Some v \<Rightarrow> (case v of JObj kvs \<Rightarrow> NeedsPassword v | JArr vs \<Rightarrow> NeedsPassword v | _ \<Rightarrow> Fresh) | None \<Rightarrow> Fresh))) w)"
| "vresume C l i c LockRemove w = atStage i c (Returned VDone) (if cy_session C \<and> lk_ok l then w \<lparr> va_session := None \<rparr> else w)"
| "vresume C l i c WipeRemove w = orThrows i c l w
     (let w1 = setCache (vc_realm c) None (w \<lparr> va_blob := None, va_legacy := None \<rparr>) in
      if cy_session C then atStage i c WipeSession w1 else atStage i c (Returned VDone) w1)"
| "vresume C l i c WipeSession w = atStage i c (Returned VDone) (if lk_ok l then w \<lparr> va_session := None \<rparr> else w)"
| "vresume C l i c (Returned r) w = w"

datatype vault_event =
    VCall nat nat vop luck
  | VResume nat luck
  | VChanged nat
  | VKill nat
  | VBrowserRestart

text \<open>
  \<open>chrome.storage.onChanged\<close> reaches a realm; a realm is torn down with its calls; a new browser session has neither
  realms nor session storage.
\<close>

fun vevent :: "crypto \<Rightarrow> vault_event \<Rightarrow> vault \<Rightarrow> vault" where
  "vevent C (VCall i r oper l) w = vcallStart C i r oper l w"
| "vevent C (VResume i l) w = (case va_calls w i of None \<Rightarrow> w | Some c \<Rightarrow> vresume C l i c (vc_stage c) w)"
| "vevent C (VChanged r) w = setCache r None w"
| "vevent C (VKill r) w =
     setCache r None (w \<lparr> va_calls := (\<lambda>i. case va_calls w i of None \<Rightarrow> None | Some c \<Rightarrow>
       Some (if vc_realm c = r then c \<lparr> vc_stage := Returned (VThrow ''killed'') \<rparr> else c)) \<rparr>)"
| "vevent C VBrowserRestart w =
     w \<lparr> va_session := None, va_cache := (\<lambda>r. None),
         va_calls := (\<lambda>i. map_option (\<lambda>c. c \<lparr> vc_stage := Returned (VThrow ''killed'') \<rparr>) (va_calls w i)) \<rparr>"

definition runVault :: "crypto \<Rightarrow> vault_event list \<Rightarrow> vault \<Rightarrow> vault" where
  "runVault C evs w = fold (vevent C) evs w"

definition vaultStart :: "json option \<Rightarrow> vault" where
  "vaultStart legacy = \<lparr> va_blob = None, va_legacy = legacy, va_session = None, va_cache = (\<lambda>r. None), va_calls = (\<lambda>i. None) \<rparr>"

definition resultOf :: "nat \<Rightarrow> vault \<Rightarrow> vresult option" where
  "resultOf i w = (case va_calls w i of Some c \<Rightarrow> (case vc_stage c of Returned r \<Rightarrow> Some r | _ \<Rightarrow> None) | None \<Rightarrow> None)"

subsection \<open>Password strength\<close>

definition isLower :: "char \<Rightarrow> bool" where "isLower c \<longleftrightarrow> char_code c \<in> {97..122}"
definition isUpper :: "char \<Rightarrow> bool" where "isUpper c \<longleftrightarrow> char_code c \<in> {65..90}"
definition isDigit :: "char \<Rightarrow> bool" where "isDigit c \<longleftrightarrow> char_code c \<in> {48..57}"

definition scorePasswordStrength :: "string \<Rightarrow> nat \<times> string" where
  "scorePasswordStrength password =
     (if password = [] then (0, ''Empty'')
      else let score = (if length password \<ge> 8 then 1 else 0) + (if length password \<ge> 12 then 1 else 0)
             + (if list_ex isLower password \<and> list_ex isUpper password then 1 else 0)
             + (if list_ex isDigit password \<and> list_ex (\<lambda>c. \<not> isLower c \<and> \<not> isUpper c \<and> \<not> isDigit c) password then 1 else 0);
           clamped = min score 4
        in (clamped, [''Very weak'', ''Weak'', ''Fair'', ''Strong'', ''Very strong''] ! clamped))"

end
