(* ===== verification/KeystoreSafety.thy ===== *)
theory KeystoreSafety
  imports Keystore
begin

text \<open>
  What the keystore keeps: base64 text reads back, and a state that comes out of the vault went into it.
\<close>

subsection \<open>Base64 reads back\<close>

fun b64_digits :: "byte list \<Rightarrow> nat list" where
  "b64_digits (a # b # c # s) =
     unat a div 4 # (unat a mod 4 * 16 + unat b div 16) # (unat b mod 16 * 4 + unat c div 64) # unat c mod 64 # b64_digits s"
| "b64_digits [a, b] = [unat a div 4, unat a mod 4 * 16 + unat b div 16, unat b mod 16 * 4]"
| "b64_digits [a] = [unat a div 4, unat a mod 4 * 16]"
| "b64_digits [] = []"

definition b64_pad :: "byte list \<Rightarrow> string" where
  "b64_pad s = (case length s mod 3 of 0 \<Rightarrow> '''' | Suc 0 \<Rightarrow> ''=='' | _ \<Rightarrow> ''='')"

lemma unat_byte: "unat (a :: byte) < 256"
  using unsigned_less [of a, where 'a = nat] by simp

lemma byte_parts:
  fixes x y z :: nat
  assumes "x < 256" "y < 256" "z < 256"
  shows "x div 4 < 64" "x mod 4 * 16 + y div 16 < 64" "y mod 16 * 4 + z div 64 < 64" "x mod 4 * 16 < 64" "y mod 16 * 4 < 64"
    "(x mod 4 * 16 + y div 16) div 16 = x mod 4" "(x mod 4 * 16 + y div 16) mod 16 = y div 16"
    "(y mod 16 * 4 + z div 64) div 4 = y mod 16" "(y mod 16 * 4 + z div 64) mod 4 = z div 64"
proof -
  have d: "y div 16 < 16" "z div 64 < 4" "x mod 4 < 4" "y mod 16 < 16" using assms by auto
  then show "x div 4 < 64" "x mod 4 * 16 + y div 16 < 64" "y mod 16 * 4 + z div 64 < 64" "x mod 4 * 16 < 64" "y mod 16 * 4 < 64"
    using assms(1) by linarith+
  show "(x mod 4 * 16 + y div 16) div 16 = x mod 4" "(x mod 4 * 16 + y div 16) mod 16 = y div 16"
    "(y mod 16 * 4 + z div 64) div 4 = y mod 16" "(y mod 16 * 4 + z div 64) mod 4 = z div 64"
    using d by simp_all
qed

lemma digits_small: "d \<in> set (b64_digits s) \<Longrightarrow> d < 64"
proof (induction s rule: b64_digits.induct)
  case (1 a b c s)
  note p = byte_parts [OF unat_byte [of a] unat_byte [of b] unat_byte [of c]]
  have "unat c mod 64 < 64" by simp
  then show ?case using 1 p by (auto simp del: mod_less_divisor)
next
  case (2 a b)
  then show ?case using byte_parts [OF unat_byte [of a] unat_byte [of b] unat_byte [of b]] by auto
next
  case (3 a)
  then show ?case using byte_parts [OF unat_byte [of a] unat_byte [of a] unat_byte [of a]] by auto
qed simp

lemma bytesToBase64_digits: "bytesToBase64 s = map b64_char (b64_digits s) @ b64_pad s"
  by (induction s rule: b64_digits.induct) (simp_all add: b64_pad_def split: nat.split)

lemma char_index:
  assumes "n < 64"
  shows "index_of B64_ALPHABET (b64_char n) = Some n" "b64_char n \<noteq> CHR ''=''" "char_code (b64_char n) \<notin> {9, 10, 12, 13, 32}"
proof -
  have "list_all (\<lambda>n. index_of B64_ALPHABET (b64_char n) = Some n \<and> b64_char n \<noteq> CHR ''='' \<and> char_code (b64_char n) \<notin> {9, 10, 12, 13, 32}) [0..<64]"
    by code_simp
  then have "index_of B64_ALPHABET (b64_char n) = Some n \<and> b64_char n \<noteq> CHR ''='' \<and> char_code (b64_char n) \<notin> {9, 10, 12, 13, 32}"
    using assms unfolding list_all_iff by simp
  then show "index_of B64_ALPHABET (b64_char n) = Some n" "b64_char n \<noteq> CHR ''=''" "char_code (b64_char n) \<notin> {9, 10, 12, 13, 32}"
    by blast+
qed

lemma digits_length: "length (b64_digits s) mod 4 = (case length s mod 3 of 0 \<Rightarrow> 0 | Suc 0 \<Rightarrow> 2 | _ \<Rightarrow> 3)"
  by (induction s rule: b64_digits.induct) (simp_all split: nat.split)

lemma groups_digits: "b64_groups (b64_digits s) = map unat s"
proof (induction s rule: b64_digits.induct)
  case (1 a b c s)
  then show ?case using byte_parts [OF unat_byte [of a] unat_byte [of b] unat_byte [of c]] by simp
next
  case (2 a b)
  then show ?case using byte_parts [OF unat_byte [of a] unat_byte [of b] unat_byte [of b]] by simp
qed simp_all

lemma strip_plain:
  assumes "\<forall>c\<in>set s. c \<noteq> CHR ''=''" "length s mod 4 = (case n mod 3 of 0 \<Rightarrow> 0 | Suc 0 \<Rightarrow> 2 | _ \<Rightarrow> 3)"
  shows "strip_padding (s @ (case n mod 3 of 0 \<Rightarrow> '''' | Suc 0 \<Rightarrow> ''=='' | _ \<Rightarrow> ''='')) = s"
proof -
  have ends: "drop (length t - 1) t = ''='' \<Longrightarrow> t \<noteq> [] \<Longrightarrow> last t = CHR ''=''" "drop (length t - 2) t = ''=='' \<Longrightarrow> t \<noteq> [] \<and> last t = CHR ''=''" for t :: string
    by (metis append_take_drop_id last_appendR last.simps list.distinct(1))
      (metis append_take_drop_id append_is_Nil_conv last_appendR last.simps list.distinct(1))
  have l: "s \<noteq> [] \<Longrightarrow> last s \<noteq> CHR ''=''" using assms(1) by simp
  consider "n mod 3 = 0" | "n mod 3 = Suc 0" | "n mod 3 = Suc (Suc 0)" by linarith
  then show ?thesis
  proof cases
    case 1
    moreover have "drop (length s - 1) s \<noteq> ''=''" "drop (length s - 2) s \<noteq> ''==''" if "s \<noteq> []" using l ends [of s] that by blast+
    ultimately show ?thesis by (cases "s = []") (simp_all add: strip_padding_def)
  next
    case 2
    then have "(length s + 2) mod 4 = 0" using assms(2) by (simp; presburger)
    then show ?thesis using 2 by (simp add: strip_padding_def)
  next
    case 3
    then have m: "length s mod 4 = 3" using assms(2) by simp
    then have "(length s + 1) mod 4 = 0" "s \<noteq> []" by (presburger, auto)
    moreover have "drop (length s - 1) s = [last s]" using \<open>s \<noteq> []\<close> by (metis append_butlast_last_id append_eq_conv_conj length_butlast)
    ultimately show ?thesis using 3 l by (simp add: strip_padding_def)
  qed
qed

lemma base64_back: "base64ToBytes (bytesToBase64 s) = Some s"
proof -
  let ?t = "map b64_char (b64_digits s)"
  have c: "\<forall>c\<in>set ?t. c \<noteq> CHR ''=''" "\<forall>c\<in>set ?t. char_code c \<notin> {9, 10, 12, 13, 32}" "\<forall>c\<in>set ?t. index_of B64_ALPHABET c \<noteq> None"
    using char_index digits_small by auto
  have pad: "filter (\<lambda>c. char_code c \<notin> {9, 10, 12, 13, 32}) (b64_pad s) = b64_pad s"
    by (auto simp: b64_pad_def char_code_def split: nat.split)
  have "filter (\<lambda>c. char_code c \<notin> {9, 10, 12, 13, 32}) (bytesToBase64 s) = ?t @ b64_pad s"
    unfolding bytesToBase64_digits filter_append pad using c(2) by (simp only: filter_True)
  moreover have "strip_padding (?t @ b64_pad s) = ?t"
    unfolding b64_pad_def by (rule strip_plain [OF c(1)]) (simp add: digits_length)
  moreover have "map (\<lambda>c. the (index_of B64_ALPHABET c)) ?t = b64_digits s"
    using char_index(1) digits_small by (simp add: map_idI)
  moreover have "length ?t mod 4 \<noteq> 1" using digits_length [of s] by (simp split: nat.split_asm)
  ultimately show ?thesis
    using c(3) by (simp add: base64ToBytes_def decodeBase64_def Let_def list_all_iff groups_digits comp_def)
qed

subsection \<open>Only what was stored comes out\<close>

text \<open>AES-GCM decrypts a ciphertext to its plaintext or not at all.\<close>

definition authentic :: "crypto \<Rightarrow> bool" where
  "authentic C \<longleftrightarrow> (\<forall>k k' iv t t'. cy_decrypt C k iv (cy_encrypt C k' iv t) = Some t' \<longrightarrow> t' = t)"

definition holdsOne :: "crypto \<Rightarrow> json set \<Rightarrow> KeystoreBlob \<Rightarrow> bool" where
  "holdsOne C V b \<longleftrightarrow> (\<exists>k iv s. s \<in> V \<and> kb_iv b = bytesToBase64 iv \<and> kb_ciphertext b = bytesToBase64 (cy_encrypt C k iv (cy_stringify C s)))"

definition textIn :: "crypto \<Rightarrow> json set \<Rightarrow> after_save \<Rightarrow> bool" where
  "textIn C V a = (case a of ThenReturn t \<Rightarrow> t \<in> cy_stringify C ` V | ThenSeal p t \<Rightarrow> t \<in> cy_stringify C ` V | ThenRemoveLegacy \<Rightarrow> True)"

fun stageHolds :: "crypto \<Rightarrow> json set \<Rightarrow> vstage \<Rightarrow> bool" where
  "stageHolds C V (UnlockDecrypt p new b) = holdsOne C V b"
| "stageHolds C V (SaveSession k a) = textIn C V a"
| "stageHolds C V (SealWrite b k) = holdsOne C V b"
| "stageHolds C V (ReadKey b) = holdsOne C V b"
| "stageHolds C V (ReadImport b t) = holdsOne C V b"
| "stageHolds C V (ReadDecrypt b k) = holdsOne C V b"
| "stageHolds C V (WriteBlob st) = (st \<in> V)"
| "stageHolds C V (WriteKey st b) = (st \<in> V)"
| "stageHolds C V (WriteImport st b t) = (st \<in> V)"
| "stageHolds C V (WriteSave b) = holdsOne C V b"
| "stageHolds C V (Returned (VState v)) = (v \<in> V)"
| "stageHolds C V st = True"

definition vaultInv :: "crypto \<Rightarrow> json set \<Rightarrow> vault \<Rightarrow> bool" where
  "vaultInv C V w \<longleftrightarrow> (\<forall>b. va_blob w = Some b \<longrightarrow> holdsOne C V b) \<and> (\<forall>i c. va_calls w i = Some c \<longrightarrow> stageHolds C V (vc_stage c))"

definition stored :: "vop \<Rightarrow> json set" where
  "stored oper = (case oper of OpSeal p st \<Rightarrow> {st} | OpWrite st \<Rightarrow> {st} | _ \<Rightarrow> {})"

fun storedBy :: "vault_event \<Rightarrow> json set" where
  "storedBy (VCall i r oper l) = stored oper"
| "storedBy ev = {}"

definition faithful :: "crypto \<Rightarrow> json set \<Rightarrow> bool" where
  "faithful C V \<longleftrightarrow> (\<forall>s\<in>V. cy_parse C (cy_stringify C s) = Some s)"

lemma holds_plaintext:
  assumes "authentic C" "holdsOne C V b" "plaintext C k b = Some t"
  shows "t \<in> cy_stringify C ` V"
proof -
  obtain k' iv s where b: "s \<in> V" "kb_iv b = bytesToBase64 iv" "kb_ciphertext b = bytesToBase64 (cy_encrypt C k' iv (cy_stringify C s))"
    using assms(2) by (auto simp: holdsOne_def)
  then have "cy_decrypt C k iv (cy_encrypt C k' iv (cy_stringify C s)) = Some t"
    using assms(3) by (simp add: plaintext_def base64_back)
  then show ?thesis using assms(1) b(1) unfolding authentic_def by blast
qed

lemma holds_encrypted: "st \<in> V \<Longrightarrow> holdsOne C V (encryptedBlob C l k st b)" "st \<in> V \<Longrightarrow> holdsOne C V (sealedBlob C l k st)"
  by (auto simp: holdsOne_def encryptedBlob_def sealedBlob_def)

lemma holds_sealStart: "st \<in> V \<Longrightarrow> stageHolds C V (sealStart C l p st)"
  by (simp add: sealStart_def Let_def holds_encrypted)

lemma holds_afterSave: "faithful C V \<Longrightarrow> textIn C V a \<Longrightarrow> stageHolds C V (afterSave C l a)"
  by (cases a) (auto simp: textIn_def afterSave_def faithful_def holds_sealStart)

lemma holds_errors [simp]:
  "stageHolds C V (Returned WrongPassword)" "stageHolds C V (Returned NO_KEYSTORE)" "stageHolds C V (Returned KeystoreLocked)"
  by (simp_all add: WrongPassword_def NO_KEYSTORE_def KeystoreLocked_def)

lemma inv_atStage: "vaultInv C V w \<Longrightarrow> stageHolds C V st \<Longrightarrow> vaultInv C V (atStage i c st w)"
  by (simp add: vaultInv_def atStage_def)

lemma inv_frame [simp]:
  "vaultInv C V (setCache r k w) = vaultInv C V w" "vaultInv C V (w \<lparr> va_session := s \<rparr>) = vaultInv C V w"
  "vaultInv C V (w \<lparr> va_legacy := g \<rparr>) = vaultInv C V w"
  by (simp_all add: vaultInv_def setCache_def)

lemma inv_blob: "vaultInv C V w \<Longrightarrow> holdsOne C V b \<Longrightarrow> vaultInv C V (w \<lparr> va_blob := Some b \<rparr>)"
  "vaultInv C V w \<Longrightarrow> vaultInv C V (w \<lparr> va_blob := None \<rparr>)"
  by (simp_all add: vaultInv_def)

lemma inv_orThrows: "vaultInv C V w \<Longrightarrow> vaultInv C V w' \<Longrightarrow> vaultInv C V (orThrows i c l w w')"
  by (simp add: orThrows_def inv_atStage)

lemma inv_saveKey: "faithful C V \<Longrightarrow> vaultInv C V w \<Longrightarrow> textIn C V a \<Longrightarrow> vaultInv C V (saveKey C l i c k a w)"
  by (simp add: saveKey_def Let_def inv_atStage holds_afterSave)

lemma inv_importKey:
  "vaultInv C V w \<Longrightarrow> (\<And>k. stageHolds C V (found k)) \<Longrightarrow> stageHolds C V missing \<Longrightarrow> vaultInv C V (importKey i c t found missing w)"
  by (simp add: importKey_def inv_atStage split: option.split)

lemma holds_loadKey:
  "(\<And>k. stageHolds C V (found k)) \<Longrightarrow> (\<And>t. stageHolds C V (import' t)) \<Longrightarrow> stageHolds C V missing \<Longrightarrow>
   stageHolds C V (loadKey C l r w found import' missing)"
  by (simp add: loadKey_def split: option.split)

lemma holds_afterDecrypt: "authentic C \<Longrightarrow> faithful C V \<Longrightarrow> holdsOne C V b \<Longrightarrow> stageHolds C V (afterDecrypt C b k)"
  using holds_plaintext by (fastforce simp: afterDecrypt_def faithful_def split: option.split)

lemma inv_vresume:
  assumes "authentic C" "faithful C V" "vaultInv C V w" "stageHolds C V st"
  shows "vaultInv C V (vresume C l i c st w)"
proof (cases "(C, l, i, c, st, w)" rule: vresume.cases)
  case (2 C' l' i' c' p new b w')
  have "textIn C V (case new of None \<Rightarrow> ThenReturn t | Some p \<Rightarrow> ThenSeal p t)" if "plaintext C k b = Some t" for k t
    using holds_plaintext [OF assms(1) _ that] 2 assms(4) by (simp add: textIn_def split: option.split)
  then show ?thesis using 2 assms by (simp add: Let_def inv_atStage inv_saveKey split: option.split)
next
  case (9 C' l' i' c' b k w')
  then have "stageHolds C V (afterDecrypt C b k)" using holds_afterDecrypt assms by simp
  then show ?thesis using 9 assms(3)
    by (cases "afterDecrypt C b k") (auto simp: Let_def inv_atStage split: option.split)
next
  case (18 C' l' i' c' w')
  then show ?thesis using assms(3) by (auto intro!: inv_orThrows inv_atStage split: option.split)
qed (use assms in \<open>auto simp: Let_def vaultInv_def [of C V w] textIn_def
    intro!: inv_orThrows inv_atStage inv_saveKey inv_importKey holds_loadKey holds_afterSave inv_blob holds_encrypted split: option.split\<close>)

lemma holds_vstart: "stored oper \<subseteq> V \<Longrightarrow> stageHolds C V (vstart C l oper)"
  by (cases oper) (auto simp: stored_def vstart_def holds_sealStart)

lemma inv_vevent:
  assumes "authentic C" "faithful C V" "vaultInv C V w" "storedBy ev \<subseteq> V"
  shows "vaultInv C V (vevent C ev w)"
proof (cases ev)
  case (VCall i r oper l)
  then have "stageHolds C V (vstart C l oper)" using holds_vstart assms(4) by simp
  then show ?thesis using VCall assms(3) by (auto simp: vcallStart_def Let_def vaultInv_def setCache_def)
next
  case (VResume i l)
  then show ?thesis using assms by (auto simp: inv_vresume vaultInv_def [of C V w] split: option.split)
qed (use assms(3) in \<open>auto simp: vaultInv_def setCache_def split: option.splits\<close>)

lemma inv_runVault:
  "authentic C \<Longrightarrow> faithful C V \<Longrightarrow> vaultInv C V w \<Longrightarrow> (\<Union>ev\<in>set evs. storedBy ev) \<subseteq> V \<Longrightarrow> vaultInv C V (runVault C evs w)"
  by (induction evs arbitrary: w) (simp_all add: runVault_def inv_vevent)

subsection \<open>A locked vault stays locked\<close>

text \<open>No realm has the key, the session storage has not, and no call is about to store it.\<close>

fun keyless :: "vstage \<Rightarrow> bool" where
  "keyless (UnlockRead p new) = False"
| "keyless (UnlockDecrypt p new b) = False"
| "keyless (SaveSession k a) = False"
| "keyless (SealWrite b k) = False"
| "keyless (ReadImport b t) = False"
| "keyless (ReadDecrypt b k) = False"
| "keyless (WriteImport st b t) = False"
| "keyless (CheckImport t) = False"
| "keyless st = True"

definition lockedVault :: "vault \<Rightarrow> bool" where
  "lockedVault w \<longleftrightarrow> va_session w = None \<and> (\<forall>r. va_cache w r = None) \<and> (\<forall>i c. va_calls w i = Some c \<longrightarrow> keyless (vc_stage c))"

definition opens :: "vop \<Rightarrow> bool" where
  "opens oper \<longleftrightarrow> (case oper of OpSeal p st \<Rightarrow> True | OpUnlock p \<Rightarrow> True | OpChangePassword p q \<Rightarrow> True | _ \<Rightarrow> False)"

fun unlocking :: "vault_event \<Rightarrow> bool" where
  "unlocking (VCall i r oper l) = opens oper"
| "unlocking ev = False"

lemma locked_frame [simp]:
  "lockedVault (w \<lparr> va_legacy := g \<rparr>) = lockedVault w" "lockedVault (w \<lparr> va_blob := b \<rparr>) = lockedVault w"
  "lockedVault w \<Longrightarrow> lockedVault (setCache r None w)" "lockedVault w \<Longrightarrow> lockedVault (w \<lparr> va_session := None \<rparr>)"
  by (simp_all add: lockedVault_def setCache_def)

lemma locked_atStage: "lockedVault w \<Longrightarrow> keyless st \<Longrightarrow> lockedVault (atStage i c st w)"
  by (simp add: lockedVault_def atStage_def)

lemma locked_orThrows: "lockedVault w \<Longrightarrow> lockedVault w' \<Longrightarrow> lockedVault (orThrows i c l w w')"
  by (simp add: orThrows_def locked_atStage)

lemma locked_loadKey: "lockedVault w \<Longrightarrow> loadKey C l r w found import' missing = missing"
  by (simp add: loadKey_def lockedVault_def)

lemma locked_vresume: "lockedVault w \<Longrightarrow> keyless st \<Longrightarrow> lockedVault (vresume C l i c st w)"
  by (cases "(C, l, i, c, st, w)" rule: vresume.cases)
    (auto simp: locked_loadKey Let_def intro!: locked_orThrows locked_atStage split: option.split)

lemma locked_vevent:
  assumes "lockedVault w" "\<not> unlocking ev"
  shows "lockedVault (vevent C ev w)"
proof (cases ev)
  case (VCall i r oper l)
  then have "keyless (vstart C l oper)" using assms(2) by (cases oper) (simp_all add: opens_def vstart_def)
  then show ?thesis using VCall assms(1) by (auto simp: vcallStart_def Let_def lockedVault_def setCache_def)
next
  case (VResume i l)
  then show ?thesis using assms(1) by (auto simp: locked_vresume lockedVault_def [of w] split: option.split)
qed (use assms(1) in \<open>auto simp: lockedVault_def setCache_def split: option.splits\<close>)

lemma resultOf_atStage [simp]:
  "resultOf j (atStage i c st w) = (if j = i then (case st of Returned r \<Rightarrow> Some r | _ \<Rightarrow> None) else resultOf j w)"
  by (simp add: resultOf_def atStage_def)

lemma resultOf_frame [simp]:
  "resultOf j (setCache r k w) = resultOf j w" "resultOf j (w \<lparr> va_session := s \<rparr>) = resultOf j w"
  "resultOf j (w \<lparr> va_blob := b \<rparr>) = resultOf j w" "resultOf j (w \<lparr> va_legacy := g \<rparr>) = resultOf j w"
  by (simp_all add: resultOf_def setCache_def)

lemma silent_vresume:
  assumes "lockedVault w" "keyless st" "resultOf j (vresume C l i c st w) = Some (VState v)" "st \<noteq> Returned (VState v)"
  shows "j \<noteq> i \<or> (\<exists>r. st = Returned r)" "j \<noteq> i \<Longrightarrow> resultOf j w = Some (VState v)"
  using assms(2-4) locked_loadKey [OF assms(1)]
  by (cases "(C, l, i, c, st, w)" rule: vresume.cases;
      auto simp: orThrows_def Let_def NO_KEYSTORE_def KeystoreLocked_def split: option.splits if_splits)+

lemma silent_vevent:
  assumes "lockedVault w" "\<not> unlocking ev" "resultOf j (vevent C ev w) = Some (VState v)"
  shows "resultOf j w = Some (VState v)"
proof (cases ev)
  case (VCall i r oper l)
  then have "vstart C l oper \<noteq> Returned x" for x using assms(2) by (cases oper) (auto simp: opens_def vstart_def)
  then show ?thesis using VCall assms(3)
    by (auto simp: vcallStart_def Let_def resultOf_def setCache_def split: option.splits if_splits vstage.splits)
next
  case (VResume i l)
  show ?thesis
  proof (cases "va_calls w i")
    case (Some c)
    show ?thesis
    proof (cases "\<exists>r. vc_stage c = Returned r")
      case True
      then show ?thesis using VResume Some assms(3) by auto
    next
      case False
      have k: "keyless (vc_stage c)" using assms(1) Some by (simp add: lockedVault_def)
      have r: "resultOf j (vresume C l i c (vc_stage c) w) = Some (VState v)" using VResume Some assms(3) by simp
      show ?thesis using silent_vresume [OF assms(1) k r] False by blast
    qed
  qed (use VResume assms(3) in simp)
qed (use assms(3) in \<open>auto simp: resultOf_def setCache_def split: option.splits if_splits\<close>)

lemma silent_run:
  "lockedVault w \<Longrightarrow> \<forall>ev\<in>set evs. \<not> unlocking ev \<Longrightarrow> resultOf j (runVault C evs w) = Some (VState v) \<Longrightarrow> resultOf j w = Some (VState v)"
proof (induction evs arbitrary: w)
  case (Cons ev evs)
  have "lockedVault (vevent C ev w)" using locked_vevent Cons.prems by simp
  then have "resultOf j (vevent C ev w) = Some (VState v)" using Cons.IH Cons.prems by (simp add: runVault_def)
  then show ?case using silent_vevent [of w ev] Cons.prems by simp
qed (simp add: runVault_def)

definition lockEvents :: "nat \<Rightarrow> nat \<Rightarrow> luck \<Rightarrow> nat list \<Rightarrow> vault_event list" where
  "lockEvents i r l rs = [VCall i r OpLock l, VResume i l] @ map VChanged rs"

lemma changed_caches: "runVault C (map VChanged rs) w = w \<lparr> va_cache := (\<lambda>r. if r \<in> set rs then None else va_cache w r) \<rparr>"
  by (induction rs arbitrary: w) (auto simp: runVault_def setCache_def fun_eq_iff)

end
