(* ===== verification/KeystoreRuns.thy ===== *)
theory KeystoreRuns
  imports KeystoreSafety
begin

text \<open>
  One call after the other the keystore is a safe with a password; interleaved it can lose the wallet or stay open
  after a lock.
\<close>

subsection \<open>The safe\<close>

text \<open>A password and a state, open or closed.\<close>

record safe =
  sf_content :: "(string \<times> json) option"
  sf_open :: bool

fun safeStep :: "vop \<Rightarrow> safe \<Rightarrow> vresult \<times> safe" where
  "safeStep (OpSeal p st) s =
     (if length p < 8 then (VThrow ''Password must be at least 8 characters'', s)
      else (VDone, \<lparr> sf_content = Some (p, st), sf_open = True \<rparr>))"
| "safeStep (OpUnlock p) s =
     (case sf_content s of
        None \<Rightarrow> (VThrow ''No keystore initialized'', s)
      | Some (q, st) \<Rightarrow> if p = q then (VState st, s \<lparr> sf_open := True \<rparr>) else (VThrow ''Incorrect password'', s))"
| "safeStep OpRead s =
     (case sf_content s of Some (q, st) \<Rightarrow> if sf_open s then (VState st, s) else (VNull, s) | None \<Rightarrow> (VNull, s))"
| "safeStep (OpWrite st) s =
     (case sf_content s of
        None \<Rightarrow> (VThrow ''No keystore initialized'', s)
      | Some (q, old) \<Rightarrow> if sf_open s then (VDone, s \<lparr> sf_content := Some (q, st) \<rparr>) else (VThrow ''Keystore is locked'', s))"
| "safeStep (OpChangePassword p new) s =
     (if length new < 8 then (VThrow ''New password must be at least 8 characters'', s)
      else case sf_content s of
        None \<Rightarrow> (VThrow ''No keystore initialized'', s)
      | Some (q, st) \<Rightarrow> if p = q then (VDone, \<lparr> sf_content = Some (new, st), sf_open = True \<rparr>) else (VThrow ''Incorrect password'', s))"
| "safeStep OpLock s = (VDone, s \<lparr> sf_open := False \<rparr>)"
| "safeStep OpWipe s = (VDone, \<lparr> sf_content = None, sf_open = False \<rparr>)"
| "safeStep OpIsUnlocked s = (VBool (sf_open s), s)"
| "safeStep OpIsSealed s = (VBool (sf_content s \<noteq> None), s)"
| "safeStep OpStatus s = (VNull, s)"

definition blobOf :: "crypto \<Rightarrow> KeystoreBlob \<Rightarrow> string \<Rightarrow> json \<Rightarrow> byte list \<Rightarrow> bool" where
  "blobOf C b p st key \<longleftrightarrow> (\<exists>salt iv. kb_salt b = bytesToBase64 salt \<and> kb_iv b = bytesToBase64 iv
     \<and> key = cy_derive C p salt (kb_iterations b) \<and> kb_ciphertext b = bytesToBase64 (cy_encrypt C key iv (cy_stringify C st)))"

definition refines :: "crypto \<Rightarrow> vault \<Rightarrow> safe \<Rightarrow> bool" where
  "refines C w s \<longleftrightarrow> (\<forall>r. va_cache w r = None) \<and>
     (case sf_content s of
        None \<Rightarrow> va_blob w = None \<and> va_session w = None \<and> \<not> sf_open s
      | Some (p, st) \<Rightarrow> (\<exists>b key. va_blob w = Some b \<and> blobOf C b p st key
          \<and> va_session w = (if sf_open s then Some (bytesToBase64 key) else None)))"

text \<open>A call that runs alone, and the change event in every realm.\<close>

definition alone :: "nat \<Rightarrow> nat \<Rightarrow> vop \<Rightarrow> luck \<Rightarrow> nat list \<Rightarrow> vault_event list" where
  "alone i r oper l rs = [VCall i r oper l, VResume i l, VResume i l, VResume i l, VResume i l, VResume i l, VResume i l] @ map VChanged rs"

text \<open>AES-GCM gives back what was encrypted, and nothing under the key of another of the passwords.\<close>

definition cipherWorks :: "crypto \<Rightarrow> string set \<Rightarrow> bool" where
  "cipherWorks C P \<longleftrightarrow> cy_session C \<and> (\<forall>k iv t. cy_decrypt C k iv (cy_encrypt C k iv t) = Some t)
     \<and> (\<forall>p\<in>P. \<forall>q\<in>P. \<forall>salt n iv t. p \<noteq> q \<longrightarrow> cy_decrypt C (cy_derive C p salt n) iv (cy_encrypt C (cy_derive C q salt n) iv t) = None)"

definition passwords :: "vop \<Rightarrow> string set" where
  "passwords oper = (case oper of OpSeal p st \<Rightarrow> {p} | OpUnlock p \<Rightarrow> {p} | OpChangePassword p q \<Rightarrow> {p, q} | _ \<Rightarrow> {})"

definition safeWithin :: "safe \<Rightarrow> string set \<Rightarrow> json set \<Rightarrow> bool" where
  "safeWithin s P V \<longleftrightarrow> (case sf_content s of None \<Rightarrow> True | Some (p, st) \<Rightarrow> p \<in> P \<and> st \<in> V)"

lemma vault_run_append: "runVault C (xs @ ys) w = runVault C ys (runVault C xs w)"
  by (simp add: runVault_def)

lemma resultOf_changed: "resultOf i (runVault C (map VChanged rs) w) = resultOf i w"
  by (simp add: changed_caches resultOf_def)

lemmas vault_eval = runVault_def vcallStart_def vstart_def dropsCache_def sealStart_def orThrows_def atStage_def setCache_def saveKey_def
  afterSave_def loadKey_def importKey_def afterDecrypt_def plaintext_def base64_back Let_def resultOf_def
  NO_KEYSTORE_def WrongPassword_def KeystoreLocked_def

lemma blob_opens:
  assumes "cipherWorks C P" "faithful C V" "st \<in> V" "p \<in> P" "q \<in> P" "blobOf C b p st key"
  obtains salt iv where "kb_salt b = bytesToBase64 salt" "kb_iv b = bytesToBase64 iv" "key = cy_derive C p salt (kb_iterations b)"
    "kb_ciphertext b = bytesToBase64 (cy_encrypt C key iv (cy_stringify C st))"
    "cy_decrypt C key iv (cy_encrypt C key iv (cy_stringify C st)) = Some (cy_stringify C st)"
    "cy_decrypt C (cy_derive C q salt (kb_iterations b)) iv (cy_encrypt C key iv (cy_stringify C st)) = (if q = p then Some (cy_stringify C st) else None)"
    "cy_parse C (cy_stringify C st) = Some st"
proof -
  obtain salt iv where b: "kb_salt b = bytesToBase64 salt" "kb_iv b = bytesToBase64 iv" "key = cy_derive C p salt (kb_iterations b)"
      "kb_ciphertext b = bytesToBase64 (cy_encrypt C key iv (cy_stringify C st))"
    using assms(6) unfolding blobOf_def by blast
  show thesis
    by (rule that [OF b]) (use assms(1-5) b in \<open>auto simp: cipherWorks_def faithful_def\<close>)
qed

definition ranAlone :: "crypto \<Rightarrow> nat \<Rightarrow> nat \<Rightarrow> vault \<Rightarrow> vault \<Rightarrow> vresult \<Rightarrow> safe \<Rightarrow> bool" where
  "ranAlone C i r w w' result s' \<longleftrightarrow> resultOf i w' = Some result \<and> (\<forall>q. q \<noteq> r \<longrightarrow> va_cache w' q = None)
     \<and> refines C (setCache r None w') s' \<and> (\<forall>j. j \<noteq> i \<longrightarrow> va_calls w' j = va_calls w j)"

definition onlyCall :: "nat \<Rightarrow> nat \<Rightarrow> vop \<Rightarrow> luck \<Rightarrow> vault_event list" where
  "onlyCall i r oper l = [VCall i r oper l, VResume i l, VResume i l, VResume i l, VResume i l, VResume i l, VResume i l]"

lemma caches_none: "refines C w s \<Longrightarrow> va_cache w r = None"
  by (simp add: refines_def)

lemma blobOf_sealed: "blobOf C (sealedBlob C l (cy_derive C p (lk_salt l) PBKDF2_ITERATIONS) st) p st (cy_derive C p (lk_salt l) PBKDF2_ITERATIONS)"
  by (auto simp: blobOf_def sealedBlob_def)

lemma blobOf_encrypted: "blobOf C b p old key \<Longrightarrow> blobOf C (encryptedBlob C l key st b) p st key"
  by (auto simp: blobOf_def encryptedBlob_def)

lemma refines_cases:
  assumes "refines C w s"
  obtains "sf_content s = None" "va_blob w = None" "va_session w = None" "\<not> sf_open s"
  | p st b key where "sf_content s = Some (p, st)" "va_blob w = Some b" "blobOf C b p st key"
      "va_session w = (if sf_open s then Some (bytesToBase64 key) else None)"
  using assms unfolding refines_def by (cases "sf_content s") auto

lemma refines_same:
  "refines C w s \<Longrightarrow> va_blob w' = va_blob w \<Longrightarrow> va_session w' = va_session w \<Longrightarrow> \<forall>r. va_cache w' r = None \<Longrightarrow> refines C w' s"
  unfolding refines_def by metis

lemma refines_Some:
  "\<forall>r. va_cache w r = None \<Longrightarrow> va_blob w = Some b \<Longrightarrow> blobOf C b p st key \<Longrightarrow>
   va_session w = (if opened then Some (bytesToBase64 key) else None) \<Longrightarrow> refines C w \<lparr> sf_content = Some (p, st), sf_open = opened \<rparr>"
  by (auto simp: refines_def)

lemma safe_eq: "sf_content s = Some (p, st) \<Longrightarrow> s \<lparr> sf_open := v \<rparr> = \<lparr> sf_content = Some (p, st), sf_open = v \<rparr>"
  "sf_content s = Some x \<Longrightarrow> s \<lparr> sf_content := Some (p, st) \<rparr> = \<lparr> sf_content = Some (p, st), sf_open = sf_open s \<rparr>"
  by (cases s; simp)+

lemma refine_seal:
  assumes "cipherWorks C P" "refines C w s" "va_calls w i = None" "lk_ok l"
  shows "ranAlone C i r w (runVault C (onlyCall i r (OpSeal p st) l) w) (fst (safeStep (OpSeal p st) s)) (snd (safeStep (OpSeal p st) s))"
proof (cases "length p < 8")
  case True
  then show ?thesis using assms caches_none [OF assms(2)]
    by (auto simp: ranAlone_def onlyCall_def vault_eval intro: refines_same [OF assms(2)])
next
  case False
  then show ?thesis using assms caches_none [OF assms(2)]
    by (auto simp: ranAlone_def onlyCall_def vault_eval cipherWorks_def intro!: refines_Some blobOf_sealed)
qed

lemma refine_unlock:
  assumes "cipherWorks C P" "faithful C V" "refines C w s" "va_calls w i = None" "lk_ok l" "safeWithin s P V" "p \<in> P"
  shows "ranAlone C i r w (runVault C (onlyCall i r (OpUnlock p) l) w) (fst (safeStep (OpUnlock p) s)) (snd (safeStep (OpUnlock p) s))"
  using assms(3)
proof (cases rule: refines_cases)
  case 1
  then show ?thesis using assms caches_none [OF assms(3)]
    by (auto simp: ranAlone_def onlyCall_def vault_eval intro: refines_same [OF assms(3)])
next
  case (2 q st b key)
  have m: "st \<in> V" "q \<in> P" using assms(6) 2(1) by (simp_all add: safeWithin_def)
  obtain salt iv where b: "kb_salt b = bytesToBase64 salt" "kb_iv b = bytesToBase64 iv" "key = cy_derive C q salt (kb_iterations b)"
    "kb_ciphertext b = bytesToBase64 (cy_encrypt C key iv (cy_stringify C st))"
    "cy_decrypt C key iv (cy_encrypt C key iv (cy_stringify C st)) = Some (cy_stringify C st)"
    "cy_decrypt C (cy_derive C p salt (kb_iterations b)) iv (cy_encrypt C key iv (cy_stringify C st)) = (if p = q then Some (cy_stringify C st) else None)"
    "cy_parse C (cy_stringify C st) = Some st"
    using blob_opens [OF assms(1,2) m assms(7) 2(3)] by metis
  show ?thesis
  proof (cases "p = q")
    case True
    have "refines C w' (s \<lparr> sf_open := True \<rparr>)"
      if "\<forall>r. va_cache w' r = None" "va_blob w' = Some b" "va_session w' = Some (bytesToBase64 key)" for w'
      unfolding safe_eq(1) [OF 2(1)] by (rule refines_Some [OF that(1,2) 2(3)]) (simp add: that)
    then show ?thesis using True assms(1,4,5) caches_none [OF assms(3)] 2(1,2) b
      by (auto simp: ranAlone_def onlyCall_def vault_eval cipherWorks_def)
  next
    case False
    then show ?thesis using assms(4,5) caches_none [OF assms(3)] 2(1,2) b(1,2,4,6)
      by (auto simp: ranAlone_def onlyCall_def vault_eval intro: refines_same [OF assms(3)])
  qed
qed

lemma refine_read:
  assumes "cipherWorks C P" "faithful C V" "refines C w s" "va_calls w i = None" "lk_ok l" "safeWithin s P V"
  shows "ranAlone C i r w (runVault C (onlyCall i r OpRead l) w) (fst (safeStep OpRead s)) (snd (safeStep OpRead s))"
  using assms(3)
proof (cases rule: refines_cases)
  case 1
  then show ?thesis using assms caches_none [OF assms(3)]
    by (auto simp: ranAlone_def onlyCall_def vault_eval intro: refines_same [OF assms(3)])
next
  case (2 q st b key)
  have m: "st \<in> V" "q \<in> P" using assms(6) 2(1) by (simp_all add: safeWithin_def)
  obtain salt iv where b: "kb_iv b = bytesToBase64 iv" "kb_ciphertext b = bytesToBase64 (cy_encrypt C key iv (cy_stringify C st))"
    "cy_decrypt C key iv (cy_encrypt C key iv (cy_stringify C st)) = Some (cy_stringify C st)" "cy_parse C (cy_stringify C st) = Some st"
    using blob_opens [OF assms(1,2) m m(2) 2(3)] by metis
  have "cy_session C" using assms(1) by (simp add: cipherWorks_def)
  then show ?thesis using assms(4,5) caches_none [OF assms(3)] 2 b
    by (cases "sf_open s") (auto simp: ranAlone_def onlyCall_def vault_eval intro: refines_same [OF assms(3)])
qed

lemma refine_write:
  assumes "cipherWorks C P" "refines C w s" "va_calls w i = None" "lk_ok l"
  shows "ranAlone C i r w (runVault C (onlyCall i r (OpWrite st) l) w) (fst (safeStep (OpWrite st) s)) (snd (safeStep (OpWrite st) s))"
  using assms(2)
proof (cases rule: refines_cases)
  case 1
  then show ?thesis using assms caches_none [OF assms(2)]
    by (auto simp: ranAlone_def onlyCall_def vault_eval intro: refines_same [OF assms(2)])
next
  case (2 q old b key)
  have c: "cy_session C" using assms(1) by (simp add: cipherWorks_def)
  show ?thesis
  proof (cases "sf_open s")
    case True
    have "refines C w' (s \<lparr> sf_content := Some (q, st) \<rparr>)"
      if "\<forall>r. va_cache w' r = None" "va_blob w' = Some (encryptedBlob C l key st b)" "va_session w' = Some (bytesToBase64 key)" for w'
      unfolding safe_eq(2) [OF 2(1)] by (rule refines_Some [OF that(1,2) blobOf_encrypted [OF 2(3)]]) (simp add: that True)
    then show ?thesis using True assms(3,4) c caches_none [OF assms(2)] 2
      by (auto simp: ranAlone_def onlyCall_def vault_eval)
  next
    case False
    then show ?thesis using assms(3,4) c caches_none [OF assms(2)] 2
      by (auto simp: ranAlone_def onlyCall_def vault_eval intro: refines_same [OF assms(2)])
  qed
qed

lemma refine_change:
  assumes "cipherWorks C P" "faithful C V" "refines C w s" "va_calls w i = None" "lk_ok l" "safeWithin s P V" "p \<in> P"
  shows "ranAlone C i r w (runVault C (onlyCall i r (OpChangePassword p new) l) w)
    (fst (safeStep (OpChangePassword p new) s)) (snd (safeStep (OpChangePassword p new) s))"
proof (cases "length new < 8")
  case True
  then show ?thesis using assms caches_none [OF assms(3)]
    by (auto simp: ranAlone_def onlyCall_def vault_eval intro: refines_same [OF assms(3)])
next
  case long: False
  show ?thesis
    using assms(3)
  proof (cases rule: refines_cases)
    case 1
    then show ?thesis using assms caches_none [OF assms(3)] long
      by (auto simp: ranAlone_def onlyCall_def vault_eval intro: refines_same [OF assms(3)])
  next
    case (2 q st b key)
    have m: "st \<in> V" "q \<in> P" using assms(6) 2(1) by (simp_all add: safeWithin_def)
    obtain salt iv where b: "kb_salt b = bytesToBase64 salt" "kb_iv b = bytesToBase64 iv"
      "kb_ciphertext b = bytesToBase64 (cy_encrypt C key iv (cy_stringify C st))"
      "cy_decrypt C (cy_derive C p salt (kb_iterations b)) iv (cy_encrypt C key iv (cy_stringify C st)) = (if p = q then Some (cy_stringify C st) else None)"
      "cy_parse C (cy_stringify C st) = Some st"
      using blob_opens [OF assms(1,2) m assms(7) 2(3)] by metis
    have "cy_session C" using assms(1) by (simp add: cipherWorks_def)
    then show ?thesis using assms(4,5) caches_none [OF assms(3)] 2(1,2) b long
      by (cases "p = q") (auto simp: ranAlone_def onlyCall_def vault_eval intro: refines_same [OF assms(3)] intro!: refines_Some blobOf_sealed)
  qed
qed

lemma refines_closed:
  assumes "refines C w s" "\<forall>r. va_cache w' r = None" "va_blob w' = va_blob w" "va_session w' = None"
  shows "refines C w' (s \<lparr> sf_open := False \<rparr>)"
  using assms(1)
proof (cases rule: refines_cases)
  case (2 p st b key)
  then show ?thesis unfolding safe_eq(1) [OF 2(1)] using assms(2-4) by (intro refines_Some) auto
qed (use assms(2-4) in \<open>simp add: refines_def\<close>)

lemma refine_lock:
  assumes "cipherWorks C P" "refines C w s" "va_calls w i = None" "lk_ok l"
  shows "ranAlone C i r w (runVault C (onlyCall i r OpLock l) w) (fst (safeStep OpLock s)) (snd (safeStep OpLock s))"
  using assms(1,3,4) caches_none [OF assms(2)]
  by (auto simp: ranAlone_def onlyCall_def vault_eval cipherWorks_def intro!: refines_closed [OF assms(2)])

lemma refine_wipe:
  assumes "cipherWorks C P" "refines C w s" "va_calls w i = None" "lk_ok l"
  shows "ranAlone C i r w (runVault C (onlyCall i r OpWipe l) w) (fst (safeStep OpWipe s)) (snd (safeStep OpWipe s))"
  using assms(1,3,4) caches_none [OF assms(2)]
  by (auto simp: ranAlone_def onlyCall_def vault_eval cipherWorks_def refines_def)

lemma refine_sealed:
  assumes "refines C w s" "va_calls w i = None" "lk_ok l"
  shows "ranAlone C i r w (runVault C (onlyCall i r OpIsSealed l) w) (fst (safeStep OpIsSealed s)) (snd (safeStep OpIsSealed s))"
proof -
  have "va_blob w = None \<longleftrightarrow> sf_content s = None" using assms(1) by (cases rule: refines_cases) simp_all
  then show ?thesis using assms(2,3) caches_none [OF assms(1)]
    by (auto simp: ranAlone_def onlyCall_def vault_eval intro: refines_same [OF assms(1)])
qed

lemma refine_unlocked:
  assumes "cipherWorks C P" "refines C w s" "va_calls w i = None" "lk_ok l"
  shows "ranAlone C i r w (runVault C (onlyCall i r OpIsUnlocked l) w) (fst (safeStep OpIsUnlocked s)) (snd (safeStep OpIsUnlocked s))"
proof -
  obtain key where "va_session w = (if sf_open s then Some (bytesToBase64 key) else None)" using assms(2) by (cases rule: refines_cases) auto
  then show ?thesis using assms(1,3,4) caches_none [OF assms(2)]
    by (cases "sf_open s") (auto simp: ranAlone_def onlyCall_def vault_eval cipherWorks_def intro: refines_same [OF assms(2)])
qed

text \<open>Every call that runs alone does what the safe does.\<close>

lemma refine_call:
  assumes "cipherWorks C P" "faithful C V" "refines C w s" "va_calls w i = None" "lk_ok l" "safeWithin s P V"
    "passwords oper \<subseteq> P" "oper \<noteq> OpStatus"
  shows "ranAlone C i r w (runVault C (onlyCall i r oper l) w) (fst (safeStep oper s)) (snd (safeStep oper s))"
proof (cases oper)
  case (OpUnlock p)
  then show ?thesis using refine_unlock [OF assms(1-6)] assms(7) by (simp add: passwords_def)
next
  case (OpChangePassword p new)
  then show ?thesis using refine_change [OF assms(1-6)] assms(7) by (simp add: passwords_def)
qed (use assms refine_seal refine_read refine_write refine_lock refine_wipe refine_sealed refine_unlocked in auto)

text \<open>Calls \<open>0, 1, 2, \<dots>\<close> in any realms, one after the other, with the change event in every realm after each.\<close>

fun oneByOne :: "nat \<Rightarrow> (nat \<times> vop \<times> luck) list \<Rightarrow> nat list \<Rightarrow> vault_event list" where
  "oneByOne n [] rs = []"
| "oneByOne n ((r, oper, l) # ops) rs = alone n r oper l rs @ oneByOne (Suc n) ops rs"

fun safeRun :: "vop list \<Rightarrow> safe \<Rightarrow> vresult list" where
  "safeRun [] s = []"
| "safeRun (oper # ops) s = fst (safeStep oper s) # safeRun ops (snd (safeStep oper s))"

definition emptySafe :: safe where "emptySafe = \<lparr> sf_content = None, sf_open = False \<rparr>"

lemma safe_within:
  "safeWithin s P V \<Longrightarrow> passwords oper \<subseteq> P \<Longrightarrow> stored oper \<subseteq> V \<Longrightarrow> safeWithin (snd (safeStep oper s)) P V"
  by (cases oper) (auto simp: safeWithin_def passwords_def stored_def split: option.split)

lemma alone_only: "alone i r oper l rs = onlyCall i r oper l @ map VChanged rs"
  by (simp add: alone_def onlyCall_def)

lemma refine_alone:
  assumes "cipherWorks C P" "faithful C V" "refines C w s" "va_calls w i = None" "lk_ok l" "safeWithin s P V"
    "passwords oper \<subseteq> P" "oper \<noteq> OpStatus" "r \<in> set rs"
  shows "resultOf i (runVault C (alone i r oper l rs) w) = Some (fst (safeStep oper s))"
    "refines C (runVault C (alone i r oper l rs) w) (snd (safeStep oper s))"
    "j \<noteq> i \<Longrightarrow> va_calls (runVault C (alone i r oper l rs) w) j = va_calls w j"
proof -
  let ?w = "runVault C (onlyCall i r oper l) w"
  have a: "resultOf i ?w = Some (fst (safeStep oper s))" "\<forall>q. q \<noteq> r \<longrightarrow> va_cache ?w q = None" "refines C (setCache r None ?w) (snd (safeStep oper s))"
      "\<forall>j. j \<noteq> i \<longrightarrow> va_calls ?w j = va_calls w j"
    using refine_call [OF assms(1-8)] by (simp_all add: ranAlone_def)
  have w: "runVault C (alone i r oper l rs) w = ?w \<lparr> va_cache := (\<lambda>q. if q \<in> set rs then None else va_cache ?w q) \<rparr>"
    by (simp add: alone_only vault_run_append changed_caches)
  show "resultOf i (runVault C (alone i r oper l rs) w) = Some (fst (safeStep oper s))" unfolding w using a(1) by (simp add: resultOf_def)
  have "(if q \<in> set rs then None else va_cache ?w q) = None" for q using a(2) assms(9) by (cases "q = r") simp_all
  then show "refines C (runVault C (alone i r oper l rs) w) (snd (safeStep oper s))"
    unfolding w by (intro refines_same [OF a(3)]) (simp_all add: setCache_def)
  show "j \<noteq> i \<Longrightarrow> va_calls (runVault C (alone i r oper l rs) w) j = va_calls w j" unfolding w using a(4) by simp
qed

lemma refine_run:
  assumes "cipherWorks C P" "faithful C V"
    "\<And>r oper l. (r, oper, l) \<in> set ops \<Longrightarrow> lk_ok l \<and> r \<in> set rs \<and> oper \<noteq> OpStatus \<and> passwords oper \<subseteq> P \<and> stored oper \<subseteq> V"
    "refines C w s" "safeWithin s P V" "\<And>i. n \<le> i \<Longrightarrow> va_calls w i = None"
  shows "map (\<lambda>i. resultOf i (runVault C (oneByOne n ops rs) w)) [n..<n + length ops] = map Some (safeRun (map (\<lambda>(r, oper, l). oper) ops) s)
    \<and> (\<forall>i<n. resultOf i (runVault C (oneByOne n ops rs) w) = resultOf i w)"
  using assms(3-6)
proof (induction ops arbitrary: n w s)
  case Nil
  then show ?case by (simp add: runVault_def)
next
  case (Cons x ops)
  obtain r oper l where x: "x = (r, oper, l)" by (metis prod_cases3)
  have o': "lk_ok l" "r \<in> set rs" "oper \<noteq> OpStatus" "passwords oper \<subseteq> P" "stored oper \<subseteq> V"
    using Cons.prems(1) [of r oper l] x by simp_all
  let ?w = "runVault C (alone n r oper l rs) w" let ?s = "snd (safeStep oper s)"
  note one = refine_alone [OF assms(1,2) Cons.prems(2) Cons.prems(4) [OF order_refl] o'(1) Cons.prems(3) o'(4,3,2)]
  have calls: "va_calls ?w i = None" if "Suc n \<le> i" for i using one(3) [of i] Cons.prems(4) [of i] that by simp
  have ops: "lk_ok l' \<and> r' \<in> set rs \<and> oper' \<noteq> OpStatus \<and> passwords oper' \<subseteq> P \<and> stored oper' \<subseteq> V" if "(r', oper', l') \<in> set ops" for r' oper' l'
    using Cons.prems(1) [of r' oper' l'] that by simp
  have rest: "map (\<lambda>i. resultOf i (runVault C (oneByOne (Suc n) ops rs) ?w)) [Suc n..<Suc n + length ops] = map Some (safeRun (map (\<lambda>(r, oper, l). oper) ops) ?s)"
      "\<forall>i<Suc n. resultOf i (runVault C (oneByOne (Suc n) ops rs) ?w) = resultOf i ?w"
    using Cons.IH [where n = "Suc n", OF ops one(2) safe_within [OF Cons.prems(3) o'(4,5)] calls] by blast+
  have kept: "resultOf i ?w = resultOf i w" if "i < n" for i using one(3) [of i] that by (simp add: resultOf_def)
  have "[n..<n + length (x # ops)] = n # [Suc n..<Suc n + length ops]" by (simp add: upt_rec)
  then show ?case using rest one(1) kept by (simp add: x vault_run_append del: upt_Suc)
qed

text \<open>
  C3. One call after the other, in any realms, the keystore answers like a safe with a password.
\<close>

theorem keystore_is_a_safe:
  assumes "cipherWorks C (\<Union>(r, oper, l)\<in>set ops. passwords oper)" "faithful C (\<Union>(r, oper, l)\<in>set ops. stored oper)"
    "\<And>r oper l. (r, oper, l) \<in> set ops \<Longrightarrow> lk_ok l \<and> r \<in> set rs \<and> oper \<noteq> OpStatus"
  shows "map (\<lambda>i. resultOf i (runVault C (oneByOne 0 ops rs) (vaultStart legacy))) [0..<length ops]
    = map Some (safeRun (map (\<lambda>(r, oper, l). oper) ops) emptySafe)"
proof -
  have "refines C (vaultStart legacy) emptySafe" "safeWithin emptySafe P V" for P V
    by (simp_all add: refines_def vaultStart_def emptySafe_def safeWithin_def)
  then show ?thesis
    using refine_run [OF assms(1,2), of ops rs "vaultStart legacy" emptySafe 0] assms(3) by (fastforce simp: vaultStart_def)
qed

subsection \<open>What interleaving breaks\<close>

text \<open>
  A change of the password in realm 1 and a write in realm 0 that has the old key: the write takes the new blob with
  the new salt and encrypts under the old key. Both calls succeed, and neither password opens the blob.
\<close>

definition staleWrite :: "string \<Rightarrow> string \<Rightarrow> json \<Rightarrow> luck \<Rightarrow> luck \<Rightarrow> vault_event list" where
  "staleWrite old new st l l' =
     [VCall 1 1 (OpChangePassword old new) l', VResume 1 l', VResume 1 l', VResume 1 l', VResume 1 l',
      VCall 2 0 (OpWrite st) l, VResume 2 l, VResume 2 l, VResume 2 l,
      VResume 1 l', VResume 1 l', VChanged 0, VChanged 1,
      VCall 3 0 (OpUnlock old) l, VResume 3 l, VResume 3 l, VCall 4 0 (OpUnlock new) l, VResume 4 l, VResume 4 l]"

theorem stale_write_loses_wallet:
  assumes "cy_session C" "\<And>k k' iv t. cy_decrypt C k iv (cy_encrypt C k' iv t) = (if k = k' then Some t else None)" "faithful C {st0}"
    "lk_ok l" "lk_ok l'" "8 \<le> length new"
    "va_blob w = Some (sealedBlob C l0 key st0)" "key = cy_derive C old (lk_salt l0) PBKDF2_ITERATIONS" "va_cache w 0 = Some key"
    "cy_derive C old (lk_salt l') PBKDF2_ITERATIONS \<noteq> key" "cy_derive C new (lk_salt l') PBKDF2_ITERATIONS \<noteq> key"
    "va_calls w = (\<lambda>i. None)"
  shows "map (\<lambda>i. resultOf i (runVault C (staleWrite old new st l l') w)) [1, 2, 3, 4]
    = [Some VDone, Some VDone, Some WrongPassword, Some WrongPassword]"
  using assms
  by (simp add: staleWrite_def vault_eval faithful_def sealedBlob_def encryptedBlob_def WrongPassword_def)

text \<open>
  A call that has read the key from the session storage and not yet imported it puts it into the copy of its realm after
  a lock: the realm reads on.
\<close>

definition lateImport :: "luck \<Rightarrow> vault_event list" where
  "lateImport l =
     [VCall 1 0 OpIsUnlocked l, VResume 1 l, VCall 2 1 OpLock l, VResume 2 l, VChanged 0, VChanged 1, VResume 1 l,
      VCall 3 0 OpRead l, VResume 3 l, VResume 3 l, VResume 3 l]"

theorem lock_outlived:
  assumes "cy_session C" "cy_decrypt C key iv (cy_encrypt C key iv (cy_stringify C st)) = Some (cy_stringify C st)"
    "cy_parse C (cy_stringify C st) = Some st" "lk_ok l" "va_session w = Some (bytesToBase64 key)" "va_cache w 0 = None" "va_calls w = (\<lambda>i. None)"
    "va_blob w = Some b" "kb_iv b = bytesToBase64 iv" "kb_ciphertext b = bytesToBase64 (cy_encrypt C key iv (cy_stringify C st))"
  shows "resultOf 2 (runVault C (lateImport l) w) = Some VDone \<and> resultOf 3 (runVault C (lateImport l) w) = Some (VState st)"
  using assms by (simp add: lateImport_def vault_eval)

subsection \<open>A sample\<close>

fun tagged :: "byte \<Rightarrow> byte list \<Rightarrow> byte list" where
  "tagged n [] = []"
| "tagged n (b # s) = n # b # tagged n s"

fun untag :: "byte list \<Rightarrow> byte list \<times> byte list" where
  "untag (n # b # s) = (let (k, t) = untag s in if n = 0 then (b # k, t) else (k, b # t))"
| "untag s = ([], [])"

definition textBytes :: "string \<Rightarrow> byte list" where
  "textBytes t = map (\<lambda>c. word_of_nat (of_char c)) t"

definition bytesText :: "byte list \<Rightarrow> string" where
  "bytesText s = map (\<lambda>b. char_of (unat b)) s"

definition sampleCrypto :: crypto where
  "sampleCrypto =
     \<lparr> cy_derive = (\<lambda>p salt n. tagged 0 (textBytes p) @ tagged 1 salt), cy_encrypt = (\<lambda>k iv t. tagged 0 k @ tagged 1 (textBytes t)),
       cy_decrypt = (\<lambda>k iv ct. if fst (untag ct) = k then Some (bytesText (snd (untag ct))) else None),
       cy_stringify = (\<lambda>v. case v of JStr s \<Rightarrow> s | _ \<Rightarrow> []), cy_parse = (\<lambda>t. Some (JStr t)), cy_session = True \<rparr>"

lemma untag_tagged: "untag (tagged 0 k @ tagged 1 t) = (k, t)"
proof (induction k)
  case Nil
  show ?case by (induction t) simp_all
qed simp

lemma text_back: "bytesText (textBytes t) = t"
proof -
  have "char_of (unat (word_of_nat (of_char c) :: byte)) = c" for c
    by (simp add: unsigned_of_nat take_bit_eq_mod)
  then show ?thesis by (simp add: bytesText_def textBytes_def map_idI)
qed

lemma sample_crypto [simp]:
  "cy_session sampleCrypto" "cy_decrypt sampleCrypto k iv (cy_encrypt sampleCrypto k' iv t) = (if k = k' then Some t else None)"
  "cy_derive sampleCrypto p salt n = cy_derive sampleCrypto q salt' n \<longleftrightarrow> p = q \<and> salt = salt'"
  "cy_parse sampleCrypto (cy_stringify sampleCrypto (JStr x)) = Some (JStr x)"
proof -
  have "p = q \<and> salt = salt'" if "tagged 0 (textBytes p) @ tagged 1 salt = tagged 0 (textBytes q) @ tagged 1 salt'"
    using that untag_tagged text_back by (metis prod.inject)
  then show "cy_derive sampleCrypto p salt n = cy_derive sampleCrypto q salt' n \<longleftrightarrow> p = q \<and> salt = salt'" by (auto simp: sampleCrypto_def)
qed (auto simp: sampleCrypto_def untag_tagged text_back)

definition sampleLuck :: "byte \<Rightarrow> luck" where
  "sampleLuck b = \<lparr> lk_salt = [b], lk_iv = [b], lk_now = 0, lk_ok = True \<rparr>"

definition sampleOps :: "(nat \<times> vop \<times> luck) list" where
  "sampleOps = [(0, OpSeal ''password'' (JStr ''a''), sampleLuck 1), (1, OpWrite (JStr ''b''), sampleLuck 2), (0, OpLock, sampleLuck 3),
     (1, OpRead, sampleLuck 4), (1, OpUnlock ''passwort'', sampleLuck 5), (1, OpUnlock ''password'', sampleLuck 6),
     (0, OpChangePassword ''password'' ''longpassword'', sampleLuck 7), (1, OpRead, sampleLuck 8)]"

theorem keystore_is_a_safe_sample:
  "map (\<lambda>i. resultOf i (runVault sampleCrypto (oneByOne 0 sampleOps [0, 1]) (vaultStart None))) [0..<8]
   = [Some VDone, Some VDone, Some VDone, Some VNull, Some WrongPassword, Some (VState (JStr ''b'')), Some VDone, Some (VState (JStr ''b''))]"
proof -
  have "cipherWorks sampleCrypto P" for P by (simp add: cipherWorks_def)
  moreover have "faithful sampleCrypto (\<Union>(r, oper, l)\<in>set sampleOps. stored oper)" by (simp add: faithful_def sampleOps_def stored_def)
  moreover have "lk_ok l \<and> r \<in> set [0, 1] \<and> oper \<noteq> OpStatus" if "(r, oper, l) \<in> set sampleOps" for r oper l
    using that by (auto simp: sampleOps_def sampleLuck_def)
  moreover have "map Some (safeRun (map (\<lambda>(r, oper, l). oper) sampleOps) emptySafe)
      = [Some VDone, Some VDone, Some VDone, Some VNull, Some WrongPassword, Some (VState (JStr ''b'')), Some VDone, Some (VState (JStr ''b''))]"
    by (simp add: sampleOps_def emptySafe_def WrongPassword_def)
  moreover have "length sampleOps = 8" by (simp add: sampleOps_def)
  ultimately show ?thesis using keystore_is_a_safe [of sampleCrypto sampleOps "[0, 1]" None] by metis
qed

definition sealedEvents :: "vault_event list" where
  "sealedEvents = [VCall 0 0 (OpSeal ''password'' (JStr ''a'')) (sampleLuck 1), VResume 0 (sampleLuck 1), VResume 0 (sampleLuck 1), VResume 0 (sampleLuck 1),
     VCall 1 1 OpRead (sampleLuck 2), VResume 1 (sampleLuck 2), VResume 1 (sampleLuck 2), VResume 1 (sampleLuck 2), VResume 1 (sampleLuck 2)]"

lemma sealed_events:
  fixes w
  defines "w \<equiv> runVault sampleCrypto sealedEvents (vaultStart None)"
  shows "resultOf 1 w = Some (VState (JStr ''a''))" "va_calls w j = None \<longleftrightarrow> j \<noteq> 0 \<and> j \<noteq> 1"
    "va_calls w j = Some c \<Longrightarrow> keyless (vc_stage c)" "va_cache w q \<noteq> None \<Longrightarrow> q = 0 \<or> q = 1"
  unfolding w_def
  by (auto simp: sealedEvents_def vaultStart_def vault_eval sampleLuck_def sealedBlob_def split: if_splits simp del: bytesToBase64.simps)

text \<open>
  C2. However the calls of all realms interleave, a state that \<open>unlock\<close> or \<open>read\<close> returns was given to \<open>seal\<close> or \<open>write\<close>.
\<close>

theorem vault_returns_stored:
  assumes "authentic C" "faithful C (\<Union>ev\<in>set evs. storedBy ev)" "resultOf i (runVault C evs (vaultStart legacy)) = Some (VState v)"
  shows "\<exists>ev\<in>set evs. v \<in> storedBy ev"
proof -
  let ?V = "\<Union>ev\<in>set evs. storedBy ev"
  have "vaultInv C ?V (vaultStart legacy)" by (simp add: vaultInv_def vaultStart_def)
  then have "vaultInv C ?V (runVault C evs (vaultStart legacy))" by (rule inv_runVault [OF assms(1,2) _ subset_refl])
  then have "stageHolds C ?V (Returned (VState v))"
    using assms(3) unfolding resultOf_def vaultInv_def by (fastforce split: option.splits vstage.splits)
  then show ?thesis by simp
qed

theorem vault_returns_stored_sample: "\<exists>ev\<in>set sealedEvents. JStr ''a'' \<in> storedBy ev"
proof -
  have "authentic sampleCrypto" by (simp add: authentic_def)
  moreover have "faithful sampleCrypto (\<Union>ev\<in>set sealedEvents. storedBy ev)" by (simp add: faithful_def sealedEvents_def stored_def)
  ultimately show ?thesis by (rule vault_returns_stored [OF _ _ sealed_events(1)])
qed

text \<open>
  C4. After a lock, with its change event in every realm that had the key and no call under way that holds it, no
  call of any realm gets the state until someone unlocks.
\<close>

theorem locked_until_unlocked:
  assumes "cy_session C" "lk_ok l" "va_calls w i = None" "\<And>j c. va_calls w j = Some c \<Longrightarrow> keyless (vc_stage c)"
    "\<And>q. va_cache w q \<noteq> None \<Longrightarrow> q = r \<or> q \<in> set rs" "\<forall>ev\<in>set evs. \<not> unlocking ev"
    "resultOf j (runVault C (lockEvents i r l rs @ evs) w) = Some (VState v)"
  shows "resultOf j w = Some (VState v)"
proof -
  let ?w = "runVault C (lockEvents i r l rs) w"
  have w: "?w = w \<lparr> va_session := None, va_cache := (\<lambda>q. if q \<in> set rs \<or> q = r then None else va_cache w q),
      va_calls := (va_calls w)(i \<mapsto> \<lparr> vc_realm = r, vc_stage = Returned VDone \<rparr>) \<rparr>"
    using assms(1-3) changed_caches [of C rs]
    by (auto simp: lockEvents_def runVault_def vcallStart_def Let_def dropsCache_def vstart_def setCache_def atStage_def fun_eq_iff)
  have "va_cache w q = None" if "q \<noteq> r" "q \<notin> set rs" for q using assms(5) that by blast
  then have "lockedVault ?w" using assms(4) unfolding w lockedVault_def by auto
  then have "resultOf j ?w = Some (VState v)"
    using silent_run [OF _ assms(6)] assms(7) by (simp add: runVault_def)
  then show ?thesis unfolding w by (auto simp: resultOf_def split: if_splits)
qed

theorem locked_until_unlocked_sample:
  "\<nexists>v. resultOf 3 (runVault sampleCrypto (lockEvents 2 0 (sampleLuck 3) [1] @ [VCall 3 1 OpRead (sampleLuck 4), VResume 3 (sampleLuck 4),
     VResume 3 (sampleLuck 4)]) (runVault sampleCrypto sealedEvents (vaultStart None))) = Some (VState v)"
proof
  let ?w = "runVault sampleCrypto sealedEvents (vaultStart None)"
  let ?evs = "[VCall 3 1 OpRead (sampleLuck 4), VResume 3 (sampleLuck 4), VResume 3 (sampleLuck 4)]"
  assume "\<exists>v. resultOf 3 (runVault sampleCrypto (lockEvents 2 0 (sampleLuck 3) [1] @ ?evs) ?w) = Some (VState v)"
  then obtain v where r: "resultOf 3 (runVault sampleCrypto (lockEvents 2 0 (sampleLuck 3) [1] @ ?evs) ?w) = Some (VState v)" ..
  have "va_calls ?w 2 = None" "va_calls ?w 3 = None" using sealed_events(2) by simp_all
  moreover have "\<forall>ev\<in>set ?evs. \<not> unlocking ev" by (simp add: opens_def)
  moreover have "lk_ok (sampleLuck 3)" by (simp add: sampleLuck_def)
  ultimately have "resultOf 3 ?w = Some (VState v)"
    using locked_until_unlocked [OF sample_crypto(1) _ _ sealed_events(3) _ _ r] sealed_events(4) by simp
  then show False using \<open>va_calls ?w 3 = None\<close> by (simp add: resultOf_def)
qed

end
