(* ===== verification/AddressNetwork.thy ===== *)
theory AddressNetwork
  imports Prelude JsStrings "HOL-Library.Word"
begin

unbundle bit_operations_syntax

text \<open>
  Bech32m addresses and their network (\<open>apps/chrome-wallet/src/utils/addressNetwork.ts\<close>). JavaScript's bit operators work
  on 32 bits, so the checksum is a \<open>32 word\<close>. Shown: what is encoded decodes, what decodes is what was encoded, and
  so re-encoding for the other network and back gives the address again.
\<close>

datatype NetworkId = Testnet4 | Mainnet

definition CHARSET :: string where
  "CHARSET = ''qpzry9x8gf2tvdw0s3jn54khce6mua7l''"

definition BECH32M_CONST :: "32 word" where
  "BECH32M_CONST = 0x2bc830a3"

definition GEN :: "32 word list" where
  "GEN = [0x3b6a57b2, 0x26508e6d, 0x1ea119fa, 0x3d4233dd, 0x2a1462b3]"

definition polymodStep :: "32 word \<Rightarrow> 32 word \<Rightarrow> 32 word" where
  "polymodStep v chk =
     (let b = drop_bit 25 chk; chk' = push_bit 5 (chk AND 0x1ffffff) XOR v
      in fold (\<lambda>i c. if bit b i then c XOR GEN ! i else c) [0..<5] chk')"

definition polymod :: "32 word list \<Rightarrow> 32 word" where
  "polymod values = fold polymodStep values 1"

definition charCode :: "char \<Rightarrow> 32 word" where
  "charCode c = word_of_nat (char_code c)"

definition hrpExpand :: "string \<Rightarrow> 32 word list" where
  "hrpExpand hrp = map (\<lambda>c. drop_bit 5 (charCode c)) hrp @ [0] @ map (\<lambda>c. charCode c AND 31) hrp"

definition createChecksum :: "string \<Rightarrow> 32 word list \<Rightarrow> 32 word list" where
  "createChecksum hrp data =
     (let m = polymod (hrpExpand hrp @ data @ [0, 0, 0, 0, 0, 0]) XOR BECH32M_CONST
      in map (\<lambda>i. drop_bit (5 * (5 - i)) m AND 31) [0..<6])"

definition lastIndexOf :: "char \<Rightarrow> string \<Rightarrow> nat option" where
  "lastIndexOf c s = (case index_of (rev s) c of None \<Rightarrow> None | Some i \<Rightarrow> Some (length s - 1 - i))"

definition decodeBech32m :: "string \<Rightarrow> (string \<times> 32 word list) option" where
  "decodeBech32m addr =
     (let lower = js_lower addr in
      case lastIndexOf (CHR ''1'') lower of
        None \<Rightarrow> None
      | Some sepIdx \<Rightarrow>
          if sepIdx < 1 \<or> sepIdx + 7 > length lower then None
          else let hrp = take sepIdx lower; chars = drop (sepIdx + 1) lower in
            if \<not> list_all (\<lambda>c. index_of CHARSET c \<noteq> None) chars then None
            else let data5bit = map (\<lambda>c. word_of_nat (the (index_of CHARSET c))) chars in
              if polymod (hrpExpand hrp @ data5bit) \<noteq> BECH32M_CONST then None
              else Some (hrp, take (length data5bit - 6) data5bit))"

definition encodeBech32m :: "string \<Rightarrow> 32 word list \<Rightarrow> string" where
  "encodeBech32m hrp data5bit = hrp @ ''1'' @ map (\<lambda>d. CHARSET ! unat d) (data5bit @ createChecksum hrp data5bit)"

definition reEncodeTaprootAddress :: "string \<Rightarrow> NetworkId \<Rightarrow> string" where
  "reEncodeTaprootAddress address network =
     (let isTestnet = starts_with ''tb1p'' address; isMainnet = starts_with ''bc1p'' address in
      if \<not> isTestnet \<and> \<not> isMainnet then address
      else if network = Mainnet \<and> isMainnet then address
      else if network \<noteq> Mainnet \<and> isTestnet then address
      else case decodeBech32m address of
        None \<Rightarrow> address
      | Some (hrp, data5bit) \<Rightarrow> encodeBech32m (if network = Mainnet then ''bc'' else ''tb'') data5bit)"

definition BASE58_CHARS :: string where
  "BASE58_CHARS = ''123456789ABCDEFGHJKLMNPQRSTUVWXYZabcdefghijkmnopqrstuvwxyz''"

definition detectBtcNetwork :: "string \<Rightarrow> NetworkId option" where
  "detectBtcNetwork address =
     (if address = [] then None
      else if starts_with ''bc1'' address then Some Mainnet
      else if starts_with ''tb1'' address \<or> starts_with ''bcrt1'' address then Some Testnet4
      else if \<not> (20 \<le> length address \<and> length address \<le> 40 \<and> list_all (\<lambda>c. c \<in> set BASE58_CHARS) address) then None
      else if hd address \<in> set ''13'' then Some Mainnet
      else if hd address \<in> set ''2mn'' then Some Testnet4
      else None)"

definition isWrongNetworkAddress :: "string \<Rightarrow> NetworkId \<Rightarrow> bool" where
  "isWrongNetworkAddress address current = (case detectBtcNetwork address of None \<Rightarrow> False | Some n \<Rightarrow> n \<noteq> current)"

subsection \<open>The checksum is linear\<close>

definition fits :: "nat \<Rightarrow> 32 word \<Rightarrow> bool" where
  "fits n x \<longleftrightarrow> take_bit n x = x"

definition feedback :: "32 word \<Rightarrow> 32 word" where
  "feedback b = fold (\<lambda>i c. if bit b i then c XOR GEN ! i else c) [0..<5] 0"

lemma fold_feedback: "fold (\<lambda>i c. if bit b i then c XOR GEN ! i else c) is x = x XOR fold (\<lambda>i c. if bit b i then c XOR GEN ! i else c) is 0"
proof (induction "is" arbitrary: x)
  case (Cons i "is")
  show ?case
    using Cons.IH [of "x XOR GEN ! i"] Cons.IH [of x] Cons.IH [of "0 XOR GEN ! i"] by (simp add: xor.assoc)
qed simp

lemma step_feedback: "polymodStep v chk = (push_bit 5 (take_bit 25 chk) XOR v) XOR feedback (drop_bit 25 chk)"
proof -
  have "chk AND 0x1ffffff = take_bit 25 chk" by (simp add: take_bit_eq_mask mask_eq_exp_minus_1)
  then show ?thesis unfolding polymodStep_def feedback_def Let_def by (subst fold_feedback) simp
qed

lemma fold_xor: "fold (\<lambda>i c. if bit (b XOR d) i then c XOR GEN ! i else c) is (x XOR y)
   = fold (\<lambda>i c. if bit b i then c XOR GEN ! i else c) is x XOR fold (\<lambda>i c. if bit d i then c XOR GEN ! i else c) is y"
proof (induction "is" arbitrary: x y)
  case (Cons i "is")
  have "(if bit (b XOR d) i then (x XOR y) XOR GEN ! i else x XOR y) = (if bit b i then x XOR GEN ! i else x) XOR (if bit d i then y XOR GEN ! i else y)"
    by (simp add: bit_xor_iff xor.assoc xor.left_commute [of y] xor.commute)
      (metis xor.assoc xor.commute xor_self_eq xor.right_neutral)
  then show ?case using Cons.IH by simp
qed simp

lemma feedback_xor: "feedback (b XOR d) = feedback b XOR feedback d"
  using fold_xor [of b d "[0..<5]" 0 0] by (simp add: feedback_def)

lemma step_xor: "polymodStep (v XOR w) (x XOR y) = polymodStep v x XOR polymodStep w y"
  by (simp add: step_feedback feedback_xor take_bit_xor drop_bit_xor push_bit_xor ac_simps)

lemma fold_step_xor:
  "length vs = length ws \<Longrightarrow> fold polymodStep (map2 (XOR) vs ws) (x XOR y) = fold polymodStep vs x XOR fold polymodStep ws y"
  by (induction vs ws arbitrary: x y rule: list_induct2) (simp_all add: step_xor)

lemma fold_step_zeros: "fold polymodStep cs p = fold polymodStep (replicate (length cs) 0) p XOR fold polymodStep cs 0"
proof -
  have "map2 (XOR) (replicate (length cs) 0) cs = cs" by (induction cs) simp_all
  then show ?thesis using fold_step_xor [of "replicate (length cs) 0" cs p 0] by simp
qed

lemma fits_iff: "fits n x \<longleftrightarrow> (\<forall>i. bit x i \<longrightarrow> i < n)"
proof
  assume "fits n x"
  then show "\<forall>i. bit x i \<longrightarrow> i < n" unfolding fits_def by (metis bit_take_bit_iff)
next
  assume "\<forall>i. bit x i \<longrightarrow> i < n"
  then show "fits n x" unfolding fits_def by (intro bit_word_eqI) (auto simp: bit_take_bit_iff)
qed

lemma feedback_zero [simp]: "feedback 0 = 0"
proof -
  have "fold (\<lambda>i c. if bit (0 :: 32 word) i then c XOR GEN ! i else c) is (0 :: 32 word) = 0" for "is" by (induction "is") simp_all
  then show ?thesis by (simp add: feedback_def)
qed

lemma step_small:
  assumes "fits n x" "n \<le> 25" "fits 5 v"
  shows "polymodStep v x = push_bit 5 x XOR v" "fits (n + 5) (push_bit 5 x XOR v)"
proof -
  have "drop_bit 25 x = 0" using assms(1,2) by (auto simp: bit_eq_iff bit_drop_bit_eq fits_iff)
  moreover have "take_bit 25 x = x" using assms(1,2) by (auto simp: bit_eq_iff bit_take_bit_iff fits_iff)
  ultimately show "polymodStep v x = push_bit 5 x XOR v" by (simp add: step_feedback)
  show "fits (n + 5) (push_bit 5 x XOR v)" using assms(1,3) by (auto simp: fits_iff bit_xor_iff bit_push_bit_iff)
qed

text \<open>Six symbols, the first in the highest bits.\<close>

definition pack :: "32 word list \<Rightarrow> 32 word" where
  "pack cs = fold (\<lambda>v x. push_bit 5 x XOR v) cs 0"

definition unpack :: "32 word \<Rightarrow> 32 word list" where
  "unpack m = map (\<lambda>i. drop_bit (5 * (5 - i)) m AND 31) [0..<6]"

lemma fold_small:
  "list_all (fits 5) cs \<Longrightarrow> fits n x \<Longrightarrow> n + 5 * length cs \<le> 30 \<Longrightarrow>
   fold polymodStep cs x = fold (\<lambda>v x. push_bit 5 x XOR v) cs x \<and> fits (n + 5 * length cs) (fold polymodStep cs x)"
proof (induction cs arbitrary: n x)
  case (Cons v cs)
  have "n \<le> 25" using Cons.prems(3) by simp
  then have v: "polymodStep v x = push_bit 5 x XOR v" "fits (n + 5) (push_bit 5 x XOR v)"
    using step_small [OF Cons.prems(2)] Cons.prems(1) by simp_all
  have eq: "n + 5 * length (v # cs) = n + 5 + 5 * length cs" by simp
  have "list_all (fits 5) cs" "n + 5 + 5 * length cs \<le> 30" using Cons.prems(1,3) by simp_all
  then show ?case unfolding fold_Cons o_apply v(1) eq using Cons.IH [OF _ v(2)] by blast
qed simp

lemma polymod_checksum:
  assumes "list_all (fits 5) cs" "length cs = 6"
  shows "polymod (v @ cs) = polymod (v @ [0, 0, 0, 0, 0, 0]) XOR pack cs"
proof -
  have "fold polymodStep cs 0 = pack cs" using fold_small [OF assms(1), of 0 0] assms(2) by (simp add: pack_def fits_def)
  then show ?thesis using fold_step_zeros [of cs "fold polymodStep v 1"] assms(2) by (simp add: polymod_def numeral_eq_Suc)
qed

lemma six: "length cs = 6 \<Longrightarrow> \<exists>a b c d e f. cs = [a, b, c, d, e, f]"
  by (simp add: numeral_eq_Suc length_Suc_conv) metis

lemma and31: "x AND 31 = take_bit 5 (x :: 32 word)"
  by (simp add: take_bit_eq_mask mask_eq_exp_minus_1)

lemma upt6: "[0..<6] = [0, 1, 2, 3, 4, 5 :: nat]"
  by (simp add: upt_rec)

lemma horner:
  assumes "fits 25 x" "fits 5 v"
  shows "drop_bit 5 (push_bit 5 x XOR v) = x" "take_bit 5 (push_bit 5 x XOR v) = v"
proof -
  have x: "bit x i \<Longrightarrow> i < 25" and v: "bit v i \<Longrightarrow> i < 5" for i using assms by (simp_all add: fits_iff)
  show "drop_bit 5 (push_bit 5 x XOR v) = x"
    by (rule bit_word_eqI) (auto simp: bit_drop_bit_eq bit_xor_iff bit_push_bit_iff dest: x v)
  show "take_bit 5 (push_bit 5 x XOR v) = v"
    by (rule bit_word_eqI) (auto simp: bit_take_bit_iff bit_xor_iff bit_push_bit_iff dest: v)
qed

lemma split5: "push_bit 5 (drop_bit 5 m) XOR take_bit 5 m = (m :: 32 word)"
  by (rule bit_word_eqI) (auto simp: bit_xor_iff bit_push_bit_iff bit_drop_bit_eq bit_take_bit_iff)

lemma drops: "drop_bit 10 m = drop_bit 5 (drop_bit 5 m)" "drop_bit 15 m = drop_bit 5 (drop_bit 10 m)" "drop_bit 20 m = drop_bit 5 (drop_bit 15 m)"
  "drop_bit 25 m = drop_bit 5 (drop_bit 20 (m :: 32 word))"
  by simp_all

lemma unpack_pack:
  assumes "list_all (fits 5) cs" "length cs = 6"
  shows "unpack (pack cs) = cs"
proof -
  obtain a b c d e f where cs: "cs = [a, b, c, d, e, f]" using six [OF assms(2)] by blast
  have s: "fits 5 a" "fits 5 b" "fits 5 c" "fits 5 d" "fits 5 e" "fits 5 f" using assms(1) by (simp_all add: cs)
  define p where "p = push_bit 5 a XOR b"
  define q where "q = push_bit 5 p XOR c"
  define r where "r = push_bit 5 q XOR d"
  define t where "t = push_bit 5 r XOR e"
  have up: "fits n x \<Longrightarrow> fits 5 v \<Longrightarrow> n \<le> 20 \<Longrightarrow> fits (n + 5) (push_bit 5 x XOR v)" for n x v
    using step_small(2) [of n x v] by simp
  have p: "fits 10 p" unfolding p_def using up [OF s(1,2)] by simp
  have q: "fits 15 q" unfolding q_def using up [OF p s(3)] by simp
  have r: "fits 20 r" unfolding r_def using up [OF q s(4)] by simp
  have t: "fits 25 t" unfolding t_def using up [OF r s(5)] by simp
  have mono: "fits n x \<Longrightarrow> n \<le> 25 \<Longrightarrow> fits 25 x" for n x by (force simp: fits_iff)
  note h = horner [OF mono [OF s(1)] s(2), folded p_def] horner [OF mono [OF p] s(3), folded q_def] horner [OF mono [OF q] s(4), folded r_def]
    horner [OF mono [OF r] s(5), folded t_def] horner [OF t s(6)]
  define m where "m = push_bit 5 t XOR f"
  have "pack cs = m" by (simp add: pack_def cs p_def q_def r_def t_def m_def)
  moreover have "take_bit 5 a = a" using s(1) by (simp add: fits_def)
  moreover note h [folded m_def]
  ultimately show ?thesis unfolding unpack_def upt6 and31 by (simp add: drops cs del: drop_bit_drop_bit)
qed

lemma pack_unpack:
  assumes "fits 30 m"
  shows "pack (unpack m) = m" "list_all (fits 5) (unpack m)" "length (unpack m) = 6"
proof -
  have top: "take_bit 5 (drop_bit 25 m) = drop_bit 25 m"
    using assms by (intro bit_word_eqI) (auto simp: bit_take_bit_iff bit_drop_bit_eq fits_iff)
  have five: "push_bit 5 (drop_bit (k + 5) m) XOR take_bit 5 (drop_bit k m) = drop_bit k m" for k
    using split5 [of "drop_bit k m"] by (simp add: add.commute)
  show "pack (unpack m) = m"
    unfolding unpack_def pack_def upt6 and31
    using top five [of 20] five [of 15] five [of 10] five [of 5] five [of 0] by simp
qed (auto simp: unpack_def and31 list_all_iff fits_def)

lemma step_fits:
  assumes "fits 5 v"
  shows "fits 30 (polymodStep v x)"
proof -
  have gen: "fits 30 g" if "g \<in> set GEN" for g using that by (auto simp: GEN_def fits_def take_bit_eq_mask mask_eq_exp_minus_1)
  have xor: "fits 30 y \<Longrightarrow> fits 30 z \<Longrightarrow> fits 30 (y XOR z)" for y z by (auto simp: fits_iff bit_xor_iff)
  have "GEN ! i \<in> set GEN" if "i \<in> set [0..<5]" for i using that by (intro nth_mem) (simp add: GEN_def)
  then have loop: "fits 30 (fold (\<lambda>i c. if bit b i then c XOR GEN ! i else c) is y)" if "set is \<subseteq> set [0..<5]" "fits 30 y" for "is" b y
    using that gen xor by (induction "is" arbitrary: y) auto
  have "fits 30 0" by (simp add: fits_def)
  then have "fits 30 (feedback b)" for b unfolding feedback_def by (rule loop [OF subset_refl])
  moreover have "fits 30 (push_bit 5 (take_bit 25 x) XOR v)" using assms by (auto simp: fits_iff bit_xor_iff bit_push_bit_iff bit_take_bit_iff)
  ultimately show ?thesis unfolding step_feedback using xor by blast
qed

lemma checksum_unpack: "createChecksum hrp d = unpack (polymod (hrpExpand hrp @ d @ [0, 0, 0, 0, 0, 0]) XOR BECH32M_CONST)"
  by (simp add: createChecksum_def unpack_def Let_def)

lemma const_fits: "fits 30 BECH32M_CONST"
  by (simp add: BECH32M_CONST_def fits_def take_bit_eq_mask mask_eq_exp_minus_1)

lemma sum_fits: "fits 30 (polymod (v @ [0, 0, 0, 0, 0, 0]) XOR BECH32M_CONST)"
proof -
  have "polymod (v @ [0, 0, 0, 0, 0, 0]) = polymodStep 0 (polymod (v @ [0, 0, 0, 0, 0]))" by (simp add: polymod_def)
  then have "fits 30 (polymod (v @ [0, 0, 0, 0, 0, 0]))" using step_fits [of 0] by (simp add: fits_def)
  then show ?thesis using const_fits by (auto simp: fits_iff bit_xor_iff)
qed

lemma checksum_props:
  "list_all (fits 5) (createChecksum hrp d)" "length (createChecksum hrp d) = 6"
  "polymod (hrpExpand hrp @ d @ createChecksum hrp d) = BECH32M_CONST"
proof -
  let ?m = "polymod ((hrpExpand hrp @ d) @ [0, 0, 0, 0, 0, 0])"
  have c: "createChecksum hrp d = unpack (?m XOR BECH32M_CONST)" by (simp add: checksum_unpack)
  note p = pack_unpack [OF sum_fits [of "hrpExpand hrp @ d"]]
  show l: "list_all (fits 5) (createChecksum hrp d)" "length (createChecksum hrp d) = 6" unfolding c using p by blast+
  have "polymod ((hrpExpand hrp @ d) @ createChecksum hrp d) = ?m XOR (?m XOR BECH32M_CONST)"
    using polymod_checksum [OF l, of "hrpExpand hrp @ d"] p(1) by (simp add: c)
  then show "polymod (hrpExpand hrp @ d @ createChecksum hrp d) = BECH32M_CONST" by (simp flip: xor.assoc)
qed

lemma checksum_unique:
  assumes "list_all (fits 5) cs" "length cs = 6" "polymod (hrpExpand hrp @ d @ cs) = BECH32M_CONST"
  shows "cs = createChecksum hrp d"
proof -
  let ?m = "polymod ((hrpExpand hrp @ d) @ [0, 0, 0, 0, 0, 0])"
  have "?m XOR pack cs = BECH32M_CONST" using polymod_checksum [OF assms(1,2), of "hrpExpand hrp @ d"] assms(3) by simp
  then have "?m XOR BECH32M_CONST = ?m XOR (?m XOR pack cs)" by simp
  also have "\<dots> = pack cs" by (simp flip: xor.assoc)
  finally have "pack cs = ?m XOR BECH32M_CONST" by simp
  then show ?thesis using unpack_pack [OF assms(1,2)] by (simp only: checksum_unpack append_assoc)
qed

subsection \<open>Round trips\<close>

lemma charset_index:
  assumes "n < 32"
  shows "index_of CHARSET (CHARSET ! n) = Some n" "CHARSET ! n \<noteq> CHR ''1''" "lower_char (CHARSET ! n) = CHARSET ! n"
proof -
  have "list_all (\<lambda>n. index_of CHARSET (CHARSET ! n) = Some n \<and> CHARSET ! n \<noteq> CHR ''1'' \<and> lower_char (CHARSET ! n) = CHARSET ! n) [0..<32]"
    by code_simp
  then have "index_of CHARSET (CHARSET ! n) = Some n \<and> CHARSET ! n \<noteq> CHR ''1'' \<and> lower_char (CHARSET ! n) = CHARSET ! n"
    using assms unfolding list_all_iff by simp
  then show "index_of CHARSET (CHARSET ! n) = Some n" "CHARSET ! n \<noteq> CHR ''1''" "lower_char (CHARSET ! n) = CHARSET ! n" by blast+
qed

lemma fits5_less: "fits 5 v \<Longrightarrow> unat v < 32"
  unfolding fits_def using take_bit_nat_less_exp [of 5 "unat v"] by (simp flip: unsigned_take_bit_eq)

lemma index_symbol: "index_of CHARSET c = Some n \<Longrightarrow> unat (word_of_nat n :: 32 word) = n \<and> CHARSET ! n = c \<and> fits 5 (word_of_nat n)"
proof -
  assume "index_of CHARSET c = Some n"
  then have "n < 32 \<and> CHARSET ! n = c" using index_of_Some by (fastforce simp: CHARSET_def)
  moreover have "take_bit 5 n = n" if "n < 32" using that by (simp add: take_bit_nat_eq_self)
  moreover have "take_bit 5 (word_of_nat n :: 32 word) = word_of_nat (take_bit 5 n)" by (rule take_bit_of_nat)
  moreover have "unat (word_of_nat n :: 32 word) = take_bit 32 n" by (simp add: unsigned_of_nat)
  moreover have "take_bit 32 n = n" if "n < 32" using that by (simp add: take_bit_nat_eq_self)
  ultimately show ?thesis by (simp add: fits_def)
qed

definition symbols :: "32 word list \<Rightarrow> string" where
  "symbols ds = map (\<lambda>d. CHARSET ! unat d) ds"

lemma symbols_props:
  assumes "list_all (fits 5) ds"
  shows "js_lower (symbols ds) = symbols ds" "CHR ''1'' \<notin> set (symbols ds)" "list_all (\<lambda>c. index_of CHARSET c \<noteq> None) (symbols ds)"
    "map (\<lambda>c. word_of_nat (the (index_of CHARSET c))) (symbols ds) = ds"
  using assms charset_index fits5_less
  by (auto simp: symbols_def js_lower_def list_all_iff intro!: map_idI) force

lemma lastIndexOf_split:
  assumes "c \<notin> set t"
  shows "lastIndexOf c (s @ c # t) = Some (length s)"
proof -
  have "c \<notin> set u \<Longrightarrow> index_of (u @ c # rev s) c = Some (length u)" for u by (induction u) auto
  from this [of "rev t"] show ?thesis using assms by (simp add: lastIndexOf_def)
qed

lemma lastIndexOf_Some:
  assumes "lastIndexOf c s = Some i"
  shows "i < length s \<and> s = take i s @ c # drop (Suc i) s"
proof -
  obtain j where j: "index_of (rev s) c = Some j" "i = length s - 1 - j" using assms by (auto simp: lastIndexOf_def split: option.splits)
  then have "j < length s" "rev s ! j = c" using index_of_Some by fastforce+
  then have "i < length s" "s ! i = c" using j(2) by (auto simp: rev_nth)
  then show ?thesis using id_take_nth_drop by metis
qed

lemma encode_decode:
  assumes "js_lower hrp = hrp" "hrp \<noteq> []" "list_all (fits 5) d"
  shows "decodeBech32m (encodeBech32m hrp d) = Some (hrp, d)"
proof -
  let ?ds = "d @ createChecksum hrp d"
  have ds: "list_all (fits 5) ?ds" using assms(3) checksum_props(1) by simp
  note s = symbols_props [OF ds]
  have e: "encodeBech32m hrp d = hrp @ CHR ''1'' # symbols ?ds" by (simp add: encodeBech32m_def symbols_def)
  have "js_lower (hrp @ CHR ''1'' # symbols ?ds) = hrp @ CHR ''1'' # symbols ?ds"
    using assms(1) s(1) by (simp add: js_lower_def) (simp add: lower_char_def char_code_def)
  moreover have "length (symbols ?ds) = length d + 6" by (simp add: symbols_def checksum_props(2))
  ultimately show ?thesis
    using assms(2) s(3,4) lastIndexOf_split [OF s(2), of hrp] checksum_props(2,3) [of hrp d]
    by (simp add: decodeBech32m_def e Let_def Suc_le_eq)
qed

lemma decode_encode:
  assumes "decodeBech32m addr = Some (hrp, d)"
  shows "encodeBech32m hrp d = js_lower addr" "hrp \<noteq> []" "list_all (fits 5) d"
proof -
  let ?l = "js_lower addr"
  obtain i where i: "lastIndexOf (CHR ''1'') ?l = Some i" "1 \<le> i" "i + 7 \<le> length ?l" using assms by (auto simp: decodeBech32m_def Let_def split: option.splits if_splits)
  let ?chars = "drop (i + 1) ?l" let ?data = "map (\<lambda>c. word_of_nat (the (index_of CHARSET c)) :: 32 word) ?chars"
  have c: "list_all (\<lambda>c. index_of CHARSET c \<noteq> None) ?chars" "polymod (hrpExpand (take i ?l) @ ?data) = BECH32M_CONST"
      "hrp = take i ?l" "d = take (length ?data - 6) ?data"
    using assms i by (auto simp: decodeBech32m_def Let_def split: if_splits)
  have f: "list_all (fits 5) ?data" "symbols ?data = ?chars"
    using c(1) index_symbol by (auto simp: list_all_iff symbols_def comp_def intro!: map_idI)
  let ?cs = "drop (length ?data - 6) ?data"
  have split: "?data = d @ ?cs" unfolding c(4) by simp
  have n: "length ?cs = 6" using i(3) by simp
  have fd: "list_all (fits 5) d" "list_all (fits 5) ?cs" using f(1) split by (metis list_all_append)+
  have "?cs = createChecksum hrp d" using checksum_unique [OF fd(2) n, of hrp d] c(2,3) split by metis
  then have "encodeBech32m hrp d = hrp @ CHR ''1'' # symbols ?data" using split by (simp add: encodeBech32m_def symbols_def)
  also have "\<dots> = ?l" using lastIndexOf_Some [OF i(1)] c(3) f(2) by simp
  finally show "encodeBech32m hrp d = ?l" .
  show "hrp \<noteq> []" using c(3) i by auto
  show "list_all (fits 5) d" by (rule fd)
qed

definition hrpOf :: "NetworkId \<Rightarrow> string" where
  "hrpOf n = (if n = Mainnet then ''bc'' else ''tb'')"

text \<open>
  C32. A taproot address shown on another network is an address of the same key there, and back on its own
  network it is the address it was: re-encoding a valid bech32m address of either network decodes to the same
  data under the other prefix, and re-encoding twice is the identity.
\<close>

theorem reEncode_roundtrip:
  assumes "decodeBech32m addr = Some (hrpOf m, 1 # d)" "js_lower addr = addr"
  shows "decodeBech32m (reEncodeTaprootAddress addr n) = Some (hrpOf n, 1 # d)
    \<and> reEncodeTaprootAddress (reEncodeTaprootAddress addr n) m = addr"
proof -
  have f: "list_all (fits 5) (1 # d)" and a: "encodeBech32m (hrpOf m) (1 # d) = addr" using decode_encode [OF assms(1)] assms(2) by simp_all
  have low: "js_lower (hrpOf k) = hrpOf k" "hrpOf k \<noteq> []" for k
    by (cases k; simp add: hrpOf_def js_lower_def lower_char_def char_code_def)+
  have dec: "decodeBech32m (encodeBech32m (hrpOf k) (1 # d)) = Some (hrpOf k, 1 # d)" for k by (rule encode_decode [OF low f])
  have p: "CHARSET ! unat (1 :: 32 word) = CHR ''p''" by (simp add: CHARSET_def)
  have start: "starts_with ''bc1p'' (encodeBech32m (hrpOf k) (1 # d)) \<longleftrightarrow> k = Mainnet"
    "starts_with ''tb1p'' (encodeBech32m (hrpOf k) (1 # d)) \<longleftrightarrow> k = Testnet4" for k
    using p by (cases k; simp add: encodeBech32m_def hrpOf_def starts_with_def)+
  have re: "reEncodeTaprootAddress (encodeBech32m (hrpOf k) (1 # d)) n = encodeBech32m (hrpOf n) (1 # d)" for k n
    unfolding reEncodeTaprootAddress_def Let_def start dec option.case prod.case hrpOf_def [of n, symmetric]
    by (cases k; cases n) (simp_all only: NetworkId.distinct simp_thms if_True if_False)
  show ?thesis
    unfolding a [symmetric] re using dec by simp_all
qed

text \<open>The address of a made-up key.\<close>

definition sampleTaproot :: string where
  "sampleTaproot = encodeBech32m ''tb'' (1 # replicate 52 7)"

theorem reEncode_roundtrip_sample:
  "reEncodeTaprootAddress (reEncodeTaprootAddress sampleTaproot Mainnet) Testnet4 = sampleTaproot"
proof -
  have l: "js_lower ''tb'' = ''tb''" by (simp add: js_lower_def lower_char_def char_code_def)
  have f: "list_all (fits 5) (1 # replicate 52 7)" by (simp add: list_all_iff fits_def take_bit_eq_mask mask_eq_exp_minus_1)
  have d: "decodeBech32m sampleTaproot = Some (hrpOf Testnet4, 1 # replicate 52 7)"
    unfolding sampleTaproot_def using encode_decode [OF l _ f] by (simp add: hrpOf_def)
  then have "js_lower sampleTaproot = sampleTaproot" using decode_encode(1) [OF d] by (simp add: sampleTaproot_def hrpOf_def)
  then show ?thesis using reEncode_roundtrip [OF d] by simp
qed

end
