(* ===== verification/WalletState.thy ===== *)
theory WalletState
  imports AddressNetwork Signature
begin

text \<open>
  The decrypted state of the wallet (\<open>apps/chrome-wallet/src/state/types.ts\<close>), its migrations and the operations of the
  store on it (\<open>state/wallet-store.ts\<close>), the addresses of an account (\<open>state/account-addresses.ts\<close>), the account a site
  may sign with (\<open>utils/origin-account.ts\<close>), what a signer supports (\<open>wallets/capabilities.ts\<close>). Every operation of the
  store reads the whole state, changes it and writes it back; here are the changes. Values fixed when the wallet is
  built, \<open>new URL(...).hostname\<close> and base58 are fields of \<open>wallet_build\<close>.
\<close>

subsection \<open>Accounts\<close>

datatype AddressPurpose = Payment | Ordinals
datatype BtcAddressType = P2tr | P2wpkh | P2sh | P2pkh | UnknownType
datatype WalletAccountKind = TurnkeyKind | ExternalKind | WatchKind
datatype WalletAuthMethod = PasskeyAuth | EmailAuth | ExternalAuth | WatchAuth
datatype ExternalWalletProvider = Xverse | Unisat

record AccountAddress =
  aa_address :: string
  aa_publicKeyHex :: "string option"
  aa_purposes :: "AddressPurpose list"
  aa_network :: NetworkId
  aa_addressType :: BtcAddressType
  aa_chainVerified :: bool

record WalletAccount =
  wa_id :: string
  wa_label :: string
  wa_btcAddress :: string
  wa_publicKeyHex :: string
  wa_archAddress :: "string option"
  wa_kind :: WalletAccountKind
  wa_resource :: string
  wa_organization :: string
  wa_authMethod :: WalletAuthMethod
  wa_provider :: "ExternalWalletProvider option"
  wa_addresses :: "AccountAddress list option"
  wa_legacyArchAddress :: "string option"
  wa_recoveryEmail :: "string option"
  wa_createdAt :: int

definition isExternalAccount :: "WalletAccount \<Rightarrow> bool" where
  "isExternalAccount a \<longleftrightarrow> wa_kind a = ExternalKind"

definition isWatchAccount :: "WalletAccount \<Rightarrow> bool" where
  "isWatchAccount a \<longleftrightarrow> wa_kind a = WatchKind"

subsection \<open>Addresses of an account\<close>

definition addressTypeOf :: "string \<Rightarrow> BtcAddressType" where
  "addressTypeOf address =
     (let lower = js_lower address;
          segwit = (\<lambda>v. starts_with (''bc1'' @ v) lower \<or> starts_with (''tb1'' @ v) lower \<or> starts_with (''bcrt1'' @ v) lower)
      in if segwit ''p'' then P2tr
         else if segwit ''q'' then (if length lower \<le> 44 then P2wpkh else UnknownType)
         else if address \<noteq> [] \<and> hd address \<in> set ''23'' then P2sh
         else if address \<noteq> [] \<and> hd address \<in> set ''1mn'' then P2pkh
         else UnknownType)"

text \<open>\<open>[...new Set(xs)]\<close>\<close>

definition uniq :: "'a list \<Rightarrow> 'a list" where
  "uniq xs = rev (fold (\<lambda>x acc. if x \<in> set acc then acc else x # acc) xs [])"

definition sameKey :: "AccountAddress \<Rightarrow> AccountAddress \<Rightarrow> bool" where
  "sameKey r s \<longleftrightarrow> aa_network r = aa_network s \<and> aa_address r = aa_address s"

definition mergeRecord :: "AccountAddress \<Rightarrow> AccountAddress \<Rightarrow> AccountAddress" where
  "mergeRecord existing r =
     existing \<lparr> aa_purposes := uniq (aa_purposes existing @ aa_purposes r), aa_chainVerified := aa_chainVerified existing \<and> aa_chainVerified r,
       aa_publicKeyHex := (case aa_publicKeyHex existing of Some k \<Rightarrow> Some k | None \<Rightarrow> aa_publicKeyHex r) \<rparr>"

fun mergeInto :: "AccountAddress \<Rightarrow> AccountAddress list \<Rightarrow> AccountAddress list" where
  "mergeInto r [] = [r \<lparr> aa_purposes := uniq (aa_purposes r) \<rparr>]"
| "mergeInto r (e # es) = (if sameKey e r then mergeRecord e r # es else e # mergeInto r es)"

definition dedupeAddresses :: "AccountAddress list \<Rightarrow> AccountAddress list" where
  "dedupeAddresses records = fold mergeInto records []"

datatype address_gap = NetworkNotLinked | PaymentNotLinked

record ResolvedAddresses =
  ra_identity :: "string option"
  ra_payment :: "string option"
  ra_ordinals :: "string option"
  ra_all :: "string list"
  ra_records :: "AccountAddress list"
  ra_gap :: "address_gap option"

definition withPurpose :: "AccountAddress list \<Rightarrow> AddressPurpose \<Rightarrow> string option" where
  "withPurpose records purpose = map_option aa_address (List.find (\<lambda>r. purpose \<in> set (aa_purposes r)) records)"

definition noAddresses :: ResolvedAddresses where
  "noAddresses = \<lparr> ra_identity = None, ra_payment = None, ra_ordinals = None, ra_all = [], ra_records = [], ra_gap = Some NetworkNotLinked \<rparr>"

definition resolveFromRecords :: "WalletAccount \<Rightarrow> AccountAddress list \<Rightarrow> ResolvedAddresses" where
  "resolveFromRecords account records =
     (if records = [] then noAddresses
      else let identity = (case List.find (\<lambda>r. aa_address r = wa_btcAddress account) records of
               Some r \<Rightarrow> Some (aa_address r)
             | None \<Rightarrow> map_option aa_address (List.find (\<lambda>r. aa_addressType r = P2tr) records))
        in \<lparr> ra_identity = identity, ra_payment = withPurpose records Payment, ra_ordinals = withPurpose records Ordinals,
             ra_all = map aa_address records, ra_records = records, ra_gap = None \<rparr>)"

text \<open>\<open>s || undefined\<close>\<close>

definition orUndefined :: "string \<Rightarrow> string option" where
  "orUndefined s = (if s = [] then None else Some s)"

definition resolveAccountAddresses :: "WalletAccount \<Rightarrow> NetworkId \<Rightarrow> ResolvedAddresses" where
  "resolveAccountAddresses account network =
     (if wa_kind account \<noteq> ExternalKind then
        let address = reEncodeTaprootAddress (wa_btcAddress account) network;
            entry = \<lparr> aa_address = address, aa_publicKeyHex = orUndefined (wa_publicKeyHex account), aa_purposes = [Payment, Ordinals],
              aa_network = network, aa_addressType = addressTypeOf address, aa_chainVerified = True \<rparr>
        in \<lparr> ra_identity = Some address, ra_payment = Some address, ra_ordinals = Some address, ra_all = [address], ra_records = [entry], ra_gap = None \<rparr>
      else case wa_addresses account of
        Some (r # rs) \<Rightarrow> resolveFromRecords account (dedupeAddresses (filter (\<lambda>r. aa_network r = network) (r # rs)))
      | _ \<Rightarrow>
          if detectBtcNetwork (wa_btcAddress account) \<noteq> Some network then noAddresses
          else let single = (wa_provider account = Some Unisat);
                   entry = \<lparr> aa_address = wa_btcAddress account, aa_publicKeyHex = orUndefined (wa_publicKeyHex account),
                     aa_purposes = (if single then [Payment, Ordinals] else [Ordinals]), aa_network = network,
                     aa_addressType = addressTypeOf (wa_btcAddress account), aa_chainVerified = False \<rparr>;
                   resolved = resolveFromRecords account [entry]
            in if single then resolved else resolved \<lparr> ra_gap := Some PaymentNotLinked \<rparr>)"

definition identityAddress :: "WalletAccount \<Rightarrow> NetworkId \<Rightarrow> string option" where
  "identityAddress account network = ra_identity (resolveAccountAddresses account network)"

subsection \<open>Relinking\<close>

record bridge_address =
  ba_address :: string
  ba_publicKeyHex :: string
  ba_purposes :: "AddressPurpose list"
  ba_addressType :: BtcAddressType

record BridgeConnectResult =
  bc_address :: string
  bc_addresses :: "bridge_address list"
  bc_chainVerified :: bool

definition connectionAddresses :: "BridgeConnectResult \<Rightarrow> NetworkId \<Rightarrow> AccountAddress list" where
  "connectionAddresses connected network =
     map (\<lambda>a. \<lparr> aa_address = ba_address a, aa_publicKeyHex = orUndefined (ba_publicKeyHex a), aa_purposes = ba_purposes a,
       aa_network = network, aa_addressType = ba_addressType a, aa_chainVerified = bc_chainVerified connected \<rparr>) (bc_addresses connected)"

text \<open>\<open>None\<close> is the refusal of another account.\<close>

definition relinkedAddresses :: "WalletAccount \<Rightarrow> BridgeConnectResult \<Rightarrow> NetworkId \<Rightarrow> AccountAddress list option" where
  "relinkedAddresses account connected network =
     (if bc_address connected \<noteq> wa_btcAddress account then None
      else Some (filter (\<lambda>r. aa_network r \<noteq> network) (case wa_addresses account of Some rs \<Rightarrow> rs | None \<Rightarrow> [])
        @ connectionAddresses connected network))"

subsection \<open>What a signer can do\<close>

datatype SignerKind = PasskeySigner | EmailSigner | XverseSigner | UnisatSigner | WatchSigner

definition signerKind :: "WalletAccount \<Rightarrow> SignerKind" where
  "signerKind a =
     (if isWatchAccount a then WatchSigner
      else if isExternalAccount a then (if wa_provider a = Some Unisat then UnisatSigner else XverseSigner)
      else if wa_authMethod a = EmailAuth then EmailSigner else PasskeySigner)"

datatype Operation = SendArch | SendBtc | SendRune | SendInscription | SwapTokens | DappConnect | DappArchTransfer | DappArchMessageHash | DappSignPsbt

definition WATCH_ONLY :: string where
  "WATCH_ONLY = ''Watch-only wallet - it can't sign or send. Switch to a signing account.''"

definition LINKED_REFUSAL :: string where
  "LINKED_REFUSAL = ''Raw PSBT signing isn't supported for linked wallets yet. Open the source wallet directly.''"

text \<open>The reason of a refusal.\<close>

definition supports :: "WalletAccount \<Rightarrow> Operation \<Rightarrow> string option" where
  "supports a op =
     (if signerKind a = WatchSigner then Some WATCH_ONLY
      else if signerKind a \<in> {XverseSigner, UnisatSigner} \<and> op = DappSignPsbt then Some LINKED_REFUSAL
      else None)"

subsection \<open>The state\<close>

record SitePermissions =
  sp_readState :: bool
  sp_signMessage :: bool
  sp_signArchMessageHash :: bool
  sp_sendTransfer :: bool
  sp_signPsbt :: bool
  sp_spendingLimit :: "int option"
  sp_btcSpendingLimit :: "int option"

definition DEFAULT_SITE_PERMISSIONS :: SitePermissions where
  "DEFAULT_SITE_PERMISSIONS =
     \<lparr> sp_readState = True, sp_signMessage = False, sp_signArchMessageHash = False, sp_sendTransfer = False, sp_signPsbt = False,
       sp_spendingLimit = None, sp_btcSpendingLimit = None \<rparr>"

record ConnectedSite =
  cs_origin :: string
  cs_name :: "string option"
  cs_iconUrl :: "string option"
  cs_connectedAt :: int
  cs_accountId :: string
  cs_permissions :: "SitePermissions option"

datatype RecipientAsset = Btc | Arch | Apl

record RecentRecipient =
  rt_address :: string
  rt_asset :: RecipientAsset
  rt_network :: NetworkId
  rt_label :: "string option"
  rt_mint :: "string option"
  rt_lastUsedAt :: int
  rt_useCount :: int

record Contact =
  ct_address :: string
  ct_label :: string
  ct_network :: NetworkId
  ct_asset :: "RecipientAsset option"
  ct_mint :: "string option"
  ct_note :: "string option"
  ct_createdAt :: int
  ct_updatedAt :: int

datatype OpenAsMode = Popup | Sidepanel

record AppState =
  st_schemaVersion :: int
  st_network :: NetworkId
  st_activeAccountId :: "string option"
  st_accounts :: "WalletAccount list"
  st_connectedSites :: "string \<Rightarrow> ConnectedSite option"
  st_hubBaseUrl :: string
  st_hubApiKey :: string
  st_indexerBaseUrl :: string
  st_indexerApiKey :: string
  st_openAs :: OpenAsMode
  st_recentRecipients :: "RecentRecipient list"
  st_contacts :: "Contact list"
  st_autoLockMinutes :: int
  st_sentryOptIn :: bool
  st_debugMode :: bool

definition CURRENT_SCHEMA_VERSION :: int where "CURRENT_SCHEMA_VERSION = 5"
definition MAX_RECENT_RECIPIENTS :: nat where "MAX_RECENT_RECIPIENTS = 20"
definition MAX_CONTACTS :: nat where "MAX_CONTACTS = 100"

end
