(* ===== verification/WalletStore.thy ===== *)
theory WalletStore
  imports WalletState
begin

text \<open>
  Migrations and operations of \<open>state/wallet-store.ts\<close> on a decrypted state: what each operation writes back, given the
  state it read. \<open>initialized\<close> and \<open>locked\<close> are left to the keystore; writing is its \<open>write\<close>.
\<close>

subsection \<open>Set-up\<close>

record wallet_build =
  wb_hubBaseUrl :: string
  wb_hubApiKey :: string
  wb_indexerApiKey :: string
  wb_hostname :: "string \<Rightarrow> string option"
  wb_base58 :: "byte list \<Rightarrow> string"

definition LEGACY_EC2_HUB_BASE_URL :: string where "LEGACY_EC2_HUB_BASE_URL = ''http://44.222.123.237:3005''"
definition LEGACY_HUB_API_KEY :: string where "LEGACY_HUB_API_KEY = ''D3DqTHT1JgTAzyYWiZmZ0KWjKJ-f_Tiilw_VtrW9Wog''"
definition ROTATED_LEAKED_HUB_API_KEY :: string where "ROTATED_LEAKED_HUB_API_KEY = ''OZfoD0ZJh6kQpd3Lr4TvLbnocS2g_eooZlQ7VEfbE4M''"
definition LEAKED_INDEXER_API_KEY :: string where "LEAKED_INDEXER_API_KEY = ''arch_live_28FvKem4QudQx0uczFunu4plqIo1rwWpiajtkrkj2PVhSllF''"

definition ends_with :: "string \<Rightarrow> string \<Rightarrow> bool" where
  "ends_with t s \<longleftrightarrow> length t \<le> length s \<and> drop (length s - length t) s = t"

definition isAllowedHubBaseUrl :: "wallet_build \<Rightarrow> string \<Rightarrow> bool" where
  "isAllowedHubBaseUrl B rawUrl =
     (case wb_hostname B rawUrl of
        None \<Rightarrow> False
      | Some h \<Rightarrow> let host = js_lower h in
          host \<in> {''localhost'', ''127.0.0.1'', ''0.0.0.0'', ''::1''}
          \<or> (case wb_hostname B (wb_hubBaseUrl B) of Some d \<Rightarrow> host = js_lower d | None \<Rightarrow> False)
          \<or> host = ''arch.network'' \<or> ends_with ''.arch.network'' host)"

definition deriveArchAccountAddress :: "wallet_build \<Rightarrow> string \<Rightarrow> string" where
  "deriveArchAccountAddress B publicKeyHex =
     wb_base58 B (decodeHex (if length publicKeyHex = 66 then drop 2 publicKeyHex else publicKeyHex))"

definition INDEXER_BASE_URL :: string where
  "INDEXER_BASE_URL = ''https://explorer.arch.network/api/v1''"

definition DEFAULT_STATE :: "wallet_build \<Rightarrow> AppState" where
  "DEFAULT_STATE B =
     \<lparr> st_schemaVersion = CURRENT_SCHEMA_VERSION, st_network = Testnet4, st_activeAccountId = None, st_accounts = [],
       st_connectedSites = Map.empty, st_hubBaseUrl = wb_hubBaseUrl B, st_hubApiKey = wb_hubApiKey B, st_indexerBaseUrl = [],
       st_indexerApiKey = [], st_openAs = Popup, st_recentRecipients = [], st_contacts = [], st_autoLockMinutes = 60,
       st_sentryOptIn = False, st_debugMode = False \<rparr>"

text \<open>What onboarding seals.\<close>

definition completeOnboarding :: "wallet_build \<Rightarrow> WalletAccount \<Rightarrow> AppState" where
  "completeOnboarding B account = (DEFAULT_STATE B) \<lparr> st_accounts := [account], st_activeAccountId := Some (wa_id account) \<rparr>"

subsection \<open>Migrations\<close>

text \<open>
  A decrypted blob, spread over \<open>DEFAULT_STATE\<close>. What may lie in an old one: an account may lack its kind and its method, hold the flag \<open>isCustodial\<close>, name a wallet
  that is gone, or have malformed address records (\<open>None\<close>). A field that is absent or of another type is \<open>None\<close>.
\<close>

record RawAccount =
  raw_account :: WalletAccount
  raw_magiceden :: bool
  raw_kind :: "WalletAccountKind option"
  raw_authMethod :: "WalletAuthMethod option"
  raw_isCustodial :: "bool option"
  raw_addresses :: "AccountAddress option list option"

record RawState =
  raw_state :: AppState
  raw_accounts :: "RawAccount list"
  raw_apiBaseUrl :: "string option"
  raw_apiKey :: "string option"
  raw_hubBaseUrl :: "string option"
  raw_hubApiKey :: "string option"
  raw_indexerBaseUrl :: "string option"
  raw_indexerApiKey :: "string option"
  raw_openAs :: "OpenAsMode option"
  raw_schemaVersion :: "int option"
  raw_recentRecipients :: "RecentRecipient list option"
  raw_contacts :: "Contact list option"
  raw_autoLockMinutes :: "int option"
  raw_sentryOptIn :: "bool option"
  raw_debugMode :: "bool option"

definition textOr :: "string option \<Rightarrow> string \<Rightarrow> string" where
  "textOr t d = (case t of Some (c # cs) \<Rightarrow> c # cs | _ \<Rightarrow> d)"

definition filled :: "string option \<Rightarrow> bool" where
  "filled t \<longleftrightarrow> (case t of Some (c # cs) \<Rightarrow> True | _ \<Rightarrow> False)"

definition migrateHubBaseUrl :: "wallet_build \<Rightarrow> string option \<Rightarrow> string \<times> bool" where
  "migrateHubBaseUrl B url =
     (if \<not> filled url then (wb_hubBaseUrl B, True)
      else if the url = LEGACY_EC2_HUB_BASE_URL then (wb_hubBaseUrl B, True)
      else if \<not> isAllowedHubBaseUrl B (the url) then (wb_hubBaseUrl B, True)
      else (the url, False))"

definition migrateKey :: "string list \<Rightarrow> string \<Rightarrow> string option \<Rightarrow> string \<times> bool" where
  "migrateKey stale fresh key =
     (if \<not> filled key then (fresh, True) else if the key \<in> set stale then (fresh, True) else (the key, False))"

text \<open>The configuration: hub URL, hub key, indexer URL, indexer key.\<close>

definition migrateApiConfig :: "wallet_build \<Rightarrow> RawState \<Rightarrow> (string \<times> string \<times> string \<times> string) \<times> bool" where
  "migrateApiConfig B s =
     (let legacy = (raw_apiBaseUrl s \<noteq> None \<or> raw_apiKey s \<noteq> None);
          url0 = (if legacy \<and> \<not> filled (raw_hubBaseUrl s) then Some (textOr (raw_apiBaseUrl s) (wb_hubBaseUrl B)) else raw_hubBaseUrl s);
          key0 = (if legacy \<and> \<not> filled (raw_hubApiKey s) then Some (textOr (raw_apiKey s) (wb_hubApiKey B)) else raw_hubApiKey s);
          (url, m1) = migrateHubBaseUrl B url0;
          (key, m2) = migrateKey [LEGACY_HUB_API_KEY, ROTATED_LEAKED_HUB_API_KEY] (wb_hubApiKey B) key0;
          (iurl, m3) = migrateKey [] (INDEXER_BASE_URL) (raw_indexerBaseUrl s);
          (ikey, m4) = migrateKey [LEAKED_INDEXER_API_KEY] (wb_indexerApiKey B) (raw_indexerApiKey s)
      in ((url, key, iurl, ikey), legacy \<or> m1 \<or> m2 \<or> m3 \<or> m4))"

definition migrateKind :: "RawAccount \<Rightarrow> WalletAccountKind \<times> bool" where
  "migrateKind a = (case raw_kind a of Some k \<Rightarrow> (k, False) | None \<Rightarrow> (TurnkeyKind, True))"

definition migrateAuthMethod :: "WalletAccountKind \<Rightarrow> RawAccount \<Rightarrow> WalletAuthMethod \<times> bool" where
  "migrateAuthMethod kind a =
     (let (m, c) = (case raw_authMethod a of
          Some m \<Rightarrow> (m, False)
        | None \<Rightarrow> (if raw_isCustodial a = Some True \<and> filled (wa_recoveryEmail (raw_account a)) then EmailAuth else PasskeyAuth, True))
      in if kind = ExternalKind \<and> m \<noteq> ExternalAuth then (ExternalAuth, True) else (m, c))"

text \<open>The Arch address and the one it replaces.\<close>

definition migrateArchAddress :: "wallet_build \<Rightarrow> WalletAccountKind \<Rightarrow> WalletAccount \<Rightarrow> (string option \<times> string option) \<times> bool" where
  "migrateArchAddress B kind a =
     (let pk = wa_publicKeyHex a; known = (length pk \<ge> 64);
          (arch, m1) = (if \<not> filled (wa_archAddress a) \<and> known then (Some (deriveArchAccountAddress B pk), True) else (wa_archAddress a, False));
          canonical = deriveArchAccountAddress B pk
      in if kind = ExternalKind \<and> known \<and> filled arch \<and> arch \<noteq> Some canonical
         then ((Some canonical, if filled (wa_legacyArchAddress a) then wa_legacyArchAddress a else arch), True)
         else ((arch, wa_legacyArchAddress a), m1))"

definition migrateAddresses :: "WalletAccountKind \<Rightarrow> AccountAddress option list option \<Rightarrow> AccountAddress list option \<times> bool" where
  "migrateAddresses kind rs =
     (case rs of
        None \<Rightarrow> (None, False)
      | Some rs \<Rightarrow> let kept = (if kind = ExternalKind then List.map_filter (\<lambda>r. r) rs else []) in
          if kept = [] then (None, True) else (Some kept, length kept \<noteq> length rs))"

definition migrateAccount :: "wallet_build \<Rightarrow> RawAccount \<Rightarrow> WalletAccount \<times> bool" where
  "migrateAccount B a =
     (let (kind, m1) = migrateKind a;
          (auth, m2) = migrateAuthMethod kind a;
          ((arch, legacy), m3) = migrateArchAddress B kind (raw_account a);
          (addresses, m4) = migrateAddresses kind (raw_addresses a)
      in ((raw_account a) \<lparr> wa_kind := kind, wa_authMethod := auth, wa_archAddress := arch, wa_legacyArchAddress := legacy, wa_addresses := addresses \<rparr>,
          m1 \<or> m2 \<or> raw_isCustodial a \<noteq> None \<or> m3 \<or> m4))"

definition migrateSites :: "(string \<Rightarrow> ConnectedSite option) \<Rightarrow> string \<Rightarrow> ConnectedSite option" where
  "migrateSites sites origin =
     map_option (\<lambda>s. if cs_permissions s = None then s \<lparr> cs_permissions := Some DEFAULT_SITE_PERMISSIONS \<rparr> else s) (sites origin)"

definition orDefault :: "'a \<Rightarrow> ('a \<Rightarrow> bool) \<Rightarrow> 'a option \<Rightarrow> 'a \<times> bool" where
  "orDefault d good v = (case v of Some x \<Rightarrow> if good x then (x, False) else (d, True) | None \<Rightarrow> (d, True))"

definition migrateState :: "wallet_build \<Rightarrow> RawState \<Rightarrow> AppState \<times> bool" where
  "migrateState B s =
     (let kept = filter (\<lambda>a. \<not> raw_magiceden a) (raw_accounts s);
          dropped = (length kept \<noteq> length (raw_accounts s));
          active = (case st_activeAccountId (raw_state s) of
              Some i \<Rightarrow> if dropped \<and> i \<noteq> [] \<and> i \<notin> wa_id ` raw_account ` set kept
                then (case kept of [] \<Rightarrow> None | a # _ \<Rightarrow> Some (wa_id (raw_account a))) else Some i
            | None \<Rightarrow> None);
          migrated = map (migrateAccount B) kept;
          ((url, key, iurl, ikey), m1) = migrateApiConfig B s;
          (recent, m2) = orDefault [] (\<lambda>x. True) (raw_recentRecipients s);
          (contacts, m3) = orDefault [] (\<lambda>x. True) (raw_contacts s);
          (lock, m4) = orDefault 60 (\<lambda>x. x > 0) (raw_autoLockMinutes s);
          (sentry, m5) = orDefault False (\<lambda>x. True) (raw_sentryOptIn s);
          (debug, m6) = orDefault False (\<lambda>x. True) (raw_debugMode s);
          (openAs, m9) = orDefault Popup (\<lambda>x. True) (raw_openAs s);
          (version, m7) = orDefault CURRENT_SCHEMA_VERSION (\<lambda>v. \<not> v < CURRENT_SCHEMA_VERSION) (raw_schemaVersion s);
          m8 = (\<exists>x\<in>ran (st_connectedSites (raw_state s)). cs_permissions x = None)
      in ((raw_state s) \<lparr> st_activeAccountId := active, st_accounts := map fst migrated, st_hubBaseUrl := url, st_hubApiKey := key,
            st_indexerBaseUrl := iurl, st_indexerApiKey := ikey, st_openAs := openAs, st_recentRecipients := recent, st_contacts := contacts,
            st_autoLockMinutes := lock, st_sentryOptIn := sentry, st_debugMode := debug,
            st_connectedSites := migrateSites (st_connectedSites (raw_state s)), st_schemaVersion := version \<rparr>,
          dropped \<or> list_ex snd migrated \<or> m1 \<or> m2 \<or> m3 \<or> m4 \<or> m5 \<or> m6 \<or> m7 \<or> m8 \<or> m9))"

subsection \<open>Accounts\<close>

definition addAccount :: "WalletAccount \<Rightarrow> AppState \<Rightarrow> AppState" where
  "addAccount account s = s \<lparr> st_accounts := st_accounts s @ [account], st_activeAccountId := Some (wa_id account) \<rparr>"

text \<open>With whether the session is closed first.\<close>

definition setActiveAccount :: "string \<Rightarrow> AppState \<Rightarrow> AppState \<times> bool" where
  "setActiveAccount accountId s = (s \<lparr> st_activeAccountId := Some accountId \<rparr>, st_activeAccountId s \<noteq> Some accountId)"

datatype forgotten = NoSuchAccount | Wiped | Kept AppState

definition forgetAccount :: "string \<Rightarrow> AppState \<Rightarrow> forgotten" where
  "forgetAccount accountId s =
     (let accounts = filter (\<lambda>a. wa_id a \<noteq> accountId) (st_accounts s) in
      if length accounts = length (st_accounts s) then NoSuchAccount
      else if accounts = [] then Wiped
      else Kept (s \<lparr> st_accounts := accounts,
             st_activeAccountId := (if st_activeAccountId s = Some accountId then Some (wa_id (hd accounts)) else st_activeAccountId s) \<rparr>))"

text \<open>
  \<open>Object.assign(account, patch)\<close> on the first account with this id; \<open>patchId\<close> is \<open>patch.id\<close>.
\<close>

fun patchFirst :: "string \<Rightarrow> (WalletAccount \<Rightarrow> WalletAccount) \<Rightarrow> WalletAccount list \<Rightarrow> WalletAccount list" where
  "patchFirst i f [] = []"
| "patchFirst i f (a # as) = (if wa_id a = i then f a # as else a # patchFirst i f as)"

definition updateAccount :: "string \<Rightarrow> (WalletAccount \<Rightarrow> WalletAccount) \<Rightarrow> string option \<Rightarrow> AppState \<Rightarrow> AppState option" where
  "updateAccount accountId patch patchId s =
     (case List.find (\<lambda>a. wa_id a = accountId) (st_accounts s) of
        None \<Rightarrow> None
      | Some a \<Rightarrow>
          let assign = (\<lambda>a. case patchId of Some i \<Rightarrow> patch a \<lparr> wa_id := i \<rparr> | None \<Rightarrow> patch a \<lparr> wa_id := wa_id a \<rparr>)
          in Some (s \<lparr> st_accounts := patchFirst accountId assign (st_accounts s),
               st_activeAccountId := (if filled patchId \<and> st_activeAccountId s = Some accountId then patchId else st_activeAccountId s) \<rparr>))"

definition accountById :: "string \<Rightarrow> AppState \<Rightarrow> WalletAccount option" where
  "accountById i s = List.find (\<lambda>a. wa_id a = i) (st_accounts s)"

definition getActiveAccount :: "AppState \<Rightarrow> WalletAccount option" where
  "getActiveAccount s = (case st_activeAccountId s of Some i \<Rightarrow> if i = [] then None else accountById i s | None \<Rightarrow> None)"

definition setNetwork :: "NetworkId \<Rightarrow> AppState \<Rightarrow> AppState" where
  "setNetwork network s = s \<lparr> st_network := network \<rparr>"

text \<open>\<open>Math.max(1, Math.round(minutes))\<close> of whole minutes.\<close>

definition setAutoLockMinutes :: "int \<Rightarrow> AppState \<Rightarrow> AppState" where
  "setAutoLockMinutes minutes s = s \<lparr> st_autoLockMinutes := max 1 minutes \<rparr>"

definition sessionTtlSecondsFromState :: "AppState \<Rightarrow> int" where
  "sessionTtlSecondsFromState s = max 1 (st_autoLockMinutes s) * 60"

subsection \<open>Sites\<close>

definition connectSite :: "string \<Rightarrow> ConnectedSite \<Rightarrow> AppState \<Rightarrow> AppState" where
  "connectSite origin site s =
     s \<lparr> st_connectedSites := (st_connectedSites s)(origin \<mapsto> site \<lparr> cs_permissions :=
       Some (case cs_permissions site of Some p \<Rightarrow> p | None \<Rightarrow> DEFAULT_SITE_PERMISSIONS) \<rparr>) \<rparr>"

text \<open>\<open>change\<close> is the spread of the given permissions over those of the site.\<close>

definition setSitePermissions :: "string \<Rightarrow> (SitePermissions \<Rightarrow> SitePermissions) \<Rightarrow> AppState \<Rightarrow> AppState option" where
  "setSitePermissions origin change s =
     map_option (\<lambda>site. s \<lparr> st_connectedSites := (st_connectedSites s)(origin \<mapsto> site \<lparr> cs_permissions :=
         Some (change (case cs_permissions site of Some p \<Rightarrow> p | None \<Rightarrow> DEFAULT_SITE_PERMISSIONS)) \<rparr>) \<rparr>)
       (st_connectedSites s origin)"

definition disconnectSite :: "string \<Rightarrow> AppState \<Rightarrow> AppState" where
  "disconnectSite origin s = s \<lparr> st_connectedSites := (st_connectedSites s)(origin := None) \<rparr>"

definition isSiteConnected :: "string \<Rightarrow> AppState \<Rightarrow> bool" where
  "isSiteConnected origin s \<longleftrightarrow> st_connectedSites s origin \<noteq> None"

definition getSitePermissions :: "string \<Rightarrow> AppState \<Rightarrow> SitePermissions option" where
  "getSitePermissions origin s =
     map_option (\<lambda>site. case cs_permissions site of Some p \<Rightarrow> p | None \<Rightarrow> DEFAULT_SITE_PERMISSIONS) (st_connectedSites s origin)"

text \<open>The account that a site sees, and the state to write when its entry held an address.\<close>

definition getAccountForOrigin :: "string \<Rightarrow> AppState \<Rightarrow> WalletAccount option \<times> AppState option" where
  "getAccountForOrigin origin s =
     (let site = st_connectedSites s origin;
          i = (case site of Some x \<Rightarrow> if cs_accountId x \<noteq> [] then Some (cs_accountId x) else st_activeAccountId s | None \<Rightarrow> st_activeAccountId s)
      in if \<not> filled i then (None, None)
         else case accountById (the i) s of
           Some a \<Rightarrow> (Some a, None)
         | None \<Rightarrow> (case List.find (\<lambda>a. wa_btcAddress a = the i) (st_accounts s) of
             None \<Rightarrow> (None, None)
           | Some a \<Rightarrow> (Some a, (case site of
               Some x \<Rightarrow> if cs_accountId x \<noteq> wa_id a
                 then Some (s \<lparr> st_connectedSites := (st_connectedSites s)(origin \<mapsto> x \<lparr> cs_accountId := wa_id a \<rparr>) \<rparr>) else None
             | None \<Rightarrow> None))))"

datatype OriginSigningAccount = MaySign WalletAccount | MayNotSign "WalletAccount option" string

definition resolveOriginSigningAccount :: "AppState \<Rightarrow> string \<Rightarrow> OriginSigningAccount" where
  "resolveOriginSigningAccount s origin =
     (case st_connectedSites s origin of
        None \<Rightarrow> MayNotSign None ''This site is not connected to Arch Wallet.''
      | Some site \<Rightarrow>
          (case (case accountById (cs_accountId site) s of Some a \<Rightarrow> Some a
               | None \<Rightarrow> List.find (\<lambda>a. wa_btcAddress a = cs_accountId site) (st_accounts s)) of
             None \<Rightarrow> MayNotSign None
               ''The wallet this site was connected with is no longer on this device. Reconnect the site to continue.''
           | Some bound \<Rightarrow>
               if Some (wa_id bound) \<noteq> st_activeAccountId s
               then MayNotSign (Some bound) (''This site is connected to \"'' @ wa_label bound @ ''\", which is not your active wallet. Switch to \"''
                 @ wa_label bound @ ''\" and retry from the site.'')
               else MaySign bound))"

subsection \<open>Configuration, recipients, contacts\<close>

text \<open>\<open>None\<close> is the refusal.\<close>

definition setHubConfig :: "wallet_build \<Rightarrow> string \<Rightarrow> string \<Rightarrow> AppState \<Rightarrow> AppState option" where
  "setHubConfig B url key s = (if \<not> isAllowedHubBaseUrl B url then None else Some (s \<lparr> st_hubBaseUrl := url, st_hubApiKey := key \<rparr>))"

definition setIndexerConfig :: "string \<Rightarrow> string \<Rightarrow> AppState \<Rightarrow> AppState" where
  "setIndexerConfig url key s = s \<lparr> st_indexerBaseUrl := url, st_indexerApiKey := key \<rparr>"

definition sameRecipient :: "string \<Rightarrow> RecipientAsset \<Rightarrow> NetworkId \<Rightarrow> string option \<Rightarrow> RecentRecipient \<Rightarrow> bool" where
  "sameRecipient address asset network mint r \<longleftrightarrow>
     rt_address r = address \<and> rt_asset r = asset \<and> rt_network r = network \<and> textOr (rt_mint r) [] = textOr mint []"

text \<open>\<open>None\<close>: nothing is written.\<close>

definition addRecentRecipient ::
    "int \<Rightarrow> string \<Rightarrow> RecipientAsset \<Rightarrow> NetworkId \<Rightarrow> string option \<Rightarrow> string option \<Rightarrow> AppState \<Rightarrow> AppState option" where
  "addRecentRecipient now address asset network mint label s =
     (let trimmed = js_trim address; same = sameRecipient trimmed asset network mint in
      if trimmed = [] then None
      else let next' = (case List.find same (st_recentRecipients s) of
               Some r \<Rightarrow> r \<lparr> rt_lastUsedAt := now, rt_useCount := rt_useCount r + 1, rt_label := (case label of Some l \<Rightarrow> Some l | None \<Rightarrow> rt_label r) \<rparr>
             | None \<Rightarrow> \<lparr> rt_address = trimmed, rt_asset = asset, rt_network = network, rt_label = label, rt_mint = mint,
                 rt_lastUsedAt = now, rt_useCount = 1 \<rparr>)
        in Some (s \<lparr> st_recentRecipients := take MAX_RECENT_RECIPIENTS (next' # filter (\<lambda>r. \<not> same r) (st_recentRecipients s)) \<rparr>))"

definition removeRecentRecipient :: "string \<Rightarrow> RecipientAsset \<Rightarrow> NetworkId \<Rightarrow> string option \<Rightarrow> AppState \<Rightarrow> AppState" where
  "removeRecentRecipient address asset network mint s =
     s \<lparr> st_recentRecipients := filter (\<lambda>r. \<not> sameRecipient address asset network mint r) (st_recentRecipients s) \<rparr>"

definition clearRecentRecipients :: "AppState \<Rightarrow> AppState" where
  "clearRecentRecipients s = s \<lparr> st_recentRecipients := [] \<rparr>"

definition sameContact :: "string \<Rightarrow> NetworkId \<Rightarrow> string option \<Rightarrow> Contact \<Rightarrow> bool" where
  "sameContact address network mint c \<longleftrightarrow> ct_address c = address \<and> ct_network c = network \<and> textOr (ct_mint c) [] = textOr mint []"

fun replaceFirst :: "('a \<Rightarrow> bool) \<Rightarrow> ('a \<Rightarrow> 'a) \<Rightarrow> 'a list \<Rightarrow> 'a list" where
  "replaceFirst p f [] = []"
| "replaceFirst p f (x # xs) = (if p x then f x # xs else x # replaceFirst p f xs)"

text \<open>
  The entry has the fields of a contact; \<open>created\<close> is its own \<open>createdAt\<close>. Fields that are absent keep what the contact had.
\<close>

definition upsertContact :: "int \<Rightarrow> Contact \<Rightarrow> int option \<Rightarrow> AppState \<Rightarrow> AppState" where
  "upsertContact now entry created s =
     (let same = sameContact (ct_address entry) (ct_network entry) (ct_mint entry);
          update = (\<lambda>c. c \<lparr> ct_address := ct_address entry, ct_label := ct_label entry, ct_network := ct_network entry,
            ct_asset := (case ct_asset entry of Some a \<Rightarrow> Some a | None \<Rightarrow> ct_asset c), ct_mint := (case ct_mint entry of Some m \<Rightarrow> Some m | None \<Rightarrow> ct_mint c),
            ct_note := (case ct_note entry of Some n \<Rightarrow> Some n | None \<Rightarrow> ct_note c),
            ct_createdAt := (case created of Some t \<Rightarrow> t | None \<Rightarrow> ct_createdAt c), ct_updatedAt := now \<rparr>)
      in if list_ex same (st_contacts s) then s \<lparr> st_contacts := replaceFirst same update (st_contacts s) \<rparr>
         else s \<lparr> st_contacts := take MAX_CONTACTS
           (entry \<lparr> ct_createdAt := (case created of Some t \<Rightarrow> t | None \<Rightarrow> now), ct_updatedAt := now \<rparr> # st_contacts s) \<rparr>)"

definition removeContact :: "string \<Rightarrow> NetworkId \<Rightarrow> string option \<Rightarrow> AppState \<Rightarrow> AppState" where
  "removeContact address network mint s = s \<lparr> st_contacts := filter (\<lambda>c. \<not> sameContact address network mint c) (st_contacts s) \<rparr>"

end
