(* ===== verification/WalletSafety.thy ===== *)
theory WalletSafety
  imports WalletStore
begin

text \<open>
  What the operations of the store keep of the wallet's state: the active account is one of its accounts, sites have
  permissions, the hub is an allowed host, lists are bounded and without duplicates. What a migration does to a state
  that was migrated before. Which account a site sees and may sign with, which addresses a linked account has.
\<close>

subsection \<open>Migrating again\<close>

text \<open>A state as the next read finds it.\<close>

definition rawOfAccount :: "WalletAccount \<Rightarrow> RawAccount" where
  "rawOfAccount a =
     \<lparr> raw_account = a, raw_magiceden = False, raw_kind = Some (wa_kind a), raw_authMethod = Some (wa_authMethod a), raw_isCustodial = None,
       raw_addresses = map_option (map Some) (wa_addresses a) \<rparr>"

definition rawOf :: "AppState \<Rightarrow> RawState" where
  "rawOf s =
     \<lparr> raw_state = s, raw_accounts = map rawOfAccount (st_accounts s), raw_apiBaseUrl = None, raw_apiKey = None,
       raw_hubBaseUrl = Some (st_hubBaseUrl s), raw_hubApiKey = Some (st_hubApiKey s), raw_indexerBaseUrl = Some (st_indexerBaseUrl s),
       raw_indexerApiKey = Some (st_indexerApiKey s), raw_openAs = Some (st_openAs s), raw_schemaVersion = Some (st_schemaVersion s),
       raw_recentRecipients = Some (st_recentRecipients s), raw_contacts = Some (st_contacts s),
       raw_autoLockMinutes = Some (st_autoLockMinutes s), raw_sentryOptIn = Some (st_sentryOptIn s), raw_debugMode = Some (st_debugMode s) \<rparr>"

text \<open>The values of the build are ones that the migration lets stand.\<close>

definition good_build :: "wallet_build \<Rightarrow> bool" where
  "good_build B \<longleftrightarrow>
     wb_hubBaseUrl B \<noteq> [] \<and> wb_hubBaseUrl B \<noteq> LEGACY_EC2_HUB_BASE_URL \<and> wb_hostname B (wb_hubBaseUrl B) \<noteq> None
     \<and> wb_hubApiKey B \<notin> {[], LEGACY_HUB_API_KEY, ROTATED_LEAKED_HUB_API_KEY}
     \<and> wb_indexerApiKey B \<notin> {[], LEAKED_INDEXER_API_KEY} \<and> (\<forall>bs. bs \<noteq> [] \<longrightarrow> wb_base58 B bs \<noteq> [])"

lemma filled_iff: "filled t \<longleftrightarrow> t \<noteq> None \<and> t \<noteq> Some []"
  by (auto simp: filled_def split: option.splits list.splits)

lemma hostname_allowed: "wb_hostname B (wb_hubBaseUrl B) \<noteq> None \<Longrightarrow> isAllowedHubBaseUrl B (wb_hubBaseUrl B)"
  by (auto simp: isAllowedHubBaseUrl_def Let_def)

lemma migrateHubBaseUrl_allowed:
  "wb_hostname B (wb_hubBaseUrl B) \<noteq> None \<Longrightarrow> isAllowedHubBaseUrl B (fst (migrateHubBaseUrl B u))"
  by (simp add: migrateHubBaseUrl_def hostname_allowed)

lemma migrateHubBaseUrl_again:
  "good_build B \<Longrightarrow> migrateHubBaseUrl B (Some (fst (migrateHubBaseUrl B u))) = (fst (migrateHubBaseUrl B u), False)"
  by (auto simp: migrateHubBaseUrl_def good_build_def filled_iff hostname_allowed)

lemma migrateKey_again:
  "fresh \<noteq> [] \<Longrightarrow> fresh \<notin> set stale \<Longrightarrow> migrateKey stale fresh (Some (fst (migrateKey stale fresh k))) = (fst (migrateKey stale fresh k), False)"
  by (auto simp: migrateKey_def filled_iff)

lemma orDefault_again:
  "good d \<Longrightarrow> orDefault d good (Some (fst (orDefault d good v))) = (fst (orDefault d good v), False)"
  by (simp add: orDefault_def split: option.splits)

lemma map_filter_Some: "List.map_filter (\<lambda>r. r) (map Some rs) = rs"
  by (induction rs) (simp_all add: map_filter_simps)

lemma migrateAddresses_again:
  "migrateAddresses k (map_option (map Some) (fst (migrateAddresses k rs))) = (fst (migrateAddresses k rs), False)"
  by (auto simp: migrateAddresses_def map_filter_Some Let_def split: option.splits if_splits)

lemma decodeHex_filled: "2 \<le> length s \<Longrightarrow> decodeHex s \<noteq> []"
  by (cases s rule: decodeHex.cases) simp_all

lemma deriveArch_filled: "good_build B \<Longrightarrow> 64 \<le> length pk \<Longrightarrow> deriveArchAccountAddress B pk \<noteq> []"
  using decodeHex_filled [of pk] decodeHex_filled [of "drop 2 pk"]
  by (simp add: deriveArchAccountAddress_def good_build_def)

lemma migrateArchAddress_again:
  assumes "good_build B" "migrateArchAddress B k a = ((arch, legacy), c)" "wa_publicKeyHex b = wa_publicKeyHex a"
    "wa_archAddress b = arch" "wa_legacyArchAddress b = legacy"
  shows "migrateArchAddress B k b = ((arch, legacy), False)"
  using assms deriveArch_filled [OF assms(1), of "wa_publicKeyHex a"]
  by (auto simp: migrateArchAddress_def filled_iff Let_def split: if_splits dest!: sym [of "Some _"])

lemma migrateAuthMethod_again: "migrateAuthMethod k a = (m, c) \<Longrightarrow> raw_authMethod b = Some m \<Longrightarrow> migrateAuthMethod k b = (m, False)"
  by (auto simp: migrateAuthMethod_def split: option.splits if_splits)

lemma migrateAccount_again:
  assumes "good_build B"
  shows "migrateAccount B (rawOfAccount (fst (migrateAccount B a))) = (fst (migrateAccount B a), False)"
proof -
  obtain k m1 where k: "migrateKind a = (k, m1)" by fastforce
  obtain m m2 where m: "migrateAuthMethod k a = (m, m2)" by fastforce
  obtain arch legacy m3 where r: "migrateArchAddress B k (raw_account a) = ((arch, legacy), m3)" by (metis prod.collapse)
  define rs where "rs = fst (migrateAddresses k (raw_addresses a))"
  define b where "b = fst (migrateAccount B a)"
  have b: "b = (raw_account a) \<lparr> wa_kind := k, wa_authMethod := m, wa_archAddress := arch, wa_legacyArchAddress := legacy, wa_addresses := rs \<rparr>"
    by (simp add: b_def migrateAccount_def k m r rs_def split: prod.split)
  have k': "migrateKind (rawOfAccount b) = (k, False)" by (simp add: migrateKind_def rawOfAccount_def b)
  have m': "migrateAuthMethod k (rawOfAccount b) = (m, False)" by (rule migrateAuthMethod_again [OF m]) (simp add: rawOfAccount_def b)
  have r': "migrateArchAddress B k b = ((arch, legacy), False)" by (rule migrateArchAddress_again [OF assms r]) (simp_all add: b)
  have rs': "migrateAddresses k (raw_addresses (rawOfAccount b)) = (rs, False)"
    using migrateAddresses_again by (simp add: rawOfAccount_def b rs_def)
  have f: "raw_account (rawOfAccount b) = b" "raw_isCustodial (rawOfAccount b) = None" by (simp_all add: rawOfAccount_def)
  show ?thesis
    unfolding b_def [symmetric] by (simp add: migrateAccount_def k' m' r' rs' f) (simp add: b)
qed

lemma migrateApiConfig_again:
  assumes "good_build B" "migrateApiConfig B s = ((url, key, iurl, ikey), c)" "raw_apiBaseUrl t = None" "raw_apiKey t = None"
    "raw_hubBaseUrl t = Some url" "raw_hubApiKey t = Some key" "raw_indexerBaseUrl t = Some iurl" "raw_indexerApiKey t = Some ikey"
  shows "migrateApiConfig B t = ((url, key, iurl, ikey), False)"
proof -
  define legacy where "legacy = (raw_apiBaseUrl s \<noteq> None \<or> raw_apiKey s \<noteq> None)"
  define u where "u = (if legacy \<and> \<not> filled (raw_hubBaseUrl s) then Some (textOr (raw_apiBaseUrl s) (wb_hubBaseUrl B)) else raw_hubBaseUrl s)"
  define k where "k = (if legacy \<and> \<not> filled (raw_hubApiKey s) then Some (textOr (raw_apiKey s) (wb_hubApiKey B)) else raw_hubApiKey s)"
  have "url = fst (migrateHubBaseUrl B u) \<and> key = fst (migrateKey [LEGACY_HUB_API_KEY, ROTATED_LEAKED_HUB_API_KEY] (wb_hubApiKey B) k)
    \<and> iurl = fst (migrateKey [] INDEXER_BASE_URL (raw_indexerBaseUrl s))
    \<and> ikey = fst (migrateKey [LEAKED_INDEXER_API_KEY] (wb_indexerApiKey B) (raw_indexerApiKey s))"
    using assms(2) unfolding migrateApiConfig_def legacy_def [symmetric] u_def [symmetric] k_def [symmetric] Let_def
    by (simp split: prod.splits)
  note c = this [THEN conjunct1] this [THEN conjunct2, THEN conjunct1] this [THEN conjunct2, THEN conjunct2, THEN conjunct1]
    this [THEN conjunct2, THEN conjunct2, THEN conjunct2]
  have fresh: "wb_hubApiKey B \<noteq> []" "wb_hubApiKey B \<notin> set [LEGACY_HUB_API_KEY, ROTATED_LEAKED_HUB_API_KEY]"
    "wb_indexerApiKey B \<noteq> []" "wb_indexerApiKey B \<notin> set [LEAKED_INDEXER_API_KEY]" "INDEXER_BASE_URL \<noteq> []" "INDEXER_BASE_URL \<notin> set []"
    using assms(1) by (simp_all add: good_build_def INDEXER_BASE_URL_def)
  show ?thesis
    using migrateHubBaseUrl_again [OF assms(1), of u] migrateKey_again [OF fresh(1,2), of k]
      migrateKey_again [OF fresh(5,6)] migrateKey_again [OF fresh(3,4)]
    by (simp add: migrateApiConfig_def Let_def assms(3-8) c)
qed

lemma permitted: "cs_permissions (if cs_permissions s = None then s \<lparr> cs_permissions := Some p \<rparr> else s) \<noteq> None"
  by simp

lemma migrateSites_permitted: "x \<in> ran (migrateSites m) \<Longrightarrow> cs_permissions x \<noteq> None"
  unfolding migrateSites_def ran_def mem_Collect_eq map_option_eq_Some using permitted by metis

lemma migrateSites_again: "(\<And>x. x \<in> ran m \<Longrightarrow> cs_permissions x \<noteq> None) \<Longrightarrow> migrateSites m = m"
proof
  fix o' assume p: "\<And>x. x \<in> ran m \<Longrightarrow> cs_permissions x \<noteq> None"
  show "migrateSites m o' = m o'"
    using p by (cases "m o'") (simp_all add: migrateSites_def ranI)
qed

lemma kept_accounts: "filter (\<lambda>a. \<not> raw_magiceden a) (map rawOfAccount as) = map rawOfAccount as"
  by (simp add: filter_id_conv rawOfAccount_def)

lemma migrated_again:
  assumes "good_build B" "\<And>a. a \<in> set as \<Longrightarrow> \<exists>r. a = fst (migrateAccount B r)"
  shows "map (migrateAccount B) (map rawOfAccount as) = map (\<lambda>a. (a, False)) as"
  using assms migrateAccount_again by (fastforce simp: comp_def)

text \<open>The fields of a migrated state.\<close>

lemma migrateState_fields:
  assumes "migrateState B s = (t, m)"
  shows "\<And>a. a \<in> set (st_accounts t) \<Longrightarrow> \<exists>r. a = fst (migrateAccount B r)"
    "\<exists>c. migrateApiConfig B s = ((st_hubBaseUrl t, st_hubApiKey t, st_indexerBaseUrl t, st_indexerApiKey t), c)"
    "st_autoLockMinutes t > 0" "\<not> st_schemaVersion t < CURRENT_SCHEMA_VERSION"
    "\<And>x. x \<in> ran (st_connectedSites t) \<Longrightarrow> cs_permissions x \<noteq> None"
proof -
  obtain url key iurl ikey c where c: "migrateApiConfig B s = ((url, key, iurl, ikey), c)" by (metis prod.collapse)
  have t: "t = fst (migrateState B s)" by (simp add: assms)
  have f: "st_accounts t = map fst (map (migrateAccount B) (filter (\<lambda>a. \<not> raw_magiceden a) (raw_accounts s)))"
    "st_hubBaseUrl t = url" "st_hubApiKey t = key" "st_indexerBaseUrl t = iurl" "st_indexerApiKey t = ikey"
    "st_autoLockMinutes t = fst (orDefault 60 (\<lambda>x. x > 0) (raw_autoLockMinutes s))"
    "st_schemaVersion t = fst (orDefault CURRENT_SCHEMA_VERSION (\<lambda>v. \<not> v < CURRENT_SCHEMA_VERSION) (raw_schemaVersion s))"
    "st_connectedSites t = migrateSites (st_connectedSites (raw_state s))"
    unfolding t migrateState_def Let_def c by (simp_all split: prod.split)
  show "\<And>a. a \<in> set (st_accounts t) \<Longrightarrow> \<exists>r. a = fst (migrateAccount B r)" by (auto simp: f(1))
  show "\<exists>c. migrateApiConfig B s = ((st_hubBaseUrl t, st_hubApiKey t, st_indexerBaseUrl t, st_indexerApiKey t), c)" using c f(2-5) by simp
  show "st_autoLockMinutes t > 0" "\<not> st_schemaVersion t < CURRENT_SCHEMA_VERSION"
    unfolding f(6,7) by (auto simp: orDefault_def split: option.split)
  show "\<And>x. x \<in> ran (st_connectedSites t) \<Longrightarrow> cs_permissions x \<noteq> None" unfolding f(8) by (rule migrateSites_permitted)
qed

text \<open>A state of that kind is read without a change.\<close>

lemma migrateState_settled:
  assumes "good_build B" "\<And>a. a \<in> set (st_accounts t) \<Longrightarrow> \<exists>r. a = fst (migrateAccount B r)"
    "migrateApiConfig B s = ((st_hubBaseUrl t, st_hubApiKey t, st_indexerBaseUrl t, st_indexerApiKey t), c)"
    "st_autoLockMinutes t > 0" "\<not> st_schemaVersion t < CURRENT_SCHEMA_VERSION"
    "\<And>x. x \<in> ran (st_connectedSites t) \<Longrightarrow> cs_permissions x \<noteq> None"
  shows "migrateState B (rawOf t) = (t, False)"
proof -
  have api: "migrateApiConfig B (rawOf t) = ((st_hubBaseUrl t, st_hubApiKey t, st_indexerBaseUrl t, st_indexerApiKey t), False)"
    by (rule migrateApiConfig_again [OF assms(1,3)]) (simp_all add: rawOf_def)
  have sites: "migrateSites (st_connectedSites t) = st_connectedSites t" using assms(6) by (rule migrateSites_again)
  have none: "\<not> (\<exists>x\<in>ran (st_connectedSites t). cs_permissions x = None)" using assms(6) by blast
  have acc: "map (migrateAccount B) (map rawOfAccount (st_accounts t)) = map (\<lambda>a. (a, False)) (st_accounts t)"
    by (rule migrated_again [OF assms(1)]) (rule assms(2))
  have acc_map: "map (fst \<circ> (migrateAccount B \<circ> rawOfAccount)) (st_accounts t) = st_accounts t"
    using arg_cong [OF acc, of "map fst"] by (simp add: comp_def)
  have acc_ex: "\<not> list_ex snd (map (migrateAccount B \<circ> rawOfAccount) (st_accounts t))"
    using arg_cong [OF acc, of "list_ex snd"] by (simp add: list_ex_iff comp_def)
  have r: "raw_state (rawOf t) = t" "raw_accounts (rawOf t) = map rawOfAccount (st_accounts t)"
    "raw_recentRecipients (rawOf t) = Some (st_recentRecipients t)" "raw_contacts (rawOf t) = Some (st_contacts t)"
    "raw_autoLockMinutes (rawOf t) = Some (st_autoLockMinutes t)" "raw_sentryOptIn (rawOf t) = Some (st_sentryOptIn t)"
    "raw_debugMode (rawOf t) = Some (st_debugMode t)" "raw_openAs (rawOf t) = Some (st_openAs t)"
    "raw_schemaVersion (rawOf t) = Some (st_schemaVersion t)"
    by (simp_all add: rawOf_def)
  show ?thesis
    unfolding migrateState_def r kept_accounts Let_def api sites
    using none assms(4,5) acc by (auto simp: orDefault_def acc_map acc_ex split: option.split intro!: AppState.equality)
qed


definition sampleBuild :: wallet_build where
  "sampleBuild =
     \<lparr> wb_hubBaseUrl = ''https://hub.arch.network'', wb_hubApiKey = ''k'', wb_indexerApiKey = ''i'',
       wb_hostname = (\<lambda>u. if u = ''https://hub.arch.network'' then Some ''hub.arch.network'' else None),
       wb_base58 = (\<lambda>bs. replicate (length bs) (CHR ''1'')) \<rparr>"

lemma sampleBuild_good: "good_build sampleBuild"
  by (auto simp: good_build_def sampleBuild_def LEGACY_EC2_HUB_BASE_URL_def LEGACY_HUB_API_KEY_def ROTATED_LEAKED_HUB_API_KEY_def
    LEAKED_INDEXER_API_KEY_def)

definition sampleAccount :: WalletAccount where
  "sampleAccount =
     \<lparr> wa_id = ''a'', wa_label = ''Main'', wa_btcAddress = ''tb1p'', wa_publicKeyHex = [], wa_archAddress = None, wa_kind = ExternalKind,
       wa_resource = ''r'', wa_organization = ''o'', wa_authMethod = PasskeyAuth, wa_provider = Some Unisat, wa_addresses = None,
       wa_legacyArchAddress = None, wa_recoveryEmail = None, wa_createdAt = 0 \<rparr>"

text \<open>A blob of a build that leaked its keys.\<close>

definition oldBlob :: RawState where
  "oldBlob =
     (rawOf (completeOnboarding sampleBuild sampleAccount))
       \<lparr> raw_hubApiKey := Some LEGACY_HUB_API_KEY, raw_indexerApiKey := Some LEAKED_INDEXER_API_KEY, raw_schemaVersion := Some 3 \<rparr>"


text \<open>The build without a key of the indexer, as releases have it: every read of an account without one writes the state.\<close>

lemma every_read_writes:
  assumes "wb_indexerApiKey B = []" "st_indexerApiKey s = []"
  shows "snd (migrateState B (rawOf s))" "st_indexerApiKey (fst (migrateState B (rawOf s))) = []"
proof -
  have ikey: "migrateKey [LEAKED_INDEXER_API_KEY] (wb_indexerApiKey B) (raw_indexerApiKey (rawOf s)) = ([], True)"
    using assms by (simp add: rawOf_def migrateKey_def filled_def)
  have "snd (migrateApiConfig B (rawOf s)) \<and> snd (snd (snd (fst (migrateApiConfig B (rawOf s))))) = []"
    unfolding migrateApiConfig_def ikey Let_def by (simp split: prod.split)
  then obtain u k i where "migrateApiConfig B (rawOf s) = ((u, k, i, []), True)" by (metis prod.collapse)
  then show "snd (migrateState B (rawOf s))" "st_indexerApiKey (fst (migrateState B (rawOf s))) = []"
    by (auto simp: migrateState_def Let_def split: prod.split)
qed

end
