(* ===== verification/WalletRuns.thy ===== *)
theory WalletRuns
  imports WalletSafety
begin

text \<open>
  The life of a wallet's state as a transition system: onboarding, then any sequence of reads (with their migration) and
  operations of the store. What every state of such a life has; which account a site sees and may sign with; which
  addresses a linked account has.
\<close>

subsection \<open>The wallet's life\<close>

text \<open>
  The interface activates accounts it lists; identifiers of accounts are those of the hub or UUIDs, never empty.
\<close>

inductive store_step :: "wallet_build \<Rightarrow> AppState \<Rightarrow> AppState \<Rightarrow> bool" for B where
  readAgain: "store_step B s (fst (migrateState B (rawOf s)))"
| added: "wa_id a \<noteq> [] \<Longrightarrow> store_step B s (addAccount a s)"
| activated: "i \<in> wa_id ` set (st_accounts s) \<Longrightarrow> store_step B s (fst (setActiveAccount i s))"
| forgotten: "forgetAccount i s = Kept t \<Longrightarrow> store_step B s t"
| updated: "updateAccount i f p s = Some t \<Longrightarrow> p \<noteq> Some [] \<Longrightarrow> store_step B s t"
| network: "store_step B s (setNetwork n s)"
| autolock: "store_step B s (setAutoLockMinutes m s)"
| connected: "store_step B s (connectSite o' site s)"
| permissions: "setSitePermissions o' f s = Some t \<Longrightarrow> store_step B s t"
| disconnected: "store_step B s (disconnectSite o' s)"
| rebound: "snd (getAccountForOrigin o' s) = Some t \<Longrightarrow> store_step B s t"
| hub: "setHubConfig B url key s = Some t \<Longrightarrow> store_step B s t"
| indexer: "store_step B s (setIndexerConfig url key s)"
| recent: "addRecentRecipient now a asset n mint l s = Some t \<Longrightarrow> store_step B s t"
| unrecent: "store_step B s (removeRecentRecipient a asset n mint s)"
| cleared: "store_step B s (clearRecentRecipients s)"
| contact: "store_step B s (upsertContact now entry created s)"
| uncontact: "store_step B s (removeContact a n mint s)"

inductive wallet_life :: "wallet_build \<Rightarrow> AppState \<Rightarrow> bool" for B where
  onboarded: "wa_id a \<noteq> [] \<Longrightarrow> wallet_life B (completeOnboarding B a)"
| lives: "wallet_life B s \<Longrightarrow> store_step B s t \<Longrightarrow> wallet_life B t"

definition recipientKey :: "RecentRecipient \<Rightarrow> string \<times> RecipientAsset \<times> NetworkId \<times> string" where
  "recipientKey r = (rt_address r, rt_asset r, rt_network r, textOr (rt_mint r) [])"

definition contactKey :: "Contact \<Rightarrow> string \<times> NetworkId \<times> string" where
  "contactKey c = (ct_address c, ct_network c, textOr (ct_mint c) [])"

definition accounts_ok :: "AppState \<Rightarrow> bool" where
  "accounts_ok s \<longleftrightarrow> [] \<notin> wa_id ` set (st_accounts s) \<and> (\<exists>i\<in>wa_id ` set (st_accounts s). st_activeAccountId s = Some i)"

definition lists_ok :: "AppState \<Rightarrow> bool" where
  "lists_ok s \<longleftrightarrow>
     length (st_recentRecipients s) \<le> MAX_RECENT_RECIPIENTS \<and> distinct (map recipientKey (st_recentRecipients s))
     \<and> length (st_contacts s) \<le> MAX_CONTACTS \<and> distinct (map contactKey (st_contacts s))"

definition wallet_ok :: "wallet_build \<Rightarrow> AppState \<Rightarrow> bool" where
  "wallet_ok B s \<longleftrightarrow>
     accounts_ok s \<and> lists_ok s \<and> isAllowedHubBaseUrl B (st_hubBaseUrl s) \<and> st_autoLockMinutes s \<ge> 1
     \<and> (\<forall>x\<in>ran (st_connectedSites s). cs_permissions x \<noteq> None)"

lemma wallet_okI:
  assumes "wallet_ok B s" "st_hubBaseUrl t = st_hubBaseUrl s" "st_autoLockMinutes t = st_autoLockMinutes s"
    "st_connectedSites t = st_connectedSites s" "accounts_ok s \<Longrightarrow> accounts_ok t" "lists_ok s \<Longrightarrow> lists_ok t"
  shows "wallet_ok B t"
  using assms by (simp add: wallet_ok_def)

lemma accounts_ok_same: "st_accounts t = st_accounts s \<Longrightarrow> st_activeAccountId t = st_activeAccountId s \<Longrightarrow> accounts_ok s \<Longrightarrow> accounts_ok t"
  by (simp add: accounts_ok_def)

lemma lists_ok_same: "st_recentRecipients t = st_recentRecipients s \<Longrightarrow> st_contacts t = st_contacts s \<Longrightarrow> lists_ok s \<Longrightarrow> lists_ok t"
  by (simp add: lists_ok_def)

lemmas same_rest = wallet_okI [OF _ _ _ _ accounts_ok_same lists_ok_same]

lemma onboarded_ok: "wa_id a \<noteq> [] \<Longrightarrow> wb_hostname B (wb_hubBaseUrl B) \<noteq> None \<Longrightarrow> wallet_ok B (completeOnboarding B a)"
  by (simp add: wallet_ok_def completeOnboarding_def DEFAULT_STATE_def accounts_ok_def lists_ok_def hostname_allowed)

lemma migrated_ids: "map wa_id (map fst (map (migrateAccount B) (map rawOfAccount as))) = map wa_id as"
  by (simp add: migrateAccount_def rawOfAccount_def comp_def Let_def split: prod.split)

lemma readAgain_ok:
  assumes "wallet_ok B s" "wb_hostname B (wb_hubBaseUrl B) \<noteq> None"
  shows "wallet_ok B (fst (migrateState B (rawOf s)))"
proof -
  obtain t m where t: "migrateState B (rawOf s) = (t, m)" by fastforce
  obtain url key iurl ikey c where c: "migrateApiConfig B (rawOf s) = ((url, key, iurl, ikey), c)" by (metis prod.collapse)
  have acc: "st_accounts t = map fst (map (migrateAccount B) (map rawOfAccount (st_accounts s)))"
    and active: "st_activeAccountId t = st_activeAccountId s" and url: "st_hubBaseUrl t = url"
    and lists: "st_recentRecipients t = st_recentRecipients s" "st_contacts t = st_contacts s"
    using t unfolding migrateState_def Let_def c
    by (auto simp: rawOf_def kept_accounts orDefault_def split: prod.splits option.splits)
  have ids: "wa_id ` set (st_accounts t) = wa_id ` set (st_accounts s)" using arg_cong [OF migrated_ids [of B "st_accounts s"], of set] unfolding acc by (simp add: image_image)
  have "isAllowedHubBaseUrl B url"
    using c migrateHubBaseUrl_allowed [OF assms(2)] unfolding migrateApiConfig_def Let_def by (auto split: prod.splits) (metis fst_conv)+
  then show ?thesis
    using assms(1) migrateState_fields(3,5) [OF t] url ids active lists by (auto simp: t wallet_ok_def accounts_ok_def lists_ok_def)
qed

lemma added_ok: "wallet_ok B s \<Longrightarrow> wa_id a \<noteq> [] \<Longrightarrow> wallet_ok B (addAccount a s)"
  by (erule wallet_okI) (auto simp: addAccount_def accounts_ok_def lists_ok_def)

lemma activated_ok: "wallet_ok B s \<Longrightarrow> i \<in> wa_id ` set (st_accounts s) \<Longrightarrow> wallet_ok B (fst (setActiveAccount i s))"
  by (erule wallet_okI) (auto simp: setActiveAccount_def accounts_ok_def lists_ok_def)

lemma forget_ok:
  assumes "wallet_ok B s" "forgetAccount i s = Kept t"
  shows "wallet_ok B t"
proof -
  define as where "as = filter (\<lambda>a. wa_id a \<noteq> i) (st_accounts s)"
  have t: "as \<noteq> []" "t = s \<lparr> st_accounts := as, st_activeAccountId := (if st_activeAccountId s = Some i then Some (wa_id (hd as)) else st_activeAccountId s) \<rparr>"
    using assms(2) by (auto simp: forgetAccount_def as_def [symmetric] Let_def split: if_splits)
  show ?thesis
    using assms(1)
  proof (rule wallet_okI)
    assume a: "accounts_ok s"
    have "wa_id (hd as) \<in> wa_id ` set as" using t(1) by simp
    moreover have "wa_id ` set as = wa_id ` set (st_accounts s) - {i}" by (auto simp: as_def)
    ultimately show "accounts_ok t" using a by (auto simp: accounts_ok_def t(2))
  qed (simp_all add: t(2) lists_ok_def)
qed

lemma found: "List.find p xs = Some x \<Longrightarrow> x \<in> set xs \<and> p x"
  by (auto simp: find_Some_iff)

lemma patchFirst_ids:
  "(\<And>a. wa_id a = i \<Longrightarrow> wa_id (f a) = j) \<Longrightarrow> i \<in> wa_id ` set as \<Longrightarrow> j \<in> wa_id ` set (patchFirst i f as)"
  by (induction as) auto

lemma patchFirst_others:
  "(\<And>a. wa_id a = i \<Longrightarrow> wa_id (f a) = j) \<Longrightarrow> wa_id ` set (patchFirst i f as) \<subseteq> insert j (wa_id ` set as)"
  "k \<noteq> i \<Longrightarrow> k \<in> wa_id ` set as \<Longrightarrow> k \<in> wa_id ` set (patchFirst i f as)"
  by (induction as) auto

lemma update_ok:
  assumes "wallet_ok B s" "updateAccount i f p s = Some t" "p \<noteq> Some []"
  shows "wallet_ok B t"
proof -
  define j where "j = (case p of Some k \<Rightarrow> k | None \<Rightarrow> i)"
  define g where "g = (\<lambda>a. case p of Some k \<Rightarrow> f a \<lparr> wa_id := k \<rparr> | None \<Rightarrow> f a \<lparr> wa_id := wa_id a \<rparr>)"
  have u: "\<exists>a. List.find (\<lambda>a. wa_id a = i) (st_accounts s) = Some a"
    and t: "t = s \<lparr> st_accounts := patchFirst i g (st_accounts s),
      st_activeAccountId := (if filled p \<and> st_activeAccountId s = Some i then p else st_activeAccountId s) \<rparr>"
    using assms(2) by (auto simp: updateAccount_def g_def [symmetric] Let_def split: option.splits)
  have i: "i \<in> wa_id ` set (st_accounts s)" using u found by fastforce
  have g: "\<And>a. wa_id a = i \<Longrightarrow> wa_id (g a) = j" by (auto simp: g_def j_def split: option.splits)
  show ?thesis
    using assms(1)
  proof (rule wallet_okI)
    assume a: "accounts_ok s"
    have "i \<noteq> []" using a i unfolding accounts_ok_def by metis
    then have j: "j \<noteq> []" using assms(3) by (auto simp: j_def split: option.splits)
    then have nonempty: "[] \<notin> wa_id ` set (patchFirst i g (st_accounts s))" using a patchFirst_others(1) [of i g j "st_accounts s", OF g]
      unfolding accounts_ok_def by blast
    have new: "j \<in> wa_id ` set (patchFirst i g (st_accounts s))" using g i by (rule patchFirst_ids)
    have "p = Some j \<or> p = None \<and> j = i" by (simp add: j_def split: option.splits)
    moreover obtain k where k: "k \<in> wa_id ` set (st_accounts s)" "st_activeAccountId s = Some k" using a unfolding accounts_ok_def by blast
    ultimately have "st_activeAccountId t = Some (if k = i then j else k)" using j k(2) by (auto simp: t filled_iff)
    moreover have "(if k = i then j else k) \<in> wa_id ` set (patchFirst i g (st_accounts s))"
      using new patchFirst_others(2) [OF _ k(1), of i g] by simp
    ultimately show "accounts_ok t" using nonempty unfolding accounts_ok_def t by simp
  qed (simp_all add: t lists_ok_def)
qed

lemma site_ok:
  assumes "wallet_ok B s" "cs_permissions site \<noteq> None" "t = s \<lparr> st_connectedSites := (st_connectedSites s)(o' \<mapsto> site) \<rparr>"
  shows "wallet_ok B t"
  using assms by (auto simp: wallet_ok_def accounts_ok_def lists_ok_def ran_def)

lemma disconnected_ok: "wallet_ok B s \<Longrightarrow> wallet_ok B (disconnectSite o' s)"
  by (auto simp: disconnectSite_def wallet_ok_def accounts_ok_def lists_ok_def ran_def)

lemma permissions_ok: "wallet_ok B s \<Longrightarrow> setSitePermissions o' f s = Some t \<Longrightarrow> wallet_ok B t"
  by (auto simp: setSitePermissions_def intro: site_ok [rotated 2])

lemma rebound_ok:
  assumes "wallet_ok B s" "snd (getAccountForOrigin o' s) = Some t"
  shows "wallet_ok B t"
proof -
  obtain x i where x: "st_connectedSites s o' = Some x" "t = s \<lparr> st_connectedSites := (st_connectedSites s)(o' \<mapsto> x \<lparr> cs_accountId := i \<rparr>) \<rparr>"
    using assms(2) by (auto simp: getAccountForOrigin_def Let_def split: option.splits if_splits)
  then show ?thesis using assms(1) ranI [of "st_connectedSites s" o' x] by (intro site_ok [OF assms(1) _ x(2)]) (auto simp: wallet_ok_def)
qed

lemma find_key:
  assumes "\<And>r. same r \<longleftrightarrow> key r = k" "distinct (map key xs)" "key x = k"
  shows "distinct (map key (x # filter (\<lambda>r. \<not> same r) xs))"
  using distinct_map_filter [OF assms(2)] assms(1,3) by auto

lemma sameRecipient_key: "sameRecipient a asset n mint r \<longleftrightarrow> recipientKey r = (a, asset, n, textOr mint [])"
  by (auto simp: sameRecipient_def recipientKey_def)

lemma sameContact_key: "sameContact a n mint c \<longleftrightarrow> contactKey c = (a, n, textOr mint [])"
  by (auto simp: sameContact_def contactKey_def)

lemma distinct_take: "distinct (map f xs) \<Longrightarrow> distinct (map f (take n xs))"
  by (simp flip: take_map)

lemma recent_ok:
  assumes "wallet_ok B s" "addRecentRecipient now a asset n mint l s = Some t"
  shows "wallet_ok B t"
proof -
  define same where "same = sameRecipient (js_trim a) asset n mint"
  define r where "r = (case List.find same (st_recentRecipients s) of
      Some r \<Rightarrow> r \<lparr> rt_lastUsedAt := now, rt_useCount := rt_useCount r + 1, rt_label := (case l of Some l \<Rightarrow> Some l | None \<Rightarrow> rt_label r) \<rparr>
    | None \<Rightarrow> \<lparr> rt_address = js_trim a, rt_asset = asset, rt_network = n, rt_label = l, rt_mint = mint, rt_lastUsedAt = now, rt_useCount = 1 \<rparr>)"
  have k: "recipientKey r = (js_trim a, asset, n, textOr mint [])"
  proof (cases "List.find same (st_recentRecipients s)")
    case None
    then show ?thesis by (simp add: r_def recipientKey_def)
  next
    case (Some r')
    then have "same r'" using found by fast
    then show ?thesis unfolding r_def Some by (simp add: recipientKey_def same_def sameRecipient_def)
  qed
  have t: "t = s \<lparr> st_recentRecipients := take MAX_RECENT_RECIPIENTS (r # filter (\<lambda>r. \<not> same r) (st_recentRecipients s)) \<rparr>"
    using assms(2) unfolding addRecentRecipient_def same_def [symmetric] Let_def r_def [symmetric] by (simp split: if_splits)
  note r = k t
  have "distinct (map recipientKey (r # filter (\<lambda>r. \<not> same r) (st_recentRecipients s)))" if "lists_ok s"
    using that unfolding lists_ok_def by (intro find_key [where k = "(js_trim a, asset, n, textOr mint [])"]) (simp_all only: same_def sameRecipient_key r(1))
  then show ?thesis
    using assms(1) distinct_take [of recipientKey _ MAX_RECENT_RECIPIENTS] unfolding r(2)
    by (intro wallet_okI [OF assms(1)]) (auto simp: accounts_ok_def lists_ok_def simp del: distinct.simps list.map)
qed

lemma unrecent_ok: "wallet_ok B s \<Longrightarrow> wallet_ok B (removeRecentRecipient a asset n mint s)"
  by (erule wallet_okI) (auto simp: removeRecentRecipient_def accounts_ok_def lists_ok_def distinct_map_filter intro: order_trans [OF length_filter_le])

lemma uncontact_ok: "wallet_ok B s \<Longrightarrow> wallet_ok B (removeContact a n mint s)"
  by (erule wallet_okI) (auto simp: removeContact_def accounts_ok_def lists_ok_def distinct_map_filter intro: order_trans [OF length_filter_le])

lemma replaceFirst_keys: "(\<And>x. p x \<Longrightarrow> key (f x) = key x) \<Longrightarrow> map key (replaceFirst p f xs) = map key xs"
  by (induction xs) auto

lemma contact_ok:
  assumes "wallet_ok B s"
  shows "wallet_ok B (upsertContact now entry created s)"
proof -
  define same where "same = sameContact (ct_address entry) (ct_network entry) (ct_mint entry)"
  define t where "t = upsertContact now entry created s"
  have "\<exists>f. (\<forall>c. same c \<longrightarrow> contactKey (f c) = contactKey c) \<and>
      (t = s \<lparr> st_contacts := replaceFirst same f (st_contacts s) \<rparr>
       \<or> \<not> list_ex same (st_contacts s) \<and> t = s \<lparr> st_contacts := take MAX_CONTACTS (f entry # st_contacts s) \<rparr>)"
  proof (cases "list_ex same (st_contacts s)")
    case True
    then show ?thesis
      unfolding t_def upsertContact_def same_def [symmetric] Let_def if_P [OF True]
      by (intro exI conjI disjI1 refl) (auto simp: same_def sameContact_def contactKey_def textOr_def split: option.splits)
  next
    case False
    then show ?thesis
      unfolding t_def upsertContact_def same_def [symmetric] Let_def if_not_P [OF False]
      by (intro exI [of _ "\<lambda>c. c \<lparr> ct_createdAt := (case created of Some t \<Rightarrow> t | None \<Rightarrow> now), ct_updatedAt := now \<rparr>"])
        (simp add: contactKey_def)
  qed
  then obtain f where f: "\<And>c. same c \<Longrightarrow> contactKey (f c) = contactKey c" and
    t: "t = s \<lparr> st_contacts := replaceFirst same f (st_contacts s) \<rparr>
       \<or> \<not> list_ex same (st_contacts s) \<and> t = s \<lparr> st_contacts := take MAX_CONTACTS (f entry # st_contacts s) \<rparr>" by blast
  have keys: "map contactKey (replaceFirst same f (st_contacts s)) = map contactKey (st_contacts s)" using f by (rule replaceFirst_keys)
  have len: "length (replaceFirst same f (st_contacts s)) = length (st_contacts s)" using keys by (metis length_map)
  have fresh: "distinct (map contactKey (f entry # st_contacts s))" if "\<not> list_ex same (st_contacts s)" "lists_ok s"
  proof -
    have "contactKey (f entry) = contactKey entry" by (rule f) (simp add: same_def sameContact_def)
    then show ?thesis using that by (auto simp: lists_ok_def list_ex_iff same_def sameContact_key contactKey_def)
  qed
  have "wallet_ok B t"
    using t
  proof
    assume "t = s \<lparr> st_contacts := replaceFirst same f (st_contacts s) \<rparr>"
    then show ?thesis using keys len
      by (intro wallet_okI [OF assms]) (simp_all add: accounts_ok_def lists_ok_def)
  next
    assume "\<not> list_ex same (st_contacts s) \<and> t = s \<lparr> st_contacts := take MAX_CONTACTS (f entry # st_contacts s) \<rparr>"
    then show ?thesis using distinct_take [OF fresh, of MAX_CONTACTS]
      by (intro wallet_okI [OF assms]) (simp_all add: accounts_ok_def lists_ok_def)
  qed
  then show ?thesis by (simp add: t_def)
qed

lemma settings_ok:
  assumes "wallet_ok B s"
  shows "wallet_ok B (setNetwork n s)" "wallet_ok B (setIndexerConfig url key s)" "wallet_ok B (clearRecentRecipients s)"
    "wallet_ok B (setAutoLockMinutes m s)" "wallet_ok B (connectSite o' site s)" "setHubConfig B url key s = Some t \<Longrightarrow> wallet_ok B t"
proof -
  show "wallet_ok B (setNetwork n s)" "wallet_ok B (setIndexerConfig url key s)" "wallet_ok B (clearRecentRecipients s)"
    "wallet_ok B (setAutoLockMinutes m s)"
    using assms by (simp_all add: setNetwork_def setIndexerConfig_def clearRecentRecipients_def setAutoLockMinutes_def wallet_ok_def accounts_ok_def lists_ok_def)
  show "wallet_ok B (connectSite o' site s)" by (rule site_ok [OF assms]) (auto simp: connectSite_def)
  show "setHubConfig B url key s = Some t \<Longrightarrow> wallet_ok B t"
    using assms by (auto simp: setHubConfig_def wallet_ok_def accounts_ok_def lists_ok_def split: if_splits)
qed

lemma store_step_ok:
  assumes "store_step B s t" "wb_hostname B (wb_hubBaseUrl B) \<noteq> None" "wallet_ok B s"
  shows "wallet_ok B t"
  using assms(1)
proof cases
  case readAgain
  then show ?thesis using readAgain_ok [OF assms(3,2)] by simp
next
  case (rebound o')
  show ?thesis by (rule rebound_ok [OF assms(3) rebound])
next
  case (permissions o' f)
  show ?thesis by (rule permissions_ok [OF assms(3) permissions])
next
  case (hub url key)
  show ?thesis by (rule settings_ok(6) [OF assms(3) hub])
next
  case (recent now a asset n mint l)
  show ?thesis by (rule recent_ok [OF assms(3) recent])
next
  case (added a)
  then show ?thesis using added_ok [OF assms(3)] by simp
next
  case (activated i)
  then show ?thesis using activated_ok [OF assms(3)] by simp
next
  case (forgotten i)
  show ?thesis by (rule forget_ok [OF assms(3) forgotten])
next
  case (updated i f p)
  show ?thesis by (rule update_ok [OF assms(3) updated])
qed (simp_all only: settings_ok [OF assms(3)] disconnected_ok [OF assms(3)] unrecent_ok [OF assms(3)] contact_ok [OF assms(3)]
    uncontact_ok [OF assms(3)])

text \<open>
  C5. From onboarding on, whatever is done to it, the state of the wallet is in order: it has accounts and its
  active account is one of them, the hub it talks to is an allowed host, the time to lock is at least a minute,
  every connected site has permissions, and the lists of recipients and contacts are bounded and name nobody twice.
\<close>

theorem wallet_stays_ok:
  assumes "wallet_life B s" "wb_hostname B (wb_hubBaseUrl B) \<noteq> None"
  shows "getActiveAccount s \<noteq> None \<and> wallet_ok B s"
proof -
  have ok: "wallet_ok B s"
    using assms(1)
  proof induction
    case (onboarded a)
    then show ?case using assms(2) by (rule onboarded_ok)
  next
    case (lives s t)
    then show ?case using store_step_ok [OF _ assms(2)] by blast
  qed
  then obtain i where "i \<in> wa_id ` set (st_accounts s)" "st_activeAccountId s = Some i" "i \<noteq> []"
    unfolding wallet_ok_def accounts_ok_def by metis
  then have "getActiveAccount s \<noteq> None" by (auto simp: getActiveAccount_def accountById_def find_None_iff)
  then show ?thesis using ok by simp
qed

definition sampleSite :: ConnectedSite where
  "sampleSite =
     \<lparr> cs_origin = ''https://d.app'', cs_name = None, cs_iconUrl = None, cs_connectedAt = 0, cs_accountId = ''a'', cs_permissions = None \<rparr>"

definition sampleState :: AppState where
  "sampleState = connectSite ''https://d.app'' sampleSite (completeOnboarding sampleBuild sampleAccount)"

lemma sampleState_lives: "wallet_life sampleBuild sampleState"
  unfolding sampleState_def by (intro lives [OF onboarded connected]) (simp add: sampleAccount_def)

theorem wallet_stays_ok_sample:
  "getActiveAccount sampleState \<noteq> None \<and> wallet_ok sampleBuild sampleState"
  by (rule wallet_stays_ok [OF sampleState_lives]) (simp add: sampleBuild_def)

subsection \<open>What a site sees and what it signs with\<close>

lemma accountById_Some: "accountById i s = Some a \<Longrightarrow> a \<in> set (st_accounts s) \<and> wa_id a = i"
  unfolding accountById_def by (rule found)

lemma accountById_distinct:
  assumes "distinct (map wa_id (st_accounts s))" "a \<in> set (st_accounts s)"
  shows "accountById (wa_id a) s = Some a"
proof (cases "accountById (wa_id a) s")
  case None
  then have "\<not> (\<exists>x. x \<in> set (st_accounts s) \<and> wa_id x = wa_id a)" unfolding accountById_def find_None_iff .
  then show ?thesis using assms(2) by blast
next
  case (Some b)
  then show ?thesis using accountById_Some [OF Some] assms unfolding distinct_map by (metis inj_onD)
qed

text \<open>The account that a site is bound to.\<close>

definition boundAccount :: "string \<Rightarrow> AppState \<Rightarrow> WalletAccount option" where
  "boundAccount i s = (case accountById i s of Some a \<Rightarrow> Some a | None \<Rightarrow> List.find (\<lambda>a. wa_btcAddress a = i) (st_accounts s))"

lemma boundAccount_mem: "boundAccount i s = Some a \<Longrightarrow> a \<in> set (st_accounts s)"
  using found accountById_Some unfolding boundAccount_def by (fastforce split: option.splits)

lemma shown_is_bound:
  "st_connectedSites s origin = Some site \<Longrightarrow> cs_accountId site \<noteq> [] \<Longrightarrow>
   fst (getAccountForOrigin origin s) = boundAccount (cs_accountId site) s"
  by (simp add: getAccountForOrigin_def boundAccount_def filled_iff Let_def split: option.split)

lemma signs_with_bound:
  "st_connectedSites s origin = Some site \<Longrightarrow>
   resolveOriginSigningAccount s origin = MaySign a \<longleftrightarrow> boundAccount (cs_accountId site) s = Some a \<and> st_activeAccountId s = Some (wa_id a)"
  by (auto simp: resolveOriginSigningAccount_def boundAccount_def split: option.splits)



subsection \<open>The addresses of a linked account\<close>

lemma uniq_set: "set (uniq xs) = set xs"
proof -
  have "set (fold (\<lambda>x acc. if x \<in> set acc then acc else x # acc) xs acc) = set xs \<union> set acc" for acc :: "'a list"
    by (induction xs arbitrary: acc) auto
  then show ?thesis by (simp add: uniq_def)
qed

text \<open>A record of the result stands for stored ones of its address: each of its purposes is one of theirs, verified if they all are.\<close>

definition standsFor :: "AccountAddress list \<Rightarrow> AccountAddress \<Rightarrow> bool" where
  "standsFor rs e \<longleftrightarrow>
     (\<exists>r\<in>set rs. sameKey r e) \<and> (\<forall>p\<in>set (aa_purposes e). \<exists>r\<in>set rs. sameKey r e \<and> p \<in> set (aa_purposes r))
     \<and> (aa_chainVerified e \<longrightarrow> (\<forall>r\<in>set rs. sameKey r e \<longrightarrow> aa_chainVerified r))"

lemma sameKey_sym: "sameKey a b \<longleftrightarrow> sameKey b a" and sameKey_trans: "sameKey a b \<Longrightarrow> sameKey b c \<Longrightarrow> sameKey a c"
  by (auto simp: sameKey_def)

lemma sameKey_merge [simp]: "sameKey x (mergeRecord e r) \<longleftrightarrow> sameKey x e" "sameKey x (r \<lparr> aa_purposes := ps \<rparr>) \<longleftrightarrow> sameKey x r"
  by (simp_all add: sameKey_def mergeRecord_def)

definition addressKey :: "AccountAddress \<Rightarrow> NetworkId \<times> string" where
  "addressKey r = (aa_network r, aa_address r)"

lemma sameKey_iff: "sameKey a b \<longleftrightarrow> addressKey a = addressKey b"
  by (auto simp: sameKey_def addressKey_def)

lemma mergeInto_keys:
  "map addressKey (mergeInto r es) = (if addressKey r \<in> addressKey ` set es then map addressKey es else map addressKey es @ [addressKey r])"
proof (induction es)
  case (Cons e es)
  have "addressKey (mergeRecord e r) = addressKey e" by (simp add: addressKey_def mergeRecord_def)
  then show ?case using Cons by (auto simp: sameKey_iff)
qed (simp add: addressKey_def)

lemma mergeInto_distinct: "distinct (map addressKey es) \<Longrightarrow> distinct (map addressKey (mergeInto r es))"
  by (simp add: mergeInto_keys)

lemma dedupe_distinct: "distinct (map addressKey (dedupeAddresses rs))"
proof -
  have "distinct (map addressKey acc) \<Longrightarrow> distinct (map addressKey (fold mergeInto rs acc))" for acc
    by (induction rs arbitrary: acc) (simp_all add: mergeInto_distinct)
  then show ?thesis by (simp add: dedupeAddresses_def)
qed

lemma standsFor_more: "standsFor rs e \<Longrightarrow> \<not> sameKey r e \<Longrightarrow> standsFor (rs @ [r]) e"
  by (auto simp: standsFor_def)

lemma standsFor_merged:
  assumes "standsFor rs e" "sameKey e r"
  shows "standsFor (rs @ [r]) (mergeRecord e r)"
proof -
  have k: "sameKey x (mergeRecord e r) \<longleftrightarrow> sameKey x e" for x by simp
  have p: "set (aa_purposes (mergeRecord e r)) = set (aa_purposes e) \<union> set (aa_purposes r)"
    "aa_chainVerified (mergeRecord e r) \<longleftrightarrow> aa_chainVerified e \<and> aa_chainVerified r" by (auto simp: mergeRecord_def uniq_set)
  show ?thesis using assms sameKey_sym [of r e] unfolding standsFor_def k p by auto
qed

lemma mergeInto_stands:
  assumes "\<forall>e\<in>set es. standsFor rs e" "distinct (map addressKey es)" "\<forall>x\<in>set rs. sameKey x r \<longrightarrow> (\<exists>e\<in>set es. sameKey x e)"
  shows "\<forall>e\<in>set (mergeInto r es). standsFor (rs @ [r]) e"
  using assms
proof (induction es)
  case Nil
  have "sameKey r (r \<lparr> aa_purposes := uniq (aa_purposes r) \<rparr>)" by (simp add: sameKey_def)
  then show ?case using Nil(3) by (auto simp: standsFor_def uniq_set sameKey_merge)
next
  case (Cons e es)
  show ?case
  proof (cases "sameKey e r")
    case True
    have "standsFor (rs @ [r]) x" if "x \<in> set es" for x
    proof (rule standsFor_more)
      show "\<not> sameKey r x" using True that Cons.prems(2) by (force simp: sameKey_iff)
    qed (use that Cons.prems(1) in simp)
    moreover have "standsFor (rs @ [r]) (mergeRecord e r)" using standsFor_merged [OF _ True] Cons.prems(1) by simp
    ultimately show ?thesis using True by simp
  next
    case False
    then have "\<forall>x\<in>set rs. sameKey x r \<longrightarrow> (\<exists>e\<in>set es. sameKey x e)" using Cons.prems(3) by (auto simp: sameKey_iff)
    then have "\<forall>e\<in>set (mergeInto r es). standsFor (rs @ [r]) e" using Cons by simp
    moreover have "standsFor (rs @ [r]) e" using standsFor_more [of rs e r] Cons.prems(1) False sameKey_sym by auto
    ultimately show ?thesis using False by simp
  qed
qed

lemma mergeInto_covers: "x \<in> insert r (set es) \<Longrightarrow> \<exists>e\<in>set (mergeInto r es). sameKey x e"
proof -
  have "addressKey ` set (mergeInto r es) = insert (addressKey r) (addressKey ` set es)"
    using arg_cong [OF mergeInto_keys [of r es], of set] by (auto split: if_splits)
  then show "x \<in> insert r (set es) \<Longrightarrow> \<exists>e\<in>set (mergeInto r es). sameKey x e" unfolding sameKey_iff by (metis imageE image_insert insert_iff imageI)
qed

lemma dedupe_stands: "e \<in> set (dedupeAddresses rs) \<Longrightarrow> standsFor rs e"
proof -
  have "\<forall>e\<in>set (fold mergeInto rs es). standsFor (ps @ rs) e"
    if "\<forall>e\<in>set es. standsFor ps e" "distinct (map addressKey es)" "\<forall>x\<in>set ps. \<exists>e\<in>set es. sameKey x e" for ps es
    using that
  proof (induction rs arbitrary: ps es)
    case (Cons r rs)
    have "\<forall>e\<in>set (mergeInto r es). standsFor (ps @ [r]) e" using Cons.prems by (intro mergeInto_stands) simp_all
    moreover have "\<forall>x\<in>set (ps @ [r]). \<exists>e\<in>set (mergeInto r es). sameKey x e"
    proof
      fix x assume "x \<in> set (ps @ [r])"
      then obtain y where "y \<in> insert r (set es)" "sameKey x y" using Cons.prems(3) sameKey_iff by fastforce
      then show "\<exists>e\<in>set (mergeInto r es). sameKey x e" using mergeInto_covers [of y r es] sameKey_trans by blast
    qed
    ultimately show ?case using Cons.IH [of "mergeInto r es" "ps @ [r]"] mergeInto_distinct [OF Cons.prems(2)] by simp
  qed simp
  from this [of "[]" "[]"] show "e \<in> set (dedupeAddresses rs) \<Longrightarrow> standsFor rs e" by (simp add: dedupeAddresses_def)
qed

lemma resolveFromRecords_parts:
  "ra_records (resolveFromRecords a rs) = rs" "ra_all (resolveFromRecords a rs) = map aa_address rs"
  "ra_payment (resolveFromRecords a rs) = withPurpose rs Payment" "ra_ordinals (resolveFromRecords a rs) = withPurpose rs Ordinals"
  by (simp_all add: resolveFromRecords_def noAddresses_def withPurpose_def Let_def)

lemma withPurpose_found: "withPurpose rs p = Some x \<Longrightarrow> \<exists>r\<in>set rs. aa_address r = x \<and> p \<in> set (aa_purposes r)"
  by (auto simp: withPurpose_def dest!: found)

text \<open>
  A linked account spends and receives only at addresses its own wallet disclosed for the network: of an account with
  address records, what is resolved has each address once, each standing for records of that network, payments and ordinals
  go to an address disclosed for that purpose, and an address counts as verified only if every record of it is.
\<close>

theorem linked_addresses_disclosed:
  fixes n :: NetworkId
  assumes "wa_kind a = ExternalKind" "wa_addresses a = Some rs" "rs \<noteq> []" and r_def: "r = resolveAccountAddresses a n"
  shows "distinct (ra_all r) \<and> ra_all r = map aa_address (ra_records r)
    \<and> (\<forall>e\<in>set (ra_records r). aa_network e = n \<and> standsFor (filter (\<lambda>x. aa_network x = n) rs) e)
    \<and> (\<forall>x. ra_payment r = Some x \<longrightarrow> (\<exists>d\<in>set rs. aa_address d = x \<and> aa_network d = n \<and> Payment \<in> set (aa_purposes d)))
    \<and> (\<forall>x. ra_ordinals r = Some x \<longrightarrow> (\<exists>d\<in>set rs. aa_address d = x \<and> aa_network d = n \<and> Ordinals \<in> set (aa_purposes d)))"
proof -
  define ds where "ds = filter (\<lambda>x. aa_network x = n) rs"
  have r: "r = resolveFromRecords a (dedupeAddresses ds)"
    using assms(1-3) by (auto simp: r_def resolveAccountAddresses_def ds_def neq_Nil_conv)
  note parts = resolveFromRecords_parts [of a "dedupeAddresses ds", folded r]
  have net: "aa_network e = n" if "e \<in> set (dedupeAddresses ds)" for e
    using dedupe_stands [OF that] by (auto simp: standsFor_def sameKey_def ds_def)
  have disclosed: "\<exists>d\<in>set rs. aa_address d = x \<and> aa_network d = n \<and> p \<in> set (aa_purposes d)"
    if w: "withPurpose (dedupeAddresses ds) p = Some x" for p x
  proof -
    obtain e where "e \<in> set (dedupeAddresses ds)" "aa_address e = x" "p \<in> set (aa_purposes e)" using withPurpose_found [OF w] by blast
    then show ?thesis using dedupe_stands [of e ds] by (auto simp: standsFor_def sameKey_def ds_def)
  qed
  have "inj_on aa_address (set (dedupeAddresses ds))"
    using dedupe_distinct [of ds] net by (auto simp: distinct_map inj_on_def addressKey_def)
  then have "distinct (map aa_address (dedupeAddresses ds))" using dedupe_distinct [of ds] by (simp add: distinct_map)
  then show ?thesis using net dedupe_stands disclosed unfolding parts ds_def by blast
qed

definition linkedAccount :: WalletAccount where
  "linkedAccount =
     sampleAccount \<lparr> wa_addresses := Some
       [\<lparr> aa_address = ''tb1p'', aa_publicKeyHex = None, aa_purposes = [Ordinals], aa_network = Testnet4, aa_addressType = P2tr, aa_chainVerified = True \<rparr>,
        \<lparr> aa_address = ''tb1q'', aa_publicKeyHex = None, aa_purposes = [Payment], aa_network = Testnet4, aa_addressType = P2wpkh, aa_chainVerified = True \<rparr>] \<rparr>"

theorem linked_addresses_disclosed_sample:
  "ra_payment (resolveAccountAddresses linkedAccount Testnet4) = Some ''tb1q'' \<and> distinct (ra_all (resolveAccountAddresses linkedAccount Testnet4))"
proof -
  have "ra_payment (resolveAccountAddresses linkedAccount Testnet4) = Some ''tb1q''"
    by (simp add: resolveAccountAddresses_def linkedAccount_def sampleAccount_def dedupeAddresses_def sameKey_def uniq_def resolveFromRecords_parts withPurpose_def)
  moreover have "\<exists>rs. wa_addresses linkedAccount = Some rs \<and> rs \<noteq> []" "wa_kind linkedAccount = ExternalKind"
    by (simp_all add: linkedAccount_def sampleAccount_def)
  ultimately show ?thesis using linked_addresses_disclosed [OF _ _ _ refl, of linkedAccount _ Testnet4] by blast
qed

end
