(* ===== verification/Provider.thy ===== *)
theory Provider
  imports WalletStore SpendCap JsValues
begin

text \<open>
  What the service worker does with the requests of web pages (\<open>entrypoints/background.ts\<close>, \<open>messaging/pending-requests.ts\<close>)
  and what the content script of a page makes of its answers (\<open>entrypoints/content.ts\<close>). A handler in flight stands at one of its
  \<open>await\<close>s; handlers, messages under way, other realms that write the wallet's state, locks, restarts and navigation
  interleave there. The pending requests are one value of the session storage, read and written whole.
\<close>

subsection \<open>Messages\<close>

datatype msg_type =
    PING | GET_ACCOUNT | CONNECT | DISCONNECT | SEND_TRANSFER | SEND_TOKEN_TRANSFER | SIGN_MESSAGE | SIGN_ARCH_MESSAGE_HASH | SIGN_PSBT
  | OtherType string

record pending_request =
  pq_id :: string
  pq_type :: msg_type
  pq_origin :: string
  pq_payload :: json
  pq_dappName :: "string option"
  pq_dappIconUrl :: "string option"
  pq_sourceTabId :: "nat option"
  pq_windowId :: "nat option"
  pq_autoApproveAllowed :: bool
  pq_createdAt :: int

type_synonym pending_map = "string \<Rightarrow> pending_request option"

record connect_approval =
  ap_requestId :: string
  ap_accountId :: "string option"
  ap_address :: "string option"
  ap_dappName :: "string option"
  ap_iconUrl :: "string option"
  ap_permissions :: "SitePermissions option"
  ap_account :: json

datatype bg_message =
    GetPendingRequest string
  | ApproveConnect connect_approval
  | ApproveRequest string json
  | RejectRequest string "string option"
  | ProviderMessage msg_type json

datatype response =
    Account string string "string option" WalletAccountKind
  | Result json
  | Done
  | Failure string
  | PendingId string
  | Found "pending_request option"

text \<open>Who sent a message; \<open>new URL(u).origin\<close> and the address of the extension are given.\<close>

record sender_tab =
  tb_id :: nat
  tb_url :: string
  tb_title :: "string option"
  tb_favIconUrl :: "string option"

record sender =
  sn_id :: "string option"
  sn_url :: "string option"
  sn_tab :: "sender_tab option"

record extension =
  ex_id :: string
  ex_base :: string
  ex_origin :: "string \<Rightarrow> string option"

definition isOwnSender :: "extension \<Rightarrow> sender \<Rightarrow> bool" where
  "isOwnSender X s \<longleftrightarrow> sn_id s = Some (ex_id X)"

definition isInternalUiSender :: "extension \<Rightarrow> sender \<Rightarrow> bool" where
  "isInternalUiSender X s \<longleftrightarrow>
     isOwnSender X s
     \<and> (let url = (case sn_url s of Some u \<Rightarrow> u | None \<Rightarrow> []) in
         url = [] \<or> starts_with (ex_base X @ ''popup.html'') url \<or> starts_with (ex_base X @ ''sidepanel.html'') url
         \<or> starts_with (ex_base X) url)"

subsection \<open>State\<close>

record source =
  so_origin :: string
  so_tabId :: nat
  so_name :: "string option"
  so_icon :: "string option"

text \<open>Where a handler stands; a request to the session storage may fail, which the store of pending requests swallows.\<close>

datatype bg_stage =
    PendingGet string
  | ConnectGet connect_approval
  | ConnectLegacy connect_approval pending_request
  | ConnectRead connect_approval pending_request string
  | ConnectWrite connect_approval pending_request AppState
  | ConnectRemove connect_approval pending_request
  | ConnectRemoved connect_approval pending_request pending_map
  | ApproveGet string json
  | ApproveRemove string json pending_request
  | ApproveRemoved string json pending_request pending_map
  | RejectGet string string "string list"
  | RejectRemove string string "string list" "pending_request option"
  | RejectRemoved string string "string list" "pending_request option" pending_map
  | ExpiredList int
  | WindowList nat
  | AskSealed source
  | AskConnected source msg_type json
  | AskPermissions source msg_type json
  | OpenPopup source msg_type json bool
  | StoreRead pending_request
  | StoreWrite pending_request pending_map
  | AccountUnlocked source
  | AccountConnected source
  | AccountFind source
  | AccountNetwork WalletAccount
  | DisconnectRead source
  | DisconnectWrite AppState
  | LockVault
  | ClearAll
  | Answered response
  | Dead

record bg_call =
  bc_from :: "(nat \<times> string) option"
  bc_stage :: bg_stage

text \<open>A document of a tab, with the requests its content script waits for.\<close>

record document =
  dc_tab :: nat
  dc_url :: string
  dc_waiting :: "string \<Rightarrow> string option"

datatype mail = ToTab nat string response | Reply nat string response

text \<open>\<open>bg_vault\<close> is the state a read gives, \<open>None\<close> when the wallet is locked.\<close>

record background =
  bg_pending :: pending_map
  bg_vault :: "AppState option"
  bg_sealed :: bool
  bg_calls :: "nat \<Rightarrow> bg_call option"
  bg_late :: "AppState list"
  bg_documents :: "nat \<Rightarrow> document option"
  bg_tabs :: "nat \<Rightarrow> nat option"
  bg_mail :: "mail list"
  bg_posted :: "(nat \<times> string \<times> response) list"

datatype opened = Window nat | NoWindow | OpenThrows

text \<open>What a step draws: whether the storage answers, a fresh identifier, the time, the new window.\<close>

record bg_draw =
  dr_ok :: bool
  dr_id :: string
  dr_now :: int
  dr_window :: opened

subsection \<open>Pieces\<close>

definition PENDING_TTL_MS :: int where "PENDING_TTL_MS = 5 * 60 * 1000"

definition readAll :: "bg_draw \<Rightarrow> background \<Rightarrow> pending_map" where
  "readAll x w = (if dr_ok x then bg_pending w else Map.empty)"

definition writeAll :: "bg_draw \<Rightarrow> pending_map \<Rightarrow> background \<Rightarrow> background" where
  "writeAll x m w = (if dr_ok x then w \<lparr> bg_pending := m \<rparr> else w)"

definition moveTo :: "nat \<Rightarrow> bg_call \<Rightarrow> bg_stage \<Rightarrow> background \<Rightarrow> background" where
  "moveTo c ca st w = w \<lparr> bg_calls := (bg_calls w)(c \<mapsto> ca \<lparr> bc_stage := st \<rparr>) \<rparr>"

definition sendMail :: "mail \<Rightarrow> background \<Rightarrow> background" where
  "sendMail m w = w \<lparr> bg_mail := bg_mail w @ [m] \<rparr>"

text \<open>\<open>sendResponse\<close>: a page's call is answered to the document that sent it.\<close>

definition answer :: "nat \<Rightarrow> bg_call \<Rightarrow> response \<Rightarrow> background \<Rightarrow> background" where
  "answer c ca r w =
     moveTo c ca (Answered r) (case bc_from ca of Some (d, m) \<Rightarrow> sendMail (Reply d m r) w | None \<Rightarrow> w)"

definition deliverResponseToTab :: "nat option \<Rightarrow> string \<Rightarrow> response \<Rightarrow> background \<Rightarrow> background" where
  "deliverResponseToTab sourceTabId requestId r w = (case sourceTabId of None \<Rightarrow> w | Some t \<Rightarrow> sendMail (ToTab t requestId r) w)"

definition sourceOf :: "extension \<Rightarrow> sender_tab \<Rightarrow> source option" where
  "sourceOf X tab =
     map_option (\<lambda>origin. \<lparr> so_origin = origin, so_tabId = tb_id tab, so_name = tb_title tab, so_icon = tb_favIconUrl tab \<rparr>) (ex_origin X (tb_url tab))"

text \<open>The checks of a payload before a popup opens: the error.\<close>

definition payloadError :: "msg_type \<Rightarrow> json \<Rightarrow> string option" where
  "payloadError t payload =
     (if t = SIGN_ARCH_MESSAGE_HASH then
        (case getProp ''messageHashHex'' payload of
           JStr hex \<Rightarrow> if lower_hex_string hex \<and> length hex = 64 then None else Some ''SIGN_ARCH_MESSAGE_HASH requires payload.messageHashHex''
         | _ \<Rightarrow> Some ''SIGN_ARCH_MESSAGE_HASH requires payload.messageHashHex'')
      else if t = SEND_TRANSFER then
        (if parseU64DecimalString (getProp ''lamports'' payload) = None then Some ''SEND_TRANSFER requires payload.lamports'' else None)
      else if t = SEND_TOKEN_TRANSFER then
        (if parseU64DecimalString (getProp ''amount'' payload) = None then Some ''SEND_TOKEN_TRANSFER requires payload.amount'' else None)
      else None)"

definition allowsAuto :: "msg_type \<Rightarrow> SitePermissions option \<Rightarrow> bool" where
  "allowsAuto t permissions =
     (case permissions of
        None \<Rightarrow> False
      | Some p \<Rightarrow> (t = SIGN_MESSAGE \<and> sp_signMessage p) \<or> (t = SIGN_ARCH_MESSAGE_HASH \<and> sp_signArchMessageHash p) \<or> (t = SIGN_PSBT \<and> sp_signPsbt p)
          \<or> ((t = SEND_TRANSFER \<or> t = SEND_TOKEN_TRANSFER) \<and> sp_sendTransfer p))"

definition isSigning :: "msg_type \<Rightarrow> bool" where
  "isSigning t \<longleftrightarrow> t \<in> {SEND_TRANSFER, SEND_TOKEN_TRANSFER, SIGN_MESSAGE, SIGN_ARCH_MESSAGE_HASH, SIGN_PSBT}"

definition newRequest :: "source \<Rightarrow> msg_type \<Rightarrow> json \<Rightarrow> bool \<Rightarrow> bg_draw \<Rightarrow> nat option \<Rightarrow> pending_request" where
  "newRequest so t payload auto x windowId =
     \<lparr> pq_id = dr_id x, pq_type = t, pq_origin = so_origin so, pq_payload = payload, pq_dappName = so_name so, pq_dappIconUrl = so_icon so,
       pq_sourceTabId = Some (so_tabId so), pq_windowId = windowId, pq_autoApproveAllowed = auto, pq_createdAt = dr_now x \<rparr>"

text \<open>Sites as \<open>walletStore\<close> sees them; a locked wallet throws inside and is answered with \<open>false\<close> or \<open>null\<close>.\<close>

definition connectedNow :: "string \<Rightarrow> background \<Rightarrow> bool" where
  "connectedNow origin w = (case bg_vault w of Some s \<Rightarrow> isSiteConnected origin s | None \<Rightarrow> False)"

definition permissionsNow :: "string \<Rightarrow> background \<Rightarrow> SitePermissions option" where
  "permissionsNow origin w = (case bg_vault w of Some s \<Rightarrow> getSitePermissions origin s | None \<Rightarrow> None)"

definition networkNow :: "background \<Rightarrow> NetworkId" where
  "networkNow w = (case bg_vault w of Some s \<Rightarrow> st_network s | None \<Rightarrow> Testnet4)"

definition legacyAccountId :: "string \<Rightarrow> background \<Rightarrow> string" where
  "legacyAccountId address w =
     (case bg_vault w of
        None \<Rightarrow> []
      | Some s \<Rightarrow> (case List.find (\<lambda>a. wa_btcAddress a = address) (st_accounts s) of Some a \<Rightarrow> wa_id a | None \<Rightarrow> []))"

definition connectedSite :: "connect_approval \<Rightarrow> pending_request \<Rightarrow> string \<Rightarrow> int \<Rightarrow> ConnectedSite" where
  "connectedSite a rq accountId now =
     \<lparr> cs_origin = pq_origin rq, cs_name = ap_dappName a, cs_iconUrl = ap_iconUrl a, cs_connectedAt = now, cs_accountId = accountId,
       cs_permissions = Some (case ap_permissions a of Some p \<Rightarrow> p | None \<Rightarrow> DEFAULT_SITE_PERMISSIONS) \<rparr>"

text \<open>A sweep goes on with the next request, or is over.\<close>

definition sweep :: "nat \<Rightarrow> bg_call \<Rightarrow> string \<Rightarrow> string list \<Rightarrow> background \<Rightarrow> background" where
  "sweep c ca reason rest w = (case rest of [] \<Rightarrow> answer c ca Done w | i # is \<Rightarrow> moveTo c ca (RejectGet i reason is) w)"

subsection \<open>Handlers\<close>

text \<open>The stage at which the handler of a provider message begins.\<close>

definition handleProviderRequest :: "source \<Rightarrow> msg_type \<Rightarrow> json \<Rightarrow> bg_stage" where
  "handleProviderRequest so t payload =
     (case t of
        PING \<Rightarrow> Answered Done
      | GET_ACCOUNT \<Rightarrow> AccountUnlocked so
      | CONNECT \<Rightarrow> AskSealed so
      | DISCONNECT \<Rightarrow> DisconnectRead so
      | OtherType n \<Rightarrow> Answered (Failure (''Unknown message type: '' @ n))
      | _ \<Rightarrow> AskConnected so t payload)"

definition internalStage :: "bg_message \<Rightarrow> bg_stage" where
  "internalStage msg =
     (case msg of
        GetPendingRequest i \<Rightarrow> PendingGet i
      | ApproveConnect a \<Rightarrow> ConnectGet a
      | ApproveRequest i result \<Rightarrow> ApproveGet i result
      | RejectRequest i reason \<Rightarrow> RejectGet i (case reason of Some r \<Rightarrow> r | None \<Rightarrow> ''User rejected the request'') []
      | ProviderMessage t p \<Rightarrow> Dead)"

text \<open>\<open>chrome.runtime.onMessage\<close>: the stage that a message leads to.\<close>

definition onMessage :: "extension \<Rightarrow> sender \<Rightarrow> bg_message \<Rightarrow> bg_stage" where
  "onMessage X s msg =
     (if \<not> isOwnSender X s then Answered (Failure ''Sender not authorized'')
      else case msg of
        ProviderMessage t payload \<Rightarrow>
          (case sn_tab s of
             None \<Rightarrow> Answered (Failure ''Provider messages require a tab context'')
           | Some tab \<Rightarrow> if tb_id tab = 0 \<or> tb_url tab = [] then Answered (Failure ''Provider messages require a tab context'')
               else (case sourceOf X tab of None \<Rightarrow> Answered (Failure ''Invalid URL'') | Some so \<Rightarrow> handleProviderRequest so t payload))
      | _ \<Rightarrow> if isInternalUiSender X s then internalStage msg
             else (case msg of GetPendingRequest i \<Rightarrow> Answered (Found None) | _ \<Rightarrow> Answered (Failure ''Not authorized'')))"

text \<open>A handler that answers at once sends its answer.\<close>

definition enter :: "nat \<Rightarrow> bg_call \<Rightarrow> bg_stage \<Rightarrow> background \<Rightarrow> background" where
  "enter c ca st w = (case st of Answered r \<Rightarrow> answer c ca r w | _ \<Rightarrow> moveTo c ca st w)"

fun resumeCall :: "nat \<Rightarrow> bg_call \<Rightarrow> bg_draw \<Rightarrow> bg_stage \<Rightarrow> background \<Rightarrow> background" where
  "resumeCall c ca x (PendingGet i) w = answer c ca (Found (readAll x w i)) w"
| "resumeCall c ca x (ConnectGet a) w =
     (case readAll x w (ap_requestId a) of
        None \<Rightarrow> answer c ca (Failure ''No matching pending connect request'') w
      | Some rq \<Rightarrow>
          if pq_type rq \<noteq> CONNECT then answer c ca (Failure ''No matching pending connect request'') w
          else if filled (ap_accountId a) then moveTo c ca (ConnectRead a rq (the (ap_accountId a))) w
          else if filled (ap_address a) then moveTo c ca (ConnectLegacy a rq) w
          else moveTo c ca (ConnectRead a rq []) w)"
| "resumeCall c ca x (ConnectLegacy a rq) w = moveTo c ca (ConnectRead a rq (legacyAccountId (the (ap_address a)) w)) w"
| "resumeCall c ca x (ConnectRead a rq accountId) w =
     (case bg_vault w of
        None \<Rightarrow> moveTo c ca Dead w
      | Some s \<Rightarrow> moveTo c ca (ConnectWrite a rq (connectSite (pq_origin rq) (connectedSite a rq accountId (dr_now x)) s)) w)"
| "resumeCall c ca x (ConnectWrite a rq s) w =
     (if bg_vault w = None then moveTo c ca Dead w else moveTo c ca (ConnectRemove a rq) (w \<lparr> bg_vault := Some s \<rparr>))"
| "resumeCall c ca x (ConnectRemove a rq) w = moveTo c ca (ConnectRemoved a rq ((readAll x w)(ap_requestId a := None))) w"
| "resumeCall c ca x (ConnectRemoved a rq m) w =
     answer c ca Done (deliverResponseToTab (pq_sourceTabId rq) (ap_requestId a) (Result (ap_account a)) (writeAll x m w))"
| "resumeCall c ca x (ApproveGet i result) w =
     (case readAll x w i of
        None \<Rightarrow> answer c ca (Failure ''No matching pending request'') w
      | Some rq \<Rightarrow> moveTo c ca (ApproveRemove i result rq) w)"
| "resumeCall c ca x (ApproveRemove i result rq) w = moveTo c ca (ApproveRemoved i result rq ((readAll x w)(i := None))) w"
| "resumeCall c ca x (ApproveRemoved i result rq m) w =
     answer c ca Done (deliverResponseToTab (pq_sourceTabId rq) i (Result result) (writeAll x m w))"
| "resumeCall c ca x (RejectGet i reason rest) w = moveTo c ca (RejectRemove i reason rest (readAll x w i)) w"
| "resumeCall c ca x (RejectRemove i reason rest rq) w = moveTo c ca (RejectRemoved i reason rest rq ((readAll x w)(i := None))) w"
| "resumeCall c ca x (RejectRemoved i reason rest rq m) w =
     sweep c ca reason rest (deliverResponseToTab (Option.bind rq pq_sourceTabId) i (Failure reason) (writeAll x m w))"
| "resumeCall c ca x (AskSealed so) w =
     (if \<not> bg_sealed w then answer c ca (Failure ''Wallet not initialized'') w else moveTo c ca (OpenPopup so CONNECT JUndefined False) w)"
| "resumeCall c ca x (AskConnected so t payload) w =
     (if \<not> connectedNow (so_origin so) w then answer c ca (Failure ''Site not connected'') w
      else case payloadError t payload of
        Some e \<Rightarrow> answer c ca (Failure e) w
      | None \<Rightarrow> moveTo c ca (AskPermissions so t payload) w)"
| "resumeCall c ca x (AskPermissions so t payload) w =
     moveTo c ca (OpenPopup so t payload (allowsAuto t (permissionsNow (so_origin so) w))) w"
| "resumeCall c ca x (OpenPopup so t payload auto) w =
     (case dr_window x of
        OpenThrows \<Rightarrow> answer c ca (Failure ''Error'') w
      | Window n \<Rightarrow> moveTo c ca (StoreRead (newRequest so t payload auto x (Some n))) w
      | NoWindow \<Rightarrow> moveTo c ca (StoreRead (newRequest so t payload auto x None)) w)"
| "resumeCall c ca x (StoreRead rq) w = moveTo c ca (StoreWrite rq ((readAll x w)(pq_id rq \<mapsto> rq))) w"
| "resumeCall c ca x (StoreWrite rq m) w = answer c ca (PendingId (pq_id rq)) (writeAll x m w)"
| "resumeCall c ca x (AccountUnlocked so) w =
     (if bg_vault w = None then answer c ca (Failure ''Wallet locked'') w else moveTo c ca (AccountConnected so) w)"
| "resumeCall c ca x (AccountConnected so) w =
     (if \<not> connectedNow (so_origin so) w then answer c ca (Failure ''Site not connected'') w else moveTo c ca (AccountFind so) w)"
| "resumeCall c ca x (AccountFind so) w =
     (case bg_vault w of
        None \<Rightarrow> answer c ca (Failure ''No active account'') w
      | Some s \<Rightarrow> (case getAccountForOrigin (so_origin so) s of
          (None, t) \<Rightarrow> answer c ca (Failure ''No active account'') w
        | (Some a, t) \<Rightarrow> moveTo c ca (AccountNetwork a) (case t of None \<Rightarrow> w | Some s' \<Rightarrow> w \<lparr> bg_late := s' # bg_late w \<rparr>)))"
| "resumeCall c ca x (AccountNetwork a) w =
     (case identityAddress a (networkNow w) of
        Some (u # us) \<Rightarrow> answer c ca (Account (u # us) (wa_publicKeyHex a) (wa_archAddress a) (wa_kind a)) w
      | _ \<Rightarrow> answer c ca (Failure ''This account has no address on the current network'') w)"
| "resumeCall c ca x (DisconnectRead so) w =
     (case bg_vault w of
        None \<Rightarrow> answer c ca (Failure ''Keystore is locked'') w
      | Some s \<Rightarrow> moveTo c ca (DisconnectWrite (disconnectSite (so_origin so) s)) w)"
| "resumeCall c ca x (DisconnectWrite s) w =
     (if bg_vault w = None then answer c ca (Failure ''Keystore is locked'') w else answer c ca Done (w \<lparr> bg_vault := Some s \<rparr>))"
| "resumeCall c ca x LockVault w = moveTo c ca ClearAll (w \<lparr> bg_vault := None \<rparr>)"
| "resumeCall c ca x ClearAll w = answer c ca Done (writeAll x Map.empty w)"
| "resumeCall c ca x st w = w"

text \<open>\<open>pendingRequestsStore.list\<close> of a sweep: the identifiers in the order of the object, here any order \<open>is\<close> of them.\<close>

definition resumeList :: "nat \<Rightarrow> bg_call \<Rightarrow> bg_draw \<Rightarrow> string list \<Rightarrow> background \<Rightarrow> background" where
  "resumeList c ca x is w =
     (let hit = (\<lambda>p. filter (\<lambda>i. case readAll x w i of Some rq \<Rightarrow> p rq | None \<Rightarrow> False) is) in
      case bc_stage ca of
        ExpiredList now \<Rightarrow> sweep c ca ''Request expired'' (hit (\<lambda>rq. now - pq_createdAt rq > PENDING_TTL_MS)) w
      | WindowList n \<Rightarrow> sweep c ca ''User rejected the request'' (hit (\<lambda>rq. pq_windowId rq = Some n)) w
      | _ \<Rightarrow> w)"

subsection \<open>The content script\<close>

definition postToPage :: "nat \<Rightarrow> string \<Rightarrow> response \<Rightarrow> background \<Rightarrow> background" where
  "postToPage d m r w = w \<lparr> bg_posted := bg_posted w @ [(d, m, r)] \<rparr>"

definition setWaiting :: "nat \<Rightarrow> document \<Rightarrow> string \<Rightarrow> string option \<Rightarrow> background \<Rightarrow> background" where
  "setWaiting d dc i m w = w \<lparr> bg_documents := (bg_documents w)(d \<mapsto> dc \<lparr> dc_waiting := (dc_waiting dc)(i := m) \<rparr>) \<rparr>"

definition currentDocument :: "nat \<Rightarrow> background \<Rightarrow> document option" where
  "currentDocument d w =
     (case bg_documents w d of Some dc \<Rightarrow> if bg_tabs w (dc_tab dc) = Some d then Some dc else None | None \<Rightarrow> None)"

definition arrive :: "mail \<Rightarrow> background \<Rightarrow> background" where
  "arrive ml w =
     (case ml of
        Reply d m r \<Rightarrow>
          (case currentDocument d w of
             None \<Rightarrow> w
           | Some dc \<Rightarrow> (case r of PendingId i \<Rightarrow> setWaiting d dc i (Some m) w | _ \<Rightarrow> postToPage d m r w))
      | ToTab t i r \<Rightarrow>
          (case bg_tabs w t of
             None \<Rightarrow> w
           | Some d \<Rightarrow> (case bg_documents w d of
               None \<Rightarrow> w
             | Some dc \<Rightarrow> (case dc_waiting dc i of
                 None \<Rightarrow> w
               | Some m \<Rightarrow> postToPage d m r (setWaiting d dc i None w)))))"

subsection \<open>Events\<close>

datatype bg_event =
    PageSends nat nat string bg_message "string option" "string option"
  | OtherSends nat sender bg_message
  | Resume nat bg_draw
  | ResumeList nat bg_draw "string list"
  | ExpiryAlarm nat int
  | WindowRemoved nat nat
  | LockNow nat
  | Boot nat
  | Navigate nat nat string
  | Arrive nat
  | LateWrite nat
  | OtherRealm "AppState option" bool

text \<open>The sender of a message that a content script sends.\<close>

definition pageSender :: "extension \<Rightarrow> document \<Rightarrow> string option \<Rightarrow> string option \<Rightarrow> sender" where
  "pageSender X dc title icon =
     \<lparr> sn_id = Some (ex_id X), sn_url = Some (dc_url dc),
       sn_tab = Some \<lparr> tb_id = dc_tab dc, tb_url = dc_url dc, tb_title = title, tb_favIconUrl = icon \<rparr> \<rparr>"

definition bgNewCall :: "nat \<Rightarrow> (nat \<times> string) option \<Rightarrow> bg_stage \<Rightarrow> background \<Rightarrow> background" where
  "bgNewCall c from st w = enter c \<lparr> bc_from = from, bc_stage = Dead \<rparr> st w"

definition removeNth :: "nat \<Rightarrow> 'a list \<Rightarrow> 'a list" where
  "removeNth n xs = take n xs @ drop (Suc n) xs"

fun bgEvent :: "extension \<Rightarrow> bg_event \<Rightarrow> background \<Rightarrow> background" where
  "bgEvent X (PageSends c d m msg title icon) w =
     (case currentDocument d w of None \<Rightarrow> w | Some dc \<Rightarrow> bgNewCall c (Some (d, m)) (onMessage X (pageSender X dc title icon) msg) w)"
| "bgEvent X (OtherSends c s msg) w = bgNewCall c None (onMessage X s msg) w"
| "bgEvent X (Resume c x) w = (case bg_calls w c of Some ca \<Rightarrow> resumeCall c ca x (bc_stage ca) w | None \<Rightarrow> w)"
| "bgEvent X (ResumeList c x is) w = (case bg_calls w c of Some ca \<Rightarrow> resumeList c ca x is w | None \<Rightarrow> w)"
| "bgEvent X (ExpiryAlarm c now) w = bgNewCall c None (ExpiredList now) w"
| "bgEvent X (WindowRemoved c n) w = bgNewCall c None (WindowList n) w"
| "bgEvent X (LockNow c) w = bgNewCall c None LockVault w"
| "bgEvent X (Boot c) w =
     bgNewCall c None ClearAll (w \<lparr> bg_calls := (\<lambda>i. map_option (\<lambda>ca. ca \<lparr> bc_stage := Dead \<rparr>) (bg_calls w i)), bg_late := [] \<rparr>)"
| "bgEvent X (Navigate d t url) w =
     w \<lparr> bg_documents := (bg_documents w)(d \<mapsto> \<lparr> dc_tab = t, dc_url = url, dc_waiting = Map.empty \<rparr>), bg_tabs := (bg_tabs w)(t \<mapsto> d) \<rparr>"
| "bgEvent X (Arrive n) w =
     (if n < length (bg_mail w) then arrive (bg_mail w ! n) (w \<lparr> bg_mail := removeNth n (bg_mail w) \<rparr>) else w)"
| "bgEvent X (LateWrite n) w =
     (if n < length (bg_late w)
      then w \<lparr> bg_vault := (if bg_vault w = None then None else Some (bg_late w ! n)), bg_late := removeNth n (bg_late w) \<rparr> else w)"
| "bgEvent X (OtherRealm v sealed) w = w \<lparr> bg_vault := v, bg_sealed := sealed \<rparr>"

definition bgStart :: background where
  "bgStart =
     \<lparr> bg_pending = Map.empty, bg_vault = None, bg_sealed = False, bg_calls = (\<lambda>c. None), bg_late = [], bg_documents = (\<lambda>d. None),
       bg_tabs = (\<lambda>t. None), bg_mail = [], bg_posted = [] \<rparr>"

text \<open>
  Which events can happen: handlers are new, pages are documents of web sites, identifiers are fresh (\<open>crypto.randomUUID\<close>), and
  the pages of the extension send no provider messages.
\<close>

definition drawn :: "bg_event list \<Rightarrow> string set" where
  "drawn evs = {dr_id x | c x. Resume c x \<in> set evs}"

fun possible :: "extension \<Rightarrow> bg_event list \<Rightarrow> background \<Rightarrow> bg_event \<Rightarrow> bool" where
  "possible X evs w (PageSends c d m msg title icon) = (bg_calls w c = None \<and> currentDocument d w \<noteq> None)"
| "possible X evs w (OtherSends c s msg) =
     (bg_calls w c = None \<and> (case msg of ProviderMessage t p \<Rightarrow> sn_id s \<noteq> Some (ex_id X) \<or> sn_tab s = None | _ \<Rightarrow> True))"
| "possible X evs w (Resume c x) = (dr_id x \<notin> drawn evs)"
| "possible X evs w (Navigate d t url) = (bg_documents w d = None \<and> url \<noteq> [] \<and> \<not> starts_with (ex_base X) url)"
| "possible X evs w (ExpiryAlarm c now) = (bg_calls w c = None)"
| "possible X evs w (WindowRemoved c n) = (bg_calls w c = None)"
| "possible X evs w (LockNow c) = (bg_calls w c = None)"
| "possible X evs w (Boot c) = (bg_calls w c = None)"
| "possible X evs w e = True"

inductive bg_run :: "extension \<Rightarrow> bg_event list \<Rightarrow> background \<Rightarrow> bool" for X where
  begins: "bg_run X [] bgStart"
| happens: "bg_run X evs w \<Longrightarrow> possible X evs w e \<Longrightarrow> bg_run X (e # evs) (bgEvent X e w)"

end
