(* ===== verification/ProviderSafety.thy ===== *)
theory ProviderSafety
  imports Provider
begin

text \<open>
  The invariant of every run of the service worker: what stands behind each entry of the pending requests, each stage of a
  handler, each message under way and each connected site. All of it is of the form \<open>something happened earlier\<close>, so it
  stays true as the run goes on.
\<close>

subsection \<open>What happened earlier\<close>

definition docOrigin :: "extension \<Rightarrow> bg_event list \<Rightarrow> nat \<Rightarrow> string \<Rightarrow> bool" where
  "docOrigin X evs d origin \<longleftrightarrow> (\<exists>t url. Navigate d t url \<in> set evs \<and> ex_origin X url = Some origin)"

text \<open>Request \<open>i\<close> was made for message \<open>m\<close> of document \<open>d\<close>.\<close>

definition made :: "extension \<Rightarrow> bg_event list \<Rightarrow> string \<Rightarrow> nat \<Rightarrow> string \<Rightarrow> msg_type \<Rightarrow> string \<Rightarrow> bool" where
  "made X evs i d m t origin \<longleftrightarrow>
     (\<exists>c p title icon x. PageSends c d m (ProviderMessage t p) title icon \<in> set evs \<and> Resume c x \<in> set evs \<and> dr_id x = i
       \<and> docOrigin X evs d origin)"

definition uiSent :: "extension \<Rightarrow> bg_event list \<Rightarrow> bg_message \<Rightarrow> bool" where
  "uiSent X evs msg \<longleftrightarrow> (\<exists>c s. OtherSends c s msg \<in> set evs \<and> isInternalUiSender X s)"

text \<open>A site is granted by another realm's write (the wallet's own pages) or by an approval of its own request to connect.\<close>

definition granted :: "extension \<Rightarrow> bg_event list \<Rightarrow> string \<Rightarrow> bool" where
  "granted X evs origin \<longleftrightarrow>
     (\<exists>s b. OtherRealm (Some s) b \<in> set evs \<and> st_connectedSites s origin \<noteq> None)
     \<or> (\<exists>a d m. uiSent X evs (ApproveConnect a) \<and> made X evs (ap_requestId a) d m CONNECT origin)"

definition approvedResult :: "extension \<Rightarrow> bg_event list \<Rightarrow> string \<Rightarrow> json \<Rightarrow> bool" where
  "approvedResult X evs i data \<longleftrightarrow>
     uiSent X evs (ApproveRequest i data) \<or> (\<exists>a. uiSent X evs (ApproveConnect a) \<and> ap_requestId a = i \<and> ap_account a = data)"

definition requestOk :: "extension \<Rightarrow> bg_event list \<Rightarrow> pending_request \<Rightarrow> bool" where
  "requestOk X evs rq \<longleftrightarrow>
     (\<exists>d m. made X evs (pq_id rq) d m (pq_type rq) (pq_origin rq)) \<and> (pq_type rq = CONNECT \<or> granted X evs (pq_origin rq))"

definition mapOk :: "extension \<Rightarrow> bg_event list \<Rightarrow> pending_map \<Rightarrow> bool" where
  "mapOk X evs m \<longleftrightarrow> (\<forall>i rq. m i = Some rq \<longrightarrow> pq_id rq = i \<and> requestOk X evs rq)"

definition sitesOk :: "extension \<Rightarrow> bg_event list \<Rightarrow> AppState \<Rightarrow> bool" where
  "sitesOk X evs s \<longleftrightarrow> (\<forall>origin. st_connectedSites s origin \<noteq> None \<longrightarrow> granted X evs origin)"

text \<open>The handler \<open>c\<close> serves a provider message of type \<open>t\<close>.\<close>

definition serves :: "extension \<Rightarrow> bg_event list \<Rightarrow> nat \<Rightarrow> (nat \<times> string) option \<Rightarrow> msg_type \<Rightarrow> source \<Rightarrow> bool" where
  "serves X evs c from t so \<longleftrightarrow>
     (\<exists>d m p title icon. from = Some (d, m) \<and> PageSends c d m (ProviderMessage t p) title icon \<in> set evs \<and> docOrigin X evs d (so_origin so))"

definition connectOk :: "extension \<Rightarrow> bg_event list \<Rightarrow> connect_approval \<Rightarrow> pending_request \<Rightarrow> bool" where
  "connectOk X evs a rq \<longleftrightarrow> uiSent X evs (ApproveConnect a) \<and> requestOk X evs rq \<and> pq_type rq = CONNECT \<and> pq_id rq = ap_requestId a"

definition storeOk :: "extension \<Rightarrow> bg_event list \<Rightarrow> (nat \<times> string) option \<Rightarrow> pending_request \<Rightarrow> bool" where
  "storeOk X evs from rq \<longleftrightarrow>
     (\<exists>d m. from = Some (d, m) \<and> made X evs (pq_id rq) d m (pq_type rq) (pq_origin rq)) \<and> (pq_type rq = CONNECT \<or> granted X evs (pq_origin rq))"

definition knows :: "extension \<Rightarrow> bg_event list \<Rightarrow> nat \<Rightarrow> bool" where
  "knows X evs d \<longleftrightarrow> (\<exists>origin. docOrigin X evs d origin \<and> granted X evs origin)"

fun stageOk :: "extension \<Rightarrow> bg_event list \<Rightarrow> nat \<Rightarrow> (nat \<times> string) option \<Rightarrow> bg_stage \<Rightarrow> bool" where
  "stageOk X evs c from (ConnectGet a) = uiSent X evs (ApproveConnect a)"
| "stageOk X evs c from (ConnectLegacy a rq) = connectOk X evs a rq"
| "stageOk X evs c from (ConnectRead a rq i) = connectOk X evs a rq"
| "stageOk X evs c from (ConnectWrite a rq s) = (connectOk X evs a rq \<and> sitesOk X evs s)"
| "stageOk X evs c from (ConnectRemove a rq) = connectOk X evs a rq"
| "stageOk X evs c from (ConnectRemoved a rq m) = (connectOk X evs a rq \<and> mapOk X evs m)"
| "stageOk X evs c from (ApproveGet i result) = uiSent X evs (ApproveRequest i result)"
| "stageOk X evs c from (ApproveRemove i result rq) = uiSent X evs (ApproveRequest i result)"
| "stageOk X evs c from (ApproveRemoved i result rq m) = (uiSent X evs (ApproveRequest i result) \<and> mapOk X evs m)"
| "stageOk X evs c from (RejectRemoved i reason rest rq m) = mapOk X evs m"
| "stageOk X evs c from (AskSealed so) = serves X evs c from CONNECT so"
| "stageOk X evs c from (AskConnected so t p) = serves X evs c from t so"
| "stageOk X evs c from (AskPermissions so t p) = (serves X evs c from t so \<and> granted X evs (so_origin so))"
| "stageOk X evs c from (OpenPopup so t p auto) = (serves X evs c from t so \<and> (t = CONNECT \<or> granted X evs (so_origin so)))"
| "stageOk X evs c from (StoreRead rq) = storeOk X evs from rq"
| "stageOk X evs c from (StoreWrite rq m) = (storeOk X evs from rq \<and> mapOk X evs m)"
| "stageOk X evs c from (AccountUnlocked so) = serves X evs c from GET_ACCOUNT so"
| "stageOk X evs c from (AccountConnected so) = serves X evs c from GET_ACCOUNT so"
| "stageOk X evs c from (AccountFind so) = (serves X evs c from GET_ACCOUNT so \<and> granted X evs (so_origin so))"
| "stageOk X evs c from (AccountNetwork a) = (\<forall>d m. from = Some (d, m) \<longrightarrow> knows X evs d)"
| "stageOk X evs c from (DisconnectWrite s) = sitesOk X evs s"
| "stageOk X evs c from st = True"

definition replyOk :: "extension \<Rightarrow> bg_event list \<Rightarrow> nat \<Rightarrow> string \<Rightarrow> response \<Rightarrow> bool" where
  "replyOk X evs d m r =
     (case r of Account b k a kind \<Rightarrow> knows X evs d | Result data \<Rightarrow> False | PendingId i \<Rightarrow> \<exists>t origin. made X evs i d m t origin | _ \<Rightarrow> True)"

definition deliveryOk :: "extension \<Rightarrow> bg_event list \<Rightarrow> string \<Rightarrow> response \<Rightarrow> bool" where
  "deliveryOk X evs i r =
     (case r of Account b k a kind \<Rightarrow> False | Result data \<Rightarrow> approvedResult X evs i data | _ \<Rightarrow> True)"

definition postedOk :: "extension \<Rightarrow> bg_event list \<Rightarrow> nat \<Rightarrow> string \<Rightarrow> response \<Rightarrow> bool" where
  "postedOk X evs d m r =
     (case r of
        Account b k a kind \<Rightarrow> knows X evs d
      | Result data \<Rightarrow> \<exists>i t origin. made X evs i d m t origin \<and> approvedResult X evs i data
      | _ \<Rightarrow> True)"

definition mailOk :: "extension \<Rightarrow> bg_event list \<Rightarrow> mail \<Rightarrow> bool" where
  "mailOk X evs ml = (case ml of Reply d m r \<Rightarrow> replyOk X evs d m r | ToTab t i r \<Rightarrow> deliveryOk X evs i r)"

definition documentOk :: "extension \<Rightarrow> bg_event list \<Rightarrow> nat \<Rightarrow> document \<Rightarrow> bool" where
  "documentOk X evs d dc \<longleftrightarrow>
     Navigate d (dc_tab dc) (dc_url dc) \<in> set evs \<and> dc_url dc \<noteq> [] \<and> \<not> starts_with (ex_base X) (dc_url dc)
     \<and> (\<forall>i m. dc_waiting dc i = Some m \<longrightarrow> (\<exists>t origin. made X evs i d m t origin))"

definition bgInv :: "extension \<Rightarrow> bg_event list \<Rightarrow> background \<Rightarrow> bool" where
  "bgInv X evs w \<longleftrightarrow>
     mapOk X evs (bg_pending w) \<and> (\<forall>s. bg_vault w = Some s \<longrightarrow> sitesOk X evs s) \<and> (\<forall>s\<in>set (bg_late w). sitesOk X evs s)
     \<and> (\<forall>c ca. bg_calls w c = Some ca \<longrightarrow> stageOk X evs c (bc_from ca) (bc_stage ca))
     \<and> (\<forall>d dc. bg_documents w d = Some dc \<longrightarrow> documentOk X evs d dc)
     \<and> (\<forall>ml\<in>set (bg_mail w). mailOk X evs ml) \<and> (\<forall>(d, m, r)\<in>set (bg_posted w). postedOk X evs d m r)"

subsection \<open>It stays true\<close>

lemma earlier:
  assumes "set evs \<subseteq> set evs'"
  shows "docOrigin X evs d g \<Longrightarrow> docOrigin X evs' d g" "made X evs i d m t g \<Longrightarrow> made X evs' i d m t g" "uiSent X evs msg \<Longrightarrow> uiSent X evs' msg"
    "granted X evs g \<Longrightarrow> granted X evs' g" "approvedResult X evs i data \<Longrightarrow> approvedResult X evs' i data" "requestOk X evs rq \<Longrightarrow> requestOk X evs' rq"
proof -
  show o: "docOrigin X evs d g \<Longrightarrow> docOrigin X evs' d g" for d g using assms unfolding docOrigin_def by blast
  show m: "made X evs i d m t g \<Longrightarrow> made X evs' i d m t g" for i d m t g using assms o unfolding made_def by blast
  show u: "uiSent X evs msg \<Longrightarrow> uiSent X evs' msg" for msg using assms unfolding uiSent_def by blast
  show g: "granted X evs g \<Longrightarrow> granted X evs' g" for g using assms m u unfolding granted_def by blast
  show "approvedResult X evs i data \<Longrightarrow> approvedResult X evs' i data" using u unfolding approvedResult_def by blast
  show "requestOk X evs rq \<Longrightarrow> requestOk X evs' rq" using m g unfolding requestOk_def by blast
qed

lemma later:
  assumes "set evs \<subseteq> set evs'"
  shows "mapOk X evs m \<Longrightarrow> mapOk X evs' m" "sitesOk X evs s \<Longrightarrow> sitesOk X evs' s" "serves X evs c from t so \<Longrightarrow> serves X evs' c from t so"
    "connectOk X evs a rq \<Longrightarrow> connectOk X evs' a rq" "storeOk X evs from rq \<Longrightarrow> storeOk X evs' from rq" "knows X evs d \<Longrightarrow> knows X evs' d"
proof -
  note e = earlier [OF assms]
  show "mapOk X evs m \<Longrightarrow> mapOk X evs' m" using e(6) unfolding mapOk_def by blast
  show "sitesOk X evs s \<Longrightarrow> sitesOk X evs' s" using e(4) unfolding sitesOk_def by blast
  show "serves X evs c from t so \<Longrightarrow> serves X evs' c from t so" using assms e(1) unfolding serves_def by blast
  show "connectOk X evs a rq \<Longrightarrow> connectOk X evs' a rq" using e(3,6) unfolding connectOk_def by blast
  show "storeOk X evs from rq \<Longrightarrow> storeOk X evs' from rq" using e(2,4) unfolding storeOk_def by blast
  show "knows X evs d \<Longrightarrow> knows X evs' d" using e(1,4) unfolding knows_def by blast
qed

lemma stageOk_later: "set evs \<subseteq> set evs' \<Longrightarrow> stageOk X evs c from st \<Longrightarrow> stageOk X evs' c from st"
  by (cases st) (auto dest: earlier later)

lemma mailOk_later: "set evs \<subseteq> set evs' \<Longrightarrow> mailOk X evs ml \<Longrightarrow> mailOk X evs' ml"
  by (auto simp: mailOk_def replyOk_def deliveryOk_def dest: earlier later split: mail.splits response.splits)

lemma postedOk_later: "set evs \<subseteq> set evs' \<Longrightarrow> postedOk X evs d m r \<Longrightarrow> postedOk X evs' d m r"
  by (auto simp: postedOk_def dest: earlier later split: response.splits)

lemma documentOk_later: "set evs \<subseteq> set evs' \<Longrightarrow> documentOk X evs d dc \<Longrightarrow> documentOk X evs' d dc"
  by (fastforce simp: documentOk_def dest: earlier)

lemma bgInv_later:
  assumes "bgInv X evs w"
  shows "bgInv X (e # evs) w"
proof -
  have sub: "set evs \<subseteq> set (e # evs)" by auto
  note l = later [OF sub] stageOk_later [OF sub] mailOk_later [OF sub] postedOk_later [OF sub] documentOk_later [OF sub]
  show ?thesis
    using assms unfolding bgInv_def split_paired_Ball_Sigma by (intro conjI) (use l in \<open>(blast | fastforce)+\<close>)
qed

subsection \<open>Pieces keep the invariant\<close>

lemma inv_pending: "bgInv X evs w \<Longrightarrow> mapOk X evs m \<Longrightarrow> bgInv X evs (writeAll x m w)"
  by (simp add: bgInv_def writeAll_def)

lemma inv_moveTo: "bgInv X evs w \<Longrightarrow> stageOk X evs c (bc_from ca) st \<Longrightarrow> bgInv X evs (moveTo c ca st w)"
  by (simp add: bgInv_def moveTo_def)

lemma inv_mail: "bgInv X evs w \<Longrightarrow> mailOk X evs ml \<Longrightarrow> bgInv X evs (sendMail ml w)"
  by (auto simp: bgInv_def sendMail_def)

lemma inv_answer:
  "bgInv X evs w \<Longrightarrow> (\<And>d m. bc_from ca = Some (d, m) \<Longrightarrow> replyOk X evs d m r) \<Longrightarrow> bgInv X evs (answer c ca r w)"
  unfolding answer_def by (intro inv_moveTo) (auto simp: mailOk_def intro: inv_mail split: option.split)

lemma inv_deliver: "bgInv X evs w \<Longrightarrow> deliveryOk X evs i r \<Longrightarrow> bgInv X evs (deliverResponseToTab t i r w)"
  unfolding deliverResponseToTab_def by (auto simp: mailOk_def intro: inv_mail split: option.split)

lemma inv_vault: "bgInv X evs w \<Longrightarrow> sitesOk X evs s \<Longrightarrow> bgInv X evs (w \<lparr> bg_vault := Some s \<rparr>)"
  by (simp add: bgInv_def)

lemma inv_locked: "bgInv X evs w \<Longrightarrow> bgInv X evs (w \<lparr> bg_vault := None \<rparr>)"
  by (simp add: bgInv_def)

lemma inv_late: "bgInv X evs w \<Longrightarrow> sitesOk X evs s \<Longrightarrow> bgInv X evs (w \<lparr> bg_late := s # bg_late w \<rparr>)"
  by (simp add: bgInv_def)

lemma inv_sweep: "bgInv X evs w \<Longrightarrow> bgInv X evs (sweep c ca reason rest w)"
  unfolding sweep_def by (auto simp: replyOk_def intro!: inv_answer inv_moveTo split: list.split)

lemma plain_replies [simp]:
  "replyOk X evs d m Done" "replyOk X evs d m (Failure e)" "replyOk X evs d m (Found q)" "deliveryOk X evs i (Failure e)"
  by (simp_all add: replyOk_def deliveryOk_def)

lemma map_read: "bgInv X evs w \<Longrightarrow> mapOk X evs (readAll x w)"
  by (simp add: bgInv_def readAll_def mapOk_def)

lemma map_removed: "mapOk X evs m \<Longrightarrow> mapOk X evs (m(i := None))"
  by (simp add: mapOk_def)

lemma map_added: "mapOk X evs m \<Longrightarrow> requestOk X evs rq \<Longrightarrow> mapOk X evs (m(pq_id rq \<mapsto> rq))"
  by (simp add: mapOk_def)

lemma store_request: "storeOk X evs from rq \<Longrightarrow> requestOk X evs rq"
  by (auto simp: storeOk_def requestOk_def)

lemma vault_sites: "bgInv X evs w \<Longrightarrow> bg_vault w = Some s \<Longrightarrow> sitesOk X evs s"
  by (simp add: bgInv_def)

lemma connected_granted: "bgInv X evs w \<Longrightarrow> connectedNow origin w \<Longrightarrow> granted X evs origin"
  by (auto simp: connectedNow_def isSiteConnected_def bgInv_def sitesOk_def split: option.splits)

lemma sites_connect:
  assumes "sitesOk X evs s" "connectOk X evs a rq"
  shows "sitesOk X evs (connectSite (pq_origin rq) site s)"
proof -
  have "granted X evs (pq_origin rq)" using assms(2) by (fastforce simp: connectOk_def requestOk_def granted_def)
  then show ?thesis using assms(1) by (simp add: sitesOk_def connectSite_def)
qed

lemma sites_disconnect: "sitesOk X evs s \<Longrightarrow> sitesOk X evs (disconnectSite o' s)"
  by (simp add: sitesOk_def disconnectSite_def)

lemma sites_rebound:
  assumes "sitesOk X evs s" "getAccountForOrigin o' s = (a, Some t)"
  shows "sitesOk X evs t"
  using assms by (auto simp: getAccountForOrigin_def sitesOk_def Let_def split: option.splits if_splits)

lemma new_request:
  assumes "serves X evs c from t so" "Resume c x \<in> set evs" "t = CONNECT \<or> granted X evs (so_origin so)"
  shows "storeOk X evs from (newRequest so t p auto x wid)"
  using assms unfolding storeOk_def newRequest_def serves_def made_def by (auto, blast+)

subsection \<open>Steps keep the invariant\<close>

lemma inv_resume_connect:
  assumes inv: "bgInv X evs w" and st: "stageOk X evs c (bc_from ca) st"
    and cases: "(\<exists>a. st = ConnectGet a) \<or> (\<exists>a rq. st = ConnectLegacy a rq) \<or> (\<exists>a rq i. st = ConnectRead a rq i)
      \<or> (\<exists>a rq s. st = ConnectWrite a rq s) \<or> (\<exists>a rq. st = ConnectRemove a rq) \<or> (\<exists>a rq m. st = ConnectRemoved a rq m)"
  shows "bgInv X evs (resumeCall c ca x st w)"
proof -
  have get: "connectOk X evs a rq" if "uiSent X evs (ApproveConnect a)" "readAll x w (ap_requestId a) = Some rq" "pq_type rq = CONNECT" for a rq
    using map_read [OF inv, of x] that by (auto simp: mapOk_def connectOk_def)
  have conn: "sitesOk X evs (connectSite (pq_origin rq) site s)" if "bg_vault w = Some s" "connectOk X evs a rq" for site s a rq
    using sites_connect [OF vault_sites [OF inv]] that by blast
  have sent: "deliveryOk X evs (ap_requestId a) (Result (ap_account a))" if "connectOk X evs a rq" for a rq
    using that by (auto simp: deliveryOk_def approvedResult_def connectOk_def)
  show ?thesis
    using cases st
    by (elim disjE exE)
      (auto intro!: inv_answer inv_moveTo inv_pending inv_vault inv_deliver map_removed map_read inv
        intro: get sent conn split: option.split)
qed

lemma inv_resume_decision:
  assumes inv: "bgInv X evs w" and st: "stageOk X evs c (bc_from ca) st"
    and cases: "(\<exists>i r. st = ApproveGet i r) \<or> (\<exists>i r rq. st = ApproveRemove i r rq) \<or> (\<exists>i r rq m. st = ApproveRemoved i r rq m)
      \<or> (\<exists>i r rest. st = RejectGet i r rest) \<or> (\<exists>i r rest rq. st = RejectRemove i r rest rq) \<or> (\<exists>i r rest rq m. st = RejectRemoved i r rest rq m)
      \<or> (\<exists>i. st = PendingGet i) \<or> st = LockVault \<or> st = ClearAll"
  shows "bgInv X evs (resumeCall c ca x st w)"
proof -
  have sent: "deliveryOk X evs i (Result r)" if "uiSent X evs (ApproveRequest i r)" for i r
    using that by (auto simp: deliveryOk_def approvedResult_def)
  show ?thesis
    using cases st
    by (elim disjE exE)
      (auto intro!: inv_answer inv_moveTo inv_pending inv_deliver inv_sweep inv_locked map_removed map_read sent inv
        split: option.split simp: mapOk_def [of X evs Map.empty])
qed

lemma inv_resume_provider:
  assumes inv: "bgInv X evs w" and st: "stageOk X evs c (bc_from ca) st" and x: "Resume c x \<in> set evs"
    and cases: "(\<exists>so. st = AskSealed so) \<or> (\<exists>so t p. st = AskConnected so t p) \<or> (\<exists>so t p. st = AskPermissions so t p)
      \<or> (\<exists>so t p auto. st = OpenPopup so t p auto) \<or> (\<exists>rq. st = StoreRead rq) \<or> (\<exists>rq m. st = StoreWrite rq m)"
  shows "bgInv X evs (resumeCall c ca x st w)"
proof -
  have reply: "replyOk X evs d m (PendingId (pq_id rq))" if "storeOk X evs (bc_from ca) rq" "bc_from ca = Some (d, m)" for d m rq
    using that by (auto simp: replyOk_def storeOk_def)
  show ?thesis
    using cases st
    by (elim disjE exE)
      (auto intro!: inv_answer inv_moveTo inv_pending map_added map_read new_request x inv reply
        intro: store_request connected_granted split: option.split opened.split)
qed

lemma inv_resume_account:
  assumes inv: "bgInv X evs w" and st: "stageOk X evs c (bc_from ca) st"
    and cases: "(\<exists>so. st = AccountUnlocked so) \<or> (\<exists>so. st = AccountConnected so) \<or> (\<exists>so. st = AccountFind so) \<or> (\<exists>a. st = AccountNetwork a)
      \<or> (\<exists>so. st = DisconnectRead so) \<or> (\<exists>s. st = DisconnectWrite s)"
  shows "bgInv X evs (resumeCall c ca x st w)"
proof -
  have know: "knows X evs d" if "serves X evs c (Some (d, m)) GET_ACCOUNT so" "granted X evs (so_origin so)" for so d m
    using that by (auto simp: serves_def knows_def)
  have reply: "replyOk X evs d m (Account b k a kind)" if "knows X evs d" for d m b k a kind using that by (simp add: replyOk_def)
  show ?thesis
    using cases st
    by (elim disjE exE)
      (auto intro!: inv_answer inv_moveTo inv_vault inv_late sites_disconnect reply inv
        intro: vault_sites [OF inv] connected_granted sites_rebound [OF vault_sites [OF inv]] split: option.split list.split prod.split, (blast intro: know)+)
qed

lemma bg_inv_resume:
  assumes "bgInv X evs w" "stageOk X evs c (bc_from ca) st" "Resume c x \<in> set evs"
  shows "bgInv X evs (resumeCall c ca x st w)"
proof (cases st)
  case (Answered r) then show ?thesis using assms by simp
next
  case Dead then show ?thesis using assms by simp
next
  case (ExpiredList now) then show ?thesis using assms by simp
next
  case (WindowList n) then show ?thesis using assms by simp
qed (use inv_resume_connect [OF assms(1,2)] inv_resume_decision [OF assms(1,2)] inv_resume_provider [OF assms]
    inv_resume_account [OF assms(1,2)] in simp_all)

lemma inv_resumeList: "bgInv X evs w \<Longrightarrow> bgInv X evs (resumeList c ca x is w)"
  by (auto simp: resumeList_def Let_def intro: inv_sweep split: bg_stage.split)

lemma page_not_ui: "documentOk X evs d dc \<Longrightarrow> \<not> isInternalUiSender X (pageSender X dc title icon)"
proof -
  have pre: "starts_with a u" if "starts_with (a @ b) u" for a b u :: string
    using arg_cong [OF that [unfolded starts_with_def], of "take (length a)"] by (simp add: starts_with_def)
  show "documentOk X evs d dc \<Longrightarrow> \<not> isInternalUiSender X (pageSender X dc title icon)"
    by (auto simp: documentOk_def isInternalUiSender_def pageSender_def Let_def dest: pre)
qed

lemma inv_bgNewCall:
  assumes "bgInv X evs w" "stageOk X evs c from st" "\<And>r. st = Answered r \<Longrightarrow> \<forall>d m. from = Some (d, m) \<longrightarrow> replyOk X evs d m r"
  shows "bgInv X evs (bgNewCall c from st w)"
  unfolding bgNewCall_def enter_def using assms by (cases st) (auto intro!: inv_moveTo inv_answer)

text \<open>What a message of a page starts: a handler for its provider messages, nothing of the wallet's own.\<close>

lemma page_stage:
  assumes "documentOk X evs d dc" "PageSends c d m msg title icon \<in> set evs"
  shows "stageOk X evs c (Some (d, m)) (onMessage X (pageSender X dc title icon) msg)"
    "onMessage X (pageSender X dc title icon) msg = Answered r \<Longrightarrow> replyOk X evs d' m' r"
proof -
  define s where "s = pageSender X dc title icon"
  have tab: "sn_tab s = Some \<lparr> tb_id = dc_tab dc, tb_url = dc_url dc, tb_title = title, tb_favIconUrl = icon \<rparr>" "isOwnSender X s"
    by (simp_all add: s_def pageSender_def isOwnSender_def)
  have no_ui: "\<not> isInternalUiSender X s" unfolding s_def by (rule page_not_ui [OF assms(1)])
  have served: "serves X evs c (Some (d, m)) t so" if "msg = ProviderMessage t p" "sourceOf X (the (sn_tab s)) = Some so" for t p so
  proof -
    have "ex_origin X (dc_url dc) = Some (so_origin so)" using that(2) by (auto simp: sourceOf_def tab)
    then have "docOrigin X evs d (so_origin so)" using assms(1) unfolding docOrigin_def documentOk_def by blast
    then show ?thesis using assms(2) that(1) unfolding serves_def by blast
  qed
  show "stageOk X evs c (Some (d, m)) (onMessage X (pageSender X dc title icon) msg)"
    unfolding s_def [symmetric] onMessage_def using no_ui served
    by (cases msg) (auto simp: tab handleProviderRequest_def split: option.split msg_type.split)
  show "onMessage X (pageSender X dc title icon) msg = Answered r \<Longrightarrow> replyOk X evs d' m' r"
    unfolding s_def [symmetric] onMessage_def using no_ui
    by (cases msg) (auto simp: tab handleProviderRequest_def split: option.splits msg_type.splits if_splits)
qed

lemma other_stage:
  assumes "OtherSends c s msg \<in> set evs" "\<And>t p. msg = ProviderMessage t p \<Longrightarrow> sn_id s \<noteq> Some (ex_id X) \<or> sn_tab s = None"
  shows "stageOk X evs c None (onMessage X s msg)"
proof (cases "\<exists>t p. msg = ProviderMessage t p")
  case True
  then show ?thesis using assms(2) by (auto simp: onMessage_def isOwnSender_def split: option.split)
next
  case False
  have "uiSent X evs msg" if "isInternalUiSender X s" using that assms(1) by (auto simp: uiSent_def)
  then show ?thesis using False by (cases msg) (auto simp: onMessage_def internalStage_def)
qed

lemma currentDocument_known: "currentDocument d w = Some dc \<Longrightarrow> bg_documents w d = Some dc"
  by (simp add: currentDocument_def split: option.splits if_splits)

lemma inv_waiting:
  assumes "bgInv X evs w" "bg_documents w d = Some dc" "\<And>m'. m = Some m' \<Longrightarrow> \<exists>t g. made X evs i d m' t g"
  shows "bgInv X evs (setWaiting d dc i m w)"
proof -
  have "documentOk X evs d dc" using assms(1,2) by (simp add: bgInv_def)
  then have "documentOk X evs d (dc \<lparr> dc_waiting := (dc_waiting dc)(i := m) \<rparr>)" using assms(3) by (auto simp: documentOk_def)
  then show ?thesis using assms(1) by (simp add: bgInv_def setWaiting_def)
qed

lemma inv_posted: "bgInv X evs w \<Longrightarrow> postedOk X evs d m r \<Longrightarrow> bgInv X evs (postToPage d m r w)"
  by (auto simp: bgInv_def postToPage_def)

lemma inv_arrive:
  assumes "bgInv X evs w" "mailOk X evs ml"
  shows "bgInv X evs (arrive ml w)"
proof (cases ml)
  case (Reply d m r)
  then have r: "replyOk X evs d m r" using assms(2) by (simp add: mailOk_def)
  show ?thesis
  proof (cases "currentDocument d w")
    case (Some dc)
    show ?thesis
    proof (cases "\<exists>i. r = PendingId i")
      case True
      then obtain i where i: "r = PendingId i" by blast
      then have "\<exists>t g. made X evs i d m t g" using r by (simp add: replyOk_def)
      then have "bgInv X evs (setWaiting d dc i (Some m) w)" by (intro inv_waiting [OF assms(1) currentDocument_known [OF Some]]) auto
      then show ?thesis by (simp add: arrive_def Reply Some i)
    next
      case False
      then have "postedOk X evs d m r" using r by (auto simp: replyOk_def postedOk_def split: response.splits)
      then show ?thesis using False inv_posted [OF assms(1)] by (auto simp: arrive_def Reply Some split: response.split)
    qed
  qed (simp add: arrive_def Reply assms(1))
next
  case (ToTab t i r)
  then have r: "deliveryOk X evs i r" using assms(2) by (simp add: mailOk_def)
  show ?thesis
  proof (cases "\<exists>d dc m. bg_tabs w t = Some d \<and> bg_documents w d = Some dc \<and> dc_waiting dc i = Some m")
    case True
    then obtain d dc m where d: "bg_tabs w t = Some d" "bg_documents w d = Some dc" "dc_waiting dc i = Some m" by blast
    then have "documentOk X evs d dc" using assms(1) by (simp add: bgInv_def)
    then have "\<exists>t g. made X evs i d m t g" using d(3) by (simp add: documentOk_def)
    then have "postedOk X evs d m r" using r by (auto simp: deliveryOk_def postedOk_def split: response.splits)
    then show ?thesis using inv_waiting [OF assms(1) d(2), of None i] inv_posted by (simp add: arrive_def ToTab d)
  next
    case False
    then have "arrive ml w = w" by (auto simp: arrive_def ToTab split: option.splits)
    then show ?thesis using assms(1) by simp
  qed
qed

lemma set_removeNth: "set (removeNth n xs) \<subseteq> set xs"
  by (auto simp: removeNth_def dest: in_set_takeD in_set_dropD)

lemma bg_inv_event:
  assumes "bgInv X evs w" "possible X evs0 w e" "e \<in> set evs"
  shows "bgInv X evs (bgEvent X e w)"
proof (cases e)
  case (PageSends c d m msg title icon)
  then obtain dc where dc: "currentDocument d w = Some dc" using assms(2) by auto
  then have "documentOk X evs d dc" using assms(1) currentDocument_known by (simp add: bgInv_def)
  from page_stage [OF this assms(3) [unfolded PageSends]] show ?thesis by (simp add: PageSends dc inv_bgNewCall [OF assms(1)])
next
  case (OtherSends c s msg)
  have "stageOk X evs c None (onMessage X s msg)"
    by (rule other_stage) (use assms(2,3) in \<open>auto simp: OtherSends\<close>)
  then show ?thesis by (simp add: OtherSends inv_bgNewCall [OF assms(1)])
next
  case (Resume c x)
  have "stageOk X evs c (bc_from ca) (bc_stage ca)" if "bg_calls w c = Some ca" for ca using assms(1) that by (simp add: bgInv_def)
  then show ?thesis using bg_inv_resume [OF assms(1)] assms(1,3) by (simp add: Resume split: option.split)
next
  case (ResumeList c x ids)
  then show ?thesis using inv_resumeList [OF assms(1)] assms(1) by (simp split: option.split)
next
  case (Boot c)
  have "bgInv X evs (w \<lparr> bg_calls := (\<lambda>i. map_option (\<lambda>ca. ca \<lparr> bc_stage := Dead \<rparr>) (bg_calls w i)), bg_late := [] \<rparr>)"
    using assms(1) by (auto simp: bgInv_def)
  then show ?thesis by (simp add: Boot inv_bgNewCall)
next
  case (Navigate d t url)
  then show ?thesis using assms by (auto simp: bgInv_def documentOk_def)
next
  case (Arrive n)
  show ?thesis
  proof (cases "n < length (bg_mail w)")
    case True
    have "bgInv X evs (w \<lparr> bg_mail := removeNth n (bg_mail w) \<rparr>)" using assms(1) set_removeNth [of n "bg_mail w"] by (auto simp: bgInv_def)
    moreover have "mailOk X evs (bg_mail w ! n)" using assms(1) True by (simp add: bgInv_def)
    ultimately show ?thesis using True by (simp add: Arrive inv_arrive)
  qed (simp add: Arrive assms(1))
next
  case (LateWrite n)
  show ?thesis
  proof (cases "n < length (bg_late w)")
    case True
    then have "sitesOk X evs (bg_late w ! n)" using assms(1) by (simp add: bgInv_def)
    then show ?thesis using assms(1) set_removeNth [of n "bg_late w"] by (auto simp: LateWrite bgInv_def)
  qed (simp add: LateWrite assms(1))
next
  case (OtherRealm v b)
  have "sitesOk X evs s" if "v = Some s" for s using assms(3) that by (auto simp: OtherRealm sitesOk_def granted_def)
  then show ?thesis using assms(1) by (simp add: OtherRealm bgInv_def)
qed (use assms(1) in \<open>simp_all add: inv_bgNewCall\<close>)

theorem bg_run_inv: "bg_run X evs w \<Longrightarrow> bgInv X evs w"
proof (induction rule: bg_run.induct)
  case begins
  show ?case by (simp add: bgInv_def bgStart_def mapOk_def)
next
  case (happens evs w e)
  show ?case by (rule bg_inv_event [OF bgInv_later [OF happens.IH] happens.hyps(2)]) simp
qed

end
