(* ===== verification/ProviderRuns.thy ===== *)
theory ProviderRuns
  imports ProviderSafety WalletRuns
begin

text \<open>
  What holds of every run of the service worker with its pages, a sample run, and the interleavings in which the store of
  pending requests loses or revives one.
\<close>

subsection \<open>A sample run\<close>

fun bgEvents :: "extension \<Rightarrow> bg_event list \<Rightarrow> background \<Rightarrow> background" where
  "bgEvents X [] w = w"
| "bgEvents X (e # es) w = bgEvents X es (bgEvent X e w)"

fun allPossible :: "extension \<Rightarrow> bg_event list \<Rightarrow> bg_event list \<Rightarrow> background \<Rightarrow> bool" where
  "allPossible X past [] w = True"
| "allPossible X past (e # es) w = (possible X past w e \<and> allPossible X (e # past) es (bgEvent X e w))"

lemma bg_run_all: "bg_run X past w \<Longrightarrow> allPossible X past es w \<Longrightarrow> bg_run X (rev es @ past) (bgEvents X es w)"
  by (induction es arbitrary: past w) (auto dest: bg_run.happens)

lemma drawn_simps [simp]: "drawn [] = {}" "drawn (Resume c x # evs) = insert (dr_id x) (drawn evs)"
  "(\<And>c x. e \<noteq> Resume c x) \<Longrightarrow> drawn (e # evs) = drawn evs"
  by (auto simp: drawn_def)

definition sampleExtension :: extension where
  "sampleExtension =
     \<lparr> ex_id = ''ext'', ex_base = ''chrome-extension://ext/'',
       ex_origin = (\<lambda>u. if u = ''https://d.app/'' then Some ''https://d.app'' else None) \<rparr>"

definition sampleUi :: sender where
  "sampleUi = \<lparr> sn_id = Some ''ext'', sn_url = Some ''chrome-extension://ext/popup.html'', sn_tab = None \<rparr>"

definition sampleDraw :: "string \<Rightarrow> bg_draw" where
  "sampleDraw i = \<lparr> dr_ok = True, dr_id = i, dr_now = 0, dr_window = Window 9 \<rparr>"

definition sampleApproval :: connect_approval where
  "sampleApproval =
     \<lparr> ap_requestId = ''2'', ap_accountId = Some ''a'', ap_address = None, ap_dappName = None, ap_iconUrl = None, ap_permissions = None,
       ap_account = JStr ''tb1p'' \<rparr>"

definition connectEvents :: "bg_event list" where
  "connectEvents =
     [OtherRealm (Some (completeOnboarding sampleBuild sampleAccount)) True, Navigate 1 7 ''https://d.app/'',
      PageSends 1 1 ''m'' (ProviderMessage CONNECT JUndefined) None None,
      Resume 1 (sampleDraw ''1''), Resume 1 (sampleDraw ''2''), Resume 1 (sampleDraw ''3''), Resume 1 (sampleDraw ''4''), Arrive 0,
      OtherSends 2 sampleUi (ApproveConnect sampleApproval), Resume 2 (sampleDraw ''5''), Resume 2 (sampleDraw ''6''), Resume 2 (sampleDraw ''7''),
      Resume 2 (sampleDraw ''8''), Resume 2 (sampleDraw ''9''), Arrive 0]"

text \<open>The page then asks for the account.\<close>

definition accountEvents :: "bg_event list" where
  "accountEvents =
     [PageSends 3 1 ''n'' (ProviderMessage GET_ACCOUNT JUndefined) None None, Resume 3 (sampleDraw ''10''), Resume 3 (sampleDraw ''11''),
      Resume 3 (sampleDraw ''12''), Resume 3 (sampleDraw ''13''), Arrive 0]"

definition sampleEvents :: "bg_event list" where
  "sampleEvents = connectEvents @ accountEvents"

lemma sample_fields:
  "ex_id sampleExtension = ''ext''" "ex_base sampleExtension = ''chrome-extension://ext/''"
  "ex_origin sampleExtension ''https://d.app/'' = Some ''https://d.app''"
  "isInternalUiSender sampleExtension sampleUi" "sn_id sampleUi = Some ''ext''"
  "dr_ok (sampleDraw i)" "dr_id (sampleDraw i) = i" "dr_window (sampleDraw i) = Window 9" "dr_now (sampleDraw i) = 0"
  by (simp_all add: sampleExtension_def sampleUi_def isInternalUiSender_def isOwnSender_def sampleDraw_def starts_with_def)

lemmas bg_eval = bgNewCall_def enter_def onMessage_def pageSender_def isOwnSender_def sourceOf_def handleProviderRequest_def internalStage_def
  moveTo_def answer_def sendMail_def deliverResponseToTab_def readAll_def writeAll_def newRequest_def arrive_def postToPage_def setWaiting_def
  currentDocument_def removeNth_def connectedSite_def filled_def

definition sampleEnd :: background where
  "sampleEnd = bgEvents sampleExtension sampleEvents bgStart"

lemma bgEvents_append: "bgEvents X (as @ bs) w = bgEvents X bs (bgEvents X as w)"
  by (induction as arbitrary: w) simp_all

lemma allPossible_append: "allPossible X past (as @ bs) w \<longleftrightarrow> allPossible X past as w \<and> allPossible X (rev as @ past) bs (bgEvents X as w)"
  by (induction as arbitrary: past w) simp_all

lemmas sample_eval = bgStart_def sample_fields bg_eval starts_with_def sampleApproval_def connectSite_def

definition sampleConnected :: AppState where
  "sampleConnected =
     connectSite ''https://d.app'' (connectedSite sampleApproval
       (newRequest \<lparr> so_origin = ''https://d.app'', so_tabId = 7, so_name = None, so_icon = None \<rparr> CONNECT JUndefined False (sampleDraw ''2'') (Some 9)) ''a'' 0)
       (completeOnboarding sampleBuild sampleAccount)"

lemma sample_connect_run:
  "bgEvents sampleExtension connectEvents bgStart =
     \<lparr> bg_pending = Map.empty, bg_vault = Some sampleConnected, bg_sealed = True,
       bg_calls = [1 \<mapsto> \<lparr> bc_from = Some (1, ''m''), bc_stage = Answered (PendingId ''2'') \<rparr>, 2 \<mapsto> \<lparr> bc_from = None, bc_stage = Answered Done \<rparr>],
       bg_late = [], bg_documents = [1 \<mapsto> \<lparr> dc_tab = 7, dc_url = ''https://d.app/'', dc_waiting = Map.empty \<rparr>],
       bg_tabs = [7 \<mapsto> 1], bg_mail = [], bg_posted = [(1, ''m'', Result (JStr ''tb1p''))] \<rparr>"
  by (simp add: connectEvents_def sample_eval sampleConnected_def)

lemma sample_connect_possible: "allPossible sampleExtension [] connectEvents bgStart"
  by (simp add: connectEvents_def sample_eval)

lemma sample_account:
  "getAccountForOrigin ''https://d.app'' sampleConnected = (Some sampleAccount, None)" "st_network sampleConnected = Testnet4"
  "isSiteConnected ''https://d.app'' sampleConnected"
  "identityAddress sampleAccount Testnet4 = Some ''tb1p''" "wa_publicKeyHex sampleAccount = []" "wa_archAddress sampleAccount = None"
  "wa_kind sampleAccount = ExternalKind"
  by (simp_all add: sampleConnected_def connectSite_def connectedSite_def getAccountForOrigin_def accountById_def completeOnboarding_def
      DEFAULT_STATE_def sampleAccount_def filled_def newRequest_def isSiteConnected_def identityAddress_def resolveAccountAddresses_def
      detectBtcNetwork_def starts_with_def resolveFromRecords_def Let_def)

lemmas account_eval = accountEvents_def sample_fields bg_eval starts_with_def sample_account connectedNow_def networkNow_def

lemma sample_account_run:
  "bg_posted sampleEnd = [(1, ''m'', Result (JStr ''tb1p'')), (1, ''n'', Account ''tb1p'' [] None ExternalKind)]"
  "bg_vault sampleEnd = Some sampleConnected"
  by (simp_all add: sampleEnd_def sampleEvents_def bgEvents_append sample_connect_run account_eval)

lemma sample_possible: "allPossible sampleExtension [] sampleEvents bgStart"
  unfolding sampleEvents_def allPossible_append sample_connect_run
  by (intro conjI sample_connect_possible) (simp add: account_eval connectEvents_def)

lemma sample_runs: "bg_run sampleExtension (rev sampleEvents) sampleEnd"
  using bg_run_all [OF bg_run.begins sample_possible] by (simp add: sampleEnd_def)

subsection \<open>Consent\<close>

text \<open>
  C7. A page learns the result of a request (a signature, a transfer, a connection) only if this very document sent that
  request, the service worker drew an identifier for it, and the wallet's own interface approved exactly this identifier with
  exactly this result. Other pages, other extensions and a document that the tab has navigated away from learn nothing.
\<close>

theorem page_result_approved:
  assumes "bg_run X evs w" "(d, m, Result data) \<in> set (bg_posted w)"
  shows "\<exists>c t p title icon x c' s msg. PageSends c d m (ProviderMessage t p) title icon \<in> set evs \<and> Resume c x \<in> set evs
    \<and> OtherSends c' s msg \<in> set evs \<and> isInternalUiSender X s
    \<and> (msg = ApproveRequest (dr_id x) data \<or> (\<exists>a. msg = ApproveConnect a \<and> ap_requestId a = dr_id x \<and> ap_account a = data))"
proof -
  have "postedOk X evs d m (Result data)" using bg_run_inv [OF assms(1)] assms(2) by (auto simp: bgInv_def)
  then obtain i t origin where i: "made X evs i d m t origin" "approvedResult X evs i data" by (auto simp: postedOk_def)
  then show ?thesis unfolding made_def approvedResult_def uiSent_def by blast
qed

theorem page_result_approved_sample:
  "\<exists>c' s msg. OtherSends c' s msg \<in> set (rev sampleEvents) \<and> isInternalUiSender sampleExtension s"
  using page_result_approved [OF sample_runs, of 1 "''m''" "JStr ''tb1p''"] sample_account_run(1) by auto

text \<open>
  C8. A site is connected only by consent: whenever the wallet's state has a site connected, either the wallet's own pages wrote
  it there, or the interface approved a request to connect that a document of this very origin had sent. No message of a
  page, no restart, no interleaving of reads and writes connects another origin.
\<close>

theorem site_connected_by_approval:
  assumes "bg_run X evs w" "bg_vault w = Some s" "st_connectedSites s origin \<noteq> None"
  shows "(\<exists>s' b. OtherRealm (Some s') b \<in> set evs \<and> st_connectedSites s' origin \<noteq> None)
    \<or> (\<exists>a d m. uiSent X evs (ApproveConnect a) \<and> made X evs (ap_requestId a) d m CONNECT origin)"
  using vault_sites [OF bg_run_inv [OF assms(1)] assms(2)] assms(3) by (simp add: sitesOk_def granted_def)

theorem site_connected_by_approval_sample:
  "\<exists>a d m. uiSent sampleExtension (rev sampleEvents) (ApproveConnect a)
    \<and> made sampleExtension (rev sampleEvents) (ap_requestId a) d m CONNECT ''https://d.app''"
proof (rule disjE [OF site_connected_by_approval [OF sample_runs sample_account_run(2), of "''https://d.app''"]])
  show "st_connectedSites sampleConnected ''https://d.app'' \<noteq> None" by (simp add: sampleConnected_def connectSite_def)
  assume "\<exists>s' b. OtherRealm (Some s') b \<in> set (rev sampleEvents) \<and> st_connectedSites s' ''https://d.app'' \<noteq> None"
  then show ?thesis by (simp add: sampleEvents_def connectEvents_def accountEvents_def completeOnboarding_def DEFAULT_STATE_def)
qed

text \<open>
  C9. The account is shown, and a request to sign is queued, only for sites the user granted: a document that is told an address
  has the origin of a granted site, and so has every pending request other than one to connect.
\<close>

theorem account_only_for_granted:
  assumes "bg_run X evs w"
  shows "(\<forall>d m b k a kind. (d, m, Account b k a kind) \<in> set (bg_posted w) \<longrightarrow> (\<exists>origin. docOrigin X evs d origin \<and> granted X evs origin))
    \<and> (\<forall>i rq. bg_pending w i = Some rq \<and> pq_type rq \<noteq> CONNECT \<longrightarrow> granted X evs (pq_origin rq))"
proof -
  have inv: "bgInv X evs w" by (rule bg_run_inv [OF assms])
  have "postedOk X evs d m r" if "(d, m, r) \<in> set (bg_posted w)" for d m r using inv that by (auto simp: bgInv_def)
  moreover have "requestOk X evs rq" if "bg_pending w i = Some rq" for i rq using inv that by (simp add: bgInv_def mapOk_def)
  moreover have "postedOk X evs d m (Account b k a kind) \<Longrightarrow> knows X evs d" for d m b k a kind by (simp add: postedOk_def)
  ultimately show ?thesis unfolding knows_def requestOk_def by blast
qed

theorem account_only_for_granted_sample:
  "\<exists>origin. docOrigin sampleExtension (rev sampleEvents) 1 origin \<and> granted sampleExtension (rev sampleEvents) origin"
  using account_only_for_granted [OF sample_runs] sample_account_run(1) by auto

subsection \<open>What the store of pending requests loses\<close>

text \<open>Two handlers that store their requests at the same time: the first one's is gone, though its page was told to wait.\<close>

theorem concurrent_requests_lose_one:
  fixes X :: extension
  assumes "bg_calls w c = Some ca" "bg_calls w c' = Some ca'" "c \<noteq> c'" "bc_stage ca = StoreRead rq" "bc_stage ca' = StoreRead rq'"
    "pq_id rq \<noteq> pq_id rq'" "dr_ok x" "bg_pending w (pq_id rq) = None"
  defines "w' \<equiv> bgEvents X [Resume c x, Resume c' x, Resume c x, Resume c' x] w"
  shows "bg_pending w' (pq_id rq) = None \<and> bg_pending w' (pq_id rq') = Some rq'
    \<and> map_option bc_stage (bg_calls w' c) = Some (Answered (PendingId (pq_id rq)))"
  using assms by (simp add: bg_eval split: option.split)

text \<open>A request that is stored while another is rejected brings the rejected one back.\<close>

theorem rejected_comes_back:
  fixes X :: extension
  assumes "bg_calls w c = Some ca" "bg_calls w c' = Some ca'" "c \<noteq> c'" "bc_stage ca = StoreRead rq" "bc_stage ca' = RejectGet i reason []"
    "pq_id rq \<noteq> i" "dr_ok x" "bg_pending w i = Some old" "pq_sourceTabId old = Some t"
  defines "w' \<equiv> bgEvents X [Resume c' x, Resume c x, Resume c' x, Resume c' x, Resume c x] w"
  shows "bg_pending w' i = Some old \<and> ToTab t i (Failure reason) \<in> set (bg_mail w') \<and> map_option bc_stage (bg_calls w' c') = Some (Answered Done)"
  using assms by (simp add: bg_eval sweep_def split: option.split)

text \<open>
  The service worker forgets every pending request when it starts, those that the session storage was to carry over a restart too.
\<close>

theorem restart_forgets:
  assumes "dr_ok x"
  shows "bg_pending (bgEvents X [Boot c, Resume c x] w) = Map.empty"
  using assms by (simp add: bg_eval)

text \<open>The approval window that asks for its request before it was stored is told that there is none, and asks only once.\<close>

theorem window_asks_too_early:
  assumes "bg_calls w c = Some ca" "bc_stage ca = StoreRead rq" "bg_calls w c' = None" "c \<noteq> c'" "bg_pending w (pq_id rq) = None"
    "isInternalUiSender X s" "dr_ok x"
  defines "w' \<equiv> bgEvents X [OtherSends c' s (GetPendingRequest (pq_id rq)), Resume c' x, Resume c x, Resume c x] w"
  shows "map_option bc_stage (bg_calls w' c') = Some (Answered (Found None)) \<and> bg_pending w' (pq_id rq) = Some rq"
proof -
  have "onMessage X s (GetPendingRequest (pq_id rq)) = PendingGet (pq_id rq)"
    using assms(6) by (simp add: onMessage_def internalStage_def isInternalUiSender_def)
  then show ?thesis
    using assms(1-5,7) by (simp add: w'_def bgNewCall_def enter_def moveTo_def answer_def sendMail_def readAll_def writeAll_def split: option.split)
qed

end
