(* ===== verification/ProviderOnce.thy ===== *)
theory ProviderOnce
  imports ProviderRuns
begin

text \<open>
  A message of a page is answered at most once. It is always in one place: a handler that serves it, an answer under way, a
  request that its content script waits for, or the answer posted to the page; no step puts it in two.
\<close>

fun isLive :: "bg_stage \<Rightarrow> bool" where
  "isLive (Answered r) = False"
| "isLive Dead = False"
| "isLive st = True"

definition servesFor :: "nat \<Rightarrow> string \<Rightarrow> background \<Rightarrow> nat \<Rightarrow> bool" where
  "servesFor d m w c \<longleftrightarrow> (\<exists>ca. bg_calls w c = Some ca \<and> bc_from ca = Some (d, m) \<and> isLive (bc_stage ca))"

definition waitsFor :: "nat \<Rightarrow> string \<Rightarrow> background \<Rightarrow> string \<Rightarrow> bool" where
  "waitsFor d m w i \<longleftrightarrow> (\<exists>dc. bg_documents w d = Some dc \<and> dc_waiting dc i = Some m)"

fun replyTo :: "nat \<Rightarrow> string \<Rightarrow> mail \<Rightarrow> bool" where
  "replyTo d m (Reply d' m' r) = (d' = d \<and> m' = m)"
| "replyTo d m (ToTab t i r) = False"

definition replies :: "nat \<Rightarrow> string \<Rightarrow> background \<Rightarrow> nat" where
  "replies d m w = length (filter (replyTo d m) (bg_mail w))"

definition posts :: "nat \<Rightarrow> string \<Rightarrow> background \<Rightarrow> nat" where
  "posts d m w = length (filter (\<lambda>(d', m', r). d' = d \<and> m' = m) (bg_posted w))"

definition places :: "nat \<Rightarrow> string \<Rightarrow> background \<Rightarrow> nat" where
  "places d m w = (if \<exists>c. servesFor d m w c then 1 else 0) + replies d m w + (if \<exists>i. waitsFor d m w i then 1 else 0) + posts d m w"

definition onePlace :: "nat \<Rightarrow> string \<Rightarrow> background \<Rightarrow> bool" where
  "onePlace d m w \<longleftrightarrow>
     places d m w \<le> 1 \<and> (\<forall>c c'. servesFor d m w c \<longrightarrow> servesFor d m w c' \<longrightarrow> c = c') \<and> (\<forall>i j. waitsFor d m w i \<longrightarrow> waitsFor d m w j \<longrightarrow> i = j)"

text \<open>A step of the handler \<open>c\<close>: its stage, messages to tabs, and its reply when it is done.\<close>

definition stepOf :: "nat \<Rightarrow> bg_call \<Rightarrow> background \<Rightarrow> background \<Rightarrow> bool" where
  "stepOf c ca w w' \<longleftrightarrow>
     bg_documents w' = bg_documents w \<and> bg_posted w' = bg_posted w
     \<and> (\<exists>st tabs. bg_calls w' = (bg_calls w)(c \<mapsto> ca \<lparr> bc_stage := st \<rparr>) \<and> (\<forall>d m. filter (replyTo d m) tabs = [])
         \<and> bg_mail w' = bg_mail w @ tabs @ (case st of Answered r \<Rightarrow> (case bc_from ca of Some (d, m) \<Rightarrow> [Reply d m r] | None \<Rightarrow> []) | _ \<Rightarrow> []))"

definition frame :: "background \<Rightarrow> background \<Rightarrow> bool" where
  "frame w w' \<longleftrightarrow>
     bg_documents w' = bg_documents w \<and> bg_posted w' = bg_posted w \<and> bg_calls w' = bg_calls w
     \<and> (\<exists>tabs. (\<forall>d m. filter (replyTo d m) tabs = []) \<and> bg_mail w' = bg_mail w @ tabs)"

lemma frame_pieces:
  "frame w w" "frame w (writeAll x m w)" "frame w (w \<lparr> bg_vault := v \<rparr>)" "frame w (w \<lparr> bg_late := l \<rparr>)" "frame w (w \<lparr> bg_pending := q \<rparr>)"
  by (auto simp: frame_def writeAll_def intro: exI [of _ "[]"])

lemma frame_deliver: "frame w w' \<Longrightarrow> frame w (deliverResponseToTab t i r w')"
  by (auto simp: frame_def deliverResponseToTab_def sendMail_def split: option.split intro!: exI [of _ "_ @ [ToTab _ i r]"])

lemma step_move: "frame w w' \<Longrightarrow> (\<And>r. st \<noteq> Answered r) \<Longrightarrow> stepOf c ca w (moveTo c ca st w')"
  unfolding frame_def stepOf_def moveTo_def
  by (elim conjE exE, intro conjI, simp, simp, rule exI [of _ st]) (auto split: bg_stage.split)

lemma step_answer: "frame w w' \<Longrightarrow> stepOf c ca w (answer c ca r w')"
  unfolding frame_def stepOf_def answer_def moveTo_def sendMail_def
  by (elim conjE exE, intro conjI, simp split: option.split, simp split: option.split, rule exI [of _ "Answered r"])
    (auto split: option.split)

lemma step_sweep: "frame w w' \<Longrightarrow> stepOf c ca w (sweep c ca reason rest w')"
  by (auto simp: sweep_def intro: step_move step_answer split: list.split)

lemma step_resume: "isLive st \<Longrightarrow> (\<And>now. st \<noteq> ExpiredList now) \<Longrightarrow> (\<And>n. st \<noteq> WindowList n) \<Longrightarrow> stepOf c ca w (resumeCall c ca x st w)"
  by (cases st)
    (auto intro!: step_move step_answer step_sweep frame_deliver simp: frame_pieces split: option.split opened.split list.split prod.split)

lemma step_resumeList: "resumeList c ca x ids w = w \<or> stepOf c ca w (resumeList c ca x ids w) \<and> isLive (bc_stage ca)"
  by (auto simp: resumeList_def Let_def frame_pieces intro: step_sweep split: bg_stage.split)

lemma places_same:
  assumes "\<And>c. servesFor d m w' c \<longleftrightarrow> servesFor d m w c" "replies d m w' = replies d m w" "\<And>i. waitsFor d m w' i \<longleftrightarrow> waitsFor d m w i"
    "posts d m w' = posts d m w"
  shows "places d m w' = places d m w" "onePlace d m w \<Longrightarrow> onePlace d m w'"
  using assms by (simp_all add: places_def onePlace_def)

lemma stepOf_facts:
  assumes "stepOf c ca w w'"
  obtains st where "\<And>i. waitsFor d m w' i \<longleftrightarrow> waitsFor d m w i" "posts d m w' = posts d m w"
    "\<And>c'. servesFor d m w' c' \<longleftrightarrow> (if c' = c then bc_from ca = Some (d, m) \<and> isLive st else servesFor d m w c')"
    "replies d m w' = replies d m w + (if bc_from ca = Some (d, m) \<and> (\<exists>r. st = Answered r) then 1 else 0)"
proof -
  obtain st tabs where f: "bg_documents w' = bg_documents w" "bg_posted w' = bg_posted w"
    "bg_calls w' = (bg_calls w)(c \<mapsto> ca \<lparr> bc_stage := st \<rparr>)" "\<And>d m. filter (replyTo d m) tabs = []"
    "bg_mail w' = bg_mail w @ tabs @ (case st of Answered r \<Rightarrow> (case bc_from ca of Some (d, m) \<Rightarrow> [Reply d m r] | None \<Rightarrow> []) | _ \<Rightarrow> [])"
    using assms unfolding stepOf_def by blast
  show thesis
    by (rule that [of st]) (auto simp: waitsFor_def posts_def servesFor_def replies_def f split: bg_stage.split option.split)
qed

lemma step_places:
  assumes step: "stepOf c ca w w'" and one: "onePlace d m w"
    and c: "bg_calls w c = Some ca \<and> isLive (bc_stage ca) \<or> bg_calls w c = None \<and> (bc_from ca = Some (d, m) \<longrightarrow> places d m w = 0)"
  shows "onePlace d m w'" "0 < places d m w' \<Longrightarrow> 0 < places d m w \<or> bc_from ca = Some (d, m)"
proof -
  obtain st where waits: "\<And>i. waitsFor d m w' i \<longleftrightarrow> waitsFor d m w i" and posts: "posts d m w' = posts d m w"
    and serves: "\<And>c'. servesFor d m w' c' \<longleftrightarrow> (if c' = c then bc_from ca = Some (d, m) \<and> isLive st else servesFor d m w c')"
    and reply: "replies d m w' = replies d m w + (if bc_from ca = Some (d, m) \<and> (\<exists>r. st = Answered r) then 1 else 0)"
    using stepOf_facts [OF step, of d m] by metis
  have "onePlace d m w' \<and> (0 < places d m w' \<longrightarrow> 0 < places d m w \<or> bc_from ca = Some (d, m))"
  proof (cases "bc_from ca = Some (d, m)")
    case False
    then have "servesFor d m w' c' \<longleftrightarrow> servesFor d m w c'" for c' using c serves by (auto simp: servesFor_def)
    then show ?thesis using places_same [of d m w' w] one waits posts reply False by auto
  next
    case True
    have none: "\<not> servesFor d m w c'" if "c' \<noteq> c" for c'
      using c
    proof
      assume "bg_calls w c = Some ca \<and> isLive (bc_stage ca)"
      then have "servesFor d m w c" using True by (simp add: servesFor_def)
      then show ?thesis using one that by (auto simp: onePlace_def)
    qed (use True in \<open>auto simp: places_def split: if_splits\<close>)
    have empty: "replies d m w = 0 \<and> posts d m w = 0 \<and> (\<forall>i. \<not> waitsFor d m w i)"
      using c
    proof
      assume "bg_calls w c = Some ca \<and> isLive (bc_stage ca)"
      then have "servesFor d m w c" using True by (simp add: servesFor_def)
      then show ?thesis using one by (auto simp: onePlace_def places_def split: if_splits)
    qed (use True in \<open>auto simp: places_def split: if_splits\<close>)
    have "\<not> (isLive st \<and> (\<exists>r. st = Answered r))" by auto
    then have "places d m w' \<le> 1" using empty none serves waits posts reply True by (auto simp: places_def)
    moreover have "servesFor d m w' c' \<Longrightarrow> c' = c" for c' using none serves by (auto split: if_splits)
    ultimately show ?thesis using True empty waits by (auto simp: onePlace_def)
  qed
  then show "onePlace d m w'" "0 < places d m w' \<Longrightarrow> 0 < places d m w \<or> bc_from ca = Some (d, m)" by auto
qed

text \<open>An arriving answer is posted or waited for; an arriving result is posted instead of being waited for.\<close>

lemma filter_removeNth: "n < length xs \<Longrightarrow> length (filter p xs) = length (filter p (removeNth n xs)) + (if p (xs ! n) then 1 else 0)"
proof -
  assume n: "n < length xs"
  then have "filter p xs = filter p (take n xs) @ filter p (xs ! n # drop (Suc n) xs)" by (metis filter_append id_take_nth_drop)
  then show ?thesis by (simp add: removeNth_def)
qed

lemma posts_post: "posts d m (postToPage d' m' r w) = posts d m w + (if d' = d \<and> m' = m then 1 else 0)"
  by (auto simp: posts_def postToPage_def)

lemma post_keeps: "servesFor d m (postToPage d' m' r w) = servesFor d m w" "replies d m (postToPage d' m' r w) = replies d m w"
  "waitsFor d m (postToPage d' m' r w) = waitsFor d m w"
  by (auto simp: servesFor_def replies_def waitsFor_def postToPage_def)

lemma waiting_keeps: "servesFor d m (setWaiting d' dc i q w) = servesFor d m w" "replies d m (setWaiting d' dc i q w) = replies d m w"
  "posts d m (setWaiting d' dc i q w) = posts d m w"
  by (auto simp: servesFor_def replies_def posts_def setWaiting_def)

lemma waiting_waits: "bg_documents w d' = Some dc \<Longrightarrow>
    waitsFor d m (setWaiting d' dc i q w) j \<longleftrightarrow> (if d = d' \<and> j = i then q = Some m else waitsFor d m w j)"
  by (auto simp: waitsFor_def setWaiting_def)

lemma fewer_places:
  assumes "onePlace d m w" "servesFor d m w' = servesFor d m w" "replies d m w' \<le> replies d m w" "\<And>i. waitsFor d m w' i \<Longrightarrow> waitsFor d m w i"
    "posts d m w' = posts d m w"
  shows "onePlace d m w' \<and> places d m w' \<le> places d m w"
  using assms by (auto simp: onePlace_def places_def split: if_splits)

lemma reply_moved:
  assumes one: "onePlace d m w" and n: "n < length (bg_mail w)" and r: "bg_mail w ! n = Reply d m r"
    and w': "w' = w \<lparr> bg_mail := removeNth n (bg_mail w) \<rparr>"
  shows "\<not> servesFor d m w' c" "replies d m w' = 0" "\<not> waitsFor d m w' i" "posts d m w' = 0" "places d m w = 1"
proof -
  have "replies d m w = Suc (replies d m w')" using filter_removeNth [OF n, of "replyTo d m"] r by (simp add: replies_def w')
  then have "\<not> (\<exists>c. servesFor d m w c) \<and> replies d m w' = 0 \<and> \<not> (\<exists>i. waitsFor d m w i) \<and> posts d m w = 0 \<and> places d m w = 1"
    using one by (auto simp: onePlace_def places_def split: if_splits)
  moreover have "servesFor d m w' = servesFor d m w" "waitsFor d m w' = waitsFor d m w" "posts d m w' = posts d m w"
    by (auto simp: w' servesFor_def waitsFor_def posts_def)
  ultimately show "\<not> servesFor d m w' c" "replies d m w' = 0" "\<not> waitsFor d m w' i" "posts d m w' = 0" "places d m w = 1" by auto
qed

lemma reply_arrives:
  assumes one: "onePlace d m w" and n: "n < length (bg_mail w)" and r: "bg_mail w ! n = Reply d' m' r"
    and w': "w' = w \<lparr> bg_mail := removeNth n (bg_mail w) \<rparr>"
  shows "onePlace d m (arrive (Reply d' m' r) w') \<and> places d m (arrive (Reply d' m' r) w') \<le> places d m w"
proof (cases "d' = d \<and> m' = m")
  case True
  note moved = reply_moved [OF one n, of r w'] w'
  have e: "\<And>c. \<not> servesFor d m w' c" "replies d m w' = 0" "\<And>i. \<not> waitsFor d m w' i" "posts d m w' = 0" "places d m w = 1"
    using moved r True by blast+
  have "onePlace d m (setWaiting d dc i (Some m) w')" if "bg_documents w' d = Some dc" for dc i
    using e by (auto simp: onePlace_def places_def waiting_keeps waiting_waits [OF that] split: if_splits)
  moreover have "places d m (setWaiting d dc i (Some m) w') \<le> 1" if "bg_documents w' d = Some dc" for dc i
    using e by (auto simp: places_def waiting_keeps waiting_waits [OF that])
  moreover have "onePlace d m (postToPage d m r w')" "places d m (postToPage d m r w') \<le> 1"
    using e by (auto simp: onePlace_def places_def post_keeps posts_post)
  moreover have "onePlace d m w'" "places d m w' \<le> 1" using e by (auto simp: onePlace_def places_def)
  ultimately show ?thesis
    using e(5) True by (auto simp: arrive_def dest: currentDocument_known split: option.split response.split)
next
  case False
  then have "replies d m w' = replies d m w" using filter_removeNth [OF n, of "replyTo d m"] r by (simp add: replies_def w')
  moreover have "servesFor d m w' = servesFor d m w" "waitsFor d m w' = waitsFor d m w" "posts d m w' = posts d m w"
    by (auto simp: w' servesFor_def waitsFor_def posts_def)
  note same = calculation this
  have "onePlace d m (postToPage d' m' q w') \<and> places d m (postToPage d' m' q w') \<le> places d m w" for q
    using False same by (intro fewer_places [OF one]) (auto simp: post_keeps posts_post)
  moreover have "onePlace d m (setWaiting d' dc i (Some m') w') \<and> places d m (setWaiting d' dc i (Some m') w') \<le> places d m w"
    if "bg_documents w' d' = Some dc" for dc i
    using False same by (intro fewer_places [OF one]) (auto simp: waiting_keeps waiting_waits [OF that] split: if_splits)
  moreover have "onePlace d m w' \<and> places d m w' \<le> places d m w" using same by (intro fewer_places [OF one]) auto
  ultimately show ?thesis by (auto simp: arrive_def dest: currentDocument_known split: option.split response.split)
qed

lemma result_arrives:
  assumes one: "onePlace d m w" and n: "n < length (bg_mail w)" and r: "bg_mail w ! n = ToTab t i r"
    and w': "w' = w \<lparr> bg_mail := removeNth n (bg_mail w) \<rparr>"
  shows "onePlace d m (arrive (ToTab t i r) w') \<and> places d m (arrive (ToTab t i r) w') \<le> places d m w"
proof -
  have same: "servesFor d m w' = servesFor d m w" "waitsFor d m w' = waitsFor d m w" "posts d m w' = posts d m w"
    by (auto simp: w' servesFor_def waitsFor_def posts_def)
  have "replies d m w' = replies d m w" using filter_removeNth [OF n, of "replyTo d m"] r by (simp add: replies_def w')
  note same = same this
  have one': "onePlace d m w'" "places d m w' = places d m w" using places_same [of d m w' w] same one by auto
  show ?thesis
  proof (cases "\<exists>d' dc m'. bg_tabs w' t = Some d' \<and> bg_documents w' d' = Some dc \<and> dc_waiting dc i = Some m'")
    case False
    then have "arrive (ToTab t i r) w' = w'" by (auto simp: arrive_def split: option.split)
    then show ?thesis using one' by simp
  next
    case True
    then obtain d' dc m' where d': "bg_tabs w' t = Some d'" "bg_documents w' d' = Some dc" "dc_waiting dc i = Some m'" by blast
    have a: "arrive (ToTab t i r) w' = postToPage d' m' r (setWaiting d' dc i None w')" by (simp add: arrive_def d')
    show ?thesis
    proof (cases "d' = d \<and> m' = m")
      case True
      then have "waitsFor d m w' i" using d' by (simp add: waitsFor_def)
      then have e: "\<And>c. \<not> servesFor d m w' c" "replies d m w' = 0" "\<And>j. waitsFor d m w' j \<Longrightarrow> j = i" "posts d m w' = 0" "places d m w' = 1"
        using one'(1) by (auto simp: onePlace_def places_def split: if_splits)
      have "\<not> waitsFor d m (setWaiting d' dc i None w') j" for j using e(3) [of j] True unfolding waiting_waits [OF d'(2)] by (auto split: if_splits)
      then have "onePlace d m (arrive (ToTab t i r) w') \<and> places d m (arrive (ToTab t i r) w') \<le> 1"
        using True e(1,2,4) unfolding a by (auto simp: onePlace_def places_def post_keeps posts_post waiting_keeps)
      then show ?thesis using e(5) one'(2) by simp
    next
      case False
      then have "onePlace d m (arrive (ToTab t i r) w') \<and> places d m (arrive (ToTab t i r) w') \<le> places d m w'"
        unfolding a
        by (intro fewer_places [OF one'(1)], unfold post_keeps posts_post waiting_keeps waiting_waits [OF d'(2)])
          (use False in \<open>auto split: if_splits\<close>)
      then show ?thesis using one'(2) by simp
    qed
  qed
qed

subsection \<open>Along a run\<close>

definition sends :: "bg_event list \<Rightarrow> (nat \<times> string) list" where
  "sends evs = concat (map (\<lambda>e. case e of PageSends c d m msg title icon \<Rightarrow> [(d, m)] | _ \<Rightarrow> []) evs)"

definition onceInv :: "bg_event list \<Rightarrow> background \<Rightarrow> bool" where
  "onceInv evs w \<longleftrightarrow>
     (\<forall>d m. onePlace d m w \<and> (0 < places d m w \<longrightarrow> (d, m) \<in> set (sends evs)))"

lemma new_stepOf: "stepOf c \<lparr> bc_from = from, bc_stage = Dead \<rparr> w (bgNewCall c from st w)"
  unfolding bgNewCall_def enter_def by (auto intro!: step_answer step_move frame_pieces split: bg_stage.split)

lemma once_newCall:
  assumes "onceInv evs w" "bg_calls w c = None" "\<And>d m. from = Some (d, m) \<Longrightarrow> (d, m) \<notin> set (sends evs) \<and> (d, m) \<in> set (sends evs')"
    "set (sends evs) \<subseteq> set (sends evs')"
  shows "onceInv evs' (bgNewCall c from st w)"
proof -
  have "onePlace d m (bgNewCall c from st w) \<and> (0 < places d m (bgNewCall c from st w) \<longrightarrow> (d, m) \<in> set (sends evs'))" for d m
  proof -
    have one: "onePlace d m w" "0 < places d m w \<longrightarrow> (d, m) \<in> set (sends evs)" "from = Some (d, m) \<longrightarrow> places d m w = 0 \<and> (d, m) \<in> set (sends evs')"
      using assms(1,3) by (auto simp: onceInv_def)
    have "onePlace d m (bgNewCall c from st w)" by (rule step_places(1) [OF new_stepOf one(1)]) (use assms(2) one(3) in simp)
    moreover have "0 < places d m w \<or> from = Some (d, m)" if "0 < places d m (bgNewCall c from st w)"
      using step_places(2) [OF new_stepOf one(1) _ that] assms(2) one(3) by simp
    ultimately show ?thesis using one(2,3) assms(4) by blast
  qed
  then show ?thesis by (simp add: onceInv_def)
qed

lemma once_same: "onceInv evs w \<Longrightarrow> set (sends evs) \<subseteq> set (sends evs') \<Longrightarrow>
    (\<And>d m. onePlace d m w \<Longrightarrow> onePlace d m w' \<and> places d m w' \<le> places d m w) \<Longrightarrow> onceInv evs' w'"
  unfolding onceInv_def by (meson less_le_trans subsetD)

lemma sends_Cons: "set (sends evs) \<subseteq> set (sends (e # evs))"
  by (auto simp: sends_def)

lemma resume_idle: "\<not> isLive st \<or> (\<exists>now. st = ExpiredList now) \<or> (\<exists>n. st = WindowList n) \<Longrightarrow> resumeCall c ca x st w = w"
  by (cases st) auto

lemma once_step:
  assumes "onceInv evs w" "stepOf c ca w w'" "bg_calls w c = Some ca" "isLive (bc_stage ca)"
  shows "onceInv (e # evs) w'"
  unfolding onceInv_def
proof (intro allI)
  fix d m
  have one: "onePlace d m w" "0 < places d m w \<longrightarrow> (d, m) \<in> set (sends evs)" using assms(1) by (simp_all add: onceInv_def)
  have "0 < places d m w" if "bc_from ca = Some (d, m)" using assms(3,4) that by (auto simp: places_def servesFor_def)
  then show "onePlace d m w' \<and> (0 < places d m w' \<longrightarrow> (d, m) \<in> set (sends (e # evs)))"
    using step_places [OF assms(2), of d m] one assms(3,4) sends_Cons [of evs e] by blast
qed

lemma once_internal: "onceInv evs w \<Longrightarrow> bg_calls w c = None \<Longrightarrow> onceInv (e # evs) (bgNewCall c None st w)"
  by (rule once_newCall [OF _ _ _ sends_Cons]) auto

lemma once_boot: "onceInv evs w \<Longrightarrow> onceInv evs (w \<lparr> bg_calls := (\<lambda>i. map_option (\<lambda>ca. ca \<lparr> bc_stage := Dead \<rparr>) (bg_calls w i)), bg_late := [] \<rparr>)"
proof (erule once_same [OF _ subset_refl])
  fix d m assume one: "onePlace d m w"
  define w' where "w' = w \<lparr> bg_calls := (\<lambda>i. map_option (\<lambda>ca. ca \<lparr> bc_stage := Dead \<rparr>) (bg_calls w i)), bg_late := [] \<rparr>"
  have "\<not> servesFor d m w' c" "replies d m w' = replies d m w" "waitsFor d m w' = waitsFor d m w" "posts d m w' = posts d m w" for c
    by (auto simp: w'_def servesFor_def replies_def waitsFor_def posts_def)
  then show "onePlace d m w' \<and> places d m w' \<le> places d m w" using one by (auto simp: onePlace_def places_def split: if_splits)
qed

lemma once_event:
  assumes "onceInv evs w" "possible X evs w e" "distinct (sends (e # evs))"
  shows "onceInv (e # evs) (bgEvent X e w)"
proof (cases e)
  case (PageSends c d m msg title icon)
  then obtain dc where dc: "currentDocument d w = Some dc" using assms(2) by auto
  have "bg_calls w c = None" using assms(2) by (simp add: PageSends)
  moreover have "(d, m) \<notin> set (sends evs)" "(d, m) \<in> set (sends (e # evs))" using assms(3) by (auto simp: PageSends sends_def)
  ultimately have "onceInv (e # evs) (bgNewCall c (Some (d, m)) (onMessage X (pageSender X dc title icon) msg) w)"
    by (intro once_newCall [OF assms(1) _ _ sends_Cons]) auto
  then show ?thesis by (simp add: PageSends dc)
next
  case (Resume c x)
  show ?thesis
  proof (cases "bg_calls w c")
    case (Some ca)
    show ?thesis
      using once_step [OF assms(1) step_resume [of _ c ca w x] Some] resume_idle [of "bc_stage ca" c ca x w] once_same [OF assms(1) sends_Cons]
      by (cases "isLive (bc_stage ca) \<and> (\<forall>now. bc_stage ca \<noteq> ExpiredList now) \<and> (\<forall>n. bc_stage ca \<noteq> WindowList n)") (auto simp: Resume Some)
  qed (simp add: Resume once_same [OF assms(1) sends_Cons])
next
  case (ResumeList c x ids)
  show ?thesis
  proof (cases "bg_calls w c")
    case (Some ca)
    then show ?thesis
      using once_step [OF assms(1) _ Some] step_resumeList [of c ca x ids w] once_same [OF assms(1) sends_Cons] by (auto simp: ResumeList)
  qed (simp add: ResumeList once_same [OF assms(1) sends_Cons])
next
  case (Boot c)
  show ?thesis unfolding Boot bgEvent.simps using assms(2) by (intro once_internal once_boot assms(1)) (simp add: Boot)
next
  case (Navigate d t url)
  show ?thesis
  proof (rule once_same [OF assms(1) sends_Cons])
    fix d' m assume "onePlace d' m w"
    then show "onePlace d' m (bgEvent X e w) \<and> places d' m (bgEvent X e w) \<le> places d' m w"
      by (rule fewer_places) (use assms(2) in \<open>auto simp: Navigate servesFor_def replies_def waitsFor_def posts_def split: if_splits\<close>)
  qed
next
  case (Arrive n)
  show ?thesis
  proof (rule once_same [OF assms(1) sends_Cons])
    fix d m assume one: "onePlace d m w"
    then show "onePlace d m (bgEvent X e w) \<and> places d m (bgEvent X e w) \<le> places d m w"
      using reply_arrives [OF one _ _ refl] result_arrives [OF one _ _ refl] by (cases "bg_mail w ! n") (auto simp: Arrive)
  qed
next
  case (LateWrite n)
  show ?thesis
  proof (rule once_same [OF assms(1) sends_Cons])
    fix d m assume "onePlace d m w"
    then show "onePlace d m (bgEvent X e w) \<and> places d m (bgEvent X e w) \<le> places d m w"
      by (rule fewer_places) (auto simp: LateWrite servesFor_def replies_def waitsFor_def posts_def split: if_splits)
  qed
next
  case (OtherRealm v b)
  show ?thesis
  proof (rule once_same [OF assms(1) sends_Cons])
    fix d m assume "onePlace d m w"
    then show "onePlace d m (bgEvent X e w) \<and> places d m (bgEvent X e w) \<le> places d m w"
      by (rule fewer_places) (auto simp: OtherRealm servesFor_def replies_def waitsFor_def posts_def)
  qed
qed (use assms in \<open>simp_all add: once_internal\<close>)

text \<open>
  C10. A page gets at most one answer to a message: whatever handlers, approvals of one request in several windows, sweeps, restarts
  and late deliveries interleave, a message that a document sent once is answered to it at most once.
\<close>

theorem page_answered_once:
  assumes "bg_run X evs w" "distinct (sends evs)"
  shows "length (filter (\<lambda>(d', m', r). d' = d \<and> m' = m) (bg_posted w)) \<le> 1"
proof -
  have "onceInv evs w"
    using assms
  proof (induction rule: bg_run.induct)
    case begins
    show ?case by (simp add: onceInv_def onePlace_def places_def servesFor_def waitsFor_def replies_def posts_def bgStart_def)
  next
    case (happens evs w e)
    then have "onceInv evs w" by (auto simp: sends_def)
    then show ?case using happens.hyps(2) happens.prems by (rule once_event)
  qed
  then have "places d m w \<le> 1" by (simp add: onceInv_def onePlace_def)
  then show ?thesis by (simp add: places_def posts_def)
qed

theorem page_answered_once_sample:
  "length (filter (\<lambda>(d', m', r). d' = 1 \<and> m' = ''m'') (bg_posted sampleEnd)) \<le> 1"
  by (rule page_answered_once [OF sample_runs]) (simp add: sends_def sampleEvents_def connectEvents_def accountEvents_def)

end
