(* ===== verification/Base64.thy ===== *)
theory Base64
  imports JsStrings
begin

text \<open>
  Base64 of Node's \<open>Buffer\<close>: \<open>toString("base64url")\<close>, which writes no padding, and \<open>Buffer.from(s, "base64")\<close>, which reads
  both alphabets up to the first \<open>=\<close> and skips what belongs to neither.
\<close>

definition BASE64_URL :: string where
  "BASE64_URL = ''ABCDEFGHIJKLMNOPQRSTUVWXYZabcdefghijklmnopqrstuvwxyz0123456789-_''"

definition base64Value :: "char \<Rightarrow> nat option" where
  "base64Value c = (if c = CHR ''+'' then Some 62 else if c = CHR ''/'' then Some 63 else index_of BASE64_URL c)"

definition base64Char :: "nat \<Rightarrow> char" where
  "base64Char n = BASE64_URL ! n"

fun sextets :: "byte list \<Rightarrow> nat list" where
  "sextets [] = []"
| "sextets [a] = [unat a div 4, unat a mod 4 * 16]"
| "sextets [a, b] = [unat a div 4, unat a mod 4 * 16 + unat b div 16, unat b mod 16 * 4]"
| "sextets (a # b # c # rest) =
     [unat a div 4, unat a mod 4 * 16 + unat b div 16, unat b mod 16 * 4 + unat c div 64, unat c mod 64] @ sextets rest"

definition base64url :: "byte list \<Rightarrow> string" where
  "base64url bytes = map base64Char (sextets bytes)"

fun octets :: "nat list \<Rightarrow> byte list" where
  "octets [] = []"
| "octets [p] = []"
| "octets [p, q] = [word_of_nat (p * 4 + q div 16)]"
| "octets [p, q, r] = [word_of_nat (p * 4 + q div 16), word_of_nat (q mod 16 * 16 + r div 4)]"
| "octets (p # q # r # s # rest) =
     [word_of_nat (p * 4 + q div 16), word_of_nat (q mod 16 * 16 + r div 4), word_of_nat (r mod 4 * 64 + s)] @ octets rest"

definition bufferFromBase64 :: "string \<Rightarrow> byte list" where
  "bufferFromBase64 s = octets (List.map_filter base64Value (takeWhile (\<lambda>c. c \<noteq> CHR ''='') s))"

text \<open>\<open>base64UrlDecode\<close> of \<open>auth/oidc.ts\<close>: the other alphabet, padded.\<close>

definition base64UrlDecode :: "string \<Rightarrow> byte list" where
  "base64UrlDecode input =
     (let padded = map (\<lambda>c. if c = CHR ''-'' then CHR ''+'' else if c = CHR ''_'' then CHR ''/'' else c) input
      in bufferFromBase64 (padded @ replicate ((4 - length padded mod 4) mod 4) (CHR ''='')))"

subsection \<open>Round trip\<close>

lemma BASE64_facts: "distinct BASE64_URL" "length BASE64_URL = 64"
  by (simp_all add: BASE64_URL_def)

lemma base64_letters: "CHR ''+'' \<notin> set BASE64_URL" "CHR ''/'' \<notin> set BASE64_URL" "CHR ''='' \<notin> set BASE64_URL" "CHR ''.'' \<notin> set BASE64_URL"
  by (simp_all add: BASE64_URL_def)

lemma base64Char_in: "n < 64 \<Longrightarrow> base64Char n \<in> set BASE64_URL"
  using BASE64_facts by (simp add: base64Char_def)

lemma base64Value_Char [simp]: "n < 64 \<Longrightarrow> base64Value (base64Char n) = Some n"
proof -
  assume n: "n < 64"
  then have "base64Char n \<noteq> CHR ''+''" "base64Char n \<noteq> CHR ''/''" using base64Char_in [OF n] base64_letters by metis+
  moreover have "index_of BASE64_URL (base64Char n) = Some n" using n BASE64_facts by (simp add: base64Char_def index_of_nth)
  ultimately show ?thesis by (simp add: base64Value_def)
qed

lemma byte_bound: "unat (a :: byte) < 256"
  using unsigned_less [of a] by simp

lemma word_of_nat_unat_byte: "word_of_nat (unat (a :: byte)) = a"
  by simp

lemma quarter: "n < 256 \<Longrightarrow> n div 4 < (64 :: nat)" "n mod 4 < (4 :: nat)" "n < 256 \<Longrightarrow> n div 16 < (16 :: nat)"
    "n mod 16 < (16 :: nat)" "n < 256 \<Longrightarrow> n div 64 < (4 :: nat)" "n mod 64 < (64 :: nat)"
  by (simp_all add: less_mult_imp_div_less)

lemma packed: "x < 4 \<Longrightarrow> y < 16 \<Longrightarrow> x * 16 + y < (64 :: nat)" "x < 16 \<Longrightarrow> y < 4 \<Longrightarrow> x * 4 + y < (64 :: nat)"
    "x < 4 \<Longrightarrow> x * 16 < (64 :: nat)" "x < 16 \<Longrightarrow> x * 4 < (64 :: nat)"
  by simp_all

lemma sextets_bound: "n \<in> set (sextets bytes) \<Longrightarrow> n < 64"
  by (induction bytes rule: sextets.induct) (auto simp: packed quarter byte_bound)

lemma joined:
  fixes a b :: byte
  shows "word_of_nat (unat a div 4 * 4 + (unat a mod 4 * 16 + unat b div 16) div 16) = a"
    and "word_of_nat (unat a div 4 * 4 + unat a mod 4 * 16 div 16) = a"
    and "word_of_nat ((unat a mod 4 * 16 + unat b div 16) mod 16 * 16 + unat b mod 16 * 4 div 4) = b"
    and "word_of_nat ((unat a mod 4 * 16 + unat b div 16) mod 16 * 16 + (unat b mod 16 * 4 + unat c div 64) div 4) = b"
    and "word_of_nat ((unat b mod 16 * 4 + unat c div 64) mod 4 * 64 + unat c mod 64) = (c :: byte)"
proof -
  have d: "(unat a mod 4 * 16 + unat b div 16) div 16 = unat a mod 4" "(unat a mod 4 * 16 + unat b div 16) mod 16 = unat b div 16"
    using quarter(3) [of "unat b"] byte_bound [of b] by simp_all
  have e: "(unat b mod 16 * 4 + unat c div 64) div 4 = unat b mod 16" "(unat b mod 16 * 4 + unat c div 64) mod 4 = unat c div 64"
    using quarter(5) [of "unat c"] byte_bound [of c] by simp_all
  have n: "unat a div 4 * 4 + unat a mod 4 = unat a" "unat b div 16 * 16 + unat b mod 16 = unat b" "unat c div 64 * 64 + unat c mod 64 = unat c"
    by (simp_all only: div_mult_mod_eq)
  show "word_of_nat (unat a div 4 * 4 + (unat a mod 4 * 16 + unat b div 16) div 16) = a"
    and "word_of_nat (unat a div 4 * 4 + unat a mod 4 * 16 div 16) = a"
    and "word_of_nat ((unat a mod 4 * 16 + unat b div 16) mod 16 * 16 + unat b mod 16 * 4 div 4) = b"
    and "word_of_nat ((unat a mod 4 * 16 + unat b div 16) mod 16 * 16 + (unat b mod 16 * 4 + unat c div 64) div 4) = b"
    and "word_of_nat ((unat b mod 16 * 4 + unat c div 64) mod 4 * 64 + unat c mod 64) = c"
    by (simp_all only: d e n nonzero_mult_div_cancel_right word_of_nat_unat_byte)
qed

lemma octets_sextets: "octets (sextets bytes) = bytes"
  by (induction bytes rule: sextets.induct)
    (simp_all only: sextets.simps octets.simps append_Cons append_Nil joined)

lemma base64url_letters: "set (base64url bytes) \<subseteq> set BASE64_URL"
  using base64Char_in sextets_bound by (fastforce simp: base64url_def)

lemma values_base64url: "List.map_filter base64Value (base64url bytes) = sextets bytes"
proof -
  have "\<forall>n\<in>set ns. n < 64 \<Longrightarrow> List.map_filter base64Value (map base64Char ns) = ns" for ns
    by (induction ns) (simp_all add: List.map_filter_simps)
  then show ?thesis using sextets_bound by (simp add: base64url_def)
qed

lemma base64url_roundtrip: "bufferFromBase64 (base64url bytes) = bytes"
proof -
  have "CHR ''='' \<notin> set (base64url bytes)" using base64url_letters base64_letters(3) by blast
  then have all: "takeWhile (\<lambda>c. c \<noteq> CHR ''='') (base64url bytes) = base64url bytes" by (simp add: takeWhile_eq_all_conv) blast
  show ?thesis unfolding bufferFromBase64_def all values_base64url by (rule octets_sextets)
qed

lemma base64url_no_dot: "CHR ''.'' \<notin> set (base64url bytes)"
  using base64url_letters base64_letters(4) by blast

lemma sextets_Nil: "sextets bytes = [] \<longleftrightarrow> bytes = []"
  by (cases bytes rule: sextets.cases) simp_all

lemma base64url_Nil: "base64url bytes = [] \<longleftrightarrow> bytes = []"
  by (simp add: base64url_def sextets_Nil)

text \<open>A text whose length leaves two over decodes as it does with one more \<open>=\<close>.\<close>

lemma base64UrlDecode_padded: "length s mod 4 = 2 \<Longrightarrow> base64UrlDecode (s @ ''='') = base64UrlDecode s"
proof -
  assume len: "length s mod 4 = 2"
  have "Suc (length s) mod 4 = 3" using len by presburger
  then show ?thesis using len by (simp add: base64UrlDecode_def Let_def numeral_2_eq_2)
qed

end
