(* ===== verification/Oidc.thy ===== *)
theory Oidc
  imports Base64 HubAuth
begin

text \<open>
  Verification of an OIDC id token (\<open>services/wallet-hub-api/src/auth/oidc.ts\<close>). \<open>JSON.parse\<close>, \<open>crypto.verify\<close>, SHA-256 and
  the answer of the issuer's key server are parameters; numbers of the token are integers.
\<close>

datatype oidc_code = Malformed | UnsupportedAlg | UnknownKey | BadSignature | BadIssuer | BadAudience | Expired | NotYetValid | BadNonce
  | JwksUnavailable

fun code_text :: "oidc_code \<Rightarrow> string" where
  "code_text Malformed = ''malformed''"
| "code_text UnsupportedAlg = ''unsupported_alg''"
| "code_text UnknownKey = ''unknown_key''"
| "code_text BadSignature = ''bad_signature''"
| "code_text BadIssuer = ''bad_issuer''"
| "code_text BadAudience = ''bad_audience''"
| "code_text Expired = ''expired''"
| "code_text NotYetValid = ''not_yet_valid''"
| "code_text BadNonce = ''bad_nonce''"
| "code_text JwksUnavailable = ''jwks_unavailable''"

text \<open>\<open>ol_verify alg jwk input signature\<close> is \<open>None\<close> when \<open>createPublicKey\<close> or \<open>verify\<close> throws.\<close>

record oidc_libs =
  ol_parse :: "byte list \<Rightarrow> json option"
  ol_verify :: "string \<Rightarrow> json \<Rightarrow> string \<Rightarrow> byte list \<Rightarrow> bool option"
  ol_sha256 :: "string \<Rightarrow> string"

record oidc_config =
  oc_provider :: string
  oc_issuers :: "string list"
  oc_jwksUrl :: string
  oc_clientIds :: "string list"

record oidc_claims =
  cm_provider :: string
  cm_issuer :: string
  cm_subject :: string
  cm_audience :: string
  cm_email :: "string option"
  cm_emailVerified :: bool
  cm_name :: "string option"
  cm_expiresAt :: int
  cm_tokenHash :: string

definition JWKS_TTL_MS :: int where "JWKS_TTL_MS = 6 * 60 * 60 * 1000"
definition CLOCK_SKEW_MS :: int where "CLOCK_SKEW_MS = 2 * 60 * 1000"

definition GOOGLE_PROVIDER :: "string list \<Rightarrow> oidc_config" where
  "GOOGLE_PROVIDER clientIds =
     \<lparr> oc_provider = ''google'', oc_issuers = [''https://accounts.google.com'', ''accounts.google.com''],
       oc_jwksUrl = ''https://www.googleapis.com/oauth2/v3/certs'', oc_clientIds = clientIds \<rparr>"

definition oauthNonceFor :: "oidc_libs \<Rightarrow> string \<Rightarrow> string" where
  "oauthNonceFor L sessionPublicKeyHex = ol_sha256 L (js_lower sessionPublicKeyHex)"

subsection \<open>Reading the token\<close>

definition parseJsonPart :: "oidc_libs \<Rightarrow> string \<Rightarrow> oidc_code + json" where
  "parseJsonPart L part =
     (case ol_parse L (base64UrlDecode part) of
        Some (JObj kvs) \<Rightarrow> Inr (JObj kvs)
      | _ \<Rightarrow> Inl Malformed)"

definition stringProp :: "string \<Rightarrow> json \<Rightarrow> string" where
  "stringProp k v = (case getProp k v of JStr s \<Rightarrow> s | _ \<Rightarrow> [])"

text \<open>What the checks before the key need: \<open>alg\<close>, \<open>kid\<close>, the signed text, the signature's part and the payload.\<close>

record jws =
  jw_alg :: string
  jw_kid :: string
  jw_input :: string
  jw_signature :: string
  jw_payload :: json

definition readToken :: "oidc_libs \<Rightarrow> string \<Rightarrow> oidc_code + jws" where
  "readToken L token =
     (case splitOn (CHR ''.'') token of
        [headerPart, payloadPart, signaturePart] \<Rightarrow>
          if headerPart = [] \<or> payloadPart = [] \<or> signaturePart = [] then Inl Malformed
          else rbind (parseJsonPart L headerPart) (\<lambda>header. rbind (parseJsonPart L payloadPart) (\<lambda>payload.
            let alg = stringProp ''alg'' header; kid = stringProp ''kid'' header
            in if alg \<noteq> ''RS256'' \<and> alg \<noteq> ''ES256'' then Inl UnsupportedAlg
               else if kid = [] then Inl Malformed
               else Inr \<lparr> jw_alg = alg, jw_kid = kid, jw_input = headerPart @ ''.'' @ payloadPart, jw_signature = signaturePart,
                 jw_payload = payload \<rparr>))
      | _ \<Rightarrow> Inl Malformed)"

subsection \<open>Keys of the issuer\<close>

type_synonym jwks_cache = "string \<rightharpoonup> json list \<times> int"

definition findKid :: "string \<Rightarrow> json list \<Rightarrow> json option" where
  "findKid kid keys = List.find (\<lambda>k. getProp ''kid'' k = JStr kid) keys"

definition cachedKey :: "jwks_cache \<Rightarrow> string \<Rightarrow> string \<Rightarrow> int \<Rightarrow> json option" where
  "cachedKey cache jwksUrl kid now =
     (case cache jwksUrl of
        Some (keys, fetchedAt) \<Rightarrow> if now - fetchedAt < JWKS_TTL_MS then findKid kid keys else None
      | None \<Rightarrow> None)"

text \<open>After the one refresh; \<open>fetched\<close> is \<open>None\<close> when the fetch throws, times out or gives no key list.\<close>

definition refreshedKey :: "string \<Rightarrow> string \<Rightarrow> int \<Rightarrow> json list option \<Rightarrow> jwks_cache \<Rightarrow> (oidc_code + json) \<times> jwks_cache" where
  "refreshedKey jwksUrl kid now fetched cache =
     (case fetched of
        None \<Rightarrow> (Inl JwksUnavailable, cache)
      | Some keys \<Rightarrow> ((case findKid kid keys of None \<Rightarrow> Inl UnknownKey | Some k \<Rightarrow> Inr k), cache(jwksUrl \<mapsto> (keys, now))))"

subsection \<open>The checks\<close>

definition audiencesOf :: "json \<Rightarrow> string list" where
  "audiencesOf v = (case v of JArr vs \<Rightarrow> List.map_filter (\<lambda>a. case a of JStr s \<Rightarrow> Some s | _ \<Rightarrow> None) vs | JStr s \<Rightarrow> [s] | _ \<Rightarrow> [])"

definition millis :: "json \<Rightarrow> int option" where
  "millis v = (case v of JNum n \<Rightarrow> Some (n * 1000) | _ \<Rightarrow> None)"

definition nonceOf :: "json \<Rightarrow> string" where
  "nonceOf payload = (case getProp ''nonce'' payload of JStr s \<Rightarrow> s | _ \<Rightarrow> stringProp ''tknonce'' payload)"

definition emailOf :: "json \<Rightarrow> string option" where
  "emailOf payload = (case getProp ''email'' payload of JStr s \<Rightarrow> if CHR ''@'' \<in> set s then Some (js_trim s) else None | _ \<Rightarrow> None)"

definition nameOf :: "json \<Rightarrow> string option" where
  "nameOf payload = (case getProp ''name'' payload of JStr s \<Rightarrow> if js_trim s \<noteq> [] then Some (js_trim s) else None | _ \<Rightarrow> None)"

definition checkClaims :: "oidc_libs \<Rightarrow> oidc_config \<Rightarrow> int \<Rightarrow> string \<Rightarrow> string \<Rightarrow> json \<Rightarrow> oidc_code + oidc_claims" where
  "checkClaims L cfg now sessionPublicKeyHex token payload =
     (let iss = stringProp ''iss'' payload; sub = stringProp ''sub'' payload;
          vouched = getProp ''email_verified'' payload = JBool True \<or> getProp ''email_verified'' payload = JStr ''true''
      in if iss \<notin> set (oc_issuers cfg) then Inl BadIssuer
         else case List.find (\<lambda>a. a \<in> set (oc_clientIds cfg)) (audiencesOf (getProp ''aud'' payload)) of
           None \<Rightarrow> Inl BadAudience
         | Some audience \<Rightarrow>
             if audience = [] then Inl BadAudience
             else (case millis (getProp ''exp'' payload) of
               None \<Rightarrow> Inl Expired
             | Some expiry \<Rightarrow>
                 if expiry + CLOCK_SKEW_MS < now then Inl Expired
                 else if (case millis (getProp ''iat'' payload) of None \<Rightarrow> False | Some iat \<Rightarrow> iat - CLOCK_SKEW_MS > now) then Inl NotYetValid
                 else if js_lower (nonceOf payload) \<noteq> oauthNonceFor L sessionPublicKeyHex then Inl BadNonce
                 else if sub = [] then Inl Malformed
                 else Inr \<lparr> cm_provider = oc_provider cfg, cm_issuer = iss, cm_subject = sub, cm_audience = audience,
                   cm_email = emailOf payload, cm_emailVerified = (emailOf payload \<noteq> None \<and> vouched), cm_name = nameOf payload,
                   cm_expiresAt = expiry, cm_tokenHash = ol_sha256 L token \<rparr>))"

definition checkToken :: "oidc_libs \<Rightarrow> oidc_config \<Rightarrow> int \<Rightarrow> string \<Rightarrow> string \<Rightarrow> jws \<Rightarrow> json \<Rightarrow> oidc_code + oidc_claims" where
  "checkToken L cfg now sessionPublicKeyHex token j jwk =
     (if ol_verify L (jw_alg j) jwk (jw_input j) (base64UrlDecode (jw_signature j)) \<noteq> Some True then Inl BadSignature
      else checkClaims L cfg now sessionPublicKeyHex token (jw_payload j))"

text \<open>All of it, the answer to the fetch given; it is looked at when the cache has no fresh key only.\<close>

definition verifyOidcToken ::
    "oidc_libs \<Rightarrow> oidc_config \<Rightarrow> int \<Rightarrow> string \<Rightarrow> string \<Rightarrow> json list option \<Rightarrow> jwks_cache \<Rightarrow> (oidc_code + oidc_claims) \<times> jwks_cache" where
  "verifyOidcToken L cfg now sessionPublicKeyHex token fetched cache =
     (case readToken L token of
        Inl e \<Rightarrow> (Inl e, cache)
      | Inr j \<Rightarrow> (case cachedKey cache (oc_jwksUrl cfg) (jw_kid j) now of
          Some jwk \<Rightarrow> (checkToken L cfg now sessionPublicKeyHex token j jwk, cache)
        | None \<Rightarrow> (let (key, cache') = refreshedKey (oc_jwksUrl cfg) (jw_kid j) now fetched cache
                    in (rbind key (checkToken L cfg now sessionPublicKeyHex token j), cache'))))"

subsection \<open>What an accepted token is\<close>

text \<open>The token names this key, was signed with it, is for this hub and bound to the session key.\<close>

definition goodToken :: "oidc_libs \<Rightarrow> oidc_config \<Rightarrow> int \<Rightarrow> string \<Rightarrow> string \<Rightarrow> json \<Rightarrow> oidc_claims \<Rightarrow> bool" where
  "goodToken L cfg now sessionPublicKeyHex token jwk cm \<longleftrightarrow>
     (\<exists>j. readToken L token = Inr j \<and> getProp ''kid'' jwk = JStr (jw_kid j)
        \<and> ol_verify L (jw_alg j) jwk (jw_input j) (base64UrlDecode (jw_signature j)) = Some True
        \<and> js_lower (nonceOf (jw_payload j)) = oauthNonceFor L sessionPublicKeyHex
        \<and> cm_subject cm = stringProp ''sub'' (jw_payload j) \<and> cm_email cm = emailOf (jw_payload j)
        \<and> (cm_emailVerified cm \<longrightarrow> getProp ''email_verified'' (jw_payload j) \<in> {JBool True, JStr ''true''})
        \<and> cm_audience cm \<in> set (audiencesOf (getProp ''aud'' (jw_payload j))) \<and> cm_issuer cm = stringProp ''iss'' (jw_payload j))
     \<and> cm_issuer cm \<in> set (oc_issuers cfg) \<and> cm_audience cm \<in> set (oc_clientIds cfg) \<and> cm_subject cm \<noteq> []
     \<and> now \<le> cm_expiresAt cm + CLOCK_SKEW_MS \<and> cm_provider cm = oc_provider cfg \<and> cm_tokenHash cm = ol_sha256 L token
     \<and> (cm_emailVerified cm \<longrightarrow> cm_email cm \<noteq> None)"

lemma find_Some_mem: "List.find P xs = Some x \<Longrightarrow> x \<in> set xs \<and> P x"
  by (auto simp: find_Some_iff)

lemma findKid_Some: "findKid kid keys = Some k \<Longrightarrow> k \<in> set keys \<and> getProp ''kid'' k = JStr kid"
  unfolding findKid_def by (rule find_Some_mem)

lemma checkClaims_Inr:
  assumes "checkClaims L cfg now key token payload = Inr cm"
  shows "cm_issuer cm = stringProp ''iss'' payload" "cm_issuer cm \<in> set (oc_issuers cfg)"
    "cm_audience cm \<in> set (audiencesOf (getProp ''aud'' payload))" "cm_audience cm \<in> set (oc_clientIds cfg)"
    "now \<le> cm_expiresAt cm + CLOCK_SKEW_MS" "js_lower (nonceOf payload) = oauthNonceFor L key"
    "cm_subject cm = stringProp ''sub'' payload" "cm_subject cm \<noteq> []" "cm_provider cm = oc_provider cfg"
    "cm_tokenHash cm = ol_sha256 L token" "cm_email cm = emailOf payload"
    "cm_emailVerified cm \<Longrightarrow> cm_email cm \<noteq> None \<and> getProp ''email_verified'' payload \<in> {JBool True, JStr ''true''}"
  using assms
  by (auto simp: checkClaims_def Let_def split: if_splits option.splits dest!: find_Some_mem)

lemma checkToken_good:
  assumes "readToken L token = Inr j" "getProp ''kid'' jwk = JStr (jw_kid j)" "checkToken L cfg now key token j jwk = Inr cm"
  shows "goodToken L cfg now key token jwk cm"
proof -
  have sig: "ol_verify L (jw_alg j) jwk (jw_input j) (base64UrlDecode (jw_signature j)) = Some True"
    and claims: "checkClaims L cfg now key token (jw_payload j) = Inr cm"
    using assms(3) by (auto simp: checkToken_def split: if_splits)
  show ?thesis
    unfolding goodToken_def using assms(1,2) sig checkClaims_Inr [OF claims] by metis
qed

lemma cachedKey_Some:
  "cachedKey cache url kid now = Some k \<Longrightarrow>
     getProp ''kid'' k = JStr kid \<and> (\<exists>keys t. cache url = Some (keys, t) \<and> k \<in> set keys \<and> now - t < JWKS_TTL_MS)"
  by (auto simp: cachedKey_def split: option.splits if_splits dest: findKid_Some)

text \<open>Tokens that differ in the padding of the signature only are read alike.\<close>

lemma splitOn_app:
  assumes "c \<notin> set xs"
  shows "splitOn c xs = [xs]" "splitOn c (xs @ c # ys) = xs # splitOn c ys"
  using assms by (induction xs) auto

lemma readToken_parts:
  assumes "CHR ''.'' \<notin> set h" "CHR ''.'' \<notin> set p" "CHR ''.'' \<notin> set s"
  shows "splitOn (CHR ''.'') (h @ ''.'' @ p @ ''.'' @ s) = [h, p, s]"
  using assms by (simp add: splitOn_app)

lemma readToken_padded:
  assumes "readToken L token = Inr j" "length (jw_signature j) mod 4 = 2"
  shows "readToken L (token @ ''='') = Inr (j \<lparr> jw_signature := jw_signature j @ ''='' \<rparr>)"
proof -
  have app: "splitOn (CHR ''.'') (t @ ''='') = butlast (splitOn (CHR ''.'') t) @ [last (splitOn (CHR ''.'') t) @ ''='']
     \<and> splitOn (CHR ''.'') t \<noteq> []" for t
    by (induction t) (auto split: list.splits)
  obtain h p s where parts: "splitOn (CHR ''.'') token = [h, p, s]" and s: "jw_signature j = s"
    using assms(1) by (auto simp: readToken_def rbind_eq_Inr_iff Let_def split: list.splits if_splits)
  have "splitOn (CHR ''.'') (token @ ''='') = [h, p, s @ ''='']" using app [of token] parts by simp
  then show ?thesis
    using assms(1) parts by (auto simp: readToken_def rbind_eq_Inr_iff Let_def split: if_splits)
qed

lemma checkToken_padded:
  assumes "length (jw_signature j) mod 4 = 2"
  shows "checkToken L cfg now key (token @ ''='') (j \<lparr> jw_signature := jw_signature j @ ''='' \<rparr>) jwk =
     map_sum id (\<lambda>cm. cm \<lparr> cm_tokenHash := ol_sha256 L (token @ ''='') \<rparr>) (checkToken L cfg now key token j jwk)"
  using base64UrlDecode_padded [OF assms]
  by (auto simp: checkToken_def checkClaims_def Let_def split: option.splits)

end
