(* ===== verification/Identities.thy ===== *)
theory Identities
  imports Oidc
begin

text \<open>
  The person layer of the hub (\<open>services/wallet-hub-api/src/db/identities.ts\<close>, migrations 019 and 020): people, the
  identities that prove who they are, their wallets, the accepted id tokens. A statement that breaks a unique index
  throws, here \<open>None\<close>; \<open>NOW()\<close> and fresh row identifiers are arguments.
\<close>

subsection \<open>Tables\<close>

record person_row =
  pn_id :: string
  pn_app :: string
  pn_external :: "string option"
  pn_email :: "string option"
  pn_verified :: "int option"
  pn_recovery :: "string option"
  pn_created :: int

record identity_row =
  im_id :: string
  im_app :: string
  im_user :: string
  im_kind :: string
  im_subject :: string
  im_issuer :: "string option"
  im_audience :: "string option"
  im_email :: "string option"
  im_verified :: "int option"
  im_created :: int
  im_lastLogin :: "int option"

record suborg_row =
  wt_id :: string
  wt_app :: string
  wt_user :: "string option"
  wt_organization :: string
  wt_rootUser :: "string option"
  wt_wallet :: "string option"
  wt_address :: "string option"
  wt_publicKey :: "string option"
  wt_format :: "string option"
  wt_path :: "string option"
  wt_method :: "string option"
  wt_keyVerified :: "int option"
  wt_created :: int

text \<open>\<open>sd_linked\<close>: application, user and public key of the linked wallets.\<close>

record social_db =
  sd_people :: "person_row list"
  sd_identities :: "identity_row list"
  sd_wallets :: "suborg_row list"
  sd_linked :: "(string \<times> string \<times> string option) list"
  sd_replay :: "(string \<times> string \<times> int) list"
  sd_sessions :: "session_row list"

subsection \<open>Identities\<close>

definition newPersonExternalId :: "string \<Rightarrow> string" where
  "newPersonExternalId random = ''usr_'' @ random"

definition identityKey :: "identity_row \<Rightarrow> string \<times> string \<times> string" where
  "identityKey i = (im_app i, im_kind i, im_subject i)"

definition getIdentity :: "string \<Rightarrow> string \<Rightarrow> string \<Rightarrow> social_db \<Rightarrow> identity_row option" where
  "getIdentity appId kind subject db = List.find (\<lambda>i. identityKey i = (appId, kind, subject)) (sd_identities db)"

definition listIdentitiesForUser :: "string \<Rightarrow> string \<Rightarrow> social_db \<Rightarrow> identity_row list" where
  "listIdentitiesForUser appId userId db = sort_key im_created (filter (\<lambda>i. im_app i = appId \<and> im_user i = userId) (sd_identities db))"

record identity_params =
  ia_kind :: string
  ia_subject :: string
  ia_issuer :: "string option"
  ia_audience :: "string option"
  ia_email :: "string option"
  ia_verified :: bool

text \<open>A row of the same key that is another user's stays as it is, and no row is returned.\<close>

definition insertIdentity ::
    "int \<Rightarrow> string \<Rightarrow> string \<Rightarrow> string \<Rightarrow> identity_params \<Rightarrow> social_db \<Rightarrow> (identity_row option \<times> social_db) option" where
  "insertIdentity now rowId appId userId ps db =
     (let key = (appId, ia_kind ps, ia_subject ps); verifiedAt = (if ia_verified ps then Some now else None)
      in case List.find (\<lambda>i. identityKey i = key) (sd_identities db) of
           Some i \<Rightarrow>
             if im_user i \<noteq> userId then Some (None, db)
             else let i' = i \<lparr> im_lastLogin := Some now, im_verified := (case im_verified i of None \<Rightarrow> verifiedAt | Some t \<Rightarrow> Some t) \<rparr>
                  in Some (Some i', db \<lparr> sd_identities := map (\<lambda>j. if identityKey j = key then i' else j) (sd_identities db) \<rparr>)
         | None \<Rightarrow>
             let i = \<lparr> im_id = rowId, im_app = appId, im_user = userId, im_kind = ia_kind ps, im_subject = ia_subject ps,
                   im_issuer = ia_issuer ps, im_audience = ia_audience ps, im_email = ia_email ps, im_verified = verifiedAt,
                   im_created = now, im_lastLogin = Some now \<rparr>
             in if rowId \<in> im_id ` set (sd_identities db) then None
                else Some (Some i, db \<lparr> sd_identities := sd_identities db @ [i] \<rparr>))"

definition touchIdentityLogin :: "int \<Rightarrow> string \<Rightarrow> social_db \<Rightarrow> social_db" where
  "touchIdentityLogin now rowId db =
     db \<lparr> sd_identities := map (\<lambda>i. if im_id i = rowId then i \<lparr> im_lastLogin := Some now \<rparr> else i) (sd_identities db) \<rparr>"

subsection \<open>People\<close>

definition getPerson :: "string \<Rightarrow> string \<Rightarrow> social_db \<Rightarrow> person_row option" where
  "getPerson appId userId db = List.find (\<lambda>p. pn_app p = appId \<and> pn_id p = userId) (sd_people db)"

text \<open>The rows of the partial unique index: verified, with this email in any case.\<close>

definition holdsEmail :: "string \<Rightarrow> string \<Rightarrow> person_row \<Rightarrow> bool" where
  "holdsEmail appId email p \<longleftrightarrow> pn_app p = appId \<and> map_option js_lower (pn_email p) = Some (js_lower email) \<and> pn_verified p \<noteq> None"

definition getPersonByVerifiedEmail :: "string \<Rightarrow> string \<Rightarrow> social_db \<Rightarrow> person_row option" where
  "getPersonByVerifiedEmail appId email db = List.find (holdsEmail appId email) (sd_people db)"

definition createPerson :: "int \<Rightarrow> string \<Rightarrow> string \<Rightarrow> string \<Rightarrow> string option \<Rightarrow> bool \<Rightarrow> social_db \<Rightarrow> (person_row \<times> social_db) option" where
  "createPerson now rowId appId externalUserId email emailVerified db =
     (let p = \<lparr> pn_id = rowId, pn_app = appId, pn_external = Some externalUserId, pn_email = email,
            pn_verified = (if emailVerified then Some now else None), pn_recovery = email, pn_created = now \<rparr>
      in if rowId \<in> pn_id ` set (sd_people db)
            \<or> (\<exists>q\<in>set (sd_people db). pn_app q = appId \<and> pn_external q = Some externalUserId)
            \<or> (emailVerified \<and> (case email of None \<Rightarrow> False | Some e \<Rightarrow> \<exists>q\<in>set (sd_people db). holdsEmail appId e q))
         then None else Some (p, db \<lparr> sd_people := sd_people db @ [p] \<rparr>))"

definition orElse :: "'a option \<Rightarrow> 'a \<Rightarrow> 'a" where
  "orElse x y = (case x of Some a \<Rightarrow> a | None \<Rightarrow> y)"

definition setVerifiedPrimaryEmail :: "int \<Rightarrow> string \<Rightarrow> string \<Rightarrow> string \<Rightarrow> social_db \<Rightarrow> social_db" where
  "setVerifiedPrimaryEmail now appId userId email db =
     (if \<exists>q\<in>set (sd_people db). pn_id q \<noteq> userId \<and> holdsEmail appId email q then db
      else db \<lparr> sd_people := map (\<lambda>p. if pn_app p = appId \<and> pn_id p = userId
        then p \<lparr> pn_email := Some (orElse (pn_email p) email),
               pn_verified := (if js_lower (orElse (pn_email p) email) = js_lower email then Some (orElse (pn_verified p) now) else pn_verified p) \<rparr>
        else p) (sd_people db) \<rparr>)"

subsection \<open>Accepted tokens and wallets\<close>

text \<open>Whether the token was there already.\<close>

definition recordOidcTokenUse :: "string \<Rightarrow> string \<Rightarrow> int \<Rightarrow> social_db \<Rightarrow> bool \<times> social_db" where
  "recordOidcTokenUse appId tokenHash expiresAt db =
     (if tokenHash \<in> fst ` set (sd_replay db) then (True, db)
      else (False, db \<lparr> sd_replay := sd_replay db @ [(tokenHash, appId, expiresAt)] \<rparr>))"

text \<open>A \<open>UNION\<close>: each key once, in no promised order.\<close>

definition listWalletPubkeysForUser :: "string \<Rightarrow> string \<Rightarrow> social_db \<Rightarrow> string list" where
  "listWalletPubkeysForUser appId userId db =
     remdups (List.map_filter (\<lambda>w. if wt_app w = appId \<and> wt_user w = Some userId \<and> wt_keyVerified w \<noteq> None then wt_publicKey w else None)
                (sd_wallets db)
              @ List.map_filter (\<lambda>(a, u, key). if a = appId \<and> u = userId then key else None) (sd_linked db))"

definition insertSubOrg :: "suborg_row \<Rightarrow> social_db \<Rightarrow> social_db option" where
  "insertSubOrg w db = (if wt_id w \<in> wt_id ` set (sd_wallets db) then None else Some (db \<lparr> sd_wallets := sd_wallets db @ [w] \<rparr>))"

definition walletsOfUser :: "string \<Rightarrow> string \<Rightarrow> social_db \<Rightarrow> suborg_row list" where
  "walletsOfUser appId userId db = sort_key (\<lambda>w. - wt_created w) (filter (\<lambda>w. wt_app w = appId \<and> wt_user w = Some userId) (sd_wallets db))"

definition walletByIdForApp :: "string \<Rightarrow> string \<Rightarrow> social_db \<Rightarrow> suborg_row option" where
  "walletByIdForApp rowId appId db = List.find (\<lambda>w. wt_id w = rowId \<and> wt_app w = appId) (sd_wallets db)"

text \<open>The columns that the session code of \<open>HubAuth\<close> reads.\<close>

definition hubView :: "social_db \<Rightarrow> hub_db" where
  "hubView db =
     \<lparr> appKeys = [], users = map (\<lambda>p. \<lparr> us_id = pn_id p, us_app = pn_app p, us_external = pn_external p \<rparr>) (sd_people db),
       resources = map (\<lambda>w. \<lparr> rs_id = wt_id w, rs_app = wt_app w, rs_user = wt_user w, rs_organization = wt_organization w,
         rs_address = wt_address w, rs_publicKey = wt_publicKey w, rs_verifiedAt = wt_keyVerified w, rs_wallet = wt_wallet w \<rparr>) (sd_wallets db),
       linkedWallets = map (\<lambda>(a, u, key). \<lparr> lw_app = a, lw_user = u, lw_provider = [], lw_address = [] \<rparr>) (sd_linked db),
       challenges = [], sessions = sd_sessions db \<rparr>"

definition withSessions :: "hub_db \<Rightarrow> social_db \<Rightarrow> social_db" where
  "withSessions hub db = db \<lparr> sd_sessions := sessions hub \<rparr>"

subsection \<open>Well-formed tables\<close>

definition personOf :: "social_db \<Rightarrow> string \<Rightarrow> string \<Rightarrow> bool" where
  "personOf db appId userId \<longleftrightarrow> (\<exists>p\<in>set (sd_people db). pn_id p = userId \<and> pn_app p = appId)"

definition emailsOk :: "person_row list \<Rightarrow> bool" where
  "emailsOk ps \<longleftrightarrow>
     (\<forall>p\<in>set ps. \<forall>q\<in>set ps. \<forall>e. holdsEmail (pn_app q) e p \<and> holdsEmail (pn_app q) e q \<longrightarrow> p = q)
     \<and> (\<forall>p\<in>set ps. pn_verified p \<noteq> None \<longrightarrow> pn_email p \<noteq> None)"

text \<open>Keys are unique, rows of a user are of the user's application, a verified email has one holder in an application.\<close>

definition tablesOk :: "social_db \<Rightarrow> bool" where
  "tablesOk db \<longleftrightarrow>
     distinct (map pn_id (sd_people db)) \<and> distinct (map identityKey (sd_identities db)) \<and> distinct (map im_id (sd_identities db))
     \<and> distinct (map wt_id (sd_wallets db)) \<and> distinct (map fst (sd_replay db))
     \<and> (\<forall>i\<in>set (sd_identities db). personOf db (im_app i) (im_user i))
     \<and> (\<forall>w\<in>set (sd_wallets db). \<forall>u. wt_user w = Some u \<longrightarrow> personOf db (wt_app w) u)
     \<and> emailsOk (sd_people db)"

lemma tablesOk_D:
  assumes "tablesOk db"
  shows "distinct (map pn_id (sd_people db))" "distinct (map identityKey (sd_identities db))" "distinct (map im_id (sd_identities db))"
    "distinct (map wt_id (sd_wallets db))" "distinct (map fst (sd_replay db))"
    "\<And>i. i \<in> set (sd_identities db) \<Longrightarrow> personOf db (im_app i) (im_user i)"
    "\<And>w u. w \<in> set (sd_wallets db) \<Longrightarrow> wt_user w = Some u \<Longrightarrow> personOf db (wt_app w) u"
    "\<And>p q e. p \<in> set (sd_people db) \<Longrightarrow> q \<in> set (sd_people db) \<Longrightarrow> holdsEmail (pn_app q) e p \<Longrightarrow> holdsEmail (pn_app q) e q \<Longrightarrow> p = q"
    "\<And>p. p \<in> set (sd_people db) \<Longrightarrow> pn_verified p \<noteq> None \<Longrightarrow> pn_email p \<noteq> None"
  using assms unfolding tablesOk_def emailsOk_def by blast+

lemma getIdentity_Some: "getIdentity appId kind subject db = Some i \<Longrightarrow> i \<in> set (sd_identities db) \<and> identityKey i = (appId, kind, subject)"
  unfolding getIdentity_def by (drule find_Some_mem) simp

lemma getPerson_Some: "getPerson appId userId db = Some p \<Longrightarrow> p \<in> set (sd_people db) \<and> pn_app p = appId \<and> pn_id p = userId"
  unfolding getPerson_def by (drule find_Some_mem) simp

lemma holdsEmail_app: "holdsEmail a e p \<Longrightarrow> pn_app p = a"
  by (simp add: holdsEmail_def)

lemma same_person:
  assumes "distinct (map pn_id ps)" "p \<in> set ps" "q \<in> set ps" "pn_id p = pn_id q"
  shows "p = q"
  using assms by (metis distinct_map inj_onD)

end
