(* ===== verification/IdToken.thy ===== *)
theory IdToken
  imports Identities
begin

text \<open>
  The ID token of the hub (\<open>services/wallet-hub-api/src/auth/idToken.ts\<close>): the signer, minting, the published keys and the
  check of a token. \<open>JSON\<close>, the elliptic curve and SHA-256 are parameters, base64 is \<open>Base64\<close>.
\<close>

definition ID_TOKEN_TTL_SECONDS :: int where "ID_TOKEN_TTL_SECONDS = 15 * 60"
definition ID_TOKEN_AUDIENCE :: string where "ID_TOKEN_AUDIENCE = ''arch''"

text \<open>
  \<open>ij_parseText\<close> is \<open>JSON.parse\<close> of a text, \<open>ij_parse\<close> of the bytes of a text, \<open>ij_bytes\<close> the bytes of \<open>JSON.stringify\<close>;
  a private key is a \<open>'k\<close>, \<open>ij_verify\<close> is \<open>None\<close> when the key is not one or the check throws.
\<close>

record 'k jwt_libs =
  ij_parseText :: "string \<Rightarrow> json option"
  ij_parse :: "byte list \<Rightarrow> json option"
  ij_bytes :: "json \<Rightarrow> byte list"
  ij_sha256 :: "byte list \<Rightarrow> byte list"
  ij_privateKey :: "json \<Rightarrow> 'k option"
  ij_publicOf :: "'k \<Rightarrow> json"
  ij_sign :: "'k \<Rightarrow> string \<Rightarrow> byte list"
  ij_verify :: "json \<Rightarrow> string \<Rightarrow> byte list \<Rightarrow> bool option"

record 'k id_signer =
  ig_issuer :: string
  ig_kid :: string
  ig_privateKey :: 'k
  ig_publicJwk :: json
  ig_previous :: "json list"
  ig_ephemeral :: bool

record id_claims =
  ic_sub :: string
  ic_app :: string
  ic_email :: "string option"
  ic_emailVerified :: bool
  ic_wallets :: "string list"
  ic_amr :: "string list"

subsection \<open>The signer\<close>

text \<open>\<open>{ ...v }\<close> and the overwriting of a property.\<close>

fun spread :: "json \<Rightarrow> (string \<times> json) list" where
  "spread (JObj kvs) = kvs"
| "spread (JArr vs) = map (\<lambda>(n, v). (show_nat n, v)) (enumerate 0 vs)"
| "spread v = []"

definition putProp :: "string \<Rightarrow> json \<Rightarrow> (string \<times> json) list \<Rightarrow> (string \<times> json) list" where
  "putProp k x kvs = (if k \<in> fst ` set kvs then map (\<lambda>(k', y). (k', if k' = k then x else y)) kvs else kvs @ [(k, x)])"

definition kidOf :: "'k jwt_libs \<Rightarrow> json \<Rightarrow> string" where
  "kidOf L publicJwk =
     take 16 (base64url (ij_sha256 L (ij_bytes L (JObj [(''crv'', getProp ''crv'' publicJwk), (''kty'', getProp ''kty'' publicJwk),
       (''x'', getProp ''x'' publicJwk), (''y'', getProp ''y'' publicJwk)]))))"

definition publishedKey :: "json \<Rightarrow> string \<Rightarrow> json" where
  "publishedKey jwk kid = JObj (putProp ''use'' (JStr ''sig'') (putProp ''alg'' (JStr ''ES256'') (putProp ''kid'' (JStr kid) (spread jwk))))"

definition isObject :: "json \<Rightarrow> bool" where
  "isObject v = (case v of JObj kvs \<Rightarrow> True | JArr vs \<Rightarrow> True | _ \<Rightarrow> False)"

definition previousKeys :: "'k jwt_libs \<Rightarrow> string option \<Rightarrow> string + json list" where
  "previousKeys L previousJwksJson =
     (if \<not> given previousJwksJson \<or> js_trim (the previousJwksJson) = [] then Inr []
      else case ij_parseText L (the previousJwksJson) of
        None \<Rightarrow> Inl ''SyntaxError''
      | Some (JArr keys) \<Rightarrow> Inr (map (\<lambda>k. publishedKey k (case getProp ''kid'' k of JStr s \<Rightarrow> s | _ \<Rightarrow> kidOf L k)) (filter isObject keys))
      | Some v \<Rightarrow> Inr [])"

text \<open>The private key that is configured, or \<open>fresh\<close> where a generated one is allowed.\<close>

definition configuredKey :: "'k jwt_libs \<Rightarrow> string option \<Rightarrow> bool \<Rightarrow> 'k \<Rightarrow> string + 'k \<times> bool" where
  "configuredKey L privateJwkJson allowEphemeral fresh =
     (if given privateJwkJson \<and> js_trim (the privateJwkJson) \<noteq> []
      then case ij_parseText L (the privateJwkJson) of
             None \<Rightarrow> Inl ''ID_TOKEN_PRIVATE_JWK is not valid JSON''
           | Some jwk \<Rightarrow>
               if jwk = JNull then Inl ''TypeError''
               else if getProp ''kty'' jwk \<noteq> JStr ''EC'' \<or> getProp ''crv'' jwk \<noteq> JStr ''P-256'' \<or> \<not> isString (getProp ''d'' jwk)
               then Inl ''ID_TOKEN_PRIVATE_JWK must be a P-256 EC private key (kty EC, crv P-256, with d)''
               else (case ij_privateKey L jwk of None \<Rightarrow> Inl ''Invalid JWK'' | Some key \<Rightarrow> Inr (key, False))
      else if \<not> allowEphemeral then Inl ''ID_TOKEN_PRIVATE_JWK is required outside development/test''
      else Inr (fresh, True))"

definition createIdTokenSigner ::
    "'k jwt_libs \<Rightarrow> string \<Rightarrow> string option \<Rightarrow> string option \<Rightarrow> bool \<Rightarrow> 'k \<Rightarrow> string + 'k id_signer" where
  "createIdTokenSigner L issuer privateJwkJson previousJwksJson allowEphemeral fresh =
     rbind (configuredKey L privateJwkJson allowEphemeral fresh) (\<lambda>(key, ephemeral).
       let publicExport = ij_publicOf L key; kid = kidOf L publicExport
       in rbind (previousKeys L previousJwksJson) (\<lambda>previous.
            Inr \<lparr> ig_issuer = issuer, ig_kid = kid, ig_privateKey = key, ig_publicJwk = publishedKey publicExport kid,
              ig_previous = previous, ig_ephemeral = ephemeral \<rparr>))"

subsection \<open>Minting\<close>

definition idTokenHeader :: "'k id_signer \<Rightarrow> json" where
  "idTokenHeader signer = JObj [(''alg'', JStr ''ES256''), (''typ'', JStr ''JWT''), (''kid'', JStr (ig_kid signer))]"

definition idTokenPayload :: "'k id_signer \<Rightarrow> id_claims \<Rightarrow> int \<Rightarrow> string \<Rightarrow> json" where
  "idTokenPayload signer claims iat jti =
     JObj [(''iss'', JStr (ig_issuer signer)), (''sub'', JStr (ic_sub claims)), (''aud'', JStr ID_TOKEN_AUDIENCE), (''app'', JStr (ic_app claims)),
       (''email'', orNull JStr (ic_email claims)), (''email_verified'', JBool (ic_emailVerified claims)),
       (''wallets'', JArr (map JStr (ic_wallets claims))), (''amr'', JArr (map JStr (ic_amr claims))),
       (''iat'', JNum iat), (''exp'', JNum (iat + ID_TOKEN_TTL_SECONDS)), (''jti'', JStr jti)]"

text \<open>The token and \<open>expiresAt\<close>, in milliseconds.\<close>

definition mintIdToken :: "'k jwt_libs \<Rightarrow> 'k id_signer \<Rightarrow> id_claims \<Rightarrow> int \<Rightarrow> string \<Rightarrow> string \<times> int" where
  "mintIdToken L signer claims now jti =
     (let iat = now div 1000;
          signingInput = base64url (ij_bytes L (idTokenHeader signer)) @ ''.'' @ base64url (ij_bytes L (idTokenPayload signer claims iat jti))
      in (signingInput @ ''.'' @ base64url (ij_sign L (ig_privateKey signer) signingInput), (iat + ID_TOKEN_TTL_SECONDS) * 1000))"

definition mintIdentityToken ::
    "'k jwt_libs \<Rightarrow> 'k id_signer \<Rightarrow> string \<Rightarrow> string \<Rightarrow> string \<Rightarrow> string option \<Rightarrow> bool \<Rightarrow> string list \<Rightarrow> int \<Rightarrow> string \<Rightarrow> social_db \<Rightarrow>
     string \<times> int" where
  "mintIdentityToken L signer appId userId externalUserId email emailVerified amr now jti db =
     mintIdToken L signer \<lparr> ic_sub = externalUserId, ic_app = appId, ic_email = email, ic_emailVerified = emailVerified,
       ic_wallets = listWalletPubkeysForUser appId userId db, ic_amr = amr \<rparr> now jti"

definition jwksDocument :: "'k id_signer \<Rightarrow> json list" where
  "jwksDocument signer = ig_publicJwk signer # ig_previous signer"

subsection \<open>Checking\<close>

text \<open>\<open>===\<close>: two objects read from different texts are never the same.\<close>

definition strictEq :: "json \<Rightarrow> json \<Rightarrow> bool" where
  "strictEq v w \<longleftrightarrow> v = w \<and> \<not> isObject v"

text \<open>\<open>Inl\<close> when it throws, \<open>Inr None\<close> when it returns \<open>null\<close>.\<close>

definition verifyIdToken :: "'k jwt_libs \<Rightarrow> string \<Rightarrow> json list \<Rightarrow> string \<Rightarrow> int \<Rightarrow> unit + json option" where
  "verifyIdToken L token jwks issuer now =
     (case splitOn (CHR ''.'') token of
        [h, p, s] \<Rightarrow>
          (case (ij_parse L (bufferFromBase64 h), ij_parse L (bufferFromBase64 p)) of
             (Some header, Some payload) \<Rightarrow>
               if header = JNull then Inl ()
               else if getProp ''alg'' header \<noteq> JStr ''ES256'' then Inr None
               else (case List.find (\<lambda>k. strictEq (getProp ''kid'' k) (getProp ''kid'' header)) jwks of
                  None \<Rightarrow> Inr None
                | Some jwk \<Rightarrow>
                    (case ij_verify L jwk (h @ ''.'' @ p) (bufferFromBase64 s) of
                       None \<Rightarrow> Inl ()
                     | Some False \<Rightarrow> Inr None
                     | Some True \<Rightarrow>
                         if payload = JNull then Inl ()
                         else if getProp ''iss'' payload \<noteq> JStr issuer \<or> getProp ''aud'' payload \<noteq> JStr ID_TOKEN_AUDIENCE then Inr None
                         else (case getProp ''exp'' payload of
                            JNum e \<Rightarrow> if e * 1000 < now then Inr None else Inr (Some payload)
                          | _ \<Rightarrow> Inr None)))
           | _ \<Rightarrow> Inr None)
      | _ \<Rightarrow> Inr None)"

subsection \<open>Round trip\<close>

text \<open>
  What is relied on: a value that is written is read back, and a signature is accepted under the public key of its
  private key, in the form in which it is published.
\<close>

definition lawfulJwt :: "'k jwt_libs \<Rightarrow> 'k id_signer \<Rightarrow> json \<Rightarrow> bool" where
  "lawfulJwt L signer payload \<longleftrightarrow>
     ij_parse L (ij_bytes L (idTokenHeader signer)) = Some (idTokenHeader signer) \<and> ij_parse L (ij_bytes L payload) = Some payload
     \<and> (\<forall>m. ij_verify L (ig_publicJwk signer) m (ij_sign L (ig_privateKey signer) m) = Some True)"

definition signerOk :: "'k jwt_libs \<Rightarrow> 'k id_signer \<Rightarrow> bool" where
  "signerOk L signer \<longleftrightarrow> getProp ''kid'' (ig_publicJwk signer) = JStr (ig_kid signer)"

lemma map_of_replaced: "map_of (map (\<lambda>(a, y). (a, if a = k' then x else y)) kvs) k = (if k = k' \<and> map_of kvs k \<noteq> None then Some x else map_of kvs k)"
  by (induction kvs) auto

lemma map_of_putProp: "map_of (putProp k' x kvs) k = (if k = k' then Some x else map_of kvs k)"
proof (cases "k' \<in> fst ` set kvs")
  case True
  then have "map_of kvs k' \<noteq> None" by (simp add: map_of_eq_None_iff)
  then show ?thesis using True by (simp add: putProp_def map_of_replaced)
next
  case False
  then have "map_of kvs k' = None" by (simp add: map_of_eq_None_iff)
  then show ?thesis using False by (auto simp: putProp_def map_add_def split: option.splits)
qed

lemma published_kid: "getProp ''kid'' (publishedKey jwk kid) = JStr kid"
  by (simp add: publishedKey_def map_of_putProp)

lemma createIdTokenSigner_ok: "createIdTokenSigner L issuer priv prev allow fresh = Inr signer \<Longrightarrow> signerOk L signer \<and> ig_issuer signer = issuer"
  by (auto simp: createIdTokenSigner_def rbind_eq_Inr_iff signerOk_def published_kid Let_def)

lemma verify_minted:
  assumes "lawfulJwt L signer (idTokenPayload signer claims (now div 1000) jti)" "signerOk L signer"
  shows "verifyIdToken L (fst (mintIdToken L signer claims now jti)) (jwksDocument signer) (ig_issuer signer) later =
     Inr (if (now div 1000 + ID_TOKEN_TTL_SECONDS) * 1000 < later then None
          else Some (idTokenPayload signer claims (now div 1000) jti))"
proof -
  define h where "h = base64url (ij_bytes L (idTokenHeader signer))"
  define p where "p = base64url (ij_bytes L (idTokenPayload signer claims (now div 1000) jti))"
  define s where "s = base64url (ij_sign L (ig_privateKey signer) (h @ ''.'' @ p))"
  have token: "fst (mintIdToken L signer claims now jti) = h @ ''.'' @ p @ ''.'' @ s"
    by (simp add: mintIdToken_def Let_def h_def p_def s_def)
  have parts: "splitOn (CHR ''.'') (h @ ''.'' @ p @ ''.'' @ s) = [h, p, s]"
    by (rule readToken_parts) (simp_all add: h_def p_def s_def base64url_no_dot)
  have header: "ij_parse L (bufferFromBase64 h) = Some (idTokenHeader signer)"
    and payload: "ij_parse L (bufferFromBase64 p) = Some (idTokenPayload signer claims (now div 1000) jti)"
    using assms(1) unfolding h_def p_def base64url_roundtrip lawfulJwt_def by blast+
  have sig: "ij_verify L (ig_publicJwk signer) (h @ ''.'' @ p) (bufferFromBase64 s) = Some True"
    using assms(1) by (simp add: s_def base64url_roundtrip lawfulJwt_def)
  have key: "List.find (\<lambda>k. strictEq (getProp ''kid'' k) (getProp ''kid'' (idTokenHeader signer))) (jwksDocument signer) = Some (ig_publicJwk signer)"
    using assms(2) by (simp add: jwksDocument_def signerOk_def idTokenHeader_def strictEq_def isObject_def)
  show ?thesis
    unfolding token verifyIdToken_def parts list.case header payload prod.case option.case key sig
    by (simp add: idTokenHeader_def idTokenPayload_def)
qed

text \<open>
  C22. What the hub signs it recognises: a token for a person, checked with the published keys of a signer that the hub made,
  gives the person, the verified email and the wallets' keys that the hub holds, for fifteen minutes and no longer.
\<close>

theorem id_token_roundtrip:
  assumes "createIdTokenSigner L issuer privateJwk previousJwks allowEphemeral fresh = Inr signer"
    and "lawfulJwt L signer (idTokenPayload signer \<lparr> ic_sub = external, ic_app = appId, ic_email = email, ic_emailVerified = verified,
       ic_wallets = listWalletPubkeysForUser appId userId db, ic_amr = amr \<rparr> (now div 1000) jti)"
  shows "verifyIdToken L (fst (mintIdentityToken L signer appId userId external email verified amr now jti db)) (jwksDocument signer) issuer later =
     Inr (if (now div 1000 + 15 * 60) * 1000 < later then None
          else Some (idTokenPayload signer \<lparr> ic_sub = external, ic_app = appId, ic_email = email, ic_emailVerified = verified,
            ic_wallets = listWalletPubkeysForUser appId userId db, ic_amr = amr \<rparr> (now div 1000) jti))"
proof -
  have "signerOk L signer" "ig_issuer signer = issuer" using createIdTokenSigner_ok [OF assms(1)] by simp_all
  then show ?thesis using verify_minted [OF assms(2)] by (simp add: mintIdentityToken_def ID_TOKEN_TTL_SECONDS_def)
qed

definition sampleTables :: social_db where
  "sampleTables = \<lparr> sd_people = [], sd_identities = [], sd_wallets = [], sd_linked = [(''app'', ''u1'', Some ''02aa'')], sd_replay = [], sd_sessions = [] \<rparr>"

definition sampleIdClaims :: id_claims where
  "sampleIdClaims = \<lparr> ic_sub = ''usr_1'', ic_app = ''app'', ic_email = None, ic_emailVerified = False, ic_wallets = [''02aa''], ic_amr = [''session''] \<rparr>"

definition sampleSigner :: "string id_signer" where
  "sampleSigner = \<lparr> ig_issuer = ''hub'', ig_kid = [], ig_privateKey = ''secret'',
     ig_publicJwk = JObj [(''kid'', JStr []), (''alg'', JStr ''ES256''), (''use'', JStr ''sig'')], ig_previous = [], ig_ephemeral = True \<rparr>"

definition sampleJwtLibs :: "string jwt_libs" where
  "sampleJwtLibs = \<lparr> ij_parseText = (\<lambda>s. None),
     ij_parse = (\<lambda>b. Some (if b = [1] then idTokenHeader sampleSigner else idTokenPayload sampleSigner sampleIdClaims 0 ''j1'')),
     ij_bytes = (\<lambda>v. if v = idTokenHeader sampleSigner then [1] else [2]), ij_sha256 = (\<lambda>b. []), ij_privateKey = (\<lambda>v. None),
     ij_publicOf = (\<lambda>k. JObj []), ij_sign = (\<lambda>k m. [3]), ij_verify = (\<lambda>k m s. Some True) \<rparr>"

theorem id_token_roundtrip_sample:
  "verifyIdToken sampleJwtLibs (fst (mintIdentityToken sampleJwtLibs sampleSigner ''app'' ''u1'' ''usr_1'' None False [''session''] 0 ''j1'' sampleTables))
     (jwksDocument sampleSigner) ''hub'' 900000 = Inr (Some (idTokenPayload sampleSigner sampleIdClaims 0 ''j1''))"
proof -
  have keys: "listWalletPubkeysForUser ''app'' ''u1'' sampleTables = [''02aa'']"
    by (simp add: listWalletPubkeysForUser_def sampleTables_def List.map_filter_def)
  have claims: "\<lparr> ic_sub = ''usr_1'', ic_app = ''app'', ic_email = None, ic_emailVerified = False,
       ic_wallets = listWalletPubkeysForUser ''app'' ''u1'' sampleTables, ic_amr = [''session''] \<rparr> = sampleIdClaims"
    by (simp add: sampleIdClaims_def keys)
  have made: "createIdTokenSigner sampleJwtLibs ''hub'' None None True ''secret'' = Inr sampleSigner"
    by (simp add: createIdTokenSigner_def configuredKey_def previousKeys_def given_def rbind_def kidOf_def sampleJwtLibs_def publishedKey_def
      putProp_def base64url_def sampleSigner_def Let_def)
  have law: "lawfulJwt sampleJwtLibs sampleSigner (idTokenPayload sampleSigner sampleIdClaims (0 div 1000) ''j1'')"
    by (simp add: lawfulJwt_def sampleJwtLibs_def idTokenHeader_def idTokenPayload_def)
  show ?thesis using id_token_roundtrip [OF made law [folded claims], of 900000] unfolding claims by simp
qed

end
