(* ===== verification/SocialLogin.thy ===== *)
theory SocialLogin
  imports IdToken Recovery AuditChain
begin

text \<open>
  Social login (\<open>services/wallet-hub-api/src/routes/authOAuth.ts\<close>) as a transition system: a call in flight is the
  transaction or the request it waits for, and calls interleave at every \<open>await\<close>. \<open>sw_accepted\<close>, \<open>sw_opened\<close>,
  \<open>sw_minted\<close> and \<open>sw_fetched\<close> record the tokens that passed the replay guard, the session keys Turnkey registered, the
  sessions minted and the keys the issuer's server ever gave.
\<close>

subsection \<open>Calls\<close>

record oauth_body =
  ob_token :: string
  ob_publicKey :: string
  ob_walletName :: "string option"
  ob_addressFormat :: "string option"
  ob_derivationPath :: "string option"
  ob_network :: "string option"

record 'k social_setup =
  ss_oidc :: oidc_libs
  ss_jwt :: "'k jwt_libs"
  ss_signer :: "'k id_signer"
  ss_googleIds :: string
  ss_hmac :: "string \<Rightarrow> string \<Rightarrow> string"
  ss_jsonb :: "json \<Rightarrow> json"
  ss_auditSecret :: "string option"
  ss_parentOrg :: string

text \<open>What a transaction draws besides: the rows' identifiers and the token's.\<close>

record social_draws =
  dw_draws :: draws
  dw_identity :: string
  dw_emailIdentity :: string
  dw_jti :: string

record made_suborg =
  md_organization :: string
  md_rootUser :: "string option"
  md_wallet :: string
  md_addresses :: "string list"
  md_activity :: string

record signup =
  up_body :: oauth_body
  up_claims :: oidc_claims
  up_adopted :: "person_row option"
  up_external :: string
  up_walletName :: string
  up_format :: string
  up_path :: string

record admission =
  on_body :: oauth_body
  on_claims :: oidc_claims
  on_person :: person_row
  on_wallet :: suborg_row
  on_created :: bool

datatype ostage =
    OaKeys oauth_body jws int
  | OaResolve oauth_body oidc_claims
  | OaIntent signup
  | OaCreate signup
  | OaCreateFailed signup string
  | OaAccounts signup made_suborg
  | OaSignup signup made_suborg "string option"
  | OaRaced signup made_suborg
  | OaLogin admission
  | OaLoginFailed admission string
  | OaSession admission string
  | OaFresh admission minted_session
  | OaIdToken admission minted_session "string option" bool
  | OaDone

record login_reply =
  lr_created :: bool
  lr_external :: string
  lr_user :: string
  lr_email :: "string option"
  lr_emailVerified :: bool
  lr_wallet :: suborg_row
  lr_session :: minted_session
  lr_idToken :: string
  lr_idTokenExpires :: int

text \<open>\<open>OaRefuse\<close>: the framework's errors; \<open>OaSend\<close>: a status with a body of its own.\<close>

datatype oauth_reply = LoggedIn login_reply | OaRefuse nat string | OaSend nat json

record oauth_call =
  ok_app :: string
  ok_request :: string
  ok_stage :: ostage
  ok_reply :: "oauth_reply option"

record accepted =
  ax_call :: nat
  ax_app :: string
  ax_token :: string
  ax_key :: string
  ax_claims :: oidc_claims

record opened =
  ox_call :: nat
  ox_app :: string
  ox_claims :: oidc_claims
  ox_user :: string
  ox_organization :: string
  ox_key :: string

record minted =
  mx_call :: nat
  mx_app :: string
  mx_claims :: oidc_claims
  mx_user :: string
  mx_session :: minted_session

record social_world =
  sw_db :: social_db
  sw_cache :: jwks_cache
  sw_audit :: "audit_row list"
  sw_calls :: "nat \<Rightarrow> oauth_call option"
  sw_accepted :: "accepted list"
  sw_opened :: "opened list"
  sw_minted :: "minted list"
  sw_fetched :: "json list"

datatype sanswer = SRan | SThrow string | SKeys "json list option" | SMade made_suborg | SAccounts "(string \<times> string option) list" | SLogged string

definition socialNow :: "social_draws \<Rightarrow> int" where
  "socialNow d = he_now (su_env (dw_draws d))"

definition socialAudit ::
    "'k social_setup \<Rightarrow> social_draws \<Rightarrow> oauth_call \<Rightarrow> string option \<Rightarrow> string \<Rightarrow> string \<Rightarrow> string \<Rightarrow> string option \<Rightarrow> (string \<times> json) list \<Rightarrow>
     AuditChain.outcome \<Rightarrow> audit_row list \<Rightarrow> audit_row list option" where
  "socialAudit S d c user eventType entityType entityId activity payload result rows =
     (case auditEvent (ss_hmac S) (ss_jsonb S) (ss_auditSecret S) (su_auditId (dw_draws d)) (toISOString (socialNow d))
        \<lparr> ip_appId = ok_app c, ip_requestId = Some (ok_request c), ip_userId = user, ip_eventType = eventType,
          ip_entityType = Some entityType, ip_entityId = Some entityId, ip_turnkeyActivityId = activity,
          ip_turnkeyRequestId = None, ip_payloadJson = JObj payload, ip_outcome = result \<rparr> rows of
        Inl e \<Rightarrow> None
      | Inr rows' \<Rightarrow> Some rows')"

definition oGoTo :: "ostage \<Rightarrow> oauth_call \<Rightarrow> oauth_call" where
  "oGoTo st c = c \<lparr> ok_stage := st \<rparr>"

definition oFinish :: "oauth_reply \<Rightarrow> oauth_call \<Rightarrow> oauth_call" where
  "oFinish r c = c \<lparr> ok_stage := OaDone, ok_reply := Some r \<rparr>"

definition oThrew :: "oauth_call \<Rightarrow> oauth_call" where
  "oThrew c = oFinish (OaRefuse 500 ''Internal Server Error'') c"

definition messageJson :: "string \<Rightarrow> json" where
  "messageJson m = JObj [(''message'', JStr m)]"

text \<open>\<open>maskEmail\<close> of this route.\<close>

definition maskedEmail :: "string \<Rightarrow> string" where
  "maskedEmail email =
     (let parts = splitOn (CHR ''@'') email; local = orElse (at_opt parts 0) []; domain = orElse (at_opt parts 1) []
      in take 1 local @ replicate (max 1 (min 6 (length local - 1))) (CHR ''*'') @ ''@'' @ domain)"

definition maskSubject :: "string \<Rightarrow> string \<Rightarrow> string" where
  "maskSubject kind subject =
     (if kind = ''email'' then maskedEmail subject
      else if kind = ''wallet'' then take 6 subject @ [CHR 0xE2, CHR 0x80, CHR 0xA6] @ lastN 4 subject
      else subject)"

definition googleConfig :: "'k social_setup \<Rightarrow> oidc_config" where
  "googleConfig S = GOOGLE_PROVIDER (filter (\<lambda>s. s \<noteq> []) (map js_trim (splitOn (CHR '','') (ss_googleIds S))))"

text \<open>\<open>/^0[23][0-9a-f]{64}$/i\<close> on a key in lower case.\<close>

definition compressedP256 :: "string \<Rightarrow> bool" where
  "compressedP256 key \<longleftrightarrow> length key = 66 \<and> key ! 0 = CHR ''0'' \<and> (key ! 1 = CHR ''2'' \<or> key ! 1 = CHR ''3'')
     \<and> list_all (\<lambda>c. hex_value c \<noteq> None) (drop 2 key)"

subsection \<open>Step 1: the token\<close>

definition afterToken :: "oauth_body \<Rightarrow> oidc_code + oidc_claims \<Rightarrow> oauth_call \<Rightarrow> oauth_call" where
  "afterToken body result c =
     (case result of
        Inl JwksUnavailable \<Rightarrow> oFinish (OaSend 503 (messageJson ''Identity provider keys are unavailable'')) c
      | Inl code \<Rightarrow> oFinish (OaRefuse 401 (''Invalid id token: '' @ code_text code)) c
      | Inr claims \<Rightarrow> oGoTo (OaResolve body claims) c)"

definition beginOAuth :: "'k social_setup \<Rightarrow> oauth_body \<Rightarrow> int \<Rightarrow> jwks_cache \<Rightarrow> oauth_call \<Rightarrow> oauth_call" where
  "beginOAuth S body now cache c =
     (let cfg = googleConfig S; key = js_lower (ob_publicKey body)
      in if oc_clientIds cfg = [] then oFinish (OaSend 503 (messageJson ''google sign-in is not configured on this Hub'')) c
         else if \<not> compressedP256 key then oFinish (OaRefuse 400 ''publicKey must be a compressed P-256 key (66 hex chars)'') c
         else case readToken (ss_oidc S) (ob_token body) of
           Inl code \<Rightarrow> afterToken body (Inl code) c
         | Inr j \<Rightarrow> (case cachedKey cache (oc_jwksUrl cfg) (jw_kid j) now of
             Some jwk \<Rightarrow> afterToken body (checkToken (ss_oidc S) cfg now key (ob_token body) j jwk) c
           | None \<Rightarrow> oGoTo (OaKeys body j now) c))"

definition keysStep :: "'k social_setup \<Rightarrow> oauth_call \<Rightarrow> oauth_body \<Rightarrow> jws \<Rightarrow> int \<Rightarrow> json list option \<Rightarrow> social_world \<Rightarrow> oauth_call \<times> social_world" where
  "keysStep S c body j now fetched w =
     (let cfg = googleConfig S; (key, cache) = refreshedKey (oc_jwksUrl cfg) (jw_kid j) now fetched (sw_cache w)
      in (afterToken body (rbind key (checkToken (ss_oidc S) cfg now (js_lower (ob_publicKey body)) (ob_token body) j)) c,
          w \<lparr> sw_cache := cache, sw_fetched := sw_fetched w @ (case fetched of None \<Rightarrow> [] | Some keys \<Rightarrow> keys) \<rparr>))"

subsection \<open>Step 2: who it is\<close>

datatype resolved_person = Replayed | Orphan | Existing person_row suborg_row | Adopt person_row | Collision person_row | NewPerson

definition oauthWallet :: "suborg_row list \<Rightarrow> suborg_row option" where
  "oauthWallet rows =
     (case List.find (\<lambda>r. wt_method r = Some ''oauth'') rows of
        Some r \<Rightarrow> Some r
      | None \<Rightarrow> (case rows of [] \<Rightarrow> None | r # rs \<Rightarrow> Some r))"

definition vouchedEmail :: "oidc_claims \<Rightarrow> string option" where
  "vouchedEmail cm = (if cm_emailVerified cm then cm_email cm else None)"

definition promoteEmail :: "int \<Rightarrow> string \<Rightarrow> string \<Rightarrow> oidc_claims \<Rightarrow> social_db \<Rightarrow> social_db" where
  "promoteEmail now appId userId cm db =
     (case vouchedEmail cm of None \<Rightarrow> db | Some email \<Rightarrow> setVerifiedPrimaryEmail now appId userId email db)"

definition resolveIdentity :: "int \<Rightarrow> string \<Rightarrow> oidc_claims \<Rightarrow> identity_row \<Rightarrow> social_db \<Rightarrow> resolved_person \<times> social_db" where
  "resolveIdentity now appId cm i db =
     (case getPerson appId (im_user i) db of
        None \<Rightarrow> (Orphan, db)
      | Some p \<Rightarrow> (case oauthWallet (walletsOfUser appId (pn_id p) db) of
          None \<Rightarrow> (Orphan, db)
        | Some r \<Rightarrow> (Existing p r, promoteEmail now appId (pn_id p) cm (touchIdentityLogin now (im_id i) db))))"

definition adoptable :: "string \<Rightarrow> string \<Rightarrow> social_db \<Rightarrow> bool" where
  "adoptable appId userId db \<longleftrightarrow> walletsOfUser appId userId db = [] \<and> list_all (\<lambda>i. im_kind i = ''email'') (listIdentitiesForUser appId userId db)"

definition resolveNew :: "string \<Rightarrow> oidc_claims \<Rightarrow> social_db \<Rightarrow> resolved_person" where
  "resolveNew appId cm db =
     (case vouchedEmail cm of
        None \<Rightarrow> NewPerson
      | Some email \<Rightarrow> (case getPersonByVerifiedEmail appId email db of
          None \<Rightarrow> NewPerson
        | Some owner \<Rightarrow> if adoptable appId (pn_id owner) db then Adopt owner else Collision owner))"

definition resolvePerson ::
    "int \<Rightarrow> string \<Rightarrow> oidc_claims \<Rightarrow> social_db \<Rightarrow> resolved_person \<times> social_db" where
  "resolvePerson now appId cm db =
     (let (replayed, db1) = recordOidcTokenUse appId (cm_tokenHash cm) (cm_expiresAt cm) db
      in if replayed then (Replayed, db)
         else case getIdentity appId (cm_provider cm) (cm_subject cm) db1 of
           Some i \<Rightarrow> resolveIdentity now appId cm i db1
         | None \<Rightarrow> (resolveNew appId cm db1, db1))"

text \<open>Names for the sign-up; nothing of it is written before Turnkey has made the sub-organization.\<close>

definition signupOf :: "social_draws \<Rightarrow> oauth_body \<Rightarrow> oidc_claims \<Rightarrow> person_row option \<Rightarrow> signup" where
  "signupOf d body cm adopted =
     (let isMainnet = (map_option js_lower (ob_network body) = Some ''mainnet'');
          external = (case adopted of
            None \<Rightarrow> newPersonExternalId (he_nonce (su_env (dw_draws d)))
          | Some p \<Rightarrow> orElse (pn_external p) (newPersonExternalId (he_nonce (su_env (dw_draws d)))))
      in \<lparr> up_body = body, up_claims = cm, up_adopted = adopted, up_external = external,
           up_walletName = orElse (ob_walletName body)
             (''arch-'' @ cm_provider cm @ ''-'' @ take 8 (drop 4 external) @ ''-'' @ show36 (nat (socialNow d))),
           up_format = orElse (ob_addressFormat body)
             (if isMainnet then ''ADDRESS_FORMAT_BITCOIN_MAINNET_P2TR'' else ''ADDRESS_FORMAT_BITCOIN_TESTNET_P2TR''),
           up_path = orElse (ob_derivationPath body) (if isMainnet then ''m/86'' @ [CHR 0x27] @ ''/0'' @ [CHR 0x27] @ ''/0'' @ [CHR 0x27] @ ''/0/0''
             else ''m/86'' @ [CHR 0x27] @ ''/1'' @ [CHR 0x27] @ ''/0'' @ [CHR 0x27] @ ''/0/0'') \<rparr>)"

definition collisionJson :: "oidc_claims \<Rightarrow> json" where
  "collisionJson cm =
     JObj [(''code'', JStr ''identity_exists''),
       (''message'', JStr ''An Arch account already uses this email. Log in with the email code to link this provider.''),
       (''emailMasked'', JStr (maskedEmail (orElse (cm_email cm) [])))]"

definition acceptedBy :: "nat \<Rightarrow> oauth_call \<Rightarrow> oauth_body \<Rightarrow> oidc_claims \<Rightarrow> accepted" where
  "acceptedBy i c body cm =
     \<lparr> ax_call = i, ax_app = ok_app c, ax_token = ob_token body, ax_key = js_lower (ob_publicKey body), ax_claims = cm \<rparr>"

text \<open>The transaction of step 2 and the refusals after it; the audit event of a collision can throw.\<close>

definition resolveStep ::
    "'k social_setup \<Rightarrow> nat \<Rightarrow> social_draws \<Rightarrow> oauth_call \<Rightarrow> oauth_body \<Rightarrow> oidc_claims \<Rightarrow> social_world \<Rightarrow> oauth_call \<times> social_world" where
  "resolveStep S i d c body cm w =
     (let (who, db) = resolvePerson (socialNow d) (ok_app c) cm (sw_db w);
          w' = w \<lparr> sw_db := db, sw_accepted := sw_accepted w @ [acceptedBy i c body cm] \<rparr>
      in case who of
           Replayed \<Rightarrow> (oFinish (OaRefuse 401 ''Invalid id token: replayed'') c, w)
         | Orphan \<Rightarrow> (oFinish (OaRefuse 409 ''This identity is linked to a user with no wallet; contact support'') c, w')
         | Collision owner \<Rightarrow>
             (case socialAudit S d c (Some (pn_id owner)) ''auth.oauth.identity_collision'' ''user'' (pn_id owner) None
                [(''provider'', JStr (cm_provider cm)), (''audience'', JStr (cm_audience cm)), (''emailMasked'', JStr (maskedEmail (orElse (cm_email cm) [])))]
                AuditChain.Failed (sw_audit w) of
                None \<Rightarrow> (oThrew c, w)
              | Some audit \<Rightarrow> (oFinish (OaSend 409 (collisionJson cm)) c, w' \<lparr> sw_audit := audit \<rparr>))
         | Existing p r \<Rightarrow> (oGoTo (OaLogin \<lparr> on_body = body, on_claims = cm, on_person = p, on_wallet = r, on_created = False \<rparr>) c, w')
         | Adopt p \<Rightarrow> (oGoTo (OaIntent (signupOf d body cm (Some p))) c, w')
         | NewPerson \<Rightarrow> (oGoTo (OaIntent (signupOf d body cm None)) c, w'))"

subsection \<open>Step 3: the sign-up\<close>

definition signupNote ::
    "'k social_setup \<Rightarrow> social_draws \<Rightarrow> oauth_call \<Rightarrow> signup \<Rightarrow> string option \<Rightarrow> (string \<times> json) list \<Rightarrow> AuditChain.outcome \<Rightarrow> audit_row list \<Rightarrow>
     audit_row list option" where
  "signupNote S d c u activity payload result rows =
     socialAudit S d c (map_option pn_id (up_adopted u)) ''turnkey.wallet.create'' ''user'' (up_external u) activity
       ((''mode'', JStr ''oauth_suborg'') # payload) result rows"

text \<open>A transaction that writes one audit event.\<close>

definition noteStep :: "audit_row list option \<Rightarrow> oauth_call \<Rightarrow> oauth_call \<Rightarrow> social_world \<Rightarrow> oauth_call \<times> social_world" where
  "noteStep noted following c w = (case noted of None \<Rightarrow> (oThrew c, w) | Some audit \<Rightarrow> (following, w \<lparr> sw_audit := audit \<rparr>))"

definition intentStep :: "'k social_setup \<Rightarrow> social_draws \<Rightarrow> oauth_call \<Rightarrow> signup \<Rightarrow> social_world \<Rightarrow> oauth_call \<times> social_world" where
  "intentStep S d c u w =
     noteStep (signupNote S d c u None
         [(''provider'', JStr (cm_provider (up_claims u))), (''walletName'', JStr (up_walletName u)), (''addressFormat'', JStr (up_format u)),
          (''derivationPath'', JStr (up_path u)), (''adoptedOrphan'', JBool (up_adopted u \<noteq> None))] Requested (sw_audit w))
       (oGoTo (OaCreate u) c) c w"

definition createFailedStep :: "'k social_setup \<Rightarrow> social_draws \<Rightarrow> oauth_call \<Rightarrow> signup \<Rightarrow> string \<Rightarrow> social_world \<Rightarrow> oauth_call \<times> social_world" where
  "createFailedStep S d c u err w =
     noteStep (signupNote S d c u None [(''error'', JStr err)] Failed (sw_audit w))
       (oFinish (OaSend 502 (messageJson ''Wallet provider did not complete the account creation'')) c) c w"

definition defaultAddress :: "made_suborg \<Rightarrow> string option" where
  "defaultAddress m = at_opt (md_addresses m) 0"

text \<open>The key of the default address among the accounts of the wallet; \<open>null\<close> too when the look-up throws.\<close>

definition accountKey :: "made_suborg \<Rightarrow> (string \<times> string option) list \<Rightarrow> string option" where
  "accountKey m accounts =
     (if \<not> given (defaultAddress m) then None
      else case List.find (\<lambda>a. fst a = the (defaultAddress m)) accounts of None \<Rightarrow> None | Some a \<Rightarrow> snd a)"

definition suborgRow :: "social_draws \<Rightarrow> string \<Rightarrow> string \<Rightarrow> signup \<Rightarrow> made_suborg \<Rightarrow> string option \<Rightarrow> suborg_row" where
  "suborgRow d appId userId u m key =
     \<lparr> wt_id = he_rowId (su_env (dw_draws d)), wt_app = appId, wt_user = Some userId, wt_organization = md_organization m,
       wt_rootUser = md_rootUser m, wt_wallet = Some (md_wallet m), wt_address = defaultAddress m, wt_publicKey = key,
       wt_format = Some (up_format u), wt_path = Some (up_path u), wt_method = Some ''oauth'',
       wt_keyVerified = (if key \<noteq> None then Some (socialNow d) else None), wt_created = socialNow d \<rparr>"

datatype signup_result = SignedUp person_row suborg_row social_db | UpRaced | UpThrew

definition signupPerson :: "social_draws \<Rightarrow> string \<Rightarrow> signup \<Rightarrow> social_db \<Rightarrow> (person_row \<times> social_db) option" where
  "signupPerson d appId u db =
     (case up_adopted u of
        Some p \<Rightarrow> Some (p, promoteEmail (socialNow d) appId (pn_id p) (up_claims u) db)
      | None \<Rightarrow> createPerson (socialNow d) (he_userId (su_env (dw_draws d))) appId (up_external u) (cm_email (up_claims u))
          (cm_emailVerified (up_claims u)) db)"

definition providerParams :: "oidc_claims \<Rightarrow> identity_params" where
  "providerParams cm =
     \<lparr> ia_kind = cm_provider cm, ia_subject = cm_subject cm, ia_issuer = Some (cm_issuer cm), ia_audience = Some (cm_audience cm),
       ia_email = cm_email cm, ia_verified = True \<rparr>"

definition emailParams :: "string \<Rightarrow> bool \<Rightarrow> identity_params" where
  "emailParams email verified =
     \<lparr> ia_kind = ''email'', ia_subject = js_lower email, ia_issuer = None, ia_audience = None, ia_email = Some email, ia_verified = verified \<rparr>"

definition emailIdentity :: "social_draws \<Rightarrow> string \<Rightarrow> string \<Rightarrow> oidc_claims \<Rightarrow> social_db \<Rightarrow> social_db option" where
  "emailIdentity d appId userId cm db =
     (case cm_email cm of
        None \<Rightarrow> Some db
      | Some email \<Rightarrow> map_option snd (insertIdentity (socialNow d) (dw_emailIdentity d) appId userId (emailParams email (cm_emailVerified cm)) db))"

definition signupRows :: "social_draws \<Rightarrow> string \<Rightarrow> signup \<Rightarrow> made_suborg \<Rightarrow> string option \<Rightarrow> social_db \<Rightarrow> signup_result" where
  "signupRows d appId u m key db =
     (case signupPerson d appId u db of
        None \<Rightarrow> UpThrew
      | Some (who, db1) \<Rightarrow>
          (let row = suborgRow d appId (pn_id who) u m key in
           case insertSubOrg row db1 of
             None \<Rightarrow> UpThrew
           | Some db2 \<Rightarrow> (case insertIdentity (socialNow d) (dw_identity d) appId (pn_id who) (providerParams (up_claims u)) db2 of
               None \<Rightarrow> UpThrew
             | Some (None, db3) \<Rightarrow> UpRaced
             | Some (Some i, db3) \<Rightarrow> (case emailIdentity d appId (pn_id who) (up_claims u) db3 of
                 None \<Rightarrow> UpThrew
               | Some db4 \<Rightarrow> SignedUp who row db4))))"

definition suborgPayload :: "signup \<Rightarrow> made_suborg \<Rightarrow> (string \<times> json) list" where
  "suborgPayload u m =
     [(''mode'', JStr ''oauth_suborg''), (''provider'', JStr (cm_provider (up_claims u))), (''subOrganizationId'', JStr (md_organization m)),
      (''rootUserId'', orNull JStr (md_rootUser m)), (''walletId'', JStr (md_wallet m)), (''defaultAddress'', orNull JStr (defaultAddress m))]"

definition signupStep :: "'k social_setup \<Rightarrow> social_draws \<Rightarrow> oauth_call \<Rightarrow> signup \<Rightarrow> made_suborg \<Rightarrow> string option \<Rightarrow> social_world \<Rightarrow> oauth_call \<times> social_world" where
  "signupStep S d c u m key w =
     (case signupRows d (ok_app c) u m key (sw_db w) of
        UpThrew \<Rightarrow> (oThrew c, w)
      | UpRaced \<Rightarrow> (oGoTo (OaRaced u m) c, w)
      | SignedUp who row db \<Rightarrow>
          (case socialAudit S d c (Some (pn_id who)) ''turnkey.wallet.create'' ''turnkey_resource'' (wt_id row) (Some (md_activity m))
             (suborgPayload u m) AuditChain.Succeeded (sw_audit w) of
             None \<Rightarrow> (oThrew c, w)
           | Some audit \<Rightarrow>
               (oGoTo (OaLogin \<lparr> on_body = up_body u, on_claims = up_claims u, on_person = who, on_wallet = row, on_created = True \<rparr>) c,
                w \<lparr> sw_db := db, sw_audit := audit \<rparr>)))"

definition racedStep :: "'k social_setup \<Rightarrow> social_draws \<Rightarrow> oauth_call \<Rightarrow> signup \<Rightarrow> made_suborg \<Rightarrow> social_world \<Rightarrow> oauth_call \<times> social_world" where
  "racedStep S d c u m w =
     noteStep (signupNote S d c u (Some (md_activity m))
         [(''provider'', JStr (cm_provider (up_claims u))), (''subOrganizationId'', JStr (md_organization m)), (''walletId'', JStr (md_wallet m)),
          (''error'', JStr ''identity_raced'')] Failed (sw_audit w))
       (oFinish (OaSend 409 (JObj [(''code'', JStr ''identity_raced''),
         (''message'', JStr ''This identity was just linked to another account; sign in again'')])) c) c w"

subsection \<open>Steps 4 and 5: the session\<close>

definition loginNote ::
    "'k social_setup \<Rightarrow> social_draws \<Rightarrow> oauth_call \<Rightarrow> admission \<Rightarrow> string option \<Rightarrow> (string \<times> json) list \<Rightarrow> AuditChain.outcome \<Rightarrow> audit_row list \<Rightarrow>
     audit_row list option" where
  "loginNote S d c ad activity payload result rows =
     socialAudit S d c (Some (pn_id (on_person ad))) ''auth.oauth.login'' ''turnkey_resource'' (wt_id (on_wallet ad)) activity
       ([(''provider'', JStr (cm_provider (on_claims ad))), (''created'', JBool (on_created ad))] @ payload) result rows"

definition openedBy :: "nat \<Rightarrow> oauth_call \<Rightarrow> admission \<Rightarrow> opened" where
  "openedBy i c ad =
     \<lparr> ox_call = i, ox_app = ok_app c, ox_claims = on_claims ad, ox_user = pn_id (on_person ad),
       ox_organization = wt_organization (on_wallet ad), ox_key = js_lower (ob_publicKey (on_body ad)) \<rparr>"

definition loginFailedStep :: "'k social_setup \<Rightarrow> social_draws \<Rightarrow> oauth_call \<Rightarrow> admission \<Rightarrow> string \<Rightarrow> social_world \<Rightarrow> oauth_call \<times> social_world" where
  "loginFailedStep S d c ad err w =
     noteStep (loginNote S d c ad None [(''error'', JStr err)] Failed (sw_audit w))
       (oFinish (OaSend 502 (messageJson ''Wallet provider did not open the session'')) c) c w"

definition sessionStep :: "'k social_setup \<Rightarrow> nat \<Rightarrow> social_draws \<Rightarrow> oauth_call \<Rightarrow> admission \<Rightarrow> string \<Rightarrow> social_world \<Rightarrow> oauth_call \<times> social_world" where
  "sessionStep S i d c ad activity w =
     (case mintSessionForUser (su_env (dw_draws d)) (ok_app c) (pn_id (on_person ad)) (hubView (sw_db w)) of
        None \<Rightarrow> (oThrew c, w)
      | Some (session, hub) \<Rightarrow>
          (case loginNote S d c ad (Some activity) [(''sessionId'', JStr (mt_session session)), (''audience'', JStr (cm_audience (on_claims ad)))]
             AuditChain.Succeeded (sw_audit w) of
             None \<Rightarrow> (oThrew c, w)
           | Some audit \<Rightarrow> (oGoTo (OaFresh ad session) c,
               w \<lparr> sw_db := withSessions hub (sw_db w), sw_audit := audit,
                   sw_minted := sw_minted w @ [\<lparr> mx_call = i, mx_app = ok_app c, mx_claims = on_claims ad, mx_user = pn_id (on_person ad),
                     mx_session = session \<rparr>] \<rparr>)))"

definition freshStep :: "oauth_call \<Rightarrow> admission \<Rightarrow> minted_session \<Rightarrow> social_db \<Rightarrow> oauth_call" where
  "freshStep c ad session db =
     (let fresh = getPerson (ok_app c) (pn_id (on_person ad)) db;
          email = (case fresh of None \<Rightarrow> cm_email (on_claims ad)
                   | Some p \<Rightarrow> (case pn_email p of Some e \<Rightarrow> Some e | None \<Rightarrow> cm_email (on_claims ad)));
          emailVerified = (case fresh of None \<Rightarrow> False | Some p \<Rightarrow> pn_verified p \<noteq> None)
      in oGoTo (OaIdToken ad session email emailVerified) c)"

definition idTokenStep :: "'k social_setup \<Rightarrow> social_draws \<Rightarrow> oauth_call \<Rightarrow> admission \<Rightarrow> minted_session \<Rightarrow> string option \<Rightarrow> bool \<Rightarrow> social_db \<Rightarrow> oauth_call" where
  "idTokenStep S d c ad session email emailVerified db =
     (let p = on_person ad; external = orElse (pn_external p) (pn_id p);
          token = mintIdentityToken (ss_jwt S) (ss_signer S) (ok_app c) (pn_id p) external email emailVerified
            [cm_provider (on_claims ad)] (socialNow d) (dw_jti d) db
      in oFinish (LoggedIn \<lparr> lr_created = on_created ad, lr_external = external, lr_user = pn_id p, lr_email = email,
           lr_emailVerified = emailVerified, lr_wallet = on_wallet ad, lr_session = session, lr_idToken = fst token,
           lr_idTokenExpires = snd token \<rparr>) c)"

subsection \<open>Steps\<close>

text \<open>A transaction runs or throws; a request to Turnkey or the key server is answered or throws.\<close>

definition oRan :: "sanswer \<Rightarrow> oauth_call \<Rightarrow> social_world \<Rightarrow> oauth_call \<times> social_world \<Rightarrow> oauth_call \<times> social_world" where
  "oRan ans c w following = (case ans of SRan \<Rightarrow> following | SThrow e \<Rightarrow> (oThrew c, w) | _ \<Rightarrow> (c, w))"

fun socialStep ::
    "'k social_setup \<Rightarrow> nat \<Rightarrow> social_draws \<Rightarrow> sanswer \<Rightarrow> oauth_call \<Rightarrow> ostage \<Rightarrow> social_world \<Rightarrow> oauth_call \<times> social_world" where
  "socialStep S i d ans c (OaKeys body j now) w = (case ans of SKeys fetched \<Rightarrow> keysStep S c body j now fetched w | _ \<Rightarrow> (c, w))"
| "socialStep S i d ans c (OaResolve body cm) w = oRan ans c w (resolveStep S i d c body cm w)"
| "socialStep S i d ans c (OaIntent u) w = oRan ans c w (intentStep S d c u w)"
| "socialStep S i d ans c (OaCreate u) w =
     (case ans of SMade m \<Rightarrow> (oGoTo (OaAccounts u m) c, w) | SThrow e \<Rightarrow> (oGoTo (OaCreateFailed u e) c, w) | _ \<Rightarrow> (c, w))"
| "socialStep S i d ans c (OaCreateFailed u e) w = oRan ans c w (createFailedStep S d c u e w)"
| "socialStep S i d ans c (OaAccounts u m) w =
     (case ans of SAccounts as \<Rightarrow> (oGoTo (OaSignup u m (accountKey m as)) c, w) | SThrow e \<Rightarrow> (oGoTo (OaSignup u m None) c, w) | _ \<Rightarrow> (c, w))"
| "socialStep S i d ans c (OaSignup u m key) w = oRan ans c w (signupStep S d c u m key w)"
| "socialStep S i d ans c (OaRaced u m) w = oRan ans c w (racedStep S d c u m w)"
| "socialStep S i d ans c (OaLogin ad) w =
     (case ans of
        SLogged activity \<Rightarrow> (oGoTo (OaSession ad activity) c, w \<lparr> sw_opened := sw_opened w @ [openedBy i c ad] \<rparr>)
      | SThrow e \<Rightarrow> (oGoTo (OaLoginFailed ad e) c, w) | _ \<Rightarrow> (c, w))"
| "socialStep S i d ans c (OaLoginFailed ad e) w = oRan ans c w (loginFailedStep S d c ad e w)"
| "socialStep S i d ans c (OaSession ad activity) w = oRan ans c w (sessionStep S i d c ad activity w)"
| "socialStep S i d ans c (OaFresh ad session) w = oRan ans c w (freshStep c ad session (sw_db w), w)"
| "socialStep S i d ans c (OaIdToken ad session email ok) w = oRan ans c w (idTokenStep S d c ad session email ok (sw_db w), w)"
| "socialStep S i d ans c OaDone w = (c, w)"

text \<open>
  What others do to the tables: a new user with no primary email, a wallet of a user, the unverified email identity that
  migration 020 makes of a recovery email, the verification of a wallet's key, linked wallets and sessions. No route but this one writes identities, verified
  emails or accepted tokens.
\<close>

datatype social_event =
    BeginOAuth nat "string option" string oauth_body int
  | ContinueOAuth nat social_draws sanswer
  | OtherUser person_row
  | OtherWallet suborg_row
  | OtherEmail int string string string string
  | OtherVerified int string string string
  | OtherTables "(string \<times> string \<times> string option) list" "session_row list"

definition oauthCall :: "'k social_setup \<Rightarrow> string option \<Rightarrow> string \<Rightarrow> oauth_body \<Rightarrow> int \<Rightarrow> jwks_cache \<Rightarrow> oauth_call" where
  "oauthCall S app request body now cache =
     (let c = \<lparr> ok_app = orElse app [], ok_request = request, ok_stage = OaDone, ok_reply = None \<rparr>
      in if \<not> given app then oFinish (OaRefuse 401 ''Missing app context'') c else beginOAuth S body now cache c)"

definition otherUser :: "person_row \<Rightarrow> social_db \<Rightarrow> social_db" where
  "otherUser p db =
     (if pn_id p \<in> pn_id ` set (sd_people db) then db
      else db \<lparr> sd_people := sd_people db @ [p \<lparr> pn_email := None, pn_verified := None \<rparr>] \<rparr>)"

definition otherWallet :: "suborg_row \<Rightarrow> social_db \<Rightarrow> social_db" where
  "otherWallet r db =
     (case wt_user r of
        Some u \<Rightarrow> if getPerson (wt_app r) u db = None then db else orElse (insertSubOrg r db) db
      | None \<Rightarrow> orElse (insertSubOrg r db) db)"

definition otherEmail :: "int \<Rightarrow> string \<Rightarrow> string \<Rightarrow> string \<Rightarrow> string \<Rightarrow> social_db \<Rightarrow> social_db" where
  "otherEmail now rowId appId userId email db =
     (if getPerson appId userId db = None \<or> getIdentity appId ''email'' (js_lower email) db \<noteq> None then db
      else case insertIdentity now rowId appId userId (emailParams email False) db of None \<Rightarrow> db | Some (i, db') \<Rightarrow> db')"

definition otherVerified :: "int \<Rightarrow> string \<Rightarrow> string \<Rightarrow> string \<Rightarrow> social_db \<Rightarrow> social_db" where
  "otherVerified now rowId appId walletId db =
     db \<lparr> sd_wallets := map (\<lambda>r. if wt_id r = rowId \<and> wt_app r = appId
       then r \<lparr> wt_keyVerified := Some now, wt_wallet := Some (orElse (wt_wallet r) walletId) \<rparr> else r) (sd_wallets db) \<rparr>"

fun socialEvent :: "'k social_setup \<Rightarrow> social_event \<Rightarrow> social_world \<Rightarrow> social_world" where
  "socialEvent S (BeginOAuth i app request body now) w =
     (if sw_calls w i \<noteq> None then w else w \<lparr> sw_calls := (sw_calls w)(i \<mapsto> oauthCall S app request body now (sw_cache w)) \<rparr>)"
| "socialEvent S (ContinueOAuth i d ans) w =
     (case sw_calls w i of
        None \<Rightarrow> w
      | Some c \<Rightarrow> (let (c', w') = socialStep S i d ans c (ok_stage c) w in w' \<lparr> sw_calls := (sw_calls w')(i \<mapsto> c') \<rparr>))"
| "socialEvent S (OtherUser p) w = w \<lparr> sw_db := otherUser p (sw_db w) \<rparr>"
| "socialEvent S (OtherWallet r) w = w \<lparr> sw_db := otherWallet r (sw_db w) \<rparr>"
| "socialEvent S (OtherEmail now rowId appId userId email) w = w \<lparr> sw_db := otherEmail now rowId appId userId email (sw_db w) \<rparr>"
| "socialEvent S (OtherVerified now rowId appId walletId) w = w \<lparr> sw_db := otherVerified now rowId appId walletId (sw_db w) \<rparr>"
| "socialEvent S (OtherTables linked rows) w = w \<lparr> sw_db := (sw_db w) \<lparr> sd_linked := linked, sd_sessions := rows \<rparr> \<rparr>"

definition noRows :: social_db where
  "noRows = \<lparr> sd_people = [], sd_identities = [], sd_wallets = [], sd_linked = [], sd_replay = [], sd_sessions = [] \<rparr>"

definition socialStart :: "audit_row list \<Rightarrow> social_world" where
  "socialStart audit =
     \<lparr> sw_db = noRows, sw_cache = Map.empty, sw_audit = audit, sw_calls = (\<lambda>i. None), sw_accepted = [], sw_opened = [], sw_minted = [],
       sw_fetched = [] \<rparr>"

definition socialRun :: "'k social_setup \<Rightarrow> audit_row list \<Rightarrow> social_event list \<Rightarrow> social_world" where
  "socialRun S audit evs = fold (socialEvent S) evs (socialStart audit)"

subsection \<open>The signed-in person\<close>

datatype 'a found = Found 'a | NotFound nat string

record identity_view =
  iv_id :: string
  iv_kind :: string
  iv_subject :: string
  iv_email :: "string option"
  iv_verified :: bool
  iv_created :: int
  iv_lastLogin :: "int option"

record wallet_view =
  wv_id :: string
  wv_organization :: string
  wv_method :: "string option"
  wv_address :: "string option"
  wv_publicKey :: "string option"
  wv_created :: int

record me_reply =
  me_external :: "string option"
  me_user :: string
  me_email :: "string option"
  me_emailVerified :: bool
  me_identities :: "identity_view list"
  me_wallets :: "wallet_view list"

text \<open>\<open>requireSession\<close> before a handler; it may refresh the session's row.\<close>

definition behindSession :: "hub_env \<Rightarrow> auth_request \<Rightarrow> social_db \<Rightarrow> (principal \<Rightarrow> social_db \<Rightarrow> 'a found) \<Rightarrow> 'a found \<times> social_db" where
  "behindSession env request db handler =
     (case attachSessionOrReply env request (hubView db) of
        (Inl msg, hub) \<Rightarrow> (NotFound 401 msg, withSessions hub db)
      | (Inr request', hub) \<Rightarrow> (case rq_session request' of
          None \<Rightarrow> (NotFound 401 ''Missing session'', withSessions hub db)
        | Some p \<Rightarrow> (handler p (withSessions hub db), withSessions hub db)))"

definition identityView :: "identity_row \<Rightarrow> identity_view" where
  "identityView i =
     \<lparr> iv_id = im_id i, iv_kind = im_kind i, iv_subject = maskSubject (im_kind i) (im_subject i),
       iv_email = (if given (im_email i) then Some (maskedEmail (the (im_email i))) else None), iv_verified = (im_verified i \<noteq> None),
       iv_created = im_created i, iv_lastLogin = im_lastLogin i \<rparr>"

definition walletView :: "suborg_row \<Rightarrow> wallet_view" where
  "walletView r =
     \<lparr> wv_id = wt_id r, wv_organization = wt_organization r, wv_method = wt_method r, wv_address = wt_address r,
       wv_publicKey = wt_publicKey r, wv_created = wt_created r \<rparr>"

definition getMe :: "'k social_setup \<Rightarrow> hub_env \<Rightarrow> auth_request \<Rightarrow> social_db \<Rightarrow> me_reply found \<times> social_db" where
  "getMe S env request db = behindSession env request db (\<lambda>p db'.
     case getPerson (pr_app p) (pr_user p) db' of
       None \<Rightarrow> NotFound 404 ''Unknown user''
     | Some q \<Rightarrow> Found \<lparr> me_external = pn_external q, me_user = pn_id q, me_email = pn_email q, me_emailVerified = (pn_verified q \<noteq> None),
         me_identities = map identityView (listIdentitiesForUser (pr_app p) (pr_user p) db'),
         me_wallets = map walletView (filter (\<lambda>w. wt_organization w \<noteq> ss_parentOrg S) (walletsOfUser (pr_app p) (pr_user p) db')) \<rparr>)"

definition postIdToken :: "'k social_setup \<Rightarrow> hub_env \<Rightarrow> int \<Rightarrow> string \<Rightarrow> auth_request \<Rightarrow> social_db \<Rightarrow> (string \<times> int) found \<times> social_db" where
  "postIdToken S env now jti request db = behindSession env request db (\<lambda>p db'.
     case getPerson (pr_app p) (pr_user p) db' of
       None \<Rightarrow> NotFound 404 ''Unknown user''
     | Some q \<Rightarrow> Found (mintIdentityToken (ss_jwt S) (ss_signer S) (pr_app p) (pn_id q) (orElse (pn_external q) (pn_id q)) (pn_email q)
         (pn_verified q \<noteq> None) [''session''] now jti db'))"

definition getAuthWallet :: "hub_env \<Rightarrow> string \<Rightarrow> auth_request \<Rightarrow> social_db \<Rightarrow> wallet_view found \<times> social_db" where
  "getAuthWallet env resourceId request db = behindSession env request db (\<lambda>p db'.
     case walletByIdForApp resourceId (pr_app p) db' of
       None \<Rightarrow> NotFound 404 ''Unknown wallet''
     | Some w \<Rightarrow> if wt_user w \<noteq> Some (pr_user p) then NotFound 404 ''Unknown wallet'' else Found (walletView w))"

end
