(* ===== verification/SocialTables.thy ===== *)
theory SocialTables
  imports SocialLogin
begin

text \<open>What every statement of the person layer keeps: the well-formed tables, and that rows keep their key and their owner.\<close>

subsection \<open>Rows keep their owner\<close>

definition grows :: "social_db \<Rightarrow> social_db \<Rightarrow> bool" where
  "grows db db' \<longleftrightarrow>
     (\<forall>p\<in>set (sd_people db). \<exists>p'\<in>set (sd_people db'). pn_id p' = pn_id p \<and> pn_app p' = pn_app p)
     \<and> (\<forall>i\<in>set (sd_identities db). \<exists>i'\<in>set (sd_identities db'). identityKey i' = identityKey i \<and> im_user i' = im_user i)
     \<and> (\<forall>r\<in>set (sd_wallets db). \<exists>r'\<in>set (sd_wallets db'). wt_id r' = wt_id r \<and> wt_app r' = wt_app r \<and> wt_user r' = wt_user r
          \<and> wt_organization r' = wt_organization r)"

lemma grows_refl: "grows db db"
  unfolding grows_def by blast

lemma grows_trans:
  assumes "grows a b" "grows b c"
  shows "grows a c"
  unfolding grows_def
proof (intro conjI ballI)
  fix p assume "p \<in> set (sd_people a)"
  then obtain p' where "p' \<in> set (sd_people b)" "pn_id p' = pn_id p" "pn_app p' = pn_app p" using assms(1) unfolding grows_def by blast
  then show "\<exists>q\<in>set (sd_people c). pn_id q = pn_id p \<and> pn_app q = pn_app p" using assms(2) unfolding grows_def by metis
next
  fix i assume "i \<in> set (sd_identities a)"
  then obtain i' where "i' \<in> set (sd_identities b)" "identityKey i' = identityKey i" "im_user i' = im_user i"
    using assms(1) unfolding grows_def by blast
  then show "\<exists>j\<in>set (sd_identities c). identityKey j = identityKey i \<and> im_user j = im_user i" using assms(2) unfolding grows_def by metis
next
  fix r assume "r \<in> set (sd_wallets a)"
  then obtain r' where "r' \<in> set (sd_wallets b)" "wt_id r' = wt_id r" "wt_app r' = wt_app r" "wt_user r' = wt_user r"
      "wt_organization r' = wt_organization r" using assms(1) unfolding grows_def by blast
  then show "\<exists>s\<in>set (sd_wallets c). wt_id s = wt_id r \<and> wt_app s = wt_app r \<and> wt_user s = wt_user r \<and> wt_organization s = wt_organization r"
    using assms(2) unfolding grows_def by metis
qed

lemma grows_personOf: "grows db db' \<Longrightarrow> personOf db a u \<Longrightarrow> personOf db' a u"
  unfolding grows_def personOf_def by metis

lemma grows_more:
  "sd_people db' = sd_people db @ ps \<Longrightarrow> sd_identities db' = sd_identities db @ ids \<Longrightarrow> sd_wallets db' = sd_wallets db @ rs \<Longrightarrow> grows db db'"
  unfolding grows_def by auto

subsection \<open>Statements\<close>

lemma record_db:
  assumes "recordOidcTokenUse a h e db = (replayed, db')"
  shows "grows db db'" "tablesOk db \<Longrightarrow> tablesOk db'" "sd_people db' = sd_people db" "sd_identities db' = sd_identities db"
    "sd_wallets db' = sd_wallets db" "replayed \<longleftrightarrow> h \<in> fst ` set (sd_replay db)"
    "\<not> replayed \<Longrightarrow> sd_replay db' = sd_replay db @ [(h, a, e)]"
  using assms
  by (auto simp: recordOidcTokenUse_def tablesOk_def personOf_def grows_def split: if_splits)

text \<open>An update of identity rows that keeps identifier, key and owner.\<close>

lemma map_identities:
  assumes "tablesOk db" "\<And>i. i \<in> set (sd_identities db) \<Longrightarrow> im_id (f i) = im_id i \<and> identityKey (f i) = identityKey i \<and> im_user (f i) = im_user i"
  shows "grows db (db \<lparr> sd_identities := map f (sd_identities db) \<rparr>)" "tablesOk (db \<lparr> sd_identities := map f (sd_identities db) \<rparr>)"
proof -
  show "grows db (db \<lparr> sd_identities := map f (sd_identities db) \<rparr>)"
    unfolding grows_def using assms(2) by (fastforce intro: imageI)
  have keys: "map identityKey (map f (sd_identities db)) = map identityKey (sd_identities db)"
      "map im_id (map f (sd_identities db)) = map im_id (sd_identities db)" using assms(2) by simp_all
  have owned: "personOf db (im_app j) (im_user j)" if j: "j \<in> set (map f (sd_identities db))" for j
  proof -
    obtain i where i: "i \<in> set (sd_identities db)" "j = f i" using j by auto
    then have "im_app j = im_app i" "im_user j = im_user i" using assms(2) [OF i(1)] by (simp_all add: identityKey_def)
    then show ?thesis using tablesOk_D(6) [OF assms(1) i(1)] by simp
  qed
  show "tablesOk (db \<lparr> sd_identities := map f (sd_identities db) \<rparr>)"
    using assms(1) keys owned unfolding tablesOk_def personOf_def by (simp del: map_map set_map)
qed

lemma touch_db:
  assumes "tablesOk db"
  shows "grows db (touchIdentityLogin now x db)" "tablesOk (touchIdentityLogin now x db)"
  unfolding touchIdentityLogin_def
  by (rule map_identities [OF assms]; simp add: identityKey_def)+

lemma insertIdentity_db:
  assumes "insertIdentity now x a u ps db = Some (found, db')" "tablesOk db" "personOf db a u"
  shows "grows db db'" "tablesOk db'" "sd_people db' = sd_people db" "sd_wallets db' = sd_wallets db" "sd_replay db' = sd_replay db"
    "\<And>i. found = Some i \<Longrightarrow> i \<in> set (sd_identities db') \<and> identityKey i = (a, ia_kind ps, ia_subject ps) \<and> im_user i = u"
proof -
  let ?key = "(a, ia_kind ps, ia_subject ps)"
  show same: "sd_people db' = sd_people db" "sd_wallets db' = sd_wallets db" "sd_replay db' = sd_replay db"
    using assms(1) by (auto simp: insertIdentity_def Let_def split: option.splits if_splits)
  have "grows db db' \<and> tablesOk db' \<and> (\<forall>i. found = Some i \<longrightarrow> i \<in> set (sd_identities db') \<and> identityKey i = ?key \<and> im_user i = u)"
  proof (cases "List.find (\<lambda>i. identityKey i = ?key) (sd_identities db)")
    case None
    then have fresh: "?key \<notin> identityKey ` set (sd_identities db)" unfolding find_None_iff by (metis imageE)
    define i where "i = \<lparr> im_id = x, im_app = a, im_user = u, im_kind = ia_kind ps, im_subject = ia_subject ps, im_issuer = ia_issuer ps,
      im_audience = ia_audience ps, im_email = ia_email ps, im_verified = (if ia_verified ps then Some now else None),
      im_created = now, im_lastLogin = Some now \<rparr>"
    have i: "identityKey i = ?key" "im_user i = u" "im_id i \<notin> im_id ` set (sd_identities db)" "found = Some i" "im_app i = a"
        "db' = db \<lparr> sd_identities := sd_identities db @ [i] \<rparr>"
      using assms(1) None by (simp_all add: insertIdentity_def Let_def identityKey_def i_def split: if_split_asm)
    have "tablesOk db'" using assms(2,3) i fresh unfolding tablesOk_def personOf_def by simp
    moreover have "grows db db'" by (rule grows_more [where ps = "[]" and ids = "[i]" and rs = "[]"]) (simp_all add: i)
    ultimately show ?thesis using i by simp
  next
    case (Some i)
    note i = find_Some_mem [OF Some]
    show ?thesis
    proof (cases "im_user i = u")
      case False
      then show ?thesis using assms(1,2) Some by (auto simp: insertIdentity_def Let_def grows_refl)
    next
      case True
      define i' where "i' = i \<lparr> im_lastLogin := Some now,
        im_verified := (case im_verified i of None \<Rightarrow> (if ia_verified ps then Some now else None) | Some t \<Rightarrow> Some t) \<rparr>"
      let ?f = "\<lambda>j. if identityKey j = ?key then i' else j"
      have db': "db' = db \<lparr> sd_identities := map ?f (sd_identities db) \<rparr>" and found: "found = Some i'"
        using assms(1) Some True unfolding i'_def by (simp_all add: insertIdentity_def Let_def)
      have i': "identityKey i' = ?key" "im_user i' = u" "im_id i' = im_id i" "im_app i' = a" using i True by (simp_all add: i'_def identityKey_def)
      have only: "j = i" if "j \<in> set (sd_identities db)" "identityKey j = ?key" for j
        using tablesOk_D(2) [OF assms(2)] i that by (metis distinct_map inj_onD)
      have f: "identityKey (?f j) = identityKey j" "im_user (?f j) = im_user j" "im_id (?f j) = im_id j" "im_app (?f j) = im_app j"
        if "j \<in> set (sd_identities db)" for j using only [OF that] i' i True by (auto simp: identityKey_def)
      have "grows db db'" "tablesOk db'" unfolding db' by (rule map_identities [OF assms(2)]; use f in metis)+
      moreover have "i' \<in> set (sd_identities db')" using i unfolding db' by force
      ultimately show ?thesis using found i' by simp
    qed
  qed
  then show "grows db db'" "tablesOk db'" "\<And>i. found = Some i \<Longrightarrow> i \<in> set (sd_identities db') \<and> identityKey i = ?key \<and> im_user i = u"
    by blast+
qed

lemma createPerson_db:
  assumes "createPerson now x a ext email verified db = Some (p, db')" "tablesOk db" "verified \<longrightarrow> email \<noteq> None"
  shows "grows db db'" "tablesOk db'" "sd_people db' = sd_people db @ [p]" "sd_identities db' = sd_identities db"
    "sd_replay db' = sd_replay db" "sd_wallets db' = sd_wallets db" "pn_app p = a" "pn_email p = email" "pn_verified p \<noteq> None \<longleftrightarrow> verified"
proof -
  have facts: "pn_app p = a" "pn_email p = email" "pn_verified p \<noteq> None \<longleftrightarrow> verified" "pn_id p = x" "x \<notin> pn_id ` set (sd_people db)"
      "db' = db \<lparr> sd_people := sd_people db @ [p] \<rparr>" "\<And>q e. verified \<Longrightarrow> email = Some e \<Longrightarrow> q \<in> set (sd_people db) \<Longrightarrow> \<not> holdsEmail a e q"
    using assms(1) by (auto simp: createPerson_def Let_def split: if_splits)
  show "grows db db'" by (rule grows_more [where ps = "[p]" and ids = "[]" and rs = "[]"]) (simp_all add: facts)
  have clash: False if q: "q \<in> set (sd_people db)" "holdsEmail (pn_app r) e q" "holdsEmail (pn_app r) e p" "pn_app r = a" for q r e
  proof -
    obtain e' where e': "email = Some e'" "js_lower e' = js_lower e" "verified" using q(3) facts(2,3) by (auto simp: holdsEmail_def)
    then have "holdsEmail a e' q" using q by (simp add: holdsEmail_def)
    then show False using facts(7) [OF e'(3,1) q(1)] by simp
  qed
  have "emailsOk (sd_people db')"
    unfolding emailsOk_def
  proof (intro conjI ballI allI impI)
    fix q r e
    assume mem: "q \<in> set (sd_people db')" "r \<in> set (sd_people db')" and holds: "holdsEmail (pn_app r) e q \<and> holdsEmail (pn_app r) e r"
    have app: "pn_app q = pn_app r" using holds holdsEmail_app by metis
    show "q = r"
    proof (cases "q \<in> set (sd_people db) \<and> r \<in> set (sd_people db)")
      case True
      then show ?thesis using tablesOk_D(8) [OF assms(2)] holds by blast
    next
      case False
      then have "q = p \<or> r = p" using mem facts(6) by auto
      then consider "q = p" "r = p" | "q = p" "r \<in> set (sd_people db)" | "r = p" "q \<in> set (sd_people db)" using mem facts(6) by auto
      then show ?thesis
      proof cases
        case 2
        then show ?thesis using clash [OF 2(2)] holds app facts(1) by metis
      next
        case 3
        then show ?thesis using clash [OF 3(2)] holds app facts(1) by metis
      qed simp
    qed
  next
    fix q assume "q \<in> set (sd_people db')" "pn_verified q \<noteq> None"
    then show "pn_email q \<noteq> None" using tablesOk_D(9) [OF assms(2), of q] facts(2,3,6) assms(3) by auto
  qed
  moreover have "personOf db b u \<Longrightarrow> personOf db' b u" for b u using facts(6) by (auto simp: personOf_def)
  ultimately show "tablesOk db'"
    using assms(2) facts(4,5,6) unfolding tablesOk_def by auto
  show "sd_people db' = sd_people db @ [p]" "sd_identities db' = sd_identities db" "sd_replay db' = sd_replay db" "sd_wallets db' = sd_wallets db"
    "pn_app p = a" "pn_email p = email" "pn_verified p \<noteq> None \<longleftrightarrow> verified" using facts by simp_all
qed

text \<open>A promotion gives the person this email as a verified one, or leaves what a row says of emails as it is.\<close>

definition promoted :: "int \<Rightarrow> string \<Rightarrow> string \<Rightarrow> string \<Rightarrow> person_row \<Rightarrow> person_row" where
  "promoted now a u email p =
     (if pn_app p = a \<and> pn_id p = u
      then p \<lparr> pn_email := Some (orElse (pn_email p) email),
             pn_verified := (if js_lower (orElse (pn_email p) email) = js_lower email then Some (orElse (pn_verified p) now) else pn_verified p) \<rparr>
      else p)"

lemma setVerified_cases:
  "setVerifiedPrimaryEmail now a u email db =
     (if \<exists>q\<in>set (sd_people db). pn_id q \<noteq> u \<and> holdsEmail a email q then db
      else db \<lparr> sd_people := map (promoted now a u email) (sd_people db) \<rparr>)"
  unfolding setVerifiedPrimaryEmail_def promoted_def [abs_def] by (rule refl)

lemma promoted_same: "pn_id (promoted now a u email p) = pn_id p" "pn_app (promoted now a u email p) = pn_app p"
  by (simp_all add: promoted_def)

lemma promoted_email:
  "(pn_verified p \<noteq> None \<longrightarrow> pn_email p \<noteq> None) \<Longrightarrow>
     (pn_email (promoted now a u email p) = pn_email p \<and> pn_verified (promoted now a u email p) = pn_verified p)
     \<or> (pn_app p = a \<and> pn_id p = u \<and> holdsEmail a email (promoted now a u email p))
     \<or> (pn_email p = Some (orElse (pn_email p) email) \<and> pn_email (promoted now a u email p) = pn_email p
          \<and> pn_verified (promoted now a u email p) = pn_verified p)"
  by (cases "pn_email p") (auto simp: promoted_def orElse_def holdsEmail_def)

lemma holds_promoted:
  assumes "holdsEmail b e (promoted now a u email p)" "pn_verified p \<noteq> None \<longrightarrow> pn_email p \<noteq> None"
  shows "holdsEmail b e p \<or> (pn_app p = a \<and> pn_id p = u \<and> js_lower e = js_lower email \<and> b = a)"
  using assms promoted_email [OF assms(2), of now a u email]
  by (auto simp: holdsEmail_def promoted_same)

lemma setVerified_db:
  assumes "tablesOk db"
  shows "grows db (setVerifiedPrimaryEmail now a u email db)" "tablesOk (setVerifiedPrimaryEmail now a u email db)"
    "sd_identities (setVerifiedPrimaryEmail now a u email db) = sd_identities db"
    "sd_wallets (setVerifiedPrimaryEmail now a u email db) = sd_wallets db"
    "sd_replay (setVerifiedPrimaryEmail now a u email db) = sd_replay db"
proof -
  let ?db = "setVerifiedPrimaryEmail now a u email db" and ?f = "promoted now a u email"
  show same: "sd_identities ?db = sd_identities db" "sd_wallets ?db = sd_wallets db" "sd_replay ?db = sd_replay db"
    by (simp_all add: setVerified_cases)
  have "grows db ?db \<and> tablesOk ?db"
  proof (cases "\<exists>q\<in>set (sd_people db). pn_id q \<noteq> u \<and> holdsEmail a email q")
    case True
    then show ?thesis using assms by (simp add: setVerified_cases grows_refl)
  next
    case False
    then have db: "sd_people ?db = map ?f (sd_people db)" unfolding setVerified_cases by (simp only: if_False) simp
    have ok: "pn_verified p \<noteq> None \<longrightarrow> pn_email p \<noteq> None" if "p \<in> set (sd_people db)" for p using tablesOk_D(9) [OF assms that] by blast
    have grows: "grows db ?db" unfolding grows_def db same by (auto simp: promoted_same)
    have "emailsOk (sd_people ?db)"
      unfolding emailsOk_def db
    proof (intro conjI ballI allI impI)
      fix p' q' e
      assume mem: "p' \<in> set (map ?f (sd_people db))" "q' \<in> set (map ?f (sd_people db))"
        and holds: "holdsEmail (pn_app q') e p' \<and> holdsEmail (pn_app q') e q'"
      obtain p q where p: "p \<in> set (sd_people db)" "p' = ?f p" and q: "q \<in> set (sd_people db)" "q' = ?f q" using mem by auto
      have app: "pn_app q' = pn_app q" using q(2) by (simp add: promoted_same)
      note hp = holds_promoted [OF holds [THEN conjunct1, unfolded p(2)] ok [OF p(1)]]
      note hq = holds_promoted [OF holds [THEN conjunct2, unfolded q(2)] ok [OF q(1)]]
      have clash: False if "r \<in> set (sd_people db)" "holdsEmail a e r" "pn_id r \<noteq> u" "js_lower e = js_lower email" for r
        using False that by (auto simp: holdsEmail_def)
      have "p = q"
      proof (cases "holdsEmail (pn_app q') e p \<and> holdsEmail (pn_app q') e q")
        case True
        then show ?thesis using tablesOk_D(8) [OF assms p(1) q(1)] app by metis
      next
        case no: False
        have "pn_id p = u \<and> pn_id q = u"
          using no hp hq clash [OF p(1)] clash [OF q(1)] q(2) by metis
        then show ?thesis using same_person [OF tablesOk_D(1) [OF assms] p(1) q(1)] by simp
      qed
      then show "p' = q'" using p q by simp
    next
      fix p' assume "p' \<in> set (map ?f (sd_people db))" "pn_verified p' \<noteq> None"
      then show "pn_email p' \<noteq> None" using ok by (auto simp: promoted_def split: if_splits)
    qed
    moreover have "map pn_id (sd_people ?db) = map pn_id (sd_people db)" unfolding db by (simp add: promoted_same)
    moreover have "personOf db b v \<Longrightarrow> personOf ?db b v" for b v by (rule grows_personOf [OF grows])
    ultimately show ?thesis using assms grows unfolding tablesOk_def same by simp
  qed
  then show "grows db ?db" "tablesOk ?db" by blast+
qed

lemma insertSubOrg_db:
  assumes "insertSubOrg r db = Some db'" "tablesOk db" "\<forall>u. wt_user r = Some u \<longrightarrow> personOf db (wt_app r) u"
  shows "grows db db'" "tablesOk db'" "sd_people db' = sd_people db" "sd_identities db' = sd_identities db" "sd_replay db' = sd_replay db"
    "r \<in> set (sd_wallets db')"
proof -
  have db': "db' = db \<lparr> sd_wallets := sd_wallets db @ [r] \<rparr>" "wt_id r \<notin> wt_id ` set (sd_wallets db)"
    using assms(1) by (auto simp: insertSubOrg_def split: if_splits)
  show "grows db db'" by (rule grows_more [where ps = "[]" and ids = "[]" and rs = "[r]"]) (simp_all add: db')
  show "tablesOk db'" using assms(2,3) db'(2) unfolding tablesOk_def db'(1) personOf_def by auto
  show "sd_people db' = sd_people db" "sd_identities db' = sd_identities db" "sd_replay db' = sd_replay db" "r \<in> set (sd_wallets db')"
    by (simp_all add: db')
qed

lemma getPerson_personOf: "getPerson a u db \<noteq> None \<longleftrightarrow> personOf db a u"
  by (auto simp: getPerson_def personOf_def find_None_iff)

lemma other_db:
  assumes "tablesOk db"
  shows "grows db (otherUser p db) \<and> tablesOk (otherUser p db)" "grows db (otherWallet r db) \<and> tablesOk (otherWallet r db)"
    "grows db (otherEmail now x a u email db) \<and> tablesOk (otherEmail now x a u email db)"
    "grows db (otherVerified now x a wallet db) \<and> tablesOk (otherVerified now x a wallet db)"
    "grows db (db \<lparr> sd_linked := linked, sd_sessions := rows \<rparr>) \<and> tablesOk (db \<lparr> sd_linked := linked, sd_sessions := rows \<rparr>)"
proof -
  show "grows db (otherUser p db) \<and> tablesOk (otherUser p db)"
  proof (cases "pn_id p \<in> pn_id ` set (sd_people db)")
    case False
    let ?p = "p \<lparr> pn_email := None, pn_verified := None \<rparr>"
    have db': "otherUser p db = db \<lparr> sd_people := sd_people db @ [?p] \<rparr>" using False by (simp add: otherUser_def)
    have "\<not> holdsEmail b e ?p" for b e by (simp add: holdsEmail_def)
    then have "emailsOk (sd_people (otherUser p db))"
      using assms unfolding tablesOk_def emailsOk_def db' by (auto simp: holdsEmail_def)
    moreover have "personOf db b v \<Longrightarrow> personOf (otherUser p db) b v" for b v by (auto simp: personOf_def db')
    ultimately have "tablesOk (otherUser p db)" using assms False unfolding tablesOk_def by (auto simp: db')
    then show ?thesis by (auto simp: db' grows_def)
  qed (use assms in \<open>simp add: otherUser_def grows_refl\<close>)
  show "grows db (otherWallet r db) \<and> tablesOk (otherWallet r db)"
  proof (cases "otherWallet r db = db")
    case False
    then have "insertSubOrg r db = Some (otherWallet r db)" "\<forall>u. wt_user r = Some u \<longrightarrow> personOf db (wt_app r) u"
      by (auto simp: otherWallet_def orElse_def getPerson_personOf [symmetric] split: option.splits if_splits)
    then show ?thesis using insertSubOrg_db(1,2) [OF _ assms] by blast
  qed (use assms in \<open>simp add: grows_refl\<close>)
  show "grows db (otherEmail now x a u email db) \<and> tablesOk (otherEmail now x a u email db)"
    using insertIdentity_db(1,2) [OF _ assms] assms getPerson_personOf
    by (auto simp: otherEmail_def grows_refl split: option.splits)
  show "grows db (otherVerified now x a wallet db) \<and> tablesOk (otherVerified now x a wallet db)"
  proof -
    let ?f = "\<lambda>r. if wt_id r = x \<and> wt_app r = a then r \<lparr> wt_keyVerified := Some now, wt_wallet := Some (orElse (wt_wallet r) wallet) \<rparr> else r"
    have f: "wt_id (?f r) = wt_id r" "wt_app (?f r) = wt_app r" "wt_user (?f r) = wt_user r" "wt_organization (?f r) = wt_organization r" for r
      by simp_all
    have db': "otherVerified now x a wallet db = db \<lparr> sd_wallets := map ?f (sd_wallets db) \<rparr>" by (simp add: otherVerified_def)
    have "map wt_id (map ?f (sd_wallets db)) = map wt_id (sd_wallets db)" using f by simp
    moreover have "wt_user r' = Some v \<Longrightarrow> personOf db (wt_app r') v" if "r' \<in> set (map ?f (sd_wallets db))" for r' v
      using that tablesOk_D(7) [OF assms] f by auto
    ultimately have "tablesOk (otherVerified now x a wallet db)"
      using assms unfolding tablesOk_def db' personOf_def by (simp del: map_map set_map)
    moreover have "\<exists>r'\<in>set (map ?f (sd_wallets db)). wt_id r' = wt_id r \<and> wt_app r' = wt_app r \<and> wt_user r' = wt_user r
        \<and> wt_organization r' = wt_organization r" if r: "r \<in> set (sd_wallets db)" for r
      by (rule bexI [of _ "?f r"]) (use f r in auto)
    ultimately show ?thesis unfolding grows_def db' by auto
  qed
  show "grows db (db \<lparr> sd_linked := linked, sd_sessions := rows \<rparr>) \<and> tablesOk (db \<lparr> sd_linked := linked, sd_sessions := rows \<rparr>)"
    using assms by (auto simp: tablesOk_def grows_def personOf_def)
qed

end
