(* ===== verification/SocialSafety.thy ===== *)
theory SocialSafety
  imports SocialTables
begin

text \<open>
  The invariant of social login: every call in flight stands on a token that was verified under a key of the issuer and
  passed the replay guard, sessions are opened for the owner of the token's identity, a verified email was vouched for.
\<close>

subsection \<open>What a call has shown\<close>

definition owns :: "social_db \<Rightarrow> string \<Rightarrow> oidc_claims \<Rightarrow> string \<Rightarrow> bool" where
  "owns db app cm user \<longleftrightarrow> (\<exists>i\<in>set (sd_identities db). identityKey i = (app, cm_provider cm, cm_subject cm) \<and> im_user i = user)"

definition hasWallet :: "social_db \<Rightarrow> string \<Rightarrow> string \<Rightarrow> suborg_row \<Rightarrow> bool" where
  "hasWallet db app user r \<longleftrightarrow>
     (\<exists>r'\<in>set (sd_wallets db). wt_id r' = wt_id r \<and> wt_organization r' = wt_organization r \<and> wt_app r' = app \<and> wt_user r' = Some user)"

definition tokenGood :: "'k social_setup \<Rightarrow> social_world \<Rightarrow> string \<Rightarrow> string \<Rightarrow> oidc_claims \<Rightarrow> bool" where
  "tokenGood S w key token cm \<longleftrightarrow> (\<exists>now. \<exists>jwk\<in>set (sw_fetched w). goodToken (ss_oidc S) (googleConfig S) now key token jwk cm)"

definition bodyGood :: "'k social_setup \<Rightarrow> social_world \<Rightarrow> oauth_body \<Rightarrow> oidc_claims \<Rightarrow> bool" where
  "bodyGood S w body cm \<longleftrightarrow> tokenGood S w (js_lower (ob_publicKey body)) (ob_token body) cm"

definition signupGood :: "social_world \<Rightarrow> nat \<Rightarrow> oauth_call \<Rightarrow> signup \<Rightarrow> bool" where
  "signupGood w i c u \<longleftrightarrow>
     acceptedBy i c (up_body u) (up_claims u) \<in> set (sw_accepted w)
     \<and> (case up_adopted u of None \<Rightarrow> True | Some p \<Rightarrow> personOf (sw_db w) (ok_app c) (pn_id p))"

definition admissionGood :: "social_world \<Rightarrow> nat \<Rightarrow> oauth_call \<Rightarrow> admission \<Rightarrow> bool" where
  "admissionGood w i c ad \<longleftrightarrow>
     acceptedBy i c (on_body ad) (on_claims ad) \<in> set (sw_accepted w)
     \<and> owns (sw_db w) (ok_app c) (on_claims ad) (pn_id (on_person ad))
     \<and> hasWallet (sw_db w) (ok_app c) (pn_id (on_person ad)) (on_wallet ad)"

text \<open>Turnkey registered the key of this call.\<close>

definition openedGood :: "social_world \<Rightarrow> nat \<Rightarrow> oauth_call \<Rightarrow> admission \<Rightarrow> bool" where
  "openedGood w i c ad \<longleftrightarrow> admissionGood w i c ad \<and> openedBy i c ad \<in> set (sw_opened w)"

definition mintedFor :: "nat \<Rightarrow> oauth_call \<Rightarrow> admission \<Rightarrow> minted_session \<Rightarrow> minted" where
  "mintedFor i c ad s = \<lparr> mx_call = i, mx_app = ok_app c, mx_claims = on_claims ad, mx_user = pn_id (on_person ad), mx_session = s \<rparr>"

fun stageGood_social :: "'k social_setup \<Rightarrow> social_world \<Rightarrow> nat \<Rightarrow> oauth_call \<Rightarrow> ostage \<Rightarrow> bool" where
  "stageGood_social S w i c (OaKeys body j now) = (readToken (ss_oidc S) (ob_token body) = Inr j)"
| "stageGood_social S w i c (OaResolve body cm) = bodyGood S w body cm"
| "stageGood_social S w i c (OaIntent u) = signupGood w i c u"
| "stageGood_social S w i c (OaCreate u) = signupGood w i c u"
| "stageGood_social S w i c (OaCreateFailed u e) = True"
| "stageGood_social S w i c (OaAccounts u m) = signupGood w i c u"
| "stageGood_social S w i c (OaSignup u m key) = signupGood w i c u"
| "stageGood_social S w i c (OaRaced u m) = True"
| "stageGood_social S w i c (OaLogin ad) = admissionGood w i c ad"
| "stageGood_social S w i c (OaLoginFailed ad e) = True"
| "stageGood_social S w i c (OaSession ad activity) = openedGood w i c ad"
| "stageGood_social S w i c (OaFresh ad s) = (openedGood w i c ad \<and> mintedFor i c ad s \<in> set (sw_minted w))"
| "stageGood_social S w i c (OaIdToken ad s email ok) = (openedGood w i c ad \<and> mintedFor i c ad s \<in> set (sw_minted w))"
| "stageGood_social S w i c OaDone =
     (case ok_reply c of
        Some (LoggedIn r) \<Rightarrow> (\<exists>ad. openedGood w i c ad \<and> mintedFor i c ad (lr_session r) \<in> set (sw_minted w) \<and> lr_user r = pn_id (on_person ad)
          \<and> lr_wallet r = on_wallet ad)
      | Some _ \<Rightarrow> True | None \<Rightarrow> False)"

definition recordsGood :: "'k social_setup \<Rightarrow> social_world \<Rightarrow> bool" where
  "recordsGood S w \<longleftrightarrow>
     (\<forall>a\<in>set (sw_accepted w). tokenGood S w (ax_key a) (ax_token a) (ax_claims a))
     \<and> (\<forall>o'\<in>set (sw_opened w). owns (sw_db w) (ox_app o') (ox_claims o') (ox_user o')
          \<and> (\<exists>a\<in>set (sw_accepted w). ax_call a = ox_call o' \<and> ax_app a = ox_app o' \<and> ax_claims a = ox_claims o' \<and> ax_key a = ox_key o')
          \<and> (\<exists>r\<in>set (sd_wallets (sw_db w)). wt_app r = ox_app o' \<and> wt_user r = Some (ox_user o') \<and> wt_organization r = ox_organization o'))
     \<and> (\<forall>m\<in>set (sw_minted w). \<exists>o'\<in>set (sw_opened w). ox_call o' = mx_call m \<and> ox_app o' = mx_app m \<and> ox_claims o' = mx_claims m \<and> ox_user o' = mx_user m)"

definition cacheGood :: "social_world \<Rightarrow> bool" where
  "cacheGood w \<longleftrightarrow> (\<forall>url keys t. sw_cache w url = Some (keys, t) \<longrightarrow> set keys \<subseteq> set (sw_fetched w))"

definition vouched :: "social_world \<Rightarrow> person_row \<Rightarrow> bool" where
  "vouched w p \<longleftrightarrow>
     (\<exists>a\<in>set (sw_accepted w). ax_app a = pn_app p \<and> cm_emailVerified (ax_claims a)
        \<and> map_option js_lower (cm_email (ax_claims a)) = map_option js_lower (pn_email p) \<and> owns (sw_db w) (pn_app p) (ax_claims a) (pn_id p))"

definition replayGood :: "social_world \<Rightarrow> bool" where
  "replayGood w \<longleftrightarrow> map fst (sd_replay (sw_db w)) = map (\<lambda>a. cm_tokenHash (ax_claims a)) (sw_accepted w)"

definition worldGood_social :: "'k social_setup \<Rightarrow> social_world \<Rightarrow> bool" where
  "worldGood_social S w \<longleftrightarrow>
     tablesOk (sw_db w) \<and> replayGood w \<and> cacheGood w \<and> recordsGood S w
     \<and> (\<forall>p\<in>set (sd_people (sw_db w)). pn_verified p \<noteq> None \<longrightarrow> vouched w p)"

definition socialInv :: "'k social_setup \<Rightarrow> social_world \<Rightarrow> bool" where
  "socialInv S w \<longleftrightarrow> worldGood_social S w \<and> (\<forall>i c. sw_calls w i = Some c \<longrightarrow> stageGood_social S w i c (ok_stage c))"

subsection \<open>What later steps keep\<close>

definition later :: "social_world \<Rightarrow> social_world \<Rightarrow> bool" where
  "later w w' \<longleftrightarrow> grows (sw_db w) (sw_db w') \<and> set (sw_accepted w) \<subseteq> set (sw_accepted w') \<and> set (sw_opened w) \<subseteq> set (sw_opened w')
     \<and> set (sw_minted w) \<subseteq> set (sw_minted w') \<and> set (sw_fetched w) \<subseteq> set (sw_fetched w')"

lemma grows_owns: "grows a b \<Longrightarrow> owns a app cm u \<Longrightarrow> owns b app cm u"
  unfolding grows_def owns_def by metis

lemma grows_hasWallet: "grows a b \<Longrightarrow> hasWallet a app u r \<Longrightarrow> hasWallet b app u r"
  unfolding grows_def hasWallet_def by metis

lemma later_tokenGood: "later w w' \<Longrightarrow> tokenGood S w key token cm \<Longrightarrow> tokenGood S w' key token cm"
  unfolding later_def tokenGood_def by blast

lemma later_signupGood: "later w w' \<Longrightarrow> signupGood w i c u \<Longrightarrow> signupGood w' i c u"
  unfolding later_def signupGood_def using grows_personOf by (cases "up_adopted u") auto

lemma later_openedGood: "later w w' \<Longrightarrow> openedGood w i c ad \<Longrightarrow> openedGood w' i c ad"
  unfolding later_def openedGood_def admissionGood_def using grows_owns grows_hasWallet by blast

lemma later_admissionGood: "later w w' \<Longrightarrow> admissionGood w i c ad \<Longrightarrow> admissionGood w' i c ad"
  unfolding later_def admissionGood_def using grows_owns grows_hasWallet by blast

lemma later_minted: "later w w' \<Longrightarrow> m \<in> set (sw_minted w) \<Longrightarrow> m \<in> set (sw_minted w')"
  unfolding later_def by blast

lemma later_stage: "later w w' \<Longrightarrow> stageGood_social S w i c st \<Longrightarrow> stageGood_social S w' i c st"
  using later_tokenGood [of w w' S] later_signupGood [of w w'] later_openedGood [of w w'] later_admissionGood [of w w'] later_minted [of w w']
  by (cases st) (auto simp: bodyGood_def split: option.splits oauth_reply.splits, blast+)

text \<open>A step is good when it keeps the invariant of the world, loses nothing and leaves its call in a good stage.\<close>

definition stepGood_social :: "'k social_setup \<Rightarrow> nat \<Rightarrow> social_world \<Rightarrow> oauth_call \<times> social_world \<Rightarrow> bool" where
  "stepGood_social S i w x \<longleftrightarrow> worldGood_social S (snd x) \<and> later w (snd x) \<and> sw_calls (snd x) = sw_calls w
     \<and> stageGood_social S (snd x) i (fst x) (ok_stage (fst x))"

lemma later_refl: "later w w"
  by (simp add: later_def grows_refl)

lemma worldGood_social_D:
  assumes "worldGood_social S w"
  shows "tablesOk (sw_db w)" "replayGood w" "cacheGood w" "recordsGood S w"
    "\<And>p. p \<in> set (sd_people (sw_db w)) \<Longrightarrow> pn_verified p \<noteq> None \<Longrightarrow> vouched w p"
  using assms unfolding worldGood_social_def by blast+

text \<open>Records stay good when nothing is lost; new ones are looked at where they are made.\<close>

lemma recordsGood_later:
  assumes "recordsGood S w" "later w w'" "set (sw_accepted w') \<subseteq> set (sw_accepted w)" "set (sw_opened w') \<subseteq> set (sw_opened w)"
    "set (sw_minted w') \<subseteq> set (sw_minted w)"
  shows "recordsGood S w'"
  unfolding recordsGood_def
proof (intro conjI ballI)
  fix a assume "a \<in> set (sw_accepted w')"
  then show "tokenGood S w' (ax_key a) (ax_token a) (ax_claims a)" using assms(1,3) later_tokenGood [OF assms(2)] unfolding recordsGood_def by blast
next
  fix x assume "x \<in> set (sw_opened w')"
  then have x: "x \<in> set (sw_opened w)" using assms(4) by blast
  show "owns (sw_db w') (ox_app x) (ox_claims x) (ox_user x)"
    using x assms(1,2) grows_owns unfolding recordsGood_def later_def by blast
  show "\<exists>a\<in>set (sw_accepted w'). ax_call a = ox_call x \<and> ax_app a = ox_app x \<and> ax_claims a = ox_claims x \<and> ax_key a = ox_key x"
    using x assms(1,2) unfolding recordsGood_def later_def by blast
  obtain r where r: "r \<in> set (sd_wallets (sw_db w))" "wt_app r = ox_app x" "wt_user r = Some (ox_user x)" "wt_organization r = ox_organization x"
    using x assms(1) unfolding recordsGood_def by blast
  then show "\<exists>r\<in>set (sd_wallets (sw_db w')). wt_app r = ox_app x \<and> wt_user r = Some (ox_user x) \<and> wt_organization r = ox_organization x"
    using assms(2) unfolding later_def grows_def by metis
next
  fix m assume "m \<in> set (sw_minted w')"
  then show "\<exists>x\<in>set (sw_opened w'). ox_call x = mx_call m \<and> ox_app x = mx_app m \<and> ox_claims x = mx_claims m \<and> ox_user x = mx_user m"
    using assms(1,2,5) unfolding recordsGood_def later_def by blast
qed

lemma later_vouched:
  assumes "later w w'" "vouched w p"
  shows "vouched w' p"
proof -
  obtain a where "a \<in> set (sw_accepted w)" "ax_app a = pn_app p" "cm_emailVerified (ax_claims a)"
      "map_option js_lower (cm_email (ax_claims a)) = map_option js_lower (pn_email p)" "owns (sw_db w) (pn_app p) (ax_claims a) (pn_id p)"
    using assms(2) unfolding vouched_def by blast
  then show ?thesis using assms(1) grows_owns unfolding vouched_def later_def by blast
qed

lemma vouched_cong: "vouched w p \<Longrightarrow> pn_id q = pn_id p \<Longrightarrow> pn_app q = pn_app p \<Longrightarrow>
    map_option js_lower (pn_email q) = map_option js_lower (pn_email p) \<Longrightarrow> vouched w q"
  by (simp add: vouched_def)

text \<open>Only the audit log or nothing at all changes: the world stays good, and the call ends or goes on.\<close>

lemma quiet_world:
  assumes "worldGood_social S w" "sw_db w' = sw_db w" "sw_cache w' = sw_cache w" "sw_accepted w' = sw_accepted w" "sw_opened w' = sw_opened w"
    "sw_minted w' = sw_minted w" "sw_fetched w' = sw_fetched w"
  shows "worldGood_social S w'" "later w w'"
proof -
  show l: "later w w'" using assms(2-7) by (simp add: later_def grows_refl)
  have "recordsGood S w'" by (rule recordsGood_later [OF worldGood_social_D(4) [OF assms(1)] l]) (simp_all add: assms)
  then show "worldGood_social S w'"
    using assms later_vouched [OF l] unfolding worldGood_social_def replayGood_def cacheGood_def by simp
qed

lemma threw_good: "worldGood_social S w \<Longrightarrow> stepGood_social S i w (oThrew c, w)"
  by (simp add: stepGood_social_def later_refl oThrew_def oFinish_def)

lemma stay_good: "worldGood_social S w \<Longrightarrow> stageGood_social S w i c (ok_stage c) \<Longrightarrow> stepGood_social S i w (c, w)"
  by (simp add: stepGood_social_def later_refl)

lemma noteStep_good:
  assumes "worldGood_social S w" "\<And>w'. later w w' \<Longrightarrow> stageGood_social S w' i following (ok_stage following)"
  shows "stepGood_social S i w (noteStep noted following c w)"
proof (cases noted)
  case None
  then show ?thesis using threw_good [OF assms(1)] by (simp add: noteStep_def)
next
  case (Some audit)
  have "worldGood_social S (w \<lparr> sw_audit := audit \<rparr>)" "later w (w \<lparr> sw_audit := audit \<rparr>)" by (rule quiet_world [OF assms(1)]; simp)+
  then show ?thesis using assms(2) Some by (simp add: noteStep_def stepGood_social_def)
qed

end
