(* ===== verification/SocialSteps.thy ===== *)
theory SocialSteps
  imports SocialSafety
begin

text \<open>Every step of social login keeps the invariant.\<close>

subsection \<open>Step 1\<close>

lemma call_same [simp]: "ok_app (oGoTo st c) = ok_app c" "ok_stage (oGoTo st c) = st" "ok_app (oFinish r c) = ok_app c"
    "ok_stage (oFinish r c) = OaDone" "ok_reply (oFinish r c) = Some r"
  by (simp_all add: oGoTo_def oFinish_def)

lemma stage_app [simp]: "signupGood w i (oGoTo st c) u = signupGood w i c u" "admissionGood w i (oGoTo st c) ad = admissionGood w i c ad"
    "openedGood w i (oGoTo st c) ad = openedGood w i c ad" "mintedFor i (oGoTo st c) ad s = mintedFor i c ad s"
    "openedGood w i (oFinish r c) ad = openedGood w i c ad" "mintedFor i (oFinish r c) ad s = mintedFor i c ad s"
    "acceptedBy i (oGoTo st c) body cm = acceptedBy i c body cm" "openedBy i (oGoTo st c) ad = openedBy i c ad"
  by (simp_all add: signupGood_def admissionGood_def openedGood_def mintedFor_def openedBy_def acceptedBy_def split: option.split)

lemma afterToken_good:
  assumes "\<And>cm. result = Inr cm \<Longrightarrow> bodyGood S w body cm"
  shows "stageGood_social S w i (afterToken body result c) (ok_stage (afterToken body result c))"
proof (cases result)
  case (Inl code)
  then show ?thesis by (cases code) (simp_all add: afterToken_def)
qed (use assms in \<open>simp add: afterToken_def\<close>)

lemma begin_good:
  assumes "worldGood_social S w"
  shows "stageGood_social S w i (oauthCall S app request body now (sw_cache w)) (ok_stage (oauthCall S app request body now (sw_cache w)))"
proof -
  let ?cfg = "googleConfig S" and ?L = "ss_oidc S" and ?key = "js_lower (ob_publicKey body)"
  have cached: "bodyGood S w body cm"
    if read: "readToken ?L (ob_token body) = Inr j" and hit: "cachedKey (sw_cache w) (oc_jwksUrl ?cfg) (jw_kid j) now = Some jwk"
      and ok: "checkToken ?L ?cfg now ?key (ob_token body) j jwk = Inr cm" for j jwk cm
  proof -
    obtain keys t where keys: "getProp ''kid'' jwk = JStr (jw_kid j)" "sw_cache w (oc_jwksUrl ?cfg) = Some (keys, t)" "jwk \<in> set keys"
      using cachedKey_Some [OF hit] by blast
    have "jwk \<in> set (sw_fetched w)" using worldGood_social_D(3) [OF assms] keys(2,3) unfolding cacheGood_def by blast
    then show ?thesis using checkToken_good [OF read keys(1) ok] unfolding bodyGood_def tokenGood_def by blast
  qed
  show ?thesis
    unfolding oauthCall_def beginOAuth_def Let_def
    using cached
    by (auto split: sum.splits option.splits intro!: afterToken_good)
qed

lemma refreshedKey_facts:
  assumes "refreshedKey url kid now fetched cache = (key, cache')"
  shows "\<And>k. key = Inr k \<Longrightarrow> getProp ''kid'' k = JStr kid \<and> (\<exists>keys. fetched = Some keys \<and> k \<in> set keys)"
    "\<And>u keys t. cache' u = Some (keys, t) \<Longrightarrow> cache u = Some (keys, t) \<or> fetched = Some keys"
  using assms findKid_Some by (auto simp: refreshedKey_def split: option.splits if_splits)

lemma keysStep_good:
  assumes w: "worldGood_social S w" and read: "readToken (ss_oidc S) (ob_token body) = Inr j"
  shows "stepGood_social S i w (keysStep S c body j now fetched w)"
proof -
  let ?cfg = "googleConfig S"
  obtain key cache where k: "refreshedKey (oc_jwksUrl ?cfg) (jw_kid j) now fetched (sw_cache w) = (key, cache)" by (metis prod.exhaust)
  define new where "new = (case fetched of None \<Rightarrow> [] | Some keys \<Rightarrow> keys)"
  let ?w = "w \<lparr> sw_cache := cache, sw_fetched := sw_fetched w @ new \<rparr>"
  let ?result = "rbind key (checkToken (ss_oidc S) ?cfg now (js_lower (ob_publicKey body)) (ob_token body) j)"
  note facts = refreshedKey_facts [OF k]
  have l: "later w ?w" by (simp add: later_def grows_refl)
  have "cacheGood ?w"
    unfolding cacheGood_def
  proof (intro allI impI)
    fix url keys t assume "sw_cache ?w url = Some (keys, t)"
    then have "sw_cache w url = Some (keys, t) \<or> fetched = Some keys" using facts(2) by simp
    then show "set keys \<subseteq> set (sw_fetched ?w)" using worldGood_social_D(3) [OF w] by (auto simp: cacheGood_def new_def)
  qed
  moreover have "recordsGood S ?w" by (rule recordsGood_later [OF worldGood_social_D(4) [OF w] l]) simp_all
  ultimately have w': "worldGood_social S ?w"
    using w later_vouched [OF l] unfolding worldGood_social_def replayGood_def by simp
  have "bodyGood S ?w body cm" if good: "?result = Inr cm" for cm
  proof -
    obtain jwk where jwk: "key = Inr jwk" "checkToken (ss_oidc S) ?cfg now (js_lower (ob_publicKey body)) (ob_token body) j jwk = Inr cm"
      using good by (auto simp: rbind_eq_Inr_iff)
    then have "getProp ''kid'' jwk = JStr (jw_kid j)" "jwk \<in> set (sw_fetched ?w)" using facts(1) by (auto simp: new_def)
    then show ?thesis using checkToken_good [OF read _ jwk(2)] unfolding bodyGood_def tokenGood_def by blast
  qed
  then have "stageGood_social S ?w i (afterToken body ?result c) (ok_stage (afterToken body ?result c))" by (rule afterToken_good)
  then show ?thesis using w' l by (simp add: keysStep_def Let_def k stepGood_social_def new_def)
qed

subsection \<open>Emails\<close>

text \<open>A verified email of the new table is one of the old table, or this token's for this user.\<close>

definition emailsFrom :: "string \<Rightarrow> string \<Rightarrow> oidc_claims \<Rightarrow> social_db \<Rightarrow> social_db \<Rightarrow> bool" where
  "emailsFrom a u cm db db' \<longleftrightarrow>
     (\<forall>p'\<in>set (sd_people db'). pn_verified p' \<noteq> None \<longrightarrow>
        (\<exists>p\<in>set (sd_people db). pn_id p = pn_id p' \<and> pn_app p = pn_app p' \<and> pn_email p = pn_email p' \<and> pn_verified p \<noteq> None)
        \<or> (pn_app p' = a \<and> pn_id p' = u \<and> cm_emailVerified cm \<and> map_option js_lower (cm_email cm) = map_option js_lower (pn_email p')))"

lemma emailsFrom_same: "sd_people db' = sd_people db \<Longrightarrow> emailsFrom a u cm db db'"
  unfolding emailsFrom_def by auto

lemma promoteEmail_db:
  assumes "tablesOk db"
  shows "grows db (promoteEmail now a u cm db)" "tablesOk (promoteEmail now a u cm db)" "emailsFrom a u cm db (promoteEmail now a u cm db)"
    "sd_identities (promoteEmail now a u cm db) = sd_identities db" "sd_wallets (promoteEmail now a u cm db) = sd_wallets db"
    "sd_replay (promoteEmail now a u cm db) = sd_replay db"
proof -
  let ?db = "promoteEmail now a u cm db"
  have "grows db ?db \<and> tablesOk ?db \<and> emailsFrom a u cm db ?db \<and> sd_identities ?db = sd_identities db \<and> sd_wallets ?db = sd_wallets db
     \<and> sd_replay ?db = sd_replay db"
  proof (cases "vouchedEmail cm")
    case None
    then show ?thesis using assms by (simp add: promoteEmail_def grows_refl emailsFrom_same)
  next
    case (Some email)
    then have db: "?db = setVerifiedPrimaryEmail now a u email db" by (simp add: promoteEmail_def)
    have cm: "cm_emailVerified cm" "cm_email cm = Some email" using Some by (auto simp: vouchedEmail_def split: if_splits)
    have "emailsFrom a u cm db ?db"
      unfolding emailsFrom_def
    proof (intro ballI impI)
      fix p' assume p': "p' \<in> set (sd_people ?db)" and ver: "pn_verified p' \<noteq> None"
      show "(\<exists>p\<in>set (sd_people db). pn_id p = pn_id p' \<and> pn_app p = pn_app p' \<and> pn_email p = pn_email p' \<and> pn_verified p \<noteq> None)
        \<or> (pn_app p' = a \<and> pn_id p' = u \<and> cm_emailVerified cm \<and> map_option js_lower (cm_email cm) = map_option js_lower (pn_email p'))"
      proof (cases "p' \<in> set (sd_people db)")
        case False
        then obtain p where p: "p \<in> set (sd_people db)" "p' = promoted now a u email p"
          using p' unfolding db setVerified_cases by (auto split: if_splits)
        have "pn_verified p \<noteq> None \<longrightarrow> pn_email p \<noteq> None" using tablesOk_D(9) [OF assms p(1)] by blast
        from promoted_email [OF this, of now a u email] consider
            "pn_email p' = pn_email p" "pn_verified p' = pn_verified p" | "pn_app p = a" "pn_id p = u" "holdsEmail a email p'"
          unfolding p(2) by blast
        then show ?thesis
        proof cases
          case 1
          then show ?thesis using p ver promoted_same by metis
        next
          case 2
          then have "map_option js_lower (pn_email p') = Some (js_lower email)" by (simp add: holdsEmail_def)
          moreover have "pn_app p' = a" "pn_id p' = u" using 2 p(2) promoted_same by metis+
          ultimately show ?thesis using cm by auto
        qed
      qed (use ver in blast)
    qed
    then show ?thesis using setVerified_db [OF assms] unfolding db by blast
  qed
  then show "grows db ?db" "tablesOk ?db" "emailsFrom a u cm db ?db" "sd_identities ?db = sd_identities db" "sd_wallets ?db = sd_wallets db"
    "sd_replay ?db = sd_replay db" by blast+
qed

lemma emailsFrom_vouched:
  assumes ef: "emailsFrom a u cm (sw_db w) (sw_db w')"
    and prev: "\<And>p. p \<in> set (sd_people (sw_db w)) \<Longrightarrow> pn_verified p \<noteq> None \<Longrightarrow> vouched w p" and l: "later w w'"
    and acc: "acc \<in> set (sw_accepted w')" "ax_app acc = a" "ax_claims acc = cm" and own: "owns (sw_db w') a cm u"
    and p': "p' \<in> set (sd_people (sw_db w'))" "pn_verified p' \<noteq> None"
  shows "vouched w' p'"
proof -
  from ef p' consider
      (old) p where "p \<in> set (sd_people (sw_db w))" "pn_id p = pn_id p'" "pn_app p = pn_app p'" "pn_email p = pn_email p'" "pn_verified p \<noteq> None"
    | (new) "pn_app p' = a" "pn_id p' = u" "cm_emailVerified cm" "map_option js_lower (cm_email cm) = map_option js_lower (pn_email p')"
    unfolding emailsFrom_def by blast
  then show ?thesis
  proof cases
    case old
    show ?thesis using vouched_cong [OF later_vouched [OF l prev [OF old(1,5)]]] old by simp
  next
    case new
    then show ?thesis using acc own unfolding vouched_def by blast
  qed
qed

subsection \<open>Step 2\<close>

lemma walletsOfUser_mem: "r \<in> set (walletsOfUser a u db) \<Longrightarrow> r \<in> set (sd_wallets db) \<and> wt_app r = a \<and> wt_user r = Some u"
  by (simp add: walletsOfUser_def)

lemma oauthWallet_mem: "oauthWallet rows = Some r \<Longrightarrow> r \<in> set rows"
  by (auto simp: oauthWallet_def split: option.splits list.splits dest: find_Some_mem)

text \<open>Who a token resolves to.\<close>

definition resolvedGood :: "string \<Rightarrow> oidc_claims \<Rightarrow> social_db \<Rightarrow> resolved_person \<Rightarrow> bool" where
  "resolvedGood a cm db who \<longleftrightarrow>
     (case who of
        Existing p r \<Rightarrow> owns db a cm (pn_id p) \<and> hasWallet db a (pn_id p) r
      | Adopt p \<Rightarrow> personOf db a (pn_id p)
      | _ \<Rightarrow> True)"

lemma resolveIdentity_cases:
  assumes "resolveIdentity now a cm i db = (who, db')"
  obtains (orphan) "who = Orphan" "db' = db"
    | (existing) p r where "getPerson a (im_user i) db = Some p" "oauthWallet (walletsOfUser a (pn_id p) db) = Some r" "who = Existing p r"
        "db' = promoteEmail now a (pn_id p) cm (touchIdentityLogin now (im_id i) db)"
proof (cases "getPerson a (im_user i) db")
  case None
  then show thesis using assms orphan by (simp add: resolveIdentity_def)
next
  case (Some p)
  show thesis
  proof (cases "oauthWallet (walletsOfUser a (pn_id p) db)")
    case None
    then show thesis using assms orphan Some by (simp add: resolveIdentity_def)
  next
    case wallet: (Some r)
    show thesis by (rule existing [OF Some wallet]) (use assms Some wallet in \<open>simp_all add: resolveIdentity_def\<close>)
  qed
qed

lemma resolveIdentity_db:
  assumes "tablesOk db" "i \<in> set (sd_identities db)" "identityKey i = (a, cm_provider cm, cm_subject cm)" "resolveIdentity now a cm i db = (who, db')"
  shows "grows db db'" "tablesOk db'" "sd_replay db' = sd_replay db" "emailsFrom a (im_user i) cm db db'" "resolvedGood a cm db' who"
    "owns db' a cm (im_user i)" "who \<noteq> Replayed"
proof -
  have own: "owns db a cm (im_user i)" unfolding owns_def using assms(2,3) by blast
  from assms(4) have "grows db db' \<and> tablesOk db' \<and> sd_replay db' = sd_replay db \<and> emailsFrom a (im_user i) cm db db' \<and> resolvedGood a cm db' who \<and> who \<noteq> Replayed"
  proof (cases rule: resolveIdentity_cases)
    case orphan
    then show ?thesis using assms(1) by (simp add: grows_refl emailsFrom_same resolvedGood_def)
  next
    case (existing p r)
    let ?db = "touchIdentityLogin now (im_id i) db"
    note touched = touch_db [OF assms(1), of now "im_id i"]
    note up = promoteEmail_db [OF touched(2), where now = now and a = a and u = "pn_id p" and cm = cm]
    have grows: "grows db db'" using grows_trans [OF touched(1) up(1)] existing(4) by simp
    have p: "pn_id p = im_user i" using getPerson_Some [OF existing(1)] by simp
    have "r \<in> set (sd_wallets db)" "wt_app r = a" "wt_user r = Some (pn_id p)" using walletsOfUser_mem [OF oauthWallet_mem [OF existing(2)]] by simp_all
    then have "hasWallet db a (pn_id p) r" unfolding hasWallet_def by blast
    from grows_hasWallet [OF grows this] have "resolvedGood a cm db' who"
      using grows_owns [OF grows own] unfolding resolvedGood_def existing(3) by (simp add: p)
    moreover have "sd_people ?db = sd_people db" "sd_replay ?db = sd_replay db" by (simp_all add: touchIdentityLogin_def)
    then have "emailsFrom a (im_user i) cm db db'" "sd_replay db' = sd_replay db"
      using up(3,6) unfolding existing(4) p emailsFrom_def by simp_all
    ultimately show ?thesis using grows up(2) unfolding existing(3,4) by simp
  qed
  then show "grows db db'" "tablesOk db'" "sd_replay db' = sd_replay db" "emailsFrom a (im_user i) cm db db'" "resolvedGood a cm db' who"
    "owns db' a cm (im_user i)" "who \<noteq> Replayed" using grows_owns own by blast+
qed

lemma resolveNew_good: "resolvedGood a cm db (resolveNew a cm db)" "resolveNew a cm db \<noteq> Replayed"
proof -
  have "personOf db a (pn_id p)" if "getPersonByVerifiedEmail a e db = Some p" for e p
    using find_Some_mem [OF that [unfolded getPersonByVerifiedEmail_def]] by (auto simp: holdsEmail_def personOf_def)
  then show "resolvedGood a cm db (resolveNew a cm db)" "resolveNew a cm db \<noteq> Replayed"
    by (auto simp: resolveNew_def resolvedGood_def split: option.splits)
qed

lemma resolvePerson_db:
  assumes "tablesOk db" "resolvePerson now a cm db = (who, db')"
  shows "who = Replayed \<longleftrightarrow> cm_tokenHash cm \<in> fst ` set (sd_replay db)" "who = Replayed \<Longrightarrow> db' = db"
    "who \<noteq> Replayed \<Longrightarrow> grows db db' \<and> tablesOk db' \<and> sd_replay db' = sd_replay db @ [(cm_tokenHash cm, a, cm_expiresAt cm)]
       \<and> resolvedGood a cm db' who \<and> (\<exists>u. emailsFrom a u cm db db' \<and> (owns db' a cm u \<or> sd_people db' = sd_people db))"
proof -
  obtain replayed db1 where rec: "recordOidcTokenUse a (cm_tokenHash cm) (cm_expiresAt cm) db = (replayed, db1)" by (metis prod.exhaust)
  note r = record_db [OF rec]
  show "who = Replayed \<longleftrightarrow> cm_tokenHash cm \<in> fst ` set (sd_replay db)"
  proof -
    have "who \<noteq> Replayed" if "\<not> replayed"
      using that assms(2) rec resolveNew_good(2) by (auto simp: resolvePerson_def resolveIdentity_def split: option.splits)
    moreover have "who = Replayed" if replayed using that assms(2) rec by (simp add: resolvePerson_def)
    ultimately show ?thesis using r(6) by blast
  qed
  note replayed = this
  show "who = Replayed \<Longrightarrow> db' = db" using replayed r(6) assms(2) rec by (simp add: resolvePerson_def)
  assume "who \<noteq> Replayed"
  then have new: "\<not> replayed" using replayed r(6) by blast
  note db1 = r(2) [OF assms(1)]
  show "grows db db' \<and> tablesOk db' \<and> sd_replay db' = sd_replay db @ [(cm_tokenHash cm, a, cm_expiresAt cm)]
       \<and> resolvedGood a cm db' who \<and> (\<exists>u. emailsFrom a u cm db db' \<and> (owns db' a cm u \<or> sd_people db' = sd_people db))"
  proof (cases "getIdentity a (cm_provider cm) (cm_subject cm) db1")
    case None
    then have who: "who = resolveNew a cm db1" and same: "db' = db1" using assms(2) rec new by (auto simp: resolvePerson_def)
    show ?thesis unfolding who same using r(1,3,7) new db1 resolveNew_good(1) emailsFrom_same by blast
  next
    case (Some i)
    then have step: "resolveIdentity now a cm i db1 = (who, db')" using assms(2) rec new by (simp add: resolvePerson_def)
    note i = getIdentity_Some [OF Some]
    note x = resolveIdentity_db [OF db1 i [THEN conjunct1] i [THEN conjunct2] step]
    have "emailsFrom a (im_user i) cm db db'" using x(4) r(3) by (simp add: emailsFrom_def)
    then show ?thesis using grows_trans [OF r(1) x(1)] x(2,3,5,6) r(7) [OF new] by auto
  qed
qed

text \<open>A token passes the guard: the world stays good.\<close>

lemma accepted_world:
  assumes w: "worldGood_social S w" and body: "bodyGood S w body cm"
    and db: "grows (sw_db w) db" "tablesOk db" "sd_replay db = sd_replay (sw_db w) @ [(cm_tokenHash cm, ok_app c, cm_expiresAt cm)]"
    and emails: "emailsFrom (ok_app c) u cm (sw_db w) db" "owns db (ok_app c) cm u \<or> sd_people db = sd_people (sw_db w)"
    and w': "sw_db w' = db" "sw_accepted w' = sw_accepted w @ [acceptedBy i c body cm]" "sw_cache w' = sw_cache w" "sw_fetched w' = sw_fetched w"
      "sw_opened w' = sw_opened w" "sw_minted w' = sw_minted w"
  shows "worldGood_social S w'" "later w w'"
proof -
  let ?a = "acceptedBy i c body cm"
  show l: "later w w'" using db(1) w' by (auto simp: later_def)
  have "recordsGood S w'"
  proof -
    have "recordsGood S (w' \<lparr> sw_accepted := sw_accepted w \<rparr>)"
      by (rule recordsGood_later [OF worldGood_social_D(4) [OF w]]) (use l w' in \<open>simp_all add: later_def\<close>)
    moreover have "tokenGood S w' (ax_key ?a) (ax_token ?a) (ax_claims ?a)"
      using later_tokenGood [OF l] body by (simp add: bodyGood_def acceptedBy_def)
    ultimately show ?thesis using w'(2) unfolding recordsGood_def tokenGood_def by auto
  qed
  moreover have "replayGood w'" using worldGood_social_D(2) [OF w] w' db(3) by (simp add: replayGood_def acceptedBy_def)
  moreover have "cacheGood w'" using worldGood_social_D(3) [OF w] w' by (simp add: cacheGood_def)
  moreover have "vouched w' p" if p: "p \<in> set (sd_people (sw_db w'))" "pn_verified p \<noteq> None" for p
  proof (cases "sd_people db = sd_people (sw_db w)")
    case True
    then show ?thesis using later_vouched [OF l worldGood_social_D(5) [OF w]] p w'(1) by simp
  next
    case False
    show ?thesis
      by (rule emailsFrom_vouched [where acc = ?a and a = "ok_app c" and cm = cm and u = u, OF _ worldGood_social_D(5) [OF w] l])
        (use emails False w' p in \<open>auto simp: acceptedBy_def\<close>)
  qed
  ultimately show "worldGood_social S w'" using db(2) w'(1) unfolding worldGood_social_def by simp
qed

lemma resolveStep_good:
  assumes w: "worldGood_social S w" and body: "bodyGood S w body cm" and stage: "stageGood_social S w i c (ok_stage c)"
  shows "stepGood_social S i w (resolveStep S i d c body cm w)"
proof -
  obtain who db where res: "resolvePerson (socialNow d) (ok_app c) cm (sw_db w) = (who, db)" by (metis prod.exhaust)
  note r = resolvePerson_db [OF worldGood_social_D(1) [OF w] res]
  show ?thesis
  proof (cases "who = Replayed")
    case True
    then show ?thesis using w by (simp add: resolveStep_def res stepGood_social_def later_refl)
  next
    case False
    let ?w = "\<lambda>audit. w \<lparr> sw_db := db, sw_accepted := sw_accepted w @ [acceptedBy i c body cm], sw_audit := audit \<rparr>"
    obtain u where db: "grows (sw_db w) db" "tablesOk db" "sd_replay db = sd_replay (sw_db w) @ [(cm_tokenHash cm, ok_app c, cm_expiresAt cm)]"
        "emailsFrom (ok_app c) u cm (sw_db w) db" "owns db (ok_app c) cm u \<or> sd_people db = sd_people (sw_db w)" and good: "resolvedGood (ok_app c) cm db who"
      using r(3) [OF False] by blast
    have world: "worldGood_social S w' \<and> later w w'"
      if "sw_db w' = db" "sw_accepted w' = sw_accepted w @ [acceptedBy i c body cm]" "sw_cache w' = sw_cache w" "sw_fetched w' = sw_fetched w"
        "sw_opened w' = sw_opened w" "sw_minted w' = sw_minted w" for w'
      using accepted_world [OF w body db that] by blast
    have up: "up_body (signupOf d body cm adopted) = body" "up_claims (signupOf d body cm adopted) = cm" "up_adopted (signupOf d body cm adopted) = adopted" for adopted
      by (simp_all add: signupOf_def Let_def)
    show ?thesis
      unfolding resolveStep_def res
      using False world good threw_good [OF w]
      by (cases who)
        (auto simp: stepGood_social_def resolvedGood_def signupGood_def admissionGood_def up split: option.split)
  qed
qed

subsection \<open>Step 3\<close>

lemma grows_emails:
  "emailsFrom a u cm db db1 \<Longrightarrow> sd_people db2 = sd_people db1 \<Longrightarrow> emailsFrom a u cm db db2"
  by (simp add: emailsFrom_def)

lemma signupPerson_db:
  assumes "signupPerson d a up db = Some (who, db')" "tablesOk db" "case up_adopted up of None \<Rightarrow> True | Some p \<Rightarrow> personOf db a (pn_id p)"
    "cm_emailVerified (up_claims up) \<longrightarrow> cm_email (up_claims up) \<noteq> None"
  shows "grows db db'" "tablesOk db'" "emailsFrom a (pn_id who) (up_claims up) db db'" "sd_identities db' = sd_identities db"
    "sd_wallets db' = sd_wallets db" "sd_replay db' = sd_replay db" "personOf db' a (pn_id who)"
proof -
  have "grows db db' \<and> tablesOk db' \<and> emailsFrom a (pn_id who) (up_claims up) db db' \<and> sd_identities db' = sd_identities db
     \<and> sd_wallets db' = sd_wallets db \<and> sd_replay db' = sd_replay db \<and> personOf db' a (pn_id who)"
  proof (cases "up_adopted up")
    case (Some p)
    then have who: "who = p" and db': "db' = promoteEmail (socialNow d) a (pn_id p) (up_claims up) db" using assms(1) by (auto simp: signupPerson_def)
    note x = promoteEmail_db [OF assms(2), where now = "socialNow d" and a = a and u = "pn_id p" and cm = "up_claims up"]
    show ?thesis using x grows_personOf [OF x(1)] assms(3) Some unfolding who db' by simp
  next
    case None
    then have made: "createPerson (socialNow d) (he_userId (su_env (dw_draws d))) a (up_external up) (cm_email (up_claims up))
        (cm_emailVerified (up_claims up)) db = Some (who, db')" using assms(1) by (simp add: signupPerson_def)
    note x = createPerson_db [OF made assms(2,4)]
    have "emailsFrom a (pn_id who) (up_claims up) db db'"
      unfolding emailsFrom_def x(3) using x(7-9) by auto
    moreover have "personOf db' a (pn_id who)" unfolding personOf_def x(3) using x(7) by auto
    ultimately show ?thesis using x by simp
  qed
  then show "grows db db'" "tablesOk db'" "emailsFrom a (pn_id who) (up_claims up) db db'" "sd_identities db' = sd_identities db"
    "sd_wallets db' = sd_wallets db" "sd_replay db' = sd_replay db" "personOf db' a (pn_id who)" by blast+
qed

lemma emailIdentity_db:
  assumes "emailIdentity d a u cm db = Some db'" "tablesOk db" "personOf db a u"
  shows "grows db db'" "tablesOk db'" "sd_people db' = sd_people db" "sd_replay db' = sd_replay db"
proof -
  have "grows db db' \<and> tablesOk db' \<and> sd_people db' = sd_people db \<and> sd_replay db' = sd_replay db"
  proof (cases "cm_email cm")
    case None
    then show ?thesis using assms by (simp add: emailIdentity_def grows_refl)
  next
    case (Some email)
    then obtain found where ins: "insertIdentity (socialNow d) (dw_emailIdentity d) a u (emailParams email (cm_emailVerified cm)) db = Some (found, db')"
      using assms(1) by (auto simp: emailIdentity_def)
    show ?thesis using insertIdentity_db(1,2,3,5) [OF ins assms(2,3)] by simp
  qed
  then show "grows db db'" "tablesOk db'" "sd_people db' = sd_people db" "sd_replay db' = sd_replay db" by blast+
qed

lemma signupRows_parts:
  assumes "signupRows d a up m key db = SignedUp who row db'"
  obtains db1 db2 i db3 where "signupPerson d a up db = Some (who, db1)" "insertSubOrg row db1 = Some db2" "row = suborgRow d a (pn_id who) up m key"
    "insertIdentity (socialNow d) (dw_identity d) a (pn_id who) (providerParams (up_claims up)) db2 = Some (Some i, db3)"
    "emailIdentity d a (pn_id who) (up_claims up) db3 = Some db'"
proof -
  obtain w1 db1 where 1: "signupPerson d a up db = Some (w1, db1)" using assms by (auto simp: signupRows_def split: option.splits)
  obtain db2 where 2: "insertSubOrg (suborgRow d a (pn_id w1) up m key) db1 = Some db2"
    using assms 1 by (auto simp: signupRows_def Let_def split: option.splits)
  obtain f db3 where 3: "insertIdentity (socialNow d) (dw_identity d) a (pn_id w1) (providerParams (up_claims up)) db2 = Some (f, db3)"
    using assms 1 2 by (cases "insertIdentity (socialNow d) (dw_identity d) a (pn_id w1) (providerParams (up_claims up)) db2")
      (auto simp: signupRows_def Let_def)
  obtain i where 4: "f = Some i" using assms 1 2 3 by (cases f) (simp_all add: signupRows_def Let_def)
  obtain db4 where 5: "emailIdentity d a (pn_id w1) (up_claims up) db3 = Some db4"
    using assms 1 2 3 4 by (cases "emailIdentity d a (pn_id w1) (up_claims up) db3") (simp_all add: signupRows_def Let_def)
  have eqs: "who = w1" "row = suborgRow d a (pn_id w1) up m key" "db' = db4" using assms 1 2 3 4 5 by (auto simp: signupRows_def Let_def)
  show thesis
    by (rule that [of db1 db2 i db3]) (use 1 2 3 4 5 in \<open>simp_all only: eqs\<close>)
qed

lemma signupRows_db:
  assumes "signupRows d a up m key db = SignedUp who row db'" "tablesOk db" "case up_adopted up of None \<Rightarrow> True | Some p \<Rightarrow> personOf db a (pn_id p)"
    "cm_emailVerified (up_claims up) \<longrightarrow> cm_email (up_claims up) \<noteq> None"
  shows "grows db db'" "tablesOk db'" "emailsFrom a (pn_id who) (up_claims up) db db'" "sd_replay db' = sd_replay db"
    "owns db' a (up_claims up) (pn_id who)" "hasWallet db' a (pn_id who) row"
proof -
  obtain db1 db2 i db3 where parts: "signupPerson d a up db = Some (who, db1)" "insertSubOrg row db1 = Some db2" "row = suborgRow d a (pn_id who) up m key"
    "insertIdentity (socialNow d) (dw_identity d) a (pn_id who) (providerParams (up_claims up)) db2 = Some (Some i, db3)"
    "emailIdentity d a (pn_id who) (up_claims up) db3 = Some db'" using signupRows_parts [OF assms(1)] by blast
  note p = signupPerson_db [OF parts(1) assms(2-4)]
  have row: "wt_app row = a" "wt_user row = Some (pn_id who)" by (simp_all add: parts(3) suborgRow_def)
  have "\<forall>v. wt_user row = Some v \<longrightarrow> personOf db1 (wt_app row) v" using p(7) row by simp
  note w = insertSubOrg_db [OF parts(2) p(2) this]
  have of2: "personOf db2 a (pn_id who)" using grows_personOf [OF w(1) p(7)] .
  note x = insertIdentity_db [OF parts(4) w(2) of2]
  have of3: "personOf db3 a (pn_id who)" using grows_personOf [OF x(1) of2] .
  note e = emailIdentity_db [OF parts(5) x(2) of3]
  have g: "grows db2 db'" using grows_trans [OF x(1) e(1)] .
  show "grows db db'" using grows_trans [OF p(1) grows_trans [OF w(1) g]] .
  show "tablesOk db'" using e(2) .
  show "emailsFrom a (pn_id who) (up_claims up) db db'" using p(3) e(3) x(3) w(3) by (simp add: emailsFrom_def)
  show "sd_replay db' = sd_replay db" using p(6) e(4) x(5) w(5) by simp
  have "owns db3 a (up_claims up) (pn_id who)" unfolding owns_def using x(6) [OF refl] by (auto simp: providerParams_def)
  then show "owns db' a (up_claims up) (pn_id who)" using grows_owns [OF e(1)] by blast
  have "hasWallet db2 a (pn_id who) row" unfolding hasWallet_def using w(6) row by blast
  then show "hasWallet db' a (pn_id who) row" using grows_hasWallet [OF g] by blast
qed

text \<open>The tables change, nothing else: what is left is the emails.\<close>

lemma tables_world:
  assumes w: "worldGood_social S w" and acc: "acc \<in> set (sw_accepted w)"
    and db: "grows (sw_db w) db" "tablesOk db" "sd_replay db = sd_replay (sw_db w)" "emailsFrom (ax_app acc) u (ax_claims acc) (sw_db w) db"
      "owns db (ax_app acc) (ax_claims acc) u"
    and w': "sw_db w' = db" "sw_accepted w' = sw_accepted w" "sw_cache w' = sw_cache w" "sw_fetched w' = sw_fetched w"
      "sw_opened w' = sw_opened w" "sw_minted w' = sw_minted w"
  shows "worldGood_social S w'" "later w w'"
proof -
  show l: "later w w'" using db(1) w' by (simp add: later_def)
  have "recordsGood S w'" by (rule recordsGood_later [OF worldGood_social_D(4) [OF w] l]) (simp_all add: w')
  moreover have "vouched w' p" if p: "p \<in> set (sd_people (sw_db w'))" "pn_verified p \<noteq> None" for p
    by (rule emailsFrom_vouched [where acc = acc and u = u, OF _ worldGood_social_D(5) [OF w] l _ refl refl]) (use db acc w' p in simp_all)
  ultimately show "worldGood_social S w'"
    using w db w' unfolding worldGood_social_def replayGood_def cacheGood_def by simp
qed

lemma accepted_email:
  assumes "worldGood_social S w" "a \<in> set (sw_accepted w)"
  shows "cm_emailVerified (ax_claims a) \<longrightarrow> cm_email (ax_claims a) \<noteq> None"
  using worldGood_social_D(4) [OF assms(1)] assms(2) unfolding recordsGood_def tokenGood_def goodToken_def by blast

lemma signupStep_good:
  assumes w: "worldGood_social S w" and up: "signupGood w i c u" and stage: "stageGood_social S w i c (ok_stage c)"
  shows "stepGood_social S i w (signupStep S d c u m key w)"
proof (cases "signupRows d (ok_app c) u m key (sw_db w)")
  case (SignedUp who row db)
  let ?a = "acceptedBy i c (up_body u) (up_claims u)"
  have acc: "?a \<in> set (sw_accepted w)" and of_app: "case up_adopted u of None \<Rightarrow> True | Some p \<Rightarrow> personOf (sw_db w) (ok_app c) (pn_id p)"
    using up by (simp_all add: signupGood_def)
  have a: "ax_app ?a = ok_app c" "ax_claims ?a = up_claims u" by (simp_all add: acceptedBy_def)
  have email: "cm_emailVerified (up_claims u) \<longrightarrow> cm_email (up_claims u) \<noteq> None" using accepted_email [OF w acc] a(2) by simp
  note r = signupRows_db [OF SignedUp worldGood_social_D(1) [OF w] of_app email]
  show ?thesis
  proof (cases "socialAudit S d c (Some (pn_id who)) ''turnkey.wallet.create'' ''turnkey_resource'' (wt_id row) (Some (md_activity m))
      (suborgPayload u m) AuditChain.Succeeded (sw_audit w)")
    case None
    then show ?thesis using threw_good [OF w] SignedUp by (simp add: signupStep_def)
  next
    case (Some audit)
    let ?w = "w \<lparr> sw_db := db, sw_audit := audit \<rparr>"
    have "worldGood_social S ?w" "later w ?w"
      by (rule tables_world [OF w acc r(1,2,4), unfolded a, where u = "pn_id who"]; use r in simp)+
    then show ?thesis using Some SignedUp r acc
      by (simp add: signupStep_def stepGood_social_def admissionGood_def)
  qed
qed (use w threw_good [OF w] in \<open>simp_all add: signupStep_def stepGood_social_def later_refl\<close>)

subsection \<open>Steps 4 and 5\<close>

lemma loginStep_good:
  assumes w: "worldGood_social S w" and ad: "admissionGood w i c ad"
  shows "stepGood_social S i w (oGoTo (OaSession ad activity) c, w \<lparr> sw_opened := sw_opened w @ [openedBy i c ad] \<rparr>)"
proof -
  let ?w = "w \<lparr> sw_opened := sw_opened w @ [openedBy i c ad] \<rparr>" and ?x = "openedBy i c ad"
  have l: "later w ?w" by (auto simp: later_def grows_refl)
  have acc: "acceptedBy i c (on_body ad) (on_claims ad) \<in> set (sw_accepted w)" and own: "owns (sw_db w) (ok_app c) (on_claims ad) (pn_id (on_person ad))"
    and wallet: "hasWallet (sw_db w) (ok_app c) (pn_id (on_person ad)) (on_wallet ad)" using ad by (simp_all add: admissionGood_def)
  have "\<exists>a\<in>set (sw_accepted w). ax_call a = ox_call ?x \<and> ax_app a = ox_app ?x \<and> ax_claims a = ox_claims ?x \<and> ax_key a = ox_key ?x"
    by (rule bexI [OF _ acc]) (simp add: acceptedBy_def openedBy_def)
  moreover have "\<exists>r\<in>set (sd_wallets (sw_db w)). wt_app r = ox_app ?x \<and> wt_user r = Some (ox_user ?x) \<and> wt_organization r = ox_organization ?x"
    using wallet by (auto simp: hasWallet_def openedBy_def)
  moreover have "owns (sw_db w) (ox_app ?x) (ox_claims ?x) (ox_user ?x)" using own by (simp add: openedBy_def)
  ultimately have "recordsGood S ?w"
    using worldGood_social_D(4) [OF w] unfolding recordsGood_def tokenGood_def by auto
  then have "worldGood_social S ?w"
    using w later_vouched [OF l] unfolding worldGood_social_def replayGood_def cacheGood_def by simp
  then show ?thesis using l later_admissionGood [OF l ad] by (simp add: stepGood_social_def openedGood_def)
qed

lemma sessionStep_good:
  assumes w: "worldGood_social S w" and ad: "openedGood w i c ad" and stage: "stageGood_social S w i c (ok_stage c)"
  shows "stepGood_social S i w (sessionStep S i d c ad activity w)"
proof (cases "mintSessionForUser (su_env (dw_draws d)) (ok_app c) (pn_id (on_person ad)) (hubView (sw_db w))")
  case None
  then show ?thesis using threw_good [OF w] by (simp add: sessionStep_def)
next
  case (Some x)
  obtain session hub where x: "x = (session, hub)" by (metis prod.exhaust)
  show ?thesis
  proof (cases "loginNote S d c ad (Some activity) [(''sessionId'', JStr (mt_session session)), (''audience'', JStr (cm_audience (on_claims ad)))]
             AuditChain.Succeeded (sw_audit w)")
    case None
    then show ?thesis using threw_good [OF w] Some x by (simp add: sessionStep_def)
  next
    case noted: (Some audit)
    let ?m = "mintedFor i c ad session"
    let ?w = "w \<lparr> sw_db := withSessions hub (sw_db w), sw_audit := audit, sw_minted := sw_minted w @ [?m] \<rparr>"
    have same: "sd_people (withSessions hub (sw_db w)) = sd_people (sw_db w)" "sd_identities (withSessions hub (sw_db w)) = sd_identities (sw_db w)"
        "sd_wallets (withSessions hub (sw_db w)) = sd_wallets (sw_db w)" "sd_replay (withSessions hub (sw_db w)) = sd_replay (sw_db w)"
      by (simp_all add: withSessions_def)
    have l: "later w ?w" by (auto simp: later_def grows_def same)
    have ok: "tablesOk (sw_db ?w)" using worldGood_social_D(1) [OF w] by (simp add: tablesOk_def personOf_def same)
    have opened: "openedBy i c ad \<in> set (sw_opened w)" using ad by (simp add: openedGood_def)
    have "recordsGood S (?w \<lparr> sw_minted := sw_minted w \<rparr>)"
      by (rule recordsGood_later [OF worldGood_social_D(4) [OF w]]) (use l in \<open>auto simp: later_def\<close>)
    moreover have "\<exists>o'\<in>set (sw_opened w). ox_call o' = mx_call ?m \<and> ox_app o' = mx_app ?m \<and> ox_claims o' = mx_claims ?m \<and> ox_user o' = mx_user ?m"
      by (rule bexI [OF _ opened]) (simp add: openedBy_def mintedFor_def)
    ultimately have "recordsGood S ?w" unfolding recordsGood_def tokenGood_def by auto
    then have "worldGood_social S ?w"
      using w ok later_vouched [OF l] unfolding worldGood_social_def replayGood_def cacheGood_def by (simp add: same)
    then show ?thesis using l later_openedGood [OF l ad] Some x noted
      by (simp add: sessionStep_def stepGood_social_def mintedFor_def)
  qed
qed

subsection \<open>All steps\<close>

lemma socialStep_good:
  assumes w: "worldGood_social S w" and stage: "stageGood_social S w i c (ok_stage c)"
  shows "stepGood_social S i w (socialStep S i d ans c (ok_stage c) w)"
proof -
  note stay = stay_good [OF w stage] and threw = threw_good [OF w]
  have ran: "stepGood_social S i w (oRan ans c w following)" if "stepGood_social S i w following" for following
    using that stay threw by (cases ans) (simp_all add: oRan_def)
  have goes: "stepGood_social S i w (oGoTo st c, w)" if "stageGood_social S w i c st" "st \<noteq> OaDone" for st
    using that w by (cases st) (simp_all add: stepGood_social_def later_refl)
  show ?thesis
  proof (cases "ok_stage c")
    case (OaKeys body j now)
    then show ?thesis using stage stay keysStep_good [OF w] by (cases ans) simp_all
  next
    case (OaResolve body cm)
    then show ?thesis using stage ran resolveStep_good [OF w _ stage] by simp
  next
    case (OaIntent u)
    then have "signupGood w i c u" using stage by simp
    then have "stepGood_social S i w (intentStep S d c u w)"
      unfolding intentStep_def by (intro noteStep_good [OF w]) (simp add: later_signupGood)
    then show ?thesis using OaIntent ran by simp
  next
    case (OaCreate u)
    then show ?thesis using stage stay goes by (cases ans) (simp_all add: stepGood_social_def later_refl w)
  next
    case (OaCreateFailed u e)
    have "stepGood_social S i w (createFailedStep S d c u e w)"
      unfolding createFailedStep_def by (intro noteStep_good [OF w]) simp
    then show ?thesis using OaCreateFailed ran by simp
  next
    case (OaAccounts u m)
    then show ?thesis using stage stay by (cases ans) (simp_all add: stepGood_social_def later_refl w)
  next
    case (OaSignup u m key)
    then show ?thesis using stage ran signupStep_good [OF w _ stage] by simp
  next
    case (OaRaced u m)
    have "stepGood_social S i w (racedStep S d c u m w)"
      unfolding racedStep_def by (intro noteStep_good [OF w]) simp
    then show ?thesis using OaRaced ran by simp
  next
    case (OaLogin ad)
    then have "admissionGood w i c ad" using stage by simp
    then show ?thesis using OaLogin stay loginStep_good [OF w] by (cases ans) (simp_all add: stepGood_social_def later_refl w)
  next
    case (OaLoginFailed ad e)
    have "stepGood_social S i w (loginFailedStep S d c ad e w)"
      unfolding loginFailedStep_def by (intro noteStep_good [OF w]) simp
    then show ?thesis using OaLoginFailed ran by simp
  next
    case (OaSession ad activity)
    then show ?thesis using stage ran sessionStep_good [OF w _ stage] by simp
  next
    case (OaFresh ad s)
    then have "stepGood_social S i w (freshStep c ad s (sw_db w), w)"
      using stage w by (simp add: freshStep_def Let_def stepGood_social_def later_refl)
    then show ?thesis using OaFresh ran by simp
  next
    case (OaIdToken ad s email ok)
    then have "stepGood_social S i w (idTokenStep S d c ad s email ok (sw_db w), w)"
      using stage w by (auto simp: idTokenStep_def Let_def stepGood_social_def later_refl)
    then show ?thesis using OaIdToken ran by simp
  next
    case OaDone
    then show ?thesis using stay by simp
  qed
qed

lemma inv_social_tables:
  assumes "socialInv S w" "grows (sw_db w) db \<and> tablesOk db" "sd_replay db = sd_replay (sw_db w)"
    "\<And>p'. p' \<in> set (sd_people db) \<Longrightarrow> pn_verified p' \<noteq> None \<Longrightarrow> p' \<in> set (sd_people (sw_db w))"
  shows "socialInv S (w \<lparr> sw_db := db \<rparr>)"
proof -
  let ?w = "w \<lparr> sw_db := db \<rparr>"
  have w: "worldGood_social S w" and calls: "\<And>i c. sw_calls w i = Some c \<Longrightarrow> stageGood_social S w i c (ok_stage c)"
    using assms(1) unfolding socialInv_def by blast+
  have l: "later w ?w" using assms(2) by (simp add: later_def)
  have "recordsGood S ?w" by (rule recordsGood_later [OF worldGood_social_D(4) [OF w] l]) simp_all
  then have "worldGood_social S ?w"
    using w assms(2-4) later_vouched [OF l] unfolding worldGood_social_def replayGood_def cacheGood_def by simp
  moreover have "stageGood_social S ?w i c (ok_stage c)" if "sw_calls ?w i = Some c" for i c
    using later_stage [OF l calls] that by simp
  ultimately show ?thesis unfolding socialInv_def by blast
qed

lemma inv_call:
  assumes good: "worldGood_social S w1" "later w w1" "sw_calls w1 = sw_calls w" "stageGood_social S w1 i c' (ok_stage c')"
    and calls: "\<And>k c. sw_calls w k = Some c \<Longrightarrow> stageGood_social S w k c (ok_stage c)"
  shows "socialInv S (w1 \<lparr> sw_calls := (sw_calls w1)(i \<mapsto> c') \<rparr>)"
proof -
  let ?w = "w1 \<lparr> sw_calls := (sw_calls w1)(i \<mapsto> c') \<rparr>"
  have l: "worldGood_social S ?w" "later w1 ?w" by (rule quiet_world [OF good(1)]; simp)+
  have "stageGood_social S w1 k e (ok_stage e)" if "sw_calls ?w k = Some e" for k e
  proof (cases "k = i")
    case True
    then show ?thesis using that good(4) by simp
  next
    case False
    then show ?thesis using later_stage [OF good(2) calls] that good(3) by simp
  qed
  then show ?thesis using l(1) later_stage [OF l(2)] unfolding socialInv_def by blast
qed

lemma inv_socialEvent:
  assumes inv: "socialInv S w"
  shows "socialInv S (socialEvent S ev w)"
proof -
  have w: "worldGood_social S w" and calls: "\<And>i c. sw_calls w i = Some c \<Longrightarrow> stageGood_social S w i c (ok_stage c)"
    using inv unfolding socialInv_def by blast+
  note other = other_db [OF worldGood_social_D(1) [OF w]]
  show ?thesis
  proof (cases ev)
    case (BeginOAuth i app request body now)
    show ?thesis
      using BeginOAuth inv inv_call [OF w later_refl refl begin_good [OF w] calls, of i app request body now] by simp
  next
    case (ContinueOAuth i d ans)
    show ?thesis
    proof (cases "sw_calls w i")
      case None
      then show ?thesis using ContinueOAuth inv by simp
    next
      case (Some c)
      obtain c' w1 where step: "socialStep S i d ans c (ok_stage c) w = (c', w1)" by (metis prod.exhaust)
      have good: "worldGood_social S w1" "later w w1" "sw_calls w1 = sw_calls w" "stageGood_social S w1 i c' (ok_stage c')"
        using socialStep_good [OF w calls [OF Some], of d ans] step by (simp_all add: stepGood_social_def)
      show ?thesis using inv_call [OF good calls] ContinueOAuth Some step by simp
    qed
  next
    case (OtherUser p)
    have "socialInv S (w \<lparr> sw_db := otherUser p (sw_db w) \<rparr>)"
      by (rule inv_social_tables [OF inv other(1)]) (auto simp: otherUser_def split: if_splits)
    then show ?thesis using OtherUser by simp
  next
    case (OtherWallet r)
    have "sd_people (otherWallet r db) = sd_people db" "sd_replay (otherWallet r db) = sd_replay db" for db
      by (auto simp: otherWallet_def orElse_def insertSubOrg_def split: option.splits if_splits)
    then show ?thesis using OtherWallet inv_social_tables [OF inv other(2) [of r]] by simp
  next
    case (OtherEmail now x a u email)
    have "sd_people (otherEmail now x a u email db) = sd_people db" "sd_replay (otherEmail now x a u email db) = sd_replay db" for db
      by (auto simp: otherEmail_def insertIdentity_def Let_def split: option.splits if_splits)
    then show ?thesis using OtherEmail inv_social_tables [OF inv other(3) [of now x a u email]] by simp
  next
    case (OtherVerified now x a wallet)
    have "socialInv S (w \<lparr> sw_db := otherVerified now x a wallet (sw_db w) \<rparr>)"
      by (rule inv_social_tables [OF inv other(4)]) (simp_all add: otherVerified_def)
    then show ?thesis using OtherVerified by simp
  next
    case (OtherTables linked rows)
    have "socialInv S (w \<lparr> sw_db := (sw_db w) \<lparr> sd_linked := linked, sd_sessions := rows \<rparr> \<rparr>)"
      by (rule inv_social_tables [OF inv other(5)]) simp_all
    then show ?thesis using OtherTables by simp
  qed
qed

lemma inv_socialStart: "socialInv S (socialStart audit)"
  by (simp add: socialInv_def socialStart_def worldGood_social_def noRows_def tablesOk_def emailsOk_def replayGood_def cacheGood_def recordsGood_def)

lemma inv_socialRun: "socialInv S (socialRun S audit evs)"
  unfolding socialRun_def by (rule fold_invariant [where Q = "\<lambda>ev. True"]) (simp_all add: inv_socialEvent inv_socialStart)

end
