(* ===== verification/SocialRuns.thy ===== *)
theory SocialRuns
  imports SocialSteps RecoveryRuns
begin

text \<open>
  What social login keeps, of whole runs: the tables, the replay guard, for whom a session is opened, where verified emails
  come from, and that a call ends.
\<close>

lemma run_social: "worldGood_social S (socialRun S audit evs)"
  using inv_socialRun [of S audit evs] by (simp add: socialInv_def)

text \<open>
  C21. In every state the tables are well formed: keys are unique, identities and wallets belong to people of their
  application, and a verified email has one holder in an application.
\<close>

theorem social_tables_ok: "tablesOk (sw_db (socialRun S audit evs))"
  using worldGood_social_D(1) [OF run_social] .

lemma accepted_good:
  assumes "a \<in> set (sw_accepted (socialRun S audit evs))"
  obtains now jwk where "jwk \<in> set (sw_fetched (socialRun S audit evs))"
    "goodToken (ss_oidc S) (googleConfig S) now (ax_key a) (ax_token a) jwk (ax_claims a)"
  using worldGood_social_D(4) [OF run_social] assms that unfolding recordsGood_def tokenGood_def by blast

text \<open>
  C19. However the calls interleave, the replay guard lets the text of an id token pass once.
\<close>

theorem token_accepted_once: "distinct (map (\<lambda>a. ol_sha256 (ss_oidc S) (ax_token a)) (sw_accepted (socialRun S audit evs)))"
proof -
  let ?w = "socialRun S audit evs"
  have "map (\<lambda>a. ol_sha256 (ss_oidc S) (ax_token a)) (sw_accepted ?w) = map (\<lambda>a. cm_tokenHash (ax_claims a)) (sw_accepted ?w)"
  proof (rule map_cong [OF refl])
    fix a assume "a \<in> set (sw_accepted ?w)"
    then show "ol_sha256 (ss_oidc S) (ax_token a) = cm_tokenHash (ax_claims a)" by (rule accepted_good) (simp add: goodToken_def)
  qed
  also have "\<dots> = map fst (sd_replay (sw_db ?w))" using worldGood_social_D(2) [OF run_social, of S audit evs] by (simp add: replayGood_def)
  finally show ?thesis using tablesOk_D(5) [OF social_tables_ok] by simp
qed

text \<open>
  C14. Turnkey registers a session key on a wallet only for a token that was signed with a key of the issuer, is for this hub
  and names this very key; the wallet belongs to the person who owns the token's identity in the application.
\<close>

theorem session_opened_for_owner:
  assumes "x \<in> set (sw_opened (socialRun S audit evs))"
  shows "(\<exists>token now. \<exists>jwk\<in>set (sw_fetched (socialRun S audit evs)).
       goodToken (ss_oidc S) (googleConfig S) now (ox_key x) token jwk (ox_claims x))
     \<and> owns (sw_db (socialRun S audit evs)) (ox_app x) (ox_claims x) (ox_user x)
     \<and> (\<exists>r\<in>set (sd_wallets (sw_db (socialRun S audit evs))).
          wt_app r = ox_app x \<and> wt_user r = Some (ox_user x) \<and> wt_organization r = ox_organization x)"
proof -
  note r = worldGood_social_D(4) [OF run_social, of S audit evs]
  obtain a where a: "a \<in> set (sw_accepted (socialRun S audit evs))" "ax_claims a = ox_claims x" "ax_key a = ox_key x"
    using r assms unfolding recordsGood_def by blast
  obtain now jwk where "jwk \<in> set (sw_fetched (socialRun S audit evs))"
      "goodToken (ss_oidc S) (googleConfig S) now (ax_key a) (ax_token a) jwk (ax_claims a)" using accepted_good [OF a(1)] by blast
  then show ?thesis using r assms a(2,3) unfolding recordsGood_def by metis
qed

text \<open>
  One identity, one person: two sessions of an application for the same subject are sessions of the same person.
\<close>

theorem identity_never_moves:
  assumes "x \<in> set (sw_opened (socialRun S audit evs))" "y \<in> set (sw_opened (socialRun S audit evs))" "ox_app x = ox_app y"
    "cm_provider (ox_claims x) = cm_provider (ox_claims y)" "cm_subject (ox_claims x) = cm_subject (ox_claims y)"
  shows "ox_user x = ox_user y"
proof -
  let ?db = "sw_db (socialRun S audit evs)"
  have "owns ?db (ox_app z) (ox_claims z) (ox_user z)" if "z \<in> set (sw_opened (socialRun S audit evs))" for z
    using worldGood_social_D(4) [OF run_social] that unfolding recordsGood_def by blast
  then obtain i j where "i \<in> set (sd_identities ?db)" "identityKey i = (ox_app x, cm_provider (ox_claims x), cm_subject (ox_claims x))" "im_user i = ox_user x"
      and "j \<in> set (sd_identities ?db)" "identityKey j = (ox_app y, cm_provider (ox_claims y), cm_subject (ox_claims y))" "im_user j = ox_user y"
    using assms(1,2) unfolding owns_def by metis
  then show ?thesis using assms(3-5) tablesOk_D(2) [OF social_tables_ok, of S audit evs] by (metis distinct_map inj_onD)
qed


text \<open>
  The reply of a login is about the person whose session was opened and minted in this call.
\<close>

theorem login_reply_of_its_call:
  assumes "sw_calls (socialRun S audit evs) i = Some c" "ok_reply c = Some (LoggedIn r)" "ok_stage c = OaDone"
  shows "\<exists>m\<in>set (sw_minted (socialRun S audit evs)). mx_call m = i \<and> mx_app m = ok_app c \<and> mx_user m = lr_user r \<and> mx_session m = lr_session r
     \<and> (\<exists>x\<in>set (sw_opened (socialRun S audit evs)). ox_call x = i \<and> ox_app x = ok_app c \<and> ox_user x = lr_user r
          \<and> ox_organization x = wt_organization (lr_wallet r) \<and> ox_claims x = mx_claims m)"
proof -
  have "stageGood_social S (socialRun S audit evs) i c OaDone"
    using inv_socialRun [of S audit evs] assms(1,3) unfolding socialInv_def by metis
  then obtain ad where ad: "openedBy i c ad \<in> set (sw_opened (socialRun S audit evs))" "mintedFor i c ad (lr_session r) \<in> set (sw_minted (socialRun S audit evs))"
      "lr_user r = pn_id (on_person ad)" "lr_wallet r = on_wallet ad"
    using assms(2) by (auto simp: openedGood_def)
  show ?thesis
    by (rule bexI [OF _ ad(2)], rule conjI, simp add: mintedFor_def, intro conjI)
      (use ad in \<open>auto simp: mintedFor_def openedBy_def intro!: bexI [OF _ ad(1)]\<close>)
qed

subsection \<open>A call ends\<close>

fun answered :: "ostage \<Rightarrow> sanswer \<Rightarrow> bool" where
  "answered (OaKeys body j now) ans = (\<exists>k. ans = SKeys k)"
| "answered (OaCreate u) ans = ((\<exists>m. ans = SMade m) \<or> (\<exists>e. ans = SThrow e))"
| "answered (OaAccounts u m) ans = ((\<exists>k. ans = SAccounts k) \<or> (\<exists>e. ans = SThrow e))"
| "answered (OaLogin ad) ans = ((\<exists>a. ans = SLogged a) \<or> (\<exists>e. ans = SThrow e))"
| "answered st ans = (ans = SRan \<or> (\<exists>e. ans = SThrow e))"

text \<open>The steps of one call, whatever the world is by then.\<close>

fun drive :: "'k social_setup \<Rightarrow> nat \<Rightarrow> oauth_call \<Rightarrow> (social_draws \<times> sanswer \<times> social_world) list \<Rightarrow> oauth_call" where
  "drive S i c [] = c"
| "drive S i c ((d, ans, w) # xs) = drive S i (fst (socialStep S i d ans c (ok_stage c) w)) xs"

fun fitting :: "'k social_setup \<Rightarrow> nat \<Rightarrow> oauth_call \<Rightarrow> (social_draws \<times> sanswer \<times> social_world) list \<Rightarrow> bool" where
  "fitting S i c [] = True"
| "fitting S i c ((d, ans, w) # xs) = (answered (ok_stage c) ans \<and> fitting S i (fst (socialStep S i d ans c (ok_stage c) w)) xs)"

fun stepsLeft :: "ostage \<Rightarrow> nat" where
  "stepsLeft (OaKeys body j now) = 10"
| "stepsLeft (OaResolve body cm) = 9"
| "stepsLeft (OaIntent u) = 8"
| "stepsLeft (OaCreate u) = 7"
| "stepsLeft (OaCreateFailed u e) = 1"
| "stepsLeft (OaAccounts u m) = 6"
| "stepsLeft (OaSignup u m key) = 5"
| "stepsLeft (OaRaced u m) = 1"
| "stepsLeft (OaLogin ad) = 4"
| "stepsLeft (OaLoginFailed ad e) = 1"
| "stepsLeft (OaSession ad activity) = 3"
| "stepsLeft (OaFresh ad s) = 2"
| "stepsLeft (OaIdToken ad s email ok) = 1"
| "stepsLeft OaDone = 0"

definition replied :: "oauth_call \<Rightarrow> bool" where
  "replied c \<longleftrightarrow> (ok_stage c = OaDone \<longrightarrow> ok_reply c \<noteq> None)"

lemma replied_same [simp]: "replied (oFinish r c)" "st \<noteq> OaDone \<Longrightarrow> replied (oGoTo st c)"
  by (simp_all add: replied_def)

lemma threw_done [simp]: "ok_stage (oThrew c) = OaDone" "replied (oThrew c)"
  by (simp_all add: oThrew_def)

lemma afterToken_left: "stepsLeft (ok_stage (afterToken body result c)) \<le> 9" "replied (afterToken body result c)"
  by (auto simp: afterToken_def split: sum.splits oidc_code.splits)

lemma fewer:
  assumes "answered (ok_stage c) ans" "replied c"
  shows "stepsLeft (ok_stage (fst (socialStep S i d ans c (ok_stage c) w))) \<le> stepsLeft (ok_stage c) - 1
     \<and> replied (fst (socialStep S i d ans c (ok_stage c) w))"
proof (cases "ok_stage c")
    case (OaKeys body j now)
    then show ?thesis using assms afterToken_left by (auto simp: keysStep_def Let_def split: prod.splits)
  next
    case (OaResolve body cm)
    then show ?thesis using assms
      by (auto simp: oRan_def resolveStep_def Let_def split: prod.splits resolved_person.splits option.splits)
  next
    case (OaIntent u)
    then show ?thesis using assms by (auto simp: oRan_def intentStep_def noteStep_def split: option.splits)
  next
    case (OaCreateFailed u e)
    then show ?thesis using assms by (auto simp: oRan_def createFailedStep_def noteStep_def split: option.splits)
  next
    case (OaRaced u m)
    then show ?thesis using assms by (auto simp: oRan_def racedStep_def noteStep_def split: option.splits)
  next
    case (OaLoginFailed ad e)
    then show ?thesis using assms by (auto simp: oRan_def loginFailedStep_def noteStep_def split: option.splits)
  next
    case (OaSignup u m key)
    then show ?thesis using assms by (auto simp: oRan_def signupStep_def split: signup_result.splits option.splits)
  next
    case (OaSession ad activity)
    then show ?thesis using assms by (auto simp: oRan_def sessionStep_def split: option.splits)
  next
    case (OaFresh ad s)
    then show ?thesis using assms by (auto simp: oRan_def freshStep_def Let_def)
  next
    case (OaIdToken ad s email ok)
    then show ?thesis using assms by (auto simp: oRan_def idTokenStep_def Let_def)
qed (use assms in auto)

lemma drive_ends: "fitting S i c xs \<Longrightarrow> replied c \<Longrightarrow> stepsLeft (ok_stage c) \<le> length xs \<Longrightarrow> ok_stage (drive S i c xs) = OaDone \<and> replied (drive S i c xs)"
proof (induction S i c xs rule: drive.induct)
  case (1 S i c)
  then show ?case by (cases "ok_stage c") simp_all
next
  case (2 S i c d ans w xs)
  have left: "stepsLeft (ok_stage (fst (socialStep S i d ans c (ok_stage c) w))) \<le> stepsLeft (ok_stage c) - 1"
     "replied (fst (socialStep S i d ans c (ok_stage c) w))" using fewer [of c ans S i d w] 2(2,3) by simp_all
  have "stepsLeft (ok_stage (fst (socialStep S i d ans c (ok_stage c) w))) \<le> length xs" using left(1) 2(4) by simp
  then show ?case using 2(1) 2(2) left(2) by simp
qed

lemma begin_left: "stepsLeft (ok_stage (oauthCall S app request body now cache)) \<le> 10 \<and> replied (oauthCall S app request body now cache)"
  using order_trans [OF afterToken_left(1), of 10] afterToken_left(2)
  by (auto simp: oauthCall_def beginOAuth_def Let_def split: sum.splits option.splits)

text \<open>
  C20. A social login ends: after at most ten answers of the database, Turnkey and the key server, each of the kind the call waits
  for and whatever other calls do in between, the call has sent its reply.
\<close>

theorem oauth_call_ends:
  assumes "fitting S i (oauthCall S app request body now cache) xs" "10 \<le> length xs"
  shows "ok_stage (drive S i (oauthCall S app request body now cache) xs) = OaDone
     \<and> ok_reply (drive S i (oauthCall S app request body now cache) xs) \<noteq> None"
  using drive_ends [OF assms(1)] begin_left [of S app request body now cache] assms(2) unfolding replied_def by force

subsection \<open>Logins\<close>

definition socialKey :: string where "socialKey = ''02'' @ replicate 64 (CHR ''a'')"

definition googleJwk :: json where "googleJwk = JObj [(''kid'', JStr ''k1'')]"

definition googlePayload :: json where
  "googlePayload = JObj [(''iss'', JStr ''accounts.google.com''), (''aud'', JStr ''client''), (''exp'', JNum 1000), (''nonce'', JStr socialKey),
     (''sub'', JStr ''s1''), (''email'', JStr ''A@b.c''), (''email_verified'', JBool True)]"

definition socialOidc :: oidc_libs where
  "socialOidc = \<lparr> ol_parse = (\<lambda>b. Some (if length b = 3 then JObj [(''alg'', JStr ''RS256''), (''kid'', JStr ''k1'')] else googlePayload)),
     ol_verify = (\<lambda>alg k input s. Some True), ol_sha256 = (\<lambda>s. s) \<rparr>"

definition socialJwt :: "string jwt_libs" where
  "socialJwt = \<lparr> ij_parseText = (\<lambda>s. None), ij_parse = (\<lambda>b. None), ij_bytes = (\<lambda>v. [1, 2]), ij_sha256 = (\<lambda>b. b), ij_privateKey = (\<lambda>v. None),
     ij_publicOf = (\<lambda>k. JNull), ij_sign = (\<lambda>k m. [3]), ij_verify = (\<lambda>k m s. Some True) \<rparr>"

definition socialSetup :: "string social_setup" where
  "socialSetup = \<lparr> ss_oidc = socialOidc, ss_jwt = socialJwt,
     ss_signer = \<lparr> ig_issuer = ''hub'', ig_kid = ''h1'', ig_privateKey = ''secret'', ig_publicJwk = JObj [(''kid'', JStr ''h1'')], ig_previous = [],
       ig_ephemeral = False \<rparr>,
     ss_googleIds = ''client'', ss_hmac = (\<lambda>k m. ''m''), ss_jsonb = (\<lambda>j. j), ss_auditSecret = Some ''0123456789abcdef0123456789abcdef'',
     ss_parentOrg = ''root'' \<rparr>"

definition drawnAt :: "int \<Rightarrow> string \<Rightarrow> social_draws" where
  "drawnAt now tag =
     \<lparr> dw_draws = \<lparr> su_env = sampleEnv \<lparr> he_now := now, he_userId := ''u'' @ tag, he_rowId := ''r'' @ tag, he_nonce := ''n'' @ tag, he_token := ''t'' @ tag \<rparr>,
         su_auditId = ''a'' @ tag \<rparr>,
       dw_identity = ''i'' @ tag, dw_emailIdentity = ''e'' @ tag, dw_jti = ''j'' @ tag \<rparr>"

definition loginBody :: "string \<Rightarrow> oauth_body" where
  "loginBody token = \<lparr> ob_token = token, ob_publicKey = socialKey, ob_walletName = None, ob_addressFormat = None, ob_derivationPath = None,
     ob_network = None \<rparr>"

definition madeOrg :: "string \<Rightarrow> made_suborg" where
  "madeOrg org = \<lparr> md_organization = org, md_rootUser = Some ''root1'', md_wallet = ''w1'', md_addresses = [''tb1p''], md_activity = ''act'' \<rparr>"

definition signsUp :: "nat \<Rightarrow> string \<Rightarrow> string \<Rightarrow> social_event list" where
  "signsUp i tag org = [ContinueOAuth i (drawnAt 1 (''2'' @ tag)) SRan, ContinueOAuth i (drawnAt 1 (''3'' @ tag)) (SMade (madeOrg org)),
     ContinueOAuth i (drawnAt 1 (''4'' @ tag)) (SAccounts [(''tb1p'', Some ''02bb'')]), ContinueOAuth i (drawnAt 1 (''5'' @ tag)) SRan]"

definition logsIn :: "nat \<Rightarrow> string \<Rightarrow> social_event list" where
  "logsIn i tag = [ContinueOAuth i (drawnAt 2 (''6'' @ tag)) (SLogged ''act2''), ContinueOAuth i (drawnAt 2 (''7'' @ tag)) SRan,
     ContinueOAuth i (drawnAt 2 (''8'' @ tag)) SRan, ContinueOAuth i (drawnAt 2 (''9'' @ tag)) SRan]"

definition tokenText :: "string \<Rightarrow> string" where "tokenText signature = ''aaaa.bbbbbbbb.'' @ signature"

definition sampleClaims :: "string \<Rightarrow> oidc_claims" where
  "sampleClaims token = \<lparr> cm_provider = ''google'', cm_issuer = ''accounts.google.com'', cm_subject = ''s1'', cm_audience = ''client'',
     cm_email = Some ''A@b.c'', cm_emailVerified = True, cm_name = None, cm_expiresAt = 1000000, cm_tokenHash = token \<rparr>"

definition sampleJws :: "string \<Rightarrow> jws" where
  "sampleJws signature = \<lparr> jw_alg = ''RS256'', jw_kid = ''k1'', jw_input = ''aaaa.bbbbbbbb'', jw_signature = signature, jw_payload = googlePayload \<rparr>"

lemma social_key [simp]: "js_lower socialKey = socialKey" "compressedP256 socialKey"
proof -
  have "lower_char (CHR ''a'') = CHR ''a''" "lower_char (CHR ''0'') = CHR ''0''" "lower_char (CHR ''2'') = CHR ''2''" "hex_value (CHR ''a'') \<noteq> None"
    by code_simp+
  then show "js_lower socialKey = socialKey" "compressedP256 socialKey"
    by (simp_all add: socialKey_def js_lower_def compressedP256_def list_all_iff)
qed

lemma sample_config [simp]: "googleConfig socialSetup = GOOGLE_PROVIDER [''client'']" "oc_clientIds (GOOGLE_PROVIDER cs) = cs"
    "oc_jwksUrl (GOOGLE_PROVIDER cs) = ''https://www.googleapis.com/oauth2/v3/certs''"
proof -
  have "filter (\<lambda>s. s \<noteq> []) (map js_trim (splitOn (CHR '','') ''client'')) = [''client'']" by code_simp
  then show "googleConfig socialSetup = GOOGLE_PROVIDER [''client'']" by (simp add: googleConfig_def socialSetup_def)
qed (simp_all add: GOOGLE_PROVIDER_def)

lemma sample_decoded: "length (base64UrlDecode ''aaaa'') = 3" "length (base64UrlDecode ''bbbbbbbb'') = 6"
  by code_simp+

lemma sample_read [simp]:
  assumes "CHR ''.'' \<notin> set s" "s \<noteq> []"
  shows "readToken (ss_oidc socialSetup) (tokenText s) = Inr (sampleJws s)"
proof -
  have "splitOn (CHR ''.'') (''aaaa.bbbbbbbb.'' @ s) = [''aaaa'', ''bbbbbbbb'', s]"
    using readToken_parts [of "''aaaa''" "''bbbbbbbb''" s] assms(1) by simp
  then show ?thesis using assms(2) sample_decoded
    by (simp add: tokenText_def readToken_def parseJsonPart_def socialSetup_def socialOidc_def rbind_def stringProp_def googlePayload_def sampleJws_def)
qed

lemma sample_check [simp]: "checkToken (ss_oidc socialSetup) (GOOGLE_PROVIDER [''client'']) 0 socialKey token (sampleJws s) k = Inr (sampleClaims token)"
proof -
  have "js_trim ''A@b.c'' = ''A@b.c''" by code_simp
  then show ?thesis
    by (simp add: checkToken_def checkClaims_def Let_def sampleJws_def socialSetup_def socialOidc_def googlePayload_def stringProp_def GOOGLE_PROVIDER_def
      audiencesOf_def millis_def CLOCK_SKEW_MS_def nonceOf_def oauthNonceFor_def emailOf_def nameOf_def sampleClaims_def)
qed

text \<open>A call whose token is accepted, with the keys fetched or in the cache.\<close>

definition openCall :: "string \<Rightarrow> ostage \<Rightarrow> oauth_call" where
  "openCall app st = \<lparr> ok_app = app, ok_request = ''q1'', ok_stage = st, ok_reply = None \<rparr>"

lemma sample_begin:
  assumes "CHR ''.'' \<notin> set s" "s \<noteq> []"
  shows "oauthCall socialSetup (Some ''app'') ''q1'' (loginBody (tokenText s)) 0 cache =
     openCall ''app'' (case cachedKey cache ''https://www.googleapis.com/oauth2/v3/certs'' ''k1'' 0 of
         None \<Rightarrow> OaKeys (loginBody (tokenText s)) (sampleJws s) 0
       | Some k \<Rightarrow> OaResolve (loginBody (tokenText s)) (sampleClaims (tokenText s)))"
proof -
  let ?c = "\<lparr> ok_app = ''app'', ok_request = ''q1'', ok_stage = OaDone, ok_reply = None \<rparr>"
  have body: "ob_token (loginBody t) = t" "ob_publicKey (loginBody t) = socialKey" for t by (simp_all add: loginBody_def)
  have kid: "jw_kid (sampleJws s) = ''k1''" by (simp add: sampleJws_def)
  have "oauthCall socialSetup (Some ''app'') ''q1'' (loginBody (tokenText s)) 0 cache = beginOAuth socialSetup (loginBody (tokenText s)) 0 cache ?c"
    by (simp add: oauthCall_def given_def orElse_def)
  then show ?thesis
    using sample_read [OF assms]
    by (cases "cachedKey cache ''https://www.googleapis.com/oauth2/v3/certs'' ''k1'' 0")
      (simp_all add: beginOAuth_def Let_def body kid afterToken_def oGoTo_def openCall_def)
qed

lemma sample_keys:
  "keysStep socialSetup c (loginBody token) (sampleJws s) 0 (Some [googleJwk]) w =
     (oGoTo (OaResolve (loginBody token) (sampleClaims token)) c,
      w \<lparr> sw_cache := (sw_cache w)(''https://www.googleapis.com/oauth2/v3/certs'' \<mapsto> ([googleJwk], 0)), sw_fetched := sw_fetched w @ [googleJwk] \<rparr>)"
proof -
  have "refreshedKey url ''k1'' 0 (Some [googleJwk]) cache = (Inr googleJwk, cache(url \<mapsto> ([googleJwk], 0)))" for url cache
    by (simp add: refreshedKey_def findKid_def googleJwk_def)
  moreover have "jw_kid (sampleJws s) = ''k1''" by (simp add: sampleJws_def)
  ultimately show ?thesis by (simp add: keysStep_def Let_def rbind_def loginBody_def afterToken_def)
qed

text \<open>The audit log takes every event of a short run.\<close>

definition socialNote :: "social_draws \<Rightarrow> oauth_call \<Rightarrow> string option \<Rightarrow> string \<Rightarrow> string \<Rightarrow> string \<Rightarrow> string option \<Rightarrow> (string \<times> json) list \<Rightarrow>
     AuditChain.outcome \<Rightarrow> audit_row list \<Rightarrow> audit_row list" where
  "socialNote d c user ev et ei act payload result rows = the (socialAudit socialSetup d c user ev et ei act payload result rows)"

lemma social_fits:
  assumes "fits rows" "length rows < 999"
  shows "socialAudit socialSetup d c user ev et ei act payload result rows = Some (socialNote d c user ev et ei act payload result rows)"
    "fits (socialNote d c user ev et ei act payload result rows)"
    "length (socialNote d c user ev et ei act payload result rows) = Suc (length rows)"
proof -
  have ok: "\<bar>s\<bar> \<le> int (length rows)" if "chainTip app rows = Some t" "ar_chainSeq t = Some s" for app t s
    using assms(1) chainTip_member [OF that(1)] that(2) by (simp add: fits_def)
  have "\<exists>r s. socialAudit socialSetup d c user ev et ei act payload result rows = Some (rows @ [r]) \<and> ar_chainSeq r = Some s \<and> \<bar>s\<bar> \<le> int (length rows) + 1"
    using ok assms(2)
    by (fastforce simp: socialAudit_def auditEvent_def requireAuditSecret_def insertAuditLog_def socialSetup_def Let_def MAX_SAFE_INTEGER_def
      split: option.split)
  then obtain r s where r: "socialAudit socialSetup d c user ev et ei act payload result rows = Some (rows @ [r])" "ar_chainSeq r = Some s"
      "\<bar>s\<bar> \<le> int (length rows) + 1" by blast
  then show "socialAudit socialSetup d c user ev et ei act payload result rows = Some (socialNote d c user ev et ei act payload result rows)"
    by (simp add: socialNote_def)
  show "length (socialNote d c user ev et ei act payload result rows) = Suc (length rows)" using r by (simp add: socialNote_def)
  show "fits (socialNote d c user ev et ei act payload result rows)" using assms r by (force simp: socialNote_def fits_def)
qed

definition opens :: "nat \<Rightarrow> string \<Rightarrow> social_event list" where
  "opens i signature = [BeginOAuth i (Some ''app'') ''q1'' (loginBody (tokenText signature)) 0, ContinueOAuth i (drawnAt 0 ''0'') (SKeys (Some [googleJwk])),
     ContinueOAuth i (drawnAt 0 ''1'') SRan]"

lemma sample_cache [simp]: "cachedKey (\<lambda>x. None) url kid now = None" "cachedKey (m(url \<mapsto> ([googleJwk], 0))) url ''k1'' 0 = Some googleJwk"
  by (simp_all add: cachedKey_def JWKS_TTL_MS_def findKid_def googleJwk_def)

lemma signup_fields [simp]: "up_body (signupOf d body cm adopted) = body" "up_claims (signupOf d body cm adopted) = cm"
    "up_adopted (signupOf d body cm adopted) = adopted"
  by (simp_all add: signupOf_def Let_def)

lemmas social_eval = socialRun_def socialStart_def noRows_def oRan_def openCall_def oGoTo_def oFinish_def oThrew_def opens_def signsUp_def logsIn_def
  sample_keys drawnAt_def social_fits
lemmas social_steps = resolveStep_def resolvePerson_def recordOidcTokenUse_def getIdentity_def resolveNew_def vouchedEmail_def
  getPersonByVerifiedEmail_def acceptedBy_def intentStep_def noteStep_def signupNote_def accountKey_def defaultAddress_def madeOrg_def at_opt_def
  signupStep_def signupRows_def signupPerson_def createPerson_def suborgRow_def insertSubOrg_def insertIdentity_def providerParams_def
  emailIdentity_def emailParams_def openedBy_def sessionStep_def mintSessionForUser_def loginNote_def freshStep_def idTokenStep_def getPerson_def
  withSessions_def hubView_def given_def sampleEnv_def sampleClaims_def identityKey_def

lemma login_body [simp]: "ob_token (loginBody t) = t" "ob_publicKey (loginBody t) = socialKey"
  by (simp_all add: loginBody_def)

text \<open>A call whose person is known, from Turnkey's answer on.\<close>

definition socialSteps :: "social_event list \<Rightarrow> social_world \<Rightarrow> social_world" where
  "socialSteps evs w = fold (socialEvent socialSetup) evs w"

definition auditReady :: "nat \<Rightarrow> social_world \<Rightarrow> bool" where
  "auditReady n w \<longleftrightarrow> fits (sw_audit w) \<and> length (sw_audit w) < n"

lemma logsIn_run:
  fixes w w' i ad tag n
  defines "w' \<equiv> socialSteps (logsIn i tag) w"
  assumes "sw_calls w i = Some (openCall ''app'' (OaLogin ad))" "auditReady n w" "n < 100" "''r7'' @ tag \<notin> se_id ` set (sd_sessions (sw_db w))"
    "SESSION_TOKEN_PREFIX @ ''t7'' @ tag \<notin> se_hash ` set (sd_sessions (sw_db w))"
  shows "sw_opened w' = sw_opened w @ [openedBy i (openCall ''app'' OaDone) ad]" "map mx_user (sw_minted w') = map mx_user (sw_minted w) @ [pn_id (on_person ad)]"
    "sw_accepted w' = sw_accepted w" "sw_cache w' = sw_cache w" "auditReady (Suc n) w'" "sd_people (sw_db w') = sd_people (sw_db w)"
    "sd_identities (sw_db w') = sd_identities (sw_db w)" "sd_wallets (sw_db w') = sd_wallets (sw_db w)" "sd_replay (sw_db w') = sd_replay (sw_db w)"
    "se_id ` set (sd_sessions (sw_db w')) = insert (''r7'' @ tag) (se_id ` set (sd_sessions (sw_db w)))"
    "se_hash ` set (sd_sessions (sw_db w')) = insert (SESSION_TOKEN_PREFIX @ ''t7'' @ tag) (se_hash ` set (sd_sessions (sw_db w)))"
    "j \<noteq> i \<Longrightarrow> sw_calls w' j = sw_calls w j" "map_option ok_stage (sw_calls w' i) = Some OaDone"
    "\<exists>c r. sw_calls w' i = Some c \<and> ok_reply c = Some (LoggedIn r) \<and> lr_user r = pn_id (on_person ad)"
  using assms
  by (simp_all add: socialSteps_def auditReady_def social_eval openedBy_def sessionStep_def mintSessionForUser_def loginNote_def freshStep_def
    idTokenStep_def withSessions_def hubView_def sampleEnv_def Let_def)

definition googleUrl :: string where "googleUrl = ''https://www.googleapis.com/oauth2/v3/certs''"

definition newSignup :: "social_draws \<Rightarrow> string \<Rightarrow> signup" where
  "newSignup d signature = signupOf d (loginBody (tokenText signature)) (sampleClaims (tokenText signature)) None"

definition samplePerson :: "string \<Rightarrow> string \<Rightarrow> person_row" where
  "samplePerson tag external = \<lparr> pn_id = ''u5'' @ tag, pn_app = ''app'', pn_external = Some external, pn_email = Some ''A@b.c'', pn_verified = Some 1,
     pn_recovery = Some ''A@b.c'', pn_created = 1 \<rparr>"

lemma opens_first:
  fixes w' s i
  defines "w' \<equiv> socialSteps (opens i s) (socialStart [])"
  assumes "CHR ''.'' \<notin> set s" "s \<noteq> []"
  shows "sw_calls w' i = Some (openCall ''app'' (OaIntent (newSignup (drawnAt 0 ''1'') s)))" "j \<noteq> i \<Longrightarrow> sw_calls w' j = None"
    "sw_db w' = noRows \<lparr> sd_replay := [(tokenText s, ''app'', 1000000)] \<rparr>" "sw_cache w' googleUrl = Some ([googleJwk], 0)" "auditReady 1 w'"
    "map ax_token (sw_accepted w') = [tokenText s]" "sw_opened w' = []" "sw_minted w' = []"
  using assms
  by (simp_all add: socialSteps_def auditReady_def social_eval sample_begin resolveStep_def resolvePerson_def recordOidcTokenUse_def getIdentity_def
    resolveNew_def vouchedEmail_def getPersonByVerifiedEmail_def acceptedBy_def sampleClaims_def newSignup_def googleUrl_def Let_def)

text \<open>While another sign-up of the same identity has not written its rows.\<close>

definition reopens :: "nat \<Rightarrow> string \<Rightarrow> string \<Rightarrow> social_event list" where
  "reopens i signature tag = [BeginOAuth i (Some ''app'') ''q1'' (loginBody (tokenText signature)) 0, ContinueOAuth i (drawnAt 3 tag) SRan]"

lemma reopens_new:
  fixes w w' s i tag
  defines "w' \<equiv> socialSteps (reopens i s tag) w"
  assumes "CHR ''.'' \<notin> set s" "s \<noteq> []" "sw_calls w i = None" "sw_cache w googleUrl = Some ([googleJwk], 0)" "tokenText s \<notin> fst ` set (sd_replay (sw_db w))"
    "sd_identities (sw_db w) = []" "sd_people (sw_db w) = []"
  shows "sw_calls w' i = Some (openCall ''app'' (OaIntent (newSignup (drawnAt 3 tag) s)))" "j \<noteq> i \<Longrightarrow> sw_calls w' j = sw_calls w j"
    "sw_db w' = (sw_db w) \<lparr> sd_replay := sd_replay (sw_db w) @ [(tokenText s, ''app'', 1000000)] \<rparr>" "sw_audit w' = sw_audit w"
    "map ax_token (sw_accepted w') = map ax_token (sw_accepted w) @ [tokenText s]" "sw_opened w' = sw_opened w" "sw_minted w' = sw_minted w"
    "sw_cache w' = sw_cache w"
proof -
  have "cachedKey (sw_cache w) ''https://www.googleapis.com/oauth2/v3/certs'' ''k1'' 0 = Some googleJwk"
    using assms(5) by (simp add: cachedKey_def googleUrl_def JWKS_TTL_MS_def findKid_def googleJwk_def)
  then show "sw_calls w' i = Some (openCall ''app'' (OaIntent (newSignup (drawnAt 3 tag) s)))" "j \<noteq> i \<Longrightarrow> sw_calls w' j = sw_calls w j"
    "sw_db w' = (sw_db w) \<lparr> sd_replay := sd_replay (sw_db w) @ [(tokenText s, ''app'', 1000000)] \<rparr>" "sw_audit w' = sw_audit w"
    "map ax_token (sw_accepted w') = map ax_token (sw_accepted w) @ [tokenText s]" "sw_opened w' = sw_opened w" "sw_minted w' = sw_minted w"
    "sw_cache w' = sw_cache w"
    using assms
    by (simp_all add: socialSteps_def reopens_def oRan_def openCall_def oGoTo_def sample_begin resolveStep_def resolvePerson_def recordOidcTokenUse_def
      getIdentity_def resolveNew_def vouchedEmail_def getPersonByVerifiedEmail_def acceptedBy_def sampleClaims_def newSignup_def Let_def)
qed

lemmas signup_eval = socialSteps_def auditReady_def social_eval intentStep_def noteStep_def signupNote_def accountKey_def defaultAddress_def madeOrg_def
  at_opt_def signupStep_def signupRows_def signupPerson_def createPerson_def newSignup_def sampleEnv_def sampleClaims_def given_def

lemma signsUp_first:
  fixes w w' s i tag org d
  defines "w' \<equiv> socialSteps (signsUp i tag org) w"
  assumes "sw_calls w i = Some (openCall ''app'' (OaIntent (newSignup d s)))" "sd_people (sw_db w) = []" "sd_identities (sw_db w) = []"
    "sd_wallets (sw_db w) = []" "auditReady n w" "n < 100" "''i5'' @ tag \<noteq> ''e5'' @ tag"
  shows "\<exists>ad external. sw_calls w' i = Some (openCall ''app'' (OaLogin ad)) \<and> on_person ad = samplePerson tag external \<and> on_body ad = loginBody (tokenText s)
      \<and> wt_organization (on_wallet ad) = org \<and> on_claims ad = sampleClaims (tokenText s) \<and> sd_people (sw_db w') = [samplePerson tag external]
      \<and> sd_wallets (sw_db w') = [on_wallet ad] \<and> wt_app (on_wallet ad) = ''app'' \<and> wt_user (on_wallet ad) = Some (''u5'' @ tag)"
    "map (\<lambda>i. (identityKey i, im_user i)) (sd_identities (sw_db w')) =
       [((''app'', ''google'', ''s1''), ''u5'' @ tag), ((''app'', ''email'', js_lower ''A@b.c''), ''u5'' @ tag)]"
    "auditReady (n + 2) w'" "sd_replay (sw_db w') = sd_replay (sw_db w)" "sd_sessions (sw_db w') = sd_sessions (sw_db w)"
    "j \<noteq> i \<Longrightarrow> sw_calls w' j = sw_calls w j" "sw_accepted w' = sw_accepted w" "sw_opened w' = sw_opened w" "sw_minted w' = sw_minted w"
    "sw_cache w' = sw_cache w"
  using assms
  by (simp_all add: signup_eval samplePerson_def insertSubOrg_def insertIdentity_def providerParams_def emailIdentity_def emailParams_def
    identityKey_def suborgRow_def socialNow_def Let_def)

text \<open>The email of the token is somebody's verified one by now: the insert of the person throws.\<close>

lemma signsUp_threw:
  fixes w w' s i tag org d
  defines "w' \<equiv> socialSteps (signsUp i tag org) w"
  assumes "sw_calls w i = Some (openCall ''app'' (OaIntent (newSignup d s)))" "p \<in> set (sd_people (sw_db w))" "holdsEmail ''app'' ''A@b.c'' p"
    "auditReady n w" "n < 100"
  shows "\<exists>c. sw_calls w' i = Some c \<and> ok_stage c = OaDone \<and> ok_reply c = Some (OaRefuse 500 ''Internal Server Error'')"
    "sw_db w' = sw_db w" "length (sw_audit w') = Suc (length (sw_audit w))"
proof -
  have "\<exists>q\<in>set (sd_people (sw_db w)). holdsEmail ''app'' ''A@b.c'' q" using assms(3,4) by blast
  then show "\<exists>c. sw_calls w' i = Some c \<and> ok_stage c = OaDone \<and> ok_reply c = Some (OaRefuse 500 ''Internal Server Error'')"
    "sw_db w' = sw_db w" "length (sw_audit w') = Suc (length (sw_audit w))"
    using assms(1,2,5,6) by (simp_all add: signup_eval Let_def)
qed

text \<open>When the identity is known.\<close>

lemma reopens_known:
  fixes w w' s i tag
  defines "w' \<equiv> socialSteps (reopens i s tag) w"
  assumes "CHR ''.'' \<notin> set s" "s \<noteq> []" "sw_calls w i = None" "sw_cache w googleUrl = Some ([googleJwk], 0)" "tokenText s \<notin> fst ` set (sd_replay (sw_db w))"
    and ids: "sd_identities (sw_db w) = [g, e]" "identityKey g = (''app'', ''google'', ''s1'')" "im_user g = ''u5'' @ t"
    and people: "sd_people (sw_db w) = [samplePerson t external]"
    and wallets: "sd_wallets (sw_db w) = [r]" "wt_app r = ''app''" "wt_user r = Some (''u5'' @ t)"
  shows "\<exists>ad. sw_calls w' i = Some (openCall ''app'' (OaLogin ad)) \<and> on_person ad = samplePerson t external \<and> on_wallet ad = r
      \<and> on_claims ad = sampleClaims (tokenText s)" "sd_sessions (sw_db w') = sd_sessions (sw_db w)" "sw_audit w' = sw_audit w"
    "map ax_token (sw_accepted w') = map ax_token (sw_accepted w) @ [tokenText s]" "sw_opened w' = sw_opened w" "sw_minted w' = sw_minted w"
proof -
  have cached: "cachedKey (sw_cache w) ''https://www.googleapis.com/oauth2/v3/certs'' ''k1'' 0 = Some googleJwk"
    using assms(5) by (simp add: cachedKey_def googleUrl_def JWKS_TTL_MS_def findKid_def googleJwk_def)
  have person: "pn_app (samplePerson t external) = ''app''" "pn_id (samplePerson t external) = ''u5'' @ t" by (simp_all add: samplePerson_def)
  have sessions: "sd_sessions (promoteEmail now a u cm db) = sd_sessions db" "sd_sessions (touchIdentityLogin now x db) = sd_sessions db" for now a u cm db x
    by (simp_all add: promoteEmail_def setVerifiedPrimaryEmail_def touchIdentityLogin_def split: option.splits)
  have wallet: "oauthWallet [r] = Some r" by (simp add: oauthWallet_def)
  have g: "im_user g = CHR ''u'' # CHR ''5'' # t" "identityKey g = (''app'', ''google'', ''s1'')" using ids by simp_all
  show "\<exists>ad. sw_calls w' i = Some (openCall ''app'' (OaLogin ad)) \<and> on_person ad = samplePerson t external \<and> on_wallet ad = r
      \<and> on_claims ad = sampleClaims (tokenText s)" "sd_sessions (sw_db w') = sd_sessions (sw_db w)" "sw_audit w' = sw_audit w"
    "map ax_token (sw_accepted w') = map ax_token (sw_accepted w) @ [tokenText s]" "sw_opened w' = sw_opened w" "sw_minted w' = sw_minted w"
    unfolding w'_def
    using assms(2-6) cached ids(1) g people wallets person wallet
    by (simp_all add: socialSteps_def reopens_def oRan_def openCall_def oGoTo_def sample_begin resolveStep_def resolvePerson_def recordOidcTokenUse_def
      getIdentity_def resolveIdentity_def getPerson_def walletsOfUser_def sort_key_def acceptedBy_def sampleClaims_def sessions Let_def)
qed

lemma run_parts: "socialRun socialSetup [] (xs @ ys) = socialSteps ys (socialRun socialSetup [] xs)" "socialRun socialSetup [] xs = socialSteps xs (socialStart [])"
  by (simp_all add: socialRun_def socialSteps_def)

definition firstLogin :: "social_event list" where
  "firstLogin = (opens 0 ''cc'' @ signsUp 0 ''x'' ''org1'') @ logsIn 0 ''x''"

lemma first_signup:
  fixes w
  defines "w \<equiv> socialRun socialSetup [] (opens 0 ''cc'' @ signsUp 0 ''x'' ''org1'')"
  obtains ad external g e where "sw_calls w 0 = Some (openCall ''app'' (OaLogin ad))" "on_person ad = samplePerson ''x'' external"
    "wt_organization (on_wallet ad) = ''org1''" "on_claims ad = sampleClaims (tokenText ''cc'')" "sd_people (sw_db w) = [samplePerson ''x'' external]"
    "sd_wallets (sw_db w) = [on_wallet ad]" "wt_app (on_wallet ad) = ''app''" "wt_user (on_wallet ad) = Some (''u5'' @ ''x'')"
    "sd_identities (sw_db w) = [g, e]" "identityKey g = (''app'', ''google'', ''s1'')" "im_user g = ''u5'' @ ''x''" "auditReady 3 w"
    "sd_replay (sw_db w) = [(tokenText ''cc'', ''app'', 1000000)]" "sd_sessions (sw_db w) = []" "map ax_token (sw_accepted w) = [tokenText ''cc'']"
    "sw_opened w = []" "sw_minted w = []" "sw_cache w googleUrl = Some ([googleJwk], 0)" "\<And>j. j \<noteq> 0 \<Longrightarrow> sw_calls w j = None"
proof -
  define w1 where "w1 = socialRun socialSetup [] (opens 0 ''cc'')"
  have w1': "w1 = socialSteps (opens 0 ''cc'') (socialStart [])" unfolding w1_def by (rule run_parts)
  have o: "sw_calls w1 0 = Some (openCall ''app'' (OaIntent (newSignup (drawnAt 0 ''1'') ''cc'')))" "\<And>j. j \<noteq> 0 \<Longrightarrow> sw_calls w1 j = None"
    "sw_db w1 = noRows \<lparr> sd_replay := [(tokenText ''cc'', ''app'', 1000000)] \<rparr>" "sw_cache w1 googleUrl = Some ([googleJwk], 0)" "auditReady 1 w1"
    "map ax_token (sw_accepted w1) = [tokenText ''cc'']" "sw_opened w1 = []" "sw_minted w1 = []"
    unfolding w1' using opens_first [where s = "''cc''" and i = 0] by simp_all
  have rows: "sd_people (sw_db w1) = []" "sd_identities (sw_db w1) = []" "sd_wallets (sw_db w1) = []" "sd_sessions (sw_db w1) = []"
    "sd_replay (sw_db w1) = [(tokenText ''cc'', ''app'', 1000000)]" by (simp_all add: o(3) noRows_def)
  have w: "w = socialSteps (signsUp 0 ''x'' ''org1'') w1" unfolding w_def w1_def by (rule run_parts)
  note u = signsUp_first [OF o(1) rows(1-3) o(5), where tag = "''x''" and org = "''org1''", folded w]
  obtain ad external where ad: "sw_calls w 0 = Some (openCall ''app'' (OaLogin ad))" "on_person ad = samplePerson ''x'' external"
      "wt_organization (on_wallet ad) = ''org1''" "on_claims ad = sampleClaims (tokenText ''cc'')" "sd_people (sw_db w) = [samplePerson ''x'' external]"
      "sd_wallets (sw_db w) = [on_wallet ad]" "wt_app (on_wallet ad) = ''app''" "wt_user (on_wallet ad) = Some (''u5'' @ ''x'')"
    using u(1) by auto
  obtain g e where ids: "sd_identities (sw_db w) = [g, e]" "identityKey g = (''app'', ''google'', ''s1'')" "im_user g = ''u5'' @ ''x''"
    using u(2) by (auto simp: map_eq_Cons_conv)
  show thesis
    by (rule that [OF ad ids]) (use u(3-10) o rows in \<open>simp_all add: numeral_3_eq_3\<close>)
qed

lemma first_login:
  fixes w
  defines "w \<equiv> socialRun socialSetup [] firstLogin"
  obtains ad external g e where "sw_opened w = [openedBy 0 (openCall ''app'' OaDone) ad]" "on_person ad = samplePerson ''x'' external"
    "wt_organization (on_wallet ad) = ''org1''" "on_claims ad = sampleClaims (tokenText ''cc'')" "sd_people (sw_db w) = [samplePerson ''x'' external]"
    "sd_wallets (sw_db w) = [on_wallet ad]" "wt_app (on_wallet ad) = ''app''" "wt_user (on_wallet ad) = Some (''u5'' @ ''x'')"
    "sd_identities (sw_db w) = [g, e]" "identityKey g = (''app'', ''google'', ''s1'')" "im_user g = ''u5'' @ ''x''" "auditReady 4 w"
    "sd_replay (sw_db w) = [(tokenText ''cc'', ''app'', 1000000)]" "se_id ` set (sd_sessions (sw_db w)) = {''r7x''}"
    "se_hash ` set (sd_sessions (sw_db w)) = {SESSION_TOKEN_PREFIX @ ''t7x''}" "map ax_token (sw_accepted w) = [tokenText ''cc'']"
    "sw_cache w googleUrl = Some ([googleJwk], 0)" "\<And>j. j \<noteq> 0 \<Longrightarrow> sw_calls w j = None"
    "\<exists>c r. sw_calls w 0 = Some c \<and> ok_stage c = OaDone \<and> ok_reply c = Some (LoggedIn r) \<and> lr_user r = ''u5'' @ ''x''"
proof (rule first_signup)
  fix ad external g e
  let ?v = "socialRun socialSetup [] (opens 0 ''cc'' @ signsUp 0 ''x'' ''org1'')"
  assume v: "sw_calls ?v 0 = Some (openCall ''app'' (OaLogin ad))" "on_person ad = samplePerson ''x'' external"
    "wt_organization (on_wallet ad) = ''org1''" "on_claims ad = sampleClaims (tokenText ''cc'')" "sd_people (sw_db ?v) = [samplePerson ''x'' external]"
    "sd_wallets (sw_db ?v) = [on_wallet ad]" "wt_app (on_wallet ad) = ''app''" "wt_user (on_wallet ad) = Some (''u5'' @ ''x'')"
    "sd_identities (sw_db ?v) = [g, e]" "identityKey g = (''app'', ''google'', ''s1'')" "im_user g = ''u5'' @ ''x''" "auditReady 3 ?v"
    "sd_replay (sw_db ?v) = [(tokenText ''cc'', ''app'', 1000000)]" "sd_sessions (sw_db ?v) = []" "map ax_token (sw_accepted ?v) = [tokenText ''cc'']"
    "sw_opened ?v = []" "sw_minted ?v = []" "sw_cache ?v googleUrl = Some ([googleJwk], 0)" "\<And>j. j \<noteq> 0 \<Longrightarrow> sw_calls ?v j = None"
  have w: "w = socialSteps (logsIn 0 ''x'') ?v" unfolding w_def firstLogin_def by (rule run_parts)
  have fresh: "''r7'' @ ''x'' \<notin> se_id ` set (sd_sessions (sw_db ?v))" "SESSION_TOKEN_PREFIX @ ''t7'' @ ''x'' \<notin> se_hash ` set (sd_sessions (sw_db ?v))"
    by (simp_all add: v(14))
  note l = logsIn_run [OF v(1) v(12) _ fresh, folded w]
  have fin: "\<exists>c r. sw_calls w 0 = Some c \<and> ok_stage c = OaDone \<and> ok_reply c = Some (LoggedIn r) \<and> lr_user r = ''u5'' @ ''x''"
    using l(13,14) v(2) by (auto simp: samplePerson_def)
  show thesis
    by (rule that [OF _ v(2-4) _ _ v(7,8) _ v(10,11)]) (use l fin v in \<open>simp_all add: eval_nat_numeral\<close>)
qed

theorem session_opened_sample:
  "\<exists>x. x \<in> set (sw_opened (socialRun socialSetup [] firstLogin)) \<and> ox_user x = ''u5x''
     \<and> (\<exists>r\<in>set (sd_wallets (sw_db (socialRun socialSetup [] firstLogin))). wt_user r = Some ''u5x'' \<and> wt_organization r = ''org1'')"
proof (rule first_login)
  fix ad external
  assume o: "sw_opened (socialRun socialSetup [] firstLogin) = [openedBy 0 (openCall ''app'' OaDone) ad]" "on_person ad = samplePerson ''x'' external"
    "wt_organization (on_wallet ad) = ''org1''"
  let ?x = "openedBy 0 (openCall ''app'' OaDone) ad"
  have x: "?x \<in> set (sw_opened (socialRun socialSetup [] firstLogin))" "ox_user ?x = ''u5x''" "ox_organization ?x = ''org1''"
    using o by (simp_all add: openedBy_def samplePerson_def)
  from session_opened_for_owner [OF x(1)] show ?thesis using x by metis
qed

theorem login_reply_sample:
  "\<exists>c r. sw_calls (socialRun socialSetup [] firstLogin) 0 = Some c \<and> ok_reply c = Some (LoggedIn r) \<and> lr_user r = ''u5x''
     \<and> (\<exists>m\<in>set (sw_minted (socialRun socialSetup [] firstLogin)). mx_user m = ''u5x'' \<and> mx_session m = lr_session r)"
proof (rule first_login)
  assume "\<exists>c r. sw_calls (socialRun socialSetup [] firstLogin) 0 = Some c \<and> ok_stage c = OaDone \<and> ok_reply c = Some (LoggedIn r) \<and> lr_user r = ''u5'' @ ''x''"
  then obtain c r where c: "sw_calls (socialRun socialSetup [] firstLogin) 0 = Some c" "ok_stage c = OaDone" "ok_reply c = Some (LoggedIn r)" "lr_user r = ''u5x''"
    by auto
  from login_reply_of_its_call [OF c(1,3,2)] show ?thesis using c by metis
qed


definition failedCreate :: "(social_draws \<times> sanswer \<times> social_world) list" where
  "failedCreate = (let d = drawnAt 0 ''0''; w = socialStart [] in
     [(d, SKeys (Some [googleJwk]), w), (d, SRan, w), (d, SRan, w), (d, SThrow ''timeout'', w)] @ replicate 6 (d, SRan, w))"

lemma sample_fitting: "fitting socialSetup 0 (oauthCall socialSetup (Some ''app'') ''q1'' (loginBody (tokenText ''cc'')) 0 Map.empty) failedCreate"
  by (simp add: failedCreate_def social_eval sample_begin resolveStep_def resolvePerson_def recordOidcTokenUse_def getIdentity_def
    resolveNew_def vouchedEmail_def getPersonByVerifiedEmail_def intentStep_def noteStep_def signupNote_def createFailedStep_def sampleClaims_def
    numeral_eq_Suc Let_def)

theorem oauth_call_ends_sample:
  "ok_reply (drive socialSetup 0 (oauthCall socialSetup (Some ''app'') ''q1'' (loginBody (tokenText ''cc'')) 0 Map.empty) failedCreate) \<noteq> None"
  using oauth_call_ends [OF sample_fitting] by (simp add: failedCreate_def Let_def)

subsection \<open>Where the guard and the race handling fall short\<close>

text \<open>
  The guard compares texts: the token of a login with one more \<open>=\<close> is another text and the same token, so it passes, and
  Turnkey is asked to register the key again.
\<close>

definition paddedLogin :: "social_event list" where
  "paddedLogin = (firstLogin @ reopens 1 ''cc='' ''p'') @ logsIn 1 ''p''"

lemma padded_token_passes:
  "map ax_token (sw_accepted (socialRun socialSetup [] paddedLogin)) = [tokenText ''cc'', tokenText ''cc'' @ ''='']"
  "map ox_user (sw_opened (socialRun socialSetup [] paddedLogin)) = [''u5x'', ''u5x'']"
proof -
  let ?v = "socialRun socialSetup [] firstLogin" and ?w = "socialRun socialSetup [] (firstLogin @ reopens 1 ''cc='' ''p'')"
  have "map ax_token (sw_accepted (socialRun socialSetup [] paddedLogin)) = [tokenText ''cc'', tokenText ''cc'' @ ''='']
     \<and> map ox_user (sw_opened (socialRun socialSetup [] paddedLogin)) = [''u5x'', ''u5x'']"
  proof (rule first_login)
    fix ad external g e
    assume v: "sw_opened ?v = [openedBy 0 (openCall ''app'' OaDone) ad]" "on_person ad = samplePerson ''x'' external"
      "sd_people (sw_db ?v) = [samplePerson ''x'' external]" "sd_wallets (sw_db ?v) = [on_wallet ad]" "wt_app (on_wallet ad) = ''app''"
      "wt_user (on_wallet ad) = Some (''u5'' @ ''x'')" "sd_identities (sw_db ?v) = [g, e]" "identityKey g = (''app'', ''google'', ''s1'')"
      "im_user g = ''u5'' @ ''x''" "auditReady 4 ?v" "sd_replay (sw_db ?v) = [(tokenText ''cc'', ''app'', 1000000)]"
      "se_id ` set (sd_sessions (sw_db ?v)) = {''r7x''}" "se_hash ` set (sd_sessions (sw_db ?v)) = {SESSION_TOKEN_PREFIX @ ''t7x''}"
      "map ax_token (sw_accepted ?v) = [tokenText ''cc'']" "sw_cache ?v googleUrl = Some ([googleJwk], 0)" "\<And>j. j \<noteq> 0 \<Longrightarrow> sw_calls ?v j = None"
    have w: "?w = socialSteps (reopens 1 ''cc='' ''p'') ?v" by (rule run_parts)
    have fresh: "CHR ''.'' \<notin> set ''cc=''" "''cc='' \<noteq> []" "tokenText ''cc='' \<notin> fst ` set (sd_replay (sw_db ?v))" "sw_calls ?v 1 = None"
      using v(11,16) by (simp_all add: tokenText_def)
    note r = reopens_known [OF fresh(1,2,4) v(15) fresh(3) v(7-9) v(3,4,5,6), where tag = "''p''", folded w]
    obtain ad' where ad': "sw_calls ?w 1 = Some (openCall ''app'' (OaLogin ad'))" "on_person ad' = samplePerson ''x'' external" using r(1) by blast
    have ready: "auditReady 4 ?w" using v(10) r(3) by (simp add: auditReady_def)
    have ids: "''r7'' @ ''p'' \<notin> se_id ` set (sd_sessions (sw_db ?w))" "SESSION_TOKEN_PREFIX @ ''t7'' @ ''p'' \<notin> se_hash ` set (sd_sessions (sw_db ?w))"
      using v(12,13) r(2) by simp_all
    have end_run: "socialRun socialSetup [] paddedLogin = socialSteps (logsIn 1 ''p'') ?w" unfolding paddedLogin_def by (rule run_parts)
    note l = logsIn_run [OF ad'(1) ready _ ids, folded end_run]
    show ?thesis using l(1,3) r(4,5) v(1,2,14) ad'(2) by (simp add: openedBy_def samplePerson_def tokenText_def)
  qed
  then show "map ax_token (sw_accepted (socialRun socialSetup [] paddedLogin)) = [tokenText ''cc'', tokenText ''cc'' @ ''='']"
    "map ox_user (sw_opened (socialRun socialSetup [] paddedLogin)) = [''u5x'', ''u5x'']" by blast+
qed

theorem identity_never_moves_sample:
  "\<exists>x y. x \<in> set (sw_opened (socialRun socialSetup [] firstLogin)) \<and> y \<in> set (sw_opened (socialRun socialSetup [] firstLogin)) \<and> ox_user x = ox_user y
     \<and> ox_user x = ''u5x''"
proof (rule first_login)
  fix ad external
  assume o: "sw_opened (socialRun socialSetup [] firstLogin) = [openedBy 0 (openCall ''app'' OaDone) ad]" "on_person ad = samplePerson ''x'' external"
  let ?x = "openedBy 0 (openCall ''app'' OaDone) ad"
  have x: "?x \<in> set (sw_opened (socialRun socialSetup [] firstLogin))" "ox_user ?x = ''u5x''"
    using o by (simp_all add: openedBy_def samplePerson_def)
  from identity_never_moves [OF x(1) x(1)] show ?thesis using x by metis
qed

text \<open>
  "The same call again signs in": the same call carries the same token, and a token that passed once is refused.
\<close>

lemma same_call_refused:
  assumes "a \<in> set (sw_accepted (socialRun S audit evs))" "cm_tokenHash cm = cm_tokenHash (ax_claims a)"
  shows "resolveStep S i d c body cm (socialRun S audit evs) = (oFinish (OaRefuse 401 ''Invalid id token: replayed'') c, socialRun S audit evs)"
proof -
  have "cm_tokenHash cm \<in> fst ` set (sd_replay (sw_db (socialRun S audit evs)))"
    using worldGood_social_D(2) [OF run_social, of S audit evs] assms unfolding replayGood_def by (metis image_eqI list.set_map)
  then show ?thesis by (simp add: resolveStep_def resolvePerson_def recordOidcTokenUse_def)
qed

text \<open>
  Two sign-ups of one identity with a verified email: the second insert of the person throws before the identities are
  compared, so the call ends with 500, not with \<open>identity_raced\<close>, and the sub-organization it had made is in no table.
\<close>

lemma email_race_throws:
  fixes w
  defines "w \<equiv> socialRun socialSetup [] (((opens 0 ''cc'' @ reopens 1 ''dd'' ''p'') @ signsUp 0 ''x'' ''org1'') @ signsUp 1 ''y'' ''org2'')"
  shows "\<exists>c. sw_calls w 1 = Some c \<and> ok_reply c = Some (OaRefuse 500 ''Internal Server Error'')" "map wt_organization (sd_wallets (sw_db w)) = [''org1'']"
proof -
  define w1 where "w1 = socialRun socialSetup [] (opens 0 ''cc'')"
  define w2 where "w2 = socialRun socialSetup [] (opens 0 ''cc'' @ reopens 1 ''dd'' ''p'')"
  define w3 where "w3 = socialRun socialSetup [] ((opens 0 ''cc'' @ reopens 1 ''dd'' ''p'') @ signsUp 0 ''x'' ''org1'')"
  have steps: "w1 = socialSteps (opens 0 ''cc'') (socialStart [])" "w2 = socialSteps (reopens 1 ''dd'' ''p'') w1"
      "w3 = socialSteps (signsUp 0 ''x'' ''org1'') w2" "w = socialSteps (signsUp 1 ''y'' ''org2'') w3"
    unfolding w_def w1_def w2_def w3_def by (rule run_parts)+
  have a: "sw_calls w1 0 = Some (openCall ''app'' (OaIntent (newSignup (drawnAt 0 ''1'') ''cc'')))" "sw_calls w1 1 = None"
    "sw_db w1 = noRows \<lparr> sd_replay := [(tokenText ''cc'', ''app'', 1000000)] \<rparr>" "sw_cache w1 googleUrl = Some ([googleJwk], 0)" "auditReady 1 w1"
    unfolding steps(1) using opens_first [where s = "''cc''" and i = 0] by simp_all
  have side: "CHR ''.'' \<notin> set ''dd''" "''dd'' \<noteq> []" "tokenText ''dd'' \<notin> fst ` set (sd_replay (sw_db w1))" "sd_identities (sw_db w1) = []" "sd_people (sw_db w1) = []"
      "sd_wallets (sw_db w1) = []"
    by (simp_all add: a(3) noRows_def tokenText_def)
  note b = reopens_new [OF side(1,2) a(2,4) side(3-5), where tag = "''p''", folded steps(2)]
  have c: "sw_calls w2 0 = Some (openCall ''app'' (OaIntent (newSignup (drawnAt 0 ''1'') ''cc'')))" "sd_people (sw_db w2) = []" "sd_identities (sw_db w2) = []"
      "sd_wallets (sw_db w2) = []" "auditReady 1 w2"
    using b a side by (simp_all add: auditReady_def)
  note d = signsUp_first [OF c, where tag = "''x''" and org = "''org1''", folded steps(3)]
  obtain external where people: "sd_people (sw_db w3) = [samplePerson ''x'' external]" and wallets: "map wt_organization (sd_wallets (sw_db w3)) = [''org1'']"
    using d(1) by auto
  have p: "samplePerson ''x'' external \<in> set (sd_people (sw_db w3))" "holdsEmail ''app'' ''A@b.c'' (samplePerson ''x'' external)"
    by (simp_all add: people samplePerson_def holdsEmail_def)
  have "sw_calls w3 1 = Some (openCall ''app'' (OaIntent (newSignup (drawnAt 3 ''p'') ''dd'')))" using d(6) b(1) by simp
  note e = signsUp_threw [OF this p, where tag = "''y''" and org = "''org2''", folded steps(4)]
  have ready: "auditReady 3 w3" using d(3) by (simp add: numeral_3_eq_3)
  show "\<exists>c. sw_calls w 1 = Some c \<and> ok_reply c = Some (OaRefuse 500 ''Internal Server Error'')" "map wt_organization (sd_wallets (sw_db w)) = [''org1'']"
    using e(1,2) [OF ready] wallets by auto
qed

end
