(* ===== verification/WalletLink.thy ===== *)
theory WalletLink
  imports SigningRequest ArchTx AuditChain
begin

text \<open>
  Linking of external wallets (\<open>services/wallet-hub-api/src/routes/walletLinking.ts\<close>): a challenge for an address, its
  signed answer, the row of \<open>linked_wallets\<close>. A call in flight is the transaction it waits for; calls interleave at every
  \<open>await\<close>. The hooks before a handler are those of \<open>HubAuth\<close>; the check of a message signature and the tests of an
  address are bip322-js's, here parameters.
\<close>

subsection \<open>Tables\<close>

record link_challenge =
  xc_id :: string
  xc_app :: string
  xc_user :: string
  xc_provider :: string
  xc_address :: string
  xc_challenge :: string
  xc_expires :: int
  xc_used :: "int option"
  xc_publicKey :: "string option"

record link_row =
  xr_id :: string
  xr_app :: string
  xr_user :: string
  xr_provider :: string
  xr_address :: string
  xr_arch :: "string option"
  xr_network :: string
  xr_scheme :: string
  xr_signature :: string
  xr_message :: string
  xr_publicKey :: "string option"
  xr_legacy :: "string option"
  xr_created :: int

record ('t, 'm) link_setup =
  xs_libs :: "('t, 'm) arch_libs"
  xs_verify :: "string \<Rightarrow> string \<Rightarrow> string \<Rightarrow> bool option"
  xs_isAddress :: "string \<Rightarrow> bool"
  xs_isP2TR :: "string \<Rightarrow> bool"
  xs_hmac :: "string \<Rightarrow> string \<Rightarrow> string"
  xs_jsonb :: "json \<Rightarrow> json"
  xs_auditSecret :: "string option"
  xs_enforced :: enforced_routes

subsection \<open>Messages and identities\<close>

definition inferNetworkFromAddress :: "string \<Rightarrow> string" where
  "inferNetworkFromAddress address =
     (if starts_with ''bcrt1'' address then ''regtest''
      else if starts_with ''tb1'' address \<or> starts_with ''m'' address \<or> starts_with ''n'' address \<or> starts_with ''2'' address then ''testnet''
      else ''mainnet'')"

definition makeChallengeMessage :: "string \<Rightarrow> string \<Rightarrow> string \<Rightarrow> string \<Rightarrow> string" where
  "makeChallengeMessage domain address nonce expiresAtIso =
     lines_of [domain @ '' wants you to prove ownership of this Bitcoin address:'', address, '''', ''Nonce: '' @ nonce, ''Expires: '' @ expiresAtIso, '''',
       ''Only sign this message if you trust the application.'']"

fun accountOf :: "resolved_account \<Rightarrow> string" where
  "accountOf (ArchAccount a) = a"
| "accountOf (TaprootAccount t a x) = a"

text \<open>
  The Arch account of a wallet: from its public key, which must belong to the address, or from the address. \<open>Inl\<close> is a reply;
  the second component says whether a key was given.
\<close>

definition linkIdentity :: "('t, 'm) link_setup \<Rightarrow> string \<Rightarrow> string option \<Rightarrow> string \<Rightarrow> (nat \<times> string) + string \<times> bool" where
  "linkIdentity X prefix publicKeyHex address =
     (case publicKeyHex of
        Some key \<Rightarrow>
          (case archAccountFromWalletPublicKey (xs_libs X) key address of
             Inl reason \<Rightarrow> Inl (400, prefix @ reason)
           | Inr (internal, account) \<Rightarrow> Inr (account, True))
      | None \<Rightarrow>
          (case resolveArchAccountAddress (xs_libs X) address of
             None \<Rightarrow> Inl (500, ''Internal Server Error'')
           | Some r \<Rightarrow> Inr (accountOf r, False)))"

definition derivation :: "bool \<Rightarrow> json" where
  "derivation canonical = JStr (if canonical then ''internal_key'' else ''legacy_address_decode'')"

subsection \<open>Calls\<close>

record challenge_body =
  xb_external :: string
  xb_provider :: string
  xb_address :: string
  xb_network :: "string option"
  xb_publicKey :: "string option"

record link_answer =
  xv_external :: string
  xv_challenge :: string
  xv_signature :: string
  xv_hint :: "string option"

text \<open>What the checks after the load have found.\<close>

record link_proof =
  xp_record :: link_challenge
  xp_user :: string
  xp_signature :: string
  xp_scheme :: string
  xp_arch :: string
  xp_canonical :: bool

record challenge_draft =
  xd_body :: challenge_body
  xd_publicKey :: "string option"
  xd_arch :: string
  xd_canonical :: bool
  xd_message :: string
  xd_expires :: int

datatype link_reply =
    LinkChallenge string string int
  | Linked string string string string string
  | LinkRefuse nat string

datatype link_stage =
    XlInsert challenge_draft
  | XlUser link_answer
  | XlLoad link_answer string
  | XlWrite link_proof
  | XlDone

record link_call =
  xk_app :: string
  xk_request :: string
  xk_stage :: link_stage
  xk_reply :: "link_reply option"

record link_world =
  xw_hub :: hub_db
  xw_challenges :: "link_challenge list"
  xw_links :: "link_row list"
  xw_audit :: "audit_row list"
  xw_calls :: "nat \<Rightarrow> link_call option"

definition xGoTo :: "link_stage \<Rightarrow> link_call \<Rightarrow> link_call" where
  "xGoTo st c = c \<lparr> xk_stage := st \<rparr>"

definition xFinish :: "link_reply \<Rightarrow> link_call \<Rightarrow> link_call" where
  "xFinish r c = c \<lparr> xk_stage := XlDone, xk_reply := Some r \<rparr>"

definition xThrew :: "link_call \<Rightarrow> link_call" where
  "xThrew c = xFinish (LinkRefuse 500 ''Internal Server Error'') c"

definition linkNote ::
    "('t, 'm) link_setup \<Rightarrow> draws \<Rightarrow> link_call \<Rightarrow> string \<Rightarrow> string \<Rightarrow> string \<Rightarrow> string \<Rightarrow> (string \<times> json) list \<Rightarrow> audit_row list \<Rightarrow> audit_row list option" where
  "linkNote X dr c userId eventType entityType entityId payload rows =
     (case auditEvent (xs_hmac X) (xs_jsonb X) (xs_auditSecret X) (su_auditId dr) (toISOString (he_now (su_env dr)))
        \<lparr> ip_appId = xk_app c, ip_requestId = Some (xk_request c), ip_userId = Some userId, ip_eventType = eventType,
          ip_entityType = Some entityType, ip_entityId = Some entityId, ip_turnkeyActivityId = None,
          ip_turnkeyRequestId = None, ip_payloadJson = JObj payload, ip_outcome = AuditChain.Succeeded \<rparr> rows of
        Inl e \<Rightarrow> None
      | Inr rows' \<Rightarrow> Some rows')"

subsection \<open>The challenge\<close>

definition LINK_CHALLENGE_TTL_MS :: int where "LINK_CHALLENGE_TTL_MS = 10 * 60 * 1000"

text \<open>The hooks, the checks and the message, up to the transaction.\<close>

definition draftChallenge :: "('t, 'm) link_setup \<Rightarrow> hub_env \<Rightarrow> challenge_body \<Rightarrow> (nat \<times> string) + challenge_draft" where
  "draftChallenge X env body =
     (let address = xb_address body; key = (if given (xb_publicKey body) then Some (js_lower (the (xb_publicKey body))) else None)
      in if \<not> xs_isAddress X address then Inl (400, ''Invalid bitcoin address'')
         else if \<not> xs_isP2TR X address then Inl (400, ''Only Taproot (p2tr) addresses are supported'')
         else rbind (linkIdentity X ''Invalid publicKeyHex: '' key address) (\<lambda>(account, canonical).
           let expires = he_now env + LINK_CHALLENGE_TTL_MS
           in Inr \<lparr> xd_body = body, xd_publicKey = key, xd_arch = account, xd_canonical = canonical,
                xd_message = makeChallengeMessage ''arch-wallet-hub'' address (he_nonce env) (toISOString expires), xd_expires = expires \<rparr>))"

definition challengeStep :: "('t, 'm) link_setup \<Rightarrow> draws \<Rightarrow> link_call \<Rightarrow> challenge_draft \<Rightarrow> link_world \<Rightarrow> link_call \<times> link_world" where
  "challengeStep X dr c d w =
     (let env = su_env dr; body = xd_body d; (userId, hub) = getOrCreateUserByExternalId env (xk_app c) (xb_external body) (xw_hub w);
          network = (case xb_network body of Some n \<Rightarrow> n | None \<Rightarrow> inferNetworkFromAddress (xb_address body));
          row = \<lparr> xc_id = he_rowId env, xc_app = xk_app c, xc_user = userId, xc_provider = xb_provider body, xc_address = xb_address body,
            xc_challenge = xd_message d, xc_expires = xd_expires d, xc_used = None, xc_publicKey = xd_publicKey d \<rparr>
      in if xc_id row \<in> xc_id ` set (xw_challenges w) then (xThrew c, w)
         else case linkNote X dr c userId ''wallet_link.challenge.created'' ''wallet_link_challenge'' (xc_id row)
            [(''walletProvider'', JStr (xb_provider body)), (''address'', JStr (xb_address body)), (''network'', JStr network),
             (''resolvedArchAccountAddress'', JStr (xd_arch d)), (''derivation'', derivation (xd_canonical d)),
             (''expiresAt'', JStr (toISOString (xd_expires d)))] (xw_audit w) of
           None \<Rightarrow> (xThrew c, w)
         | Some audit \<Rightarrow> (xFinish (LinkChallenge (xc_id row) (xd_message d) (xd_expires d)) c,
             w \<lparr> xw_hub := hub, xw_challenges := xw_challenges w @ [row], xw_audit := audit \<rparr>))"

subsection \<open>The answer\<close>

definition loadLinkChallenge :: "string \<Rightarrow> string \<Rightarrow> link_challenge list \<Rightarrow> link_challenge option" where
  "loadLinkChallenge challengeId appId rows = List.find (\<lambda>r. xc_id r = challengeId \<and> xc_app r = appId) rows"

definition checkAnswer :: "('t, 'm) link_setup \<Rightarrow> int \<Rightarrow> link_answer \<Rightarrow> string \<Rightarrow> link_challenge option \<Rightarrow> (nat \<times> string) + link_proof" where
  "checkAnswer X now v userId found =
     (case found of
        None \<Rightarrow> Inl (404, ''Unknown challengeId'')
      | Some r \<Rightarrow>
          if xc_user r \<noteq> userId then Inl (403, ''Challenge does not belong to user'')
          else if xc_used r \<noteq> None then Inl (409, ''Challenge already used'')
          else if xc_expires r < now then Inl (410, ''Challenge expired'')
          else if xs_verify X (xc_address r) (xc_challenge r) (xv_signature v) \<noteq> Some True then Inl (401, ''Signature verification failed'')
          else rbind (linkIdentity X ''Invalid publicKeyHex on challenge: '' (if given (xc_publicKey r) then xc_publicKey r else None) (xc_address r))
            (\<lambda>(account, canonical). Inr \<lparr> xp_record = r, xp_user = userId, xp_signature = xv_signature v,
               xp_scheme = (case xv_hint v of Some h \<Rightarrow> h | None \<Rightarrow> ''wallet_specific''), xp_arch = account, xp_canonical = canonical \<rparr>))"

definition markUsed :: "int \<Rightarrow> string \<Rightarrow> link_challenge list \<Rightarrow> link_challenge list" where
  "markUsed now challengeId rows = map (\<lambda>r. if xc_id r = challengeId then r \<lparr> xc_used := Some now \<rparr> else r) rows"

definition linkKey :: "link_row \<Rightarrow> string \<times> string \<times> string" where
  "linkKey r = (xr_user r, xr_provider r, xr_address r)"

definition proofKey :: "link_proof \<Rightarrow> string \<times> string \<times> string" where
  "proofKey p = (xp_user p, xc_provider (xp_record p), xc_address (xp_record p))"

text \<open>\<open>ON CONFLICT (user_id, wallet_provider, address) DO UPDATE\<close>\<close>

definition relinked :: "link_proof \<Rightarrow> link_row \<Rightarrow> link_row" where
  "relinked p r =
     r \<lparr> xr_signature := xp_signature p, xr_message := xc_challenge (xp_record p), xr_scheme := xp_scheme p, xr_arch := Some (xp_arch p),
         xr_publicKey := (case xc_publicKey (xp_record p) of Some k \<Rightarrow> Some k | None \<Rightarrow> xr_publicKey r),
         xr_legacy := (if xr_arch r \<noteq> Some (xp_arch p) then (case xr_legacy r of Some a \<Rightarrow> Some a | None \<Rightarrow> xr_arch r) else xr_legacy r) \<rparr>"

definition newLink :: "hub_env \<Rightarrow> string \<Rightarrow> link_proof \<Rightarrow> link_row" where
  "newLink env appId p =
     \<lparr> xr_id = he_rowId env, xr_app = appId, xr_user = xp_user p, xr_provider = xc_provider (xp_record p), xr_address = xc_address (xp_record p),
       xr_arch = Some (xp_arch p), xr_network = inferNetworkFromAddress (xc_address (xp_record p)), xr_scheme = xp_scheme p,
       xr_signature = xp_signature p, xr_message = xc_challenge (xp_record p), xr_publicKey = xc_publicKey (xp_record p), xr_legacy = None,
       xr_created = he_now env \<rparr>"

definition upsertLink :: "hub_env \<Rightarrow> string \<Rightarrow> link_proof \<Rightarrow> link_row list \<Rightarrow> (string \<times> link_row list) option" where
  "upsertLink env appId p rows =
     (case List.find (\<lambda>r. linkKey r = proofKey p) rows of
        Some r \<Rightarrow> Some (xr_id r, map (\<lambda>r. if linkKey r = proofKey p then relinked p r else r) rows)
      | None \<Rightarrow> if he_rowId env \<in> xr_id ` set rows then None else Some (he_rowId env, rows @ [newLink env appId p]))"

text \<open>The columns that \<open>HubAuth\<close> reads.\<close>

definition linkedOf :: "link_row list \<Rightarrow> linked_row list" where
  "linkedOf rows = map (\<lambda>r. \<lparr> lw_app = xr_app r, lw_user = xr_user r, lw_provider = xr_provider r, lw_address = xr_address r \<rparr>) rows"

definition migratedFrom :: "link_proof \<Rightarrow> link_row list \<Rightarrow> string option" where
  "migratedFrom p rows =
     (case List.find (\<lambda>r. linkKey r = proofKey p) rows of
        None \<Rightarrow> None
      | Some r \<Rightarrow> if xr_arch r \<noteq> None \<and> xr_arch r \<noteq> Some (xp_arch p) then xr_arch r else None)"

definition migrationNote :: "('t, 'm) link_setup \<Rightarrow> draws \<Rightarrow> link_call \<Rightarrow> link_proof \<Rightarrow> string \<Rightarrow> string option \<Rightarrow> audit_row list \<Rightarrow> audit_row list option" where
  "migrationNote X dr c p linkId previous rows =
     (case previous of
        None \<Rightarrow> Some rows
      | Some old \<Rightarrow> linkNote X (dr \<lparr> su_auditId := su_auditId dr @ ''m'' \<rparr>) c (xp_user p) ''wallet_link.arch_identity_migrated'' ''linked_wallet'' linkId
          [(''walletProvider'', JStr (xc_provider (xp_record p))), (''address'', JStr (xc_address (xp_record p))),
           (''previousArchAccountAddress'', JStr old), (''archAccountAddress'', JStr (xp_arch p)), (''derivation'', derivation (xp_canonical p))] rows)"

definition writeStep :: "('t, 'm) link_setup \<Rightarrow> draws \<Rightarrow> link_call \<Rightarrow> link_proof \<Rightarrow> link_world \<Rightarrow> link_call \<times> link_world" where
  "writeStep X dr c p w =
     (case upsertLink (su_env dr) (xk_app c) p (xw_links w) of
        None \<Rightarrow> (xThrew c, w)
      | Some (linkId, links) \<Rightarrow>
          (case migrationNote X dr c p linkId (migratedFrom p (xw_links w)) (xw_audit w) of
             None \<Rightarrow> (xThrew c, w)
           | Some audit1 \<Rightarrow>
               (case linkNote X dr c (xp_user p) ''wallet_link.verified'' ''linked_wallet'' linkId
                  [(''walletProvider'', JStr (xc_provider (xp_record p))), (''address'', JStr (xc_address (xp_record p))),
                   (''network'', JStr (inferNetworkFromAddress (xc_address (xp_record p)))), (''verificationScheme'', JStr (xp_scheme p)),
                   (''archAccountAddress'', JStr (xp_arch p)), (''derivation'', derivation (xp_canonical p))] audit1 of
                  None \<Rightarrow> (xThrew c, w)
                | Some audit2 \<Rightarrow>
                    (xFinish (Linked linkId (xc_address (xp_record p)) (xp_arch p) (xc_provider (xp_record p)) (xp_scheme p)) c,
                     w \<lparr> xw_challenges := markUsed (he_now (su_env dr)) (xc_id (xp_record p)) (xw_challenges w), xw_links := links,
                         xw_hub := (xw_hub w) \<lparr> linkedWallets := linkedOf links \<rparr>, xw_audit := audit2 \<rparr>))))"

subsection \<open>Steps\<close>

text \<open>\<open>fails\<close>: the transaction fails.\<close>

fun linkStep :: "('t, 'm) link_setup \<Rightarrow> draws \<Rightarrow> bool \<Rightarrow> link_call \<Rightarrow> link_stage \<Rightarrow> link_world \<Rightarrow> link_call \<times> link_world" where
  "linkStep X dr fails c XlDone w = (c, w)"
| "linkStep X dr True c st w = (xThrew c, w)"
| "linkStep X dr False c (XlInsert d) w = challengeStep X dr c d w"
| "linkStep X dr False c (XlUser v) w =
     (let (userId, hub) = getOrCreateUserByExternalId (su_env dr) (xk_app c) (xv_external v) (xw_hub w)
      in (xGoTo (XlLoad v userId) c, w \<lparr> xw_hub := hub \<rparr>))"
| "linkStep X dr False c (XlLoad v userId) w =
     (case checkAnswer X (he_now (su_env dr)) v userId (loadLinkChallenge (xv_challenge v) (xk_app c) (xw_challenges w)) of
        Inl (code, message) \<Rightarrow> (xFinish (LinkRefuse code message) c, w)
      | Inr p \<Rightarrow> (xGoTo (XlWrite p) c, w))"
| "linkStep X dr False c (XlWrite p) w = writeStep X dr c p w"

definition linkHooks :: "hub_env \<Rightarrow> ('t, 'm) link_setup \<Rightarrow> string \<Rightarrow> auth_request \<Rightarrow> hub_db \<Rightarrow> hook_result \<times> hub_db" where
  "linkHooks env X routeKey request db =
     (case enforceSessionForRoute env (xs_enforced X) routeKey request db of
        (Passes request', db') \<Rightarrow> requireSessionForExistingUser env request' db'
      | refused \<Rightarrow> refused)"

definition hookReply :: "hook_result \<Rightarrow> link_reply option" where
  "hookReply h = (case h of Passes request \<Rightarrow> None | Denied401 m \<Rightarrow> Some (LinkRefuse 401 m) | Denied403 \<Rightarrow> Some (LinkRefuse 403 ''Forbidden''))"

text \<open>The body that the hooks see names the same user as the handler's.\<close>

definition linkRequest :: "string option \<Rightarrow> string option \<Rightarrow> string \<Rightarrow> auth_request" where
  "linkRequest app authorization external =
     \<lparr> rq_app = app, rq_authorization = authorization, rq_body = JObj [(''externalUserId'', JStr external)], rq_query = JUndefined, rq_session = None \<rparr>"

datatype link_event =
    BeginChallenge nat "string option" "string option" string challenge_body hub_env
  | BeginAnswer nat "string option" "string option" string link_answer hub_env
  | ContinueLink nat draws bool
  | OtherHub hub_db

definition startLink :: "string option \<Rightarrow> string \<Rightarrow> link_reply option \<Rightarrow> (nat \<times> string) + link_stage \<Rightarrow> link_call" where
  "startLink app request refused first =
     (let c = \<lparr> xk_app = (case app of Some a \<Rightarrow> a | None \<Rightarrow> []), xk_request = request, xk_stage = XlDone, xk_reply = None \<rparr>
      in case refused of
           Some r \<Rightarrow> xFinish r c
         | None \<Rightarrow> if \<not> given app then xFinish (LinkRefuse 401 ''Missing app context'') c
             else (case first of Inl (code, message) \<Rightarrow> xFinish (LinkRefuse code message) c | Inr st \<Rightarrow> xGoTo st c))"

definition beginLink :: "nat \<Rightarrow> link_call \<Rightarrow> hub_db \<Rightarrow> link_world \<Rightarrow> link_world" where
  "beginLink i c hub w = (if xw_calls w i = None then w \<lparr> xw_hub := hub, xw_calls := (xw_calls w)(i \<mapsto> c) \<rparr> else w)"

fun linkEvent :: "('t, 'm) link_setup \<Rightarrow> link_event \<Rightarrow> link_world \<Rightarrow> link_world" where
  "linkEvent X (BeginChallenge i app authorization request body env) w =
     (let (h, hub) = linkHooks env X ''wallet-links.challenge'' (linkRequest app authorization (xb_external body)) (xw_hub w)
      in beginLink i (startLink app request (hookReply h) (map_sum id XlInsert (draftChallenge X env body))) hub w)"
| "linkEvent X (BeginAnswer i app authorization request v env) w =
     (let (h, hub) = linkHooks env X ''wallet-links.verify'' (linkRequest app authorization (xv_external v)) (xw_hub w)
      in beginLink i (startLink app request (hookReply h) (Inr (XlUser v))) hub w)"
| "linkEvent X (ContinueLink i dr fails) w =
     (case xw_calls w i of
        None \<Rightarrow> w
      | Some c \<Rightarrow> (let (c', w') = linkStep X dr fails c (xk_stage c) w in w' \<lparr> xw_calls := (xw_calls w')(i \<mapsto> c') \<rparr>))"
| "linkEvent X (OtherHub hub) w = w \<lparr> xw_hub := hub \<lparr> linkedWallets := linkedWallets (xw_hub w) \<rparr> \<rparr>"

definition linkStart :: "hub_db \<Rightarrow> audit_row list \<Rightarrow> link_world" where
  "linkStart hub audit =
     \<lparr> xw_hub = hub \<lparr> linkedWallets := [] \<rparr>, xw_challenges = [], xw_links = [], xw_audit = audit, xw_calls = (\<lambda>i. None) \<rparr>"

definition linkRun :: "('t, 'm) link_setup \<Rightarrow> hub_db \<Rightarrow> audit_row list \<Rightarrow> link_event list \<Rightarrow> link_world" where
  "linkRun X hub audit evs = fold (linkEvent X) evs (linkStart hub audit)"

subsection \<open>The list\<close>

text \<open>\<open>GET /wallet-links\<close>: id, provider, address, Arch account, network, time; \<open>None\<close> when an address without account does not decode.\<close>

definition listLinks :: "('t, 'm) link_setup \<Rightarrow> hub_env \<Rightarrow> string \<Rightarrow> string \<Rightarrow> link_world \<Rightarrow> (string \<times> string \<times> string \<times> string \<times> string \<times> int) list option \<times> link_world" where
  "listLinks X env appId external w =
     (let (userId, hub) = getOrCreateUserByExternalId env appId external (xw_hub w);
          rows = sort_key (\<lambda>r. - xr_created r) (filter (\<lambda>r. xr_app r = appId \<and> xr_user r = userId) (xw_links w));
          account = (\<lambda>r. case xr_arch r of Some a \<Rightarrow> Some a | None \<Rightarrow> map_option accountOf (resolveArchAccountAddress (xs_libs X) (xr_address r)))
      in (if list_all (\<lambda>r. account r \<noteq> None) rows
          then Some (map (\<lambda>r. (xr_id r, xr_provider r, xr_address r, the (account r), xr_network r, xr_created r)) rows) else None,
          w \<lparr> xw_hub := hub \<rparr>))"

end
