(* ===== verification/WalletLinkSafety.thy ===== *)
theory WalletLinkSafety
  imports WalletLink
begin

text \<open>
  The invariant of wallet linking: every challenge is a text of the hub for a Taproot address, every linked wallet has a
  signature that verifies over such a text, and the rows that the session code reads are these.
\<close>

subsection \<open>What a linked wallet rests on\<close>

definition challengeGood :: "('t, 'm) link_setup \<Rightarrow> link_challenge \<Rightarrow> bool" where
  "challengeGood X x \<longleftrightarrow> xs_isAddress X (xc_address x) \<and> xs_isP2TR X (xc_address x)
     \<and> (\<exists>nonce iso. xc_challenge x = makeChallengeMessage ''arch-wallet-hub'' (xc_address x) nonce iso)"

definition identityGood :: "('t, 'm) link_setup \<Rightarrow> link_challenge \<Rightarrow> string \<Rightarrow> bool" where
  "identityGood X x account \<longleftrightarrow> (\<exists>prefix canonical.
     linkIdentity X prefix (if given (xc_publicKey x) then xc_publicKey x else None) (xc_address x) = Inr (account, canonical))"

definition provenBy :: "('t, 'm) link_setup \<Rightarrow> link_challenge \<Rightarrow> link_row \<Rightarrow> bool" where
  "provenBy X x r \<longleftrightarrow> linkKey r = (xc_user x, xc_provider x, xc_address x) \<and> xr_message r = xc_challenge x \<and> xc_used x \<noteq> None
     \<and> xs_verify X (xc_address x) (xc_challenge x) (xr_signature r) = Some True
     \<and> (\<exists>account. xr_arch r = Some account \<and> identityGood X x account)"

definition sameChallenge :: "link_challenge \<Rightarrow> link_challenge \<Rightarrow> bool" where
  "sameChallenge x y \<longleftrightarrow> y = x \<lparr> xc_used := xc_used y \<rparr>"

definition proofGood :: "('t, 'm) link_setup \<Rightarrow> link_challenge list \<Rightarrow> link_proof \<Rightarrow> bool" where
  "proofGood X cs p \<longleftrightarrow> (\<exists>x\<in>set cs. sameChallenge (xp_record p) x) \<and> xp_user p = xc_user (xp_record p)
     \<and> xs_verify X (xc_address (xp_record p)) (xc_challenge (xp_record p)) (xp_signature p) = Some True
     \<and> identityGood X (xp_record p) (xp_arch p)"

definition draftGood :: "('t, 'm) link_setup \<Rightarrow> challenge_draft \<Rightarrow> bool" where
  "draftGood X d \<longleftrightarrow> xs_isAddress X (xb_address (xd_body d)) \<and> xs_isP2TR X (xb_address (xd_body d))
     \<and> (\<exists>nonce iso. xd_message d = makeChallengeMessage ''arch-wallet-hub'' (xb_address (xd_body d)) nonce iso)"

fun linkStageGood :: "('t, 'm) link_setup \<Rightarrow> link_challenge list \<Rightarrow> link_stage \<Rightarrow> bool" where
  "linkStageGood X cs (XlInsert d) = draftGood X d"
| "linkStageGood X cs (XlWrite p) = proofGood X cs p"
| "linkStageGood X cs st = True"

definition rowsGood :: "('t, 'm) link_setup \<Rightarrow> link_world \<Rightarrow> bool" where
  "rowsGood X w \<longleftrightarrow> (\<forall>x\<in>set (xw_challenges w). challengeGood X x) \<and> (\<forall>r\<in>set (xw_links w). \<exists>x\<in>set (xw_challenges w). provenBy X x r)
     \<and> distinct (map linkKey (xw_links w)) \<and> distinct (map xr_id (xw_links w)) \<and> linkedWallets (xw_hub w) = linkedOf (xw_links w)"

definition linkInv :: "('t, 'm) link_setup \<Rightarrow> link_world \<Rightarrow> bool" where
  "linkInv X w \<longleftrightarrow> rowsGood X w \<and> (\<forall>i c. xw_calls w i = Some c \<longrightarrow> linkStageGood X (xw_challenges w) (xk_stage c))"

subsection \<open>Challenges stay\<close>

definition challengesKept :: "link_challenge list \<Rightarrow> link_challenge list \<Rightarrow> bool" where
  "challengesKept cs ds \<longleftrightarrow> (\<forall>x\<in>set cs. \<exists>y\<in>set ds. sameChallenge x y \<and> (xc_used x \<noteq> None \<longrightarrow> xc_used y \<noteq> None))"

lemma sameChallenge_refl [simp]: "sameChallenge x x"
  by (simp add: sameChallenge_def)

lemma sameChallenge_fields:
  assumes "sameChallenge x y"
  shows "xc_id y = xc_id x" "xc_user y = xc_user x" "xc_provider y = xc_provider x" "xc_address y = xc_address x" "xc_challenge y = xc_challenge x"
    "xc_publicKey y = xc_publicKey x"
  by (subst assms [unfolded sameChallenge_def], simp)+

lemma sameChallenge_trans: "sameChallenge x y \<Longrightarrow> sameChallenge y z \<Longrightarrow> sameChallenge x z"
  unfolding sameChallenge_def by (cases x; cases y; cases z) auto

lemma challengesKept_refl [simp]: "challengesKept cs cs"
  unfolding challengesKept_def using sameChallenge_refl by blast

lemma challengesKept_append [simp]: "challengesKept cs (cs @ [x])"
  unfolding challengesKept_def using sameChallenge_refl by fastforce

lemma challengesKept_markUsed [simp]: "challengesKept cs (markUsed now challengeId cs)"
proof -
  have "\<exists>y\<in>set (markUsed now challengeId cs). sameChallenge x y \<and> (xc_used x \<noteq> None \<longrightarrow> xc_used y \<noteq> None)" if "x \<in> set cs" for x
  proof -
    let ?y = "if xc_id x = challengeId then x \<lparr> xc_used := Some now \<rparr> else x"
    have "?y \<in> set (markUsed now challengeId cs)" using that by (simp add: markUsed_def)
    moreover have "sameChallenge x ?y" "xc_used x \<noteq> None \<longrightarrow> xc_used ?y \<noteq> None" by (simp_all add: sameChallenge_def)
    ultimately show ?thesis by blast
  qed
  then show ?thesis by (simp add: challengesKept_def)
qed

lemma challengeGood_same: "sameChallenge x y \<Longrightarrow> challengeGood X x = challengeGood X y"
  using sameChallenge_fields [of x y] by (simp add: challengeGood_def)

lemma identityGood_same: "sameChallenge x y \<Longrightarrow> identityGood X y account = identityGood X x account"
  using sameChallenge_fields [of x y] by (simp add: identityGood_def)

lemma provenBy_same:
  assumes "provenBy X x r" "sameChallenge x y" "xc_used x \<noteq> None \<longrightarrow> xc_used y \<noteq> None"
  shows "provenBy X y r"
  using assms sameChallenge_fields [OF assms(2)] identityGood_same [OF assms(2)] by (auto simp: provenBy_def)

lemma proven_kept:
  assumes "challengesKept cs ds" "\<exists>x\<in>set cs. provenBy X x r"
  shows "\<exists>y\<in>set ds. provenBy X y r"
  using assms provenBy_same unfolding challengesKept_def by blast

lemma proofGood_kept: "challengesKept cs ds \<Longrightarrow> proofGood X cs p \<Longrightarrow> proofGood X ds p"
  unfolding challengesKept_def proofGood_def using sameChallenge_trans by blast

lemma stage_kept: "challengesKept cs ds \<Longrightarrow> linkStageGood X cs st \<Longrightarrow> linkStageGood X ds st"
  by (cases st) (auto intro: proofGood_kept)

subsection \<open>The steps\<close>

text \<open>What a step from a good world gives: a good world, the challenges kept, the call in a good stage.\<close>

definition linkStepGood :: "('t, 'm) link_setup \<Rightarrow> link_world \<Rightarrow> link_call \<times> link_world \<Rightarrow> bool" where
  "linkStepGood X w cw \<longleftrightarrow> rowsGood X (snd cw) \<and> challengesKept (xw_challenges w) (xw_challenges (snd cw)) \<and> xw_calls (snd cw) = xw_calls w
     \<and> linkStageGood X (xw_challenges (snd cw)) (xk_stage (fst cw))"

lemma link_threw_good [simp]: "rowsGood X w \<Longrightarrow> linkStepGood X w (xThrew c, w)"
  by (simp add: linkStepGood_def xThrew_def xFinish_def)

lemma finish_good [simp]: "rowsGood X w \<Longrightarrow> linkStepGood X w (xFinish r c, w)"
  by (simp add: linkStepGood_def xFinish_def)

lemma user_keeps_links [simp]: "linkedWallets (snd (getOrCreateUserByExternalId env appId ext db)) = linkedWallets db"
  by (simp add: getOrCreateUserByExternalId_def split: option.splits)

lemma draft_good: "draftChallenge X env body = Inr d \<Longrightarrow> draftGood X d"
  by (auto simp: draftChallenge_def draftGood_def Let_def rbind_def split: if_splits sum.splits prod.splits)
    (rule exI, rule exI, rule refl)+

lemma challengeStep_good:
  assumes "rowsGood X w" "draftGood X d"
  shows "linkStepGood X w (challengeStep X dr c d w)"
proof -
  obtain userId hub where u: "getOrCreateUserByExternalId (su_env dr) (xk_app c) (xb_external (xd_body d)) (xw_hub w) = (userId, hub)" by fastforce
  then have hub: "linkedWallets hub = linkedWallets (xw_hub w)" by (metis snd_conv user_keeps_links)
  define row where "row = \<lparr> xc_id = he_rowId (su_env dr), xc_app = xk_app c, xc_user = userId, xc_provider = xb_provider (xd_body d),
    xc_address = xb_address (xd_body d), xc_challenge = xd_message d, xc_expires = xd_expires d, xc_used = None, xc_publicKey = xd_publicKey d \<rparr>"
  have row: "challengeGood X row" using assms(2) by (simp add: draftGood_def challengeGood_def row_def)
  have "linkStepGood X w (xFinish r c, w \<lparr> xw_hub := hub, xw_challenges := xw_challenges w @ [row], xw_audit := audit \<rparr>)" for r audit
    using assms(1) row hub proven_kept [OF challengesKept_append] by (fastforce simp: linkStepGood_def rowsGood_def xFinish_def)
  then show ?thesis
    using assms(1) unfolding challengeStep_def by (simp add: Let_def u flip: row_def split: option.split)
qed

lemma checkAnswer_good:
  assumes "checkAnswer X now v userId (loadLinkChallenge challengeId appId cs) = Inr p"
  shows "proofGood X cs p"
proof -
  obtain x where x: "loadLinkChallenge challengeId appId cs = Some x" using assms by (cases "loadLinkChallenge challengeId appId cs") (simp_all add: checkAnswer_def)
  then have "x \<in> set cs" by (auto simp: loadLinkChallenge_def find_Some_iff)
  then show ?thesis using assms x
    by (auto simp: checkAnswer_def proofGood_def identityGood_def rbind_def split: if_splits sum.splits prod.splits)
      (blast intro: sameChallenge_refl)+
qed

subsection \<open>The row\<close>

lemma relinked_key [simp]: "linkKey (relinked p r) = linkKey r" "xr_id (relinked p r) = xr_id r"
  by (simp_all add: relinked_def linkKey_def)

lemma newLink_key [simp]: "linkKey (newLink env appId p) = proofKey p" "xr_id (newLink env appId p) = he_rowId env"
  by (simp_all add: newLink_def linkKey_def proofKey_def)

lemma proven_row:
  assumes "proofGood X cs p" "linkKey r = proofKey p"
  shows "\<exists>x\<in>set (markUsed now (xc_id (xp_record p)) cs). provenBy X x (relinked p r)"
    "\<exists>x\<in>set (markUsed now (xc_id (xp_record p)) cs). provenBy X x (newLink env appId p)"
proof -
  obtain x where x: "x \<in> set cs" "sameChallenge (xp_record p) x" using assms(1) unfolding proofGood_def by blast
  note f = sameChallenge_fields [OF x(2)]
  let ?y = "x \<lparr> xc_used := Some now \<rparr>"
  have y: "?y \<in> set (markUsed now (xc_id (xp_record p)) cs)" using x(1) f(1) unfolding markUsed_def by force
  have "sameChallenge (xp_record p) ?y" using x(2) unfolding sameChallenge_def by (cases x; cases "xp_record p") auto
  note i = identityGood_same [OF this]
  have "provenBy X ?y (relinked p r)" "provenBy X ?y (newLink env appId p)"
    using assms f i by (auto simp: provenBy_def proofGood_def relinked_def newLink_def linkKey_def proofKey_def)
  then show "\<exists>x\<in>set (markUsed now (xc_id (xp_record p)) cs). provenBy X x (relinked p r)"
    "\<exists>x\<in>set (markUsed now (xc_id (xp_record p)) cs). provenBy X x (newLink env appId p)" using y by blast+
qed

lemma upsert_cases:
  assumes "upsertLink env appId p rows = Some (linkId, rows')"
  obtains r where "r \<in> set rows" "linkKey r = proofKey p" "rows' = map (\<lambda>r. if linkKey r = proofKey p then relinked p r else r) rows"
  | "proofKey p \<notin> linkKey ` set rows" "he_rowId env \<notin> xr_id ` set rows" "rows' = rows @ [newLink env appId p]"
proof (cases "List.find (\<lambda>r. linkKey r = proofKey p) rows")
  case None
  then have "proofKey p \<notin> linkKey ` set rows" by (auto simp: find_None_iff)
  then show thesis using that(2) assms None by (auto simp: upsertLink_def split: if_splits)
next
  case (Some r)
  then have "r \<in> set rows" "linkKey r = proofKey p" by (auto simp: find_Some_iff)
  then show thesis using that(1) assms Some by (auto simp: upsertLink_def)
qed

lemma upsert_distinct:
  assumes "upsertLink env appId p rows = Some (linkId, rows')" "distinct (map linkKey rows)" "distinct (map xr_id rows)"
  shows "distinct (map linkKey rows')" "distinct (map xr_id rows')"
proof -
  have "map linkKey rows' = map linkKey rows \<and> map xr_id rows' = map xr_id rows \<or> distinct (map linkKey rows') \<and> distinct (map xr_id rows')"
    using assms(1) by (rule upsert_cases) (use assms(2,3) in auto)
  then show "distinct (map linkKey rows')" "distinct (map xr_id rows')" using assms(2,3) by auto
qed

lemma upsert_proven:
  assumes "upsertLink env appId p rows = Some (linkId, rows')" "proofGood X cs p" "\<forall>r\<in>set rows. \<exists>x\<in>set cs. provenBy X x r"
  shows "\<forall>r\<in>set rows'. \<exists>x\<in>set (markUsed now (xc_id (xp_record p)) cs). provenBy X x r"
proof -
  have kept: "\<exists>x\<in>set (markUsed now (xc_id (xp_record p)) cs). provenBy X x r" if "r \<in> set rows" for r
    using proven_kept [OF challengesKept_markUsed] assms(3) that by blast
  from assms(1) show ?thesis
  proof (cases rule: upsert_cases)
    case (1 q)
    then show ?thesis using kept proven_row(1) [OF assms(2)] by auto
  next
    case 2
    then show ?thesis using kept proven_row(2) [OF assms(2), of "newLink env appId p"] by auto
  qed
qed

lemma writeStep_good:
  assumes "rowsGood X w" "proofGood X (xw_challenges w) p"
  shows "linkStepGood X w (writeStep X dr c p w)"
proof -
  have "linkStepGood X w (xFinish r c, w \<lparr> xw_challenges := markUsed now (xc_id (xp_record p)) (xw_challenges w), xw_links := links,
      xw_hub := (xw_hub w) \<lparr> linkedWallets := linkedOf links \<rparr>, xw_audit := audit \<rparr>)"
    if "upsertLink (su_env dr) (xk_app c) p (xw_links w) = Some (linkId, links)" for r now linkId links audit
  proof -
    have "challengeGood X x" if "x \<in> set (markUsed now (xc_id (xp_record p)) (xw_challenges w))" for x
      using that assms(1) by (auto simp: markUsed_def rowsGood_def challengeGood_def)
    then show ?thesis
      using assms(1) upsert_distinct [OF that] upsert_proven [OF that assms(2), of now]
      by (simp add: linkStepGood_def rowsGood_def xFinish_def)
  qed
  then show ?thesis using assms(1) unfolding writeStep_def by (auto split: option.split prod.split)
qed

lemma linkStep_good:
  assumes "rowsGood X w" "linkStageGood X (xw_challenges w) st" "xk_stage c = st"
  shows "linkStepGood X w (linkStep X dr fails c st w)"
proof (cases "fails \<or> st = XlDone")
  case True
  then show ?thesis using assms by (cases st; cases fails) (simp_all add: linkStepGood_def xThrew_def xFinish_def)
next
  case False
  then show ?thesis
  proof (cases st)
    case (XlInsert d)
    then show ?thesis using False assms challengeStep_good by auto
  next
    case (XlUser v)
    then show ?thesis using False assms(1) by (auto simp: linkStepGood_def rowsGood_def xGoTo_def split: prod.split)
        (metis snd_conv user_keeps_links)
  next
    case (XlLoad v userId)
    then show ?thesis using False assms(1) checkAnswer_good
      by (auto simp: linkStepGood_def xGoTo_def split: sum.split)
        (simp_all add: xFinish_def)
  next
    case (XlWrite p)
    then show ?thesis using False assms writeStep_good by auto
  qed (use False in simp)
qed

end
