(* ===== verification/WalletLinkRuns.thy ===== *)
theory WalletLinkRuns
  imports WalletLinkSafety HubRuns
begin

text \<open>
  What linking keeps, of whole runs: a session for an external wallet rests on two signatures, the first Arch account of a
  linked wallet is never lost; and what the code does not keep.
\<close>

subsection \<open>Runs\<close>

lemma touch_keeps [simp]: "linkedWallets (touchSession now sid db) = linkedWallets db"
  by (simp add: touchSession_def)

lemma token_keeps [simp]: "linkedWallets (snd (resolveSessionToken env token appId db)) = linkedWallets db"
  by (auto simp: resolveSessionToken_def split: option.split)

lemma attach_keeps [simp]: "linkedWallets (snd (attachSessionOrReply env request db)) = linkedWallets db"
proof (cases "rq_app request")
  case (Some appId)
  then show ?thesis
  proof (cases "extractSessionBearer (rq_authorization request)")
    case (Some bearer)
    then show ?thesis using \<open>rq_app request = Some appId\<close> token_keeps [of env bearer appId db]
      by (cases "resolveSessionToken env bearer appId db") (auto simp: attachSessionOrReply_def split: option.split)
  qed (simp add: attachSessionOrReply_def)
qed (simp add: attachSessionOrReply_def)

lemma enforce_keeps [simp]: "linkedWallets (snd (enforceSessionForRoute env enforced routeKey request db)) = linkedWallets db"
  using attach_keeps [of env request db]
  by (cases "attachSessionOrReply env request db") (auto simp: enforceSessionForRoute_def split: sum.split)

lemma existing_keeps [simp]: "linkedWallets (snd (requireSessionForExistingUser env request db)) = linkedWallets db"
  using attach_keeps [of env request db]
  by (cases "attachSessionOrReply env request db")
    (auto simp: requireSessionForExistingUser_def split: json.split option.split sum.split)

lemma hooks_keep [simp]: "linkedWallets (snd (linkHooks env X routeKey request db)) = linkedWallets db"
proof -
  obtain h db' where h: "enforceSessionForRoute env (xs_enforced X) routeKey request db = (h, db')" by fastforce
  then have "linkedWallets db' = linkedWallets db" using enforce_keeps by (metis snd_conv)
  then show ?thesis using h by (cases h) (simp_all add: linkHooks_def)
qed

lemma start_good:
  assumes "\<And>st. first = Inr st \<Longrightarrow> linkStageGood X cs st"
  shows "linkStageGood X cs (xk_stage (startLink app request refused first))"
  using assms by (auto simp: startLink_def xFinish_def xGoTo_def Let_def split: option.split sum.split)

lemma link_begin_good:
  assumes "linkInv X w" "linkedWallets hub = linkedWallets (xw_hub w)" "linkStageGood X (xw_challenges w) (xk_stage c)"
  shows "linkInv X (beginLink i c hub w)"
  using assms by (auto simp: beginLink_def linkInv_def rowsGood_def)

lemma continue_good:
  assumes "linkInv X w" "xw_calls w i = Some c" "linkStep X dr fails c (xk_stage c) w = (c', w')"
  shows "linkInv X (w' \<lparr> xw_calls := (xw_calls w')(i \<mapsto> c') \<rparr>)"
proof -
  have "linkStepGood X w (c', w')"
    using linkStep_good [of X w "xk_stage c" c dr fails] assms unfolding linkInv_def by metis
  then have s: "rowsGood X w'" "challengesKept (xw_challenges w) (xw_challenges w')" "xw_calls w' = xw_calls w"
      "linkStageGood X (xw_challenges w') (xk_stage c')"
    by (simp_all add: linkStepGood_def)
  have "linkStageGood X (xw_challenges w') (xk_stage d)" if "xw_calls w j = Some d" for j d
    using assms(1) that stage_kept [OF s(2)] unfolding linkInv_def by blast
  then show ?thesis using s by (simp add: linkInv_def rowsGood_def)
qed

lemma linkEvent_good: "linkInv X w \<Longrightarrow> linkInv X (linkEvent X e w)"
proof (cases e)
  case (BeginChallenge i app authorization request body env)
  assume inv: "linkInv X w"
  obtain h hub where h: "linkHooks env X ''wallet-links.challenge'' (linkRequest app authorization (xb_external body)) (xw_hub w) = (h, hub)" by fastforce
  have hub: "linkedWallets hub = linkedWallets (xw_hub w)" using hooks_keep h by (metis snd_conv)
  have "linkStageGood X (xw_challenges w) (xk_stage (startLink app request (hookReply h) (map_sum id XlInsert (draftChallenge X env body))))"
    by (rule start_good) (use draft_good in \<open>auto simp: map_sum_def split: sum.splits\<close>)
  then show ?thesis using link_begin_good [OF inv hub] h BeginChallenge by simp
next
  case (BeginAnswer i app authorization request v env)
  assume inv: "linkInv X w"
  obtain h hub where h: "linkHooks env X ''wallet-links.verify'' (linkRequest app authorization (xv_external v)) (xw_hub w) = (h, hub)" by fastforce
  have hub: "linkedWallets hub = linkedWallets (xw_hub w)" using hooks_keep h by (metis snd_conv)
  have "linkStageGood X (xw_challenges w) (xk_stage (startLink app request (hookReply h) (Inr (XlUser v))))" by (rule start_good) auto
  then show ?thesis using link_begin_good [OF inv hub] h BeginAnswer by simp
next
  case (ContinueLink i dr fails)
  assume inv: "linkInv X w"
  then show ?thesis using continue_good [OF inv] ContinueLink by (auto split: option.split prod.split)
next
  case (OtherHub hub)
  assume "linkInv X w"
  then show ?thesis using OtherHub by (simp add: linkInv_def rowsGood_def)
qed

lemma linkStart_good: "linkInv X (linkStart hub audit)"
  by (simp add: linkStart_def linkInv_def rowsGood_def linkedOf_def)

lemma linkRun_append: "linkRun X hub audit (evs @ evs') = fold (linkEvent X) evs' (linkRun X hub audit evs)"
  by (simp add: linkRun_def)

lemma link_run_good: "linkInv X (linkRun X hub audit evs)"
  by (induction evs rule: rev_induct) (simp_all add: linkRun_append linkEvent_good linkRun_def [of _ _ _ "[]"] linkStart_good)

lemma link_run_rows:
  shows "\<And>x. x \<in> set (xw_challenges (linkRun X hub audit evs)) \<Longrightarrow> challengeGood X x"
    "\<And>r. r \<in> set (xw_links (linkRun X hub audit evs)) \<Longrightarrow> \<exists>x\<in>set (xw_challenges (linkRun X hub audit evs)). provenBy X x r"
    "linkedWallets (xw_hub (linkRun X hub audit evs)) = linkedOf (xw_links (linkRun X hub audit evs))"
    "distinct (map linkKey (xw_links (linkRun X hub audit evs)))"
  using link_run_good [of X hub audit evs] unfolding linkInv_def rowsGood_def by blast+

text \<open>
  C15. A session for an external wallet needs two proofs: the signature of the session's challenge, and a link of this wallet
  to the same user, for which the wallet signed a text of the hub that names its Taproot address.
\<close>

theorem external_session_needs_link:
  assumes "postExternalSession env appId cid sig (xw_hub (linkRun X hub audit evs)) = (Ok m, db')"
  shows "\<exists>c x nonce iso linkSignature. loadConsumableChallenge (he_now env) cid appId (xw_hub (linkRun X hub audit evs)) = Some c
     \<and> x \<in> set (xw_challenges (linkRun X hub audit evs)) \<and> xc_user x = ch_user c \<and> ch_provider c = Some (xc_provider x)
     \<and> ch_address c = Some (xc_address x) \<and> xs_isP2TR X (xc_address x)
     \<and> he_bip322 env (xc_address x) (ch_message c) sig = Some True
     \<and> xs_verify X (xc_address x) (makeChallengeMessage ''arch-wallet-hub'' (xc_address x) nonce iso) linkSignature = Some True"
proof -
  let ?w = "linkRun X hub audit evs"
  obtain c l where c: "loadConsumableChallenge (he_now env) cid appId (xw_hub ?w) = Some c" "l \<in> set (linkedWallets (xw_hub ?w))" "lw_user l = ch_user c"
      "ch_provider c = Some (lw_provider l)" "ch_address c = Some (lw_address l)" "he_bip322 env (lw_address l) (ch_message c) sig = Some True"
    using postExternalSession_Ok [OF assms] by blast
  then obtain r where r: "r \<in> set (xw_links ?w)" "lw_user l = xr_user r" "lw_provider l = xr_provider r" "lw_address l = xr_address r"
    by (auto simp: link_run_rows(3) linkedOf_def)
  obtain x where x: "x \<in> set (xw_challenges ?w)" "provenBy X x r" using link_run_rows(2) [OF r(1)] by blast
  obtain nonce iso where "xc_challenge x = makeChallengeMessage ''arch-wallet-hub'' (xc_address x) nonce iso" "xs_isP2TR X (xc_address x)"
    using link_run_rows(1) [OF x(1)] by (auto simp: challengeGood_def)
  moreover have "xc_user x = ch_user c" "ch_provider c = Some (xc_provider x)" "ch_address c = Some (xc_address x)" "lw_address l = xc_address x"
      "xs_verify X (xc_address x) (xc_challenge x) (xr_signature r) = Some True"
    using x(2) r c by (auto simp: provenBy_def linkKey_def)
  ultimately show ?thesis using c(1,6) x(1) by metis
qed

subsection \<open>The first account\<close>

text \<open>The Arch account under which an address was linked first.\<close>

definition firstArch :: "link_row \<Rightarrow> string option" where
  "firstArch r = (case xr_legacy r of Some a \<Rightarrow> Some a | None \<Rightarrow> xr_arch r)"

definition rowKept :: "link_row \<Rightarrow> link_row \<Rightarrow> bool" where
  "rowKept r q \<longleftrightarrow> xr_id q = xr_id r \<and> linkKey q = linkKey r \<and> xr_created q = xr_created r \<and> xr_network q = xr_network r
     \<and> (xr_arch r \<noteq> None \<longrightarrow> firstArch q = firstArch r \<and> xr_arch q \<noteq> None) \<and> (xr_publicKey r \<noteq> None \<longrightarrow> xr_publicKey q \<noteq> None)"

lemma rowKept_refl [simp]: "rowKept r r"
  by (simp add: rowKept_def)

lemma rowKept_trans: "rowKept r q \<Longrightarrow> rowKept q s \<Longrightarrow> rowKept r s"
  by (simp add: rowKept_def)

lemma relinked_kept: "rowKept r (relinked p r)"
  by (auto simp: rowKept_def relinked_def firstArch_def linkKey_def split: option.split)

lemma upsert_kept:
  assumes "upsertLink env appId p rows = Some (linkId, rows')" "r \<in> set rows"
  shows "\<exists>q\<in>set rows'. rowKept r q"
  using assms(1)
proof (cases rule: upsert_cases)
  case (1 s)
  let ?q = "if linkKey r = proofKey p then relinked p r else r"
  have "rowKept r ?q" by (simp add: relinked_kept)
  moreover have "?q \<in> set rows'" using 1(3) assms(2) by auto
  ultimately show ?thesis by blast
next
  case 2
  then show ?thesis using assms(2) rowKept_refl by fastforce
qed

lemma step_links:
  assumes "r \<in> set (xw_links w)"
  shows "\<exists>q\<in>set (xw_links (snd (linkStep X dr fails c st w))). rowKept r q"
proof -
  have same: "\<exists>q\<in>set (xw_links w). rowKept r q" using assms rowKept_refl by blast
  show ?thesis
  proof (cases "\<exists>p. st = XlWrite p \<and> \<not> fails")
    case True
    then obtain p where p: "st = XlWrite p" "fails = False" by blast
    then show ?thesis
      using same upsert_kept assms by (simp add: writeStep_def split: option.split prod.split)
  next
    case False
    then have "xw_links (snd (linkStep X dr fails c st w)) = xw_links w"
      by (cases st; cases fails) (auto simp: challengeStep_def Let_def split: option.split prod.split sum.split)
    then show ?thesis using same by simp
  qed
qed

lemma event_links:
  assumes "r \<in> set (xw_links w)"
  shows "\<exists>q\<in>set (xw_links (linkEvent X e w)). rowKept r q"
proof (cases "\<exists>i dr fails c. e = ContinueLink i dr fails \<and> xw_calls w i = Some c")
  case True
  then obtain i dr fails c where e: "e = ContinueLink i dr fails" "xw_calls w i = Some c" by blast
  then show ?thesis using step_links [OF assms, of X dr fails c "xk_stage c"]
    by (cases "linkStep X dr fails c (xk_stage c) w") simp
next
  case False
  then have "xw_links (linkEvent X e w) = xw_links w"
    by (cases e) (auto simp: beginLink_def split: prod.split option.split)
  then show ?thesis using assms rowKept_refl by metis
qed

lemma run_links: "r \<in> set (xw_links w) \<Longrightarrow> \<exists>q\<in>set (xw_links (fold (linkEvent X) evs w)). rowKept r q"
proof (induction evs arbitrary: w r)
  case (Cons e evs)
  obtain q where q: "q \<in> set (xw_links (linkEvent X e w))" "rowKept r q" using event_links [OF Cons.prems] by blast
  then show ?case using Cons.IH [OF q(1)] rowKept_trans by fastforce
next
  case (Nil w r)
  then show ?case by (intro bexI [of _ r]) simp_all
qed

text \<open>
  C16. A linked wallet stays linked, under the same identifier, and the first Arch account it was linked under is never lost: it is
  the current account or the legacy one.
\<close>

theorem first_account_kept:
  assumes "r \<in> set (xw_links (linkRun X hub audit evs))"
  shows "\<exists>q\<in>set (xw_links (linkRun X hub audit (evs @ evs'))). xr_id q = xr_id r \<and> linkKey q = linkKey r \<and> firstArch q = firstArch r
     \<and> (\<exists>a. firstArch q = Some a)"
proof -
  obtain q where q: "q \<in> set (xw_links (linkRun X hub audit (evs @ evs')))" "rowKept r q" using run_links [OF assms] unfolding linkRun_append by blast
  have "xr_arch r \<noteq> None" using link_run_rows(2) [OF assms] by (auto simp: provenBy_def)
  then show ?thesis using q by (intro bexI [OF _ q(1)]) (auto simp: rowKept_def firstArch_def split: option.split)
qed

text \<open>
  A link made again without a public key: the canonical account is replaced by the one decoded from the address (the
  tweaked key), while the row keeps the public key.
\<close>

lemma canonical_overwritten:
  assumes "proofGood X cs p" "xc_publicKey (xp_record p) = None" "xr_publicKey r = Some k" "xr_arch r \<noteq> Some (xp_arch p)" "xr_legacy r = None"
  shows "xr_publicKey (relinked p r) = Some k" "xr_legacy (relinked p r) = xr_arch r"
    "\<exists>a. resolveArchAccountAddress (xs_libs X) (xc_address (xp_record p)) = Some a \<and> xr_arch (relinked p r) = Some (accountOf a)"
  using assms by (auto simp: relinked_def proofGood_def identityGood_def linkIdentity_def given_def split: option.splits)

text \<open>
  \<open>used_at\<close> is read in one transaction and set in another: what the write answers does not depend on it, so verifications of
  one challenge that are both past the check both link.
\<close>

lemma used_not_checked_again:
  "fst (writeStep X dr c p (w \<lparr> xw_challenges := cs \<rparr>)) = fst (writeStep X dr c p w)"
  "xw_links (snd (writeStep X dr c p (w \<lparr> xw_challenges := cs \<rparr>))) = xw_links (snd (writeStep X dr c p w))"
  by (auto simp: writeStep_def split: option.split prod.split)

subsection \<open>A link and a session\<close>

definition linkSetup :: "(string, sample_message) link_setup" where
  "linkSetup = \<lparr> xs_libs = sampleLibs, xs_verify = (\<lambda>a m s. Some (s = ''sig'')), xs_isAddress = (\<lambda>a. True), xs_isP2TR = starts_with ''tb1p'',
     xs_hmac = (\<lambda>s m. ''h''), xs_jsonb = (\<lambda>v. v), xs_auditSecret = Some ''s'', xs_enforced = \<lparr> er_all = False, er_set = [] \<rparr> \<rparr>"

definition linkDraws :: draws where
  "linkDraws = \<lparr> su_env = sampleEnv, su_auditId = ''a1'' \<rparr>"

definition linkBody :: challenge_body where
  "linkBody = \<lparr> xb_external = ''alice'', xb_provider = ''unisat'', xb_address = sampleAddress, xb_network = None, xb_publicKey = None \<rparr>"

definition linkAnswer :: link_answer where
  "linkAnswer = \<lparr> xv_external = ''alice'', xv_challenge = ''s1'', xv_signature = ''sig'', xv_hint = None \<rparr>"

definition linkTables :: hub_db where
  "linkTables = \<lparr> appKeys = [], users = [\<lparr> us_id = ''u9'', us_app = ''app'', us_external = Some ''alice'' \<rparr>], resources = [], linkedWallets = [],
     challenges = [\<lparr> ch_id = ''c1'', ch_app = ''app'', ch_user = ''u9'', ch_payload = [], ch_message = ''m'', ch_expires = 2000, ch_consumed = None,
       ch_provider = Some ''unisat'', ch_address = Some sampleAddress, ch_resource = None \<rparr>], sessions = [] \<rparr>"

definition linkStory :: "link_event list" where
  "linkStory = [BeginChallenge 0 (Some ''app'') None ''q0'' linkBody sampleEnv, ContinueLink 0 linkDraws False,
     BeginAnswer 2 (Some ''app'') None ''q1'' linkAnswer sampleEnv, ContinueLink 2 linkDraws False, ContinueLink 2 linkDraws False,
     ContinueLink 2 linkDraws False, OtherHub linkTables]"

definition linkDraft :: challenge_draft where
  "linkDraft = \<lparr> xd_body = linkBody, xd_publicKey = None, xd_arch = sampleKeyOf 1, xd_canonical = False,
     xd_message = makeChallengeMessage ''arch-wallet-hub'' sampleAddress ''n'' (toISOString (1000 + LINK_CHALLENGE_TTL_MS)),
     xd_expires = 1000 + LINK_CHALLENGE_TTL_MS \<rparr>"

definition linkRecord :: link_challenge where
  "linkRecord = \<lparr> xc_id = ''s1'', xc_app = ''app'', xc_user = ''u9'', xc_provider = ''unisat'', xc_address = sampleAddress,
     xc_challenge = xd_message linkDraft, xc_expires = 1000 + LINK_CHALLENGE_TTL_MS, xc_used = None, xc_publicKey = None \<rparr>"

definition linkProof :: link_proof where
  "linkProof = \<lparr> xp_record = linkRecord, xp_user = ''u9'', xp_signature = ''sig'', xp_scheme = ''wallet_specific'', xp_arch = sampleKeyOf 1,
     xp_canonical = False \<rparr>"

lemma sample_identity: "linkIdentity linkSetup prefix None sampleAddress = Inr (sampleKeyOf 1, False)"
proof -
  have b: "bech32ish sampleAddress" by (simp add: bech32ish_def sampleAddress_def starts_with_def)
  have "al_b58encode sampleLibs (replicate 32 1) = sampleKeyOf 1" by (simp add: sampleLibs_def sampleKeyOf_def)
  then show ?thesis using sample_program b by (simp add: linkIdentity_def linkSetup_def resolveArchAccountAddress_def)
qed

lemma sample_draft: "draftChallenge linkSetup sampleEnv linkBody = Inr linkDraft"
  using sample_identity
  by (simp add: draftChallenge_def linkBody_def linkDraft_def given_def Let_def rbind_def sampleEnv_def)
    (simp add: linkSetup_def sampleAddress_def starts_with_def)

lemma link_sample_check:
  "checkAnswer linkSetup 1000 linkAnswer ''u9'' (Some linkRecord) = Inr linkProof"
  using sample_identity
  by (simp add: checkAnswer_def linkRecord_def linkProof_def linkAnswer_def given_def rbind_def LINK_CHALLENGE_TTL_MS_def)
    (simp add: linkSetup_def)

definition linkNoted :: "draws \<Rightarrow> link_call \<Rightarrow> string \<Rightarrow> string \<Rightarrow> string \<Rightarrow> string \<Rightarrow> (string \<times> json) list \<Rightarrow> audit_row list \<Rightarrow> audit_row list" where
  "linkNoted dr c u e t i p rows = the (linkNote linkSetup dr c u e t i p rows)"

lemma sample_note: "\<exists>row. linkNote linkSetup dr c u e t i p [] = Some [row] \<and> ar_chainSeq row = Some 1"
  by (auto simp: linkNote_def auditEvent_def requireAuditSecret_def insertAuditLog_def linkSetup_def chainTip_def chainedRows_def Let_def
      MAX_SAFE_INTEGER_def split: sum.splits)

lemma sample_noted:
  "linkNote linkSetup dr c u e t i p [] = Some (linkNoted dr c u e t i p [])"
  "linkNote linkSetup dr c u e t i p (linkNoted dr' c' u' e' t' i' p' []) = Some (linkNoted dr c u e t i p (linkNoted dr' c' u' e' t' i' p' []))"
proof -
  show "linkNote linkSetup dr c u e t i p [] = Some (linkNoted dr c u e t i p [])"
    using sample_note [of dr c u e t i p] by (auto simp: linkNoted_def)
  obtain row where row: "linkNoted dr' c' u' e' t' i' p' [] = [row]" "ar_chainSeq row = Some 1"
    using sample_note [of dr' c' u' e' t' i' p'] by (auto simp: linkNoted_def)
  have "\<exists>rows. linkNote linkSetup dr c u e t i p [row] = Some rows"
  proof (cases "ar_appId row = xk_app c")
    case True
    then have "chainTip (xk_app c) [row] = Some row" using row(2) by (simp add: chainTip_def chainedRows_def)
    then show ?thesis using row(2)
      by (simp add: linkNote_def auditEvent_def requireAuditSecret_def insertAuditLog_def linkSetup_def Let_def MAX_SAFE_INTEGER_def)
  next
    case False
    then have "chainTip (xk_app c) [row] = None" by (simp add: chainTip_def chainedRows_def)
    then show ?thesis
      by (simp add: linkNote_def auditEvent_def requireAuditSecret_def insertAuditLog_def linkSetup_def Let_def MAX_SAFE_INTEGER_def)
  qed
  then show "linkNote linkSetup dr c u e t i p (linkNoted dr' c' u' e' t' i' p' []) = Some (linkNoted dr c u e t i p (linkNoted dr' c' u' e' t' i' p' []))"
    using row(1) by (auto simp: linkNoted_def)
qed

definition linkCall :: "string \<Rightarrow> link_stage \<Rightarrow> link_call" where
  "linkCall request st = \<lparr> xk_app = ''app'', xk_request = request, xk_stage = st, xk_reply = None \<rparr>"

lemma sample_hooks:
  assumes "resources db = []" "linkedWallets db = []"
  shows "linkHooks env linkSetup routeKey (linkRequest (Some ''app'') None ext) db = (Passes (linkRequest (Some ''app'') None ext), db)"
  using assms
  by (simp add: linkHooks_def enforceSessionForRoute_def isRouteEnforced_def linkSetup_def requireSessionForExistingUser_def
      claimedExternalUserId_def linkRequest_def userHasCredentials_def split: json.split)

lemma sample_start: "startLink (Some ''app'') request (hookReply (Passes q)) (Inr st) = linkCall request st"
  by (simp add: startLink_def hookReply_def given_def xGoTo_def linkCall_def)

lemma sample_asked:
  fixes w
  defines "w \<equiv> linkRun linkSetup (ht_db emptyHub) [] (take 2 linkStory)"
  shows "xw_challenges w = [linkRecord]" "xw_links w = []" "resources (xw_hub w) = []" "linkedWallets (xw_hub w) = []"
    "users (xw_hub w) = users linkTables" "xw_calls w 2 = None" "\<exists>dr c u e t i p. xw_audit w = linkNoted dr c u e t i p []"
proof -
  have w: "w = snd (linkStep linkSetup linkDraws False c (XlInsert linkDraft) v) \<lparr> xw_calls := (xw_calls (snd (linkStep linkSetup linkDraws False c (XlInsert linkDraft) v)))
      (0 \<mapsto> fst (linkStep linkSetup linkDraws False c (XlInsert linkDraft) v)) \<rparr>"
    if "c = linkCall ''q0'' (XlInsert linkDraft)" "v = linkStart (ht_db emptyHub) [] \<lparr> xw_calls := [0 \<mapsto> c] \<rparr>" for c v
    unfolding w_def linkRun_def linkStory_def that
    by (simp add: linkStart_def sample_hooks sample_start sample_draft beginLink_def emptyHub_def split_beta)
      (simp add: linkCall_def)
  have "getOrCreateUserByExternalId sampleEnv ''app'' (xb_external (xd_body linkDraft)) (xw_hub (linkStart (ht_db emptyHub) []))
      = (''u9'', (ht_db emptyHub) \<lparr> users := users linkTables, linkedWallets := [] \<rparr>)"
    by (simp add: getOrCreateUserByExternalId_def linkStart_def emptyHub_def linkTables_def linkDraft_def linkBody_def sampleEnv_def)
  then show "xw_challenges w = [linkRecord]" "xw_links w = []" "resources (xw_hub w) = []" "linkedWallets (xw_hub w) = []"
    "users (xw_hub w) = users linkTables" "xw_calls w 2 = None" "\<exists>dr c u e t i p. xw_audit w = linkNoted dr c u e t i p []"
    using w [OF refl refl]
    by (auto simp: challengeStep_def linkDraws_def linkCall_def linkStart_def sample_noted Let_def emptyHub_def xFinish_def linkRecord_def linkDraft_def
      linkBody_def sampleEnv_def) (intro exI, rule refl)
qed

lemma sample_linked:
  fixes w
  defines "w \<equiv> linkRun linkSetup (ht_db emptyHub) [] linkStory"
  shows "xw_hub w = linkTables \<lparr> linkedWallets := linkedOf [newLink sampleEnv ''app'' linkProof] \<rparr>"
    "xw_links w = [newLink sampleEnv ''app'' linkProof]"
proof -
  define v where "v = linkRun linkSetup (ht_db emptyHub) [] (take 2 linkStory)"
  note a = sample_asked [folded v_def]
  have w: "w = fold (linkEvent linkSetup) (drop 2 linkStory) v"
    unfolding w_def v_def using linkRun_append [of linkSetup "ht_db emptyHub" "[]" "take 2 linkStory" "drop 2 linkStory"] by simp
  obtain dr c u e t i p where audit: "xw_audit v = linkNoted dr c u e t i p []" using a(7) by blast
  have find: "loadLinkChallenge (xv_challenge linkAnswer) ''app'' [linkRecord] = Some linkRecord" "xv_external linkAnswer = ''alice''"
    by (simp_all add: loadLinkChallenge_def linkRecord_def linkAnswer_def)
  have user: "getOrCreateUserByExternalId sampleEnv ''app'' ''alice'' (xw_hub v) = (''u9'', xw_hub v)"
    using a(5) by (simp add: getOrCreateUserByExternalId_def linkTables_def)
  have now: "he_now sampleEnv = 1000" "su_env linkDraws = sampleEnv" by (simp_all add: linkDraws_def sampleEnv_def)
  have up: "upsertLink sampleEnv ''app'' linkProof [] = Some (''s1'', [newLink sampleEnv ''app'' linkProof])" "migratedFrom linkProof [] = None"
    by (simp_all add: upsertLink_def migratedFrom_def sampleEnv_def)
  show "xw_hub w = linkTables \<lparr> linkedWallets := linkedOf [newLink sampleEnv ''app'' linkProof] \<rparr>"
    "xw_links w = [newLink sampleEnv ''app'' linkProof]"
    unfolding w
    by (simp_all add: linkStory_def sample_hooks a sample_start beginLink_def linkCall_def user find now link_sample_check xGoTo_def writeStep_def
        audit sample_noted migrationNote_def up xFinish_def)
qed

theorem external_session_needs_link_sample:
  "\<exists>x nonce iso linkSignature. x \<in> set (xw_challenges (linkRun linkSetup (ht_db emptyHub) [] linkStory)) \<and> xc_user x = ''u9''
     \<and> xs_verify linkSetup (xc_address x) (makeChallengeMessage ''arch-wallet-hub'' (xc_address x) nonce iso) linkSignature = Some True"
proof -
  let ?w = "linkRun linkSetup (ht_db emptyHub) [] linkStory"
  have "\<exists>m db'. postExternalSession sampleEnv ''app'' ''c1'' ''x'' (xw_hub ?w) = (Ok m, db')"
    by (simp add: sample_linked postExternalSession_def loadConsumableChallenge_def linkTables_def sampleEnv_def given_def sampleAddress_def
        getLinkedWalletForUser_def linkedOf_def newLink_def linkProof_def linkRecord_def verifyExternalChallengeSignature_def mintSession_def
        mintSessionForUser_def Let_def)
  then obtain m db' where "postExternalSession sampleEnv ''app'' ''c1'' ''x'' (xw_hub ?w) = (Ok m, db')" by blast
  from external_session_needs_link [OF this]
  obtain c x nonce iso linkSignature where x: "loadConsumableChallenge (he_now sampleEnv) ''c1'' ''app'' (xw_hub ?w) = Some c"
    "x \<in> set (xw_challenges ?w)" "xc_user x = ch_user c"
    "xs_verify linkSetup (xc_address x) (makeChallengeMessage ''arch-wallet-hub'' (xc_address x) nonce iso) linkSignature = Some True" by blast
  have "ch_user c = ''u9''" using x(1) by (auto simp: sample_linked loadConsumableChallenge_def linkTables_def split: if_splits)
  then show ?thesis using x(2-4) by metis
qed

theorem first_account_kept_sample:
  "\<exists>q\<in>set (xw_links (linkRun linkSetup (ht_db emptyHub) [] (linkStory @ linkStory))). firstArch q = Some (sampleKeyOf 1)"
proof -
  have "newLink sampleEnv ''app'' linkProof \<in> set (xw_links (linkRun linkSetup (ht_db emptyHub) [] linkStory))" by (simp add: sample_linked)
  from first_account_kept [OF this, of linkStory] show ?thesis by (auto simp: firstArch_def newLink_def linkProof_def)
qed

end
