(* ===== verification/Spec2Isabelle.thy ===== *)
theory Spec2Isabelle
  imports LiquidityMath SwapMath ClammState Signature Runestone TxBuild AuditChain RateLimit SpendCap Session HubAuth HubRuns RecoveryRuns KeystoreRuns WalletRuns ProviderOnce SocialRuns WalletLinkRuns
begin

text \<open>
  A verification library for the arch-wallet-hub repository: a Chrome wallet for Bitcoin and the Arch
  network (\<open>apps/chrome-wallet\<close>), the hub service behind it (\<open>services/wallet-hub-api\<close>), and the swap engine
  both use (\<open>packages/arch-swap-engine\<close>).

  \<^bold>\<open>How the parts interact.\<close> The swap engine reads pools from chain accounts (borsh), quotes swaps and
  liquidity with fixed-point arithmetic, and turns wallet signatures into the compact form the chain
  wants. The wallet builds Bitcoin transactions: it classifies the outputs it owns, selects coins
  without touching inscriptions and runes, writes runestones, and fills a PSBT. Its sessions give the
  signers a key that was registered for the account; sites that ask for transfers pass the spend
  caps and the balance gates. The hub limits the rate of requests and writes every security event
  into a chain of keyed hashes.

  \<^bold>\<open>Shared theories.\<close> \<open>Prelude\<close>: errors as sums, indexing and slicing, division rounded up and down.
  \<open>JsStrings\<close>, \<open>JsNumbers\<close>, \<open>JsArrays\<close>, \<open>Json\<close>: what the source uses of the language (trimming, hex and decimal
  text, \<open>BigInt\<close> and \<open>Number\<close>, stable sorting with a comparator, \<open>JSON.stringify\<close>); \<open>JsValues\<close>, \<open>JsDates\<close>: properties of
  untyped values and ISO dates.

  \<^bold>\<open>Swap engine\<close> (\<open>src/lib\<close> of the package). \<open>ClammTypes\<close>, \<open>TokenMath\<close>, \<open>TickMath\<close>, \<open>SwapMath\<close>, \<open>LiquidityMath\<close>: \<open>clamm/math/*\<close>;
  bigints are \<open>int\<close>, \<open>>>\<close> and \<open>/\<close> are written as the shifts and truncating divisions they are; the floating
  power behind tick prices is a parameter with the bounds the code relies on. Shown: what a step
  and a whole swap charge and pay, that adding and removing liquidity gives no profit, that the tick
  search finds the tick. \<open>Hex\<close>, \<open>Base58\<close>, \<open>Borsh\<close>, \<open>ClammState\<close>: \<open>arch/hex.ts\<close>, \<open>arch/base58.ts\<close>, \<open>arch/borsh.ts\<close>,
  \<open>clamm/state.ts\<close>; round trips of the codecs and of the three account layouts. \<open>Signature\<close>: \<open>arch/signature.ts\<close>;
  low \<open>s\<close>, witness stacks, DER.

  \<^bold>\<open>Wallet\<close> (\<open>src\<close> of the app). \<open>Runestone\<close>: \<open>utils/runestone.ts\<close>, with a decoder of the protocol's varints as the
  reference. \<open>BtcProtection\<close>, \<open>CoinSelect\<close>, \<open>TxBuild\<close>: \<open>utils/btc-protection.ts\<close>, the three selections, \<open>btc-dust.ts\<close> and the
  three PSBT builders; a PSBT is the record of its inputs and outputs. \<open>SpendCap\<close>: \<open>spend-tracker.ts\<close>, \<open>transfer-gates.ts\<close>,
  \<open>arch-fee.ts\<close>, \<open>u64-amount.ts\<close> and the gate of \<open>Approve.tsx\<close>. \<open>Session\<close>: \<open>session/SessionManager.ts\<close> as a transition
  system: a call in flight is the \<open>await\<close> it stands at, one event resumes one call, realms share the
  key on disk and the snapshot; reachable worlds are an inductive predicate and the safety
  properties are invariants of every interleaving.

  \<^bold>\<open>Wallet state.\<close> \<open>Keystore\<close>: \<open>crypto/keystore.ts\<close> with the copy of the key that each realm keeps, its operations as
  calls that interleave at every \<open>await\<close>; \<open>KeystoreSafety\<close>: the invariants of every interleaving; \<open>KeystoreRuns\<close>: run one by
  one the operations refine a safe under a password, reads return what was stored, a lock lasts, and two
  interleavings that break this. \<open>AddressNetwork\<close>: \<open>utils/addressNetwork.ts\<close>, bech32m as words, with the code's linearity
  behind its round trip. \<open>WalletState\<close>: the types of \<open>state/types.ts\<close> and the addresses of an account; \<open>WalletStore\<close>: the
  migrations and operations of \<open>state/wallet-store.ts\<close>; \<open>WalletSafety\<close>: a migrated state is settled; \<open>WalletRuns\<close>: what every
  state of a wallet's life has, and that a site signs with the account it is shown.

  \<^bold>\<open>Provider.\<close> \<open>Provider\<close>: \<open>entrypoints/background.ts\<close>, \<open>messaging/pending-requests.ts\<close> and the content script as a transition
  system of handlers, messages under way, documents and tabs; a run is a list of events with fresh identifiers.
  \<open>ProviderSafety\<close>: its invariant, each part of which names an earlier event; \<open>ProviderRuns\<close>: results reach only the page
  that asked and only approved, sites are connected by consent, and what the store of requests loses; \<open>ProviderOnce\<close>:
  a message is answered at most once.

  \<^bold>\<open>Hub\<close> (\<open>src\<close> of the service). \<open>AuditChain\<close>: \<open>audit/*.ts\<close> and the insertion in \<open>db/queries.ts\<close>; \<open>RateLimit\<close>: \<open>plugins/rateLimit.ts\<close>.
  \<open>HubAuth\<close>: \<open>auth/sessionToken.ts\<close>, \<open>routes/authSessions.ts\<close>, \<open>plugins/sessionAuth.ts\<close>, \<open>plugins/appAuth.ts\<close> over tables as lists.

  \<^bold>\<open>Signing requests.\<close> \<open>ArchTx\<close>: addresses, BIP-322 digests and token instructions of both sides over a record
  of the packages they call, with its laws. \<open>SigningRequest\<close>: the table, the configuration and the
  readiness (\<open>db/signingRequests.ts\<close>, \<open>indexer/forRequest.ts\<close>); \<open>CreateRequest\<close>, \<open>SubmitRequest\<close>: the three routes of
  \<open>routes/signingRequests.ts\<close>, submits and reads as calls that interleave at every \<open>await\<close>. \<open>SubmitSafety\<close>: the
  invariant of every reachable hub, from which come one broadcast for each request, with its owner's
  signature over the message that is sent. \<open>HubRoundtrip\<close>: the submit rebuilds the message that the
  creation asked to sign. \<open>HubVerify\<close>: the wallet's \<open>hub-signing-request-verify.ts\<close>; what it accepts is what the
  hub broadcasts, and it accepts the hub's own answer. \<open>HubRuns\<close>: runs, their properties and a sample hub.

  \<^bold>\<open>Recovery.\<close> \<open>Recovery\<close>: the table of challenges (\<open>db/recovery.ts\<close>) and the counts of codes; \<open>RecoveryFlow\<close>: the three
  endpoints of \<open>routes/recovery.ts\<close> as calls that interleave at every \<open>await\<close>; \<open>RecoverySafety\<close>: the invariant of every
  reachable state; \<open>RecoveryRuns\<close>: guesses are capped, codes go to the owner of the wallet and are checked for the
  wallet they were sent for, closed challenges stay closed, and two interleavings that break what the code
  means to keep (the cap of codes, the status of a consumed challenge).

  \<^bold>\<open>Social login.\<close> \<open>Base64\<close>, \<open>Oidc\<close>: \<open>auth/oidc.ts\<close>, what an accepted id token is; \<open>IdToken\<close>: \<open>auth/idToken.ts\<close>, with the round
  trip of a minted token; \<open>Identities\<close>: \<open>db/identities.ts\<close> over tables as lists, a broken unique index throws; \<open>SocialLogin\<close>:
  \<open>routes/authOAuth.ts\<close>, calls that interleave at every \<open>await\<close>, with a record of the tokens accepted, the keys
  registered and the sessions minted. \<open>SocialTables\<close>: what every statement keeps of the tables; \<open>SocialSafety\<close>, \<open>SocialSteps\<close>:
  the invariant of every run, step by step; \<open>SocialRuns\<close>: keys are registered for the owner of the identity only, a
  verified email was vouched for, a token passes once, every call ends, and three runs that differ from the comments.

  \<^bold>\<open>Linked wallets.\<close> \<open>WalletLink\<close>: \<open>routes/walletLinking.ts\<close> as calls that interleave at every transaction; \<open>WalletLinkSafety\<close>:
  each linked wallet rests on a signature over a text of the hub for its address; \<open>WalletLinkRuns\<close>: so does a session of
  \<open>HubAuth\<close> for an external wallet, and the first account of a linked wallet is never lost.

  \<^bold>\<open>Bounds and fuel.\<close> No loop runs on fuel: the swap loop, the tick search and the varint loop terminate by
  a measure, the others are structural. JavaScript numbers that the source uses as counts or
  satoshis are integers; where the source tests for integers a number may be something else.

  \<^bold>\<open>Not modelled.\<close> User interface, transport and storage drivers, routes that only forward, generated and
  vendored code, infrastructure. Hash functions, bech32 and base58 of the packages, floating-point
  powers and rounding, fresh keys and failures of the browser are arguments of the definitions.
\<close>

end
